(* ===== verification/Prelude.thy ===== *)
theory Prelude
  imports Main "HOL-Library.Char_ord" "HOL-Library.List_Lexorder"
begin

text \<open>
  What every component shares.  Go returns failures as values: a function whose only
  result is an error is modelled by \<open>'e option\<close> (\<open>None\<close> is Go's nil error), a function
  with a result and an error by \<open>'e + 'a\<close>.  A Go map is an association list with
  distinct keys; where the code ranges over a map, the list stands for the order in which
  the runtime delivers the entries, and the lemmas quantify over it.
  Strings are byte sequences (\<open>char list\<close>), compared bytewise as Go compares them.
\<close>

section \<open>Collections of rules\<close>

named_theorems check_simps \<open>when a sequence of guards reports no error\<close>

section \<open>Guards and early returns\<close>

text \<open>A guard \<open>if c { return e }\<close> and a body made of such guards, run in order.\<close>

definition fail_if :: "bool \<Rightarrow> 'e \<Rightarrow> 'e option" where
  "fail_if c e = (if c then Some e else None)"

fun first_some :: "'e option list \<Rightarrow> 'e option" where
  "first_some [] = None"
| "first_some (None # xs) = first_some xs"
| "first_some (Some e # xs) = Some e"

text \<open>A loop over a slice that returns the first error of its body.\<close>

fun first_error :: "('a \<Rightarrow> 'e option) \<Rightarrow> 'a list \<Rightarrow> 'e option" where
  "first_error f [] = None"
| "first_error f (x # xs) = (case f x of Some e \<Rightarrow> Some e | None \<Rightarrow> first_error f xs)"

text \<open>Wrapping an error, \<open>fmt.Errorf("...: %w", err)\<close>.\<close>

definition wrap_err :: "('e \<Rightarrow> 'f) \<Rightarrow> 'e option \<Rightarrow> 'f option" where
  "wrap_err w r = map_option w r"

lemma fail_if_None [check_simps, simp]: "fail_if c e = None \<longleftrightarrow> \<not> c"
  by (simp add: fail_if_def)

lemma fail_if_Some [simp]: "fail_if c e = Some e' \<longleftrightarrow> c \<and> e' = e"
  by (auto simp: fail_if_def)

lemma fail_if_True [simp]: "fail_if True e = Some e"
  by (simp add: fail_if_def)

lemma fail_if_False [simp]: "fail_if False e = None"
  by (simp add: fail_if_def)

lemma wrap_err_None [check_simps, simp]: "wrap_err w r = None \<longleftrightarrow> r = None"
  by (simp add: wrap_err_def)

lemma wrap_err_simps [simp]: "wrap_err w None = None" "wrap_err w (Some e) = Some (w e)"
  by (simp_all add: wrap_err_def)

lemma first_some_Cons_None [check_simps]:
  "first_some (x # xs) = None \<longleftrightarrow> x = None \<and> first_some xs = None"
  by (cases x) auto

lemma first_some_Nil_None [check_simps]: "first_some [] = None"
  by simp

lemma first_some_None: "first_some xs = None \<longleftrightarrow> (\<forall>x \<in> set xs. x = None)"
  by (induction xs rule: first_some.induct) auto

lemma first_some_append:
  "first_some (xs @ ys) = (case first_some xs of None \<Rightarrow> first_some ys | Some e \<Rightarrow> Some e)"
  by (induction xs rule: first_some.induct) auto

lemma first_some_in: "first_some xs = Some e \<Longrightarrow> Some e \<in> set xs"
  by (induction xs rule: first_some.induct) auto

lemma first_error_None [check_simps]:
  "first_error f xs = None \<longleftrightarrow> (\<forall>x \<in> set xs. f x = None)"
  by (induction xs) (auto split: option.splits)

lemma first_error_Some:
  "first_error f xs = Some e \<Longrightarrow> \<exists>x \<in> set xs. f x = Some e"
  by (induction xs) (auto split: option.splits)

section \<open>Association lists as Go maps\<close>

type_synonym ('k, 'v) gomap = "('k \<times> 'v) list"

definition map_wf :: "('k, 'v) gomap \<Rightarrow> bool" where
  "map_wf m \<longleftrightarrow> distinct (map fst m)"

fun map_set :: "'k \<Rightarrow> 'v \<Rightarrow> ('k, 'v) gomap \<Rightarrow> ('k, 'v) gomap" where
  "map_set k v [] = [(k, v)]"
| "map_set k v ((k', v') # m) = (if k = k' then (k, v) # m else (k', v') # map_set k v m)"

definition map_delete :: "'k \<Rightarrow> ('k, 'v) gomap \<Rightarrow> ('k, 'v) gomap" where
  "map_delete k m = filter (\<lambda>p. fst p \<noteq> k) m"

lemma map_of_map_set [simp]: "map_of (map_set k v m) = (map_of m)(k \<mapsto> v)"
  by (induction k v m rule: map_set.induct) (auto simp: fun_eq_iff)

lemma keys_map_set [simp]: "fst ` set (map_set k v m) = insert k (fst ` set m)"
  by (induction k v m rule: map_set.induct) (auto simp: insert_commute)

lemma distinct_map_set:
  "distinct (map fst m) \<Longrightarrow> distinct (map fst (map_set k v m))"
proof (induction k v m rule: map_set.induct)
  case (2 k v k' v' m)
  have "fst ` set (map_set k v m) = insert k (fst ` set m)" by simp
  with 2 show ?case by auto
qed simp

lemma map_wf_set [simp, intro]: "map_wf m \<Longrightarrow> map_wf (map_set k v m)"
  by (simp add: map_wf_def distinct_map_set)

lemma map_wf_Nil [simp]: "map_wf []"
  by (simp add: map_wf_def)

lemma map_of_map_delete [simp]: "map_of (map_delete k m) = (map_of m)(k := None)"
  by (induction m) (auto simp: map_delete_def fun_eq_iff)

lemma map_wf_delete [simp, intro]: "map_wf m \<Longrightarrow> map_wf (map_delete k m)"
  by (auto simp: map_wf_def map_delete_def distinct_map_filter)

section \<open>Sorting by a key, as the deterministic listings do\<close>

lemma sort_key_perm: "set (sort_key f xs) = set xs" "length (sort_key f xs) = length xs"
  by simp_all

section \<open>Runs of operations\<close>

text \<open>A run in which every operation must succeed, and one that goes on after a failure, which
  leaves the state as it was.\<close>

fun run_all :: "('s \<Rightarrow> 'i \<Rightarrow> 'e + 's) \<Rightarrow> 's \<Rightarrow> 'i list \<Rightarrow> 'e + 's" where
  "run_all f s [] = Inr s"
| "run_all f s (x # xs) = (case f s x of Inl err \<Rightarrow> Inl err | Inr s' \<Rightarrow> run_all f s' xs)"

fun attempt_all :: "('s \<Rightarrow> 'i \<Rightarrow> 'e + 's) \<Rightarrow> 's \<Rightarrow> 'i list \<Rightarrow> 's" where
  "attempt_all f s [] = s"
| "attempt_all f s (x # xs) = attempt_all f (case f s x of Inl err \<Rightarrow> s | Inr s' \<Rightarrow> s') xs"

lemma attempt_all_invariant_on:
  "(\<And>s x s'. P s \<Longrightarrow> x \<in> set xs \<Longrightarrow> f s x = Inr s' \<Longrightarrow> P s') \<Longrightarrow> P s \<Longrightarrow> P (attempt_all f s xs)"
proof (induction xs arbitrary: s)
  case (Cons x xs)
  have "P (case f s x of Inl err \<Rightarrow> s | Inr s' \<Rightarrow> s')"
  proof (cases "f s x")
    case (Inr s')
    from Cons.prems(1)[OF Cons.prems(2) _ Inr] Inr show ?thesis by simp
  qed (use Cons.prems(2) in simp)
  moreover have "P s'" if "P s" "y \<in> set xs" "f s y = Inr s'" for s y s'
    using Cons.prems(1) that by (metis list.set_intros(2))
  ultimately have "P (attempt_all f (case f s x of Inl err \<Rightarrow> s | Inr s' \<Rightarrow> s') xs)"
    by (intro Cons.IH) assumption+
  then show ?case by simp
qed simp

lemma attempt_all_invariant:
  "(\<And>s x s'. P s \<Longrightarrow> f s x = Inr s' \<Longrightarrow> P s') \<Longrightarrow> P s \<Longrightarrow> P (attempt_all f s xs)"
  by (induction f s xs rule: attempt_all.induct) (auto split: sum.split)

end
