(* ===== verification/GoStrings.thy ===== *)
theory GoStrings
  imports Prelude "HOL-Library.Word" "HOL-Library.Sublist"
begin

text \<open>
  What the code uses of Go's strings: byte sequences with \<open>strings.TrimSpace\<close>,
  \<open>strings.HasPrefix\<close>, \<open>strings.Split\<close>, \<open>encoding/hex\<close> and
  \<open>unicode/utf8\<close>.  A \<open>char\<close> is one byte.
\<close>

unbundle bit_operations_syntax

section \<open>Bytes\<close>

definition byte :: "char \<Rightarrow> int" where
  "byte c = of_char c"

definition is_digit :: "char \<Rightarrow> bool" where
  "is_digit c \<longleftrightarrow> 48 \<le> byte c \<and> byte c \<le> 57"

definition digit_val :: "char \<Rightarrow> int" where
  "digit_val c = byte c - 48"

definition is_lower_hex :: "char \<Rightarrow> bool" where
  "is_lower_hex c \<longleftrightarrow> is_digit c \<or> (97 \<le> byte c \<and> byte c \<le> 102)"

definition is_hex :: "char \<Rightarrow> bool" where
  "is_hex c \<longleftrightarrow> is_lower_hex c \<or> (65 \<le> byte c \<and> byte c \<le> 70)"

definition is_upper :: "char \<Rightarrow> bool" where
  "is_upper c \<longleftrightarrow> 65 \<le> byte c \<and> byte c \<le> 90"

text \<open>\<open>strings.HasPrefix\<close> and \<open>strings.TrimPrefix\<close>.\<close>

fun strip_prefix :: "string \<Rightarrow> string \<Rightarrow> string option" where
  "strip_prefix [] s = Some s"
| "strip_prefix (p # ps) [] = None"
| "strip_prefix (p # ps) (c # s) = (if p = c then strip_prefix ps s else None)"

definition has_prefix :: "string \<Rightarrow> string \<Rightarrow> bool" where
  "has_prefix s p \<longleftrightarrow> strip_prefix p s \<noteq> None"

lemma strip_prefix_Some: "strip_prefix p s = Some r \<longleftrightarrow> s = p @ r"
  by (induction p s rule: strip_prefix.induct) auto

lemma has_prefix_iff: "has_prefix s p \<longleftrightarrow> (\<exists>r. s = p @ r)"
  by (auto simp: has_prefix_def strip_prefix_Some)

section \<open>\<open>strings.TrimSpace\<close>\<close>

text \<open>
  The UTF-8 encodings of the code points for which \<open>unicode.IsSpace\<close> holds.  Each begins
  with a byte that is not a continuation byte, so at either end of a string at most one of
  them matches, which is what the rune-wise trimming of the library finds.
\<close>

definition bytes :: "int list \<Rightarrow> string" where
  "bytes = map char_of"

definition space_seqs :: "string list" where
  "space_seqs =
     map bytes
      ([[9], [10], [11], [12], [13], [32], [0xC2, 0x85], [0xC2, 0xA0], [0xE1, 0x9A, 0x80]]
       @ map (\<lambda>b. [0xE2, 0x80, b]) [0x80 .. 0x8A]
       @ [[0xE2, 0x80, 0xA8], [0xE2, 0x80, 0xA9], [0xE2, 0x80, 0xAF],
          [0xE2, 0x81, 0x9F], [0xE3, 0x80, 0x80]])"

fun strip_any :: "string list \<Rightarrow> string \<Rightarrow> string option" where
  "strip_any [] s = None"
| "strip_any (p # ps) s =
     (case p of [] \<Rightarrow> strip_any ps s
      | _ # _ \<Rightarrow> (case strip_prefix p s of Some r \<Rightarrow> Some r | None \<Rightarrow> strip_any ps s))"

lemma strip_any_shorter: "strip_any ps s = Some r \<Longrightarrow> length r < length s"
  by (induction ps) (auto simp: strip_prefix_Some split: list.splits option.splits)

function trim_left :: "string list \<Rightarrow> string \<Rightarrow> string" where
  "trim_left ps s = (case strip_any ps s of Some r \<Rightarrow> trim_left ps r | None \<Rightarrow> s)"
  by pat_completeness auto
termination
  by (relation "measure (\<lambda>(ps, s). length s)") (auto dest: strip_any_shorter)

declare trim_left.simps [simp del]

definition trim_right :: "string list \<Rightarrow> string \<Rightarrow> string" where
  "trim_right ps s = rev (trim_left (map rev ps) (rev s))"

definition trim_space :: "string \<Rightarrow> string" where
  "trim_space s = trim_right space_seqs (trim_left space_seqs s)"

abbreviation blank :: "string \<Rightarrow> bool" where
  "blank s \<equiv> trim_space s = []"

lemma trim_left_suffix: "suffix (trim_left ps s) s"
proof (induction ps s rule: trim_left.induct)
  case (1 ps s)
  show ?case
  proof (cases "strip_any ps s")
    case None
    then show ?thesis by (simp add: trim_left.simps)
  next
    case (Some r)
    have "suffix r s" if "strip_any ps s = Some r" for ps
      using that by (induction ps) (auto simp: strip_prefix_Some suffix_def split: list.splits option.splits)
    with Some 1 show ?thesis
      by (simp add: trim_left.simps [of ps s]) (meson suffix_order.trans)
  qed
qed

lemma trim_left_fixed: "strip_any ps (trim_left ps s) = None"
proof (induction ps s rule: trim_left.induct)
  case (1 ps s)
  then show ?case
    by (cases "strip_any ps s") (simp_all add: trim_left.simps [of ps s])
qed

lemma trim_left_idem: "trim_left ps (trim_left ps s) = trim_left ps s"
  by (subst trim_left.simps) (simp add: trim_left_fixed)

lemma trim_left_Nil [simp]: "trim_left ps [] = []"
proof -
  have "strip_any ps [] = None"
    using strip_any_shorter by (cases "strip_any ps []") fastforce+
  then show ?thesis by (simp add: trim_left.simps)
qed

lemma trim_right_prefix: "prefix (trim_right ps s) s"
  using trim_left_suffix [of "map rev ps" "rev s"]
  by (simp add: trim_right_def suffix_to_prefix)

text \<open>Dropping a suffix never exposes a new leading space sequence.\<close>

lemma strip_any_prefix_None:
  "strip_any ps s = None \<Longrightarrow> prefix t s \<Longrightarrow> strip_any ps t = None"
proof (induction ps)
  case (Cons p ps)
  then show ?case
    by (auto simp: prefix_def strip_prefix_Some split: list.splits option.splits)
      (metis append.assoc append_Cons option.distinct(1) strip_prefix_Some)
qed simp

lemma trim_space_idem [simp]: "trim_space (trim_space s) = trim_space s"
proof -
  let ?l = "trim_left space_seqs s"
  let ?r = "trim_right space_seqs ?l"
  have "strip_any space_seqs ?r = None"
    by (rule strip_any_prefix_None [OF trim_left_fixed trim_right_prefix])
  then have "trim_left space_seqs ?r = ?r"
    by (simp add: trim_left.simps)
  moreover have "trim_right space_seqs ?r = ?r"
    by (simp add: trim_right_def trim_left_idem)
  ultimately show ?thesis by (simp add: trim_space_def)
qed

lemma trim_space_Nil [simp]: "trim_space [] = []"
  by (simp add: trim_space_def trim_right_def)

lemma not_blank_nonempty: "trim_space s \<noteq> [] \<Longrightarrow> s \<noteq> []"
  by auto

text \<open>Evaluation: a string whose first and last byte start no space sequence is unchanged.\<close>

definition plain_byte :: "char \<Rightarrow> bool" where
  "plain_byte c \<longleftrightarrow> 33 \<le> byte c \<and> byte c < 128"

lemma space_seqs_heads:
  "p \<in> set space_seqs \<Longrightarrow> p \<noteq> [] \<and> \<not> plain_byte (hd p) \<and> \<not> plain_byte (last p)"
  unfolding space_seqs_def bytes_def plain_byte_def byte_def by (simp add: upto_rec1) auto

lemma strip_any_head:
  "(\<And>p. p \<in> set ps \<Longrightarrow> p \<noteq> [] \<and> \<not> plain_byte (hd p)) \<Longrightarrow> plain_byte c \<Longrightarrow> strip_any ps (c # s) = None"
  by (induction ps) (fastforce split: list.splits option.splits simp: strip_prefix_Some)+

lemma trim_space_plain:
  assumes "s \<noteq> []" "plain_byte (hd s)" "plain_byte (last s)"
  shows "trim_space s = s"
proof -
  obtain c t where s: "s = c # t" using assms(1) by (cases s) auto
  have "strip_any space_seqs s = None"
    unfolding s using assms(2) s space_seqs_heads by (intro strip_any_head) auto
  then have l: "trim_left space_seqs s = s" by (simp add: trim_left.simps)
  obtain d u where r: "rev s = d # u" using assms(1) by (cases "rev s") auto
  then have "d = last s" using assms(1) by (metis last_snoc rev.simps(2) rev_rev_ident)
  then have "strip_any (map rev space_seqs) (rev s) = None"
    unfolding r using assms(3) space_seqs_heads
    by (intro strip_any_head) (auto simp: hd_rev)
  then have "trim_right space_seqs s = s"
    by (simp add: trim_right_def trim_left.simps)
  with l show ?thesis by (simp add: trim_space_def)
qed

text \<open>Nor is a string blank that begins with such a byte.\<close>

lemma strip_any_Some: "strip_any ps s = Some r \<Longrightarrow> \<exists>p \<in> set ps. s = p @ r"
  by (induction ps) (auto simp: strip_prefix_Some split: list.splits option.splits)

lemma space_seqs_bytes: "p \<in> set space_seqs \<Longrightarrow> c \<in> set p \<Longrightarrow> \<not> plain_byte c"
  unfolding space_seqs_def bytes_def plain_byte_def byte_def by (simp add: upto_rec1) auto

lemma trim_left_keeps:
  "(\<And>p. p \<in> set ps \<Longrightarrow> c \<notin> set p) \<Longrightarrow> c \<in> set s \<Longrightarrow> c \<in> set (trim_left ps s)"
proof (induction ps s rule: trim_left.induct)
  case (1 ps s)
  show ?case
  proof (cases "strip_any ps s")
    case (Some r)
    with 1 strip_any_Some[OF Some] have "c \<in> set r" by auto
    with 1 Some show ?thesis by (simp add: trim_left.simps)
  qed (use 1 in \<open>simp add: trim_left.simps\<close>)
qed

lemma plain_not_blank:
  assumes "plain_byte c" "c \<in> set s"
  shows "trim_space s \<noteq> []"
proof -
  have c: "c \<notin> set p" if "p \<in> set space_seqs" for p using space_seqs_bytes[OF that] assms(1) by blast
  have "c \<in> set (trim_left space_seqs s)" by (rule trim_left_keeps) (use c assms(2) in auto)
  then have "c \<in> set (trim_left (map rev space_seqs) (rev (trim_left space_seqs s)))"
    by (intro trim_left_keeps) (use c in auto)
  then show ?thesis unfolding trim_space_def trim_right_def by auto
qed

section \<open>\<open>encoding/hex\<close>\<close>

text \<open>\<open>hex.DecodeString\<close> succeeds on an even number of hexadecimal digits of either case.\<close>

definition valid_hex :: "string \<Rightarrow> bool" where
  "valid_hex s \<longleftrightarrow> even (length s) \<and> list_all is_hex s"

text \<open>The digits \<open>hex.EncodeToString\<close> writes for one byte.\<close>

definition hex_digit :: "int \<Rightarrow> char" where
  "hex_digit n = char_of (if n < 10 then 48 + n else 87 + n)"

definition hex_byte :: "8 word \<Rightarrow> string" where
  "hex_byte w = [hex_digit (uint (drop_bit 4 w)), hex_digit (uint (w AND 15))]"

lemma byte_hex_digit: "0 \<le> n \<Longrightarrow> n < 16 \<Longrightarrow> byte (hex_digit n) = (if n < 10 then 48 + n else 87 + n)"
  by (simp add: byte_def hex_digit_def)

lemma is_lower_hex_digit: "0 \<le> n \<Longrightarrow> n < 16 \<Longrightarrow> is_lower_hex (hex_digit n)"
  by (auto simp: is_lower_hex_def is_digit_def byte_hex_digit)

lemma low_nibble_bound: "uint ((w :: 8 word) AND 15) < 16"
proof -
  have "w AND 15 \<le> 15" by (rule word_and_le1)
  then show ?thesis by (simp add: word_le_def)
qed

lemma high_nibble_bound: "uint (drop_bit 4 (w :: 8 word)) < 16"
proof -
  have "uint w < 256" using uint_lt2p [of w] by simp
  then show ?thesis by (simp add: uint_div_distrib drop_bit_eq_div)
qed

lemma hex_byte_lower [simp]: "list_all is_lower_hex (hex_byte w)" "length (hex_byte w) = 2"
  by (simp_all add: hex_byte_def is_lower_hex_digit low_nibble_bound high_nibble_bound)

section \<open>\<open>unicode/utf8\<close>\<close>

definition cont_between :: "int \<Rightarrow> int \<Rightarrow> char \<Rightarrow> bool" where
  "cont_between lo hi c \<longleftrightarrow> lo \<le> byte c \<and> byte c \<le> hi"

definition is_cont :: "char \<Rightarrow> bool" where
  "is_cont = cont_between 0x80 0xBF"

text \<open>
  The length of the encoding a non-empty string starts with, \<open>None\<close> where
  \<open>utf8.DecodeRuneInString\<close> answers \<open>RuneError\<close> with width 1.
\<close>

fun rune_len :: "string \<Rightarrow> nat option" where
  "rune_len [] = None"
| "rune_len (c # s) =
     (let b = byte c;
          tail2 = (\<lambda>lo hi. case s of c1 # _ \<Rightarrow> cont_between lo hi c1 | _ \<Rightarrow> False);
          tail3 = (\<lambda>lo hi. case s of c1 # c2 # _ \<Rightarrow> cont_between lo hi c1 \<and> is_cont c2 | _ \<Rightarrow> False);
          tail4 = (\<lambda>lo hi. case s of c1 # c2 # c3 # _ \<Rightarrow>
                      cont_between lo hi c1 \<and> is_cont c2 \<and> is_cont c3 | _ \<Rightarrow> False);
          (n, ok) =
            (if b < 0x80 then (1, True)
             else if b < 0xC2 then (1, False)
             else if b < 0xE0 then (2, tail2 0x80 0xBF)
             else if b = 0xE0 then (3, tail3 0xA0 0xBF)
             else if b = 0xED then (3, tail3 0x80 0x9F)
             else if b < 0xF0 then (3, tail3 0x80 0xBF)
             else if b = 0xF0 then (4, tail4 0x90 0xBF)
             else if b < 0xF4 then (4, tail4 0x80 0xBF)
             else if b = 0xF4 then (4, tail4 0x80 0x8F)
             else (1, False))
      in if ok then Some n else None)"

definition rune_width :: "string \<Rightarrow> nat" where
  "rune_width s = (case rune_len s of Some n \<Rightarrow> max 1 n | None \<Rightarrow> 1)"

lemma rune_width_pos: "0 < rune_width s"
  by (auto simp: rune_width_def split: option.splits)

text \<open>\<open>utf8.RuneCountInString\<close> and \<open>utf8.ValidString\<close>.\<close>

function rune_count :: "string \<Rightarrow> nat" where
  "rune_count s = (if s = [] then 0 else Suc (rune_count (drop (rune_width s) s)))"
  by pat_completeness auto
termination
  by (relation "measure length") (auto intro: diff_less rune_width_pos)

function valid_utf8 :: "string \<Rightarrow> bool" where
  "valid_utf8 s \<longleftrightarrow>
     (s = [] \<or> (if rune_len s = None then False else valid_utf8 (drop (rune_width s) s)))"
  by pat_completeness auto
termination
  by (relation "measure length") (auto intro: diff_less rune_width_pos)

declare rune_count.simps [simp del] valid_utf8.simps [simp del]

lemma rune_count_le_length: "rune_count s \<le> length s"
proof (induction s rule: rune_count.induct)
  case (1 s)
  show ?case
  proof (cases "s = []")
    case True
    then show ?thesis by (simp add: rune_count.simps)
  next
    case False
    then have "0 < length s" by simp
    moreover from False 1 have "rune_count (drop (rune_width s) s) \<le> length s - rune_width s" by simp
    ultimately have "Suc (rune_count (drop (rune_width s) s)) \<le> length s"
      using rune_width_pos [of s] by linarith
    with False show ?thesis by (simp add: rune_count.simps [of s])
  qed
qed

lemma ascii_utf8:
  "list_all (\<lambda>c. byte c < 128) s \<Longrightarrow> valid_utf8 s \<and> rune_count s = length s"
proof (induction s)
  case Nil
  show ?case by (simp add: valid_utf8.simps rune_count.simps)
next
  case (Cons c s)
  have l: "rune_len (c # s) = Some 1" "rune_width (c # s) = 1"
    using Cons.prems by (simp_all add: rune_width_def)
  have "valid_utf8 (c # s) = valid_utf8 s" "rune_count (c # s) = Suc (rune_count s)"
    by (subst valid_utf8.simps rune_count.simps, simp only: l, simp)+
  with Cons show ?case by simp
qed

section \<open>Digests\<close>

text \<open>
  64 lowercase hexadecimal digits.  The code also compares the value with
  \<open>strings.ToLower\<close> of itself, which on bytes that are hexadecimal digits says that no
  digit is upper case; any other byte is refused by the decoding.
\<close>

definition valid_sha256 :: "string \<Rightarrow> bool" where
  "valid_sha256 s \<longleftrightarrow> length s = 64 \<and> list_all (\<lambda>c. \<not> is_upper c) s \<and> valid_hex s"

lemma valid_sha256_iff: "valid_sha256 s \<longleftrightarrow> length s = 64 \<and> list_all is_lower_hex s"
proof -
  have "(\<not> is_upper c \<and> is_hex c) = is_lower_hex c" for c
    by (auto simp: is_upper_def is_hex_def is_lower_hex_def is_digit_def)
  then have "(list_all (\<lambda>c. \<not> is_upper c) s \<and> list_all is_hex s) = list_all is_lower_hex s"
    by (simp add: list_all_iff) blast
  then show ?thesis by (auto simp: valid_sha256_def valid_hex_def)
qed

section \<open>\<open>strings.Split\<close> and \<open>strings.Join\<close> on one byte\<close>

fun split_on :: "char \<Rightarrow> string \<Rightarrow> string list" where
  "split_on d [] = [[]]"
| "split_on d (c # s) =
     (if c = d then [] # split_on d s
      else (case split_on d s of p # ps \<Rightarrow> (c # p) # ps | [] \<Rightarrow> [[c]]))"

fun join_with :: "string \<Rightarrow> string list \<Rightarrow> string" where
  "join_with d [] = []"
| "join_with d [p] = p"
| "join_with d (p # ps) = p @ d @ join_with d ps"

lemma split_on_nonempty: "split_on d s \<noteq> []"
  by (induction s) (auto split: list.splits)

lemma join_split: "join_with [d] (split_on d s) = s"
proof (induction s)
  case (Cons c s)
  obtain p ps where sp: "split_on d s = p # ps"
    using split_on_nonempty by (cases "split_on d s") auto
  with Cons show ?case by (cases ps) auto
qed simp

lemma split_on_parts: "p \<in> set (split_on d s) \<Longrightarrow> d \<notin> set p"
proof (induction s arbitrary: p)
  case (Cons c s)
  then show ?case
    using split_on_nonempty [of d s] by (cases "split_on d s") (auto split: if_splits)
qed simp

section \<open>Formatted messages\<close>

text \<open>
  What \<open>fmt.Errorf\<close> and \<open>fmt.Sprintf\<close> build: text as it is (\<open>T\<close>, also for \<open>%s\<close>), a string
  under \<open>%q\<close> (\<open>Q\<close>) and an integer under \<open>%d\<close> (\<open>D\<close>).  Messages are kept as the list of
  these fragments.
\<close>

datatype frag = T string | Q string | D int

type_synonym message = "frag list"

definition problem :: "bool \<Rightarrow> 'p \<Rightarrow> 'p list" where
  "problem c p = (if c then [p] else [])"

lemma problem_Nil [check_simps, simp]: "problem c p = [] \<longleftrightarrow> \<not> c"
  by (simp add: problem_def)

lemma problem_False [simp]: "problem False p = []"
  by (simp add: problem_def)

fun join_problems :: "message list \<Rightarrow> message" where
  "join_problems [] = []"
| "join_problems [p] = p"
| "join_problems (p # q # ps) = p @ [T ''; ''] @ join_problems (q # ps)"

definition at_index :: "string \<Rightarrow> nat \<Rightarrow> message" where
  "at_index name i = [T name, T ''['', D (int i), T '']'']"

section \<open>Decimal numerals\<close>

function dec_nat :: "int \<Rightarrow> string" where
  "dec_nat n = (if n < 10 then [hex_digit n] else dec_nat (n div 10) @ [hex_digit (n mod 10)])"
  by auto
termination by (relation "measure nat") auto

declare dec_nat.simps [simp del]

definition dec_string :: "int \<Rightarrow> string" where
  "dec_string n = (if n < 0 then CHR ''-'' # dec_nat (- n) else dec_nat n)"

end
