(* ===== verification/AmberTypes.thy ===== *)
theory AmberTypes
  imports GoStrings
begin

text \<open>
  The provenance value of amber/go/provenance.go and its validation.  An attribution holds
  its actors behind pointers; the type of the actors is a parameter of the record, so that
  the value model uses \<open>actor attribution\<close> and the sharing model of AmberSharing uses
  addresses.  The ID factory a value carries is an argument of the transitions.
\<close>

section \<open>Data\<close>

type_synonym amber_id = string

abbreviation "OriginLocal \<equiv> ''local''"
abbreviation "OriginIncoming \<equiv> ''incoming''"
abbreviation "OriginRetry \<equiv> ''retry''"
abbreviation "OriginReplay \<equiv> ''replay''"

abbreviation "ModeNormal \<equiv> ''normal''"
abbreviation "ModeRetry \<equiv> ''retry''"
abbreviation "ModeReplay \<equiv> ''replay''"

abbreviation Version :: int where "Version \<equiv> 1"
abbreviation MaxReferences :: nat where "MaxReferences \<equiv> 32"
abbreviation MaxStringLength :: nat where "MaxStringLength \<equiv> 256"
abbreviation maxUUIDLength :: nat where "maxUUIDLength \<equiv> 36"

definition maxDepth :: "64 word" where
  "maxDepth = NOT 0"

record mode =
  mode_kind :: string
  of_execution_id :: amber_id
  mode_replay_id :: amber_id

record causation =
  cause_kind :: string
  cause_id :: amber_id
  cause_type :: string

record actor =
  actor_id :: string
  actor_type :: string

record 'a attribution =
  initiated_by :: "'a option"
  executed_by :: "'a option"
  on_behalf_of :: "'a option"
  tenant_id :: string

record reference =
  ref_type :: string
  ref_id :: string
  ref_relation :: string

record provenance =
  p_version :: int
  work_id :: amber_id
  execution_id :: amber_id
  correlation_id :: amber_id
  p_causation :: "causation option"
  origin :: string
  depth :: "64 word"
  attempt :: "64 word"
  p_attribution :: "actor attribution option"
  p_mode :: mode
  p_references :: "reference list"

section \<open>Errors\<close>

datatype id_error = NotCanonicalUUID | NotLowercaseHexUUID | NotUUIDv4 | NotRFC4122Variant

datatype source_error = SourceID id_error | SourceIsExecution

datatype mode_error =
  NormalWithSources | ModeSource source_error | RetryWithReplayID
  | ModeReplayID source_error | UnsupportedModeKind string

datatype string_error = NotUTF8 | TooLong

datatype cause_error = UnsupportedCauseKind string | CauseID id_error | CauseType string_error

datatype actor_error = ActorIncomplete | ActorIDError string_error | ActorTypeError string_error

datatype attribution_error =
  InitiatedBy actor_error | ExecutedBy actor_error | OnBehalfOf actor_error
  | TenantError string_error

datatype reference_error =
  ReferenceIncomplete | RefTypeError string_error | RefIDError string_error
  | RefRelationError string_error

datatype provenance_error =
  UnsupportedVersion int | BadID string id_error | UnsupportedOrigin string | ZeroAttempt
  | BadMode mode_error | RetryDisagrees | ReplayDisagrees | NormalOrigin
  | BadCausation cause_error | BadAttribution attribution_error
  | TooManyReferences | BadReference nat reference_error | BadJSON

section \<open>Validation\<close>

text \<open>
  \<open>validateID\<close>.  The loop of the code walks runes; the first byte of a rune outside ASCII
  is neither a dash nor a hexadecimal digit and ends it at once, so a walk over bytes
  reports the same error.
\<close>

fun uuid_chars :: "nat \<Rightarrow> string \<Rightarrow> id_error option" where
  "uuid_chars i [] = None"
| "uuid_chars i (c # s) =
     (if i = 8 \<or> i = 13 \<or> i = 18 \<or> i = 23
      then (if c \<noteq> CHR ''-'' then Some NotCanonicalUUID else uuid_chars (Suc i) s)
      else if \<not> is_lower_hex c then Some NotLowercaseHexUUID
      else uuid_chars (Suc i) s)"

definition validateID :: "amber_id \<Rightarrow> id_error option" where
  "validateID v =
     first_some
      [fail_if (length v \<noteq> maxUUIDLength) NotCanonicalUUID,
       uuid_chars 0 v,
       fail_if (v ! 14 \<noteq> CHR ''4'') NotUUIDv4,
       fail_if (v ! 19 \<notin> set ''89ab'') NotRFC4122Variant]"

definition validateSourceID :: "amber_id \<Rightarrow> amber_id \<Rightarrow> source_error option" where
  "validateSourceID source execution =
     first_some
      [wrap_err SourceID (validateID source),
       fail_if (source = execution) SourceIsExecution]"

definition validateMode :: "mode \<Rightarrow> amber_id \<Rightarrow> mode_error option" where
  "validateMode m execution =
     (if mode_kind m = ModeNormal then
        fail_if (of_execution_id m \<noteq> [] \<or> mode_replay_id m \<noteq> []) NormalWithSources
      else if mode_kind m = ModeRetry then
        first_some
         [wrap_err ModeSource (validateSourceID (of_execution_id m) execution),
          fail_if (mode_replay_id m \<noteq> []) RetryWithReplayID]
      else if mode_kind m = ModeReplay then
        first_some
         [wrap_err ModeSource (validateSourceID (of_execution_id m) execution),
          wrap_err ModeReplayID (validateSourceID (mode_replay_id m) execution)]
      else Some (UnsupportedModeKind (mode_kind m)))"

definition validateString :: "string \<Rightarrow> string_error option" where
  "validateString v =
     first_some
      [fail_if (\<not> valid_utf8 v) NotUTF8,
       fail_if (MaxStringLength < rune_count v) TooLong]"

definition validateOptionalString :: "string \<Rightarrow> string_error option" where
  "validateOptionalString v = (if v = [] then None else validateString v)"

definition validateCausation :: "causation \<Rightarrow> cause_error option" where
  "validateCausation c =
     first_some
      [fail_if (cause_kind c \<notin> {''execution'', ''event'', ''message'', ''request'', ''artifact''})
         (UnsupportedCauseKind (cause_kind c)),
       wrap_err CauseID (validateID (cause_id c)),
       wrap_err CauseType (validateOptionalString (cause_type c))]"

definition validateActor :: "actor \<Rightarrow> actor_error option" where
  "validateActor a =
     first_some
      [fail_if (actor_id a = [] \<or> actor_type a = []) ActorIncomplete,
       wrap_err ActorIDError (validateString (actor_id a)),
       wrap_err ActorTypeError (validateString (actor_type a))]"

definition opt_check :: "('a \<Rightarrow> 'e option) \<Rightarrow> 'a option \<Rightarrow> 'e option" where
  "opt_check f x = (case x of None \<Rightarrow> None | Some v \<Rightarrow> f v)"

definition validateAttribution :: "actor attribution \<Rightarrow> attribution_error option" where
  "validateAttribution a =
     first_some
      [wrap_err InitiatedBy (opt_check validateActor (initiated_by a)),
       wrap_err ExecutedBy (opt_check validateActor (executed_by a)),
       wrap_err OnBehalfOf (opt_check validateActor (on_behalf_of a)),
       (if tenant_id a \<noteq> [] then wrap_err TenantError (validateString (tenant_id a)) else None)]"

definition validateReference :: "reference \<Rightarrow> reference_error option" where
  "validateReference r =
     first_some
      [fail_if (ref_type r = [] \<or> ref_id r = []) ReferenceIncomplete,
       wrap_err RefTypeError (validateString (ref_type r)),
       wrap_err RefIDError (validateString (ref_id r)),
       wrap_err RefRelationError (validateOptionalString (ref_relation r))]"

text \<open>
  \<open>Provenance.Validate\<close>.  The three identities are checked by ranging over a Go map, whose
  order is not determined: the order is the first argument, a list of the three fields.
\<close>

datatype id_field = WorkID | ExecutionID | CorrelationID

fun id_field_of :: "provenance \<Rightarrow> id_field \<Rightarrow> amber_id" where
  "id_field_of p WorkID = work_id p"
| "id_field_of p ExecutionID = execution_id p"
| "id_field_of p CorrelationID = correlation_id p"

fun id_field_name :: "id_field \<Rightarrow> string" where
  "id_field_name WorkID = ''work_id''"
| "id_field_name ExecutionID = ''execution_id''"
| "id_field_name CorrelationID = ''correlation_id''"

definition Validate_ranging :: "id_field list \<Rightarrow> provenance \<Rightarrow> provenance_error option" where
  "Validate_ranging order p =
     first_some
      [fail_if (p_version p \<noteq> Version) (UnsupportedVersion (p_version p)),
       first_error (\<lambda>n. wrap_err (BadID (id_field_name n)) (validateID (id_field_of p n))) order,
       fail_if (origin p \<noteq> OriginLocal \<and> origin p \<noteq> OriginIncoming \<and>
                origin p \<noteq> OriginRetry \<and> origin p \<noteq> OriginReplay) (UnsupportedOrigin (origin p)),
       fail_if (attempt p = 0) ZeroAttempt,
       wrap_err BadMode (validateMode (p_mode p) (execution_id p)),
       fail_if ((origin p = OriginRetry) \<noteq> (mode_kind (p_mode p) = ModeRetry)) RetryDisagrees,
       fail_if ((origin p = OriginReplay) \<noteq> (mode_kind (p_mode p) = ModeReplay)) ReplayDisagrees,
       fail_if (mode_kind (p_mode p) = ModeNormal \<and> origin p \<noteq> OriginLocal \<and>
                origin p \<noteq> OriginIncoming) NormalOrigin,
       wrap_err BadCausation (opt_check validateCausation (p_causation p)),
       wrap_err BadAttribution (opt_check validateAttribution (p_attribution p)),
       fail_if (MaxReferences < length (p_references p)) TooManyReferences,
       first_error (\<lambda>(i, r). wrap_err (BadReference i) (validateReference r))
         (enumerate 0 (p_references p))]"

definition Validate :: "provenance \<Rightarrow> provenance_error option" where
  "Validate = Validate_ranging [WorkID, ExecutionID, CorrelationID]"

abbreviation valid :: "provenance \<Rightarrow> bool" where
  "valid p \<equiv> Validate p = None"

section \<open>When validation accepts\<close>

lemma opt_check_None [check_simps]:
  "opt_check f x = None \<longleftrightarrow> (\<forall>v. x = Some v \<longrightarrow> f v = None)"
  by (cases x) (auto simp: opt_check_def)

lemma opt_check_simps [simp]: "opt_check f None = None" "opt_check f (Some v) = f v"
  by (simp_all add: opt_check_def)

lemma set_enumerate_Ball:
  "(\<forall>x \<in> set (enumerate n xs). case x of (i, r) \<Rightarrow> P r) \<longleftrightarrow> (\<forall>r \<in> set xs. P r)"
proof -
  have "set xs = snd ` set (enumerate n xs)"
    by (metis list.set_map map_snd_enumerate)
  then show ?thesis by auto
qed

lemma id_fields_Ball:
  "set order = {WorkID, ExecutionID, CorrelationID} \<Longrightarrow>
   (\<forall>n \<in> set order. validateID (id_field_of p n) = None)
   \<longleftrightarrow> validateID (work_id p) = None \<and> validateID (execution_id p) = None
        \<and> validateID (correlation_id p) = None"
  by simp

definition mode_agrees :: "provenance \<Rightarrow> bool" where
  "mode_agrees p \<longleftrightarrow>
     (mode_kind (p_mode p) = ModeNormal \<and> (origin p = OriginLocal \<or> origin p = OriginIncoming)
        \<and> of_execution_id (p_mode p) = [] \<and> mode_replay_id (p_mode p) = [])
   \<or> (mode_kind (p_mode p) = ModeRetry \<and> origin p = OriginRetry
        \<and> validateSourceID (of_execution_id (p_mode p)) (execution_id p) = None
        \<and> mode_replay_id (p_mode p) = [])
   \<or> (mode_kind (p_mode p) = ModeReplay \<and> origin p = OriginReplay
        \<and> validateSourceID (of_execution_id (p_mode p)) (execution_id p) = None
        \<and> validateSourceID (mode_replay_id (p_mode p)) (execution_id p) = None)"

lemma mode_agrees_kinds:
  "mode_kind (p_mode p) = ModeNormal \<Longrightarrow> mode_agrees p \<longleftrightarrow>
     (origin p = OriginLocal \<or> origin p = OriginIncoming)
     \<and> of_execution_id (p_mode p) = [] \<and> mode_replay_id (p_mode p) = []"
  "mode_kind (p_mode p) = ModeRetry \<Longrightarrow> mode_agrees p \<longleftrightarrow>
     origin p = OriginRetry \<and> mode_replay_id (p_mode p) = []
     \<and> validateSourceID (of_execution_id (p_mode p)) (execution_id p) = None"
  "mode_kind (p_mode p) = ModeReplay \<Longrightarrow> mode_agrees p \<longleftrightarrow>
     origin p = OriginReplay
     \<and> validateSourceID (of_execution_id (p_mode p)) (execution_id p) = None
     \<and> validateSourceID (mode_replay_id (p_mode p)) (execution_id p) = None"
  by (auto simp: mode_agrees_def)

text \<open>The invariants of the value, with no trace of the order in which they are checked.\<close>

definition well_formed :: "provenance \<Rightarrow> bool" where
  "well_formed p \<longleftrightarrow>
     p_version p = Version
   \<and> validateID (work_id p) = None \<and> validateID (execution_id p) = None
   \<and> validateID (correlation_id p) = None
   \<and> attempt p \<noteq> 0 \<and> mode_agrees p
   \<and> (\<forall>c. p_causation p = Some c \<longrightarrow> validateCausation c = None)
   \<and> (\<forall>a. p_attribution p = Some a \<longrightarrow> validateAttribution a = None)
   \<and> length (p_references p) \<le> MaxReferences
   \<and> (\<forall>r \<in> set (p_references p). validateReference r = None)"

lemma validateMode_None:
  "validateMode m e = None \<longleftrightarrow>
     (mode_kind m = ModeNormal \<and> of_execution_id m = [] \<and> mode_replay_id m = [])
   \<or> (mode_kind m = ModeRetry \<and> validateSourceID (of_execution_id m) e = None \<and> mode_replay_id m = [])
   \<or> (mode_kind m = ModeReplay \<and> validateSourceID (of_execution_id m) e = None
        \<and> validateSourceID (mode_replay_id m) e = None)"
  by (simp add: validateMode_def first_some_Cons_None del: first_some.simps(2,3))

text \<open>The five guards on origin and mode, taken together.\<close>

lemma origin_and_mode:
  "(o' = OriginLocal \<or> o' = OriginIncoming \<or> o' = OriginRetry \<or> o' = OriginReplay)
   \<and> (o' = OriginRetry \<longleftrightarrow> k = ModeRetry) \<and> (o' = OriginReplay \<longleftrightarrow> k = ModeReplay)
   \<and> (k = ModeNormal \<longrightarrow> o' = OriginLocal \<or> o' = OriginIncoming)
   \<and> (k = ModeNormal \<and> N \<or> k = ModeRetry \<and> R \<or> k = ModeReplay \<and> P)
   \<longleftrightarrow> (k = ModeNormal \<and> (o' = OriginLocal \<or> o' = OriginIncoming) \<and> N)
     \<or> (k = ModeRetry \<and> o' = OriginRetry \<and> R) \<or> (k = ModeReplay \<and> o' = OriginReplay \<and> P)"
  by auto

lemma Validate_ranging_iff:
  assumes "set order = {WorkID, ExecutionID, CorrelationID}"
  shows "Validate_ranging order p = None \<longleftrightarrow> well_formed p"
proof -
  let ?m = "p_mode p" and ?e = "execution_id p" and ?o = "origin p"
  have "Validate_ranging order p = None \<longleftrightarrow>
     p_version p = Version
   \<and> (validateID (work_id p) = None \<and> validateID ?e = None \<and> validateID (correlation_id p) = None)
   \<and> ((?o = OriginLocal \<or> ?o = OriginIncoming \<or> ?o = OriginRetry \<or> ?o = OriginReplay)
      \<and> (?o = OriginRetry \<longleftrightarrow> mode_kind ?m = ModeRetry) \<and> (?o = OriginReplay \<longleftrightarrow> mode_kind ?m = ModeReplay)
      \<and> (mode_kind ?m = ModeNormal \<longrightarrow> ?o = OriginLocal \<or> ?o = OriginIncoming)
      \<and> validateMode ?m ?e = None)
   \<and> attempt p \<noteq> 0
   \<and> (\<forall>c. p_causation p = Some c \<longrightarrow> validateCausation c = None)
   \<and> (\<forall>a. p_attribution p = Some a \<longrightarrow> validateAttribution a = None)
   \<and> length (p_references p) \<le> MaxReferences
   \<and> (\<forall>r \<in> set (p_references p). validateReference r = None)"
    unfolding Validate_ranging_def first_some_Cons_None fail_if_None wrap_err_None opt_check_None
      first_error_None set_enumerate_Ball prod.case_distrib [of "\<lambda>x. x = None"] id_fields_Ball [OF assms]
    by (simp only: not_less not_not de_Morgan_conj first_some.simps simp_thms conj_ac disj_ac imp_conv_disj)
  then show ?thesis
    unfolding validateMode_None origin_and_mode well_formed_def mode_agrees_def by (simp add: conj_ac)
qed

lemma valid_iff: "valid p \<longleftrightarrow> well_formed p"
  unfolding Validate_def by (rule Validate_ranging_iff) auto

end
