(* ===== verification/AmberTransitions.thy ===== *)
theory AmberTransitions
  imports AmberTypes
begin

text \<open>
  The transitions of amber/go/provenance.go: \<open>Start\<close>, \<open>Child\<close>, \<open>Retry\<close>, \<open>Replay\<close>, the wire
  form, and the default ID factory.  A factory is a function of a hidden state (the random
  source), \<open>'s \<Rightarrow> ('f + amber_id) \<times> 's\<close>; a transition takes it from the value it starts
  from and hands it on, so one factory argument serves a whole flow.
\<close>

section \<open>Factories and errors\<close>

type_synonym ('s, 'f) id_factory = "'s \<Rightarrow> ('f + amber_id) \<times> 's"

datatype transition_error =
  TooManyOptions | DepthOverflow | AttemptOverflow | BadChildOrigin

datatype 'f amber_error =
  InvalidProvenance provenance_error | InvalidTransition transition_error | FactoryError 'f

type_synonym ('s, 'f) outcome = "('f amber_error + provenance) \<times> 's"

definition with_id ::
  "('s, 'f) id_factory \<Rightarrow> 's \<Rightarrow> (amber_id \<Rightarrow> 's \<Rightarrow> ('f amber_error + 'a) \<times> 's) \<Rightarrow> ('f amber_error + 'a) \<times> 's" where
  "with_id f s k =
     (case f s of (Inl e, s') \<Rightarrow> (Inl (FactoryError e), s') | (Inr i, s') \<Rightarrow> k i s')"

text \<open>The last step of every transition: validate the new value, return it or the error.\<close>

definition checked :: "provenance \<Rightarrow> 's \<Rightarrow> ('s, 'f) outcome" where
  "checked p s =
     (case Validate p of Some e \<Rightarrow> (Inl (InvalidProvenance e), s) | None \<Rightarrow> (Inr p, s))"

definition guarded :: "provenance \<Rightarrow> 's \<Rightarrow> ('s, 'f) outcome \<Rightarrow> ('s, 'f) outcome" where
  "guarded p s k =
     (case Validate p of Some e \<Rightarrow> (Inl (InvalidProvenance e), s) | None \<Rightarrow> k)"

section \<open>Start, Child, Retry, Replay\<close>

record start_options =
  so_attribution :: "actor attribution option"
  so_references :: "reference list"

record child_options =
  co_cause :: "causation option"
  co_attribution :: "actor attribution option"
  co_origin :: string
  co_references :: "reference list"

definition no_start_options :: start_options where
  "no_start_options = \<lparr>so_attribution = None, so_references = []\<rparr>"

definition no_child_options :: child_options where
  "no_child_options = \<lparr>co_cause = None, co_attribution = None, co_origin = [], co_references = []\<rparr>"

definition normal_mode :: mode where
  "normal_mode = \<lparr>mode_kind = ModeNormal, of_execution_id = [], mode_replay_id = []\<rparr>"

definition execution_cause :: "provenance \<Rightarrow> causation" where
  "execution_cause p = \<lparr>cause_kind = ''execution'', cause_id = execution_id p, cause_type = []\<rparr>"

text \<open>The variadic options: none, or the only value supplied.\<close>

definition the_option :: "'o \<Rightarrow> 'o list \<Rightarrow> 'o" where
  "the_option z opts = (case opts of [x] \<Rightarrow> x | _ \<Rightarrow> z)"

definition Start ::
  "('s, 'f) id_factory \<Rightarrow> start_options list \<Rightarrow> 's \<Rightarrow> ('s, 'f) outcome" where
  "Start f options s =
     (if 1 < length options then (Inl (InvalidTransition TooManyOptions), s)
      else let opts = the_option no_start_options options in
        with_id f s (\<lambda>w s. with_id f s (\<lambda>e s. with_id f s (\<lambda>c s.
          checked \<lparr>p_version = Version, work_id = w, execution_id = e, correlation_id = c,
                   p_causation = None, origin = OriginLocal, depth = 0, attempt = 1,
                   p_attribution = so_attribution opts, p_mode = normal_mode,
                   p_references = so_references opts\<rparr> s))))"

definition Child ::
  "('s, 'f) id_factory \<Rightarrow> child_options list \<Rightarrow> provenance \<Rightarrow> 's \<Rightarrow> ('s, 'f) outcome" where
  "Child f options p s =
     (if 1 < length options then (Inl (InvalidTransition TooManyOptions), s)
      else guarded p s
       (if depth p = maxDepth then (Inl (InvalidTransition DepthOverflow), s)
        else let opts = the_option no_child_options options;
                 org = (if co_origin opts = [] then OriginLocal else co_origin opts)
        in if org \<noteq> OriginLocal \<and> org \<noteq> OriginIncoming
           then (Inl (InvalidTransition BadChildOrigin), s)
           else with_id f s (\<lambda>w s. with_id f s (\<lambda>e s.
             checked \<lparr>p_version = Version, work_id = w, execution_id = e,
                      correlation_id = correlation_id p,
                      p_causation = Some (case co_cause opts of None \<Rightarrow> execution_cause p | Some c \<Rightarrow> c),
                      origin = org, depth = depth p + 1, attempt = 1,
                      p_attribution = (case co_attribution opts of None \<Rightarrow> p_attribution p | Some a \<Rightarrow> Some a),
                      p_mode = normal_mode, p_references = co_references opts\<rparr> s))))"

definition Retry :: "('s, 'f) id_factory \<Rightarrow> provenance \<Rightarrow> 's \<Rightarrow> ('s, 'f) outcome" where
  "Retry f p s =
     guarded p s
      (if attempt p = maxDepth then (Inl (InvalidTransition AttemptOverflow), s)
       else with_id f s (\<lambda>e s.
         checked \<lparr>p_version = Version, work_id = work_id p, execution_id = e,
                  correlation_id = correlation_id p, p_causation = Some (execution_cause p),
                  origin = OriginRetry, depth = depth p, attempt = attempt p + 1,
                  p_attribution = p_attribution p,
                  p_mode = \<lparr>mode_kind = ModeRetry, of_execution_id = execution_id p, mode_replay_id = []\<rparr>,
                  p_references = p_references p\<rparr> s))"

definition Replay :: "('s, 'f) id_factory \<Rightarrow> provenance \<Rightarrow> 's \<Rightarrow> ('s, 'f) outcome" where
  "Replay f p s =
     guarded p s
      (with_id f s (\<lambda>e s. with_id f s (\<lambda>r s.
         checked \<lparr>p_version = Version, work_id = work_id p, execution_id = e,
                  correlation_id = correlation_id p, p_causation = Some (execution_cause p),
                  origin = OriginReplay, depth = depth p, attempt = attempt p,
                  p_attribution = p_attribution p,
                  p_mode = \<lparr>mode_kind = ModeReplay, of_execution_id = execution_id p, mode_replay_id = r\<rparr>,
                  p_references = p_references p\<rparr> s)))"

section \<open>The default factory\<close>

text \<open>
  \<open>newID\<close>: sixteen random bytes, given by their index, with the version and variant bits
  forced, written as a UUID.
\<close>

definition format_id :: "(nat \<Rightarrow> 8 word) \<Rightarrow> amber_id" where
  "format_id raw =
     (let b = raw(6 := (raw 6 AND 0x0F) OR 0x40, 8 := (raw 8 AND 0x3F) OR 0x80);
          hex = (\<lambda>lo hi. concat (map (\<lambda>i. hex_byte (b i)) [lo ..< hi]))
      in hex 0 4 @ ''-'' @ hex 4 6 @ ''-'' @ hex 6 8 @ ''-'' @ hex 8 10 @ ''-'' @ hex 10 16)"

definition newID :: "('s \<Rightarrow> ('f + (nat \<Rightarrow> 8 word)) \<times> 's) \<Rightarrow> ('s, 'f) id_factory" where
  "newID rand s =
     (case rand s of (Inl e, s') \<Rightarrow> (Inl e, s') | (Inr raw, s') \<Rightarrow> (Inr (format_id raw), s'))"

section \<open>The wire form\<close>

record wire_provenance =
  wire_version :: int
  wire_work_id :: amber_id
  wire_execution_id :: amber_id
  wire_correlation_id :: amber_id
  wire_causation :: "causation option"
  wire_origin :: string
  wire_depth :: "64 word"
  wire_attempt :: "64 word"
  wire_attribution :: "actor attribution option"
  wire_mode :: mode
  wire_references :: "reference list"

text \<open>
  \<open>MarshalJSON\<close> up to the struct it hands to \<open>encoding/json\<close>, and \<open>UnmarshalJSON\<close> from the
  struct \<open>encoding/json\<close> fills; the decoder of bytes into the struct is an argument.
\<close>

definition MarshalJSON :: "provenance \<Rightarrow> provenance_error + wire_provenance" where
  "MarshalJSON p =
     (case Validate p of
        Some e \<Rightarrow> Inl e
      | None \<Rightarrow> Inr \<lparr>wire_version = p_version p, wire_work_id = work_id p,
                     wire_execution_id = execution_id p, wire_correlation_id = correlation_id p,
                     wire_causation = p_causation p, wire_origin = origin p,
                     wire_depth = depth p, wire_attempt = attempt p,
                     wire_attribution = p_attribution p, wire_mode = p_mode p,
                     wire_references = p_references p\<rparr>)"

definition candidate :: "wire_provenance \<Rightarrow> provenance" where
  "candidate w =
     \<lparr>p_version = wire_version w, work_id = wire_work_id w, execution_id = wire_execution_id w,
      correlation_id = wire_correlation_id w, p_causation = wire_causation w,
      origin = wire_origin w, depth = wire_depth w, attempt = wire_attempt w,
      p_attribution = wire_attribution w, p_mode = wire_mode w, p_references = wire_references w\<rparr>"

text \<open>The receiver after the call is part of the result.\<close>

definition UnmarshalJSON ::
  "('b \<Rightarrow> wire_provenance option) \<Rightarrow> 'b \<Rightarrow> provenance \<Rightarrow> provenance_error option \<times> provenance" where
  "UnmarshalJSON decode data p =
     (case decode data of
        None \<Rightarrow> (Some BadJSON, p)
      | Some w \<Rightarrow> (case Validate (candidate w) of
                    Some e \<Rightarrow> (Some e, p)
                  | None \<Rightarrow> (None, candidate w)))"

definition zero_provenance :: provenance where
  "zero_provenance =
     \<lparr>p_version = 0, work_id = [], execution_id = [], correlation_id = [], p_causation = None,
      origin = [], depth = 0, attempt = 0, p_attribution = None,
      p_mode = \<lparr>mode_kind = [], of_execution_id = [], mode_replay_id = []\<rparr>, p_references = []\<rparr>"

definition FromJSON :: "('b \<Rightarrow> wire_provenance option) \<Rightarrow> 'b \<Rightarrow> provenance_error + provenance" where
  "FromJSON decode data =
     (case UnmarshalJSON decode data zero_provenance of
        (Some e, _) \<Rightarrow> Inl e | (None, p) \<Rightarrow> Inr p)"

section \<open>What a transition that succeeds returned\<close>

lemma with_id_Inr:
  "with_id f s k = (Inr x, s') \<longleftrightarrow> (\<exists>i t. f s = (Inr i, t) \<and> k i t = (Inr x, s'))"
  by (auto simp: with_id_def split: prod.splits sum.splits)

lemma checked_Inr: "checked p s = (Inr q, s') \<longleftrightarrow> q = p \<and> s' = s \<and> valid p"
  by (auto simp: checked_def split: option.splits)

lemma checked_eq: "checked p s =
    (if valid p then (Inr p, s) else (Inl (InvalidProvenance (the (Validate p))), s))"
  by (auto simp: checked_def split: option.splits)

lemma guarded_Inr: "guarded p s k = (Inr q, s') \<longleftrightarrow> valid p \<and> k = (Inr q, s')"
  by (auto simp: guarded_def split: option.splits)

lemma guarded_eq: "guarded p s k =
    (if valid p then k else (Inl (InvalidProvenance (the (Validate p))), s))"
  by (auto simp: guarded_def split: option.splits)

lemmas outcome_simps = with_id_Inr checked_Inr guarded_Inr

lemma word_next: "x \<noteq> maxDepth \<Longrightarrow> unat (x + 1) = unat x + 1"
proof -
  assume "x \<noteq> maxDepth"
  then have "x + 1 \<noteq> 0"
    by (simp add: maxDepth_def eq_neg_iff_add_eq_0 [symmetric])
  then show ?thesis by (metis add.commute unatSuc Suc_eq_plus1)
qed

end
