(* ===== verification/AmberFlow.thy ===== *)
theory AmberFlow
  imports AmberTransitions
begin

text \<open>
  Flows of Amber transitions: what each transition returns, what a run of transitions
  keeps, when a transition must succeed, and that the default factory makes valid IDs.
\<close>

section \<open>One transition\<close>

lemma validateSourceID_None: "validateSourceID v e = None \<longleftrightarrow> validateID v = None \<and> v \<noteq> e"
  by (simp add: validateSourceID_def first_some_Cons_None del: first_some.simps(2,3))

lemma validateCausation_execution:
  "validateCausation (execution_cause p) = None \<longleftrightarrow> validateID (execution_id p) = None"
  by (simp add: validateCausation_def execution_cause_def validateOptionalString_def first_some_Cons_None
      del: first_some.simps(2,3))

lemma Start_Inr:
  "Start f options s = (Inr q, s') \<Longrightarrow>
   valid q \<and> depth q = 0 \<and> attempt q = 1 \<and> origin q = OriginLocal \<and> p_mode q = normal_mode
   \<and> p_causation q = None"
  by (auto simp: Start_def outcome_simps Let_def split: if_splits)

lemma Child_Inr:
  assumes "Child f options p s = (Inr q, s')"
  shows "valid p \<and> valid q \<and> correlation_id q = correlation_id p
    \<and> unat (depth q) = unat (depth p) + 1 \<and> attempt q = 1 \<and> p_mode q = normal_mode
    \<and> (options = [] \<longrightarrow> p_causation q = Some (execution_cause p) \<and> p_attribution q = p_attribution p)"
  using assms
  by (auto simp: Child_def outcome_simps Let_def word_next the_option_def no_child_options_def
      split: if_splits)

lemma Retry_Inr:
  assumes "Retry f p s = (Inr q, s')"
  shows "valid p \<and> valid q \<and> correlation_id q = correlation_id p \<and> work_id q = work_id p
    \<and> depth q = depth p \<and> unat (attempt q) = unat (attempt p) + 1
    \<and> p_causation q = Some (execution_cause p)
    \<and> of_execution_id (p_mode q) = execution_id p \<and> execution_id q \<noteq> execution_id p"
proof -
  from assms have v: "valid q" and m: "p_mode q = \<lparr>mode_kind = ModeRetry, of_execution_id = execution_id p, mode_replay_id = []\<rparr>"
    by (auto simp: Retry_def outcome_simps split: if_splits)
  from v have "validateMode (p_mode q) (execution_id q) = None"
    by (simp add: valid_iff well_formed_def mode_agrees_def validateMode_None) blast
  then have "execution_id q \<noteq> execution_id p"
    by (auto simp: m validateMode_None validateSourceID_None)
  with assms show ?thesis by (auto simp: Retry_def outcome_simps word_next split: if_splits)
qed

lemma Replay_Inr:
  assumes "Replay f p s = (Inr q, s')"
  shows "valid p \<and> valid q \<and> correlation_id q = correlation_id p \<and> work_id q = work_id p
    \<and> depth q = depth p \<and> attempt q = attempt p
    \<and> p_causation q = Some (execution_cause p)
    \<and> of_execution_id (p_mode q) = execution_id p \<and> execution_id q \<noteq> execution_id p
    \<and> mode_replay_id (p_mode q) \<noteq> execution_id q"
proof -
  from assms obtain r where v: "valid q"
    and m: "p_mode q = \<lparr>mode_kind = ModeReplay, of_execution_id = execution_id p, mode_replay_id = r\<rparr>"
    by (auto simp: Replay_def outcome_simps split: if_splits)
  from v have "validateMode (p_mode q) (execution_id q) = None"
    by (simp add: valid_iff well_formed_def mode_agrees_def validateMode_None) blast
  then have "execution_id q \<noteq> execution_id p" "mode_replay_id (p_mode q) \<noteq> execution_id q"
    by (auto simp: m validateMode_None validateSourceID_None)
  with assms show ?thesis by (auto simp: Replay_def outcome_simps split: if_splits)
qed

section \<open>Runs\<close>

datatype step = SChild "child_options list" | SRetry | SReplay

fun take_step :: "('s, 'f) id_factory \<Rightarrow> step \<Rightarrow> provenance \<Rightarrow> 's \<Rightarrow> ('s, 'f) outcome" where
  "take_step f (SChild opts) p s = Child f opts p s"
| "take_step f SRetry p s = Retry f p s"
| "take_step f SReplay p s = Replay f p s"

text \<open>A run feeds each value to the next transition and stops at the first error.\<close>

fun run :: "('s, 'f) id_factory \<Rightarrow> step list \<Rightarrow> provenance \<Rightarrow> 's \<Rightarrow> ('s, 'f) outcome" where
  "run f [] p s = (Inr p, s)"
| "run f (x # xs) p s =
     (case take_step f x p s of
        (Inl e, s') \<Rightarrow> (Inl e, s')
      | (Inr q, s') \<Rightarrow> run f xs q s')"

definition is_child :: "step \<Rightarrow> bool" where
  "is_child x = (case x of SChild _ \<Rightarrow> True | _ \<Rightarrow> False)"

fun attempts :: "nat \<Rightarrow> step list \<Rightarrow> nat" where
  "attempts n [] = n"
| "attempts n (SChild _ # xs) = attempts 1 xs"
| "attempts n (SRetry # xs) = attempts (n + 1) xs"
| "attempts n (SReplay # xs) = attempts n xs"

lemma run_Cons_Inr:
  "run f (x # xs) p s = (Inr q, s') \<longleftrightarrow>
   (\<exists>r t. take_step f x p s = (Inr r, t) \<and> run f xs r t = (Inr q, s'))"
  by (cases "take_step f x p s"; cases "fst (take_step f x p s)") auto

lemma take_step_Inr:
  assumes "take_step f x p s = (Inr q, s')"
  shows "valid q \<and> correlation_id q = correlation_id p
    \<and> unat (depth q) = unat (depth p) + (if is_child x then 1 else 0)
    \<and> unat (attempt q) = attempts (unat (attempt p)) [x]
    \<and> (\<not> is_child x \<longrightarrow> work_id q = work_id p)"
  using assms by (cases x) (auto simp: is_child_def dest!: Child_Inr Retry_Inr Replay_Inr)

lemma attempts_Cons: "attempts n (x # xs) = attempts (attempts n [x]) xs"
  by (cases x) auto

lemma run_invariant:
  assumes "valid p" and "run f xs p s = (Inr q, s')"
  shows "valid q \<and> correlation_id q = correlation_id p
    \<and> unat (depth q) = unat (depth p) + length (filter is_child xs)
    \<and> unat (attempt q) = attempts (unat (attempt p)) xs
    \<and> (filter is_child xs = [] \<longrightarrow> work_id q = work_id p)"
  using assms
proof (induction xs arbitrary: p s)
  case Nil
  then show ?case by simp
next
  case (Cons x xs)
  from Cons.prems(2) obtain r t where 1: "take_step f x p s = (Inr r, t)"
    and 2: "run f xs r t = (Inr q, s')" by (auto simp: run_Cons_Inr simp del: run.simps)
  note st = take_step_Inr [OF 1]
  from Cons.IH [OF _ 2] st show ?case by (simp add: attempts_Cons [of _ x xs])
qed

section \<open>Options that are accepted\<close>

definition references_ok :: "reference list \<Rightarrow> bool" where
  "references_ok rs \<longleftrightarrow> length rs \<le> MaxReferences \<and> (\<forall>r \<in> set rs. validateReference r = None)"

definition start_accepted :: "start_options list \<Rightarrow> bool" where
  "start_accepted options \<longleftrightarrow> length options \<le> 1 \<and>
     (let opts = the_option no_start_options options
      in (\<forall>a. so_attribution opts = Some a \<longrightarrow> validateAttribution a = None) \<and> references_ok (so_references opts))"

definition child_accepted :: "child_options list \<Rightarrow> bool" where
  "child_accepted options \<longleftrightarrow> length options \<le> 1 \<and>
     (let opts = the_option no_child_options options
      in co_origin opts \<in> {[], OriginLocal, OriginIncoming} \<and>
         (\<forall>c. co_cause opts = Some c \<longrightarrow> validateCausation c = None) \<and>
         (\<forall>a. co_attribution opts = Some a \<longrightarrow> validateAttribution a = None) \<and> references_ok (co_references opts))"

lemma no_options_accepted [simp]: "start_accepted []" "child_accepted []"
  by (simp_all add: start_accepted_def child_accepted_def references_ok_def the_option_def no_start_options_def
      no_child_options_def)

section \<open>The ID factory as an interface\<close>

text \<open>What the transitions need of a factory: an ID it delivers is well formed.\<close>

locale id_source =
  fixes next_id :: "('s, 'f) id_factory"
  assumes next_valid: "next_id s = (Inr i, s') \<Longrightarrow> validateID i = None"
begin

lemma start_exact:
  assumes "next_id s = (Inr w, s1)" "next_id s1 = (Inr e, s2)" "next_id s2 = (Inr c, s3)"
  shows "(\<exists>p t. Start next_id options s = (Inr p, t)) \<longleftrightarrow> start_accepted options"
  using assms next_valid [OF assms(1)] next_valid [OF assms(2)] next_valid [OF assms(3)]
  by (simp add: Start_def with_id_def checked_eq valid_iff well_formed_def mode_agrees_kinds normal_mode_def
      Let_def start_accepted_def references_ok_def not_less)

lemma child_exact:
  assumes "valid p" "next_id s = (Inr w, s1)" "next_id s1 = (Inr e, s2)"
  shows "(\<exists>q t. Child next_id options p s = (Inr q, t)) \<longleftrightarrow> child_accepted options \<and> depth p \<noteq> maxDepth"
    "child_accepted options \<Longrightarrow> depth p = maxDepth \<Longrightarrow> Child next_id options p s = (Inl (InvalidTransition DepthOverflow), s)"
    "Child next_id options p s = (Inr q, t) \<Longrightarrow> execution_id q = e \<and> t = s2"
proof -
  have c: "validateCausation (execution_cause p) = None"
    using assms(1) by (simp add: valid_iff well_formed_def validateCausation_execution)
  note f = next_valid [OF assms(2)] next_valid [OF assms(3)]
  show "(\<exists>q t. Child next_id options p s = (Inr q, t)) \<longleftrightarrow> child_accepted options \<and> depth p \<noteq> maxDepth"
    using assms f c
    by (auto simp: Child_def guarded_eq with_id_def checked_eq valid_iff well_formed_def mode_agrees_kinds
        normal_mode_def Let_def child_accepted_def references_ok_def not_less split: option.splits if_splits)
  show "child_accepted options \<Longrightarrow> depth p = maxDepth \<Longrightarrow> Child next_id options p s = (Inl (InvalidTransition DepthOverflow), s)"
    using assms(1) by (simp add: Child_def guarded_eq child_accepted_def)
  show "Child next_id options p s = (Inr q, t) \<Longrightarrow> execution_id q = e \<and> t = s2"
    using assms by (auto simp: Child_def guarded_eq with_id_def checked_eq Let_def split: if_splits)
qed

lemma retry_accepts:
  assumes "valid p" "attempt p \<noteq> maxDepth" "next_id s = (Inr e, s1)" "e \<noteq> execution_id p"
  shows "\<exists>q. Retry next_id p s = (Inr q, s1) \<and> execution_id q = e"
proof -
  have "unat (attempt p + 1) \<noteq> 0" using word_next [OF assms(2)] by simp
  then have "attempt p + 1 \<noteq> 0" by auto
  then show ?thesis
    using assms next_valid [OF assms(3)]
    by (simp add: Retry_def guarded_eq with_id_def checked_eq valid_iff well_formed_def mode_agrees_kinds
        validateCausation_execution validateSourceID_None)
qed

lemma replay_accepts:
  assumes "valid p" "next_id s = (Inr e, s1)" "next_id s1 = (Inr r, s2)"
    and "e \<noteq> execution_id p" "r \<noteq> e"
  shows "\<exists>q. Replay next_id p s = (Inr q, s2) \<and> execution_id q = e \<and> mode_replay_id (p_mode q) = r"
  using assms next_valid [OF assms(2)] next_valid [OF assms(3)]
  by (simp add: Replay_def guarded_eq with_id_def checked_eq valid_iff well_formed_def mode_agrees_kinds
      validateCausation_execution validateSourceID_None)

lemma retry_exact:
  assumes "next_id s = (Inr e, s1)"
  shows "(\<exists>q t. Retry next_id p s = (Inr q, t)) \<longleftrightarrow> valid p \<and> attempt p \<noteq> maxDepth \<and> e \<noteq> execution_id p"
    "Retry next_id p s = (Inr q, t) \<Longrightarrow> execution_id q = e \<and> t = s1"
proof -
  show "(\<exists>q t. Retry next_id p s = (Inr q, t)) \<longleftrightarrow> valid p \<and> attempt p \<noteq> maxDepth \<and> e \<noteq> execution_id p"
  proof
    assume "\<exists>q t. Retry next_id p s = (Inr q, t)"
    then obtain q t where q: "Retry next_id p s = (Inr q, t)" by blast
    then have "attempt p \<noteq> maxDepth" "execution_id q = e" using assms by (auto simp: Retry_def outcome_simps split: if_splits)
    with Retry_Inr [OF q] show "valid p \<and> attempt p \<noteq> maxDepth \<and> e \<noteq> execution_id p" by simp
  qed (use retry_accepts [OF _ _ assms] in blast)
  show "Retry next_id p s = (Inr q, t) \<Longrightarrow> execution_id q = e \<and> t = s1"
    using assms by (auto simp: Retry_def outcome_simps split: if_splits)
qed

lemma replay_exact:
  assumes "next_id s = (Inr e, s1)" "next_id s1 = (Inr r, s2)"
  shows "(\<exists>q t. Replay next_id p s = (Inr q, t)) \<longleftrightarrow> valid p \<and> e \<noteq> execution_id p \<and> r \<noteq> e"
    "Replay next_id p s = (Inr q, t) \<Longrightarrow> execution_id q = e \<and> t = s2"
proof -
  have x: "Replay next_id p s = (Inr q, t) \<Longrightarrow> execution_id q = e \<and> mode_replay_id (p_mode q) = r \<and> t = s2" for q t
    using assms by (auto simp: Replay_def outcome_simps split: if_splits)
  show "(\<exists>q t. Replay next_id p s = (Inr q, t)) \<longleftrightarrow> valid p \<and> e \<noteq> execution_id p \<and> r \<noteq> e"
  proof
    assume "\<exists>q t. Replay next_id p s = (Inr q, t)"
    then obtain q t where q: "Replay next_id p s = (Inr q, t)" by blast
    with Replay_Inr [OF q] x [OF q] show "valid p \<and> e \<noteq> execution_id p \<and> r \<noteq> e" by auto
  qed (use replay_accepts [OF _ assms] in blast)
  show "Replay next_id p s = (Inr q, t) \<Longrightarrow> execution_id q = e \<and> t = s2" using x by blast
qed

text \<open>An execution ID that repeats is refused, never built into a value.\<close>

lemma retry_collision:
  assumes "valid p" "attempt p \<noteq> maxDepth" "next_id s = (Inr (execution_id p), s1)"
  shows "\<exists>err. Retry next_id p s = (Inl (InvalidProvenance err), s1)"
  using assms
  by (simp add: Retry_def guarded_eq with_id_def checked_eq valid_iff well_formed_def mode_agrees_kinds
      validateSourceID_None)

end

section \<open>The default factory is an ID source\<close>

text \<open>Forcing the bits leaves the version digit 4 and a variant digit of 8, 9, a or b.\<close>

lemma version_nibble: "drop_bit 4 ((w :: 8 word) AND 0x0F OR 0x40) = 4"
  by (simp add: drop_bit_and drop_bit_or) 

lemma variant_nibble: "uint (drop_bit 4 ((w :: 8 word) AND 0x3F OR 0x80)) \<in> {8, 9, 10, 11}"
proof -
  let ?y = "drop_bit 4 w AND 3"
  have "?y \<le> 3" by (rule word_and_le1)
  then have "uint ?y \<le> 3" by (simp add: word_le_def)
  moreover have "0 \<le> uint ?y" by simp
  ultimately have "uint ?y \<in> {0, 1, 2, 3}" unfolding insert_iff empty_iff by arith
  then have "?y \<in> {0, 1, 2, 3}" by (auto simp: word_uint_eq_iff)
  moreover have "drop_bit 4 (w AND 0x3F OR 0x80) = ?y OR 8"
    by (simp add: drop_bit_and drop_bit_or)
  ultimately show ?thesis by auto
qed

lemma is_lower_hex_4: "is_lower_hex CHR ''4''"
  by (simp add: is_lower_hex_def is_digit_def byte_def)

lemma format_id_valid: "validateID (format_id raw) = None"
proof -
  let ?b = "raw(6 := (raw 6 AND 0x0F) OR 0x40, 8 := (raw 8 AND 0x3F) OR 0x80)"
  let ?h = "\<lambda>i. hex_digit (uint (drop_bit 4 (?b i)))" and ?l = "\<lambda>i. hex_digit (uint (?b i AND 15))"
  have hex: "is_lower_hex (?h i)" "is_lower_hex (?l i)" for i
    by (intro is_lower_hex_digit high_nibble_bound low_nibble_bound uint_ge_0)+
  have upts: "[0 ..< 4] = [0, 1, 2, 3]" "[4 ..< 6] = [4, 5]" "[6 ..< 8] = [6, 7]"
      "[8 ..< 10] = [8, 9]" "[10 ..< 16] = [10, 11, 12, 13, 14, 15 :: nat]" by code_simp+
  have eq: "format_id raw =
    [?h 0, ?l 0, ?h 1, ?l 1, ?h 2, ?l 2, ?h 3, ?l 3, CHR ''-'', ?h 4, ?l 4, ?h 5, ?l 5, CHR ''-'',
     ?h 6, ?l 6, ?h 7, ?l 7, CHR ''-'', ?h 8, ?l 8, ?h 9, ?l 9, CHR ''-'',
     ?h 10, ?l 10, ?h 11, ?l 11, ?h 12, ?l 12, ?h 13, ?l 13, ?h 14, ?l 14, ?h 15, ?l 15]"
    unfolding format_id_def Let_def hex_byte_def upts by (simp del: fun_upd_apply)
  have "?h 6 = CHR ''4''" by (simp add: version_nibble hex_digit_def char_of_eq_iff del: drop_bit_or)
  moreover have "?h 8 \<in> set ''89ab''"
    using variant_nibble [of "raw 8"] by (auto simp: hex_digit_def char_of_eq_iff)
  ultimately show ?thesis
    unfolding validateID_def first_some_Cons_None eq
    by (simp del: fun_upd_apply add: hex is_lower_hex_4)
qed
lemma newID_next: "newID rand s = (Inr i, s') \<Longrightarrow> validateID i = None"
  by (auto simp: newID_def format_id_valid split: prod.splits sum.splits)

interpretation newid: id_source "newID rand" for rand
  by unfold_locales (rule newID_next)

section \<open>The wire form\<close>

lemma candidate_Marshal: "MarshalJSON p = Inr w \<Longrightarrow> candidate w = p \<and> valid p"
  by (auto simp: MarshalJSON_def candidate_def split: option.splits)

section \<open>Properties\<close>

text \<open>A deterministic byte source, for closed instances.\<close>

definition counter_rand :: "nat \<Rightarrow> (unit + (nat \<Rightarrow> 8 word)) \<times> nat" where
  "counter_rand n = (Inr (\<lambda>i. word_of_nat (16 * n + i)), Suc n)"

text \<open>C4. Every value a run of transitions makes from a started flow is valid, keeps the flow's
  correlation ID, has as depth the number of child transitions and as attempt one plus the
  retries since the last child, with no wrap-around of the 64-bit counters, and without a
  child transition keeps the work ID.\<close>

theorem flow_invariant:
  assumes "Start f options s = (Inr p, s1)" and "run f xs p s1 = (Inr q, s2)"
  shows "valid q \<and> correlation_id q = correlation_id p
    \<and> unat (depth q) = length (filter is_child xs)
    \<and> unat (attempt q) = attempts 1 xs
    \<and> (filter is_child xs = [] \<longrightarrow> work_id q = work_id p)"
  using Start_Inr [OF assms(1)] run_invariant [OF _ assms(2)] by simp

fun listed_ids :: "amber_id list \<Rightarrow> (unit + amber_id) \<times> amber_id list" where
  "listed_ids [] = (Inl (), [])"
| "listed_ids (i # is) = (Inr i, is)"

definition some_ids :: "amber_id list" where
  "some_ids = map (\<lambda>c. ''2f8f5f3a-9d48-4c21-9b4f-1c4d2f4fbf4'' @ [c]) ''0123456789''"

theorem flow_invariant_witness:
  "\<exists>p s1 q s2. Start listed_ids [] some_ids = (Inr p, s1)
    \<and> run listed_ids [SRetry, SChild [], SRetry, SReplay] p s1 = (Inr q, s2)
    \<and> unat (depth q) = 1 \<and> unat (attempt q) = 2"
proof -
  let ?xs = "[SRetry, SChild [], SRetry, SReplay]"
  have "\<not> isl (fst (Start listed_ids [] some_ids))"
    "\<not> isl (fst (run listed_ids ?xs (projr (fst (Start listed_ids [] some_ids))) (snd (Start listed_ids [] some_ids))))"
    by code_simp+
  then obtain p s1 q s2 where *: "Start listed_ids [] some_ids = (Inr p, s1)" "run listed_ids ?xs p s1 = (Inr q, s2)"
    by (metis prod.collapse sum.collapse(2))
  from flow_invariant [OF *] have "unat (depth q) = 1" "unat (attempt q) = 2"
    by (simp_all add: is_child_def)
  with * show ?thesis by blast
qed

definition deep_value :: provenance where
  "deep_value =
     \<lparr>p_version = 1, work_id = ''0f7d2b1f-0d5f-4a16-89e9-46a10b9dd4b5'',
      execution_id = ''2f8f5f3a-9d48-4c21-9b4f-1c4d2f4fbf4d'',
      correlation_id = ''4c5a0cb3-750c-4f65-ae72-c2bf9e0f8d87'', p_causation = None,
      origin = OriginLocal, depth = maxDepth, attempt = maxDepth, p_attribution = None,
      p_mode = normal_mode, p_references = []\<rparr>"

lemma deep_value_valid: "valid deep_value"
  by code_simp

text \<open>A step of a run with accepted options, from a fresh state, either goes through or hits the limit of its
  counter with no ID drawn.\<close>

definition step_accepted :: "step \<Rightarrow> bool" where
  "step_accepted x = (case x of SChild options \<Rightarrow> child_accepted options | _ \<Rightarrow> True)"

definition at_limit :: "step \<Rightarrow> provenance \<Rightarrow> transition_error option" where
  "at_limit x p =
     (case x of
        SChild _ \<Rightarrow> if depth p = maxDepth then Some DepthOverflow else None
      | SRetry \<Rightarrow> if attempt p = maxDepth then Some AttemptOverflow else None
      | SReplay \<Rightarrow> None)"

definition spread :: "('s \<Rightarrow> ('f + amber_id) \<times> 's) \<Rightarrow> ('s \<Rightarrow> 's) \<Rightarrow> bool" where
  "spread f nxt \<longleftrightarrow> (\<forall>s. snd (f s) = nxt s \<and> \<not> isl (fst (f s)) \<and>
     fst (f (nxt s)) \<noteq> fst (f s) \<and> fst (f (nxt (nxt s))) \<noteq> fst (f s))"

lemma unat_below: "unat (x :: 64 word) < 2 ^ 64"
  using unsigned_less [where ?'a = nat and ?'b = 64, of x] by simp

lemma unat_maxDepth: "unat maxDepth = 2 ^ 64 - 1"
  by (simp add: maxDepth_def unsigned_minus_1_eq_mask mask_eq_exp_minus_1)

lemma unat_limit: "unat x + 1 < 2 ^ 64 \<longleftrightarrow> x \<noteq> maxDepth"
proof
  show "unat x + 1 < 2 ^ 64 \<Longrightarrow> x \<noteq> maxDepth" by (auto simp: unat_maxDepth)
  show "x \<noteq> maxDepth \<Longrightarrow> unat x + 1 < 2 ^ 64" using word_next [of x] unat_below [of "x + 1"] by simp
qed

lemma step_within:
  assumes v: "valid p" and sp: "spread (newID rand) nxt" and fresh: "fst (newID rand s) \<noteq> Inr (execution_id p)"
    and ok: "step_accepted x"
  shows "case at_limit x p of
      Some e \<Rightarrow> take_step (newID rand) x p s = (Inl (InvalidTransition e), s)
    | None \<Rightarrow> \<exists>q t. take_step (newID rand) x p s = (Inr q, t) \<and> fst (newID rand t) \<noteq> Inr (execution_id q)"
proof -
  have n: "\<exists>i. newID rand s = (Inr i, nxt s)" for s
  proof -
    from sp have "snd (newID rand s) = nxt s" "\<not> isl (fst (newID rand s))" by (simp_all add: spread_def)
    then show ?thesis by (cases "newID rand s"; cases "fst (newID rand s)") auto
  qed
  from n [of s] n [of "nxt s"] n [of "nxt (nxt s)"] obtain i j k where ids:
    "newID rand s = (Inr i, nxt s)" "newID rand (nxt s) = (Inr j, nxt (nxt s))"
    "newID rand (nxt (nxt s)) = (Inr k, nxt (nxt (nxt s)))" by blast
  have d: "fst (newID rand (nxt s)) \<noteq> fst (newID rand s)" "fst (newID rand (nxt (nxt s))) \<noteq> fst (newID rand s)"
    "fst (newID rand (nxt (nxt s))) \<noteq> fst (newID rand (nxt s))"
    using sp unfolding spread_def by blast+
  then have ijk: "j \<noteq> i" "k \<noteq> i" "k \<noteq> j" by (simp_all add: ids)
  show ?thesis
  proof (cases x)
    case (SChild options)
    with ok have c: "child_accepted options" by (simp add: step_accepted_def)
    show ?thesis
    proof (cases "depth p = maxDepth")
      case True
      with SChild newid.child_exact(2) [OF v ids(1,2) c] show ?thesis by (simp add: at_limit_def)
    next
      case False
      with c newid.child_exact(1) [OF v ids(1,2)] obtain q t where q: "Child (newID rand) options p s = (Inr q, t)" by blast
      with newid.child_exact(3) [OF v ids(1,2) q] SChild False ids(3) ijk(3) show ?thesis by (simp add: at_limit_def)
    qed
  next
    case SRetry
    show ?thesis
    proof (cases "attempt p = maxDepth")
      case True
      with SRetry v show ?thesis by (simp add: at_limit_def Retry_def guarded_eq)
    next
      case False
      with v fresh ids(1) obtain q t where q: "Retry (newID rand) p s = (Inr q, t)"
        using newid.retry_exact(1) [OF ids(1), of p] by auto
      with newid.retry_exact(2) [OF ids(1) q] SRetry False ids(2) ijk(1) show ?thesis by (simp add: at_limit_def)
    qed
  next
    case SReplay
    from v fresh ijk(1) ids(1) obtain q t where q: "Replay (newID rand) p s = (Inr q, t)"
      using newid.replay_exact(1) [OF ids(1,2), of p] by auto
    with newid.replay_exact(2) [OF ids(1,2) q] SReplay ids(3) ijk(2) show ?thesis by (simp add: at_limit_def)
  qed
qed

text \<open>The natural counters of every prefix of a run fit into 64 bits.\<close>

definition fits :: "nat \<Rightarrow> nat \<Rightarrow> step list \<Rightarrow> bool" where
  "fits d a xs \<longleftrightarrow>
     (\<forall>n \<le> length xs. d + length (filter is_child (take n xs)) < 2 ^ 64 \<and> attempts a (take n xs) < 2 ^ 64)"

lemma all_prefixes: "(\<forall>n \<le> Suc m. P n) \<longleftrightarrow> P 0 \<and> (\<forall>n \<le> m. P (Suc n))"
proof -
  have "(\<forall>n \<le> Suc m. P n) \<Longrightarrow> P 0 \<and> (\<forall>n \<le> m. P (Suc n))" by simp
  moreover have "P n" if "P 0" "\<forall>n \<le> m. P (Suc n)" "n \<le> Suc m" for n using that by (cases n) simp_all
  ultimately show ?thesis by blast
qed

lemma fits_Cons:
  "fits d a (x # xs) \<longleftrightarrow> d < 2 ^ 64 \<and> a < 2 ^ 64 \<and> fits (d + (if is_child x then 1 else 0)) (attempts a [x]) xs"
proof -
  have "fits d a (x # xs) \<longleftrightarrow> (d < 2 ^ 64 \<and> a < 2 ^ 64) \<and>
    (\<forall>n \<le> length xs. d + length (filter is_child (take (Suc n) (x # xs))) < 2 ^ 64 \<and>
       attempts a (take (Suc n) (x # xs)) < 2 ^ 64)"
    unfolding fits_def by (simp add: all_prefixes)
  moreover have "attempts a (x # take n xs) = attempts (attempts a [x]) (take n xs)" for n by (rule attempts_Cons)
  ultimately show ?thesis unfolding fits_def by simp
qed

lemma run_within:
  assumes sp: "spread (newID rand) nxt" and ok: "\<forall>x \<in> set xs. step_accepted x"
  shows "valid p \<Longrightarrow> fst (newID rand s) \<noteq> Inr (execution_id p) \<Longrightarrow>
    if fits (unat (depth p)) (unat (attempt p)) xs
    then \<exists>q t. run (newID rand) xs p s = (Inr q, t)
    else \<exists>e t. run (newID rand) xs p s = (Inl (InvalidTransition e), t) \<and> e \<in> {DepthOverflow, AttemptOverflow}"
  using ok
proof (induction xs arbitrary: p s)
  case Nil
  then show ?case using unat_below by (simp add: fits_def)
next
  case (Cons x xs)
  have x: "step_accepted x" using Cons.prems by simp
  note w = step_within [OF Cons.prems(1) sp Cons.prems(2) x]
  note f = fits_Cons [of "unat (depth p)" "unat (attempt p)" x xs]
  show ?case
  proof (cases "at_limit x p")
    case (Some e)
    with w have r: "take_step (newID rand) x p s = (Inl (InvalidTransition e), s)" by simp
    have e: "e \<in> {DepthOverflow, AttemptOverflow}" using Some by (auto simp: at_limit_def split: step.splits if_splits)
    have "\<not> unat (depth p) + 1 < 2 ^ 64 \<and> is_child x \<or> \<not> attempts (unat (attempt p)) [x] < 2 ^ 64"
      using Some unat_limit [of "depth p"] unat_limit [of "attempt p"]
      by (cases x) (auto simp: at_limit_def is_child_def split: if_splits)
    moreover have "d < 2 ^ 64 \<and> a < 2 ^ 64" if "fits d a xs" for d a using that unfolding fits_def by force
    ultimately have "\<not> fits (unat (depth p)) (unat (attempt p)) (x # xs)" using f by fastforce
    with r e show ?thesis by simp
  next
    case None
    with w obtain q t where r: "take_step (newID rand) x p s = (Inr q, t)" "fst (newID rand t) \<noteq> Inr (execution_id q)" by auto
    note q = take_step_Inr [OF r(1)]
    have "fits (unat (depth p)) (unat (attempt p)) (x # xs) \<longleftrightarrow> fits (unat (depth q)) (unat (attempt q)) xs"
      using f q unat_below [of "depth p"] unat_below [of "attempt p"] by simp
    moreover have "run (newID rand) (x # xs) p s = run (newID rand) xs q t" using r(1) by simp
    moreover have "valid q" "\<forall>x \<in> set xs. step_accepted x" using q Cons.prems(3) by simp_all
    ultimately show ?thesis using Cons.IH [of q t] r(2) by presburger
  qed
qed

text \<open>C12. The counters are exact up to 64 bits and no further: as long as the IDs drawn differ from the two
  before, a run of transitions with accepted options from a valid value goes through exactly when the number of
  children on top of the depth, and the number of attempts since the last child, stay below $2^{64}$ all along;
  otherwise it stops with one of the two overflow errors, and no counter ever wraps to zero.\<close>

theorem counters_never_wrap:
  assumes "valid p" and "spread (newID rand) nxt" and "fst (newID rand s) \<noteq> Inr (execution_id p)"
    and "\<forall>x \<in> set xs. step_accepted x"
  shows "((\<exists>q t. run (newID rand) xs p s = (Inr q, t)) \<longleftrightarrow>
      (\<forall>n \<le> length xs. unat (depth p) + length (filter is_child (take n xs)) < 2 ^ 64 \<and>
         attempts (unat (attempt p)) (take n xs) < 2 ^ 64)) \<and>
    (\<forall>e t. run (newID rand) xs p s = (Inl e, t) \<longrightarrow>
       e \<in> {InvalidTransition DepthOverflow, InvalidTransition AttemptOverflow}) \<and>
    (\<forall>q t. run (newID rand) xs p s = (Inr q, t) \<longrightarrow>
       unat (depth q) = unat (depth p) + length (filter is_child xs) \<and> unat (attempt q) = attempts (unat (attempt p)) xs)"
  using run_within [OF assms(2,4,1,3)] run_invariant [OF assms(1), of "newID rand" xs s]
  unfolding fits_def [symmetric] by (auto split: if_splits)

text \<open>A source of three IDs in turn.\<close>

definition ring_rand :: "nat \<Rightarrow> (unit + (nat \<Rightarrow> 8 word)) \<times> nat" where
  "ring_rand n = (Inr (\<lambda>i. if n mod 3 = 0 then 0 else if n mod 3 = 1 then 1 else 2), Suc n)"

lemma ring_spread: "spread (newID ring_rand) Suc"
proof -
  have i: "newID ring_rand n = (Inr (if n mod 3 = 0 then format_id (\<lambda>_. 0) else if n mod 3 = 1 then format_id (\<lambda>_. 1)
      else format_id (\<lambda>_. 2)), Suc n)" for n
    by (simp add: newID_def ring_rand_def)
  have d: "format_id (\<lambda>_. 0) \<noteq> format_id (\<lambda>_. 1)" "format_id (\<lambda>_. 1) \<noteq> format_id (\<lambda>_. 2)" "format_id (\<lambda>_. 0) \<noteq> format_id (\<lambda>_. 2)"
    by code_simp+
  have m: "n mod 3 = 0 \<and> Suc n mod 3 = 1 \<and> Suc (Suc n) mod 3 = 2 \<or> n mod 3 = 1 \<and> Suc n mod 3 = 2 \<and> Suc (Suc n) mod 3 = 0 \<or>
      n mod 3 = 2 \<and> Suc n mod 3 = 0 \<and> Suc (Suc n) mod 3 = 1" for n :: nat by presburger
  show ?thesis unfolding spread_def
  proof
    fix s
    from m [of s] show "snd (newID ring_rand s) = Suc s \<and> \<not> isl (fst (newID ring_rand s)) \<and>
      fst (newID ring_rand (Suc s)) \<noteq> fst (newID ring_rand s) \<and>
      fst (newID ring_rand (Suc (Suc s))) \<noteq> fst (newID ring_rand s)"
      by (elim disjE conjE) (simp_all only: i fst_conv snd_conv sum.disc refl simp_thms if_True if_False d d [symmetric]
        sum.inject zero_neq_one numeral_eq_iff num.distinct one_neq_zero zero_neq_numeral numeral_neq_zero one_eq_numeral_iff numeral_eq_one_iff)
  qed
qed

theorem counters_never_wrap_witness:
  "(\<exists>q t. run (newID ring_rand) [SChild [], SRetry] (deep_value\<lparr>depth := maxDepth - 1\<rparr>) 0 = (Inr q, t)) \<and>
   \<not> (\<exists>q t. run (newID ring_rand) [SChild [], SRetry, SChild []] (deep_value\<lparr>depth := maxDepth - 1\<rparr>) 0 = (Inr q, t))"
proof -
  let ?p = "deep_value\<lparr>depth := maxDepth - 1\<rparr>"
  have v: "valid ?p" "fst (newID ring_rand 0) \<noteq> Inr (execution_id ?p)" by code_simp+
  have "maxDepth - 1 \<noteq> maxDepth" by simp
  from word_next [OF this] have a: "unat (depth ?p) = 2 ^ 64 - 2" "unat (attempt ?p) = 2 ^ 64 - 1"
    by (simp_all add: unat_maxDepth deep_value_def)
  have ok: "\<forall>x \<in> set [SChild [], SRetry]. step_accepted x" "\<forall>x \<in> set [SChild [], SRetry, SChild []]. step_accepted x"
    by (simp_all add: step_accepted_def)
  note t = counters_never_wrap [OF v(1) ring_spread v(2)]
  show ?thesis
    using t [OF ok(1), THEN conjunct1] t [OF ok(2), THEN conjunct1] unfolding a
    by (simp add: all_prefixes is_child_def)
qed

text \<open>C11. The default factory drives every transition to a value wherever the arguments allow one.  When the
  random source delivers bytes, \<open>Start\<close> succeeds exactly on at most one option with a valid attribution and
  references; \<open>Child\<close> exactly on a valid value below the largest depth and at most one option with a valid cause,
  attribution and references and an origin it may have; \<open>Retry\<close> on a valid value below the largest attempt and
  \<open>Replay\<close> on a valid value, exactly when the fresh execution ID does not repeat the source's and, for a replay,
  the replay ID does not repeat the execution ID.\<close>

theorem transitions_succeed:
  assumes rand: "\<And>s. \<exists>raw. rand s = (Inr raw, nxt s)"
  shows "((\<exists>p t. Start (newID rand) starts s = (Inr p, t)) \<longleftrightarrow> start_accepted starts)
    \<and> ((\<exists>q t. Child (newID rand) children p s = (Inr q, t)) \<longleftrightarrow>
         valid p \<and> depth p \<noteq> maxDepth \<and> child_accepted children)
    \<and> ((\<exists>q t. Retry (newID rand) p s = (Inr q, t)) \<longleftrightarrow>
         valid p \<and> attempt p \<noteq> maxDepth \<and> fst (newID rand s) \<noteq> Inr (execution_id p))
    \<and> ((\<exists>q t. Replay (newID rand) p s = (Inr q, t)) \<longleftrightarrow>
         valid p \<and> fst (newID rand s) \<noteq> Inr (execution_id p) \<and> fst (newID rand (nxt s)) \<noteq> fst (newID rand s))"
proof -
  have n: "\<exists>i. newID rand s = (Inr i, nxt s)" for s
    using rand [of s] by (auto simp: newID_def)
  from n [of s] n [of "nxt s"] n [of "nxt (nxt s)"] obtain i j k where ids:
    "newID rand s = (Inr i, nxt s)" "newID rand (nxt s) = (Inr j, nxt (nxt s))"
    "newID rand (nxt (nxt s)) = (Inr k, nxt (nxt (nxt s)))" by blast
  have "valid p" if "\<exists>q t. Child (newID rand) children p s = (Inr q, t)"
    using that Child_Inr [of "newID rand" children p s] by blast
  then have c: "(\<exists>q t. Child (newID rand) children p s = (Inr q, t)) \<longleftrightarrow> valid p \<and> depth p \<noteq> maxDepth \<and> child_accepted children"
    using newid.child_exact(1) [OF _ ids(1,2), of p children] by blast
  show ?thesis
    unfolding newid.start_exact [OF ids] c newid.retry_exact(1) [OF ids(1)] newid.replay_exact(1) [OF ids(1,2)]
    using ids by auto
qed

text \<open>A child with all its options, and one whose origin is refused.\<close>

definition sample_child_options :: child_options where
  "sample_child_options =
     \<lparr>co_cause = Some (execution_cause deep_value), co_attribution = None, co_origin = OriginIncoming, co_references = []\<rparr>"

theorem transitions_succeed_witness:
  "(\<exists>q t. Child (newID counter_rand) [sample_child_options] (deep_value\<lparr>depth := 3\<rparr>) 9 = (Inr q, t)) \<and>
   \<not> (\<exists>q t. Child (newID counter_rand) [sample_child_options\<lparr>co_origin := OriginRetry\<rparr>] (deep_value\<lparr>depth := 3\<rparr>) 9 = (Inr q, t))"
proof -
  have r: "\<And>s. \<exists>raw. counter_rand s = (Inr raw, Suc s)" by (simp add: counter_rand_def)
  have "valid (deep_value\<lparr>depth := 3\<rparr>)" "depth (deep_value\<lparr>depth := 3\<rparr>) \<noteq> maxDepth"
    by code_simp+
  moreover have "\<not> child_accepted [sample_child_options\<lparr>co_origin := OriginRetry\<rparr>]"
    by (simp add: child_accepted_def the_option_def)
  moreover have "validateID (execution_id deep_value) = None" by code_simp
  then have "child_accepted [sample_child_options]"
    by (simp add: child_accepted_def references_ok_def the_option_def sample_child_options_def validateCausation_execution)
  ultimately show ?thesis
    using transitions_succeed [of counter_rand Suc, OF r, THEN conjunct2, THEN conjunct1] by simp
qed

text \<open>Every ID of the default factory is a well-formed version 4 UUID, whatever the random
  bytes are.\<close>

theorem newID_well_formed: "fst (newID rand s) = Inr i \<Longrightarrow> validateID i = None"
  using newid.next_valid [of rand s i "snd (newID rand s)"] by (simp add: prod_eq_iff)

theorem newID_well_formed_witness:
  "validateID (projr (fst (newID counter_rand 5))) = None"
proof -
  have "fst (newID counter_rand 5) = Inr (projr (fst (newID counter_rand 5)))"
    by (simp add: newID_def counter_rand_def)
  then show ?thesis by (rule newID_well_formed)
qed

text \<open>Validation accepts exactly the well-formed values, in whatever order the runtime ranges
  over the map of the three identities.\<close>

theorem Validate_order_independent:
  assumes "set order = {WorkID, ExecutionID, CorrelationID}"
  shows "Validate_ranging order p = None \<longleftrightarrow> well_formed p"
  using assms by (rule Validate_ranging_iff)

theorem Validate_order_independent_witness:
  "Validate_ranging [CorrelationID, WorkID, ExecutionID] deep_value = None"
proof -
  have "set [CorrelationID, WorkID, ExecutionID] = {WorkID, ExecutionID, CorrelationID}" by auto
  moreover have "well_formed deep_value" using deep_value_valid by (simp only: valid_iff)
  ultimately show ?thesis by (simp only: Validate_order_independent)
qed

text \<open>C13. A marshalled value decodes to itself, and a decode that fails, in the JSON or in
  validation, leaves the receiver as it was.\<close>

theorem wire_roundtrip:
  assumes "MarshalJSON p = Inr w" and "decode data = Some w"
  shows "UnmarshalJSON decode data old = (None, p)
    \<and> (UnmarshalJSON decode' data' old' = (Some e, r) \<longrightarrow> r = old')"
  using candidate_Marshal [OF assms(1)] assms(2)
  by (auto simp: UnmarshalJSON_def split: option.splits)

theorem wire_roundtrip_witness:
  "UnmarshalJSON (\<lambda>_ :: string. Some (projr (MarshalJSON deep_value))) [] zero_provenance
     = (None, deep_value)"
proof -
  let ?w = "projr (MarshalJSON deep_value)"
  have m: "MarshalJSON deep_value = Inr ?w"
    by (simp add: MarshalJSON_def deep_value_valid)
  show ?thesis
    by (rule wire_roundtrip [OF m, of "\<lambda>_ :: string. Some ?w", THEN conjunct1]) (rule refl)
qed

end
