(* ===== verification/AmberIncoming.thy ===== *)
theory AmberIncoming
  imports AmberFlow
begin

text \<open>
  amber/go/context.go and amber/go/incoming.go: installing a value in a context and
  inspecting incoming bytes.  A Go context is a chain of \<open>WithValue\<close> nodes over a root the
  caller supplies; nil is \<open>None\<close>.  The JSON decoder into the wire struct and the trust
  validator of the deployment are arguments.
\<close>

section \<open>Contexts\<close>

datatype 'c go_context = Root 'c | WithValue provenance "'c go_context"

datatype context_error = NilContext | InvalidValue provenance_error

fun stored :: "'c go_context \<Rightarrow> provenance option" where
  "stored (Root c) = None"
| "stored (WithValue p ctx) = Some p"

definition WithProvenance ::
  "'c go_context option \<Rightarrow> provenance \<Rightarrow> context_error + 'c go_context" where
  "WithProvenance ctx p =
     (case ctx of
        None \<Rightarrow> Inl NilContext
      | Some c \<Rightarrow> (case Validate p of Some e \<Rightarrow> Inl (InvalidValue e) | None \<Rightarrow> Inr (WithValue p c)))"

definition ProvenanceFromContext :: "'c go_context option \<Rightarrow> provenance option" where
  "ProvenanceFromContext ctx =
     (case ctx of
        None \<Rightarrow> None
      | Some c \<Rightarrow> (case stored c of
                    None \<Rightarrow> None
                  | Some p \<Rightarrow> if Validate p \<noteq> None then None else Some p))"

section \<open>Inspection\<close>

abbreviation "IncomingReject \<equiv> ''reject''"
abbreviation "IncomingIgnore \<equiv> ''ignore''"

definition MaxIncomingJSONBytes :: nat where
  "MaxIncomingJSONBytes = 16 * 1024"

datatype 'v incoming_cause = Oversized | Malformed provenance_error | ValidatorFailed 'v

datatype 'v incoming_error =
  UnsupportedPolicy string | Incoming "'v incoming_cause" | IncomingContext context_error

definition validateIncomingPolicy :: "string \<Rightarrow> 'v incoming_error option" where
  "validateIncomingPolicy policy =
     fail_if (policy \<noteq> IncomingReject \<and> policy \<noteq> IncomingIgnore) (UnsupportedPolicy policy)"

text \<open>The results \<open>(Provenance, bool, error)\<close>: an error, or a value that may be absent.\<close>

definition incomingFailure ::
  "string \<Rightarrow> 'v incoming_cause \<Rightarrow> 'v incoming_error + provenance option" where
  "incomingFailure policy e = (if policy = IncomingIgnore then Inr None else Inl (Incoming e))"

definition InspectIncomingJSONWithValidator ::
  "(string \<Rightarrow> wire_provenance option) \<Rightarrow> string \<Rightarrow> string \<Rightarrow> (provenance \<Rightarrow> 'v option) option
   \<Rightarrow> 'v incoming_error + provenance option" where
  "InspectIncomingJSONWithValidator decode data policy validator =
     (case validateIncomingPolicy policy of
        Some e \<Rightarrow> Inl e
      | None \<Rightarrow>
          if length data = 0 then Inr None
          else if MaxIncomingJSONBytes < length data then incomingFailure policy Oversized
          else (case FromJSON decode data of
                  Inl e \<Rightarrow> incomingFailure policy (Malformed e)
                | Inr p \<Rightarrow>
                    (case (case validator of None \<Rightarrow> None | Some v \<Rightarrow> v p) of
                       Some e \<Rightarrow> incomingFailure policy (ValidatorFailed e)
                     | None \<Rightarrow> Inr (Some p))))"

definition InspectIncomingJSON ::
  "(string \<Rightarrow> wire_provenance option) \<Rightarrow> string \<Rightarrow> string \<Rightarrow> 'v incoming_error + provenance option" where
  "InspectIncomingJSON decode data policy = InspectIncomingJSONWithValidator decode data policy None"

text \<open>
  \<open>WithIncomingJSONWithValidator\<close> returns a context, whether a value was installed, and an
  error; a failed call hands the caller's context back beside the error.
\<close>

definition WithIncomingJSONWithValidator ::
  "(string \<Rightarrow> wire_provenance option) \<Rightarrow> 'c go_context option \<Rightarrow> string \<Rightarrow> string
   \<Rightarrow> (provenance \<Rightarrow> 'v option) option \<Rightarrow> 'c go_context option \<times> bool \<times> 'v incoming_error option" where
  "WithIncomingJSONWithValidator decode ctx data policy validator =
     (case ctx of
        None \<Rightarrow> (None, False, Some (IncomingContext NilContext))
      | Some _ \<Rightarrow>
          (case InspectIncomingJSONWithValidator decode data policy validator of
             Inl e \<Rightarrow> (ctx, False, Some e)
           | Inr None \<Rightarrow> (ctx, False, None)
           | Inr (Some p) \<Rightarrow>
               (case WithProvenance ctx p of
                  Inl e \<Rightarrow> (ctx, False, Some (IncomingContext e))
                | Inr c \<Rightarrow> (Some c, True, None))))"

definition WithIncomingJSON ::
  "(string \<Rightarrow> wire_provenance option) \<Rightarrow> 'c go_context option \<Rightarrow> string \<Rightarrow> string
   \<Rightarrow> 'c go_context option \<times> bool \<times> 'v incoming_error option" where
  "WithIncomingJSON decode ctx data policy = WithIncomingJSONWithValidator decode ctx data policy None"

section \<open>Lemmas\<close>

lemma FromJSON_Inr: "FromJSON decode data = Inr p \<longleftrightarrow> (\<exists>w. decode data = Some w \<and> p = candidate w \<and> valid p)"
  by (auto simp: FromJSON_def UnmarshalJSON_def split: option.splits)

lemma incomingFailure_cases [simp]:
  "incomingFailure policy e = Inr (Some p) \<longleftrightarrow> False"
  "incomingFailure policy e = Inr None \<longleftrightarrow> policy = IncomingIgnore"
  "incomingFailure policy e = Inl err \<longleftrightarrow> policy \<noteq> IncomingIgnore \<and> err = Incoming e"
  by (auto simp: incomingFailure_def)

lemma policy_None:
  "validateIncomingPolicy policy = None \<longleftrightarrow> policy = IncomingReject \<or> policy = IncomingIgnore"
  by (auto simp: validateIncomingPolicy_def)

lemma Inspect_present:
  "InspectIncomingJSONWithValidator decode data policy validator = Inr (Some p) \<longleftrightarrow>
     validateIncomingPolicy policy = (None :: 'v incoming_error option)
   \<and> 0 < length data \<and> length data \<le> MaxIncomingJSONBytes
   \<and> FromJSON decode data = Inr p
   \<and> (\<forall>v. validator = Some v \<longrightarrow> v p = (None :: 'v option))"
  by (auto simp: InspectIncomingJSONWithValidator_def split: option.splits sum.splits if_splits)

lemma Inspect_ignore:
  "InspectIncomingJSONWithValidator decode data IncomingIgnore validator \<noteq> Inl e"
  by (auto simp: InspectIncomingJSONWithValidator_def validateIncomingPolicy_def
      split: option.splits sum.splits if_splits)

lemma WithIncoming_cases:
  "WithIncomingJSONWithValidator decode (Some c) data policy validator =
     (case InspectIncomingJSONWithValidator decode data policy validator of
        Inl e \<Rightarrow> (Some c, False, Some e)
      | Inr None \<Rightarrow> (Some c, False, None)
      | Inr (Some p) \<Rightarrow> (Some (WithValue p c), True, None))"
proof -
  have "valid p" if "InspectIncomingJSONWithValidator decode data policy validator = Inr (Some p)" for p
    using that by (simp only: Inspect_present FromJSON_Inr) blast
  then show ?thesis
    by (auto simp: WithIncomingJSONWithValidator_def WithProvenance_def split: sum.splits option.splits)
qed

section \<open>Properties\<close>

text \<open>C14. Incoming bytes reach a context only as a value that was decoded, is valid, passed the
  trust validator and is within the size limit; the context then stores exactly that value
  over the caller's context.  In every other case the caller's context comes back unchanged.\<close>

theorem incoming_install:
  assumes "WithIncomingJSONWithValidator decode (Some c) data policy validator = (c', installed, e)"
  shows "if installed then
           \<exists>p. c' = Some (WithValue p c) \<and> e = None \<and> ProvenanceFromContext c' = Some p
               \<and> FromJSON decode data = Inr p \<and> valid p
               \<and> length data \<le> MaxIncomingJSONBytes \<and> (\<forall>v. validator = Some v \<longrightarrow> v p = None)
         else c' = Some c"
proof -
  let ?i = "InspectIncomingJSONWithValidator decode data policy validator"
  show ?thesis
  proof (cases "\<exists>p. ?i = Inr (Some p)")
    case True
    then obtain p where i: "?i = Inr (Some p)" by blast
    then have "valid p" by (simp only: Inspect_present FromJSON_Inr) blast
    with assms i iffD1 [OF Inspect_present i] show ?thesis
      by (auto simp: WithIncoming_cases ProvenanceFromContext_def)
  next
    case False
    with assms show ?thesis
      by (auto simp: WithIncoming_cases split: sum.splits option.splits)
  qed
qed

theorem incoming_install_witness:
  "let d = (\<lambda>_. Some (projr (MarshalJSON deep_value)))
   in ProvenanceFromContext
        (fst (WithIncomingJSONWithValidator d (Some (Root ())) ''x'' IncomingReject
               (None :: (provenance \<Rightarrow> unit option) option)))
      = Some deep_value"
proof -
  let ?d = "\<lambda>_ :: string. Some (projr (MarshalJSON deep_value))"
  let ?r = "WithIncomingJSONWithValidator ?d (Some (Root ())) ''x'' IncomingReject
               (None :: (provenance \<Rightarrow> unit option) option)"
  have "MarshalJSON deep_value = Inr (projr (MarshalJSON deep_value))"
    by (simp add: MarshalJSON_def deep_value_valid)
  from candidate_Marshal [OF this] have m: "FromJSON ?d ''x'' = Inr deep_value"
    by (simp add: FromJSON_Inr deep_value_valid)
  have "InspectIncomingJSONWithValidator ?d ''x'' IncomingReject (None :: (provenance \<Rightarrow> unit option) option)
      = Inr (Some deep_value)"
    by (simp add: Inspect_present m policy_None MaxIncomingJSONBytes_def)
  then have "?r = (Some (WithValue deep_value (Root ())), True, None)"
    by (simp add: WithIncoming_cases)
  from incoming_install [OF this] m show ?thesis by (auto simp: \<open>?r = _\<close>)
qed

text \<open>Under the ignore policy an inspection never fails; under reject, every non-empty input
  that yields no value is an error.\<close>

theorem incoming_policies:
  "InspectIncomingJSONWithValidator decode data IncomingIgnore validator \<noteq> Inl e
   \<and> (InspectIncomingJSONWithValidator decode data IncomingReject validator' = Inr None \<longleftrightarrow> data = [])"
  by (auto simp: Inspect_ignore)
    (auto simp: InspectIncomingJSONWithValidator_def validateIncomingPolicy_def
      split: option.splits sum.splits if_splits)

end
