(* ===== verification/AmberSharing.thy ===== *)
theory AmberSharing
  imports AmberTypes
begin

text \<open>
  The pointers inside an attribution.  The value model copies an attribution as a whole;
  the code copies the struct and, of the three actor pointers in it, clones only
  \<open>OnBehalfOf\<close>.  Here an attribution holds addresses and the actors live in a store, so
  that what two attributions share is visible.
\<close>

section \<open>The store\<close>

type_synonym addr = nat

record heap =
  cells :: "addr \<rightharpoonup> actor"
  next_addr :: addr

definition heap_ok :: "heap \<Rightarrow> bool" where
  "heap_ok h \<longleftrightarrow> (\<forall>a \<in> dom (cells h). a < next_addr h)"

definition new_cell :: "actor \<Rightarrow> heap \<Rightarrow> addr \<times> heap" where
  "new_cell v h = (next_addr h, h\<lparr>cells := (cells h)(next_addr h \<mapsto> v), next_addr := Suc (next_addr h)\<rparr>)"

definition write_cell :: "addr \<Rightarrow> actor \<Rightarrow> heap \<Rightarrow> heap" where
  "write_cell a v h = h\<lparr>cells := (cells h)(a \<mapsto> v)\<rparr>"

text \<open>\<open>cloneActor\<close>: a copy in a new cell.  A dangling address cannot arise in Go.\<close>

definition cloneActor :: "addr option \<Rightarrow> heap \<Rightarrow> addr option \<times> heap" where
  "cloneActor p h =
     (case p of
        None \<Rightarrow> (None, h)
      | Some a \<Rightarrow> (case cells h a of
                    None \<Rightarrow> (None, h)
                  | Some v \<Rightarrow> (case new_cell v h of (b, h') \<Rightarrow> (Some b, h'))))"

definition cloneAttribution :: "addr attribution option \<Rightarrow> heap \<Rightarrow> addr attribution option \<times> heap" where
  "cloneAttribution p h =
     (case p of
        None \<Rightarrow> (None, h)
      | Some v \<Rightarrow> (case cloneActor (on_behalf_of v) h of
                    (b, h') \<Rightarrow> (Some (v\<lparr>on_behalf_of := b\<rparr>), h')))"

text \<open>The value an attribution denotes in a store.\<close>

definition deref :: "heap \<Rightarrow> addr attribution \<Rightarrow> actor attribution" where
  "deref h v =
     \<lparr>initiated_by = Option.bind (initiated_by v) (cells h),
      executed_by = Option.bind (executed_by v) (cells h),
      on_behalf_of = Option.bind (on_behalf_of v) (cells h),
      tenant_id = tenant_id v\<rparr>"

definition pointers_ok :: "heap \<Rightarrow> addr attribution \<Rightarrow> bool" where
  "pointers_ok h v \<longleftrightarrow>
     (\<forall>a. initiated_by v = Some a \<or> executed_by v = Some a \<or> on_behalf_of v = Some a
          \<longrightarrow> a \<in> dom (cells h))"

section \<open>What cloning keeps and what it separates\<close>

lemma cloneActor_Some:
  assumes "heap_ok h" "cells h a = Some v"
  shows "cloneActor (Some a) h = (Some (next_addr h), snd (new_cell v h))"
    and "next_addr h \<notin> dom (cells h)"
proof -
  show "cloneActor (Some a) h = (Some (next_addr h), snd (new_cell v h))"
    using assms by (simp add: cloneActor_def new_cell_def)
  show "next_addr h \<notin> dom (cells h)"
    using assms(1) by (auto simp: heap_ok_def)
qed

lemma clone_cells:
  assumes "heap_ok h" "pointers_ok h v" "cloneAttribution (Some v) h = (Some w, h')" "a \<in> dom (cells h)"
  shows "cells h' a = cells h a"
proof -
  have "a \<noteq> next_addr h" using assms(1,4) by (auto simp: heap_ok_def)
  with assms(3) show ?thesis
    by (auto simp: cloneAttribution_def cloneActor_def new_cell_def split: option.splits prod.splits)
qed

lemma clone_fields:
  assumes "heap_ok h" "pointers_ok h v" "cloneAttribution (Some v) h = (Some w, h')"
  shows "initiated_by w = initiated_by v" "executed_by w = executed_by v" "tenant_id w = tenant_id v"
    "(on_behalf_of v = None \<and> on_behalf_of w = None) \<or>
     (\<exists>a. on_behalf_of v = Some a \<and> on_behalf_of w = Some (next_addr h)
          \<and> cells h' (next_addr h) = cells h a \<and> next_addr h \<notin> dom (cells h))"
  using assms
  by (auto simp: cloneAttribution_def cloneActor_def new_cell_def heap_ok_def pointers_ok_def
      split: option.splits prod.splits)

lemma clone_deref:
  assumes "heap_ok h" "pointers_ok h v" "cloneAttribution (Some v) h = (Some w, h')"
  shows "deref h' w = deref h v"
proof -
  note f = clone_fields [OF assms] and c = clone_cells [OF assms]
  have "Option.bind (initiated_by v) (cells h') = Option.bind (initiated_by v) (cells h)"
    "Option.bind (executed_by v) (cells h') = Option.bind (executed_by v) (cells h)"
    using assms(2) c by (auto simp: pointers_ok_def bind_eq_None_conv intro!: bind_option_cong)
  with f show ?thesis by (auto simp: deref_def)
qed

section \<open>Properties\<close>

text \<open>A cloned attribution denotes the same value, and a later write through the source's
  \<open>OnBehalfOf\<close> pointer does not reach the clone's \<open>OnBehalfOf\<close>.\<close>

theorem clone_separates_on_behalf_of:
  assumes "heap_ok h" "pointers_ok h v" "cloneAttribution (Some v) h = (Some w, h')"
    and "on_behalf_of v = Some a"
  shows "deref h' w = deref h v
    \<and> on_behalf_of (deref (write_cell a x h') w) = on_behalf_of (deref h v)"
proof -
  have "a \<in> dom (cells h)" using assms(2,4) by (auto simp: pointers_ok_def)
  with clone_fields [OF assms(1-3)] clone_deref [OF assms(1-3)] assms(4) show ?thesis
    by (auto simp: deref_def write_cell_def)
qed

theorem clone_separates_on_behalf_of_witness:
  "let v = \<lparr>initiated_by = None, executed_by = None, on_behalf_of = Some 0, tenant_id = []\<rparr>;
       u = \<lparr>actor_id = ''a'', actor_type = ''user''\<rparr>;
       h = \<lparr>cells = [0 \<mapsto> u], next_addr = 1\<rparr>;
       (w, h') = cloneAttribution (Some v) h
   in on_behalf_of (deref (write_cell 0 (u\<lparr>actor_id := ''b''\<rparr>) h') (the w)) = Some u"
proof -
  let ?v = "\<lparr>initiated_by = None, executed_by = None, on_behalf_of = Some 0, tenant_id = []\<rparr> :: addr attribution"
  let ?u = "\<lparr>actor_id = ''a'', actor_type = ''user''\<rparr>"
  let ?h = "\<lparr>cells = [0 \<mapsto> ?u], next_addr = 1\<rparr>"
  have c: "cloneAttribution (Some ?v) ?h = (Some (?v\<lparr>on_behalf_of := Some 1\<rparr>), snd (new_cell ?u ?h))"
    by (simp add: cloneAttribution_def cloneActor_def new_cell_def)
  have "heap_ok ?h" "pointers_ok ?h ?v" by (auto simp: heap_ok_def pointers_ok_def)
  from clone_separates_on_behalf_of [OF this c, of 0 "?u\<lparr>actor_id := ''b''\<rparr>"] c
  show ?thesis by (simp add: deref_def)
qed

text \<open>C15. A clone shares the initiating actor with its source: a write through the source's
  \<open>InitiatedBy\<close> pointer after the clone is seen in the clone, and emptying the actor there makes
  the clone's attribution fail validation, so a value that was validated is not immutable.\<close>

theorem clone_shares_initiated_by:
  assumes "heap_ok h" "pointers_ok h v" "cloneAttribution (Some v) h = (Some w, h')"
    and "initiated_by v = Some a"
  shows "initiated_by (deref (write_cell a x h') w) = Some x
    \<and> validateAttribution (deref (write_cell a \<lparr>actor_id = [], actor_type = []\<rparr> h') w)
        = Some (InitiatedBy ActorIncomplete)"
  using clone_fields [OF assms(1-3)] assms(4)
  by (simp add: deref_def write_cell_def validateAttribution_def validateActor_def)

theorem clone_shares_initiated_by_witness:
  "let v = \<lparr>initiated_by = Some 0, executed_by = None, on_behalf_of = None, tenant_id = []\<rparr>;
       u = \<lparr>actor_id = ''a'', actor_type = ''user''\<rparr>;
       h = \<lparr>cells = [0 \<mapsto> u], next_addr = 1\<rparr>;
       (w, h') = cloneAttribution (Some v) h
   in validateAttribution (deref h' (the w)) = None
      \<and> initiated_by (deref (write_cell 0 (u\<lparr>actor_id := ''b''\<rparr>) h') (the w)) = Some (u\<lparr>actor_id := ''b''\<rparr>)"
proof -
  let ?v = "\<lparr>initiated_by = Some 0, executed_by = None, on_behalf_of = None, tenant_id = []\<rparr> :: addr attribution"
  let ?u = "\<lparr>actor_id = ''a'', actor_type = ''user''\<rparr>"
  let ?h = "\<lparr>cells = [0 \<mapsto> ?u], next_addr = 1\<rparr>"
  have c: "cloneAttribution (Some ?v) ?h = (Some ?v, ?h)"
    by (simp add: cloneAttribution_def cloneActor_def)
  have v: "validateAttribution (deref ?h ?v) = None"
    by (simp add: deref_def) code_simp
  have "heap_ok ?h" "pointers_ok ?h ?v" by (auto simp: heap_ok_def pointers_ok_def)
  from clone_shares_initiated_by [OF this c, of 0 "?u\<lparr>actor_id := ''b''\<rparr>"] c v
  show ?thesis by simp
qed

end
