(* ===== verification/GoTime.thy ===== *)
theory GoTime
  imports GoStrings
begin

text \<open>
  \<open>time.Parse(time.RFC3339Nano, s)\<close> on byte strings.  An instant is the number of
  nanoseconds since 0001-01-01T00:00:00Z, Go's zero time, so \<open>IsZero\<close> is \<open>= 0\<close>,
  and \<open>Before\<close> and \<open>After\<close> are \<open><\<close> and \<open>>\<close>.  The library first tries a strict RFC 3339
  scanner and then the general layout parser, which accepts everything the strict one
  does with the same result; the general one is what is written here: an hour of one
  digit, a decimal comma, and offsets of up to 24:60 pass it.
\<close>

type_synonym instant = int

section \<open>The calendar\<close>

definition is_leap :: "int \<Rightarrow> bool" where
  "is_leap y \<longleftrightarrow> y mod 4 = 0 \<and> (y mod 100 \<noteq> 0 \<or> y mod 400 = 0)"

definition days_in :: "int \<Rightarrow> int \<Rightarrow> int" where
  "days_in m y =
     (if m = 2 then (if is_leap y then 29 else 28)
      else if m \<in> {4, 6, 9, 11} then 30 else 31)"

definition days_before_year :: "int \<Rightarrow> int" where
  "days_before_year y = (let p = y - 1 in 365 * p + p div 4 - p div 100 + p div 400)"

definition days_before_month :: "int \<Rightarrow> int \<Rightarrow> int" where
  "days_before_month m y = sum_list (map (\<lambda>k. days_in k y) [1 .. m - 1])"

definition instant_of :: "int \<Rightarrow> int \<Rightarrow> int \<Rightarrow> int \<Rightarrow> int \<Rightarrow> int \<Rightarrow> int \<Rightarrow> instant" where
  "instant_of y mo d h mi s ns =
     ((((days_before_year y + days_before_month mo y + d - 1) * 24 + h) * 60
        + mi) * 60 + s) * 1000000000 + ns"

definition is_zero :: "instant \<Rightarrow> bool" where
  "is_zero t \<longleftrightarrow> t = 0"

section \<open>Scanning\<close>

definition lit :: "char \<Rightarrow> string \<Rightarrow> string option" where
  "lit c s = strip_prefix [c] s"

text \<open>\<open>getnum\<close>: two digits, or one where \<open>fixed\<close> does not ask for two.\<close>

fun getnum :: "bool \<Rightarrow> string \<Rightarrow> (int \<times> string) option" where
  "getnum fixed [] = None"
| "getnum fixed [a] = (if is_digit a \<and> \<not> fixed then Some (digit_val a, []) else None)"
| "getnum fixed (a # b # s) =
     (if \<not> is_digit a then None
      else if is_digit b then Some (digit_val a * 10 + digit_val b, s)
      else if fixed then None
      else Some (digit_val a, b # s))"

definition num_in :: "int \<Rightarrow> int \<Rightarrow> bool \<Rightarrow> string \<Rightarrow> (int \<times> string) option" where
  "num_in lo hi fixed s =
     Option.bind (getnum fixed s) (\<lambda>(n, r). if lo \<le> n \<and> n \<le> hi then Some (n, r) else None)"

fun dec_val :: "int \<Rightarrow> string \<Rightarrow> int" where
  "dec_val acc [] = acc"
| "dec_val acc (c # s) = dec_val (acc * 10 + digit_val c) s"

fun year4 :: "string \<Rightarrow> (int \<times> string) option" where
  "year4 (a # b # c # d # s) =
     (if list_all is_digit [a, b, c, d] then Some (dec_val 0 [a, b, c, d], s) else None)"
| "year4 s = None"

text \<open>
  The optional fraction: a point or a comma and at least one digit.  All digits are
  consumed, the first nine count.
\<close>

definition fraction :: "string \<Rightarrow> int \<times> string" where
  "fraction s =
     (case s of
        p # c # r \<Rightarrow>
          if (p = CHR ''.'' \<or> p = CHR '','') \<and> is_digit c
          then (let ds = takeWhile is_digit (c # r); k = take 9 ds
                in (dec_val 0 k * 10 ^ (9 - length k), dropWhile is_digit (c # r)))
          else (0, s)
      | _ \<Rightarrow> (0, s))"

text \<open>The zone: \<open>Z\<close>, or a sign, hours, a colon and minutes; the offset is in seconds.\<close>

definition zone :: "string \<Rightarrow> (int \<times> string) option" where
  "zone s =
     (case s of
        [] \<Rightarrow> None
      | z # r \<Rightarrow>
          if z = CHR ''Z'' then Some (0, r)
          else (case r of
                  h1 # h2 # c # m1 # m2 # rest \<Rightarrow>
                    if c = CHR '':'' \<and> list_all is_digit [h1, h2, m1, m2]
                       \<and> (z = CHR ''+'' \<or> z = CHR ''-'')
                    then (let hr = dec_val 0 [h1, h2]; mm = dec_val 0 [m1, m2];
                              off = (hr * 60 + mm) * 60
                          in if hr \<le> 24 \<and> mm \<le> 60
                             then Some (if z = CHR ''-'' then - off else off, rest) else None)
                    else None
                | _ \<Rightarrow> None))"

text \<open>The instant and the zone offset of a timestamp.\<close>

definition parse_rfc3339 :: "string \<Rightarrow> (instant \<times> int) option" where
  "parse_rfc3339 s =
     Option.bind (year4 s) (\<lambda>(y, s).
     Option.bind (lit CHR ''-'' s) (\<lambda>s.
     Option.bind (num_in 1 12 True s) (\<lambda>(mo, s).
     Option.bind (lit CHR ''-'' s) (\<lambda>s.
     Option.bind (num_in 0 99 True s) (\<lambda>(d, s).
     Option.bind (lit CHR ''T'' s) (\<lambda>s.
     Option.bind (num_in 0 23 False s) (\<lambda>(h, s).
     Option.bind (lit CHR '':'' s) (\<lambda>s.
     Option.bind (num_in 0 59 True s) (\<lambda>(mi, s).
     Option.bind (lit CHR '':'' s) (\<lambda>s.
     Option.bind (num_in 0 59 True s) (\<lambda>(sec, s).
       (case fraction s of (ns, s) \<Rightarrow>
     Option.bind (zone s) (\<lambda>(off, s).
       if s = [] \<and> 1 \<le> d \<and> d \<le> days_in mo y
       then Some (instant_of y mo d h mi sec ns - off * 1000000000, off)
       else None)))))))))))))"

text \<open>\<open>parseUTC\<close> of the governance package: an RFC 3339 timestamp whose zone offset is 0.\<close>

definition parse_utc :: "string \<Rightarrow> instant option" where
  "parse_utc s =
     (case parse_rfc3339 s of
        Some (t, off) \<Rightarrow> if off = 0 then Some t else None
      | None \<Rightarrow> None)"

definition valid_rfc3339 :: "string \<Rightarrow> bool" where
  "valid_rfc3339 s \<longleftrightarrow> parse_rfc3339 s \<noteq> None"

lemma parse_utc_valid: "parse_utc s = Some t \<Longrightarrow> valid_rfc3339 s"
  by (auto simp: parse_utc_def valid_rfc3339_def split: option.splits)

lemma parse_utc_Nil [simp]: "parse_utc [] = None" "parse_rfc3339 [] = None"
  by (simp_all add: parse_utc_def parse_rfc3339_def)

end
