(* ===== verification/HammondTypes.thy ===== *)
theory HammondTypes
  imports GoTime
begin

text \<open>
  hammond/internal/governance/types.go and the reference checks of validate.go: artifact,
  contract and policy references, contract identities, lifecycle events and governance
  records.  A Go pointer that may be nil is an option; \<open>int\<close> fields are only compared, so
  they are integers.  The five versioned references of the package (policy, authority,
  authority trust, authority root, membership) have the same fields and the same methods:
  they are one record, and each validator is told its own schema.
\<close>

abbreviation Schema :: string where "Schema \<equiv> ''ingen.hammond-governance/v1''"
abbreviation PolicySchema :: string where "PolicySchema \<equiv> ''ingen.hammond-review-policy/v1''"
abbreviation AuthoritySchema :: string where "AuthoritySchema \<equiv> ''ingen.hammond-authority/v1''"
abbreviation AuthorityTrustSchema :: string where
  "AuthorityTrustSchema \<equiv> ''ingen.hammond-authority-trust/v1''"
abbreviation AuthorityRootSchema :: string where
  "AuthorityRootSchema \<equiv> ''ingen.hammond-authority-root/v1''"
abbreviation MembershipSchema :: string where "MembershipSchema \<equiv> ''ingen.hammond-membership/v1''"

abbreviation StateRegistered :: string where "StateRegistered \<equiv> ''registered''"
abbreviation StateInReview :: string where "StateInReview \<equiv> ''in_review''"
abbreviation StateApproved :: string where "StateApproved \<equiv> ''approved''"
abbreviation StateRejected :: string where "StateRejected \<equiv> ''rejected''"
abbreviation StateSuperseded :: string where "StateSuperseded \<equiv> ''superseded''"

abbreviation EventRegistered :: string where "EventRegistered \<equiv> ''registered''"
abbreviation EventReviewOpened :: string where "EventReviewOpened \<equiv> ''review-opened''"
abbreviation EventApprovalRecorded :: string where "EventApprovalRecorded \<equiv> ''approval-recorded''"
abbreviation EventRejectionRecorded :: string where
  "EventRejectionRecorded \<equiv> ''rejection-recorded''"
abbreviation EventAmendmentCreated :: string where "EventAmendmentCreated \<equiv> ''amendment-created''"
abbreviation EventSuperseded :: string where "EventSuperseded \<equiv> ''superseded''"

abbreviation DecisionApprove :: string where "DecisionApprove \<equiv> ''approve''"
abbreviation DecisionReject :: string where "DecisionReject \<equiv> ''reject''"

section \<open>Data\<close>

record Artifact =
  art_URI :: string
  art_SHA256 :: string

record ContractReference =
  ct_ProjectID :: string
  ct_ID :: string
  ct_Version :: int
  ct_Schema :: string
  ct_Artifact :: Artifact

record Reference =
  ref_ID :: string
  ref_Version :: int
  ref_Schema :: string
  ref_Artifact :: Artifact

record ContractIdentity =
  id_ProjectID :: string
  id_ID :: string
  id_Version :: int
  id_Schema :: string
  id_ArtifactSHA256 :: string

record Event =
  ev_ID :: string
  ev_Type :: string
  ev_Actor :: string
  ev_Role :: string
  ev_At :: string
  ev_ReviewCycleID :: string
  ev_Decision :: string
  ev_ArtifactSHA256 :: string
  ev_Membership :: "Reference option"
  ev_Reason :: string
  ev_Predecessor :: "ContractIdentity option"
  ev_Successor :: "ContractIdentity option"
  ev_AmendmentKind :: string

record Record =
  rec_Schema :: string
  rec_RecordID :: string
  rec_Contract :: ContractReference
  rec_Policy :: Reference
  rec_State :: string
  rec_Events :: "Event list"

definition Reference_Key :: "Reference \<Rightarrow> string" where
  "Reference_Key r =
     ref_ID r @ '':'' @ dec_string (ref_Version r) @ '':'' @ ref_Schema r @ '':'' @
     art_SHA256 (ref_Artifact r)"

definition Reference_Equal :: "Reference \<Rightarrow> Reference \<Rightarrow> bool" where
  "Reference_Equal r s \<longleftrightarrow>
     ref_ID r = ref_ID s \<and> ref_Version r = ref_Version s \<and> ref_Schema r = ref_Schema s \<and>
     art_SHA256 (ref_Artifact r) = art_SHA256 (ref_Artifact s)"

definition Identity :: "ContractReference \<Rightarrow> ContractIdentity" where
  "Identity r =
     \<lparr>id_ProjectID = ct_ProjectID r, id_ID = ct_ID r, id_Version = ct_Version r,
      id_Schema = ct_Schema r, id_ArtifactSHA256 = art_SHA256 (ct_Artifact r)\<rparr>"

definition Identity_Key :: "ContractIdentity \<Rightarrow> string" where
  "Identity_Key i =
     id_ProjectID i @ '':'' @ id_ID i @ '':'' @ dec_string (id_Version i) @ '':'' @
     id_Schema i @ '':'' @ id_ArtifactSHA256 i"

definition Identity_Equal :: "ContractIdentity \<Rightarrow> ContractIdentity \<Rightarrow> bool" where
  "Identity_Equal i j \<longleftrightarrow> i = j"

lemma Reference_Equal_equiv:
  "Reference_Equal r r" "Reference_Equal r s \<Longrightarrow> Reference_Equal s r"
  "Reference_Equal r s \<Longrightarrow> Reference_Equal s t \<Longrightarrow> Reference_Equal r t"
  by (auto simp: Reference_Equal_def)

lemma Reference_Equal_Key: "Reference_Equal r s \<Longrightarrow> Reference_Key r = Reference_Key s"
  by (simp add: Reference_Equal_def Reference_Key_def)

text \<open>The zero value of a reference.\<close>

definition empty_reference :: Reference where
  "empty_reference =
     \<lparr>ref_ID = [], ref_Version = 0, ref_Schema = [],
      ref_Artifact = \<lparr>art_URI = [], art_SHA256 = []\<rparr>\<rparr>"

section \<open>Problems of references\<close>

definition reference_problems :: "string \<Rightarrow> Reference \<Rightarrow> message \<Rightarrow> message list" where
  "reference_problems schema r path =
     problem (blank (ref_ID r)) (path @ [T ''.id is required'']) @
     problem (ref_Version r < 1) (path @ [T ''.version must be positive'']) @
     problem (ref_Schema r \<noteq> schema) (path @ [T ''.schema must be '', T schema]) @
     problem (blank (art_URI (ref_Artifact r))) (path @ [T ''.artifact.uri is required'']) @
     problem (\<not> valid_sha256 (art_SHA256 (ref_Artifact r)))
       (path @ [T ''.artifact.sha256 must be a lowercase SHA-256 digest''])"

definition validatePolicyReference :: "Reference \<Rightarrow> message \<Rightarrow> message list" where
  "validatePolicyReference = reference_problems PolicySchema"

definition validateAuthorityReference :: "Reference \<Rightarrow> message \<Rightarrow> message list" where
  "validateAuthorityReference = reference_problems AuthoritySchema"

definition validateAuthorityTrustReference :: "Reference \<Rightarrow> message \<Rightarrow> message list" where
  "validateAuthorityTrustReference = reference_problems AuthorityTrustSchema"

definition validateAuthorityRootReference :: "Reference \<Rightarrow> message \<Rightarrow> message list" where
  "validateAuthorityRootReference = reference_problems AuthorityRootSchema"

definition validateMembershipReference :: "Reference \<Rightarrow> message \<Rightarrow> message list" where
  "validateMembershipReference = reference_problems MembershipSchema"

definition validateContractReference :: "ContractReference \<Rightarrow> message \<Rightarrow> message list" where
  "validateContractReference r path =
     problem (blank (ct_ProjectID r)) (path @ [T ''.project_id is required'']) @
     problem (blank (ct_ID r)) (path @ [T ''.id is required'']) @
     problem (ct_Version r < 1) (path @ [T ''.version must be positive'']) @
     problem (blank (ct_Schema r)) (path @ [T ''.schema is required'']) @
     problem (blank (art_URI (ct_Artifact r))) (path @ [T ''.artifact.uri is required'']) @
     problem (\<not> valid_sha256 (art_SHA256 (ct_Artifact r)))
       (path @ [T ''.artifact.sha256 must be a lowercase SHA-256 digest''])"

definition validateIdentity :: "ContractIdentity option \<Rightarrow> message \<Rightarrow> message list" where
  "validateIdentity identity path =
     (case identity of
        None \<Rightarrow> [path @ [T '' is required'']]
      | Some i \<Rightarrow>
          problem (blank (id_ProjectID i)) (path @ [T ''.project_id is required'']) @
          problem (blank (id_ID i)) (path @ [T ''.id is required'']) @
          problem (id_Version i < 1) (path @ [T ''.version must be positive'']) @
          problem (blank (id_Schema i)) (path @ [T ''.schema is required'']) @
          problem (\<not> valid_sha256 (id_ArtifactSHA256 i))
            (path @ [T ''.artifact_sha256 must be a lowercase SHA-256 digest'']))"

definition well_formed_reference :: "string \<Rightarrow> Reference \<Rightarrow> bool" where
  "well_formed_reference schema r \<longleftrightarrow>
     \<not> blank (ref_ID r) \<and> 1 \<le> ref_Version r \<and> ref_Schema r = schema \<and>
     \<not> blank (art_URI (ref_Artifact r)) \<and> valid_sha256 (art_SHA256 (ref_Artifact r))"

lemma reference_problems_Nil [check_simps]:
  "reference_problems schema r path = [] \<longleftrightarrow> well_formed_reference schema r"
  by (auto simp: reference_problems_def well_formed_reference_def)

lemmas validate_reference_defs =
  validatePolicyReference_def validateAuthorityReference_def validateAuthorityTrustReference_def
  validateAuthorityRootReference_def validateMembershipReference_def

section \<open>A policy, an authority or a root may be left out\<close>

definition isEmptyAuthorityReference :: "Reference \<Rightarrow> bool" where
  "isEmptyAuthorityReference r \<longleftrightarrow>
     ref_ID r = [] \<and> ref_Version r = 0 \<and> ref_Schema r = [] \<and>
     art_URI (ref_Artifact r) = [] \<and> art_SHA256 (ref_Artifact r) = []"

end
