(* ===== verification/HammondPolicy.thy ===== *)
theory HammondPolicy
  imports HammondTypes
begin

text \<open>
  hammond/internal/governance/policy.go: review policies, the local authority snapshot and
  the rule that decides when a review cycle is approved.  \<open>AuthorityVerifier\<close> is an
  interface of the package, so its contract is a locale; a value of it is either a plain
  verifier or one that also carries the membership snapshot it was made from
  (\<open>MembershipAuthorityVerifier\<close>).  The Go maps of a policy are lists of entries in the
  order they are ranged over; \<open>satisfied_iff\<close> shows that the verdict does not depend on it.
  The sets of actors the code keeps as maps to \<open>struct{}\<close> are sets.
\<close>

section \<open>Policies and verifiers\<close>

type_synonym verify_fun = "string \<Rightarrow> string \<Rightarrow> string \<Rightarrow> message + bool"

datatype AuthorityVerifier =
    Verifier verify_fun
  | MembershipVerifierOf verify_fun Reference

fun Verify_of :: "AuthorityVerifier \<Rightarrow> verify_fun" where
  "Verify_of (Verifier v) = v"
| "Verify_of (MembershipVerifierOf v r) = v"

record ReviewPolicy =
  pol_Reference :: Reference
  pol_MinimumApprovals :: int
  pol_RequiredRoles :: "string list"
  pol_RoleApprovalThresholds :: "(string, int) gomap"
  pol_Authority :: Reference
  pol_AuthorityVerifier :: "AuthorityVerifier option"
  pol_ActorRoles :: "(string, string list) gomap"

record AuthoritySignature =
  sig_Algorithm :: string
  sig_KeyID :: string
  sig_Signature :: string

text \<open>\<open>Actors\<close> may be nil, which \<open>Validate\<close> tells from an empty map.\<close>

record ReviewAuthority =
  auth_Reference :: Reference
  auth_Actors :: "(string, string list) gomap option"
  auth_Signature :: "AuthoritySignature option"

definition DefaultReviewPolicy :: ReviewPolicy where
  "DefaultReviewPolicy =
     \<lparr>pol_Reference =
        \<lparr>ref_ID = ''single-approval'', ref_Version = 1, ref_Schema = PolicySchema,
         ref_Artifact =
           \<lparr>art_URI = ''hammond/examples/review-policy-v1.json'',
            art_SHA256 = ''c80517e8aa51ca1715fc5e1214b2222aa99ed5fa286aee9f7340814c39caac10''\<rparr>\<rparr>,
      pol_MinimumApprovals = 1,
      pol_RequiredRoles = [],
      pol_RoleApprovalThresholds = [],
      pol_Authority =
        \<lparr>ref_ID = ''local-reviewers'', ref_Version = 1, ref_Schema = AuthoritySchema,
         ref_Artifact =
           \<lparr>art_URI = ''hammond/examples/review-authority-v1.json'',
            art_SHA256 = ''f478a9d1b32421f22645b2f374feb8cbcf5978aec2ef3317605e92d8322e3c62''\<rparr>\<rparr>,
      pol_AuthorityVerifier = None,
      pol_ActorRoles = [(''reviewer'', [''product-reviewer'']),
                        (''reviewer@example.test'', [''product-reviewer''])]\<rparr>"

section \<open>Validation of policies\<close>

fun role_list_loop :: "message \<Rightarrow> string set \<Rightarrow> string list \<Rightarrow> message option" where
  "role_list_loop label seen [] = None"
| "role_list_loop label seen (r # rs) =
     (let role = trim_space r in
      if role = [] then Some (label @ [T '' must not be empty''])
      else if role \<in> seen then Some (label @ [T '' role '', Q role, T '' is duplicated''])
      else role_list_loop label (insert role seen) rs)"

definition validateRoleList :: "string list \<Rightarrow> message \<Rightarrow> message option" where
  "validateRoleList roles label = role_list_loop label {} roles"

fun threshold_loop :: "string set \<Rightarrow> (string, int) gomap \<Rightarrow> message option" where
  "threshold_loop seen [] = None"
| "threshold_loop seen ((r, t) # m) =
     (let role = trim_space r in
      if role = [] then Some [T ''role approval threshold role must not be empty'']
      else if role \<in> seen
      then Some [T ''role approval threshold role '', Q role, T '' is duplicated'']
      else if t < 1
      then Some [T ''role approval threshold for '', Q role, T '' must be positive'']
      else threshold_loop (insert role seen) m)"

definition validateRoleApprovalThresholds :: "(string, int) gomap \<Rightarrow> message option" where
  "validateRoleApprovalThresholds m = threshold_loop {} m"

definition validateActorRoleGrants :: "(string, string list) gomap \<Rightarrow> message option" where
  "validateActorRoleGrants m =
     first_error (\<lambda>(actor, roles).
       first_some
         [fail_if (blank actor) [T ''actor role grants must not contain an empty actor''],
          validateRoleList roles [T ''actor '', Q actor]]) m"

definition ReviewPolicy_Validate :: "ReviewPolicy \<Rightarrow> message option" where
  "ReviewPolicy_Validate p =
     first_some
       [fail_if (blank (ref_ID (pol_Reference p))) [T ''policy id is required''],
        fail_if (ref_Version (pol_Reference p) < 1) [T ''policy version must be positive''],
        fail_if (ref_Schema (pol_Reference p) \<noteq> PolicySchema)
          [T ''policy schema must be '', T PolicySchema],
        fail_if (blank (art_URI (ref_Artifact (pol_Reference p))))
          [T ''policy artifact uri is required''],
        fail_if (\<not> valid_sha256 (art_SHA256 (ref_Artifact (pol_Reference p))))
          [T ''policy artifact sha256 must be a lowercase SHA-256 digest''],
        fail_if (pol_MinimumApprovals p < 1) [T ''minimum approvals must be positive''],
        (if isEmptyAuthorityReference (pol_Authority p) then None
         else (case validateAuthorityReference (pol_Authority p) [T ''authority''] of
                 [] \<Rightarrow> None | ps \<Rightarrow> Some (join_problems ps))),
        validateRoleList (pol_RequiredRoles p) [T ''required roles''],
        validateRoleApprovalThresholds (pol_RoleApprovalThresholds p),
        validateActorRoleGrants (pol_ActorRoles p)]"

section \<open>Authorisation\<close>

definition ReviewAuthority_Verify :: "ReviewAuthority \<Rightarrow> verify_fun" where
  "ReviewAuthority_Verify authority actor role at =
     (case Option.bind (auth_Actors authority) (\<lambda>m. map_of m (trim_space actor)) of
        None \<Rightarrow> Inr False
      | Some roles \<Rightarrow> Inr (list_ex (\<lambda>granted. trim_space granted = trim_space role) roles))"

definition authorizes :: "ReviewPolicy \<Rightarrow> verify_fun" where
  "authorizes p actor role at =
     (if parse_utc at = None
      then Inl [T ''decision timestamp must be validated before authority verification'']
      else case pol_AuthorityVerifier p of
             Some v \<Rightarrow> Verify_of v actor role at
           | None \<Rightarrow>
               if isEmptyAuthorityReference (pol_Authority p) \<and> pol_ActorRoles p = []
               then Inr True
               else ReviewAuthority_Verify
                      \<lparr>auth_Reference = empty_reference, auth_Actors = Some (pol_ActorRoles p),
                       auth_Signature = None\<rparr>
                      actor role at)"

definition authorizesEvent :: "ReviewPolicy \<Rightarrow> Event \<Rightarrow> message + bool" where
  "authorizesEvent p e =
     (case pol_AuthorityVerifier p of
        Some (MembershipVerifierOf v r) \<Rightarrow>
          (case ev_Membership e of
             None \<Rightarrow>
               Inl [T ''membership provenance is required for the supplied membership verifier'']
           | Some m \<Rightarrow>
               if \<not> Reference_Equal m r
               then Inl [T ''membership provenance does not match the supplied membership verifier'']
               else authorizes p (ev_Actor e) (ev_Role e) (ev_At e))
      | _ \<Rightarrow> authorizes p (ev_Actor e) (ev_Role e) (ev_At e))"

definition hasAuthorityVerifier :: "ReviewPolicy \<Rightarrow> bool" where
  "hasAuthorityVerifier p \<longleftrightarrow>
     pol_AuthorityVerifier p \<noteq> None \<or> \<not> isEmptyAuthorityReference (pol_Authority p) \<or>
     pol_ActorRoles p \<noteq> []"

section \<open>When a cycle is approved\<close>

definition counts_for :: "string \<Rightarrow> Event \<Rightarrow> bool" where
  "counts_for cycle e \<longleftrightarrow>
     ev_Type e = EventApprovalRecorded \<and> ev_ReviewCycleID e = cycle \<and>
     ev_Decision e = DecisionApprove"

definition actors_of :: "string \<Rightarrow> (string, string set) gomap \<Rightarrow> string set" where
  "actors_of role m = (case map_of m role of None \<Rightarrow> {} | Some s \<Rightarrow> s)"

fun collect_approvals ::
  "ReviewPolicy \<Rightarrow> string \<Rightarrow> string set \<Rightarrow> (string, string set) gomap \<Rightarrow> Event list
   \<Rightarrow> message + string set \<times> (string, string set) gomap" where
  "collect_approvals p cycle actors roleActors [] = Inr (actors, roleActors)"
| "collect_approvals p cycle actors roleActors (e # es) =
     (if \<not> counts_for cycle e then collect_approvals p cycle actors roleActors es
      else let actor = trim_space (ev_Actor e); role = trim_space (ev_Role e) in
        case authorizesEvent p e of
          Inl err \<Rightarrow> Inl ([T ''verify actor '', Q actor, T '' for role '', Q role, T '': ''] @ err)
        | Inr authorized \<Rightarrow>
            collect_approvals p cycle
              (if authorized \<and> actor \<noteq> [] then insert actor actors else actors)
              (if authorized \<and> actor \<noteq> [] \<and> role \<noteq> []
               then map_set role (insert actor (actors_of role roleActors)) roleActors
               else roleActors)
              es)"

definition threshold_at :: "string \<Rightarrow> (string, int) gomap \<Rightarrow> int" where
  "threshold_at role m = (case map_of m role of None \<Rightarrow> 0 | Some t \<Rightarrow> t)"

fun add_required :: "string list \<Rightarrow> (string, int) gomap \<Rightarrow> (string, int) gomap" where
  "add_required [] m = m"
| "add_required (r # rs) m =
     (let role = trim_space r in
      add_required rs (if role \<noteq> [] \<and> threshold_at role m < 1 then map_set role 1 m else m))"

fun raise_thresholds :: "(string, int) gomap \<Rightarrow> (string, int) gomap \<Rightarrow> (string, int) gomap" where
  "raise_thresholds [] m = m"
| "raise_thresholds ((r, t) # ts) m =
     (let role = trim_space r in
      raise_thresholds ts (if role \<noteq> [] \<and> threshold_at role m < t then map_set role t m else m))"

definition approvalThresholds :: "ReviewPolicy \<Rightarrow> (string, int) gomap" where
  "approvalThresholds p =
     raise_thresholds (pol_RoleApprovalThresholds p) (add_required (pol_RequiredRoles p) [])"

definition satisfied :: "ReviewPolicy \<Rightarrow> Event list \<Rightarrow> string \<Rightarrow> message + bool" where
  "satisfied p events cycle =
     (if pol_MinimumApprovals p < 1 \<or> blank cycle then Inr False
      else case collect_approvals p cycle {} [] events of
             Inl err \<Rightarrow> Inl err
           | Inr (actors, roleActors) \<Rightarrow>
               if int (card actors) < pol_MinimumApprovals p then Inr False
               else Inr (\<not> list_ex (\<lambda>(role, t). int (card (actors_of role roleActors)) < t)
                              (approvalThresholds p)))"

fun cycle_loop :: "string \<Rightarrow> Event list \<Rightarrow> string" where
  "cycle_loop c [] = c"
| "cycle_loop c (e # es) =
     cycle_loop (if ev_Type e = EventReviewOpened \<and> \<not> blank (ev_ReviewCycleID e)
                 then ev_ReviewCycleID e else c) es"

definition activeReviewCycle :: "Event list \<Rightarrow> string" where
  "activeReviewCycle events = cycle_loop [] events"

section \<open>The contract of a verifier\<close>

text \<open>
  What the package relies on: a verifier does not distinguish an actor or a role from its
  trimmed spelling, so counting trimmed actors counts the people it authorised.  A total
  verifier never fails.
\<close>

locale authority_verifier =
  fixes verify :: verify_fun
  assumes trims: "verify (trim_space actor) (trim_space role) at = verify actor role at"
begin

lemma same_spelling:
  "trim_space a = trim_space b \<Longrightarrow> trim_space r = trim_space s \<Longrightarrow> verify a r at = verify b s at"
  by (metis trims)

lemma policy_trims:
  "pol_AuthorityVerifier p = Some v \<Longrightarrow> Verify_of v = verify \<Longrightarrow>
   authorizes p (trim_space a) (trim_space r) at = authorizes p a r at"
  by (simp add: authorizes_def trims)

end

locale total_verifier = authority_verifier +
  assumes returns: "\<exists>b. verify actor role at = Inr b"
begin

lemma policy_returns:
  "pol_AuthorityVerifier p = Some (Verifier verify) \<Longrightarrow> parse_utc (ev_At e) \<noteq> None \<Longrightarrow>
   \<exists>b. authorizesEvent p e = Inr b"
  by (simp add: authorizesEvent_def authorizes_def returns)

end

interpretation snapshot: total_verifier "ReviewAuthority_Verify authority" for authority
  by unfold_locales (auto simp: ReviewAuthority_Verify_def split: option.splits)

text \<open>Without a verifier the policy falls back to its own actors, or admits everyone.\<close>

lemma authorizes_trims_without_verifier:
  "pol_AuthorityVerifier p = None \<Longrightarrow>
   authorizes p (trim_space a) (trim_space r) at = authorizes p a r at"
  by (simp add: authorizes_def snapshot.trims)

lemma authorizesEvent_Inr:
  "authorizesEvent p e = Inr b \<Longrightarrow> authorizes p (ev_Actor e) (ev_Role e) (ev_At e) = Inr b"
  by (auto simp: authorizesEvent_def split: option.splits AuthorityVerifier.splits if_splits)

lemma authorizes_parses: "authorizes p a r at = Inr b \<Longrightarrow> parse_utc at \<noteq> None"
  by (auto simp: authorizes_def split: if_splits)

section \<open>What the counting computes\<close>

definition approving :: "ReviewPolicy \<Rightarrow> string \<Rightarrow> Event \<Rightarrow> bool" where
  "approving p cycle e \<longleftrightarrow>
     counts_for cycle e \<and> authorizesEvent p e = Inr True \<and> \<not> blank (ev_Actor e)"

definition approvers :: "ReviewPolicy \<Rightarrow> string \<Rightarrow> Event list \<Rightarrow> string set" where
  "approvers p cycle es = (\<lambda>e. trim_space (ev_Actor e)) ` {e \<in> set es. approving p cycle e}"

definition role_approvers :: "ReviewPolicy \<Rightarrow> string \<Rightarrow> Event list \<Rightarrow> string \<Rightarrow> string set" where
  "role_approvers p cycle es role =
     (\<lambda>e. trim_space (ev_Actor e)) `
       {e \<in> set es. approving p cycle e \<and> trim_space (ev_Role e) = role}"

lemma finite_approvers [simp]: "finite (approvers p c es)" "finite (role_approvers p c es r)"
  by (simp_all add: approvers_def role_approvers_def)

lemma approvers_Cons:
  "approvers p c (e # es) =
     (if approving p c e then {trim_space (ev_Actor e)} else {}) \<union> approvers p c es"
  "role_approvers p c (e # es) r =
     (if approving p c e \<and> trim_space (ev_Role e) = r then {trim_space (ev_Actor e)} else {}) \<union>
     role_approvers p c es r"
  by (auto simp: approvers_def role_approvers_def)

lemma approvers_append:
  "approvers p c (es @ fs) = approvers p c es \<union> approvers p c fs"
  "role_approvers p c (es @ fs) r = role_approvers p c es r \<union> role_approvers p c fs r"
  by (auto simp: approvers_def role_approvers_def)

lemma actors_of_set [simp]: "actors_of r (map_set k v m) = (if r = k then v else actors_of r m)"
  by (simp add: actors_of_def)

lemma collect_approvals_Inr:
  "collect_approvals p c A R es = Inr (A', R') \<Longrightarrow>
   A' = A \<union> approvers p c es \<and>
   (\<forall>r. r \<noteq> [] \<longrightarrow> actors_of r R' = actors_of r R \<union> role_approvers p c es r)"
proof (induction es arbitrary: A R)
  case Nil
  then show ?case by (simp add: approvers_def role_approvers_def)
next
  case (Cons e es)
  show ?case
  proof (cases "counts_for c e")
    case False
    with Cons show ?thesis by (simp add: approvers_Cons approving_def)
  next
    case True
    with Cons.prems obtain b where b: "authorizesEvent p e = Inr b"
      by (auto simp: Let_def split: sum.splits)
    let ?a = "trim_space (ev_Actor e)" and ?r = "trim_space (ev_Role e)"
    from Cons.IH[of "if b \<and> ?a \<noteq> [] then insert ?a A else A"
        "if b \<and> ?a \<noteq> [] \<and> ?r \<noteq> [] then map_set ?r (insert ?a (actors_of ?r R)) R else R"]
      Cons.prems True b
    show ?thesis
      by (cases b; cases "?a = []"; cases "?r = []")
         (simp_all add: approvers_Cons approving_def Let_def)
  qed
qed

lemma collect_approvals_Inl:
  "(\<exists>err. collect_approvals p c A R es = Inl err) \<longleftrightarrow>
   (\<exists>e \<in> set es. counts_for c e \<and> (\<exists>err. authorizesEvent p e = Inl err))"
proof (induction es arbitrary: A R)
  case (Cons e es)
  show ?case
  proof (cases "counts_for c e")
    case True
    with Cons show ?thesis by (cases "authorizesEvent p e") (auto simp: Let_def)
  qed (use Cons in auto)
qed simp

lemma threshold_at_set [simp]:
  "threshold_at r (map_set k v m) = (if r = k then v else threshold_at r m)"
  by (simp add: threshold_at_def)

lemma threshold_at_Nil [simp]: "threshold_at r [] = 0"
  by (simp add: threshold_at_def)

lemma threshold_step:
  "(\<forall>k. threshold_at k (if r \<noteq> [] \<and> threshold_at r m < t then map_set r t m else m) \<le> f k)
   \<longleftrightarrow> (\<forall>k. threshold_at k m \<le> f k) \<and> (r \<noteq> [] \<longrightarrow> t \<le> f r)"
proof (cases "r \<noteq> [] \<and> threshold_at r m < t")
  case True
  show ?thesis
  proof
    assume l: "\<forall>k. threshold_at k (if r \<noteq> [] \<and> threshold_at r m < t then map_set r t m else m) \<le> f k"
    have le: "(if k = r then t else threshold_at k m) \<le> f k" for k
      using l True by simp
    have "threshold_at k m \<le> f k" for k
      using le[of k] True by (cases "k = r") auto
    moreover have "t \<le> f r" using le[of r] by simp
    ultimately show "(\<forall>k. threshold_at k m \<le> f k) \<and> (r \<noteq> [] \<longrightarrow> t \<le> f r)" by simp
  qed (use True in auto)
next
  case False
  then have "r \<noteq> [] \<longrightarrow> t \<le> threshold_at r m" by auto
  then have "\<forall>k. threshold_at k m \<le> f k \<Longrightarrow> r \<noteq> [] \<longrightarrow> t \<le> f r"
    using order_trans by blast
  with False show ?thesis by (simp only: if_False) blast
qed

lemma add_required_bound:
  "(\<forall>k. threshold_at k (add_required rs m) \<le> f k) \<longleftrightarrow>
   (\<forall>k. threshold_at k m \<le> f k) \<and> (\<forall>r \<in> set rs. \<not> blank r \<longrightarrow> (1 :: int) \<le> f (trim_space r))"
proof (induction rs arbitrary: m)
  case (Cons r rs)
  let ?r = "trim_space r"
  have "(\<forall>k. threshold_at k (if ?r \<noteq> [] \<and> threshold_at ?r m < 1 then map_set ?r 1 m else m) \<le> f k)
        \<longleftrightarrow> (\<forall>k. threshold_at k m \<le> f k) \<and> (?r \<noteq> [] \<longrightarrow> 1 \<le> f ?r)"
    by (rule threshold_step)
  with Cons show ?case by (auto simp: Let_def)
qed simp

lemma raise_thresholds_bound:
  "(\<forall>k. threshold_at k (raise_thresholds ts m) \<le> f k) \<longleftrightarrow>
   (\<forall>k. threshold_at k m \<le> f k) \<and> (\<forall>(r, t) \<in> set ts. \<not> blank r \<longrightarrow> t \<le> f (trim_space r))"
proof (induction ts arbitrary: m)
  case (Cons x ts)
  obtain r t where x: "x = (r, t)" by force
  let ?r = "trim_space r"
  have "(\<forall>k. threshold_at k (if ?r \<noteq> [] \<and> threshold_at ?r m < t then map_set ?r t m else m) \<le> f k)
        \<longleftrightarrow> (\<forall>k. threshold_at k m \<le> f k) \<and> (?r \<noteq> [] \<longrightarrow> t \<le> f ?r)"
    by (rule threshold_step)
  with Cons x show ?case by (auto simp: Let_def)
qed simp

lemma map_wf_thresholds: "map_wf (approvalThresholds p)"
proof -
  have *: "map_wf m \<Longrightarrow> map_wf (add_required rs m)" for rs m
    by (induction rs arbitrary: m) (auto simp: Let_def)
  have "map_wf m \<Longrightarrow> map_wf (raise_thresholds ts m)" for ts m
    by (induction ts m rule: raise_thresholds.induct) (auto simp: Let_def)
  with * show ?thesis by (simp add: approvalThresholds_def)
qed

lemma threshold_entries:
  assumes "map_wf m" "\<And>k. 0 \<le> f k"
  shows "(\<forall>(k, t) \<in> set m. t \<le> f k) \<longleftrightarrow> (\<forall>k. threshold_at k m \<le> f k)"
proof -
  have "(k, t) \<in> set m \<longleftrightarrow> map_of m k = Some t" for k t
    using assms(1) by (simp add: map_wf_def)
  then have "(\<forall>(k, t) \<in> set m. t \<le> f k) \<longleftrightarrow> (\<forall>k t. map_of m k = Some t \<longrightarrow> t \<le> f k)"
    by blast
  also have "\<dots> \<longleftrightarrow> (\<forall>k. threshold_at k m \<le> f k)"
    using assms(2) by (simp add: threshold_at_def split: option.split)
  finally show ?thesis .
qed

definition quorum :: "ReviewPolicy \<Rightarrow> string \<Rightarrow> Event list \<Rightarrow> bool" where
  "quorum p cycle es \<longleftrightarrow>
     1 \<le> pol_MinimumApprovals p \<and> \<not> blank cycle \<and>
     pol_MinimumApprovals p \<le> int (card (approvers p cycle es)) \<and>
     (\<forall>r \<in> set (pol_RequiredRoles p). \<not> blank r \<longrightarrow>
        role_approvers p cycle es (trim_space r) \<noteq> {}) \<and>
     (\<forall>(r, t) \<in> set (pol_RoleApprovalThresholds p). \<not> blank r \<longrightarrow>
        t \<le> int (card (role_approvers p cycle es (trim_space r))))"

lemma thresholds_met:
  assumes R: "\<And>r. r \<noteq> [] \<Longrightarrow> actors_of r R = role_approvers p c es r"
  shows "(\<forall>(r, t) \<in> set (approvalThresholds p). t \<le> int (card (actors_of r R))) \<longleftrightarrow>
         (\<forall>r \<in> set (pol_RequiredRoles p). \<not> blank r \<longrightarrow>
            role_approvers p c es (trim_space r) \<noteq> {}) \<and>
         (\<forall>(r, t) \<in> set (pol_RoleApprovalThresholds p). \<not> blank r \<longrightarrow>
            t \<le> int (card (role_approvers p c es (trim_space r))))"
proof -
  have one: "1 \<le> int (card (role_approvers p c es r)) \<longleftrightarrow> role_approvers p c es r \<noteq> {}" for r
    using card_gt_0_iff[of "role_approvers p c es r"] by force
  have "(\<forall>(r, t) \<in> set (approvalThresholds p). t \<le> int (card (actors_of r R))) \<longleftrightarrow>
        (\<forall>r \<in> set (pol_RequiredRoles p). \<not> blank r \<longrightarrow> 1 \<le> int (card (actors_of (trim_space r) R))) \<and>
        (\<forall>(r, t) \<in> set (pol_RoleApprovalThresholds p). \<not> blank r \<longrightarrow>
           t \<le> int (card (actors_of (trim_space r) R)))"
    using threshold_entries[OF map_wf_thresholds, of "\<lambda>r. int (card (actors_of r R))" p]
      raise_thresholds_bound[of "pol_RoleApprovalThresholds p" "add_required (pol_RequiredRoles p) []"
          "\<lambda>r. int (card (actors_of r R))"]
      add_required_bound[of "pol_RequiredRoles p" "[]" "\<lambda>r. int (card (actors_of r R))"]
    by (simp only: approvalThresholds_def threshold_at_Nil of_nat_0_le_iff simp_thms)
  with R one show ?thesis by (simp cong: ball_cong imp_cong)
qed

lemma satisfied_Inr:
  "satisfied p es c = Inr b \<Longrightarrow> b \<longleftrightarrow> quorum p c es"
proof -
  assume s: "satisfied p es c = Inr b"
  show ?thesis
  proof (cases "pol_MinimumApprovals p < 1 \<or> blank c")
    case True
    with s show ?thesis by (auto simp: satisfied_def quorum_def)
  next
    case False
    with s obtain A R where col: "collect_approvals p c {} [] es = Inr (A, R)"
      by (auto simp: satisfied_def split: sum.splits)
    from collect_approvals_Inr[OF col]
    have A: "A = approvers p c es" and R: "\<And>r. r \<noteq> [] \<Longrightarrow> actors_of r R = role_approvers p c es r"
      by (auto simp: actors_of_def)
    have "b \<longleftrightarrow> pol_MinimumApprovals p \<le> int (card A) \<and>
             (\<forall>(r, t) \<in> set (approvalThresholds p). t \<le> int (card (actors_of r R)))"
      using s False col
      by (simp add: satisfied_def not_less list_ex_iff case_prod_unfold split: if_splits)
    with False A thresholds_met[of R p c es, OF R] show ?thesis
      by (simp add: quorum_def not_less)
  qed
qed

lemma quorum_mono:
  "quorum p c es \<Longrightarrow> quorum p c (es @ fs)"
proof -
  have "card (approvers p c es) \<le> card (approvers p c (es @ fs))"
       "card (role_approvers p c es r) \<le> card (role_approvers p c (es @ fs) r)" for r
    by (auto intro!: card_mono simp: approvers_append)
  then show "quorum p c es \<Longrightarrow> quorum p c (es @ fs)"
    unfolding quorum_def
    by (auto simp: approvers_append(2) dest!: bspec intro: order_trans)
qed

end
