(* ===== verification/HammondAuthority.thy ===== *)
theory HammondAuthority
  imports HammondPolicy
begin

text \<open>
  hammond/internal/governance/authority_membership.go, authority_signature.go and the value
  part of membership.go: effective-dated grants as an authority verifier, issuer signatures,
  and the freshness of a membership snapshot.  Base64 decoding and Ed25519 verification are
  functions of the \<open>Crypto\<close> argument; nothing is assumed of them.  Durations are \<open>int64\<close>
  nanoseconds, and \<open>Time.Sub\<close> saturates as the library does.
\<close>

record Crypto =
  cr_DecodeBase64 :: "string \<Rightarrow> string option"
  cr_Ed25519Verify :: "string \<Rightarrow> string \<Rightarrow> string \<Rightarrow> bool"
  cr_SHA256Hex :: "string \<Rightarrow> string"

abbreviation PublicKeySize :: nat where "PublicKeySize \<equiv> 32"
abbreviation SignatureSize :: nat where "SignatureSize \<equiv> 64"
abbreviation AuthoritySignatureAlgorithmEd25519 :: string where
  "AuthoritySignatureAlgorithmEd25519 \<equiv> ''ed25519''"

section \<open>Effective-dated grants\<close>

record AuthorityGrant =
  gr_Actor :: string
  gr_Role :: string
  gr_ValidFrom :: string
  gr_ValidUntil :: string

type_synonym TimeScopedAuthority = "AuthorityGrant list"

definition grant_problem :: "nat \<Rightarrow> AuthorityGrant \<Rightarrow> message option" where
  "grant_problem i g =
     (let path = at_index ''grants'' i in
      first_some
        [fail_if (blank (gr_Actor g)) (path @ [T ''.actor is required'']),
         fail_if (blank (gr_Role g)) (path @ [T ''.role is required'']),
         (case parse_utc (gr_ValidFrom g) of
            None \<Rightarrow> Some (path @ [T ''.valid_from must be an RFC3339 UTC timestamp''])
          | Some from \<Rightarrow>
              if gr_ValidUntil g = [] then None
              else (case parse_utc (gr_ValidUntil g) of
                      None \<Rightarrow> Some (path @ [T ''.valid_until must be an RFC3339 UTC timestamp''])
                    | Some until \<Rightarrow>
                        fail_if (\<not> from < until)
                          (path @ [T ''.valid_until must be after valid_from''])))])"

fun grants_loop :: "nat \<Rightarrow> AuthorityGrant list \<Rightarrow> message option" where
  "grants_loop i [] = None"
| "grants_loop i (g # gs) =
     (case grant_problem i g of Some e \<Rightarrow> Some e | None \<Rightarrow> grants_loop (Suc i) gs)"

definition TimeScopedAuthority_Validate :: "TimeScopedAuthority \<Rightarrow> message option" where
  "TimeScopedAuthority_Validate gs = grants_loop 0 gs"

text \<open>The zero time where a timestamp that was validated before is parsed again.\<close>

definition parsed :: "string \<Rightarrow> instant" where
  "parsed s = (case parse_utc s of Some t \<Rightarrow> t | None \<Rightarrow> 0)"

definition grant_covers :: "string \<Rightarrow> string \<Rightarrow> instant \<Rightarrow> AuthorityGrant \<Rightarrow> bool" where
  "grant_covers actor role at g \<longleftrightarrow>
     \<not> (trim_space (gr_Actor g) \<noteq> actor \<or> trim_space (gr_Role g) \<noteq> role) \<and>
     \<not> at < parsed (gr_ValidFrom g) \<and>
     \<not> (gr_ValidUntil g \<noteq> [] \<and> \<not> at < parsed (gr_ValidUntil g))"

definition TimeScopedAuthority_Verify :: "TimeScopedAuthority \<Rightarrow> verify_fun" where
  "TimeScopedAuthority_Verify gs actor role at =
     (case parse_utc at of
        None \<Rightarrow> Inl [T ''authority decision timestamp must be RFC3339 UTC'']
      | Some t \<Rightarrow>
          (case TimeScopedAuthority_Validate gs of
             Some err \<Rightarrow> Inl err
           | None \<Rightarrow> Inr (list_ex (grant_covers (trim_space actor) (trim_space role) t) gs)))"

interpretation grants: authority_verifier "TimeScopedAuthority_Verify gs" for gs
  by unfold_locales (simp add: TimeScopedAuthority_Verify_def split: option.split)

definition grant_ok :: "AuthorityGrant \<Rightarrow> bool" where
  "grant_ok g \<longleftrightarrow>
     \<not> blank (gr_Actor g) \<and> \<not> blank (gr_Role g) \<and>
     (\<exists>from. parse_utc (gr_ValidFrom g) = Some from \<and>
        (gr_ValidUntil g \<noteq> [] \<longrightarrow> (\<exists>until. parse_utc (gr_ValidUntil g) = Some until \<and> from < until)))"

lemma grant_problem_None [check_simps]: "grant_problem i g = None \<longleftrightarrow> grant_ok g"
  by (auto simp: grant_problem_def grant_ok_def Let_def first_some_Cons_None split: option.splits)

lemma grants_valid: "TimeScopedAuthority_Validate gs = None \<longleftrightarrow> list_all grant_ok gs"
proof -
  have "grants_loop i gs = None \<longleftrightarrow> list_all grant_ok gs" for i
  proof (induction gs arbitrary: i)
    case (Cons g gs)
    with grant_problem_None[of i g] show ?case by (cases "grant_problem i g") auto
  qed simp
  then show ?thesis by (simp add: TimeScopedAuthority_Validate_def)
qed

section \<open>Signatures\<close>

type_synonym VerifySignature_fun = "string \<Rightarrow> string \<Rightarrow> string \<Rightarrow> message option"

definition decodeAuthoritySignature :: "Crypto \<Rightarrow> string \<Rightarrow> message + string" where
  "decodeAuthoritySignature cr value =
     (case cr_DecodeBase64 cr value of
        None \<Rightarrow> Inl [T ''authority signature is not valid base64'']
      | Some signature \<Rightarrow>
          if length signature \<noteq> SignatureSize
          then Inl [T ''authority signature has invalid length''] else Inr signature)"

definition validateAuthoritySignature ::
  "Crypto \<Rightarrow> AuthoritySignature option \<Rightarrow> message option" where
  "validateAuthoritySignature cr signature =
     (case signature of
        None \<Rightarrow> None
      | Some s \<Rightarrow>
          first_some
            [fail_if (sig_Algorithm s \<noteq> AuthoritySignatureAlgorithmEd25519)
               [T ''authority signature algorithm must be '', T AuthoritySignatureAlgorithmEd25519],
             fail_if (blank (sig_KeyID s)) [T ''authority signature key_id is required''],
             (case decodeAuthoritySignature cr (sig_Signature s) of
                Inl err \<Rightarrow> Some err | Inr _ \<Rightarrow> None)])"

definition Ed25519_VerifySignature :: "Crypto \<Rightarrow> (string, string) gomap \<Rightarrow> VerifySignature_fun" where
  "Ed25519_VerifySignature cr keys keyID payload signature =
     (case map_of keys keyID of
        None \<Rightarrow> Some [T ''trusted authority key '', Q keyID, T '' is not configured'']
      | Some key \<Rightarrow>
          first_some
            [fail_if (length key \<noteq> PublicKeySize)
               [T ''trusted authority key '', Q keyID, T '' has invalid length''],
             fail_if (\<not> cr_Ed25519Verify cr key payload signature)
               [T ''authority signature is invalid'']])"

text \<open>The contract of a signature verifier: what it accepts was signed under a trusted key.\<close>

locale signature_verifier =
  fixes VerifySignature :: VerifySignature_fun
    and trusts :: "string \<Rightarrow> string \<Rightarrow> string \<Rightarrow> bool"
  assumes accepts: "VerifySignature keyID payload signature = None \<longleftrightarrow> trusts keyID payload signature"
begin

lemma refuses_untrusted:
  "\<not> trusts keyID payload signature \<Longrightarrow> \<exists>err. VerifySignature keyID payload signature = Some err"
  using accepts by blast

end

definition signed_by :: "Crypto \<Rightarrow> (string, string) gomap \<Rightarrow> string \<Rightarrow> string \<Rightarrow> string \<Rightarrow> bool" where
  "signed_by cr keys keyID payload signature \<longleftrightarrow>
     (\<exists>key. map_of keys keyID = Some key \<and> length key = PublicKeySize \<and>
            cr_Ed25519Verify cr key payload signature)"

interpretation ed25519: signature_verifier "Ed25519_VerifySignature cr keys" "signed_by cr keys"
  for cr keys
  by unfold_locales
     (auto simp: Ed25519_VerifySignature_def signed_by_def first_some_Cons_None split: option.splits)

section \<open>Membership snapshots\<close>

record MembershipSnapshot =
  ms_Reference :: Reference
  ms_IssuedAt :: string
  ms_ExpiresAt :: string
  ms_Grants :: "AuthorityGrant list option"
  ms_Signature :: "AuthoritySignature option"

definition MembershipSnapshot_Validate :: "Crypto \<Rightarrow> MembershipSnapshot \<Rightarrow> message option" where
  "MembershipSnapshot_Validate cr s =
     first_some
       [(case validateMembershipReference (ms_Reference s) [T ''membership''] of
           [] \<Rightarrow> None | ps \<Rightarrow> Some (join_problems ps)),
        (case parse_utc (ms_IssuedAt s) of
           None \<Rightarrow> Some [T ''membership issued_at must be an RFC3339 UTC timestamp'']
         | Some issuedAt \<Rightarrow>
             if ms_ExpiresAt s = [] then None
             else (case parse_utc (ms_ExpiresAt s) of
                     None \<Rightarrow> Some [T ''membership expires_at must be an RFC3339 UTC timestamp'']
                   | Some expiresAt \<Rightarrow>
                       fail_if (\<not> issuedAt < expiresAt)
                         [T ''membership expires_at must be after issued_at''])),
        fail_if (ms_Grants s = None) [T ''membership grants are required''],
        validateAuthoritySignature cr (ms_Signature s),
        TimeScopedAuthority_Validate (case ms_Grants s of Some gs \<Rightarrow> gs | None \<Rightarrow> [])]"

definition Snapshot_Verifier :: "MembershipSnapshot \<Rightarrow> TimeScopedAuthority" where
  "Snapshot_Verifier s = (case ms_Grants s of Some gs \<Rightarrow> gs | None \<Rightarrow> [])"

definition VerifierWithProvenance :: "MembershipSnapshot \<Rightarrow> AuthorityVerifier" where
  "VerifierWithProvenance s =
     MembershipVerifierOf (TimeScopedAuthority_Verify (Snapshot_Verifier s)) (ms_Reference s)"

definition time_sub :: "instant \<Rightarrow> instant \<Rightarrow> int" where
  "time_sub a b = max (- (2 ^ 63)) (min (2 ^ 63 - 1) (a - b))"

definition FreshAt :: "Crypto \<Rightarrow> MembershipSnapshot \<Rightarrow> string \<Rightarrow> int \<Rightarrow> int \<Rightarrow> message option" where
  "FreshAt cr s now maxAge maxFutureSkew =
     first_some
       [fail_if (maxAge \<le> 0) [T ''membership max age must be positive''],
        fail_if (maxFutureSkew < 0) [T ''membership max future skew must not be negative''],
        MembershipSnapshot_Validate cr s,
        (case parse_utc now of
           None \<Rightarrow> Some [T ''membership freshness time must be an RFC3339 UTC timestamp'']
         | Some nowAt \<Rightarrow>
             first_some
               [fail_if (nowAt < parsed (ms_IssuedAt s) - maxFutureSkew)
                  [T ''membership snapshot is future-dated beyond allowed skew''],
                fail_if (maxAge < time_sub nowAt (parsed (ms_IssuedAt s)))
                  [T ''membership snapshot is stale''],
                fail_if (ms_ExpiresAt s \<noteq> [] \<and> \<not> nowAt < parsed (ms_ExpiresAt s))
                  [T ''membership snapshot is expired'']])]"

definition VerifierAtWithProvenance ::
  "Crypto \<Rightarrow> MembershipSnapshot \<Rightarrow> string \<Rightarrow> int \<Rightarrow> int \<Rightarrow> message + AuthorityVerifier" where
  "VerifierAtWithProvenance cr s now maxAge maxFutureSkew =
     (case FreshAt cr s now maxAge maxFutureSkew of
        Some err \<Rightarrow> Inl err | None \<Rightarrow> Inr (VerifierWithProvenance s))"

definition VerifierAt ::
  "Crypto \<Rightarrow> MembershipSnapshot \<Rightarrow> string \<Rightarrow> int \<Rightarrow> int \<Rightarrow> message + TimeScopedAuthority" where
  "VerifierAt cr s now maxAge maxFutureSkew =
     (case FreshAt cr s now maxAge maxFutureSkew of
        Some err \<Rightarrow> Inl err | None \<Rightarrow> Inr (Snapshot_Verifier s))"

lemma Snapshot_valid_grants:
  "MembershipSnapshot_Validate cr s = None \<Longrightarrow> list_all grant_ok (Snapshot_Verifier s)"
  by (auto simp: MembershipSnapshot_Validate_def first_some_Cons_None grants_valid Snapshot_Verifier_def
      split: option.splits)

text \<open>A valid snapshot answers every question about a parsable time.\<close>

lemma Snapshot_verify:
  "MembershipSnapshot_Validate cr s = None \<Longrightarrow> parse_utc at = Some t \<Longrightarrow>
   TimeScopedAuthority_Verify (Snapshot_Verifier s) actor role at =
     Inr (\<exists>g \<in> set (Snapshot_Verifier s).
            grant_covers (trim_space actor) (trim_space role) t g)"
  using Snapshot_valid_grants[of cr s] grants_valid[of "Snapshot_Verifier s"]
  by (simp add: TimeScopedAuthority_Verify_def list_ex_iff split: option.split)

lemma FreshAt_None:
  "FreshAt cr s now maxAge skew = None \<longleftrightarrow>
     0 < maxAge \<and> 0 \<le> skew \<and> MembershipSnapshot_Validate cr s = None \<and>
     (\<exists>t. parse_utc now = Some t \<and> parsed (ms_IssuedAt s) - skew \<le> t \<and>
        time_sub t (parsed (ms_IssuedAt s)) \<le> maxAge \<and>
        (ms_ExpiresAt s \<noteq> [] \<longrightarrow> t < parsed (ms_ExpiresAt s)))"
  by (auto simp: FreshAt_def first_some_Cons_None split: option.splits)

section \<open>A fresh snapshot as the verifier of a policy\<close>

definition sample_grant :: AuthorityGrant where
  "sample_grant =
     \<lparr>gr_Actor = ''ana'', gr_Role = ''reviewer'', gr_ValidFrom = ''2026-01-01T00:00:00Z'',
      gr_ValidUntil = ''2026-02-01T00:00:00Z''\<rparr>"

definition sample_snapshot :: MembershipSnapshot where
  "sample_snapshot =
     \<lparr>ms_Reference = \<lparr>ref_ID = ''org'', ref_Version = 1, ref_Schema = MembershipSchema,
        ref_Artifact = \<lparr>art_URI = ''org.json'',
          art_SHA256 = ''aaaaaaaaaaaaaaaaaaaaaaaaaaaaaaaaaaaaaaaaaaaaaaaaaaaaaaaaaaaaaaaa''\<rparr>\<rparr>,
      ms_IssuedAt = ''2026-01-01T00:00:00Z'', ms_ExpiresAt = [],
      ms_Grants = Some [sample_grant], ms_Signature = None\<rparr>"

definition no_crypto :: Crypto where
  "no_crypto = \<lparr>cr_DecodeBase64 = (\<lambda>_. None), cr_Ed25519Verify = (\<lambda>_ _ _. False),
                cr_SHA256Hex = (\<lambda>_. [])\<rparr>"

lemma sample_snapshot_fresh:
  "FreshAt no_crypto sample_snapshot ''2026-01-01T01:00:00Z'' 7200000000000 0 = None"
  by code_simp

text \<open>A policy whose verifier was taken from a membership snapshot authorises an event
  exactly when the event names that snapshot and one of its grants gives the actor the role at
  the time of the event, from the start of the grant to before its end; and such a verifier is
  handed out only while the snapshot is valid, not older than the allowed age (the difference
  taken as a saturating 64-bit duration), not further in the future than the allowed skew and
  not expired.\<close>

theorem membership_verifier_authorises:
  assumes "VerifierAtWithProvenance cr s now maxAge skew = Inr v"
    and "pol_AuthorityVerifier p = Some v"
  shows "(authorizesEvent p e = Inr True \<longleftrightarrow>
            (\<exists>m t. ev_Membership e = Some m \<and> Reference_Equal m (ms_Reference s) \<and>
               parse_utc (ev_At e) = Some t \<and>
               (\<exists>g \<in> set (Snapshot_Verifier s).
                  trim_space (gr_Actor g) = trim_space (ev_Actor e) \<and>
                  trim_space (gr_Role g) = trim_space (ev_Role e) \<and>
                  parsed (gr_ValidFrom g) \<le> t \<and>
                  (gr_ValidUntil g \<noteq> [] \<longrightarrow> t < parsed (gr_ValidUntil g))))) \<and>
         0 < maxAge \<and> 0 \<le> skew \<and> MembershipSnapshot_Validate cr s = None \<and>
         (\<exists>t. parse_utc now = Some t \<and> parsed (ms_IssuedAt s) - skew \<le> t \<and>
            time_sub t (parsed (ms_IssuedAt s)) \<le> maxAge \<and>
            (ms_ExpiresAt s \<noteq> [] \<longrightarrow> t < parsed (ms_ExpiresAt s)))"
proof -
  from assms(1) have fresh: "FreshAt cr s now maxAge skew = None" and v: "v = VerifierWithProvenance s"
    by (auto simp: VerifierAtWithProvenance_def split: option.splits)
  have valid: "MembershipSnapshot_Validate cr s = None" using fresh by (simp add: FreshAt_None)
  have pol: "pol_AuthorityVerifier p =
      Some (MembershipVerifierOf (TimeScopedAuthority_Verify (Snapshot_Verifier s)) (ms_Reference s))"
    using assms(2) v by (simp add: VerifierWithProvenance_def)
  have "authorizesEvent p e = Inr True \<longleftrightarrow>
        (\<exists>m t. ev_Membership e = Some m \<and> Reference_Equal m (ms_Reference s) \<and>
           parse_utc (ev_At e) = Some t \<and>
           (\<exists>g \<in> set (Snapshot_Verifier s).
              grant_covers (trim_space (ev_Actor e)) (trim_space (ev_Role e)) t g))"
    by (auto simp: authorizesEvent_def authorizes_def pol Snapshot_verify[OF valid] split: option.split)
  moreover have "grant_covers a r t g \<longleftrightarrow>
        trim_space (gr_Actor g) = a \<and> trim_space (gr_Role g) = r \<and> parsed (gr_ValidFrom g) \<le> t \<and>
        (gr_ValidUntil g \<noteq> [] \<longrightarrow> t < parsed (gr_ValidUntil g))" for a r t g
    by (auto simp: grant_covers_def)
  ultimately show ?thesis using fresh by (simp only: FreshAt_None)
qed

theorem membership_verifier_authorises_witness:
  "0 < (7200000000000 :: int) \<and> MembershipSnapshot_Validate no_crypto sample_snapshot = None"
proof -
  have "VerifierAtWithProvenance no_crypto sample_snapshot ''2026-01-01T01:00:00Z'' 7200000000000 0 =
        Inr (VerifierWithProvenance sample_snapshot)"
    by (simp add: VerifierAtWithProvenance_def sample_snapshot_fresh)
  from membership_verifier_authorises[OF this,
      of "DefaultReviewPolicy\<lparr>pol_AuthorityVerifier := Some (VerifierWithProvenance sample_snapshot)\<rparr>"]
  show ?thesis by simp
qed

end
