(* ===== verification/HammondTrust.thy ===== *)
theory HammondTrust
  imports HammondAuthority
begin

text \<open>
  The key sets and snapshots of hammond/internal/governance that are replaced by signed
  successors: authority_trust.go, authority_root.go and the decoding of membership.go.  The
  trust and the root store have the same fields, documents and checks; they share the
  definitions, which take the schema and the words of the messages from a \<open>KeySetKind\<close>.
  The strict JSON decoder and the JSON encoder of the signed payload are arguments
  (\<open>decode\<close>, \<open>marshal\<close>); the digest, base64 and Ed25519 functions are those of \<open>Crypto\<close>.
  A nil verifier is \<open>None\<close>.
\<close>

section \<open>Key sets: authority trust and authority roots\<close>

abbreviation AuthorityTrustKeyActive :: string where "AuthorityTrustKeyActive \<equiv> ''active''"
abbreviation AuthorityTrustKeyRevoked :: string where "AuthorityTrustKeyRevoked \<equiv> ''revoked''"

record KeyDocument =
  kd_ID :: string
  kd_Algorithm :: string
  kd_PublicKey :: string
  kd_Status :: string

record KeySetDocument =
  ks_Schema :: string
  ks_ID :: string
  ks_Version :: int
  ks_Keys :: "KeyDocument list"
  ks_Signature :: "AuthoritySignature option"

record KeySetSigningDocument =
  kp_Schema :: string
  kp_ID :: string
  kp_Version :: int
  kp_Keys :: "KeyDocument list"

record KeyStore =
  st_Reference :: Reference
  st_Keys :: "(string, string) gomap option"
  st_Signature :: "AuthoritySignature option"

record KeySetKind =
  kind_Name :: string
  kind_Path :: string
  kind_Schema :: string

definition trust_kind :: KeySetKind where
  "trust_kind = \<lparr>kind_Name = ''authority trust'', kind_Path = ''trust'',
     kind_Schema = AuthorityTrustSchema\<rparr>"

definition root_kind :: KeySetKind where
  "root_kind = \<lparr>kind_Name = ''authority root'', kind_Path = ''root'',
     kind_Schema = AuthorityRootSchema\<rparr>"

definition KeyStore_Validate :: "KeySetKind \<Rightarrow> Crypto \<Rightarrow> KeyStore \<Rightarrow> message option" where
  "KeyStore_Validate kind cr st =
     first_some
       [(case reference_problems (kind_Schema kind) (st_Reference st) [T (kind_Path kind)] of
           [] \<Rightarrow> None | ps \<Rightarrow> Some (join_problems ps)),
        validateAuthoritySignature cr (st_Signature st),
        fail_if (st_Keys st = None) [T (kind_Name kind), T '' keys are required''],
        first_error (\<lambda>(keyID, publicKey).
          first_some
            [fail_if (blank keyID) [T (kind_Name kind), T '' key id is required''],
             fail_if (length publicKey \<noteq> PublicKeySize)
               [T (kind_Name kind), T '' key '', Q keyID, T '' has invalid length'']])
          (case st_Keys st of Some m \<Rightarrow> m | None \<Rightarrow> [])]"

definition SignatureVerifier :: "Crypto \<Rightarrow> KeyStore \<Rightarrow> VerifySignature_fun" where
  "SignatureVerifier cr st =
     Ed25519_VerifySignature cr (case st_Keys st of Some m \<Rightarrow> m | None \<Rightarrow> [])"

definition decodeAuthorityPublicKey :: "Crypto \<Rightarrow> string \<Rightarrow> message + string" where
  "decodeAuthorityPublicKey cr value =
     (case cr_DecodeBase64 cr value of
        None \<Rightarrow> Inl [T ''is not valid base64'']
      | Some key \<Rightarrow>
          if length key \<noteq> PublicKeySize then Inl [T ''has invalid length''] else Inr key)"

text \<open>The loop over the keys of a document: revoked keys are checked and left out.\<close>

fun keys_loop ::
  "Crypto \<Rightarrow> nat \<Rightarrow> string set \<Rightarrow> (string, string) gomap \<Rightarrow> KeyDocument list
   \<Rightarrow> message + (string, string) gomap" where
  "keys_loop cr i seen active [] = Inr active"
| "keys_loop cr i seen active (k # ks) =
     (let path = at_index ''keys'' i; keyID = trim_space (kd_ID k) in
      if keyID = [] then Inl (path @ [T ''.id is required''])
      else if keyID \<in> seen then Inl (path @ [T ''.id is duplicated''])
      else if kd_Algorithm k \<noteq> AuthoritySignatureAlgorithmEd25519
      then Inl (path @ [T ''.algorithm must be '', T AuthoritySignatureAlgorithmEd25519])
      else case decodeAuthorityPublicKey cr (kd_PublicKey k) of
             Inl err \<Rightarrow> Inl (path @ T ''.public_key: '' # err)
           | Inr publicKey \<Rightarrow>
               if kd_Status k = AuthorityTrustKeyActive
               then keys_loop cr (Suc i) (insert keyID seen) (map_set keyID publicKey active) ks
               else if kd_Status k = AuthorityTrustKeyRevoked
               then keys_loop cr (Suc i) (insert keyID seen) active ks
               else Inl (path @ [T ''.status must be '', T AuthorityTrustKeyActive, T '' or '',
                                 T AuthorityTrustKeyRevoked]))"

definition signing_document :: "KeySetDocument \<Rightarrow> KeySetSigningDocument" where
  "signing_document d =
     \<lparr>kp_Schema = ks_Schema d, kp_ID = ks_ID d, kp_Version = ks_Version d,
      kp_Keys = sort_key kd_ID (ks_Keys d)\<rparr>"

definition check_signature ::
  "KeySetKind \<Rightarrow> Crypto \<Rightarrow> (KeySetSigningDocument \<Rightarrow> string option) \<Rightarrow> VerifySignature_fun
   \<Rightarrow> KeySetDocument \<Rightarrow> AuthoritySignature \<Rightarrow> message option" where
  "check_signature kind cr marshal verifier d s =
     (case marshal (signing_document d) of
        None \<Rightarrow> Some [T ''canonicalize '', T (kind_Name kind), T '' for signature'']
      | Some payload \<Rightarrow>
          (case decodeAuthoritySignature cr (sig_Signature s) of
             Inl err \<Rightarrow> Some err
           | Inr signature \<Rightarrow>
               wrap_err (\<lambda>err. [T ''verify '', T (kind_Name kind), T '' signature: ''] @ err)
                 (verifier (sig_KeyID s) payload signature)))"

definition decodeKeyStore ::
  "KeySetKind \<Rightarrow> Crypto \<Rightarrow> (string \<Rightarrow> KeySetDocument option) \<Rightarrow> (KeySetSigningDocument \<Rightarrow> string option)
   \<Rightarrow> string \<Rightarrow> Reference \<Rightarrow> VerifySignature_fun option \<Rightarrow> message + KeyStore" where
  "decodeKeyStore kind cr decode marshal data reference verifier =
     (case decode data of
        None \<Rightarrow> Inl [T ''decode Hammond '', T (kind_Name kind)]
      | Some d \<Rightarrow>
          (case first_some
                  [fail_if (ks_Schema d \<noteq> kind_Schema kind)
                     [T (kind_Name kind), T '' schema must be '', T (kind_Schema kind)],
                   fail_if (ks_ID d \<noteq> ref_ID reference \<or> ks_Version d \<noteq> ref_Version reference)
                     [T (kind_Name kind), T '' identity does not match its reference''],
                   fail_if (cr_SHA256Hex cr data \<noteq> art_SHA256 (ref_Artifact reference))
                     [T (kind_Name kind), T '' bytes do not match reference artifact.sha256''],
                   fail_if (ks_Keys d = []) [T (kind_Name kind), T '' keys are required''],
                   fail_if (\<not> Option.is_none verifier \<and> ks_Signature d = None)
                     [T (kind_Name kind), T '' signature is required''],
                   (if \<not> Option.is_none verifier then validateAuthoritySignature cr (ks_Signature d)
                    else None)] of
             Some err \<Rightarrow> Inl err
           | None \<Rightarrow>
               (case keys_loop cr 0 {} [] (ks_Keys d) of
                  Inl err \<Rightarrow> Inl err
                | Inr activeKeys \<Rightarrow>
                    (let st = \<lparr>st_Reference = reference, st_Keys = Some activeKeys,
                               st_Signature = ks_Signature d\<rparr> in
                     case first_some
                            [(case (verifier, ks_Signature d) of
                                (Some v, Some s) \<Rightarrow> check_signature kind cr marshal v d s
                              | _ \<Rightarrow> None),
                             KeyStore_Validate kind cr st] of
                       Some err \<Rightarrow> Inl err | None \<Rightarrow> Inr st))))"

definition decodeAuthorityTrustStore ::
  "Crypto \<Rightarrow> (string \<Rightarrow> KeySetDocument option) \<Rightarrow> (KeySetSigningDocument \<Rightarrow> string option)
   \<Rightarrow> string \<Rightarrow> Reference \<Rightarrow> VerifySignature_fun option \<Rightarrow> message + KeyStore" where
  "decodeAuthorityTrustStore = decodeKeyStore trust_kind"

definition decodeAuthorityRootStore ::
  "Crypto \<Rightarrow> (string \<Rightarrow> KeySetDocument option) \<Rightarrow> (KeySetSigningDocument \<Rightarrow> string option)
   \<Rightarrow> string \<Rightarrow> Reference \<Rightarrow> VerifySignature_fun option \<Rightarrow> message + KeyStore" where
  "decodeAuthorityRootStore = decodeKeyStore root_kind"

section \<open>Rotation\<close>

definition retain_and_increase ::
  "string \<Rightarrow> string \<Rightarrow> Reference \<Rightarrow> Reference \<Rightarrow> message option" where
  "retain_and_increase name idname current replacement =
     first_some
       [fail_if (ref_ID replacement \<noteq> ref_ID current)
          [T name, T '' rotation must retain '', T idname, T '' id''],
        fail_if (ref_Version replacement \<le> ref_Version current)
          [T name, T '' rotation version must increase'']]"

definition Trust_Rotate ::
  "Crypto \<Rightarrow> (string \<Rightarrow> KeySetDocument option) \<Rightarrow> (KeySetSigningDocument \<Rightarrow> string option)
   \<Rightarrow> KeyStore \<Rightarrow> string \<Rightarrow> Reference \<Rightarrow> VerifySignature_fun option \<Rightarrow> message + KeyStore" where
  "Trust_Rotate cr decode marshal st data reference verifier =
     (case KeyStore_Validate trust_kind cr st of
        Some err \<Rightarrow> Inl (T ''validate current Hammond authority trust: '' # err)
      | None \<Rightarrow>
          if Option.is_none verifier then Inl [T ''authority trust signature verifier is required'']
          else case decodeAuthorityTrustStore cr decode marshal data reference verifier of
                 Inl err \<Rightarrow> Inl err
               | Inr replacement \<Rightarrow>
                   (case retain_and_increase ''authority trust'' ''trust'' (st_Reference st)
                           (st_Reference replacement) of
                      Some err \<Rightarrow> Inl err | None \<Rightarrow> Inr replacement))"

definition Root_Rotate ::
  "Crypto \<Rightarrow> (string \<Rightarrow> KeySetDocument option) \<Rightarrow> (KeySetSigningDocument \<Rightarrow> string option)
   \<Rightarrow> KeyStore \<Rightarrow> string \<Rightarrow> Reference \<Rightarrow> message + KeyStore" where
  "Root_Rotate cr decode marshal st data reference =
     (case KeyStore_Validate root_kind cr st of
        Some err \<Rightarrow> Inl (T ''validate current Hammond authority root: '' # err)
      | None \<Rightarrow>
          (case decodeAuthorityRootStore cr decode marshal data reference
                  (Some (SignatureVerifier cr st)) of
             Inl err \<Rightarrow> Inl err
           | Inr replacement \<Rightarrow>
               (case retain_and_increase ''authority root'' ''root'' (st_Reference st)
                       (st_Reference replacement) of
                  Some err \<Rightarrow> Inl err | None \<Rightarrow> Inr replacement)))"

definition RotateWithRootStore ::
  "Crypto \<Rightarrow> (string \<Rightarrow> KeySetDocument option) \<Rightarrow> (KeySetSigningDocument \<Rightarrow> string option)
   \<Rightarrow> KeyStore \<Rightarrow> string \<Rightarrow> Reference \<Rightarrow> KeyStore \<Rightarrow> message + KeyStore" where
  "RotateWithRootStore cr decode marshal st data reference roots =
     (case KeyStore_Validate root_kind cr roots of
        Some err \<Rightarrow> Inl (T ''validate Hammond authority root: '' # err)
      | None \<Rightarrow> Trust_Rotate cr decode marshal st data reference (Some (SignatureVerifier cr roots)))"

section \<open>The pinned keys of the first root\<close>

record AuthorityRootBootstrap =
  bs_ID :: string
  bs_Version :: int
  bs_Keys :: "(string, string) gomap"

definition Bootstrap_Validate :: "AuthorityRootBootstrap \<Rightarrow> message option" where
  "Bootstrap_Validate b =
     first_some
       [fail_if (blank (bs_ID b)) [T ''authority root bootstrap id is required''],
        fail_if (bs_Version b < 1) [T ''authority root bootstrap version must be at least 1''],
        fail_if (bs_Keys b = []) [T ''authority root bootstrap keys are required''],
        first_error (\<lambda>(keyID, publicKey).
          first_some
            [fail_if (blank keyID) [T ''authority root bootstrap key id is required''],
             fail_if (length publicKey \<noteq> PublicKeySize)
               [T ''authority root bootstrap key '', Q keyID, T '' has invalid length'']])
          (bs_Keys b)]"

definition DecodeAuthorityRootStoreWithBootstrap ::
  "Crypto \<Rightarrow> (string \<Rightarrow> KeySetDocument option) \<Rightarrow> (KeySetSigningDocument \<Rightarrow> string option)
   \<Rightarrow> string \<Rightarrow> Reference \<Rightarrow> AuthorityRootBootstrap \<Rightarrow> message + KeyStore" where
  "DecodeAuthorityRootStoreWithBootstrap cr decode marshal data reference b =
     (case Bootstrap_Validate b of
        Some err \<Rightarrow> Inl err
      | None \<Rightarrow>
          (case decodeAuthorityRootStore cr decode marshal data reference
                  (Some (Ed25519_VerifySignature cr (bs_Keys b))) of
             Inl err \<Rightarrow> Inl err
           | Inr st \<Rightarrow>
               (case first_some
                       [fail_if (ref_ID (st_Reference st) \<noteq> bs_ID b)
                          [T ''authority root bootstrap id does not match root snapshot''],
                        fail_if (ref_Version (st_Reference st) \<noteq> bs_Version b)
                          [T ''authority root bootstrap version does not match root snapshot'']] of
                  Some err \<Rightarrow> Inl err | None \<Rightarrow> Inr st)))"

section \<open>Membership documents\<close>

record MembershipDocument =
  md_Schema :: string
  md_ID :: string
  md_Version :: int
  md_IssuedAt :: string
  md_ExpiresAt :: string
  md_Grants :: "AuthorityGrant list option"
  md_Signature :: "AuthoritySignature option"

text \<open>The signed payload; the copy of an empty slice of grants is nil.\<close>

record MembershipSigningDocument =
  mp_Schema :: string
  mp_ID :: string
  mp_Version :: int
  mp_IssuedAt :: string
  mp_ExpiresAt :: string
  mp_Grants :: "AuthorityGrant list"

definition canonicalMembershipPayload :: "MembershipDocument \<Rightarrow> MembershipSigningDocument" where
  "canonicalMembershipPayload d =
     \<lparr>mp_Schema = md_Schema d, mp_ID = md_ID d, mp_Version = md_Version d,
      mp_IssuedAt = md_IssuedAt d, mp_ExpiresAt = md_ExpiresAt d,
      mp_Grants = sort_key (\<lambda>g. [gr_Actor g, gr_Role g, gr_ValidFrom g, gr_ValidUntil g])
                    (case md_Grants d of Some gs \<Rightarrow> gs | None \<Rightarrow> [])\<rparr>"

definition decodeMembershipSnapshot ::
  "Crypto \<Rightarrow> (string \<Rightarrow> MembershipDocument option) \<Rightarrow> (MembershipSigningDocument \<Rightarrow> string option)
   \<Rightarrow> string \<Rightarrow> Reference \<Rightarrow> VerifySignature_fun option \<Rightarrow> message + MembershipSnapshot" where
  "decodeMembershipSnapshot cr decode marshal data reference verifier =
     (case decode data of
        None \<Rightarrow> Inl [T ''decode Hammond membership'']
      | Some d \<Rightarrow>
          (let snapshot = \<lparr>ms_Reference = reference, ms_IssuedAt = md_IssuedAt d,
                           ms_ExpiresAt = md_ExpiresAt d, ms_Grants = md_Grants d,
                           ms_Signature = md_Signature d\<rparr> in
           case first_some
             [fail_if (md_Schema d \<noteq> MembershipSchema)
                [T ''membership schema must be '', T MembershipSchema],
              fail_if (md_ID d \<noteq> ref_ID reference \<or> md_Version d \<noteq> ref_Version reference)
                [T ''membership identity does not match its reference''],
              fail_if (cr_SHA256Hex cr data \<noteq> art_SHA256 (ref_Artifact reference))
                [T ''membership bytes do not match reference artifact.sha256''],
              (case verifier of
                 None \<Rightarrow> None
               | Some v \<Rightarrow>
                   (case md_Signature d of
                      None \<Rightarrow> Some [T ''membership signature is required'']
                    | Some s \<Rightarrow>
                        first_some
                          [validateAuthoritySignature cr (md_Signature d),
                           (case marshal (canonicalMembershipPayload d) of
                              None \<Rightarrow> Some [T ''canonicalize membership'']
                            | Some payload \<Rightarrow>
                                (case decodeAuthoritySignature cr (sig_Signature s) of
                                   Inl err \<Rightarrow> Some err
                                 | Inr signature \<Rightarrow>
                                     wrap_err (\<lambda>err. T ''verify membership signature: '' # err)
                                       (v (sig_KeyID s) payload signature)))])),
              MembershipSnapshot_Validate cr snapshot] of
             Some err \<Rightarrow> Inl err | None \<Rightarrow> Inr snapshot))"

definition Membership_Rotate ::
  "Crypto \<Rightarrow> (string \<Rightarrow> MembershipDocument option) \<Rightarrow> (MembershipSigningDocument \<Rightarrow> string option)
   \<Rightarrow> MembershipSnapshot \<Rightarrow> string \<Rightarrow> Reference \<Rightarrow> VerifySignature_fun option
   \<Rightarrow> message + MembershipSnapshot" where
  "Membership_Rotate cr decode marshal s data reference verifier =
     (case MembershipSnapshot_Validate cr s of
        Some err \<Rightarrow> Inl (T ''validate current Hammond membership: '' # err)
      | None \<Rightarrow>
          if Option.is_none verifier then Inl [T ''membership signature verifier is required'']
          else case decodeMembershipSnapshot cr decode marshal data reference verifier of
                 Inl err \<Rightarrow> Inl err
               | Inr replacement \<Rightarrow>
                   (case retain_and_increase ''membership'' ''membership'' (ms_Reference s)
                           (ms_Reference replacement) of
                      Some err \<Rightarrow> Inl err | None \<Rightarrow> Inr replacement))"

end
