(* ===== verification/HammondRotation.thy ===== *)
theory HammondRotation
  imports HammondTrust
begin

text \<open>
  What the signed snapshots of Hammond guarantee: only active keys verify, a root or trust
  store is replaced only by a document signed under the keys it is meant to be signed with,
  and a run of replacements never goes back.  The last is proved once, for any rotation that
  keeps the ID and increases the version, and used for membership, trust and root.
\<close>

section \<open>Decoding a key set\<close>

definition active_key :: "Crypto \<Rightarrow> KeyDocument \<Rightarrow> string \<Rightarrow> string \<Rightarrow> bool" where
  "active_key cr d keyID key \<longleftrightarrow>
     trim_space (kd_ID d) = keyID \<and> kd_Status d = AuthorityTrustKeyActive \<and>
     decodeAuthorityPublicKey cr (kd_PublicKey d) = Inr key"

lemma keys_loop_active:
  "keys_loop cr i seen A ks = Inr B \<Longrightarrow> (\<And>k. map_of A k \<noteq> None \<Longrightarrow> k \<in> seen) \<Longrightarrow>
   (\<forall>d \<in> set ks. trim_space (kd_ID d) \<notin> seen) \<and>
   (map_of B keyID = Some key \<longleftrightarrow>
      map_of A keyID = Some key \<or> (\<exists>d \<in> set ks. active_key cr d keyID key))"
proof (induction ks arbitrary: i seen A)
  case (Cons d ks)
  let ?id = "trim_space (kd_ID d)"
  from Cons.prems obtain pk where d: "?id \<notin> seen" "decodeAuthorityPublicKey cr (kd_PublicKey d) = Inr pk"
    by (auto simp: Let_def split: if_splits sum.splits)
  have fresh: "map_of A ?id = None" using d(1) Cons.prems(2) by blast
  show ?case
  proof (cases "kd_Status d = AuthorityTrustKeyActive")
    case True
    with Cons.prems d have l: "keys_loop cr (Suc i) (insert ?id seen) (map_set ?id pk A) ks = Inr B"
      by (auto simp: Let_def split: if_splits)
    from Cons.IH[OF l] Cons.prems(2) d fresh True show ?thesis
      by (fastforce simp: active_key_def split: if_splits)
  next
    case False
    with Cons.prems d have l: "keys_loop cr (Suc i) (insert ?id seen) A ks = Inr B"
      by (auto simp: Let_def split: if_splits)
    from Cons.IH[OF l] Cons.prems(2) d False show ?thesis
      by (fastforce simp: active_key_def)
  qed
qed simp

lemma public_key_size:
  "decodeAuthorityPublicKey cr v = Inr key \<Longrightarrow> length key = PublicKeySize"
  by (auto simp: decodeAuthorityPublicKey_def split: option.splits if_splits)

text \<open>What a decoded store was checked for.\<close>

lemma decodeKeyStore_Inr:
  assumes "decodeKeyStore kind cr decode marshal data reference verifier = Inr st"
  shows "\<exists>d keys. decode data = Some d \<and> ks_Schema d = kind_Schema kind \<and>
           ks_ID d = ref_ID reference \<and> ks_Version d = ref_Version reference \<and>
           cr_SHA256Hex cr data = art_SHA256 (ref_Artifact reference) \<and>
           keys_loop cr 0 {} [] (ks_Keys d) = Inr keys \<and>
           st = \<lparr>st_Reference = reference, st_Keys = Some keys, st_Signature = ks_Signature d\<rparr> \<and>
           KeyStore_Validate kind cr st = None \<and>
           (\<forall>v. verifier = Some v \<longrightarrow>
              (\<exists>s. ks_Signature d = Some s \<and> check_signature kind cr marshal v d s = None))"
proof -
  from assms obtain d where d: "decode data = Some d"
    by (auto simp: decodeKeyStore_def split: option.splits)
  with assms obtain keys where keys: "keys_loop cr 0 {} [] (ks_Keys d) = Inr keys"
    by (auto simp: decodeKeyStore_def split: option.splits sum.splits)
  from assms d keys show ?thesis
    by (auto simp: decodeKeyStore_def Let_def first_some_Cons_None Option.is_none_def split: option.splits)
qed

lemma check_signature_None:
  "check_signature kind cr marshal (Ed25519_VerifySignature cr keys) d s = None \<longleftrightarrow>
   (\<exists>payload signature. marshal (signing_document d) = Some payload \<and>
      decodeAuthoritySignature cr (sig_Signature s) = Inr signature \<and>
      signed_by cr keys (sig_KeyID s) payload signature)"
  by (auto simp: check_signature_def ed25519.accepts split: option.splits sum.splits)

lemma decoded_keys_verify:
  assumes "decodeKeyStore kind cr decode marshal data reference verifier = Inr st" "decode data = Some d"
  shows "SignatureVerifier cr st keyID payload signature = None \<longleftrightarrow>
         (\<exists>k \<in> set (ks_Keys d). \<exists>key. active_key cr k keyID key \<and>
            cr_Ed25519Verify cr key payload signature)"
proof -
  from decodeKeyStore_Inr[OF assms(1)] assms(2) obtain keys where
    keys: "keys_loop cr 0 {} [] (ks_Keys d) = Inr keys" "st_Keys st = Some keys" by auto
  from keys_loop_active[OF keys(1), of keyID]
  have "map_of keys keyID = Some key \<longleftrightarrow> (\<exists>k \<in> set (ks_Keys d). active_key cr k keyID key)" for key
    by simp
  then show ?thesis
    by (auto simp: SignatureVerifier_def keys(2) ed25519.accepts signed_by_def active_key_def
        dest: public_key_size)
qed

section \<open>Runs of replacements\<close>

locale rotation =
  fixes replace :: "'s \<Rightarrow> 'i \<Rightarrow> 'e + 's"
    and reference :: "'s \<Rightarrow> Reference"
  assumes retains: "replace s i = Inr s' \<Longrightarrow> ref_ID (reference s') = ref_ID (reference s)"
    and increases: "replace s i = Inr s' \<Longrightarrow> ref_Version (reference s) < ref_Version (reference s')"
begin

lemma run_retains:
  "run_all replace s is = Inr s' \<Longrightarrow> ref_ID (reference s') = ref_ID (reference s)"
  by (induction "is" arbitrary: s) (auto split: sum.splits dest: retains)

lemma run_increases:
  "run_all replace s is = Inr s' \<Longrightarrow>
   ref_Version (reference s) + int (length is) \<le> ref_Version (reference s')"
proof (induction "is" arbitrary: s)
  case (Cons i "is")
  then obtain t where t: "replace s i = Inr t" "run_all replace t is = Inr s'"
    by (auto split: sum.splits)
  from increases[OF t(1)] Cons.IH[OF t(2)] show ?case by simp
qed simp

text \<open>A snapshot that was in force before is never accepted again.\<close>

lemma no_replay:
  "run_all replace s is = Inr s' \<Longrightarrow> replace s' i = Inr t \<Longrightarrow>
   ref_Version (reference s) < ref_Version (reference t)"
  using run_increases[of s "is" s'] increases[of s' i t] by simp

end

lemma retain_and_increase_None:
  "retain_and_increase n m c r = None \<longleftrightarrow> ref_ID r = ref_ID c \<and> ref_Version c < ref_Version r"
  by (auto simp: retain_and_increase_def first_some_Cons_None)

lemma retain_and_increase_Some:
  "retain_and_increase n m c r = Some e \<Longrightarrow> ref_ID r = ref_ID c \<Longrightarrow> \<not> ref_Version c < ref_Version r"
  using retain_and_increase_None[of n m c r] by auto

lemma Trust_Rotate_Inr:
  "Trust_Rotate cr decode marshal st data r v = Inr st' \<longleftrightarrow>
     KeyStore_Validate trust_kind cr st = None \<and> v \<noteq> None \<and>
     decodeAuthorityTrustStore cr decode marshal data r v = Inr st' \<and>
     ref_ID (st_Reference st') = ref_ID (st_Reference st) \<and>
     ref_Version (st_Reference st) < ref_Version (st_Reference st')"
  by (auto simp: Trust_Rotate_def Option.is_none_def retain_and_increase_None dest: retain_and_increase_Some
      split: option.splits sum.splits)

lemma Root_Rotate_Inr:
  "Root_Rotate cr decode marshal st data r = Inr st' \<longleftrightarrow>
     KeyStore_Validate root_kind cr st = None \<and>
     decodeAuthorityRootStore cr decode marshal data r (Some (SignatureVerifier cr st)) = Inr st' \<and>
     ref_ID (st_Reference st') = ref_ID (st_Reference st) \<and>
     ref_Version (st_Reference st) < ref_Version (st_Reference st')"
  by (auto simp: Root_Rotate_def retain_and_increase_None dest: retain_and_increase_Some
      split: option.splits sum.splits)

lemma Membership_Rotate_Inr:
  "Membership_Rotate cr decode marshal s data r v = Inr s' \<longleftrightarrow>
     MembershipSnapshot_Validate cr s = None \<and> v \<noteq> None \<and>
     decodeMembershipSnapshot cr decode marshal data r v = Inr s' \<and>
     ref_ID (ms_Reference s') = ref_ID (ms_Reference s) \<and>
     ref_Version (ms_Reference s) < ref_Version (ms_Reference s')"
  by (auto simp: Membership_Rotate_def Option.is_none_def retain_and_increase_None dest: retain_and_increase_Some
      split: option.splits sum.splits)

interpretation trust: rotation "\<lambda>st (data, r, v). Trust_Rotate cr decode marshal st data r v" st_Reference
  for cr decode marshal
  by unfold_locales (auto simp: Trust_Rotate_Inr)

interpretation root: rotation "\<lambda>st (data, r). Root_Rotate cr decode marshal st data r" st_Reference
  for cr decode marshal
  by unfold_locales (auto simp: Root_Rotate_Inr)

interpretation member: rotation
  "\<lambda>s (data, r, v). Membership_Rotate cr decode marshal s data r v" ms_Reference
  for cr decode marshal
  by unfold_locales (auto simp: Membership_Rotate_Inr)

section \<open>Sample root documents\<close>

definition key32 :: string where
  "key32 = ''0123456789abcdef0123456789abcdef''"

definition sig64 :: string where
  "sig64 = ''aaaaaaaaaaaaaaaaaaaaaaaaaaaaaaaaaaaaaaaaaaaaaaaaaaaaaaaaaaaaaaaa''"

definition sample_crypto :: Crypto where
  "sample_crypto =
     \<lparr>cr_DecodeBase64 = Some,
      cr_Ed25519Verify = (\<lambda>key payload signature. key = key32 \<and> payload = ''root'' \<and> signature = sig64),
      cr_SHA256Hex = (\<lambda>_. sig64)\<rparr>"

definition sample_signature :: AuthoritySignature where
  "sample_signature = \<lparr>sig_Algorithm = ''ed25519'', sig_KeyID = ''k1'', sig_Signature = sig64\<rparr>"

definition sample_document :: KeySetDocument where
  "sample_document =
     \<lparr>ks_Schema = AuthorityRootSchema, ks_ID = ''root'', ks_Version = 2,
      ks_Keys = [\<lparr>kd_ID = ''k1'', kd_Algorithm = ''ed25519'', kd_PublicKey = key32,
                  kd_Status = AuthorityTrustKeyRevoked\<rparr>,
                 \<lparr>kd_ID = '' k2'', kd_Algorithm = ''ed25519'', kd_PublicKey = key32,
                  kd_Status = AuthorityTrustKeyActive\<rparr>],
      ks_Signature = Some sample_signature\<rparr>"

definition sample_reference :: "int \<Rightarrow> Reference" where
  "sample_reference v =
     \<lparr>ref_ID = ''root'', ref_Version = v, ref_Schema = AuthorityRootSchema,
      ref_Artifact = \<lparr>art_URI = ''root.json'', art_SHA256 = sig64\<rparr>\<rparr>"

definition sample_root :: KeyStore where
  "sample_root =
     \<lparr>st_Reference = sample_reference 1, st_Keys = Some [(''k1'', key32)], st_Signature = None\<rparr>"

definition sample_root2 :: KeyStore where
  "sample_root2 =
     \<lparr>st_Reference = sample_reference 2, st_Keys = Some [(''k2'', key32)],
      st_Signature = Some sample_signature\<rparr>"

abbreviation sample_decode :: "string \<Rightarrow> KeySetDocument option" where
  "sample_decode \<equiv> \<lambda>_. Some sample_document"

abbreviation sample_marshal :: "KeySetSigningDocument \<Rightarrow> string option" where
  "sample_marshal \<equiv> \<lambda>d. Some (kp_ID d)"

lemma sample_rotation:
  "Root_Rotate sample_crypto sample_decode sample_marshal sample_root ''v2'' (sample_reference 2) =
     Inr sample_root2"
  by code_simp

section \<open>Properties\<close>

text \<open>C17. A decoded trust store verifies a signature exactly when the document lists, under
  that trimmed ID, an active key whose Ed25519 verification accepts it: a key the document
  revokes, or does not list, never verifies anything.\<close>

theorem only_active_keys_verify:
  assumes "decodeAuthorityTrustStore cr decode marshal data reference verifier = Inr st"
    and "decode data = Some d"
  shows "SignatureVerifier cr st keyID payload signature = None \<longleftrightarrow>
         (\<exists>k \<in> set (ks_Keys d). \<exists>key. trim_space (kd_ID k) = keyID \<and>
            kd_Status k = AuthorityTrustKeyActive \<and>
            decodeAuthorityPublicKey cr (kd_PublicKey k) = Inr key \<and>
            cr_Ed25519Verify cr key payload signature)"
  using decoded_keys_verify[OF assms(1)[unfolded decodeAuthorityTrustStore_def] assms(2)]
  by (simp add: active_key_def conj_assoc)

definition sample_trust_document :: KeySetDocument where
  "sample_trust_document = sample_document\<lparr>ks_Schema := AuthorityTrustSchema\<rparr>"

definition sample_trust :: KeyStore where
  "sample_trust =
     \<lparr>st_Reference = (sample_reference 2)\<lparr>ref_Schema := AuthorityTrustSchema\<rparr>,
      st_Keys = Some [(''k2'', key32)], st_Signature = Some sample_signature\<rparr>"

theorem only_active_keys_verify_witness:
  "SignatureVerifier sample_crypto sample_trust ''k1'' ''root'' sig64 \<noteq> None"
proof -
  have *: "decodeAuthorityTrustStore sample_crypto (\<lambda>_. Some sample_trust_document) sample_marshal
          [] (st_Reference sample_trust) None = Inr sample_trust"
    by code_simp
  have ids: "trim_space ''k1'' = ''k1''" "trim_space '' k2'' = ''k2''" by code_simp+
  show ?thesis
    using only_active_keys_verify[OF *, of sample_trust_document "''k1''" "''root''" sig64]
    by (simp add: sample_trust_document_def sample_document_def ids)
qed

text \<open>C18. A root store is replaced only by a document with the referenced identity, version and
  digest, signed over its canonical payload by an active key of the store it replaces, with
  the same root ID and a greater version; the new store is valid.\<close>

theorem root_replaced_under_own_keys:
  assumes "Root_Rotate cr decode marshal st data reference = Inr st'"
  shows "\<exists>d s payload signature. decode data = Some d \<and> ks_ID d = ref_ID reference \<and>
           ks_Version d = ref_Version reference \<and>
           cr_SHA256Hex cr data = art_SHA256 (ref_Artifact reference) \<and>
           ks_Signature d = Some s \<and> marshal (signing_document d) = Some payload \<and>
           decodeAuthoritySignature cr (sig_Signature s) = Inr signature \<and>
           signed_by cr (case st_Keys st of Some m \<Rightarrow> m | None \<Rightarrow> []) (sig_KeyID s) payload signature \<and>
           st_Reference st' = reference \<and> ref_ID reference = ref_ID (st_Reference st) \<and>
           ref_Version (st_Reference st) < ref_Version reference \<and>
           KeyStore_Validate root_kind cr st' = None"
proof -
  from assms have dec: "decodeKeyStore root_kind cr decode marshal data reference
                          (Some (SignatureVerifier cr st)) = Inr st'"
    and "ref_ID (st_Reference st') = ref_ID (st_Reference st)"
    and "ref_Version (st_Reference st) < ref_Version (st_Reference st')"
    by (auto simp: Root_Rotate_Inr decodeAuthorityRootStore_def)
  with decodeKeyStore_Inr[OF dec] show ?thesis
    by (auto simp: SignatureVerifier_def check_signature_None)
qed

theorem root_replaced_under_own_keys_witness:
  "ref_Version (st_Reference sample_root) < ref_Version (sample_reference 2) \<and>
   st_Reference sample_root2 = sample_reference 2"
  using root_replaced_under_own_keys[OF sample_rotation] by blast

text \<open>C19. Along any run of successful replacements of a root store, of a trust store or of a
  membership snapshot the ID stays and every replacement adds at least one to the version, so
  none that was in force before the run is ever accepted again.\<close>

theorem replacements_never_go_back:
  "(\<forall>inputs st st'. run_all (\<lambda>st (data, r). Root_Rotate cr decode marshal st data r) st inputs = Inr st' \<longrightarrow>
      ref_ID (st_Reference st') = ref_ID (st_Reference st) \<and>
      ref_Version (st_Reference st) + int (length inputs) \<le> ref_Version (st_Reference st')) \<and>
   (\<forall>inputs st st'. run_all (\<lambda>st (data, r, v). Trust_Rotate cr decode marshal st data r v) st inputs = Inr st' \<longrightarrow>
      ref_ID (st_Reference st') = ref_ID (st_Reference st) \<and>
      ref_Version (st_Reference st) + int (length inputs) \<le> ref_Version (st_Reference st')) \<and>
   (\<forall>inputs s s'. run_all (\<lambda>s (data, r, v). Membership_Rotate cr decodem marshalm s data r v) s inputs = Inr s' \<longrightarrow>
      ref_ID (ms_Reference s') = ref_ID (ms_Reference s) \<and>
      ref_Version (ms_Reference s) + int (length inputs) \<le> ref_Version (ms_Reference s'))"
  by (blast intro: root.run_retains root.run_increases trust.run_retains trust.run_increases
      member.run_retains member.run_increases)

theorem replacements_never_go_back_witness:
  "ref_Version (st_Reference sample_root) + int (length [(''v2'', sample_reference 2)]) \<le>
   ref_Version (st_Reference sample_root2)"
proof -
  have "run_all (\<lambda>st (data, r). Root_Rotate sample_crypto sample_decode sample_marshal st data r)
          sample_root [(''v2'', sample_reference 2)] = Inr sample_root2"
    by (simp add: sample_rotation)
  with replacements_never_go_back[of sample_crypto sample_decode sample_marshal] show ?thesis by blast
qed

end
