(* ===== verification/HammondRecord.thy ===== *)
theory HammondRecord
  imports HammondPolicy
begin

text \<open>
  hammond/internal/governance/validate.go and lifecycle.go: the lifecycle transition, the
  validation of a record by replaying its event log, and the appending of an event.  The
  loop of \<open>ValidateWithPolicy\<close> is \<open>walk_events\<close>, over a record of its local variables;
  \<open>prior\<close> is the slice \<open>record.Events[:index]\<close>.  Every check appends to the list of
  problems, as in the code, and a record is accepted iff the list is empty.  The zero time
  of a timestamp that does not parse is the instant 0.  Texts of wrapped \<open>time.Parse\<close>
  errors are left out of the messages.
\<close>

section \<open>Enumerations\<close>

definition validState :: "string \<Rightarrow> bool" where
  "validState s \<longleftrightarrow>
     s \<in> {StateRegistered, StateInReview, StateApproved, StateRejected, StateSuperseded}"

definition validEventType :: "string \<Rightarrow> bool" where
  "validEventType t \<longleftrightarrow>
     t \<in> {EventRegistered, EventReviewOpened, EventApprovalRecorded, EventRejectionRecorded,
          EventAmendmentCreated, EventSuperseded}"

definition validAmendmentKind :: "string \<Rightarrow> bool" where
  "validAmendmentKind k \<longleftrightarrow>
     k \<in> {''clarifying'', ''additive'', ''restrictive'', ''corrective'', ''breaking''}"

section \<open>The lifecycle transition\<close>

definition transitionWithPolicy ::
  "string \<Rightarrow> Event \<Rightarrow> string \<Rightarrow> Event list \<Rightarrow> ReviewPolicy \<Rightarrow> message + string" where
  "transitionWithPolicy state event active prior policy =
     (if state = []
      then if ev_Type event \<noteq> EventRegistered then Inl [T ''first event must be registered'']
           else Inr StateRegistered
      else if ev_Type event = EventRegistered then Inl [T ''registered must be the first event'']
      else if ev_Type event = EventReviewOpened
      then if state \<noteq> StateRegistered \<and> state \<noteq> StateRejected
           then Inl [T ''review-opened is only valid from registered or rejected'']
           else Inr StateInReview
      else if ev_Type event = EventApprovalRecorded
      then if state \<noteq> StateInReview
           then Inl [T ''approval-recorded is only valid from in_review'']
           else (case satisfied policy (prior @ [event])
                        (if ev_ReviewCycleID event = [] then active else ev_ReviewCycleID event) of
                   Inl err \<Rightarrow> Inl (T ''evaluate review policy: '' # err)
                 | Inr ok \<Rightarrow> Inr (if ok then StateApproved else StateInReview))
      else if ev_Type event = EventRejectionRecorded
      then if state \<noteq> StateInReview
           then Inl [T ''rejection-recorded is only valid from in_review'']
           else Inr StateRejected
      else if ev_Type event = EventAmendmentCreated
      then if state \<noteq> StateApproved
           then Inl [T ''amendment-created is only valid from approved'']
           else Inr state
      else if ev_Type event = EventSuperseded
      then if state \<noteq> StateApproved
           then Inl [T ''superseded is only valid from approved'']
           else Inr StateSuperseded
      else Inl [T ''unsupported event type '', Q (ev_Type event)])"

section \<open>Checks of one event\<close>

definition validateReviewCycle :: "Event \<Rightarrow> string \<Rightarrow> message \<Rightarrow> message list" where
  "validateReviewCycle event active path =
     (if blank (ev_ReviewCycleID event) then [path @ [T ''.review_cycle_id is required'']]
      else if active = [] then [path @ [T ''.review_cycle_id has no active review cycle'']]
      else if ev_ReviewCycleID event \<noteq> active
      then [path @ [T ''.review_cycle_id must match the active review cycle'']]
      else [])"

definition validateDecisionDigest :: "Event \<Rightarrow> ContractReference \<Rightarrow> message \<Rightarrow> message list" where
  "validateDecisionDigest event contract path =
     (if \<not> valid_sha256 (ev_ArtifactSHA256 event)
      then [path @ [T ''.artifact_sha256 must be a lowercase SHA-256 digest'']]
      else if ev_ArtifactSHA256 event \<noteq> art_SHA256 (ct_Artifact contract)
      then [path @ [T ''.artifact_sha256 must match contract.artifact.sha256'']]
      else [])"

text \<open>The cases of the switch on the event type, in the order of the code.\<close>

definition amendment_problems :: "Event \<Rightarrow> message \<Rightarrow> message list" where
  "amendment_problems event path =
     validateIdentity (ev_Predecessor event) (path @ [T ''.predecessor'']) @
     validateIdentity (ev_Successor event) (path @ [T ''.successor'']) @
     (case (ev_Predecessor event, ev_Successor event) of
        (Some pre, Some suc) \<Rightarrow>
          problem (Identity_Equal pre suc) (path @ [T ''.predecessor and successor must differ'']) @
          problem (id_ProjectID pre \<noteq> id_ProjectID suc \<or> id_ID pre \<noteq> id_ID suc)
            (path @ [T ''.successor must retain project_id and id'']) @
          problem (id_Version suc \<le> id_Version pre)
            (path @ [T ''.successor.version must be greater than predecessor.version''])
      | _ \<Rightarrow> []) @
     problem (\<not> validAmendmentKind (ev_AmendmentKind event))
       (path @ [T ''.amendment_kind is invalid'']) @
     problem (blank (ev_Reason event)) (path @ [T ''.reason is required''])"

definition type_problems :: "Event \<Rightarrow> ContractReference \<Rightarrow> string \<Rightarrow> message \<Rightarrow> message list" where
  "type_problems event contract active path =
     (if ev_Type event = EventReviewOpened
      then problem (blank (ev_ReviewCycleID event)) (path @ [T ''.review_cycle_id is required''])
      else if ev_Type event = EventApprovalRecorded
      then problem (blank (ev_Role event)) (path @ [T ''.role is required'']) @
           validateReviewCycle event active path @
           problem (ev_Decision event \<noteq> DecisionApprove)
             (path @ [T ''.decision must be approve'']) @
           validateDecisionDigest event contract path
      else if ev_Type event = EventRejectionRecorded
      then problem (blank (ev_Role event)) (path @ [T ''.role is required'']) @
           validateReviewCycle event active path @
           problem (ev_Decision event \<noteq> DecisionReject)
             (path @ [T ''.decision must be reject'']) @
           validateDecisionDigest event contract path @
           problem (blank (ev_Reason event)) (path @ [T ''.reason is required''])
      else if ev_Type event = EventAmendmentCreated then amendment_problems event path
      else if ev_Type event = EventSuperseded
      then validateIdentity (ev_Successor event) (path @ [T ''.successor''])
      else [])"

definition validateEvent ::
  "Event \<Rightarrow> ContractReference \<Rightarrow> string \<Rightarrow> message \<Rightarrow> message list \<times> instant" where
  "validateEvent event contract active path =
     (let at = (case parse_utc (ev_At event) of Some t \<Rightarrow> t | None \<Rightarrow> 0);
          common =
            problem (blank (ev_ID event)) (path @ [T ''.id is required'']) @
            problem (blank (ev_Actor event)) (path @ [T ''.actor is required'']) @
            problem (parse_utc (ev_At event) = None)
              (path @ [T ''.at must be an RFC3339 UTC timestamp''])
      in if \<not> validEventType (ev_Type event)
         then (common @ [path @ [T ''.type is invalid'']], at)
         else
           (common @
            (case ev_Membership event of
               None \<Rightarrow> []
             | Some m \<Rightarrow>
                 if ev_Type event \<noteq> EventApprovalRecorded \<and> ev_Type event \<noteq> EventRejectionRecorded
                 then [path @ [T ''.membership is only valid on decision events'']]
                 else validateMembershipReference m (path @ [T ''.membership''])) @
            type_problems event contract active path, at))"

section \<open>Replaying the log\<close>

record Walk =
  w_seenIDs :: "string set"
  w_seenReviewCycles :: "string set"
  w_derivedState :: string
  w_activeReviewCycleID :: string
  w_previousAt :: instant
  w_problems :: "message list"

definition start_walk :: "message list \<Rightarrow> Walk" where
  "start_walk problems =
     \<lparr>w_seenIDs = {}, w_seenReviewCycles = {}, w_derivedState = [], w_activeReviewCycleID = [],
      w_previousAt = 0, w_problems = problems\<rparr>"

definition opens_cycle :: "Event \<Rightarrow> bool" where
  "opens_cycle event \<longleftrightarrow> ev_Type event = EventReviewOpened \<and> \<not> blank (ev_ReviewCycleID event)"

definition walk_event ::
  "ReviewPolicy \<Rightarrow> ContractReference \<Rightarrow> Event list \<Rightarrow> Event \<Rightarrow> Walk \<Rightarrow> Walk" where
  "walk_event policy contract prior event w =
     (let path = at_index ''events'' (length prior);
          (eventProblems, at) = validateEvent event contract (w_activeReviewCycleID w) path;
          active = (if opens_cycle event then ev_ReviewCycleID event
                    else w_activeReviewCycleID w);
          next = transitionWithPolicy (w_derivedState w) event active prior policy
      in \<lparr>w_seenIDs = (if blank (ev_ID event) then w_seenIDs w
                       else insert (ev_ID event) (w_seenIDs w)),
          w_seenReviewCycles = (if opens_cycle event
                                then insert (ev_ReviewCycleID event) (w_seenReviewCycles w)
                                else w_seenReviewCycles w),
          w_derivedState = (case next of Inr s \<Rightarrow> s | Inl _ \<Rightarrow> w_derivedState w),
          w_activeReviewCycleID = active,
          w_previousAt = (if is_zero at then w_previousAt w else at),
          w_problems =
            w_problems w @
            problem (ev_ID event \<in> w_seenIDs w \<and> \<not> blank (ev_ID event))
              (path @ [T ''.id is duplicated'']) @
            eventProblems @
            problem (\<not> is_zero at \<and> \<not> is_zero (w_previousAt w) \<and> at < w_previousAt w)
              (path @ [T ''.at must not precede the previous event'']) @
            problem (opens_cycle event \<and> ev_ReviewCycleID event \<in> w_seenReviewCycles w)
              (path @ [T ''.review_cycle_id is duplicated'']) @
            (case next of Inr _ \<Rightarrow> [] | Inl err \<Rightarrow> [path @ T '': '' # err])\<rparr>)"

fun walk_events ::
  "ReviewPolicy \<Rightarrow> ContractReference \<Rightarrow> Event list \<Rightarrow> Event list \<Rightarrow> Walk \<Rightarrow> Walk" where
  "walk_events policy contract prior [] w = w"
| "walk_events policy contract prior (e # es) w =
     walk_events policy contract (prior @ [e]) es (walk_event policy contract prior e w)"

fun actor_role_problems :: "ReviewPolicy \<Rightarrow> nat \<Rightarrow> Event list \<Rightarrow> message list" where
  "actor_role_problems policy i [] = []"
| "actor_role_problems policy i (e # es) =
     (if ev_Type e \<noteq> EventApprovalRecorded \<and> ev_Type e \<noteq> EventRejectionRecorded then []
      else case authorizesEvent policy e of
             Inl err \<Rightarrow> [at_index ''events'' i @ T '' authority verification failed: '' # err]
           | Inr authorized \<Rightarrow>
               problem (\<not> authorized)
                 (at_index ''events'' i @
                  [T ''.actor is not authorized for role '', Q (ev_Role e),
                   T '' by the supplied review policy''])) @
     actor_role_problems policy (Suc i) es"

definition validatePolicyActorRoles :: "Event list \<Rightarrow> ReviewPolicy \<Rightarrow> message list" where
  "validatePolicyActorRoles events policy =
     (if \<not> hasAuthorityVerifier policy then [] else actor_role_problems policy 0 events)"

definition header_problems :: "Record \<Rightarrow> ReviewPolicy \<Rightarrow> message list" where
  "header_problems r policy =
     (case ReviewPolicy_Validate policy of
        Some err \<Rightarrow> [T ''review policy: '' # err] | None \<Rightarrow> []) @
     problem (rec_Schema r \<noteq> Schema) [T ''schema must be '', T Schema] @
     problem (blank (rec_RecordID r)) [T ''record_id is required''] @
     validateContractReference (rec_Contract r) [T ''contract''] @
     validatePolicyReference (rec_Policy r) [T ''policy''] @
     problem (\<not> Reference_Equal (rec_Policy r) (pol_Reference policy))
       [T ''policy must match the supplied review policy''] @
     problem (\<not> validState (rec_State r)) [T ''state '', Q (rec_State r), T '' is invalid''] @
     problem (rec_Events r = []) [T ''events must contain at least one event'']"

definition ValidateWithPolicy :: "Record \<Rightarrow> ReviewPolicy \<Rightarrow> message list" where
  "ValidateWithPolicy r policy =
     (let w = walk_events policy (rec_Contract r) [] (rec_Events r)
                (start_walk (header_problems r policy))
      in w_problems w @ validatePolicyActorRoles (rec_Events r) policy @
         problem (w_derivedState w \<noteq> [] \<and> rec_State r \<noteq> w_derivedState w)
           [T ''state is '', Q (rec_State r), T '' but events derive '', Q (w_derivedState w)])"

section \<open>Appending an event\<close>

definition AppendEventWithPolicy ::
  "Record \<Rightarrow> Event \<Rightarrow> ReviewPolicy \<Rightarrow> message list + Record" where
  "AppendEventWithPolicy r event policy =
     (case ValidateWithPolicy r policy of
        p # ps \<Rightarrow> Inl (p # ps)
      | [] \<Rightarrow>
          (case transitionWithPolicy (rec_State r) event (activeReviewCycle (rec_Events r))
                  (rec_Events r) policy of
             Inl err \<Rightarrow> Inl [err]
           | Inr next \<Rightarrow>
               let updated = r\<lparr>rec_State := next, rec_Events := rec_Events r @ [event]\<rparr> in
               (case ValidateWithPolicy updated policy of
                  p # ps \<Rightarrow> Inl (p # ps)
                | [] \<Rightarrow> Inr updated)))"

definition AppendEvent :: "Record \<Rightarrow> Event \<Rightarrow> message list + Record" where
  "AppendEvent r event = AppendEventWithPolicy r event DefaultReviewPolicy"

end
