(* ===== verification/HammondLife.thy ===== *)
theory HammondLife
  imports HammondRecord
begin

text \<open>
  The abstract lifecycle of a contract and the proof that validation implements it: a
  record is accepted exactly when its log is a run of the lifecycle that ends in the
  recorded state (\<open>Validate_characterised\<close>).  From it follow what an approval means, that a
  superseded contract is final, and what appending an event does.
\<close>

section \<open>The abstract lifecycle\<close>

datatype phase =
    Fresh
  | Registered
  | InReview string
  | Approved string
  | Rejected
  | Superseded string

fun phase_name :: "phase \<Rightarrow> string" where
  "phase_name Fresh = []"
| "phase_name Registered = StateRegistered"
| "phase_name (InReview k) = StateInReview"
| "phase_name (Approved k) = StateApproved"
| "phase_name Rejected = StateRejected"
| "phase_name (Superseded k) = StateSuperseded"

definition decision_in ::
  "ReviewPolicy \<Rightarrow> ContractReference \<Rightarrow> string \<Rightarrow> Event \<Rightarrow> bool" where
  "decision_in p c k e \<longleftrightarrow>
     \<not> blank k \<and> ev_ReviewCycleID e = k \<and> \<not> blank (ev_Role e) \<and>
     valid_sha256 (ev_ArtifactSHA256 e) \<and> ev_ArtifactSHA256 e = art_SHA256 (ct_Artifact c) \<and>
     authorizesEvent p e = Inr True"

definition identity_ok :: "ContractIdentity \<Rightarrow> bool" where
  "identity_ok i \<longleftrightarrow>
     \<not> blank (id_ProjectID i) \<and> \<not> blank (id_ID i) \<and> 1 \<le> id_Version i \<and>
     \<not> blank (id_Schema i) \<and> valid_sha256 (id_ArtifactSHA256 i)"

definition amendment_ok :: "Event \<Rightarrow> bool" where
  "amendment_ok e \<longleftrightarrow>
     (\<exists>pre suc. ev_Predecessor e = Some pre \<and> ev_Successor e = Some suc \<and>
        identity_ok pre \<and> identity_ok suc \<and>
        id_ProjectID suc = id_ProjectID pre \<and> id_ID suc = id_ID pre \<and>
        id_Version pre < id_Version suc) \<and>
     validAmendmentKind (ev_AmendmentKind e) \<and> \<not> blank (ev_Reason e)"

definition cycles_of :: "Event list \<Rightarrow> string set" where
  "cycles_of log = ev_ReviewCycleID ` {e \<in> set log. opens_cycle e}"

inductive life_step ::
  "ReviewPolicy \<Rightarrow> ContractReference \<Rightarrow> Event list \<Rightarrow> phase \<Rightarrow> Event \<Rightarrow> phase \<Rightarrow> bool"
  for p c log where
  register: "ev_Type e = EventRegistered \<Longrightarrow> life_step p c log Fresh e Registered"
| open_review:
    "ph = Registered \<or> ph = Rejected \<Longrightarrow> opens_cycle e \<Longrightarrow> k = ev_ReviewCycleID e \<Longrightarrow>
     k \<notin> cycles_of log \<Longrightarrow> life_step p c log ph e (InReview k)"
| approve:
    "ev_Type e = EventApprovalRecorded \<Longrightarrow> ev_Decision e = DecisionApprove \<Longrightarrow>
     decision_in p c k e \<Longrightarrow> ph = (if quorum p k (log @ [e]) then Approved k else InReview k) \<Longrightarrow>
     life_step p c log (InReview k) e ph"
| reject:
    "ev_Type e = EventRejectionRecorded \<Longrightarrow> ev_Decision e = DecisionReject \<Longrightarrow>
     decision_in p c k e \<Longrightarrow> \<not> blank (ev_Reason e) \<Longrightarrow>
     life_step p c log (InReview k) e Rejected"
| amend:
    "ev_Type e = EventAmendmentCreated \<Longrightarrow> amendment_ok e \<Longrightarrow>
     life_step p c log (Approved k) e (Approved k)"
| supersede:
    "ev_Type e = EventSuperseded \<Longrightarrow> ev_Successor e = Some i \<Longrightarrow> identity_ok i \<Longrightarrow>
     life_step p c log (Approved k) e (Superseded k)"

inductive lifecycle :: "ReviewPolicy \<Rightarrow> ContractReference \<Rightarrow> Event list \<Rightarrow> phase \<Rightarrow> bool"
  for p c where
  none: "lifecycle p c [] Fresh"
| step: "lifecycle p c log ph \<Longrightarrow> life_step p c log ph e ph' \<Longrightarrow> lifecycle p c (log @ [e]) ph'"

inductive_cases life_stepE: "life_step p c log ph e ph'"
inductive_cases lifecycle_snocE: "lifecycle p c (log @ [e]) ph"
inductive_cases lifecycle_NilE: "lifecycle p c [] ph"

inductive_simps life_step_from:
  "life_step p c log Fresh e ph" "life_step p c log Registered e ph"
  "life_step p c log (InReview k) e ph" "life_step p c log (Approved k) e ph"
  "life_step p c log Rejected e ph" "life_step p c log (Superseded k) e ph"

text \<open>What every event satisfies by itself, and the times the ordering check looks at.\<close>

definition event_ok :: "Event \<Rightarrow> bool" where
  "event_ok e \<longleftrightarrow>
     \<not> blank (ev_ID e) \<and> \<not> blank (ev_Actor e) \<and> parse_utc (ev_At e) \<noteq> None \<and>
     validEventType (ev_Type e) \<and>
     (\<forall>m. ev_Membership e = Some m \<longrightarrow>
        (ev_Type e = EventApprovalRecorded \<or> ev_Type e = EventRejectionRecorded) \<and>
        well_formed_reference MembershipSchema m)"

definition event_time :: "Event \<Rightarrow> instant" where
  "event_time e = (case parse_utc (ev_At e) of Some t \<Rightarrow> t | None \<Rightarrow> 0)"

definition times_of :: "Event list \<Rightarrow> instant list" where
  "times_of log = filter (\<lambda>t. t \<noteq> 0) (map event_time log)"

definition is_decision :: "Event \<Rightarrow> bool" where
  "is_decision e \<longleftrightarrow> ev_Type e = EventApprovalRecorded \<or> ev_Type e = EventRejectionRecorded"

definition decisions_authorised :: "ReviewPolicy \<Rightarrow> Event list \<Rightarrow> bool" where
  "decisions_authorised p log \<longleftrightarrow>
     (\<forall>e \<in> set log. is_decision e \<longrightarrow> authorizesEvent p e = Inr True)"

section \<open>The checks of one event\<close>

lemma validateIdentity_Nil [check_simps]:
  "validateIdentity i path = [] \<longleftrightarrow> (\<exists>j. i = Some j \<and> identity_ok j)"
  by (cases i) (auto simp: validateIdentity_def identity_ok_def)

lemma amendment_problems_Nil [check_simps]:
  "amendment_problems e path = [] \<longleftrightarrow> amendment_ok e"
  by (auto simp: amendment_problems_def amendment_ok_def validateIdentity_Nil Identity_Equal_def)

lemma validateReviewCycle_Nil [check_simps]:
  "validateReviewCycle e active path = [] \<longleftrightarrow>
   \<not> blank (ev_ReviewCycleID e) \<and> ev_ReviewCycleID e = active"
  by (auto simp: validateReviewCycle_def)

lemma validateDecisionDigest_Nil [check_simps]:
  "validateDecisionDigest e c path = [] \<longleftrightarrow>
   valid_sha256 (ev_ArtifactSHA256 e) \<and> ev_ArtifactSHA256 e = art_SHA256 (ct_Artifact c)"
  by (auto simp: validateDecisionDigest_def)

lemma validateEvent_Nil:
  "fst (validateEvent e c active path) = [] \<longleftrightarrow> event_ok e \<and> type_problems e c active path = []"
  by (auto simp: validateEvent_def event_ok_def Let_def validate_reference_defs reference_problems_Nil
      split: option.splits)

lemma validateEvent_time: "snd (validateEvent e c active path) = event_time e"
  by (simp add: validateEvent_def event_time_def Let_def)

lemma satisfied_authorised:
  "decisions_authorised p log \<Longrightarrow> satisfied p log k = Inr (quorum p k log)"
proof -
  assume a: "decisions_authorised p log"
  have "satisfied p log k \<noteq> Inl err" for err
  proof
    assume "satisfied p log k = Inl err"
    then have "\<exists>err. collect_approvals p k {} [] log = Inl err"
      by (auto simp: satisfied_def split: if_splits sum.splits)
    with a show False
      by (auto simp: collect_approvals_Inl decisions_authorised_def is_decision_def counts_for_def)
  qed
  then show ?thesis by (cases "satisfied p log k") (auto dest: satisfied_Inr)
qed

text \<open>Without a verifier everyone is authorised, once the timestamp parses.\<close>

lemma open_policy_authorises:
  "\<not> hasAuthorityVerifier p \<Longrightarrow> event_ok e \<Longrightarrow> authorizesEvent p e = Inr True"
  by (auto simp: hasAuthorityVerifier_def authorizesEvent_def authorizes_def event_ok_def)

lemma actor_role_problems_Nil:
  "actor_role_problems p i es = [] \<longleftrightarrow> decisions_authorised p es"
  by (induction es arbitrary: i)
     (auto simp: decisions_authorised_def is_decision_def problem_def split: sum.splits)

lemma validatePolicyActorRoles_Nil:
  "\<forall>e \<in> set es. event_ok e \<Longrightarrow>
   validatePolicyActorRoles es p = [] \<longleftrightarrow> decisions_authorised p es"
  by (auto simp: validatePolicyActorRoles_def actor_role_problems_Nil)
     (auto simp: decisions_authorised_def open_policy_authorises)

section \<open>One event of the replay is one step of the lifecycle\<close>

definition step_accepted ::
  "ReviewPolicy \<Rightarrow> ContractReference \<Rightarrow> Event list \<Rightarrow> string \<Rightarrow> string \<Rightarrow> Event \<Rightarrow> string \<Rightarrow> bool" where
  "step_accepted p c log active s e s' \<longleftrightarrow>
     type_problems e c active [] = [] \<and>
     \<not> (opens_cycle e \<and> ev_ReviewCycleID e \<in> cycles_of log) \<and>
     transitionWithPolicy s e (if opens_cycle e then ev_ReviewCycleID e else active) log p = Inr s'"

lemma type_problems_path: "type_problems e c active path = [] \<longleftrightarrow> type_problems e c active [] = []"
  by (auto simp: type_problems_def amendment_problems_Nil validateIdentity_Nil
      validateReviewCycle_Nil validateDecisionDigest_Nil)

lemma step_accepted_iff:
  assumes auth: "decisions_authorised p (log @ [e])"
    and active: "\<And>k. ph = InReview k \<Longrightarrow> active = k"
  shows "step_accepted p c log active (phase_name ph) e s \<longleftrightarrow>
         (\<exists>ph'. life_step p c log ph e ph' \<and> s = phase_name ph')"
proof -
  have sat: "satisfied p (log @ [e]) k = Inr (quorum p k (log @ [e]))" for k
    using auth by (rule satisfied_authorised)
  have dec: "is_decision e \<Longrightarrow> authorizesEvent p e = Inr True"
    using auth by (simp add: decisions_authorised_def)
  note [simp] = step_accepted_def transitionWithPolicy_def type_problems_def life_step_from
    amendment_problems_Nil validateIdentity_Nil validateReviewCycle_Nil validateDecisionDigest_Nil
    sat opens_cycle_def
  consider (fresh) "ph = Fresh" | (reg) "ph = Registered" | (rev) k where "ph = InReview k"
    | (app) k where "ph = Approved k" | (rej) "ph = Rejected" | (sup) k where "ph = Superseded k"
    by (cases ph) auto
  then show ?thesis
  proof cases
    case (rev k)
    with active have a: "active = k" by simp
    show ?thesis
      using dec by (cases "blank (ev_ReviewCycleID e)")
        (auto simp: rev a decision_in_def is_decision_def)
  qed auto
qed

lemma step_accepted_phase:
  "life_step p c log ph e ph' \<Longrightarrow> ph' = InReview k \<Longrightarrow>
   (if opens_cycle e then ev_ReviewCycleID e else active) =
     (if ph = InReview k \<and> \<not> opens_cycle e then active else k)"
  by (auto elim!: life_stepE simp: opens_cycle_def split: if_splits)

lemma life_step_det: "life_step p c log ph e a \<Longrightarrow> life_step p c log ph e b \<Longrightarrow> a = b"
  by (cases ph) (auto simp: life_step_from)

lemma lifecycle_det: "lifecycle p c log a \<Longrightarrow> lifecycle p c log b \<Longrightarrow> a = b"
proof (induction arbitrary: b rule: lifecycle.induct)
  case none
  then show ?case by (auto elim: lifecycle_NilE)
next
  case (step log ph e ph')
  from step.prems obtain ph2 where "lifecycle p c log ph2" "life_step p c log ph2 e b"
    by (auto elim: lifecycle_snocE)
  with step show ?case by (metis life_step_det)
qed

section \<open>What the replay keeps in its variables\<close>

abbreviation walk ::
  "ReviewPolicy \<Rightarrow> ContractReference \<Rightarrow> Event list \<Rightarrow> message list \<Rightarrow> Walk" where
  "walk p c es ps \<equiv> walk_events p c [] es (start_walk ps)"

lemma walk_events_snoc:
  "walk_events p c prior (es @ [e]) w = walk_event p c (prior @ es) e (walk_events p c prior es w)"
  by (induction es arbitrary: prior w) auto

lemma cycle_loop_snoc:
  "cycle_loop k (es @ [e]) = (if opens_cycle e then ev_ReviewCycleID e else cycle_loop k es)"
  by (induction es arbitrary: k) (auto simp: opens_cycle_def)

lemma cycles_of_snoc:
  "cycles_of (es @ [e]) =
     (if opens_cycle e then insert (ev_ReviewCycleID e) (cycles_of es) else cycles_of es)"
  by (auto simp: cycles_of_def)

lemma walk_locals:
  "w_seenIDs (walk p c es ps) = {i \<in> ev_ID ` set es. \<not> blank i}"
  "w_seenReviewCycles (walk p c es ps) = cycles_of es"
  "w_activeReviewCycleID (walk p c es ps) = activeReviewCycle es"
  "w_previousAt (walk p c es ps) = (if times_of es = [] then 0 else last (times_of es))"
proof (induction es rule: rev_induct)
  case Nil
  show "w_seenIDs (walk p c [] ps) = {i \<in> ev_ID ` set []. \<not> blank i}"
    "w_seenReviewCycles (walk p c [] ps) = cycles_of []"
    "w_activeReviewCycleID (walk p c [] ps) = activeReviewCycle []"
    "w_previousAt (walk p c [] ps) = (if times_of [] = [] then 0 else last (times_of []))"
    by (auto simp: start_walk_def cycles_of_def activeReviewCycle_def times_of_def)
next
  case (snoc e es)
  note [simp] = walk_events_snoc walk_event_def Let_def case_prod_unfold validateEvent_time
  show "w_seenIDs (walk p c (es @ [e]) ps) = {i \<in> ev_ID ` set (es @ [e]). \<not> blank i}"
    by (auto simp: snoc)
  show "w_seenReviewCycles (walk p c (es @ [e]) ps) = cycles_of (es @ [e])"
    by (simp add: snoc cycles_of_snoc)
  show "w_activeReviewCycleID (walk p c (es @ [e]) ps) = activeReviewCycle (es @ [e])"
    using snoc by (simp add: activeReviewCycle_def cycle_loop_snoc)
  show "w_previousAt (walk p c (es @ [e]) ps) =
        (if times_of (es @ [e]) = [] then 0 else last (times_of (es @ [e])))"
    by (simp add: snoc times_of_def is_zero_def)
qed

lemma walk_problems_snoc:
  "w_problems (walk p c (es @ [e]) ps) = [] \<longleftrightarrow>
     w_problems (walk p c es ps) = [] \<and>
     \<not> (ev_ID e \<in> ev_ID ` set es \<and> \<not> blank (ev_ID e)) \<and> event_ok e \<and>
     \<not> (event_time e \<noteq> 0 \<and> times_of es \<noteq> [] \<and> event_time e < last (times_of es)) \<and>
     step_accepted p c es (activeReviewCycle es) (w_derivedState (walk p c es ps)) e
       (w_derivedState (walk p c (es @ [e]) ps))"
proof -
  have nz: "times_of es \<noteq> [] \<Longrightarrow> last (times_of es) \<noteq> 0"
    using last_in_set[of "times_of es"] by (auto simp: times_of_def)
  show ?thesis
    using nz
    by (simp add: walk_events_snoc walk_event_def Let_def case_prod_unfold validateEvent_time
          walk_locals validateEvent_Nil is_zero_def step_accepted_def type_problems_path[of _ _ _ "at_index _ _"]
          split: sum.split)
       (auto simp del: prod.collapse)
qed

section \<open>Replay and lifecycle agree\<close>

definition log_ok :: "Event list \<Rightarrow> bool" where
  "log_ok es \<longleftrightarrow>
     (\<forall>e \<in> set es. event_ok e) \<and> distinct (map ev_ID es) \<and> sorted (times_of es)"

lemma sorted_times_snoc:
  "sorted (times_of (es @ [e])) \<longleftrightarrow>
   sorted (times_of es) \<and>
   \<not> (event_time e \<noteq> 0 \<and> times_of es \<noteq> [] \<and> event_time e < last (times_of es))"
proof -
  have *: "sorted (xs @ [x]) \<longleftrightarrow> sorted xs \<and> \<not> (xs \<noteq> [] \<and> x < last xs)" for xs :: "int list" and x
    by (cases xs rule: rev_cases) (auto simp: sorted_append)
  have "times_of (es @ [e]) = times_of es @ (if event_time e = 0 then [] else [event_time e])"
    by (simp add: times_of_def)
  with * show ?thesis by auto
qed

lemma log_ok_snoc:
  "log_ok (es @ [e]) \<longleftrightarrow>
     log_ok es \<and> \<not> (ev_ID e \<in> ev_ID ` set es \<and> \<not> blank (ev_ID e)) \<and> event_ok e \<and>
     \<not> (event_time e \<noteq> 0 \<and> times_of es \<noteq> [] \<and> event_time e < last (times_of es))"
  by (auto simp: log_ok_def sorted_times_snoc event_ok_def)

lemma decisions_authorised_append:
  "decisions_authorised p (es @ fs) \<longleftrightarrow> decisions_authorised p es \<and> decisions_authorised p fs"
  by (auto simp: decisions_authorised_def)

lemma activeReviewCycle_snoc:
  "activeReviewCycle (es @ [e]) = (if opens_cycle e then ev_ReviewCycleID e else activeReviewCycle es)"
  by (simp add: activeReviewCycle_def cycle_loop_snoc)

lemma lifecycle_authorised: "lifecycle p c es ph \<Longrightarrow> decisions_authorised p es"
proof (induction rule: lifecycle.induct)
  case none
  show ?case by (simp add: decisions_authorised_def)
next
  case (step log ph e ph')
  have "is_decision e \<longrightarrow> authorizesEvent p e = Inr True"
    using step.hyps(2) by (rule life_stepE) (auto simp: is_decision_def decision_in_def opens_cycle_def)
  with step.IH show ?case by (auto simp: decisions_authorised_def)
qed

lemma derived_snoc:
  "step_accepted p c es (activeReviewCycle es) (w_derivedState (walk p c es ps)) e s \<Longrightarrow>
   w_derivedState (walk p c (es @ [e]) ps) = s"
  by (auto simp: walk_events_snoc walk_event_def Let_def case_prod_unfold walk_locals step_accepted_def)

lemma lifecycle_cycle:
  "lifecycle p c es ph \<Longrightarrow> ph = InReview k \<Longrightarrow> activeReviewCycle es = k"
proof (induction rule: lifecycle.induct)
  case (step log ph e ph')
  from step.hyps(2) show ?case
    by (rule life_stepE)
       (use step in \<open>auto simp: activeReviewCycle_snoc opens_cycle_def split: if_splits\<close>)
qed simp

lemma lifecycle_accepted:
  assumes "lifecycle p c es ph" "life_step p c es ph e ph'"
  shows "step_accepted p c es (activeReviewCycle es) (phase_name ph) e (phase_name ph')"
proof -
  have "decisions_authorised p (es @ [e])"
    using lifecycle.step[OF assms] by (rule lifecycle_authorised)
  from step_accepted_iff[OF this, of ph "activeReviewCycle es" c "phase_name ph'"]
    lifecycle_cycle[OF assms(1)] assms(2)
  show ?thesis by auto
qed

lemma lifecycle_derived:
  "lifecycle p c es ph \<Longrightarrow> w_derivedState (walk p c es ps) = phase_name ph"
proof (induction rule: lifecycle.induct)
  case none
  show ?case by (simp add: start_walk_def)
next
  case (step log ph e ph')
  with lifecycle_accepted[OF step.hyps] show ?case by (simp add: derived_snoc)
qed

lemma walk_accepts:
  "decisions_authorised p es \<Longrightarrow>
   w_problems (walk p c es ps) = [] \<longleftrightarrow> ps = [] \<and> log_ok es \<and> (\<exists>ph. lifecycle p c es ph)"
proof (induction es rule: rev_induct)
  case Nil
  show ?case by (auto simp: start_walk_def log_ok_def times_of_def intro: lifecycle.none)
next
  case (snoc e es)
  note auth = snoc.prems
  have IH: "w_problems (walk p c es ps) = [] \<longleftrightarrow> ps = [] \<and> log_ok es \<and> (\<exists>ph. lifecycle p c es ph)"
    using snoc by (simp add: decisions_authorised_append)
  have accept: "step_accepted p c es (activeReviewCycle es) (w_derivedState (walk p c es ps)) e
                  (w_derivedState (walk p c (es @ [e]) ps)) \<longleftrightarrow> (\<exists>ph'. life_step p c es ph e ph')"
    (is "?acc \<longleftrightarrow> _") if ph: "lifecycle p c es ph" for ph
  proof
    assume ?acc
    with step_accepted_iff[OF auth, of ph "activeReviewCycle es" c] lifecycle_cycle[OF ph]
      lifecycle_derived[OF ph]
    show "\<exists>ph'. life_step p c es ph e ph'" by auto
  next
    assume "\<exists>ph'. life_step p c es ph e ph'"
    then obtain ph' where ph': "life_step p c es ph e ph'" ..
    show ?acc
      using lifecycle_accepted[OF ph ph'] lifecycle_derived[OF ph]
        lifecycle_derived[OF lifecycle.step[OF ph ph']] by simp
  qed
  have "(\<exists>ph. lifecycle p c (es @ [e]) ph) \<longleftrightarrow>
          (\<exists>ph. lifecycle p c es ph \<and> (\<exists>ph'. life_step p c es ph e ph'))"
    by (blast elim: lifecycle_snocE intro: lifecycle.step)
  with IH accept show ?case
    unfolding walk_problems_snoc log_ok_snoc by blast
qed

lemma lifecycle_nonempty: "lifecycle p c es ph \<Longrightarrow> phase_name ph = [] \<longleftrightarrow> es = []"
proof (induction rule: lifecycle.induct)
  case (step log ph e ph')
  from step.hyps(2) show ?case by (rule life_stepE) auto
qed simp

definition header_ok :: "Record \<Rightarrow> ReviewPolicy \<Rightarrow> bool" where
  "header_ok r p \<longleftrightarrow>
     ReviewPolicy_Validate p = None \<and> rec_Schema r = Schema \<and> \<not> blank (rec_RecordID r) \<and>
     validateContractReference (rec_Contract r) [] = [] \<and>
     well_formed_reference PolicySchema (rec_Policy r) \<and>
     Reference_Equal (rec_Policy r) (pol_Reference p)"

lemma header_problems_Nil:
  "header_problems r p = [] \<longleftrightarrow> header_ok r p \<and> validState (rec_State r) \<and> rec_Events r \<noteq> []"
  by (auto simp: header_problems_def header_ok_def validatePolicyReference_def
      reference_problems_Nil validateContractReference_def split: option.splits)

lemma walk_events_ok:
  "w_problems (walk p c es ps) = [] \<Longrightarrow> e \<in> set es \<Longrightarrow> event_ok e"
  by (induction es rule: rev_induct) (auto simp: walk_problems_snoc)

lemma Validate_characterised:
  "ValidateWithPolicy r p = [] \<longleftrightarrow>
     header_ok r p \<and> log_ok (rec_Events r) \<and> rec_Events r \<noteq> [] \<and>
     (\<exists>ph. lifecycle p (rec_Contract r) (rec_Events r) ph \<and> rec_State r = phase_name ph)"
proof -
  let ?es = "rec_Events r" and ?c = "rec_Contract r" and ?ps = "header_problems r p"
  have valid_name: "validState (phase_name ph) \<longleftrightarrow> phase_name ph \<noteq> []" for ph
    by (cases ph) (auto simp: validState_def)
  have "ValidateWithPolicy r p = [] \<longleftrightarrow>
          w_problems (walk p ?c ?es ?ps) = [] \<and> validatePolicyActorRoles ?es p = [] \<and>
          (w_derivedState (walk p ?c ?es ?ps) \<noteq> [] \<longrightarrow>
             rec_State r = w_derivedState (walk p ?c ?es ?ps))"
    by (auto simp: ValidateWithPolicy_def Let_def)
  also have "\<dots> \<longleftrightarrow> ?ps = [] \<and> log_ok ?es \<and>
          (\<exists>ph. lifecycle p ?c ?es ph \<and> (phase_name ph \<noteq> [] \<longrightarrow> rec_State r = phase_name ph))"
    (is "?L \<longleftrightarrow> ?R")
  proof
    assume ?R
    then obtain ph where ph: "lifecycle p ?c ?es ph" by blast
    show ?L
      using \<open>?R\<close> lifecycle_authorised[OF ph] walk_accepts[of p ?es ?c ?ps] lifecycle_derived
        validatePolicyActorRoles_Nil[of ?es p] by (auto simp: log_ok_def)
  next
    assume l: ?L
    show ?R
    proof (cases "\<forall>e \<in> set ?es. event_ok e")
      case True
      with l validatePolicyActorRoles_Nil walk_accepts[of p ?es ?c ?ps] lifecycle_derived
      show ?thesis by metis
    next
      case False
      with l show ?thesis using walk_events_ok by blast
    qed
  qed
  also have "\<dots> \<longleftrightarrow> header_ok r p \<and> log_ok ?es \<and> ?es \<noteq> [] \<and>
     (\<exists>ph. lifecycle p ?c ?es ph \<and> rec_State r = phase_name ph)"
    using lifecycle_nonempty valid_name by (auto simp: header_problems_Nil)
  finally show ?thesis .
qed

section \<open>Invariants of the lifecycle\<close>

lemma lifecycle_quorum:
  "lifecycle p c es ph \<Longrightarrow>
   (\<forall>k. ph = InReview k \<longrightarrow> k \<in> cycles_of es) \<and>
   (\<forall>k. ph = Approved k \<or> ph = Superseded k \<longrightarrow> k \<in> cycles_of es \<and> quorum p k es)"
proof (induction rule: lifecycle.induct)
  case (step log ph e ph')
  from step.hyps(2) show ?case
    by (rule life_stepE) (use step.IH in \<open>auto simp: cycles_of_snoc quorum_mono split: if_splits\<close>)
qed simp

lemma lifecycle_decisions:
  "lifecycle p c es ph \<Longrightarrow> e \<in> set es \<Longrightarrow> is_decision e \<Longrightarrow>
   decision_in p c (ev_ReviewCycleID e) e \<and>
   ev_Decision e = (if ev_Type e = EventApprovalRecorded then DecisionApprove else DecisionReject)"
proof (induction rule: lifecycle.induct)
  case (step log ph d ph')
  show ?case
  proof (cases "e = d")
    case True
    with step.hyps(2) step.prems(2) show ?thesis
      by (auto elim!: life_stepE simp: is_decision_def decision_in_def opens_cycle_def)
  qed (use step in auto)
qed simp

lemma lifecycle_step_iff:
  "lifecycle p c (es @ [e]) ph' \<longleftrightarrow> (\<exists>ph. lifecycle p c es ph \<and> life_step p c es ph e ph')"
  by (blast elim: lifecycle_snocE intro: lifecycle.step)

lemma phase_name_inj_superseded: "phase_name ph = StateSuperseded \<Longrightarrow> \<exists>k. ph = Superseded k"
  by (cases ph) auto

lemma phase_name_inj_approved: "phase_name ph = StateApproved \<Longrightarrow> \<exists>k. ph = Approved k"
  by (cases ph) auto

section \<open>Appending\<close>

text \<open>An accepted record extended by an event the lifecycle admits passes every check again.\<close>

lemma Append_Inr:
  "AppendEventWithPolicy r e p = Inr r' \<longleftrightarrow>
     ValidateWithPolicy r p = [] \<and> ValidateWithPolicy r' p = [] \<and>
     r' = r\<lparr>rec_State := rec_State r', rec_Events := rec_Events r @ [e]\<rparr>"
  (is "?L \<longleftrightarrow> ?R")
proof
  assume ?L
  then show ?R
    by (auto simp: AppendEventWithPolicy_def Let_def split: list.splits sum.splits)
next
  assume R: ?R
  let ?es = "rec_Events r" and ?c = "rec_Contract r"
  from R have r': "rec_Events r' = ?es @ [e]" "rec_Contract r' = ?c"
    by (metis (no_types) Record.select_convs Record.surjective Record.update_convs)+
  from R obtain ph' where ph': "lifecycle p ?c (?es @ [e]) ph'" "rec_State r' = phase_name ph'"
    by (auto simp: Validate_characterised r')
  from R obtain ph0 where ph0: "lifecycle p ?c ?es ph0" "rec_State r = phase_name ph0"
    by (auto simp: Validate_characterised)
  from ph'(1) obtain ph where ph: "lifecycle p ?c ?es ph" "life_step p ?c ?es ph e ph'"
    by (auto simp: lifecycle_step_iff)
  with ph0 have st: "rec_State r = phase_name ph" by (metis lifecycle_det)
  have "transitionWithPolicy (rec_State r) e (activeReviewCycle ?es) ?es p = Inr (rec_State r')"
    using lifecycle_accepted[OF ph] st ph'(2)
    by (auto simp: step_accepted_def transitionWithPolicy_def opens_cycle_def split: if_splits)
  with R show ?L
    by (auto simp: AppendEventWithPolicy_def Let_def split: list.split)
qed

lemma Append_superseded:
  assumes "ValidateWithPolicy r p = []" "rec_State r = StateSuperseded"
  shows "\<exists>err. AppendEventWithPolicy r e p = Inl err"
  using assms
  by (cases "ev_Type e = EventRegistered")
     (auto simp: AppendEventWithPolicy_def transitionWithPolicy_def)

end
