(* ===== verification/GraphSearch.thy ===== *)
theory GraphSearch
  imports Prelude
begin

text \<open>
  The graph facts the depth-first searches of the development share.  A set of nodes is
  settled when it is closed under the edges and none of its nodes lies on a cycle; a search
  settles what it has left behind, one node at a time.
\<close>

definition settled :: "('a \<times> 'a) set \<Rightarrow> 'a set \<Rightarrow> bool" where
  "settled R F \<longleftrightarrow> (\<forall>u \<in> F. \<forall>v. (u, v) \<in> R \<longrightarrow> v \<in> F) \<and> (\<forall>u \<in> F. (u, u) \<notin> R\<^sup>+)"

lemma settled_empty [simp]: "settled R {}"
  by (simp add: settled_def)

lemma settled_closed: "(u, v) \<in> R\<^sup>* \<Longrightarrow> settled R F \<Longrightarrow> u \<in> F \<Longrightarrow> v \<in> F"
  by (induction rule: rtrancl_induct) (auto simp: settled_def)

lemma settled_insert:
  assumes F: "settled R F" and n: "n \<notin> F" and out: "\<And>v. (n, v) \<in> R \<Longrightarrow> v \<in> F"
  shows "settled R (insert n F)"
proof -
  have "(n, n) \<notin> R\<^sup>+"
  proof
    assume "(n, n) \<in> R\<^sup>+"
    then obtain v where "(n, v) \<in> R" "(v, n) \<in> R\<^sup>*" by (meson tranclD)
    with out settled_closed[OF _ F] n show False by blast
  qed
  with F out show ?thesis by (auto simp: settled_def)
qed

text \<open>What a settled set that holds the successors of a root outside it says of the root.\<close>

lemma settled_reaches:
  assumes F: "settled R F" and out: "\<And>v. (n, v) \<in> R \<Longrightarrow> v \<in> F" and r: "(n, d) \<in> R\<^sup>+"
  shows "d \<in> F \<and> (d, d) \<notin> R\<^sup>+"
proof -
  from r obtain v where v: "(n, v) \<in> R" "(v, d) \<in> R\<^sup>*" by (meson tranclD)
  have "d \<in> F" using settled_closed[OF v(2) F out[OF v(1)]] .
  with F show ?thesis by (simp add: settled_def)
qed

end
