(* ===== verification/HammondLineage.thy ===== *)
theory HammondLineage
  imports HammondLife GraphSearch
begin

text \<open>
  hammond/internal/governance/lineage.go and amendment.go: the events that link a contract
  to its successor, and the check of a whole store of records together.  The maps of
  \<open>validateLineage\<close> are association lists keyed as in the code; the loop over all records
  threads the problems and the edges, and the depth-first search threads the visited and
  active sets.  The search runs on fuel, the number of records and edge targets plus one: a
  node is expanded once, so the recursion is never deeper.
\<close>

section \<open>Amendment and supersession\<close>

definition zero_event :: Event where
  "zero_event =
     \<lparr>ev_ID = [], ev_Type = [], ev_Actor = [], ev_Role = [], ev_At = [], ev_ReviewCycleID = [],
      ev_Decision = [], ev_ArtifactSHA256 = [], ev_Membership = None, ev_Reason = [],
      ev_Predecessor = None, ev_Successor = None, ev_AmendmentKind = []\<rparr>"

definition BuildAmendmentEventWithPolicy ::
  "Record \<Rightarrow> Record \<Rightarrow> string \<Rightarrow> string \<Rightarrow> string \<Rightarrow> string \<Rightarrow> string \<Rightarrow> ReviewPolicy
   \<Rightarrow> message list + Event" where
  "BuildAmendmentEventWithPolicy predecessor successor eventID actor at kind reason policy =
     (if ValidateWithPolicy predecessor policy \<noteq> []
      then Inl ([T ''validate predecessor: ''] # ValidateWithPolicy predecessor policy)
      else if ValidateWithPolicy successor policy \<noteq> []
      then Inl ([T ''validate successor: ''] # ValidateWithPolicy successor policy)
      else if rec_State predecessor \<noteq> StateApproved
      then Inl [[T ''predecessor must be approved'']]
      else if rec_State successor \<noteq> StateRegistered \<or>
              (case rec_Events successor of [e] \<Rightarrow> ev_Type e \<noteq> EventRegistered | _ \<Rightarrow> True)
      then Inl [[T ''successor must be independently registered'']]
      else if rec_RecordID predecessor = rec_RecordID successor
      then Inl [[T ''predecessor and successor record IDs must differ'']]
      else
        (let event = zero_event
               \<lparr>ev_ID := eventID, ev_Type := EventAmendmentCreated, ev_Actor := actor, ev_At := at,
                ev_Reason := reason, ev_Predecessor := Some (Identity (rec_Contract predecessor)),
                ev_Successor := Some (Identity (rec_Contract successor)), ev_AmendmentKind := kind\<rparr>
         in case AppendEventWithPolicy predecessor event policy of
              Inl err \<Rightarrow> Inl err | Inr _ \<Rightarrow> Inr event))"

definition BuildSupersededEventWithPolicy ::
  "Record \<Rightarrow> Record \<Rightarrow> string \<Rightarrow> string \<Rightarrow> string \<Rightarrow> ReviewPolicy \<Rightarrow> message list + Event" where
  "BuildSupersededEventWithPolicy predecessor successor eventID actor at policy =
     (let pre = Identity (rec_Contract predecessor); suc = Identity (rec_Contract successor) in
      if ValidateWithPolicy predecessor policy \<noteq> []
      then Inl ([T ''validate predecessor: ''] # ValidateWithPolicy predecessor policy)
      else if ValidateWithPolicy successor policy \<noteq> []
      then Inl ([T ''validate successor: ''] # ValidateWithPolicy successor policy)
      else if rec_State predecessor \<noteq> StateApproved
      then Inl [[T ''predecessor must be approved before superseding'']]
      else if rec_State successor \<noteq> StateApproved
      then Inl [[T ''successor must be approved before superseding'']]
      else if Identity_Equal pre suc
      then Inl [[T ''predecessor and successor identities must differ'']]
      else if id_ProjectID pre \<noteq> id_ProjectID suc \<or> id_ID pre \<noteq> id_ID suc
      then Inl [[T ''successor must retain project_id and id'']]
      else if id_Version suc \<le> id_Version pre
      then Inl [[T ''successor.version must be greater than predecessor.version'']]
      else
        (let event = zero_event
               \<lparr>ev_ID := eventID, ev_Type := EventSuperseded, ev_Actor := actor, ev_At := at,
                ev_Successor := Some suc\<rparr>
         in case AppendEventWithPolicy predecessor event policy of
              Inl err \<Rightarrow> Inl err | Inr _ \<Rightarrow> Inr event))"

section \<open>The order of linked events\<close>

fun first_event_at :: "string \<Rightarrow> Event list \<Rightarrow> instant option" where
  "first_event_at t [] = None"
| "first_event_at t (e # es) =
     (if ev_Type e \<noteq> t then first_event_at t es
      else case parse_utc (ev_At e) of Some at \<Rightarrow> Some at | None \<Rightarrow> first_event_at t es)"

definition firstEventAt :: "Record \<Rightarrow> string \<Rightarrow> instant option" where
  "firstEventAt r t = first_event_at t (rec_Events r)"

definition validateEventOrder :: "Record \<Rightarrow> string \<Rightarrow> Event \<Rightarrow> message \<Rightarrow> message option" where
  "validateEventOrder r prerequisite dependent msg =
     (case firstEventAt r prerequisite of
        None \<Rightarrow> Some msg
      | Some prerequisiteAt \<Rightarrow>
          (case parse_utc (ev_At dependent) of
             None \<Rightarrow> None
           | Some dependentAt \<Rightarrow> fail_if (dependentAt < prerequisiteAt) msg))"

definition HasAmendmentLink :: "Record \<Rightarrow> ContractIdentity \<Rightarrow> bool" where
  "HasAmendmentLink r successor \<longleftrightarrow>
     list_ex (\<lambda>e. ev_Type e = EventAmendmentCreated \<and>
        (case ev_Successor e of Some s \<Rightarrow> Identity_Equal s successor | None \<Rightarrow> False)) (rec_Events r)"

section \<open>The records of a store\<close>

type_synonym resolver = "Reference \<Rightarrow> message + ReviewPolicy"

text \<open>The first loop: policies are resolved once per key, contracts indexed by identity.\<close>

fun index_records ::
  "resolver \<Rightarrow> nat \<Rightarrow> (string, ReviewPolicy) gomap \<Rightarrow> (string, Record) gomap \<Rightarrow> message list
   \<Rightarrow> Record list \<Rightarrow> (string, Record) gomap \<times> message list" where
  "index_records resolve i policies byIdentity problems [] = (byIdentity, problems)"
| "index_records resolve i policies byIdentity problems (r # rs) =
     (let policyKey = Reference_Key (rec_Policy r);
          resolved = (case map_of policies policyKey of
                        Some p \<Rightarrow> Inr p | None \<Rightarrow> resolve (rec_Policy r));
          key = Identity_Key (Identity (rec_Contract r));
          known = map_of byIdentity key \<noteq> None
      in index_records resolve (Suc i)
           (case resolved of Inr p \<Rightarrow> map_set policyKey p policies | Inl _ \<Rightarrow> policies)
           (if known then byIdentity else map_set key r byIdentity)
           (problems @
            (case resolved of
               Inl err \<Rightarrow> [at_index ''record'' i @ T '': resolve policy: '' # err]
             | Inr p \<Rightarrow>
                 (case ValidateWithPolicy r p of
                    [] \<Rightarrow> []
                  | ps \<Rightarrow> [at_index ''record'' i @ T '': invalid Hammond governance record: '' #
                           join_problems ps])) @
            problem known
              (at_index ''record'' i @ [T '' duplicates contract identity '', T key]))
           rs)"

type_synonym edges = "(string, string list) gomap"

definition targets :: "edges \<Rightarrow> string \<Rightarrow> string list" where
  "targets edges n = (case map_of edges n of Some ts \<Rightarrow> ts | None \<Rightarrow> [])"

definition add_edge ::
  "(string, Record) gomap \<Rightarrow> ContractIdentity \<Rightarrow> ContractIdentity \<Rightarrow> message
   \<Rightarrow> edges \<times> message list \<Rightarrow> edges \<times> message list" where
  "add_edge byIdentity from to path acc =
     (let fromKey = Identity_Key from; toKey = Identity_Key to; edges = fst acc in
      if fromKey = toKey then (edges, snd acc @ [path @ [T '' creates a self-link'']])
      else
        (map_set fromKey (List.insert toKey (targets edges fromKey)) edges,
         snd acc @
         problem (map_of byIdentity fromKey = None)
           (path @ [T '' references missing predecessor '', T fromKey]) @
         problem (map_of byIdentity toKey = None)
           (path @ [T '' references missing successor '', T toKey])))"

definition order_problems ::
  "(string, Record) gomap \<Rightarrow> ContractIdentity \<Rightarrow> string \<Rightarrow> Event \<Rightarrow> message \<Rightarrow> message \<Rightarrow> message list" where
  "order_problems byIdentity successor prerequisite event msg path =
     (case map_of byIdentity (Identity_Key successor) of
        None \<Rightarrow> []
      | Some r \<Rightarrow>
          (case validateEventOrder r prerequisite event msg of
             None \<Rightarrow> [] | Some m \<Rightarrow> [path @ T '' '' # m]))"

definition link_event ::
  "(string, Record) gomap \<Rightarrow> Record \<Rightarrow> message \<Rightarrow> Event \<Rightarrow> edges \<times> message list
   \<Rightarrow> edges \<times> message list" where
  "link_event byIdentity r path e acc =
     (let current = Identity (rec_Contract r) in
      if ev_Type e = EventAmendmentCreated
      then (case (ev_Predecessor e, ev_Successor e) of
              (Some pre, Some suc) \<Rightarrow>
                (let acc1 = (fst acc, snd acc @
                       problem (\<not> Identity_Equal pre current)
                         (path @ [T '' amendment predecessor does not match its record'']));
                     acc2 = add_edge byIdentity pre suc path acc1
                 in (fst acc2, snd acc2 @
                       order_problems byIdentity suc EventRegistered e
                         [T ''successor must be registered before amendment''] path))
            | _ \<Rightarrow> acc)
      else if ev_Type e = EventSuperseded
      then (case ev_Successor e of
              Some suc \<Rightarrow>
                (let acc1 = (fst acc, snd acc @
                       problem (\<not> HasAmendmentLink r suc)
                         (path @ [T '' supersession has no amendment link to successor'']));
                     acc2 = add_edge byIdentity current suc path acc1
                 in (fst acc2, snd acc2 @
                       order_problems byIdentity suc EventApprovalRecorded e
                         [T ''successor must be approved before supersession''] path))
            | None \<Rightarrow> acc)
      else acc)"

fun link_events ::
  "(string, Record) gomap \<Rightarrow> Record \<Rightarrow> nat \<Rightarrow> nat \<Rightarrow> Event list \<Rightarrow> edges \<times> message list
   \<Rightarrow> edges \<times> message list" where
  "link_events byIdentity r i j [] acc = acc"
| "link_events byIdentity r i j (e # es) acc =
     link_events byIdentity r i (Suc j) es
       (link_event byIdentity r (at_index ''record'' i @ at_index ''.events'' j) e acc)"

fun link_records ::
  "(string, Record) gomap \<Rightarrow> nat \<Rightarrow> Record list \<Rightarrow> edges \<times> message list \<Rightarrow> edges \<times> message list" where
  "link_records byIdentity i [] acc = acc"
| "link_records byIdentity i (r # rs) acc =
     link_records byIdentity (Suc i) rs (link_events byIdentity r i 0 (rec_Events r) acc)"

section \<open>The search for cycles\<close>

record Search =
  se_visited :: "string set"
  se_cycles :: "string list"

fun visit :: "nat \<Rightarrow> edges \<Rightarrow> string set \<Rightarrow> string \<Rightarrow> Search \<Rightarrow> Search"
and visit_all :: "nat \<Rightarrow> edges \<Rightarrow> string set \<Rightarrow> string list \<Rightarrow> Search \<Rightarrow> Search" where
  "visit 0 edges active node s = s"
| "visit (Suc n) edges active node s =
     (if node \<in> active then s\<lparr>se_cycles := se_cycles s @ [node]\<rparr>
      else if node \<in> se_visited s then s
      else visit_all n edges (insert node active) (targets edges node)
             (s\<lparr>se_visited := insert node (se_visited s)\<rparr>))"
| "visit_all n edges active [] s = s"
| "visit_all n edges active (t # ts) s = visit_all n edges active ts (visit n edges active t s)"

definition search_fuel :: "(string, Record) gomap \<Rightarrow> edges \<Rightarrow> nat" where
  "search_fuel byIdentity edges =
     Suc (Suc (length byIdentity + length (concat (map snd edges))))"

definition find_cycles :: "(string, Record) gomap \<Rightarrow> edges \<Rightarrow> string list" where
  "find_cycles byIdentity edges =
     se_cycles (visit_all (search_fuel byIdentity edges) edges {} (map fst byIdentity)
                  \<lparr>se_visited = {}, se_cycles = []\<rparr>)"

definition validateLineage :: "Record list \<Rightarrow> resolver \<Rightarrow> message list" where
  "validateLineage records resolve =
     (let (byIdentity, problems) = index_records resolve 0 [] [] [] records;
          (edges, problems') = link_records byIdentity 0 records ([], problems)
      in problems' @
         map (\<lambda>n. [T ''lineage contains a cycle at '', T n]) (find_cycles byIdentity edges))"

section \<open>The search finds a cycle exactly when there is one\<close>

definition edge_rel :: "edges \<Rightarrow> (string \<times> string) set" where
  "edge_rel edges = {(u, v). v \<in> set (targets edges u)}"

lemma visit_grows:
  "se_visited s \<subseteq> se_visited (visit n edges active node s) \<and>
   (\<exists>cs. se_cycles (visit n edges active node s) = se_cycles s @ cs)"
  "se_visited s \<subseteq> se_visited (visit_all n edges active nodes s) \<and>
   (\<exists>cs. se_cycles (visit_all n edges active nodes s) = se_cycles s @ cs)"
proof (induction n edges active node s and n edges active nodes s rule: visit_visit_all.induct)
  case (4 n edges active t ts s)
  let ?m = "visit n edges active t s"
  from 4 obtain cs ds where "se_cycles ?m = se_cycles s @ cs"
    "se_cycles (visit_all n edges active ts ?m) = se_cycles ?m @ ds" by blast
  with 4 show ?case by auto
qed auto

text \<open>Within the universe \<open>U\<close> of nodes the fuel suffices and a search without a report settles
  what it has visited outside the active path.\<close>

lemma visit_settles:
  "finite U \<Longrightarrow> (\<And>u v. u \<in> U \<Longrightarrow> (u, v) \<in> edge_rel edges \<Longrightarrow> v \<in> U) \<Longrightarrow> node \<in> U \<Longrightarrow>
   active \<subseteq> se_visited s \<Longrightarrow> card (U - se_visited s) < n \<Longrightarrow>
   settled (edge_rel edges) (se_visited s - active) \<Longrightarrow> se_cycles (visit n edges active node s) = [] \<Longrightarrow>
   settled (edge_rel edges) (se_visited (visit n edges active node s) - active) \<and>
   node \<in> se_visited (visit n edges active node s) - active"
  "finite U \<Longrightarrow> (\<And>u v. u \<in> U \<Longrightarrow> (u, v) \<in> edge_rel edges \<Longrightarrow> v \<in> U) \<Longrightarrow> set nodes \<subseteq> U \<Longrightarrow>
   active \<subseteq> se_visited s \<Longrightarrow> card (U - se_visited s) < n \<Longrightarrow>
   settled (edge_rel edges) (se_visited s - active) \<Longrightarrow> se_cycles (visit_all n edges active nodes s) = [] \<Longrightarrow>
   settled (edge_rel edges) (se_visited (visit_all n edges active nodes s) - active) \<and>
   set nodes \<subseteq> se_visited (visit_all n edges active nodes s) - active"
proof (induction n edges active node s and n edges active nodes s rule: visit_visit_all.induct)
  case (2 n edges active node s)
  show ?case
  proof (cases "node \<in> active \<or> node \<in> se_visited s")
    case True
    with 2 show ?thesis by (auto split: if_splits)
  next
    case False
    let ?s = "s\<lparr>se_visited := insert node (se_visited s)\<rparr>"
    let ?r = "visit_all n edges (insert node active) (targets edges node) ?s"
    have r: "visit (Suc n) edges active node s = ?r" using False by simp
    have "card (U - se_visited ?s) < card (U - se_visited s)"
      using False 2 by (intro psubset_card_mono) auto
    then have fuel: "card (U - se_visited ?s) < n" using 2 by simp
    have tgt: "set (targets edges node) \<subseteq> U" using 2 by (auto simp: edge_rel_def)
    have act: "insert node active \<subseteq> se_visited ?s" using 2 by auto
    have "se_visited ?s - insert node active = se_visited s - active" using False by auto
    with 2 have settled: "settled (edge_rel edges) (se_visited ?s - insert node active)" by simp
    have "se_cycles ?r = []" using 2 False by simp
    from 2(1)[OF _ _ 2(2,3) tgt act fuel settled this] False
    have ih: "settled (edge_rel edges) (se_visited ?r - insert node active)"
      "set (targets edges node) \<subseteq> se_visited ?r - insert node active" by auto
    have node: "node \<in> se_visited ?r" using visit_grows(2)[of ?s n edges "insert node active" "targets edges node"] by auto
    have "settled (edge_rel edges) (insert node (se_visited ?r - insert node active))"
      using settled_insert[OF ih(1), of node] ih(2) by (auto simp: edge_rel_def)
    moreover have "insert node (se_visited ?r - insert node active) = se_visited ?r - active"
      using node False by auto
    ultimately show ?thesis using node False r by simp
  qed
next
  case (4 n edges active t ts s)
  let ?m = "visit n edges active t s"
  have "se_cycles ?m = []"
    using 4 visit_grows(2)[of ?m n edges active ts] by auto
  moreover have grow: "se_visited s \<subseteq> se_visited ?m" using visit_grows(1) by blast
  moreover have "card (U - se_visited ?m) < n"
  proof -
    have "card (U - se_visited ?m) \<le> card (U - se_visited s)"
      using 4 grow by (intro card_mono) auto
    with 4 show ?thesis by simp
  qed
  ultimately have m: "settled (edge_rel edges) (se_visited ?m - active)" "t \<in> se_visited ?m - active"
    using 4 by auto
  with 4 grow \<open>card (U - se_visited ?m) < n\<close>
  have "settled (edge_rel edges) (se_visited (visit_all n edges active ts ?m) - active)"
    "set ts \<subseteq> se_visited (visit_all n edges active ts ?m) - active"
    by auto
  with m visit_grows(2)[of ?m n edges active ts] show ?case by auto
qed auto

text \<open>What is reported lies on a cycle and is reachable from a root.\<close>

definition has_cycle_from :: "edges \<Rightarrow> string set \<Rightarrow> bool" where
  "has_cycle_from edges K \<longleftrightarrow>
     (\<exists>k \<in> K. \<exists>m. (k, m) \<in> (edge_rel edges)\<^sup>* \<and> (m, m) \<in> (edge_rel edges)\<^sup>+)"

lemma visit_reports:
  "(\<And>a. a \<in> active \<Longrightarrow> (a, node) \<in> (edge_rel edges)\<^sup>+) \<Longrightarrow>
   (\<exists>k \<in> K. (k, node) \<in> (edge_rel edges)\<^sup>*) \<Longrightarrow>
   se_cycles (visit n edges active node s) \<noteq> se_cycles s \<Longrightarrow> has_cycle_from edges K"
  "(\<And>a t. a \<in> active \<Longrightarrow> t \<in> set nodes \<Longrightarrow> (a, t) \<in> (edge_rel edges)\<^sup>+) \<Longrightarrow>
   (\<And>t. t \<in> set nodes \<Longrightarrow> \<exists>k \<in> K. (k, t) \<in> (edge_rel edges)\<^sup>*) \<Longrightarrow>
   se_cycles (visit_all n edges active nodes s) \<noteq> se_cycles s \<Longrightarrow> has_cycle_from edges K"
proof (induction n edges active node s and n edges active nodes s rule: visit_visit_all.induct)
  case (2 n edges active node s)
  have step: "t \<in> set (targets edges node) \<Longrightarrow> (node, t) \<in> edge_rel edges" for t
    by (simp add: edge_rel_def)
  show ?case
  proof (cases "node \<in> active")
    case True
    with 2 show ?thesis by (auto simp: has_cycle_from_def)
  next
    case False
    let ?s = "s\<lparr>se_visited := insert node (se_visited s)\<rparr>"
    from 2(4) False have nv: "node \<notin> se_visited s" by (auto split: if_splits)
    have "(a, t) \<in> (edge_rel edges)\<^sup>+" if "a \<in> insert node active" "t \<in> set (targets edges node)" for a t
      using that 2(2)[of a] step[of t] by (cases "a = node") (auto intro: trancl_into_trancl)
    moreover have "\<exists>k \<in> K. (k, t) \<in> (edge_rel edges)\<^sup>*" if "t \<in> set (targets edges node)" for t
      using 2(3) step[OF that] by (blast intro: rtrancl_into_rtrancl)
    moreover have "se_cycles (visit_all n edges (insert node active) (targets edges node) ?s) \<noteq> se_cycles ?s"
      using 2(4) False nv by simp
    ultimately show ?thesis using 2(1)[OF False nv] by blast
  qed
next
  case (4 n edges active t ts s)
  show ?case
  proof (cases "se_cycles (visit n edges active t s) = se_cycles s")
    case True
    with 4(5) have "se_cycles (visit_all n edges active ts (visit n edges active t s)) \<noteq>
                    se_cycles (visit n edges active t s)" by simp
    with 4 show ?thesis by simp
  next
    case False
    with 4 show ?thesis by simp
  qed
qed auto

lemma targets_in_values: "set (targets edges n) \<subseteq> set (concat (map snd edges))"
proof (cases "map_of edges n")
  case (Some ts)
  from map_of_SomeD[OF this] Some show ?thesis by (force simp: targets_def)
qed (simp add: targets_def)

lemma find_cycles_iff:
  "find_cycles byIdentity edges = [] \<longleftrightarrow> \<not> has_cycle_from edges (fst ` set byIdentity)"
proof
  let ?s0 = "\<lparr>se_visited = {}, se_cycles = []\<rparr>" and ?n = "search_fuel byIdentity edges"
  let ?U = "set (map fst byIdentity) \<union> set (concat (map snd edges))"
  let ?r = "visit_all ?n edges {} (map fst byIdentity) ?s0"
  have "card ?U \<le> length byIdentity + length (concat (map snd edges))"
    by (rule order_trans[OF card_Un_le add_mono]) (metis card_length length_map, rule card_length)
  then have fuel: "card (?U - se_visited ?s0) < ?n" by (simp add: search_fuel_def)
  have closed: "u \<in> ?U \<Longrightarrow> (u, v) \<in> edge_rel edges \<Longrightarrow> v \<in> ?U" for u v
    using targets_in_values[of edges u] by (auto simp: edge_rel_def)
  assume "find_cycles byIdentity edges = []"
  then have none: "se_cycles ?r = []" by (simp add: find_cycles_def)
  have "settled (edge_rel edges) (se_visited ?r - {}) \<and> set (map fst byIdentity) \<subseteq> se_visited ?r - {}"
    using visit_settles(2)[of ?U edges "map fst byIdentity" "{}" ?s0 ?n] closed fuel none
    by (auto simp: settled_def)
  then have F: "settled (edge_rel edges) (se_visited ?r)" "fst ` set byIdentity \<subseteq> se_visited ?r" by auto
  show "\<not> has_cycle_from edges (fst ` set byIdentity)"
  proof
    assume "has_cycle_from edges (fst ` set byIdentity)"
    then obtain k m where "k \<in> se_visited ?r" "(k, m) \<in> (edge_rel edges)\<^sup>*" "(m, m) \<in> (edge_rel edges)\<^sup>+"
      using F(2) by (auto simp: has_cycle_from_def)
    with settled_closed[OF _ F(1)] have "m \<in> se_visited ?r" "(m, m) \<in> (edge_rel edges)\<^sup>+" by blast+
    with F(1) show False by (simp add: settled_def)
  qed
next
  assume "\<not> has_cycle_from edges (fst ` set byIdentity)"
  then show "find_cycles byIdentity edges = []"
    using visit_reports(2)[of "{}" "map fst byIdentity" edges "fst ` set byIdentity"
        "search_fuel byIdentity edges" "\<lparr>se_visited = {}, se_cycles = []\<rparr>"]
    by (force simp: find_cycles_def)
qed

section \<open>What a validated store satisfies\<close>

abbreviation key_of :: "Record \<Rightarrow> string" where
  "key_of r \<equiv> Identity_Key (Identity (rec_Contract r))"

definition link_pairs :: "Record \<Rightarrow> Event \<Rightarrow> (string \<times> string) set" where
  "link_pairs r e =
     {(u, v). u \<noteq> v \<and>
        (ev_Type e = EventAmendmentCreated \<and>
           (\<exists>pre suc. ev_Predecessor e = Some pre \<and> ev_Successor e = Some suc \<and>
              u = Identity_Key pre \<and> v = Identity_Key suc) \<or>
         ev_Type e = EventSuperseded \<and>
           (\<exists>suc. ev_Successor e = Some suc \<and> u = key_of r \<and> v = Identity_Key suc))}"

definition links :: "Record list \<Rightarrow> (string \<times> string) set" where
  "links records = (\<Union>r \<in> set records. \<Union>e \<in> set (rec_Events r). link_pairs r e)"

text \<open>What is checked of the successor \<open>suc\<close> an event names.\<close>

definition successor_ok ::
  "(string, Record) gomap \<Rightarrow> string \<Rightarrow> ContractIdentity \<Rightarrow> string \<Rightarrow> Event \<Rightarrow> bool" where
  "successor_ok byIdentity fromKey suc prerequisite e \<longleftrightarrow>
     fromKey \<noteq> Identity_Key suc \<and> map_of byIdentity fromKey \<noteq> None \<and>
     (\<exists>q. map_of byIdentity (Identity_Key suc) = Some q \<and>
        (\<exists>first. firstEventAt q prerequisite = Some first \<and>
           (\<forall>t. parse_utc (ev_At e) = Some t \<longrightarrow> first \<le> t)))"

definition link_ok :: "(string, Record) gomap \<Rightarrow> Record \<Rightarrow> Event \<Rightarrow> bool" where
  "link_ok byIdentity r e \<longleftrightarrow>
     (\<forall>pre suc. ev_Type e = EventAmendmentCreated \<longrightarrow> ev_Predecessor e = Some pre \<longrightarrow>
        ev_Successor e = Some suc \<longrightarrow>
        pre = Identity (rec_Contract r) \<and>
        successor_ok byIdentity (Identity_Key pre) suc EventRegistered e) \<and>
     (\<forall>suc. ev_Type e = EventSuperseded \<longrightarrow> ev_Successor e = Some suc \<longrightarrow>
        HasAmendmentLink r suc \<and> successor_ok byIdentity (key_of r) suc EventApprovalRecorded e)"

lemma validateEventOrder_None:
  "validateEventOrder q prerequisite e m = None \<longleftrightarrow>
   (\<exists>first. firstEventAt q prerequisite = Some first \<and>
      (\<forall>t. parse_utc (ev_At e) = Some t \<longrightarrow> first \<le> t))"
  by (auto simp: validateEventOrder_def split: option.splits)

lemma targets_set [simp]: "targets (map_set u ts E) n = (if n = u then ts else targets E n)"
  by (simp add: targets_def)

lemma edge_rel_insert:
  "edge_rel (map_set u (List.insert v (targets E u)) E) = insert (u, v) (edge_rel E)"
  by (auto simp: edge_rel_def split: if_splits)

lemma edge_problems:
  "snd (add_edge byIdentity from to path acc) @ order_problems byIdentity to t e m path = [] \<longleftrightarrow>
   snd acc = [] \<and> successor_ok byIdentity (Identity_Key from) to t e"
  by (auto simp: add_edge_def Let_def order_problems_def successor_ok_def
      validateEventOrder_None[of _ t e m, symmetric] split: option.splits)

lemma edge_rel_add:
  "edge_rel (fst (add_edge byIdentity from to path acc)) =
   edge_rel (fst acc) \<union>
     (if Identity_Key from = Identity_Key to then {} else {(Identity_Key from, Identity_Key to)})"
  by (auto simp: add_edge_def Let_def edge_rel_insert)

lemma link_event_ok:
  "snd (link_event byIdentity r path e acc) = [] \<longleftrightarrow> snd acc = [] \<and> link_ok byIdentity r e"
  "edge_rel (fst (link_event byIdentity r path e acc)) = edge_rel (fst acc) \<union> link_pairs r e"
proof -
  show "snd (link_event byIdentity r path e acc) = [] \<longleftrightarrow> snd acc = [] \<and> link_ok byIdentity r e"
    using edge_problems
    by (auto simp: link_event_def Let_def link_ok_def Identity_Equal_def split: option.splits)
  show "edge_rel (fst (link_event byIdentity r path e acc)) = edge_rel (fst acc) \<union> link_pairs r e"
    by (auto simp: link_event_def Let_def link_pairs_def edge_rel_add split: option.splits if_splits)
qed

lemma link_events_ok:
  "(snd (link_events byIdentity r i j es acc) = [] \<longleftrightarrow>
      snd acc = [] \<and> (\<forall>e \<in> set es. link_ok byIdentity r e)) \<and>
   edge_rel (fst (link_events byIdentity r i j es acc)) =
     edge_rel (fst acc) \<union> (\<Union>e \<in> set es. link_pairs r e)"
  by (induction es arbitrary: j acc) (auto simp: link_event_ok)

lemma link_records_ok:
  "(snd (link_records byIdentity i rs acc) = [] \<longleftrightarrow>
      snd acc = [] \<and> (\<forall>r \<in> set rs. \<forall>e \<in> set (rec_Events r). link_ok byIdentity r e)) \<and>
   edge_rel (fst (link_records byIdentity i rs acc)) = edge_rel (fst acc) \<union> links rs"
proof (induction rs arbitrary: i acc)
  case (Cons r rs)
  show ?case by (simp add: Cons.IH link_events_ok) (auto simp: links_def)
qed (simp add: links_def)

definition policy_accepts :: "resolver \<Rightarrow> Record \<Rightarrow> bool" where
  "policy_accepts resolve r \<longleftrightarrow>
     (\<exists>q p. Reference_Key q = Reference_Key (rec_Policy r) \<and> resolve q = Inr p \<and>
        ValidateWithPolicy r p = [])"

lemma index_records_ok:
  "snd (index_records resolve i P B ps rs) = [] \<Longrightarrow>
   (\<forall>k p. map_of P k = Some p \<longrightarrow> (\<exists>q. Reference_Key q = k \<and> resolve q = Inr p)) \<Longrightarrow>
   ps = [] \<and> (\<forall>r \<in> set rs. policy_accepts resolve r) \<and> distinct (map key_of rs) \<and>
   (\<forall>r \<in> set rs. map_of B (key_of r) = None) \<and>
   (\<forall>k q. map_of (fst (index_records resolve i P B ps rs)) k = Some q \<longleftrightarrow>
      map_of B k = Some q \<or> q \<in> set rs \<and> key_of q = k)"
proof (induction rs arbitrary: i P B ps)
  case (Cons r rs)
  let ?K = "Reference_Key (rec_Policy r)" and ?key = "key_of r"
  define res where "res = (case map_of P ?K of Some p \<Rightarrow> Inr p | None \<Rightarrow> resolve (rec_Policy r))"
  define P' where "P' = (case res of Inr p \<Rightarrow> map_set ?K p P | Inl _ \<Rightarrow> P)"
  define B' where "B' = (if map_of B ?key \<noteq> None then B else map_set ?key r B)"
  define ps' where "ps' =
     ps @ (case res of Inl err \<Rightarrow> [at_index ''record'' i @ T '': resolve policy: '' # err]
         | Inr p \<Rightarrow> (case ValidateWithPolicy r p of [] \<Rightarrow> []
             | qs \<Rightarrow> [at_index ''record'' i @ T '': invalid Hammond governance record: '' # join_problems qs])) @
     problem (map_of B ?key \<noteq> None) (at_index ''record'' i @ [T '' duplicates contract identity '', T ?key])"
  have eq: "index_records resolve i P B ps (r # rs) = index_records resolve (Suc i) P' B' ps' rs"
    by (simp add: Let_def res_def P'_def B'_def ps'_def)
  have resolved: "\<exists>q. Reference_Key q = ?K \<and> resolve q = Inr p" if "res = Inr p" for p
    using that Cons.prems(2) by (auto simp: res_def split: option.splits)
  have P': "\<forall>k p. map_of P' k = Some p \<longrightarrow> (\<exists>q. Reference_Key q = k \<and> resolve q = Inr p)"
    using resolved Cons.prems(2) by (auto simp: P'_def split: sum.splits)
  from Cons.IH[of "Suc i" P' B' ps'] Cons.prems(1) P'
  have ih: "ps' = []" "\<forall>r \<in> set rs. policy_accepts resolve r" "distinct (map key_of rs)"
    "\<forall>r \<in> set rs. map_of B' (key_of r) = None"
    "\<And>k q. map_of (fst (index_records resolve (Suc i) P' B' ps' rs)) k = Some q \<longleftrightarrow>
      map_of B' k = Some q \<or> q \<in> set rs \<and> key_of q = k"
    unfolding eq by blast+
  from ih(1) obtain p where p: "ps = []" "map_of B ?key = None" "res = Inr p" "ValidateWithPolicy r p = []"
    by (auto simp: ps'_def split: sum.splits list.splits)
  with resolved have "policy_accepts resolve r" by (auto simp: policy_accepts_def)
  with ih p show ?case unfolding eq by (auto simp: B'_def split: if_splits)
qed simp

lemma validateLineage_Nil:
  assumes "validateLineage records resolve = []"
  shows "\<exists>byIdentity. distinct (map key_of records) \<and>
           (\<forall>r \<in> set records. policy_accepts resolve r) \<and>
           (\<forall>k q. map_of byIdentity k = Some q \<longleftrightarrow> q \<in> set records \<and> key_of q = k) \<and>
           (\<forall>r \<in> set records. \<forall>e \<in> set (rec_Events r). link_ok byIdentity r e) \<and>
           acyclic (links records)"
proof -
  obtain byIdentity ps where i: "index_records resolve 0 [] [] [] records = (byIdentity, ps)" by force
  obtain edges ps' where l: "link_records byIdentity 0 records ([], ps) = (edges, ps')" by force
  from assms i l have ps': "ps' = []" and none: "find_cycles byIdentity edges = []"
    by (auto simp: validateLineage_def)
  from link_records_ok[of byIdentity 0 records "([], ps)"] l ps'
  have ok: "ps = []" "\<forall>r \<in> set records. \<forall>e \<in> set (rec_Events r). link_ok byIdentity r e"
    and rel: "edge_rel edges = links records"
    by (auto simp: edge_rel_def targets_def)
  from index_records_ok[of resolve 0 "[]" "[]" "[]" records] i ok(1)
  have ix: "distinct (map key_of records)" "\<forall>r \<in> set records. policy_accepts resolve r"
    "\<forall>k q. map_of byIdentity k = Some q \<longleftrightarrow> q \<in> set records \<and> key_of q = k" by auto
  have source: "u \<in> fst ` set byIdentity" if "(u, v) \<in> links records" for u v
  proof -
    from that ok(2) have "map_of byIdentity u \<noteq> None"
      by (fastforce simp: links_def link_pairs_def link_ok_def successor_ok_def)
    then show ?thesis by (simp add: map_of_eq_None_iff)
  qed
  have "acyclic (links records)"
  proof (rule acyclicI, intro allI notI)
    fix u assume c: "(u, u) \<in> (links records)\<^sup>+"
    then obtain v where "(u, v) \<in> links records" by (meson tranclD)
    then have "u \<in> fst ` set byIdentity" by (rule source)
    with c have "has_cycle_from edges (fst ` set byIdentity)"
      unfolding has_cycle_from_def rel by blast
    with none show False by (simp add: find_cycles_iff)
  qed
  with ix ok show ?thesis by blast
qed

end
