(* ===== verification/HammondProps.thy ===== *)
theory HammondProps
  imports HammondLineage
begin

text \<open>
  The properties of Hammond's records and review policies, over the definitions of
  \<open>HammondPolicy\<close> and \<open>HammondRecord\<close> and the lifecycle of \<open>HammondLife\<close>, and a sample
  contract at which they are evaluated.
\<close>

section \<open>A sample record\<close>

definition digest_a :: string where
  "digest_a = ''aaaaaaaaaaaaaaaaaaaaaaaaaaaaaaaaaaaaaaaaaaaaaaaaaaaaaaaaaaaaaaaa''"

definition sample_contract :: ContractReference where
  "sample_contract =
     \<lparr>ct_ProjectID = ''proj'', ct_ID = ''orders'', ct_Version = 1, ct_Schema = ''sorna/v1'',
      ct_Artifact = \<lparr>art_URI = ''contract.json'', art_SHA256 = digest_a\<rparr>\<rparr>"

definition plain_event :: "string \<Rightarrow> string \<Rightarrow> string \<Rightarrow> Event" where
  "plain_event i t at =
     \<lparr>ev_ID = i, ev_Type = t, ev_Actor = ''reviewer'', ev_Role = [], ev_At = at,
      ev_ReviewCycleID = [], ev_Decision = [], ev_ArtifactSHA256 = [], ev_Membership = None,
      ev_Reason = [], ev_Predecessor = None, ev_Successor = None, ev_AmendmentKind = []\<rparr>"

definition sample_register :: Event where
  "sample_register = plain_event ''e1'' EventRegistered ''2026-01-01T00:00:00Z''"

definition sample_open :: "string \<Rightarrow> Event" where
  "sample_open at = (plain_event ''e2'' EventReviewOpened at)\<lparr>ev_ReviewCycleID := ''c1''\<rparr>"

definition sample_approve :: Event where
  "sample_approve =
     (plain_event ''e3'' EventApprovalRecorded ''2026-01-03T00:00:00Z'')
       \<lparr>ev_ReviewCycleID := ''c1'', ev_Role := ''product-reviewer'',
        ev_Decision := DecisionApprove, ev_ArtifactSHA256 := digest_a\<rparr>"

definition sample_successor :: ContractIdentity where
  "sample_successor = (Identity sample_contract)\<lparr>id_Version := 2\<rparr>"

definition sample_supersede :: Event where
  "sample_supersede =
     (plain_event ''e4'' EventSuperseded ''2026-01-04T00:00:00Z'')
       \<lparr>ev_Successor := Some sample_successor\<rparr>"

definition sample_record :: "string \<Rightarrow> Event list \<Rightarrow> Record" where
  "sample_record state events =
     \<lparr>rec_Schema = Schema, rec_RecordID = ''r1'', rec_Contract = sample_contract,
      rec_Policy = pol_Reference DefaultReviewPolicy, rec_State = state, rec_Events = events\<rparr>"

abbreviation sample_log :: "Event list" where
  "sample_log \<equiv> [sample_register, sample_open ''2026-01-02T00:00:00Z'', sample_approve]"

lemma sample_approved_valid:
  "ValidateWithPolicy (sample_record StateApproved sample_log) DefaultReviewPolicy = []"
  by code_simp

lemma sample_superseded_valid:
  "ValidateWithPolicy (sample_record StateSuperseded (sample_log @ [sample_supersede]))
     DefaultReviewPolicy = []"
  by code_simp

section \<open>Properties\<close>

text \<open>C1. A record passes \<open>ValidateWithPolicy\<close> exactly when its header is in order, its events
  are well formed with distinct IDs and ordered times, and its log is a run of the abstract
  lifecycle that ends in the recorded state: the checks are sound and complete for the
  lifecycle, whatever the policy and the verifier.\<close>

theorem Validate_iff_lifecycle_run:
  "ValidateWithPolicy r p = [] \<longleftrightarrow>
     header_ok r p \<and> log_ok (rec_Events r) \<and> rec_Events r \<noteq> [] \<and>
     (\<exists>ph. lifecycle p (rec_Contract r) (rec_Events r) ph \<and> rec_State r = phase_name ph)"
  by (rule Validate_characterised)

text \<open>C7. An accepted record in state approved or superseded has a review cycle, opened in its
  log, with at least \<open>MinimumApprovals\<close> distinct trimmed actors, each of whom recorded an
  approve decision in that cycle, on the exact digest of the contract, and was authorised for
  the role at that time by the policy; every required role has such an actor and every
  role threshold is met.\<close>

theorem approval_safety:
  assumes "ValidateWithPolicy r p = []"
    and "rec_State r = StateApproved \<or> rec_State r = StateSuperseded"
  shows "\<exists>k \<in> cycles_of (rec_Events r). \<exists>approval.
           (\<forall>a e. approval a e \<longrightarrow>
              e \<in> set (rec_Events r) \<and> ev_Type e = EventApprovalRecorded \<and>
              ev_Decision e = DecisionApprove \<and> ev_ReviewCycleID e = k \<and>
              trim_space (ev_Actor e) = a \<and> a \<noteq> [] \<and>
              ev_ArtifactSHA256 e = art_SHA256 (ct_Artifact (rec_Contract r)) \<and>
              authorizes p (ev_Actor e) (ev_Role e) (ev_At e) = Inr True) \<and>
           1 \<le> pol_MinimumApprovals p \<and>
           pol_MinimumApprovals p \<le> int (card {a. \<exists>e. approval a e}) \<and>
           (\<forall>role \<in> set (pol_RequiredRoles p). \<not> blank role \<longrightarrow>
              (\<exists>a e. approval a e \<and> trim_space (ev_Role e) = trim_space role)) \<and>
           (\<forall>(role, t) \<in> set (pol_RoleApprovalThresholds p). \<not> blank role \<longrightarrow>
              t \<le> int (card {a. \<exists>e. approval a e \<and> trim_space (ev_Role e) = trim_space role}))"
proof -
  let ?es = "rec_Events r"
  from assms(1) obtain ph where ph: "lifecycle p (rec_Contract r) ?es ph" "rec_State r = phase_name ph"
    by (auto simp: Validate_characterised)
  then obtain k where k: "k \<in> cycles_of ?es" "quorum p k ?es"
    using assms(2) lifecycle_quorum[OF ph(1)]
    by (metis phase_name_inj_approved phase_name_inj_superseded)
  define approval where
    "approval a e \<longleftrightarrow> e \<in> set ?es \<and> approving p k e \<and> trim_space (ev_Actor e) = a" for a e
  have sets: "{a. \<exists>e. approval a e} = approvers p k ?es"
    "{a. \<exists>e. approval a e \<and> trim_space (ev_Role e) = role} = role_approvers p k ?es role" for role
    by (auto simp: approval_def approvers_def role_approvers_def)
  have what: "e \<in> set ?es \<and> ev_Type e = EventApprovalRecorded \<and>
              ev_Decision e = DecisionApprove \<and> ev_ReviewCycleID e = k \<and>
              trim_space (ev_Actor e) = a \<and> a \<noteq> [] \<and>
              ev_ArtifactSHA256 e = art_SHA256 (ct_Artifact (rec_Contract r)) \<and>
              authorizes p (ev_Actor e) (ev_Role e) (ev_At e) = Inr True" if "approval a e" for a e
    using that lifecycle_decisions[OF ph(1), of e]
    by (auto simp: approval_def approving_def counts_for_def is_decision_def decision_in_def
        dest: authorizesEvent_Inr)
  have roles: "\<exists>a e. approval a e \<and> trim_space (ev_Role e) = trim_space role"
    if "role \<in> set (pol_RequiredRoles p)" "\<not> blank role" for role
  proof -
    have "role_approvers p k ?es (trim_space role) \<noteq> {}"
      using that k(2) by (auto simp: quorum_def)
    then show ?thesis by (auto simp flip: sets(2))
  qed
  show ?thesis
    by (rule bexI[OF _ k(1)], rule exI[of _ approval])
       (use k(2) what roles in \<open>auto simp: sets quorum_def\<close>)
qed

theorem approval_safety_witness:
  "\<exists>k \<in> cycles_of sample_log. \<exists>approval :: string \<Rightarrow> Event \<Rightarrow> bool.
     1 \<le> int (card {a. \<exists>e. approval a e}) \<and>
     (\<forall>a e. approval a e \<longrightarrow> e \<in> set sample_log \<and> ev_ReviewCycleID e = k)"
  using approval_safety[OF sample_approved_valid] by (fastforce simp: sample_record_def DefaultReviewPolicy_def)

text \<open>Appending an event succeeds exactly when the record was accepted and the record
  extended by that one event at the end of its log, in its new state, is accepted; nothing
  else of the record changes.\<close>

theorem AppendEvent_extends:
  "AppendEventWithPolicy r e p = Inr r' \<longleftrightarrow>
     ValidateWithPolicy r p = [] \<and> ValidateWithPolicy r' p = [] \<and>
     r' = r\<lparr>rec_State := rec_State r', rec_Events := rec_Events r @ [e]\<rparr>"
  by (rule Append_Inr)

text \<open>Superseded is final: no event can be appended to an accepted superseded record.\<close>

theorem superseded_is_final:
  assumes "ValidateWithPolicy r p = []" "rec_State r = StateSuperseded"
  shows "\<exists>err. AppendEventWithPolicy r e p = Inl err"
  using assms by (rule Append_superseded)

theorem superseded_is_final_witness:
  "\<exists>err. AppendEventWithPolicy (sample_record StateSuperseded (sample_log @ [sample_supersede]))
     (sample_open ''2026-01-05T00:00:00Z'') DefaultReviewPolicy = Inl err"
  by (rule superseded_is_final[OF sample_superseded_valid]) (simp add: sample_record_def)

text \<open>C16. \<open>satisfied\<close> fails exactly when a counted approval cannot be verified, and otherwise
  decides the quorum: enough distinct trimmed actors among the authorised approve decisions of
  the cycle, and enough of them for every role that is required or has a threshold, in whatever
  order the maps are ranged over.\<close>

theorem satisfied_decides_quorum:
  "((\<exists>err. satisfied p es k = Inl err) \<longleftrightarrow>
      1 \<le> pol_MinimumApprovals p \<and> \<not> blank k \<and>
      (\<exists>e \<in> set es. counts_for k e \<and> (\<exists>err. authorizesEvent p e = Inl err))) \<and>
   (\<forall>b. satisfied p es k = Inr b \<longrightarrow> b = quorum p k es)"
proof -
  have "(\<exists>err. satisfied p es k = Inl err) \<longleftrightarrow>
        1 \<le> pol_MinimumApprovals p \<and> \<not> blank k \<and> (\<exists>err. collect_approvals p k {} [] es = Inl err)"
    by (auto simp: satisfied_def not_less split: sum.splits if_splits)
  then show ?thesis by (simp add: collect_approvals_Inl satisfied_Inr)
qed

theorem satisfied_decides_quorum_witness:
  "satisfied DefaultReviewPolicy sample_log ''c1'' = Inr True \<and>
   quorum DefaultReviewPolicy ''c1'' sample_log"
proof -
  have "satisfied DefaultReviewPolicy sample_log ''c1'' = Inr True" by code_simp
  with satisfied_decides_quorum[of DefaultReviewPolicy sample_log "''c1''"] show ?thesis by blast
qed

text \<open>The ordering check does not see the zero time: a record whose review was opened at
  0001-01-01T00:00:00Z, before its registration, is accepted, whereas any other earlier time is
  refused.\<close>

theorem zero_time_escapes_ordering:
  "ValidateWithPolicy
     (sample_record StateInReview [sample_register, sample_open ''0001-01-01T00:00:00Z''])
     DefaultReviewPolicy = [] \<and>
   ValidateWithPolicy
     (sample_record StateInReview [sample_register, sample_open ''0001-01-01T00:00:01Z''])
     DefaultReviewPolicy = [at_index ''events'' 1 @ [T ''.at must not precede the previous event'']]"
proof -
  have "ValidateWithPolicy
     (sample_record StateInReview [sample_register, sample_open ''0001-01-01T00:00:00Z''])
     DefaultReviewPolicy = []" by code_simp
  moreover have "ValidateWithPolicy
     (sample_record StateInReview [sample_register, sample_open ''0001-01-01T00:00:01Z''])
     DefaultReviewPolicy = [at_index ''events'' 1 @ [T ''.at must not precede the previous event'']]"
    by code_simp
  ultimately show ?thesis ..
qed

section \<open>Lineage\<close>

definition amended_contract :: ContractReference where
  "amended_contract = sample_contract\<lparr>ct_Version := 2\<rparr>"

definition sample_amend :: Event where
  "sample_amend =
     (plain_event ''e4'' EventAmendmentCreated ''2026-01-04T00:00:00Z'')
       \<lparr>ev_Predecessor := Some (Identity sample_contract),
        ev_Successor := Some (Identity amended_contract), ev_Reason := ''fix'',
        ev_AmendmentKind := ''corrective''\<rparr>"

definition sample_store :: "Record list" where
  "sample_store =
     [sample_record StateApproved (sample_log @ [sample_amend]),
      (sample_record StateRegistered [sample_register])
        \<lparr>rec_RecordID := ''r2'', rec_Contract := amended_contract\<rparr>]"

lemma sample_store_valid: "validateLineage sample_store (\<lambda>_. Inr DefaultReviewPolicy) = []"
  by code_simp

text \<open>The depth-first search of \<open>validateLineage\<close> reports a cycle exactly when one is
  reachable from a recorded contract, in whatever order the maps of nodes and edges are
  ranged over; the fuel of the model is always enough.\<close>

theorem cycle_search_exact:
  "find_cycles byIdentity edges = [] \<longleftrightarrow>
     \<not> (\<exists>k \<in> fst ` set byIdentity. \<exists>m. (k, m) \<in> (edge_rel edges)\<^sup>* \<and> (m, m) \<in> (edge_rel edges)\<^sup>+)"
  by (simp add: find_cycles_iff has_cycle_from_def)

text \<open>C10. In a store that passes \<open>validateLineage\<close> every record is accepted under a policy the
  resolver gave for its policy key, contract identities are distinct, the links form no cycle,
  and every amendment or supersession names a successor that is in the store and was
  registered, respectively approved, no later than the linking event; a supersession also has
  an amendment link.\<close>

theorem lineage_sound:
  assumes "validateLineage records resolve = []"
  shows "distinct (map key_of records) \<and> acyclic (links records) \<and>
         (\<forall>r \<in> set records.
            policy_accepts resolve r \<and>
            (\<forall>e \<in> set (rec_Events r). \<forall>suc. ev_Successor e = Some suc \<longrightarrow>
               ev_Type e = EventAmendmentCreated \<and> ev_Predecessor e \<noteq> None \<or>
               ev_Type e = EventSuperseded \<longrightarrow>
               (ev_Type e = EventSuperseded \<longrightarrow> HasAmendmentLink r suc) \<and>
               (\<exists>q \<in> set records. key_of q = Identity_Key suc \<and> key_of q \<noteq> key_of r \<and>
                  (\<exists>first. firstEventAt q
                       (if ev_Type e = EventSuperseded then EventApprovalRecorded
                        else EventRegistered) = Some first \<and>
                     (\<forall>t. parse_utc (ev_At e) = Some t \<longrightarrow> first \<le> t)))))"
proof -
  from validateLineage_Nil[OF assms] obtain m where
    m: "distinct (map key_of records)" "\<forall>r \<in> set records. policy_accepts resolve r"
      "\<forall>k q. map_of m k = Some q \<longleftrightarrow> q \<in> set records \<and> key_of q = k"
      "\<forall>r \<in> set records. \<forall>e \<in> set (rec_Events r). link_ok m r e" "acyclic (links records)"
    by blast
  have succ: "(ev_Type e = EventSuperseded \<longrightarrow> HasAmendmentLink r suc) \<and>
        (\<exists>q \<in> set records. key_of q = Identity_Key suc \<and> key_of q \<noteq> key_of r \<and>
           (\<exists>first. firstEventAt q
                (if ev_Type e = EventSuperseded then EventApprovalRecorded
                 else EventRegistered) = Some first \<and>
              (\<forall>t. parse_utc (ev_At e) = Some t \<longrightarrow> first \<le> t)))"
    if "r \<in> set records" "e \<in> set (rec_Events r)" "ev_Successor e = Some suc"
      "ev_Type e = EventAmendmentCreated \<and> ev_Predecessor e \<noteq> None \<or> ev_Type e = EventSuperseded"
    for r e suc
  proof -
    let ?t = "if ev_Type e = EventSuperseded then EventApprovalRecorded else EventRegistered"
    have ok: "ev_Type e = EventSuperseded \<longrightarrow> HasAmendmentLink r suc"
      "successor_ok m (key_of r) suc ?t e"
      using m(4)[rule_format, OF that(1,2)] that(3,4) by (auto simp: link_ok_def)
    from ok(2) obtain q where q: "map_of m (Identity_Key suc) = Some q"
      "key_of r \<noteq> Identity_Key suc"
      "\<exists>first. firstEventAt q ?t = Some first \<and> (\<forall>t. parse_utc (ev_At e) = Some t \<longrightarrow> first \<le> t)"
      unfolding successor_ok_def by blast
    from q(1) m(3) have in_store: "q \<in> set records" and key: "key_of q = Identity_Key suc" by blast+
    from key q(2) have "key_of q \<noteq> key_of r" by metis
    show ?thesis
      by (intro conjI bexI[of _ q]) (fact ok(1) key \<open>key_of q \<noteq> key_of r\<close> q(3) in_store)+
  qed
  show ?thesis
    by (intro conjI ballI m(1,5) m(2)[rule_format] allI impI succ, assumption)
       ((rule succ[THEN conjunct1, THEN mp], assumption+) | (rule succ[THEN conjunct2], assumption+))+
qed

theorem lineage_sound_witness: "acyclic (links sample_store)"
  using lineage_sound[OF sample_store_valid] by blast

end
