(* ===== verification/HammondCodec.thy ===== *)
theory HammondCodec
  imports HammondProps HammondAuthority
begin

text \<open>
  hammond/internal/governance/codec.go and rooted.go: policies, authorities and approval
  records bound to the exact bytes their references name.  The strict JSON decoders, the JSON
  encoder of the signed payload, the reading of a file beneath the project root
  (\<open>readRooted\<close>, with its path checks) and \<open>filepath.Clean\<close> are arguments, collected in the
  records \<open>Codec\<close> and \<open>Project\<close>; the hash is that of \<open>Crypto\<close>.
\<close>

record ReviewPolicyDocument =
  rp_Schema :: string
  rp_ID :: string
  rp_Version :: int
  rp_MinimumApprovals :: int
  rp_RequiredRoles :: "string list"
  rp_RoleApprovalThresholds :: "(string, int) gomap"
  rp_Authority :: Reference

record ReviewAuthoritySigningDocument =
  ra_Schema :: string
  ra_ID :: string
  ra_Version :: int
  ra_Actors :: "(string, string list) gomap option"

record ReviewAuthorityDocument = ReviewAuthoritySigningDocument +
  ra_Signature :: "AuthoritySignature option"

record Codec =
  dec_Record :: "string \<Rightarrow> Record option"
  dec_Policy :: "string \<Rightarrow> ReviewPolicyDocument option"
  dec_Authority :: "string \<Rightarrow> ReviewAuthorityDocument option"
  enc_Authority :: "ReviewAuthoritySigningDocument \<Rightarrow> string option"

section \<open>Authorities\<close>

definition ReviewAuthority_Validate :: "Crypto \<Rightarrow> ReviewAuthority \<Rightarrow> message option" where
  "ReviewAuthority_Validate cr a =
     first_some
       [(case validateAuthorityReference (auth_Reference a) [T ''authority''] of
           [] \<Rightarrow> None | ps \<Rightarrow> Some (join_problems ps)),
        fail_if (auth_Actors a = None) [T ''authority actors are required''],
        validateAuthoritySignature cr (auth_Signature a),
        validateActorRoleGrants (case auth_Actors a of Some m \<Rightarrow> m | None \<Rightarrow> [])]"

definition decodeReviewAuthority ::
  "Crypto \<Rightarrow> Codec \<Rightarrow> string \<Rightarrow> Reference \<Rightarrow> VerifySignature_fun option \<Rightarrow> message + ReviewAuthority" where
  "decodeReviewAuthority cr cd data reference verifier =
     (case dec_Authority cd data of
        None \<Rightarrow> Inl [T ''decode Hammond authority'']
      | Some d \<Rightarrow>
          (let authority = \<lparr>auth_Reference = reference, auth_Actors = ra_Actors d,
                            auth_Signature = ra_Signature d\<rparr> in
           case first_some
             [fail_if (ra_Schema d \<noteq> AuthoritySchema)
                [T ''authority schema must be '', T AuthoritySchema],
              fail_if (ra_ID d \<noteq> ref_ID reference \<or> ra_Version d \<noteq> ref_Version reference)
                [T ''authority identity does not match its reference''],
              fail_if (cr_SHA256Hex cr data \<noteq> art_SHA256 (ref_Artifact reference))
                [T ''authority bytes do not match reference artifact.sha256''],
              (case verifier of
                 None \<Rightarrow> None
               | Some v \<Rightarrow>
                   (case ra_Signature d of
                      None \<Rightarrow> Some [T ''authority signature is required'']
                    | Some s \<Rightarrow>
                        first_some
                          [validateAuthoritySignature cr (ra_Signature d),
                           (case decodeAuthoritySignature cr (sig_Signature s) of
                              Inl err \<Rightarrow> Some err
                            | Inr signature \<Rightarrow>
                                (case enc_Authority cd
                                        \<lparr>ra_Schema = ra_Schema d, ra_ID = ra_ID d,
                                         ra_Version = ra_Version d, ra_Actors = ra_Actors d\<rparr> of
                                   None \<Rightarrow> Some [T ''canonicalize authority for signature'']
                                 | Some payload \<Rightarrow>
                                     wrap_err (\<lambda>err. T ''verify authority signature: '' # err)
                                       (v (sig_KeyID s) payload signature)))])),
              ReviewAuthority_Validate cr authority] of
             Some err \<Rightarrow> Inl err | None \<Rightarrow> Inr authority))"

section \<open>Policies\<close>

definition decodeReviewPolicyWithAuthorityResolver ::
  "Crypto \<Rightarrow> Codec \<Rightarrow> string \<Rightarrow> Reference \<Rightarrow> (Reference \<Rightarrow> message + ReviewAuthority)
   \<Rightarrow> message + ReviewPolicy" where
  "decodeReviewPolicyWithAuthorityResolver cr cd data reference resolveAuthority =
     (case dec_Policy cd data of
        None \<Rightarrow> Inl [T ''decode Hammond review policy'']
      | Some d \<Rightarrow>
          (case first_some
             [fail_if (rp_Schema d \<noteq> PolicySchema)
                [T ''review policy schema must be '', T PolicySchema],
              fail_if (rp_ID d \<noteq> ref_ID reference \<or> rp_Version d \<noteq> ref_Version reference)
                [T ''review policy identity does not match its reference''],
              fail_if (cr_SHA256Hex cr data \<noteq> art_SHA256 (ref_Artifact reference))
                [T ''review policy bytes do not match reference artifact.sha256'']] of
             Some err \<Rightarrow> Inl err
           | None \<Rightarrow>
               (let policy =
                      \<lparr>pol_Reference = reference, pol_MinimumApprovals = rp_MinimumApprovals d,
                       pol_RequiredRoles = rp_RequiredRoles d,
                       pol_RoleApprovalThresholds = rp_RoleApprovalThresholds d,
                       pol_Authority = rp_Authority d, pol_AuthorityVerifier = None,
                       pol_ActorRoles = []\<rparr> in
                case (if isEmptyAuthorityReference (rp_Authority d) then Inr policy
                      else case resolveAuthority (rp_Authority d) of
                             Inl err \<Rightarrow> Inl (T ''load review policy authority: '' # err)
                           | Inr authority \<Rightarrow>
                               Inr (policy
                                 \<lparr>pol_ActorRoles :=
                                    (case auth_Actors authority of Some m \<Rightarrow> m | None \<Rightarrow> []),
                                  pol_AuthorityVerifier :=
                                    Some (Verifier (ReviewAuthority_Verify authority))\<rparr>)) of
                  Inl err \<Rightarrow> Inl err
                | Inr p \<Rightarrow>
                    (case ReviewPolicy_Validate p of Some err \<Rightarrow> Inl err | None \<Rightarrow> Inr p))))"

section \<open>Contract artifacts and whole records\<close>

definition LoadContractArtifact ::
  "Crypto \<Rightarrow> (string \<Rightarrow> message + string) \<Rightarrow> ContractReference \<Rightarrow> message list + string" where
  "LoadContractArtifact cr read reference =
     (case validateContractReference reference [T ''contract''] of
        p # ps \<Rightarrow> Inl (p # ps)
      | [] \<Rightarrow>
          (case read (art_URI (ct_Artifact reference)) of
             Inl err \<Rightarrow> Inl [T ''read Hammond contract artifact '' #
                               T (art_URI (ct_Artifact reference)) # T '': '' # err]
           | Inr data \<Rightarrow>
               if cr_SHA256Hex cr data \<noteq> art_SHA256 (ct_Artifact reference)
               then Inl [[T ''contract artifact bytes do not match reference artifact.sha256'']]
               else Inr data))"

definition DecodeRecord ::
  "Crypto \<Rightarrow> Codec \<Rightarrow> (string \<Rightarrow> message + string) \<Rightarrow> (Reference \<Rightarrow> message + ReviewPolicy)
   \<Rightarrow> string \<Rightarrow> message list + Record" where
  "DecodeRecord cr cd read loadPolicy data =
     (case dec_Record cd data of
        None \<Rightarrow> Inl [[T ''decode Hammond record'']]
      | Some r \<Rightarrow>
          (case LoadContractArtifact cr read (rec_Contract r) of
             Inl err \<Rightarrow> Inl ([T ''load Hammond record contract: ''] # err)
           | Inr _ \<Rightarrow>
               (case loadPolicy (rec_Policy r) of
                  Inl err \<Rightarrow> Inl [T ''load Hammond record policy: '' # err]
                | Inr policy \<Rightarrow>
                    (case ValidateWithPolicy r policy of
                       p # ps \<Rightarrow> Inl (p # ps) | [] \<Rightarrow> Inr r))))"

section \<open>Verification beneath a project root\<close>

record VerifiedArtifact =
  va_Kind :: string
  va_Path :: string
  va_SHA256 :: string

record ApprovedVerification =
  av_Record :: Record
  av_Contract :: ContractReference
  av_Policy :: Reference
  av_Artifacts :: "VerifiedArtifact list"

text \<open>\<open>pr_read\<close> yields the bytes and the normalised path; \<open>pr_root\<close> is what resolving and
  inspecting the root directory reports.\<close>

record Project =
  pr_root :: "message option"
  pr_read :: "string \<Rightarrow> message + string \<times> string"
  pr_clean :: "string \<Rightarrow> string"

definition resolve_authority ::
  "Crypto \<Rightarrow> Codec \<Rightarrow> Project \<Rightarrow> Reference \<Rightarrow> message + ReviewAuthority" where
  "resolve_authority cr cd pr reference =
     (case pr_read pr (art_URI (ref_Artifact reference)) of
        Inl err \<Rightarrow> Inl (T ''read Hammond review authority: '' # err)
      | Inr (data, path) \<Rightarrow> decodeReviewAuthority cr cd data reference None)"

text \<open>The policy refers to at most one authority, so \<open>authorityBytesByPath\<close> holds at most the
  bytes read for it, under the path they were read at.\<close>

definition authority_bytes :: "Project \<Rightarrow> Reference \<Rightarrow> (string, string) gomap" where
  "authority_bytes pr reference =
     (case pr_read pr (art_URI (ref_Artifact reference)) of
        Inl _ \<Rightarrow> [] | Inr (data, path) \<Rightarrow> [(path, data)])"

definition read_as :: "Project \<Rightarrow> string \<Rightarrow> string \<Rightarrow> message + string \<times> string" where
  "read_as pr what path =
     (case pr_read pr path of Inl err \<Rightarrow> Inl (T what # err) | Inr r \<Rightarrow> Inr r)"

definition check :: "message option \<Rightarrow> message + unit" where
  "check e = (case e of Some err \<Rightarrow> Inl err | None \<Rightarrow> Inr ())"

definition and_then :: "'e + 'a \<Rightarrow> ('a \<Rightarrow> 'e + 'b) \<Rightarrow> 'e + 'b" where
  "and_then r f = (case r of Inl err \<Rightarrow> Inl err | Inr a \<Rightarrow> f a)"

lemma and_then_Inr: "and_then r f = Inr b \<longleftrightarrow> (\<exists>a. r = Inr a \<and> f a = Inr b)"
  by (cases r) (auto simp: and_then_def)

lemma check_Inr: "check e = Inr u \<longleftrightarrow> e = None"
  by (cases e) (auto simp: check_def)

lemma read_as_Inr: "read_as pr what path = Inr x \<longleftrightarrow> pr_read pr path = Inr x"
  by (auto simp: read_as_def split: sum.splits)

lemma case_Inr:
  "(case x of None \<Rightarrow> Inl e | Some a \<Rightarrow> Inr a) = Inr b \<longleftrightarrow> x = Some b"
  "(case y of Inl e \<Rightarrow> Inl (f e) | Inr a \<Rightarrow> Inr a) = Inr b \<longleftrightarrow> y = Inr b"
  "(case ps of [] \<Rightarrow> Inr () | p # qs \<Rightarrow> Inl (g p qs)) = Inr u \<longleftrightarrow> ps = []"
  by (auto split: option.splits sum.splits list.splits)

definition verified_artifacts ::
  "Crypto \<Rightarrow> Project \<Rightarrow> ReviewPolicy \<Rightarrow> string \<times> string \<Rightarrow> string \<times> string \<Rightarrow> string \<times> string
   \<Rightarrow> string \<Rightarrow> message + VerifiedArtifact list" where
  "verified_artifacts cr pr policy approval contract active referencedPath =
     (let artifacts =
            [\<lparr>va_Kind = ''hammond-approval'', va_Path = snd approval,
              va_SHA256 = cr_SHA256Hex cr (fst approval)\<rparr>,
             \<lparr>va_Kind = ''sorna-contract'', va_Path = snd contract,
              va_SHA256 = cr_SHA256Hex cr (fst contract)\<rparr>,
             \<lparr>va_Kind = ''hammond-review-policy'', va_Path = referencedPath,
              va_SHA256 = cr_SHA256Hex cr (fst active)\<rparr>] @
            (if snd active \<noteq> referencedPath
             then [\<lparr>va_Kind = ''active-hammond-review-policy'', va_Path = snd active,
                    va_SHA256 = cr_SHA256Hex cr (fst active)\<rparr>] else [])
      in if isEmptyAuthorityReference (pol_Authority policy) then Inr artifacts
         else
           (let path = pr_clean pr (art_URI (ref_Artifact (pol_Authority policy))) in
            case map_of (authority_bytes pr (pol_Authority policy)) path of
              None \<Rightarrow> Inl [T ''Hammond review authority was not resolved during policy validation'']
            | Some data \<Rightarrow>
                Inr (artifacts @
                  [\<lparr>va_Kind = ''hammond-review-authority'', va_Path = path,
                    va_SHA256 = cr_SHA256Hex cr data\<rparr>])))"

definition VerifyApprovedRooted ::
  "Crypto \<Rightarrow> Codec \<Rightarrow> Project \<Rightarrow> string \<Rightarrow> string \<Rightarrow> ContractReference
   \<Rightarrow> message + ApprovedVerification" where
  "VerifyApprovedRooted cr cd pr approvalPath activePolicyPath expected =
     and_then (check (pr_root pr)) (\<lambda>_.
     and_then (read_as pr ''read Hammond approval record: '' approvalPath) (\<lambda>approval.
     and_then (case dec_Record cd (fst approval) of
                 None \<Rightarrow> Inl [T ''decode Hammond approval record''] | Some r \<Rightarrow> Inr r) (\<lambda>r.
     and_then (check (first_some
       [fail_if (rec_State r \<noteq> StateApproved)
          [T ''Hammond contract record state is '', Q (rec_State r), T '', want approved''],
        fail_if (Identity (rec_Contract r) \<noteq> Identity expected)
          [T ''Hammond approval contract identity does not match the expected project/contract/version/schema/digest'']])) (\<lambda>_.
     and_then (read_as pr ''read Hammond contract artifact: '' (art_URI (ct_Artifact (rec_Contract r)))) (\<lambda>contract.
     and_then (check (fail_if
         (cr_SHA256Hex cr (fst contract) \<noteq> art_SHA256 (ct_Artifact (rec_Contract r)) \<or>
          cr_SHA256Hex cr (fst contract) \<noteq> art_SHA256 (ct_Artifact expected))
         [T ''Hammond contract artifact bytes do not match the approved and expected digest''])) (\<lambda>_.
     and_then (read_as pr ''read explicitly selected Hammond review policy: '' activePolicyPath) (\<lambda>active.
     and_then (check (fail_if
         (cr_SHA256Hex cr (fst active) \<noteq> art_SHA256 (ref_Artifact (rec_Policy r)))
         [T ''active Hammond review policy bytes do not match the policy identity/hash recorded by the approval''])) (\<lambda>_.
     and_then (read_as pr ''read Hammond review policy referenced by approval: ''
         (art_URI (ref_Artifact (rec_Policy r)))) (\<lambda>referenced.
     and_then (check (fail_if
         (cr_SHA256Hex cr (fst referenced) \<noteq> cr_SHA256Hex cr (fst active))
         [T ''Hammond review policy reference bytes do not match the explicitly selected active policy''])) (\<lambda>_.
     let reference = (rec_Policy r)\<lparr>ref_Artifact := (ref_Artifact (rec_Policy r))\<lparr>art_URI := snd active\<rparr>\<rparr> in
     and_then (case decodeReviewPolicyWithAuthorityResolver cr cd (fst active) reference
                      (resolve_authority cr cd pr) of
                 Inl err \<Rightarrow> Inl (T ''validate active Hammond review policy and authority: '' # err)
               | Inr p \<Rightarrow> Inr p) (\<lambda>policy.
     and_then (case ValidateWithPolicy r policy of
                 [] \<Rightarrow> Inr ()
               | ps \<Rightarrow> Inl (T ''validate Hammond approval lifecycle: '' # join_problems ps)) (\<lambda>_.
     and_then (verified_artifacts cr pr policy approval contract active (snd referenced)) (\<lambda>artifacts.
       Inr \<lparr>av_Record = r, av_Contract = rec_Contract r, av_Policy = reference,
            av_Artifacts = artifacts\<rparr>)))))))))))))"

lemma decodeReviewPolicy_Inr:
  "decodeReviewPolicyWithAuthorityResolver cr cd data reference resolve = Inr p \<Longrightarrow>
   cr_SHA256Hex cr data = art_SHA256 (ref_Artifact reference) \<and> pol_Reference p = reference \<and>
   ReviewPolicy_Validate p = None"
  by (auto simp: decodeReviewPolicyWithAuthorityResolver_def Let_def first_some_Cons_None
      split: option.splits sum.splits if_splits)

text \<open>C20. A successful rooted verification yields a record in state approved, read at the given
  path, that passes validation under the policy decoded from exactly the bytes selected as
  active, whose digest is the one the record names and which the referenced policy file also
  has; its contract is the expected one, and the contract file read has the expected digest.\<close>

theorem rooted_verification_sound:
  assumes "VerifyApprovedRooted cr cd pr approvalPath activePolicyPath expected = Inr v"
  shows "\<exists>approval contract active referenced policy.
           pr_read pr approvalPath = Inr approval \<and>
           dec_Record cd (fst approval) = Some (av_Record v) \<and>
           rec_State (av_Record v) = StateApproved \<and>
           Identity (rec_Contract (av_Record v)) = Identity expected \<and>
           pr_read pr (art_URI (ct_Artifact (rec_Contract (av_Record v)))) = Inr contract \<and>
           cr_SHA256Hex cr (fst contract) = art_SHA256 (ct_Artifact expected) \<and>
           pr_read pr activePolicyPath = Inr active \<and>
           cr_SHA256Hex cr (fst active) = art_SHA256 (ref_Artifact (rec_Policy (av_Record v))) \<and>
           pr_read pr (art_URI (ref_Artifact (rec_Policy (av_Record v)))) = Inr referenced \<and>
           cr_SHA256Hex cr (fst referenced) = cr_SHA256Hex cr (fst active) \<and>
           decodeReviewPolicyWithAuthorityResolver cr cd (fst active) (av_Policy v)
             (resolve_authority cr cd pr) = Inr policy \<and>
           ValidateWithPolicy (av_Record v) policy = []"
  using assms
  by (clarsimp simp: VerifyApprovedRooted_def and_then_Inr check_Inr read_as_Inr first_some_Cons_None
      Let_def case_Inr)

definition open_policy :: Reference where
  "open_policy =
     \<lparr>ref_ID = ''open'', ref_Version = 1, ref_Schema = PolicySchema,
      ref_Artifact = \<lparr>art_URI = ''policy.json'', art_SHA256 = digest_a\<rparr>\<rparr>"

definition open_record :: Record where
  "open_record = (sample_record StateApproved sample_log)\<lparr>rec_Policy := open_policy\<rparr>"

definition open_codec :: Codec where
  "open_codec =
     \<lparr>dec_Record = (\<lambda>_. Some open_record),
      dec_Policy = (\<lambda>_. Some \<lparr>rp_Schema = PolicySchema, rp_ID = ''open'', rp_Version = 1,
        rp_MinimumApprovals = 1, rp_RequiredRoles = [], rp_RoleApprovalThresholds = [],
        rp_Authority = empty_reference\<rparr>),
      dec_Authority = (\<lambda>_. None), enc_Authority = (\<lambda>_. None)\<rparr>"

definition open_crypto :: Crypto where
  "open_crypto = no_crypto\<lparr>cr_SHA256Hex := (\<lambda>_. digest_a)\<rparr>"

definition open_project :: Project where
  "open_project = \<lparr>pr_root = None, pr_read = (\<lambda>path. Inr (path, path)), pr_clean = (\<lambda>path. path)\<rparr>"

definition open_verification :: ApprovedVerification where
  "open_verification =
     \<lparr>av_Record = open_record, av_Contract = sample_contract, av_Policy = open_policy,
      av_Artifacts =
        [\<lparr>va_Kind = ''hammond-approval'', va_Path = ''approval.json'', va_SHA256 = digest_a\<rparr>,
         \<lparr>va_Kind = ''sorna-contract'', va_Path = ''contract.json'', va_SHA256 = digest_a\<rparr>,
         \<lparr>va_Kind = ''hammond-review-policy'', va_Path = ''policy.json'', va_SHA256 = digest_a\<rparr>]\<rparr>"

theorem rooted_verification_sound_witness:
  "rec_State (av_Record open_verification) = StateApproved \<and>
   Identity (rec_Contract (av_Record open_verification)) = Identity sample_contract"
proof -
  have "VerifyApprovedRooted open_crypto open_codec open_project ''approval.json'' ''policy.json''
          sample_contract = Inr open_verification"
    by code_simp
  from rooted_verification_sound[OF this] show ?thesis by blast
qed

end
