(* ===== verification/LockwoodTypes.thy ===== *)
theory LockwoodTypes
  imports GoTime
begin

text \<open>
  lockwood/internal/artifact and the data of lockwood/internal/custody (record.go,
  lineage.go, handling_event.go): artifact references, custody records, handling events and
  their validation.  A \<open>time.Time\<close> is an instant with the offset of its zone, because the
  JSON encoding of a record shows the zone; \<open>UTC()\<close> sets the offset to 0.  The patterns
  \<open>^[A-Za-z0-9][A-Za-z0-9._-]*$\<close> and their bounded variant are written out.  What \<open>net/url\<close>
  says of a source URI (it parses, is absolute and has no user) is the argument \<open>uri_ok\<close>.
\<close>

section \<open>Identifiers and digests\<close>

definition is_alnum :: "char \<Rightarrow> bool" where
  "is_alnum c \<longleftrightarrow> (48 \<le> byte c \<and> byte c \<le> 57) \<or> (65 \<le> byte c \<and> byte c \<le> 90) \<or>
                  (97 \<le> byte c \<and> byte c \<le> 122)"

definition id_byte :: "char \<Rightarrow> bool" where
  "id_byte c \<longleftrightarrow> is_alnum c \<or> c = CHR ''.'' \<or> c = CHR ''_'' \<or> c = CHR ''-''"

fun custodyIDPattern :: "string \<Rightarrow> bool" where
  "custodyIDPattern [] = False"
| "custodyIDPattern (c # s) = (is_alnum c \<and> list_all id_byte s)"

definition eventIDPattern :: "string \<Rightarrow> bool" where
  "eventIDPattern s \<longleftrightarrow> custodyIDPattern s \<and> length s \<le> 128"

definition digest_prefix :: string where
  "digest_prefix = ''sha256:''"

definition ValidateDigest :: "string \<Rightarrow> message option" where
  "ValidateDigest digest =
     (case strip_prefix digest_prefix digest of
        Some r \<Rightarrow> fail_if (\<not> (length r = 64 \<and> list_all is_lower_hex r))
                    [T ''invalid artifact digest '', Q digest]
      | None \<Rightarrow> Some [T ''invalid artifact digest '', Q digest])"

definition valid_digest :: "string \<Rightarrow> bool" where
  "valid_digest d \<longleftrightarrow> (\<exists>r. d = digest_prefix @ r \<and> valid_sha256 r)"

lemma ValidateDigest_None [check_simps]: "ValidateDigest d = None \<longleftrightarrow> valid_digest d"
proof (cases "strip_prefix digest_prefix d")
  case None
  then have "d \<noteq> digest_prefix @ r" for r using strip_prefix_Some[of digest_prefix d] by auto
  with None show ?thesis by (simp add: ValidateDigest_def valid_digest_def)
next
  case (Some r)
  then have "d = digest_prefix @ r" by (simp add: strip_prefix_Some)
  with Some show ?thesis by (simp add: ValidateDigest_def valid_digest_def valid_sha256_iff)
qed

lemma valid_digest_nonempty [simp]: "\<not> valid_digest []"
  by (simp add: valid_digest_def digest_prefix_def)

section \<open>Times\<close>

record stamp =
  instant_at :: instant
  zone_offset :: int

definition UTC :: "stamp \<Rightarrow> stamp" where
  "UTC t = t\<lparr>zone_offset := 0\<rparr>"

lemma UTC_simps [simp]: "instant_at (UTC t) = instant_at t" "UTC (UTC t) = UTC t"
  by (simp_all add: UTC_def)

section \<open>Custody records\<close>

abbreviation ArtifactSchema :: string where "ArtifactSchema \<equiv> ''lockwood.artifact/v1''"
abbreviation SHA256Algorithm :: string where "SHA256Algorithm \<equiv> ''sha256''"
abbreviation SchemaV1 :: string where "SchemaV1 \<equiv> ''lockwood.custody/v1''"
abbreviation SchemaV2 :: string where "SchemaV2 \<equiv> ''lockwood.custody/v2''"
abbreviation Accepted :: string where "Accepted \<equiv> ''accepted''"
abbreviation Quarantined :: string where "Quarantined \<equiv> ''quarantined''"
abbreviation Rejected_status :: string where "Rejected_status \<equiv> ''rejected''"
abbreviation IntegrityVerified :: string where "IntegrityVerified \<equiv> ''verified''"
abbreviation IntegrityFailed :: string where "IntegrityFailed \<equiv> ''failed''"
abbreviation IntegrityNotChecked :: string where "IntegrityNotChecked \<equiv> ''not-checked''"
abbreviation DerivedFrom :: string where "DerivedFrom \<equiv> ''derived-from''"

record ArtifactReference =
  ar_Schema :: string
  ar_Digest :: string
  ar_SizeBytes :: int
  ar_MediaType :: string
  ar_LogicalName :: string

record Producer =
  pd_Tool :: string
  pd_Kind :: string
  pd_Version :: string

record Custodian =
  cs_Tool :: string
  cs_Version :: string

record Source =
  so_RunID :: string
  so_Path :: string
  so_URI :: string
  so_Version :: string

record Integrity =
  in_Status :: string
  in_Method :: string
  in_VerifiedAt :: "stamp option"

record Handling =
  ha_Redaction :: string
  ha_RetentionClass :: string

record Lineage =
  li_Relation :: string
  li_Digest :: string

record CustodyRecord =
  cu_Schema :: string
  cu_CustodyID :: string
  cu_Status :: string
  cu_Artifact :: ArtifactReference
  cu_ReceivedAt :: stamp
  cu_Producer :: Producer
  cu_Custodian :: Custodian
  cu_Source :: Source
  cu_Integrity :: Integrity
  cu_Parents :: "Lineage list option"
  cu_Handling :: Handling

abbreviation parents_of :: "CustodyRecord \<Rightarrow> Lineage list" where
  "parents_of r \<equiv> (case cu_Parents r of Some ps \<Rightarrow> ps | None \<Rightarrow> [])"

definition lineage_syntax :: "Lineage \<Rightarrow> message option" where
  "lineage_syntax l =
     first_some
       [fail_if (li_Relation l \<notin> {''references'', DerivedFrom, ''contains'', ''verifies''})
          [T ''unsupported lineage relation '', Q (li_Relation l)],
        wrap_err (\<lambda>err. T ''invalid lineage digest: '' # err) (ValidateDigest (li_Digest l))]"

definition Lineage_validate :: "string \<Rightarrow> Lineage \<Rightarrow> message option" where
  "Lineage_validate childDigest l =
     first_some
       [lineage_syntax l,
        fail_if (li_Digest l = childDigest) [T ''lineage cannot point an artifact at itself'']]"

definition Source_validate :: "(string \<Rightarrow> bool) \<Rightarrow> string \<Rightarrow> Source \<Rightarrow> message option" where
  "Source_validate uri_ok schema s =
     first_some
       [fail_if (blank (so_RunID s) \<and> blank (so_Path s) \<and> blank (so_URI s))
          [T ''source run_id, path, or uri is required''],
        fail_if (schema = SchemaV1 \<and> (\<not> blank (so_URI s) \<or> \<not> blank (so_Version s)))
          [T ''remote source fields require custody schema '', Q SchemaV2],
        fail_if (\<not> blank (so_Version s) \<and> blank (so_URI s)) [T ''source version requires source uri''],
        fail_if (\<not> blank (so_URI s) \<and> \<not> uri_ok (so_URI s))
          [T ''source uri must be an absolute credential-free uri'']]"

definition Integrity_problem :: "Integrity \<Rightarrow> message option" where
  "Integrity_problem i =
     (if in_Status i = IntegrityVerified
      then fail_if (case in_VerifiedAt i of None \<Rightarrow> True | Some t \<Rightarrow> is_zero (instant_at t))
             [T ''verified integrity requires verified_at'']
      else fail_if (in_Status i \<notin> {IntegrityFailed, IntegrityNotChecked})
             [T ''invalid integrity status '', Q (in_Status i)])"

definition Record_Validate :: "(string \<Rightarrow> bool) \<Rightarrow> CustodyRecord \<Rightarrow> message option" where
  "Record_Validate uri_ok r =
     first_some
       [fail_if (cu_Schema r \<noteq> SchemaV1 \<and> cu_Schema r \<noteq> SchemaV2)
          [T ''unexpected custody schema '', Q (cu_Schema r)],
        fail_if (\<not> custodyIDPattern (cu_CustodyID r)) [T ''invalid custody id '', Q (cu_CustodyID r)],
        fail_if (cu_Status r \<notin> {Accepted, Quarantined, Rejected_status})
          [T ''invalid custody status '', Q (cu_Status r)],
        fail_if (ar_Schema (cu_Artifact r) \<noteq> ArtifactSchema)
          [T ''unexpected artifact schema '', Q (ar_Schema (cu_Artifact r))],
        ValidateDigest (ar_Digest (cu_Artifact r)),
        fail_if (ar_SizeBytes (cu_Artifact r) < 0) [T ''artifact size cannot be negative''],
        fail_if (blank (ar_MediaType (cu_Artifact r))) [T ''artifact media type is required''],
        fail_if (is_zero (instant_at (cu_ReceivedAt r))) [T ''received_at is required''],
        fail_if (blank (pd_Tool (cu_Producer r)) \<or> blank (pd_Kind (cu_Producer r)))
          [T ''producer tool and kind are required''],
        fail_if (blank (cs_Tool (cu_Custodian r))) [T ''custodian tool is required''],
        Source_validate uri_ok (cu_Schema r) (cu_Source r),
        Integrity_problem (cu_Integrity r),
        fail_if (in_Method (cu_Integrity r) \<noteq> SHA256Algorithm)
          [T ''unsupported integrity method '', Q (in_Method (cu_Integrity r))],
        fail_if (cu_Status r = Accepted \<and> in_Status (cu_Integrity r) \<noteq> IntegrityVerified)
          [T ''accepted custody requires verified integrity''],
        fail_if (cu_Parents r = None) [T ''parents must be an array''],
        first_error (Lineage_validate (ar_Digest (cu_Artifact r))) (parents_of r),
        fail_if (ha_Redaction (cu_Handling r) \<noteq> ''none'' \<and> ha_Redaction (cu_Handling r) \<noteq> ''redacted'')
          [T ''invalid redaction status '', Q (ha_Redaction (cu_Handling r))],
        fail_if (blank (ha_RetentionClass (cu_Handling r))) [T ''retention class is required'']]"

lemma Record_Validate_id: "Record_Validate uri_ok r = None \<Longrightarrow> custodyIDPattern (cu_CustodyID r)"
  by (simp add: Record_Validate_def first_some_Cons_None)

lemma Record_Validate_parents:
  "Record_Validate uri_ok r = None \<Longrightarrow> p \<in> set (parents_of r) \<Longrightarrow>
   valid_digest (li_Digest p) \<and> li_Digest p \<noteq> ar_Digest (cu_Artifact r)"
  by (simp add: Record_Validate_def first_some_Cons_None first_error_None Lineage_validate_def
      lineage_syntax_def ValidateDigest_None)

section \<open>Handling events\<close>

abbreviation HandlingEventSchema :: string where "HandlingEventSchema \<equiv> ''lockwood.handling-event/v1''"
abbreviation RedactionEvent :: string where "RedactionEvent \<equiv> ''redaction''"
abbreviation RetentionClassifiedEvent :: string where "RetentionClassifiedEvent \<equiv> ''retention-classified''"
abbreviation LegalHoldPlacedEvent :: string where "LegalHoldPlacedEvent \<equiv> ''legal-hold-placed''"
abbreviation LegalHoldReleasedEvent :: string where "LegalHoldReleasedEvent \<equiv> ''legal-hold-released''"

record HandlingEvent =
  he_Schema :: string
  he_EventID :: string
  he_CustodyID :: string
  he_Type :: string
  he_RecordedAt :: stamp
  he_Actor :: string
  he_Reason :: string
  he_OriginalDigest :: string
  he_ResultingDigest :: string
  he_RetentionClass :: string
  he_LegalHoldID :: string

definition event_fields_problem :: "HandlingEvent \<Rightarrow> message option" where
  "event_fields_problem e =
     (if he_Type e = RedactionEvent then
        first_some
          [fail_if (he_OriginalDigest e = [] \<or> he_ResultingDigest e = [])
             [T ''redaction event requires original and resulting digests''],
           fail_if (he_OriginalDigest e = he_ResultingDigest e) [T ''redaction event digests must differ''],
           fail_if (he_RetentionClass e \<noteq> [] \<or> he_LegalHoldID e \<noteq> [])
             [T ''redaction event has unrelated handling fields'']]
      else if he_Type e = RetentionClassifiedEvent then
        first_some
          [fail_if (blank (he_RetentionClass e)) [T ''retention event requires retention class''],
           fail_if (he_OriginalDigest e \<noteq> [] \<or> he_ResultingDigest e \<noteq> [] \<or> he_LegalHoldID e \<noteq> [])
             [T ''retention event has unrelated handling fields'']]
      else if he_Type e = LegalHoldPlacedEvent \<or> he_Type e = LegalHoldReleasedEvent then
        first_some
          [fail_if (he_LegalHoldID e = []) [T ''legal hold event requires legal hold id''],
           fail_if (he_OriginalDigest e \<noteq> [] \<or> he_ResultingDigest e \<noteq> [] \<or> he_RetentionClass e \<noteq> [])
             [T ''legal hold event has unrelated handling fields'']]
      else Some [T ''unsupported handling event type '', Q (he_Type e)])"

definition optional_digest :: "string \<Rightarrow> string \<Rightarrow> message option" where
  "optional_digest what d =
     (if d = [] then None
      else wrap_err (\<lambda>err. [T ''invalid handling event '', T what, T '' digest: ''] @ err)
             (ValidateDigest d))"

definition HandlingEvent_Validate :: "HandlingEvent \<Rightarrow> message option" where
  "HandlingEvent_Validate e =
     first_some
       [fail_if (he_Schema e \<noteq> HandlingEventSchema)
          [T ''unexpected handling event schema '', Q (he_Schema e)],
        fail_if (\<not> eventIDPattern (he_EventID e)) [T ''invalid handling event id '', Q (he_EventID e)],
        fail_if (\<not> custodyIDPattern (he_CustodyID e))
          [T ''invalid handling event custody id '', Q (he_CustodyID e)],
        fail_if (is_zero (instant_at (he_RecordedAt e))) [T ''handling event recorded_at is required''],
        fail_if (blank (he_Actor e)) [T ''handling event actor is required''],
        fail_if (blank (he_Reason e)) [T ''handling event reason is required''],
        optional_digest ''original'' (he_OriginalDigest e),
        optional_digest ''resulting'' (he_ResultingDigest e),
        fail_if (he_LegalHoldID e \<noteq> [] \<and> \<not> eventIDPattern (he_LegalHoldID e))
          [T ''invalid handling event legal hold id '', Q (he_LegalHoldID e)],
        event_fields_problem e]"

lemma HandlingEvent_Validate_types:
  "HandlingEvent_Validate e = None \<Longrightarrow>
   eventIDPattern (he_EventID e) \<and> custodyIDPattern (he_CustodyID e) \<and>
   he_Type e \<in> {RedactionEvent, RetentionClassifiedEvent, LegalHoldPlacedEvent, LegalHoldReleasedEvent} \<and>
   (he_Type e = RedactionEvent \<longrightarrow> valid_digest (he_OriginalDigest e) \<and>
      valid_digest (he_ResultingDigest e) \<and> he_OriginalDigest e \<noteq> he_ResultingDigest e)"
  by (auto simp: HandlingEvent_Validate_def first_some_Cons_None event_fields_problem_def
      optional_digest_def ValidateDigest_None split: if_splits)

lemma HandlingEvent_Validate_UTC [simp]:
  "HandlingEvent_Validate (e\<lparr>he_RecordedAt := UTC t\<rparr>) = HandlingEvent_Validate (e\<lparr>he_RecordedAt := t\<rparr>)"
  by (simp add: HandlingEvent_Validate_def event_fields_problem_def)

end
