(* ===== verification/LockwoodBlobs.thy ===== *)
theory LockwoodBlobs
  imports LockwoodTypes "HOL-Library.Product_Lexorder"
begin

text \<open>
  lockwood/internal/integrity/verify.go and lockwood/internal/store/memory.go (with
  \<open>validateReference\<close> and \<open>referenceKey\<close> of reference.go): bounded reading with a digest, and
  the process-local content-addressed store.  An \<open>io.Reader\<close> is the bytes it delivers and how
  it ends; \<open>io.EOF\<close> and \<open>io.ErrUnexpectedEOF\<close> are told apart because the size check does.
  SHA-256 (in hexadecimal) is the argument \<open>sha\<close> and \<open>json.Marshal\<close> of a reference the
  argument \<open>en_ref\<close>; nothing is assumed of them, collisions included.
\<close>

section \<open>Reading\<close>

datatype ReadEnd = EndOfFile | UnexpectedEOF | ReadFailed message

record Reader =
  rd_Bytes :: string
  rd_End :: ReadEnd

record Result =
  rs_Digest :: string
  rs_SizeBytes :: int

fun end_error :: "ReadEnd \<Rightarrow> message option" where
  "end_error EndOfFile = None"
| "end_error UnexpectedEOF = Some [T ''unexpected EOF'']"
| "end_error (ReadFailed err) = Some err"

definition DigestBytes :: "(string \<Rightarrow> string) \<Rightarrow> string \<Rightarrow> string" where
  "DigestBytes sha data = digest_prefix @ sha data"

text \<open>With a positive limit the source is read through \<open>io.LimitReader\<close>; only when exactly
  \<open>maxBytes\<close> were copied is one more byte asked of it.\<close>

definition Copy :: "(string \<Rightarrow> string) \<Rightarrow> Reader \<Rightarrow> int \<Rightarrow> message + string \<times> Result" where
  "Copy sha src maxBytes =
     (let n = int (length (rd_Bytes src));
          result = (rd_Bytes src, \<lparr>rs_Digest = DigestBytes sha (rd_Bytes src), rs_SizeBytes = n\<rparr>)
      in if maxBytes < 0 then Inl [T ''maximum artifact size cannot be negative'']
         else if 0 < maxBytes \<and> maxBytes \<le> n then
           (if maxBytes < n
            then Inl [T ''artifact exceeds maximum size of '', D maxBytes, T '' bytes'']
            else case rd_End src of
                   ReadFailed err \<Rightarrow> Inl (T ''check artifact size: '' # err)
                 | _ \<Rightarrow> Inr result)
         else case end_error (rd_End src) of
                Some err \<Rightarrow> Inl (T ''copy integrity input: '' # err)
              | None \<Rightarrow> Inr result)"

definition VerifyDigest :: "string \<Rightarrow> string \<Rightarrow> message option" where
  "VerifyDigest actual expected =
     (if expected = [] then None
      else first_some
        [ValidateDigest expected,
         fail_if (actual \<noteq> expected) [T ''expected digest '', T expected, T '', computed '', T actual]])"

section \<open>The store\<close>

record PutOptions =
  po_ExpectedDigest :: string
  po_MediaType :: string
  po_LogicalName :: string
  po_MaxBytes :: int

record ArtifactMemory =
  am_blobs :: "(string, string) gomap"
  am_references :: "(string, ArtifactReference) gomap"

definition NewArtifactMemory :: ArtifactMemory where
  "NewArtifactMemory = \<lparr>am_blobs = [], am_references = []\<rparr>"

definition validateReference_store :: "ArtifactReference \<Rightarrow> message option" where
  "validateReference_store r =
     first_some
       [fail_if (ar_Schema r \<noteq> ArtifactSchema) [T ''unexpected artifact schema '', Q (ar_Schema r)],
        ValidateDigest (ar_Digest r),
        fail_if (ar_SizeBytes r < 0) [T ''artifact size cannot be negative''],
        fail_if (blank (ar_MediaType r)) [T ''artifact media type is required'']]"

definition referenceKey ::
  "(string \<Rightarrow> string) \<Rightarrow> (ArtifactReference \<Rightarrow> message + string) \<Rightarrow> ArtifactReference \<Rightarrow> message + string" where
  "referenceKey sha en_ref r =
     (case validateReference_store r of
        Some err \<Rightarrow> Inl err
      | None \<Rightarrow> (case en_ref r of Inl err \<Rightarrow> Inl err | Inr encoded \<Rightarrow> Inr (DigestBytes sha encoded)))"

definition Blob_Put ::
  "(string \<Rightarrow> string) \<Rightarrow> (ArtifactReference \<Rightarrow> message + string) \<Rightarrow> ArtifactMemory \<Rightarrow> Reader \<Rightarrow> PutOptions
   \<Rightarrow> message + ArtifactReference \<times> ArtifactMemory" where
  "Blob_Put sha en_ref s reader options =
     (if po_MediaType options = [] then Inl [T ''media type is required'']
      else if po_MaxBytes options < 0 then Inl [T ''maximum artifact size cannot be negative'']
      else case (if po_ExpectedDigest options = [] then None
                 else ValidateDigest (po_ExpectedDigest options)) of
        Some err \<Rightarrow> Inl err
      | None \<Rightarrow>
          (case Copy sha reader (po_MaxBytes options) of
             Inl err \<Rightarrow> Inl err
           | Inr (data, result) \<Rightarrow>
               (case VerifyDigest (rs_Digest result) (po_ExpectedDigest options) of
                  Some err \<Rightarrow> Inl err
                | None \<Rightarrow>
                    (let digest = rs_Digest result;
                         reference = \<lparr>ar_Schema = ArtifactSchema, ar_Digest = digest,
                                      ar_SizeBytes = rs_SizeBytes result,
                                      ar_MediaType = po_MediaType options,
                                      ar_LogicalName = po_LogicalName options\<rparr>
                     in case referenceKey sha en_ref reference of
                          Inl err \<Rightarrow> Inl err
                        | Inr key \<Rightarrow>
                            (case map_of (am_blobs s) digest of
                               Some existing \<Rightarrow>
                                 if existing \<noteq> data
                                 then Inl [T ''existing artifact failed verification: digest collision'']
                                 else Inr (reference,
                                   s\<lparr>am_references := map_set key reference (am_references s)\<rparr>)
                             | None \<Rightarrow>
                                 Inr (reference,
                                   s\<lparr>am_blobs := map_set digest data (am_blobs s),
                                     am_references := map_set key reference (am_references s)\<rparr>))))))"

definition Blob_Verify :: "(string \<Rightarrow> string) \<Rightarrow> ArtifactMemory \<Rightarrow> string \<Rightarrow> message option" where
  "Blob_Verify sha s digest =
     (case ValidateDigest digest of
        Some err \<Rightarrow> Some err
      | None \<Rightarrow>
          (case map_of (am_blobs s) digest of
             None \<Rightarrow> Some [T ''artifact '', T digest, T '' not found'']
           | Some data \<Rightarrow>
               fail_if (DigestBytes sha data \<noteq> digest)
                 [T ''artifact digest mismatch: got '', T (DigestBytes sha data), T '', want '', T digest]))"

definition Blob_Get :: "(string \<Rightarrow> string) \<Rightarrow> ArtifactMemory \<Rightarrow> string \<Rightarrow> message + string" where
  "Blob_Get sha s digest =
     (case Blob_Verify sha s digest of
        Some err \<Rightarrow> Inl err
      | None \<Rightarrow> Inr (case map_of (am_blobs s) digest of Some data \<Rightarrow> data | None \<Rightarrow> []))"

definition Blob_VerifyReference ::
  "(string \<Rightarrow> string) \<Rightarrow> ArtifactMemory \<Rightarrow> ArtifactReference \<Rightarrow> message option" where
  "Blob_VerifyReference sha s r =
     (if ar_Schema r \<noteq> ArtifactSchema then Some [T ''unexpected artifact schema '', Q (ar_Schema r)]
      else if ar_SizeBytes r < 0 then Some [T ''artifact size cannot be negative'']
      else case Blob_Get sha s (ar_Digest r) of
             Inl err \<Rightarrow> Some err
           | Inr data \<Rightarrow>
               fail_if (int (length data) \<noteq> ar_SizeBytes r)
                 [T ''artifact size mismatch: got '', D (int (length data)), T '', want '', D (ar_SizeBytes r)])"

definition reference_order :: "ArtifactReference \<Rightarrow> string \<times> string \<times> string" where
  "reference_order r = (ar_Digest r, ar_MediaType r, ar_LogicalName r)"

definition Blob_ListReferences :: "ArtifactMemory \<Rightarrow> ArtifactReference list" where
  "Blob_ListReferences s = sort_key reference_order (map snd (am_references s))"

section \<open>What the operations do\<close>

lemma Copy_Inr:
  "Copy sha src maxBytes = Inr (data, result) \<Longrightarrow>
   data = rd_Bytes src \<and> rs_Digest result = DigestBytes sha data \<and>
   rs_SizeBytes result = int (length data) \<and> 0 \<le> maxBytes \<and>
   (0 < maxBytes \<longrightarrow> int (length data) \<le> maxBytes) \<and>
   (rd_End src = EndOfFile \<or> rd_End src = UnexpectedEOF \<and> int (length data) = maxBytes)"
  by (cases "rd_End src") (auto simp: Copy_def Let_def split: if_splits)

lemma Blob_Get_Inr:
  "Blob_Get sha s d = Inr data \<longleftrightarrow>
   valid_digest d \<and> map_of (am_blobs s) d = Some data \<and> DigestBytes sha data = d"
  by (auto simp: Blob_Get_def Blob_Verify_def ValidateDigest_None split: option.splits)
     (auto simp flip: ValidateDigest_None)

lemma Blob_VerifyReference_None:
  "Blob_VerifyReference sha s r = None \<longleftrightarrow>
   ar_Schema r = ArtifactSchema \<and>
   (\<exists>data. Blob_Get sha s (ar_Digest r) = Inr data \<and> int (length data) = ar_SizeBytes r)"
  by (auto simp: Blob_VerifyReference_def split: sum.splits)

definition put_reference :: "(string \<Rightarrow> string) \<Rightarrow> Reader \<Rightarrow> PutOptions \<Rightarrow> ArtifactReference" where
  "put_reference sha reader options =
     \<lparr>ar_Schema = ArtifactSchema, ar_Digest = DigestBytes sha (rd_Bytes reader),
      ar_SizeBytes = int (length (rd_Bytes reader)), ar_MediaType = po_MediaType options,
      ar_LogicalName = po_LogicalName options\<rparr>"

lemma Blob_Put_Inr:
  assumes "Blob_Put sha en_ref s reader options = Inr (reference, s')"
  shows "reference = put_reference sha reader options \<and>
         Copy sha reader (po_MaxBytes options) = Inr (rd_Bytes reader,
           \<lparr>rs_Digest = ar_Digest reference, rs_SizeBytes = ar_SizeBytes reference\<rparr>) \<and>
         (po_ExpectedDigest options = [] \<or> po_ExpectedDigest options = ar_Digest reference) \<and>
         valid_digest (ar_Digest reference) \<and>
         (\<exists>key. referenceKey sha en_ref reference = Inr key \<and>
            am_references s' = map_set key reference (am_references s)) \<and>
         (map_of (am_blobs s) (ar_Digest reference) = Some (rd_Bytes reader) \<and> am_blobs s' = am_blobs s \<or>
          map_of (am_blobs s) (ar_Digest reference) = None \<and>
          am_blobs s' = map_set (ar_Digest reference) (rd_Bytes reader) (am_blobs s))"
proof -
  from assms obtain data result where copy: "Copy sha reader (po_MaxBytes options) = Inr (data, result)"
    by (auto simp: Blob_Put_def split: if_splits option.splits sum.splits)
  note c = Copy_Inr[OF copy]
  have res: "result = \<lparr>rs_Digest = DigestBytes sha data, rs_SizeBytes = int (length data)\<rparr>"
    using c by (cases result) simp
  have valid: "valid_digest (ar_Digest r)" if "referenceKey sha en_ref r = Inr key" for r key
    using that by (auto simp: referenceKey_def validateReference_store_def first_some_Cons_None
        ValidateDigest_None split: option.splits)
  from assms copy c valid show ?thesis unfolding res
    by (auto simp: Blob_Put_def Let_def put_reference_def VerifyDigest_def first_some_Cons_None
        split: if_splits option.splits sum.splits)
qed

section \<open>The contract of a content-addressed store\<close>

definition blob_wf ::
  "(string \<Rightarrow> string) \<Rightarrow> (ArtifactReference \<Rightarrow> message + string) \<Rightarrow> ArtifactMemory \<Rightarrow> bool" where
  "blob_wf sha en_ref s \<longleftrightarrow>
     map_wf (am_blobs s) \<and> map_wf (am_references s) \<and>
     (\<forall>d data. map_of (am_blobs s) d = Some data \<longrightarrow> d = DigestBytes sha data) \<and>
     (\<forall>k r. map_of (am_references s) k = Some r \<longrightarrow>
        referenceKey sha en_ref r = Inr k \<and> Blob_VerifyReference sha s r = None)"

text \<open>The comment of \<open>store.Store\<close>: digest identity is preserved, and both blobs and references
  verify.  \<open>verify\<close> says whether a reference verifies.\<close>

locale content_store =
  fixes wf :: "'s \<Rightarrow> bool"
    and put :: "'s \<Rightarrow> Reader \<Rightarrow> PutOptions \<Rightarrow> message + ArtifactReference \<times> 's"
    and get :: "'s \<Rightarrow> string \<Rightarrow> message + string"
    and verify :: "'s \<Rightarrow> ArtifactReference \<Rightarrow> message option"
  assumes put_wf: "wf s \<Longrightarrow> put s reader options = Inr (r, s') \<Longrightarrow> wf s'"
    and put_get: "wf s \<Longrightarrow> put s reader options = Inr (r, s') \<Longrightarrow>
      get s' (ar_Digest r) = Inr (rd_Bytes reader) \<and> ar_SizeBytes r = int (length (rd_Bytes reader)) \<and>
      ar_Schema r = ArtifactSchema"
    and put_keeps: "wf s \<Longrightarrow> put s reader options = Inr (r, s') \<Longrightarrow>
      get s d = Inr data \<Longrightarrow> get s' d = Inr data"
    and verify_iff: "verify s r = None \<longleftrightarrow> ar_Schema r = ArtifactSchema \<and>
      (\<exists>data. get s (ar_Digest r) = Inr data \<and> int (length data) = ar_SizeBytes r)"
begin

definition put_step :: "'s \<Rightarrow> Reader \<times> PutOptions \<Rightarrow> message + 's" where
  "put_step s x = (case put s (fst x) (snd x) of Inl err \<Rightarrow> Inl err | Inr (r, s') \<Rightarrow> Inr s')"

lemma put_verifies: "wf s \<Longrightarrow> put s reader options = Inr (r, s') \<Longrightarrow> verify s' r = None"
  unfolding verify_iff using put_get[of s reader options r s'] by simp

lemma verify_kept:
  "wf s \<Longrightarrow> put s reader options = Inr (r, s') \<Longrightarrow> verify s q = None \<Longrightarrow> verify s' q = None"
  unfolding verify_iff using put_keeps[of s reader options r s' "ar_Digest q"] by blast

lemma run_verifies:
  assumes "wf s" "verify s q = None"
  shows "wf (attempt_all put_step s xs) \<and> verify (attempt_all put_step s xs) q = None"
proof (rule attempt_all_invariant)
  fix t x t' assume t: "wf t \<and> verify t q = None" and "put_step t x = Inr t'"
  then obtain r where "put t (fst x) (snd x) = Inr (r, t')"
    by (auto simp: put_step_def split: sum.splits)
  with t show "wf t' \<and> verify t' q = None" using put_wf verify_kept by metis
qed (use assms in simp)

end

lemma Blob_Put_keeps:
  assumes "Blob_Put sha en_ref s reader options = Inr (r, s')" "map_of (am_blobs s) d = Some data"
  shows "map_of (am_blobs s') d = Some data"
  using Blob_Put_Inr[OF assms(1)] assms(2) by auto

lemma Blob_Put_stored:
  assumes "Blob_Put sha en_ref s reader options = Inr (r, s')"
  shows "map_of (am_blobs s') (ar_Digest r) = Some (rd_Bytes reader) \<and>
         ar_Digest r = DigestBytes sha (rd_Bytes reader)"
  using Blob_Put_Inr[OF assms] by (auto simp: put_reference_def)

lemma Blob_verify_kept:
  assumes "Blob_Put sha en_ref s reader options = Inr (r, s')" "Blob_VerifyReference sha s q = None"
  shows "Blob_VerifyReference sha s' q = None"
  using assms Blob_Put_keeps[OF assms(1)] unfolding Blob_VerifyReference_None Blob_Get_Inr by blast

lemma Blob_Put_verifies:
  assumes "Blob_Put sha en_ref s reader options = Inr (r, s')"
  shows "Blob_VerifyReference sha s' r = None"
  using Blob_Put_stored[OF assms] Blob_Put_Inr[OF assms]
  unfolding Blob_VerifyReference_None Blob_Get_Inr by (auto simp: put_reference_def)

lemma blob_wf_New: "blob_wf sha en_ref NewArtifactMemory"
  by (simp add: blob_wf_def NewArtifactMemory_def)

lemma blob_wf_Put:
  assumes wf: "blob_wf sha en_ref s" and put: "Blob_Put sha en_ref s reader options = Inr (r, s')"
  shows "blob_wf sha en_ref s'"
proof -
  note p = Blob_Put_Inr[OF put]
  from p obtain key where key: "referenceKey sha en_ref r = Inr key"
    "am_references s' = map_set key r (am_references s)" by blast
  from wf have old: "map_of (am_blobs s) d = Some data \<Longrightarrow> d = DigestBytes sha data" for d data
    unfolding blob_wf_def by blast
  have "d = DigestBytes sha data" if "map_of (am_blobs s') d = Some data" for d data
  proof (cases "am_blobs s' = am_blobs s")
    case True
    with that old show ?thesis by simp
  next
    case False
    with p that show ?thesis
      by (cases "d = ar_Digest r") (auto simp: put_reference_def intro: old)
  qed
  moreover have "referenceKey sha en_ref q = Inr k \<and> Blob_VerifyReference sha s' q = None"
    if "map_of (am_references s') k = Some q" for k q
  proof (cases "k = key")
    case True
    with that key Blob_Put_verifies[OF put] show ?thesis by simp
  next
    case False
    with that key have "map_of (am_references s) k = Some q" by simp
    with wf have "referenceKey sha en_ref q = Inr k" "Blob_VerifyReference sha s q = None"
      unfolding blob_wf_def by blast+
    with Blob_verify_kept[OF put] show ?thesis by simp
  qed
  moreover have "map_wf (am_blobs s')" "map_wf (am_references s')"
    using wf p key by (auto simp: blob_wf_def)
  ultimately show ?thesis by (simp add: blob_wf_def)
qed

interpretation blobs: content_store "blob_wf sha en_ref" "Blob_Put sha en_ref" "Blob_Get sha"
    "Blob_VerifyReference sha" for sha en_ref
proof
  fix s reader options r s' d data
  assume wf: "blob_wf sha en_ref s" and put: "Blob_Put sha en_ref s reader options = Inr (r, s')"
  show "blob_wf sha en_ref s'" using blob_wf_Put[OF wf put] .
  show "Blob_Get sha s' (ar_Digest r) = Inr (rd_Bytes reader) \<and>
        ar_SizeBytes r = int (length (rd_Bytes reader)) \<and> ar_Schema r = ArtifactSchema"
    using Blob_Put_stored[OF put] Blob_Put_Inr[OF put]
    by (auto simp: Blob_Get_Inr put_reference_def)
  show "Blob_Get sha s' d = Inr data" if "Blob_Get sha s d = Inr data"
    using that Blob_Put_keeps[OF put] by (simp add: Blob_Get_Inr)
qed (rule Blob_VerifyReference_None)

end
