(* ===== verification/LockwoodStore.thy ===== *)
theory LockwoodStore
  imports LockwoodTypes "HOL-Library.Product_Lexorder" "HOL-Library.Multiset"
begin

text \<open>
  lockwood/internal/custody/memory.go and events_memory.go, with the canonical encodings of
  serialization.go and handling_event.go: the process-local store of custody records and
  handling events.  Every method runs under the store's locks, so a call is one step on the
  state.  \<open>json.Marshal\<close> of a record and of an event is an argument (\<open>Encoding\<close>), nothing is
  assumed of it.  The interfaces \<open>RecordStore\<close> and \<open>HandlingEventStore\<close> of record.go are
  locales with the laws their comments promise, interpreted on this store.
\<close>

section \<open>State and encodings\<close>

record Encoding =
  en_uri_ok :: "string \<Rightarrow> bool"
  en_record :: "CustodyRecord \<Rightarrow> message + string"
  en_event :: "HandlingEvent \<Rightarrow> message + string"

record Memory =
  mem_records :: "(string, CustodyRecord) gomap"
  mem_events :: "(string, (string, HandlingEvent) gomap) gomap"

definition NewMemory :: Memory where
  "NewMemory = \<lparr>mem_records = [], mem_events = []\<rparr>"

definition normalizeRecord :: "CustodyRecord \<Rightarrow> CustodyRecord" where
  "normalizeRecord r = (if cu_Parents r = None then r\<lparr>cu_Parents := Some []\<rparr> else r)"

definition MarshalCanonical :: "Encoding \<Rightarrow> CustodyRecord \<Rightarrow> message + string" where
  "MarshalCanonical en r =
     (case Record_Validate (en_uri_ok en) (normalizeRecord r) of
        Some err \<Rightarrow> Inl err | None \<Rightarrow> en_record en (normalizeRecord r))"

definition utc_event :: "HandlingEvent \<Rightarrow> HandlingEvent" where
  "utc_event e = e\<lparr>he_RecordedAt := UTC (he_RecordedAt e)\<rparr>"

definition MarshalCanonicalHandlingEvent :: "Encoding \<Rightarrow> HandlingEvent \<Rightarrow> message + string" where
  "MarshalCanonicalHandlingEvent en e =
     (case HandlingEvent_Validate (utc_event e) of
        Some err \<Rightarrow> Inl err | None \<Rightarrow> en_event en (utc_event e))"

lemma normalizeRecord_simps [simp]:
  "cu_CustodyID (normalizeRecord r) = cu_CustodyID r" "cu_Status (normalizeRecord r) = cu_Status r"
  "cu_Artifact (normalizeRecord r) = cu_Artifact r"
  "normalizeRecord (normalizeRecord r) = normalizeRecord r" "cu_Parents (normalizeRecord r) \<noteq> None"
  by (simp_all add: normalizeRecord_def)

lemma utc_event_simps [simp]:
  "he_EventID (utc_event e) = he_EventID e" "he_CustodyID (utc_event e) = he_CustodyID e"
  "he_Type (utc_event e) = he_Type e" "he_LegalHoldID (utc_event e) = he_LegalHoldID e"
  "he_OriginalDigest (utc_event e) = he_OriginalDigest e"
  "he_ResultingDigest (utc_event e) = he_ResultingDigest e"
  "instant_at (he_RecordedAt (utc_event e)) = instant_at (he_RecordedAt e)"
  "utc_event (utc_event e) = utc_event e"
  by (simp_all add: utc_event_def)

section \<open>Records\<close>

definition Memory_Put :: "Encoding \<Rightarrow> Memory \<Rightarrow> CustodyRecord \<Rightarrow> message + Memory" where
  "Memory_Put en s r =
     (let r = normalizeRecord r in
      case MarshalCanonical en r of
        Inl err \<Rightarrow> Inl (T ''encode custody record: '' # err)
      | Inr encoded \<Rightarrow>
          (case map_of (mem_records s) (cu_CustodyID r) of
             Some existing \<Rightarrow>
               (case MarshalCanonical en existing of
                  Inl err \<Rightarrow> Inl (T ''encode existing custody record: '' # err)
                | Inr existingEncoded \<Rightarrow>
                    if existingEncoded = encoded then Inr s
                    else Inl [T ''custody record '', Q (cu_CustodyID r),
                              T '' already exists with different contents''])
           | None \<Rightarrow> Inr (s\<lparr>mem_records := map_set (cu_CustodyID r) r (mem_records s)\<rparr>)))"

definition Memory_Get :: "Memory \<Rightarrow> string \<Rightarrow> message + CustodyRecord" where
  "Memory_Get s i =
     (if \<not> custodyIDPattern i then Inl [T ''invalid custody id '', Q i]
      else case map_of (mem_records s) i of
             None \<Rightarrow> Inl [T ''custody record '', Q i, T '' not found'']
           | Some r \<Rightarrow> Inr r)"

definition Memory_List :: "Memory \<Rightarrow> CustodyRecord list" where
  "Memory_List s =
     map (\<lambda>i. the (map_of (mem_records s) i)) (sort (map fst (mem_records s)))"

section \<open>Handling events\<close>

definition events_of :: "Memory \<Rightarrow> string \<Rightarrow> (string, HandlingEvent) gomap" where
  "events_of s c = (case map_of (mem_events s) c of Some m \<Rightarrow> m | None \<Rightarrow> [])"

definition Memory_appendHandlingEvent :: "Encoding \<Rightarrow> Memory \<Rightarrow> HandlingEvent \<Rightarrow> message + Memory" where
  "Memory_appendHandlingEvent en s e =
     (let e = utc_event e; c = he_CustodyID e in
      case MarshalCanonicalHandlingEvent en e of
        Inl err \<Rightarrow> Inl (T ''encode handling event: '' # err)
      | Inr encoded \<Rightarrow>
          (case map_of (events_of s c) (he_EventID e) of
             Some existing \<Rightarrow>
               (case MarshalCanonicalHandlingEvent en existing of
                  Inl err \<Rightarrow> Inl (T ''encode existing handling event: '' # err)
                | Inr existingEncoded \<Rightarrow>
                    if existingEncoded = encoded then Inr s
                    else Inl [T ''handling event '', Q (he_EventID e), T '' for custody record '', Q c,
                              T '' already exists with different contents''])
           | None \<Rightarrow>
               Inr (s\<lparr>mem_events := map_set c (map_set (he_EventID e) e (events_of s c))
                                     (mem_events s)\<rparr>)))"

definition Memory_AppendEvent :: "Encoding \<Rightarrow> Memory \<Rightarrow> HandlingEvent \<Rightarrow> message + Memory" where
  "Memory_AppendEvent en s e =
     (if \<not> custodyIDPattern (he_CustodyID e)
      then Inl [T ''invalid handling event custody id '', Q (he_CustodyID e)]
      else Memory_appendHandlingEvent en s e)"

definition Memory_GetEvent :: "Memory \<Rightarrow> string \<Rightarrow> string \<Rightarrow> message + HandlingEvent" where
  "Memory_GetEvent s c i =
     (if \<not> custodyIDPattern c then Inl [T ''invalid handling event custody id '', Q c]
      else if \<not> eventIDPattern i then Inl [T ''invalid handling event id '', Q i]
      else case map_of (events_of s c) i of
             None \<Rightarrow> Inl [T ''handling event '', Q i, T '' for custody record '', Q c, T '' not found'']
           | Some e \<Rightarrow> Inr e)"

definition event_key :: "HandlingEvent \<Rightarrow> instant \<times> string" where
  "event_key e = (instant_at (he_RecordedAt e), he_EventID e)"

definition Memory_ListEvents :: "Memory \<Rightarrow> string \<Rightarrow> message + HandlingEvent list" where
  "Memory_ListEvents s c =
     (if \<not> custodyIDPattern c then Inl [T ''invalid handling event custody id '', Q c]
      else Inr (sort_key event_key (map snd (events_of s c))))"

section \<open>The invariant of the store\<close>

definition record_entry :: "Encoding \<Rightarrow> string \<Rightarrow> CustodyRecord \<Rightarrow> bool" where
  "record_entry en i r \<longleftrightarrow>
     cu_CustodyID r = i \<and> Record_Validate (en_uri_ok en) r = None \<and> normalizeRecord r = r"

definition event_entry :: "string \<Rightarrow> string \<Rightarrow> HandlingEvent \<Rightarrow> bool" where
  "event_entry c i e \<longleftrightarrow>
     he_CustodyID e = c \<and> he_EventID e = i \<and> HandlingEvent_Validate e = None \<and> utc_event e = e"

definition mem_wf :: "Encoding \<Rightarrow> Memory \<Rightarrow> bool" where
  "mem_wf en s \<longleftrightarrow>
     map_wf (mem_records s) \<and>
     (\<forall>i r. map_of (mem_records s) i = Some r \<longrightarrow> record_entry en i r) \<and>
     (\<forall>c. map_wf (events_of s c)) \<and>
     (\<forall>c i e. map_of (events_of s c) i = Some e \<longrightarrow> event_entry c i e)"

lemma events_of_set [simp]:
  "events_of (s\<lparr>mem_events := map_set c m (mem_events s)\<rparr>) d = (if d = c then m else events_of s d)"
  by (simp add: events_of_def)

lemma events_of_records [simp]: "events_of (s\<lparr>mem_records := m\<rparr>) c = events_of s c"
  by (simp add: events_of_def)

lemma MarshalCanonical_Inr:
  "MarshalCanonical en r = Inr x \<Longrightarrow> Record_Validate (en_uri_ok en) (normalizeRecord r) = None"
  by (simp add: MarshalCanonical_def split: option.splits)

lemma MarshalEvent_Inr:
  "MarshalCanonicalHandlingEvent en e = Inr x \<Longrightarrow> HandlingEvent_Validate (utc_event e) = None"
  by (simp add: MarshalCanonicalHandlingEvent_def split: option.splits)

lemma mem_wf_New: "mem_wf en NewMemory"
  by (simp add: mem_wf_def NewMemory_def events_of_def)

lemma Memory_Put_cases:
  assumes "Memory_Put en s r = Inr s'"
  obtains (same) q where "s' = s" "map_of (mem_records s) (cu_CustodyID r) = Some q"
      "MarshalCanonical en q = MarshalCanonical en r"
      "Record_Validate (en_uri_ok en) (normalizeRecord r) = None"
    | (new) "map_of (mem_records s) (cu_CustodyID r) = None"
      "s' = s\<lparr>mem_records := map_set (cu_CustodyID r) (normalizeRecord r) (mem_records s)\<rparr>"
      "Record_Validate (en_uri_ok en) (normalizeRecord r) = None"
proof -
  have n: "MarshalCanonical en (normalizeRecord r) = MarshalCanonical en r"
    by (simp add: MarshalCanonical_def split: option.split)
  from assms obtain x where x: "MarshalCanonical en r = Inr x"
    by (auto simp: Memory_Put_def Let_def n split: sum.splits)
  from MarshalCanonical_Inr[OF x] assms x show ?thesis
    by (cases "map_of (mem_records s) (cu_CustodyID r)")
       (auto simp: Memory_Put_def Let_def n split: sum.splits if_splits intro: that)
qed

lemma Memory_append_cases:
  assumes "Memory_appendHandlingEvent en s e = Inr s'"
  obtains (same) q where "s' = s" "map_of (events_of s (he_CustodyID e)) (he_EventID e) = Some q"
      "MarshalCanonicalHandlingEvent en q = MarshalCanonicalHandlingEvent en e"
      "HandlingEvent_Validate (utc_event e) = None"
    | (new) "map_of (events_of s (he_CustodyID e)) (he_EventID e) = None"
      "s' = s\<lparr>mem_events := map_set (he_CustodyID e)
               (map_set (he_EventID e) (utc_event e) (events_of s (he_CustodyID e))) (mem_events s)\<rparr>"
      "HandlingEvent_Validate (utc_event e) = None"
proof -
  have n: "MarshalCanonicalHandlingEvent en (utc_event e) = MarshalCanonicalHandlingEvent en e"
    by (simp add: MarshalCanonicalHandlingEvent_def split: option.split)
  from assms obtain x where x: "MarshalCanonicalHandlingEvent en e = Inr x"
    by (auto simp: Memory_appendHandlingEvent_def Let_def n split: sum.splits)
  from MarshalEvent_Inr[OF x] assms x show ?thesis
    by (cases "map_of (events_of s (he_CustodyID e)) (he_EventID e)")
       (auto simp: Memory_appendHandlingEvent_def Let_def n split: sum.splits if_splits intro: that)
qed

lemma mem_wf_Put:
  assumes wf: "mem_wf en s" and put: "Memory_Put en s r = Inr s'"
  shows "mem_wf en s'"
  using put
proof (cases rule: Memory_Put_cases)
  case same
  with wf show ?thesis by simp
next
  case new
  then have "record_entry en (cu_CustodyID r) (normalizeRecord r)" by (simp add: record_entry_def)
  with wf new show ?thesis by (auto simp: mem_wf_def)
qed

lemma mem_wf_append:
  assumes wf: "mem_wf en s" and app: "Memory_appendHandlingEvent en s e = Inr s'"
  shows "mem_wf en s'"
  using app
proof (cases rule: Memory_append_cases)
  case same
  with wf show ?thesis by simp
next
  case new
  then have "event_entry (he_CustodyID e) (he_EventID e) (utc_event e)" by (simp add: event_entry_def)
  with wf new show ?thesis by (auto simp: mem_wf_def)
qed

lemma mem_wf_AppendEvent: "mem_wf en s \<Longrightarrow> Memory_AppendEvent en s e = Inr s' \<Longrightarrow> mem_wf en s'"
  by (auto simp: Memory_AppendEvent_def intro: mem_wf_append split: if_splits)

lemma stored_id:
  "mem_wf en s \<Longrightarrow> map_of (mem_records s) i = Some q \<Longrightarrow> cu_CustodyID q = i"
  by (auto simp: mem_wf_def record_entry_def)

lemma key_Some: "i \<in> fst ` set m \<longleftrightarrow> (\<exists>q. map_of m i = Some q)"
  by (metis domIff dom_map_of_conv_image_fst not_None_eq)

lemma Memory_List_set:
  assumes "mem_wf en s"
  shows "r \<in> set (Memory_List s) \<longleftrightarrow> map_of (mem_records s) (cu_CustodyID r) = Some r"
proof
  assume "r \<in> set (Memory_List s)"
  then obtain i where i: "i \<in> fst ` set (mem_records s)" "r = the (map_of (mem_records s) i)"
    unfolding Memory_List_def by auto
  then obtain q where "map_of (mem_records s) i = Some q" unfolding key_Some by blast
  with i(2) have "map_of (mem_records s) i = Some r" by simp
  with stored_id[OF assms] show "map_of (mem_records s) (cu_CustodyID r) = Some r" by blast
next
  assume r: "map_of (mem_records s) (cu_CustodyID r) = Some r"
  then have "cu_CustodyID r \<in> set (sort (map fst (mem_records s)))" by (simp add: key_Some)
  with r show "r \<in> set (Memory_List s)" unfolding Memory_List_def by force
qed

lemma Memory_List_ids:
  assumes "mem_wf en s"
  shows "map cu_CustodyID (Memory_List s) = sort (map fst (mem_records s))"
proof -
  have "cu_CustodyID (the (map_of (mem_records s) i)) = i" if "i \<in> fst ` set (mem_records s)" for i
    using that stored_id[OF assms] by (auto simp: key_Some)
  then show ?thesis unfolding Memory_List_def map_map by (intro map_idI) simp
qed

lemma Memory_events_set:
  assumes "mem_wf en s" "Memory_ListEvents s c = Inr es"
  shows "e \<in> set es \<longleftrightarrow> map_of (events_of s c) (he_EventID e) = Some e"
proof -
  have wf: "distinct (map fst (events_of s c))" and ids: "map_of (events_of s c) i = Some d \<Longrightarrow> he_EventID d = i" for i d
    using assms(1) by (auto simp: mem_wf_def map_wf_def event_entry_def)
  have "e \<in> set es \<longleftrightarrow> (\<exists>i. (i, e) \<in> set (events_of s c))"
    using assms(2) by (force simp: Memory_ListEvents_def split: if_splits)
  also have "\<dots> \<longleftrightarrow> (\<exists>i. map_of (events_of s c) i = Some e)" using wf by simp
  finally show ?thesis using ids by blast
qed

section \<open>The interfaces and their laws\<close>

text \<open>\<open>RecordStore\<close>: a stored record is never replaced or lost, a record that was put is found
  in a form with the same canonical encoding, and the listing holds exactly what can be got.\<close>

locale record_store =
  fixes wf :: "'s \<Rightarrow> bool"
    and put :: "'s \<Rightarrow> CustodyRecord \<Rightarrow> message + 's"
    and get :: "'s \<Rightarrow> string \<Rightarrow> message + CustodyRecord"
    and listing :: "'s \<Rightarrow> CustodyRecord list"
    and encode :: "CustodyRecord \<Rightarrow> message + string"
  assumes put_wf: "wf s \<Longrightarrow> put s r = Inr s' \<Longrightarrow> wf s'"
    and put_get: "wf s \<Longrightarrow> put s r = Inr s' \<Longrightarrow>
      \<exists>q. get s' (cu_CustodyID r) = Inr q \<and> encode q = encode r"
    and put_keeps: "wf s \<Longrightarrow> put s r = Inr s' \<Longrightarrow> get s i = Inr q \<Longrightarrow> get s' i = Inr q"
    and put_same: "wf s \<Longrightarrow> get s (cu_CustodyID r) = Inr q \<Longrightarrow> encode q \<noteq> encode r \<Longrightarrow>
      \<exists>err. put s r = Inl err"
    and listing_get: "wf s \<Longrightarrow> q \<in> set (listing s) \<longleftrightarrow> get s (cu_CustodyID q) = Inr q"
begin

lemma run_wf: "wf s \<Longrightarrow> wf (attempt_all put s rs)"
  by (rule attempt_all_invariant) (auto intro: put_wf)

lemma run_keeps:
  assumes "wf s" "get s i = Inr q"
  shows "get (attempt_all put s rs) i = Inr q"
proof -
  have "wf (attempt_all put s rs) \<and> get (attempt_all put s rs) i = Inr q"
    by (rule attempt_all_invariant) (use assms put_wf put_keeps in blast)+
  then show ?thesis ..
qed

lemma run_listing: "wf s \<Longrightarrow> set (listing s) \<subseteq> set (listing (attempt_all put s rs))"
  by (auto simp: listing_get run_wf intro: run_keeps)

end

text \<open>\<open>HandlingEventStore\<close>: append-only, and listed by time and event ID.\<close>

locale event_store =
  fixes wf :: "'s \<Rightarrow> bool"
    and append_event :: "'s \<Rightarrow> HandlingEvent \<Rightarrow> message + 's"
    and list_events :: "'s \<Rightarrow> string \<Rightarrow> message + HandlingEvent list"
  assumes append_wf: "wf s \<Longrightarrow> append_event s e = Inr s' \<Longrightarrow> wf s'"
    and append_list: "wf s \<Longrightarrow> append_event s e = Inr s' \<Longrightarrow> list_events s c = Inr es \<Longrightarrow>
      \<exists>es'. list_events s' c = Inr es' \<and> set es \<subseteq> set es' \<and>
        set es' \<subseteq> insert (utc_event e) (set es) \<and> (c \<noteq> he_CustodyID e \<longrightarrow> es' = es)"
    and listed: "wf s \<Longrightarrow> list_events s c = Inr es \<Longrightarrow>
      sorted (map event_key es) \<and> distinct (map he_EventID es) \<and>
      (\<forall>e \<in> set es. he_CustodyID e = c \<and> HandlingEvent_Validate e = None)"
begin

lemma history_kept:
  assumes "wf s" "list_events s c = Inr es"
  shows "\<exists>es'. list_events (attempt_all append_event s xs) c = Inr es' \<and> set es \<subseteq> set es'"
proof -
  let ?P = "\<lambda>s. wf s \<and> (\<exists>es'. list_events s c = Inr es' \<and> set es \<subseteq> set es')"
  have "?P (attempt_all append_event s xs)"
  proof (rule attempt_all_invariant)
    fix s x s' assume "?P s" "append_event s x = Inr s'"
    then show "?P s'" by (meson append_list append_wf order_trans)
  qed (use assms in auto)
  then show ?thesis by blast
qed

end

lemma Memory_Get_Inr: "Memory_Get s i = Inr r \<longleftrightarrow> custodyIDPattern i \<and> map_of (mem_records s) i = Some r"
  by (auto simp: Memory_Get_def split: option.splits)

lemma encode_stored:
  "mem_wf en s \<Longrightarrow> map_of (mem_records s) i = Some q \<Longrightarrow>
   Record_Validate (en_uri_ok en) q = None \<and> custodyIDPattern i"
  by (auto simp: mem_wf_def record_entry_def dest: Record_Validate_id)

interpretation memory_records: record_store "mem_wf en" "Memory_Put en" Memory_Get Memory_List
    "MarshalCanonical en" for en
proof
  fix s r s' i q
  assume wf: "mem_wf en s"
  show "mem_wf en s'" if "Memory_Put en s r = Inr s'" using mem_wf_Put[OF wf that] .
  show "\<exists>q. Memory_Get s' (cu_CustodyID r) = Inr q \<and> MarshalCanonical en q = MarshalCanonical en r"
    if "Memory_Put en s r = Inr s'"
    using that
  proof (cases rule: Memory_Put_cases)
    case (same q)
    with encode_stored[OF wf] show ?thesis by (auto simp: Memory_Get_Inr)
  next
    case new
    then show ?thesis
      by (auto simp: Memory_Get_Inr MarshalCanonical_def dest: Record_Validate_id split: option.split)
  qed
  show "Memory_Get s' i = Inr q" if "Memory_Put en s r = Inr s'" "Memory_Get s i = Inr q"
    using that(1) by (cases rule: Memory_Put_cases) (use that(2) in \<open>auto simp: Memory_Get_Inr\<close>)
  show "\<exists>err. Memory_Put en s r = Inl err"
    if "Memory_Get s (cu_CustodyID r) = Inr q" "MarshalCanonical en q \<noteq> MarshalCanonical en r"
  proof (cases "Memory_Put en s r")
    case (Inr s'')
    then show ?thesis by (cases rule: Memory_Put_cases) (use that in \<open>auto simp: Memory_Get_Inr\<close>)
  qed simp
  show "q \<in> set (Memory_List s) \<longleftrightarrow> Memory_Get s (cu_CustodyID q) = Inr q"
    using Memory_List_set[OF wf] encode_stored[OF wf] by (auto simp: Memory_Get_Inr)
qed

lemma Memory_append_list:
  assumes wf: "mem_wf en s" and app: "Memory_appendHandlingEvent en s e = Inr s'"
    and es: "Memory_ListEvents s c = Inr es"
  shows "\<exists>es'. Memory_ListEvents s' c = Inr es' \<and> set es \<subseteq> set es' \<and>
           set es' \<subseteq> insert (utc_event e) (set es) \<and> (c \<noteq> he_CustodyID e \<longrightarrow> es' = es)"
proof -
  have wf': "mem_wf en s'" using mem_wf_append[OF wf app] .
  from es have "custodyIDPattern c" by (simp add: Memory_ListEvents_def split: if_splits)
  then obtain es' where es': "Memory_ListEvents s' c = Inr es'" by (simp add: Memory_ListEvents_def)
  note mem = Memory_events_set[OF wf es] Memory_events_set[OF wf' es']
  from app show ?thesis
  proof (cases rule: Memory_append_cases)
    case same
    with es show ?thesis by blast
  next
    case new
    show ?thesis
    proof (cases "c = he_CustodyID e")
      case True
      have "set es \<subseteq> set es'"
      proof
        fix d assume "d \<in> set es"
        with mem(1) new(1) True have "map_of (events_of s c) (he_EventID d) = Some d" "he_EventID d \<noteq> he_EventID e"
          by auto
        with mem(2) new(2) True show "d \<in> set es'" by simp
      qed
      moreover have "set es' \<subseteq> insert (utc_event e) (set es)"
      proof
        fix d assume "d \<in> set es'"
        with mem new(2) True show "d \<in> insert (utc_event e) (set es)"
          by (cases "he_EventID d = he_EventID e") auto
      qed
      ultimately show ?thesis using es' True by blast
    next
      case False
      with new(2) have "events_of s' c = events_of s c" by simp
      with es have "Memory_ListEvents s' c = Inr es" by (simp add: Memory_ListEvents_def split: if_splits)
      with False show ?thesis by blast
    qed
  qed
qed

lemma Memory_listed:
  assumes wf: "mem_wf en s" and es: "Memory_ListEvents s c = Inr es"
  shows "sorted (map event_key es) \<and> distinct (map he_EventID es) \<and>
         (\<forall>e \<in> set es. he_CustodyID e = c \<and> HandlingEvent_Validate e = None \<and> utc_event e = e)"
proof -
  from wf have d: "distinct (map fst (events_of s c))"
    and ent: "map_of (events_of s c) i = Some e \<Longrightarrow> event_entry c i e" for i e
    by (auto simp: mem_wf_def map_wf_def)
  from es have eq: "es = sort_key event_key (map snd (events_of s c))"
    by (simp add: Memory_ListEvents_def split: if_splits)
  have ids: "map he_EventID (map snd (events_of s c)) = map fst (events_of s c)"
    using ent d by (auto simp: event_entry_def)
  have "distinct (map he_EventID es)"
  proof -
    have "mset (map he_EventID es) = mset (map he_EventID (map snd (events_of s c)))"
      by (simp only: eq mset_map mset_sort)
    with ids d show ?thesis by (metis mset_eq_imp_distinct_iff)
  qed
  moreover have "\<forall>e \<in> set es. event_entry c (he_EventID e) e"
    using Memory_events_set[OF wf es] ent by blast
  ultimately show ?thesis by (auto simp: eq event_entry_def)
qed

interpretation memory_events: event_store "mem_wf en" "Memory_AppendEvent en" Memory_ListEvents for en
proof
  fix s e s' c es
  assume wf: "mem_wf en s"
  show "mem_wf en s'" if "Memory_AppendEvent en s e = Inr s'" using mem_wf_AppendEvent[OF wf that] .
  show "\<exists>es'. Memory_ListEvents s' c = Inr es' \<and> set es \<subseteq> set es' \<and>
         set es' \<subseteq> insert (utc_event e) (set es) \<and> (c \<noteq> he_CustodyID e \<longrightarrow> es' = es)"
    if "Memory_AppendEvent en s e = Inr s'" "Memory_ListEvents s c = Inr es"
    using Memory_append_list[OF wf _ that(2)] that(1) by (simp add: Memory_AppendEvent_def split: if_splits)
  show "sorted (map event_key es) \<and> distinct (map he_EventID es) \<and>
         (\<forall>e \<in> set es. he_CustodyID e = c \<and> HandlingEvent_Validate e = None)"
    if "Memory_ListEvents s c = Inr es"
    using Memory_listed[OF wf that] by blast
qed

end
