(* ===== verification/LockwoodHandling.thy ===== *)
theory LockwoodHandling
  imports LockwoodStore
begin

text \<open>
  lockwood/internal/custody/handling_status.go, handling_guard.go and redaction.go: the
  projection of a record's handling events, the legal-hold guard and the registration of a
  redaction.  The functions take the interfaces they are given as arguments: \<open>get\<close> and
  \<open>listEvents\<close> read the stores, \<open>publish\<close> publishes an event while the per-custody lock is
  held, \<open>verify\<close> is \<open>store.Store.Verify\<close> and \<open>digest\<close> is \<open>HandlingEventDigest\<close>.  The whole of
  \<open>registerRedactionLocked\<close> runs under the lock of its custody ID, so it is one step.
\<close>

section \<open>The projection\<close>

record HandlingRedaction =
  hr_EventID :: string
  hr_RecordedAt :: stamp
  hr_OriginalDigest :: string
  hr_ResultingDigest :: string

record HandlingStatus =
  hs_CustodyID :: string
  hs_ArtifactDigest :: string
  hs_EventCount :: nat
  hs_LastEventAt :: "stamp option"
  hs_Redaction :: string
  hs_RetentionClass :: string
  hs_ActiveLegalHoldIDs :: "string list"
  hs_Redactions :: "HandlingRedaction list"

definition redaction_of :: "HandlingEvent \<Rightarrow> HandlingRedaction" where
  "redaction_of e =
     \<lparr>hr_EventID = he_EventID e, hr_RecordedAt = he_RecordedAt e,
      hr_OriginalDigest = he_OriginalDigest e, hr_ResultingDigest = he_ResultingDigest e\<rparr>"

definition later_event :: "stamp option \<Rightarrow> stamp \<Rightarrow> stamp option" where
  "later_event prev at =
     (case prev of
        None \<Rightarrow> Some at
      | Some t \<Rightarrow> if instant_at t < instant_at at then Some at else Some t)"

fun handling_loop ::
  "string \<Rightarrow> HandlingStatus \<Rightarrow> string list \<Rightarrow> HandlingEvent list
   \<Rightarrow> message + HandlingStatus \<times> string list" where
  "handling_loop c st holds [] = Inr (st, holds)"
| "handling_loop c st holds (e # es) =
     (if he_CustodyID e \<noteq> c
      then Inl [T ''handling event '', Q (he_EventID e), T '' targets custody record '', Q (he_CustodyID e)]
      else
        let st = st\<lparr>hs_LastEventAt := later_event (hs_LastEventAt st) (he_RecordedAt e)\<rparr> in
        if he_Type e = RedactionEvent then
          handling_loop c (st\<lparr>hs_Redaction := ''redacted'',
                             hs_Redactions := hs_Redactions st @ [redaction_of e]\<rparr>) holds es
        else if he_Type e = RetentionClassifiedEvent then
          handling_loop c (st\<lparr>hs_RetentionClass := he_RetentionClass e\<rparr>) holds es
        else if he_Type e = LegalHoldPlacedEvent then
          handling_loop c st (List.insert (he_LegalHoldID e) holds) es
        else if he_Type e = LegalHoldReleasedEvent then
          handling_loop c st (removeAll (he_LegalHoldID e) holds) es
        else Inl [T ''unsupported handling event type '', Q (he_Type e)])"

definition AnalyzeHandling ::
  "(string \<Rightarrow> bool) \<Rightarrow> (string \<Rightarrow> message + CustodyRecord) \<Rightarrow> (string \<Rightarrow> message + HandlingEvent list)
   \<Rightarrow> CustodyRecord \<Rightarrow> message + HandlingStatus" where
  "AnalyzeHandling uri_ok get listEvents r =
     (case Record_Validate uri_ok r of
        Some err \<Rightarrow> Inl (T ''validate handling root: '' # err)
      | None \<Rightarrow>
          (case get (cu_CustodyID r) of
             Inl err \<Rightarrow> Inl (T ''load handling root: '' # err)
           | Inr stored \<Rightarrow>
               if cu_CustodyID stored \<noteq> cu_CustodyID r
               then Inl [T ''handling root custody ID does not match requested record'']
               else
                 (case listEvents (cu_CustodyID r) of
                    Inl err \<Rightarrow> Inl err
                  | Inr items \<Rightarrow>
                      (case handling_loop (cu_CustodyID r)
                              \<lparr>hs_CustodyID = cu_CustodyID r,
                               hs_ArtifactDigest = ar_Digest (cu_Artifact r),
                               hs_EventCount = length items, hs_LastEventAt = None,
                               hs_Redaction = ha_Redaction (cu_Handling r),
                               hs_RetentionClass = ha_RetentionClass (cu_Handling r),
                               hs_ActiveLegalHoldIDs = [], hs_Redactions = []\<rparr> [] items of
                         Inl err \<Rightarrow> Inl err
                       | Inr (st, holds) \<Rightarrow> Inr (st\<lparr>hs_ActiveLegalHoldIDs := sort holds\<rparr>)))))"

section \<open>The guard\<close>

abbreviation RedactAction :: string where "RedactAction \<equiv> ''redact''"
abbreviation DeleteAction :: string where "DeleteAction \<equiv> ''delete''"
abbreviation HandlingBlocked :: string where "HandlingBlocked \<equiv> ''blocked''"
abbreviation HandlingNotBlocked :: string where "HandlingNotBlocked \<equiv> ''not-blocked''"

record HandlingGuardDecision =
  hg_CustodyID :: string
  hg_ArtifactDigest :: string
  hg_Action :: string
  hg_Status :: string
  hg_ActiveLegalHoldIDs :: "string list"
  hg_Basis :: string

definition EvaluateHandlingGuard ::
  "(string \<Rightarrow> bool) \<Rightarrow> (string \<Rightarrow> message + CustodyRecord) \<Rightarrow> (string \<Rightarrow> message + HandlingEvent list)
   \<Rightarrow> CustodyRecord \<Rightarrow> string \<Rightarrow> message + HandlingGuardDecision" where
  "EvaluateHandlingGuard uri_ok get listEvents r action =
     (if action \<noteq> RedactAction \<and> action \<noteq> DeleteAction
      then Inl [T ''unsupported handling guard action '', Q action]
      else case AnalyzeHandling uri_ok get listEvents r of
             Inl err \<Rightarrow> Inl err
           | Inr status \<Rightarrow>
               Inr \<lparr>hg_CustodyID = cu_CustodyID r, hg_ArtifactDigest = ar_Digest (cu_Artifact r),
                    hg_Action = action,
                    hg_Status = (if hs_ActiveLegalHoldIDs status \<noteq> [] then HandlingBlocked
                                 else HandlingNotBlocked),
                    hg_ActiveLegalHoldIDs = hs_ActiveLegalHoldIDs status,
                    hg_Basis = (if hs_ActiveLegalHoldIDs status \<noteq> []
                                then ''active legal hold in visible handling event stream''
                                else ''no active legal hold in visible handling event stream; retention and authorization were not evaluated'')\<rparr>)"

section \<open>Registering a redaction\<close>

definition HandlingEventDigest :: "Encoding \<Rightarrow> (string \<Rightarrow> string) \<Rightarrow> HandlingEvent \<Rightarrow> message + string" where
  "HandlingEventDigest en sha e =
     (case MarshalCanonicalHandlingEvent en e of
        Inl err \<Rightarrow> Inl err | Inr encoded \<Rightarrow> Inr (digest_prefix @ sha encoded))"

definition verify_both :: "(string \<Rightarrow> message option) \<Rightarrow> HandlingEvent \<Rightarrow> message option" where
  "verify_both verify e =
     first_some
       [wrap_err (\<lambda>err. T ''verify original redaction artifact: '' # err) (verify (he_OriginalDigest e)),
        wrap_err (\<lambda>err. T ''verify resulting redaction artifact: '' # err) (verify (he_ResultingDigest e))]"

definition source_digest :: "CustodyRecord \<Rightarrow> HandlingStatus \<Rightarrow> string" where
  "source_digest r st =
     (if hs_Redactions st = [] then ar_Digest (cu_Artifact r)
      else hr_ResultingDigest (last (hs_Redactions st)))"

definition source_time :: "CustodyRecord \<Rightarrow> HandlingStatus \<Rightarrow> instant" where
  "source_time r st =
     (if hs_Redactions st = [] then instant_at (cu_ReceivedAt r)
      else instant_at (hr_RecordedAt (last (hs_Redactions st))))"

definition registerRedactionLocked ::
  "(string \<Rightarrow> bool) \<Rightarrow> (HandlingEvent \<Rightarrow> message + string) \<Rightarrow> (string \<Rightarrow> message option)
   \<Rightarrow> ('s \<Rightarrow> string \<Rightarrow> message + CustodyRecord) \<Rightarrow> ('s \<Rightarrow> string \<Rightarrow> message + HandlingEvent list)
   \<Rightarrow> ('s \<Rightarrow> HandlingEvent \<Rightarrow> message + 's) \<Rightarrow> 's \<Rightarrow> HandlingEvent \<Rightarrow> message + HandlingEvent \<times> 's" where
  "registerRedactionLocked uri_ok digest verify get listEvents publish s e =
     (case listEvents s (he_CustodyID e) of
        Inl err \<Rightarrow> Inl err
      | Inr items \<Rightarrow>
          (case List.find (\<lambda>x. he_EventID x = he_EventID e) items of
             Some existing \<Rightarrow>
               (case digest existing of
                  Inl err \<Rightarrow> Inl (T ''digest existing redaction event: '' # err)
                | Inr existingDigest \<Rightarrow>
                    (case digest e of
                       Inl err \<Rightarrow> Inl (T ''digest redaction event: '' # err)
                     | Inr eventDigest \<Rightarrow>
                         if existingDigest = eventDigest
                         then (case verify_both verify e of
                                 Some err \<Rightarrow> Inl err | None \<Rightarrow> Inr (existing, s))
                         else Inl [T ''handling event '', Q (he_EventID e), T '' for custody record '',
                                   Q (he_CustodyID e), T '' already exists with different contents'']))
           | None \<Rightarrow>
               (case get s (he_CustodyID e) of
                  Inl err \<Rightarrow> Inl (T ''read custody record: '' # err)
                | Inr r \<Rightarrow>
                    (case AnalyzeHandling uri_ok (get s) (listEvents s) r of
                       Inl err \<Rightarrow> Inl err
                     | Inr status \<Rightarrow>
                         (case EvaluateHandlingGuard uri_ok (get s) (listEvents s) r RedactAction of
                            Inl err \<Rightarrow> Inl err
                          | Inr guard \<Rightarrow>
                              if hg_Status guard = HandlingBlocked
                              then Inl [T ''redaction blocked by active legal hold: '',
                                        T (''['' @ join_with '' '' (hg_ActiveLegalHoldIDs guard) @ '']'')]
                              else if he_OriginalDigest e \<noteq> source_digest r status
                              then Inl [T ''redaction original digest '', T (he_OriginalDigest e),
                                        T '' does not match current source '', T (source_digest r status)]
                              else if \<not> source_time r status < instant_at (he_RecordedAt e)
                              then Inl [T ''redaction event time must be after the current redaction source time'']
                              else (case verify_both verify e of
                                      Some err \<Rightarrow> Inl err
                                    | None \<Rightarrow>
                                        (case publish s e of
                                           Inl err \<Rightarrow> Inl (T ''append redaction event: '' # err)
                                         | Inr s' \<Rightarrow> Inr (e, s'))))))))"

text \<open>\<open>lock\<close> is what taking the lock of a custody ID reports.\<close>

definition RegisterRedaction ::
  "(string \<Rightarrow> bool) \<Rightarrow> (HandlingEvent \<Rightarrow> message + string) \<Rightarrow> (string \<Rightarrow> message option)
   \<Rightarrow> ('s \<Rightarrow> string \<Rightarrow> message + CustodyRecord) \<Rightarrow> ('s \<Rightarrow> string \<Rightarrow> message + HandlingEvent list)
   \<Rightarrow> ('s \<Rightarrow> HandlingEvent \<Rightarrow> message + 's) \<Rightarrow> (string \<Rightarrow> message option) \<Rightarrow> 's \<Rightarrow> HandlingEvent
   \<Rightarrow> message + HandlingEvent \<times> 's" where
  "RegisterRedaction uri_ok digest verify get listEvents publish lock s e =
     (if he_Type e \<noteq> RedactionEvent
      then Inl [T ''redaction registration requires a redaction event'']
      else
        (let e = utc_event e in
         case HandlingEvent_Validate e of
           Some err \<Rightarrow> Inl (T ''validate redaction event: '' # err)
         | None \<Rightarrow>
             (case lock (he_CustodyID e) of
                Some err \<Rightarrow> Inl err
              | None \<Rightarrow> registerRedactionLocked uri_ok digest verify get listEvents publish s e)))"

definition Memory_lock :: "string \<Rightarrow> message option" where
  "Memory_lock c =
     fail_if (\<not> custodyIDPattern c) [T ''invalid handling event custody id '', Q c]"

definition Memory_RegisterRedaction ::
  "Encoding \<Rightarrow> (string \<Rightarrow> string) \<Rightarrow> (string \<Rightarrow> message option) \<Rightarrow> Memory \<Rightarrow> HandlingEvent
   \<Rightarrow> message + HandlingEvent \<times> Memory" where
  "Memory_RegisterRedaction en sha verify =
     RegisterRedaction (en_uri_ok en) (HandlingEventDigest en sha) verify Memory_Get Memory_ListEvents
       (Memory_appendHandlingEvent en) Memory_lock"

section \<open>What the projection says\<close>

definition placed :: "string \<Rightarrow> HandlingEvent \<Rightarrow> bool" where
  "placed h e \<longleftrightarrow> he_Type e = LegalHoldPlacedEvent \<and> he_LegalHoldID e = h"

definition released :: "string \<Rightarrow> HandlingEvent \<Rightarrow> bool" where
  "released h e \<longleftrightarrow> he_Type e = LegalHoldReleasedEvent \<and> he_LegalHoldID e = h"

text \<open>A hold is active when it was placed and not released after that, in listing order.\<close>

definition hold_active :: "string \<Rightarrow> HandlingEvent list \<Rightarrow> bool" where
  "hold_active h es \<longleftrightarrow>
     (\<exists>before e after. es = before @ e # after \<and> placed h e \<and> (\<forall>d \<in> set after. \<not> released h d))"

abbreviation redactions :: "HandlingEvent list \<Rightarrow> HandlingEvent list" where
  "redactions es \<equiv> filter (\<lambda>e. he_Type e = RedactionEvent) es"

lemma hold_active_Nil [simp]: "\<not> hold_active h []"
  by (simp add: hold_active_def)

lemma hold_active_Cons:
  "hold_active h (e # es) \<longleftrightarrow> hold_active h es \<or> placed h e \<and> (\<forall>d \<in> set es. \<not> released h d)"
  by (auto simp: hold_active_def Cons_eq_append_conv)

lemma hold_active_snoc:
  "hold_active h (es @ [e]) \<longleftrightarrow> placed h e \<or> hold_active h es \<and> \<not> released h e"
  by (induction es) (auto simp: hold_active_Cons placed_def released_def)

lemma handling_loop_Inr:
  "handling_loop c st holds es = Inr (st', holds') \<Longrightarrow>
   hs_Redactions st' = hs_Redactions st @ map redaction_of (redactions es) \<and>
   (\<forall>h. h \<in> set holds' \<longleftrightarrow> hold_active h es \<or> h \<in> set holds \<and> (\<forall>d \<in> set es. \<not> released h d)) \<and>
   (distinct holds \<longrightarrow> distinct holds')"
proof (induction es arbitrary: st holds)
  case (Cons e es)
  let ?st = "st\<lparr>hs_LastEventAt := later_event (hs_LastEventAt st) (he_RecordedAt e)\<rparr>"
  let ?loop = "\<lambda>st holds. handling_loop c st holds es = Inr (st', holds')"
  from Cons.prems consider
    (redaction) "he_Type e = RedactionEvent"
      "?loop (?st\<lparr>hs_Redaction := ''redacted'', hs_Redactions := hs_Redactions ?st @ [redaction_of e]\<rparr>) holds"
    | (retention) "he_Type e = RetentionClassifiedEvent"
      "?loop (?st\<lparr>hs_RetentionClass := he_RetentionClass e\<rparr>) holds"
    | (place) "he_Type e = LegalHoldPlacedEvent" "?loop ?st (List.insert (he_LegalHoldID e) holds)"
    | (release) "he_Type e = LegalHoldReleasedEvent" "?loop ?st (removeAll (he_LegalHoldID e) holds)"
    by (auto simp: Let_def split: if_splits)
  then show ?case
  proof cases
    case redaction
    from Cons.IH[OF redaction(2)] redaction(1) show ?thesis
      by (auto simp: hold_active_Cons placed_def released_def)
  next
    case retention
    from Cons.IH[OF retention(2)] retention(1) show ?thesis
      by (auto simp: hold_active_Cons placed_def released_def)
  next
    case place
    from Cons.IH[OF place(2)] place(1) show ?thesis
      by (auto simp: hold_active_Cons placed_def released_def)
  next
    case release
    from Cons.IH[OF release(2)] release(1) show ?thesis
      by (auto simp: hold_active_Cons placed_def released_def distinct_removeAll)
  qed
qed simp

lemma AnalyzeHandling_Inr:
  assumes "AnalyzeHandling uri_ok get listEvents r = Inr st"
  shows "\<exists>stored items. Record_Validate uri_ok r = None \<and> get (cu_CustodyID r) = Inr stored \<and>
           listEvents (cu_CustodyID r) = Inr items \<and>
           hs_Redactions st = map redaction_of (redactions items) \<and>
           (\<forall>h. h \<in> set (hs_ActiveLegalHoldIDs st) \<longleftrightarrow> hold_active h items) \<and>
           sorted (hs_ActiveLegalHoldIDs st) \<and> distinct (hs_ActiveLegalHoldIDs st)"
proof -
  from assms obtain stored items where g: "Record_Validate uri_ok r = None"
    "get (cu_CustodyID r) = Inr stored" "listEvents (cu_CustodyID r) = Inr items"
    by (auto simp: AnalyzeHandling_def split: option.splits sum.splits if_splits)
  with assms obtain st0 st1 holds where l: "handling_loop (cu_CustodyID r) st0 [] items = Inr (st1, holds)"
    "hs_Redactions st0 = []" "st = st1\<lparr>hs_ActiveLegalHoldIDs := sort holds\<rparr>"
    by (fastforce simp: AnalyzeHandling_def split: sum.splits if_splits)
  from handling_loop_Inr[OF l(1)] l(2,3) g show ?thesis by auto
qed

lemma guard_Inr:
  "EvaluateHandlingGuard uri_ok get listEvents r action = Inr g \<Longrightarrow>
   \<exists>st. AnalyzeHandling uri_ok get listEvents r = Inr st \<and>
     hg_ActiveLegalHoldIDs g = hs_ActiveLegalHoldIDs st \<and>
     (hg_Status g = HandlingBlocked \<longleftrightarrow> hs_ActiveLegalHoldIDs st \<noteq> []) \<and>
     (hg_Status g = HandlingNotBlocked \<longleftrightarrow> hs_ActiveLegalHoldIDs st = [])"
  by (auto simp: EvaluateHandlingGuard_def split: if_splits sum.splits)

text \<open>What a registration that is new has checked.\<close>

lemma registerRedaction_Inr:
  assumes "registerRedactionLocked uri_ok digest verify get listEvents publish s e = Inr (d, s')"
  shows "\<exists>items. listEvents s (he_CustodyID e) = Inr items \<and>
           verify (he_OriginalDigest e) = None \<and> verify (he_ResultingDigest e) = None \<and>
           (s' = s \<and> d \<in> set items \<and> he_EventID d = he_EventID e \<and>
              (\<exists>x. digest d = Inr x \<and> digest e = Inr x) \<or>
            d = e \<and> publish s e = Inr s' \<and> he_EventID e \<notin> he_EventID ` set items \<and>
              (\<exists>r st. get s (he_CustodyID e) = Inr r \<and>
                 AnalyzeHandling uri_ok (get s) (listEvents s) r = Inr st \<and>
                 hs_ActiveLegalHoldIDs st = [] \<and>
                 he_OriginalDigest e = source_digest r st \<and>
                 source_time r st < instant_at (he_RecordedAt e)))"
proof -
  from assms obtain items where items: "listEvents s (he_CustodyID e) = Inr items"
    by (auto simp: registerRedactionLocked_def split: sum.splits)
  show ?thesis
  proof (cases "List.find (\<lambda>x. he_EventID x = he_EventID e) items")
    case (Some x)
    then have "x \<in> set items" "he_EventID x = he_EventID e" by (auto simp: find_Some_iff in_set_conv_nth)
    with assms items Some show ?thesis
      by (auto simp: registerRedactionLocked_def verify_both_def first_some_Cons_None
          split: sum.splits option.splits if_splits)
  next
    case None
    then have "he_EventID e \<notin> he_EventID ` set items" by (auto simp: find_None_iff)
    moreover from assms items None obtain r st g where
      "get s (he_CustodyID e) = Inr r" "AnalyzeHandling uri_ok (get s) (listEvents s) r = Inr st"
      "EvaluateHandlingGuard uri_ok (get s) (listEvents s) r RedactAction = Inr g"
      by (auto simp: registerRedactionLocked_def split: sum.splits)
    moreover from this(3) guard_Inr have "hg_Status g = HandlingBlocked \<longleftrightarrow> hs_ActiveLegalHoldIDs st \<noteq> []"
      using \<open>AnalyzeHandling uri_ok (get s) (listEvents s) r = Inr st\<close> by fastforce
    ultimately show ?thesis using assms items None
      by (auto simp: registerRedactionLocked_def verify_both_def first_some_Cons_None
          split: sum.splits option.splits if_splits)
  qed
qed

end
