(* ===== verification/LockwoodProps.thy ===== *)
theory LockwoodProps
  imports LockwoodHandling
begin

text \<open>
  Properties of Lockwood's custody store under any sequence of operations: \<open>StoreOp\<close> is one
  call on the store, \<open>store_op\<close> runs it, and a run goes on after a refused call.
\<close>

section \<open>Operations of the store\<close>

datatype StoreOp =
    PutRecord CustodyRecord
  | Append HandlingEvent
  | Redact HandlingEvent

fun store_op ::
  "Encoding \<Rightarrow> (string \<Rightarrow> string) \<Rightarrow> (string \<Rightarrow> message option) \<Rightarrow> Memory \<Rightarrow> StoreOp \<Rightarrow> message + Memory" where
  "store_op en sha verify s (PutRecord r) = Memory_Put en s r"
| "store_op en sha verify s (Append e) = Memory_AppendEvent en s e"
| "store_op en sha verify s (Redact e) =
     (case Memory_RegisterRedaction en sha verify s e of Inl err \<Rightarrow> Inl err | Inr (d, s') \<Rightarrow> Inr s')"

lemma Memory_Register_Inr:
  assumes "Memory_RegisterRedaction en sha verify s e = Inr (d, s')"
  shows "he_Type e = RedactionEvent \<and> HandlingEvent_Validate (utc_event e) = None \<and>
         registerRedactionLocked (en_uri_ok en) (HandlingEventDigest en sha) verify Memory_Get
           Memory_ListEvents (Memory_appendHandlingEvent en) s (utc_event e) = Inr (d, s')"
  using assms
  by (auto simp: Memory_RegisterRedaction_def RegisterRedaction_def Let_def split: if_splits option.splits)

lemma store_op_wf:
  assumes wf: "mem_wf en s" and op: "store_op en sha verify s x = Inr s'"
  shows "mem_wf en s'"
proof (cases x)
  case (Redact e)
  with op obtain d where "Memory_RegisterRedaction en sha verify s e = Inr (d, s')"
    by (auto split: sum.splits)
  from registerRedaction_Inr[OF Memory_Register_Inr[OF this, THEN conjunct2, THEN conjunct2]] wf
  show ?thesis by (auto intro: mem_wf_append)
qed (use assms in \<open>auto intro: mem_wf_Put mem_wf_AppendEvent\<close>)

lemma store_op_records:
  assumes wf: "mem_wf en s" and op: "store_op en sha verify s x = Inr s'" and q: "Memory_Get s i = Inr q"
  shows "Memory_Get s' i = Inr q"
proof -
  have app: "Memory_Get t i = Memory_Get s i" if "Memory_appendHandlingEvent en s e = Inr t" for e t
    using that by (cases rule: Memory_append_cases) (simp_all add: Memory_Get_def)
  show ?thesis
  proof (cases x)
    case (PutRecord r)
    with assms memory_records.put_keeps[OF wf] show ?thesis by simp
  next
    case (Append e)
    with op app q show ?thesis by (simp add: Memory_AppendEvent_def split: if_splits)
  next
    case (Redact e)
    with op obtain d where "Memory_RegisterRedaction en sha verify s e = Inr (d, s')"
      by (auto split: sum.splits)
    from registerRedaction_Inr[OF Memory_Register_Inr[OF this, THEN conjunct2, THEN conjunct2]] app q
    show ?thesis by auto
  qed
qed

lemma store_op_events:
  assumes wf: "mem_wf en s" and op: "store_op en sha verify s x = Inr s'"
    and es: "Memory_ListEvents s c = Inr es"
  shows "\<exists>es'. Memory_ListEvents s' c = Inr es' \<and> set es \<subseteq> set es'"
proof (cases x)
  case (PutRecord r)
  with op have "Memory_Put en s r = Inr s'" by simp
  then have "Memory_ListEvents s' c = Memory_ListEvents s c"
    by (cases rule: Memory_Put_cases) (simp_all add: Memory_ListEvents_def)
  with es show ?thesis by simp
next
  case (Append e)
  with op memory_events.append_list[OF wf _ es] show ?thesis by fastforce
next
  case (Redact e)
  with op obtain d where "Memory_RegisterRedaction en sha verify s e = Inr (d, s')"
    by (auto split: sum.splits)
  from registerRedaction_Inr[OF Memory_Register_Inr[OF this, THEN conjunct2, THEN conjunct2]]
    Memory_append_list[OF wf _ es] es
  show ?thesis by blast
qed

section \<open>The chain of redactions\<close>

text \<open>Each redaction starts from the result of the one before and is later than it; the first
  starts from the artifact of the record.\<close>

fun linked :: "string \<Rightarrow> instant \<Rightarrow> HandlingEvent list \<Rightarrow> bool" where
  "linked d t [] = True"
| "linked d t (e # es) =
     (he_OriginalDigest e = d \<and> t < instant_at (he_RecordedAt e) \<and>
      linked (he_ResultingDigest e) (instant_at (he_RecordedAt e)) es)"

definition chain_ok :: "Memory \<Rightarrow> string \<Rightarrow> bool" where
  "chain_ok s c \<longleftrightarrow>
     (\<forall>es. Memory_ListEvents s c = Inr es \<longrightarrow>
        (case Memory_Get s c of
           Inl _ \<Rightarrow> redactions es = []
         | Inr r \<Rightarrow> linked (ar_Digest (cu_Artifact r)) (instant_at (cu_ReceivedAt r)) (redactions es)))"

lemma linked_snoc:
  "linked d t (es @ [e]) \<longleftrightarrow>
   linked d t es \<and>
   he_OriginalDigest e = (if es = [] then d else he_ResultingDigest (last es)) \<and>
   (if es = [] then t else instant_at (he_RecordedAt (last es))) < instant_at (he_RecordedAt e)"
  by (induction es arbitrary: d t) auto

lemma map_set_new: "map_of m k = None \<Longrightarrow> map_set k v m = m @ [(k, v)]"
  by (induction k v m rule: map_set.induct) (auto split: if_splits)

lemma sort_key_snoc:
  "(\<And>y. y \<in> set ys \<Longrightarrow> f y \<le> f x) \<Longrightarrow> sort_key f (ys @ [x]) = sort_key f ys @ [x]"
proof -
  have step: "insort_key f y (zs @ [x]) = insort_key f y zs @ [x]" if "f y \<le> f x" for y zs
    using that by (induction zs) auto
  show "(\<And>y. y \<in> set ys \<Longrightarrow> f y \<le> f x) \<Longrightarrow> sort_key f (ys @ [x]) = sort_key f ys @ [x]"
    by (induction ys) (auto simp: step)
qed

lemma redactions_append:
  assumes app: "Memory_appendHandlingEvent en s e = Inr s'"
    and es: "Memory_ListEvents s c = Inr es" and es': "Memory_ListEvents s' c = Inr es'"
  shows "redactions es' = redactions es \<or>
         c = he_CustodyID e \<and> he_Type e = RedactionEvent \<and>
         ((\<forall>d \<in> set (redactions es). instant_at (he_RecordedAt d) < instant_at (he_RecordedAt e)) \<longrightarrow>
            redactions es' = redactions es @ [utc_event e])"
  using app
proof (cases rule: Memory_append_cases)
  case same
  with es es' show ?thesis by simp
next
  case new
  show ?thesis
  proof (cases "c = he_CustodyID e")
    case False
    with new es es' show ?thesis by (simp add: Memory_ListEvents_def split: if_splits)
  next
    case True
    let ?xs = "map snd (events_of s c)"
    have eq: "redactions es = sort_key event_key (redactions ?xs)"
      "redactions es' = sort_key event_key (redactions (?xs @ [utc_event e]))"
      using True new es es' by (auto simp: Memory_ListEvents_def map_set_new filter_sort split: if_splits)
    show ?thesis
    proof (cases "he_Type e = RedactionEvent")
      case red: True
      have "redactions es' = redactions es @ [utc_event e]"
        if l: "\<forall>d \<in> set (redactions es). instant_at (he_RecordedAt d) < instant_at (he_RecordedAt e)"
      proof -
        have "event_key y \<le> event_key (utc_event e)" if "y \<in> set (redactions ?xs)" for y
        proof -
          from that have "y \<in> set (redactions es)" by (simp add: eq(1))
          with l have "instant_at (he_RecordedAt y) < instant_at (he_RecordedAt e)" by blast
          then show ?thesis by (simp add: event_key_def less_eq_prod_simp)
        qed
        from sort_key_snoc[of "redactions ?xs" event_key "utc_event e", OF this] red show ?thesis
          unfolding eq by simp
      qed
      with True red show ?thesis by blast
    qed (simp add: eq)
  qed
qed

lemma linked_last:
  "linked d t es \<Longrightarrow> e \<in> set es \<Longrightarrow> instant_at (he_RecordedAt e) \<le> instant_at (he_RecordedAt (last es))"
  by (induction es rule: rev_induct) (auto simp: linked_snoc split: if_splits)

text \<open>Only the registration adds redactions.\<close>

fun disciplined :: "StoreOp \<Rightarrow> bool" where
  "disciplined (Append e) = (he_Type e \<noteq> RedactionEvent)"
| "disciplined x = True"

lemma listed_again:
  "Memory_ListEvents s' c = Inr es' \<Longrightarrow> \<exists>es. Memory_ListEvents s c = Inr es"
  by (simp add: Memory_ListEvents_def split: if_splits)

lemma chain_ok_same:
  assumes get: "Memory_Get s' c = Memory_Get s c"
    and same: "\<And>es es'. Memory_ListEvents s' c = Inr es' \<Longrightarrow> Memory_ListEvents s c = Inr es \<Longrightarrow>
                redactions es' = redactions es"
    and ok: "chain_ok s c"
  shows "chain_ok s' c"
  unfolding chain_ok_def get
proof (intro allI impI)
  fix es' assume es': "Memory_ListEvents s' c = Inr es'"
  then obtain es where es: "Memory_ListEvents s c = Inr es" using listed_again by blast
  show "case Memory_Get s c of
          Inl _ \<Rightarrow> redactions es' = []
        | Inr r \<Rightarrow> linked (ar_Digest (cu_Artifact r)) (instant_at (cu_ReceivedAt r)) (redactions es')"
    unfolding same[OF es' es] using ok es by (simp add: chain_ok_def)
qed

lemma register_chain:
  assumes wf: "mem_wf en s" and ok: "chain_ok s c"
    and reg: "registerRedactionLocked (en_uri_ok en) dig verify Memory_Get Memory_ListEvents
                (Memory_appendHandlingEvent en) s e = Inr (d, s')"
  shows "chain_ok s' c"
proof -
  from registerRedaction_Inr[OF reg] obtain items where items: "Memory_ListEvents s (he_CustodyID e) = Inr items"
    and alt: "s' = s \<or> Memory_appendHandlingEvent en s e = Inr s' \<and>
      (\<exists>r st. Memory_Get s (he_CustodyID e) = Inr r \<and>
         AnalyzeHandling (en_uri_ok en) (Memory_Get s) (Memory_ListEvents s) r = Inr st \<and>
         he_OriginalDigest e = source_digest r st \<and> source_time r st < instant_at (he_RecordedAt e))"
    by blast
  from alt show ?thesis
  proof
    assume a: "Memory_appendHandlingEvent en s e = Inr s' \<and>
      (\<exists>r st. Memory_Get s (he_CustodyID e) = Inr r \<and>
         AnalyzeHandling (en_uri_ok en) (Memory_Get s) (Memory_ListEvents s) r = Inr st \<and>
         he_OriginalDigest e = source_digest r st \<and> source_time r st < instant_at (he_RecordedAt e))"
    then obtain r st where app: "Memory_appendHandlingEvent en s e = Inr s'"
      and r: "Memory_Get s (he_CustodyID e) = Inr r"
      and st: "AnalyzeHandling (en_uri_ok en) (Memory_Get s) (Memory_ListEvents s) r = Inr st"
      and src: "he_OriginalDigest e = source_digest r st" "source_time r st < instant_at (he_RecordedAt e)"
      by blast
    have get: "Memory_Get s' c = Memory_Get s c"
      using app by (cases rule: Memory_append_cases) (simp_all add: Memory_Get_def)
    have id: "cu_CustodyID r = he_CustodyID e"
      using r stored_id[OF wf] by (simp add: Memory_Get_Inr)
    have red: "hs_Redactions st = map redaction_of (redactions items)"
      using AnalyzeHandling_Inr[OF st] items id by auto
    let ?l = "linked (ar_Digest (cu_Artifact r)) (instant_at (cu_ReceivedAt r))"
    have "linked (ar_Digest (cu_Artifact r)) (instant_at (cu_ReceivedAt r)) (redactions es')"
      if es': "Memory_ListEvents s' c = Inr es'" and c: "c = he_CustodyID e" for es'
    proof -
      have l: "?l (redactions items)" using ok items r c by (simp add: chain_ok_def)
      have "instant_at (he_RecordedAt d) < instant_at (he_RecordedAt e)" if "d \<in> set (redactions items)" for d
      proof -
        have "redactions items \<noteq> []" using that by (metis empty_iff list.set(1))
        with linked_last[OF l that] src(2) red show ?thesis
          by (simp add: source_time_def last_map redaction_of_def)
      qed
      moreover have "?l (redactions items @ [utc_event e])"
        using l src red by (auto simp: linked_snoc source_time_def source_digest_def last_map redaction_of_def)
      ultimately show ?thesis
        using redactions_append[OF app _ es', of items] items c l by auto
    qed
    moreover have "redactions es' = redactions es"
      if "Memory_ListEvents s' c = Inr es'" "Memory_ListEvents s c = Inr es" "c \<noteq> he_CustodyID e" for es es'
      using redactions_append[OF app that(2,1)] that(3) by blast
    ultimately show ?thesis
      using r get chain_ok_same[OF get _ ok]
      by (cases "c = he_CustodyID e") (simp_all add: chain_ok_def)
  qed (use ok in simp)
qed

lemma store_op_chain:
  assumes wf: "mem_wf en s" and ok: "chain_ok s c"
    and op: "store_op en sha verify s x = Inr s'" and dis: "disciplined x"
  shows "chain_ok s' c"
proof (cases x)
  case (PutRecord r)
  with op have put: "Memory_Put en s r = Inr s'" by simp
  then have ev: "Memory_ListEvents s' c = Memory_ListEvents s c"
    by (cases rule: Memory_Put_cases) (simp_all add: Memory_ListEvents_def)
  show ?thesis
  proof (cases "Memory_Get s c")
    case (Inr q)
    with memory_records.put_keeps[OF wf put] have "Memory_Get s' c = Inr q" by blast
    with Inr ok ev show ?thesis by (simp add: chain_ok_def)
  next
    case (Inl err)
    with ok ev show ?thesis by (auto simp: chain_ok_def split: sum.split)
  qed
next
  case (Append e)
  with op have app: "Memory_appendHandlingEvent en s e = Inr s'"
    by (simp add: Memory_AppendEvent_def split: if_splits)
  have get: "Memory_Get s' c = Memory_Get s c"
    using app by (cases rule: Memory_append_cases) (simp_all add: Memory_Get_def)
  have "redactions es' = redactions es"
    if "Memory_ListEvents s' c = Inr es'" "Memory_ListEvents s c = Inr es" for es es'
    using redactions_append[OF app that(2,1)] dis Append by simp
  from chain_ok_same[OF get this ok] show ?thesis .
next
  case (Redact e)
  with op obtain d where "Memory_RegisterRedaction en sha verify s e = Inr (d, s')"
    by (auto split: sum.splits)
  from register_chain[OF wf ok Memory_Register_Inr[OF this, THEN conjunct2, THEN conjunct2]]
  show ?thesis .
qed

section \<open>Samples\<close>

definition digest_of :: "string \<Rightarrow> string" where
  "digest_of body = digest_prefix @ body"

definition body_a :: string where
  "body_a = ''aaaaaaaaaaaaaaaaaaaaaaaaaaaaaaaaaaaaaaaaaaaaaaaaaaaaaaaaaaaaaaaa''"

definition body_b :: string where
  "body_b = ''bbbbbbbbbbbbbbbbbbbbbbbbbbbbbbbbbbbbbbbbbbbbbbbbbbbbbbbbbbbbbbbb''"

definition sample_custody :: CustodyRecord where
  "sample_custody =
     \<lparr>cu_Schema = SchemaV1, cu_CustodyID = ''rec-1'', cu_Status = Accepted,
      cu_Artifact = \<lparr>ar_Schema = ArtifactSchema, ar_Digest = digest_of body_a, ar_SizeBytes = 4,
        ar_MediaType = ''text/plain'', ar_LogicalName = []\<rparr>,
      cu_ReceivedAt = \<lparr>instant_at = 10, zone_offset = 0\<rparr>,
      cu_Producer = \<lparr>pd_Tool = ''sorna'', pd_Kind = ''run'', pd_Version = []\<rparr>,
      cu_Custodian = \<lparr>cs_Tool = ''lockwood'', cs_Version = []\<rparr>,
      cu_Source = \<lparr>so_RunID = ''run-1'', so_Path = [], so_URI = [], so_Version = []\<rparr>,
      cu_Integrity = \<lparr>in_Status = IntegrityVerified, in_Method = SHA256Algorithm,
        in_VerifiedAt = Some \<lparr>instant_at = 10, zone_offset = 0\<rparr>\<rparr>,
      cu_Parents = Some [],
      cu_Handling = \<lparr>ha_Redaction = ''none'', ha_RetentionClass = ''default''\<rparr>\<rparr>"

definition sample_redaction :: HandlingEvent where
  "sample_redaction =
     \<lparr>he_Schema = HandlingEventSchema, he_EventID = ''ev-1'', he_CustodyID = ''rec-1'',
      he_Type = RedactionEvent, he_RecordedAt = \<lparr>instant_at = 20, zone_offset = 0\<rparr>,
      he_Actor = ''ana'', he_Reason = ''pii'', he_OriginalDigest = digest_of body_a,
      he_ResultingDigest = digest_of body_b, he_RetentionClass = [], he_LegalHoldID = []\<rparr>"

definition sample_hold :: HandlingEvent where
  "sample_hold = sample_redaction
     \<lparr>he_EventID := ''ev-2'', he_Type := LegalHoldPlacedEvent, he_OriginalDigest := [],
      he_ResultingDigest := [], he_LegalHoldID := ''hold-1''\<rparr>"

definition sample_encoding :: Encoding where
  "sample_encoding =
     \<lparr>en_uri_ok = (\<lambda>_. True), en_record = (\<lambda>r. Inr (cu_CustodyID r)),
      en_event = (\<lambda>e. Inr (he_EventID e))\<rparr>"

definition sample_memory :: Memory where
  "sample_memory = \<lparr>mem_records = [(''rec-1'', sample_custody)], mem_events = []\<rparr>"

lemma sample_put: "Memory_Put sample_encoding NewMemory sample_custody = Inr sample_memory"
  by code_simp

lemma sample_memory_wf: "mem_wf sample_encoding sample_memory"
  using mem_wf_Put[OF mem_wf_New sample_put] .

lemma sample_get: "Memory_Get sample_memory ''rec-1'' = Inr sample_custody"
  by code_simp

section \<open>Properties\<close>

text \<open>C5. Custody is append-only: whatever calls are made on a well-formed store, refused ones
  included, the store stays well formed, a record that could be got is got unchanged, it stays
  in the listing, and no handling event that was listed disappears.\<close>

theorem custody_is_append_only:
  assumes "mem_wf en s"
  shows "mem_wf en (attempt_all (store_op en sha verify) s ops) \<and>
         (\<forall>i q. Memory_Get s i = Inr q \<longrightarrow>
            Memory_Get (attempt_all (store_op en sha verify) s ops) i = Inr q) \<and>
         set (Memory_List s) \<subseteq> set (Memory_List (attempt_all (store_op en sha verify) s ops)) \<and>
         (\<forall>c es. Memory_ListEvents s c = Inr es \<longrightarrow>
            (\<exists>es'. Memory_ListEvents (attempt_all (store_op en sha verify) s ops) c = Inr es' \<and>
               set es \<subseteq> set es'))"
proof -
  let ?t = "attempt_all (store_op en sha verify) s ops"
  have wf: "mem_wf en ?t" by (rule attempt_all_invariant) (use assms store_op_wf in auto)
  have rec: "Memory_Get ?t i = Inr q" if "Memory_Get s i = Inr q" for i q
  proof -
    have "mem_wf en ?t \<and> Memory_Get ?t i = Inr q"
      by (rule attempt_all_invariant) (use assms that store_op_wf store_op_records in blast)+
    then show ?thesis ..
  qed
  have ev: "\<exists>es'. Memory_ListEvents ?t c = Inr es' \<and> set es \<subseteq> set es'"
    if "Memory_ListEvents s c = Inr es" for c es
  proof -
    let ?P = "\<lambda>t. mem_wf en t \<and> (\<exists>es'. Memory_ListEvents t c = Inr es' \<and> set es \<subseteq> set es')"
    have "?P ?t"
    proof (rule attempt_all_invariant)
      fix u x u' assume "?P u" "store_op en sha verify u x = Inr u'"
      then show "?P u'" by (meson store_op_wf store_op_events order_trans)
    qed (use assms that in auto)
    then show ?thesis by blast
  qed
  have "set (Memory_List s) \<subseteq> set (Memory_List ?t)"
    using rec memory_records.listing_get[OF assms] memory_records.listing_get[OF wf] by blast
  with wf rec ev show ?thesis by blast
qed

theorem custody_is_append_only_witness:
  "Memory_Get (attempt_all (store_op sample_encoding id (\<lambda>_. None)) sample_memory
     [PutRecord (sample_custody\<lparr>cu_Status := Quarantined\<rparr>), Append sample_hold]) ''rec-1'' =
   Inr sample_custody"
  using custody_is_append_only[OF sample_memory_wf] sample_get by blast

text \<open>The guard blocks exactly while a legal hold is active in the listed events: placed by
  some event and not released by a later one; it lists the active holds in order without
  repetition.\<close>

theorem guard_blocks_active_holds:
  assumes "EvaluateHandlingGuard uri_ok get listEvents r action = Inr g"
    and "listEvents (cu_CustodyID r) = Inr items"
  shows "(hg_Status g = HandlingBlocked \<longleftrightarrow> (\<exists>h. hold_active h items)) \<and>
         (hg_Status g = HandlingNotBlocked \<longleftrightarrow> (\<forall>h. \<not> hold_active h items)) \<and>
         set (hg_ActiveLegalHoldIDs g) = {h. hold_active h items} \<and>
         sorted (hg_ActiveLegalHoldIDs g) \<and> distinct (hg_ActiveLegalHoldIDs g)"
proof -
  from guard_Inr[OF assms(1)] obtain st where
    st: "AnalyzeHandling uri_ok get listEvents r = Inr st"
      "hg_ActiveLegalHoldIDs g = hs_ActiveLegalHoldIDs st"
      "hg_Status g = HandlingBlocked \<longleftrightarrow> hs_ActiveLegalHoldIDs st \<noteq> []"
      "hg_Status g = HandlingNotBlocked \<longleftrightarrow> hs_ActiveLegalHoldIDs st = []" by blast
  from AnalyzeHandling_Inr[OF st(1)] assms(2)
  have holds: "\<forall>h. h \<in> set (hs_ActiveLegalHoldIDs st) \<longleftrightarrow> hold_active h items"
    "sorted (hs_ActiveLegalHoldIDs st)" "distinct (hs_ActiveLegalHoldIDs st)" by auto
  have "hs_ActiveLegalHoldIDs st = [] \<longleftrightarrow> (\<forall>h. \<not> hold_active h items)"
    using holds(1) by (metis empty_iff last_in_set list.set(1))
  with st holds show ?thesis by auto
qed

theorem guard_blocks_active_holds_witness:
  "\<exists>g. EvaluateHandlingGuard (\<lambda>_. True) (\<lambda>_. Inr sample_custody) (\<lambda>_. Inr [sample_hold])
         sample_custody DeleteAction = Inr g \<and> hg_Status g = HandlingBlocked"
proof -
  have "\<not> Option.is_none (case EvaluateHandlingGuard (\<lambda>_. True) (\<lambda>_. Inr sample_custody)
          (\<lambda>_. Inr [sample_hold]) sample_custody DeleteAction of Inl _ \<Rightarrow> None | Inr g \<Rightarrow> Some g)"
    by code_simp
  then obtain g where g: "EvaluateHandlingGuard (\<lambda>_. True) (\<lambda>_. Inr sample_custody)
      (\<lambda>_. Inr [sample_hold]) sample_custody DeleteAction = Inr g"
    by (auto split: sum.splits)
  have "hold_active ''hold-1'' [sample_hold]"
    by (simp add: hold_active_Cons placed_def sample_hold_def)
  with guard_blocks_active_holds[OF g refl] g show ?thesis by blast
qed

text \<open>C21. A registration that adds a redaction found no active hold among the listed events, both
  artifacts verified, the original digest is the current one (the result of the last listed
  redaction, else the artifact of the record) and the event is later than that source; a
  registration of an event that is already there returns it and leaves the store as it is.\<close>

theorem redaction_registered_safely:
  assumes wf: "mem_wf en s" and reg: "Memory_RegisterRedaction en sha verify s e = Inr (d, s')"
  shows "\<exists>items. Memory_ListEvents s (he_CustodyID e) = Inr items \<and>
           verify (he_OriginalDigest e) = None \<and> verify (he_ResultingDigest e) = None \<and>
           (s' = s \<and> d \<in> set items \<and> he_EventID d = he_EventID e \<or>
            d = utc_event e \<and> Memory_appendHandlingEvent en s (utc_event e) = Inr s' \<and>
            he_EventID e \<notin> he_EventID ` set items \<and> (\<forall>h. \<not> hold_active h items) \<and>
            (\<exists>r. Memory_Get s (he_CustodyID e) = Inr r \<and>
               (if redactions items = []
                then he_OriginalDigest e = ar_Digest (cu_Artifact r) \<and>
                     instant_at (cu_ReceivedAt r) < instant_at (he_RecordedAt e)
                else he_OriginalDigest e = he_ResultingDigest (last (redactions items)) \<and>
                     instant_at (he_RecordedAt (last (redactions items))) < instant_at (he_RecordedAt e))))"
proof -
  from registerRedaction_Inr[OF Memory_Register_Inr[OF reg, THEN conjunct2, THEN conjunct2]]
  obtain items where items: "Memory_ListEvents s (he_CustodyID e) = Inr items"
    and v: "verify (he_OriginalDigest e) = None" "verify (he_ResultingDigest e) = None"
    and alt: "s' = s \<and> d \<in> set items \<and> he_EventID d = he_EventID e \<or>
      d = utc_event e \<and> Memory_appendHandlingEvent en s (utc_event e) = Inr s' \<and>
      he_EventID e \<notin> he_EventID ` set items \<and>
      (\<exists>r st. Memory_Get s (he_CustodyID e) = Inr r \<and>
         AnalyzeHandling (en_uri_ok en) (Memory_Get s) (Memory_ListEvents s) r = Inr st \<and>
         hs_ActiveLegalHoldIDs st = [] \<and> he_OriginalDigest e = source_digest r st \<and>
         source_time r st < instant_at (he_RecordedAt e))"
    by auto
  have "\<exists>r. Memory_Get s (he_CustodyID e) = Inr r \<and> (\<forall>h. \<not> hold_active h items) \<and>
               (if redactions items = []
                then he_OriginalDigest e = ar_Digest (cu_Artifact r) \<and>
                     instant_at (cu_ReceivedAt r) < instant_at (he_RecordedAt e)
                else he_OriginalDigest e = he_ResultingDigest (last (redactions items)) \<and>
                     instant_at (he_RecordedAt (last (redactions items))) < instant_at (he_RecordedAt e))"
    if r: "Memory_Get s (he_CustodyID e) = Inr r"
      and st: "AnalyzeHandling (en_uri_ok en) (Memory_Get s) (Memory_ListEvents s) r = Inr st"
      and src: "hs_ActiveLegalHoldIDs st = []" "he_OriginalDigest e = source_digest r st"
        "source_time r st < instant_at (he_RecordedAt e)" for r st
  proof -
    from AnalyzeHandling_Inr[OF st] obtain items' where items': "Memory_ListEvents s (cu_CustodyID r) = Inr items'"
      "hs_Redactions st = map redaction_of (redactions items')" "\<forall>h. \<not> hold_active h items'"
      using src(1) by auto
    have "cu_CustodyID r = he_CustodyID e" using r stored_id[OF wf] by (simp add: Memory_Get_Inr)
    with items items' r src show ?thesis
      by (auto simp: source_digest_def source_time_def last_map redaction_of_def)
  qed
  with items v alt show ?thesis by blast
qed

theorem redaction_registered_safely_witness:
  "\<exists>s'. Memory_RegisterRedaction sample_encoding id (\<lambda>_. None) sample_memory sample_redaction =
           Inr (sample_redaction, s') \<and>
         he_OriginalDigest sample_redaction = ar_Digest (cu_Artifact sample_custody)"
proof -
  have "Memory_RegisterRedaction sample_encoding id (\<lambda>_. None) sample_memory sample_redaction =
      Inr (sample_redaction, sample_memory\<lparr>mem_events := [(''rec-1'', [(''ev-1'', sample_redaction)])]\<rparr>)"
    by code_simp
  note reg = this
  have "Memory_ListEvents sample_memory ''rec-1'' = Inr []" by code_simp
  moreover have "he_CustodyID sample_redaction = ''rec-1''" by (simp add: sample_redaction_def)
  ultimately show ?thesis
    using redaction_registered_safely[OF sample_memory_wf reg] reg sample_get by auto
qed

text \<open>C6. The redactions of a record form a chain: as long as redaction events enter only
  through the registration, each listed redaction starts from the result of the one before
  (the first from the artifact in custody) and is strictly later, whatever other records and
  events are stored and whichever calls are refused.\<close>

theorem redactions_form_a_chain:
  assumes "mem_wf en s" and "chain_ok s c" and "\<forall>x \<in> set ops. disciplined x"
  shows "chain_ok (attempt_all (store_op en sha verify) s ops) c"
proof -
  have "mem_wf en (attempt_all (store_op en sha verify) s ops) \<and>
        chain_ok (attempt_all (store_op en sha verify) s ops) c"
    by (rule attempt_all_invariant_on) (use assms store_op_wf store_op_chain in blast)+
  then show ?thesis ..
qed

theorem redactions_form_a_chain_witness:
  "chain_ok (attempt_all (store_op sample_encoding id (\<lambda>_. None)) NewMemory
     [PutRecord sample_custody, Redact sample_redaction, Redact sample_redaction, Append sample_hold]) ''rec-1''"
  by (rule redactions_form_a_chain[OF mem_wf_New])
     (simp_all add: chain_ok_def Memory_ListEvents_def events_of_def NewMemory_def Memory_Get_def
        sample_hold_def split: sum.split)

end
