(* ===== verification/LockwoodIntake.thy ===== *)
theory LockwoodIntake
  imports LockwoodBlobs LockwoodProps
begin

text \<open>
  lockwood/internal/custody/ingest.go: taking an artifact into custody, over the two stores.
  The two calls of \<open>time.Now().UTC()\<close> are arguments.  A failure after the artifact was stored
  leaves it stored, so \<open>Accept\<close> returns the state on every branch.
\<close>

section \<open>Intake\<close>

record IntakeRequest =
  rq_Schema :: string
  rq_CustodyID :: string
  rq_ExpectedDigest :: string
  rq_MediaType :: string
  rq_LogicalName :: string
  rq_MaxBytes :: int
  rq_ReceivedAt :: stamp
  rq_Producer :: Producer
  rq_Source :: Source
  rq_Parents :: "Lineage list option"
  rq_Handling :: Handling

datatype IntakeError = IntakeRefused message | IntakeError CustodyRecord ArtifactReference message

definition IntakeRequest_validate :: "(string \<Rightarrow> bool) \<Rightarrow> IntakeRequest \<Rightarrow> message option" where
  "IntakeRequest_validate uri_ok r =
     first_some
       [fail_if (\<not> custodyIDPattern (rq_CustodyID r)) [T ''invalid custody id '', Q (rq_CustodyID r)],
        fail_if (rq_Schema r \<noteq> SchemaV1 \<and> rq_Schema r \<noteq> SchemaV2)
          [T ''unexpected custody schema '', Q (rq_Schema r)],
        fail_if (rq_MaxBytes r < 0) [T ''maximum artifact size cannot be negative''],
        fail_if (blank (rq_MediaType r)) [T ''artifact media type is required''],
        fail_if (blank (pd_Tool (rq_Producer r)) \<or> blank (pd_Kind (rq_Producer r)))
          [T ''producer tool and kind are required''],
        Source_validate uri_ok (rq_Schema r) (rq_Source r),
        first_error lineage_syntax (case rq_Parents r of Some ps \<Rightarrow> ps | None \<Rightarrow> []),
        fail_if (ha_Redaction (rq_Handling r) \<noteq> ''none'' \<and> ha_Redaction (rq_Handling r) \<noteq> ''redacted'')
          [T ''invalid redaction status '', Q (ha_Redaction (rq_Handling r))],
        fail_if (blank (ha_RetentionClass (rq_Handling r))) [T ''retention class is required'']]"

definition intake_record :: "IntakeRequest \<Rightarrow> ArtifactReference \<Rightarrow> stamp \<Rightarrow> stamp \<Rightarrow> CustodyRecord" where
  "intake_record request ref now1 now2 =
     \<lparr>cu_Schema = rq_Schema request, cu_CustodyID = rq_CustodyID request, cu_Status = Accepted,
      cu_Artifact = ref,
      cu_ReceivedAt = (if is_zero (instant_at (rq_ReceivedAt request)) then now1
                       else rq_ReceivedAt request),
      cu_Producer = rq_Producer request,
      cu_Custodian = \<lparr>cs_Tool = ''lockwood'', cs_Version = []\<rparr>,
      cu_Source = rq_Source request,
      cu_Integrity = \<lparr>in_Status = IntegrityVerified, in_Method = SHA256Algorithm,
                      in_VerifiedAt = Some now2\<rparr>,
      cu_Parents = Some (case rq_Parents request of Some ps \<Rightarrow> ps | None \<Rightarrow> []),
      cu_Handling = rq_Handling request\<rparr>"

definition Accept ::
  "(string \<Rightarrow> bool) \<Rightarrow> ('a \<Rightarrow> Reader \<Rightarrow> PutOptions \<Rightarrow> message + ArtifactReference \<times> 'a)
   \<Rightarrow> ('c \<Rightarrow> CustodyRecord \<Rightarrow> message + 'c) \<Rightarrow> stamp \<Rightarrow> stamp \<Rightarrow> 'a \<times> 'c \<Rightarrow> Reader \<Rightarrow> IntakeRequest
   \<Rightarrow> (IntakeError + CustodyRecord) \<times> 'a \<times> 'c" where
  "Accept uri_ok put_artifact put_record now1 now2 s reader request =
     (let request = (if rq_Schema request = [] then request\<lparr>rq_Schema := SchemaV1\<rparr> else request) in
      case IntakeRequest_validate uri_ok request of
        Some err \<Rightarrow> (Inl (IntakeRefused err), s)
      | None \<Rightarrow>
          (case put_artifact (fst s) reader
                  \<lparr>po_ExpectedDigest = rq_ExpectedDigest request, po_MediaType = rq_MediaType request,
                   po_LogicalName = rq_LogicalName request, po_MaxBytes = rq_MaxBytes request\<rparr> of
             Inl err \<Rightarrow> (Inl (IntakeRefused (T ''store artifact: '' # err)), s)
           | Inr (ref, a) \<Rightarrow>
               (let r = intake_record request ref now1 now2 in
                case put_record (snd s) r of
                  Inl err \<Rightarrow> (Inl (IntakeError r ref err), a, snd s)
                | Inr c \<Rightarrow> (Inr r, a, c))))"

abbreviation Memory_Accept ::
  "(string \<Rightarrow> string) \<Rightarrow> (ArtifactReference \<Rightarrow> message + string) \<Rightarrow> Encoding \<Rightarrow> stamp \<Rightarrow> stamp
   \<Rightarrow> ArtifactMemory \<times> Memory \<Rightarrow> Reader \<Rightarrow> IntakeRequest
   \<Rightarrow> (IntakeError + CustodyRecord) \<times> ArtifactMemory \<times> Memory" where
  "Memory_Accept sha en_ref en \<equiv> Accept (en_uri_ok en) (Blob_Put sha en_ref) (Memory_Put en)"

lemma Accept_cases:
  assumes "Accept uri_ok put_artifact put_record now1 now2 s reader request = (res, a, c)"
  obtains (refused) err where "res = Inl (IntakeRefused err)" "(a, c) = s"
  | (orphan) ref options err r where "put_artifact (fst s) reader options = Inr (ref, a)"
      "res = Inl (IntakeError r ref err)" "put_record (snd s) r = Inl err" "c = snd s"
      "po_ExpectedDigest options = rq_ExpectedDigest request" "po_MaxBytes options = rq_MaxBytes request"
      "cu_Status r = Accepted" "cu_Artifact r = ref" "cu_CustodyID r = rq_CustodyID request"
  | (accepted) ref options r where "put_artifact (fst s) reader options = Inr (ref, a)"
      "res = Inr r" "put_record (snd s) r = Inr c"
      "po_ExpectedDigest options = rq_ExpectedDigest request" "po_MaxBytes options = rq_MaxBytes request"
      "cu_Status r = Accepted" "cu_Artifact r = ref" "cu_CustodyID r = rq_CustodyID request"
proof -
  define q where "q = (if rq_Schema request = [] then request\<lparr>rq_Schema := SchemaV1\<rparr> else request)"
  define options where "options = \<lparr>po_ExpectedDigest = rq_ExpectedDigest q,
    po_MediaType = rq_MediaType q, po_LogicalName = rq_LogicalName q, po_MaxBytes = rq_MaxBytes q\<rparr>"
  have q: "rq_ExpectedDigest q = rq_ExpectedDigest request" "rq_MaxBytes q = rq_MaxBytes request"
    "rq_CustodyID q = rq_CustodyID request"
    by (simp_all add: q_def)
  have eq: "(res, a, c) =
     (case IntakeRequest_validate uri_ok q of
        Some err \<Rightarrow> (Inl (IntakeRefused err), s)
      | None \<Rightarrow>
          (case put_artifact (fst s) reader options of
             Inl err \<Rightarrow> (Inl (IntakeRefused (T ''store artifact: '' # err)), s)
           | Inr (ref, a) \<Rightarrow>
               (case put_record (snd s) (intake_record q ref now1 now2) of
                  Inl err \<Rightarrow> (Inl (IntakeError (intake_record q ref now1 now2) ref err), a, snd s)
                | Inr c \<Rightarrow> (Inr (intake_record q ref now1 now2), a, c))))"
    using assms unfolding Accept_def Let_def q_def [symmetric] options_def [symmetric] by (rule sym)
  show thesis
  proof (cases "IntakeRequest_validate uri_ok q")
    case (Some err)
    with eq show thesis by (auto intro: refused)
  next
    case None
    show thesis
    proof (cases "put_artifact (fst s) reader options")
      case (Inl err)
      with eq None show thesis by (auto intro: refused)
    next
      case (Inr x)
      obtain ref a' where x: "x = (ref, a')" by (cases x)
      note put = Inr[unfolded x]
      show thesis
      proof (cases "put_record (snd s) (intake_record q ref now1 now2)")
        case (Inl err)
        with eq None put have "res = Inl (IntakeError (intake_record q ref now1 now2) ref err)"
          "a = a'" "c = snd s" by simp_all
        with orphan[of options ref "intake_record q ref now1 now2" err] put Inl q show thesis
          by (simp add: options_def intake_record_def)
      next
        case (Inr c')
        with eq None put have "res = Inr (intake_record q ref now1 now2)" "a = a'" "c = c'" by simp_all
        with accepted[of options ref "intake_record q ref now1 now2"] put Inr q show thesis
          by (simp add: options_def intake_record_def)
      qed
    qed
  qed
qed

section \<open>Nothing dangles\<close>

record Intake =
  it_Reader :: Reader
  it_Request :: IntakeRequest
  it_Now1 :: stamp
  it_Now2 :: stamp

definition intake_step ::
  "(string \<Rightarrow> string) \<Rightarrow> (ArtifactReference \<Rightarrow> message + string) \<Rightarrow> Encoding
   \<Rightarrow> ArtifactMemory \<times> Memory \<Rightarrow> Intake \<Rightarrow> ArtifactMemory \<times> Memory" where
  "intake_step sha en_ref en s x =
     snd (Memory_Accept sha en_ref en (it_Now1 x) (it_Now2 x) s (it_Reader x) (it_Request x))"

definition intake_ok ::
  "(string \<Rightarrow> string) \<Rightarrow> (ArtifactReference \<Rightarrow> message + string) \<Rightarrow> Encoding \<Rightarrow> ArtifactMemory \<times> Memory \<Rightarrow> bool" where
  "intake_ok sha en_ref en s \<longleftrightarrow>
     blob_wf sha en_ref (fst s) \<and> mem_wf en (snd s) \<and>
     (\<forall>r \<in> set (Memory_List (snd s)). Blob_VerifyReference sha (fst s) (cu_Artifact r) = None)"

lemma Memory_Put_listed:
  assumes wf: "mem_wf en s" and put: "Memory_Put en s r = Inr s'" and q: "q \<in> set (Memory_List s')"
  shows "q \<in> set (Memory_List s) \<or> cu_Artifact q = cu_Artifact r"
  using put
proof (cases rule: Memory_Put_cases)
  case same
  with q show ?thesis by simp
next
  case new
  have "map_of (mem_records s') (cu_CustodyID q) = Some q"
    using q Memory_List_set[OF mem_wf_Put[OF wf put]] by blast
  with new(2) Memory_List_set[OF wf, of q] show ?thesis
    by (cases "cu_CustodyID q = cu_CustodyID r") auto
qed

lemma Accept_keeps_ok:
  assumes ok: "intake_ok sha en_ref en s"
    and acc: "Memory_Accept sha en_ref en now1 now2 s reader request = (res, a, c)"
  shows "intake_ok sha en_ref en (a, c)"
proof -
  note o = ok[unfolded intake_ok_def]
  show ?thesis
    using acc
  proof (cases rule: Accept_cases)
    case refused
    with ok show ?thesis by simp
  next
    case (orphan ref options err r)
    with o blob_wf_Put[OF _ orphan(1)] Blob_verify_kept[OF orphan(1)] show ?thesis
      by (simp add: intake_ok_def)
  next
    case (accepted ref options r)
    have "Blob_VerifyReference sha a (cu_Artifact q) = None" if "q \<in> set (Memory_List c)" for q
      using Memory_Put_listed[OF _ accepted(3) that] o accepted(7) Blob_verify_kept[OF accepted(1)]
        Blob_Put_verifies[OF accepted(1)] by auto
    with o blob_wf_Put[OF _ accepted(1)] mem_wf_Put[OF _ accepted(3)] show ?thesis
      by (simp add: intake_ok_def)
  qed
qed

lemma intake_step_ok: "intake_ok sha en_ref en s \<Longrightarrow> intake_ok sha en_ref en (intake_step sha en_ref en s x)"
  using Accept_keeps_ok unfolding intake_step_def by (metis prod.collapse)

lemma intake_New: "intake_ok sha en_ref en (NewArtifactMemory, NewMemory)"
proof -
  have "Memory_List NewMemory = []" by (simp add: Memory_List_def NewMemory_def)
  then show ?thesis by (simp add: intake_ok_def blob_wf_New mem_wf_New)
qed

lemma blobs_kept:
  assumes acc: "Memory_Accept sha en_ref en now1 now2 s reader request = (res, a, c)"
    and d: "Blob_Get sha (fst s) d = Inr data"
  shows "Blob_Get sha a d = Inr data"
  using acc
proof (cases rule: Accept_cases)
  case refused
  with d show ?thesis by auto
next
  case (orphan ref options err r)
  with d Blob_Put_keeps[OF orphan(1)] show ?thesis by (simp add: Blob_Get_Inr)
next
  case (accepted ref options r)
  with d Blob_Put_keeps[OF accepted(1)] show ?thesis by (simp add: Blob_Get_Inr)
qed

section \<open>Samples\<close>

definition sample_request :: IntakeRequest where
  "sample_request =
     \<lparr>rq_Schema = [], rq_CustodyID = ''rec-1'', rq_ExpectedDigest = [], rq_MediaType = ''text/plain'',
      rq_LogicalName = [], rq_MaxBytes = 4, rq_ReceivedAt = \<lparr>instant_at = 10, zone_offset = 0\<rparr>,
      rq_Producer = \<lparr>pd_Tool = ''sorna'', pd_Kind = ''run'', pd_Version = []\<rparr>,
      rq_Source = \<lparr>so_RunID = ''run-1'', so_Path = [], so_URI = [], so_Version = []\<rparr>,
      rq_Parents = None, rq_Handling = \<lparr>ha_Redaction = ''none'', ha_RetentionClass = ''default''\<rparr>\<rparr>"

definition sample_reader :: Reader where
  "sample_reader = \<lparr>rd_Bytes = ''data'', rd_End = EndOfFile\<rparr>"

definition sample_now :: stamp where
  "sample_now = \<lparr>instant_at = 10, zone_offset = 0\<rparr>"

abbreviation sample_sha :: "string \<Rightarrow> string" where "sample_sha \<equiv> \<lambda>_. body_a"
abbreviation sample_ref :: "ArtifactReference \<Rightarrow> message + string" where "sample_ref \<equiv> \<lambda>r. Inr (ar_Digest r)"

lemma sample_blob_put:
  "\<exists>s'. Blob_Put sample_sha sample_ref NewArtifactMemory sample_reader
     \<lparr>po_ExpectedDigest = [], po_MediaType = ''text/plain'', po_LogicalName = [], po_MaxBytes = 4\<rparr> =
     Inr (cu_Artifact sample_custody, s')"
proof -
  have "Blob_Put sample_sha sample_ref NewArtifactMemory sample_reader
     \<lparr>po_ExpectedDigest = [], po_MediaType = ''text/plain'', po_LogicalName = [], po_MaxBytes = 4\<rparr> =
     Inr (cu_Artifact sample_custody,
       \<lparr>am_blobs = [(digest_of body_a, ''data'')],
        am_references = [(digest_of body_a, cu_Artifact sample_custody)]\<rparr>)"
    by code_simp
  then show ?thesis by blast
qed

lemma sample_accept:
  "fst (Memory_Accept sample_sha sample_ref sample_encoding sample_now sample_now
      (NewArtifactMemory, NewMemory) sample_reader sample_request) = Inr sample_custody"
  by code_simp

section \<open>Properties\<close>

text \<open>C22. The artifact store gives back what was put: after an accepted \<open>Put\<close> and any later calls,
  refused ones included, the digest of the returned reference yields exactly the bytes that were
  read, the reference verifies, its digest is the one that was expected, and its size respects
  the limit.\<close>

theorem stored_artifact_is_returned:
  assumes "blob_wf sha en_ref s" and "Blob_Put sha en_ref s reader options = Inr (r, s')"
  shows "let t = attempt_all (\<lambda>s x. map_sum id snd (Blob_Put sha en_ref s (fst x) (snd x))) s' later in
           Blob_Get sha t (ar_Digest r) = Inr (rd_Bytes reader) \<and>
           Blob_VerifyReference sha t r = None \<and>
           (po_ExpectedDigest options = [] \<or> po_ExpectedDigest options = ar_Digest r) \<and>
           ar_SizeBytes r = int (length (rd_Bytes reader)) \<and>
           (0 < po_MaxBytes options \<longrightarrow> ar_SizeBytes r \<le> po_MaxBytes options)"
proof -
  let ?t = "attempt_all (\<lambda>s x. map_sum id snd (Blob_Put sha en_ref s (fst x) (snd x))) s' later"
  let ?P = "\<lambda>t. Blob_Get sha t (ar_Digest r) = Inr (rd_Bytes reader) \<and> Blob_VerifyReference sha t r = None"
  have "?P ?t"
  proof (rule attempt_all_invariant)
    fix u x u' assume u: "?P u" and step: "map_sum id snd (Blob_Put sha en_ref u (fst x) (snd x)) = Inr u'"
    then obtain q where "Blob_Put sha en_ref u (fst x) (snd x) = Inr (q, u')"
      by (cases "Blob_Put sha en_ref u (fst x) (snd x)") auto
    from Blob_Put_keeps[OF this] Blob_verify_kept[OF this] u show "?P u'" by (simp add: Blob_Get_Inr)
  qed (use blobs.put_get[OF assms] blobs.put_verifies[OF assms] in blast)
  moreover have "ar_SizeBytes r \<le> po_MaxBytes options" if "0 < po_MaxBytes options"
  proof -
    have "Copy sha reader (po_MaxBytes options) = Inr (rd_Bytes reader,
        \<lparr>rs_Digest = ar_Digest r, rs_SizeBytes = ar_SizeBytes r\<rparr>)"
      using Blob_Put_Inr[OF assms(2)] by blast
    from Copy_Inr[OF this] that show ?thesis by simp
  qed
  moreover have "po_ExpectedDigest options = [] \<or> po_ExpectedDigest options = ar_Digest r"
    using Blob_Put_Inr[OF assms(2)] by blast
  moreover have "ar_SizeBytes r = int (length (rd_Bytes reader))" using blobs.put_get[OF assms] by blast
  ultimately show ?thesis by (simp add: Let_def)
qed

theorem stored_artifact_is_returned_witness:
  "\<exists>s'. Blob_Put sample_sha sample_ref NewArtifactMemory sample_reader
     \<lparr>po_ExpectedDigest = [], po_MediaType = ''text/plain'', po_LogicalName = [], po_MaxBytes = 4\<rparr> =
     Inr (cu_Artifact sample_custody, s') \<and> Blob_Get sample_sha s' (digest_of body_a) = Inr ''data''"
proof -
  from sample_blob_put obtain s' where put: "Blob_Put sample_sha sample_ref NewArtifactMemory sample_reader
     \<lparr>po_ExpectedDigest = [], po_MediaType = ''text/plain'', po_LogicalName = [], po_MaxBytes = 4\<rparr> =
     Inr (cu_Artifact sample_custody, s')" by blast
  from stored_artifact_is_returned[OF blob_wf_New put, of "[]"] put show ?thesis
    by (simp add: Let_def sample_custody_def sample_reader_def)
qed

text \<open>An intake has three outcomes: a refusal that changes neither store; an acceptance, after
  which the artifact is readable byte for byte, verifies, has the expected digest and is
  described by an accepted record that can be got; or an error of the custody store, after which
  the artifact is stored and verifies but no record was added.\<close>

theorem intake_outcomes:
  assumes "blob_wf sha en_ref (fst s)" and "mem_wf en (snd s)"
    and "Memory_Accept sha en_ref en now1 now2 s reader request = (res, a, c)"
  shows "case res of
           Inl (IntakeRefused err) \<Rightarrow> (a, c) = s
         | Inl (IntakeError r ref err) \<Rightarrow>
             c = snd s \<and> cu_Artifact r = ref \<and> Blob_VerifyReference sha a ref = None \<and>
             Blob_Get sha a (ar_Digest ref) = Inr (rd_Bytes reader)
         | Inr r \<Rightarrow>
             cu_Status r = Accepted \<and> cu_CustodyID r = rq_CustodyID request \<and>
             Blob_VerifyReference sha a (cu_Artifact r) = None \<and>
             Blob_Get sha a (ar_Digest (cu_Artifact r)) = Inr (rd_Bytes reader) \<and>
             rq_ExpectedDigest request \<in> {[], ar_Digest (cu_Artifact r)} \<and>
             (\<exists>q. Memory_Get c (rq_CustodyID request) = Inr q \<and>
                MarshalCanonical en q = MarshalCanonical en r)"
  using assms(3)
proof (cases rule: Accept_cases)
  case (orphan ref options err r)
  with blobs.put_get[OF assms(1) orphan(1)] blobs.put_verifies[OF assms(1) orphan(1)]
  show ?thesis by simp
next
  case (accepted ref options r)
  with blobs.put_get[OF assms(1) accepted(1)] blobs.put_verifies[OF assms(1) accepted(1)]
    Blob_Put_Inr[OF accepted(1)] memory_records.put_get[OF assms(2) accepted(3)]
  show ?thesis by auto
qed simp

theorem intake_outcomes_witness:
  "Blob_Get sample_sha (fst (snd (Memory_Accept sample_sha sample_ref sample_encoding sample_now sample_now
      (NewArtifactMemory, NewMemory) sample_reader sample_request))) (digest_of body_a) = Inr ''data''"
proof -
  obtain res a c where acc: "Memory_Accept sample_sha sample_ref sample_encoding sample_now sample_now
      (NewArtifactMemory, NewMemory) sample_reader sample_request = (res, a, c)"
    by (cases "Memory_Accept sample_sha sample_ref sample_encoding sample_now sample_now
      (NewArtifactMemory, NewMemory) sample_reader sample_request") auto
  have "res = Inr sample_custody" using sample_accept acc by simp
  with intake_outcomes[of sample_sha sample_ref "(NewArtifactMemory, NewMemory)" sample_encoding,
      OF _ _ acc] acc blob_wf_New mem_wf_New
  show ?thesis by (simp add: sample_custody_def sample_reader_def)
qed

text \<open>Custody never dangles: through any run of intakes, failed ones included, the artifact of
  every record in the listing verifies in the artifact store, and no artifact that could be read
  is lost.\<close>

theorem custody_never_dangles:
  assumes "intake_ok sha en_ref en s"
  shows "(\<forall>r \<in> set (Memory_List (snd (foldl (intake_step sha en_ref en) s xs))).
            Blob_VerifyReference sha (fst (foldl (intake_step sha en_ref en) s xs)) (cu_Artifact r) = None) \<and>
         (\<forall>d data. Blob_Get sha (fst s) d = Inr data \<longrightarrow>
            Blob_Get sha (fst (foldl (intake_step sha en_ref en) s xs)) d = Inr data)"
proof -
  have "intake_ok sha en_ref en (foldl (intake_step sha en_ref en) s xs)"
    using assms by (induction xs arbitrary: s) (simp_all add: intake_step_ok)
  moreover have "Blob_Get sha (fst s) d = Inr data \<longrightarrow>
      Blob_Get sha (fst (foldl (intake_step sha en_ref en) s xs)) d = Inr data" for d data
  proof (induction xs arbitrary: s)
    case (Cons x xs)
    have "Blob_Get sha (fst s) d = Inr data \<Longrightarrow> Blob_Get sha (fst (intake_step sha en_ref en s x)) d = Inr data"
      using blobs_kept unfolding intake_step_def by (metis prod.collapse)
    with Cons.IH[of "intake_step sha en_ref en s x"] show ?case by simp
  qed simp
  ultimately show ?thesis unfolding intake_ok_def by blast
qed

definition sample_intake :: "ArtifactMemory \<times> Memory" where
  "sample_intake = foldl (intake_step sample_sha sample_ref sample_encoding)
     (NewArtifactMemory, NewMemory)
     [\<lparr>it_Reader = sample_reader, it_Request = sample_request, it_Now1 = sample_now, it_Now2 = sample_now\<rparr>]"

theorem custody_never_dangles_witness:
  "list_all (\<lambda>r. Blob_VerifyReference sample_sha (fst sample_intake) (cu_Artifact r) = None)
     (Memory_List (snd sample_intake))"
  unfolding list_all_iff sample_intake_def using custody_never_dangles[OF intake_New] by blast

end
