(* ===== verification/LockwoodLineage.thy ===== *)
theory LockwoodLineage
  imports LockwoodIntake GraphSearch
begin

text \<open>
  lockwood/internal/custody/lineage_verify.go, verify.go, verification_report.go and
  lineage_report.go: checking a record's artifact and the graph of its accepted parents.  The
  closure \<open>walk\<close> is a pair of mutually recursive functions, for a digest and for the loop over
  the parents of its records; \<open>visited\<close> is threaded, and \<open>active\<close> and \<open>path\<close> are passed down, since
  the deferred \<open>delete\<close> restores \<open>active\<close> to what it was before the call.  The recursion ends
  because every call below an expanded digest has one accepted digest more on its active path.
\<close>

section \<open>The walk\<close>

definition accepted_for :: "CustodyRecord list \<Rightarrow> string \<Rightarrow> CustodyRecord list" where
  "accepted_for recs d = filter (\<lambda>r. cu_Status r = Accepted \<and> ar_Digest (cu_Artifact r) = d) recs"

definition accepted_digests :: "CustodyRecord list \<Rightarrow> string set" where
  "accepted_digests recs = (\<lambda>r. ar_Digest (cu_Artifact r)) ` set (filter (\<lambda>r. cu_Status r = Accepted) recs)"

definition parent_links :: "CustodyRecord list \<Rightarrow> (string \<times> string) list" where
  "parent_links candidates =
     concat (map (\<lambda>c. map (\<lambda>p. (cu_CustodyID c, li_Digest p)) (parents_of c)) candidates)"

fun join_path :: "string list \<Rightarrow> message" where
  "join_path [] = []"
| "join_path [d] = [T d]"
| "join_path (d # ds) = T d # T '' -> '' # join_path ds"

definition cycle_error :: "string list \<Rightarrow> message" where
  "cycle_error cyc = T ''lineage cycle detected: '' # join_path cyc"

definition verify_candidates ::
  "(ArtifactReference \<Rightarrow> message option) \<Rightarrow> string \<Rightarrow> CustodyRecord list \<Rightarrow> message option" where
  "verify_candidates verify d =
     first_error (\<lambda>c. wrap_err
       (\<lambda>err. [T ''verify parent artifact '', T d, T '' via custody record '', Q (cu_CustodyID c), T '': ''] @ err)
       (verify (cu_Artifact c)))"

lemma accepted_shrinks:
  assumes "map_of active d = None" "accepted_for recs d \<noteq> []"
  shows "card (accepted_digests recs - fst ` set (map_set d (i :: nat) active)) <
         card (accepted_digests recs - fst ` set active)"
proof -
  from assms(2) obtain r where "r \<in> set (accepted_for recs d)" by (meson list.set_sel(1))
  then have "d \<in> accepted_digests recs" by (auto simp: accepted_for_def accepted_digests_def)
  moreover have "d \<notin> fst ` set active" using assms(1) by (simp add: map_of_eq_None_iff)
  moreover have "finite (accepted_digests recs)" by (simp add: accepted_digests_def)
  ultimately show ?thesis by (intro psubset_card_mono) auto
qed

function walk ::
  "CustodyRecord list \<Rightarrow> (ArtifactReference \<Rightarrow> message option) \<Rightarrow> string \<Rightarrow> (string, nat) gomap
   \<Rightarrow> string list \<Rightarrow> string \<Rightarrow> string list \<Rightarrow> message + string list"
and walk_parents ::
  "CustodyRecord list \<Rightarrow> (ArtifactReference \<Rightarrow> message option) \<Rightarrow> string \<Rightarrow> (string, nat) gomap
   \<Rightarrow> string list \<Rightarrow> (string \<times> string) list \<Rightarrow> string list \<Rightarrow> message + string list" where
  "walk recs verify rootID active path d visited =
     (case map_of active d of
        Some index \<Rightarrow> Inl (cycle_error (drop index path @ [d]))
      | None \<Rightarrow>
          if d \<in> set visited then Inr visited
          else if accepted_for recs d = []
          then Inl [T ''unresolved lineage parent '', T d, T '' for '',
                    T (if path = [] then rootID else last path)]
          else case verify_candidates verify d (accepted_for recs d) of
                 Some err \<Rightarrow> Inl err
               | None \<Rightarrow>
                   (case walk_parents recs verify rootID (map_set d (length path) active) (path @ [d])
                           (parent_links (accepted_for recs d)) visited of
                      Inl err \<Rightarrow> Inl err
                    | Inr visited' \<Rightarrow> Inr (d # visited')))"
| "walk_parents recs verify rootID active path [] visited = Inr visited"
| "walk_parents recs verify rootID active path ((c, d) # ps) visited =
     (case walk recs verify rootID active path d visited of
        Inl err \<Rightarrow> Inl ([T ''verify lineage of '', Q c, T '': ''] @ err)
      | Inr visited' \<Rightarrow> walk_parents recs verify rootID active path ps visited')"
  by pat_completeness auto

termination
  by (relation "measures
       [\<lambda>x. case x of
          Inl (recs, _, _, active, _) \<Rightarrow> card (accepted_digests recs - fst ` set active)
        | Inr (recs, _, _, active, _) \<Rightarrow> card (accepted_digests recs - fst ` set active),
        \<lambda>x. case x of Inl _ \<Rightarrow> 0 | Inr (_, _, _, _, _, ps, _) \<Rightarrow> length ps]")
     (use accepted_shrinks in auto)

declare walk.simps [simp del]

fun walk_roots ::
  "CustodyRecord list \<Rightarrow> (ArtifactReference \<Rightarrow> message option) \<Rightarrow> CustodyRecord \<Rightarrow> string list
   \<Rightarrow> string list \<Rightarrow> message option" where
  "walk_roots recs verify r [] visited = None"
| "walk_roots recs verify r (d # ds) visited =
     (case walk recs verify (cu_CustodyID r) [(ar_Digest (cu_Artifact r), 0)]
             [ar_Digest (cu_Artifact r)] d visited of
        Inl err \<Rightarrow> Some err
      | Inr visited' \<Rightarrow> walk_roots recs verify r ds visited')"

text \<open>\<open>VerifyLineage\<close> on the records that were listed; a listing error is returned as it is.\<close>

definition VerifyLineage ::
  "message + CustodyRecord list \<Rightarrow> (ArtifactReference \<Rightarrow> message option) \<Rightarrow> CustodyRecord \<Rightarrow> message option" where
  "VerifyLineage listing verify r =
     (case listing of
        Inl err \<Rightarrow> Some err
      | Inr recs \<Rightarrow> walk_roots recs verify r (map li_Digest (parents_of r)) [])"

definition VerifyRecord ::
  "(string \<Rightarrow> message + CustodyRecord) \<Rightarrow> message + CustodyRecord list
   \<Rightarrow> (ArtifactReference \<Rightarrow> message option) \<Rightarrow> string \<Rightarrow> message + CustodyRecord" where
  "VerifyRecord get listing verify custodyID =
     (case get custodyID of
        Inl err \<Rightarrow> Inl err
      | Inr r \<Rightarrow>
          (case verify (cu_Artifact r) of
             Some err \<Rightarrow> Inl ([T ''verify custody record '', Q custodyID, T '': ''] @ err)
           | None \<Rightarrow>
               (case VerifyLineage listing verify r of
                  Some err \<Rightarrow> Inl ([T ''verify custody record '', Q custodyID, T '' lineage: ''] @ err)
                | None \<Rightarrow> Inr r)))"

section \<open>The batch report\<close>

abbreviation VerificationVerified :: string where "VerificationVerified \<equiv> ''verified''"
abbreviation VerificationFailed :: string where "VerificationFailed \<equiv> ''failed''"

record VerificationResult =
  vr_CustodyID :: string
  vr_ArtifactDigest :: string
  vr_CustodyStatus :: string
  vr_Status :: string
  vr_Error :: message

record VerificationReport =
  vp_Schema :: string
  vp_Checked :: nat
  vp_Verified :: nat
  vp_Failed :: nat
  vp_Results :: "VerificationResult list"

definition verify_candidate ::
  "(string \<Rightarrow> message + CustodyRecord) \<Rightarrow> message + CustodyRecord list
   \<Rightarrow> (ArtifactReference \<Rightarrow> message option) \<Rightarrow> VerificationReport \<Rightarrow> CustodyRecord \<Rightarrow> VerificationReport" where
  "verify_candidate get listing verify report c =
     (let result = \<lparr>vr_CustodyID = cu_CustodyID c, vr_ArtifactDigest = ar_Digest (cu_Artifact c),
                    vr_CustodyStatus = cu_Status c, vr_Status = VerificationVerified, vr_Error = []\<rparr>
      in case VerifyRecord get listing verify (cu_CustodyID c) of
           Inl err \<Rightarrow> report\<lparr>vp_Failed := vp_Failed report + 1, vp_Checked := vp_Checked report + 1,
                       vp_Results := vp_Results report @
                         [result\<lparr>vr_Status := VerificationFailed, vr_Error := err\<rparr>]\<rparr>
         | Inr _ \<Rightarrow> report\<lparr>vp_Verified := vp_Verified report + 1, vp_Checked := vp_Checked report + 1,
                       vp_Results := vp_Results report @ [result]\<rparr>)"

definition VerifyRecords ::
  "(string \<Rightarrow> message + CustodyRecord) \<Rightarrow> message + CustodyRecord list
   \<Rightarrow> (ArtifactReference \<Rightarrow> message option) \<Rightarrow> CustodyRecord list \<Rightarrow> VerificationReport" where
  "VerifyRecords get listing verify candidates =
     foldl (verify_candidate get listing verify)
       \<lparr>vp_Schema = ''lockwood.verification-report/v1'', vp_Checked = 0, vp_Verified = 0, vp_Failed = 0,
        vp_Results = []\<rparr> candidates"

definition VerifyAll ::
  "(string \<Rightarrow> message + CustodyRecord) \<Rightarrow> message + CustodyRecord list
   \<Rightarrow> (ArtifactReference \<Rightarrow> message option) \<Rightarrow> message + VerificationReport" where
  "VerifyAll get listing verify =
     (case listing of
        Inl err \<Rightarrow> Inl err
      | Inr candidates \<Rightarrow> Inr (VerifyRecords get listing verify candidates))"

section \<open>The lineage graph\<close>

text \<open>The parents of a digest are those of its accepted records; those of the root are the ones
  of the record that is checked, whatever other records its digest has.\<close>

definition lineage_edges :: "CustodyRecord list \<Rightarrow> CustodyRecord \<Rightarrow> (string \<times> string) set" where
  "lineage_edges recs r =
     {(u, v). if u = ar_Digest (cu_Artifact r) then v \<in> li_Digest ` set (parents_of r)
              else \<exists>c \<in> set (accepted_for recs u). v \<in> li_Digest ` set (parents_of c)}"

definition resolved ::
  "CustodyRecord list \<Rightarrow> (ArtifactReference \<Rightarrow> message option) \<Rightarrow> string \<Rightarrow> bool" where
  "resolved recs verify d \<longleftrightarrow>
     accepted_for recs d \<noteq> [] \<and> (\<forall>c \<in> set (accepted_for recs d). verify (cu_Artifact c) = None)"

definition lineage_sound ::
  "CustodyRecord list \<Rightarrow> (ArtifactReference \<Rightarrow> message option) \<Rightarrow> CustodyRecord \<Rightarrow> bool" where
  "lineage_sound recs verify r \<longleftrightarrow>
     (\<forall>d. (ar_Digest (cu_Artifact r), d) \<in> (lineage_edges recs r)\<^sup>+ \<longrightarrow>
        resolved recs verify d \<and> (d, d) \<notin> (lineage_edges recs r)\<^sup>+)"

lemma parent_links_snd:
  "snd ` set (parent_links cs) = (\<Union>c \<in> set cs. li_Digest ` set (parents_of c))"
  by (simp add: parent_links_def image_UN image_image)

lemma lineage_edges_other:
  "u \<noteq> ar_Digest (cu_Artifact r) \<Longrightarrow>
   (u, v) \<in> lineage_edges recs r \<longleftrightarrow> v \<in> snd ` set (parent_links (accepted_for recs u))"
  by (simp add: lineage_edges_def parent_links_snd)

lemma verify_candidates_None:
  "verify_candidates verify d cs = None \<longleftrightarrow> (\<forall>c \<in> set cs. verify (cu_Artifact c) = None)"
  by (simp add: verify_candidates_def first_error_None)

lemma resolved_iff:
  "resolved recs verify d \<longleftrightarrow>
   accepted_for recs d \<noteq> [] \<and> verify_candidates verify d (accepted_for recs d) = None"
  by (simp add: resolved_def verify_candidates_None)

text \<open>What the walk has visited outside its active path is settled and resolved.\<close>

definition walked ::
  "CustodyRecord list \<Rightarrow> (ArtifactReference \<Rightarrow> message option) \<Rightarrow> CustodyRecord \<Rightarrow> (string, nat) gomap
   \<Rightarrow> string list \<Rightarrow> bool" where
  "walked recs verify r active visited \<longleftrightarrow>
     map_of active (ar_Digest (cu_Artifact r)) \<noteq> None \<and>
     settled (lineage_edges recs r) (set visited) \<and> (\<forall>u \<in> set visited. resolved recs verify u) \<and>
     (\<forall>u \<in> set visited. map_of active u = None)"

lemma walk_Inr:
  "walk recs verify i active path d visited = Inr visited' \<Longrightarrow> walked recs verify r active visited \<Longrightarrow>
   walked recs verify r active visited' \<and> d \<in> set visited' \<and> set visited \<subseteq> set visited'"
  "walk_parents recs verify i active path ps visited = Inr visited' \<Longrightarrow> walked recs verify r active visited \<Longrightarrow>
   walked recs verify r active visited' \<and> snd ` set ps \<subseteq> set visited' \<and> set visited \<subseteq> set visited'"
proof (induction recs verify i active path d visited and recs verify i active path ps visited
    arbitrary: visited' and visited' rule: walk_walk_parents.induct)
  case (1 recs verify i active path d visited)
  show ?case
  proof (cases "d \<in> set visited")
    case True
    with 1 show ?thesis by (simp add: walk.simps split: option.splits)
  next
    case False
    let ?active = "map_set d (length path) active"
    from 1(2) False have new: "map_of active d = None" and res: "resolved recs verify d"
      by (auto simp: walk.simps resolved_iff split: option.splits if_splits)
    from 1(2) False new res obtain v where
      v: "walk_parents recs verify i ?active (path @ [d]) (parent_links (accepted_for recs d)) visited = Inr v"
      "visited' = d # v"
      by (auto simp: walk.simps resolved_iff split: sum.splits)
    have "walked recs verify r ?active visited" using 1(3) False by (auto simp: walked_def)
    from 1(1)[OF new False _ _ v(1) this] res
    have ih: "walked recs verify r ?active v" "snd ` set (parent_links (accepted_for recs d)) \<subseteq> set v"
      "set visited \<subseteq> set v" by (auto simp: resolved_iff)
    have d: "d \<noteq> ar_Digest (cu_Artifact r)" using new 1(3) by (auto simp: walked_def)
    have out: "d \<notin> set v" using ih(1) by (auto simp: walked_def)
    have "settled (lineage_edges recs r) (insert d (set v))"
    proof (rule settled_insert)
      show "w \<in> set v" if "(d, w) \<in> lineage_edges recs r" for w
        using that ih(2) lineage_edges_other[OF d] by auto
    qed (use ih(1) out in \<open>auto simp: walked_def\<close>)
    moreover have "map_of active u = None" if "u \<in> set v" for u
      using that ih(1) out by (auto simp: walked_def split: if_splits)
    ultimately show ?thesis using ih 1(3) res new unfolding v(2) by (auto simp: walked_def)
  qed
next
  case (3 recs verify i active path c d ps visited)
  from 3(3) obtain v where v: "walk recs verify i active path d visited = Inr v"
    "walk_parents recs verify i active path ps v = Inr visited'" by (auto split: sum.splits)
  from 3(1)[OF v(1) 3(4)] have w: "walked recs verify r active v" "d \<in> set v" "set visited \<subseteq> set v"
    by simp_all
  from 3(2)[OF v(1) v(2) w(1)] w(2,3) show ?case by auto
qed simp

definition flawed ::
  "CustodyRecord list \<Rightarrow> (ArtifactReference \<Rightarrow> message option) \<Rightarrow> CustodyRecord \<Rightarrow> string \<Rightarrow> bool" where
  "flawed recs verify r d \<longleftrightarrow>
     (\<exists>e. (d, e) \<in> (lineage_edges recs r)\<^sup>* \<and>
        (\<not> resolved recs verify e \<or> (e, e) \<in> (lineage_edges recs r)\<^sup>+))"

lemma walk_Inl:
  "walk recs verify i active path d visited = Inl err \<Longrightarrow>
   map_of active (ar_Digest (cu_Artifact r)) \<noteq> None \<Longrightarrow>
   (\<forall>a \<in> fst ` set active. (a, d) \<in> (lineage_edges recs r)\<^sup>+) \<Longrightarrow> flawed recs verify r d"
  "walk_parents recs verify i active path ps visited = Inl err \<Longrightarrow>
   map_of active (ar_Digest (cu_Artifact r)) \<noteq> None \<Longrightarrow>
   (\<forall>a \<in> fst ` set active. \<forall>p \<in> snd ` set ps. (a, p) \<in> (lineage_edges recs r)\<^sup>+) \<Longrightarrow>
   \<exists>p \<in> snd ` set ps. flawed recs verify r p"
proof (induction recs verify i active path d visited and recs verify i active path ps visited
    arbitrary: err and err rule: walk_walk_parents.induct)
  case (1 recs verify i active path d visited)
  let ?R = "lineage_edges recs r" and ?active = "map_set d (length path) active"
  show ?case
  proof (cases "map_of active d = None \<and> resolved recs verify d")
    case False
    then have "(d, d) \<in> ?R\<^sup>+ \<or> \<not> resolved recs verify d"
      using 1(4) by (auto simp: map_of_eq_None_iff)
    then show ?thesis unfolding flawed_def by blast
  next
    case True
    then have new: "map_of active d = None" and res: "resolved recs verify d" by simp_all
    from 1(2) True have nv: "d \<notin> set visited" by (auto simp: walk.simps)
    from 1(2) True nv have w: "walk_parents recs verify i ?active (path @ [d])
        (parent_links (accepted_for recs d)) visited = Inl err"
      by (auto simp: walk.simps resolved_iff split: sum.splits)
    have d: "d \<noteq> ar_Digest (cu_Artifact r)" using new 1(3) by auto
    have edge: "(d, p) \<in> ?R" if "p \<in> snd ` set (parent_links (accepted_for recs d))" for p
      using that lineage_edges_other[OF d] by simp
    have "(a, p) \<in> ?R\<^sup>+" if "a \<in> fst ` set ?active" "p \<in> snd ` set (parent_links (accepted_for recs d))" for a p
      using that(1) edge[OF that(2)] 1(4) by (auto intro: trancl_into_trancl)
    then have paths: "\<forall>a \<in> fst ` set ?active. \<forall>p \<in> snd ` set (parent_links (accepted_for recs d)). (a, p) \<in> ?R\<^sup>+"
      by blast
    have root: "map_of ?active (ar_Digest (cu_Artifact r)) \<noteq> None" using 1(3) by simp
    have "accepted_for recs d \<noteq> []" "verify_candidates verify d (accepted_for recs d) = None"
      using res by (simp_all add: resolved_iff)
    from 1(1)[OF new nv this w root paths] obtain p where
      p: "p \<in> snd ` set (parent_links (accepted_for recs d))" "flawed recs verify r p" by blast
    with edge show ?thesis unfolding flawed_def by (meson converse_rtrancl_into_rtrancl)
  qed
next
  case (3 recs verify i active path c d ps visited)
  show ?case
  proof (cases "walk recs verify i active path d visited")
    case (Inl e)
    from 3(1)[OF this 3(4)] 3(5) show ?thesis by auto
  next
    case (Inr v)
    with 3(3) have "walk_parents recs verify i active path ps v = Inl err" by simp
    from 3(2)[OF Inr this 3(4)] 3(5) show ?thesis by auto
  qed
qed simp

lemma walk_roots_None:
  "walk_roots recs verify r ds visited = None \<Longrightarrow>
   walked recs verify r [(ar_Digest (cu_Artifact r), 0)] visited \<Longrightarrow>
   \<exists>v. walked recs verify r [(ar_Digest (cu_Artifact r), 0)] v \<and> set ds \<subseteq> set v \<and> set visited \<subseteq> set v"
proof (induction ds arbitrary: visited)
  case (Cons d ds)
  from Cons.prems(1) obtain v where v: "walk recs verify (cu_CustodyID r) [(ar_Digest (cu_Artifact r), 0)]
      [ar_Digest (cu_Artifact r)] d visited = Inr v" "walk_roots recs verify r ds v = None"
    by (auto split: sum.splits)
  from walk_Inr(1)[OF v(1) Cons.prems(2)] Cons.IH[OF v(2)] show ?case by fastforce
qed auto

lemma walk_roots_Some:
  "walk_roots recs verify r ds visited = Some err \<Longrightarrow>
   (\<forall>d \<in> set ds. (ar_Digest (cu_Artifact r), d) \<in> lineage_edges recs r) \<Longrightarrow>
   \<exists>d \<in> set ds. flawed recs verify r d"
proof (induction ds arbitrary: visited)
  case (Cons d ds)
  show ?case
  proof (cases "walk recs verify (cu_CustodyID r) [(ar_Digest (cu_Artifact r), 0)]
      [ar_Digest (cu_Artifact r)] d visited")
    case (Inl e)
    have "flawed recs verify r d" by (rule walk_Inl(1)[OF Inl]) (use Cons.prems(2) in auto)
    then show ?thesis by simp
  next
    case (Inr v)
    with Cons show ?thesis by auto
  qed
qed simp

lemma VerifyLineage_iff:
  "VerifyLineage (Inr recs) verify r = None \<longleftrightarrow> lineage_sound recs verify r"
proof
  let ?R = "lineage_edges recs r" and ?root = "ar_Digest (cu_Artifact r)"
  have edge: "(?root, d) \<in> ?R \<longleftrightarrow> d \<in> set (map li_Digest (parents_of r))" for d
    by (simp add: lineage_edges_def)
  assume "VerifyLineage (Inr recs) verify r = None"
  then have "walk_roots recs verify r (map li_Digest (parents_of r)) [] = None"
    by (simp add: VerifyLineage_def)
  from walk_roots_None[OF this] obtain v where v: "walked recs verify r [(?root, 0)] v"
    "set (map li_Digest (parents_of r)) \<subseteq> set v" by (auto simp: walked_def)
  then have F: "settled ?R (set v)" "\<forall>u \<in> set v. resolved recs verify u" by (simp_all add: walked_def)
  have out: "w \<in> set v" if "(?root, w) \<in> ?R" for w using that v(2) edge by blast
  show "lineage_sound recs verify r"
    using settled_reaches[OF F(1) out] F(2) by (auto simp: lineage_sound_def)
next
  let ?R = "lineage_edges recs r" and ?root = "ar_Digest (cu_Artifact r)"
  assume ok: "lineage_sound recs verify r"
  show "VerifyLineage (Inr recs) verify r = None"
  proof (rule ccontr)
    assume "VerifyLineage (Inr recs) verify r \<noteq> None"
    then obtain err where w: "walk_roots recs verify r (map li_Digest (parents_of r)) [] = Some err"
      by (auto simp: VerifyLineage_def)
    have root: "\<forall>d \<in> set (map li_Digest (parents_of r)). (?root, d) \<in> ?R"
      by (simp add: lineage_edges_def)
    from walk_roots_Some[OF w root] root obtain d where d: "(?root, d) \<in> ?R" "flawed recs verify r d" by blast
    then obtain e where "(?root, e) \<in> ?R\<^sup>+" "\<not> resolved recs verify e \<or> (e, e) \<in> ?R\<^sup>+"
      unfolding flawed_def by (meson rtrancl_into_trancl2)
    with ok show False by (auto simp: lineage_sound_def)
  qed
qed

section \<open>The lineage report\<close>

abbreviation LineageComplete :: string where "LineageComplete \<equiv> ''complete''"
abbreviation LineageIncomplete :: string where "LineageIncomplete \<equiv> ''incomplete''"
abbreviation UnresolvedParentIssue :: string where "UnresolvedParentIssue \<equiv> ''unresolved-parent''"
abbreviation CycleIssue :: string where "CycleIssue \<equiv> ''cycle''"
abbreviation ArtifactIntegrityIssue :: string where "ArtifactIntegrityIssue \<equiv> ''artifact-integrity''"

record LineageIssue =
  is_Kind :: string
  is_Digest :: string
  is_CustodyID :: string
  is_Path :: "string list"
  is_Error :: message

record LineageReport =
  lr_CustodyID :: string
  lr_ArtifactDigest :: string
  lr_Status :: string
  lr_ReachableDigests :: "string list"
  lr_Issues :: "LineageIssue list"

record Analysis =
  an_issues :: "LineageIssue list"
  an_visited :: "string list"
  an_reachable :: "string list"

definition integrity_issue :: "(ArtifactReference \<Rightarrow> message option) \<Rightarrow> CustodyRecord \<Rightarrow> LineageIssue list" where
  "integrity_issue verify c =
     (case verify (cu_Artifact c) of
        Some err \<Rightarrow> [\<lparr>is_Kind = ArtifactIntegrityIssue, is_Digest = ar_Digest (cu_Artifact c),
                     is_CustodyID = cu_CustodyID c, is_Path = [], is_Error = err\<rparr>]
      | None \<Rightarrow> [])"

definition add_issue :: "Analysis \<Rightarrow> string \<Rightarrow> string \<Rightarrow> string \<Rightarrow> string list \<Rightarrow> message \<Rightarrow> Analysis" where
  "add_issue st kind d c path err =
     st\<lparr>an_issues := an_issues st @
       [\<lparr>is_Kind = kind, is_Digest = d, is_CustodyID = c, is_Path = path, is_Error = err\<rparr>]\<rparr>"

function analyze ::
  "CustodyRecord list \<Rightarrow> (ArtifactReference \<Rightarrow> message option) \<Rightarrow> (string, nat) gomap \<Rightarrow> string list
   \<Rightarrow> string \<Rightarrow> string \<Rightarrow> Analysis \<Rightarrow> Analysis"
and analyze_parents ::
  "CustodyRecord list \<Rightarrow> (ArtifactReference \<Rightarrow> message option) \<Rightarrow> (string, nat) gomap \<Rightarrow> string list
   \<Rightarrow> (string \<times> string) list \<Rightarrow> Analysis \<Rightarrow> Analysis" where
  "analyze recs verify active path d c st =
     (case map_of active d of
        Some index \<Rightarrow>
          add_issue st CycleIssue d c (drop index path @ [d]) (cycle_error (drop index path @ [d]))
      | None \<Rightarrow>
          if d \<in> set (an_visited st) then st
          else if accepted_for recs d = []
          then add_issue (st\<lparr>an_reachable := List.insert d (an_reachable st),
                             an_visited := d # an_visited st\<rparr>)
                 UnresolvedParentIssue d c []
                 [T ''unresolved lineage parent '', T d, T '' for '', T c]
          else
            (let st' = analyze_parents recs verify (map_set d (length path) active) (path @ [d])
                         (parent_links (accepted_for recs d))
                         (st\<lparr>an_reachable := List.insert d (an_reachable st),
                             an_issues := an_issues st @
                               concat (map (integrity_issue verify) (accepted_for recs d))\<rparr>)
             in st'\<lparr>an_visited := d # an_visited st'\<rparr>))"
| "analyze_parents recs verify active path [] st = st"
| "analyze_parents recs verify active path ((c, d) # ps) st =
     analyze_parents recs verify active path ps (analyze recs verify active path d c st)"
  by pat_completeness auto

termination
  by (relation "measures
       [\<lambda>x. case x of
          Inl (recs, _, active, _) \<Rightarrow> card (accepted_digests recs - fst ` set active)
        | Inr (recs, _, active, _) \<Rightarrow> card (accepted_digests recs - fst ` set active),
        \<lambda>x. case x of Inl _ \<Rightarrow> 0 | Inr (_, _, _, _, ps, _) \<Rightarrow> length ps]")
     (use accepted_shrinks in auto)

declare analyze.simps [simp del]

text \<open>\<open>render\<close> is what \<open>Error()\<close> prints of an error, by which equal issues are ordered; on an error
  the report that is returned beside it is the initial one and is left out.  The code sorts the
  issues with a sort that is not stable: issues of equal kind, digest, custody ID and error text,
  which may come in any order there, stay here in the order in which they were found.\<close>

definition issue_order :: "(message \<Rightarrow> string) \<Rightarrow> LineageIssue \<Rightarrow> string \<times> string \<times> string \<times> string" where
  "issue_order render i = (is_Kind i, is_Digest i, is_CustodyID i, render (is_Error i))"

definition AnalyzeLineage ::
  "(string \<Rightarrow> bool) \<Rightarrow> (message \<Rightarrow> string) \<Rightarrow> message + CustodyRecord list
   \<Rightarrow> (ArtifactReference \<Rightarrow> message option) \<Rightarrow> CustodyRecord \<Rightarrow> message + LineageReport" where
  "AnalyzeLineage uri_ok render listing verify r =
     (case Record_Validate uri_ok r of
        Some err \<Rightarrow> Inl (T ''validate lineage root: '' # err)
      | None \<Rightarrow>
          (case listing of
             Inl err \<Rightarrow> Inl err
           | Inr recs \<Rightarrow>
               (let root = ar_Digest (cu_Artifact r);
                    st = analyze_parents recs verify [(root, 0)] [root]
                           (map (\<lambda>p. (cu_CustodyID r, li_Digest p)) (parents_of r))
                           \<lparr>an_issues = integrity_issue verify r, an_visited = [], an_reachable = [root]\<rparr>
                in Inr \<lparr>lr_CustodyID = cu_CustodyID r, lr_ArtifactDigest = root,
                        lr_Status = (if an_issues st \<noteq> [] then LineageIncomplete else LineageComplete),
                        lr_ReachableDigests = sort (an_reachable st),
                        lr_Issues = sort_key (issue_order render) (an_issues st)\<rparr>)))"

section \<open>The report and the check agree\<close>

lemma integrity_issue_Nil [simp]: "integrity_issue verify c = [] \<longleftrightarrow> verify (cu_Artifact c) = None"
  by (simp add: integrity_issue_def split: option.split)

lemma integrity_issues_Nil:
  "concat (map (integrity_issue verify) cs) = [] \<longleftrightarrow> verify_candidates verify d cs = None"
  by (simp add: verify_candidates_None)

lemma analyze_grows:
  "length (an_issues st) \<le> length (an_issues (analyze recs verify active path d c st))"
  "length (an_issues st) \<le> length (an_issues (analyze_parents recs verify active path ps st))"
proof (induction recs verify active path d c st and recs verify active path ps st
    rule: analyze_analyze_parents.induct)
  case (1 recs verify active path d c st)
  show ?case
  proof (cases "map_of active d = None \<and> d \<notin> set (an_visited st) \<and> accepted_for recs d \<noteq> []")
    case True
    with 1 show ?thesis by (simp add: analyze.simps Let_def)
  qed (auto simp: analyze.simps add_issue_def split: option.split)
qed (auto intro: order_trans)

text \<open>Where the check goes on, the report adds nothing and has visited the same digests; where the
  check stops, the report has one more issue.\<close>

definition agrees :: "Analysis \<Rightarrow> Analysis \<Rightarrow> string list \<Rightarrow> bool" where
  "agrees st st' visited' \<longleftrightarrow>
     an_issues st' = an_issues st \<and> an_visited st' = visited' \<and>
     set (an_visited st) \<subseteq> set visited' \<and>
     (set (an_visited st) \<subseteq> set (an_reachable st) \<longrightarrow>
        set (an_reachable st') = set (an_reachable st) \<union> set visited') \<and>
     (distinct (an_reachable st) \<longrightarrow> distinct (an_reachable st'))"

lemma walk_analyze:
  "walk recs verify i active path d visited = res \<Longrightarrow> an_visited st = visited \<Longrightarrow>
   (\<forall>visited'. res = Inr visited' \<longrightarrow> agrees st (analyze recs verify active path d c st) visited') \<and>
   (\<forall>err. res = Inl err \<longrightarrow>
      length (an_issues st) < length (an_issues (analyze recs verify active path d c st)))"
  "walk_parents recs verify i active path ps visited = res \<Longrightarrow> an_visited st = visited \<Longrightarrow>
   (\<forall>visited'. res = Inr visited' \<longrightarrow> agrees st (analyze_parents recs verify active path ps st) visited') \<and>
   (\<forall>err. res = Inl err \<longrightarrow>
      length (an_issues st) < length (an_issues (analyze_parents recs verify active path ps st)))"
proof (induction recs verify i active path d visited and recs verify i active path ps visited
    arbitrary: res st c and res st rule: walk_walk_parents.induct)
  case (1 recs verify i active path d visited)
  let ?active = "map_set d (length path) active" and ?ps = "parent_links (accepted_for recs d)"
  let ?issues = "concat (map (integrity_issue verify) (accepted_for recs d))"
  let ?st = "st\<lparr>an_reachable := List.insert d (an_reachable st), an_issues := an_issues st @ ?issues\<rparr>"
  show ?case
  proof (cases "map_of active d = None \<and> d \<notin> set visited \<and> accepted_for recs d \<noteq> []")
    case False
    with 1 show ?thesis
      by (auto simp: walk.simps analyze.simps agrees_def add_issue_def split: option.splits)
  next
    case True
    let ?st' = "analyze_parents recs verify ?active (path @ [d]) ?ps ?st"
    have a: "analyze recs verify active path d c st = ?st'\<lparr>an_visited := d # an_visited ?st'\<rparr>"
      using True 1(3) by (simp add: analyze.simps Let_def)
    have grow: "length (an_issues ?st) \<le> length (an_issues ?st')" by (rule analyze_grows)
    show ?thesis
    proof (cases "verify_candidates verify d (accepted_for recs d)")
      case (Some err)
      then have "?issues \<noteq> []" using integrity_issues_Nil[of verify "accepted_for recs d" d] by simp
      then have "0 < length ?issues" by (rule length_greater_0_conv[THEN iffD2])
      moreover have "length (an_issues ?st) = length (an_issues st) + length ?issues" by simp
      ultimately have "length (an_issues st) < length (an_issues ?st')" using grow by linarith
      moreover have "res = Inl err" using 1(2) Some True by (simp add: walk.simps)
      ultimately show ?thesis using a by simp
    next
      case None
      then have "?issues = []" using integrity_issues_Nil[of verify "accepted_for recs d" d] by simp
      then have iss: "an_issues ?st = an_issues st" by simp
      have new: "map_of active d = None" "d \<notin> set visited" "accepted_for recs d \<noteq> []" using True by simp_all
      have v: "an_visited ?st = visited" using 1(3) by simp
      note ih = 1(1)[OF new None refl v]
      show ?thesis
      proof (cases "walk_parents recs verify i ?active (path @ [d]) ?ps visited")
        case (Inl err)
        with ih have "length (an_issues ?st) < length (an_issues ?st')" by blast
        then have "length (an_issues st) < length (an_issues ?st')" unfolding iss .
        moreover have "res = Inl err" using 1(2) Inl None True by (simp add: walk.simps)
        ultimately show ?thesis using a by simp
      next
        case (Inr v')
        with ih have ag: "agrees ?st ?st' v'" by blast
        have "res = Inr (d # v')" using 1(2) Inr None True by (simp add: walk.simps)
        moreover have "agrees st (?st'\<lparr>an_visited := d # an_visited ?st'\<rparr>) (d # v')"
          using ag iss 1(3) by (auto simp: agrees_def)
        ultimately show ?thesis using a by simp
      qed
    qed
  qed
next
  case (3 recs verify i active path p d ps visited)
  let ?st = "analyze recs verify active path d p st"
  show ?case
  proof (cases "walk recs verify i active path d visited")
    case (Inl err)
    with 3(1)[OF refl 3(4), of p] have "length (an_issues st) < length (an_issues ?st)" by blast
    with analyze_grows(2)[of ?st recs verify active path ps] 3(3) Inl show ?thesis by auto
  next
    case (Inr v)
    with 3(1)[OF refl 3(4), of p] have ag: "agrees st ?st v" by blast
    then have v: "an_visited ?st = v" by (simp add: agrees_def)
    from 3(3) Inr have "walk_parents recs verify i active path ps v = res" by simp
    note ih = 3(2)[OF Inr this v]
    show ?thesis
    proof (intro conjI allI impI)
      fix v' assume "res = Inr v'"
      with ih have "agrees ?st (analyze_parents recs verify active path ps ?st) v'" by blast
      with ag v show "agrees st (analyze_parents recs verify active path ((p, d) # ps) st) v'"
        by (auto simp: agrees_def)
    next
      fix err assume "res = Inl err"
      with ih ag show "length (an_issues st) < length (an_issues (analyze_parents recs verify active path ((p, d) # ps) st))"
        by (simp add: agrees_def)
    qed
  qed
qed (auto simp: agrees_def)
lemma walk_roots_analyze:
  "an_visited st = visited \<Longrightarrow>
   let st' = analyze_parents recs verify [(ar_Digest (cu_Artifact r), 0)] [ar_Digest (cu_Artifact r)]
               (map (\<lambda>d. (c, d)) ds) st in
     (an_issues st' = an_issues st \<longleftrightarrow> walk_roots recs verify r ds visited = None) \<and>
     length (an_issues st) \<le> length (an_issues st')"
proof (induction ds arbitrary: visited st)
  case (Cons d ds)
  let ?a = "[(ar_Digest (cu_Artifact r), 0)]" and ?p = "[ar_Digest (cu_Artifact r)]"
  let ?st = "analyze recs verify ?a ?p d c st"
  let ?st' = "analyze_parents recs verify ?a ?p (map (\<lambda>d. (c, d)) ds) ?st"
  have grow: "length (an_issues ?st) \<le> length (an_issues ?st')" by (rule analyze_grows)
  show ?case
  proof (cases "walk recs verify (cu_CustodyID r) ?a ?p d visited")
    case (Inl err)
    with walk_analyze(1)[OF refl Cons.prems, of recs verify "cu_CustodyID r" ?a ?p d c]
    have "length (an_issues st) < length (an_issues ?st)" by blast
    with grow have "length (an_issues st) < length (an_issues ?st')" by simp
    with Inl show ?thesis by (auto simp: Let_def)
  next
    case (Inr v)
    with walk_analyze(1)[OF refl Cons.prems, of recs verify "cu_CustodyID r" ?a ?p d c]
    have "agrees st ?st v" by blast
    then have "an_issues ?st = an_issues st" "an_visited ?st = v" by (simp_all add: agrees_def)
    with Cons.IH[of ?st v] Inr show ?thesis by (simp add: Let_def)
  qed
qed simp

lemma AnalyzeLineage_iff:
  assumes "AnalyzeLineage uri_ok render (Inr recs) verify r = Inr report"
  shows "lr_Status report = LineageComplete \<longleftrightarrow>
         verify (cu_Artifact r) = None \<and> VerifyLineage (Inr recs) verify r = None"
proof -
  let ?st = "\<lparr>an_issues = integrity_issue verify r, an_visited = [],
              an_reachable = [ar_Digest (cu_Artifact r)]\<rparr>"
  let ?st' = "analyze_parents recs verify [(ar_Digest (cu_Artifact r), 0)] [ar_Digest (cu_Artifact r)]
               (map (\<lambda>d. (cu_CustodyID r, d)) (map li_Digest (parents_of r))) ?st"
  have "Record_Validate uri_ok r = None"
    using assms by (cases "Record_Validate uri_ok r") (simp_all add: AnalyzeLineage_def)
  with assms have "lr_Status report = (if an_issues ?st' \<noteq> [] then LineageIncomplete else LineageComplete)"
    by (simp add: AnalyzeLineage_def Let_def comp_def) force
  then have "lr_Status report = LineageComplete \<longleftrightarrow> an_issues ?st' = []" by simp
  also have "\<dots> \<longleftrightarrow> verify (cu_Artifact r) = None \<and> VerifyLineage (Inr recs) verify r = None"
  proof -
    have w: "an_issues ?st' = integrity_issue verify r \<longleftrightarrow> VerifyLineage (Inr recs) verify r = None"
      and le: "length (integrity_issue verify r) \<le> length (an_issues ?st')"
      using walk_roots_analyze[of ?st "[]" recs verify r "cu_CustodyID r" "map li_Digest (parents_of r)"]
      by (simp_all only: Let_def VerifyLineage_def Analysis.simps sum.case refl simp_thms)
    show ?thesis
    proof (cases "verify (cu_Artifact r)")
      case None
      then have none: "integrity_issue verify r = []" by simp
      show ?thesis using w None unfolding none by simp
    next
      case (Some err)
      then have "length (integrity_issue verify r) = 1" by (simp add: integrity_issue_def)
      with le Some show ?thesis by auto
    qed
  qed
  finally show ?thesis .
qed

lemma VerifyRecord_Inr:
  "VerifyRecord get (Inr recs) verify custodyID = Inr r \<longleftrightarrow>
   get custodyID = Inr r \<and> verify (cu_Artifact r) = None \<and> lineage_sound recs verify r"
  by (auto simp: VerifyRecord_def VerifyLineage_iff[symmetric] split: sum.splits option.splits)

definition candidate_passes ::
  "(string \<Rightarrow> message + CustodyRecord) \<Rightarrow> message + CustodyRecord list
   \<Rightarrow> (ArtifactReference \<Rightarrow> message option) \<Rightarrow> CustodyRecord \<Rightarrow> bool" where
  "candidate_passes get listing verify c \<longleftrightarrow> (\<exists>r. VerifyRecord get listing verify (cu_CustodyID c) = Inr r)"

lemma verify_candidates_run:
  "let report' = foldl (verify_candidate get listing verify) report cs;
       ok = candidate_passes get listing verify in
   vp_Checked report' = vp_Checked report + length cs \<and>
   vp_Verified report' = vp_Verified report + length (filter ok cs) \<and>
   vp_Failed report' = vp_Failed report + length (filter (\<lambda>c. \<not> ok c) cs) \<and>
   map vr_CustodyID (vp_Results report') = map vr_CustodyID (vp_Results report) @ map cu_CustodyID cs \<and>
   map (\<lambda>v. vr_Status v = VerificationVerified) (vp_Results report') =
     map (\<lambda>v. vr_Status v = VerificationVerified) (vp_Results report) @ map ok cs"
proof (induction cs arbitrary: report)
  case (Cons c cs)
  show ?case
  proof (cases "VerifyRecord get listing verify (cu_CustodyID c)")
    case (Inl err)
    then have "\<not> candidate_passes get listing verify c" by (simp add: candidate_passes_def)
    with Inl Cons.IH[of "verify_candidate get listing verify report c"] show ?thesis
      by (simp add: Let_def verify_candidate_def)
  next
    case (Inr r)
    then have "candidate_passes get listing verify c" by (simp add: candidate_passes_def)
    with Inr Cons.IH[of "verify_candidate get listing verify report c"] show ?thesis
      by (simp add: Let_def verify_candidate_def)
  qed
qed (simp add: Let_def)

section \<open>Properties\<close>

text \<open>C9. A batch verification reports every record: it counts and lists each candidate once, in
  order, and a record is reported as verified exactly when it can be got, its artifact verifies
  and its lineage is sound: every digest reachable through accepted parents has an accepted
  record, all such records' artifacts verify, and no reachable digest, the root included, lies on
  a cycle.\<close>

theorem batch_report_exact:
  assumes "VerifyAll get (Inr recs) verify = Inr report"
  shows "vp_Checked report = length recs \<and> vp_Verified report + vp_Failed report = length recs \<and>
         map vr_CustodyID (vp_Results report) = map cu_CustodyID recs \<and>
         map (\<lambda>v. vr_Status v = VerificationVerified) (vp_Results report) =
           map (\<lambda>c. \<exists>r. get (cu_CustodyID c) = Inr r \<and> verify (cu_Artifact r) = None \<and>
                  lineage_sound recs verify r) recs"
proof -
  let ?ok = "candidate_passes get (Inr recs) verify"
  have ok: "?ok = (\<lambda>c. \<exists>r. get (cu_CustodyID c) = Inr r \<and> verify (cu_Artifact r) = None \<and>
                  lineage_sound recs verify r)"
    by (simp add: candidate_passes_def VerifyRecord_Inr fun_eq_iff)
  from assms have "report = VerifyRecords get (Inr recs) verify recs" by (simp add: VerifyAll_def)
  with verify_candidates_run[of get "Inr recs" verify] show ?thesis
    unfolding ok[symmetric] by (simp add: VerifyRecords_def Let_def sum_length_filter_compl)
qed

definition sample_child :: CustodyRecord where
  "sample_child = sample_custody
     \<lparr>cu_CustodyID := ''rec-2'',
      cu_Artifact := \<lparr>ar_Schema = ArtifactSchema, ar_Digest = digest_of body_b, ar_SizeBytes = 4,
        ar_MediaType = ''text/plain'', ar_LogicalName = []\<rparr>,
      cu_Parents := Some [\<lparr>li_Relation = DerivedFrom, li_Digest = digest_of body_a\<rparr>]\<rparr>"

definition sample_get_record :: "string \<Rightarrow> message + CustodyRecord" where
  "sample_get_record i = (if i = ''rec-1'' then Inr sample_custody
     else if i = ''rec-2'' then Inr sample_child else Inl [])"

theorem batch_report_exact_witness:
  "\<exists>report. VerifyAll sample_get_record (Inr [sample_custody, sample_child]) (\<lambda>_. None) = Inr report \<and>
     vp_Checked report = 2"
  using batch_report_exact[of sample_get_record "[sample_custody, sample_child]" "\<lambda>_. None"]
  by (simp add: VerifyAll_def)

text \<open>The lineage report and the lineage check agree: the report of a valid record is complete
  exactly when the artifact of the record verifies and \<open>VerifyLineage\<close> accepts it, although one
  collects every problem and the other stops at the first.\<close>

theorem report_agrees_with_check:
  assumes "AnalyzeLineage uri_ok render (Inr recs) verify r = Inr report"
  shows "lr_Status report = LineageComplete \<longleftrightarrow>
         verify (cu_Artifact r) = None \<and> VerifyLineage (Inr recs) verify r = None"
  using assms by (rule AnalyzeLineage_iff)

lemma sample_analysis:
  "\<exists>report. AnalyzeLineage (\<lambda>_. True) (\<lambda>_. []) (Inr [sample_custody, sample_child]) (\<lambda>_. None) sample_child = Inr report"
proof -
  have "Record_Validate (\<lambda>_. True) sample_child = None" by code_simp
  then show ?thesis by (simp add: AnalyzeLineage_def Let_def)
qed

theorem report_agrees_with_check_witness:
  "\<exists>report. AnalyzeLineage (\<lambda>_. True) (\<lambda>_. []) (Inr [sample_custody, sample_child]) (\<lambda>_. None) sample_child =
      Inr report \<and> lr_Status report = LineageComplete"
proof -
  obtain report where
    r: "AnalyzeLineage (\<lambda>_. True) (\<lambda>_. []) (Inr [sample_custody, sample_child]) (\<lambda>_. None) sample_child = Inr report"
    using sample_analysis by blast
  have "walk_roots [sample_custody, sample_child] (\<lambda>_. None) sample_child (map li_Digest (parents_of sample_child)) [] = None"
    by code_simp
  then have "VerifyLineage (Inr [sample_custody, sample_child]) (\<lambda>_. None) sample_child = None"
    by (simp add: VerifyLineage_def)
  with report_agrees_with_check[OF r] r show ?thesis by blast
qed
end
