(* ===== verification/LockwoodRedaction.thy ===== *)
theory LockwoodRedaction
  imports LockwoodLineage
begin

text \<open>
  lockwood/internal/custody/redaction_promotion.go and redaction_status.go: anchoring the result of
  a registered redaction in a custody record of its own, and the report that connects an event
  to its artifacts and records.  The stores are the arguments \<open>get\<close>, \<open>listing\<close>, \<open>put\<close>,
  \<open>getEvent\<close>, \<open>verify_digest\<close> (\<open>Verify\<close> of a digest) and \<open>verify\<close> (\<open>VerifyReference\<close>); the
  checks for nil interfaces are left out.  An error is returned without the partial report that
  the code returns beside it.
\<close>

section \<open>Promotion\<close>

record RedactionPromotionRequest =
  rp_Schema :: string
  rp_CustodyID :: string
  rp_Artifact :: ArtifactReference
  rp_ReceivedAt :: stamp
  rp_Producer :: Producer
  rp_Source :: Source
  rp_Handling :: Handling

definition findAcceptedArtifactRecord ::
  "(ArtifactReference \<Rightarrow> message option) \<Rightarrow> message + CustodyRecord list \<Rightarrow> string \<Rightarrow> message + CustodyRecord" where
  "findAcceptedArtifactRecord verify listing digest =
     (case listing of
        Inl err \<Rightarrow> Inl (T ''list custody records for redaction source: '' # err)
      | Inr items \<Rightarrow>
          (case List.find (\<lambda>r. cu_Status r = Accepted \<and> ar_Digest (cu_Artifact r) = digest) items of
             Some r \<Rightarrow>
               (case verify (cu_Artifact r) of
                  Some err \<Rightarrow> Inl ([T ''verify accepted redaction source record '', Q (cu_CustodyID r),
                                    T '': ''] @ err)
                | None \<Rightarrow> Inr r)
           | None \<Rightarrow> Inl [T ''no accepted custody record anchors redaction source artifact '', T digest]))"

text \<open>The guards on the event and the source, and the event they accept with the source record.\<close>

definition promotion_source ::
  "(string \<Rightarrow> bool) \<Rightarrow> (string \<Rightarrow> message option) \<Rightarrow> (ArtifactReference \<Rightarrow> message option)
   \<Rightarrow> (string \<Rightarrow> message + CustodyRecord) \<Rightarrow> message + CustodyRecord list
   \<Rightarrow> (string \<Rightarrow> string \<Rightarrow> message + HandlingEvent) \<Rightarrow> string \<Rightarrow> string
   \<Rightarrow> RedactionPromotionRequest \<Rightarrow> message + HandlingEvent \<times> CustodyRecord" where
  "promotion_source uri_ok verify_digest verify get listing getEvent sourceCustodyID eventID q =
     (case getEvent sourceCustodyID eventID of
        Inl err \<Rightarrow> Inl (T ''read redaction event: '' # err)
      | Inr e \<Rightarrow>
          (case first_some
                  [fail_if (he_Type e \<noteq> RedactionEvent)
                     [T ''event '', Q eventID, T '' is not a redaction event''],
                   wrap_err (\<lambda>err. T ''validate redaction event: '' # err) (HandlingEvent_Validate e),
                   fail_if (rp_CustodyID q = sourceCustodyID)
                     [T ''promoted custody ID must differ from source custody ID''],
                   fail_if (is_zero (instant_at (rp_ReceivedAt q))) [T ''promotion received_at is required''],
                   fail_if (ar_Digest (rp_Artifact q) \<noteq> he_ResultingDigest e)
                     [T ''promotion artifact digest '', T (ar_Digest (rp_Artifact q)),
                      T '' does not match redaction result '', T (he_ResultingDigest e)],
                   wrap_err (\<lambda>err. T ''verify redaction source artifact: '' # err)
                     (verify_digest (he_OriginalDigest e)),
                   wrap_err (\<lambda>err. T ''verify redaction result artifact: '' # err) (verify (rp_Artifact q))] of
             Some err \<Rightarrow> Inl err
           | None \<Rightarrow>
               (case get sourceCustodyID of
                  Inl err \<Rightarrow> Inl (T ''read source custody record: '' # err)
                | Inr r \<Rightarrow>
                    (case first_some
                            [wrap_err (\<lambda>err. T ''validate source custody record: '' # err)
                               (Record_Validate uri_ok r),
                             fail_if (cu_Status r \<noteq> Accepted)
                               [T ''source custody record '', Q sourceCustodyID, T '' is not accepted''],
                             wrap_err (\<lambda>err. T ''verify source custody record artifact: '' # err)
                               (verify (cu_Artifact r))] of
                       Some err \<Rightarrow> Inl err
                     | None \<Rightarrow>
                         (case findAcceptedArtifactRecord verify listing (he_OriginalDigest e) of
                            Inl err \<Rightarrow> Inl err
                          | Inr _ \<Rightarrow> Inr (e, r))))))"

text \<open>The defaults of the request, its checks in between, and the record that is built.\<close>

definition promotion_defaults :: "CustodyRecord \<Rightarrow> RedactionPromotionRequest \<Rightarrow> RedactionPromotionRequest" where
  "promotion_defaults source q =
     (let h = rp_Handling q;
          h = (if ha_Redaction h = [] then h\<lparr>ha_Redaction := ''redacted''\<rparr> else h);
          h = (if ha_RetentionClass h = [] then h\<lparr>ha_RetentionClass := ''default''\<rparr> else h)
      in q\<lparr>rp_Schema := (if rp_Schema q = [] then cu_Schema source else rp_Schema q), rp_Handling := h\<rparr>)"

definition promotion_request_problem :: "(string \<Rightarrow> bool) \<Rightarrow> RedactionPromotionRequest \<Rightarrow> message option" where
  "promotion_request_problem uri_ok q =
     first_some
       [fail_if (rp_Schema q \<noteq> SchemaV1 \<and> rp_Schema q \<noteq> SchemaV2)
          [T ''unexpected custody schema '', Q (rp_Schema q)],
        fail_if (\<not> custodyIDPattern (rp_CustodyID q)) [T ''invalid custody id '', Q (rp_CustodyID q)],
        fail_if (blank (ar_MediaType (rp_Artifact q))) [T ''promotion artifact media type is required''],
        fail_if (blank (pd_Tool (rp_Producer q)) \<or> blank (pd_Kind (rp_Producer q)))
          [T ''promotion producer tool and kind are required''],
        Source_validate uri_ok (rp_Schema q) (rp_Source q),
        fail_if (ha_Redaction (rp_Handling q) \<noteq> ''redacted'')
          [T ''promoted redaction result requires redaction status '', Q ''redacted'']]"

definition promoted_record :: "RedactionPromotionRequest \<Rightarrow> HandlingEvent \<Rightarrow> CustodyRecord" where
  "promoted_record q e =
     \<lparr>cu_Schema = rp_Schema q, cu_CustodyID = rp_CustodyID q, cu_Status = Accepted,
      cu_Artifact = rp_Artifact q, cu_ReceivedAt = UTC (rp_ReceivedAt q), cu_Producer = rp_Producer q,
      cu_Custodian = \<lparr>cs_Tool = ''lockwood'', cs_Version = []\<rparr>, cu_Source = rp_Source q,
      cu_Integrity = \<lparr>in_Status = IntegrityVerified, in_Method = SHA256Algorithm,
                      in_VerifiedAt = Some (UTC (rp_ReceivedAt q))\<rparr>,
      cu_Parents = Some [\<lparr>li_Relation = DerivedFrom, li_Digest = he_OriginalDigest e\<rparr>],
      cu_Handling = rp_Handling q\<rparr>"

definition PromoteRedactionResult ::
  "(string \<Rightarrow> bool) \<Rightarrow> (string \<Rightarrow> message option) \<Rightarrow> (ArtifactReference \<Rightarrow> message option)
   \<Rightarrow> ('s \<Rightarrow> string \<Rightarrow> message + CustodyRecord) \<Rightarrow> ('s \<Rightarrow> message + CustodyRecord list)
   \<Rightarrow> ('s \<Rightarrow> CustodyRecord \<Rightarrow> message + 's) \<Rightarrow> ('s \<Rightarrow> string \<Rightarrow> string \<Rightarrow> message + HandlingEvent)
   \<Rightarrow> 's \<Rightarrow> string \<Rightarrow> string \<Rightarrow> RedactionPromotionRequest \<Rightarrow> message + CustodyRecord \<times> 's" where
  "PromoteRedactionResult uri_ok verify_digest verify get listing put getEvent s sourceCustodyID eventID q =
     (case promotion_source uri_ok verify_digest verify (get s) (listing s) (getEvent s)
             sourceCustodyID eventID q of
        Inl err \<Rightarrow> Inl err
      | Inr (e, source) \<Rightarrow>
          (let q = promotion_defaults source q; r = promoted_record q e in
           case first_some
                  [promotion_request_problem uri_ok q,
                   wrap_err (\<lambda>err. T ''validate promoted custody record: '' # err) (Record_Validate uri_ok r)] of
             Some err \<Rightarrow> Inl err
           | None \<Rightarrow>
               (case put s r of
                  Inl err \<Rightarrow> Inl (T ''publish promoted custody record: '' # err)
                | Inr s' \<Rightarrow> Inr (r, s'))))"

section \<open>The status of a redaction\<close>

abbreviation RedactionComplete :: string where "RedactionComplete \<equiv> ''complete''"
abbreviation RedactionUnanchored :: string where "RedactionUnanchored \<equiv> ''result-unanchored''"
abbreviation RedactionIncomplete :: string where "RedactionIncomplete \<equiv> ''incomplete''"

record RedactionIssue =
  ri_Kind :: string
  ri_Digest :: string
  ri_CustodyID :: string
  ri_Error :: message

record RedactionStatus =
  rd_SourceCustodyID :: string
  rd_SourceArtifactDigest :: string
  rd_EventID :: string
  rd_EventRecordedAt :: stamp
  rd_OriginalDigest :: string
  rd_ResultingDigest :: string
  rd_OriginalArtifactVerified :: bool
  rd_ResultingArtifactVerified :: bool
  rd_OriginalCustodyIDs :: "string list"
  rd_ResultCustodyIDs :: "string list"
  rd_PromotedCustodyIDs :: "string list"
  rd_Status :: string
  rd_Issues :: "RedactionIssue list"

definition hasDerivedFromParent :: "CustodyRecord \<Rightarrow> string \<Rightarrow> bool" where
  "hasDerivedFromParent r digest \<longleftrightarrow>
     list_ex (\<lambda>p. li_Relation p = DerivedFrom \<and> li_Digest p = digest) (parents_of r)"

text \<open>One record of the listing: the report grows, or the analysis of its lineage fails.\<close>

definition redaction_candidate ::
  "(ArtifactReference \<Rightarrow> message option) \<Rightarrow> (CustodyRecord \<Rightarrow> message + LineageReport) \<Rightarrow> HandlingEvent
   \<Rightarrow> CustodyRecord \<Rightarrow> RedactionStatus \<Rightarrow> message + RedactionStatus" where
  "redaction_candidate verify lineage e c st =
     (if cu_Status c \<noteq> Accepted then Inr st
      else
        (let st = (if ar_Digest (cu_Artifact c) = he_OriginalDigest e
                   then st\<lparr>rd_OriginalCustodyIDs := rd_OriginalCustodyIDs st @ [cu_CustodyID c]\<rparr> else st)
         in if ar_Digest (cu_Artifact c) \<noteq> he_ResultingDigest e then Inr st
            else
              (let st = st\<lparr>rd_ResultCustodyIDs := rd_ResultCustodyIDs st @ [cu_CustodyID c]\<rparr>;
                   st = (case verify (cu_Artifact c) of
                           None \<Rightarrow> st
                         | Some err \<Rightarrow> st\<lparr>rd_Issues := rd_Issues st @
                             [\<lparr>ri_Kind = ''result-custody-integrity'', ri_Digest = he_ResultingDigest e,
                               ri_CustodyID = cu_CustodyID c, ri_Error = err\<rparr>]\<rparr>)
               in if \<not> hasDerivedFromParent c (he_OriginalDigest e) then Inr st
                  else
                    (case lineage c of
                       Inl err \<Rightarrow> Inl (T ''analyze promoted redaction lineage: '' # err)
                     | Inr report \<Rightarrow>
                         (let st = st\<lparr>rd_PromotedCustodyIDs := rd_PromotedCustodyIDs st @ [cu_CustodyID c]\<rparr>
                          in Inr (if lr_Status report = LineageComplete then st
                                  else st\<lparr>rd_Issues := rd_Issues st @
                                    [\<lparr>ri_Kind = ''result-lineage-incomplete'',
                                      ri_Digest = he_ResultingDigest e, ri_CustodyID = cu_CustodyID c,
                                      ri_Error = [T ''promoted result custody lineage is incomplete'']\<rparr>]\<rparr>))))))"

fun redaction_candidates ::
  "(ArtifactReference \<Rightarrow> message option) \<Rightarrow> (CustodyRecord \<Rightarrow> message + LineageReport) \<Rightarrow> HandlingEvent
   \<Rightarrow> CustodyRecord list \<Rightarrow> RedactionStatus \<Rightarrow> message + RedactionStatus" where
  "redaction_candidates verify lineage e [] st = Inr st"
| "redaction_candidates verify lineage e (c # cs) st =
     (case redaction_candidate verify lineage e c st of
        Inl err \<Rightarrow> Inl err
      | Inr st \<Rightarrow> redaction_candidates verify lineage e cs st)"

definition redaction_artifacts ::
  "(string \<Rightarrow> message option) \<Rightarrow> HandlingEvent \<Rightarrow> RedactionStatus \<Rightarrow> RedactionStatus" where
  "redaction_artifacts verify_digest e st =
     (let st = (case verify_digest (he_OriginalDigest e) of
                  Some err \<Rightarrow> st\<lparr>rd_Issues := rd_Issues st @
                    [\<lparr>ri_Kind = ''original-artifact-integrity'', ri_Digest = he_OriginalDigest e,
                      ri_CustodyID = [], ri_Error = err\<rparr>]\<rparr>
                | None \<Rightarrow> st\<lparr>rd_OriginalArtifactVerified := True\<rparr>)
      in case verify_digest (he_ResultingDigest e) of
           Some err \<Rightarrow> st\<lparr>rd_Issues := rd_Issues st @
             [\<lparr>ri_Kind = ''resulting-artifact-integrity'', ri_Digest = he_ResultingDigest e,
               ri_CustodyID = [], ri_Error = err\<rparr>]\<rparr>
         | None \<Rightarrow> st\<lparr>rd_ResultingArtifactVerified := True\<rparr>)"

definition redaction_start :: "string \<Rightarrow> CustodyRecord \<Rightarrow> string \<Rightarrow> HandlingEvent \<Rightarrow> RedactionStatus" where
  "redaction_start sourceCustodyID source eventID e =
     \<lparr>rd_SourceCustodyID = sourceCustodyID, rd_SourceArtifactDigest = ar_Digest (cu_Artifact source),
      rd_EventID = eventID, rd_EventRecordedAt = he_RecordedAt e,
      rd_OriginalDigest = he_OriginalDigest e, rd_ResultingDigest = he_ResultingDigest e,
      rd_OriginalArtifactVerified = False, rd_ResultingArtifactVerified = False,
      rd_OriginalCustodyIDs = [], rd_ResultCustodyIDs = [], rd_PromotedCustodyIDs = [],
      rd_Status = RedactionIncomplete,
      rd_Issues = problem (cu_Status source \<noteq> Accepted)
        \<lparr>ri_Kind = ''source-not-accepted'', ri_Digest = [], ri_CustodyID = cu_CustodyID source,
         ri_Error = [T ''source custody record is not accepted'']\<rparr>\<rparr>"

definition redaction_finish :: "RedactionStatus \<Rightarrow> RedactionStatus" where
  "redaction_finish st = st
     \<lparr>rd_OriginalCustodyIDs := sort (rd_OriginalCustodyIDs st),
      rd_ResultCustodyIDs := sort (rd_ResultCustodyIDs st),
      rd_PromotedCustodyIDs := sort (rd_PromotedCustodyIDs st),
      rd_Status := (if rd_Issues st \<noteq> [] then RedactionIncomplete
                    else if rd_PromotedCustodyIDs st = [] then RedactionUnanchored
                    else RedactionComplete)\<rparr>"

definition AnalyzeRedaction ::
  "(string \<Rightarrow> bool) \<Rightarrow> (message \<Rightarrow> string) \<Rightarrow> (string \<Rightarrow> message option) \<Rightarrow> (ArtifactReference \<Rightarrow> message option)
   \<Rightarrow> (string \<Rightarrow> message + CustodyRecord) \<Rightarrow> message + CustodyRecord list
   \<Rightarrow> (string \<Rightarrow> string \<Rightarrow> message + HandlingEvent) \<Rightarrow> string \<Rightarrow> string \<Rightarrow> message + RedactionStatus" where
  "AnalyzeRedaction uri_ok render verify_digest verify get listing getEvent sourceCustodyID eventID =
     (case get sourceCustodyID of
        Inl err \<Rightarrow> Inl (T ''read source custody record: '' # err)
      | Inr source \<Rightarrow>
          (case Record_Validate uri_ok source of
             Some err \<Rightarrow> Inl (T ''validate source custody record: '' # err)
           | None \<Rightarrow>
               (case getEvent sourceCustodyID eventID of
                  Inl err \<Rightarrow> Inl (T ''read redaction event: '' # err)
                | Inr e \<Rightarrow>
                    (case first_some
                            [fail_if (he_Type e \<noteq> RedactionEvent)
                               [T ''event '', Q eventID, T '' is not a redaction event''],
                             wrap_err (\<lambda>err. T ''validate redaction event: '' # err) (HandlingEvent_Validate e)] of
                       Some err \<Rightarrow> Inl err
                     | None \<Rightarrow>
                         (let st = redaction_artifacts verify_digest e
                                     (redaction_start sourceCustodyID source eventID e)
                          in case listing of
                               Inl err \<Rightarrow> Inl (T ''list custody records: '' # err)
                             | Inr recs \<Rightarrow>
                                 map_sum id redaction_finish
                                   (redaction_candidates verify
                                      (AnalyzeLineage uri_ok render listing verify) e recs st))))))"

section \<open>What a promotion went through\<close>

lemma findAccepted_Inr:
  "findAcceptedArtifactRecord verify listing d = Inr r \<Longrightarrow>
   \<exists>items. listing = Inr items \<and> r \<in> set items \<and> cu_Status r = Accepted \<and>
     ar_Digest (cu_Artifact r) = d \<and> verify (cu_Artifact r) = None"
  by (auto simp: findAcceptedArtifactRecord_def find_Some_iff split: sum.splits option.splits)

lemma promotion_source_Inr:
  assumes "promotion_source uri_ok verify_digest verify get listing getEvent src ev q = Inr (e, r)"
  shows "getEvent src ev = Inr e \<and> he_Type e = RedactionEvent \<and> HandlingEvent_Validate e = None \<and>
    rp_CustodyID q \<noteq> src \<and> ar_Digest (rp_Artifact q) = he_ResultingDigest e \<and>
    verify_digest (he_OriginalDigest e) = None \<and> verify (rp_Artifact q) = None \<and>
    get src = Inr r \<and> Record_Validate uri_ok r = None \<and> cu_Status r = Accepted \<and>
    verify (cu_Artifact r) = None \<and>
    (\<exists>anchor items. listing = Inr items \<and> anchor \<in> set items \<and> cu_Status anchor = Accepted \<and>
       ar_Digest (cu_Artifact anchor) = he_OriginalDigest e \<and> verify (cu_Artifact anchor) = None)"
proof -
  from assms obtain x where e: "getEvent src ev = Inr e" and r: "get src = Inr r"
    and x: "findAcceptedArtifactRecord verify listing (he_OriginalDigest e) = Inr x"
    by (auto simp: promotion_source_def split: sum.splits option.splits)
  with assms show ?thesis using findAccepted_Inr[OF x]
    by (auto simp: promotion_source_def e r x first_some_Cons_None split: option.splits)
qed

lemma promotion_defaults_simps [simp]:
  "rp_CustodyID (promotion_defaults r q) = rp_CustodyID q"
  "rp_Artifact (promotion_defaults r q) = rp_Artifact q"
  by (simp_all add: promotion_defaults_def Let_def)

lemma promoted_record_simps [simp]:
  "cu_CustodyID (promoted_record q e) = rp_CustodyID q" "cu_Status (promoted_record q e) = Accepted"
  "cu_Artifact (promoted_record q e) = rp_Artifact q"
  "normalizeRecord (promoted_record q e) = promoted_record q e"
  "hasDerivedFromParent (promoted_record q e) (he_OriginalDigest e)"
  "cu_Handling (promoted_record q e) = rp_Handling q"
  "cu_Parents (promoted_record q e) = Some [\<lparr>li_Relation = DerivedFrom, li_Digest = he_OriginalDigest e\<rparr>]"
  by (simp_all add: promoted_record_def normalizeRecord_def hasDerivedFromParent_def)

lemma Promote_Inr:
  assumes "PromoteRedactionResult uri_ok vd verify get listing put getEvent s src ev q = Inr (r, s')"
  obtains e source q' where "promotion_source uri_ok vd verify (get s) (listing s) (getEvent s) src ev q = Inr (e, source)"
    "q' = promotion_defaults source q" "r = promoted_record q' e" "promotion_request_problem uri_ok q' = None"
    "Record_Validate uri_ok r = None" "put s r = Inr s'"
  using assms
  by (auto simp: PromoteRedactionResult_def Let_def first_some_Cons_None split: sum.splits option.splits)

section \<open>What the status says\<close>

definition results_of :: "HandlingEvent \<Rightarrow> CustodyRecord list \<Rightarrow> CustodyRecord list" where
  "results_of e recs = accepted_for recs (he_ResultingDigest e)"

definition promotions_of :: "HandlingEvent \<Rightarrow> CustodyRecord list \<Rightarrow> CustodyRecord list" where
  "promotions_of e recs = filter (\<lambda>c. hasDerivedFromParent c (he_OriginalDigest e)) (results_of e recs)"

lemma redaction_candidate_Inr:
  assumes "redaction_candidate verify lineage e c st = Inr st'"
  shows "rd_ResultCustodyIDs st' = rd_ResultCustodyIDs st @ map cu_CustodyID (results_of e [c]) \<and>
    rd_PromotedCustodyIDs st' = rd_PromotedCustodyIDs st @ map cu_CustodyID (promotions_of e [c]) \<and>
    (rd_Issues st' = [] \<longleftrightarrow> rd_Issues st = [] \<and> (\<forall>c \<in> set (results_of e [c]). verify (cu_Artifact c) = None) \<and>
       (\<forall>c \<in> set (promotions_of e [c]). \<exists>report. lineage c = Inr report \<and> lr_Status report = LineageComplete)) \<and>
   (\<forall>c \<in> set (promotions_of e [c]). \<exists>report. lineage c = Inr report)"
  using assms
  by (auto simp: redaction_candidate_def Let_def results_of_def promotions_of_def accepted_for_def
      split: if_splits option.splits sum.splits)

lemma results_Cons: "results_of e (c # cs) = results_of e [c] @ results_of e cs"
  by (simp add: results_of_def accepted_for_def)

lemma promotions_Cons: "promotions_of e (c # cs) = promotions_of e [c] @ promotions_of e cs"
  unfolding promotions_of_def by (subst results_Cons) simp

lemma redaction_candidates_Inr:
  "redaction_candidates verify lineage e cs st = Inr st' \<Longrightarrow>
   rd_ResultCustodyIDs st' = rd_ResultCustodyIDs st @ map cu_CustodyID (results_of e cs) \<and>
   rd_PromotedCustodyIDs st' = rd_PromotedCustodyIDs st @ map cu_CustodyID (promotions_of e cs) \<and>
   (rd_Issues st' = [] \<longleftrightarrow> rd_Issues st = [] \<and> (\<forall>c \<in> set (results_of e cs). verify (cu_Artifact c) = None) \<and>
      (\<forall>c \<in> set (promotions_of e cs). \<exists>report. lineage c = Inr report \<and> lr_Status report = LineageComplete)) \<and>
   (\<forall>c \<in> set (promotions_of e cs). \<exists>report. lineage c = Inr report)"
proof (induction cs arbitrary: st)
  case Nil
  then show ?case by (simp add: results_of_def promotions_of_def accepted_for_def)
next
  case (Cons c cs)
  then obtain st1 where c: "redaction_candidate verify lineage e c st = Inr st1"
    and cs: "redaction_candidates verify lineage e cs st1 = Inr st'" by (auto split: sum.splits)
  from redaction_candidate_Inr[OF c] Cons.IH[OF cs] show ?case
    unfolding results_Cons[of e c cs] promotions_Cons[of e c cs] by auto
qed

lemma redaction_candidates_run:
  "(\<And>c. c \<in> set cs \<Longrightarrow> \<exists>report. lineage c = Inr report) \<Longrightarrow>
   \<exists>st'. redaction_candidates verify lineage e cs st = Inr st'"
proof (induction cs arbitrary: st)
  case (Cons c cs)
  then obtain report where "lineage c = Inr report" by fastforce
  then have "\<exists>st1. redaction_candidate verify lineage e c st = Inr st1"
    by (simp add: redaction_candidate_def Let_def)
  with Cons show ?case by fastforce
qed simp

lemma redaction_artifacts_simps [simp]:
  "rd_ResultCustodyIDs (redaction_artifacts vd e st) = rd_ResultCustodyIDs st"
  "rd_PromotedCustodyIDs (redaction_artifacts vd e st) = rd_PromotedCustodyIDs st"
  "rd_Issues (redaction_artifacts vd e st) = [] \<longleftrightarrow>
     rd_Issues st = [] \<and> vd (he_OriginalDigest e) = None \<and> vd (he_ResultingDigest e) = None"
  by (auto simp: redaction_artifacts_def Let_def split: option.splits)

text \<open>Nothing is wrong with the artifacts, the source and the records of a redaction.\<close>

definition redaction_intact ::
  "(string \<Rightarrow> message option) \<Rightarrow> (ArtifactReference \<Rightarrow> message option) \<Rightarrow> CustodyRecord list
   \<Rightarrow> CustodyRecord \<Rightarrow> HandlingEvent \<Rightarrow> bool" where
  "redaction_intact verify_digest verify recs source e \<longleftrightarrow>
     cu_Status source = Accepted \<and> verify_digest (he_OriginalDigest e) = None \<and>
     verify_digest (he_ResultingDigest e) = None \<and>
     (\<forall>c \<in> set (results_of e recs). verify (cu_Artifact c) = None) \<and>
     (\<forall>c \<in> set (promotions_of e recs). VerifyLineage (Inr recs) verify c = None)"

lemma promotions_results: "c \<in> set (promotions_of e recs) \<Longrightarrow> c \<in> set (results_of e recs)"
  by (simp add: promotions_of_def)

lemma redaction_start_simps [simp]:
  "rd_ResultCustodyIDs (redaction_start src source ev e) = []"
  "rd_PromotedCustodyIDs (redaction_start src source ev e) = []"
  "rd_Issues (redaction_start src source ev e) = [] \<longleftrightarrow> cu_Status source = Accepted"
  by (simp_all add: redaction_start_def)

lemma AnalyzeRedaction_parts:
  assumes "AnalyzeRedaction uri_ok render vd verify get (Inr recs) getEvent src ev = Inr st"
  obtains source e st1 where "get src = Inr source" "getEvent src ev = Inr e" "st = redaction_finish st1"
    "redaction_candidates verify (AnalyzeLineage uri_ok render (Inr recs) verify) e recs
       (redaction_artifacts vd e (redaction_start src source ev e)) = Inr st1"
proof -
  from assms obtain source e where g: "get src = Inr source" "getEvent src ev = Inr e"
    and m: "map_sum id redaction_finish (redaction_candidates verify
      (AnalyzeLineage uri_ok render (Inr recs) verify) e recs
      (redaction_artifacts vd e (redaction_start src source ev e))) = Inr st"
    by (auto simp: AnalyzeRedaction_def Let_def split: sum.splits option.splits)
  then show thesis
    using that[OF g] by (cases "redaction_candidates verify (AnalyzeLineage uri_ok render (Inr recs) verify) e recs
      (redaction_artifacts vd e (redaction_start src source ev e))") auto
qed

lemma AnalyzeRedaction_Inr:
  assumes "AnalyzeRedaction uri_ok render vd verify get (Inr recs) getEvent src ev = Inr st"
  shows "\<exists>source e. get src = Inr source \<and> getEvent src ev = Inr e \<and>
    rd_PromotedCustodyIDs st = sort (map cu_CustodyID (promotions_of e recs)) \<and>
    rd_ResultCustodyIDs st = sort (map cu_CustodyID (results_of e recs)) \<and>
    rd_Status st =
      (if \<not> redaction_intact vd verify recs source e then RedactionIncomplete
       else if promotions_of e recs = [] then RedactionUnanchored else RedactionComplete)"
proof -
  let ?lin = "AnalyzeLineage uri_ok render (Inr recs) verify"
  from assms obtain source e st1 where g: "get src = Inr source" "getEvent src ev = Inr e"
    and st: "st = redaction_finish st1"
    and run: "redaction_candidates verify ?lin e recs
      (redaction_artifacts vd e (redaction_start src source ev e)) = Inr st1"
    by (rule AnalyzeRedaction_parts)
  note r = redaction_candidates_Inr[OF run]
  have ran: "\<exists>report. ?lin c = Inr report" if "c \<in> set (promotions_of e recs)" for c using r that by blast
  have lin: "(\<exists>report. ?lin c = Inr report \<and> lr_Status report = LineageComplete) \<longleftrightarrow>
      verify (cu_Artifact c) = None \<and> VerifyLineage (Inr recs) verify c = None"
    if "c \<in> set (promotions_of e recs)" for c
    using AnalyzeLineage_iff ran[OF that] by fastforce
  have "rd_Issues st1 = [] \<longleftrightarrow> redaction_intact vd verify recs source e"
    using r lin promotions_results[of _ e recs] unfolding redaction_intact_def
    by (simp, blast)
  moreover have "rd_PromotedCustodyIDs st1 = map cu_CustodyID (promotions_of e recs)"
    "rd_ResultCustodyIDs st1 = map cu_CustodyID (results_of e recs)" using r by simp_all
  ultimately show ?thesis using g by (simp add: st redaction_finish_def)
qed

section \<open>Over the two memory stores\<close>

definition Memory_Promote ::
  "(string \<Rightarrow> string) \<Rightarrow> Encoding \<Rightarrow> ArtifactMemory \<Rightarrow> Memory \<Rightarrow> string \<Rightarrow> string
   \<Rightarrow> RedactionPromotionRequest \<Rightarrow> message + CustodyRecord \<times> Memory" where
  "Memory_Promote sha en a =
     PromoteRedactionResult (en_uri_ok en) (Blob_Verify sha a) (Blob_VerifyReference sha a) Memory_Get
       (\<lambda>c. Inr (Memory_List c)) (Memory_Put en) Memory_GetEvent"

definition Memory_AnalyzeRedaction ::
  "(string \<Rightarrow> string) \<Rightarrow> Encoding \<Rightarrow> (message \<Rightarrow> string) \<Rightarrow> ArtifactMemory \<Rightarrow> Memory \<Rightarrow> string \<Rightarrow> string
   \<Rightarrow> message + RedactionStatus" where
  "Memory_AnalyzeRedaction sha en render a c =
     AnalyzeRedaction (en_uri_ok en) render (Blob_Verify sha a) (Blob_VerifyReference sha a) (Memory_Get c)
       (Inr (Memory_List c)) (Memory_GetEvent c)"

datatype CustodyOp =
    TakeIn Intake
  | Handle HandlingEvent
  | Register HandlingEvent
  | Promote string string RedactionPromotionRequest

fun custody_op ::
  "(string \<Rightarrow> string) \<Rightarrow> (ArtifactReference \<Rightarrow> message + string) \<Rightarrow> Encoding
   \<Rightarrow> ArtifactMemory \<times> Memory \<Rightarrow> CustodyOp \<Rightarrow> ArtifactMemory \<times> Memory" where
  "custody_op sha en_ref en s (TakeIn x) = intake_step sha en_ref en s x"
| "custody_op sha en_ref en s (Handle e) =
     (case Memory_AppendEvent en (snd s) e of Inl err \<Rightarrow> s | Inr c \<Rightarrow> (fst s, c))"
| "custody_op sha en_ref en s (Register e) =
     (case Memory_RegisterRedaction en sha (Blob_Verify sha (fst s)) (snd s) e of
        Inl err \<Rightarrow> s | Inr (d, c) \<Rightarrow> (fst s, c))"
| "custody_op sha en_ref en s (Promote src ev q) =
     (case Memory_Promote sha en (fst s) (snd s) src ev q of
        Inl err \<Rightarrow> s | Inr (r, c) \<Rightarrow> (fst s, c))"

lemma Memory_Promote_Inr:
  assumes "Memory_Promote sha en a c src ev q = Inr (r, c')"
  obtains e source where "Memory_GetEvent c src ev = Inr e" "Memory_Get c src = Inr source"
    "he_Type e = RedactionEvent" "HandlingEvent_Validate e = None" "cu_CustodyID r \<noteq> src"
    "cu_CustodyID r = rp_CustodyID q" "cu_Artifact r = rp_Artifact q" "cu_Status r = Accepted"
    "ar_Digest (cu_Artifact r) = he_ResultingDigest e" "Blob_Verify sha a (he_OriginalDigest e) = None"
    "Blob_VerifyReference sha a (cu_Artifact r) = None" "Record_Validate (en_uri_ok en) source = None"
    "cu_Status source = Accepted" "hasDerivedFromParent r (he_OriginalDigest e)"
    "normalizeRecord r = r" "Record_Validate (en_uri_ok en) r = None" "Memory_Put en c r = Inr c'"
    "\<exists>anchor \<in> set (Memory_List c). cu_Status anchor = Accepted \<and>
       ar_Digest (cu_Artifact anchor) = he_OriginalDigest e"
    "ha_Redaction (cu_Handling r) = ''redacted''"
proof -
  from assms obtain e source q' where
    p: "promotion_source (en_uri_ok en) (Blob_Verify sha a) (Blob_VerifyReference sha a) (Memory_Get c)
      (Inr (Memory_List c)) (Memory_GetEvent c) src ev q = Inr (e, source)"
    and q': "q' = promotion_defaults source q" and r: "r = promoted_record q' e"
    and "promotion_request_problem (en_uri_ok en) q' = None"
    and "Record_Validate (en_uri_ok en) r = None" "Memory_Put en c r = Inr c'"
    unfolding Memory_Promote_def by (rule Promote_Inr)
  moreover from this(4) have "ha_Redaction (cu_Handling r) = ''redacted''"
    by (simp add: promotion_request_problem_def first_some_Cons_None r)
  ultimately show thesis
    using promotion_source_Inr[OF p] by (intro that[of e source]) (auto simp: q')
qed

lemma events_only:
  assumes "Memory_appendHandlingEvent en c e = Inr c'"
  shows "mem_records c' = mem_records c"
  using assms by (cases rule: Memory_append_cases) simp_all

lemma list_same: "mem_records c' = mem_records c \<Longrightarrow> Memory_List c' = Memory_List c \<and> Memory_Get c' = Memory_Get c"
  by (simp add: Memory_List_def Memory_Get_def fun_eq_iff)

lemma Register_records:
  assumes "Memory_RegisterRedaction en sha verify c e = Inr (d, c')"
  shows "mem_records c' = mem_records c \<and> (mem_wf en c \<longrightarrow> mem_wf en c')"
  using registerRedaction_Inr[OF Memory_Register_Inr[OF assms, THEN conjunct2, THEN conjunct2]]
    events_only mem_wf_append by auto

lemma Memory_Put_ok:
  assumes ok: "intake_ok sha en_ref en (a, c)" and put: "Memory_Put en c r = Inr c'"
    and v: "Blob_VerifyReference sha a (cu_Artifact r) = None"
  shows "intake_ok sha en_ref en (a, c')"
  using ok Memory_Put_listed[OF _ put] mem_wf_Put[OF _ put] v unfolding intake_ok_def by fastforce

lemma custody_op_ok:
  assumes ok: "intake_ok sha en_ref en s"
  shows "intake_ok sha en_ref en (custody_op sha en_ref en s x)"
proof (cases x)
  case (TakeIn i)
  with ok show ?thesis by (simp add: intake_step_ok)
next
  case (Handle e)
  show ?thesis
  proof (cases "Memory_AppendEvent en (snd s) e")
    case (Inr c)
    then have "mem_records c = mem_records (snd s)"
      using events_only by (auto simp: Memory_AppendEvent_def split: if_splits)
    from list_same[OF this] mem_wf_AppendEvent[OF _ Inr] ok Inr Handle show ?thesis
      by (simp add: intake_ok_def)
  qed (use ok Handle in simp)
next
  case (Register e)
  show ?thesis
  proof (cases "Memory_RegisterRedaction en sha (Blob_Verify sha (fst s)) (snd s) e")
    case (Inr y)
    then obtain d c where y: "Memory_RegisterRedaction en sha (Blob_Verify sha (fst s)) (snd s) e = Inr (d, c)"
      by (cases y) simp
    from Register_records[OF y] list_same[of c "snd s"] ok y Register show ?thesis
      by (simp add: intake_ok_def)
  qed (use ok Register in simp)
next
  case (Promote src ev q)
  show ?thesis
  proof (cases "Memory_Promote sha en (fst s) (snd s) src ev q")
    case (Inr y)
    then obtain r c where y: "Memory_Promote sha en (fst s) (snd s) src ev q = Inr (r, c)"
      by (cases y) simp
    from Memory_Promote_Inr[OF y] have "Blob_VerifyReference sha (fst s) (cu_Artifact r) = None"
      "Memory_Put en (snd s) r = Inr c" by metis+
    with Memory_Put_ok[of sha en_ref en "fst s" "snd s" r c] ok y Promote show ?thesis by simp
  qed (use ok Promote in simp)
qed

text \<open>No operation loses an artifact or a record.\<close>

definition keeps ::
  "(string \<Rightarrow> string) \<Rightarrow> ArtifactMemory \<times> Memory \<Rightarrow> ArtifactMemory \<times> Memory \<Rightarrow> bool" where
  "keeps sha s s' \<longleftrightarrow>
     (\<forall>d data. Blob_Get sha (fst s) d = Inr data \<longrightarrow> Blob_Get sha (fst s') d = Inr data) \<and>
     (\<forall>i r. Memory_Get (snd s) i = Inr r \<longrightarrow> Memory_Get (snd s') i = Inr r)"

lemma keeps_refl [simp]: "keeps sha s s"
  by (simp add: keeps_def)

lemma keeps_trans: "keeps sha s t \<Longrightarrow> keeps sha t u \<Longrightarrow> keeps sha s u"
  by (simp add: keeps_def)

lemma keeps_put:
  assumes "mem_wf en c" and "Memory_Put en c r = Inr c'"
  shows "keeps sha (a, c) (a, c')"
  using memory_records.put_keeps[OF assms] by (simp add: keeps_def)


lemma keeps_records:
  "mem_records c' = mem_records c \<Longrightarrow> keeps sha (a, c) (a, c')"
  by (simp add: keeps_def Memory_Get_def)

lemma intake_keeps:
  assumes "intake_ok sha en_ref en s"
  shows "keeps sha s (intake_step sha en_ref en s x)"
proof -
  obtain res a c where acc: "Memory_Accept sha en_ref en (it_Now1 x) (it_Now2 x) s (it_Reader x) (it_Request x) =
    (res, a, c)" by (metis prod.collapse)
  have blobs: "Blob_Get sha a d = Inr data" if "Blob_Get sha (fst s) d = Inr data" for d data
    using blobs_kept[OF acc that] .
  have records: "Memory_Get c i = Inr r" if "Memory_Get (snd s) i = Inr r" for i r
    using acc
  proof (cases rule: Accept_cases)
    case (accepted ref options r')
    with memory_records.put_keeps[OF _ accepted(3) that] assms show ?thesis by (simp add: intake_ok_def)
  qed (use that in auto)
  from blobs records acc show ?thesis by (simp add: keeps_def intake_step_def)
qed

lemma custody_op_keeps:
  assumes ok: "intake_ok sha en_ref en s"
  shows "keeps sha s (custody_op sha en_ref en s x)"
proof (cases x)
  case (TakeIn i)
  with intake_keeps[OF ok] show ?thesis by simp
next
  case (Handle e)
  show ?thesis
  proof (cases "Memory_AppendEvent en (snd s) e")
    case (Inr c)
    then have "mem_records c = mem_records (snd s)"
      using events_only by (auto simp: Memory_AppendEvent_def split: if_splits)
    from keeps_records[OF this, of sha "fst s"] Inr Handle show ?thesis by simp
  qed (use Handle in simp)
next
  case (Register e)
  show ?thesis
  proof (cases "Memory_RegisterRedaction en sha (Blob_Verify sha (fst s)) (snd s) e")
    case (Inr y)
    then obtain d c where y: "Memory_RegisterRedaction en sha (Blob_Verify sha (fst s)) (snd s) e = Inr (d, c)"
      by (cases y) simp
    from keeps_records[OF Register_records[OF y, THEN conjunct1], of sha "fst s"] y Register
    show ?thesis by simp
  qed (use Register in simp)
next
  case (Promote src ev q)
  show ?thesis
  proof (cases "Memory_Promote sha en (fst s) (snd s) src ev q")
    case (Inr y)
    then obtain r c where y: "Memory_Promote sha en (fst s) (snd s) src ev q = Inr (r, c)"
      by (cases y) simp
    from Memory_Promote_Inr[OF y] have "Memory_Put en (snd s) r = Inr c" by metis
    from keeps_put[OF _ this, of sha "fst s"] ok y Promote show ?thesis by (simp add: intake_ok_def)
  qed (use Promote in simp)
qed

lemma custody_ops_ok:
  "intake_ok sha en_ref en s \<Longrightarrow>
   intake_ok sha en_ref en (foldl (custody_op sha en_ref en) s xs) \<and>
   keeps sha s (foldl (custody_op sha en_ref en) s xs)"
proof (induction xs arbitrary: s)
  case (Cons x xs)
  from Cons.IH[OF custody_op_ok[OF Cons.prems, of x]] custody_op_keeps[OF Cons.prems, of x]
  show ?case using keeps_trans by (metis foldl_Cons)
qed simp

section \<open>A promotion anchors the result\<close>

lemma listed_valid:
  assumes "mem_wf en c" "r \<in> set (Memory_List c)"
  shows "Record_Validate (en_uri_ok en) r = None"
proof -
  have "record_entry en (cu_CustodyID r) r"
    using assms Memory_List_set[OF assms(1), of r] unfolding mem_wf_def by blast
  then show ?thesis by (simp add: record_entry_def)
qed

lemma lineage_runs:
  assumes "mem_wf en c" "r \<in> set (Memory_List c)"
  shows "\<exists>report. AnalyzeLineage (en_uri_ok en) render (Inr (Memory_List c)) verify r = Inr report"
  using listed_valid[OF assms] by (simp add: AnalyzeLineage_def Let_def)

lemma GetEvent_put:
  assumes "Memory_Put en c r = Inr c'"
  shows "Memory_GetEvent c' i j = Memory_GetEvent c i j"
  using assms by (cases rule: Memory_Put_cases) (simp_all add: Memory_GetEvent_def)

lemma Blob_Verify_reference:
  "Blob_VerifyReference sha a r = None \<Longrightarrow> Blob_Verify sha a (ar_Digest r) = None"
  by (auto simp: Blob_VerifyReference_None Blob_Get_def split: option.splits)

lemma AnalyzeRedaction_runs:
  assumes "get src = Inr source" "Record_Validate uri_ok source = None" "getEvent src ev = Inr e"
    "he_Type e = RedactionEvent" "HandlingEvent_Validate e = None"
    "\<And>c. c \<in> set recs \<Longrightarrow> \<exists>report. AnalyzeLineage uri_ok render (Inr recs) verify c = Inr report"
  shows "\<exists>st. AnalyzeRedaction uri_ok render vd verify get (Inr recs) getEvent src ev = Inr st"
proof -
  obtain st1 where "redaction_candidates verify (AnalyzeLineage uri_ok render (Inr recs) verify) e recs
      (redaction_artifacts vd e (redaction_start src source ev e)) = Inr st1"
    using redaction_candidates_run[of recs "AnalyzeLineage uri_ok render (Inr recs) verify"] assms(6) by blast
  with assms(1-5) show ?thesis by (simp add: AnalyzeRedaction_def Let_def)
qed


lemma put_listed:
  assumes wf: "mem_wf en c" and put: "Memory_Put en c r = Inr c'"
    and new: "map_of (mem_records c) (cu_CustodyID r) = None" and n: "normalizeRecord r = r"
  shows "r \<in> set (Memory_List c')"
  using put
proof (cases rule: Memory_Put_cases)
  case (new)
  then have "map_of (mem_records c') (cu_CustodyID r) = Some r" by (simp add: n)
  with Memory_List_set[OF mem_wf_Put[OF wf put], of r] show ?thesis by simp
qed (use new in simp)

section \<open>Samples\<close>

definition run_sha :: "string \<Rightarrow> string" where
  "run_sha data = (if data = ''data'' then body_a else body_b)"

definition redacted_artifact :: ArtifactReference where
  "redacted_artifact = (cu_Artifact sample_custody)\<lparr>ar_Digest := digest_of body_b\<rparr>"

definition run_ops :: "CustodyOp list" where
  "run_ops =
     [TakeIn \<lparr>it_Reader = sample_reader, it_Request = sample_request, it_Now1 = sample_now, it_Now2 = sample_now\<rparr>,
      TakeIn \<lparr>it_Reader = \<lparr>rd_Bytes = ''clip'', rd_End = EndOfFile\<rparr>,
        it_Request = sample_request\<lparr>rq_CustodyID := ''rec-2''\<rparr>, it_Now1 = sample_now, it_Now2 = sample_now\<rparr>,
      Register sample_redaction]"

definition run_state :: "ArtifactMemory \<times> Memory" where
  "run_state = foldl (custody_op run_sha sample_ref sample_encoding) (NewArtifactMemory, NewMemory) run_ops"

definition run_promotion :: RedactionPromotionRequest where
  "run_promotion =
     \<lparr>rp_Schema = [], rp_CustodyID = ''rec-3'', rp_Artifact = redacted_artifact,
      rp_ReceivedAt = \<lparr>instant_at = 30, zone_offset = 0\<rparr>,
      rp_Producer = \<lparr>pd_Tool = ''sorna'', pd_Kind = ''run'', pd_Version = []\<rparr>,
      rp_Source = \<lparr>so_RunID = ''run-1'', so_Path = [], so_URI = [], so_Version = []\<rparr>,
      rp_Handling = \<lparr>ha_Redaction = [], ha_RetentionClass = []\<rparr>\<rparr>"

lemma run_records: "map fst (mem_records (snd run_state)) = [''rec-1'', ''rec-2'']"
  by code_simp

lemma run_promotes:
  "map_sum (\<lambda>_. ()) (\<lambda>x. cu_CustodyID (fst x))
     (Memory_Promote run_sha sample_encoding (fst run_state) (snd run_state) ''rec-1'' ''ev-1'' run_promotion) =
   Inr ''rec-3''"
  by code_simp

section \<open>Properties\<close>

text \<open>C23. Custody never dangles: through any run of intakes, handling events, registered redactions
  and promotions of their results, refused calls included, the artifact of every record in the
  listing verifies in the artifact store, and no artifact and no record that could be read is
  lost or changed.\<close>

theorem custody_of_runs_never_dangles:
  assumes "intake_ok sha en_ref en s"
  shows "(\<forall>r \<in> set (Memory_List (snd (foldl (custody_op sha en_ref en) s xs))).
            Blob_VerifyReference sha (fst (foldl (custody_op sha en_ref en) s xs)) (cu_Artifact r) = None) \<and>
         (\<forall>d data. Blob_Get sha (fst s) d = Inr data \<longrightarrow>
            Blob_Get sha (fst (foldl (custody_op sha en_ref en) s xs)) d = Inr data) \<and>
         (\<forall>i r. Memory_Get (snd s) i = Inr r \<longrightarrow>
            Memory_Get (snd (foldl (custody_op sha en_ref en) s xs)) i = Inr r)"
  using custody_ops_ok[OF assms, of xs] unfolding intake_ok_def keeps_def by blast

theorem custody_of_runs_never_dangles_witness:
  "list_all (\<lambda>r. Blob_VerifyReference run_sha (fst run_state) (cu_Artifact r) = None)
     (Memory_List (snd run_state)) \<and> length (mem_records (snd run_state)) = 2"
proof
  show "list_all (\<lambda>r. Blob_VerifyReference run_sha (fst run_state) (cu_Artifact r) = None)
     (Memory_List (snd run_state))"
    unfolding list_all_iff run_state_def
    using custody_of_runs_never_dangles[OF intake_New, of run_sha sample_ref sample_encoding run_ops] by blast
  have "length (map fst (mem_records (snd run_state))) = 2" unfolding run_records by simp
  then show "length (mem_records (snd run_state)) = 2" by simp
qed

text \<open>C24. A promotion anchors the result of its redaction: when a promotion under an unused custody
  identifier is accepted, the analysis of the redaction afterwards succeeds, lists the new
  identifier among the promotions, never reports the result as unanchored, and reports it
  complete exactly when the lineages of all promotions of the result verify.\<close>

theorem promotion_anchors_result:
  assumes ok: "intake_ok sha en_ref en (a, c)"
    and new: "map_of (mem_records c) (rp_CustodyID q) = None"
    and prom: "Memory_Promote sha en a c src ev q = Inr (r, c')"
  shows "\<exists>st e. Memory_AnalyzeRedaction sha en render a c' src ev = Inr st \<and>
    Memory_GetEvent c src ev = Inr e \<and>
    rp_CustodyID q \<in> set (rd_PromotedCustodyIDs st) \<and> rd_Status st \<noteq> RedactionUnanchored \<and>
    (rd_Status st = RedactionComplete \<longleftrightarrow>
       (\<forall>p \<in> set (promotions_of e (Memory_List c')).
          VerifyLineage (Inr (Memory_List c')) (Blob_VerifyReference sha a) p = None))"
proof -
  from prom obtain e source where e: "Memory_GetEvent c src ev = Inr e" and src: "Memory_Get c src = Inr source"
    and et: "he_Type e = RedactionEvent" "HandlingEvent_Validate e = None"
    and r: "cu_CustodyID r = rp_CustodyID q" "cu_Status r = Accepted"
      "ar_Digest (cu_Artifact r) = he_ResultingDigest e" "hasDerivedFromParent r (he_OriginalDigest e)"
      "normalizeRecord r = r"
    and v: "Blob_Verify sha a (he_OriginalDigest e) = None" "Blob_VerifyReference sha a (cu_Artifact r) = None"
    and source: "Record_Validate (en_uri_ok en) source = None" "cu_Status source = Accepted"
    and put: "Memory_Put en c r = Inr c'"
    by (rule Memory_Promote_Inr) blast
  have wf: "mem_wf en c" using ok by (simp add: intake_ok_def)
  note wf' = mem_wf_Put[OF wf put]
  have src': "Memory_Get c' src = Inr source" using memory_records.put_keeps[OF wf put src] .
  have e': "Memory_GetEvent c' src ev = Inr e" using e GetEvent_put[OF put] by simp
  obtain st where st: "AnalyzeRedaction (en_uri_ok en) render (Blob_Verify sha a) (Blob_VerifyReference sha a)
      (Memory_Get c') (Inr (Memory_List c')) (Memory_GetEvent c') src ev = Inr st"
    using AnalyzeRedaction_runs[of "Memory_Get c'" src source "en_uri_ok en" "Memory_GetEvent c'" ev e,
        OF src' source(1) e' et] lineage_runs[OF wf'] by blast
  have mem: "r \<in> set (promotions_of e (Memory_List c'))"
    using put_listed[OF wf put] new r by (simp add: promotions_of_def results_of_def accepted_for_def)
  have "\<forall>p \<in> set (Memory_List c'). Blob_VerifyReference sha a (cu_Artifact p) = None"
    using Memory_Put_ok[OF ok put v(2)] by (simp add: intake_ok_def)
  then have "redaction_intact (Blob_Verify sha a) (Blob_VerifyReference sha a) (Memory_List c') source e \<longleftrightarrow>
      (\<forall>p \<in> set (promotions_of e (Memory_List c')).
          VerifyLineage (Inr (Memory_List c')) (Blob_VerifyReference sha a) p = None)"
    using v source Blob_Verify_reference[OF v(2)] r(3)
    by (simp add: redaction_intact_def results_of_def accepted_for_def)
  moreover have "cu_CustodyID r \<in> set (map cu_CustodyID (promotions_of e (Memory_List c')))"
    using mem by simp
  ultimately show ?thesis
    using AnalyzeRedaction_Inr[OF st] src' e' e st r(1) mem
    by (auto simp: Memory_AnalyzeRedaction_def)
qed

theorem promotion_anchors_result_witness:
  "\<exists>r c' st. Memory_Promote run_sha sample_encoding (fst run_state) (snd run_state) ''rec-1'' ''ev-1'' run_promotion =
       Inr (r, c') \<and>
     Memory_AnalyzeRedaction run_sha sample_encoding (\<lambda>_. []) (fst run_state) c' ''rec-1'' ''ev-1'' = Inr st \<and>
     ''rec-3'' \<in> set (rd_PromotedCustodyIDs st)"
proof -
  obtain r c' where p: "Memory_Promote run_sha sample_encoding (fst run_state) (snd run_state) ''rec-1'' ''ev-1''
      run_promotion = Inr (r, c')"
    using run_promotes by (cases "Memory_Promote run_sha sample_encoding (fst run_state) (snd run_state)
      ''rec-1'' ''ev-1'' run_promotion") auto
  have "intake_ok run_sha sample_ref sample_encoding run_state"
    using custody_ops_ok[OF intake_New] unfolding run_state_def by blast
  then have ok: "intake_ok run_sha sample_ref sample_encoding (fst run_state, snd run_state)" by simp
  have id: "rp_CustodyID run_promotion = ''rec-3''" by (simp add: run_promotion_def)
  have "''rec-3'' \<notin> set (map fst (mem_records (snd run_state)))" unfolding run_records by simp
  then have "map_of (mem_records (snd run_state)) (rp_CustodyID run_promotion) = None"
    unfolding id by (simp add: map_of_eq_None_iff)
  from promotion_anchors_result[OF ok this p, of "\<lambda>_. []"] p show ?thesis unfolding id by blast
qed

end
