(* ===== verification/GoPaths.thy ===== *)
theory GoPaths
  imports GoStrings
begin

text \<open>
  What the program uses of \<open>path/filepath\<close> on Unix: \<open>Clean\<close>, \<open>IsAbs\<close> and \<open>Join\<close> of two elements.
  \<open>Clean\<close> goes through the elements between slashes with a stack of kept elements, the last one
  first, as the standard library's buffer does.
\<close>

abbreviation dotdot :: string where "dotdot \<equiv> ''..''"

definition push :: "bool \<Rightarrow> string list \<Rightarrow> string \<Rightarrow> string list" where
  "push rooted kept e =
     (if e = [] \<or> e = ''.'' then kept
      else if e = dotdot then
        (case kept of
           [] \<Rightarrow> if rooted then [] else [dotdot]
         | t # ts \<Rightarrow> if t = dotdot then dotdot # kept else ts)
      else e # kept)"

abbreviation elements :: "string \<Rightarrow> string list" where
  "elements p \<equiv> split_on CHR ''/'' p"

definition clean_stack :: "bool \<Rightarrow> string list \<Rightarrow> string list \<Rightarrow> string list" where
  "clean_stack rooted = foldl (push rooted)"

definition IsAbs :: "string \<Rightarrow> bool" where
  "IsAbs p \<longleftrightarrow> has_prefix p ''/''"

definition clean_elements :: "string \<Rightarrow> string list" where
  "clean_elements p = rev (clean_stack (IsAbs p) [] (elements p))"

definition Clean :: "string \<Rightarrow> string" where
  "Clean p =
     (if IsAbs p then ''/'' @ join_with ''/'' (clean_elements p)
      else if clean_elements p = [] then ''.''
      else join_with ''/'' (clean_elements p))"

definition Join :: "string \<Rightarrow> string \<Rightarrow> string" where
  "Join root p =
     (if root \<noteq> [] then Clean (root @ ''/'' @ p) else if p \<noteq> [] then Clean p else [])"

text \<open>A path leads out of the directory it is relative to.\<close>

definition escapes :: "string \<Rightarrow> bool" where
  "escapes p \<longleftrightarrow> IsAbs p \<or> Clean p = dotdot \<or> has_prefix (Clean p) ''../''"

section \<open>A path that does not escape stays below its root\<close>

lemma clean_stack_simps [simp]:
  "clean_stack r kept [] = kept"
  "clean_stack r kept (e # es) = clean_stack r (push r kept e) es"
  "clean_stack r kept (es @ fs) = clean_stack r (clean_stack r kept es) fs"
  by (simp_all add: clean_stack_def)

lemma split_on_append:
  "split_on d (s @ d # t) = split_on d s @ split_on d t"
proof (induction s)
  case (Cons c s)
  then show ?case using split_on_nonempty[of d s] by (cases "split_on d s") auto
qed simp

lemma push_dotdot: "dotdot \<in> set kept \<Longrightarrow> dotdot \<in> set (push False kept e)"
  by (auto simp: push_def split: list.splits)

lemma clean_stack_dotdot: "dotdot \<in> set kept \<Longrightarrow> dotdot \<in> set (clean_stack False kept es)"
  by (induction es arbitrary: kept) (simp_all add: push_dotdot)

lemma push_above:
  assumes "dotdot \<notin> set (push False kept e)"
  shows "push r (kept @ below) e = push False kept e @ below"
  using assms by (cases kept) (auto simp: push_def)

lemma clean_stack_above:
  "dotdot \<notin> set (clean_stack False kept es) \<Longrightarrow>
   clean_stack r (kept @ below) es = clean_stack False kept es @ below"
proof (induction es arbitrary: kept)
  case (Cons e es)
  have "dotdot \<notin> set (push False kept e)"
    using Cons.prems clean_stack_dotdot[of "push False kept e" es] by auto
  from push_above[OF this] Cons show ?case by simp
qed simp

text \<open>In a relative path the elements \<open>..\<close> that are kept come first.\<close>

definition dotdots_last :: "string list \<Rightarrow> bool" where
  "dotdots_last kept \<longleftrightarrow> (\<exists>xs n. kept = xs @ replicate n dotdot \<and> dotdot \<notin> set xs)"

lemma push_dotdots_last: "dotdots_last kept \<Longrightarrow> dotdots_last (push False kept e)"
proof -
  assume "dotdots_last kept"
  then obtain xs n where k: "kept = xs @ replicate n dotdot" "dotdot \<notin> set xs"
    by (auto simp: dotdots_last_def)
  show ?thesis
  proof (cases "e = [] \<or> e = ''.''")
    case True
    with k show ?thesis by (auto simp: dotdots_last_def push_def)
  next
    case False
    show ?thesis
    proof (cases "e = dotdot")
      case True
      show ?thesis
      proof (cases xs)
        case Nil
        then have "push False kept e = [] @ replicate (Suc n) dotdot"
          using True k by (cases n) (simp_all add: push_def)
        then show ?thesis unfolding dotdots_last_def by (metis empty_iff list.set(1))
      next
        case (Cons y ys)
        then have "push False kept e = ys @ replicate n dotdot"
          using True k by (auto simp: push_def)
        moreover have "dotdot \<notin> set ys" using Cons k by simp
        ultimately show ?thesis unfolding dotdots_last_def by blast
      qed
    next
      case neq: False
      with False k have "push False kept e = (e # xs) @ replicate n dotdot" "dotdot \<notin> set (e # xs)"
        by (auto simp: push_def)
      then show ?thesis unfolding dotdots_last_def by blast
    qed
  qed
qed

lemma clean_stack_dotdots_last: "dotdots_last kept \<Longrightarrow> dotdots_last (clean_stack False kept es)"
  by (induction es arbitrary: kept) (simp_all add: push_dotdots_last)

lemma escapes_iff: "\<not> escapes p \<longleftrightarrow> \<not> IsAbs p \<and> dotdot \<notin> set (clean_elements p)"
proof (cases "IsAbs p")
  case False
  have "dotdots_last []" unfolding dotdots_last_def by (rule exI[of _ "[]"], rule exI[of _ 0]) simp
  from clean_stack_dotdots_last[OF this, of "elements p"] obtain xs n where
    st: "clean_stack False [] (elements p) = xs @ replicate n dotdot" "dotdot \<notin> set xs"
    unfolding dotdots_last_def by blast
  have ce: "clean_elements p = replicate n dotdot @ rev xs" using st False by (simp add: clean_elements_def)
  have slash: "CHR ''/'' \<notin> set y" if "y \<in> set xs" for y
  proof -
    have sub: "set (clean_stack False kept es) \<subseteq> set kept \<union> set es \<union> {dotdot}" for kept es
    proof (induction es arbitrary: kept)
      case (Cons e es)
      have "set (push False kept e) \<subseteq> set kept \<union> {e, dotdot}" by (auto simp: push_def split: list.splits)
      with Cons.IH[of "push False kept e"] show ?case by auto
    qed auto
    from that st(1) have "y \<in> set (clean_stack False [] (elements p))" by simp
    with sub[of "[]" "elements p"] have "y \<in> set (elements p) \<or> y = dotdot" by auto
    then show ?thesis using split_on_parts by force
  qed
  show ?thesis
  proof (cases n)
    case 0
    have "\<not> (Clean p = dotdot \<or> has_prefix (Clean p) ''../'')"
    proof (cases "rev xs")
      case Nil
      with 0 ce False show ?thesis by (simp add: Clean_def has_prefix_iff)
    next
      case (Cons y ys)
      then have y: "y \<in> set xs" "y \<noteq> dotdot" using st(2)
        by (metis list.set_intros(1) set_rev)+
      have c: "Clean p = (if ys = [] then y else y @ ''/'' @ join_with ''/'' ys)"
        using 0 ce False Cons by (cases ys) (simp_all add: Clean_def)
      have s: "CHR ''/'' \<notin> set y" using slash[OF y(1)] .
      have "y @ r \<noteq> dotdot @ ''/'' @ t" if "r = [] \<or> hd r = CHR ''/''" for r t
        using s y(2) that by (auto simp: append_eq_append_conv2 append_eq_Cons_conv Cons_eq_append_conv)
      moreover have "y @ ''/'' @ t \<noteq> dotdot" for t
        using s by (auto simp: append_eq_Cons_conv Cons_eq_append_conv)
      ultimately show ?thesis using c y(2) s
        by (auto simp: has_prefix_iff)
    qed
    with 0 ce False st(2) show ?thesis by (simp add: escapes_def)
  next
    case (Suc m)
    then have "clean_elements p = dotdot # replicate m dotdot @ rev xs" using ce by simp
    then have "Clean p = dotdot \<or> has_prefix (Clean p) ''../''" "dotdot \<in> set (clean_elements p)"
      using False by (cases "replicate m dotdot @ rev xs"; simp add: Clean_def has_prefix_iff)+
    then show ?thesis by (simp add: escapes_def)
  qed
qed (simp add: escapes_def)

lemma Join_inside:
  assumes p: "\<not> escapes p" and root: "root \<noteq> []"
  shows "clean_elements (root @ ''/'' @ p) = clean_elements root @ clean_elements p"
proof -
  have abs: "IsAbs (root @ ''/'' @ p) = IsAbs root" using root by (cases root) (auto simp: IsAbs_def has_prefix_iff)
  have el: "elements (root @ ''/'' @ p) = elements root @ elements p"
    using split_on_append[of "CHR ''/''" root p] by simp
  from p have "dotdot \<notin> set (clean_stack False [] (elements p))" "\<not> IsAbs p"
    by (auto simp: escapes_iff clean_elements_def)
  with clean_stack_above[of "[]" "elements p" "IsAbs root"] abs el show ?thesis
    by (simp add: clean_elements_def)
qed

end
