(* ===== verification/CIResult.thy ===== *)
theory CIResult
  imports GoTime GoPaths
begin

text \<open>
  core/ciresult/ciresult.go: the result envelope every tool writes, its validation and the
  mapping from statuses to exit codes.  \<open>json.Valid\<close> is the argument \<open>valid_json\<close>; a raw JSON
  value is its bytes.  The map \<open>Inputs\<close> is the list of its entries in the order the range
  statement visits them, which only decides which error comes first.  What \<open>time.Parse\<close> and
  \<open>hex.DecodeString\<close> add to a message is left out.
\<close>

section \<open>The envelope\<close>

abbreviation CISchema :: string where "CISchema \<equiv> ''ingen.ci-result/v1''"

record FileRef =
  fr_Path :: string
  fr_SHA256 :: string

record VCS =
  vcs_System :: string
  vcs_Revision :: string
  vcs_Dirty :: bool
  vcs_ChangesSHA256 :: string

record CISource =
  src_Root :: string
  src_ModulePath :: string
  src_VCS :: "VCS option"

record CIArtifact =
  ci_Schema :: string
  ci_Tool :: string
  ci_ToolVersion :: string
  ci_Kind :: string
  ci_Status :: string
  ci_ExitCode :: int
  ci_CreatedAt :: string
  ci_Source :: CISource
  ci_Policy :: "FileRef option"
  ci_PolicyLock :: "FileRef option"
  ci_Graph :: "FileRef option"
  ci_Baseline :: "FileRef option"
  ci_Inputs :: "(string \<times> FileRef) list"
  ci_Report :: string
  ci_Explanation :: string
  ci_Error :: string

section \<open>Statuses and exit codes\<close>

definition ExitCodeForStatus :: "string \<Rightarrow> message + int" where
  "ExitCodeForStatus status =
     (if status = ''passed'' then Inr 0
      else if status = ''failed'' then Inr 1
      else if status = ''error'' then Inr 2
      else Inl [T ''CI result has unsupported status '', Q status])"

text \<open>\<open>severity\<close>, which the packages aggregate and run both define.\<close>

definition severity :: "string \<Rightarrow> int" where
  "severity status =
     (if status = ''passed'' then 0
      else if status = ''failed'' then 1
      else if status = ''error'' then 2
      else - 1)"

text \<open>The three decisions in the order of their severity.\<close>

datatype verdict = Passed | Failed | Errored

fun verdict_rank :: "verdict \<Rightarrow> nat" where
  "verdict_rank Passed = 0"
| "verdict_rank Failed = 1"
| "verdict_rank Errored = 2"

lemma verdict_rank_inj: "verdict_rank a = verdict_rank b \<longleftrightarrow> a = b"
  by (cases a; cases b) simp_all

instantiation verdict :: linorder
begin

definition less_eq_verdict :: "verdict \<Rightarrow> verdict \<Rightarrow> bool" where
  "a \<le> b \<longleftrightarrow> verdict_rank a \<le> verdict_rank b"

definition less_verdict :: "verdict \<Rightarrow> verdict \<Rightarrow> bool" where
  "a < b \<longleftrightarrow> verdict_rank a < verdict_rank b"

instance
  by standard (auto simp: less_eq_verdict_def less_verdict_def simp flip: verdict_rank_inj)

end

definition verdict_of :: "string \<Rightarrow> verdict option" where
  "verdict_of status =
     (if status = ''passed'' then Some Passed
      else if status = ''failed'' then Some Failed
      else if status = ''error'' then Some Errored
      else None)"

lemma verdict_of_inj: "verdict_of s = Some v \<Longrightarrow> verdict_of t = Some v \<Longrightarrow> s = t"
  by (auto simp: verdict_of_def split: if_splits)

lemma severity_verdict: "verdict_of s = Some v \<Longrightarrow> severity s = int (verdict_rank v)"
  by (auto simp: verdict_of_def severity_def split: if_splits)

lemma severity_less:
  "verdict_of s = Some v \<Longrightarrow> verdict_of t = Some w \<Longrightarrow> severity s < severity t \<longleftrightarrow> v < w"
  by (simp add: severity_verdict less_verdict_def)

lemma ExitCode_verdict:
  "ExitCodeForStatus s = Inr code \<longleftrightarrow> (\<exists>v. verdict_of s = Some v \<and> code = int (verdict_rank v))"
  by (auto simp: ExitCodeForStatus_def verdict_of_def)

text \<open>Keeping the more severe of two statuses, as the loops of the coordinator do.\<close>

definition worse :: "string \<Rightarrow> string \<Rightarrow> string" where
  "worse status other = (if severity other > severity status then other else status)"

lemma worse_verdict:
  "verdict_of s = Some v \<Longrightarrow> verdict_of t = Some w \<Longrightarrow> verdict_of (worse s t) = Some (max v w)"
  by (auto simp: worse_def severity_less max_def)

lemma foldl_worse:
  "verdict_of s = Some v \<Longrightarrow> (\<forall>t \<in> set ts. verdict_of t \<noteq> None) \<Longrightarrow>
   verdict_of (foldl worse s ts) = Some (Max (insert v (set (map (the \<circ> verdict_of) ts))))"
proof (induction ts arbitrary: s v)
  case (Cons t ts)
  then obtain w where w: "verdict_of t = Some w" by auto
  have "verdict_of (foldl worse (worse s t) ts) =
    Some (Max (insert (max v w) (set (map (the \<circ> verdict_of) ts))))"
    using Cons worse_verdict[OF Cons.prems(1) w] by simp
  also have "Max (insert (max v w) (set (map (the \<circ> verdict_of) ts))) =
    Max (insert v (insert w (set (map (the \<circ> verdict_of) ts))))"
    by (cases "ts = []") (simp_all add: max.assoc)
  finally show ?case using w by simp
qed simp

section \<open>Validation\<close>

definition validateFileRef :: "string \<Rightarrow> FileRef option \<Rightarrow> message option" where
  "validateFileRef name ref =
     (case ref of
        None \<Rightarrow> None
      | Some r \<Rightarrow>
          if blank (fr_Path r) then Some [T ''CI result '', T name, T '' path is required'']
          else if fr_SHA256 r \<noteq> [] then
            first_some
              [fail_if (length (fr_SHA256 r) \<noteq> 64)
                 [T ''CI result '', T name, T '' sha256 must be 64 hexadecimal characters''],
               fail_if (\<not> valid_hex (fr_SHA256 r)) [T ''CI result '', T name, T '' sha256 is invalid: '']]
          else None)"

definition lower_byte :: "char \<Rightarrow> int" where
  "lower_byte c = (if is_upper c then byte c + 32 else byte c)"

definition validJSONValue :: "(string \<Rightarrow> bool) \<Rightarrow> string \<Rightarrow> bool" where
  "validJSONValue valid_json v \<longleftrightarrow>
     v \<noteq> [] \<and> map lower_byte v \<noteq> map byte ''null'' \<and> valid_json v"

definition VCS_problem :: "VCS \<Rightarrow> message option" where
  "VCS_problem v =
     first_some
       [fail_if (blank (vcs_System v)) [T ''CI result source.vcs.system is required''],
        fail_if (blank (vcs_Revision v)) [T ''CI result source.vcs.revision is required''],
        if vcs_ChangesSHA256 v = [] then None
        else first_some
          [fail_if (length (vcs_ChangesSHA256 v) \<noteq> 64)
             [T ''CI result source.vcs changes_sha256 must be 64 hexadecimal characters''],
           fail_if (\<not> valid_hex (vcs_ChangesSHA256 v))
             [T ''CI result source.vcs changes_sha256 is invalid: '']]]"

definition input_problem :: "string \<times> FileRef \<Rightarrow> message option" where
  "input_problem x =
     first_some
       [fail_if (blank (fst x)) [T ''CI result input name must not be empty''],
        validateFileRef (fst x) (Some (snd x))]"

definition Artifact_Validate :: "(string \<Rightarrow> bool) \<Rightarrow> CIArtifact \<Rightarrow> message option" where
  "Artifact_Validate valid_json a =
     first_some
       [fail_if (ci_Schema a \<noteq> CISchema)
          [T ''CI result schema must be '', T CISchema, T '', got '', Q (ci_Schema a)],
        fail_if (blank (ci_Tool a) \<or> blank (ci_Kind a)) [T ''CI result tool and kind are required''],
        fail_if (ci_ToolVersion a \<noteq> [] \<and> blank (ci_ToolVersion a))
          [T ''CI result tool_version must not be blank''],
        fail_if (blank (ci_CreatedAt a)) [T ''CI result created_at is required''],
        fail_if (\<not> valid_rfc3339 (ci_CreatedAt a)) [T ''CI result created_at must be RFC3339: ''],
        fail_if (blank (src_Root (ci_Source a))) [T ''CI result source.root is required''],
        (case src_VCS (ci_Source a) of None \<Rightarrow> None | Some v \<Rightarrow> VCS_problem v),
        validateFileRef ''policy'' (ci_Policy a),
        validateFileRef ''policy_lock'' (ci_PolicyLock a),
        validateFileRef ''graph'' (ci_Graph a),
        validateFileRef ''baseline'' (ci_Baseline a),
        first_error input_problem (ci_Inputs a),
        (case ExitCodeForStatus (ci_Status a) of
           Inl err \<Rightarrow> Some err
         | Inr expected \<Rightarrow>
             fail_if (ci_ExitCode a \<noteq> expected)
               [T (ci_Status a), T '' CI result must have exit_code '', D expected]),
        fail_if (ci_Status a = ''error'' \<and> blank (ci_Error a))
          [T ''error CI results need exit_code 2 and an error''],
        fail_if (ci_Status a \<noteq> ''error'' \<and>
                 (\<not> validJSONValue valid_json (ci_Report a) \<or> \<not> validJSONValue valid_json (ci_Explanation a)))
          [T ''non-error CI results need valid report and explanation JSON'']]"

lemma Artifact_Validate_status:
  "Artifact_Validate valid_json a = None \<Longrightarrow>
   \<exists>v. verdict_of (ci_Status a) = Some v \<and> ci_ExitCode a = int (verdict_rank v)"
  by (auto simp: Artifact_Validate_def first_some_Cons_None ExitCode_verdict split: sum.splits)

lemma validateFileRef_Some_None:
  "validateFileRef name (Some r) = None \<longleftrightarrow>
   \<not> blank (fr_Path r) \<and> (fr_SHA256 r = [] \<or> length (fr_SHA256 r) = 64 \<and> valid_hex (fr_SHA256 r))"
  by (auto simp: validateFileRef_def first_some_Cons_None first_some_Nil_None)

end
