(* ===== verification/NublarWorkflow.thy ===== *)
theory NublarWorkflow
  imports CIResult
begin

text \<open>
  nublar/internal/workflow/workflow.go, artifact/artifact.go and aggregate/aggregate.go: the
  workflow document, loading a result envelope from one read of its bytes, and composing
  envelopes into a report.  The file system, the JSON decoders, SHA-256 and what \<open>fmt\<close> prints
  are arguments (\<open>Nublar\<close>); the YAML decoder is left out, so a document is taken decoded.
\<close>

section \<open>Workflow documents\<close>

abbreviation WorkflowSchema :: string where "WorkflowSchema \<equiv> ''ingen.nublar-workflow/v1''"

record WorkflowCheck =
  wc_ID :: string
  wc_Tool :: string
  wc_Result :: string
  wc_Required :: "bool option"

record Document =
  wd_Schema :: string
  wd_ID :: string
  wd_Checks :: "WorkflowCheck list"

definition IsRequired :: "WorkflowCheck \<Rightarrow> bool" where
  "IsRequired c = (case wc_Required c of None \<Rightarrow> True | Some b \<Rightarrow> b)"

definition validateRelativePath :: "string \<Rightarrow> string \<Rightarrow> string \<Rightarrow> message option" where
  "validateRelativePath what root raw =
     first_some
       [fail_if (blank raw) [T what, T '' must not be empty''],
        fail_if (IsAbs raw \<or> Clean raw = dotdot \<or> has_prefix (Clean raw) ''../'')
          [T what, T '' must stay inside the '', T root, T '': '', Q raw]]"

lemma validateRelativePath_None [check_simps]:
  "validateRelativePath what root raw = None \<longleftrightarrow> \<not> blank raw \<and> \<not> escapes raw"
  by (simp add: validateRelativePath_def first_some_Cons_None first_some_Nil_None escapes_def)

fun workflow_checks ::
  "nat \<Rightarrow> string list \<Rightarrow> string list \<Rightarrow> WorkflowCheck list \<Rightarrow> message option" where
  "workflow_checks i seen seenPaths [] = None"
| "workflow_checks i seen seenPaths (c # cs) =
     (if blank (wc_ID c) then Some [T ''workflow check '', D (int i + 1), T '' needs an id'']
      else if wc_ID c \<in> set seen
      then Some [T ''workflow check ID '', Q (wc_ID c), T '' was duplicated'']
      else if blank (wc_Tool c) then Some [T ''workflow check '', Q (wc_ID c), T '' needs a tool'']
      else case validateRelativePath ''result path'' ''workflow root'' (wc_Result c) of
             Some err \<Rightarrow> Some ([T ''workflow check '', Q (wc_ID c), T '' result: ''] @ err)
           | None \<Rightarrow>
               if Clean (wc_Result c) \<in> set seenPaths
               then Some [T ''workflow result path '', Q (wc_Result c), T '' was duplicated'']
               else workflow_checks (Suc i) (wc_ID c # seen) (Clean (wc_Result c) # seenPaths) cs)"

definition Workflow_Validate :: "Document \<Rightarrow> message option" where
  "Workflow_Validate d =
     (if wd_Schema d \<noteq> WorkflowSchema
      then Some [T ''workflow schema must be '', T WorkflowSchema, T '', got '', Q (wd_Schema d)]
      else if blank (wd_ID d) then Some [T ''workflow id must not be empty'']
      else if wd_Checks d = [] then Some [T ''workflow needs at least one check'']
      else workflow_checks 0 [] [] (wd_Checks d))"

definition workflow_check_ok :: "WorkflowCheck \<Rightarrow> bool" where
  "workflow_check_ok c \<longleftrightarrow>
     \<not> blank (wc_ID c) \<and> \<not> blank (wc_Tool c) \<and> \<not> blank (wc_Result c) \<and> \<not> escapes (wc_Result c)"

lemma workflow_checks_None:
  "workflow_checks i seen seenPaths cs = None \<longleftrightarrow>
   (\<forall>c \<in> set cs. workflow_check_ok c) \<and>
   distinct (map wc_ID cs) \<and> set (map wc_ID cs) \<inter> set seen = {} \<and>
   distinct (map (Clean \<circ> wc_Result) cs) \<and> set (map (Clean \<circ> wc_Result) cs) \<inter> set seenPaths = {}"
proof (induction cs arbitrary: i seen seenPaths)
  case (Cons c cs)
  show ?case
  proof (cases "validateRelativePath ''result path'' ''workflow root'' (wc_Result c)")
    case None
    then have "\<not> blank (wc_Result c) \<and> \<not> escapes (wc_Result c)" unfolding validateRelativePath_None .
    with None show ?thesis by (auto simp: Cons.IH workflow_check_ok_def)
  next
    case (Some err)
    then have "blank (wc_Result c) \<or> escapes (wc_Result c)"
      using validateRelativePath_None[of "''result path''" "''workflow root''" "wc_Result c"] by auto
    with Some show ?thesis by (auto simp: workflow_check_ok_def)
  qed
qed simp

lemma Workflow_Validate_None:
  "Workflow_Validate d = None \<longleftrightarrow>
   wd_Schema d = WorkflowSchema \<and> \<not> blank (wd_ID d) \<and> wd_Checks d \<noteq> [] \<and>
   (\<forall>c \<in> set (wd_Checks d). workflow_check_ok c) \<and> distinct (map wc_ID (wd_Checks d)) \<and>
   distinct (map (Clean \<circ> wc_Result) (wd_Checks d))"
  by (auto simp: Workflow_Validate_def workflow_checks_None)

section \<open>Loading an envelope\<close>

record FileError =
  fe_text :: string
  fe_not_exist :: bool

record Nublar =
  nb_read :: "string \<Rightarrow> FileError + string"
  nb_decode :: "string \<Rightarrow> message + CIArtifact"
  nb_valid_json :: "string \<Rightarrow> bool"
  nb_sha :: "string \<Rightarrow> string"
  nb_render :: "message \<Rightarrow> string"

record Loaded =
  ld_Artifact :: CIArtifact
  ld_SHA256 :: string

text \<open>\<open>nb_decode\<close> stands for both calls of the decoder; the error keeps whether it wraps
  \<open>os.ErrNotExist\<close>, which only a failed read can.\<close>

definition LoadFile :: "Nublar \<Rightarrow> string \<Rightarrow> FileError + Loaded" where
  "LoadFile nb path =
     (case nb_read nb path of
        Inl err \<Rightarrow> Inl (err\<lparr>fe_text := nb_render nb [T ''read CI result '', T path, T '': '', T (fe_text err)]\<rparr>)
      | Inr contents \<Rightarrow>
          (case nb_decode nb contents of
             Inl err \<Rightarrow> Inl \<lparr>fe_text = nb_render nb ([T ''parse CI result '', T path, T '': ''] @ err),
                            fe_not_exist = False\<rparr>
           | Inr result \<Rightarrow>
               (case Artifact_Validate (nb_valid_json nb) result of
                  Some err \<Rightarrow> Inl \<lparr>fe_text = nb_render nb ([T ''validate CI result '', T path, T '': ''] @ err),
                                  fe_not_exist = False\<rparr>
                | None \<Rightarrow> Inr \<lparr>ld_Artifact = result, ld_SHA256 = nb_sha nb contents\<rparr>)))"

lemma LoadFile_Inr:
  "LoadFile nb path = Inr l \<Longrightarrow>
   Artifact_Validate (nb_valid_json nb) (ld_Artifact l) = None \<and>
   (\<exists>contents. nb_read nb path = Inr contents \<and> nb_decode nb contents = Inr (ld_Artifact l) \<and>
      ld_SHA256 l = nb_sha nb contents)"
  by (auto simp: LoadFile_def split: sum.splits option.splits)

section \<open>Composing a report\<close>

abbreviation NublarSchema :: string where "NublarSchema \<equiv> ''ingen.nublar-result/v1''"

record Issue =
  ni_CheckID :: string
  ni_Tool :: string
  ni_Path :: string
  ni_Reason :: string

record Input =
  np_CheckID :: string
  np_Path :: string
  np_SHA256 :: string
  np_Result :: CIArtifact

record Report =
  nr_Schema :: string
  nr_WorkflowID :: string
  nr_Workflow :: "FileRef option"
  nr_Status :: string
  nr_ExitCode :: int
  nr_CreatedAt :: string
  nr_Results :: "Input list"
  nr_Warnings :: "Issue list"
  nr_Errors :: "Issue list"

definition exitCode :: "string \<Rightarrow> int" where
  "exitCode status = (case ExitCodeForStatus status of Inl _ \<Rightarrow> 2 | Inr code \<Rightarrow> code)"

fun compose_loop ::
  "(string \<Rightarrow> bool) \<Rightarrow> nat \<Rightarrow> string list \<Rightarrow> string \<Rightarrow> Input list \<Rightarrow> message + string" where
  "compose_loop vj i seen status [] = Inr status"
| "compose_loop vj i seen status (x # xs) =
     (if blank (np_Path x) then Inl [T ''CI result '', D (int i + 1), T '' path must not be empty'']
      else if np_Path x \<in> set seen
      then Inl [T ''CI result path '', Q (np_Path x), T '' was supplied more than once'']
      else case Artifact_Validate vj (np_Result x) of
             Some err \<Rightarrow> Inl ([T ''validate CI result '', Q (np_Path x), T '': ''] @ err)
           | None \<Rightarrow>
               compose_loop vj (Suc i) (np_Path x # seen)
                 (worse status (ci_Status (np_Result x))) xs)"

definition Compose :: "(string \<Rightarrow> bool) \<Rightarrow> string \<Rightarrow> Input list \<Rightarrow> message + Report" where
  "Compose vj now inputs =
     (if inputs = [] then Inl [T ''at least one CI result is required'']
      else case compose_loop vj 0 [] ''passed'' inputs of
             Inl err \<Rightarrow> Inl err
           | Inr status \<Rightarrow>
               Inr \<lparr>nr_Schema = NublarSchema, nr_WorkflowID = [], nr_Workflow = None, nr_Status = status,
                    nr_ExitCode = exitCode status, nr_CreatedAt = now, nr_Results = inputs,
                    nr_Warnings = [], nr_Errors = []\<rparr>)"

fun load_inputs :: "Nublar \<Rightarrow> string list \<Rightarrow> message + Input list" where
  "load_inputs nb [] = Inr []"
| "load_inputs nb (p # ps) =
     (if blank p then Inl [T ''CI result path must not be empty'']
      else case LoadFile nb p of
             Inl err \<Rightarrow> Inl [T (fe_text err)]
           | Inr l \<Rightarrow>
               (case load_inputs nb ps of
                  Inl err \<Rightarrow> Inl err
                | Inr inputs \<Rightarrow>
                    Inr (\<lparr>np_CheckID = [], np_Path = p, np_SHA256 = ld_SHA256 l,
                          np_Result = ld_Artifact l\<rparr> # inputs)))"

definition ComposeFiles :: "Nublar \<Rightarrow> string \<Rightarrow> string list \<Rightarrow> message + Report" where
  "ComposeFiles nb now paths =
     (if paths = [] then Inl [T ''at least one CI result is required'']
      else case load_inputs nb paths of
             Inl err \<Rightarrow> Inl err
           | Inr inputs \<Rightarrow> Compose (nb_valid_json nb) now inputs)"

fun resolve_checks :: "Nublar \<Rightarrow> string \<Rightarrow> WorkflowCheck list \<Rightarrow> Report \<Rightarrow> Report" where
  "resolve_checks nb root [] report = report"
| "resolve_checks nb root (c # cs) report =
     resolve_checks nb root cs
       (case LoadFile nb (Join root (wc_Result c)) of
          Inl err \<Rightarrow>
            (let issue = \<lparr>ni_CheckID = wc_ID c, ni_Tool = wc_Tool c, ni_Path = wc_Result c,
                          ni_Reason = fe_text err\<rparr>
             in if IsRequired c \<or> \<not> fe_not_exist err
                then report\<lparr>nr_Errors := nr_Errors report @ [issue]\<rparr>
                else report\<lparr>nr_Warnings := nr_Warnings report @ [issue]\<rparr>)
        | Inr l \<Rightarrow>
            if ci_Tool (ld_Artifact l) \<noteq> wc_Tool c
            then report\<lparr>nr_Errors := nr_Errors report @
                   [\<lparr>ni_CheckID = wc_ID c, ni_Tool = wc_Tool c, ni_Path = wc_Result c,
                     ni_Reason = nb_render nb [T ''result tool is '', Q (ci_Tool (ld_Artifact l)),
                                               T '', workflow expects '', Q (wc_Tool c)]\<rparr>]\<rparr>
            else report\<lparr>nr_Results := nr_Results report @
                   [\<lparr>np_CheckID = wc_ID c, np_Path = wc_Result c, np_SHA256 = ld_SHA256 l,
                     np_Result = ld_Artifact l\<rparr>]\<rparr>)"

definition ComposeWorkflow :: "Nublar \<Rightarrow> string \<Rightarrow> Document \<Rightarrow> string \<Rightarrow> Report" where
  "ComposeWorkflow nb now d root =
     (let report = resolve_checks nb root (wd_Checks d)
            \<lparr>nr_Schema = NublarSchema, nr_WorkflowID = wd_ID d, nr_Workflow = None,
             nr_Status = ''passed'', nr_ExitCode = 0, nr_CreatedAt = now, nr_Results = [],
             nr_Warnings = [], nr_Errors = []\<rparr>
      in if nr_Errors report \<noteq> [] \<or> nr_Results report = [] then
           report\<lparr>nr_Status := ''error'', nr_ExitCode := 2,
                  nr_Errors := (if nr_Errors report = []
                    then [\<lparr>ni_CheckID = [], ni_Tool = [], ni_Path = [],
                           ni_Reason = ''workflow produced no result artifacts''\<rparr>]
                    else nr_Errors report)\<rparr>
         else
           (let status = foldl worse (nr_Status report) (map (\<lambda>x. ci_Status (np_Result x)) (nr_Results report))
            in report\<lparr>nr_Status := status, nr_ExitCode := exitCode status\<rparr>))"

fun report_results :: "(string \<Rightarrow> bool) \<Rightarrow> string list \<Rightarrow> Input list \<Rightarrow> message option" where
  "report_results vj seen [] = None"
| "report_results vj seen (x # xs) =
     (if blank (np_Path x) then Some [T ''Nublar report result path must not be empty'']
      else if np_Path x \<in> set seen
      then Some [T ''Nublar report result path '', Q (np_Path x), T '' was duplicated'']
      else case Artifact_Validate vj (np_Result x) of
             Some err \<Rightarrow> Some ([T ''Nublar report result '', Q (np_Path x), T '': ''] @ err)
           | None \<Rightarrow>
               (case (if np_SHA256 x = [] then None
                      else validateFileRef ''result'' (Some \<lparr>fr_Path = np_Path x, fr_SHA256 = np_SHA256 x\<rparr>)) of
                  Some err \<Rightarrow> Some err
                | None \<Rightarrow> report_results vj (np_Path x # seen) xs))"

definition Report_Validate :: "(string \<Rightarrow> bool) \<Rightarrow> Report \<Rightarrow> message option" where
  "Report_Validate vj r =
     first_some
       [fail_if (nr_Schema r \<noteq> NublarSchema)
          [T ''Nublar report schema must be '', T NublarSchema, T '', got '', Q (nr_Schema r)],
        validateFileRef ''workflow'' (nr_Workflow r),
        fail_if (\<not> valid_rfc3339 (nr_CreatedAt r)) [T ''Nublar report created_at must be RFC3339: ''],
        fail_if (nr_Results r = [] \<and> nr_Errors r = [])
          [T ''Nublar report needs at least one result or error''],
        fail_if (severity (nr_Status r) < 0) [T ''Nublar report has unsupported status '', Q (nr_Status r)],
        fail_if (nr_ExitCode r \<noteq> exitCode (nr_Status r))
          [T ''Nublar report status '', Q (nr_Status r), T '' must have exit_code '', D (exitCode (nr_Status r))],
        report_results vj [] (nr_Results r),
        first_error (\<lambda>i. fail_if (blank (ni_Reason i)) [T ''Nublar report issue reason must not be empty''])
          (nr_Warnings r @ nr_Errors r)]"

end
