(* ===== verification/NublarRun.thy ===== *)
theory NublarRun
  imports NublarWorkflow
begin

text \<open>
  nublar/internal/run/run.go and collect.go: the run artifact, its validation and the collection
  of a workflow into a run.
  The two clock readings are given as the text \<open>Format\<close> prints of them and the random bytes of
  a run ID as an argument.
\<close>

section \<open>Runs\<close>

abbreviation RunSchema :: string where "RunSchema \<equiv> ''ingen.nublar-run/v1''"

record Correlation =
  co_System :: string
  co_ID :: string
  co_Attempt :: int

record RunWorkflow =
  rw_ID :: string
  rw_File :: FileRef

record RunResult =
  rr_Ref :: FileRef
  rr_Artifact :: CIArtifact

record RunCheck =
  rc_ID :: string
  rc_Tool :: string
  rc_Path :: string
  rc_Required :: bool
  rc_Status :: string
  rc_Result :: "RunResult option"
  rc_Reason :: string

record Run =
  run_Schema :: string
  run_RunID :: string
  run_Workflow :: RunWorkflow
  run_Correlation :: "Correlation option"
  run_Status :: string
  run_ExitCode :: int
  run_CreatedAt :: string
  run_CompletedAt :: string
  run_Checks :: "RunCheck list"
  run_Warnings :: "Issue list"
  run_Errors :: "Issue list"

definition Correlation_Validate :: "Correlation \<Rightarrow> message option" where
  "Correlation_Validate c =
     first_some
       [fail_if (blank (co_System c)) [T ''Nublar correlation system is required''],
        fail_if (blank (co_ID c)) [T ''Nublar correlation id is required''],
        fail_if (co_Attempt c < 1) [T ''Nublar correlation attempt must be positive'']]"

definition run_validateFileRef :: "string \<Rightarrow> FileRef \<Rightarrow> message option" where
  "run_validateFileRef name ref =
     first_some
       [validateFileRef name (Some ref),
        fail_if (blank (fr_SHA256 ref)) [T ''Nublar run '', T name, T '' sha256 is required'']]"

definition parseTimestamp :: "string \<Rightarrow> string \<Rightarrow> message + instant" where
  "parseTimestamp name v =
     (if blank v then Inl [T ''Nublar run '', T name, T '' is required'']
      else case parse_rfc3339 v of
             None \<Rightarrow> Inl [T ''Nublar run '', T name, T '' must be RFC3339: '']
           | Some (t, _) \<Rightarrow> Inr t)"

definition Issue_Validate :: "Issue \<Rightarrow> message option" where
  "Issue_Validate i = fail_if (blank (ni_Reason i)) [T ''issue reason must not be empty'']"

definition validateCheckIdentity ::
  "RunCheck \<Rightarrow> nat \<Rightarrow> string list \<Rightarrow> string list \<Rightarrow> message option" where
  "validateCheckIdentity c i seenIDs seenPaths =
     first_some
       [fail_if (blank (rc_ID c)) [T ''Nublar run check '', D (int i + 1), T '' needs an id''],
        fail_if (rc_ID c \<in> set seenIDs) [T ''Nublar run check ID '', Q (rc_ID c), T '' was duplicated''],
        fail_if (blank (rc_Tool c)) [T ''Nublar run check '', Q (rc_ID c), T '' needs a tool''],
        wrap_err (\<lambda>err. [T ''Nublar run check '', Q (rc_ID c), T '' path: ''] @ err)
          (validateRelativePath ''path'' ''artifact root'' (rc_Path c)),
        fail_if (Clean (rc_Path c) \<in> set seenPaths)
          [T ''Nublar run result path '', Q (rc_Path c), T '' was duplicated'']]"

definition validateCheckState :: "RunCheck \<Rightarrow> message option" where
  "validateCheckState c =
     (if rc_Status c = ''passed'' \<or> rc_Status c = ''failed'' then
        fail_if (rc_Result c = None) [T (rc_Status c), T '' check needs a producer result'']
      else if rc_Status c = ''error'' then
        fail_if (rc_Result c = None \<and> blank (rc_Reason c))
          [T ''error check needs a producer result or reason'']
      else if rc_Status c = ''missing'' then
        first_some
          [fail_if (rc_Required c) [T ''required check cannot be missing''],
           fail_if (rc_Result c \<noteq> None) [T ''missing check must not contain a producer result''],
           fail_if (blank (rc_Reason c)) [T ''missing check needs a reason'']]
      else Some [T ''check has unsupported status '', Q (rc_Status c)])"

definition RunResult_validate :: "(string \<Rightarrow> bool) \<Rightarrow> RunResult \<Rightarrow> RunCheck \<Rightarrow> message option" where
  "RunResult_validate vj r c =
     first_some
       [run_validateFileRef ''result'' (rr_Ref r),
        fail_if (Clean (fr_Path (rr_Ref r)) \<noteq> Clean (rc_Path c))
          [T ''producer result path is '', Q (fr_Path (rr_Ref r)), T '', check expects '', Q (rc_Path c)],
        wrap_err (\<lambda>err. T ''producer artifact: '' # err) (Artifact_Validate vj (rr_Artifact r)),
        fail_if (ci_Tool (rr_Artifact r) \<noteq> rc_Tool c)
          [T ''producer tool is '', Q (ci_Tool (rr_Artifact r)), T '', check expects '', Q (rc_Tool c)],
        fail_if (ci_Status (rr_Artifact r) \<noteq> rc_Status c)
          [T ''producer status is '', Q (ci_Status (rr_Artifact r)), T '', check records '', Q (rc_Status c)]]"

record Tally =
  ta_status :: string
  ta_present :: nat
  ta_error :: bool

fun run_checks ::
  "(string \<Rightarrow> bool) \<Rightarrow> nat \<Rightarrow> string list \<Rightarrow> string list \<Rightarrow> Tally \<Rightarrow> RunCheck list \<Rightarrow> message + Tally" where
  "run_checks vj i seenIDs seenPaths t [] = Inr t"
| "run_checks vj i seenIDs seenPaths t (c # cs) =
     (let ids = rc_ID c # seenIDs; paths = Clean (rc_Path c) # seenPaths in
      case validateCheckIdentity c i seenIDs seenPaths of
        Some err \<Rightarrow> Inl err
      | None \<Rightarrow>
          (case validateCheckState c of
             Some err \<Rightarrow> Inl ([T ''Nublar run check '', Q (rc_ID c), T '': ''] @ err)
           | None \<Rightarrow>
               if rc_Status c = ''missing'' then run_checks vj (Suc i) ids paths t cs
               else
                 (let t = (if rc_Status c = ''error'' then t\<lparr>ta_error := True\<rparr> else t) in
                  case rc_Result c of
                    None \<Rightarrow> run_checks vj (Suc i) ids paths t cs
                  | Some r \<Rightarrow>
                      (case RunResult_validate vj r c of
                         Some err \<Rightarrow> Inl ([T ''Nublar run check '', Q (rc_ID c), T '': ''] @ err)
                       | None \<Rightarrow>
                           run_checks vj (Suc i) ids paths
                             (t\<lparr>ta_present := ta_present t + 1,
                                ta_status := worse (ta_status t) (ci_Status (rr_Artifact r))\<rparr>) cs))))"

fun issues_problem :: "string \<Rightarrow> nat \<Rightarrow> Issue list \<Rightarrow> message option" where
  "issues_problem what i [] = None"
| "issues_problem what i (x # xs) =
     (case Issue_Validate x of
        Some err \<Rightarrow> Some ([T ''Nublar run '', T what, T '' '', D (int i + 1), T '': ''] @ err)
      | None \<Rightarrow> issues_problem what (Suc i) xs)"

definition Run_Validate :: "(string \<Rightarrow> bool) \<Rightarrow> Run \<Rightarrow> message option" where
  "Run_Validate vj r =
     first_some
       [fail_if (run_Schema r \<noteq> RunSchema)
          [T ''Nublar run schema must be '', T RunSchema, T '', got '', Q (run_Schema r)],
        fail_if (blank (run_RunID r)) [T ''Nublar run run_id is required''],
        fail_if (blank (rw_ID (run_Workflow r))) [T ''Nublar run workflow id is required''],
        run_validateFileRef ''workflow file'' (rw_File (run_Workflow r)),
        (case run_Correlation r of None \<Rightarrow> None | Some c \<Rightarrow> Correlation_Validate c),
        (case parseTimestamp ''created_at'' (run_CreatedAt r) of
           Inl err \<Rightarrow> Some err
         | Inr createdAt \<Rightarrow>
             (case parseTimestamp ''completed_at'' (run_CompletedAt r) of
                Inl err \<Rightarrow> Some err
              | Inr completedAt \<Rightarrow>
                  fail_if (completedAt < createdAt)
                    [T ''Nublar run completed_at must not be before created_at''])),
        (case ExitCodeForStatus (run_Status r) of
           Inl err \<Rightarrow> Some err
         | Inr expected \<Rightarrow>
             fail_if (run_ExitCode r \<noteq> expected)
               [T ''Nublar run status '', Q (run_Status r), T '' must have exit_code '', D expected]),
        fail_if (run_Checks r = []) [T ''Nublar run needs at least one check''],
        (case run_checks vj 0 [] [] \<lparr>ta_status = ''passed'', ta_present = 0, ta_error = False\<rparr> (run_Checks r) of
           Inl err \<Rightarrow> Some err
         | Inr t \<Rightarrow>
             (let computed = (if run_Errors r \<noteq> [] \<or> ta_error t then ''error'' else ta_status t) in
              first_some
                [issues_problem ''warning'' 0 (run_Warnings r),
                 issues_problem ''error'' 0 (run_Errors r),
                 fail_if (ta_present t = 0 \<and> run_Errors r = [] \<and> \<not> ta_error t)
                   [T ''Nublar run needs at least one present result artifact or collection error''],
                 fail_if (run_Status r \<noteq> computed)
                   [T ''Nublar run status '', Q (run_Status r), T '' does not match check decisions; want '',
                    Q computed]]))]"

section \<open>Collection\<close>

definition NewID :: "message + 8 word list \<Rightarrow> message + string" where
  "NewID random =
     (case random of
        Inl err \<Rightarrow> Inl (T ''generate Nublar run ID: '' # err)
      | Inr raw \<Rightarrow> Inr (''run-'' @ concat (map hex_byte raw)))"

definition collect_issue :: "WorkflowCheck \<Rightarrow> string \<Rightarrow> Issue" where
  "collect_issue c reason =
     \<lparr>ni_CheckID = wc_ID c, ni_Tool = wc_Tool c, ni_Path = wc_Result c, ni_Reason = reason\<rparr>"

fun collect_loop :: "Nublar \<Rightarrow> string \<Rightarrow> WorkflowCheck list \<Rightarrow> Run \<Rightarrow> nat \<Rightarrow> Run \<times> nat" where
  "collect_loop nb root [] r present = (r, present)"
| "collect_loop nb root (d # ds) r present =
     (let check = \<lparr>rc_ID = wc_ID d, rc_Tool = wc_Tool d, rc_Path = wc_Result d,
                   rc_Required = IsRequired d, rc_Status = [], rc_Result = None, rc_Reason = []\<rparr>
      in case LoadFile nb (Join root (wc_Result d)) of
           Inl err \<Rightarrow>
             (let check = check\<lparr>rc_Reason := fe_text err\<rparr> in
              if fe_not_exist err \<and> \<not> rc_Required check
              then collect_loop nb root ds
                     (r\<lparr>run_Warnings := run_Warnings r @ [collect_issue d (fe_text err)],
                        run_Checks := run_Checks r @ [check\<lparr>rc_Status := ''missing''\<rparr>]\<rparr>) present
              else collect_loop nb root ds
                     (r\<lparr>run_Errors := run_Errors r @ [collect_issue d (fe_text err)],
                        run_Checks := run_Checks r @ [check\<lparr>rc_Status := ''error''\<rparr>]\<rparr>) present)
         | Inr l \<Rightarrow>
             if ci_Tool (ld_Artifact l) \<noteq> rc_Tool check then
               (let reason = nb_render nb [T ''producer tool is '', Q (ci_Tool (ld_Artifact l)),
                                           T '', workflow expects '', Q (rc_Tool check)]
                in collect_loop nb root ds
                     (r\<lparr>run_Errors := run_Errors r @ [collect_issue d reason],
                        run_Checks := run_Checks r @ [check\<lparr>rc_Status := ''error'', rc_Reason := reason\<rparr>]\<rparr>)
                     present)
             else
               collect_loop nb root ds
                 (r\<lparr>run_Checks := run_Checks r @
                     [check\<lparr>rc_Status := ci_Status (ld_Artifact l),
                            rc_Result := Some \<lparr>rr_Ref = \<lparr>fr_Path = rc_Path check, fr_SHA256 = ld_SHA256 l\<rparr>,
                                               rr_Artifact = ld_Artifact l\<rparr>\<rparr>]\<rparr>)
                 (Suc present))"

fun decide :: "string \<Rightarrow> RunCheck list \<Rightarrow> string" where
  "decide status [] = status"
| "decide status (c # cs) =
     (if rc_Status c = ''error'' then ''error''
      else case rc_Result c of
             None \<Rightarrow> decide status cs
           | Some r \<Rightarrow> decide (worse status (ci_Status (rr_Artifact r))) cs)"

definition decision :: "Run \<Rightarrow> string" where
  "decision r = (if run_Errors r \<noteq> [] then ''error'' else decide ''passed'' (run_Checks r))"

definition CollectWorkflowWithCorrelation ::
  "Nublar \<Rightarrow> message + 8 word list \<Rightarrow> string \<Rightarrow> string \<Rightarrow> Document \<Rightarrow> FileRef \<Rightarrow> string \<Rightarrow> string
   \<Rightarrow> Correlation option \<Rightarrow> message + Run" where
  "CollectWorkflowWithCorrelation nb random created completed document workflowRef root runID correlation =
     (case Workflow_Validate document of
        Some err \<Rightarrow> Inl (T ''validate Nublar workflow before collection: '' # err)
      | None \<Rightarrow>
          (case run_validateFileRef ''workflow'' workflowRef of
             Some err \<Rightarrow> Inl (T ''validate Nublar workflow reference before collection: '' # err)
           | None \<Rightarrow>
               (case (case correlation of None \<Rightarrow> None | Some c \<Rightarrow> Correlation_Validate c) of
                  Some err \<Rightarrow> Inl (T ''validate Nublar correlation before collection: '' # err)
                | None \<Rightarrow>
                    (case (if runID = [] then NewID random else Inr runID) of
                       Inl err \<Rightarrow> Inl err
                     | Inr runID \<Rightarrow>
                         (let (r, present) = collect_loop nb root (wd_Checks document)
                                \<lparr>run_Schema = RunSchema, run_RunID = runID,
                                 run_Workflow = \<lparr>rw_ID = wd_ID document, rw_File = workflowRef\<rparr>,
                                 run_Correlation = correlation, run_Status = ''passed'', run_ExitCode = 0,
                                 run_CreatedAt = created, run_CompletedAt = [], run_Checks = [],
                                 run_Warnings = [], run_Errors = []\<rparr> 0;
                              r = (if present = 0 \<and> run_Errors r = []
                                   then r\<lparr>run_Errors := [\<lparr>ni_CheckID = [], ni_Tool = [], ni_Path = [],
                                     ni_Reason = ''workflow produced no result artifacts''\<rparr>]\<rparr>
                                   else r);
                              r = r\<lparr>run_Status := decision r\<rparr>
                          in Inr (r\<lparr>run_ExitCode := (case ExitCodeForStatus (run_Status r) of
                                                     Inl _ \<Rightarrow> 0 | Inr code \<Rightarrow> code),
                                    run_CompletedAt := completed\<rparr>))))))"

section \<open>What an accepted run says\<close>

definition run_check_ok :: "(string \<Rightarrow> bool) \<Rightarrow> RunCheck \<Rightarrow> bool" where
  "run_check_ok vj c \<longleftrightarrow>
     \<not> blank (rc_ID c) \<and> \<not> blank (rc_Tool c) \<and> \<not> blank (rc_Path c) \<and> \<not> escapes (rc_Path c) \<and>
     validateCheckState c = None \<and>
     (\<forall>r. rc_Result c = Some r \<longrightarrow> RunResult_validate vj r c = None)"

definition absorb :: "Tally \<Rightarrow> RunCheck \<Rightarrow> Tally" where
  "absorb t c =
     (let t = (if rc_Status c = ''error'' then t\<lparr>ta_error := True\<rparr> else t) in
      case rc_Result c of
        None \<Rightarrow> t
      | Some r \<Rightarrow> t\<lparr>ta_present := ta_present t + 1,
                    ta_status := worse (ta_status t) (ci_Status (rr_Artifact r))\<rparr>)"

lemma validateCheckIdentity_None:
  "validateCheckIdentity c i ids paths = None \<longleftrightarrow>
   \<not> blank (rc_ID c) \<and> rc_ID c \<notin> set ids \<and> \<not> blank (rc_Tool c) \<and> \<not> blank (rc_Path c) \<and>
   \<not> escapes (rc_Path c) \<and> Clean (rc_Path c) \<notin> set paths"
  by (auto simp: validateCheckIdentity_def first_some_Cons_None first_some_Nil_None
      validateRelativePath_None)

lemma missing_no_result:
  "validateCheckState c = None \<Longrightarrow> rc_Status c = ''missing'' \<Longrightarrow> rc_Result c = None \<and> \<not> rc_Required c"
  by (auto simp: validateCheckState_def first_some_Cons_None)

lemma run_checks_Inr:
  "run_checks vj i ids paths t cs = Inr t' \<longleftrightarrow>
   (\<forall>c \<in> set cs. run_check_ok vj c) \<and> distinct (map rc_ID cs) \<and> set (map rc_ID cs) \<inter> set ids = {} \<and>
   distinct (map (Clean \<circ> rc_Path) cs) \<and> set (map (Clean \<circ> rc_Path) cs) \<inter> set paths = {} \<and>
   t' = foldl absorb t cs"
proof (induction cs arbitrary: i ids paths t)
  case (Cons c cs)
  show ?case
  proof (cases "validateCheckIdentity c i ids paths")
    case (Some err)
    then have "\<not> (validateCheckIdentity c i ids paths = None)" by simp
    then have "\<not> (run_check_ok vj c \<and> rc_ID c \<notin> set ids \<and> Clean (rc_Path c) \<notin> set paths)"
      unfolding validateCheckIdentity_None run_check_ok_def by blast
    with Some show ?thesis by auto
  next
    case None
    note id = None[unfolded validateCheckIdentity_None]
    show ?thesis
    proof (cases "validateCheckState c")
      case (Some err)
      then have "\<not> run_check_ok vj c" by (simp add: run_check_ok_def)
      with Some None show ?thesis by simp
    next
      case st: None
      show ?thesis
      proof (cases "rc_Result c")
        case no: None
        then have ok: "run_check_ok vj c" using id st by (simp add: run_check_ok_def)
        have "run_checks vj i ids paths t (c # cs) =
              run_checks vj (Suc i) (rc_ID c # ids) (Clean (rc_Path c) # paths) (absorb t c) cs"
          using None st no by (simp add: absorb_def Let_def)
        with Cons.IH ok id show ?thesis by auto
      next
        case (Some r)
        then have nm: "rc_Status c \<noteq> ''missing''" using missing_no_result[OF st] by auto
        show ?thesis
        proof (cases "RunResult_validate vj r c")
          case bad: (Some err)
          then have "\<not> run_check_ok vj c" using Some by (simp add: run_check_ok_def)
          with None st nm Some bad show ?thesis by (simp add: Let_def)
        next
          case good: None
          then have ok: "run_check_ok vj c" using id st Some by (simp add: run_check_ok_def)
          have "run_checks vj i ids paths t (c # cs) =
                run_checks vj (Suc i) (rc_ID c # ids) (Clean (rc_Path c) # paths) (absorb t c) cs"
            using None st nm Some good by (simp add: absorb_def Let_def)
          with Cons.IH ok id show ?thesis by auto
        qed
      qed
    qed
  qed
qed auto

definition result_statuses :: "RunCheck list \<Rightarrow> string list" where
  "result_statuses cs =
     concat (map (\<lambda>c. case rc_Result c of Some r \<Rightarrow> [ci_Status (rr_Artifact r)] | None \<Rightarrow> []) cs)"

lemma absorb_all:
  "foldl absorb t cs =
   \<lparr>ta_status = foldl worse (ta_status t) (result_statuses cs),
    ta_present = ta_present t + length (result_statuses cs),
    ta_error = (ta_error t \<or> (\<exists>c \<in> set cs. rc_Status c = ''error''))\<rparr>"
proof (induction cs arbitrary: t)
  case (Cons c cs)
  show ?case by (simp add: Cons.IH) (auto simp: absorb_def result_statuses_def Let_def split: option.split)
qed (simp add: result_statuses_def)

definition computed_status :: "Run \<Rightarrow> string" where
  "computed_status r =
     (if run_Errors r \<noteq> [] \<or> (\<exists>c \<in> set (run_Checks r). rc_Status c = ''error'') then ''error''
      else foldl worse ''passed'' (result_statuses (run_Checks r)))"

lemma issues_problem_None: "issues_problem what i xs = None \<longleftrightarrow> (\<forall>x \<in> set xs. \<not> blank (ni_Reason x))"
  by (induction xs arbitrary: i) (auto simp: Issue_Validate_def split: option.splits)

lemma Run_Validate_None:
  "Run_Validate vj r = None \<longleftrightarrow>
   run_Schema r = RunSchema \<and> \<not> blank (run_RunID r) \<and> \<not> blank (rw_ID (run_Workflow r)) \<and>
   run_validateFileRef ''workflow file'' (rw_File (run_Workflow r)) = None \<and>
   (\<forall>c. run_Correlation r = Some c \<longrightarrow> Correlation_Validate c = None) \<and>
   (\<exists>a b. parseTimestamp ''created_at'' (run_CreatedAt r) = Inr a \<and>
      parseTimestamp ''completed_at'' (run_CompletedAt r) = Inr b \<and> a \<le> b) \<and>
   (\<exists>v. verdict_of (run_Status r) = Some v \<and> run_ExitCode r = int (verdict_rank v)) \<and>
   run_Checks r \<noteq> [] \<and> (\<forall>c \<in> set (run_Checks r). run_check_ok vj c) \<and>
   distinct (map rc_ID (run_Checks r)) \<and> distinct (map (Clean \<circ> rc_Path) (run_Checks r)) \<and>
   (\<forall>i \<in> set (run_Warnings r) \<union> set (run_Errors r). \<not> blank (ni_Reason i)) \<and>
   (result_statuses (run_Checks r) \<noteq> [] \<or> run_Errors r \<noteq> [] \<or>
      (\<exists>c \<in> set (run_Checks r). rc_Status c = ''error'')) \<and>
   run_Status r = computed_status r"
proof -
  have corr: "(case run_Correlation r of None \<Rightarrow> None | Some c \<Rightarrow> Correlation_Validate c) = None \<longleftrightarrow>
      (\<forall>c. run_Correlation r = Some c \<longrightarrow> Correlation_Validate c = None)"
    by (simp split: option.split)
  have time: "(case parseTimestamp ''created_at'' (run_CreatedAt r) of Inl err \<Rightarrow> Some err
      | Inr createdAt \<Rightarrow> (case parseTimestamp ''completed_at'' (run_CompletedAt r) of Inl err \<Rightarrow> Some err
          | Inr completedAt \<Rightarrow> fail_if (completedAt < createdAt)
              [T ''Nublar run completed_at must not be before created_at''])) = None \<longleftrightarrow>
      (\<exists>a b. parseTimestamp ''created_at'' (run_CreatedAt r) = Inr a \<and>
        parseTimestamp ''completed_at'' (run_CompletedAt r) = Inr b \<and> a \<le> b)"
    by (auto split: sum.split)
  have code: "(case ExitCodeForStatus (run_Status r) of Inl err \<Rightarrow> Some err
      | Inr expected \<Rightarrow> fail_if (run_ExitCode r \<noteq> expected)
          [T ''Nublar run status '', Q (run_Status r), T '' must have exit_code '', D expected]) = None \<longleftrightarrow>
      (\<exists>v. verdict_of (run_Status r) = Some v \<and> run_ExitCode r = int (verdict_rank v))"
    by (auto simp: ExitCodeForStatus_def verdict_of_def)
  let ?t = "\<lparr>ta_status = ''passed'', ta_present = 0, ta_error = False\<rparr>"
  let ?ok = "(\<forall>c \<in> set (run_Checks r). run_check_ok vj c) \<and> distinct (map rc_ID (run_Checks r)) \<and>
     distinct (map (Clean \<circ> rc_Path) (run_Checks r))"
  have checks: "run_checks vj 0 [] [] ?t (run_Checks r) = Inr t \<longleftrightarrow> ?ok \<and> t = foldl absorb ?t (run_Checks r)" for t
    by (simp add: run_checks_Inr)
  define tail where "tail t = (let computed = (if run_Errors r \<noteq> [] \<or> ta_error t then ''error'' else ta_status t) in
              first_some
                [issues_problem ''warning'' 0 (run_Warnings r),
                 issues_problem ''error'' 0 (run_Errors r),
                 fail_if (ta_present t = 0 \<and> run_Errors r = [] \<and> \<not> ta_error t)
                   [T ''Nublar run needs at least one present result artifact or collection error''],
                 fail_if (run_Status r \<noteq> computed)
                   [T ''Nublar run status '', Q (run_Status r), T '' does not match check decisions; want '',
                    Q computed]])" for t :: Tally
  have tail: "tail (foldl absorb ?t (run_Checks r)) = None \<longleftrightarrow>
     (\<forall>i \<in> set (run_Warnings r) \<union> set (run_Errors r). \<not> blank (ni_Reason i)) \<and>
     (result_statuses (run_Checks r) \<noteq> [] \<or> run_Errors r \<noteq> [] \<or>
        (\<exists>c \<in> set (run_Checks r). rc_Status c = ''error'')) \<and>
     run_Status r = computed_status r"
    by (auto simp: tail_def Let_def absorb_all first_some_Cons_None first_some_Nil_None
        issues_problem_None computed_status_def)
  have last_part: "(case run_checks vj 0 [] [] ?t (run_Checks r) of Inl err \<Rightarrow> Some err | Inr t \<Rightarrow> tail t) = None \<longleftrightarrow>
     ?ok \<and> tail (foldl absorb ?t (run_Checks r)) = None"
  proof (cases "run_checks vj 0 [] [] ?t (run_Checks r)")
    case (Inl err)
    then have "\<not> ?ok" using checks by fastforce
    with Inl show ?thesis by auto
  next
    case (Inr b)
    with checks[of b] have "?ok" "b = foldl absorb ?t (run_Checks r)" by blast+
    with Inr show ?thesis by auto
  qed
  show ?thesis
    unfolding Run_Validate_def tail_def[symmetric] first_some_Cons_None first_some_Nil_None
      corr time code last_part tail
    by auto
qed
end
