(* ===== verification/NublarDelivery.thy ===== *)
theory NublarDelivery
  imports NublarRun
begin

text \<open>
  nublar/internal/delivery/projection.go: the decision that is delivered, the projection of a
  run to it, and delivery receipts.  Values are copied, so the pointers of the code are options.
\<close>

abbreviation DecisionSchema :: string where "DecisionSchema \<equiv> ''ingen.nublar-decision/v1''"
abbreviation ReceiptSchema :: string where "ReceiptSchema \<equiv> ''ingen.nublar-delivery-receipt/v1''"

record DecisionCheck =
  dc_ID :: string
  dc_Tool :: string
  dc_Path :: string
  dc_Required :: bool
  dc_Status :: string
  dc_Result :: "FileRef option"
  dc_Reason :: string

record Decision =
  de_Schema :: string
  de_RunID :: string
  de_Workflow :: RunWorkflow
  de_Correlation :: "Correlation option"
  de_Status :: string
  de_ExitCode :: int
  de_CreatedAt :: string
  de_CompletedAt :: string
  de_Checks :: "DecisionCheck list"
  de_Warnings :: "Issue list"
  de_Errors :: "Issue list"

definition decision_check_problem :: "DecisionCheck \<Rightarrow> message option" where
  "decision_check_problem c =
     first_some
       [if dc_Status c = ''passed'' \<or> dc_Status c = ''failed'' then
          fail_if (dc_Result c = None)
            [T ''Nublar decision check '', Q (dc_ID c), T '' needs a result reference'']
        else if dc_Status c = ''error'' then
          fail_if (dc_Result c = None \<and> blank (dc_Reason c))
            [T ''Nublar decision check '', Q (dc_ID c), T '' needs a result or reason'']
        else if dc_Status c = ''missing'' then
          fail_if (dc_Result c \<noteq> None \<or> blank (dc_Reason c))
            [T ''Nublar decision missing check '', Q (dc_ID c), T '' needs only a reason'']
        else Some [T ''Nublar decision check '', Q (dc_ID c), T '' has unsupported status '', Q (dc_Status c)],
        validateFileRef ''decision result'' (dc_Result c)]"

fun decision_checks :: "string list \<Rightarrow> DecisionCheck list \<Rightarrow> message option" where
  "decision_checks seen [] = None"
| "decision_checks seen (c # cs) =
     (if blank (dc_ID c) \<or> blank (dc_Tool c) \<or> blank (dc_Path c)
      then Some [T ''Nublar decision check identity is incomplete'']
      else if dc_ID c \<in> set seen
      then Some [T ''Nublar decision check ID '', Q (dc_ID c), T '' was duplicated'']
      else case decision_check_problem c of
             Some err \<Rightarrow> Some err
           | None \<Rightarrow> decision_checks (dc_ID c # seen) cs)"

definition Decision_Validate :: "Decision \<Rightarrow> message option" where
  "Decision_Validate d =
     first_some
       [fail_if (de_Schema d \<noteq> DecisionSchema)
          [T ''Nublar decision schema must be '', T DecisionSchema, T '', got '', Q (de_Schema d)],
        fail_if (blank (de_RunID d) \<or> blank (rw_ID (de_Workflow d)))
          [T ''Nublar decision run_id and workflow id are required''],
        validateFileRef ''decision workflow'' (Some (rw_File (de_Workflow d))),
        (case de_Correlation d of None \<Rightarrow> None | Some c \<Rightarrow> Correlation_Validate c),
        fail_if (\<not> valid_rfc3339 (de_CreatedAt d)) [T ''Nublar decision created_at must be RFC3339: ''],
        fail_if (\<not> valid_rfc3339 (de_CompletedAt d)) [T ''Nublar decision completed_at must be RFC3339: ''],
        (case ExitCodeForStatus (de_Status d) of
           Inl err \<Rightarrow> Some err
         | Inr expected \<Rightarrow>
             fail_if (de_ExitCode d \<noteq> expected)
               [T ''Nublar decision status '', Q (de_Status d), T '' must have exit_code '', D expected]),
        fail_if (de_Checks d = []) [T ''Nublar decision needs at least one check''],
        decision_checks [] (de_Checks d),
        first_error Issue_Validate (de_Warnings d @ de_Errors d)]"

definition project_check :: "RunCheck \<Rightarrow> DecisionCheck" where
  "project_check c =
     \<lparr>dc_ID = rc_ID c, dc_Tool = rc_Tool c, dc_Path = rc_Path c, dc_Required = rc_Required c,
      dc_Status = rc_Status c, dc_Result = map_option rr_Ref (rc_Result c), dc_Reason = rc_Reason c\<rparr>"

definition projection :: "Run \<Rightarrow> Decision" where
  "projection r =
     \<lparr>de_Schema = DecisionSchema, de_RunID = run_RunID r, de_Workflow = run_Workflow r,
      de_Correlation = run_Correlation r, de_Status = run_Status r, de_ExitCode = run_ExitCode r,
      de_CreatedAt = run_CreatedAt r, de_CompletedAt = run_CompletedAt r,
      de_Checks = map project_check (run_Checks r), de_Warnings = run_Warnings r,
      de_Errors = run_Errors r\<rparr>"

definition Project_run :: "(string \<Rightarrow> bool) \<Rightarrow> Run \<Rightarrow> message + Decision" where
  "Project_run vj r =
     (case Run_Validate vj r of
        Some err \<Rightarrow> Inl err
      | None \<Rightarrow>
          (case Decision_Validate (projection r) of
             Some err \<Rightarrow> Inl err | None \<Rightarrow> Inr (projection r)))"

record Receipt =
  re_Schema :: string
  re_RunID :: string
  re_Transport :: string
  re_Status :: string
  re_HTTPStatus :: int
  re_AttemptedAt :: string
  re_Error :: string

definition Receipt_Validate :: "Receipt \<Rightarrow> message option" where
  "Receipt_Validate r =
     first_some
       [fail_if (re_Schema r \<noteq> ReceiptSchema)
          [T ''Nublar delivery receipt schema must be '', T ReceiptSchema, T '', got '', Q (re_Schema r)],
        fail_if (blank (re_RunID r) \<or> blank (re_Transport r))
          [T ''Nublar delivery receipt run_id and transport are required''],
        fail_if (re_Status r \<noteq> ''accepted'' \<and> re_Status r \<noteq> ''failed'')
          [T ''Nublar delivery receipt has unsupported status '', Q (re_Status r)],
        fail_if (\<not> valid_rfc3339 (re_AttemptedAt r))
          [T ''Nublar delivery receipt attempted_at must be RFC3339: ''],
        fail_if (re_Status r = ''accepted'' \<and> (re_HTTPStatus r < 200 \<or> 300 \<le> re_HTTPStatus r))
          [T ''accepted Nublar delivery receipt needs a 2xx http_status''],
        fail_if (re_Status r = ''failed'' \<and> blank (re_Error r))
          [T ''failed Nublar delivery receipt needs an error'']]"

section \<open>Every accepted run can be projected\<close>

lemma decision_checks_None:
  "decision_checks seen cs = None \<longleftrightarrow>
   (\<forall>c \<in> set cs. \<not> blank (dc_ID c) \<and> \<not> blank (dc_Tool c) \<and> \<not> blank (dc_Path c) \<and>
      decision_check_problem c = None) \<and>
   distinct (map dc_ID cs) \<and> set (map dc_ID cs) \<inter> set seen = {}"
  by (induction cs arbitrary: seen) (auto split: option.splits)

lemma run_file_ref:
  "run_validateFileRef name r = None \<Longrightarrow> validateFileRef name' (Some r) = None"
  by (simp add: run_validateFileRef_def first_some_Cons_None validateFileRef_Some_None)

lemma project_check_ok:
  assumes "run_check_ok vj c"
  shows "decision_check_problem (project_check c) = None"
proof -
  have st: "validateCheckState c = None" using assms by (simp add: run_check_ok_def)
  have "validateFileRef ''decision result'' (map_option rr_Ref (rc_Result c)) = None"
  proof (cases "rc_Result c")
    case (Some r)
    with assms have "RunResult_validate vj r c = None" by (simp add: run_check_ok_def)
    then have "run_validateFileRef ''result'' (rr_Ref r) = None"
      by (simp add: RunResult_validate_def first_some_Cons_None)
    with Some show ?thesis by (simp add: run_file_ref)
  qed (simp add: validateFileRef_def)
  with st show ?thesis
    by (auto simp: decision_check_problem_def project_check_def validateCheckState_def
        first_some_Cons_None first_some_Nil_None split: if_splits)
qed

lemma parseTimestamp_valid: "parseTimestamp name v = Inr t \<Longrightarrow> valid_rfc3339 v"
  by (auto simp: parseTimestamp_def valid_rfc3339_def split: if_splits option.splits)

lemma projection_simps:
  "de_Schema (projection r) = DecisionSchema" "de_RunID (projection r) = run_RunID r"
  "de_Workflow (projection r) = run_Workflow r" "de_Correlation (projection r) = run_Correlation r"
  "de_Status (projection r) = run_Status r" "de_ExitCode (projection r) = run_ExitCode r"
  "de_CreatedAt (projection r) = run_CreatedAt r" "de_CompletedAt (projection r) = run_CompletedAt r"
  "de_Checks (projection r) = map project_check (run_Checks r)"
  "de_Warnings (projection r) = run_Warnings r" "de_Errors (projection r) = run_Errors r"
  by (simp_all add: projection_def)

lemma projection_valid:
  assumes "Run_Validate vj r = None"
  shows "Decision_Validate (projection r) = None"
proof -
  note r = assms[unfolded Run_Validate_None]
  have wfile: "validateFileRef ''decision workflow'' (Some (rw_File (run_Workflow r))) = None"
    using r run_file_ref by blast
  have times: "valid_rfc3339 (run_CreatedAt r)" "valid_rfc3339 (run_CompletedAt r)"
    using r parseTimestamp_valid by blast+
  have code: "\<exists>v. verdict_of (run_Status r) = Some v \<and> run_ExitCode r = int (verdict_rank v)" using r by blast
  have ids: "map dc_ID (map project_check cs) = map rc_ID cs" for cs by (simp add: project_check_def)
  have "decision_checks [] (map project_check (run_Checks r)) = None"
  proof -
    have "\<forall>c \<in> set (run_Checks r). run_check_ok vj c" "distinct (map rc_ID (run_Checks r))" using r by blast+
    then show ?thesis unfolding decision_checks_None ids
      by (auto simp: project_check_ok) (auto simp: project_check_def run_check_ok_def)
  qed
  moreover have "(case ExitCodeForStatus (run_Status r) of Inl err \<Rightarrow> Some err
      | Inr expected \<Rightarrow> fail_if (run_ExitCode r \<noteq> expected)
          [T ''Nublar decision status '', Q (run_Status r), T '' must have exit_code '', D expected]) = None"
    using code by (auto simp: ExitCodeForStatus_def verdict_of_def split: if_splits)
  moreover have "(case run_Correlation r of None \<Rightarrow> None | Some c \<Rightarrow> Correlation_Validate c) = None"
    using r by (auto split: option.split)
  moreover have "\<forall>i \<in> set (run_Warnings r @ run_Errors r). Issue_Validate i = None"
    using r by (auto simp: Issue_Validate_def)
  moreover have "\<not> blank (run_RunID r)" "\<not> blank (rw_ID (run_Workflow r))" "run_Checks r \<noteq> []"
    using r by blast+
  ultimately show ?thesis
    using wfile times
    unfolding Decision_Validate_def projection_simps first_some_Cons_None first_some_Nil_None first_error_None
    by simp
qed

lemma Project_iff: "Project_run vj r = Inr d \<longleftrightarrow> Run_Validate vj r = None \<and> d = projection r"
  using projection_valid[of vj r] by (auto simp: Project_run_def split: option.splits)

end
