(* ===== verification/NublarProps.thy ===== *)
theory NublarProps
  imports NublarDelivery
begin

text \<open>
  What Nublar promises: a composed report takes the most severe status, a collected run is a
  valid one that passes exactly when every declared check is backed, a valid run that passed is
  backed by its results, and every valid run has a projection.
\<close>

section \<open>What collection records of a check\<close>

definition base_check :: "WorkflowCheck \<Rightarrow> RunCheck" where
  "base_check d =
     \<lparr>rc_ID = wc_ID d, rc_Tool = wc_Tool d, rc_Path = wc_Result d, rc_Required = IsRequired d,
      rc_Status = [], rc_Result = None, rc_Reason = []\<rparr>"

definition tool_reason :: "Nublar \<Rightarrow> WorkflowCheck \<Rightarrow> Loaded \<Rightarrow> string" where
  "tool_reason nb d l =
     nb_render nb [T ''producer tool is '', Q (ci_Tool (ld_Artifact l)), T '', workflow expects '', Q (wc_Tool d)]"

definition collected :: "Nublar \<Rightarrow> string \<Rightarrow> WorkflowCheck \<Rightarrow> RunCheck" where
  "collected nb root d =
     (case LoadFile nb (Join root (wc_Result d)) of
        Inl err \<Rightarrow> (base_check d)\<lparr>rc_Reason := fe_text err,
          rc_Status := (if fe_not_exist err \<and> \<not> IsRequired d then ''missing'' else ''error'')\<rparr>
      | Inr l \<Rightarrow>
          if ci_Tool (ld_Artifact l) \<noteq> wc_Tool d
          then (base_check d)\<lparr>rc_Status := ''error'', rc_Reason := tool_reason nb d l\<rparr>
          else (base_check d)\<lparr>rc_Status := ci_Status (ld_Artifact l),
                 rc_Result := Some \<lparr>rr_Ref = \<lparr>fr_Path = wc_Result d, fr_SHA256 = ld_SHA256 l\<rparr>,
                                    rr_Artifact = ld_Artifact l\<rparr>\<rparr>)"

definition collected_warnings :: "Nublar \<Rightarrow> string \<Rightarrow> WorkflowCheck \<Rightarrow> Issue list" where
  "collected_warnings nb root d =
     (case LoadFile nb (Join root (wc_Result d)) of
        Inl err \<Rightarrow> problem (fe_not_exist err \<and> \<not> IsRequired d) (collect_issue d (fe_text err))
      | Inr l \<Rightarrow> [])"

definition collected_errors :: "Nublar \<Rightarrow> string \<Rightarrow> WorkflowCheck \<Rightarrow> Issue list" where
  "collected_errors nb root d =
     (case LoadFile nb (Join root (wc_Result d)) of
        Inl err \<Rightarrow> problem (\<not> (fe_not_exist err \<and> \<not> IsRequired d)) (collect_issue d (fe_text err))
      | Inr l \<Rightarrow> problem (ci_Tool (ld_Artifact l) \<noteq> wc_Tool d) (collect_issue d (tool_reason nb d l)))"

lemmas collected_defs = collected_def collected_warnings_def collected_errors_def base_check_def

lemma result_statuses_simps [simp]:
  "result_statuses [] = []"
  "result_statuses (c # cs) =
     (case rc_Result c of Some r \<Rightarrow> [ci_Status (rr_Artifact r)] | None \<Rightarrow> []) @ result_statuses cs"
  by (simp_all add: result_statuses_def)

lemma collect_loop_eq:
  "collect_loop nb root ds r n =
     (r\<lparr>run_Checks := run_Checks r @ map (collected nb root) ds,
        run_Warnings := run_Warnings r @ concat (map (collected_warnings nb root) ds),
        run_Errors := run_Errors r @ concat (map (collected_errors nb root) ds)\<rparr>,
      n + length (result_statuses (map (collected nb root) ds)))"
proof (induction ds arbitrary: r n)
  case (Cons d ds)
  show ?case
  proof (cases "LoadFile nb (Join root (wc_Result d))")
    case (Inl err)
    then show ?thesis by (simp add: Cons.IH collected_defs Let_def problem_def)
  next
    case (Inr l)
    then show ?thesis by (simp add: Cons.IH collected_defs Let_def problem_def tool_reason_def)
  qed
qed simp

lemma decide_eq:
  "decide s cs =
     (if \<exists>c \<in> set cs. rc_Status c = ''error'' then ''error'' else foldl worse s (result_statuses cs))"
  by (induction cs arbitrary: s) (auto split: option.split)

lemma decision_computed: "decision r = computed_status r"
  by (auto simp: decision_def computed_status_def decide_eq)

section \<open>A collected run is valid\<close>

text \<open>What is used of the arguments: \<open>fmt\<close> prints text as it is, and a SHA-256 sum is 64
  lower-case hexadecimal digits.\<close>

definition nublar_env :: "Nublar \<Rightarrow> bool" where
  "nublar_env nb \<longleftrightarrow>
     (\<forall>s m. nb_render nb (T s # m) = s @ nb_render nb m) \<and> (\<forall>x. valid_sha256 (nb_sha nb x))"

lemma render_not_blank:
  "nublar_env nb \<Longrightarrow> plain_byte c \<Longrightarrow> c \<in> set s \<Longrightarrow> \<not> blank (nb_render nb (T s # m))"
  by (rule plain_not_blank[of c]) (auto simp: nublar_env_def)

lemma plain_r: "plain_byte CHR ''r''"
  by (simp add: plain_byte_def byte_def)

lemma plain_a: "plain_byte CHR ''a''"
  by (simp add: plain_byte_def byte_def)

lemma LoadFile_reason: "nublar_env nb \<Longrightarrow> LoadFile nb p = Inl err \<Longrightarrow> \<not> blank (fe_text err)"
  using render_not_blank[OF _ plain_a]
  by (auto simp: LoadFile_def split: sum.splits option.splits)

lemma tool_reason_not_blank: "nublar_env nb \<Longrightarrow> \<not> blank (tool_reason nb d l)"
  unfolding tool_reason_def by (rule render_not_blank[OF _ plain_r]) auto

lemma sha_not_blank: "valid_sha256 s \<Longrightarrow> \<not> blank s"
proof -
  assume s: "valid_sha256 s"
  then have "s \<noteq> []" by (auto simp: valid_sha256_def)
  then obtain c t where c: "s = c # t" by (cases s) auto
  with s have "is_lower_hex c" by (simp add: valid_sha256_iff)
  then have "plain_byte c" by (auto simp: is_lower_hex_def is_digit_def plain_byte_def)
  with c show ?thesis using plain_not_blank[of c s] by simp
qed

lemma collected_ok:
  assumes env: "nublar_env nb" and d: "workflow_check_ok d"
  shows "run_check_ok (nb_valid_json nb) (collected nb root d)"
proof (cases "LoadFile nb (Join root (wc_Result d))")
  case (Inl err)
  with d LoadFile_reason[OF env Inl] show ?thesis
    by (simp add: run_check_ok_def collected_defs validateCheckState_def workflow_check_ok_def
        first_some_Cons_None first_some_Nil_None)
next
  case (Inr l)
  note l = LoadFile_Inr[OF Inr]
  show ?thesis
  proof (cases "ci_Tool (ld_Artifact l) = wc_Tool d")
    case False
    with Inr d tool_reason_not_blank[OF env, of d l] show ?thesis
      by (simp add: run_check_ok_def collected_defs validateCheckState_def workflow_check_ok_def)
  next
    case True
    from l have valid: "Artifact_Validate (nb_valid_json nb) (ld_Artifact l) = None" by blast
    from Artifact_Validate_status[OF valid]
    have st: "ci_Status (ld_Artifact l) \<in> {''passed'', ''failed'', ''error''}"
      by (auto simp: verdict_of_def split: if_splits)
    from l env have "valid_sha256 (ld_SHA256 l)" by (auto simp: nublar_env_def)
    then have "run_validateFileRef ''result'' \<lparr>fr_Path = wc_Result d, fr_SHA256 = ld_SHA256 l\<rparr> = None"
      using d sha_not_blank
      by (simp add: run_validateFileRef_def first_some_Cons_None first_some_Nil_None
          validateFileRef_Some_None workflow_check_ok_def valid_sha256_def)
    with True Inr d st valid show ?thesis
      by (auto simp: run_check_ok_def collected_defs validateCheckState_def workflow_check_ok_def
          RunResult_validate_def first_some_Cons_None first_some_Nil_None)
  qed
qed

lemma collected_ids [simp]:
  "rc_ID (collected nb root d) = wc_ID d" "rc_Path (collected nb root d) = wc_Result d"
  "rc_Required (collected nb root d) = IsRequired d"
  by (simp_all add: collected_defs split: sum.split)

lemma collected_reasons:
  "nublar_env nb \<Longrightarrow> i \<in> set (collected_warnings nb root d) \<union> set (collected_errors nb root d) \<Longrightarrow>
   \<not> blank (ni_Reason i)"
  using LoadFile_reason tool_reason_not_blank
  by (auto simp: collected_defs problem_def collect_issue_def split: sum.splits if_splits)

lemma status_verdict:
  assumes "\<forall>c \<in> set cs. run_check_ok vj c"
  shows "\<forall>s \<in> set (result_statuses cs). verdict_of s \<noteq> None"
proof -
  have "verdict_of (ci_Status (rr_Artifact r)) \<noteq> None" if "rc_Result c = Some r" "c \<in> set cs" for c r
  proof -
    from assms that have "Artifact_Validate vj (rr_Artifact r) = None"
      by (auto simp: run_check_ok_def RunResult_validate_def first_some_Cons_None)
    from Artifact_Validate_status[OF this] show ?thesis by auto
  qed
  then show ?thesis by (auto simp: result_statuses_def split: option.splits)
qed

lemma worse_passed:
  "(\<forall>s \<in> set ss. verdict_of s \<noteq> None) \<Longrightarrow> foldl worse ''passed'' ss = ''passed'' \<longleftrightarrow> (\<forall>s \<in> set ss. s = ''passed'')"
proof (induction ss rule: rev_induct)
  case (snoc s ss)
  have p: "verdict_of ''passed'' = Some Passed" by (simp add: verdict_of_def)
  from snoc.prems have all: "\<forall>t \<in> set ss. verdict_of t \<noteq> None" by simp
  from foldl_worse[OF p all] obtain v where v: "verdict_of (foldl worse ''passed'' ss) = Some v" by blast
  from snoc.prems obtain w where w: "verdict_of s = Some w" by auto
  have "worse (foldl worse ''passed'' ss) s = ''passed'' \<longleftrightarrow> foldl worse ''passed'' ss = ''passed'' \<and> s = ''passed''"
    using v w by (auto simp: worse_def severity_def verdict_of_def split: if_splits)
  with snoc.IH[OF all] show ?case by auto
qed simp

lemma computed_verdict:
  assumes "\<forall>c \<in> set (run_Checks r). run_check_ok vj c"
  shows "\<exists>v. verdict_of (computed_status r) = Some v"
proof -
  have p: "verdict_of ''passed'' = Some Passed" and e: "verdict_of ''error'' = Some Errored"
    by (simp_all add: verdict_of_def)
  from foldl_worse[OF p status_verdict[OF assms]] e show ?thesis by (auto simp: computed_status_def)
qed

lemma passed_iff:
  assumes "\<forall>c \<in> set (run_Checks r). run_check_ok vj c"
  shows "computed_status r = ''passed'' \<longleftrightarrow>
         run_Errors r = [] \<and> (\<forall>c \<in> set (run_Checks r). rc_Status c \<noteq> ''error'') \<and>
         (\<forall>s \<in> set (result_statuses (run_Checks r)). s = ''passed'')"
  using worse_passed[OF status_verdict[OF assms]] by (auto simp: computed_status_def)

section \<open>Properties\<close>

text \<open>A composed report takes the most severe decision: of the three decisions passed, failed
  and error, ordered by severity, its status is the greatest of the composed results', its exit
  code is the corresponding one, and it keeps every result as it was given.\<close>

theorem compose_takes_worst:
  assumes "Compose vj now inputs = Inr report"
  shows "verdict_of (nr_Status report) =
           Some (Max (set (map (\<lambda>x. the (verdict_of (ci_Status (np_Result x)))) inputs))) \<and>
         nr_ExitCode report = Max (set (map (\<lambda>x. ci_ExitCode (np_Result x)) inputs)) \<and>
         nr_Results report = inputs"
proof -
  let ?v = "\<lambda>x. the (verdict_of (ci_Status (np_Result x)))"
  have loop: "st = foldl worse s (map (\<lambda>x. ci_Status (np_Result x)) xs) \<and>
      (\<forall>x \<in> set xs. Artifact_Validate vj (np_Result x) = None)"
    if "compose_loop vj i seen s xs = Inr st" for i seen s st xs
    using that by (induction xs arbitrary: i seen s) (auto split: if_splits option.splits)
  from assms obtain st where ne: "inputs \<noteq> []" and st: "compose_loop vj 0 [] ''passed'' inputs = Inr st"
    and r: "nr_Status report = st" "nr_ExitCode report = exitCode st" "nr_Results report = inputs"
    by (auto simp: Compose_def split: if_splits sum.splits)
  have ok: "\<exists>v. verdict_of (ci_Status (np_Result x)) = Some v \<and> ci_ExitCode (np_Result x) = int (verdict_rank v)"
    if "x \<in> set inputs" for x
    using loop[OF st] Artifact_Validate_status that by blast
  have p: "verdict_of ''passed'' = Some Passed" by (simp add: verdict_of_def)
  have "verdict_of st = Some (Max (insert Passed (set (map ?v inputs))))"
    using foldl_worse[OF p, of "map (\<lambda>x. ci_Status (np_Result x)) inputs"] loop[OF st] ok
    by (force simp: comp_def)
  moreover have "Passed \<le> Max (set (map ?v inputs))" by (simp add: less_eq_verdict_def)
  then have "Max (insert Passed (set (map ?v inputs))) = Max (set (map ?v inputs))"
    using ne by (simp add: max_def)
  ultimately have v: "verdict_of st = Some (Max (set (map ?v inputs)))" by simp
  have "exitCode st = int (verdict_rank (Max (set (map ?v inputs))))"
    using v by (auto simp: exitCode_def ExitCodeForStatus_def verdict_of_def split: if_splits)
  also have "\<dots> = Max ((\<lambda>v. int (verdict_rank v)) ` set (map ?v inputs))"
    using ne by (intro mono_Max_commute) (auto simp: mono_def less_eq_verdict_def)
  also have "(\<lambda>v. int (verdict_rank v)) ` set (map ?v inputs) = set (map (\<lambda>x. ci_ExitCode (np_Result x)) inputs)"
    using ok by (force simp: image_iff)
  finally show ?thesis using r v by simp
qed

definition sample_result :: "string \<Rightarrow> int \<Rightarrow> CIArtifact" where
  "sample_result status code =
     \<lparr>ci_Schema = CISchema, ci_Tool = ''sorna'', ci_ToolVersion = [], ci_Kind = ''run'', ci_Status = status,
      ci_ExitCode = code, ci_CreatedAt = ''2024-01-02T03:04:05Z'',
      ci_Source = \<lparr>src_Root = ''.'', src_ModulePath = [], src_VCS = None\<rparr>, ci_Policy = None,
      ci_PolicyLock = None, ci_Graph = None, ci_Baseline = None, ci_Inputs = [], ci_Report = ''{}'',
      ci_Explanation = ''{}'', ci_Error = ''e''\<rparr>"

definition sample_input :: "string \<Rightarrow> string \<Rightarrow> int \<Rightarrow> Input" where
  "sample_input path status code =
     \<lparr>np_CheckID = [], np_Path = path, np_SHA256 = [], np_Result = sample_result status code\<rparr>"

lemma sample_compose:
  "\<exists>report. Compose (\<lambda>_. True) ''2024-01-02T03:04:05Z''
     [sample_input ''a.json'' ''passed'' 0, sample_input ''b.json'' ''failed'' 1] = Inr report"
proof -
  have "compose_loop (\<lambda>_. True) 0 [] ''passed''
     [sample_input ''a.json'' ''passed'' 0, sample_input ''b.json'' ''failed'' 1] = Inr ''failed''"
    by code_simp
  then show ?thesis by (simp add: Compose_def)
qed

theorem compose_takes_worst_witness:
  "\<exists>report. Compose (\<lambda>_. True) ''2024-01-02T03:04:05Z''
     [sample_input ''a.json'' ''passed'' 0, sample_input ''b.json'' ''failed'' 1] = Inr report \<and>
     nr_ExitCode report = 1"
proof -
  from sample_compose obtain report where r: "Compose (\<lambda>_. True) ''2024-01-02T03:04:05Z''
     [sample_input ''a.json'' ''passed'' 0, sample_input ''b.json'' ''failed'' 1] = Inr report" by blast
  from compose_takes_worst[OF r] r show ?thesis by (simp add: sample_input_def sample_result_def)
qed

text \<open>A checked path stays inside: joined to a root, a path that the validation accepts names
  a file below that root, with the root's elements unchanged in front of the path's own.\<close>

theorem checked_paths_stay_inside:
  assumes "validateRelativePath what where raw = None" and "root \<noteq> []"
  shows "Join root raw = Clean (root @ ''/'' @ raw) \<and>
         clean_elements (root @ ''/'' @ raw) = clean_elements root @ clean_elements raw \<and>
         dotdot \<notin> set (clean_elements raw)"
proof -
  from assms(1) have "\<not> escapes raw" unfolding validateRelativePath_None by blast
  with assms(2) Join_inside[OF this assms(2)] show ?thesis by (simp add: Join_def escapes_iff)
qed

theorem checked_paths_stay_inside_witness:
  "clean_elements (''/srv/ci'' @ ''/'' @ ''a/../b.json'') = [''srv'', ''ci''] @ [''b.json'']"
proof -
  have "\<not> escapes ''a/../b.json''" by code_simp
  moreover have "\<not> blank ''a/../b.json''" by (rule plain_not_blank[OF plain_a]) simp
  ultimately have "validateRelativePath ''path'' ''root'' ''a/../b.json'' = None"
    unfolding validateRelativePath_None by blast
  from checked_paths_stay_inside[OF this, of "''/srv/ci''"]
  have "clean_elements (''/srv/ci'' @ ''/'' @ ''a/../b.json'') =
        clean_elements ''/srv/ci'' @ clean_elements ''a/../b.json''" by blast
  moreover have "clean_elements ''/srv/ci'' = [''srv'', ''ci'']" "clean_elements ''a/../b.json'' = [''b.json'']"
    by code_simp+
  ultimately show ?thesis by simp
qed
definition backed :: "Nublar \<Rightarrow> string \<Rightarrow> WorkflowCheck \<Rightarrow> bool" where
  "backed nb root d \<longleftrightarrow>
     (\<exists>l. LoadFile nb (Join root (wc_Result d)) = Inr l \<and> ci_Tool (ld_Artifact l) = wc_Tool d \<and>
          ci_Status (ld_Artifact l) = ''passed'')"

definition excused :: "Nublar \<Rightarrow> string \<Rightarrow> WorkflowCheck \<Rightarrow> bool" where
  "excused nb root d \<longleftrightarrow>
     \<not> IsRequired d \<and> (\<exists>err. LoadFile nb (Join root (wc_Result d)) = Inl err \<and> fe_not_exist err)"

lemma collected_clean:
  "collected_errors nb root d = [] \<and> rc_Status (collected nb root d) \<noteq> ''error'' \<and>
   (\<forall>s \<in> set (result_statuses [collected nb root d]). s = ''passed'') \<longleftrightarrow>
   backed nb root d \<or> excused nb root d"
  by (cases "LoadFile nb (Join root (wc_Result d))")
     (auto simp: collected_defs backed_def excused_def split: if_splits)

lemma collected_present:
  "collected_errors nb root d = [] \<Longrightarrow> rc_Status (collected nb root d) \<noteq> ''error'' \<Longrightarrow>
   (\<forall>s \<in> set (result_statuses [collected nb root d]). s = ''passed'') \<Longrightarrow>
   result_statuses [collected nb root d] \<noteq> [] \<longleftrightarrow> backed nb root d"
  by (cases "LoadFile nb (Join root (wc_Result d))")
     (auto simp: collected_defs backed_def split: if_splits)

lemma result_statuses_Nil:
  "result_statuses (map f ds) = [] \<longleftrightarrow> (\<forall>d \<in> set ds. result_statuses [f d] = [])"
  by (induction ds) auto

lemma result_statuses_set:
  "set (result_statuses cs) = (\<Union>c \<in> set cs. set (result_statuses [c]))"
  by (induction cs) (auto split: option.splits)

definition fill_errors :: "nat \<Rightarrow> Issue list \<Rightarrow> Issue list" where
  "fill_errors present errs =
     (if present = 0 \<and> errs = []
      then [\<lparr>ni_CheckID = [], ni_Tool = [], ni_Path = [],
             ni_Reason = ''workflow produced no result artifacts''\<rparr>] else errs)"

lemma fill_errors_Nil: "fill_errors n errs = [] \<longleftrightarrow> errs = [] \<and> n \<noteq> 0"
  by (auto simp: fill_errors_def)

lemma fill_errors_run:
  "(if present = 0 \<and> run_Errors r = []
    then r\<lparr>run_Errors := [\<lparr>ni_CheckID = [], ni_Tool = [], ni_Path = [],
           ni_Reason = ''workflow produced no result artifacts''\<rparr>]\<rparr> else r) =
   r\<lparr>run_Errors := fill_errors present (run_Errors r)\<rparr>"
  by (simp add: fill_errors_def)

lemma Collect_Inr:
  assumes "CollectWorkflowWithCorrelation nb random created completed document ref root runID corr = Inr r"
  shows "Workflow_Validate document = None \<and> run_validateFileRef ''workflow'' ref = None \<and>
         (\<forall>c. corr = Some c \<longrightarrow> Correlation_Validate c = None) \<and>
         (if runID = [] then NewID random else Inr runID) = Inr (run_RunID r) \<and>
         run_Schema r = RunSchema \<and> run_Workflow r = \<lparr>rw_ID = wd_ID document, rw_File = ref\<rparr> \<and>
         run_Correlation r = corr \<and> run_CreatedAt r = created \<and> run_CompletedAt r = completed \<and>
         run_Checks r = map (collected nb root) (wd_Checks document) \<and>
         run_Warnings r = concat (map (collected_warnings nb root) (wd_Checks document)) \<and>
         run_Errors r = fill_errors (length (result_statuses (map (collected nb root) (wd_Checks document))))
           (concat (map (collected_errors nb root) (wd_Checks document))) \<and>
         run_Status r = computed_status r \<and>
         run_ExitCode r = (case ExitCodeForStatus (run_Status r) of Inl _ \<Rightarrow> 0 | Inr code \<Rightarrow> code)"
proof -
  from assms have w: "Workflow_Validate document = None" and f: "run_validateFileRef ''workflow'' ref = None"
    and c: "(case corr of None \<Rightarrow> None | Some c \<Rightarrow> Correlation_Validate c) = None"
    by (auto simp: CollectWorkflowWithCorrelation_def split: option.splits)
  with assms obtain i where i: "(if runID = [] then NewID random else Inr runID) = Inr i"
    by (auto simp: CollectWorkflowWithCorrelation_def split: sum.splits)
  let ?es = "concat (map (collected_errors nb root) (wd_Checks document))"
  let ?n = "length (result_statuses (map (collected nb root) (wd_Checks document)))"
  let ?r = "\<lparr>run_Schema = RunSchema, run_RunID = i,
     run_Workflow = \<lparr>rw_ID = wd_ID document, rw_File = ref\<rparr>,
     run_Correlation = corr, run_Status = ''passed'', run_ExitCode = 0,
     run_CreatedAt = created, run_CompletedAt = [],
     run_Checks = map (collected nb root) (wd_Checks document),
     run_Warnings = concat (map (collected_warnings nb root) (wd_Checks document)),
     run_Errors = fill_errors ?n ?es\<rparr>"
  have st: "decision (q\<lparr>run_Status := s, run_ExitCode := x, run_CompletedAt := t\<rparr>) = decision q" for q :: Run and s x t
    by (simp add: decision_def)
  from assms w f c i have
    "r = ?r\<lparr>run_Status := decision ?r,
            run_ExitCode := (case ExitCodeForStatus (decision ?r) of Inl _ \<Rightarrow> 0 | Inr code \<Rightarrow> code),
            run_CompletedAt := completed\<rparr>"
    unfolding CollectWorkflowWithCorrelation_def collect_loop_eq Let_def fill_errors_run prod.case
    by simp
  moreover from this have "run_Status r = computed_status r"
    by (simp add: st flip: decision_computed) (simp add: decision_def)
  ultimately show ?thesis using w f c i by (auto split: option.splits)
qed

lemma collected_checks_ok:
  assumes "nublar_env nb"
    and "CollectWorkflowWithCorrelation nb random created completed document ref root runID corr = Inr r"
  shows "\<forall>c \<in> set (run_Checks r). run_check_ok (nb_valid_json nb) c"
proof -
  note r = Collect_Inr[OF assms(2)]
  from r have w: "Workflow_Validate document = None" by blast
  note wf = w[unfolded Workflow_Validate_None]
  have "run_Checks r = map (collected nb root) (wd_Checks document)" using r by blast
  with wf collected_ok[OF assms(1)] show ?thesis by auto
qed

lemma collected_run_valid:
  assumes "nublar_env nb" and "runID = [] \<or> \<not> blank runID"
    and "parseTimestamp ''created_at'' created = Inr t1"
    and "parseTimestamp ''completed_at'' completed = Inr t2" and "t1 \<le> t2"
    and "CollectWorkflowWithCorrelation nb random created completed document ref root runID corr = Inr r"
  shows "Run_Validate (nb_valid_json nb) r = None \<and> map rc_ID (run_Checks r) = map wc_ID (wd_Checks document)"
proof -
  let ?ds = "wd_Checks document" and ?c = "collected nb root"
  note r = Collect_Inr[OF assms(6)]
  from r have w: "Workflow_Validate document = None" by blast
  note wf = w[unfolded Workflow_Validate_None]
  have checks: "run_Checks r = map ?c ?ds" using r by blast
  note ok = collected_checks_ok[OF assms(1,6)]
  have id: "\<not> blank (run_RunID r)"
  proof (cases "runID = []")
    case True
    with r have "NewID random = Inr (run_RunID r)" by (metis (full_types))
    then obtain raw where "run_RunID r = ''run-'' @ concat (map hex_byte raw)"
      unfolding NewID_def by (cases random) (auto dest: sym)
    then show ?thesis using plain_not_blank[OF plain_r, of "run_RunID r"] by simp
  qed (use r assms(2) in auto)
  have reasons: "\<not> blank (ni_Reason i)" if "i \<in> set (run_Warnings r) \<union> set (run_Errors r)" for i
  proof -
    have "\<not> blank ''workflow produced no result artifacts''" by (rule plain_not_blank[OF plain_a]) simp
    with that r collected_reasons[OF assms(1)] show ?thesis
      by (auto simp: fill_errors_def split: if_splits)
  qed
  have some: "result_statuses (run_Checks r) \<noteq> [] \<or> run_Errors r \<noteq> []"
    using r by (auto simp: fill_errors_def split: if_splits)
  obtain v where v: "verdict_of (run_Status r) = Some v" using computed_verdict[OF ok] r by auto
  then have code: "run_ExitCode r = int (verdict_rank v)"
    using r by (auto simp: ExitCodeForStatus_def verdict_of_def split: if_splits)
  have corr: "\<forall>c. run_Correlation r = Some c \<longrightarrow> Correlation_Validate c = None" using r by blast
  have ref: "run_validateFileRef ''workflow file'' (rw_File (run_Workflow r)) = None"
    using r by (auto simp: run_validateFileRef_def first_some_Cons_None first_some_Nil_None validateFileRef_Some_None)
  have "map (Clean \<circ> rc_Path) (run_Checks r) = map (Clean \<circ> wc_Result) ?ds"
    and ids: "map rc_ID (run_Checks r) = map wc_ID ?ds" unfolding checks by simp_all
  then have dist: "distinct (map rc_ID (run_Checks r))" "distinct (map (Clean \<circ> rc_Path) (run_Checks r))"
    using wf by simp_all
  have valid: "Run_Validate (nb_valid_json nb) r = None"
    unfolding Run_Validate_None using r wf ok id reasons some v code corr ref dist assms(3-5) checks by auto
  with ids show ?thesis by blast
qed

lemma collected_run_passed:
  assumes "nublar_env nb"
    and "CollectWorkflowWithCorrelation nb random created completed document ref root runID corr = Inr r"
  shows "run_Status r = ''passed'' \<longleftrightarrow>
         (\<forall>d \<in> set (wd_Checks document). backed nb root d \<or> excused nb root d) \<and>
         (\<exists>d \<in> set (wd_Checks document). backed nb root d)"
proof -
  let ?ds = "wd_Checks document" and ?c = "collected nb root"
  note r = Collect_Inr[OF assms(2)]
  have checks: "run_Checks r = map ?c ?ds" using r by blast
  note ok = collected_checks_ok[OF assms]
  have all: "(\<forall>d \<in> set ?ds. collected_errors nb root d = [] \<and> rc_Status (?c d) \<noteq> ''error'' \<and>
      (\<forall>s \<in> set (result_statuses [?c d]). s = ''passed'')) \<longleftrightarrow>
      (\<forall>d \<in> set ?ds. backed nb root d \<or> excused nb root d)"
    unfolding collected_clean by blast
  have "run_Status r = ''passed'' \<longleftrightarrow> run_Errors r = [] \<and>
      (\<forall>d \<in> set ?ds. rc_Status (?c d) \<noteq> ''error'' \<and> (\<forall>s \<in> set (result_statuses [?c d]). s = ''passed''))"
  proof -
    have st: "run_Status r = computed_status r" using r by blast
    have rs: "(\<forall>s \<in> set (result_statuses (run_Checks r)). s = ''passed'') \<longleftrightarrow>
        (\<forall>d \<in> set ?ds. \<forall>s \<in> set (result_statuses [?c d]). s = ''passed'')"
      unfolding checks result_statuses_set[of "map ?c ?ds"] by (simp del: result_statuses_simps)
    have es: "(\<forall>c \<in> set (run_Checks r). rc_Status c \<noteq> ''error'') \<longleftrightarrow>
        (\<forall>d \<in> set ?ds. rc_Status (?c d) \<noteq> ''error'')" unfolding checks by simp
    show ?thesis unfolding st passed_iff[OF ok] rs es by blast
  qed
  also have "run_Errors r = [] \<longleftrightarrow> (\<forall>d \<in> set ?ds. collected_errors nb root d = []) \<and>
      (\<exists>d \<in> set ?ds. result_statuses [?c d] \<noteq> [])"
  proof -
    have "run_Errors r = fill_errors (length (result_statuses (map ?c ?ds)))
        (concat (map (collected_errors nb root) ?ds))" using r by blast
    then have "run_Errors r = [] \<longleftrightarrow> concat (map (collected_errors nb root) ?ds) = [] \<and>
        result_statuses (map ?c ?ds) \<noteq> []" by (simp only: fill_errors_Nil length_0_conv)
    then show ?thesis unfolding result_statuses_Nil[of ?c ?ds] by simp
  qed
  finally have eq: "run_Status r = ''passed'' \<longleftrightarrow> ((\<forall>d \<in> set ?ds. collected_errors nb root d = []) \<and>
      (\<exists>d \<in> set ?ds. result_statuses [?c d] \<noteq> [])) \<and>
      (\<forall>d \<in> set ?ds. rc_Status (?c d) \<noteq> ''error'' \<and> (\<forall>s \<in> set (result_statuses [?c d]). s = ''passed''))" .
  have "run_Status r = ''passed'' \<longleftrightarrow>
      (\<forall>d \<in> set ?ds. backed nb root d \<or> excused nb root d) \<and> (\<exists>d \<in> set ?ds. backed nb root d)"
  proof -
    let ?good = "\<forall>d \<in> set ?ds. collected_errors nb root d = [] \<and> rc_Status (?c d) \<noteq> ''error'' \<and>
      (\<forall>s \<in> set (result_statuses [?c d]). s = ''passed'')"
    show ?thesis
    proof (cases ?good)
      case True
      then have "(\<exists>d \<in> set ?ds. result_statuses [?c d] \<noteq> []) \<longleftrightarrow> (\<exists>d \<in> set ?ds. backed nb root d)"
        by (intro bex_cong refl collected_present) blast+
      with True eq all show ?thesis by blast
    next
      case False
      then have "run_Status r \<noteq> ''passed''" unfolding eq by blast
      with False all show ?thesis by blast
    qed
  qed
  then show ?thesis .
qed

text \<open>C8. Collection yields valid runs: with a run ID that is not blank or is left empty, and then
  drawn, with two timestamps that parse and do not go back, with digests of the shape of SHA-256 and errors
  that are printed part by part, the run passes its own validation, lists the declared checks in order, and has the status
  passed exactly when every declared check is backed by a readable, valid, passed result of the
  declared tool, or is optional and its file does not exist, and at least one is backed.\<close>

theorem collected_runs_are_valid:
  assumes "nublar_env nb" and "runID = [] \<or> \<not> blank runID"
    and "parseTimestamp ''created_at'' created = Inr t1"
    and "parseTimestamp ''completed_at'' completed = Inr t2" and "t1 \<le> t2"
    and "CollectWorkflowWithCorrelation nb random created completed document ref root runID corr = Inr r"
  shows "Run_Validate (nb_valid_json nb) r = None \<and>
         map rc_ID (run_Checks r) = map wc_ID (wd_Checks document) \<and>
         (run_Status r = ''passed'' \<longleftrightarrow>
            (\<forall>d \<in> set (wd_Checks document). backed nb root d \<or> excused nb root d) \<and>
            (\<exists>d \<in> set (wd_Checks document). backed nb root d))"
  using collected_run_valid[OF assms] collected_run_passed[OF assms(1,6)] by blast

text \<open>C25. A valid run that says passed is backed: it has exit code 0 and no error, at least one
  result is present, and each check holds a valid passed result of its own tool and path, or is
  optional and recorded as missing with a reason.\<close>

theorem passed_runs_are_backed:
  assumes "Run_Validate vj r = None" and "run_Status r = ''passed''"
  shows "run_ExitCode r = 0 \<and> run_Errors r = [] \<and> result_statuses (run_Checks r) \<noteq> [] \<and>
         (\<forall>c \<in> set (run_Checks r).
            (\<exists>x. rc_Result c = Some x \<and> Artifact_Validate vj (rr_Artifact x) = None \<and>
                 ci_Status (rr_Artifact x) = ''passed'' \<and> ci_Tool (rr_Artifact x) = rc_Tool c \<and>
                 Clean (fr_Path (rr_Ref x)) = Clean (rc_Path c)) \<or>
            \<not> rc_Required c \<and> rc_Status c = ''missing'' \<and> rc_Result c = None \<and> \<not> blank (rc_Reason c))"
proof -
  note v = assms(1)[unfolded Run_Validate_None]
  have ok: "\<forall>c \<in> set (run_Checks r). run_check_ok vj c" using v by blast
  have "computed_status r = ''passed''" using v assms(2) by auto
  note p = this[unfolded passed_iff[OF ok]]
  have "run_ExitCode r = 0" using v assms(2) by (auto simp: verdict_of_def)
  moreover have "(\<exists>x. rc_Result c = Some x \<and> Artifact_Validate vj (rr_Artifact x) = None \<and>
                 ci_Status (rr_Artifact x) = ''passed'' \<and> ci_Tool (rr_Artifact x) = rc_Tool c \<and>
                 Clean (fr_Path (rr_Ref x)) = Clean (rc_Path c)) \<or>
            \<not> rc_Required c \<and> rc_Status c = ''missing'' \<and> rc_Result c = None \<and> \<not> blank (rc_Reason c)"
    if c: "c \<in> set (run_Checks r)" for c
  proof (cases "rc_Result c")
    case (Some x)
    from ok c Some have x: "RunResult_validate vj x c = None" by (auto simp: run_check_ok_def)
    have "ci_Status (rr_Artifact x) \<in> set (result_statuses (run_Checks r))"
      unfolding result_statuses_set[of "run_Checks r"] using c Some by (intro UN_I[of c]) simp_all
    with p have "ci_Status (rr_Artifact x) = ''passed''" by blast
    with x Some show ?thesis by (simp add: RunResult_validate_def first_some_Cons_None)
  next
    case None
    from ok c have "validateCheckState c = None" by (simp add: run_check_ok_def)
    moreover have "rc_Status c \<noteq> ''error''" using p c by blast
    ultimately show ?thesis using None
      by (auto simp: validateCheckState_def first_some_Cons_None split: if_splits)
  qed
  moreover have "result_statuses (run_Checks r) \<noteq> []" using v p by blast
  ultimately show ?thesis using p by blast
qed

text \<open>A run can be delivered exactly when it is valid, and the decision that is delivered is its
  projection: same identity, status, exit code, times and issues, and for each check the same
  fields with the reference of its result.\<close>

theorem delivered_decision_is_projection:
  "Project_run vj r = Inr d \<longleftrightarrow> Run_Validate vj r = None \<and> d = projection r"
  by (rule Project_iff)
section \<open>Witnesses of the runs\<close>

fun print_frags :: "message \<Rightarrow> string" where
  "print_frags [] = []"
| "print_frags (T s # m) = s @ print_frags m"
| "print_frags (Q s # m) = CHR 0x22 # s @ CHR 0x22 # print_frags m"
| "print_frags (D n # m) = dec_string n @ print_frags m"

definition sample_sum :: string where
  "sample_sum = ''aaaaaaaaaaaaaaaaaaaaaaaaaaaaaaaaaaaaaaaaaaaaaaaaaaaaaaaaaaaaaaaa''"

definition sample_nublar :: Nublar where
  "sample_nublar =
     \<lparr>nb_read = (\<lambda>p. if p = ''out/a.json'' then Inr ''doc''
                  else Inl \<lparr>fe_text = ''file does not exist'', fe_not_exist = True\<rparr>),
      nb_decode = (\<lambda>_. Inr (sample_result ''passed'' 0)), nb_valid_json = (\<lambda>_. True),
      nb_sha = (\<lambda>_. sample_sum), nb_render = print_frags\<rparr>"

definition sample_workflow :: Document where
  "sample_workflow =
     \<lparr>wd_Schema = WorkflowSchema, wd_ID = ''ci'',
      wd_Checks = [\<lparr>wc_ID = ''unit'', wc_Tool = ''sorna'', wc_Result = ''a.json'', wc_Required = None\<rparr>,
                   \<lparr>wc_ID = ''extra'', wc_Tool = ''paddock'', wc_Result = ''b.json'', wc_Required = Some False\<rparr>]\<rparr>"

lemma sample_env: "nublar_env sample_nublar"
proof -
  have "valid_sha256 sample_sum" by code_simp
  then show ?thesis by (simp add: nublar_env_def sample_nublar_def)
qed

definition sample_collect :: "message + Run" where
  "sample_collect = CollectWorkflowWithCorrelation sample_nublar (Inr []) ''2024-01-02T03:04:05Z''
     ''2024-01-02T03:04:06Z'' sample_workflow \<lparr>fr_Path = ''wf.yaml'', fr_SHA256 = sample_sum\<rparr> ''out'' ''run-1'' None"

lemma sample_collected: "\<exists>r. sample_collect = Inr r"
proof -
  have "\<not> Option.is_none (case sample_collect of Inl _ \<Rightarrow> None | Inr r \<Rightarrow> Some r)" by code_simp
  then show ?thesis by (auto split: sum.splits)
qed

lemma sample_times:
  "\<exists>a b. parseTimestamp ''created_at'' ''2024-01-02T03:04:05Z'' = Inr a \<and>
         parseTimestamp ''completed_at'' ''2024-01-02T03:04:06Z'' = Inr b \<and> a \<le> b"
proof -
  have "case (parseTimestamp ''created_at'' ''2024-01-02T03:04:05Z'',
              parseTimestamp ''completed_at'' ''2024-01-02T03:04:06Z'') of
          (Inr a, Inr b) \<Rightarrow> a \<le> b | _ \<Rightarrow> False" by code_simp
  then show ?thesis by (auto split: sum.splits)
qed

lemma sample_backed: "backed sample_nublar ''out'' (hd (wd_Checks sample_workflow))"
proof -
  have "LoadFile sample_nublar (Join ''out'' ''a.json'') =
        Inr \<lparr>ld_Artifact = sample_result ''passed'' 0, ld_SHA256 = sample_sum\<rparr>" by code_simp
  then show ?thesis by (simp add: backed_def sample_workflow_def sample_result_def)
qed

lemma sample_excused: "excused sample_nublar ''out'' (wd_Checks sample_workflow ! 1)"
proof -
  have "case LoadFile sample_nublar (Join ''out'' ''b.json'') of Inl err \<Rightarrow> fe_not_exist err | Inr _ \<Rightarrow> False"
    by code_simp
  then show ?thesis by (auto simp: excused_def sample_workflow_def IsRequired_def split: sum.splits)
qed

lemma sample_run_checks:
  "(\<forall>d \<in> set (wd_Checks sample_workflow). backed sample_nublar ''out'' d \<or> excused sample_nublar ''out'' d) \<and>
   (\<exists>d \<in> set (wd_Checks sample_workflow). backed sample_nublar ''out'' d)"
  using sample_backed sample_excused by (simp add: sample_workflow_def)

theorem collected_runs_are_valid_witness:
  "\<exists>r. sample_collect = Inr r \<and> Run_Validate (\<lambda>_. True) r = None \<and> run_Status r = ''passed''"
proof -
  obtain r where r: "sample_collect = Inr r" using sample_collected by blast
  obtain a b where t: "parseTimestamp ''created_at'' ''2024-01-02T03:04:05Z'' = Inr a"
    "parseTimestamp ''completed_at'' ''2024-01-02T03:04:06Z'' = Inr b" "a \<le> b"
    using sample_times by blast
  have "''run-1'' = [] \<or> \<not> blank ''run-1''" using plain_not_blank[OF plain_r, of "''run-1''"] by simp
  from collected_runs_are_valid[OF sample_env this t r[unfolded sample_collect_def]] sample_run_checks
  have "Run_Validate (nb_valid_json sample_nublar) r = None \<and> run_Status r = ''passed''" by blast
  moreover have "nb_valid_json sample_nublar = (\<lambda>_. True)" by (simp add: sample_nublar_def)
  ultimately show ?thesis using r by auto
qed

lemma sample_run_valid: "\<exists>r. sample_collect = Inr r \<and> Run_Validate (\<lambda>_. True) r = None \<and> run_Status r = ''passed''"
proof -
  have "case sample_collect of Inl _ \<Rightarrow> False
        | Inr r \<Rightarrow> Option.is_none (Run_Validate (\<lambda>_. True) r) \<and> run_Status r = ''passed''" by code_simp
  then show ?thesis by (auto split: sum.splits simp: Option.is_none_def)
qed

theorem passed_runs_are_backed_witness:
  "\<exists>r. sample_collect = Inr r \<and> run_ExitCode r = 0"
proof -
  obtain r where r: "sample_collect = Inr r" "Run_Validate (\<lambda>_. True) r = None" "run_Status r = ''passed''"
    using sample_run_valid by blast
  from passed_runs_are_backed[OF r(2,3)] r(1) show ?thesis by blast
qed
end
