(* ===== verification/PaddockMatch.thy ===== *)
theory PaddockMatch
  imports GoStrings
begin

text \<open>
  paddock/internal/model/model.go, the rule and target types of policy/policy.go, and the path
  patterns of checker/checker.go.  A label map is the list of its entries; a missing label reads
  as the empty string.  \<open>path.Match\<close> on one segment is the argument \<open>glob\<close>: it reports a match
  and no error.  The map of captures is passed along: every call that fails has restored it.
\<close>

section \<open>Graphs, findings and rules\<close>

type_synonym labels = "(string, string) gomap"

record Package =
  pk_ImportPath :: string
  pk_RelPath :: string
  pk_Component :: string
  pk_Labels :: labels

record Edge =
  ed_FromImportPath :: string
  ed_FromPath :: string
  ed_ToImportPath :: string
  ed_ToPath :: string
  ed_Kind :: string
  ed_TargetKind :: string
  ed_File :: string
  ed_Line :: int

record Graph =
  gr_ModulePath :: string
  gr_Packages :: "Package list"
  gr_Edges :: "Edge list"

record Finding =
  fi_RuleID :: string
  fi_Kind :: string
  fi_Severity :: string
  fi_From :: string
  fi_FromComponent :: string
  fi_FromLabels :: labels
  fi_To :: string
  fi_ToComponent :: string
  fi_ToLabels :: labels
  fi_File :: string
  fi_Line :: int
  fi_Message :: string
  fi_Waived :: bool
  fi_WaiverReason :: string
  fi_WaiverOwner :: string
  fi_WaiverExpires :: string
  fi_WaiverStatus :: string
  fi_Baselined :: bool
  fi_BaselineFingerprint :: string

record Component =
  cm_Match :: "string list"
  cm_Labels :: "(string \<times> string) list"

type_synonym Selector = "(string \<times> string) list"

record Target =
  tg_Literal :: string
  tg_Labels :: "(string \<times> string) list"
  tg_Path :: string
  tg_Kind :: string
  tg_Value :: string

record Rule =
  ru_ID :: string
  ru_Kind :: string
  ru_Severity :: string
  ru_From :: "Selector list"
  ru_To :: "Selector list"
  ru_Allow :: "Target list"
  ru_Deny :: "Target list"
  ru_AllowTo :: "Target list"
  ru_Transitive :: bool
  ru_Direction :: string
  ru_ContextLabel :: string
  ru_Message :: string

record Waiver =
  wv_Rule :: string
  wv_From :: string
  wv_To :: string
  wv_Reason :: string
  wv_Owner :: string
  wv_Expires :: string

definition label :: "Package \<Rightarrow> string \<Rightarrow> string" where
  "label p k = (case map_of (pk_Labels p) k of Some v \<Rightarrow> v | None \<Rightarrow> [])"

section \<open>Patterns\<close>

type_synonym captures = "(string, string) gomap"

abbreviation globstar :: string where "globstar \<equiv> ''**''"

definition trim_slashes :: "string \<Rightarrow> string" where
  "trim_slashes s = rev (dropWhile (\<lambda>c. c = CHR ''/'') (rev (dropWhile (\<lambda>c. c = CHR ''/'') s)))"

definition splitPattern :: "string \<Rightarrow> string list" where
  "splitPattern v =
     (let v = trim_slashes v in if v = [] then [] else split_on CHR ''/'' v)"

definition capture_key :: "string \<Rightarrow> string option" where
  "capture_key segment =
     (if has_prefix segment ''{'' \<and> has_prefix (rev segment) ''}'' \<and> 2 < length segment
      then Some (butlast (tl segment)) else None)"

fun matchPatternParts ::
  "(string \<Rightarrow> string \<Rightarrow> bool) \<Rightarrow> string list \<Rightarrow> string list \<Rightarrow> captures \<Rightarrow> captures option"
and match_tails ::
  "(string \<Rightarrow> string \<Rightarrow> bool) \<Rightarrow> string list \<Rightarrow> string list \<Rightarrow> captures \<Rightarrow> captures option" where
  "matchPatternParts glob [] value c = (if value = [] then Some c else None)"
| "matchPatternParts glob (p # ps) value c =
     (if p = globstar then
        (case matchPatternParts glob ps value c of
           Some c' \<Rightarrow> Some c' | None \<Rightarrow> match_tails glob ps value c)
      else
        (case value of
           [] \<Rightarrow> None
         | v # vs \<Rightarrow>
             (case capture_key p of
                Some key \<Rightarrow> matchPatternParts glob ps vs (map_set key v c)
              | None \<Rightarrow>
                  if p \<noteq> ''*'' \<and> p \<noteq> v \<and> \<not> glob p v then None
                  else matchPatternParts glob ps vs c)))"
| "match_tails glob ps [] c = None"
| "match_tails glob ps (v # vs) c =
     (case matchPatternParts glob ps vs c of
        Some c' \<Rightarrow> Some c' | None \<Rightarrow> match_tails glob ps vs c)"

definition matchPattern :: "(string \<Rightarrow> string \<Rightarrow> bool) \<Rightarrow> string \<Rightarrow> string \<Rightarrow> captures option" where
  "matchPattern glob pattern v = matchPatternParts glob (splitPattern pattern) (splitPattern v) []"

definition matchesPathAlternatives :: "(string \<Rightarrow> string \<Rightarrow> bool) \<Rightarrow> string \<Rightarrow> string \<Rightarrow> bool" where
  "matchesPathAlternatives glob pattern v \<longleftrightarrow>
     list_ex (\<lambda>a. matchPattern glob (trim_space a) v \<noteq> None) (split_on CHR ''|'' pattern)"

definition matchesAnyPath :: "(string \<Rightarrow> string \<Rightarrow> bool) \<Rightarrow> string \<Rightarrow> string list \<Rightarrow> bool" where
  "matchesAnyPath glob pattern values \<longleftrightarrow>
     list_ex (\<lambda>v. v = pattern \<or> v \<noteq> [] \<and> matchPattern glob pattern v \<noteq> None) values"

section \<open>What a pattern means\<close>

text \<open>\<open>**\<close> stands for any segments, also none; \<open>*\<close> and \<open>{key}\<close> for one segment, which the key
  then names; any other segment for itself and for what the glob accepts.\<close>

definition segment_ok :: "(string \<Rightarrow> string \<Rightarrow> bool) \<Rightarrow> string \<Rightarrow> string \<Rightarrow> bool" where
  "segment_ok glob p v \<longleftrightarrow> capture_key p \<noteq> None \<or> p = ''*'' \<or> p = v \<or> glob p v"

definition bind_segment :: "string \<Rightarrow> string \<Rightarrow> captures \<Rightarrow> captures" where
  "bind_segment p v c = (case capture_key p of Some key \<Rightarrow> map_set key v c | None \<Rightarrow> c)"

inductive path_match ::
  "(string \<Rightarrow> string \<Rightarrow> bool) \<Rightarrow> string list \<Rightarrow> string list \<Rightarrow> captures \<Rightarrow> captures \<Rightarrow> bool"
  for glob where
  finished: "path_match glob [] [] c c"
| stars: "path_match glob ps vs c c' \<Longrightarrow> path_match glob (globstar # ps) (us @ vs) c c'"
| segment: "p \<noteq> globstar \<Longrightarrow> segment_ok glob p v \<Longrightarrow> path_match glob ps vs (bind_segment p v c) c' \<Longrightarrow>
    path_match glob (p # ps) (v # vs) c c'"

inductive_cases path_match_NilE: "path_match glob [] vs c c'"
inductive_cases path_match_ConsE: "path_match glob (p # ps) vs c c'"

lemma match_sound:
  "matchPatternParts glob ps vs c = Some c' \<Longrightarrow> path_match glob ps vs c c'"
  "match_tails glob ps vs c = Some c' \<Longrightarrow> \<exists>us ws. vs = us @ ws \<and> path_match glob ps ws c c'"
proof (induction glob ps vs c and glob ps vs c arbitrary: c' and c' rule: matchPatternParts_match_tails.induct)
  case (1 glob vs c)
  then show ?case by (auto split: if_splits intro: path_match.finished)
next
  case (2 glob p ps vs c)
  show ?case
  proof (cases "p = globstar")
    case True
    show ?thesis
    proof (cases "matchPatternParts glob ps vs c")
      case (Some d)
      with 2(1)[OF True Some] 2(5) True have "path_match glob ps vs c c'" by simp
      from path_match.stars[OF this, of "[]"] True show ?thesis by simp
    next
      case None
      with 2(5) True have "match_tails glob ps vs c = Some c'" by simp
      from 2(2)[OF True None this] obtain us ws where "vs = us @ ws" "path_match glob ps ws c c'" by blast
      with path_match.stars True show ?thesis by blast
    qed
  next
    case False
    with 2(5) obtain v ws where vs: "vs = v # ws" by (cases vs) auto
    show ?thesis
    proof (cases "capture_key p")
      case (Some key)
      with 2(4)[OF False vs Some] 2(5) False vs show ?thesis
        by (auto intro!: path_match.segment simp: segment_ok_def bind_segment_def)
    next
      case None
      with 2(3)[OF False vs None] 2(5) False vs show ?thesis
        by (auto intro!: path_match.segment simp: segment_ok_def bind_segment_def split: if_splits)
    qed
  qed
next
  case (4 glob ps v vs c)
  show ?case
  proof (cases "matchPatternParts glob ps vs c")
    case (Some d)
    with 4 show ?thesis by (intro exI[of _ "[v]"] exI[of _ vs]) simp
  next
    case None
    with 4 obtain us ws where "vs = us @ ws" "path_match glob ps ws c c'" by auto
    then show ?thesis by (intro exI[of _ "v # us"] exI[of _ ws]) simp
  qed
qed simp

lemma match_tails_complete:
  "(\<And>ws. matchPatternParts glob ps ws c = None \<Longrightarrow> \<not> P ws) \<Longrightarrow> match_tails glob ps vs c = None \<Longrightarrow>
   vs = u # us @ ws \<Longrightarrow> \<not> P ws"
proof (induction vs arbitrary: u us)
  case (Cons v vs)
  from Cons.prems(2) have n: "matchPatternParts glob ps vs c = None" "match_tails glob ps vs c = None"
    by (auto split: option.splits)
  show ?case
  proof (cases us)
    case Nil
    with Cons.prems(1,3) n(1) show ?thesis by simp
  next
    case (Cons x xs)
    with Cons.prems(3) have "vs = x # xs @ ws" by simp
    from Cons.IH[OF Cons.prems(1) n(2) this] show ?thesis by blast
  qed
qed simp

lemma match_complete:
  "path_match glob ps vs c c' \<Longrightarrow> matchPatternParts glob ps vs c \<noteq> None"
proof (induction rule: path_match.induct)
  case (stars ps vs c c' us)
  show ?case
  proof (cases us)
    case Nil
    with stars show ?thesis by (auto split: option.splits)
  next
    case (Cons x xs)
    have "match_tails glob ps (us @ vs) c \<noteq> None"
    proof
      assume "match_tails glob ps (us @ vs) c = None"
      note none = this
      have "ws \<noteq> vs" if "matchPatternParts glob ps ws c = None" for ws using stars.IH that by auto
      from match_tails_complete[of glob ps c "\<lambda>ws. ws = vs", OF this none, of x xs vs] Cons show False by simp
    qed
    then show ?thesis by (auto split: option.splits)
  qed
next
  case (segment p v ps vs c c')
  then show ?case by (auto simp: segment_ok_def bind_segment_def split: option.splits)
qed simp

end
