(* ===== verification/PaddockChecker.thy ===== *)
theory PaddockChecker
  imports PaddockMatch
begin

text \<open>
  The rules of paddock/internal/checker/checker.go on edges and packages: selectors and targets,
  contexts and layers, coverage, ownership, and the breadth-first search of a required
  dependency.  Maps that are ranged over are the list of their entries in the order of the
  iteration.  A layer number is computed in 64 bits, as the code's \<open>int\<close> is.
\<close>

section \<open>Roots, selectors and targets\<close>

definition underRoots :: "string \<Rightarrow> string list \<Rightarrow> bool" where
  "underRoots p roots \<longleftrightarrow>
     list_ex (\<lambda>r. let root = trim_slashes (trim_space r) in
                  trim_slashes p = root \<or> has_prefix (trim_slashes p) (root @ ''/'')) roots"

definition selector_entry :: "(string \<Rightarrow> string \<Rightarrow> bool) \<Rightarrow> Package \<Rightarrow> string \<times> string \<Rightarrow> bool" where
  "selector_entry glob p x =
     (if fst x = ''path'' then matchesPathAlternatives glob (snd x) (pk_RelPath p)
      else if fst x = ''path-not'' then \<not> matchesPathAlternatives glob (snd x) (pk_RelPath p)
      else snd x = ''same'' \<or> snd x = ''different'' \<or> label p (fst x) = snd x)"

definition selectorsMatch :: "(string \<Rightarrow> string \<Rightarrow> bool) \<Rightarrow> Selector list \<Rightarrow> Package option \<Rightarrow> bool" where
  "selectorsMatch glob selectors p =
     (if selectors = [] then True
      else case p of
             None \<Rightarrow> False
           | Some p \<Rightarrow> list_ex (list_all (selector_entry glob p)) selectors)"

definition target_label :: "Package \<Rightarrow> Package \<Rightarrow> string \<times> string \<Rightarrow> bool" where
  "target_label from to x =
     (if snd x = ''same'' then label to (fst x) = label from (fst x)
      else if snd x = ''different'' then label to (fst x) \<noteq> [] \<and> label to (fst x) \<noteq> label from (fst x)
      else label to (fst x) = snd x)"

definition std_prefix :: string where "std_prefix = ''standard-library:''"
definition external_prefix :: string where "external_prefix = ''external:''"

definition targetMatches ::
  "(string \<Rightarrow> string \<Rightarrow> bool) \<Rightarrow> Target \<Rightarrow> Edge \<Rightarrow> Package \<Rightarrow> Package option \<Rightarrow> bool" where
  "targetMatches glob t e from to =
     (if tg_Path t \<noteq> [] then
        (case to of None \<Rightarrow> False | Some p \<Rightarrow> matchesPathAlternatives glob (tg_Path t) (pk_RelPath p))
      else if tg_Literal t \<noteq> [] then
        (case strip_prefix std_prefix (tg_Literal t) of
           Some rest \<Rightarrow> ed_TargetKind e = ''standard-library'' \<and> ed_ToImportPath e = rest
         | None \<Rightarrow>
             if has_prefix (tg_Literal t) external_prefix then ed_TargetKind e = ''external''
             else ed_ToImportPath e = tg_Literal t \<or> ed_ToPath e = tg_Literal t)
      else if tg_Kind t \<noteq> [] then
        (if ed_TargetKind e \<noteq> tg_Kind t then False
         else if tg_Kind t = ''external'' then
           tg_Value t = [] \<or> tg_Value t = ''approved'' \<or>
           matchPattern glob (tg_Value t) (ed_ToImportPath e) \<noteq> None
         else tg_Value t = [] \<or> tg_Value t = ''approved'' \<or> ed_ToImportPath e = tg_Value t)
      else
        (case to of None \<Rightarrow> False | Some p \<Rightarrow> list_all (target_label from p) (tg_Labels t)))"

definition anyTargetMatches ::
  "(string \<Rightarrow> string \<Rightarrow> bool) \<Rightarrow> Target list \<Rightarrow> Edge \<Rightarrow> Package \<Rightarrow> Package option \<Rightarrow> bool" where
  "anyTargetMatches glob ts e from to \<longleftrightarrow> list_ex (\<lambda>t. targetMatches glob t e from to) ts"

definition anyComponentTargetMatches :: "Target list \<Rightarrow> Package \<Rightarrow> bool" where
  "anyComponentTargetMatches ts p \<longleftrightarrow>
     list_ex (\<lambda>t. tg_Literal t \<noteq> [] \<and> tg_Literal t = pk_Component p \<or>
                  tg_Labels t \<noteq> [] \<and> list_all (\<lambda>x. label p (fst x) = snd x) (tg_Labels t)) ts"

section \<open>Contexts and layers\<close>

definition crossesContext ::
  "(string \<Rightarrow> string \<Rightarrow> bool) \<Rightarrow> Rule \<Rightarrow> Package option \<Rightarrow> Package option \<Rightarrow> bool" where
  "crossesContext glob r from to =
     (case (from, to) of
        (Some f, Some t) \<Rightarrow>
          if \<not> selectorsMatch glob (ru_From r) from \<or> \<not> selectorsMatch glob (ru_To r) to then False
          else
            (let name = (if ru_ContextLabel r = [] then ''context'' else ru_ContextLabel r);
                 left = label f name; right = label t name
             in left \<noteq> [] \<and> right \<noteq> [] \<and> left \<noteq> right)
      | _ \<Rightarrow> False)"

fun atoi_loop :: "64 word \<Rightarrow> string \<Rightarrow> 64 word option" where
  "atoi_loop n [] = Some n"
| "atoi_loop n (c # cs) =
     (if is_digit c then atoi_loop (n * 10 + word_of_int (digit_val c)) cs else None)"

definition strconvAtoi :: "string \<Rightarrow> 64 word option" where
  "strconvAtoi v = (if v = [] then None else atoi_loop 0 v)"

definition layer :: "Package option \<Rightarrow> 64 word option" where
  "layer p = (case p of None \<Rightarrow> None | Some p \<Rightarrow> strconvAtoi (label p ''layer''))"

definition violatesLayerDirection :: "Rule \<Rightarrow> Package option \<Rightarrow> Package option \<Rightarrow> bool" where
  "violatesLayerDirection r from to =
     (case (layer from, layer to) of
        (Some f, Some t) \<Rightarrow>
          if ru_Direction r = ''toward-lower-layer'' then sint f < sint t
          else if ru_Direction r = ''toward-higher-layer'' then sint t < sint f
          else False
      | _ \<Rightarrow> False)"

section \<open>Findings\<close>

definition zero_finding :: Finding where
  "zero_finding =
     \<lparr>fi_RuleID = [], fi_Kind = [], fi_Severity = [], fi_From = [], fi_FromComponent = [],
      fi_FromLabels = [], fi_To = [], fi_ToComponent = [], fi_ToLabels = [], fi_File = [], fi_Line = 0,
      fi_Message = [], fi_Waived = False, fi_WaiverReason = [], fi_WaiverOwner = [],
      fi_WaiverExpires = [], fi_WaiverStatus = [], fi_Baselined = False,
      fi_BaselineFingerprint = []\<rparr>"

definition rule_message :: "Rule \<Rightarrow> string \<Rightarrow> string" where
  "rule_message r text = (if ru_Message r = [] then text else ru_Message r)"

definition rule_finding :: "Rule \<Rightarrow> string \<Rightarrow> Finding" where
  "rule_finding r text = zero_finding
     \<lparr>fi_RuleID := ru_ID r, fi_Kind := ru_Kind r, fi_Severity := ru_Severity r,
      fi_Message := rule_message r text\<rparr>"

definition edgeDisplayPath :: "Edge \<Rightarrow> string" where
  "edgeDisplayPath e = (if ed_ToPath e \<noteq> [] then ed_ToPath e else ed_ToImportPath e)"

definition decorateFinding :: "Finding \<Rightarrow> Package option \<Rightarrow> Package option \<Rightarrow> Finding" where
  "decorateFinding f from to =
     (let f = (case from of None \<Rightarrow> f
               | Some p \<Rightarrow> f\<lparr>fi_FromComponent := pk_Component p, fi_FromLabels := pk_Labels p\<rparr>)
      in case to of None \<Rightarrow> f
         | Some p \<Rightarrow> f\<lparr>fi_ToComponent := pk_Component p, fi_ToLabels := pk_Labels p\<rparr>)"

fun index_packages :: "(string, Package) gomap \<Rightarrow> Package list \<Rightarrow> (string, Package) gomap" where
  "index_packages m [] = m"
| "index_packages m (p # ps) = index_packages (map_set (pk_ImportPath p) p m) ps"

definition bad_edge ::
  "(string \<Rightarrow> string \<Rightarrow> bool) \<Rightarrow> Rule \<Rightarrow> Edge \<Rightarrow> Package \<Rightarrow> Package option \<Rightarrow> bool" where
  "bad_edge glob r e from to =
     (if ru_Kind r = ''allow-dependencies'' then
        selectorsMatch glob (ru_From r) (Some from) \<and> ru_Allow r \<noteq> [] \<and>
        \<not> anyTargetMatches glob (ru_Allow r) e from to
      else if ru_Kind r = ''deny-dependencies'' then
        selectorsMatch glob (ru_From r) (Some from) \<and> anyTargetMatches glob (ru_Deny r) e from to
      else if ru_Kind r = ''layer-direction'' then
        selectorsMatch glob (ru_From r) (Some from) \<and> selectorsMatch glob (ru_To r) to \<and>
        violatesLayerDirection r (Some from) to
      else if ru_Kind r = ''no-cross-context'' then crossesContext glob r (Some from) to
      else if ru_Kind r = ''mediated-dependency'' then
        crossesContext glob r (Some from) to \<and> \<not> anyTargetMatches glob (ru_AllowTo r) e from to
      else if ru_Kind r = ''public-api-only'' then
        crossesContext glob r (Some from) to \<and> selectorsMatch glob (ru_To r) to
      else if ru_Kind r = ''unresolved'' then
        ed_TargetKind e = ''unresolved'' \<and> selectorsMatch glob (ru_From r) (Some from)
      else False)"

definition checkEdges ::
  "(string \<Rightarrow> string \<Rightarrow> bool) \<Rightarrow> string list \<Rightarrow> Graph \<Rightarrow> (string, Package) gomap \<Rightarrow> Rule \<Rightarrow> Finding list" where
  "checkEdges glob roots g byImport r =
     concat (map (\<lambda>e.
       case map_of byImport (ed_FromImportPath e) of
         None \<Rightarrow> []
       | Some from \<Rightarrow>
           if \<not> underRoots (pk_RelPath from) roots then []
           else
             (let to = map_of byImport (ed_ToImportPath e) in
              problem (bad_edge glob r e from to)
                (decorateFinding
                  ((rule_finding r ''dependency violates architecture policy'')
                    \<lparr>fi_From := ed_FromPath e, fi_To := edgeDisplayPath e, fi_File := ed_File e,
                     fi_Line := ed_Line e\<rparr>) (Some from) to))) (gr_Edges g))"

definition checkCoverage :: "string list \<Rightarrow> Package list \<Rightarrow> Rule \<Rightarrow> Finding list" where
  "checkCoverage roots packages r =
     concat (map (\<lambda>p.
       if \<not> underRoots (pk_RelPath p) roots then []
       else problem (pk_Component p = [])
              ((rule_finding r ''every source unit must match exactly one component'')
                 \<lparr>fi_From := pk_RelPath p\<rparr>)) packages)"

definition checkComponentOwnership ::
  "(string \<Rightarrow> string \<Rightarrow> bool) \<Rightarrow> string list \<Rightarrow> Package list \<Rightarrow> Rule \<Rightarrow> Finding list" where
  "checkComponentOwnership glob roots packages r =
     concat (map (\<lambda>p.
       if \<not> underRoots (pk_RelPath p) roots \<or> \<not> selectorsMatch glob (ru_From r) (Some p) then []
       else problem (\<not> anyComponentTargetMatches (ru_Allow r) p)
              ((rule_finding r ''source unit is not owned by an approved component'')
                 \<lparr>fi_From := pk_RelPath p, fi_FromComponent := pk_Component p,
                  fi_FromLabels := pk_Labels p\<rparr>)) packages)"

section \<open>Required dependencies\<close>

text \<open>One pass over the edges of the current package: whether one of them matches, and otherwise
  the packages to queue with what has been visited.\<close>

fun scan_edges ::
  "(string \<Rightarrow> string \<Rightarrow> bool) \<Rightarrow> Rule \<Rightarrow> (string, Package) gomap \<Rightarrow> Package \<Rightarrow> Package list \<Rightarrow> string list
   \<Rightarrow> Edge list \<Rightarrow> (Package list \<times> string list) option" where
  "scan_edges glob r byImport current queue visited [] = Some (queue, visited)"
| "scan_edges glob r byImport current queue visited (e # es) =
     (let to = map_of byImport (ed_ToImportPath e) in
      if anyTargetMatches glob (ru_Allow r) e current to then None
      else case to of
             None \<Rightarrow> scan_edges glob r byImport current queue visited es
           | Some p \<Rightarrow>
               if ed_TargetKind e \<noteq> ''internal'' \<or> pk_ImportPath p \<in> set visited
               then scan_edges glob r byImport current queue visited es
               else scan_edges glob r byImport current (queue @ [p]) (pk_ImportPath p # visited) es)"

definition edges_from :: "Edge list \<Rightarrow> string \<Rightarrow> Edge list" where
  "edges_from es i = filter (\<lambda>e. ed_FromImportPath e = i) es"

text \<open>The loop over the queue, on fuel; \<open>None\<close> is that it has not ended yet.\<close>

fun search ::
  "nat \<Rightarrow> (string \<Rightarrow> string \<Rightarrow> bool) \<Rightarrow> Rule \<Rightarrow> (string, Package) gomap \<Rightarrow> Edge list \<Rightarrow> Package list
   \<Rightarrow> string list \<Rightarrow> bool option" where
  "search n glob r byImport es [] visited = Some False"
| "search 0 glob r byImport es (p # queue) visited = None"
| "search (Suc n) glob r byImport es (p # queue) visited =
     (case scan_edges glob r byImport p queue visited (edges_from es (pk_ImportPath p)) of
        None \<Rightarrow> Some True
      | Some (queue, visited) \<Rightarrow> search n glob r byImport es queue visited)"

definition search_fuel_of :: "(string, Package) gomap \<Rightarrow> nat" where
  "search_fuel_of byImport = Suc (length byImport)"

definition requiredDependencyMatches ::
  "(string \<Rightarrow> string \<Rightarrow> bool) \<Rightarrow> Package \<Rightarrow> Edge list \<Rightarrow> (string, Package) gomap \<Rightarrow> Rule \<Rightarrow> bool option" where
  "requiredDependencyMatches glob start es byImport r =
     (if \<not> ru_Transitive r then
        Some (list_ex (\<lambda>e. anyTargetMatches glob (ru_Allow r) e start (map_of byImport (ed_ToImportPath e)))
                (edges_from es (pk_ImportPath start)))
      else search (search_fuel_of byImport) glob r byImport es [start] [pk_ImportPath start])"

definition checkRequiredDependencies ::
  "(string \<Rightarrow> string \<Rightarrow> bool) \<Rightarrow> string list \<Rightarrow> Graph \<Rightarrow> (string, Package) gomap \<Rightarrow> Rule \<Rightarrow> Finding list" where
  "checkRequiredDependencies glob roots g byImport r =
     concat (map (\<lambda>p.
       if \<not> underRoots (pk_RelPath p) roots \<or> \<not> selectorsMatch glob (ru_From r) (Some p) then []
       else problem (requiredDependencyMatches glob p (gr_Edges g) byImport r \<noteq> Some True)
              ((rule_finding r ''source unit must depend on a required boundary'')
                 \<lparr>fi_From := pk_RelPath p\<rparr>)) (gr_Packages g))"

end
