(* ===== verification/Components.thy ===== *)
theory Components
  imports Prelude
begin

text \<open>
  Tarjan's search for strongly connected components, as the closure \<open>visit\<close> of \<open>checkCycles\<close>
  in paddock/internal/checker/checker.go runs it, and its proof: the components it reports are
  the strongly connected components that hold a cycle, each once.  The stack is kept with its
  top first; the recursion runs on fuel and \<open>None\<close> is that it has not ended.
\<close>

section \<open>The search\<close>

type_synonym adjacency = "(string, string list) gomap"

definition adj_of :: "adjacency \<Rightarrow> string \<Rightarrow> string list" where
  "adj_of adj n = (case map_of adj n of Some ns \<Rightarrow> ns | None \<Rightarrow> [])"

record tarjan =
  tj_index :: nat
  tj_indices :: "string \<rightharpoonup> nat"
  tj_low :: "string \<Rightarrow> nat"
  tj_onStack :: "string \<Rightarrow> bool"
  tj_stack :: "string list"
  tj_components :: "string list list"

definition tarjan_start :: tarjan where
  "tarjan_start = \<lparr>tj_index = 0, tj_indices = (\<lambda>_. None), tj_low = (\<lambda>_. 0), tj_onStack = (\<lambda>_. False),
     tj_stack = [], tj_components = []\<rparr>"

definition idx :: "tarjan \<Rightarrow> string \<Rightarrow> nat" where
  "idx s n = (case tj_indices s n of Some i \<Rightarrow> i | None \<Rightarrow> 0)"

definition enter :: "string \<Rightarrow> tarjan \<Rightarrow> tarjan" where
  "enter node s = s
     \<lparr>tj_indices := (tj_indices s)(node \<mapsto> tj_index s), tj_low := (tj_low s)(node := tj_index s),
      tj_index := tj_index s + 1, tj_stack := node # tj_stack s,
      tj_onStack := (tj_onStack s)(node := True)\<rparr>"

definition lower :: "string \<Rightarrow> nat \<Rightarrow> tarjan \<Rightarrow> tarjan" where
  "lower node i s = (if i < tj_low s node then s\<lparr>tj_low := (tj_low s)(node := i)\<rparr> else s)"

text \<open>The nodes popped, the last one being \<open>node\<close>, and the stack left.\<close>

fun pop_until :: "string \<Rightarrow> string list \<Rightarrow> string list \<times> string list" where
  "pop_until node [] = ([], [])"
| "pop_until node (x # stack) =
     (if x = node then ([x], stack)
      else (x # fst (pop_until node stack), snd (pop_until node stack)))"

definition leave :: "adjacency \<Rightarrow> string \<Rightarrow> tarjan \<Rightarrow> tarjan" where
  "leave adj node s =
     (if tj_low s node \<noteq> idx s node then s
      else
        (let component = fst (pop_until node (tj_stack s));
             s = s\<lparr>tj_stack := snd (pop_until node (tj_stack s)),
                   tj_onStack := (\<lambda>x. tj_onStack s x \<and> x \<notin> set component)\<rparr>;
             selfCycle = (length component = 1 \<and> hd component \<in> set (adj_of adj (hd component)))
         in if length component < 2 \<and> \<not> selfCycle then s
            else s\<lparr>tj_components := tj_components s @ [sort component]\<rparr>))"

fun visit_node :: "nat \<Rightarrow> adjacency \<Rightarrow> string \<Rightarrow> tarjan \<Rightarrow> tarjan option"
and visit_edges :: "nat \<Rightarrow> adjacency \<Rightarrow> string \<Rightarrow> string list \<Rightarrow> tarjan \<Rightarrow> tarjan option" where
  "visit_node 0 adj node s = None"
| "visit_node (Suc n) adj node s =
     (case visit_edges n adj node (adj_of adj node) (enter node s) of
        None \<Rightarrow> None | Some s \<Rightarrow> Some (leave adj node s))"
| "visit_edges n adj node [] s = Some s"
| "visit_edges n adj node (next # rest) s =
     (if tj_indices s next = None then
        (case visit_node n adj next s of
           None \<Rightarrow> None
         | Some s \<Rightarrow> visit_edges n adj node rest (lower node (tj_low s next) s))
      else if tj_onStack s next then visit_edges n adj node rest (lower node (idx s next) s)
      else visit_edges n adj node rest s)"

fun visit_keys :: "nat \<Rightarrow> adjacency \<Rightarrow> string list \<Rightarrow> tarjan \<Rightarrow> tarjan option" where
  "visit_keys n adj [] s = Some s"
| "visit_keys n adj (key # keys) s =
     (if tj_indices s key = None then
        (case visit_node n adj key s of None \<Rightarrow> None | Some s \<Rightarrow> visit_keys n adj keys s)
      else visit_keys n adj keys s)"

section \<open>Strongly connected components\<close>

definition imports_of :: "adjacency \<Rightarrow> (string \<times> string) set" where
  "imports_of adj = {(u, v). v \<in> set (adj_of adj u)}"

definition scc :: "('a \<times> 'a) set \<Rightarrow> 'a set \<Rightarrow> bool" where
  "scc R C \<longleftrightarrow> C \<noteq> {} \<and> (\<forall>x \<in> C. C = {y. (x, y) \<in> R\<^sup>* \<and> (y, x) \<in> R\<^sup>*})"

definition cyclic_scc :: "('a \<times> 'a) set \<Rightarrow> 'a set \<Rightarrow> bool" where
  "cyclic_scc R C \<longleftrightarrow> scc R C \<and> (\<forall>x \<in> C. (x, x) \<in> R\<^sup>+)"

definition closed :: "('a \<times> 'a) set \<Rightarrow> 'a set \<Rightarrow> bool" where
  "closed R F \<longleftrightarrow> (\<forall>u v. u \<in> F \<longrightarrow> (u, v) \<in> R \<longrightarrow> v \<in> F)"

lemma closed_reach: "(u, v) \<in> R\<^sup>* \<Longrightarrow> closed R F \<Longrightarrow> u \<in> F \<Longrightarrow> v \<in> F"
  by (induction rule: rtrancl_induct) (auto simp: closed_def)

text \<open>A set that reaches a root and is reached by it, and that leads only into itself and
  into a closed set that does not lead back, is a strongly connected component.\<close>

lemma scc_between:
  assumes F: "closed R F" and FC: "closed R (F \<union> C)" and dis: "F \<inter> C = {}" and r: "r \<in> C"
    and down: "\<And>x. x \<in> C \<Longrightarrow> (r, x) \<in> R\<^sup>*" and up: "\<And>x. x \<in> C \<Longrightarrow> (x, r) \<in> R\<^sup>*"
  shows "scc R C"
proof -
  have "C = {y. (x, y) \<in> R\<^sup>* \<and> (y, x) \<in> R\<^sup>*}" if x: "x \<in> C" for x
  proof (intro equalityI subsetI CollectI conjI)
    fix y assume "y \<in> C"
    then show "(x, y) \<in> R\<^sup>*" "(y, x) \<in> R\<^sup>*"
      using rtrancl_trans[OF up[OF x] down] rtrancl_trans[OF up down[OF x]] by blast+
  next
    fix y assume "y \<in> {y. (x, y) \<in> R\<^sup>* \<and> (y, x) \<in> R\<^sup>*}"
    then have y: "(x, y) \<in> R\<^sup>*" "(y, x) \<in> R\<^sup>*" by auto
    from x closed_reach[OF y(1) FC] have "y \<in> F \<union> C" by blast
    moreover have "y \<notin> F" using closed_reach[OF y(2) F] x dis by blast
    ultimately show "y \<in> C" by blast
  qed
  with r show ?thesis by (auto simp: scc_def)
qed

lemma scc_cycle:
  assumes "scc R C" and "x \<in> C" and "y \<in> C" and "x \<noteq> y"
  shows "(x, x) \<in> R\<^sup>+"
proof -
  from assms have "(x, y) \<in> R\<^sup>*" "(y, x) \<in> R\<^sup>*" unfolding scc_def by blast+
  with \<open>x \<noteq> y\<close> have "(x, y) \<in> R\<^sup>+" by (simp add: rtrancl_eq_or_trancl)
  from trancl_rtrancl_trancl[OF this \<open>(y, x) \<in> R\<^sup>*\<close>] show ?thesis .
qed

lemma scc_single:
  assumes "scc R {x}" and "(x, x) \<in> R\<^sup>+"
  shows "(x, x) \<in> R"
proof -
  from assms(2) obtain v where v: "(x, v) \<in> R" "(v, x) \<in> R\<^sup>*" by (meson tranclD)
  then have "v \<in> {x}" using assms(1) unfolding scc_def by blast
  with v show ?thesis by simp
qed

section \<open>The invariant\<close>

definition seen :: "tarjan \<Rightarrow> string set" where
  "seen s = {n. tj_indices s n \<noteq> None}"

definition finished :: "tarjan \<Rightarrow> string set" where
  "finished s = seen s - set (tj_stack s)"

text \<open>The stack is ordered by index, what has left it is closed, and the components reported are
  the cyclic ones among what has left it.\<close>

definition stack_ok :: "tarjan \<Rightarrow> bool" where
  "stack_ok s \<longleftrightarrow> set (tj_stack s) \<subseteq> seen s \<and> (\<forall>x. tj_onStack s x \<longleftrightarrow> x \<in> set (tj_stack s)) \<and>
     sorted_wrt (\<lambda>x y. idx s y < idx s x) (tj_stack s) \<and> (\<forall>x \<in> seen s. idx s x < tj_index s)"

definition reported_ok :: "adjacency \<Rightarrow> tarjan \<Rightarrow> bool" where
  "reported_ok adj s \<longleftrightarrow> closed (imports_of adj) (finished s) \<and>
     distinct (map set (tj_components s)) \<and>
     (\<forall>c \<in> set (tj_components s). cyclic_scc (imports_of adj) (set c) \<and> set c \<subseteq> finished s \<and>
        sorted c \<and> distinct c) \<and>
     (\<forall>u \<in> finished s. (u, u) \<in> (imports_of adj)\<^sup>+ \<longrightarrow> (\<exists>c \<in> set (tj_components s). u \<in> set c))"

text \<open>A node on the stack whose visit has ended: its successors have been seen, those on the stack
  are not below its low link, which is the index of a node on the stack it leads to.\<close>

definition explored :: "adjacency \<Rightarrow> tarjan \<Rightarrow> string \<Rightarrow> bool" where
  "explored adj s x \<longleftrightarrow>
     set (adj_of adj x) \<subseteq> seen s \<and>
     (\<forall>v \<in> set (adj_of adj x) \<inter> set (tj_stack s). tj_low s x \<le> idx s v) \<and>
     tj_low s x < idx s x \<and>
     (\<exists>y \<in> set (tj_stack s). tj_low s x = idx s y \<and> (x, y) \<in> (imports_of adj)\<^sup>*)"

text \<open>\<open>above adj s root ts\<close>: the nodes \<open>ts\<close> lie above \<open>root\<close>, which leads to them.\<close>

definition above :: "adjacency \<Rightarrow> tarjan \<Rightarrow> string \<Rightarrow> string list \<Rightarrow> bool" where
  "above adj s root ts \<longleftrightarrow>
     (\<forall>x \<in> set ts. explored adj s x \<and> (root, x) \<in> (imports_of adj)\<^sup>* \<and> tj_low s root \<le> tj_low s x)"

definition extends :: "tarjan \<Rightarrow> tarjan \<Rightarrow> bool" where
  "extends s s' \<longleftrightarrow> seen s \<subseteq> seen s' \<and> finished s \<subseteq> finished s' \<and> tj_index s \<le> tj_index s' \<and>
     (\<forall>x \<in> seen s. idx s' x = idx s x \<and> tj_low s' x = tj_low s x) \<and>
     (\<forall>x \<in> seen s' - seen s. tj_index s \<le> idx s' x)"

text \<open>A state in the middle of the visit of \<open>node\<close>, over the stack \<open>base\<close>, when the successors in
  \<open>vs\<close> have been dealt with.\<close>

definition visiting :: "adjacency \<Rightarrow> string \<Rightarrow> string list \<Rightarrow> string set \<Rightarrow> tarjan \<Rightarrow> bool" where
  "visiting adj node base vs s \<longleftrightarrow>
     stack_ok s \<and> reported_ok adj s \<and>
     (\<exists>ts. tj_stack s = ts @ node # base \<and> above adj s node ts) \<and>
     tj_low s node \<le> idx s node \<and>
     (\<exists>y \<in> set (tj_stack s). tj_low s node = idx s y \<and> (node, y) \<in> (imports_of adj)\<^sup>*) \<and>
     (\<forall>v \<in> vs. v \<in> seen s \<and> (v \<in> set (tj_stack s) \<longrightarrow> tj_low s node \<le> idx s v))"

text \<open>A visit of \<open>node\<close> that has ended: its component was popped, or it stays on the stack with
  what is above it.\<close>

definition visited :: "adjacency \<Rightarrow> string \<Rightarrow> string list \<Rightarrow> tarjan \<Rightarrow> bool" where
  "visited adj node base s \<longleftrightarrow>
     stack_ok s \<and> reported_ok adj s \<and> node \<in> seen s \<and>
     (tj_stack s = base \<and> tj_low s node = idx s node \<or>
      (\<exists>ts. tj_stack s = ts @ node # base \<and> above adj s node ts \<and> explored adj s node))"

section \<open>Entering and leaving a node\<close>

lemma extends_refl [simp]: "extends s s"
  by (simp add: extends_def)

lemma extends_trans: "extends s s' \<Longrightarrow> extends s' s'' \<Longrightarrow> extends s s''"
  unfolding extends_def by (smt (verit, best) Diff_iff le_trans subset_eq)

lemma enter_simps:
  "seen (enter node s) = insert node (seen s)" "tj_stack (enter node s) = node # tj_stack s"
  "tj_components (enter node s) = tj_components s" "tj_low (enter node s) node = tj_index s"
  "idx (enter node s) node = tj_index s" "tj_index (enter node s) = Suc (tj_index s)"
  "x \<noteq> node \<Longrightarrow> idx (enter node s) x = idx s x" "x \<noteq> node \<Longrightarrow> tj_low (enter node s) x = tj_low s x"
  "tj_onStack (enter node s) x = (x = node \<or> tj_onStack s x)"
  by (auto simp: enter_def seen_def idx_def)

lemma enter_extends: "node \<notin> seen s \<Longrightarrow> extends s (enter node s)"
  by (auto simp: extends_def finished_def enter_simps intro!: enter_simps(7,8))

lemma enter_visiting:
  assumes ok: "stack_ok s" "reported_ok adj s" and new: "node \<notin> seen s"
  shows "visiting adj node (tj_stack s) {} (enter node s)"
proof -
  have notin: "x \<noteq> node" if "x \<in> seen s" for x using new that by blast
  have ns: "node \<notin> set (tj_stack s)" using ok(1) new by (auto simp: stack_ok_def)
  have lt: "idx s x < tj_index s" if "x \<in> set (tj_stack s)" for x
    using ok(1) that unfolding stack_ok_def by blast
  have fin: "finished (enter node s) = finished s"
    using new by (auto simp: finished_def enter_simps)
  have "sorted_wrt (\<lambda>x y. idx (enter node s) y < idx (enter node s) x) (tj_stack s)"
  proof (rule sorted_wrt_mono_rel)
    show "sorted_wrt (\<lambda>x y. idx s y < idx s x) (tj_stack s)" using ok(1) by (simp add: stack_ok_def)
  next
    fix x y assume "x \<in> set (tj_stack s)" "y \<in> set (tj_stack s)" "idx s y < idx s x"
    then show "idx (enter node s) y < idx (enter node s) x"
      using ns by (metis enter_simps(7))
  qed
  moreover have "idx (enter node s) x < idx (enter node s) node" if "x \<in> set (tj_stack s)" for x
    using lt[OF that] ns that by (metis enter_simps(5,7))
  moreover have "idx (enter node s) x < tj_index (enter node s)" if "x \<in> insert node (seen s)" for x
  proof (cases "x = node")
    case False
    with that have "idx s x < tj_index s" using ok(1) unfolding stack_ok_def by blast
    with False show ?thesis by (simp add: enter_simps)
  qed (simp add: enter_simps)
  ultimately have "stack_ok (enter node s)"
    using ok(1) unfolding stack_ok_def by (auto simp: enter_simps(1-6,9))
  moreover have "reported_ok adj (enter node s)"
    using ok(2) unfolding reported_ok_def fin enter_simps .
  ultimately show ?thesis unfolding visiting_def by (auto simp: enter_simps above_def)
qed

lemma lower_simps [simp]:
  "seen (lower n i s) = seen s" "tj_stack (lower n i s) = tj_stack s" "idx (lower n i s) x = idx s x"
  "tj_components (lower n i s) = tj_components s" "tj_index (lower n i s) = tj_index s"
  "tj_onStack (lower n i s) = tj_onStack s" "finished (lower n i s) = finished s"
  "tj_low (lower n i s) n = min (tj_low s n) i" "x \<noteq> n \<Longrightarrow> tj_low (lower n i s) x = tj_low s x"
  by (auto simp: lower_def seen_def finished_def idx_def)

lemma lower_stack_ok [simp]: "stack_ok (lower n i s) = stack_ok s"
  by (simp add: stack_ok_def)

lemma lower_reported_ok [simp]: "reported_ok adj (lower n i s) = reported_ok adj s"
  by (simp add: reported_ok_def)

lemma lower_explored: "x \<noteq> n \<Longrightarrow> explored adj (lower n i s) x = explored adj s x"
  by (simp add: explored_def)

lemma stack_parts:
  assumes "stack_ok s" and "tj_stack s = ts @ node # base"
  shows "node \<notin> set ts" and "node \<notin> set base" and "set ts \<inter> set base = {}"
    and "x \<in> set ts \<Longrightarrow> idx s node < idx s x" and "y \<in> set base \<Longrightarrow> idx s y < idx s node"
    and "distinct ts"
proof -
  have w: "sorted_wrt (\<lambda>x y. idx s y < idx s x) (ts @ node # base)"
    using assms unfolding stack_ok_def by simp
  have "irreflp_on A (\<lambda>x y. idx s y < idx s x)" for A by (simp add: irreflp_on_def)
  then show "node \<notin> set ts" "node \<notin> set base" "set ts \<inter> set base = {}"
    "x \<in> set ts \<Longrightarrow> idx s node < idx s x" "y \<in> set base \<Longrightarrow> idx s y < idx s node"
    using w by (auto simp: sorted_wrt_append)
  have "distinct xs" if "sorted_wrt (\<lambda>x y. idx s y < idx s x) xs" for xs
    using that by (induction xs) auto
  with w show "distinct ts" by (auto simp: sorted_wrt_append)
qed

text \<open>Reading the low link or the index of a successor.\<close>

lemma lower_visiting:
  assumes v: "visiting adj node base vs s" and y: "y \<in> set (tj_stack s)" "i = idx s y"
    and r: "(node, y) \<in> (imports_of adj)\<^sup>*"
  shows "visiting adj node base vs (lower node i s)"
proof -
  from v obtain ts where ok: "stack_ok s" and ts: "tj_stack s = ts @ node # base" "above adj s node ts"
    unfolding visiting_def by blast
  have "x \<noteq> node" if "x \<in> set ts" for x using that stack_parts(1)[OF ok ts(1)] by blast
  with ts(2) have "above adj (lower node i s) node ts"
    by (simp add: above_def lower_explored min_le_iff_disj)
  moreover have "\<exists>z \<in> set (tj_stack s). min (tj_low s node) i = idx s z \<and> (node, z) \<in> (imports_of adj)\<^sup>*"
    using v y r unfolding visiting_def min_def by metis
  ultimately show ?thesis using v ts(1) unfolding visiting_def by (auto simp: min_le_iff_disj)
qed

lemma extends_new:
  assumes "extends s s'" and "stack_ok s" and "x \<in> seen s" and "z \<in> seen s' - seen s"
  shows "idx s' x < idx s' z"
proof -
  have "idx s' x = idx s x" "tj_index s \<le> idx s' z" using assms(1,3,4) unfolding extends_def by blast+
  moreover have "idx s x < tj_index s" using assms(2,3) unfolding stack_ok_def by blast
  ultimately show ?thesis by simp
qed

lemma extends_fresh:
  assumes ext: "extends s s'" and ok: "stack_ok s'" and st: "tj_stack s' = us @ tj_stack s"
  shows "set us \<inter> seen s = {}"
proof -
  have "x \<notin> seen s" if "x \<in> set us" for x
  proof
    assume x: "x \<in> seen s"
    show False
    proof (cases "x \<in> set (tj_stack s)")
      case True
      then obtain as bs where b: "tj_stack s = as @ x # bs" by (meson split_list)
      with st have "tj_stack s' = (us @ as) @ x # bs" by simp
      from stack_parts(1)[OF ok this] that show False by simp
    next
      case False
      with x ext have "x \<in> finished s'" unfolding extends_def finished_def by blast
      with st that show False by (simp add: finished_def)
    qed
  qed
  then show ?thesis by blast
qed

lemma explored_grow:
  assumes ext: "extends s s'" and ok: "stack_ok s" "stack_ok s'" and st: "tj_stack s' = us @ tj_stack s"
    and x: "x \<in> set (tj_stack s)" and e: "explored adj s x"
  shows "explored adj s' x"
proof -
  have fresh: "set us \<inter> seen s = {}" using extends_fresh[OF ext ok(2) st] .
  have seen: "set (tj_stack s) \<subseteq> seen s" using ok(1) by (simp add: stack_ok_def)
  have same: "idx s' z = idx s z" "tj_low s' z = tj_low s z" if "z \<in> seen s" for z
    using ext that unfolding extends_def by blast+
  have sameS: "idx s' z = idx s z" "tj_low s' z = tj_low s z" if "z \<in> set (tj_stack s)" for z
    using same that seen by blast+
  have succ: "set (adj_of adj x) \<subseteq> seen s" using e by (simp add: explored_def)
  then have "set (adj_of adj x) \<subseteq> seen s'" using ext unfolding extends_def by blast
  moreover have "tj_low s' x \<le> idx s' v" if "v \<in> set (adj_of adj x) \<inter> set (tj_stack s')" for v
  proof -
    from that succ have v: "v \<in> seen s" by blast
    with that fresh st have "v \<in> set (tj_stack s)" by auto
    with e that have "tj_low s x \<le> idx s v" unfolding explored_def by blast
    with sameS[OF x] same[OF v] show ?thesis by simp
  qed
  moreover have "tj_low s' x < idx s' x" using e sameS[OF x] unfolding explored_def by simp
  moreover obtain y where "y \<in> set (tj_stack s)" "tj_low s x = idx s y" "(x, y) \<in> (imports_of adj)\<^sup>*"
    using e unfolding explored_def by blast
  moreover from this have "tj_low s' x = idx s' y" using sameS x by simp
  ultimately show ?thesis unfolding explored_def using st by auto
qed

text \<open>Going on after the visit of a successor.\<close>

lemma visiting_grow:
  assumes v: "visiting adj node base vs s" and ext: "extends s s'"
    and ok: "stack_ok s'" "reported_ok adj s'" and st: "tj_stack s' = us @ tj_stack s"
    and m: "m = tj_low s node \<or> (\<exists>y \<in> set (tj_stack s'). m = idx s' y \<and> (node, y) \<in> (imports_of adj)\<^sup>*)"
    and us: "\<And>x. x \<in> set us \<Longrightarrow>
      explored adj s' x \<and> (node, x) \<in> (imports_of adj)\<^sup>* \<and> min (tj_low s node) m \<le> tj_low s' x"
    and next_ok: "next \<in> seen s'" "next \<in> set (tj_stack s') \<Longrightarrow> m \<le> idx s' next"
  shows "visiting adj node base (insert next vs) (lower node m s')"
proof -
  from v obtain ts where ok0: "stack_ok s" and ts: "tj_stack s = ts @ node # base" "above adj s node ts"
    unfolding visiting_def by blast
  have st': "tj_stack s' = (us @ ts) @ node # base" using st ts(1) by simp
  have seen: "set (tj_stack s) \<subseteq> seen s" using ok0 by (simp add: stack_ok_def)
  have same: "idx s' z = idx s z" "tj_low s' z = tj_low s z" if "z \<in> seen s" for z
    using ext that unfolding extends_def by blast+
  have sameS: "idx s' z = idx s z" "tj_low s' z = tj_low s z" if "z \<in> set (tj_stack s)" for z
    using same that seen by blast+
  have node: "node \<in> seen s" using seen ts(1) by auto
  have other: "x \<noteq> node" if "x \<in> set (us @ ts)" for x
    using that stack_parts(1)[OF ok(1) st'] by blast
  have "explored adj s' x \<and> (node, x) \<in> (imports_of adj)\<^sup>* \<and> min (tj_low s node) m \<le> tj_low s' x"
    if "x \<in> set (us @ ts)" for x
  proof (cases "x \<in> set us")
    case False
    with that have x: "x \<in> set ts" by simp
    then have xs: "x \<in> set (tj_stack s)" using ts(1) by simp
    have "explored adj s x" "(node, x) \<in> (imports_of adj)\<^sup>*" "tj_low s node \<le> tj_low s x"
      using ts(2) x unfolding above_def by blast+
    with explored_grow[OF ext ok0 ok(1) st xs] sameS[OF xs] show ?thesis by simp
  qed (use us in blast)
  then have "above adj (lower node m s') node (us @ ts)"
    unfolding above_def using other same[OF node] by (simp add: lower_explored)
  moreover have "\<exists>y \<in> set (tj_stack s'). min (tj_low s node) m = idx s' y \<and> (node, y) \<in> (imports_of adj)\<^sup>*"
  proof -
    obtain y where y: "y \<in> set (tj_stack s)" "tj_low s node = idx s y" "(node, y) \<in> (imports_of adj)\<^sup>*"
      using v unfolding visiting_def by blast
    then have "y \<in> set (tj_stack s')" "tj_low s node = idx s' y" using st sameS by auto
    with y(3) m show ?thesis by (metis min_def)
  qed
  moreover have "min (tj_low s node) m \<le> idx s' node"
    using v same[OF node] unfolding visiting_def by (auto simp: min_le_iff_disj)
  moreover have "u \<in> seen s' \<and> (u \<in> set (tj_stack s') \<longrightarrow> min (tj_low s node) m \<le> idx s' u)"
    if "u \<in> insert next vs" for u
  proof (cases "u = next")
    case False
    with that have u: "u \<in> seen s" "u \<in> set (tj_stack s) \<longrightarrow> tj_low s node \<le> idx s u"
      using v unfolding visiting_def by blast+
    moreover have "u \<in> set (tj_stack s)" if "u \<in> set (tj_stack s')"
      using that st extends_fresh[OF ext ok(1) st] u(1) by auto
    ultimately show ?thesis using ext same(1)[OF u(1)] unfolding extends_def
      by (auto simp: min_le_iff_disj)
  qed (use next_ok in \<open>auto simp: min_le_iff_disj\<close>)
  ultimately show ?thesis using ok st' same[OF node] unfolding visiting_def by simp
qed

lemma next_visited:
  assumes v: "visiting adj node base vs s" and e: "(node, next) \<in> imports_of adj"
    and ext: "extends s s'" and new: "next \<notin> seen s" and vis: "visited adj next (tj_stack s) s'"
  shows "visiting adj node base (insert next vs) (lower node (tj_low s' next) s')"
proof -
  have ok: "stack_ok s'" "reported_ok adj s'" "next \<in> seen s'" using vis unfolding visited_def by blast+
  from v have ok0: "stack_ok s" and "node \<in> set (tj_stack s)" "tj_low s node \<le> idx s node"
    unfolding visiting_def by auto
  then have node: "node \<in> seen s" "tj_low s node \<le> idx s node" unfolding stack_ok_def by blast+
  then have same: "tj_low s' node = tj_low s node" "idx s' node = idx s node"
    using ext unfolding extends_def by blast+
  from vis consider (popped) "tj_stack s' = tj_stack s" "tj_low s' next = idx s' next"
    | (kept) ts where "tj_stack s' = ts @ next # tj_stack s" "above adj s' next ts" "explored adj s' next"
    unfolding visited_def by blast
  then show ?thesis
  proof cases
    case popped
    have "idx s' node < idx s' next" using extends_new[OF ext ok0 node(1)] new ok(3) by blast
    with popped(2) node(2) same have "lower node (tj_low s' next) s' = lower node (tj_low s node) s'"
      by (simp add: lower_def)
    moreover have "next \<notin> set (tj_stack s')" using popped(1) new ok0 by (auto simp: stack_ok_def)
    ultimately show ?thesis
      using visiting_grow[OF v ext ok(1,2), of "[]" "tj_low s node" "next"] popped(1) ok(3) by simp
  next
    case kept
    have st: "tj_stack s' = (ts @ [next]) @ tj_stack s" using kept(1) by simp
    have edge: "(node, next) \<in> (imports_of adj)\<^sup>*" using e by blast
    have "explored adj s' x \<and> (node, x) \<in> (imports_of adj)\<^sup>* \<and>
        min (tj_low s node) (tj_low s' next) \<le> tj_low s' x" if "x \<in> set (ts @ [next])" for x
    proof (cases "x = next")
      case False
      with that have "x \<in> set ts" by simp
      with kept(2) have "explored adj s' x" "(next, x) \<in> (imports_of adj)\<^sup>*" "tj_low s' next \<le> tj_low s' x"
        unfolding above_def by blast+
      with rtrancl_trans[OF edge] show ?thesis by (auto simp: min_le_iff_disj)
    qed (use kept(3) edge in simp)
    moreover obtain y where "y \<in> set (tj_stack s')" "tj_low s' next = idx s' y" "(next, y) \<in> (imports_of adj)\<^sup>*"
      using kept(3) unfolding explored_def by blast
    moreover have "tj_low s' next \<le> idx s' next" using kept(3) unfolding explored_def by simp
    ultimately show ?thesis
      using visiting_grow[OF v ext ok(1,2) st, of "tj_low s' next" "next"] ok(3) rtrancl_trans[OF edge]
      by blast
  qed
qed

lemma seen_visiting:
  assumes v: "visiting adj node base vs s" and e: "(node, next) \<in> imports_of adj"
    and on: "next \<in> seen s" "next \<in> set (tj_stack s)"
  shows "visiting adj node base (insert next vs) (lower node (idx s next) s)"
proof -
  have "stack_ok s" "reported_ok adj s" using v unfolding visiting_def by blast+
  from visiting_grow[OF v extends_refl this, of "[]" "idx s next" "next"] e on show ?thesis by auto
qed

lemma off_visiting:
  assumes v: "visiting adj node base vs s" and "next \<in> seen s" "next \<notin> set (tj_stack s)"
  shows "visiting adj node base (insert next vs) s"
  using assms unfolding visiting_def by blast

lemma pop_until_stack: "node \<notin> set ts \<Longrightarrow> pop_until node (ts @ node # base) = (ts @ [node], base)"
  by (induction ts) auto

text \<open>The component that is popped.\<close>

lemma popped_scc:
  assumes v: "visiting adj node base (set (adj_of adj node)) s" and root: "tj_low s node = idx s node"
    and st: "tj_stack s = ts @ node # base" and ts: "above adj s node ts"
  shows "scc (imports_of adj) (set (ts @ [node]))"
    and "closed (imports_of adj) (finished s \<union> set (ts @ [node]))"
proof -
  let ?C = "set (ts @ [node])"
  have ok: "stack_ok s" and rep: "reported_ok adj s" using v unfolding visiting_def by blast+
  have high: "x \<in> ?C" if "x \<in> set (tj_stack s)" "idx s node \<le> idx s x" for x
    using that st stack_parts(5)[OF ok st, of x] by auto
  have succ: "w \<in> finished s \<union> ?C" if x: "x \<in> ?C" and e: "(x, w) \<in> imports_of adj" for x w
  proof -
    have "w \<in> seen s \<and> (w \<in> set (tj_stack s) \<longrightarrow> idx s node \<le> idx s w)"
    proof (cases "x = node")
      case True
      with e v root show ?thesis unfolding visiting_def imports_of_def by auto
    next
      case False
      with x ts have "explored adj s x" "tj_low s node \<le> tj_low s x" unfolding above_def by auto
      moreover from this e have "w \<in> seen s" "w \<in> set (tj_stack s) \<longrightarrow> tj_low s x \<le> idx s w"
        unfolding explored_def imports_of_def by blast+
      ultimately show ?thesis using root by auto
    qed
    with high show ?thesis unfolding finished_def by blast
  qed
  have F: "closed (imports_of adj) (finished s)" using rep unfolding reported_ok_def by blast
  with succ show FC: "closed (imports_of adj) (finished s \<union> ?C)" unfolding closed_def by blast
  have dis: "finished s \<inter> ?C = {}" using st by (auto simp: finished_def)
  have down: "(node, x) \<in> (imports_of adj)\<^sup>*" if "x \<in> ?C" for x
    using that ts unfolding above_def by auto
  have up: "(x, node) \<in> (imports_of adj)\<^sup>*" if "x \<in> ?C" for x
    using that
  proof (induction "idx s x" arbitrary: x rule: less_induct)
    case less
    show ?case
    proof (cases "x = node")
      case False
      with less.prems ts have x: "explored adj s x" "tj_low s node \<le> tj_low s x" unfolding above_def by auto
      then obtain y where y: "y \<in> set (tj_stack s)" "tj_low s x = idx s y" "(x, y) \<in> (imports_of adj)\<^sup>*"
        unfolding explored_def by blast
      have "y \<in> ?C" using high[OF y(1)] x(2) root y(2) by simp
      moreover have "idx s y < idx s x" using x(1) y(2) unfolding explored_def by simp
      ultimately have "(y, node) \<in> (imports_of adj)\<^sup>*" using less.hyps by blast
      with y(3) show ?thesis by (rule rtrancl_trans)
    qed simp
  qed
  show "scc (imports_of adj) ?C" using scc_between[OF F FC dis _ down up] by simp
qed

text \<open>What the popping of a component, reported or not, makes of the state.\<close>

definition popped :: "string list \<Rightarrow> string list \<Rightarrow> tarjan \<Rightarrow> tarjan" where
  "popped component base s = s
     \<lparr>tj_stack := base, tj_onStack := (\<lambda>x. tj_onStack s x \<and> x \<notin> set component)\<rparr>"

lemma popped_simps [simp]:
  "seen (popped c base s) = seen s" "idx (popped c base s) x = idx s x" "tj_low (popped c base s) = tj_low s"
  "tj_index (popped c base s) = tj_index s" "tj_stack (popped c base s) = base"
  "tj_components (popped c base s) = tj_components s"
  by (simp_all add: popped_def seen_def idx_def)

lemma add_component_simps [simp]:
  "seen (s\<lparr>tj_components := cs\<rparr>) = seen s" "idx (s\<lparr>tj_components := cs\<rparr>) x = idx s x"
  "finished (s\<lparr>tj_components := cs\<rparr>) = finished s" "stack_ok (s\<lparr>tj_components := cs\<rparr>) = stack_ok s"
  by (simp_all add: seen_def idx_def finished_def stack_ok_def)

lemma leave_eq:
  assumes "node \<notin> set ts" and "tj_stack s = ts @ node # base"
  shows "leave adj node s =
    (if tj_low s node \<noteq> idx s node then s
     else if ts = [] \<and> (node, node) \<notin> imports_of adj then popped [node] base s
     else (popped (ts @ [node]) base s)\<lparr>tj_components := tj_components s @ [sort (ts @ [node])]\<rparr>)"
  using assms(2) pop_until_stack[OF assms(1), of base]
  by (cases ts) (auto simp: leave_def Let_def popped_def imports_of_def)

lemma popped_stack_ok:
  assumes ok: "stack_ok s" and st: "tj_stack s = ts @ node # base"
  shows "stack_ok (popped (ts @ [node]) base s)"
proof -
  have "sorted_wrt (\<lambda>x y. idx s y < idx s x) base"
    using ok st unfolding stack_ok_def by (simp add: sorted_wrt_append)
  moreover have "(tj_onStack s x \<and> x \<notin> set (ts @ [node])) = (x \<in> set base)" for x
    using ok st stack_parts(2,3)[OF ok st] unfolding stack_ok_def by auto
  ultimately show ?thesis using ok st unfolding stack_ok_def by (simp add: popped_def seen_def idx_def)
qed

lemma popped_finished:
  assumes ok: "stack_ok s" and st: "tj_stack s = ts @ node # base"
  shows "finished (popped (ts @ [node]) base s) = finished s \<union> set (ts @ [node])"
  using ok st stack_parts(2,3)[OF ok st] unfolding finished_def stack_ok_def by auto

lemma popped_extends:
  assumes "stack_ok s" and "tj_stack s = ts @ node # base"
  shows "extends s (popped (ts @ [node]) base s)"
  using popped_finished[OF assms] by (auto simp: extends_def)

lemma reported_add:
  assumes rep: "reported_ok adj s" and C: "scc (imports_of adj) C" "finished s \<inter> C = {}"
    and FC: "closed (imports_of adj) (finished s \<union> C)" and fin: "finished s' = finished s \<union> C"
    and new: "tj_components s' = tj_components s \<and> (\<forall>x \<in> C. (x, x) \<notin> (imports_of adj)\<^sup>+) \<or>
      tj_components s' = tj_components s @ [c] \<and> set c = C \<and> sorted c \<and> distinct c \<and>
        (\<forall>x \<in> C. (x, x) \<in> (imports_of adj)\<^sup>+)"
  shows "reported_ok adj s'"
  using new
proof
  assume n: "tj_components s' = tj_components s \<and> (\<forall>x \<in> C. (x, x) \<notin> (imports_of adj)\<^sup>+)"
  have "c \<in> set (tj_components s) \<Longrightarrow> set c \<subseteq> finished s \<union> C" for c
    using rep unfolding reported_ok_def by blast
  with rep FC n show ?thesis unfolding reported_ok_def fin conjunct1[OF n] by blast
next
  assume n: "tj_components s' = tj_components s @ [c] \<and> set c = C \<and> sorted c \<and> distinct c \<and>
    (\<forall>x \<in> C. (x, x) \<in> (imports_of adj)\<^sup>+)"
  have "C \<noteq> {}" using C(1) by (simp add: scc_def)
  moreover have "set d \<subseteq> finished s" if "d \<in> set (tj_components s)" for d
    using rep that unfolding reported_ok_def by blast
  ultimately have "C \<notin> set (map set (tj_components s))" using C(2) by fastforce
  with n rep have "distinct (map set (tj_components s'))" unfolding reported_ok_def by simp
  moreover have "cyclic_scc (imports_of adj) C" using C(1) n unfolding cyclic_scc_def by blast
  ultimately show ?thesis using rep n FC unfolding reported_ok_def fin by auto
qed

lemma leave_visited:
  assumes v: "visiting adj node base (set (adj_of adj node)) s"
  shows "visited adj node base (leave adj node s) \<and> extends s (leave adj node s)"
proof -
  from v obtain ts where ok: "stack_ok s" and rep: "reported_ok adj s"
    and st: "tj_stack s = ts @ node # base" and ts: "above adj s node ts"
    unfolding visiting_def by blast
  have node: "node \<in> seen s" using ok st by (auto simp: stack_ok_def)
  note leave = leave_eq[OF stack_parts(1)[OF ok st] st, of adj]
  show ?thesis
  proof (cases "tj_low s node = idx s node")
    case False
    with v have "explored adj s node" unfolding visiting_def explored_def by auto
    with ok rep node st ts False leave show ?thesis unfolding visited_def by auto
  next
    case True
    let ?p = "popped (ts @ [node]) base s"
    let ?R = "imports_of adj"
    note C = popped_scc[OF v True st ts]
    have dis: "finished s \<inter> set (ts @ [node]) = {}" using st by (auto simp: finished_def)
    have fin: "finished ?p = finished s \<union> set (ts @ [node])" using popped_finished[OF ok st] .
    have dist: "distinct (ts @ [node])" using stack_parts(1,6)[OF ok st] by simp
    show ?thesis
    proof (cases "ts = [] \<and> (node, node) \<notin> ?R")
      case alone: True
      with scc_single[of ?R node] C(1) have none: "\<forall>x \<in> set (ts @ [node]). (x, x) \<notin> ?R\<^sup>+" by auto
      have "reported_ok adj ?p" by (rule reported_add[OF rep C(1) dis C(2) fin]) (use none in simp)
      with True alone leave popped_stack_ok[OF ok st] popped_extends[OF ok st] node
      show ?thesis unfolding visited_def by simp
    next
      case False
      let ?s = "?p\<lparr>tj_components := tj_components s @ [sort (ts @ [node])]\<rparr>"
      have cyc: "(x, x) \<in> ?R\<^sup>+" if x: "x \<in> set (ts @ [node])" for x
      proof (cases "ts = []")
        case True
        with False x show ?thesis by auto
      next
        case False
        then obtain t where "t \<in> set ts" by (cases ts) auto
        then have "t \<in> set (ts @ [node])" "node \<in> set (ts @ [node])" "t \<noteq> node"
          using stack_parts(1)[OF ok st] by auto
        with scc_cycle[OF C(1) x] show ?thesis by metis
      qed
      have "reported_ok adj ?s"
        by (rule reported_add[OF rep C(1) dis C(2), where c = "sort (ts @ [node])"])
          (use fin dist cyc in auto)
      moreover have "extends s ?s" using popped_extends[OF ok st] by (simp add: extends_def)
      ultimately show ?thesis
        using True False leave popped_stack_ok[OF ok st] node unfolding visited_def by auto
    qed
  qed
qed

section \<open>The search ends and reports the cyclic components\<close>

definition visit_correct :: "nat \<Rightarrow> adjacency \<Rightarrow> string set \<Rightarrow> bool" where
  "visit_correct n adj U \<longleftrightarrow>
     (\<forall>node s. node \<in> U \<longrightarrow> node \<notin> seen s \<longrightarrow> stack_ok s \<longrightarrow> reported_ok adj s \<longrightarrow>
        card (U - seen s) \<le> n \<longrightarrow>
        (\<exists>s'. visit_node n adj node s = Some s' \<and> visited adj node (tj_stack s) s' \<and> extends s s'))"

lemma lower_extends: "extends s0 s \<Longrightarrow> node \<notin> seen s0 \<Longrightarrow> extends s0 (lower node i s)"
  unfolding extends_def by (simp, metis lower_simps(9))

lemma unseen_shrinks: "finite U \<Longrightarrow> seen s \<subseteq> seen s' \<Longrightarrow> card (U - seen s') \<le> card (U - seen s)"
  by (intro card_mono) auto

lemma visit_edges_ends:
  assumes U: "finite U" and rec: "visit_correct n adj U" and node: "node \<notin> seen s0"
    and sub: "set ns \<subseteq> U" "set ns \<subseteq> set (adj_of adj node)"
    and v: "visiting adj node base vs s" and ext: "extends s0 s" and fuel: "card (U - seen s) \<le> n"
  shows "\<exists>s'. visit_edges n adj node ns s = Some s' \<and> visiting adj node base (vs \<union> set ns) s' \<and>
    extends s0 s'"
  using sub v ext fuel
proof (induction ns arbitrary: s vs)
  case (Cons w rest)
  have ok: "stack_ok s" "reported_ok adj s" using Cons.prems(3) unfolding visiting_def by blast+
  have edge: "(node, w) \<in> imports_of adj" using Cons.prems(2) by (simp add: imports_of_def)
  have rest: "set rest \<subseteq> U" "set rest \<subseteq> set (adj_of adj node)" using Cons.prems by auto
  have on: "tj_onStack s w \<longleftrightarrow> w \<in> set (tj_stack s)" using ok(1) unfolding stack_ok_def by blast
  show ?case
  proof (cases "w \<in> seen s")
    case False
    have "w \<in> U" using Cons.prems(1) by simp
    with rec False ok Cons.prems(5) obtain s1 where s1: "visit_node n adj w s = Some s1"
      "visited adj w (tj_stack s) s1" "extends s s1"
      unfolding visit_correct_def by blast
    let ?s = "lower node (tj_low s1 w) s1"
    have "visiting adj node base (insert w vs) ?s"
      using next_visited[OF Cons.prems(3) edge s1(3) False s1(2)] .
    moreover have "extends s0 ?s" using lower_extends[OF extends_trans[OF Cons.prems(4) s1(3)] node] .
    moreover have "card (U - seen ?s) \<le> n"
      using unseen_shrinks[OF U, of s s1] s1(3) Cons.prems(5) unfolding extends_def by simp
    ultimately obtain s' where "visit_edges n adj node rest ?s = Some s'"
      "visiting adj node base (insert w vs \<union> set rest) s'" "extends s0 s'"
      using Cons.IH[OF rest] by blast
    with s1(1) False show ?thesis by (simp add: seen_def)
  next
    case True
    let ?s = "if tj_onStack s w then lower node (idx s w) s else s"
    have "visiting adj node base (insert w vs) ?s"
      using seen_visiting[OF Cons.prems(3) edge True] off_visiting[OF Cons.prems(3) True] on by simp
    moreover have "extends s0 ?s" using lower_extends[OF Cons.prems(4) node] Cons.prems(4) by simp
    moreover have "card (U - seen ?s) \<le> n" using Cons.prems(5) by simp
    ultimately obtain s' where "visit_edges n adj node rest ?s = Some s'"
      "visiting adj node base (insert w vs \<union> set rest) s'" "extends s0 s'"
      using Cons.IH[OF rest] by blast
    with True show ?thesis by (auto simp: seen_def split: if_splits)
  qed
qed simp

lemma visit_ends:
  assumes U: "finite U" and closed: "\<And>x. x \<in> U \<Longrightarrow> set (adj_of adj x) \<subseteq> U"
  shows "visit_correct n adj U"
proof (induction n)
  case 0
  show ?case unfolding visit_correct_def
  proof (intro allI impI)
    fix node s assume "node \<in> U" "node \<notin> seen s" "card (U - seen s) \<le> 0"
    with U show "\<exists>s'. visit_node 0 adj node s = Some s' \<and> visited adj node (tj_stack s) s' \<and> extends s s'"
      by auto
  qed
next
  case (Suc n)
  show ?case unfolding visit_correct_def
  proof (intro allI impI)
    fix node s
    assume node: "node \<in> U" "node \<notin> seen s" and ok: "stack_ok s" "reported_ok adj s"
      and fuel: "card (U - seen s) \<le> Suc n"
    have "U - seen (enter node s) \<subset> U - seen s" using node by (auto simp: enter_simps)
    then have "card (U - seen (enter node s)) < card (U - seen s)"
      using U by (intro psubset_card_mono) auto
    with fuel have "card (U - seen (enter node s)) \<le> n" by simp
    with visit_edges_ends[OF U Suc node(2) closed[OF node(1)] _ enter_visiting[OF ok node(2)]
        enter_extends[OF node(2)]] obtain s1 where
      s1: "visit_edges n adj node (adj_of adj node) (enter node s) = Some s1"
      "visiting adj node (tj_stack s) (set (adj_of adj node)) s1" "extends s s1"
      by auto
    from leave_visited[OF s1(2)] extends_trans[OF s1(3)] s1(1)
    show "\<exists>s'. visit_node (Suc n) adj node s = Some s' \<and> visited adj node (tj_stack s) s' \<and> extends s s'"
      by auto
  qed
qed

text \<open>From the empty stack: the bottom node cannot have a low link below its index.\<close>

lemma visited_bottom:
  assumes "visited adj node [] s"
  shows "tj_stack s = []"
proof (rule ccontr)
  assume "tj_stack s \<noteq> []"
  with assms obtain ts where ok: "stack_ok s" and st: "tj_stack s = ts @ [node]" and e: "explored adj s node"
    unfolding visited_def by auto
  from e obtain y where y: "y \<in> set (tj_stack s)" "tj_low s node = idx s y" "tj_low s node < idx s node"
    unfolding explored_def by blast
  with st stack_parts(4)[OF ok st, of y] show False by auto
qed

lemma visit_keys_ends:
  assumes U: "finite U" and closed: "\<And>x. x \<in> U \<Longrightarrow> set (adj_of adj x) \<subseteq> U" and fuel: "card U \<le> n"
    and keys: "set keys \<subseteq> U" and s: "stack_ok s" "reported_ok adj s" "tj_stack s = []"
  shows "\<exists>s'. visit_keys n adj keys s = Some s' \<and> reported_ok adj s' \<and> tj_stack s' = [] \<and>
    seen s \<union> set keys \<subseteq> seen s'"
  using keys s
proof (induction keys arbitrary: s)
  case (Cons key keys)
  show ?case
  proof (cases "key \<in> seen s")
    case True
    moreover obtain s' where "visit_keys n adj keys s = Some s'" "reported_ok adj s'"
      "tj_stack s' = []" "seen s \<union> set keys \<subseteq> seen s'"
      using Cons.IH[OF _ Cons.prems(2-4)] Cons.prems(1) by auto
    moreover from this True have "key \<in> seen s'" by blast
    ultimately show ?thesis by (auto simp: seen_def)
  next
    case False
    have "card (U - seen s) \<le> card U" using U by (intro card_mono) auto
    with fuel visit_ends[OF U closed, of n] False Cons.prems obtain s1 where
      s1: "visit_node n adj key s = Some s1" "visited adj key [] s1" "extends s s1"
      unfolding visit_correct_def by fastforce
    have "stack_ok s1" "reported_ok adj s1" "key \<in> seen s1" using s1(2) unfolding visited_def by blast+
    moreover have "seen s \<subseteq> seen s1" using s1(3) unfolding extends_def by blast
    moreover obtain s' where "visit_keys n adj keys s1 = Some s'" "reported_ok adj s'"
      "tj_stack s' = []" "seen s1 \<union> set keys \<subseteq> seen s'"
      using Cons.IH[of s1] visited_bottom[OF s1(2)] Cons.prems(1) calculation by auto
    moreover have "visit_keys n adj (key # keys) s = visit_keys n adj keys s1"
      using s1(1) False by (simp add: seen_def)
    moreover from calculation have "seen s \<union> set (key # keys) \<subseteq> seen s'" by auto
    ultimately show ?thesis by metis
  qed
qed simp

lemma start_ok [simp]: "stack_ok tarjan_start" "reported_ok adj tarjan_start" "tj_stack tarjan_start = []"
  by (auto simp: tarjan_start_def stack_ok_def reported_ok_def seen_def finished_def closed_def)

definition strong_components :: "adjacency \<Rightarrow> string list list option" where
  "strong_components adj =
     map_option tj_components (visit_keys (length adj) adj (sort (map fst adj)) tarjan_start)"

lemma strong_components_exact:
  assumes "\<And>x. x \<in> fst ` set adj \<Longrightarrow> set (adj_of adj x) \<subseteq> fst ` set adj"
  shows "\<exists>cs. strong_components adj = Some cs \<and> distinct (map set cs) \<and>
    (\<forall>c \<in> set cs. sorted c \<and> distinct c) \<and> set ` set cs = {C. cyclic_scc (imports_of adj) C}"
proof -
  have fuel: "card (fst ` set adj) \<le> length adj" by (metis card_length length_map set_map)
  obtain s where s: "visit_keys (length adj) adj (sort (map fst adj)) tarjan_start = Some s"
    "reported_ok adj s" "tj_stack s = []" "fst ` set adj \<subseteq> seen s"
    using visit_keys_ends[of "fst ` set adj" adj "length adj" "sort (map fst adj)" tarjan_start]
      assms fuel by auto
  have "\<exists>c \<in> set (tj_components s). set c = C" if C: "cyclic_scc (imports_of adj) C" for C
  proof -
    from C obtain x where x: "x \<in> C" "(x, x) \<in> (imports_of adj)\<^sup>+" unfolding cyclic_scc_def scc_def by blast
    then obtain w where "(x, w) \<in> imports_of adj" by (meson tranclD)
    then have "map_of adj x \<noteq> None" unfolding imports_of_def adj_of_def by (cases "map_of adj x") auto
    then have "x \<in> fst ` set adj" by (simp add: map_of_eq_None_iff)
    with s(3,4) have "x \<in> finished s" by (auto simp: finished_def)
    with s(2) x(2) obtain c where c: "c \<in> set (tj_components s)" "x \<in> set c" unfolding reported_ok_def by blast
    then have "scc (imports_of adj) (set c)" using s(2) unfolding reported_ok_def cyclic_scc_def by blast
    then have "set c = {y. (x, y) \<in> (imports_of adj)\<^sup>* \<and> (y, x) \<in> (imports_of adj)\<^sup>*}"
      using c(2) unfolding scc_def by blast
    also have "\<dots> = C" using C x(1) unfolding cyclic_scc_def scc_def by blast
    finally show ?thesis using c(1) by blast
  qed
  then have "set ` set (tj_components s) = {C. cyclic_scc (imports_of adj) C}"
    using s(2) unfolding reported_ok_def by blast
  moreover have "distinct (map set (tj_components s))" "\<forall>c \<in> set (tj_components s). sorted c \<and> distinct c"
    using s(2) unfolding reported_ok_def by blast+
  ultimately show ?thesis by (auto simp: strong_components_def s(1))
qed

end
