(* ===== verification/PaddockVerdict.thy ===== *)
theory PaddockVerdict
  imports PaddockChecker Components "HOL-Library.Product_Lexorder" "HOL-Library.Multiset"
begin

text \<open>
  The rest of paddock/internal/checker/checker.go and of model.go: component classification,
  import cycles, waivers, and \<open>CheckGraph\<close>, which runs every rule and gives the verdict.  The
  orders in which the runtime delivers the entries of the maps the checker ranges over are an
  argument, the record \<open>ranges\<close>.  The current date is the argument \<open>today\<close>.
\<close>

section \<open>Ranging over maps\<close>

record ranges =
  rg_components :: "Package \<Rightarrow> (string \<times> Component) list \<Rightarrow> (string \<times> Component) list"
  rg_captures :: "captures \<Rightarrow> captures"
  rg_edges :: "(string \<times> Edge) list \<Rightarrow> (string \<times> Edge) list"

definition fair :: "ranges \<Rightarrow> bool" where
  "fair rg \<longleftrightarrow> (\<forall>p m. mset (rg_components rg p m) = mset m) \<and> (\<forall>m. mset (rg_captures rg m) = mset m) \<and>
     (\<forall>m. mset (rg_edges rg m) = mset m)"

section \<open>Classification\<close>

text \<open>\<open>strings.ReplaceAll\<close> of a text that is not empty.\<close>

function replace_all :: "string \<Rightarrow> string \<Rightarrow> string \<Rightarrow> string" where
  "replace_all old new [] = []"
| "replace_all old new (c # s) =
     (case strip_prefix old (c # s) of
        Some rest \<Rightarrow> if old = [] then c # s else new @ replace_all old new rest
      | None \<Rightarrow> c # replace_all old new s)"
  by pat_completeness auto
termination
  by (relation "measure (\<lambda>(_, _, s). length s)") (auto simp: strip_prefix_Some)

definition Substitute :: "string \<Rightarrow> captures \<Rightarrow> string" where
  "Substitute v captures = foldl (\<lambda>v c. replace_all (''{'' @ fst c @ ''}'') (snd c) v) v captures"

record componentMatch =
  mt_name :: string
  mt_labels :: labels

fun first_captures ::
  "(string \<Rightarrow> string \<Rightarrow> bool) \<Rightarrow> string list \<Rightarrow> string \<Rightarrow> captures option" where
  "first_captures glob [] path = None"
| "first_captures glob (p # ps) path =
     (case matchPattern glob p path of Some c \<Rightarrow> Some c | None \<Rightarrow> first_captures glob ps path)"

definition component_matches ::
  "(string \<Rightarrow> string \<Rightarrow> bool) \<Rightarrow> ranges \<Rightarrow> (string \<times> Component) list \<Rightarrow> Package \<Rightarrow> componentMatch list" where
  "component_matches glob rg components p =
     List.map_filter (\<lambda>(name, c).
       map_option (\<lambda>captures. \<lparr>mt_name = name,
           mt_labels = map (\<lambda>(k, v). (k, Substitute v (rg_captures rg captures))) (cm_Labels c)\<rparr>)
         (first_captures glob (cm_Match c) (pk_RelPath p)))
       (rg_components rg p components)"

definition componentNames :: "componentMatch list \<Rightarrow> string" where
  "componentNames matches = join_with '', '' (sort (map mt_name matches))"

definition overlap_finding :: "Package \<Rightarrow> componentMatch list \<Rightarrow> Finding" where
  "overlap_finding p matches = zero_finding
     \<lparr>fi_RuleID := ''coverage'', fi_Kind := ''coverage'', fi_Severity := ''error'',
      fi_From := pk_RelPath p,
      fi_Message := ''source unit matches multiple components: '' @ componentNames matches\<rparr>"

fun Classify ::
  "(string \<Rightarrow> string \<Rightarrow> bool) \<Rightarrow> ranges \<Rightarrow> (string \<times> Component) list \<Rightarrow> Package list
   \<Rightarrow> Package list \<times> Finding list" where
  "Classify glob rg components [] = ([], [])"
| "Classify glob rg components (p # ps) =
     (let matches = component_matches glob rg components p;
          classified = (case matches of
            [c] \<Rightarrow> p\<lparr>pk_Component := mt_name c, pk_Labels := mt_labels c\<rparr> | _ \<Rightarrow> p);
          rest = Classify glob rg components ps
      in (classified # fst rest, problem (1 < length matches) (overlap_finding p matches) @ snd rest))"

section \<open>Cycles\<close>

fun cycle_packages ::
  "(string \<Rightarrow> string \<Rightarrow> bool) \<Rightarrow> string list \<Rightarrow> Rule \<Rightarrow> adjacency \<Rightarrow> (string, Package) gomap
   \<Rightarrow> Package list \<Rightarrow> adjacency \<times> (string, Package) gomap" where
  "cycle_packages glob roots r adj byImport [] = (adj, byImport)"
| "cycle_packages glob roots r adj byImport (p # ps) =
     (if \<not> underRoots (pk_RelPath p) roots \<or> \<not> selectorsMatch glob (ru_From r) (Some p)
      then cycle_packages glob roots r adj byImport ps
      else cycle_packages glob roots r (map_set (pk_ImportPath p) [] adj)
             (map_set (pk_ImportPath p) p byImport) ps)"

definition edge_key :: "Edge \<Rightarrow> string" where
  "edge_key e = ed_FromImportPath e @ [CHR 0x00] @ ed_ToImportPath e"

definition cycle_edge :: "(string, Package) gomap \<Rightarrow> Edge \<Rightarrow> bool" where
  "cycle_edge byImport e \<longleftrightarrow> ed_TargetKind e = ''internal'' \<and>
     map_of byImport (ed_FromImportPath e) \<noteq> None \<and> map_of byImport (ed_ToImportPath e) \<noteq> None"

fun cycle_edges ::
  "(string, Package) gomap \<Rightarrow> adjacency \<Rightarrow> (string, Edge) gomap \<Rightarrow> Edge list
   \<Rightarrow> adjacency \<times> (string, Edge) gomap" where
  "cycle_edges byImport adj edges [] = (adj, edges)"
| "cycle_edges byImport adj edges (e # es) =
     (if \<not> cycle_edge byImport e then cycle_edges byImport adj edges es
      else cycle_edges byImport
             (map_set (ed_FromImportPath e) (adj_of adj (ed_FromImportPath e) @ [ed_ToImportPath e]) adj)
             (map_set (edge_key e) e edges) es)"

definition better_edge :: "Edge option \<Rightarrow> Edge \<Rightarrow> bool" where
  "better_edge best e =
     (case best of None \<Rightarrow> True
      | Some b \<Rightarrow> ed_File e < ed_File b \<or> ed_File e = ed_File b \<and> ed_Line e < ed_Line b)"

definition firstCycleEdge :: "string list \<Rightarrow> (string \<times> Edge) list \<Rightarrow> Edge option" where
  "firstCycleEdge component edges =
     foldl (\<lambda>best x.
       if ed_FromImportPath (snd x) \<notin> set component \<or> ed_ToImportPath (snd x) \<notin> set component then best
       else if better_edge best (snd x) then Some (snd x) else best) None edges"

definition cycle_finding ::
  "Rule \<Rightarrow> (string, Package) gomap \<Rightarrow> (string \<times> Edge) list \<Rightarrow> string list \<Rightarrow> Finding" where
  "cycle_finding r byImport edges component =
     (let f = rule_finding r (''import cycle: '' @ join_with '' -> '' component) in
      case firstCycleEdge component edges of
        None \<Rightarrow> f
      | Some e \<Rightarrow> decorateFinding
          (f\<lparr>fi_From := ed_FromPath e, fi_To := edgeDisplayPath e, fi_File := ed_File e,
             fi_Line := ed_Line e\<rparr>)
          (map_of byImport (ed_FromImportPath e)) (map_of byImport (ed_ToImportPath e)))"

definition cycle_adjacency ::
  "(string \<Rightarrow> string \<Rightarrow> bool) \<Rightarrow> string list \<Rightarrow> Graph \<Rightarrow> Rule \<Rightarrow> adjacency" where
  "cycle_adjacency glob roots g r =
     (let (adj, byImport) = cycle_packages glob roots r [] [] (gr_Packages g)
      in map (\<lambda>(k, ns). (k, sort ns)) (fst (cycle_edges byImport adj [] (gr_Edges g))))"

definition checkCycles ::
  "(string \<Rightarrow> string \<Rightarrow> bool) \<Rightarrow> ranges \<Rightarrow> string list \<Rightarrow> Graph \<Rightarrow> Rule \<Rightarrow> Finding list option" where
  "checkCycles glob rg roots g r =
     (let (adj, byImport) = cycle_packages glob roots r [] [] (gr_Packages g);
          edges = snd (cycle_edges byImport adj [] (gr_Edges g))
      in map_option (map (cycle_finding r byImport (rg_edges rg edges)))
           (strong_components (cycle_adjacency glob roots g r)))"

section \<open>Waivers\<close>

definition waiverMatches :: "(string \<Rightarrow> string \<Rightarrow> bool) \<Rightarrow> Waiver \<Rightarrow> Finding \<Rightarrow> bool" where
  "waiverMatches glob w f \<longleftrightarrow>
     matchesAnyPath glob (wv_From w) [fi_File f, fi_From f] \<and>
     (wv_To w = [] \<or> matchesAnyPath glob (wv_To w) [fi_To f])"

fun waive ::
  "(string \<Rightarrow> string \<Rightarrow> bool) \<Rightarrow> string \<Rightarrow> nat \<Rightarrow> Waiver list \<Rightarrow> string list \<Rightarrow> Finding
   \<Rightarrow> string list \<times> Finding" where
  "waive glob today i [] used f = (used, f)"
| "waive glob today i (w # ws) used f =
     (if wv_Rule w \<noteq> fi_RuleID f \<or> \<not> waiverMatches glob w f then waive glob today (Suc i) ws used f
      else
        (let status = (if wv_Expires w < today then ''expired'' else ''applied'');
             f = f\<lparr>fi_WaiverReason := wv_Reason w, fi_WaiverOwner := wv_Owner w,
                   fi_WaiverExpires := wv_Expires w\<rparr>
         in (used[i := status],
             if status = ''expired'' then f\<lparr>fi_WaiverStatus := ''expired''\<rparr>
             else f\<lparr>fi_Waived := True, fi_WaiverStatus := ''applied''\<rparr>)))"

fun waive_all ::
  "(string \<Rightarrow> string \<Rightarrow> bool) \<Rightarrow> string \<Rightarrow> Waiver list \<Rightarrow> string list \<Rightarrow> Finding list
   \<Rightarrow> string list \<times> Finding list" where
  "waive_all glob today ws used [] = (used, [])"
| "waive_all glob today ws used (f # fs) =
     (let x = waive glob today 0 ws used f; rest = waive_all glob today ws (fst x) fs
      in (fst rest, snd x # snd rest))"

record WaiverSummary =
  ws_RuleID :: string
  ws_From :: string
  ws_To :: string
  ws_Owner :: string
  ws_Expires :: string
  ws_Status :: string

definition waiver_summary :: "string \<Rightarrow> Waiver \<Rightarrow> string \<Rightarrow> WaiverSummary" where
  "waiver_summary today w used =
     \<lparr>ws_RuleID = wv_Rule w, ws_From = wv_From w, ws_To = wv_To w, ws_Owner = wv_Owner w,
      ws_Expires = wv_Expires w,
      ws_Status = (if used \<noteq> [] then used
                   else if wv_Expires w < today then ''unused-expired'' else ''unused'')\<rparr>"

definition applyWaivers ::
  "(string \<Rightarrow> string \<Rightarrow> bool) \<Rightarrow> string \<Rightarrow> Waiver list \<Rightarrow> Finding list
   \<Rightarrow> Finding list \<times> WaiverSummary list" where
  "applyWaivers glob today ws fs =
     (let x = waive_all glob today ws (replicate (length ws) []) fs
      in (snd x, map (\<lambda>(w, used). waiver_summary today w used) (zip ws (fst x))))"

section \<open>The report\<close>

record RuleSummary =
  rs_ID :: string
  rs_Kind :: string
  rs_Severity :: string
  rs_From :: "Selector list"
  rs_To :: "Selector list"
  rs_Allow :: "string list"
  rs_Deny :: "string list"
  rs_AllowTo :: "string list"
  rs_Transitive :: bool
  rs_Direction :: string
  rs_ContextLabel :: string
  rs_Message :: string

definition targetDescription :: "Target \<Rightarrow> string" where
  "targetDescription t =
     (if tg_Path t \<noteq> [] then ''path:'' @ tg_Path t
      else if tg_Literal t \<noteq> [] then tg_Literal t
      else if tg_Kind t \<noteq> [] then
        (if tg_Value t = [] then tg_Kind t else tg_Kind t @ '':'' @ tg_Value t)
      else ''{'' @ join_with '', ''
             (map (\<lambda>k. k @ ''='' @ (case map_of (tg_Labels t) k of Some v \<Rightarrow> v | None \<Rightarrow> []))
               (sort (map fst (tg_Labels t)))) @ ''}'')"

definition summarizeTargets :: "Target list \<Rightarrow> string list" where
  "summarizeTargets ts = map targetDescription ts"

definition summarizeRules :: "Rule list \<Rightarrow> RuleSummary list" where
  "summarizeRules rules = map (\<lambda>r.
     \<lparr>rs_ID = ru_ID r, rs_Kind = ru_Kind r, rs_Severity = ru_Severity r, rs_From = ru_From r,
      rs_To = ru_To r, rs_Allow = summarizeTargets (ru_Allow r), rs_Deny = summarizeTargets (ru_Deny r),
      rs_AllowTo = summarizeTargets (ru_AllowTo r), rs_Transitive = ru_Transitive r,
      rs_Direction = ru_Direction r, rs_ContextLabel = ru_ContextLabel r, rs_Message = ru_Message r\<rparr>)
     rules"

record PolicySource =
  so_Language :: string
  so_Roots :: "string list"
  so_Unit :: string
  so_Include :: "string list"
  so_Exclude :: "string list"

record Policy =
  po_Schema :: string
  po_Project :: string
  po_Source :: PolicySource
  po_Components :: "(string \<times> Component) list"
  po_Rules :: "Rule list"
  po_Waivers :: "Waiver list"

record BaselineSummary =
  bs_Path :: string
  bs_Entries :: int
  bs_Matched :: int
  bs_Stale :: "string list"

record CheckResult =
  cr_Schema :: string
  cr_Policy :: string
  cr_Root :: string
  cr_ModulePath :: string
  cr_PackageCount :: nat
  cr_EdgeCount :: nat
  cr_SourceUnit :: string
  cr_Findings :: "Finding list"
  cr_Rules :: "RuleSummary list"
  cr_Baseline :: "BaselineSummary option"
  cr_Waivers :: "WaiverSummary list"

definition blocking :: "Finding \<Rightarrow> bool" where
  "blocking f \<longleftrightarrow> fi_Severity f = ''error'' \<and> \<not> fi_Waived f \<and> \<not> fi_Baselined f"

definition OK :: "CheckResult \<Rightarrow> bool" where
  "OK r \<longleftrightarrow> \<not> list_ex blocking (cr_Findings r)"

section \<open>Running the rules\<close>

definition rule_findings ::
  "(string \<Rightarrow> string \<Rightarrow> bool) \<Rightarrow> ranges \<Rightarrow> string list \<Rightarrow> Graph \<Rightarrow> (string, Package) gomap \<Rightarrow> Rule
   \<Rightarrow> Finding list" where
  "rule_findings glob rg roots g byImport r =
     (if ru_Kind r = ''coverage'' then checkCoverage roots (gr_Packages g) r
      else if ru_Kind r = ''no-cycles'' then
        (case checkCycles glob rg roots g r of Some fs \<Rightarrow> fs | None \<Rightarrow> [])
      else if ru_Kind r = ''required-dependency'' then checkRequiredDependencies glob roots g byImport r
      else if ru_Kind r = ''component-owns'' then checkComponentOwnership glob roots (gr_Packages g) r
      else checkEdges glob roots g byImport r)"

text \<open>The graph after classification, and every finding before the waivers.\<close>

definition classified :: "(string \<Rightarrow> string \<Rightarrow> bool) \<Rightarrow> ranges \<Rightarrow> Policy \<Rightarrow> Graph \<Rightarrow> Graph" where
  "classified glob rg p g = g\<lparr>gr_Packages := fst (Classify glob rg (po_Components p) (gr_Packages g))\<rparr>"

definition found ::
  "(string \<Rightarrow> string \<Rightarrow> bool) \<Rightarrow> ranges \<Rightarrow> Policy \<Rightarrow> Graph \<Rightarrow> Finding list" where
  "found glob rg p g =
     snd (Classify glob rg (po_Components p) (gr_Packages g)) @
     (let g = classified glob rg p g; byImport = index_packages [] (gr_Packages g)
      in concat (map (rule_findings glob rg (so_Roots (po_Source p)) g byImport) (po_Rules p)))"

definition finding_key :: "Finding \<Rightarrow> string \<times> string \<times> int \<times> string" where
  "finding_key f = (fi_RuleID f, fi_File f, fi_Line f, fi_To f)"

text \<open>\<open>sort.Slice\<close> promises a sorted permutation; findings with equal keys are kept in the order
  they were made in, one of the orders it may choose.  \<open>absolute\<close> is \<open>filepath.Abs\<close>.\<close>

definition CheckGraph ::
  "(string \<Rightarrow> string \<Rightarrow> bool) \<Rightarrow> ranges \<Rightarrow> (string \<Rightarrow> string + string) \<Rightarrow> string \<Rightarrow> string \<Rightarrow> string
   \<Rightarrow> Policy \<Rightarrow> Graph option \<Rightarrow> string + CheckResult" where
  "CheckGraph glob rg absolute today root policyPath p graph =
     (case graph of
        None \<Rightarrow> Inl ''checker graph is required''
      | Some g \<Rightarrow>
          (case absolute root of
             Inl err \<Rightarrow> Inl (''resolve source root: '' @ err)
           | Inr root \<Rightarrow>
               (let (findings, waivers) = applyWaivers glob today (po_Waivers p) (found glob rg p g)
                in Inr \<lparr>cr_Schema = ''paddock.report/v1'', cr_Policy = policyPath, cr_Root = root,
                     cr_ModulePath = gr_ModulePath g, cr_PackageCount = length (gr_Packages g),
                     cr_EdgeCount = length (gr_Edges g), cr_SourceUnit = so_Unit (po_Source p),
                     cr_Findings = sort_key finding_key findings,
                     cr_Rules = summarizeRules (po_Rules p), cr_Baseline = None,
                     cr_Waivers = waivers\<rparr>)))"

section \<open>What the waivers do\<close>

definition waiver_for :: "(string \<Rightarrow> string \<Rightarrow> bool) \<Rightarrow> Waiver list \<Rightarrow> Finding \<Rightarrow> Waiver option" where
  "waiver_for glob ws f = List.find (\<lambda>w. wv_Rule w = fi_RuleID f \<and> waiverMatches glob w f) ws"

text \<open>A finding is excused when the first waiver that matches it has not expired.\<close>

definition excused :: "(string \<Rightarrow> string \<Rightarrow> bool) \<Rightarrow> string \<Rightarrow> Waiver list \<Rightarrow> Finding \<Rightarrow> bool" where
  "excused glob today ws f \<longleftrightarrow>
     (case waiver_for glob ws f of Some w \<Rightarrow> today \<le> wv_Expires w | None \<Rightarrow> False)"

text \<open>A finding without the fields a waiver fills in.\<close>

definition unwaived :: "Finding \<Rightarrow> Finding" where
  "unwaived f = f\<lparr>fi_Waived := False, fi_WaiverReason := [], fi_WaiverOwner := [],
     fi_WaiverExpires := [], fi_WaiverStatus := []\<rparr>"

definition raw :: "Finding \<Rightarrow> bool" where
  "raw f \<longleftrightarrow> \<not> fi_Waived f \<and> fi_WaiverReason f = [] \<and> fi_WaiverOwner f = [] \<and>
     fi_WaiverExpires f = [] \<and> fi_WaiverStatus f = [] \<and> \<not> fi_Baselined f"

lemma raw_unwaived: "raw f \<Longrightarrow> unwaived f = f"
  by (cases f) (simp add: raw_def unwaived_def)

lemma waive_effect:
  "fi_Waived (snd (waive glob today i ws used f)) \<longleftrightarrow> fi_Waived f \<or> excused glob today ws f"
  "unwaived (snd (waive glob today i ws used f)) = unwaived f"
  by (induction glob today i ws used f rule: waive.induct)
    (auto simp: excused_def waiver_for_def unwaived_def Let_def)

lemma waive_finding: "snd (waive glob today i ws used f) = snd (waive glob today 0 ws [] f)"
proof (induction ws arbitrary: i used)
  case (Cons w ws)
  from Cons[of "Suc i" used] Cons[of "Suc 0" "[]"] show ?case by (auto simp: Let_def)
qed simp

lemma waive_all_map:
  "snd (waive_all glob today ws used fs) = map (\<lambda>f. snd (waive glob today 0 ws [] f)) fs"
proof (induction fs arbitrary: used)
  case (Cons f fs)
  with waive_finding[of glob today 0 ws used f] show ?case by (simp add: Let_def)
qed simp

lemma applyWaivers_findings:
  "fst (applyWaivers glob today ws fs) = map (\<lambda>f. snd (waive glob today 0 ws [] f)) fs"
  by (simp add: applyWaivers_def Let_def waive_all_map)

lemma unwaived_fields [simp]:
  "fi_Severity (unwaived f) = fi_Severity f" "fi_Baselined (unwaived f) = fi_Baselined f"
  by (simp_all add: unwaived_def)

lemma waived_blocking:
  assumes "raw f"
  shows "blocking (snd (waive glob today 0 ws [] f)) \<longleftrightarrow>
    fi_Severity f = ''error'' \<and> \<not> excused glob today ws f"
proof -
  let ?f = "snd (waive glob today 0 ws [] f)"
  have "fi_Severity ?f = fi_Severity f" "fi_Baselined ?f = fi_Baselined f"
    using waive_effect(2)[of glob today 0 ws "[]" f] unwaived_fields by metis+
  with assms show ?thesis by (simp add: blocking_def waive_effect(1) raw_def)
qed

end
