(* ===== verification/PaddockSearch.thy ===== *)
theory PaddockSearch
  imports PaddockChecker
begin

text \<open>
  The breadth-first search of checker.go answers reachability: it ends within its fuel, and it
  finds a match exactly when a package reachable over internal edges has an edge that matches.
\<close>

definition depends :: "(string, Package) gomap \<Rightarrow> Edge list \<Rightarrow> (Package \<times> Package) set" where
  "depends byImport es =
     {(p, q). \<exists>e \<in> set (edges_from es (pk_ImportPath p)).
        ed_TargetKind e = ''internal'' \<and> map_of byImport (ed_ToImportPath e) = Some q}"

definition satisfies ::
  "(string \<Rightarrow> string \<Rightarrow> bool) \<Rightarrow> Rule \<Rightarrow> (string, Package) gomap \<Rightarrow> Edge list \<Rightarrow> Package \<Rightarrow> bool" where
  "satisfies glob r byImport es p \<longleftrightarrow>
     (\<exists>e \<in> set (edges_from es (pk_ImportPath p)).
        anyTargetMatches glob (ru_Allow r) e p (map_of byImport (ed_ToImportPath e)))"

text \<open>Packages are indexed under their own import path.\<close>

definition indexed :: "(string, Package) gomap \<Rightarrow> bool" where
  "indexed m \<longleftrightarrow> (\<forall>k q. map_of m k = Some q \<longrightarrow> pk_ImportPath q = k)"

definition successors :: "(string, Package) gomap \<Rightarrow> Edge list \<Rightarrow> Package set" where
  "successors byImport es =
     {q. \<exists>e \<in> set es. ed_TargetKind e = ''internal'' \<and> map_of byImport (ed_ToImportPath e) = Some q}"

lemma successors_Cons:
  "successors byImport (e # es) =
   (case map_of byImport (ed_ToImportPath e) of
      Some q \<Rightarrow> if ed_TargetKind e = ''internal'' then {q} else {} | None \<Rightarrow> {}) \<union> successors byImport es"
  by (auto simp: successors_def split: option.splits)

lemma depends_successors:
  "(p, q) \<in> depends byImport es \<longleftrightarrow> q \<in> successors byImport (edges_from es (pk_ImportPath p))"
  by (simp add: depends_def successors_def)

lemma scan_None:
  "scan_edges glob r byImport p queue visited es = None \<longleftrightarrow>
   (\<exists>e \<in> set es. anyTargetMatches glob (ru_Allow r) e p (map_of byImport (ed_ToImportPath e)))"
  by (induction es arbitrary: queue visited) (auto simp: Let_def split: option.splits)

text \<open>What a scan without a match queues: the successors that were not visited, once each.\<close>

definition scanned ::
  "(string, Package) gomap \<Rightarrow> Edge list \<Rightarrow> Package list \<Rightarrow> string list \<Rightarrow> Package list \<Rightarrow> string list \<Rightarrow> bool" where
  "scanned byImport es queue visited queue' visited' \<longleftrightarrow>
     (\<exists>new. queue' = queue @ new \<and> set new \<subseteq> successors byImport es \<and>
        set visited' = set visited \<union> pk_ImportPath ` set new \<and>
        pk_ImportPath ` successors byImport es \<subseteq> set visited' \<and>
        distinct (map pk_ImportPath new) \<and> pk_ImportPath ` set new \<inter> set visited = {})"

lemma scan_Some:
  "scan_edges glob r byImport p queue visited es = Some (queue', visited') \<Longrightarrow>
   scanned byImport es queue visited queue' visited'"
proof (induction es arbitrary: queue visited)
  case Nil
  then show ?case by (auto simp: scanned_def successors_def)
next
  case (Cons e es)
  show ?case
  proof (cases "map_of byImport (ed_ToImportPath e)")
    case None
    with Cons have "scanned byImport es queue visited queue' visited'" by (auto split: if_splits)
    with None show ?thesis by (simp add: scanned_def successors_Cons)
  next
    case (Some q)
    show ?thesis
    proof (cases "ed_TargetKind e \<noteq> ''internal'' \<or> pk_ImportPath q \<in> set visited")
      case True
      with Cons Some have sc: "scanned byImport es queue visited queue' visited'"
        by (auto simp: Let_def split: if_splits)
      then have "set visited \<subseteq> set visited'" by (auto simp: scanned_def)
      with sc True Some show ?thesis by (fastforce simp: scanned_def successors_Cons)
    next
      case False
      with Cons Some have "scanned byImport es (queue @ [q]) (pk_ImportPath q # visited) queue' visited'"
        by (auto simp: Let_def split: if_splits)
      then obtain new where new: "queue' = queue @ (q # new)" "set new \<subseteq> successors byImport es"
        "set visited' = set visited \<union> pk_ImportPath ` set (q # new)"
        "pk_ImportPath ` successors byImport es \<subseteq> set visited'" "distinct (map pk_ImportPath new)"
        "pk_ImportPath ` set new \<inter> set (pk_ImportPath q # visited) = {}"
        by (auto simp: scanned_def)
      have "scanned byImport (e # es) queue visited queue' visited'"
        unfolding scanned_def successors_Cons using new False Some
        by (intro exI[of _ "q # new"]) auto
      then show ?thesis .
    qed
  qed
qed

text \<open>The visited import paths are those of the packages done and queued; every package done has
  no matching edge and only visited successors.\<close>

definition search_inv ::
  "(string \<Rightarrow> string \<Rightarrow> bool) \<Rightarrow> Rule \<Rightarrow> (string, Package) gomap \<Rightarrow> Edge list \<Rightarrow> Package \<Rightarrow> Package set
   \<Rightarrow> Package list \<Rightarrow> string list \<Rightarrow> bool" where
  "search_inv glob r byImport es start F queue visited \<longleftrightarrow>
     set visited = pk_ImportPath ` (F \<union> set queue) \<and> start \<in> F \<union> set queue \<and>
     (\<forall>p \<in> F \<union> set queue. (start, p) \<in> (depends byImport es)\<^sup>* \<and> map_of byImport (pk_ImportPath p) = Some p) \<and>
     (\<forall>p \<in> F. \<not> satisfies glob r byImport es p \<and>
        (\<forall>q. (p, q) \<in> depends byImport es \<longrightarrow> pk_ImportPath q \<in> set visited))"

lemma search_step:
  assumes ix: "indexed byImport" and inv: "search_inv glob r byImport es start F (p # queue) visited"
    and scan: "scan_edges glob r byImport p queue visited (edges_from es (pk_ImportPath p)) = Some (queue', visited')"
  shows "search_inv glob r byImport es start (insert p F) queue' visited'"
proof -
  let ?es = "edges_from es (pk_ImportPath p)"
  from scan_Some[OF scan] obtain new where
    new: "queue' = queue @ new" "set new \<subseteq> successors byImport ?es"
    "set visited' = set visited \<union> pk_ImportPath ` set new"
    "pk_ImportPath ` successors byImport ?es \<subseteq> set visited'"
    by (auto simp: scanned_def)
  have sat: "\<not> satisfies glob r byImport es p"
    using scan scan_None[of glob r byImport p queue visited ?es] by (auto simp: satisfies_def)
  have reach: "(start, q) \<in> (depends byImport es)\<^sup>* \<and> map_of byImport (pk_ImportPath q) = Some q"
    if "q \<in> set new" for q
  proof -
    from that new(2) have q: "q \<in> successors byImport ?es" by blast
    then have "(p, q) \<in> depends byImport es" by (simp add: depends_successors)
    moreover from q ix have "map_of byImport (pk_ImportPath q) = Some q"
      by (auto simp: successors_def indexed_def)
    moreover have "(start, p) \<in> (depends byImport es)\<^sup>*" using inv by (simp add: search_inv_def)
    ultimately show ?thesis by (meson rtrancl_into_rtrancl)
  qed
  have succ: "pk_ImportPath q \<in> set visited'" if "(p, q) \<in> depends byImport es" for q
    using that new(4) by (auto simp: depends_successors)
  have "set visited' = pk_ImportPath ` (insert p F \<union> set queue')"
    using inv new(1,3) unfolding search_inv_def by auto
  moreover have "start \<in> insert p F \<union> set queue'" using inv new(1) unfolding search_inv_def by auto
  moreover have "(start, q) \<in> (depends byImport es)\<^sup>* \<and> map_of byImport (pk_ImportPath q) = Some q"
    if "q \<in> insert p F \<union> set queue'" for q
    using that inv reach new(1) unfolding search_inv_def by auto
  moreover have "\<not> satisfies glob r byImport es d \<and>
      (\<forall>q. (d, q) \<in> depends byImport es \<longrightarrow> pk_ImportPath q \<in> set visited')" if "d \<in> insert p F" for d
    using that sat succ inv new(3) unfolding search_inv_def by auto
  ultimately show ?thesis unfolding search_inv_def by blast
qed

lemma search_done:
  assumes ix: "indexed byImport" and inv: "search_inv glob r byImport es start F [] visited"
    and reach: "(start, p) \<in> (depends byImport es)\<^sup>*"
  shows "p \<in> F"
  using reach
proof (induction rule: rtrancl_induct)
  case base
  then show ?case using inv by (simp add: search_inv_def)
next
  case (step q s)
  then have "pk_ImportPath s \<in> pk_ImportPath ` F" using inv unfolding search_inv_def by auto
  then obtain d where d: "d \<in> F" "pk_ImportPath d = pk_ImportPath s" by auto
  have "map_of byImport (pk_ImportPath d) = Some d" using inv d(1) unfolding search_inv_def by auto
  moreover have "map_of byImport (pk_ImportPath s) = Some s"
    using step(2) ix by (auto simp: depends_def indexed_def)
  ultimately have "d = s" unfolding d(2) by (metis option.inject)
  with d(1) show ?case by simp
qed

definition pending :: "(string, Package) gomap \<Rightarrow> Package list \<Rightarrow> string list \<Rightarrow> nat" where
  "pending byImport queue visited = length queue + card (fst ` set byImport - set visited)"

lemma pending_step:
  assumes ix: "indexed byImport" and sc: "scanned byImport es queue visited queue' visited'"
  shows "pending byImport queue' visited' \<le> pending byImport queue visited"
proof -
  from sc obtain new where new: "queue' = queue @ new" "set new \<subseteq> successors byImport es"
    "set visited' = set visited \<union> pk_ImportPath ` set new"
    "distinct (map pk_ImportPath new)" "pk_ImportPath ` set new \<inter> set visited = {}"
    by (auto simp: scanned_def)
  let ?K = "fst ` set byImport" and ?N = "pk_ImportPath ` set new"
  have "pk_ImportPath q \<in> ?K" if "q \<in> set new" for q
  proof -
    from that new(2) obtain k where "map_of byImport k = Some q" by (auto simp: successors_def)
    with ix have "map_of byImport (pk_ImportPath q) = Some q" by (auto simp: indexed_def)
    then show ?thesis by (metis map_of_SomeD fst_conv image_eqI)
  qed
  then have sub: "?N \<subseteq> ?K - set visited" using new(5) by auto
  have "?K - set visited' = (?K - set visited) - ?N" using new(3) by auto
  with sub have "card (?K - set visited') = card (?K - set visited) - card ?N"
    by (simp add: card_Diff_subset)
  moreover have "card ?N = length new" using new(4) by (metis distinct_card length_map set_map)
  moreover have "card ?N \<le> card (?K - set visited)" using sub by (intro card_mono) auto
  ultimately show ?thesis by (simp add: pending_def new(1))
qed

lemma search_step_queue:
  assumes "indexed byImport" and "search_inv glob r byImport es start F (p # queue) visited"
    and "scan_edges glob r byImport p queue visited (edges_from es (pk_ImportPath p)) = Some x"
  shows "search_inv glob r byImport es start (insert p F) (fst x) (snd x) \<and>
    Suc (pending byImport (fst x) (snd x)) \<le> pending byImport (p # queue) visited"
proof -
  have sc: "scan_edges glob r byImport p queue visited (edges_from es (pk_ImportPath p)) =
      Some (fst x, snd x)"
    using assms(3) by simp
  have "pending byImport (p # queue) visited = Suc (pending byImport queue visited)"
    by (simp add: pending_def)
  with search_step[OF assms(1,2) sc] pending_step[OF assms(1) scan_Some[OF sc]] show ?thesis by simp
qed

definition reaches_match ::
  "(string \<Rightarrow> string \<Rightarrow> bool) \<Rightarrow> Rule \<Rightarrow> (string, Package) gomap \<Rightarrow> Edge list \<Rightarrow> Package \<Rightarrow> bool" where
  "reaches_match glob r byImport es start \<longleftrightarrow>
     (\<exists>p. (start, p) \<in> (depends byImport es)\<^sup>* \<and> satisfies glob r byImport es p)"

lemma search_ends:
  assumes "indexed byImport" and "search_inv glob r byImport es start F [] visited"
  shows "\<not> reaches_match glob r byImport es start"
proof
  assume "reaches_match glob r byImport es start"
  then obtain p where p: "(start, p) \<in> (depends byImport es)\<^sup>*" "satisfies glob r byImport es p"
    unfolding reaches_match_def by blast
  from search_done[OF assms p(1)] assms(2) p(2) show False unfolding search_inv_def by blast
qed

lemma search_exact:
  assumes ix: "indexed byImport" and inv: "search_inv glob r byImport es start F queue visited"
    and fuel: "pending byImport queue visited \<le> n"
  shows "search n glob r byImport es queue visited = Some (reaches_match glob r byImport es start)"
  using inv fuel
proof (induction n arbitrary: F queue visited)
  case 0
  then have "queue = []" by (simp add: pending_def)
  with search_ends[OF ix] 0(1) show ?case by simp
next
  case (Suc n)
  show ?case
  proof (cases queue)
    case Nil
    with search_ends[OF ix] Suc(2) show ?thesis by simp
  next
    case (Cons p rest)
    let ?sc = "scan_edges glob r byImport p rest visited (edges_from es (pk_ImportPath p))"
    show ?thesis
    proof (cases ?sc)
      case None
      then have "satisfies glob r byImport es p" by (simp add: scan_None satisfies_def)
      moreover have "(start, p) \<in> (depends byImport es)\<^sup>*"
        using Suc(2) Cons unfolding search_inv_def by auto
      ultimately have "reaches_match glob r byImport es start" unfolding reaches_match_def by blast
      with None Cons show ?thesis by simp
    next
      case (Some x)
      note step = search_step_queue[OF ix Suc(2)[unfolded Cons] Some]
      from step Suc(3) Cons have "pending byImport (fst x) (snd x) \<le> n" by simp
      from Suc.IH[OF conjunct1[OF step] this] Some Cons show ?thesis by (simp add: case_prod_beta)
    qed
  qed
qed

section \<open>The index of the graph\<close>

lemma index_packages_indexed: "indexed m \<Longrightarrow> indexed (index_packages m ps)"
proof (induction ps arbitrary: m)
  case (Cons p ps)
  have "indexed (map_set (pk_ImportPath p) p m)"
    using Cons.prems by (auto simp: indexed_def)
  with Cons.IH show ?case by simp
qed simp

lemma index_packages_other:
  "i \<notin> pk_ImportPath ` set ps \<Longrightarrow> map_of (index_packages m ps) i = map_of m i"
  by (induction ps arbitrary: m) auto

lemma index_packages_lookup:
  "distinct (map pk_ImportPath ps) \<Longrightarrow> p \<in> set ps \<Longrightarrow>
   map_of (index_packages m ps) (pk_ImportPath p) = Some p"
  by (induction ps arbitrary: m) (auto simp: index_packages_other)

lemma required_search_exact:
  assumes ix: "indexed byImport" and start: "map_of byImport (pk_ImportPath start) = Some start"
  shows "search (search_fuel_of byImport) glob r byImport es [start] [pk_ImportPath start] =
    Some (reaches_match glob r byImport es start)"
proof (rule search_exact[OF ix])
  show "search_inv glob r byImport es start {} [start] [pk_ImportPath start]"
    using start by (simp add: search_inv_def)
  have "card (fst ` set byImport - {pk_ImportPath start}) \<le> card (fst ` set byImport)"
    by (intro card_mono) auto
  also have "\<dots> \<le> length byImport" using card_image_le[of "set byImport" fst] card_length[of byImport] by simp
  finally show "pending byImport [start] [pk_ImportPath start] \<le> search_fuel_of byImport"
    by (simp add: pending_def search_fuel_of_def)
qed

end
