(* ===== verification/PaddockReport.thy ===== *)
theory PaddockReport
  imports PaddockVerdict PaddockSearch
begin

text \<open>
  What \<open>CheckGraph\<close> reports, in terms of the graph and the policy: the import relation within the
  scope of a cycle rule, when a rule has no finding, and what the waivers leave of the findings.
\<close>

section \<open>The import relation of a cycle rule\<close>

definition rule_scope :: "(string \<Rightarrow> string \<Rightarrow> bool) \<Rightarrow> string list \<Rightarrow> Rule \<Rightarrow> Package \<Rightarrow> bool" where
  "rule_scope glob roots r p \<longleftrightarrow> underRoots (pk_RelPath p) roots \<and> selectorsMatch glob (ru_From r) (Some p)"

definition scope_paths ::
  "(string \<Rightarrow> string \<Rightarrow> bool) \<Rightarrow> string list \<Rightarrow> Package list \<Rightarrow> Rule \<Rightarrow> string set" where
  "scope_paths glob roots packages r = pk_ImportPath ` {p \<in> set packages. rule_scope glob roots r p}"

definition scope_imports ::
  "(string \<Rightarrow> string \<Rightarrow> bool) \<Rightarrow> string list \<Rightarrow> Graph \<Rightarrow> Rule \<Rightarrow> (string \<times> string) set" where
  "scope_imports glob roots g r =
     {(ed_FromImportPath e, ed_ToImportPath e) | e. e \<in> set (gr_Edges g) \<and> ed_TargetKind e = ''internal'' \<and>
        ed_FromImportPath e \<in> scope_paths glob roots (gr_Packages g) r \<and>
        ed_ToImportPath e \<in> scope_paths glob roots (gr_Packages g) r}"

lemma adj_of_set: "adj_of (map_set k ns adj) x = (if x = k then ns else adj_of adj x)"
  by (simp add: adj_of_def)

lemma cycle_packages_spec:
  assumes "cycle_packages glob roots r adj byImport ps = (adj', byImport')" and "\<And>x. adj_of adj x = []"
  shows "fst ` set adj' = fst ` set adj \<union> scope_paths glob roots ps r"
    and "fst ` set byImport' = fst ` set byImport \<union> scope_paths glob roots ps r"
    and "adj_of adj' x = []"
  using assms
proof (induction glob roots r adj byImport ps rule: cycle_packages.induct)
  case (2 glob roots r adj byImport p ps)
  { case 1
    with 2 show ?case by (auto simp: adj_of_set scope_paths_def rule_scope_def split: if_splits)
  next
    case 2
    with "2.IH" show ?case by (auto simp: adj_of_set scope_paths_def rule_scope_def split: if_splits)
  next
    case 3
    with "2.IH" show ?case by (auto simp: adj_of_set split: if_splits)
  }
qed (auto simp: scope_paths_def)

lemma cycle_edges_spec:
  assumes "cycle_edges byImport adj edges es = (adj', edges')"
  shows "fst ` set adj' = fst ` set adj \<union> ed_FromImportPath ` {e \<in> set es. cycle_edge byImport e}"
    and "set (adj_of adj' x) = set (adj_of adj x) \<union>
      ed_ToImportPath ` {e \<in> set es. cycle_edge byImport e \<and> ed_FromImportPath e = x}"
  using assms
proof (induction byImport adj edges es rule: cycle_edges.induct)
  case (2 byImport adj edges e es)
  { case 1
    with 2 show ?case by (auto split: if_splits)
  next
    case 2
    with "2.IH" show ?case by (auto simp: adj_of_set split: if_splits)
  }
qed auto

lemma adj_of_sorted: "adj_of (map (\<lambda>(k, ns). (k, sort ns)) adj) x = sort (adj_of adj x)"
  by (induction adj) (auto simp: adj_of_def)

lemma sorted_keys: "fst ` set (map (\<lambda>(k, ns). (k, sort ns)) adj) = fst ` set adj"
  by force

lemma cycle_adjacency_spec:
  "imports_of (cycle_adjacency glob roots g r) = scope_imports glob roots g r"
  "set (adj_of (cycle_adjacency glob roots g r) x) \<subseteq> fst ` set (cycle_adjacency glob roots g r)"
proof -
  obtain adj byImport where p: "cycle_packages glob roots r [] [] (gr_Packages g) = (adj, byImport)"
    by fastforce
  obtain adj' edges where e: "cycle_edges byImport adj [] (gr_Edges g) = (adj', edges)" by fastforce
  have nil: "adj_of [] y = []" for y by (simp add: adj_of_def)
  note ps = cycle_packages_spec[OF p nil] and es = cycle_edges_spec[OF e]
  let ?S = "scope_paths glob roots (gr_Packages g) r"
  have adj: "cycle_adjacency glob roots g r = map (\<lambda>(k, ns). (k, sort ns)) adj'"
    by (simp add: cycle_adjacency_def p e)
  have key: "map_of byImport k \<noteq> None \<longleftrightarrow> k \<in> ?S" for k
    using ps(2) by (simp add: map_of_eq_None_iff)
  have succ: "set (adj_of (cycle_adjacency glob roots g r) y) =
      ed_ToImportPath ` {e \<in> set (gr_Edges g). cycle_edge byImport e \<and> ed_FromImportPath e = y}" for y
    unfolding adj adj_of_sorted using es(2)[of y] ps(3)[of y] by simp
  show "imports_of (cycle_adjacency glob roots g r) = scope_imports glob roots g r"
    unfolding imports_of_def succ scope_imports_def cycle_edge_def key by auto
  have "fst ` set (cycle_adjacency glob roots g r) = ?S"
    unfolding adj sorted_keys es(1) using ps(1) key by (auto simp: cycle_edge_def)
  then show "set (adj_of (cycle_adjacency glob roots g r) x) \<subseteq> fst ` set (cycle_adjacency glob roots g r)"
    unfolding succ using key by (auto simp: cycle_edge_def)
qed

lemma cycle_components:
  "\<exists>cs. strong_components (cycle_adjacency glob roots g r) = Some cs \<and> distinct (map set cs) \<and>
    (\<forall>c \<in> set cs. sorted c \<and> distinct c) \<and> set ` set cs = {C. cyclic_scc (scope_imports glob roots g r) C}"
  using strong_components_exact[of "cycle_adjacency glob roots g r"] cycle_adjacency_spec by simp

lemma cyclic_component:
  assumes "(x, x) \<in> R\<^sup>+"
  shows "cyclic_scc R {y. (x, y) \<in> R\<^sup>* \<and> (y, x) \<in> R\<^sup>*}"
proof -
  let ?C = "{y. (x, y) \<in> R\<^sup>* \<and> (y, x) \<in> R\<^sup>*}"
  have same: "?C = {z. (y, z) \<in> R\<^sup>* \<and> (z, y) \<in> R\<^sup>*}" if y: "y \<in> ?C" for y
  proof (intro equalityI subsetI CollectI conjI)
    fix z assume z: "z \<in> ?C"
    from y z show "(y, z) \<in> R\<^sup>*" by (blast intro: rtrancl_trans)
    from y z show "(z, y) \<in> R\<^sup>*" by (blast intro: rtrancl_trans)
  next
    fix z assume z: "z \<in> {z. (y, z) \<in> R\<^sup>* \<and> (z, y) \<in> R\<^sup>*}"
    from y z show "(x, z) \<in> R\<^sup>*" by (blast intro: rtrancl_trans)
    from y z show "(z, x) \<in> R\<^sup>*" by (blast intro: rtrancl_trans)
  qed
  have cyc: "(y, y) \<in> R\<^sup>+" if "y \<in> ?C" for y
    using rtrancl_trancl_trancl[OF _ trancl_rtrancl_trancl[OF assms]] that by blast
  have "x \<in> ?C" by simp
  then show ?thesis unfolding cyclic_scc_def scc_def using same cyc by blast
qed

lemma acyclic_components: "{C. cyclic_scc R C} = {} \<longleftrightarrow> acyclic R"
proof
  assume "{C. cyclic_scc R C} = {}"
  with cyclic_component[of _ R] show "acyclic R" unfolding acyclic_def by blast
next
  assume "acyclic R"
  then show "{C. cyclic_scc R C} = {}" unfolding acyclic_def cyclic_scc_def scc_def by blast
qed

lemma checkCycles_Nil:
  "(case checkCycles glob rg roots g r of Some fs \<Rightarrow> fs | None \<Rightarrow> []) = [] \<longleftrightarrow>
   acyclic (scope_imports glob roots g r)"
proof -
  obtain cs where cs: "strong_components (cycle_adjacency glob roots g r) = Some cs"
    "set ` set cs = {C. cyclic_scc (scope_imports glob roots g r) C}"
    using cycle_components by blast
  have "cs = [] \<longleftrightarrow> {C. cyclic_scc (scope_imports glob roots g r) C} = {}" using cs(2) by auto
  also have "\<dots> \<longleftrightarrow> acyclic (scope_imports glob roots g r)"
    by (rule acyclic_components)
  finally show ?thesis by (simp add: checkCycles_def cs(1) split: prod.splits)
qed

section \<open>What a rule asks for\<close>

text \<open>The requirement of a rule on a classified graph, without the order in which it is checked.\<close>

definition rule_met :: "(string \<Rightarrow> string \<Rightarrow> bool) \<Rightarrow> string list \<Rightarrow> Graph \<Rightarrow> Rule \<Rightarrow> bool" where
  "rule_met glob roots g r \<longleftrightarrow>
     (let packages = set (gr_Packages g); byImport = index_packages [] (gr_Packages g) in
      if ru_Kind r = ''coverage'' then \<forall>p \<in> packages. underRoots (pk_RelPath p) roots \<longrightarrow> pk_Component p \<noteq> []
      else if ru_Kind r = ''no-cycles'' then acyclic (scope_imports glob roots g r)
      else if ru_Kind r = ''required-dependency'' then
        \<forall>p \<in> packages. rule_scope glob roots r p \<longrightarrow>
          (if ru_Transitive r then reaches_match glob r byImport (gr_Edges g) p
           else satisfies glob r byImport (gr_Edges g) p)
      else if ru_Kind r = ''component-owns'' then
        \<forall>p \<in> packages. rule_scope glob roots r p \<longrightarrow> anyComponentTargetMatches (ru_Allow r) p
      else
        \<forall>e \<in> set (gr_Edges g). \<forall>p. map_of byImport (ed_FromImportPath e) = Some p \<longrightarrow>
          underRoots (pk_RelPath p) roots \<longrightarrow> \<not> bad_edge glob r e p (map_of byImport (ed_ToImportPath e)))"

lemma required_met:
  assumes "distinct (map pk_ImportPath packages)" and "p \<in> set packages"
  shows "requiredDependencyMatches glob p es (index_packages [] packages) r = Some True \<longleftrightarrow>
    (if ru_Transitive r then reaches_match glob r (index_packages [] packages) es p
     else satisfies glob r (index_packages [] packages) es p)"
proof -
  have "indexed (index_packages [] packages)" by (intro index_packages_indexed) (simp add: indexed_def)
  then show ?thesis using index_packages_lookup[OF assms]
    by (auto simp: requiredDependencyMatches_def required_search_exact satisfies_def list_ex_iff)
qed

lemma concat_problems_Nil: "concat (map f xs) = [] \<longleftrightarrow> (\<forall>x \<in> set xs. f x = [])"
  by auto

lemma rule_findings_Nil:
  assumes "distinct (map pk_ImportPath (gr_Packages g))"
  shows "rule_findings glob rg roots g (index_packages [] (gr_Packages g)) r = [] \<longleftrightarrow> rule_met glob roots g r"
proof -
  let ?k = "ru_Kind r"
  let ?by = "index_packages [] (gr_Packages g)"
  consider "?k = ''coverage''" | "?k = ''no-cycles''" | "?k = ''required-dependency''"
    | "?k = ''component-owns''"
    | (edges) "?k \<notin> {''coverage'', ''no-cycles'', ''required-dependency'', ''component-owns''}" by blast
  then show ?thesis
  proof cases
    case 1
    have "checkCoverage roots (gr_Packages g) r = [] \<longleftrightarrow>
        (\<forall>p \<in> set (gr_Packages g). underRoots (pk_RelPath p) roots \<longrightarrow> pk_Component p \<noteq> [])"
      unfolding checkCoverage_def concat_problems_Nil by auto
    with 1 show ?thesis by (simp add: rule_findings_def rule_met_def)
  next
    case 2
    then show ?thesis using checkCycles_Nil[of glob rg roots g r] by (simp add: rule_findings_def rule_met_def)
  next
    case 3
    have "checkRequiredDependencies glob roots g ?by r = [] \<longleftrightarrow>
        (\<forall>p \<in> set (gr_Packages g). rule_scope glob roots r p \<longrightarrow>
           requiredDependencyMatches glob p (gr_Edges g) ?by r = Some True)"
      unfolding checkRequiredDependencies_def concat_problems_Nil rule_scope_def by auto
    with 3 required_met[OF assms] show ?thesis by (simp add: rule_findings_def rule_met_def Let_def)
  next
    case 4
    have "checkComponentOwnership glob roots (gr_Packages g) r = [] \<longleftrightarrow>
        (\<forall>p \<in> set (gr_Packages g). rule_scope glob roots r p \<longrightarrow> anyComponentTargetMatches (ru_Allow r) p)"
      unfolding checkComponentOwnership_def concat_problems_Nil rule_scope_def by auto
    with 4 show ?thesis by (simp add: rule_findings_def rule_met_def)
  next
    case edges
    have "checkEdges glob roots g ?by r = [] \<longleftrightarrow>
        (\<forall>e \<in> set (gr_Edges g). \<forall>p. map_of ?by (ed_FromImportPath e) = Some p \<longrightarrow>
           underRoots (pk_RelPath p) roots \<longrightarrow> \<not> bad_edge glob r e p (map_of ?by (ed_ToImportPath e)))"
      unfolding checkEdges_def concat_problems_Nil by (auto simp: Let_def split: option.splits)
    with edges show ?thesis by (simp add: rule_findings_def rule_met_def Let_def)
  qed
qed

section \<open>What the findings of a rule carry\<close>

text \<open>A finding under a rule: it names the rule and its severity, and no waiver has touched it.\<close>

definition under :: "Rule \<Rightarrow> Finding \<Rightarrow> bool" where
  "under r f \<longleftrightarrow> fi_RuleID f = ru_ID r \<and> fi_Severity f = ru_Severity r \<and> raw f"

lemma rule_finding_under: "under r (rule_finding r text)"
  by (simp add: under_def rule_finding_def raw_def zero_finding_def)

lemma under_update [simp]:
  "under r (f\<lparr>fi_From := a\<rparr>) = under r f" "under r (f\<lparr>fi_To := b\<rparr>) = under r f"
  "under r (f\<lparr>fi_File := c\<rparr>) = under r f" "under r (f\<lparr>fi_Line := i\<rparr>) = under r f"
  "under r (f\<lparr>fi_FromComponent := c\<rparr>) = under r f" "under r (f\<lparr>fi_FromLabels := l\<rparr>) = under r f"
  "under r (f\<lparr>fi_ToComponent := c\<rparr>) = under r f" "under r (f\<lparr>fi_ToLabels := l\<rparr>) = under r f"
  by (simp_all add: under_def raw_def)

lemma under_decorated [simp]: "under r (decorateFinding f p q) = under r f"
  by (cases p; cases q; simp add: decorateFinding_def)

lemma under_problem: "f \<in> set (problem c x) \<Longrightarrow> under r x \<Longrightarrow> under r f"
  by (cases c) (simp_all add: problem_def)

lemma cycle_finding_under: "under r (cycle_finding r byImport edges c)"
  by (simp add: cycle_finding_def Let_def rule_finding_under split: option.splits)

lemma rule_findings_under:
  assumes "f \<in> set (rule_findings glob rg roots g byImport r)"
  shows "under r f"
proof -
  consider "f \<in> set (checkCoverage roots (gr_Packages g) r)"
    | "\<exists>fs. checkCycles glob rg roots g r = Some fs \<and> f \<in> set fs"
    | "f \<in> set (checkRequiredDependencies glob roots g byImport r)"
    | "f \<in> set (checkComponentOwnership glob roots (gr_Packages g) r)"
    | "f \<in> set (checkEdges glob roots g byImport r)"
    using assms unfolding rule_findings_def
    by (cases "checkCycles glob rg roots g r") (auto split: if_splits)
  then show ?thesis
  proof cases
    case 1
    then show ?thesis by (auto simp: checkCoverage_def rule_finding_under dest!: under_problem[where r = r] split: if_splits)
  next
    case 2
    then show ?thesis by (auto simp: checkCycles_def cycle_finding_under split: prod.splits)
  next
    case 3
    then show ?thesis
      by (auto simp: checkRequiredDependencies_def rule_finding_under dest!: under_problem[where r = r] split: if_splits)
  next
    case 4
    then show ?thesis
      by (auto simp: checkComponentOwnership_def rule_finding_under dest!: under_problem[where r = r] split: if_splits)
  next
    case 5
    then show ?thesis
      by (auto simp: checkEdges_def rule_finding_under Let_def dest!: under_problem[where r = r]
          split: if_splits option.splits)
  qed
qed

section \<open>Classification and the verdict\<close>

text \<open>How many components match a package, whatever the order of the map.\<close>

definition matching_components ::
  "(string \<Rightarrow> string \<Rightarrow> bool) \<Rightarrow> (string \<times> Component) list \<Rightarrow> Package \<Rightarrow> (string \<times> Component) list" where
  "matching_components glob components p =
     filter (\<lambda>(name, c). first_captures glob (cm_Match c) (pk_RelPath p) \<noteq> None) components"

lemma length_component_matches:
  assumes "fair rg"
  shows "length (component_matches glob rg components p) = length (matching_components glob components p)"
proof -
  let ?P = "\<lambda>(name, c). first_captures glob (cm_Match c) (pk_RelPath p) \<noteq> None"
  have "length (component_matches glob rg components p) = length (filter ?P (rg_components rg p components))"
    by (simp add: component_matches_def List.map_filter_def case_prod_unfold)
  also have "\<dots> = size (filter_mset ?P (mset (rg_components rg p components)))"
    by (metis mset_filter size_mset)
  also have "\<dots> = length (filter ?P components)"
    using assms unfolding fair_def by (metis mset_filter size_mset)
  finally show ?thesis by (simp add: matching_components_def)
qed

lemma classify_Nil:
  assumes "fair rg"
  shows "snd (Classify glob rg components ps) = [] \<longleftrightarrow>
    (\<forall>p \<in> set ps. length (matching_components glob components p) \<le> 1)"
  by (induction ps) (auto simp: Let_def length_component_matches[OF assms])

lemma classify_found:
  "f \<in> set (snd (Classify glob rg components ps)) \<Longrightarrow> raw f \<and> fi_Severity f = ''error''"
  by (induction ps)
    (auto simp: Let_def problem_def overlap_finding_def zero_finding_def raw_def split: if_splits)

lemma classify_paths:
  "map pk_ImportPath (fst (Classify glob rg components ps)) = map pk_ImportPath ps"
  by (induction ps) (auto simp: Let_def split: list.splits)

lemma found_raw: "f \<in> set (found glob rg p g) \<Longrightarrow> raw f"
  using classify_found rule_findings_under by (fastforce simp: found_def Let_def under_def)

lemma CheckGraph_Inr:
  assumes "CheckGraph glob rg absolute today root policyPath p (Some g) = Inr res"
  shows "OK res \<longleftrightarrow> (\<forall>f \<in> set (found glob rg p g). fi_Severity f = ''error'' \<longrightarrow>
      excused glob today (po_Waivers p) f)"
    and "mset (map unwaived (cr_Findings res)) = mset (found glob rg p g)"
proof -
  let ?w = "\<lambda>f. snd (waive glob today 0 (po_Waivers p) [] f)"
  have res: "cr_Findings res = sort_key finding_key (map ?w (found glob rg p g))"
    using assms applyWaivers_findings[of glob today "po_Waivers p" "found glob rg p g"]
    by (auto simp: CheckGraph_def Let_def split: sum.splits prod.splits)
  have "OK res \<longleftrightarrow> (\<forall>f \<in> set (found glob rg p g). \<not> blocking (?w f))"
    by (simp add: OK_def res list_ex_iff)
  then show "OK res \<longleftrightarrow> (\<forall>f \<in> set (found glob rg p g). fi_Severity f = ''error'' \<longrightarrow>
      excused glob today (po_Waivers p) f)"
    using waived_blocking found_raw by blast
  have "map unwaived (map ?w (found glob rg p g)) = found glob rg p g"
    using found_raw raw_unwaived waive_effect(2) by (simp add: map_idI)
  then show "mset (map unwaived (cr_Findings res)) = mset (found glob rg p g)"
    unfolding res by (metis mset_map mset_sort)
qed

text \<open>A policy is met when no package has two components and every rule of severity error is met
  on the classified graph.\<close>

definition policy_met :: "(string \<Rightarrow> string \<Rightarrow> bool) \<Rightarrow> ranges \<Rightarrow> Policy \<Rightarrow> Graph \<Rightarrow> bool" where
  "policy_met glob rg p g \<longleftrightarrow>
     (\<forall>q \<in> set (gr_Packages g). length (matching_components glob (po_Components p) q) \<le> 1) \<and>
     (\<forall>r \<in> set (po_Rules p). ru_Severity r = ''error'' \<longrightarrow>
        rule_met glob (so_Roots (po_Source p)) (classified glob rg p g) r)"

lemma unblocked_iff_met:
  assumes rg: "fair rg" and d: "distinct (map pk_ImportPath (gr_Packages g))"
  shows "(\<forall>f \<in> set (found glob rg p g). fi_Severity f \<noteq> ''error'') \<longleftrightarrow> policy_met glob rg p g"
proof -
  let ?g = "classified glob rg p g"
  let ?fs = "rule_findings glob rg (so_Roots (po_Source p)) ?g (index_packages [] (gr_Packages ?g))"
  have d': "distinct (map pk_ImportPath (gr_Packages ?g))"
    using d by (simp add: classified_def classify_paths)
  have set_found: "set (found glob rg p g) = set (snd (Classify glob rg (po_Components p) (gr_Packages g))) \<union>
      (\<Union>r \<in> set (po_Rules p). set (?fs r))"
    by (simp add: found_def Let_def)
  have overlap: "(\<forall>f \<in> set (snd (Classify glob rg (po_Components p) (gr_Packages g))).
      fi_Severity f \<noteq> ''error'') \<longleftrightarrow>
      (\<forall>q \<in> set (gr_Packages g). length (matching_components glob (po_Components p) q) \<le> 1)"
    using classify_Nil[OF rg, of glob "po_Components p" "gr_Packages g"] classify_found
    by (metis list.set(1) empty_iff list.set_sel(1))
  have rule: "(\<forall>f \<in> set (?fs r). fi_Severity f \<noteq> ''error'') \<longleftrightarrow>
      (ru_Severity r = ''error'' \<longrightarrow> rule_met glob (so_Roots (po_Source p)) ?g r)" for r
    using rule_findings_Nil[OF d', of glob rg "so_Roots (po_Source p)" r] rule_findings_under
    unfolding under_def by (metis list.set(1) empty_iff list.set_sel(1))
  show ?thesis unfolding policy_met_def set_found overlap[symmetric] rule[symmetric] by blast
qed

end
