(* ===== verification/PaddockProps.thy ===== *)
theory PaddockProps
  imports PaddockReport
begin

text \<open>
  The properties of the Paddock checker: what its patterns accept, what its searches report, and
  when a check passes.
\<close>

section \<open>Patterns\<close>

text \<open>C27. A path pattern accepts a path exactly when the path can be read as the pattern's
  segments in order, \<open>**\<close> standing for any number of segments, none included, and \<open>*\<close>,
  \<open>{key}\<close> and a glob for one; the captures the code returns are those of one such reading.
  The search for it therefore never misses a reading, although it backs off from a failing
  attempt by restoring the captures.\<close>

theorem pattern_decides_reading:
  "(matchPattern glob pattern v = None \<longleftrightarrow>
      \<not> (\<exists>c. path_match glob (splitPattern pattern) (splitPattern v) [] c)) \<and>
   (case matchPattern glob pattern v of
      None \<Rightarrow> True | Some c \<Rightarrow> path_match glob (splitPattern pattern) (splitPattern v) [] c)"
proof (cases "matchPattern glob pattern v")
  case None
  with match_complete show ?thesis unfolding matchPattern_def by fastforce
next
  case (Some c)
  with match_sound(1) show ?thesis unfolding matchPattern_def by fastforce
qed

section \<open>Required dependencies\<close>

text \<open>C26. The search for a required dependency ends, and answers reachability: in a graph whose
  packages have distinct import paths it finds a match exactly when a package that the start
  reaches over internal edges (the start itself without \<open>transitive\<close>) has an edge the rule's
  targets match, whatever cycles the graph has.\<close>

theorem required_dependency_is_reachability:
  assumes "distinct (map pk_ImportPath packages)" and "start \<in> set packages"
  shows "requiredDependencyMatches glob start es (index_packages [] packages) r =
    Some (if ru_Transitive r then reaches_match glob r (index_packages [] packages) es start
          else satisfies glob r (index_packages [] packages) es start)"
proof (cases "ru_Transitive r")
  case True
  have "map_of (index_packages [] packages) (pk_ImportPath start) = Some start"
    using index_packages_lookup[OF assms] .
  moreover have "indexed (index_packages [] packages)"
    by (intro index_packages_indexed) (simp add: indexed_def)
  ultimately show ?thesis using True by (simp add: requiredDependencyMatches_def required_search_exact)
next
  case False
  then show ?thesis
    by (simp add: requiredDependencyMatches_def satisfies_def list_ex_iff)
qed

text \<open>Two packages that import each other, the second one depending on \<open>log\<close>.\<close>

definition sample_package :: "string \<Rightarrow> Package" where
  "sample_package i = \<lparr>pk_ImportPath = i, pk_RelPath = i, pk_Component = [], pk_Labels = []\<rparr>"

definition sample_edge :: "string \<Rightarrow> string \<Rightarrow> string \<Rightarrow> Edge" where
  "sample_edge f t k =
     \<lparr>ed_FromImportPath = f, ed_FromPath = f, ed_ToImportPath = t, ed_ToPath = [], ed_Kind = ''import'', ed_TargetKind = k,
      ed_File = ''a.go'', ed_Line = 1\<rparr>"

definition sample_rule :: Rule where
  "sample_rule =
     \<lparr>ru_ID = ''r'', ru_Kind = ''required-dependency'', ru_Severity = ''error'', ru_From = [],
      ru_To = [], ru_Allow = [\<lparr>tg_Literal = ''log'', tg_Labels = [], tg_Path = [], tg_Kind = [],
      tg_Value = []\<rparr>], ru_Deny = [], ru_AllowTo = [], ru_Transitive = True, ru_Direction = [],
      ru_ContextLabel = [], ru_Message = []\<rparr>"

definition sample_edges :: "Edge list" where
  "sample_edges = [sample_edge ''a'' ''b'' ''internal'', sample_edge ''b'' ''a'' ''internal'',
     sample_edge ''b'' ''log'' ''external'']"

definition sample_packages :: "Package list" where
  "sample_packages = [sample_package ''a'', sample_package ''b'']"

lemma sample_search:
  "requiredDependencyMatches (\<lambda>_ _. False) (sample_package ''a'') sample_edges
     (index_packages [] sample_packages) sample_rule = Some True"
  by code_simp

theorem required_dependency_is_reachability_witness:
  "reaches_match (\<lambda>_ _. False) sample_rule (index_packages [] sample_packages) sample_edges
     (sample_package ''a'')"
  using required_dependency_is_reachability
    [of sample_packages "sample_package ''a''" "\<lambda>_ _. False" sample_edges sample_rule]
  by (simp only: sample_search) (simp add: sample_packages_def sample_package_def sample_rule_def)

section \<open>Cycles\<close>

text \<open>C3. The cycle rule reports exactly the import cycles in its scope: the search ends, and it
  makes one finding for each strongly connected component of the internal imports between the
  selected packages that holds a cycle (a package importing itself included), none for the others,
  with the import paths of the component in sorted order.\<close>

theorem cycle_report_exact:
  "\<exists>cs. checkCycles glob rg roots g r =
      Some (map (cycle_finding r (snd (cycle_packages glob roots r [] [] (gr_Packages g)))
        (rg_edges rg (snd (cycle_edges (snd (cycle_packages glob roots r [] [] (gr_Packages g)))
           (fst (cycle_packages glob roots r [] [] (gr_Packages g))) [] (gr_Edges g))))) cs) \<and>
    distinct (map set cs) \<and> list_all (\<lambda>c. sorted c \<and> distinct c) cs \<and>
    set ` set cs = {C. cyclic_scc (scope_imports glob roots g r) C}"
  using cycle_components[of glob roots g r] by (auto simp: checkCycles_def list_all_iff case_prod_beta)

section \<open>The verdict\<close>

text \<open>C28. A check passes exactly when every finding of severity error is excused, that is when the
  first waiver that names its rule and matches where it is has not expired: an expired waiver
  before a valid one does not excuse it.  The report lists every finding made, each once, with
  nothing changed but the waiver's fields.\<close>

theorem verdict_after_waivers:
  assumes "CheckGraph glob rg absolute today root policyPath p (Some g) = Inr res"
  shows "(OK res \<longleftrightarrow> (\<forall>f \<in> set (found glob rg p g). fi_Severity f = ''error'' \<longrightarrow>
      excused glob today (po_Waivers p) f)) \<and>
    mset (map unwaived (cr_Findings res)) = mset (found glob rg p g)"
  using CheckGraph_Inr[OF assms] by blast

text \<open>C2. Without waivers the verdict is the policy: a check passes exactly when no package is
  matched by two components and every rule of severity error is met by the classified graph, as
  \<open>rule_met\<close> states it, whatever the order of the maps and with the searches of the required
  dependencies and of the cycles replaced by reachability and acyclicity.\<close>

theorem verdict_is_policy:
  assumes "CheckGraph glob rg absolute today root policyPath p (Some g) = Inr res"
    and "po_Waivers p = []" and "fair rg" and "distinct (map pk_ImportPath (gr_Packages g))"
  shows "OK res \<longleftrightarrow> policy_met glob rg p g"
proof -
  have "\<not> excused glob today (po_Waivers p) f" for f using assms(2) by (simp add: excused_def waiver_for_def)
  with CheckGraph_Inr(1)[OF assms(1)] unblocked_iff_met[OF assms(3,4)] show ?thesis by blast
qed

text \<open>The cyclic sample graph under a cycle rule, without a waiver and with one.\<close>

definition sample_ranges :: ranges where
  "sample_ranges = \<lparr>rg_components = \<lambda>_ m. m, rg_captures = \<lambda>m. m, rg_edges = \<lambda>m. m\<rparr>"

definition sample_policy :: "Waiver list \<Rightarrow> Policy" where
  "sample_policy ws =
     \<lparr>po_Schema = ''paddock.architecture/v1'', po_Project = ''p'',
      po_Source = \<lparr>so_Language = ''go'', so_Roots = [''a'', ''b''], so_Unit = ''package'',
        so_Include = [], so_Exclude = []\<rparr>,
      po_Components = [(''all'', \<lparr>cm_Match = [''{name}''], cm_Labels = [(''role'', ''{name}'')]\<rparr>)],
      po_Rules = [sample_rule\<lparr>ru_ID := ''cycles'', ru_Kind := ''no-cycles'', ru_Allow := [],
        ru_Transitive := False\<rparr>],
      po_Waivers = ws\<rparr>"

definition sample_waiver :: Waiver where
  "sample_waiver = \<lparr>wv_Rule = ''cycles'', wv_From = ''a'', wv_To = [], wv_Reason = ''r'',
     wv_Owner = ''o'', wv_Expires = ''2030-01-01''\<rparr>"

definition sample_graph :: Graph where
  "sample_graph = \<lparr>gr_ModulePath = ''m'', gr_Packages = sample_packages, gr_Edges = sample_edges\<rparr>"

definition sample_check :: "Waiver list \<Rightarrow> string + CheckResult" where
  "sample_check ws = CheckGraph (\<lambda>_ _. False) sample_ranges Inr ''2026-01-01'' ''.'' ''policy.yaml''
     (sample_policy ws) (Some sample_graph)"

definition sample_result :: "Waiver list \<Rightarrow> CheckResult" where
  "sample_result ws = (case sample_check ws of Inr res \<Rightarrow> res | Inl err \<Rightarrow> undefined)"

lemma sample_check_Inr: "sample_check ws = Inr (sample_result ws)"
  by (simp add: sample_check_def sample_result_def CheckGraph_def Let_def split: prod.splits)

lemma sample_verdicts: "OK (sample_result [sample_waiver])" "\<not> OK (sample_result [])"
  by code_simp+

theorem verdict_after_waivers_witness:
  "list_all (\<lambda>f. \<not> (fi_Severity f = ''error'' \<and>
      \<not> excused (\<lambda>_ _. False) ''2026-01-01'' [sample_waiver] f))
     (found (\<lambda>_ _. False) sample_ranges (sample_policy [sample_waiver]) sample_graph)"
  using verdict_after_waivers[OF sample_check_Inr[unfolded sample_check_def], of "[sample_waiver]"]
    sample_verdicts(1) unfolding list_all_iff by (simp add: sample_policy_def)

theorem verdict_is_policy_witness:
  "\<not> policy_met (\<lambda>_ _. False) sample_ranges (sample_policy []) sample_graph"
  using verdict_is_policy[OF sample_check_Inr[unfolded sample_check_def], of "[]"] sample_verdicts(2)
  by (simp add: sample_policy_def sample_ranges_def fair_def sample_graph_def sample_packages_def
      sample_package_def)

section \<open>Two departures\<close>

text \<open>A target given as the text \<open>external:name\<close> matches every external import: the name is not
  read.  Written as a mapping, \<open>external: name\<close>, it is.\<close>

lemma external_literal_ignores_name:
  "targetMatches glob \<lparr>tg_Literal = external_prefix @ name, tg_Labels = [], tg_Path = [], tg_Kind = [],
     tg_Value = []\<rparr> e from to \<longleftrightarrow> ed_TargetKind e = ''external''"
  by (simp add: targetMatches_def external_prefix_def std_prefix_def has_prefix_def)

text \<open>A captured segment that is itself in braces is substituted or not, depending on the order in
  which the runtime delivers the captures.\<close>

lemma substitution_depends_on_order:
  "Substitute ''{a}'' [(''a'', ''{b}''), (''b'', ''x'')] \<noteq> Substitute ''{a}'' [(''b'', ''x''), (''a'', ''{b}'')]"
  by code_simp

end
