(* ===== verification/SattlerChange.thy ===== *)
theory SattlerChange
  imports CIResult
begin

text \<open>
  sattler/change.go, identity.go, summary.go, transition.go, filter.go and the part of bundle.go
  that every comparison shares: an observable change with its stable identifier, the identity of
  two file references, the counts of changes by category, the transition of the primary state, the
  fields all five comparison reports have and their validation.

  \<open>json.Marshal\<close> of the small values a change holds is the argument \<open>marshal\<close>, which yields no
  encoding when it fails.  On a \<open>ChangeSummary\<close> it cannot fail and writes the entries of the map
  sorted by key, so equality of encodings is written out.  A Go \<open>int\<close> is an \<open>int\<close>; the sums that
  a validation takes over numbers it was given wrap at 64 bits.  A reason or a warning is a
  \<open>message\<close>: it is blank when its literal parts are, since a quoted string and a number are never
  blank.
\<close>

section \<open>64-bit sums\<close>

definition wrap64 :: "int \<Rightarrow> int" where
  "wrap64 x = (x + 2 ^ 63) mod 2 ^ 64 - 2 ^ 63"

lemma wrap64_id: "0 \<le> x \<Longrightarrow> x < 2 ^ 63 \<Longrightarrow> wrap64 x = x"
  by (simp add: wrap64_def)

lemma wrap64_add [simp]: "wrap64 (wrap64 x + y) = wrap64 (x + y)"
  unfolding wrap64_def by (simp add: mod_simps algebra_simps)

lemma wrap64_add_right [simp]: "wrap64 (x + wrap64 y) = wrap64 (x + y)"
  using wrap64_add[of y x] by (simp add: add.commute)

definition sum_wrap :: "int list \<Rightarrow> int" where
  "sum_wrap xs = foldl (\<lambda>total count. wrap64 (total + count)) 0 xs"

lemma foldl_wrap: "foldl (\<lambda>total count. wrap64 (total + count)) (wrap64 t) xs = wrap64 (t + sum_list xs)"
  by (induction xs arbitrary: t) (simp_all add: add.assoc)

lemma sum_wrap_eq: "sum_wrap xs = wrap64 (sum_list xs)"
  using foldl_wrap[of 0 xs] by (simp add: sum_wrap_def wrap64_id)

lemma sum_wrap_exact: "0 \<le> sum_list xs \<Longrightarrow> sum_list xs < 2 ^ 63 \<Longrightarrow> sum_wrap xs = sum_list xs"
  by (simp add: sum_wrap_eq wrap64_id)

section \<open>Blank messages\<close>

fun frag_blank :: "frag \<Rightarrow> bool" where
  "frag_blank (T s) = blank s"
| "frag_blank (Q s) = False"
| "frag_blank (D i) = False"

definition message_blank :: "message \<Rightarrow> bool" where
  "message_blank m = list_all frag_blank m"

lemma message_blank_Cons [simp]: "message_blank (f # m) \<longleftrightarrow> frag_blank f \<and> message_blank m"
  by (simp add: message_blank_def)

text \<open>A text that begins with a plain byte, and one that continues such a text.\<close>

lemma plain_head_not_blank: "plain_byte c \<Longrightarrow> \<not> blank (c # s)"
  using plain_not_blank[of c "c # s"] by simp

section \<open>Changes\<close>

record NublarCheckSummary =
  nk_Tool :: string
  nk_Required :: bool
  nk_Status :: string
  nk_Reason :: string

record NublarCorrelationSummary =
  nc_System :: string
  nc_ID :: string
  nc_Attempt :: int

text \<open>The values the adapters hand to a change of type \<open>any\<close>.\<close>

datatype Value =
    VNil
  | VString string
  | VInt int
  | VFileRef FileRef
  | VFingerprint bool string
  | VCheck NublarCheckSummary
  | VCorrelation NublarCorrelationSummary
  | VOracle string string
  | VMutation string string
  | VState string string

record Change =
  ch_ID :: string
  ch_Category :: string
  ch_Field :: string
  ch_Before :: Value
  ch_After :: Value
  ch_Identity :: string

definition StableChangeID :: "string \<Rightarrow> string \<Rightarrow> string" where
  "StableChangeID category field = category @ ''.'' @ field"

definition NewChange :: "string \<Rightarrow> string \<Rightarrow> Value \<Rightarrow> Value \<Rightarrow> Change" where
  "NewChange category field before after =
     \<lparr>ch_ID = StableChangeID category field, ch_Category = category, ch_Field = field,
      ch_Before = before, ch_After = after, ch_Identity = []\<rparr>"

definition StableID :: "Change \<Rightarrow> string" where
  "StableID c = (if ch_ID c \<noteq> [] then ch_ID c else StableChangeID (ch_Category c) (ch_Field c))"

definition valuesEqual :: "(Value \<Rightarrow> 'j option) \<Rightarrow> Value \<Rightarrow> Value \<Rightarrow> bool" where
  "valuesEqual marshal before after =
     (case (marshal before, marshal after) of
        (Some x, Some y) \<Rightarrow> x = y
      | _ \<Rightarrow> False)"

section \<open>Identity of artifacts\<close>

abbreviation ArtifactIdentitySameBytes :: string where "ArtifactIdentitySameBytes \<equiv> ''same-bytes''"
abbreviation ArtifactIdentityReplaced :: string where "ArtifactIdentityReplaced \<equiv> ''replaced''"
abbreviation ArtifactIdentityAdded :: string where "ArtifactIdentityAdded \<equiv> ''added''"
abbreviation ArtifactIdentityRemoved :: string where "ArtifactIdentityRemoved \<equiv> ''removed''"
abbreviation ArtifactIdentityUnknown :: string where "ArtifactIdentityUnknown \<equiv> ''unknown''"

definition CompareArtifactDigests :: "string \<Rightarrow> string \<Rightarrow> string" where
  "CompareArtifactDigests before after =
     (if before = [] \<and> after = [] then []
      else if before = [] then ArtifactIdentityAdded
      else if after = [] then ArtifactIdentityRemoved
      else if before = after then ArtifactIdentitySameBytes
      else ArtifactIdentityReplaced)"

definition CompareArtifactIdentity :: "FileRef option \<Rightarrow> FileRef option \<Rightarrow> string" where
  "CompareArtifactIdentity before after =
     (case (before, after) of
        (None, None) \<Rightarrow> []
      | (None, Some _) \<Rightarrow> ArtifactIdentityAdded
      | (Some _, None) \<Rightarrow> ArtifactIdentityRemoved
      | (Some b, Some a) \<Rightarrow>
          if fr_SHA256 b = [] \<or> fr_SHA256 a = [] then ArtifactIdentityUnknown
          else CompareArtifactDigests (fr_SHA256 b) (fr_SHA256 a))"

definition known_identity :: "string \<Rightarrow> bool" where
  "known_identity i \<longleftrightarrow>
     i \<in> {[], ArtifactIdentitySameBytes, ArtifactIdentityReplaced, ArtifactIdentityAdded,
          ArtifactIdentityRemoved, ArtifactIdentityUnknown}"

lemma known_digests [simp]: "known_identity (CompareArtifactDigests b a)"
  by (simp add: CompareArtifactDigests_def known_identity_def)

lemma known_Nil [simp]: "known_identity []"
  by (simp add: known_identity_def)

lemma known_relation [simp]: "known_identity (CompareArtifactIdentity b a)"
  using known_digests by (auto simp: CompareArtifactIdentity_def known_identity_def split: option.split)

section \<open>Counts by category\<close>

record ChangeSummary =
  sm_Total :: int
  sm_ByCategory :: "(string, int) gomap"

text \<open>\<open>m[k]++\<close> on a map of counters.\<close>

definition bump :: "'k \<Rightarrow> ('k, int) gomap \<Rightarrow> ('k, int) gomap" where
  "bump k m = map_set k ((case map_of m k of None \<Rightarrow> 0 | Some n \<Rightarrow> n) + 1) m"

definition tally :: "'k list \<Rightarrow> ('k, int) gomap" where
  "tally ks = foldl (\<lambda>m k. bump k m) [] ks"

definition SummarizeChanges :: "Change list \<Rightarrow> ChangeSummary" where
  "SummarizeChanges changes =
     \<lparr>sm_Total = int (length changes), sm_ByCategory = tally (map ch_Category changes)\<rparr>"

definition category_problem :: "string \<times> int \<Rightarrow> message option" where
  "category_problem x =
     first_some
       [fail_if (blank (fst x)) [T ''change summary category must not be empty''],
        fail_if (snd x < 0) [T ''change summary category '', Q (fst x), T '' count must not be negative'']]"

definition ChangeSummary_Validate :: "ChangeSummary \<Rightarrow> message option" where
  "ChangeSummary_Validate s =
     first_some
       [fail_if (sm_Total s < 0) [T ''change summary total must not be negative''],
        first_error category_problem (sm_ByCategory s),
        fail_if (sum_wrap (map snd (sm_ByCategory s)) \<noteq> sm_Total s)
          [T ''change summary category counts must equal total'']]"

text \<open>\<open>valuesEqual\<close> on two summaries: the encodings agree when the totals do and the maps have the
  same entries, which the encoder writes sorted by key.\<close>

definition same_counts :: "(string, int) gomap \<Rightarrow> (string, int) gomap \<Rightarrow> bool" where
  "same_counts a b \<longleftrightarrow> sort_key fst a = sort_key fst b"

definition summariesEqual :: "ChangeSummary \<Rightarrow> ChangeSummary \<Rightarrow> bool" where
  "summariesEqual a b \<longleftrightarrow> sm_Total a = sm_Total b \<and> same_counts (sm_ByCategory a) (sm_ByCategory b)"

lemma same_counts_refl [simp]: "same_counts a a"
  by (simp add: same_counts_def)

lemma summariesEqual_refl [simp]: "summariesEqual s s"
  by (simp add: summariesEqual_def)

subsection \<open>A tally counts\<close>

lemma map_of_bump: "map_of (bump k m) = (map_of m)(k \<mapsto> (case map_of m k of None \<Rightarrow> 0 | Some n \<Rightarrow> n) + 1)"
  by (simp add: bump_def)

lemma tally_snoc: "tally (ks @ [k]) = bump k (tally ks)"
  by (simp add: tally_def)

lemma tally_Nil [simp]: "tally [] = []"
  by (simp add: tally_def)

lemma tally_wf [simp]: "map_wf (tally ks)"
  by (induction ks rule: rev_induct) (simp_all add: tally_snoc bump_def)

lemma map_of_tally: "map_of (tally ks) k = (if k \<in> set ks then Some (int (count_list ks k)) else None)"
proof (induction ks rule: rev_induct)
  case (snoc x xs)
  then show ?case by (auto simp: tally_snoc map_of_bump)
qed simp

lemma tally_keys: "fst ` set (tally ks) = set ks"
  by (induction ks rule: rev_induct) (auto simp: tally_snoc bump_def)

lemma tally_entry: "x \<in> set (tally ks) \<Longrightarrow> fst x \<in> set ks \<and> snd x = int (count_list ks (fst x))"
proof -
  assume x: "x \<in> set (tally ks)"
  have "map_of (tally ks) (fst x) = Some (snd x)"
    using x tally_wf[of ks] by (simp add: map_wf_def)
  then show ?thesis by (simp add: map_of_tally split: if_splits)
qed

lemma sum_map_set:
  "map_wf m \<Longrightarrow> sum_list (map snd (map_set k (v :: int) m)) =
     sum_list (map snd m) + v - (case map_of m k of None \<Rightarrow> 0 | Some n \<Rightarrow> n)"
proof (induction k v m rule: map_set.induct)
  case (2 k v k' v' m)
  have "map_of m k = None" if "k = k'"
    using 2(2) that by (simp add: map_wf_def map_of_eq_None_iff)
  with 2 show ?case by (auto simp: map_wf_def)
qed simp

lemma sum_tally: "sum_list (map snd (tally ks)) = int (length ks)"
proof (induction ks rule: rev_induct)
  case (snoc x xs)
  then show ?case by (simp add: tally_snoc bump_def sum_map_set)
qed simp

lemma SummarizeChanges_valid:
  assumes "int (length changes) < 2 ^ 63" and "\<forall>c \<in> set changes. \<not> blank (ch_Category c)"
  shows "ChangeSummary_Validate (SummarizeChanges changes) = None"
proof -
  have "category_problem x = None" if "x \<in> set (tally (map ch_Category changes))" for x
    using tally_entry[OF that] assms(2) by (auto simp: category_problem_def check_simps)
  then show ?thesis
    using assms(1) by (simp add: ChangeSummary_Validate_def SummarizeChanges_def check_simps sum_tally sum_wrap_exact)
qed

lemma SummarizeChanges_Total [simp]: "sm_Total (SummarizeChanges changes) = int (length changes)"
  by (simp add: SummarizeChanges_def)


section \<open>Stable identifiers\<close>

lemma NewChange_simps [simp]:
  "ch_ID (NewChange c f x y) = StableChangeID c f" "ch_Category (NewChange c f x y) = c"
  "ch_Field (NewChange c f x y) = f" "ch_Identity (NewChange c f x y) = []"
  "ch_Before (NewChange c f x y) = x" "ch_After (NewChange c f x y) = y"
  by (simp_all add: NewChange_def)

lemma plain_dot: "plain_byte CHR ''.''"
  by (simp add: plain_byte_def byte_def)

lemma StableChangeID_not_blank [simp]: "\<not> blank (StableChangeID c f)"
  using plain_not_blank[OF plain_dot] by (simp add: StableChangeID_def)

lemma StableChangeID_nonempty [simp]: "StableChangeID c f \<noteq> []" "[] \<noteq> StableChangeID c f"
  by (simp_all add: StableChangeID_def)

text \<open>The identifier of a category without a dot determines category and field.\<close>

lemma StableChangeID_inj:
  "CHR ''.'' \<notin> set c \<Longrightarrow> CHR ''.'' \<notin> set c' \<Longrightarrow> StableChangeID c f = StableChangeID c' f' \<longleftrightarrow> c = c' \<and> f = f'"
proof (induction c arbitrary: c')
  case Nil
  then show ?case by (cases c') (auto simp: StableChangeID_def)
next
  case (Cons x c)
  then show ?case by (cases c') (auto simp: StableChangeID_def)
qed

section \<open>Transitions of the primary state\<close>

abbreviation TransitionUnchanged :: string where "TransitionUnchanged \<equiv> ''unchanged''"
abbreviation TransitionChanged :: string where "TransitionChanged \<equiv> ''changed''"
abbreviation TransitionIncompatible :: string where "TransitionIncompatible \<equiv> ''incompatible''"

record StateTransition =
  tr_Field :: string
  tr_Before :: string
  tr_After :: string
  tr_Classification :: string

definition StateTransition_Validate :: "StateTransition \<Rightarrow> message option" where
  "StateTransition_Validate t =
     (if tr_Field t = [] \<or> tr_Before t = [] \<or> tr_After t = []
      then Some [T ''state transition needs field, before, and after'']
      else fail_if (tr_Classification t \<notin> {TransitionUnchanged, TransitionChanged, TransitionIncompatible})
             [T ''state transition has unsupported classification '', Q (tr_Classification t)])"

definition NewStateTransition :: "string \<Rightarrow> string \<Rightarrow> string \<Rightarrow> bool \<Rightarrow> StateTransition" where
  "NewStateTransition field before after compatible =
     \<lparr>tr_Field = field, tr_Before = before, tr_After = after,
      tr_Classification = (if \<not> compatible then TransitionIncompatible
                           else if before \<noteq> after then TransitionChanged
                           else TransitionUnchanged)\<rparr>"

lemma NewStateTransition_simps [simp]:
  "tr_Field (NewStateTransition f b a c) = f" "tr_Before (NewStateTransition f b a c) = b"
  "tr_After (NewStateTransition f b a c) = a"
  by (simp_all add: NewStateTransition_def)

lemma NewStateTransition_valid [simp]:
  "StateTransition_Validate (NewStateTransition f b a c) = None \<longleftrightarrow> f \<noteq> [] \<and> b \<noteq> [] \<and> a \<noteq> []"
  by (auto simp: StateTransition_Validate_def NewStateTransition_def)

section \<open>The fields all comparison reports have\<close>

record SharedReport =
  rt_Schema :: string
  rt_Compatible :: bool
  rt_Reasons :: "message list"
  rt_Transition :: StateTransition
  rt_Filter :: "string list"
  rt_Changes :: "Change list"
  rt_Summary :: ChangeSummary

definition validateBundleStringList :: "string list \<Rightarrow> string \<Rightarrow> message option" where
  "validateBundleStringList values name =
     first_error (\<lambda>v. fail_if (blank v) [T name, T '' cannot contain an empty value'']) values"

text \<open>The loop over the changes: \<open>i\<close> is the index and \<open>seen\<close> holds the identifiers so far.\<close>

fun envelope_changes :: "string \<Rightarrow> nat \<Rightarrow> string list \<Rightarrow> Change list \<Rightarrow> message option" where
  "envelope_changes name i seen [] = None"
| "envelope_changes name i seen (c # cs) =
     (case first_some
             [fail_if (blank (ch_Category c) \<or> blank (ch_Field c) \<or> blank (ch_ID c))
                [T ''bundle comparison '', T name, T '' changes['', D (int i), T ''] needs a category, field, and stable ID''],
              fail_if (StableID c \<noteq> StableChangeID (ch_Category c) (ch_Field c))
                [T ''bundle comparison '', T name, T '' changes['', D (int i), T ''] has an invalid stable ID '', Q (ch_ID c)],
              fail_if (ch_ID c \<in> set seen)
                [T ''bundle comparison '', T name, T '' change ID '', Q (ch_ID c), T '' is duplicated''],
              fail_if (\<not> known_identity (ch_Identity c))
                [T ''bundle comparison '', T name, T '' change identity '', Q (ch_Identity c), T '' is unsupported'']] of
        Some err \<Rightarrow> Some err
      | None \<Rightarrow> envelope_changes name (Suc i) (ch_ID c # seen) cs)"

definition validateBundleAdapterEnvelope :: "string \<Rightarrow> string \<Rightarrow> 'a SharedReport_scheme \<Rightarrow> message list \<Rightarrow> message option" where
  "validateBundleAdapterEnvelope name expectedSchema r warnings =
     first_some
       [fail_if (rt_Schema r \<noteq> expectedSchema)
          [T ''bundle comparison '', T name, T '' schema must be '', T expectedSchema, T '', got '', Q (rt_Schema r)],
        validateBundleStringList (rt_Filter r) (name @ '' change ID filter''),
        wrap_err (\<lambda>err. [T ''bundle comparison '', T name, T '' transition: ''] @ err)
          (StateTransition_Validate (rt_Transition r)),
        fail_if (\<not> rt_Compatible r \<and> rt_Reasons r = [])
          [T ''bundle comparison '', T name, T '' incompatible result needs a compatibility reason''],
        fail_if (rt_Compatible r \<and> rt_Reasons r \<noteq> [])
          [T ''bundle comparison '', T name, T '' compatible result cannot have compatibility reasons''],
        first_error (\<lambda>m. fail_if (message_blank m)
          [T ''bundle comparison '', T name, T '' compatibility reasons cannot be empty'']) (rt_Reasons r),
        first_error (\<lambda>m. fail_if (message_blank m)
          [T ''bundle comparison '', T name, T '' warnings cannot be empty'']) warnings,
        wrap_err (\<lambda>err. [T ''bundle comparison '', T name, T '' change summary: ''] @ err)
          (ChangeSummary_Validate (rt_Summary r)),
        fail_if (sm_Total (rt_Summary r) \<noteq> int (length (rt_Changes r)) \<or>
                 \<not> summariesEqual (rt_Summary r) (SummarizeChanges (rt_Changes r)))
          [T ''bundle comparison '', T name, T '' change summary does not match changes''],
        envelope_changes name 0 [] (rt_Changes r)]"

section \<open>Well-formed changes\<close>

definition change_wf :: "Change \<Rightarrow> bool" where
  "change_wf c \<longleftrightarrow>
     ch_ID c = StableChangeID (ch_Category c) (ch_Field c) \<and> \<not> blank (ch_Category c) \<and>
     \<not> blank (ch_Field c) \<and> known_identity (ch_Identity c)"

definition changes_wf :: "Change list \<Rightarrow> bool" where
  "changes_wf cs \<longleftrightarrow> (\<forall>c \<in> set cs. change_wf c) \<and> distinct (map ch_ID cs)"

lemma change_wf_StableID: "change_wf c \<Longrightarrow> StableID c = ch_ID c"
  by (simp add: change_wf_def StableID_def)

lemma envelope_changes_None:
  "envelope_changes name i seen cs = None \<longleftrightarrow>
     (\<forall>c \<in> set cs. change_wf c) \<and> distinct (map ch_ID cs) \<and> set seen \<inter> ch_ID ` set cs = {}"
proof (induction name i seen cs rule: envelope_changes.induct)
  case (2 name i seen c cs)
  have "blank (ch_Category c) \<or> blank (ch_Field c) \<or> blank (ch_ID c) \<or>
      StableID c \<noteq> StableChangeID (ch_Category c) (ch_Field c) \<or> \<not> known_identity (ch_Identity c) \<longleftrightarrow>
      \<not> change_wf c"
    by (auto simp: change_wf_def StableID_def)
  then show ?case
    using 2 by (auto simp: first_some_Cons_None split: option.split)
qed simp

text \<open>What the shared part of a report must satisfy, without the order of the checks.\<close>

definition report_wf :: "string \<Rightarrow> 'a SharedReport_scheme \<Rightarrow> bool" where
  "report_wf schema r \<longleftrightarrow>
     rt_Schema r = schema \<and> rt_Compatible r = (rt_Reasons r = []) \<and>
     (\<forall>m \<in> set (rt_Reasons r). \<not> message_blank m) \<and> changes_wf (rt_Changes r) \<and>
     rt_Summary r = SummarizeChanges (rt_Changes r) \<and> (\<forall>f \<in> set (rt_Filter r). \<not> blank f) \<and>
     int (length (rt_Changes r)) < 2 ^ 63"

lemma report_wf_valid:
  assumes "report_wf schema r" and "\<forall>w \<in> set warnings. \<not> message_blank w"
  shows "validateBundleAdapterEnvelope name schema r warnings = None \<longleftrightarrow>
         StateTransition_Validate (rt_Transition r) = None"
proof -
  have "ChangeSummary_Validate (rt_Summary r) = None"
    using assms(1) SummarizeChanges_valid[of "rt_Changes r"]
    by (simp add: report_wf_def changes_wf_def change_wf_def)
  with assms show ?thesis
    by (auto simp: validateBundleAdapterEnvelope_def report_wf_def changes_wf_def check_simps
        validateBundleStringList_def envelope_changes_None)
qed


section \<open>Observing fields\<close>

text \<open>The closure \<open>add\<close> of the adapters: a change is appended unless the two values are equal; an
  adapter that relates artifacts stores their relation in it.\<close>

type_synonym observation = "string \<times> string \<times> Value \<times> Value \<times> string"

definition observe :: "(Value \<Rightarrow> 'j option) \<Rightarrow> observation \<Rightarrow> Change list" where
  "observe marshal ob =
     (case ob of (category, field, old, new, identity) \<Rightarrow>
        if valuesEqual marshal old new then []
        else [(NewChange category field old new)\<lparr>ch_Identity := identity\<rparr>])"

definition observe_all :: "(Value \<Rightarrow> 'j option) \<Rightarrow> observation list \<Rightarrow> Change list" where
  "observe_all marshal obs = concat (map (observe marshal) obs)"

definition ob_id :: "observation \<Rightarrow> string" where
  "ob_id ob = StableChangeID (fst ob) (fst (snd ob))"

text \<open>Observations of different fields, each named.\<close>

definition ob_named :: "observation \<Rightarrow> bool" where
  "ob_named ob =
     (case ob of (category, field, old, new, identity) \<Rightarrow>
        \<not> blank category \<and> \<not> blank field \<and> known_identity identity)"

definition obs_wf :: "observation list \<Rightarrow> bool" where
  "obs_wf obs \<longleftrightarrow> distinct (map ob_id obs) \<and> (\<forall>ob \<in> set obs. ob_named ob)"

lemma observe_all_simps [simp]:
  "observe_all marshal [] = []"
  "observe_all marshal (ob # obs) = observe marshal ob @ observe_all marshal obs"
  "observe_all marshal (xs @ ys) = observe_all marshal xs @ observe_all marshal ys"
  by (simp_all add: observe_all_def)

lemma observe_ids: "observe marshal ob = [] \<or> (\<exists>c. observe marshal ob = [c] \<and> ch_ID c = ob_id ob)"
  by (cases ob) (simp add: observe_def ob_id_def)

lemma observe_id: "c \<in> set (observe marshal ob) \<Longrightarrow> ch_ID c = ob_id ob"
  using observe_ids[of marshal ob] by auto

lemma observe_all_ids: "ch_ID ` set (observe_all marshal obs) \<subseteq> ob_id ` set obs"
  by (auto simp: observe_all_def observe_id)

lemma observe_all_length: "length (observe_all marshal obs) \<le> length obs"
  by (induction obs) (auto simp: observe_def split: prod.split)

lemma observe_all_distinct:
  "distinct (map ob_id obs) \<Longrightarrow> distinct (map ch_ID (observe_all marshal obs))"
proof (induction obs)
  case (Cons ob obs)
  from Cons.prems have "ob_id ob \<notin> ob_id ` set obs" by simp
  then have "ob_id ob \<notin> ch_ID ` set (observe_all marshal obs)" using observe_all_ids[of marshal obs] by blast
  moreover from Cons have "distinct (map ch_ID (observe_all marshal obs))" by simp
  ultimately show ?case using observe_ids[of marshal ob] by (elim disjE exE conjE) simp_all
qed simp

lemma observe_all_wf: "obs_wf obs \<Longrightarrow> changes_wf (observe_all marshal obs)"
proof -
  assume wf: "obs_wf obs"
  have "change_wf c" if "c \<in> set (observe_all marshal obs)" for c
  proof -
    from that obtain ob where ob: "ob \<in> set obs" and c: "c \<in> set (observe marshal ob)"
      by (auto simp: observe_all_def)
    obtain category field old new identity where o: "ob = (category, field, old, new, identity)"
      by (cases ob)
    from wf ob have "\<not> blank category \<and> \<not> blank field \<and> known_identity identity"
      unfolding obs_wf_def o ob_named_def by auto
    with c show ?thesis by (simp add: observe_def o change_wf_def split: if_splits)
  qed
  with wf show ?thesis by (simp add: changes_wf_def observe_all_distinct obs_wf_def)
qed

lemma obs_wf_append:
  "obs_wf (xs @ ys) \<longleftrightarrow> obs_wf xs \<and> obs_wf ys \<and> ob_id ` set xs \<inter> ob_id ` set ys = {}"
  unfolding obs_wf_def map_append distinct_append set_append ball_Un set_map by blast

lemma obs_wf_map:
  assumes "\<And>k. ob_named (f k)" and "inj_on (ob_id \<circ> f) (set ks)" and "distinct ks"
  shows "obs_wf (map f ks)"
  using assms by (simp add: obs_wf_def distinct_map)

lemma fresh_ids:
  assumes "\<And>k. ob_id (f k) \<notin> set (map ob_id xs)"
  shows "ob_id ` set (map f ks) \<inter> ob_id ` set xs = {}"
proof -
  have "i \<notin> ob_id ` set xs" if "i \<in> ob_id ` set (map f ks)" for i
  proof -
    from that have "i \<in> (\<lambda>k. ob_id (f k)) ` set ks" by (simp add: image_image)
    then show ?thesis using assms by (auto simp del: split_paired_Ex)
  qed
  then show ?thesis by blast
qed

text \<open>With an encoder that never fails and keeps different values apart, the changes are the
  observations of different values.\<close>

definition faithful :: "(Value \<Rightarrow> 'j option) \<Rightarrow> bool" where
  "faithful marshal \<longleftrightarrow> inj marshal \<and> None \<notin> range marshal"

lemma faithful_Some [simp]: "faithful Some"
  by (auto simp: faithful_def)

lemma valuesEqual_faithful: "faithful marshal \<Longrightarrow> valuesEqual marshal x y \<longleftrightarrow> x = y"
  unfolding faithful_def valuesEqual_def
  by (cases "marshal x"; cases "marshal y") (auto simp: inj_def, (metis rangeI)+)

lemma observe_all_mem:
  "faithful marshal \<Longrightarrow>
   c \<in> set (observe_all marshal obs) \<longleftrightarrow>
     (\<exists>category field old new identity. (category, field, old, new, identity) \<in> set obs \<and> old \<noteq> new \<and>
        c = (NewChange category field old new)\<lparr>ch_Identity := identity\<rparr>)"
  by (fastforce simp: observe_all_def observe_def valuesEqual_faithful split: if_splits)

lemma observe_all_Nil:
  "faithful marshal \<Longrightarrow>
   observe_all marshal obs = [] \<longleftrightarrow> (\<forall>(category, field, old, new, identity) \<in> set obs. old = new)"
  by (induction obs) (auto simp: observe_def valuesEqual_faithful split: if_splits)

section \<open>Filtering\<close>

definition normalizedChangeIDs :: "string list \<Rightarrow> string list" where
  "normalizedChangeIDs ids = remdups (filter (\<lambda>i. i \<noteq> []) (map trim_space ids))"

definition sortedChangeIDs :: "string list \<Rightarrow> string list" where
  "sortedChangeIDs ids = sort (normalizedChangeIDs ids)"

definition fill_id :: "Change \<Rightarrow> Change" where
  "fill_id c = (if ch_ID c = [] then c\<lparr>ch_ID := StableID c\<rparr> else c)"

definition FilterChanges :: "Change list \<Rightarrow> string list \<Rightarrow> Change list" where
  "FilterChanges changes ids =
     filter (\<lambda>c. normalizedChangeIDs ids = [] \<or> StableID c \<in> set (normalizedChangeIDs ids))
       (map fill_id changes)"

text \<open>What the filter of every report does to the shared fields.\<close>

definition filter_report :: "string list \<Rightarrow> 'a SharedReport_scheme \<Rightarrow> 'a SharedReport_scheme" where
  "filter_report ids r =
     r\<lparr>rt_Filter := sortedChangeIDs ids, rt_Changes := FilterChanges (rt_Changes r) ids,
       rt_Summary := SummarizeChanges (FilterChanges (rt_Changes r) ids)\<rparr>"

lemma filter_report_simps [simp]:
  "rt_Schema (filter_report ids r) = rt_Schema r"
  "rt_Compatible (filter_report ids r) = rt_Compatible r"
  "rt_Reasons (filter_report ids r) = rt_Reasons r"
  "rt_Transition (filter_report ids r) = rt_Transition r"
  "rt_Filter (filter_report ids r) = sortedChangeIDs ids"
  "rt_Changes (filter_report ids r) = FilterChanges (rt_Changes r) ids"
  "rt_Summary (filter_report ids r) = SummarizeChanges (FilterChanges (rt_Changes r) ids)"
  by (simp_all add: filter_report_def)

text \<open>The selection as a predicate on identifiers.\<close>

definition selects :: "string list \<Rightarrow> string \<Rightarrow> bool" where
  "selects ids i \<longleftrightarrow> (\<forall>j \<in> set ids. blank j) \<or> i \<in> trim_space ` set ids \<and> i \<noteq> []"

lemma normalized_selects:
  "normalizedChangeIDs ids = [] \<or> i \<in> set (normalizedChangeIDs ids) \<longleftrightarrow> selects ids i"
  by (auto simp: normalizedChangeIDs_def selects_def filter_empty_conv)

lemma FilterChanges_wf:
  assumes "\<forall>c \<in> set cs. change_wf c"
  shows "FilterChanges cs ids = filter (\<lambda>c. selects ids (ch_ID c)) cs"
proof -
  have f: "fill_id c = c" "StableID c = ch_ID c" if "c \<in> set cs" for c
    using assms that by (simp_all add: fill_id_def change_wf_def StableID_def)
  have "map fill_id cs = cs" using f by (simp add: map_idI)
  then show ?thesis
    unfolding FilterChanges_def normalized_selects by (simp add: f cong: filter_cong)
qed

lemma FilterChanges_length: "length (FilterChanges cs ids) \<le> length cs"
  unfolding FilterChanges_def by (metis length_filter_le length_map)

lemma sortedChangeIDs_not_blank: "i \<in> set (sortedChangeIDs ids) \<Longrightarrow> \<not> blank i"
  by (auto simp: sortedChangeIDs_def normalizedChangeIDs_def)

lemma filter_report_wf: "report_wf schema r \<Longrightarrow> report_wf schema (filter_report ids r)"
proof -
  assume r: "report_wf schema r"
  then have "FilterChanges (rt_Changes r) ids = filter (\<lambda>c. selects ids (ch_ID c)) (rt_Changes r)"
    by (intro FilterChanges_wf) (simp add: report_wf_def changes_wf_def)
  with r sortedChangeIDs_not_blank[of _ ids] show ?thesis
    by (auto simp: report_wf_def changes_wf_def distinct_map_filter
        intro: le_less_trans[OF length_filter_le])
qed

text \<open>Filtering again by the recorded filter changes nothing.\<close>

lemma normalized_set: "set (normalizedChangeIDs ids) = trim_space ` set ids - {[]}"
  by (auto simp: normalizedChangeIDs_def)

lemma normalized_sorted: "set (normalizedChangeIDs (sortedChangeIDs ids)) = set (normalizedChangeIDs ids)"
proof -
  have "set (sortedChangeIDs ids) = trim_space ` set ids - {[]}"
    by (simp add: sortedChangeIDs_def normalized_set)
  then have "trim_space ` set (sortedChangeIDs ids) = trim_space ` (trim_space ` set ids - {[]})" by simp
  also have "\<dots> = trim_space ` set ids - {[]}"
  proof (intro equalityI subsetI)
    fix i assume "i \<in> trim_space ` set ids - {[]}"
    then have "i \<in> trim_space ` set ids - {[]}" "trim_space i = i" by auto
    then show "i \<in> trim_space ` (trim_space ` set ids - {[]})" by (metis imageI)
  qed auto
  finally show ?thesis by (simp add: normalized_set)
qed

lemma sorted_again: "sortedChangeIDs (sortedChangeIDs ids) = sortedChangeIDs ids"
proof -
  have "sort (normalizedChangeIDs (sortedChangeIDs ids)) = sort (normalizedChangeIDs ids)"
    using normalized_sorted by (intro sorted_distinct_set_unique) (auto simp: normalizedChangeIDs_def)
  then show ?thesis by (simp only: sortedChangeIDs_def[of "sortedChangeIDs ids"]) (simp add: sortedChangeIDs_def)
qed

lemma selects_sorted: "selects (sortedChangeIDs ids) = selects ids"
proof
  fix i
  have "normalizedChangeIDs (sortedChangeIDs ids) = [] \<longleftrightarrow> normalizedChangeIDs ids = []"
    using normalized_sorted[of ids] by (metis set_empty)
  then show "selects (sortedChangeIDs ids) i = selects ids i"
    unfolding normalized_selects[symmetric] normalized_sorted by simp
qed

lemma filter_report_again:
  assumes "report_wf schema r"
  shows "filter_report (sortedChangeIDs ids) (filter_report ids r) = filter_report ids r"
proof -
  have "\<forall>c \<in> set (rt_Changes r). change_wf c" using assms by (simp add: report_wf_def changes_wf_def)
  then have "FilterChanges (FilterChanges (rt_Changes r) ids) (sortedChangeIDs ids) = FilterChanges (rt_Changes r) ids"
    by (simp add: FilterChanges_wf selects_sorted)
  then show ?thesis by (simp add: filter_report_def sorted_again)
qed


section \<open>Maps built from a list\<close>

text \<open>A loop \<open>m[key(x)] = val(x)\<close> over a slice: a later entry replaces an earlier one.\<close>

definition keyed_map :: "('a \<Rightarrow> 'k) \<Rightarrow> ('a \<Rightarrow> 'v) \<Rightarrow> 'a list \<Rightarrow> ('k, 'v) gomap" where
  "keyed_map key val xs = foldl (\<lambda>m x. map_set (key x) (val x) m) [] xs"

lemma keyed_map_snoc: "keyed_map key val (xs @ [x]) = map_set (key x) (val x) (keyed_map key val xs)"
  by (simp add: keyed_map_def)

lemma keyed_map_Nil [simp]: "keyed_map key val [] = []"
  by (simp add: keyed_map_def)

lemma keyed_map_wf [simp]: "map_wf (keyed_map key val xs)"
  by (induction xs rule: rev_induct) (simp_all add: keyed_map_snoc)

lemma keyed_map_keys [simp]: "fst ` set (keyed_map key val xs) = key ` set xs"
  by (induction xs rule: rev_induct) (simp_all add: keyed_map_snoc)

lemma length_map_set: "length (map_set k v m) \<le> Suc (length m)"
  by (induction k v m rule: map_set.induct) auto

lemma keyed_map_length: "length (keyed_map key val xs) \<le> length xs"
proof (induction xs rule: rev_induct)
  case (snoc x xs)
  have "length (map_set (key x) (val x) (keyed_map key val xs)) \<le> Suc (length (keyed_map key val xs))"
    by (rule length_map_set)
  with snoc show ?case by (simp add: keyed_map_snoc)
qed simp

lemma keyed_map_empty [simp]: "keyed_map key val xs = [] \<longleftrightarrow> xs = []"
  using keyed_map_keys[of key val xs] by (metis image_is_empty list.set(1) set_empty)

lemma map_set_mem: "(k, v) \<in> set (map_set k' v' m) \<Longrightarrow> (k, v) = (k', v') \<or> (k, v) \<in> set m"
  by (induction k' v' m rule: map_set.induct) (auto split: if_splits)

lemma keyed_map_mem: "(k, v) \<in> set (keyed_map key val xs) \<Longrightarrow> \<exists>x \<in> set xs. k = key x \<and> v = val x"
proof (induction xs rule: rev_induct)
  case (snoc x xs)
  then show ?case using map_set_mem unfolding keyed_map_snoc by fastforce
qed simp

text \<open>With distinct keys every entry is there.\<close>

lemma keyed_map_of:
  "distinct (map key xs) \<Longrightarrow> x \<in> set xs \<Longrightarrow> map_of (keyed_map key val xs) (key x) = Some (val x)"
proof (induction xs rule: rev_induct)
  case (snoc y xs)
  show ?case
  proof (cases "x = y")
    case False
    with snoc.prems have x: "x \<in> set xs" by simp
    then have "key x \<in> key ` set xs" by simp
    with snoc.prems have "key x \<noteq> key y" by auto
    with snoc x show ?thesis by (simp add: keyed_map_snoc)
  qed (simp add: keyed_map_snoc)
qed simp

lemma keyed_map_complete:
  "distinct (map key xs) \<Longrightarrow> x \<in> set xs \<Longrightarrow> (key x, val x) \<in> set (keyed_map key val xs)"
  using keyed_map_of map_of_SomeD by fast

end
