(* ===== verification/SattlerCI.thy ===== *)
theory SattlerCI
  imports SattlerChange
begin

text \<open>
  sattler/comparison.go and campaign.go: the comparison of two CI result envelopes, with the
  mutation campaign both may carry, and the validation of the comparison.

  Decoding and encoding a raw JSON value again is the argument \<open>reencode\<close> (no result when it is
  not JSON), the hexadecimal SHA-256 is \<open>hex_sha\<close>, and decoding a campaign report is
  \<open>decode_campaign\<close>.  The maps of inputs are lists with distinct names.
\<close>

section \<open>Mutation campaigns\<close>

abbreviation MutationCampaignSchema :: string where
  "MutationCampaignSchema \<equiv> ''ingen.mutation-campaign-result/v1''"

record MutationCampaignSummary =
  mc_Schema :: string
  mc_Status :: string
  mc_StartedAt :: string
  mc_FinishedAt :: string
  mc_PlanSHA256 :: string
  mc_SemanticPlanSHA256 :: string
  mc_Total :: int
  mc_Killed :: int
  mc_Survived :: int
  mc_Inconclusive :: int
  mc_Other :: int
  mc_Errors :: int

record MutationState =
  ms_Status :: string
  ms_Outcome :: string

record MutationOutcomeChange =
  mo_MutationID :: string
  mo_Before :: "MutationState option"
  mo_After :: "MutationState option"

record MutationCampaignComparison =
  mk_Before :: MutationCampaignSummary
  mk_After :: MutationCampaignSummary
  mk_ChangedMutations :: "MutationOutcomeChange list"

record mutationCampaignEntry =
  me_MutationID :: string
  me_Status :: string
  me_Outcome :: string

text \<open>The decoded report: its plan and summary are the fields of the summary it yields.\<close>

record mutationCampaignReport =
  mr_Summary :: MutationCampaignSummary
  mr_Entries :: "mutationCampaignEntry list"

type_synonym campaign_decoder = "string \<Rightarrow> message + mutationCampaignReport"

definition campaign_states :: "mutationCampaignEntry list \<Rightarrow> (string, MutationState) gomap" where
  "campaign_states entries =
     foldl (\<lambda>m e. if me_MutationID e = [] then m
                  else map_set (me_MutationID e)
                         \<lparr>ms_Status = me_Status e, ms_Outcome = me_Outcome e\<rparr> m) [] entries"

text \<open>\<open>None\<close> is an envelope that holds no campaign.\<close>

definition extractMutationCampaign ::
  "campaign_decoder \<Rightarrow> CIArtifact \<Rightarrow> message + (MutationCampaignSummary \<times> (string, MutationState) gomap) option" where
  "extractMutationCampaign decode_campaign a =
     (if ci_Tool a \<noteq> ''sorna'' \<or> ci_Kind a \<noteq> ''mutation-campaign'' then Inr None
      else
        (case decode_campaign (ci_Report a) of
           Inl err \<Rightarrow> Inl (T ''decode Sorna mutation campaign report: '' # err)
         | Inr report \<Rightarrow>
             if mc_Schema (mr_Summary report) \<noteq> MutationCampaignSchema
             then Inl [T ''Sorna mutation campaign report schema must be '', T MutationCampaignSchema,
                       T '', got '', Q (mc_Schema (mr_Summary report))]
             else Inr (Some (mr_Summary report, campaign_states (mr_Entries report)))))"

definition ExtractMutationCampaign ::
  "campaign_decoder \<Rightarrow> CIArtifact \<Rightarrow> message + MutationCampaignSummary option" where
  "ExtractMutationCampaign decode_campaign a =
     map_sum id (map_option fst) (extractMutationCampaign decode_campaign a)"

text \<open>The sorted union of the keys of two maps, which several comparisons walk.\<close>

definition union_keys :: "(string, 'a) gomap \<Rightarrow> (string, 'b) gomap \<Rightarrow> string list" where
  "union_keys a b = sort (remdups (map fst a @ map fst b))"

definition mutation_changes ::
  "(string, MutationState) gomap \<Rightarrow> (string, MutationState) gomap \<Rightarrow> MutationOutcomeChange list" where
  "mutation_changes before after =
     map (\<lambda>name. \<lparr>mo_MutationID = name, mo_Before = map_of before name, mo_After = map_of after name\<rparr>)
       (filter (\<lambda>name. \<not> (map_of before name \<noteq> None \<and> map_of before name = map_of after name))
          (union_keys before after))"

definition CompareMutationCampaigns ::
  "campaign_decoder \<Rightarrow> CIArtifact \<Rightarrow> CIArtifact \<Rightarrow> message + MutationCampaignComparison option" where
  "CompareMutationCampaigns decode_campaign before after =
     (case extractMutationCampaign decode_campaign before of
        Inl err \<Rightarrow> Inl err
      | Inr b \<Rightarrow>
          (case extractMutationCampaign decode_campaign after of
             Inl err \<Rightarrow> Inl err
           | Inr a \<Rightarrow>
               (case (b, a) of
                  (None, None) \<Rightarrow> Inr None
                | (Some (s1, states1), Some (s2, states2)) \<Rightarrow>
                    Inr (Some \<lparr>mk_Before = s1, mk_After = s2,
                               mk_ChangedMutations = mutation_changes states1 states2\<rparr>)
                | _ \<Rightarrow> Inl [T ''mutation campaign comparison needs both envelopes to contain '',
                            T MutationCampaignSchema])))"

section \<open>The comparison of two envelopes\<close>

abbreviation ComparisonSchema :: string where "ComparisonSchema \<equiv> ''ingen.sattler-comparison/v0''"

record ArtifactSummary =
  as_Path :: string
  as_Tool :: string
  as_Kind :: string
  as_Status :: string
  as_ExitCode :: int
  as_CreatedAt :: string
  as_Source :: CISource
  as_Policy :: "FileRef option"
  as_PolicyLock :: "FileRef option"
  as_Graph :: "FileRef option"
  as_Baseline :: "FileRef option"
  as_Inputs :: "(string, FileRef) gomap"

record Comparison = SharedReport +
  cm_Before :: ArtifactSummary
  cm_After :: ArtifactSummary
  cm_Warnings :: "message list"
  cm_MutationCampaign :: "MutationCampaignComparison option"

definition summarize_artifact :: "CIArtifact \<Rightarrow> ArtifactSummary" where
  "summarize_artifact a =
     \<lparr>as_Path = [], as_Tool = ci_Tool a, as_Kind = ci_Kind a, as_Status = ci_Status a,
      as_ExitCode = ci_ExitCode a, as_CreatedAt = ci_CreatedAt a, as_Source = ci_Source a,
      as_Policy = ci_Policy a, as_PolicyLock = ci_PolicyLock a, as_Graph = ci_Graph a,
      as_Baseline = ci_Baseline a, as_Inputs = ci_Inputs a\<rparr>"

definition fileRefValue :: "FileRef option \<Rightarrow> Value" where
  "fileRefValue ref = (case ref of None \<Rightarrow> VNil | Some r \<Rightarrow> VFileRef r)"

text \<open>\<open>strings.ToLower\<close> as far as a comparison with ASCII words can see it: beside the ASCII
  letters only the Kelvin sign and the dotted capital I have an ASCII lower case.\<close>

fun lower_key :: "string \<Rightarrow> int list" where
  "lower_key (a # b # c # cs) =
     (if byte a = 226 \<and> byte b = 132 \<and> byte c = 170 then byte CHR ''k'' # lower_key cs
      else if byte a = 196 \<and> byte b = 176 then byte CHR ''i'' # lower_key (c # cs)
      else lower_byte a # lower_key (b # c # cs))"
| "lower_key [a, b] =
     (if byte a = 196 \<and> byte b = 176 then [byte CHR ''i''] else [lower_byte a, lower_byte b])"
| "lower_key [a] = [lower_byte a]"
| "lower_key [] = []"

definition key_in :: "string \<Rightarrow> string list \<Rightarrow> bool" where
  "key_in name words \<longleftrightarrow> lower_key name \<in> set (map (map byte) words)"

definition inputChangeCategory :: "string \<Rightarrow> string" where
  "inputChangeCategory name =
     (if key_in name [''contract'', ''contract_lock'', ''contract_schema''] then ''contract''
      else if key_in name [''plan'', ''mutation_plan'', ''mutation_catalogue''] then ''plan''
      else if key_in name [''provider'', ''provider_manifest'', ''preparation''] then ''provider''
      else if key_in name [''environment'', ''runtime'', ''subject_policy''] then ''environment''
      else ''input'')"

definition jsonFingerprint :: "(string \<Rightarrow> string option) \<Rightarrow> (string \<Rightarrow> string) \<Rightarrow> string \<Rightarrow> Value" where
  "jsonFingerprint reencode hex_sha value =
     (if value = [] \<or> trim_space value = ''null'' then VFingerprint False []
      else (case reencode value of
              None \<Rightarrow> VFingerprint True (hex_sha value)
            | Some normalized \<Rightarrow> VFingerprint True (hex_sha normalized)))"

definition file_obs :: "string \<Rightarrow> string \<Rightarrow> FileRef option \<Rightarrow> FileRef option \<Rightarrow> observation" where
  "file_obs category field old new =
     (category, field, fileRefValue old, fileRefValue new, CompareArtifactIdentity old new)"

definition input_obs :: "(string, FileRef) gomap \<Rightarrow> (string, FileRef) gomap \<Rightarrow> string \<Rightarrow> observation" where
  "input_obs before after name =
     file_obs (inputChangeCategory name) (''inputs.'' @ name) (map_of before name) (map_of after name)"

definition envelope_obs :: "CIArtifact \<Rightarrow> CIArtifact \<Rightarrow> observation list" where
  "envelope_obs before after =
     [(''context'', ''tool'', VString (ci_Tool before), VString (ci_Tool after), []),
      (''context'', ''kind'', VString (ci_Kind before), VString (ci_Kind after), []),
      (''context'', ''source.root'', VString (src_Root (ci_Source before)), VString (src_Root (ci_Source after)), []),
      (''context'', ''source.module_path'', VString (src_ModulePath (ci_Source before)),
         VString (src_ModulePath (ci_Source after)), []),
      (''verdict'', ''status'', VString (ci_Status before), VString (ci_Status after), []),
      (''verdict'', ''exit_code'', VInt (ci_ExitCode before), VInt (ci_ExitCode after), []),
      file_obs ''input'' ''policy'' (ci_Policy before) (ci_Policy after),
      file_obs ''input'' ''policy_lock'' (ci_PolicyLock before) (ci_PolicyLock after),
      file_obs ''input'' ''graph'' (ci_Graph before) (ci_Graph after),
      file_obs ''input'' ''baseline'' (ci_Baseline before) (ci_Baseline after)]"

definition report_obs ::
  "(string \<Rightarrow> string option) \<Rightarrow> (string \<Rightarrow> string) \<Rightarrow> CIArtifact \<Rightarrow> CIArtifact \<Rightarrow> observation list" where
  "report_obs reencode hex_sha before after =
     [(''producer-report'', ''report'', jsonFingerprint reencode hex_sha (ci_Report before),
         jsonFingerprint reencode hex_sha (ci_Report after), []),
      (''producer-report'', ''explanation'', jsonFingerprint reencode hex_sha (ci_Explanation before),
         jsonFingerprint reencode hex_sha (ci_Explanation after), [])]"

definition changed_from :: "string \<Rightarrow> string \<Rightarrow> string \<Rightarrow> message list" where
  "changed_from what before after =
     problem (before \<noteq> after) [T (what @ '' changed from ''), Q before, T '' to '', Q after]"

definition compare_obs ::
  "(string \<Rightarrow> string option) \<Rightarrow> (string \<Rightarrow> string) \<Rightarrow> CIArtifact \<Rightarrow> CIArtifact \<Rightarrow> observation list" where
  "compare_obs reencode hex_sha before after =
     envelope_obs before after @
     map (input_obs (ci_Inputs before) (ci_Inputs after)) (union_keys (ci_Inputs before) (ci_Inputs after)) @
     report_obs reencode hex_sha before after"

definition Compare ::
  "(Value \<Rightarrow> 'j option) \<Rightarrow> (string \<Rightarrow> string option) \<Rightarrow> (string \<Rightarrow> string) \<Rightarrow> campaign_decoder
   \<Rightarrow> CIArtifact \<Rightarrow> CIArtifact \<Rightarrow> Comparison" where
  "Compare marshal reencode hex_sha decode_campaign before after =
     (let reasons = changed_from ''tool'' (ci_Tool before) (ci_Tool after) @
                    changed_from ''kind'' (ci_Kind before) (ci_Kind after);
          changes = observe_all marshal (compare_obs reencode hex_sha before after);
          campaign = CompareMutationCampaigns decode_campaign before after
      in \<lparr>rt_Schema = ComparisonSchema, rt_Compatible = (reasons = []), rt_Reasons = reasons,
          rt_Transition = NewStateTransition ''status'' (ci_Status before) (ci_Status after) (reasons = []),
          rt_Filter = [], rt_Changes = changes, rt_Summary = SummarizeChanges changes,
          cm_Before = summarize_artifact before, cm_After = summarize_artifact after,
          cm_Warnings = (case campaign of
                           Inl err \<Rightarrow> [T ''mutation campaign detail unavailable: '' # err]
                         | Inr _ \<Rightarrow> []),
          cm_MutationCampaign = (case campaign of Inl _ \<Rightarrow> None | Inr c \<Rightarrow> c)\<rparr>)"

text \<open>\<open>CompareFiles\<close>: \<open>load\<close> is \<open>ciresult.LoadFile\<close>; the paths are kept as labels.\<close>

definition CompareFiles ::
  "(string \<Rightarrow> message + CIArtifact) \<Rightarrow> (Value \<Rightarrow> 'j option) \<Rightarrow> (string \<Rightarrow> string option)
   \<Rightarrow> (string \<Rightarrow> string) \<Rightarrow> campaign_decoder \<Rightarrow> string \<Rightarrow> string \<Rightarrow> message + Comparison" where
  "CompareFiles load marshal reencode hex_sha decode_campaign beforePath afterPath =
     (case load beforePath of
        Inl err \<Rightarrow> Inl err
      | Inr before \<Rightarrow>
          (case load afterPath of
             Inl err \<Rightarrow> Inl err
           | Inr after \<Rightarrow>
               (let r = Compare marshal reencode hex_sha decode_campaign before after
                in Inr (r\<lparr>cm_Before := (cm_Before r)\<lparr>as_Path := beforePath\<rparr>,
                          cm_After := (cm_After r)\<lparr>as_Path := afterPath\<rparr>\<rparr>))))"

text \<open>\<open>ciresult.LoadFile\<close> over the contents of a file and the decoder of an envelope.\<close>

definition loadCIResult ::
  "(string \<Rightarrow> bool) \<Rightarrow> (string \<Rightarrow> message + string) \<Rightarrow> (string \<Rightarrow> message + CIArtifact) \<Rightarrow> string
   \<Rightarrow> message + CIArtifact" where
  "loadCIResult valid_json read decode path =
     (case read path of
        Inl err \<Rightarrow> Inl ([T ''read CI result '', T path, T '': ''] @ err)
      | Inr contents \<Rightarrow>
          (case decode contents of
             Inl err \<Rightarrow> Inl ([T ''parse CI result '', T path, T '': ''] @ err)
           | Inr a \<Rightarrow>
               (case Artifact_Validate valid_json a of
                  Some err \<Rightarrow> Inl ([T ''validate CI result '', T path, T '': ''] @ err)
                | None \<Rightarrow> Inr a)))"

definition FilterComparisonChanges :: "Comparison \<Rightarrow> string list \<Rightarrow> Comparison" where
  "FilterComparisonChanges r ids = filter_report ids r"

section \<open>Validation\<close>

definition comparison_input_problem :: "string \<Rightarrow> (string, FileRef) gomap \<Rightarrow> string \<Rightarrow> message option" where
  "comparison_input_problem side inputs name =
     first_some
       [fail_if (blank name) [T ''comparison '', T side, T '' input name must not be empty''],
        validateFileRef (''comparison '' @ side @ '' inputs.'' @ name) (map_of inputs name)]"

definition ArtifactSummary_problem :: "string \<Rightarrow> ArtifactSummary \<Rightarrow> message option" where
  "ArtifactSummary_problem side s =
     first_some
       [fail_if (blank (as_Tool s) \<or> blank (as_Kind s) \<or> blank (as_Status s))
          [T ''comparison '', T side, T '' needs tool, kind, and status''],
        (case ExitCodeForStatus (as_Status s) of
           Inl err \<Rightarrow> Some ([T ''comparison '', T side, T '': ''] @ err)
         | Inr _ \<Rightarrow> None),
        fail_if (blank (as_CreatedAt s)) [T ''comparison '', T side, T '' created_at is required''],
        fail_if (\<not> valid_rfc3339 (as_CreatedAt s))
          [T ''comparison '', T side, T '' created_at must be RFC3339: ''],
        fail_if (blank (src_Root (as_Source s))) [T ''comparison '', T side, T '' source.root is required''],
        validateFileRef (''comparison '' @ side @ '' policy'') (as_Policy s),
        validateFileRef (''comparison '' @ side @ '' policy_lock'') (as_PolicyLock s),
        validateFileRef (''comparison '' @ side @ '' graph'') (as_Graph s),
        validateFileRef (''comparison '' @ side @ '' baseline'') (as_Baseline s),
        first_error (comparison_input_problem side (as_Inputs s)) (union_keys (as_Inputs s) ([] :: (string, FileRef) gomap))]"

definition comparison_change_problem :: "nat \<times> Change \<Rightarrow> message option" where
  "comparison_change_problem x =
     (case x of (i, c) \<Rightarrow>
        first_some
          [fail_if (blank (ch_Category c) \<or> blank (ch_Field c))
             [T ''comparison changes['', D (int i), T ''] needs a category and field''],
           fail_if (blank (ch_ID c)) [T ''comparison changes['', D (int i), T ''] needs a stable ID''],
           fail_if (StableID c \<noteq> StableChangeID (ch_Category c) (ch_Field c))
             [T ''comparison changes['', D (int i), T ''] has an invalid stable ID '', Q (ch_ID c)]])"

definition Comparison_Validate :: "Comparison \<Rightarrow> message option" where
  "Comparison_Validate r =
     first_some
       [fail_if (rt_Schema r \<noteq> ComparisonSchema)
          [T ''comparison schema must be '', T ComparisonSchema, T '', got '', Q (rt_Schema r)],
        ArtifactSummary_problem ''before'' (cm_Before r),
        ArtifactSummary_problem ''after'' (cm_After r),
        wrap_err (\<lambda>err. T ''comparison transition: '' # err) (StateTransition_Validate (rt_Transition r)),
        fail_if (\<not> rt_Compatible r \<and> rt_Reasons r = [])
          [T ''incompatible comparison needs a compatibility reason''],
        fail_if (rt_Compatible r \<and> rt_Reasons r \<noteq> [])
          [T ''compatible comparison cannot have compatibility reasons''],
        wrap_err (\<lambda>err. T ''comparison change summary: '' # err) (ChangeSummary_Validate (rt_Summary r)),
        fail_if (sm_Total (rt_Summary r) \<noteq> int (length (rt_Changes r)))
          [T ''comparison change_summary.total must equal the change count''],
        fail_if (\<not> summariesEqual (rt_Summary r) (SummarizeChanges (rt_Changes r)))
          [T ''comparison change_summary does not match the changes''],
        first_error comparison_change_problem (enumerate 0 (rt_Changes r))]"

section \<open>A comparison of valid envelopes is valid\<close>

lemma union_keys_set [simp]: "set (union_keys a b) = fst ` set a \<union> fst ` set b"
  by (auto simp: union_keys_def)

lemma union_keys_distinct [simp]: "distinct (union_keys a b)"
  by (simp add: union_keys_def)

lemma inputChangeCategory_cases:
  "inputChangeCategory name \<in> {''contract'', ''plan'', ''provider'', ''environment'', ''input''}"
  by (simp add: inputChangeCategory_def)

lemma input_category_plain: "\<not> blank (inputChangeCategory name) \<and> CHR ''.'' \<notin> set (inputChangeCategory name)"
  using inputChangeCategory_cases[of name] by (auto simp: plain_head_not_blank plain_byte_def byte_def)

lemma input_id: "ob_id (input_obs before after name) = StableChangeID (inputChangeCategory name) (''inputs.'' @ name)"
  by (simp add: ob_id_def input_obs_def file_obs_def)

lemma input_id_inj: "ob_id (input_obs b a m) = ob_id (input_obs b a n) \<longleftrightarrow> m = n"
  using input_category_plain[of m] input_category_plain[of n]
  by (auto simp: input_id StableChangeID_inj)

lemma envelope_ids:
  "map ob_id (envelope_obs before after) =
     [''context.tool'', ''context.kind'', ''context.source.root'', ''context.source.module_path'',
      ''verdict.status'', ''verdict.exit_code'', ''input.policy'', ''input.policy_lock'', ''input.graph'',
      ''input.baseline'']"
  by (simp add: envelope_obs_def ob_id_def StableChangeID_def file_obs_def)

lemma report_ids:
  "map ob_id (report_obs reencode hex_sha before after) = [''producer-report.report'', ''producer-report.explanation'']"
  by (simp add: report_obs_def ob_id_def StableChangeID_def)

text \<open>The identifiers of inputs differ from the fixed ones.\<close>

lemma input_id_fresh:
  "ob_id (input_obs b a n) \<notin> set (map ob_id (envelope_obs before after)) \<and>
   ob_id (input_obs b a n) \<notin> set (map ob_id (report_obs reencode hex_sha before after))"
  unfolding envelope_ids report_ids input_id
  using inputChangeCategory_cases[of n] by (auto simp: StableChangeID_def)

lemma input_named: "ob_named (input_obs b a n)"
  using input_category_plain[of n]
  by (simp add: ob_named_def input_obs_def file_obs_def plain_head_not_blank plain_byte_def byte_def)

lemma compare_obs_wf: "obs_wf (compare_obs reencode hex_sha before after)"
proof -
  let ?f = "input_obs (ci_Inputs before) (ci_Inputs after)"
  let ?in = "map ?f (union_keys (ci_Inputs before) (ci_Inputs after))"
  have "obs_wf (envelope_obs before after)" "obs_wf (report_obs reencode hex_sha before after)"
    unfolding obs_wf_def envelope_ids report_ids
    by (simp_all add: envelope_obs_def report_obs_def file_obs_def ob_named_def plain_head_not_blank
        plain_byte_def byte_def)
  moreover have "obs_wf ?in"
    by (rule obs_wf_map) (simp_all add: input_named inj_on_def input_id_inj)
  moreover have "ob_id ` set ?in \<inter> ob_id ` set (envelope_obs before after) = {}"
    by (rule fresh_ids) (use input_id_fresh in blast)
  moreover have "ob_id ` set ?in \<inter> ob_id ` set (report_obs reencode hex_sha before after) = {}"
    by (rule fresh_ids) (use input_id_fresh in blast)
  moreover have "ob_id ` set (envelope_obs before after) \<inter> ob_id ` set (report_obs reencode hex_sha before after) = {}"
    unfolding set_map[symmetric] envelope_ids report_ids by simp
  ultimately show ?thesis
    unfolding compare_obs_def obs_wf_append set_append image_Un by blast
qed

text \<open>At most twelve changes beside those of the inputs.  A slice or map of the program whose elements
  take more than sixteen bytes has fewer than \<open>2 ^ 59\<close> of them, which keeps every count within an
  \<open>int\<close>.\<close>

definition inputs_fit :: "CIArtifact \<Rightarrow> bool" where
  "inputs_fit a \<longleftrightarrow> int (length (ci_Inputs a)) < 2 ^ 59"

lemma compare_length:
  assumes "inputs_fit before" "inputs_fit after"
  shows "int (length (observe_all marshal (compare_obs reencode hex_sha before after))) < 2 ^ 61"
proof -
  have "length (union_keys (ci_Inputs before) (ci_Inputs after)) \<le> length (ci_Inputs before) + length (ci_Inputs after)"
    unfolding union_keys_def length_sort by (rule order_trans[OF length_remdups_leq]) simp
  then have "length (compare_obs reencode hex_sha before after) \<le> length (ci_Inputs before) + length (ci_Inputs after) + 12"
    by (simp add: compare_obs_def envelope_obs_def report_obs_def)
  with observe_all_length[of marshal "compare_obs reencode hex_sha before after"] assms
  show ?thesis by (simp add: inputs_fit_def)
qed

lemma changed_from_not_blank:
  "m \<in> set (changed_from what b a) \<Longrightarrow> \<not> message_blank m"
  by (simp add: changed_from_def problem_def split: if_splits)

lemma Compare_simps [simp]:
  "rt_Schema (Compare marshal reencode hex_sha dec b a) = ComparisonSchema"
  "rt_Changes (Compare marshal reencode hex_sha dec b a) = observe_all marshal (compare_obs reencode hex_sha b a)"
  "cm_Before (Compare marshal reencode hex_sha dec b a) = summarize_artifact b"
  "cm_After (Compare marshal reencode hex_sha dec b a) = summarize_artifact a"
  "rt_Compatible (Compare marshal reencode hex_sha dec b a) \<longleftrightarrow> ci_Tool b = ci_Tool a \<and> ci_Kind b = ci_Kind a"
  "rt_Transition (Compare marshal reencode hex_sha dec b a) =
     NewStateTransition ''status'' (ci_Status b) (ci_Status a) (ci_Tool b = ci_Tool a \<and> ci_Kind b = ci_Kind a)"
  by (simp_all add: Compare_def Let_def changed_from_def)

lemma Compare_report_wf: "inputs_fit b \<Longrightarrow> inputs_fit a \<Longrightarrow> report_wf ComparisonSchema (Compare marshal reencode hex_sha dec b a)"
  using compare_length[of b a marshal reencode hex_sha] observe_all_wf[OF compare_obs_wf]
  by (auto simp: report_wf_def Compare_def Let_def dest: changed_from_not_blank)

lemma Compare_warnings: "w \<in> set (cm_Warnings (Compare marshal reencode hex_sha dec b a)) \<Longrightarrow> \<not> message_blank w"
  by (auto simp: Compare_def Let_def plain_head_not_blank plain_byte_def byte_def split: sum.splits)

lemma validateFileRef_name: "validateFileRef n r = None \<Longrightarrow> validateFileRef m r = None"
proof (cases r)
  case (Some x)
  assume "validateFileRef n r = None"
  then show ?thesis unfolding Some validateFileRef_Some_None .
qed (simp add: validateFileRef_def)

lemma verdict_not_blank: "verdict_of s \<noteq> None \<Longrightarrow> \<not> blank s"
  by (auto simp: verdict_of_def plain_head_not_blank plain_byte_def byte_def split: if_splits)

lemma summary_valid:
  assumes "Artifact_Validate valid_json a = None"
  shows "ArtifactSummary_problem side (summarize_artifact a) = None"
proof -
  obtain v where v: "verdict_of (ci_Status a) = Some v" using Artifact_Validate_status[OF assms] by blast
  then obtain code where code: "ExitCodeForStatus (ci_Status a) = Inr code" using ExitCode_verdict by blast
  have "comparison_input_problem side (ci_Inputs a) n = None" if n: "n \<in> fst ` set (ci_Inputs a)" for n
  proof -
    obtain r where r: "map_of (ci_Inputs a) n = Some r" using n map_of_eq_None_iff[of "ci_Inputs a" n] by (cases "map_of (ci_Inputs a) n") simp_all
    then have "(n, r) \<in> set (ci_Inputs a)" by (rule map_of_SomeD)
    with assms have "input_problem (n, r) = None"
      by (auto simp: Artifact_Validate_def first_some_Cons_None first_error_None)
    then show ?thesis
      using validateFileRef_name by (auto simp: comparison_input_problem_def input_problem_def r check_simps)
  qed
  moreover have "\<not> blank (ci_Status a)" using v verdict_not_blank by simp
  ultimately show ?thesis
    using assms code
    by (auto simp: ArtifactSummary_problem_def summarize_artifact_def Artifact_Validate_def check_simps
        intro: validateFileRef_name)
qed

lemma comparison_change_None: "change_wf c \<Longrightarrow> comparison_change_problem (i, c) = None"
  by (simp add: comparison_change_problem_def change_wf_def StableID_def check_simps)

text \<open>The validation of a comparison whose shared fields are well formed is that of its two
  summaries and its transition.\<close>

lemma Comparison_Validate_wf:
  assumes "report_wf ComparisonSchema r"
  shows "Comparison_Validate r = None \<longleftrightarrow>
    ArtifactSummary_problem ''before'' (cm_Before r) = None \<and> ArtifactSummary_problem ''after'' (cm_After r) = None \<and>
    StateTransition_Validate (rt_Transition r) = None"
proof -
  have "first_error comparison_change_problem (enumerate 0 (rt_Changes r)) = None"
    using assms comparison_change_None
    by (auto simp: first_error_None report_wf_def changes_wf_def in_set_enumerate_eq)
  moreover have "ChangeSummary_Validate (rt_Summary r) = None"
    using assms SummarizeChanges_valid[of "rt_Changes r"]
    by (simp add: report_wf_def changes_wf_def change_wf_def)
  ultimately show ?thesis
    using assms by (auto simp: Comparison_Validate_def check_simps report_wf_def)
qed

lemma filter_comparison_simps [simp]:
  "cm_Before (filter_report ids r) = cm_Before r" "cm_After (filter_report ids r) = cm_After r"
  "cm_Warnings (filter_report ids r) = cm_Warnings r"
  "cm_MutationCampaign (filter_report ids r) = cm_MutationCampaign r"
  by (simp_all add: filter_report_def)

end
