(* ===== verification/SattlerAdapters.thy ===== *)
theory SattlerAdapters
  imports SattlerCI
begin

text \<open>
  sattler/nublar.go, custody.go and provenance.go: the comparisons at the boundaries of Nublar,
  Lockwood and Amber.  Each loads two documents, checks them, summarises them, observes the fields
  that differ and validates the comparison before it is written.  Reading a file and decoding its
  JSON are arguments; a document has the fields of the Go struct, those of its nested structs
  flattened.  The path of a document is kept as a label of its summary.
\<close>

section \<open>Loading a document\<close>

text \<open>What the three loaders share: read, decode, check.\<close>

definition load_document ::
  "string \<Rightarrow> (string \<Rightarrow> message + string) \<Rightarrow> (string \<Rightarrow> message + 'd) \<Rightarrow> (string \<Rightarrow> 'd \<Rightarrow> message option)
   \<Rightarrow> string \<Rightarrow> message + 'd" where
  "load_document what read decode check path =
     (case read path of
        Inl err \<Rightarrow> Inl ([T (''read '' @ what), T path, T '': ''] @ err)
      | Inr contents \<Rightarrow>
          (case decode contents of
             Inl err \<Rightarrow> Inl ([T (''parse '' @ what), T path, T '': ''] @ err)
           | Inr d \<Rightarrow> (case check path d of Some err \<Rightarrow> Inl err | None \<Rightarrow> Inr d)))"

lemma load_document_Inr: "load_document what read decode check path = Inr d \<Longrightarrow> check path d = None"
  by (auto simp: load_document_def split: sum.splits option.splits)

definition compare_files ::
  "(string \<Rightarrow> message + 'd) \<Rightarrow> (string \<Rightarrow> string \<Rightarrow> 'd \<Rightarrow> 'd \<Rightarrow> 'r) \<Rightarrow> string \<Rightarrow> string \<Rightarrow> message + 'r" where
  "compare_files load compare beforePath afterPath =
     (case load beforePath of
        Inl err \<Rightarrow> Inl err
      | Inr before \<Rightarrow>
          (case load afterPath of
             Inl err \<Rightarrow> Inl err
           | Inr after \<Rightarrow> Inr (compare beforePath afterPath before after)))"

lemma compare_files_Inr:
  "compare_files load compare bp ap = Inr r \<longleftrightarrow>
   (\<exists>b a. load bp = Inr b \<and> load ap = Inr a \<and> r = compare bp ap b a)"
  by (auto simp: compare_files_def split: sum.splits)

text \<open>A comparison is written only when it validates.\<close>

definition WriteValidated :: "('r \<Rightarrow> message option) \<Rightarrow> ('r \<Rightarrow> message + string) \<Rightarrow> 'r \<Rightarrow> message + string" where
  "WriteValidated validate encode r = (case validate r of Some err \<Rightarrow> Inl err | None \<Rightarrow> encode r)"

definition present_not_blank :: "string \<Rightarrow> bool" where
  "present_not_blank s \<longleftrightarrow> s = [] \<or> \<not> blank s"

section \<open>Nublar runs\<close>

abbreviation NublarRunSchema :: string where "NublarRunSchema \<equiv> ''ingen.nublar-run/v1''"
abbreviation nublarRunComparisonSchema :: string where
  "nublarRunComparisonSchema \<equiv> ''ingen.sattler-nublar-run-comparison/v0''"

record nublarRunCheck =
  nrc_ID :: string
  nrc_Check :: NublarCheckSummary

record nublarRunDocument =
  nrd_Schema :: string
  nrd_RunID :: string
  nrd_WorkflowID :: string
  nrd_WorkflowFile :: FileRef
  nrd_Correlation :: "NublarCorrelationSummary option"
  nrd_Status :: string
  nrd_ExitCode :: int
  nrd_CreatedAt :: string
  nrd_CompletedAt :: string
  nrd_Checks :: "nublarRunCheck list"

record NublarRunSummary =
  ns_Path :: string
  ns_Schema :: string
  ns_RunID :: string
  ns_WorkflowID :: string
  ns_WorkflowFile :: FileRef
  ns_Correlation :: "NublarCorrelationSummary option"
  ns_Status :: string
  ns_ExitCode :: int
  ns_CreatedAt :: string
  ns_CompletedAt :: string
  ns_Checks :: "(string, NublarCheckSummary) gomap"

record NublarRunComparison = SharedReport +
  nm_Before :: NublarRunSummary
  nm_After :: NublarRunSummary

definition bad_correlation :: "NublarCorrelationSummary option \<Rightarrow> bool" where
  "bad_correlation c =
     (case c of None \<Rightarrow> False
      | Some x \<Rightarrow> blank (nc_System x) \<or> blank (nc_ID x) \<or> nc_Attempt x < 1)"

fun nublar_checks_problem :: "string \<Rightarrow> string list \<Rightarrow> nublarRunCheck list \<Rightarrow> message option" where
  "nublar_checks_problem path seen [] = None"
| "nublar_checks_problem path seen (c # cs) =
     (if blank (nrc_ID c) then Some [T ''Nublar run '', T path, T '' contains a check without an id'']
      else if nrc_ID c \<in> set seen then Some [T ''Nublar run '', T path, T '' duplicates check '', Q (nrc_ID c)]
      else nublar_checks_problem path (nrc_ID c # seen) cs)"

definition nublar_run_problem :: "string \<Rightarrow> nublarRunDocument \<Rightarrow> message option" where
  "nublar_run_problem path d =
     first_some
       [fail_if (nrd_Schema d \<noteq> NublarRunSchema)
          [T ''Nublar run schema must be '', T NublarRunSchema, T '', got '', Q (nrd_Schema d)],
        fail_if (blank (nrd_RunID d) \<or> blank (nrd_WorkflowID d))
          [T ''Nublar run '', T path, T '' needs a run_id and workflow id''],
        fail_if (blank (fr_Path (nrd_WorkflowFile d)))
          [T ''Nublar run '', T path, T '' needs a workflow file path''],
        fail_if (blank (fr_SHA256 (nrd_WorkflowFile d)))
          [T ''Nublar run '', T path, T '' needs a workflow file sha256''],
        fail_if (bad_correlation (nrd_Correlation d))
          [T ''Nublar run '', T path, T '' has an invalid correlation''],
        fail_if (nrd_Checks d = []) [T ''Nublar run '', T path, T '' needs at least one check''],
        nublar_checks_problem path [] (nrd_Checks d)]"

definition loadNublarRun ::
  "(string \<Rightarrow> message + string) \<Rightarrow> (string \<Rightarrow> message + nublarRunDocument) \<Rightarrow> string \<Rightarrow> message + nublarRunDocument" where
  "loadNublarRun read decode = load_document ''Nublar run '' read decode nublar_run_problem"

definition summarizeNublarRun :: "nublarRunDocument \<Rightarrow> NublarRunSummary" where
  "summarizeNublarRun d =
     \<lparr>ns_Path = [], ns_Schema = nrd_Schema d, ns_RunID = nrd_RunID d, ns_WorkflowID = nrd_WorkflowID d,
      ns_WorkflowFile = nrd_WorkflowFile d, ns_Correlation = nrd_Correlation d, ns_Status = nrd_Status d,
      ns_ExitCode = nrd_ExitCode d, ns_CreatedAt = nrd_CreatedAt d, ns_CompletedAt = nrd_CompletedAt d,
      ns_Checks = keyed_map nrc_ID nrc_Check (nrd_Checks d)\<rparr>"

definition optional_value :: "('a \<Rightarrow> Value) \<Rightarrow> 'a option \<Rightarrow> Value" where
  "optional_value f x = (case x of None \<Rightarrow> VNil | Some v \<Rightarrow> f v)"

definition nublar_check_obs ::
  "(string, NublarCheckSummary) gomap \<Rightarrow> (string, NublarCheckSummary) gomap \<Rightarrow> string \<Rightarrow> observation" where
  "nublar_check_obs before after i =
     (''check'', ''checks.'' @ i, optional_value VCheck (map_of before i), optional_value VCheck (map_of after i), [])"

definition nublar_run_obs :: "nublarRunDocument \<Rightarrow> nublarRunDocument \<Rightarrow> observation list" where
  "nublar_run_obs before after =
     [(''context'', ''workflow.id'', VString (nrd_WorkflowID before), VString (nrd_WorkflowID after), []),
      (''context'', ''workflow.file'', VFileRef (nrd_WorkflowFile before), VFileRef (nrd_WorkflowFile after), []),
      (''context'', ''correlation'', optional_value VCorrelation (nrd_Correlation before),
         optional_value VCorrelation (nrd_Correlation after), []),
      (''verdict'', ''status'', VString (nrd_Status before), VString (nrd_Status after), []),
      (''verdict'', ''exit_code'', VInt (nrd_ExitCode before), VInt (nrd_ExitCode after), [])]"

definition nublar_obs :: "nublarRunDocument \<Rightarrow> nublarRunDocument \<Rightarrow> observation list" where
  "nublar_obs before after =
     (let b = ns_Checks (summarizeNublarRun before); a = ns_Checks (summarizeNublarRun after)
      in nublar_run_obs before after @ map (nublar_check_obs b a) (union_keys b a))"

definition compareNublarRuns ::
  "(Value \<Rightarrow> 'j option) \<Rightarrow> nublarRunDocument \<Rightarrow> nublarRunDocument \<Rightarrow> NublarRunComparison" where
  "compareNublarRuns marshal before after =
     (let reasons = changed_from ''workflow id'' (nrd_WorkflowID before) (nrd_WorkflowID after);
          changes = observe_all marshal (nublar_obs before after)
      in \<lparr>rt_Schema = nublarRunComparisonSchema, rt_Compatible = (reasons = []), rt_Reasons = reasons,
          rt_Transition = NewStateTransition ''status'' (nrd_Status before) (nrd_Status after) (reasons = []),
          rt_Filter = [], rt_Changes = changes, rt_Summary = SummarizeChanges changes,
          nm_Before = summarizeNublarRun before, nm_After = summarizeNublarRun after\<rparr>)"

definition label_nublar :: "string \<Rightarrow> string \<Rightarrow> NublarRunComparison \<Rightarrow> NublarRunComparison" where
  "label_nublar beforePath afterPath r =
     r\<lparr>nm_Before := (nm_Before r)\<lparr>ns_Path := beforePath\<rparr>, nm_After := (nm_After r)\<lparr>ns_Path := afterPath\<rparr>\<rparr>"

definition CompareNublarRunFiles ::
  "(string \<Rightarrow> message + string) \<Rightarrow> (string \<Rightarrow> message + nublarRunDocument) \<Rightarrow> (Value \<Rightarrow> 'j option)
   \<Rightarrow> string \<Rightarrow> string \<Rightarrow> message + NublarRunComparison" where
  "CompareNublarRunFiles read decode marshal =
     compare_files (loadNublarRun read decode)
       (\<lambda>bp ap before after. label_nublar bp ap (compareNublarRuns marshal before after))"

definition FilterNublarRunChanges :: "NublarRunComparison \<Rightarrow> string list \<Rightarrow> NublarRunComparison" where
  "FilterNublarRunChanges r ids = filter_report ids r"

definition nublar_timestamp_problem :: "string \<Rightarrow> string \<times> string \<Rightarrow> message option" where
  "nublar_timestamp_problem side x =
     fail_if (snd x \<noteq> [] \<and> \<not> valid_rfc3339 (snd x))
       [T ''Nublar '', T side, T '' '', T (fst x), T '' must be RFC3339: '']"

definition nublar_check_problem :: "string \<Rightarrow> string \<times> NublarCheckSummary \<Rightarrow> message option" where
  "nublar_check_problem side x =
     fail_if (blank (fst x) \<or> blank (nk_Tool (snd x)) \<or> blank (nk_Status (snd x)))
       [T ''Nublar '', T side, T '' contains an invalid check '', Q (fst x)]"

definition validateNublarRunSummary :: "string \<Rightarrow> NublarRunSummary \<Rightarrow> message option" where
  "validateNublarRunSummary side s =
     first_some
       [fail_if (ns_Schema s \<noteq> NublarRunSchema)
          [T ''Nublar '', T side, T '' schema must be '', T NublarRunSchema, T '', got '', Q (ns_Schema s)],
        fail_if (ns_Path s \<noteq> [] \<and> blank (ns_Path s))
          [T ''Nublar '', T side, T '' path cannot be empty when present''],
        fail_if (blank (ns_RunID s)) [T ''Nublar '', T side, T '' needs a run ID''],
        fail_if (blank (ns_WorkflowID s)) [T ''Nublar '', T side, T '' needs a workflow ID''],
        fail_if (blank (fr_SHA256 (ns_WorkflowFile s)))
          [T ''Nublar '', T side, T '' needs a workflow file sha256''],
        validateFileRef (''Nublar '' @ side @ '' workflow file'') (Some (ns_WorkflowFile s)),
        fail_if (bad_correlation (ns_Correlation s)) [T ''Nublar '', T side, T '' has an invalid correlation''],
        fail_if (blank (ns_Status s) \<or> ns_ExitCode s < 0)
          [T ''Nublar '', T side, T '' needs a status and nonnegative exit code''],
        first_error (nublar_timestamp_problem side)
          [(''created_at'', ns_CreatedAt s), (''completed_at'', ns_CompletedAt s)],
        fail_if (ns_Checks s = []) [T ''Nublar '', T side, T '' needs at least one check''],
        first_error (nublar_check_problem side) (ns_Checks s)]"

definition NublarRunComparison_Validate :: "NublarRunComparison \<Rightarrow> message option" where
  "NublarRunComparison_Validate r =
     first_some
       [fail_if (rt_Schema r \<noteq> nublarRunComparisonSchema)
          [T ''Nublar comparison schema must be '', T nublarRunComparisonSchema, T '', got '', Q (rt_Schema r)],
        validateNublarRunSummary ''before'' (nm_Before r),
        validateNublarRunSummary ''after'' (nm_After r),
        fail_if (tr_Field (rt_Transition r) \<noteq> ''status'')
          [T ''Nublar comparison transition field must be status, got '', Q (tr_Field (rt_Transition r))],
        validateBundleAdapterEnvelope ''nublar_run'' nublarRunComparisonSchema r []]"


subsection \<open>What validates\<close>

lemma summarizeNublarRun_simps [simp]:
  "ns_Checks (summarizeNublarRun d) = keyed_map nrc_ID nrc_Check (nrd_Checks d)"
  "ns_Status (summarizeNublarRun d) = nrd_Status d" "ns_RunID (summarizeNublarRun d) = nrd_RunID d"
  "ns_Correlation (summarizeNublarRun d) = nrd_Correlation d" "ns_Path (summarizeNublarRun d) = []"
  by (simp_all add: summarizeNublarRun_def)

lemma union_keys_length: "length (union_keys a b) \<le> length a + length b"
  unfolding union_keys_def length_sort by (rule order_trans[OF length_remdups_leq]) simp

lemma StableChangeID_same [simp]: "StableChangeID c f = StableChangeID c f' \<longleftrightarrow> f = f'"
  by (simp add: StableChangeID_def)

lemma nublar_obs_wf: "obs_wf (nublar_obs b a)"
proof -
  let ?f = "nublar_check_obs (ns_Checks (summarizeNublarRun b)) (ns_Checks (summarizeNublarRun a))"
  have ids: "map ob_id (nublar_run_obs b a) =
      [''context.workflow.id'', ''context.workflow.file'', ''context.correlation'', ''verdict.status'', ''verdict.exit_code'']"
    by (simp add: nublar_run_obs_def ob_id_def StableChangeID_def)
  have "obs_wf (nublar_run_obs b a)"
    unfolding obs_wf_def ids
    by (simp add: nublar_run_obs_def ob_named_def plain_head_not_blank plain_byte_def byte_def)
  moreover have "obs_wf (map ?f ks)" if "distinct ks" for ks
    using that
    by (intro obs_wf_map)
      (simp_all add: nublar_check_obs_def ob_named_def ob_id_def inj_on_def plain_head_not_blank plain_byte_def byte_def)
  moreover have "ob_id ` set (map ?f ks) \<inter> ob_id ` set (nublar_run_obs b a) = {}" for ks
    by (rule fresh_ids) (simp add: ids[unfolded set_map[symmetric]] ids nublar_check_obs_def ob_id_def StableChangeID_def del: set_map)
  ultimately show ?thesis
    unfolding nublar_obs_def Let_def obs_wf_append by (metis Int_commute union_keys_distinct)
qed

definition nublar_fit :: "nublarRunDocument \<Rightarrow> bool" where
  "nublar_fit d \<longleftrightarrow> int (length (nrd_Checks d)) < 2 ^ 59"

lemma nublar_length:
  assumes "nublar_fit b" "nublar_fit a"
  shows "int (length (observe_all marshal (nublar_obs b a))) < 2 ^ 61"
proof -
  have "length (nublar_obs b a) \<le> 5 + length (nrd_Checks b) + length (nrd_Checks a)"
    using union_keys_length[of "ns_Checks (summarizeNublarRun b)" "ns_Checks (summarizeNublarRun a)"]
      keyed_map_length[of nrc_ID nrc_Check "nrd_Checks b"] keyed_map_length[of nrc_ID nrc_Check "nrd_Checks a"]
    by (simp add: nublar_obs_def Let_def nublar_run_obs_def)
  then show ?thesis
    using observe_all_length[of marshal "nublar_obs b a"] assms by (simp add: nublar_fit_def)
qed

lemma nublar_report_wf:
  assumes "nublar_fit b" "nublar_fit a"
  shows "report_wf nublarRunComparisonSchema (compareNublarRuns marshal b a)"
  using observe_all_wf[OF nublar_obs_wf] nublar_length[OF assms, of marshal]
  by (auto simp: report_wf_def compareNublarRuns_def Let_def dest: changed_from_not_blank)

lemma nublar_checks_distinct:
  "nublar_checks_problem path seen cs = None \<longleftrightarrow>
   (\<forall>c \<in> set cs. \<not> blank (nrc_ID c)) \<and> distinct (map nrc_ID cs) \<and> set seen \<inter> nrc_ID ` set cs = {}"
  by (induction path seen cs rule: nublar_checks_problem.induct) auto

text \<open>What the loader does not ask of a run and the validation of a comparison does.\<close>

definition nublar_writable :: "nublarRunDocument \<Rightarrow> bool" where
  "nublar_writable d \<longleftrightarrow>
     length (fr_SHA256 (nrd_WorkflowFile d)) = 64 \<and> valid_hex (fr_SHA256 (nrd_WorkflowFile d)) \<and>
     \<not> blank (nrd_Status d) \<and> 0 \<le> nrd_ExitCode d \<and>
     (nrd_CreatedAt d = [] \<or> valid_rfc3339 (nrd_CreatedAt d)) \<and>
     (nrd_CompletedAt d = [] \<or> valid_rfc3339 (nrd_CompletedAt d)) \<and>
     (\<forall>c \<in> set (nrd_Checks d). \<not> blank (nk_Tool (nrc_Check c)) \<and> \<not> blank (nk_Status (nrc_Check c)))"

lemma nublar_summary_iff:
  assumes "nublar_run_problem path d = None"
  shows "validateNublarRunSummary side (summarizeNublarRun d\<lparr>ns_Path := label\<rparr>) = None \<longleftrightarrow>
         nublar_writable d \<and> present_not_blank label"
proof -
  have ids: "distinct (map nrc_ID (nrd_Checks d))" "\<And>c. c \<in> set (nrd_Checks d) \<Longrightarrow> \<not> blank (nrc_ID c)"
    using assms by (auto simp: nublar_run_problem_def check_simps nublar_checks_distinct)
  have checks: "first_error (nublar_check_problem side) (keyed_map nrc_ID nrc_Check (nrd_Checks d)) = None \<longleftrightarrow>
    (\<forall>c \<in> set (nrd_Checks d). \<not> blank (nk_Tool (nrc_Check c)) \<and> \<not> blank (nk_Status (nrc_Check c)))"
    (is "?l \<longleftrightarrow> ?r")
  proof
    assume ?l
    then show ?r
      using keyed_map_complete[OF ids(1)] by (force simp: first_error_None nublar_check_problem_def)
  next
    assume ?r
    then show ?l
      using keyed_map_mem[of _ _ nrc_ID nrc_Check "nrd_Checks d"] ids(2)
      by (auto simp: first_error_None nublar_check_problem_def) metis+
  qed
  have times: "first_error (nublar_timestamp_problem side) [(''created_at'', x), (''completed_at'', y)] = None \<longleftrightarrow>
      (x = [] \<or> valid_rfc3339 x) \<and> (y = [] \<or> valid_rfc3339 y)" for x y
    by (simp only: first_error_None) (auto simp: nublar_timestamp_problem_def)
  from assms show ?thesis
    unfolding validateNublarRunSummary_def nublar_run_problem_def first_some_Cons_None first_some_Nil_None
    by (simp add: checks times summarizeNublarRun_def validateFileRef_Some_None nublar_writable_def
        present_not_blank_def del: first_error.simps) auto
qed


lemma blank_Nil [simp]: "blank []"
  by simp

lemma nublar_comparison_iff:
  assumes "report_wf nublarRunComparisonSchema r"
  shows "NublarRunComparison_Validate r = None \<longleftrightarrow>
    validateNublarRunSummary ''before'' (nm_Before r) = None \<and>
    validateNublarRunSummary ''after'' (nm_After r) = None \<and>
    tr_Field (rt_Transition r) = ''status'' \<and> StateTransition_Validate (rt_Transition r) = None"
  using assms report_wf_valid[OF assms, of "[]"]
  by (auto simp: NublarRunComparison_Validate_def check_simps report_wf_def)

lemma compareNublarRuns_simps [simp]:
  "nm_Before (compareNublarRuns marshal b a) = summarizeNublarRun b"
  "nm_After (compareNublarRuns marshal b a) = summarizeNublarRun a"
  "rt_Transition (compareNublarRuns marshal b a) =
     NewStateTransition ''status'' (nrd_Status b) (nrd_Status a) (nrd_WorkflowID b = nrd_WorkflowID a)"
  "rt_Changes (compareNublarRuns marshal b a) = observe_all marshal (nublar_obs b a)"
  by (simp_all add: compareNublarRuns_def Let_def changed_from_def)

lemma label_nublar_simps [simp]:
  "report_wf schema (label_nublar bp ap r) \<longleftrightarrow> report_wf schema r"
  "nm_Before (label_nublar bp ap r) = nm_Before r\<lparr>ns_Path := bp\<rparr>"
  "nm_After (label_nublar bp ap r) = nm_After r\<lparr>ns_Path := ap\<rparr>"
  "rt_Transition (label_nublar bp ap r) = rt_Transition r"
  "rt_Changes (label_nublar bp ap r) = rt_Changes r"
  by (simp_all add: label_nublar_def report_wf_def)

lemma loaded_nublar_iff:
  assumes "nublar_run_problem bp b = None" "nublar_run_problem ap a = None" "nublar_fit b" "nublar_fit a"
  shows "NublarRunComparison_Validate (label_nublar bp ap (compareNublarRuns marshal b a)) = None \<longleftrightarrow>
    nublar_writable b \<and> nublar_writable a \<and> present_not_blank bp \<and> present_not_blank ap"
proof -
  have "report_wf nublarRunComparisonSchema (label_nublar bp ap (compareNublarRuns marshal b a))"
    using nublar_report_wf[OF assms(3,4)] by simp
  then show ?thesis
    using nublar_summary_iff[OF assms(1)] nublar_summary_iff[OF assms(2)]
    by (auto simp: nublar_comparison_iff nublar_writable_def)
qed

section \<open>Lockwood custody records\<close>

abbreviation LockwoodCustodySchema :: string where "LockwoodCustodySchema \<equiv> ''lockwood.custody/v1''"
abbreviation lockwoodCustodyComparisonSchema :: string where
  "lockwoodCustodyComparisonSchema \<equiv> ''ingen.sattler-lockwood-custody-comparison/v0''"

record lockwoodCustodyDocument =
  lcd_Schema :: string
  lcd_CustodyID :: string
  lcd_Status :: string
  lcd_ReceivedAt :: string
  lcd_ArtifactSchema :: string
  lcd_ArtifactDigest :: string
  lcd_ProducerTool :: string
  lcd_ProducerKind :: string
  lcd_SourceRunID :: string
  lcd_IntegrityStatus :: string

record LockwoodCustodySummary =
  ls_Path :: string
  ls_Schema :: string
  ls_CustodyID :: string
  ls_Status :: string
  ls_ReceivedAt :: string
  ls_ArtifactDigest :: string
  ls_ProducerTool :: string
  ls_ProducerKind :: string
  ls_SourceRunID :: string
  ls_IntegrityStatus :: string

record LockwoodCustodyComparison = SharedReport +
  lm_Before :: LockwoodCustodySummary
  lm_After :: LockwoodCustodySummary

definition validateLockwoodCustodyDigest :: "string \<Rightarrow> string \<Rightarrow> message option" where
  "validateLockwoodCustodyDigest side digest =
     (case strip_prefix ''sha256:'' digest of
        None \<Rightarrow> Some [T ''Lockwood custody '', T side,
                      T '' artifact digest must be sha256 followed by 64 hexadecimal characters'']
      | Some encoded \<Rightarrow>
          first_some
            [fail_if (length encoded \<noteq> 64) [T ''Lockwood custody '', T side,
               T '' artifact digest must be sha256 followed by 64 hexadecimal characters''],
             fail_if (\<not> valid_hex encoded) [T ''Lockwood custody '', T side,
               T '' artifact digest must be sha256 followed by 64 hexadecimal characters: '']])"

definition lockwood_custody_problem :: "string \<Rightarrow> lockwoodCustodyDocument \<Rightarrow> message option" where
  "lockwood_custody_problem path d =
     first_some
       [fail_if (lcd_Schema d \<noteq> LockwoodCustodySchema)
          [T ''Lockwood custody schema must be '', T LockwoodCustodySchema, T '', got '', Q (lcd_Schema d)],
        fail_if (blank (lcd_CustodyID d) \<or> blank (lcd_Status d))
          [T ''Lockwood custody record '', T path, T '' needs custody_id and status''],
        fail_if (lcd_ArtifactSchema d \<noteq> ''lockwood.artifact/v1'' \<or> blank (lcd_ArtifactDigest d))
          [T ''Lockwood custody record '', T path, T '' needs a lockwood.artifact/v1 digest''],
        fail_if (blank (lcd_ProducerTool d) \<or> blank (lcd_ProducerKind d))
          [T ''Lockwood custody record '', T path, T '' needs producer tool and kind''],
        fail_if (blank (lcd_IntegrityStatus d))
          [T ''Lockwood custody record '', T path, T '' needs integrity status''],
        fail_if (blank (lcd_ReceivedAt d)) [T ''Lockwood custody record '', T path, T '' needs received_at''],
        fail_if (\<not> valid_rfc3339 (lcd_ReceivedAt d))
          [T ''Lockwood custody record '', T path, T '' received_at must be RFC3339: ''],
        validateLockwoodCustodyDigest path (lcd_ArtifactDigest d)]"

definition loadLockwoodCustody ::
  "(string \<Rightarrow> message + string) \<Rightarrow> (string \<Rightarrow> message + lockwoodCustodyDocument) \<Rightarrow> string
   \<Rightarrow> message + lockwoodCustodyDocument" where
  "loadLockwoodCustody read decode =
     load_document ''Lockwood custody record '' read decode lockwood_custody_problem"

definition summarizeLockwoodCustody :: "lockwoodCustodyDocument \<Rightarrow> LockwoodCustodySummary" where
  "summarizeLockwoodCustody d =
     \<lparr>ls_Path = [], ls_Schema = lcd_Schema d, ls_CustodyID = lcd_CustodyID d, ls_Status = lcd_Status d,
      ls_ReceivedAt = lcd_ReceivedAt d, ls_ArtifactDigest = lcd_ArtifactDigest d,
      ls_ProducerTool = lcd_ProducerTool d, ls_ProducerKind = lcd_ProducerKind d,
      ls_SourceRunID = lcd_SourceRunID d, ls_IntegrityStatus = lcd_IntegrityStatus d\<rparr>"

definition custody_obs :: "lockwoodCustodyDocument \<Rightarrow> lockwoodCustodyDocument \<Rightarrow> observation list" where
  "custody_obs before after =
     [(''custody'', ''status'', VString (lcd_Status before), VString (lcd_Status after), []),
      (''artifact'', ''artifact.digest'', VString (lcd_ArtifactDigest before), VString (lcd_ArtifactDigest after),
         CompareArtifactDigests (lcd_ArtifactDigest before) (lcd_ArtifactDigest after)),
      (''context'', ''source.run_id'', VString (lcd_SourceRunID before), VString (lcd_SourceRunID after), []),
      (''custody'', ''integrity.status'', VString (lcd_IntegrityStatus before),
         VString (lcd_IntegrityStatus after), [])]"

definition compareLockwoodCustody ::
  "(Value \<Rightarrow> 'j option) \<Rightarrow> lockwoodCustodyDocument \<Rightarrow> lockwoodCustodyDocument \<Rightarrow> LockwoodCustodyComparison" where
  "compareLockwoodCustody marshal before after =
     (let reasons = changed_from ''producer tool'' (lcd_ProducerTool before) (lcd_ProducerTool after) @
                    changed_from ''producer kind'' (lcd_ProducerKind before) (lcd_ProducerKind after);
          changes = observe_all marshal (custody_obs before after)
      in \<lparr>rt_Schema = lockwoodCustodyComparisonSchema, rt_Compatible = (reasons = []), rt_Reasons = reasons,
          rt_Transition = NewStateTransition ''status'' (lcd_Status before) (lcd_Status after) (reasons = []),
          rt_Filter = [], rt_Changes = changes, rt_Summary = SummarizeChanges changes,
          lm_Before = summarizeLockwoodCustody before, lm_After = summarizeLockwoodCustody after\<rparr>)"

definition label_custody :: "string \<Rightarrow> string \<Rightarrow> LockwoodCustodyComparison \<Rightarrow> LockwoodCustodyComparison" where
  "label_custody beforePath afterPath r =
     r\<lparr>lm_Before := (lm_Before r)\<lparr>ls_Path := beforePath\<rparr>, lm_After := (lm_After r)\<lparr>ls_Path := afterPath\<rparr>\<rparr>"

definition CompareLockwoodCustodyFiles ::
  "(string \<Rightarrow> message + string) \<Rightarrow> (string \<Rightarrow> message + lockwoodCustodyDocument) \<Rightarrow> (Value \<Rightarrow> 'j option)
   \<Rightarrow> string \<Rightarrow> string \<Rightarrow> message + LockwoodCustodyComparison" where
  "CompareLockwoodCustodyFiles read decode marshal =
     compare_files (loadLockwoodCustody read decode)
       (\<lambda>bp ap before after. label_custody bp ap (compareLockwoodCustody marshal before after))"

definition FilterLockwoodCustodyChanges :: "LockwoodCustodyComparison \<Rightarrow> string list \<Rightarrow> LockwoodCustodyComparison" where
  "FilterLockwoodCustodyChanges r ids = filter_report ids r"

definition validateLockwoodCustodySummary :: "string \<Rightarrow> LockwoodCustodySummary \<Rightarrow> message option" where
  "validateLockwoodCustodySummary side s =
     first_some
       [fail_if (ls_Schema s \<noteq> LockwoodCustodySchema)
          [T ''Lockwood custody '', T side, T '' schema must be '', T LockwoodCustodySchema, T '', got '', Q (ls_Schema s)],
        fail_if (ls_Path s \<noteq> [] \<and> blank (ls_Path s))
          [T ''Lockwood custody '', T side, T '' path cannot be empty when present''],
        fail_if (blank (ls_CustodyID s) \<or> blank (ls_Status s))
          [T ''Lockwood custody '', T side, T '' needs custody ID and status''],
        fail_if (blank (ls_ReceivedAt s))
          [T ''Lockwood custody '', T side, T '' needs a received_at timestamp''],
        fail_if (\<not> valid_rfc3339 (ls_ReceivedAt s))
          [T ''Lockwood custody '', T side, T '' received_at must be RFC3339: ''],
        validateLockwoodCustodyDigest side (ls_ArtifactDigest s),
        fail_if (blank (ls_ProducerTool s) \<or> blank (ls_ProducerKind s))
          [T ''Lockwood custody '', T side, T '' needs producer tool and kind''],
        fail_if (blank (ls_SourceRunID s) \<and> ls_SourceRunID s \<noteq> [])
          [T ''Lockwood custody '', T side, T '' source run ID cannot be empty when present''],
        fail_if (blank (ls_IntegrityStatus s))
          [T ''Lockwood custody '', T side, T '' needs integrity status'']]"

definition LockwoodCustodyComparison_Validate :: "LockwoodCustodyComparison \<Rightarrow> message option" where
  "LockwoodCustodyComparison_Validate r =
     first_some
       [fail_if (rt_Schema r \<noteq> lockwoodCustodyComparisonSchema)
          [T ''Lockwood custody comparison schema must be '', T lockwoodCustodyComparisonSchema, T '', got '',
           Q (rt_Schema r)],
        validateLockwoodCustodySummary ''before'' (lm_Before r),
        validateLockwoodCustodySummary ''after'' (lm_After r),
        fail_if (tr_Field (rt_Transition r) \<noteq> ''status'')
          [T ''Lockwood custody comparison transition field must be status, got '', Q (tr_Field (rt_Transition r))],
        validateBundleAdapterEnvelope ''custody'' lockwoodCustodyComparisonSchema r []]"

lemma custody_digest_side:
  "validateLockwoodCustodyDigest side d = None \<longleftrightarrow> validateLockwoodCustodyDigest other d = None"
  by (auto simp: validateLockwoodCustodyDigest_def check_simps split: option.split)

lemma custody_summary_iff:
  assumes "lockwood_custody_problem path d = None"
  shows "validateLockwoodCustodySummary side (summarizeLockwoodCustody d\<lparr>ls_Path := label\<rparr>) = None \<longleftrightarrow>
         present_not_blank (lcd_SourceRunID d) \<and> present_not_blank label"
  using assms custody_digest_side[of side "lcd_ArtifactDigest d" path]
  by (auto simp: validateLockwoodCustodySummary_def lockwood_custody_problem_def check_simps
      summarizeLockwoodCustody_def present_not_blank_def)

lemma custody_obs_wf: "obs_wf (custody_obs b a)"
  by (simp add: obs_wf_def custody_obs_def ob_named_def ob_id_def StableChangeID_def plain_head_not_blank
      plain_byte_def byte_def)

lemma observe_fit: "length obs < 100 \<Longrightarrow> int (length (observe_all marshal obs)) < 2 ^ 63"
  using observe_all_length[of marshal obs] by simp

lemma custody_report_wf: "report_wf lockwoodCustodyComparisonSchema (compareLockwoodCustody marshal b a)"
  using observe_all_wf[OF custody_obs_wf] observe_fit[of "custody_obs b a" marshal]
  by (auto simp: report_wf_def compareLockwoodCustody_def Let_def custody_obs_def[THEN arg_cong[of _ _ length]]
      dest: changed_from_not_blank)

lemma loaded_custody_iff:
  assumes "lockwood_custody_problem bp b = None" "lockwood_custody_problem ap a = None"
  shows "LockwoodCustodyComparison_Validate (label_custody bp ap (compareLockwoodCustody marshal b a)) = None \<longleftrightarrow>
    present_not_blank (lcd_SourceRunID b) \<and> present_not_blank (lcd_SourceRunID a) \<and>
    present_not_blank bp \<and> present_not_blank ap"
proof -
  let ?r = "label_custody bp ap (compareLockwoodCustody marshal b a)"
  have wf: "report_wf lockwoodCustodyComparisonSchema ?r"
    using custody_report_wf[of marshal b a] by (simp add: label_custody_def report_wf_def)
  have "validateBundleAdapterEnvelope ''custody'' lockwoodCustodyComparisonSchema ?r [] = None \<longleftrightarrow>
    StateTransition_Validate (rt_Transition ?r) = None"
    using report_wf_valid[OF wf] by simp
  moreover have "lm_Before ?r = summarizeLockwoodCustody b\<lparr>ls_Path := bp\<rparr>"
    "lm_After ?r = summarizeLockwoodCustody a\<lparr>ls_Path := ap\<rparr>"
    "rt_Schema ?r = lockwoodCustodyComparisonSchema" "tr_Field (rt_Transition ?r) = ''status''"
    by (simp_all add: label_custody_def compareLockwoodCustody_def Let_def)
  moreover have "StateTransition_Validate (rt_Transition ?r) = None"
    using assms by (auto simp: label_custody_def compareLockwoodCustody_def Let_def lockwood_custody_problem_def check_simps)
  ultimately show ?thesis
    using custody_summary_iff[OF assms(1)] custody_summary_iff[OF assms(2)]
    by (auto simp: LockwoodCustodyComparison_Validate_def check_simps)
qed


section \<open>Amber provenance\<close>

abbreviation amberProvenanceComparisonSchema :: string where
  "amberProvenanceComparisonSchema \<equiv> ''ingen.sattler-amber-provenance-comparison/v0''"

record amberProvenanceDocument =
  apd_Version :: int
  apd_WorkID :: string
  apd_ExecutionID :: string
  apd_CorrelationID :: string
  apd_Origin :: string
  apd_Depth :: int
  apd_Attempt :: int
  apd_ModeKind :: string
  apd_ModeOfExecutionID :: string

record AmberProvenanceSummary =
  ap_Path :: string
  ap_Version :: int
  ap_WorkID :: string
  ap_ExecutionID :: string
  ap_CorrelationID :: string
  ap_Origin :: string
  ap_Depth :: int
  ap_Attempt :: int
  ap_ModeKind :: string
  ap_ModeOfExecutionID :: string

record AmberProvenanceComparison = SharedReport +
  am_Before :: AmberProvenanceSummary
  am_After :: AmberProvenanceSummary

text \<open>The required fields are ranged over as a map: the order decides which error is reported.\<close>

definition amber_provenance_problem :: "string \<Rightarrow> amberProvenanceDocument \<Rightarrow> message option" where
  "amber_provenance_problem path d =
     first_some
       [fail_if (apd_Version d \<noteq> 1)
          [T ''Amber provenance version must be '', D 1, T '', got '', D (apd_Version d)],
        first_error (\<lambda>(name, value). fail_if (blank value) [T ''Amber provenance '', T name, T '' is required''])
          [(''work_id'', apd_WorkID d), (''execution_id'', apd_ExecutionID d),
           (''correlation_id'', apd_CorrelationID d), (''origin'', apd_Origin d), (''mode.kind'', apd_ModeKind d)],
        fail_if (apd_Attempt d = 0) [T ''Amber provenance attempt must be positive'']]"

definition loadAmberProvenance ::
  "(string \<Rightarrow> message + string) \<Rightarrow> (string \<Rightarrow> message + amberProvenanceDocument) \<Rightarrow> string
   \<Rightarrow> message + amberProvenanceDocument" where
  "loadAmberProvenance read decode = load_document ''Amber provenance '' read decode amber_provenance_problem"

definition summarizeAmberProvenance :: "amberProvenanceDocument \<Rightarrow> AmberProvenanceSummary" where
  "summarizeAmberProvenance d =
     \<lparr>ap_Path = [], ap_Version = apd_Version d, ap_WorkID = apd_WorkID d, ap_ExecutionID = apd_ExecutionID d,
      ap_CorrelationID = apd_CorrelationID d, ap_Origin = apd_Origin d, ap_Depth = apd_Depth d,
      ap_Attempt = apd_Attempt d, ap_ModeKind = apd_ModeKind d,
      ap_ModeOfExecutionID = apd_ModeOfExecutionID d\<rparr>"

definition provenance_obs :: "amberProvenanceDocument \<Rightarrow> amberProvenanceDocument \<Rightarrow> observation list" where
  "provenance_obs before after =
     [(''identity'', ''work_id'', VString (apd_WorkID before), VString (apd_WorkID after), []),
      (''identity'', ''execution_id'', VString (apd_ExecutionID before), VString (apd_ExecutionID after), []),
      (''identity'', ''correlation_id'', VString (apd_CorrelationID before), VString (apd_CorrelationID after), []),
      (''context'', ''origin'', VString (apd_Origin before), VString (apd_Origin after), []),
      (''context'', ''depth'', VInt (apd_Depth before), VInt (apd_Depth after), []),
      (''context'', ''attempt'', VInt (apd_Attempt before), VInt (apd_Attempt after), []),
      (''context'', ''mode.kind'', VString (apd_ModeKind before), VString (apd_ModeKind after), []),
      (''context'', ''mode.of_execution_id'', VString (apd_ModeOfExecutionID before),
         VString (apd_ModeOfExecutionID after), [])]"

definition compareAmberProvenance ::
  "(Value \<Rightarrow> 'j option) \<Rightarrow> amberProvenanceDocument \<Rightarrow> amberProvenanceDocument \<Rightarrow> AmberProvenanceComparison" where
  "compareAmberProvenance marshal before after =
     (let reasons = changed_from ''work id'' (apd_WorkID before) (apd_WorkID after) @
                    changed_from ''correlation id'' (apd_CorrelationID before) (apd_CorrelationID after);
          changes = observe_all marshal (provenance_obs before after)
      in \<lparr>rt_Schema = amberProvenanceComparisonSchema, rt_Compatible = (reasons = []), rt_Reasons = reasons,
          rt_Transition = NewStateTransition ''mode.kind'' (apd_ModeKind before) (apd_ModeKind after) (reasons = []),
          rt_Filter = [], rt_Changes = changes, rt_Summary = SummarizeChanges changes,
          am_Before = summarizeAmberProvenance before, am_After = summarizeAmberProvenance after\<rparr>)"

definition label_provenance :: "string \<Rightarrow> string \<Rightarrow> AmberProvenanceComparison \<Rightarrow> AmberProvenanceComparison" where
  "label_provenance beforePath afterPath r =
     r\<lparr>am_Before := (am_Before r)\<lparr>ap_Path := beforePath\<rparr>, am_After := (am_After r)\<lparr>ap_Path := afterPath\<rparr>\<rparr>"

definition CompareAmberProvenanceFiles ::
  "(string \<Rightarrow> message + string) \<Rightarrow> (string \<Rightarrow> message + amberProvenanceDocument) \<Rightarrow> (Value \<Rightarrow> 'j option)
   \<Rightarrow> string \<Rightarrow> string \<Rightarrow> message + AmberProvenanceComparison" where
  "CompareAmberProvenanceFiles read decode marshal =
     compare_files (loadAmberProvenance read decode)
       (\<lambda>bp ap before after. label_provenance bp ap (compareAmberProvenance marshal before after))"

definition FilterAmberProvenanceChanges :: "AmberProvenanceComparison \<Rightarrow> string list \<Rightarrow> AmberProvenanceComparison" where
  "FilterAmberProvenanceChanges r ids = filter_report ids r"

lemma provenance_obs_wf: "obs_wf (provenance_obs b a)"
  by (simp add: obs_wf_def provenance_obs_def ob_named_def ob_id_def StableChangeID_def plain_head_not_blank
      plain_byte_def byte_def)

lemma provenance_report_wf: "report_wf amberProvenanceComparisonSchema (compareAmberProvenance marshal b a)"
  using observe_all_wf[OF provenance_obs_wf] observe_fit[of "provenance_obs b a" marshal]
  by (auto simp: report_wf_def compareAmberProvenance_def Let_def provenance_obs_def[THEN arg_cong[of _ _ length]]
      dest: changed_from_not_blank)

lemma loaded_provenance_transition:
  assumes "amber_provenance_problem bp b = None" "amber_provenance_problem ap a = None"
  shows "StateTransition_Validate (rt_Transition (compareAmberProvenance marshal b a)) = None"
proof -
  have "apd_ModeKind d \<noteq> []" if "amber_provenance_problem path d = None" for path d
  proof -
    from that have "\<forall>x \<in> set [(''work_id'', apd_WorkID d), (''execution_id'', apd_ExecutionID d),
           (''correlation_id'', apd_CorrelationID d), (''origin'', apd_Origin d), (''mode.kind'', apd_ModeKind d)].
        \<not> blank (snd x)"
      unfolding amber_provenance_problem_def first_some_Cons_None first_error_None split_beta fail_if_None
      by blast
    then show ?thesis by auto
  qed
  with assms show ?thesis by (simp add: compareAmberProvenance_def Let_def)
qed

end
