(* ===== verification/SattlerSorna.thy ===== *)
theory SattlerSorna
  imports SattlerAdapters
begin

text \<open>
  sattler/sorna.go: the comparison of two rule runs of Sorna.  The summary structs repeat the fields
  of the document structs, so the contract, the oracle, the baseline, the verdict, the subject, the
  assurance, the lifecycle, the totals and the mutation are one record each.
\<close>

section \<open>Runs\<close>

abbreviation SornaRunSchema :: string where "SornaRunSchema \<equiv> ''ingen.run/v1''"
abbreviation sornaRunComparisonSchema :: string where
  "sornaRunComparisonSchema \<equiv> ''ingen.sattler-sorna-run-comparison/v0''"

record SornaRunContract =
  sc_ID :: string
  sc_Version :: int
  sc_SHA256 :: string

record SornaRunOracle =
  sor_Schema :: string
  sor_SHA256 :: string

record SornaRunBaseline =
  sb_EvidencePath :: string
  sb_RunID :: string
  sb_Contract :: SornaRunContract

record SornaRunVerdict =
  sv_Status :: string
  sv_Reason :: string

record SornaRunSubject =
  ss_BaseURL :: string
  ss_Adapter :: string
  ss_Variant :: string

record SornaRunAssurance =
  sa_Level :: int
  sa_Status :: string
  sa_ObservationCoverage :: string
  sa_Limitations :: "string list"

record SornaRunLifecycle =
  slc_Mode :: string
  slc_Outcome :: string
  slc_ExitCode :: int

record SornaRunTotals =
  sto_Passed :: int
  sto_Failed :: int
  sto_Errors :: int
  sto_Inconclusive :: int
  sto_Skipped :: int

record SornaRule =
  sr_RuleID :: string
  sr_CaseID :: string
  sr_Subject :: string
  sr_Status :: string
  sr_Reason :: string

record SornaRunMutation =
  smu_ID :: string
  smu_Outcome :: string

record sornaRunDocument =
  srd_Schema :: string
  srd_RunID :: string
  srd_CreatedAt :: string
  srd_Assurance :: SornaRunAssurance
  srd_Contract :: SornaRunContract
  srd_Oracle :: "SornaRunOracle option"
  srd_Baseline :: "SornaRunBaseline option"
  srd_ContractVerdict :: SornaRunVerdict
  srd_Subject :: SornaRunSubject
  srd_Lifecycle :: "SornaRunLifecycle option"
  srd_Summary :: SornaRunTotals
  srd_Rules :: "SornaRule list"
  srd_Mutation :: "SornaRunMutation option"

record SornaRunSummary =
  srs_Path :: string
  srs_Schema :: string
  srs_RunID :: string
  srs_CreatedAt :: string
  srs_Contract :: SornaRunContract
  srs_Oracle :: "SornaRunOracle option"
  srs_Baseline :: "SornaRunBaseline option"
  srs_ContractVerdict :: SornaRunVerdict
  srs_Subject :: SornaRunSubject
  srs_Assurance :: SornaRunAssurance
  srs_Lifecycle :: "SornaRunLifecycle option"
  srs_Summary :: SornaRunTotals
  srs_Rules :: "(string, SornaRule) gomap"
  srs_Mutation :: "SornaRunMutation option"

record SornaRuleStatusChange =
  rsc_RuleID :: string
  rsc_Before :: string
  rsc_After :: string

record SornaRunComparison = SharedReport +
  sn_Before :: SornaRunSummary
  sn_After :: SornaRunSummary
  sn_ChangedRules :: "SornaRuleStatusChange list"

section \<open>The checks of a run\<close>

definition validateSornaSHA256 :: "message \<Rightarrow> string \<Rightarrow> message option" where
  "validateSornaSHA256 name value =
     first_some
       [fail_if (length value \<noteq> 64) (name @ [T '' sha256 must be 64 hexadecimal characters'']),
        fail_if (\<not> valid_hex value) (name @ [T '' sha256 is invalid: ''])]"

definition validSornaVerdictStatus :: "string \<Rightarrow> bool" where
  "validSornaVerdictStatus s \<longleftrightarrow> s \<in> {''pass'', ''fail'', ''error'', ''inconclusive''}"

definition validSornaRuleStatus :: "string \<Rightarrow> bool" where
  "validSornaRuleStatus s \<longleftrightarrow> s \<in> {''pass'', ''fail'', ''error'', ''inconclusive'', ''skipped''}"

definition validSornaMutationOutcome :: "string \<Rightarrow> bool" where
  "validSornaMutationOutcome s \<longleftrightarrow> s \<in> {''killed'', ''survived'', ''inconclusive''}"

definition negative_totals :: "SornaRunTotals \<Rightarrow> bool" where
  "negative_totals t \<longleftrightarrow>
     sto_Passed t < 0 \<or> sto_Failed t < 0 \<or> sto_Errors t < 0 \<or> sto_Inconclusive t < 0 \<or> sto_Skipped t < 0"

definition sorna_oracle_problem :: "message \<Rightarrow> message \<Rightarrow> SornaRunOracle option \<Rightarrow> message option" where
  "sorna_oracle_problem who name oracle =
     (case oracle of
        None \<Rightarrow> None
      | Some x \<Rightarrow>
          first_some
            [fail_if (sor_Schema x \<noteq> ''ingen.oracle/v1'')
               (who @ [T '' oracle schema must be ingen.oracle/v1, got '', Q (sor_Schema x)]),
             validateSornaSHA256 (name @ [T '' oracle'']) (sor_SHA256 x)])"

fun sorna_rules_problem :: "string \<Rightarrow> string list \<Rightarrow> SornaRule list \<Rightarrow> message option" where
  "sorna_rules_problem path seen [] = None"
| "sorna_rules_problem path seen (r # rs) =
     (if blank (sr_RuleID r) \<or> blank (sr_CaseID r)
      then Some [T ''Sorna run '', T path, T '' contains a rule without rule_id and case_id'']
      else if sr_RuleID r \<in> set seen
      then Some [T ''Sorna run '', T path, T '' duplicates rule '', Q (sr_RuleID r)]
      else if \<not> validSornaRuleStatus (sr_Status r)
      then Some [T ''Sorna run '', T path, T '' rule '', Q (sr_RuleID r), T '' has invalid status '', Q (sr_Status r)]
      else sorna_rules_problem path (sr_RuleID r # seen) rs)"

definition bad_mutation :: "SornaRunMutation option \<Rightarrow> bool" where
  "bad_mutation m = (case m of None \<Rightarrow> False | Some x \<Rightarrow> blank (smu_ID x) \<or> \<not> validSornaMutationOutcome (smu_Outcome x))"

definition validateSornaRun :: "string \<Rightarrow> sornaRunDocument \<Rightarrow> message option" where
  "validateSornaRun path d =
     first_some
       [fail_if (srd_Schema d \<noteq> SornaRunSchema)
          [T ''Sorna run schema must be '', T SornaRunSchema, T '', got '', Q (srd_Schema d)],
        fail_if (blank (srd_RunID d)) [T ''Sorna run '', T path, T '' needs a run_id''],
        fail_if (blank (srd_CreatedAt d)) [T ''Sorna run '', T path, T '' needs created_at''],
        fail_if (\<not> valid_rfc3339 (srd_CreatedAt d))
          [T ''Sorna run '', T path, T '' created_at must be RFC3339: ''],
        fail_if (blank (sc_ID (srd_Contract d)) \<or> sc_Version (srd_Contract d) < 1)
          [T ''Sorna run '', T path, T '' needs a contract id and positive version''],
        validateSornaSHA256 [T path, T '' contract''] (sc_SHA256 (srd_Contract d)),
        sorna_oracle_problem [T ''Sorna run '', T path] [T path] (srd_Oracle d),
        (case srd_Baseline d of
           None \<Rightarrow> None
         | Some b \<Rightarrow>
             first_some
               [fail_if (blank (sb_EvidencePath b) \<or> blank (sb_RunID b))
                  [T ''Sorna run '', T path, T '' baseline needs evidence_path and run_id''],
                validateSornaSHA256 [T path, T '' baseline contract''] (sc_SHA256 (sb_Contract b))]),
        fail_if (\<not> validSornaVerdictStatus (sv_Status (srd_ContractVerdict d)))
          [T ''Sorna run '', T path, T '' has invalid contract_verdict status '', Q (sv_Status (srd_ContractVerdict d))],
        fail_if (blank (ss_BaseURL (srd_Subject d)) \<or> blank (ss_Adapter (srd_Subject d)))
          [T ''Sorna run '', T path, T '' needs subject base_url and adapter''],
        fail_if (blank (sa_Status (srd_Assurance d)) \<or> sa_Level (srd_Assurance d) < 0)
          [T ''Sorna run '', T path, T '' needs a valid assurance summary''],
        (case srd_Lifecycle d of
           None \<Rightarrow> None
         | Some l \<Rightarrow> fail_if (blank (slc_Mode l) \<or> slc_ExitCode l < - 1)
             [T ''Sorna run '', T path, T '' lifecycle needs a mode and a valid exit code'']),
        fail_if (negative_totals (srd_Summary d))
          [T ''Sorna run '', T path, T '' summary counts must not be negative''],
        fail_if (srd_Rules d = []) [T ''Sorna run '', T path, T '' needs at least one rule''],
        sorna_rules_problem path [] (srd_Rules d),
        fail_if (bad_mutation (srd_Mutation d)) [T ''Sorna run '', T path, T '' has an invalid mutation summary'']]"

definition loadSornaRun ::
  "(string \<Rightarrow> message + string) \<Rightarrow> (string \<Rightarrow> message + sornaRunDocument) \<Rightarrow> string \<Rightarrow> message + sornaRunDocument" where
  "loadSornaRun read decode = load_document ''Sorna run '' read decode validateSornaRun"

section \<open>The comparison\<close>

definition summarizeSornaRun :: "sornaRunDocument \<Rightarrow> SornaRunSummary" where
  "summarizeSornaRun d =
     \<lparr>srs_Path = [], srs_Schema = srd_Schema d, srs_RunID = srd_RunID d, srs_CreatedAt = srd_CreatedAt d,
      srs_Contract = srd_Contract d, srs_Oracle = srd_Oracle d, srs_Baseline = srd_Baseline d,
      srs_ContractVerdict = srd_ContractVerdict d, srs_Subject = srd_Subject d,
      srs_Assurance = srd_Assurance d, srs_Lifecycle = srd_Lifecycle d, srs_Summary = srd_Summary d,
      srs_Rules = keyed_map sr_RuleID id (srd_Rules d), srs_Mutation = srd_Mutation d\<rparr>"

definition lifecycleString :: "SornaRunLifecycle option \<Rightarrow> string \<Rightarrow> string" where
  "lifecycleString l field =
     (case l of None \<Rightarrow> [] | Some x \<Rightarrow> if field = ''mode'' then slc_Mode x else slc_Outcome x)"

definition lifecycleExitCode :: "SornaRunLifecycle option \<Rightarrow> Value" where
  "lifecycleExitCode l = (case l of None \<Rightarrow> VNil | Some x \<Rightarrow> VInt (slc_ExitCode x))"

definition mutationID :: "SornaRunMutation option \<Rightarrow> string" where
  "mutationID m = (case m of None \<Rightarrow> [] | Some x \<Rightarrow> smu_ID x)"

definition mutationOutcome :: "SornaRunMutation option \<Rightarrow> string" where
  "mutationOutcome m = (case m of None \<Rightarrow> [] | Some x \<Rightarrow> smu_Outcome x)"

definition string_ob :: "string \<Rightarrow> string \<Rightarrow> string \<Rightarrow> string \<Rightarrow> observation" where
  "string_ob category field old new = (category, field, VString old, VString new, [])"

definition int_ob :: "string \<Rightarrow> string \<Rightarrow> int \<Rightarrow> int \<Rightarrow> observation" where
  "int_ob category field old new = (category, field, VInt old, VInt new, [])"

definition sorna_context_obs :: "sornaRunDocument \<Rightarrow> sornaRunDocument \<Rightarrow> observation list" where
  "sorna_context_obs b a =
     [string_ob ''contract'' ''id'' (sc_ID (srd_Contract b)) (sc_ID (srd_Contract a)),
      int_ob ''contract'' ''version'' (sc_Version (srd_Contract b)) (sc_Version (srd_Contract a)),
      string_ob ''contract'' ''sha256'' (sc_SHA256 (srd_Contract b)) (sc_SHA256 (srd_Contract a)),
      (''context'', ''oracle'', optional_value (\<lambda>x. VOracle (sor_Schema x) (sor_SHA256 x)) (srd_Oracle b),
         optional_value (\<lambda>x. VOracle (sor_Schema x) (sor_SHA256 x)) (srd_Oracle a), []),
      string_ob ''context'' ''subject.adapter'' (ss_Adapter (srd_Subject b)) (ss_Adapter (srd_Subject a)),
      string_ob ''context'' ''subject.variant'' (ss_Variant (srd_Subject b)) (ss_Variant (srd_Subject a)),
      string_ob ''verdict'' ''status'' (sv_Status (srd_ContractVerdict b)) (sv_Status (srd_ContractVerdict a)),
      string_ob ''verdict'' ''reason'' (sv_Reason (srd_ContractVerdict b)) (sv_Reason (srd_ContractVerdict a)),
      int_ob ''summary'' ''passed'' (sto_Passed (srd_Summary b)) (sto_Passed (srd_Summary a)),
      int_ob ''summary'' ''failed'' (sto_Failed (srd_Summary b)) (sto_Failed (srd_Summary a)),
      int_ob ''summary'' ''errors'' (sto_Errors (srd_Summary b)) (sto_Errors (srd_Summary a)),
      int_ob ''summary'' ''inconclusive'' (sto_Inconclusive (srd_Summary b)) (sto_Inconclusive (srd_Summary a)),
      int_ob ''summary'' ''skipped'' (sto_Skipped (srd_Summary b)) (sto_Skipped (srd_Summary a)),
      int_ob ''assurance'' ''level'' (sa_Level (srd_Assurance b)) (sa_Level (srd_Assurance a)),
      string_ob ''assurance'' ''status'' (sa_Status (srd_Assurance b)) (sa_Status (srd_Assurance a)),
      string_ob ''assurance'' ''observation_coverage'' (sa_ObservationCoverage (srd_Assurance b))
        (sa_ObservationCoverage (srd_Assurance a))]"

definition sorna_lifecycle_obs :: "SornaRunLifecycle option \<Rightarrow> SornaRunLifecycle option \<Rightarrow> observation list" where
  "sorna_lifecycle_obs b a =
     (if b = None \<and> a = None then []
      else [string_ob ''lifecycle'' ''mode'' (lifecycleString b ''mode'') (lifecycleString a ''mode''),
            string_ob ''lifecycle'' ''outcome'' (lifecycleString b ''outcome'') (lifecycleString a ''outcome''),
            (''lifecycle'', ''exit_code'', lifecycleExitCode b, lifecycleExitCode a, [])])"

definition sorna_mutation_obs :: "SornaRunMutation option \<Rightarrow> SornaRunMutation option \<Rightarrow> observation list" where
  "sorna_mutation_obs b a =
     [string_ob ''mutation'' ''id'' (mutationID b) (mutationID a),
      string_ob ''mutation'' ''outcome'' (mutationOutcome b) (mutationOutcome a)]"

definition rule_status :: "(string, SornaRule) gomap \<Rightarrow> string \<Rightarrow> Value" where
  "rule_status rules i = optional_value (\<lambda>r. VString (sr_Status r)) (map_of rules i)"

definition rule_ob :: "(string, SornaRule) gomap \<Rightarrow> (string, SornaRule) gomap \<Rightarrow> string \<Rightarrow> observation" where
  "rule_ob b a i = (''rules.'' @ i, ''status'', rule_status b i, rule_status a i, [])"

definition rule_change :: "(string, SornaRule) gomap \<Rightarrow> (string, SornaRule) gomap \<Rightarrow> string \<Rightarrow> SornaRuleStatusChange" where
  "rule_change b a i =
     \<lparr>rsc_RuleID = i,
      rsc_Before = (case map_of b i of None \<Rightarrow> [] | Some r \<Rightarrow> sr_Status r),
      rsc_After = (case map_of a i of None \<Rightarrow> [] | Some r \<Rightarrow> sr_Status r)\<rparr>"

definition sorna_obs :: "sornaRunDocument \<Rightarrow> sornaRunDocument \<Rightarrow> observation list" where
  "sorna_obs before after =
     (let b = srs_Rules (summarizeSornaRun before); a = srs_Rules (summarizeSornaRun after)
      in sorna_context_obs before after @
         sorna_lifecycle_obs (srd_Lifecycle before) (srd_Lifecycle after) @
         sorna_mutation_obs (srd_Mutation before) (srd_Mutation after) @
         map (rule_ob b a) (union_keys b a))"

definition compareSornaRuns ::
  "(Value \<Rightarrow> 'j option) \<Rightarrow> sornaRunDocument \<Rightarrow> sornaRunDocument \<Rightarrow> SornaRunComparison" where
  "compareSornaRuns marshal before after =
     (let cb = srd_Contract before; ca = srd_Contract after;
          reasons = changed_from ''contract id'' (sc_ID cb) (sc_ID ca) @
                    problem (sc_Version cb \<noteq> sc_Version ca)
                      [T ''contract version changed from '', D (sc_Version cb), T '' to '', D (sc_Version ca)] @
                    changed_from ''contract sha256'' (sc_SHA256 cb) (sc_SHA256 ca);
          changes = observe_all marshal (sorna_obs before after);
          b = srs_Rules (summarizeSornaRun before); a = srs_Rules (summarizeSornaRun after)
      in \<lparr>rt_Schema = sornaRunComparisonSchema, rt_Compatible = (reasons = []), rt_Reasons = reasons,
          rt_Transition = NewStateTransition ''contract_verdict.status'' (sv_Status (srd_ContractVerdict before))
            (sv_Status (srd_ContractVerdict after)) (reasons = []),
          rt_Filter = [], rt_Changes = changes, rt_Summary = SummarizeChanges changes,
          sn_Before = summarizeSornaRun before, sn_After = summarizeSornaRun after,
          sn_ChangedRules = map (rule_change b a)
            (filter (\<lambda>i. \<not> valuesEqual marshal (rule_status b i) (rule_status a i)) (union_keys b a))\<rparr>)"

definition label_sorna :: "string \<Rightarrow> string \<Rightarrow> SornaRunComparison \<Rightarrow> SornaRunComparison" where
  "label_sorna beforePath afterPath r =
     r\<lparr>sn_Before := (sn_Before r)\<lparr>srs_Path := beforePath\<rparr>, sn_After := (sn_After r)\<lparr>srs_Path := afterPath\<rparr>\<rparr>"

definition CompareSornaRunFiles ::
  "(string \<Rightarrow> message + string) \<Rightarrow> (string \<Rightarrow> message + sornaRunDocument) \<Rightarrow> (Value \<Rightarrow> 'j option)
   \<Rightarrow> string \<Rightarrow> string \<Rightarrow> message + SornaRunComparison" where
  "CompareSornaRunFiles read decode marshal =
     compare_files (loadSornaRun read decode)
       (\<lambda>bp ap before after. label_sorna bp ap (compareSornaRuns marshal before after))"

definition has_suffix :: "string \<Rightarrow> string \<Rightarrow> bool" where
  "has_suffix s p \<longleftrightarrow> has_prefix (rev s) (rev p)"

definition FilterSornaRunChanges :: "SornaRunComparison \<Rightarrow> string list \<Rightarrow> SornaRunComparison" where
  "FilterSornaRunChanges r ids =
     (let f = filter_report ids r;
          selected = filter (\<lambda>i. has_prefix i ''rules.'' \<and> has_suffix i ''.status'') (map StableID (rt_Changes f))
      in if normalizedChangeIDs ids = [] then f
         else f\<lparr>sn_ChangedRules :=
                  filter (\<lambda>c. ''rules.'' @ rsc_RuleID c @ ''.status'' \<in> set selected) (sn_ChangedRules f)\<rparr>)"

section \<open>Validation\<close>

definition validateSornaRunSummary :: "string \<Rightarrow> SornaRunSummary \<Rightarrow> message option" where
  "validateSornaRunSummary side s =
     first_some
       [fail_if (srs_Schema s \<noteq> SornaRunSchema)
          [T ''Sorna '', T side, T '' schema must be '', T SornaRunSchema, T '', got '', Q (srs_Schema s)],
        fail_if (srs_Path s \<noteq> [] \<and> blank (srs_Path s))
          [T ''Sorna '', T side, T '' path cannot be empty when present''],
        fail_if (blank (srs_RunID s) \<or> blank (srs_CreatedAt s))
          [T ''Sorna '', T side, T '' needs a run ID and creation timestamp''],
        fail_if (\<not> valid_rfc3339 (srs_CreatedAt s))
          [T ''Sorna '', T side, T '' created_at must be RFC3339: ''],
        fail_if (blank (sc_ID (srs_Contract s)) \<or> sc_Version (srs_Contract s) < 1)
          [T ''Sorna '', T side, T '' needs a contract ID and positive version''],
        validateSornaSHA256 [T ''Sorna '', T side, T '' contract''] (sc_SHA256 (srs_Contract s)),
        sorna_oracle_problem [T ''Sorna '', T side] [T ''Sorna '', T side] (srs_Oracle s),
        (case srs_Baseline s of
           None \<Rightarrow> None
         | Some b \<Rightarrow>
             first_some
               [fail_if (blank (sb_EvidencePath b) \<or> blank (sb_RunID b))
                  [T ''Sorna '', T side, T '' baseline needs evidence path and run ID''],
                fail_if (blank (sc_ID (sb_Contract b)) \<or> sc_Version (sb_Contract b) < 1)
                  [T ''Sorna '', T side, T '' baseline needs a contract ID and positive version''],
                validateSornaSHA256 [T ''Sorna '', T side, T '' baseline contract''] (sc_SHA256 (sb_Contract b))]),
        fail_if (\<not> validSornaVerdictStatus (sv_Status (srs_ContractVerdict s)))
          [T ''Sorna '', T side, T '' has invalid contract verdict status '', Q (sv_Status (srs_ContractVerdict s))],
        fail_if (blank (ss_BaseURL (srs_Subject s)) \<or> blank (ss_Adapter (srs_Subject s)))
          [T ''Sorna '', T side, T '' needs subject base URL and adapter''],
        fail_if (sa_Level (srs_Assurance s) < 0 \<or> blank (sa_Status (srs_Assurance s)))
          [T ''Sorna '', T side, T '' needs a valid assurance summary''],
        first_error (\<lambda>l. fail_if (blank l) [T ''Sorna '', T side, T '' assurance limitations cannot be empty''])
          (sa_Limitations (srs_Assurance s)),
        (case srs_Lifecycle s of
           None \<Rightarrow> None
         | Some l \<Rightarrow> fail_if (blank (slc_Mode l) \<or> blank (slc_Outcome l) \<or> slc_ExitCode l < - 1)
             [T ''Sorna '', T side, T '' lifecycle is incomplete or has an invalid exit code'']),
        fail_if (negative_totals (srs_Summary s)) [T ''Sorna '', T side, T '' summary counts must not be negative''],
        fail_if (srs_Rules s = []) [T ''Sorna '', T side, T '' needs at least one rule''],
        first_error (\<lambda>(i, r).
          first_some
            [fail_if (blank i \<or> sr_RuleID r \<noteq> i \<or> blank (sr_CaseID r) \<or> blank (sr_Subject r))
               [T ''Sorna '', T side, T '' contains an invalid rule '', Q i],
             fail_if (\<not> validSornaRuleStatus (sr_Status r))
               [T ''Sorna '', T side, T '' rule '', Q i, T '' has invalid status '', Q (sr_Status r)]]) (srs_Rules s),
        fail_if (bad_mutation (srs_Mutation s)) [T ''Sorna '', T side, T '' has an invalid mutation summary'']]"

text \<open>The rules the changes speak of: \<open>Inl\<close> when one of them has a blank identifier.\<close>

fun expected_rules :: "Change list \<Rightarrow> message + string list" where
  "expected_rules [] = Inr []"
| "expected_rules (c # cs) =
     (if ch_Field c \<noteq> ''status'' then expected_rules cs
      else (case strip_prefix ''rules.'' (ch_Category c) of
              None \<Rightarrow> expected_rules cs
            | Some i \<Rightarrow>
                if blank i then Inl [T ''Sorna comparison rule change has an empty rule ID'']
                else map_sum id (List.insert i) (expected_rules cs)))"

fun changed_rules_problem :: "string list \<Rightarrow> nat \<Rightarrow> string list \<Rightarrow> SornaRuleStatusChange list \<Rightarrow> message option" where
  "changed_rules_problem expected n seen [] =
     fail_if (length seen \<noteq> length expected)
       [T ''Sorna comparison changed rule index does not match rule changes'']"
| "changed_rules_problem expected n seen (c # cs) =
     (case first_some
             [fail_if (blank (rsc_RuleID c)) [T ''Sorna comparison changed_rules['', D (int n), T ''] needs a rule ID''],
              fail_if (rsc_Before c = [] \<and> rsc_After c = [])
                [T ''Sorna comparison changed rule '', Q (rsc_RuleID c), T '' needs a before or after status''],
              fail_if (rsc_Before c \<noteq> [] \<and> \<not> validSornaRuleStatus (rsc_Before c))
                [T ''Sorna comparison changed rule '', Q (rsc_RuleID c), T '' has invalid before status '', Q (rsc_Before c)],
              fail_if (rsc_After c \<noteq> [] \<and> \<not> validSornaRuleStatus (rsc_After c))
                [T ''Sorna comparison changed rule '', Q (rsc_RuleID c), T '' has invalid after status '', Q (rsc_After c)],
              fail_if (rsc_RuleID c \<in> set seen)
                [T ''Sorna comparison changed rule '', Q (rsc_RuleID c), T '' is duplicated''],
              fail_if (rsc_RuleID c \<notin> set expected)
                [T ''Sorna comparison changed rule '', Q (rsc_RuleID c), T '' has no matching rule change'']] of
        Some err \<Rightarrow> Some err
      | None \<Rightarrow> changed_rules_problem expected (Suc n) (rsc_RuleID c # seen) cs)"

definition SornaRunComparison_Validate :: "SornaRunComparison \<Rightarrow> message option" where
  "SornaRunComparison_Validate r =
     first_some
       [fail_if (rt_Schema r \<noteq> sornaRunComparisonSchema)
          [T ''Sorna comparison schema must be '', T sornaRunComparisonSchema, T '', got '', Q (rt_Schema r)],
        validateSornaRunSummary ''before'' (sn_Before r),
        validateSornaRunSummary ''after'' (sn_After r),
        validateBundleStringList (rt_Filter r) ''Sorna comparison change ID filter'',
        validateBundleAdapterEnvelope ''sorna_run'' sornaRunComparisonSchema r [],
        (case expected_rules (rt_Changes r) of
           Inl err \<Rightarrow> Some err
         | Inr expected \<Rightarrow> changed_rules_problem expected 0 [] (sn_ChangedRules r))]"


section \<open>What validates\<close>

lemma sorna_rules_None:
  "sorna_rules_problem path seen rs = None \<longleftrightarrow>
   (\<forall>r \<in> set rs. \<not> blank (sr_RuleID r) \<and> \<not> blank (sr_CaseID r) \<and> validSornaRuleStatus (sr_Status r)) \<and>
   distinct (map sr_RuleID rs) \<and> set seen \<inter> sr_RuleID ` set rs = {}"
  by (induction path seen rs rule: sorna_rules_problem.induct) auto

definition changed_ids :: "Change list \<Rightarrow> string set" where
  "changed_ids cs = {i. \<exists>c \<in> set cs. ch_Field c = ''status'' \<and> ch_Category c = ''rules.'' @ i}"

lemma changed_ids_Cons:
  "changed_ids (c # cs) = {i. ch_Field c = ''status'' \<and> ch_Category c = ''rules.'' @ i} \<union> changed_ids cs"
  by (auto simp: changed_ids_def)

lemma expected_rules_Inr:
  "(\<forall>i \<in> changed_ids cs. \<not> blank i) \<Longrightarrow>
   \<exists>l. expected_rules cs = Inr l \<and> distinct l \<and> set l = changed_ids cs"
proof (induction cs)
  case (Cons c cs)
  then obtain l where l: "expected_rules cs = Inr l" "distinct l" "set l = changed_ids cs"
    by (auto simp: changed_ids_Cons)
  show ?case
  proof (cases "strip_prefix ''rules.'' (ch_Category c)")
    case None
    have none: "ch_Category c \<noteq> ''rules.'' @ i" for i
    proof
      assume "ch_Category c = ''rules.'' @ i"
      then have "strip_prefix ''rules.'' (ch_Category c) = Some i" unfolding strip_prefix_Some .
      with None show False by simp
    qed
    have "changed_ids (c # cs) = changed_ids cs" unfolding changed_ids_Cons using none by blast
    with None l show ?thesis by simp
  next
    case (Some i)
    then have c: "ch_Category c = ''rules.'' @ i" unfolding strip_prefix_Some .
    then have ids: "changed_ids (c # cs) = (if ch_Field c = ''status'' then {i} else {}) \<union> changed_ids cs"
      unfolding changed_ids_Cons by auto
    with Cons.prems have "ch_Field c = ''status'' \<Longrightarrow> \<not> blank i" by simp
    with l Some ids show ?thesis by (cases "ch_Field c = ''status''") simp_all
  qed
qed (simp add: changed_ids_def)

definition rule_change_ok :: "SornaRuleStatusChange \<Rightarrow> bool" where
  "rule_change_ok c \<longleftrightarrow>
     \<not> blank (rsc_RuleID c) \<and> \<not> (rsc_Before c = [] \<and> rsc_After c = []) \<and>
     (rsc_Before c = [] \<or> validSornaRuleStatus (rsc_Before c)) \<and>
     (rsc_After c = [] \<or> validSornaRuleStatus (rsc_After c))"

lemma changed_rules_None:
  assumes "\<forall>c \<in> set cs. rule_change_ok c" and "distinct (map rsc_RuleID cs)"
    and "set seen \<inter> rsc_RuleID ` set cs = {}" and "rsc_RuleID ` set cs \<subseteq> set expected"
    and "length seen + length cs = length expected"
  shows "changed_rules_problem expected n seen cs = None"
  using assms
proof (induction expected n seen cs rule: changed_rules_problem.induct)
  case (2 expected n seen c cs)
  then have ok: "rule_change_ok c" "rsc_RuleID c \<notin> set seen" "rsc_RuleID c \<in> set expected" by auto
  have "changed_rules_problem expected (Suc n) (rsc_RuleID c # seen) cs = None"
    using 2(2-) ok by (intro 2(1)) (auto simp: rule_change_ok_def first_some_Cons_None)
  with ok show ?case by (auto simp: rule_change_ok_def first_some_Cons_None split: option.split)
qed simp

text \<open>The index of changed rules goes with the changes.\<close>

definition sorna_report_wf :: "SornaRunComparison \<Rightarrow> bool" where
  "sorna_report_wf r \<longleftrightarrow>
     report_wf sornaRunComparisonSchema r \<and> (\<forall>c \<in> set (sn_ChangedRules r). rule_change_ok c) \<and>
     distinct (map rsc_RuleID (sn_ChangedRules r)) \<and>
     rsc_RuleID ` set (sn_ChangedRules r) = changed_ids (rt_Changes r)"

lemma sorna_comparison_iff:
  assumes "sorna_report_wf r"
  shows "SornaRunComparison_Validate r = None \<longleftrightarrow>
    validateSornaRunSummary ''before'' (sn_Before r) = None \<and>
    validateSornaRunSummary ''after'' (sn_After r) = None \<and> StateTransition_Validate (rt_Transition r) = None"
proof -
  have wf: "report_wf sornaRunComparisonSchema r" using assms by (simp add: sorna_report_wf_def)
  have ids: "rsc_RuleID ` set (sn_ChangedRules r) = changed_ids (rt_Changes r)"
    using assms by (simp add: sorna_report_wf_def)
  have "\<forall>i \<in> changed_ids (rt_Changes r). \<not> blank i"
  proof -
    have "\<forall>c \<in> set (sn_ChangedRules r). \<not> blank (rsc_RuleID c)"
      using assms by (simp add: sorna_report_wf_def rule_change_ok_def)
    then show ?thesis unfolding ids[symmetric] by blast
  qed
  then obtain l where l: "expected_rules (rt_Changes r) = Inr l" "distinct l" "set l = changed_ids (rt_Changes r)"
    using expected_rules_Inr by blast
  have "length (sn_ChangedRules r) = length l"
    using assms l(2,3) unfolding sorna_report_wf_def
    by (metis distinct_card length_map set_map)
  then have "changed_rules_problem l 0 [] (sn_ChangedRules r) = None"
    using assms l by (intro changed_rules_None) (auto simp: sorna_report_wf_def)
  with l wf report_wf_valid[OF wf, of "[]"] show ?thesis
    by (auto simp: SornaRunComparison_Validate_def check_simps report_wf_def validateBundleStringList_def)
qed

subsection \<open>The comparison of two accepted runs\<close>

definition sorna_fixed_obs :: "sornaRunDocument \<Rightarrow> sornaRunDocument \<Rightarrow> observation list" where
  "sorna_fixed_obs before after =
     sorna_context_obs before after @ sorna_lifecycle_obs (srd_Lifecycle before) (srd_Lifecycle after) @
     sorna_mutation_obs (srd_Mutation before) (srd_Mutation after)"

lemma sorna_obs_split:
  "sorna_obs before after = sorna_fixed_obs before after @
     map (rule_ob (srs_Rules (summarizeSornaRun before)) (srs_Rules (summarizeSornaRun after)))
       (union_keys (srs_Rules (summarizeSornaRun before)) (srs_Rules (summarizeSornaRun after)))"
  by (simp add: sorna_obs_def sorna_fixed_obs_def Let_def)

lemma sorna_fixed_wf: "obs_wf (sorna_fixed_obs b a)"
  by (simp add: obs_wf_def sorna_fixed_obs_def sorna_context_obs_def sorna_lifecycle_obs_def sorna_mutation_obs_def
      string_ob_def int_ob_def ob_named_def ob_id_def StableChangeID_def plain_head_not_blank plain_byte_def byte_def)

lemma sorna_fixed_categories:
  "ob \<in> set (sorna_fixed_obs b a) \<Longrightarrow> hd (fst ob) \<noteq> CHR ''r'' \<and> fst ob \<noteq> []"
  by (auto simp: sorna_fixed_obs_def sorna_context_obs_def sorna_lifecycle_obs_def sorna_mutation_obs_def
      string_ob_def int_ob_def split: if_splits)

lemma sorna_obs_wf: "obs_wf (sorna_obs b a)"
proof -
  let ?f = "rule_ob (srs_Rules (summarizeSornaRun b)) (srs_Rules (summarizeSornaRun a))"
  have "obs_wf (map ?f ks)" if "distinct ks" for ks
    using that
    by (intro obs_wf_map)
      (simp_all add: rule_ob_def ob_named_def ob_id_def inj_on_def StableChangeID_def plain_head_not_blank plain_byte_def byte_def)
  moreover have "ob_id ` set (map ?f ks) \<inter> ob_id ` set (sorna_fixed_obs b a) = {}" for ks
  proof (rule fresh_ids)
    fix k
    have "ob_id ob \<noteq> ob_id (?f k)" if "ob \<in> set (sorna_fixed_obs b a)" for ob
      using sorna_fixed_categories[OF that]
      by (cases "fst ob") (auto simp: ob_id_def rule_ob_def StableChangeID_def)
    then show "ob_id (?f k) \<notin> set (map ob_id (sorna_fixed_obs b a))" by fastforce
  qed
  ultimately show ?thesis
    using sorna_fixed_wf[of b a] unfolding sorna_obs_split obs_wf_append by (metis Int_commute union_keys_distinct)
qed


lemma changed_ids_append: "changed_ids (xs @ ys) = changed_ids xs \<union> changed_ids ys"
  by (auto simp: changed_ids_def)

lemma observe_category: "c \<in> set (observe marshal ob) \<Longrightarrow> ch_Category c = fst ob"
  by (cases ob) (simp add: observe_def split: if_splits)

lemma changed_ids_fixed: "changed_ids (observe_all marshal (sorna_fixed_obs b a)) = {}"
proof -
  have "ch_Category c \<noteq> ''rules.'' @ i" if c: "c \<in> set (observe_all marshal (sorna_fixed_obs b a))" for c i
  proof -
    obtain ob where "ob \<in> set (sorna_fixed_obs b a)" "c \<in> set (observe marshal ob)"
      using c unfolding observe_all_def by auto
    with sorna_fixed_categories[of ob b a] observe_category[of c marshal ob] show ?thesis by auto
  qed
  then show ?thesis by (simp add: changed_ids_def)
qed

lemma changed_ids_rules:
  "changed_ids (observe_all marshal (map (rule_ob b a) ks)) =
   {i \<in> set ks. \<not> valuesEqual marshal (rule_status b i) (rule_status a i)}"
  by (induction ks) (auto simp: changed_ids_def observe_def rule_ob_def)

lemma compareSornaRuns_simps [simp]:
  "sn_Before (compareSornaRuns marshal b a) = summarizeSornaRun b"
  "sn_After (compareSornaRuns marshal b a) = summarizeSornaRun a"
  "rt_Changes (compareSornaRuns marshal b a) = observe_all marshal (sorna_obs b a)"
  "tr_Before (rt_Transition (compareSornaRuns marshal b a)) = sv_Status (srd_ContractVerdict b)"
  by (simp_all add: compareSornaRuns_def Let_def)

definition sorna_fit :: "sornaRunDocument \<Rightarrow> bool" where
  "sorna_fit d \<longleftrightarrow> int (length (srd_Rules d)) < 2 ^ 59"

abbreviation rules_of :: "sornaRunDocument \<Rightarrow> (string, SornaRule) gomap" where
  "rules_of d \<equiv> keyed_map sr_RuleID id (srd_Rules d)"

lemma summarizeSornaRun_rules [simp]: "srs_Rules (summarizeSornaRun d) = rules_of d"
  by (simp add: summarizeSornaRun_def)

lemma sorna_length:
  assumes "sorna_fit b" "sorna_fit a"
  shows "int (length (observe_all marshal (sorna_obs b a))) < 2 ^ 61"
proof -
  have "length (sorna_obs b a) \<le> 21 + length (srd_Rules b) + length (srd_Rules a)"
    using union_keys_length[of "rules_of b" "rules_of a"] keyed_map_length[of sr_RuleID id "srd_Rules b"]
      keyed_map_length[of sr_RuleID id "srd_Rules a"]
    by (simp add: sorna_obs_split sorna_fixed_obs_def sorna_context_obs_def sorna_lifecycle_obs_def sorna_mutation_obs_def)
  then show ?thesis
    using observe_all_length[of marshal "sorna_obs b a"] assms by (simp add: sorna_fit_def)
qed

lemma sorna_base_wf:
  assumes "sorna_fit b" "sorna_fit a"
  shows "report_wf sornaRunComparisonSchema (compareSornaRuns marshal b a)"
proof -
  show ?thesis
    using observe_all_wf[OF sorna_obs_wf] sorna_length[OF assms, of marshal]
    by (auto simp: report_wf_def compareSornaRuns_def Let_def dest: changed_from_not_blank)
       (auto simp: problem_def plain_head_not_blank plain_byte_def byte_def split: if_splits)
qed

lemma accepted_rule:
  assumes "validateSornaRun path d = None" and "map_of (rules_of d) i = Some r"
  shows "\<not> blank i \<and> sr_RuleID r = i \<and> \<not> blank (sr_CaseID r) \<and> validSornaRuleStatus (sr_Status r) \<and> r \<in> set (srd_Rules d)"
proof -
  have "(i, r) \<in> set (rules_of d)" using assms(2) by (rule map_of_SomeD)
  then have "r \<in> set (srd_Rules d)" "i = sr_RuleID r" using keyed_map_mem by fastforce+
  with assms(1) show ?thesis by (auto simp: validateSornaRun_def check_simps sorna_rules_None)
qed

lemma valid_status_nonempty: "validSornaRuleStatus s \<Longrightarrow> s \<noteq> []"
  by (auto simp: validSornaRuleStatus_def)

lemma accepted_rule_change:
  assumes "validateSornaRun bp b = None" "validateSornaRun ap a = None"
    and i: "i \<in> set (union_keys (rules_of b) (rules_of a))"
  shows "rule_change_ok (rule_change (rules_of b) (rules_of a) i)"
proof -
  have "map_of (rules_of b) i \<noteq> None \<or> map_of (rules_of a) i \<noteq> None"
    using i by (auto simp: map_of_eq_None_iff)
  moreover have "\<not> blank i \<and> validSornaRuleStatus (sr_Status r)"
    if "map_of (rules_of b) i = Some r \<or> map_of (rules_of a) i = Some r" for r
    using that accepted_rule[OF assms(1)] accepted_rule[OF assms(2)] by metis
  ultimately show ?thesis
    by (auto simp: rule_change_ok_def rule_change_def valid_status_nonempty split: option.splits)
qed

lemma sorna_compared_wf:
  assumes "validateSornaRun bp b = None" "validateSornaRun ap a = None" "sorna_fit b" "sorna_fit a"
  shows "sorna_report_wf (compareSornaRuns marshal b a)"
proof -
  let ?ks = "union_keys (rules_of b) (rules_of a)"
  let ?changed = "filter (\<lambda>i. \<not> valuesEqual marshal (rule_status (rules_of b) i) (rule_status (rules_of a) i)) ?ks"
  have c: "sn_ChangedRules (compareSornaRuns marshal b a) = map (rule_change (rules_of b) (rules_of a)) ?changed"
    by (simp add: compareSornaRuns_def Let_def)
  have "changed_ids (observe_all marshal (sorna_obs b a)) = set ?changed"
    unfolding sorna_obs_split observe_all_simps changed_ids_append changed_ids_fixed
    by (simp add: changed_ids_rules)
  moreover have "map rsc_RuleID (map (rule_change (rules_of b) (rules_of a)) ?changed) = ?changed"
    by (simp add: rule_change_def comp_def)
  moreover have "\<forall>i \<in> set ?changed. rule_change_ok (rule_change (rules_of b) (rules_of a) i)"
    using accepted_rule_change[OF assms(1,2)] by auto
  ultimately show ?thesis
    using sorna_base_wf[OF assms(3,4)] unfolding sorna_report_wf_def c
    by (simp add: rule_change_def image_image)
qed

text \<open>What the loader of a run does not ask and the validation of a comparison does.\<close>

definition sorna_writable :: "sornaRunDocument \<Rightarrow> bool" where
  "sorna_writable d \<longleftrightarrow>
     (case srd_Baseline d of None \<Rightarrow> True
      | Some b \<Rightarrow> \<not> blank (sc_ID (sb_Contract b)) \<and> 1 \<le> sc_Version (sb_Contract b)) \<and>
     (\<forall>l \<in> set (sa_Limitations (srd_Assurance d)). \<not> blank l) \<and>
     (case srd_Lifecycle d of None \<Rightarrow> True | Some l \<Rightarrow> \<not> blank (slc_Outcome l)) \<and>
     (\<forall>r \<in> set (srd_Rules d). \<not> blank (sr_Subject r))"

lemma sorna_sha_None: "validateSornaSHA256 n v = None \<longleftrightarrow> length v = 64 \<and> valid_hex v"
  by (simp add: validateSornaSHA256_def check_simps)

lemma sorna_oracle_None:
  "sorna_oracle_problem w n x = None \<longleftrightarrow>
   (case x of None \<Rightarrow> True | Some y \<Rightarrow> sor_Schema y = ''ingen.oracle/v1'' \<and> length (sor_SHA256 y) = 64 \<and> valid_hex (sor_SHA256 y))"
  by (simp add: sorna_oracle_problem_def sorna_sha_None check_simps split: option.split)

lemma sorna_rules_summary:
  assumes "validateSornaRun path d = None"
  shows "first_error (\<lambda>(i, r). first_some
            [fail_if (blank i \<or> sr_RuleID r \<noteq> i \<or> blank (sr_CaseID r) \<or> blank (sr_Subject r)) (e i),
             fail_if (\<not> validSornaRuleStatus (sr_Status r)) (f i r)]) (rules_of d) = None \<longleftrightarrow>
         (\<forall>r \<in> set (srd_Rules d). \<not> blank (sr_Subject r))" (is "?l \<longleftrightarrow> ?r")
proof -
  have d: "distinct (map sr_RuleID (srd_Rules d))"
    using assms by (auto simp: validateSornaRun_def check_simps sorna_rules_None)
  have entry: "\<not> blank i \<and> sr_RuleID r = i \<and> \<not> blank (sr_CaseID r) \<and> validSornaRuleStatus (sr_Status r) \<and> r \<in> set (srd_Rules d)"
    if "(i, r) \<in> set (rules_of d)" for i r
    using accepted_rule[OF assms, of i r] that keyed_map_wf[of sr_RuleID id "srd_Rules d"] by (simp add: map_wf_def)
  have "?l \<longleftrightarrow> (\<forall>(i, r) \<in> set (rules_of d). \<not> blank (sr_Subject r))"
    using entry by (fastforce simp: first_error_None check_simps)
  also have "\<dots> \<longleftrightarrow> ?r"
    using entry keyed_map_complete[OF d, of _ id] by fastforce
  finally show ?thesis .
qed

lemma sorna_summary_iff:
  assumes "validateSornaRun path d = None"
  shows "validateSornaRunSummary side (summarizeSornaRun d\<lparr>srs_Path := label\<rparr>) = None \<longleftrightarrow>
         sorna_writable d \<and> present_not_blank label"
proof -
  let ?s = "summarizeSornaRun d\<lparr>srs_Path := label\<rparr>"
  have f: "srs_Path ?s = label" "srs_Schema ?s = srd_Schema d" "srs_RunID ?s = srd_RunID d"
    "srs_CreatedAt ?s = srd_CreatedAt d" "srs_Contract ?s = srd_Contract d" "srs_Oracle ?s = srd_Oracle d"
    "srs_Baseline ?s = srd_Baseline d" "srs_ContractVerdict ?s = srd_ContractVerdict d"
    "srs_Subject ?s = srd_Subject d" "srs_Assurance ?s = srd_Assurance d" "srs_Lifecycle ?s = srd_Lifecycle d"
    "srs_Summary ?s = srd_Summary d" "srs_Rules ?s = rules_of d" "srs_Mutation ?s = srd_Mutation d"
    by (simp_all add: summarizeSornaRun_def)
  from assms show ?thesis
    unfolding validateSornaRunSummary_def f first_some_Cons_None first_some_Nil_None
      sorna_rules_summary[OF assms] validateSornaRun_def sorna_sha_None sorna_oracle_None
    by (auto simp: sorna_writable_def present_not_blank_def first_error_None check_simps
        sorna_sha_None split: option.splits)
qed


lemma label_sorna_simps [simp]:
  "sorna_report_wf (label_sorna bp ap r) \<longleftrightarrow> sorna_report_wf r"
  "sn_Before (label_sorna bp ap r) = sn_Before r\<lparr>srs_Path := bp\<rparr>"
  "sn_After (label_sorna bp ap r) = sn_After r\<lparr>srs_Path := ap\<rparr>"
  "rt_Transition (label_sorna bp ap r) = rt_Transition r"
  by (simp_all add: label_sorna_def sorna_report_wf_def report_wf_def)

lemma loaded_sorna_iff:
  assumes "validateSornaRun bp b = None" "validateSornaRun ap a = None" "sorna_fit b" "sorna_fit a"
  shows "SornaRunComparison_Validate (label_sorna bp ap (compareSornaRuns marshal b a)) = None \<longleftrightarrow>
    sorna_writable b \<and> sorna_writable a \<and> present_not_blank bp \<and> present_not_blank ap"
proof -
  have wf: "sorna_report_wf (label_sorna bp ap (compareSornaRuns marshal b a))"
    using sorna_compared_wf[OF assms] by simp
  have "sv_Status (srd_ContractVerdict d) \<noteq> []" if "validateSornaRun path d = None" for path d
    using that by (auto simp: validateSornaRun_def check_simps validSornaVerdictStatus_def)
  with assms(1,2) have "StateTransition_Validate (rt_Transition (compareSornaRuns marshal b a)) = None"
    by (simp add: compareSornaRuns_def Let_def)
  with sorna_comparison_iff[OF wf] sorna_summary_iff[OF assms(1)] sorna_summary_iff[OF assms(2)]
  show ?thesis by auto
qed

section \<open>Filtering keeps the index of rules in step\<close>

lemma has_prefix_rule: "has_prefix (''rules.'' @ i @ ''.status'') ''rules.''"
  unfolding has_prefix_iff by blast

lemma has_suffix_rule: "has_suffix (''rules.'' @ i @ ''.status'') ''.status''"
proof -
  have "rev (''rules.'' @ i @ ''.status'') = rev ''.status'' @ rev (''rules.'' @ i)" by simp
  then show ?thesis unfolding has_suffix_def has_prefix_iff by blast
qed

lemma rule_id: "StableChangeID (''rules.'' @ i) ''status'' = ''rules.'' @ i @ ''.status''"
  by (simp add: StableChangeID_def)

lemma filtered_rule:
  assumes wf: "changes_wf cs" and i: "i \<in> changed_ids cs"
  shows "''rules.'' @ i @ ''.status'' \<in> ch_ID ` set (filter P cs) \<longleftrightarrow> i \<in> changed_ids (filter P cs)"
proof
  obtain c where c: "c \<in> set cs" "ch_Field c = ''status''" "ch_Category c = ''rules.'' @ i"
    using i by (auto simp: changed_ids_def)
  have id: "ch_ID c = ''rules.'' @ i @ ''.status''"
    using wf c unfolding changes_wf_def change_wf_def by (metis rule_id)
  assume "''rules.'' @ i @ ''.status'' \<in> ch_ID ` set (filter P cs)"
  then obtain c' where c': "c' \<in> set cs" "P c'" "ch_ID c' = ch_ID c" unfolding id by auto
  then have "c' = c" using wf c(1) by (auto simp: changes_wf_def distinct_map inj_on_def)
  with c c' show "i \<in> changed_ids (filter P cs)" by (auto simp: changed_ids_def)
next
  assume "i \<in> changed_ids (filter P cs)"
  then obtain c where c: "c \<in> set (filter P cs)" "ch_Field c = ''status''" "ch_Category c = ''rules.'' @ i"
    unfolding changed_ids_def by blast
  then have "c \<in> set cs" by simp
  then have "ch_ID c = ''rules.'' @ i @ ''.status''"
    using wf c(2,3) unfolding changes_wf_def change_wf_def by (metis rule_id)
  with c(1) show "''rules.'' @ i @ ''.status'' \<in> ch_ID ` set (filter P cs)" by (metis imageI)
qed

lemma changed_ids_filter: "changed_ids (filter P cs) \<subseteq> changed_ids cs"
  by (auto simp: changed_ids_def)

lemma filter_sorna_simps [simp]:
  "sn_ChangedRules (filter_report ids r) = sn_ChangedRules r" "sn_Before (filter_report ids r) = sn_Before r"
  "sn_After (filter_report ids r) = sn_After r"
  by (simp_all add: filter_report_def)

lemma FilterSorna_simps [simp]:
  "sn_Before (FilterSornaRunChanges r ids) = sn_Before r" "sn_After (FilterSornaRunChanges r ids) = sn_After r"
  "rt_Changes (FilterSornaRunChanges r ids) = FilterChanges (rt_Changes r) ids"
  "rt_Transition (FilterSornaRunChanges r ids) = rt_Transition r"
  "rt_Compatible (FilterSornaRunChanges r ids) = rt_Compatible r"
  "rt_Reasons (FilterSornaRunChanges r ids) = rt_Reasons r"
  by (simp_all add: FilterSornaRunChanges_def Let_def)

lemma image_restrict:
  assumes "B \<subseteq> f ` A"
  shows "f ` {x \<in> A. f x \<in> B} = B"
proof
  show "B \<subseteq> f ` {x \<in> A. f x \<in> B}"
  proof
    fix b assume b: "b \<in> B"
    with assms obtain x where "x \<in> A" "b = f x" by blast
    with b show "b \<in> f ` {x \<in> A. f x \<in> B}" by blast
  qed
qed blast

lemma filter_sorna_wf:
  assumes r: "sorna_report_wf r"
  shows "sorna_report_wf (FilterSornaRunChanges r ids)"
proof -
  have base: "report_wf sornaRunComparisonSchema r" and wf: "changes_wf (rt_Changes r)"
    using r by (auto simp: sorna_report_wf_def report_wf_def)
  have F: "FilterChanges (rt_Changes r) ids = filter (\<lambda>c. selects ids (ch_ID c)) (rt_Changes r)"
    using wf by (intro FilterChanges_wf) (simp add: changes_wf_def)
  have fwf: "report_wf sornaRunComparisonSchema (filter_report ids r)" using filter_report_wf[OF base] .
  show ?thesis
  proof (cases "normalizedChangeIDs ids = []")
    case True
    then have "selects ids = (\<lambda>_. True)" using normalized_selects by (metis (full_types))
    with F have "FilterChanges (rt_Changes r) ids = rt_Changes r" by simp
    with True r fwf show ?thesis by (simp add: FilterSornaRunChanges_def Let_def sorna_report_wf_def)
  next
    case False
    let ?cs = "FilterChanges (rt_Changes r) ids"
    let ?selected = "filter (\<lambda>i. has_prefix i ''rules.'' \<and> has_suffix i ''.status'') (map StableID ?cs)"
    have "StableID c = ch_ID c" if "c \<in> set ?cs" for c
      using that wf unfolding F by (auto simp: changes_wf_def intro: change_wf_StableID)
    then have sel: "''rules.'' @ i @ ''.status'' \<in> set ?selected \<longleftrightarrow> ''rules.'' @ i @ ''.status'' \<in> ch_ID ` set ?cs" for i
      using has_prefix_rule[of i] has_suffix_rule[of i] by (simp add: image_iff)
    have keep: "''rules.'' @ rsc_RuleID c @ ''.status'' \<in> set ?selected \<longleftrightarrow> rsc_RuleID c \<in> changed_ids ?cs"
      if "c \<in> set (sn_ChangedRules r)" for c
    proof -
      have "rsc_RuleID c \<in> changed_ids (rt_Changes r)"
        using that r unfolding sorna_report_wf_def by (metis imageI)
      from filtered_rule[OF wf this, of "\<lambda>c. selects ids (ch_ID c)"] sel[of "rsc_RuleID c"] show ?thesis
        by (simp only: F)
    qed
    have rules: "sn_ChangedRules (FilterSornaRunChanges r ids) =
        filter (\<lambda>c. rsc_RuleID c \<in> changed_ids ?cs) (sn_ChangedRules r)"
      using False keep by (simp add: FilterSornaRunChanges_def Let_def cong: filter_cong)
    have "rsc_RuleID ` {c \<in> set (sn_ChangedRules r). rsc_RuleID c \<in> changed_ids ?cs} = changed_ids ?cs"
    proof (rule image_restrict)
      show "changed_ids ?cs \<subseteq> rsc_RuleID ` set (sn_ChangedRules r)"
        using r changed_ids_filter unfolding F by (simp add: sorna_report_wf_def)
    qed
    moreover have "report_wf sornaRunComparisonSchema (FilterSornaRunChanges r ids)"
      using fwf False by (simp add: FilterSornaRunChanges_def Let_def report_wf_def)
    ultimately show ?thesis
      using r by (simp add: sorna_report_wf_def rules distinct_map_filter)
  qed
qed

end
