(* ===== verification/SattlerBundle.thy ===== *)
theory SattlerBundle
  imports SattlerSorna
begin

text \<open>
  sattler/errors.go, bundle.go and correlation.go: the errors of the command, the manifest that
  names pairs of artifacts, the combined comparison of a bundle with its summary, the identity
  observations between its artifacts, and the validation of the whole.  Files, decoders and
  encoders are the fields of one record \<open>Sources\<close>.  A list that is nil and one that is empty are
  the same.
\<close>

section \<open>Errors\<close>

abbreviation ErrorSchema :: string where "ErrorSchema \<equiv> ''ingen.sattler-error/v0''"

record ErrorIssue =
  ei_Code :: string
  ei_Path :: string
  ei_Message :: message

record ErrorDocument =
  edoc_Schema :: string
  edoc_Operation :: string
  edoc_Errors :: "ErrorIssue list"

text \<open>An error is a list of manifest issues, any other message, or either of them wrapped.\<close>

datatype SattlerError =
    ManifestValidationError "ErrorIssue list"
  | Failed message
  | Wrapped message SattlerError

definition issue_problem :: "nat \<times> ErrorIssue \<Rightarrow> message option" where
  "issue_problem x =
     fail_if (blank (ei_Code (snd x)) \<or> message_blank (ei_Message (snd x)))
       [T ''error document errors['', D (int (fst x)), T ''] needs a code and message'']"

definition ErrorDocument_Validate :: "ErrorDocument \<Rightarrow> message option" where
  "ErrorDocument_Validate d =
     first_some
       [fail_if (edoc_Schema d \<noteq> ErrorSchema)
          [T ''error document schema must be '', T ErrorSchema, T '', got '', Q (edoc_Schema d)],
        fail_if (blank (edoc_Operation d)) [T ''error document operation is required''],
        fail_if (edoc_Errors d = []) [T ''error document needs at least one error''],
        first_error issue_problem (enumerate 0 (edoc_Errors d))]"

text \<open>\<open>Error()\<close>: the messages of the issues joined by semicolons, and a wrapped error after its
  prefix.\<close>

fun error_text :: "SattlerError \<Rightarrow> message" where
  "error_text (ManifestValidationError issues) =
     (if issues = [] then [T ''comparison manifest validation failed'']
      else join_problems (map ei_Message issues))"
| "error_text (Failed m) = m"
| "error_text (Wrapped pre err) = pre @ error_text err"

text \<open>\<open>errors.As\<close> looks through the wrappers.\<close>

fun manifest_issues :: "SattlerError \<Rightarrow> ErrorIssue list option" where
  "manifest_issues (ManifestValidationError issues) = Some issues"
| "manifest_issues (Failed m) = None"
| "manifest_issues (Wrapped pre err) = manifest_issues err"

definition ErrorDocumentFor :: "string \<Rightarrow> SattlerError \<Rightarrow> ErrorDocument" where
  "ErrorDocumentFor operation err =
     \<lparr>edoc_Schema = ErrorSchema, edoc_Operation = operation,
      edoc_Errors = (case manifest_issues err of
                       Some issues \<Rightarrow> issues
                     | None \<Rightarrow> [\<lparr>ei_Code = ''operation-failed'', ei_Path = [], ei_Message = error_text err\<rparr>])\<rparr>"

text \<open>\<open>WriteErrorJSON\<close>; the error is optional since the function guards against a nil one.\<close>

definition WriteErrorJSON ::
  "(ErrorDocument \<Rightarrow> message + string) \<Rightarrow> string \<Rightarrow> SattlerError option \<Rightarrow> message + string" where
  "WriteErrorJSON encode operation err =
     (case err of
        None \<Rightarrow> Inl [T ''cannot write a nil Sattler error'']
      | Some e \<Rightarrow> WriteValidated ErrorDocument_Validate encode (ErrorDocumentFor operation e))"

section \<open>Manifests\<close>

abbreviation ComparisonManifestSchema :: string where
  "ComparisonManifestSchema \<equiv> ''ingen.sattler-comparison-input/v0''"

record ComparisonInputs =
  cin_CIResult :: string
  cin_SornaRun :: string
  cin_NublarRun :: string
  cin_Custody :: string
  cin_Provenance :: string

record ComparisonManifest =
  cmf_Schema :: string
  cmf_Before :: ComparisonInputs
  cmf_After :: ComparisonInputs

definition manifest_pairs :: "ComparisonManifest \<Rightarrow> (string \<times> string \<times> string) list" where
  "manifest_pairs m =
     [(''ci_result'', cin_CIResult (cmf_Before m), cin_CIResult (cmf_After m)),
      (''sorna_run'', cin_SornaRun (cmf_Before m), cin_SornaRun (cmf_After m)),
      (''nublar_run'', cin_NublarRun (cmf_Before m), cin_NublarRun (cmf_After m)),
      (''custody'', cin_Custody (cmf_Before m), cin_Custody (cmf_After m)),
      (''provenance'', cin_Provenance (cmf_Before m), cin_Provenance (cmf_After m))]"

definition hasAny :: "string \<Rightarrow> string \<Rightarrow> bool" where
  "hasAny before after \<longleftrightarrow> \<not> blank before \<or> \<not> blank after"

definition incomplete_pair :: "string \<Rightarrow> ErrorIssue" where
  "incomplete_pair name =
     \<lparr>ei_Code = ''incomplete-pair'', ei_Path = name,
      ei_Message = [T ''comparison manifest '', T name, T '' needs both before and after paths'']\<rparr>"

definition pair_issues :: "string \<times> string \<times> string \<Rightarrow> ErrorIssue list" where
  "pair_issues x =
     (case x of (name, before, after) \<Rightarrow>
        problem (hasAny before after \<and> (blank before \<or> blank after)) (incomplete_pair name))"

definition manifest_problems :: "ComparisonManifest \<Rightarrow> ErrorIssue list" where
  "manifest_problems m =
     problem (cmf_Schema m \<noteq> ComparisonManifestSchema)
       \<lparr>ei_Code = ''invalid-schema'', ei_Path = ''schema'',
        ei_Message = [T ''comparison manifest schema must be '', T ComparisonManifestSchema, T '', got '',
                      Q (cmf_Schema m)]\<rparr> @
     concat (map pair_issues (manifest_pairs m)) @
     problem (\<not> list_ex (\<lambda>(name, before, after). hasAny before after) (manifest_pairs m))
       \<lparr>ei_Code = ''no-artifact-pairs'', ei_Path = ''before/after'',
        ei_Message = [T ''comparison manifest declares no artifact pairs'']\<rparr>"

text \<open>\<open>filepath.Dir\<close>: everything up to the last slash, cleaned.\<close>

definition Dir :: "string \<Rightarrow> string" where
  "Dir p = Clean (rev (dropWhile (\<lambda>c. c \<noteq> CHR ''/'') (rev p)))"

definition resolveManifestPath :: "string \<Rightarrow> string \<Rightarrow> string" where
  "resolveManifestPath root path = (if IsAbs path then Clean path else Clean (Join root path))"

definition pairedPaths :: "string \<Rightarrow> string \<Rightarrow> string \<Rightarrow> string \<Rightarrow> SattlerError + string \<times> string" where
  "pairedPaths root name before after =
     (if blank before \<or> blank after then Inl (ManifestValidationError [incomplete_pair name])
      else Inr (resolveManifestPath root before, resolveManifestPath root after))"

section \<open>Correlations\<close>

abbreviation BundleCorrelationKindNublarCustodySource :: string where
  "BundleCorrelationKindNublarCustodySource \<equiv> ''nublar-run-to-custody-source''"
abbreviation BundleCorrelationKindNublarAmber :: string where
  "BundleCorrelationKindNublarAmber \<equiv> ''nublar-correlation-to-amber''"
abbreviation BundleCorrelationExactMatch :: string where "BundleCorrelationExactMatch \<equiv> ''exact-match''"
abbreviation BundleCorrelationMismatch :: string where "BundleCorrelationMismatch \<equiv> ''mismatch''"
abbreviation BundleCorrelationUnknown :: string where "BundleCorrelationUnknown \<equiv> ''unknown''"

record BundleCorrelation =
  bc_Kind :: string
  bc_Side :: string
  bc_Relation :: string
  bc_NublarRunID :: string
  bc_CustodySourceRunID :: string
  bc_NublarCorrelationID :: string
  bc_AmberCorrelationID :: string

definition validateBundleCorrelation :: "BundleCorrelation \<Rightarrow> message option" where
  "validateBundleCorrelation c =
     first_some
       [fail_if (bc_Kind c = [] \<or> bc_Side c = [] \<or> bc_Relation c = [])
          [T ''bundle correlation needs kind, side, and relation''],
        fail_if (bc_Side c \<noteq> ''before'' \<and> bc_Side c \<noteq> ''after'')
          [T ''bundle correlation has unsupported side '', Q (bc_Side c)],
        fail_if (bc_Kind c \<notin> {BundleCorrelationKindNublarCustodySource, BundleCorrelationKindNublarAmber})
          [T ''bundle correlation has unsupported kind '', Q (bc_Kind c)],
        fail_if (bc_Relation c \<notin> {BundleCorrelationExactMatch, BundleCorrelationMismatch, BundleCorrelationUnknown})
          [T ''bundle correlation has unsupported relation '', Q (bc_Relation c)]]"

definition relate_ids :: "string \<Rightarrow> string \<Rightarrow> string" where
  "relate_ids a b =
     (if a \<noteq> [] \<and> b \<noteq> [] then (if a = b then BundleCorrelationExactMatch else BundleCorrelationMismatch)
      else BundleCorrelationUnknown)"

definition correlateBundleSide :: "string \<Rightarrow> string \<Rightarrow> string \<Rightarrow> BundleCorrelation" where
  "correlateBundleSide side nublarRunID custodySourceRunID =
     \<lparr>bc_Kind = BundleCorrelationKindNublarCustodySource, bc_Side = side,
      bc_Relation = relate_ids nublarRunID custodySourceRunID, bc_NublarRunID = nublarRunID,
      bc_CustodySourceRunID = custodySourceRunID, bc_NublarCorrelationID = [], bc_AmberCorrelationID = []\<rparr>"

definition correlateAmberSide :: "string \<Rightarrow> NublarCorrelationSummary option \<Rightarrow> string \<Rightarrow> BundleCorrelation" where
  "correlateAmberSide side nublar amberCorrelationID =
     (let nublarCorrelationID = (case nublar of None \<Rightarrow> [] | Some c \<Rightarrow> nc_ID c)
      in \<lparr>bc_Kind = BundleCorrelationKindNublarAmber, bc_Side = side,
          bc_Relation = relate_ids nublarCorrelationID amberCorrelationID, bc_NublarRunID = [],
          bc_CustodySourceRunID = [], bc_NublarCorrelationID = nublarCorrelationID,
          bc_AmberCorrelationID = amberCorrelationID\<rparr>)"

section \<open>Bundles\<close>

abbreviation bundleComparisonSchema :: string where
  "bundleComparisonSchema \<equiv> ''ingen.sattler-bundle-comparison/v0''"
abbreviation bundleSummarySchema :: string where
  "bundleSummarySchema \<equiv> ''ingen.sattler-bundle-summary/v0''"

abbreviation subsystem_names :: "string list" where
  "subsystem_names \<equiv> [''ci_result'', ''sorna_run'', ''nublar_run'', ''custody'', ''provenance'']"

record BundleSubsystemSummary =
  sub_Compatible :: bool
  sub_Transition :: StateTransition
  sub_ChangeSummary :: ChangeSummary

record BundleSummary =
  bs_Compatible :: bool
  bs_CompatibilityReasons :: "message list"
  bs_ChangeSummary :: ChangeSummary
  bs_Warnings :: "message list"
  bs_Subsystems :: "(string, BundleSubsystemSummary) gomap"

record BundleComparison =
  bn_Schema :: string
  bn_Manifest :: string
  bn_Summary :: BundleSummary
  bn_Correlations :: "BundleCorrelation list"
  bn_ChangeIDFilter :: "string list"
  bn_CIResult :: "Comparison option"
  bn_SornaRun :: "SornaRunComparison option"
  bn_NublarRun :: "NublarRunComparison option"
  bn_Custody :: "LockwoodCustodyComparison option"
  bn_Provenance :: "AmberProvenanceComparison option"

definition CorrelateBundle :: "BundleComparison \<Rightarrow> BundleCorrelation list" where
  "CorrelateBundle r =
     (case bn_NublarRun r of
        None \<Rightarrow> []
      | Some n \<Rightarrow>
          (case bn_Custody r of
             None \<Rightarrow> []
           | Some c \<Rightarrow>
               [correlateBundleSide ''before'' (ns_RunID (nm_Before n)) (ls_SourceRunID (lm_Before c)),
                correlateBundleSide ''after'' (ns_RunID (nm_After n)) (ls_SourceRunID (lm_After c))]) @
          (case bn_Provenance r of
             None \<Rightarrow> []
           | Some p \<Rightarrow>
               [correlateAmberSide ''before'' (ns_Correlation (nm_Before n)) (ap_CorrelationID (am_Before p)),
                correlateAmberSide ''after'' (ns_Correlation (nm_After n)) (ap_CorrelationID (am_After p))]))"

text \<open>The arguments of the closure \<open>add\<close> of \<open>SummarizeBundle\<close>, one for each report that is there.\<close>

record BundlePart =
  pt_Name :: string
  pt_Compatible :: bool
  pt_Transition :: StateTransition
  pt_Reasons :: "message list"
  pt_Changes :: "Change list"
  pt_Warnings :: "message list"

definition part_of :: "string \<Rightarrow> message list \<Rightarrow> 'a SharedReport_scheme \<Rightarrow> BundlePart" where
  "part_of name warnings r =
     \<lparr>pt_Name = name, pt_Compatible = rt_Compatible r, pt_Transition = rt_Transition r,
      pt_Reasons = rt_Reasons r, pt_Changes = rt_Changes r, pt_Warnings = warnings\<rparr>"

definition opt_list :: "('a \<Rightarrow> 'b) \<Rightarrow> 'a option \<Rightarrow> 'b list" where
  "opt_list f x = (case x of None \<Rightarrow> [] | Some y \<Rightarrow> [f y])"

definition bundle_parts :: "BundleComparison \<Rightarrow> BundlePart list" where
  "bundle_parts r =
     opt_list (\<lambda>c. part_of ''ci_result'' (cm_Warnings c) c) (bn_CIResult r) @
     opt_list (part_of ''sorna_run'' []) (bn_SornaRun r) @
     opt_list (part_of ''nublar_run'' []) (bn_NublarRun r) @
     opt_list (part_of ''custody'' []) (bn_Custody r) @
     opt_list (part_of ''provenance'' []) (bn_Provenance r)"

definition prefixed :: "string \<Rightarrow> message list \<Rightarrow> message list" where
  "prefixed name ms = map (\<lambda>m. T (name @ '': '') # m) ms"

definition summarize_parts :: "BundlePart list \<Rightarrow> BundleSummary" where
  "summarize_parts ps =
     \<lparr>bs_Compatible = (ps \<noteq> [] \<and> list_all pt_Compatible ps),
      bs_CompatibilityReasons = concat (map (\<lambda>p. prefixed (pt_Name p) (pt_Reasons p)) ps),
      bs_ChangeSummary = SummarizeChanges (concat (map pt_Changes ps)),
      bs_Warnings = concat (map (\<lambda>p. prefixed (pt_Name p) (pt_Warnings p)) ps),
      bs_Subsystems = map (\<lambda>p. (pt_Name p,
        \<lparr>sub_Compatible = pt_Compatible p, sub_Transition = pt_Transition p,
         sub_ChangeSummary = SummarizeChanges (pt_Changes p)\<rparr>)) ps\<rparr>"

definition SummarizeBundle :: "BundleComparison \<Rightarrow> BundleSummary" where
  "SummarizeBundle r = summarize_parts (bundle_parts r)"

definition refresh :: "BundleComparison \<Rightarrow> BundleComparison" where
  "refresh r = r\<lparr>bn_Summary := SummarizeBundle r, bn_Correlations := CorrelateBundle r\<rparr>"

text \<open>Files, decoders and encoders.\<close>

record 'j Sources =
  w_read :: "string \<Rightarrow> message + string"
  w_manifest :: "string \<Rightarrow> message + ComparisonManifest"
  w_ci :: "string \<Rightarrow> message + CIArtifact"
  w_sorna :: "string \<Rightarrow> message + sornaRunDocument"
  w_nublar :: "string \<Rightarrow> message + nublarRunDocument"
  w_custody :: "string \<Rightarrow> message + lockwoodCustodyDocument"
  w_provenance :: "string \<Rightarrow> message + amberProvenanceDocument"
  w_valid_json :: "string \<Rightarrow> bool"
  w_marshal :: "Value \<Rightarrow> 'j option"
  w_reencode :: "string \<Rightarrow> string option"
  w_hex_sha :: "string \<Rightarrow> string"
  w_campaign :: campaign_decoder

definition loadComparisonManifest :: "'j Sources \<Rightarrow> string \<Rightarrow> SattlerError + ComparisonManifest" where
  "loadComparisonManifest w path =
     (case w_read w path of
        Inl err \<Rightarrow> Inl (ManifestValidationError
          [\<lparr>ei_Code = ''read-manifest'', ei_Path = ''manifest'',
            ei_Message = [T ''read comparison manifest '', T path, T '': ''] @ err\<rparr>])
      | Inr contents \<Rightarrow>
          (case w_manifest w contents of
             Inl err \<Rightarrow> Inl (ManifestValidationError
               [\<lparr>ei_Code = ''parse-manifest'', ei_Path = ''manifest'',
                 ei_Message = [T ''parse comparison manifest '', T path, T '': ''] @ err\<rparr>])
           | Inr m \<Rightarrow>
               if manifest_problems m \<noteq> [] then Inl (ManifestValidationError (manifest_problems m))
               else Inr m))"

text \<open>One subsystem of the manifest: absent, or its pair of files compared.\<close>

definition compare_pair ::
  "(string \<Rightarrow> string \<Rightarrow> message + 'r) \<Rightarrow> string \<Rightarrow> string \<Rightarrow> string \<Rightarrow> string \<Rightarrow> SattlerError + 'r option" where
  "compare_pair compare root name before after =
     (if \<not> hasAny before after then Inr None
      else (case pairedPaths root name before after of
              Inl err \<Rightarrow> Inl err
            | Inr (b, a) \<Rightarrow> (case compare b a of Inl err \<Rightarrow> Inl (Failed err) | Inr r \<Rightarrow> Inr (Some r))))"

definition ci_files :: "'j Sources \<Rightarrow> string \<Rightarrow> string \<Rightarrow> message + Comparison" where
  "ci_files w = CompareFiles (loadCIResult (w_valid_json w) (w_read w) (w_ci w)) (w_marshal w) (w_reencode w)
     (w_hex_sha w) (w_campaign w)"

definition CompareBundleFile :: "'j Sources \<Rightarrow> string \<Rightarrow> SattlerError + BundleComparison" where
  "CompareBundleFile w path =
     (case loadComparisonManifest w path of
        Inl err \<Rightarrow> Inl err
      | Inr m \<Rightarrow>
          (let root = Dir path; b = cmf_Before m; a = cmf_After m in
           case compare_pair (ci_files w) root ''ci_result'' (cin_CIResult b) (cin_CIResult a) of
             Inl err \<Rightarrow> Inl err
           | Inr ci \<Rightarrow>
          (case compare_pair (CompareSornaRunFiles (w_read w) (w_sorna w) (w_marshal w)) root ''sorna_run''
                  (cin_SornaRun b) (cin_SornaRun a) of
             Inl err \<Rightarrow> Inl err
           | Inr sorna \<Rightarrow>
          (case compare_pair (CompareNublarRunFiles (w_read w) (w_nublar w) (w_marshal w)) root ''nublar_run''
                  (cin_NublarRun b) (cin_NublarRun a) of
             Inl err \<Rightarrow> Inl err
           | Inr nublar \<Rightarrow>
          (case compare_pair (CompareLockwoodCustodyFiles (w_read w) (w_custody w) (w_marshal w)) root ''custody''
                  (cin_Custody b) (cin_Custody a) of
             Inl err \<Rightarrow> Inl err
           | Inr custody \<Rightarrow>
          (case compare_pair (CompareAmberProvenanceFiles (w_read w) (w_provenance w) (w_marshal w)) root
                  ''provenance'' (cin_Provenance b) (cin_Provenance a) of
             Inl err \<Rightarrow> Inl err
           | Inr provenance \<Rightarrow>
               Inr (refresh
                 \<lparr>bn_Schema = bundleComparisonSchema, bn_Manifest = path,
                  bn_Summary = summarize_parts [], bn_Correlations = [], bn_ChangeIDFilter = [],
                  bn_CIResult = ci, bn_SornaRun = sorna, bn_NublarRun = nublar, bn_Custody = custody,
                  bn_Provenance = provenance\<rparr>)))))))"

definition FilterBundleChanges :: "BundleComparison \<Rightarrow> string list \<Rightarrow> BundleComparison" where
  "FilterBundleChanges r ids =
     refresh (r\<lparr>bn_ChangeIDFilter := sortedChangeIDs ids,
       bn_CIResult := map_option (\<lambda>c. FilterComparisonChanges c ids) (bn_CIResult r),
       bn_SornaRun := map_option (\<lambda>c. FilterSornaRunChanges c ids) (bn_SornaRun r),
       bn_NublarRun := map_option (\<lambda>c. FilterNublarRunChanges c ids) (bn_NublarRun r),
       bn_Custody := map_option (\<lambda>c. FilterLockwoodCustodyChanges c ids) (bn_Custody r),
       bn_Provenance := map_option (\<lambda>c. FilterAmberProvenanceChanges c ids) (bn_Provenance r)\<rparr>)"

section \<open>Validation\<close>

definition subsystem_problem :: "BundleSummary \<Rightarrow> string \<Rightarrow> message option" where
  "subsystem_problem s name =
     (case map_of (bs_Subsystems s) name of
        None \<Rightarrow> None
      | Some d \<Rightarrow>
          first_some
            [wrap_err (\<lambda>err. [T ''bundle summary subsystem '', T name, T '' transition: ''] @ err)
               (StateTransition_Validate (sub_Transition d)),
             wrap_err (\<lambda>err. [T ''bundle summary subsystem '', T name, T '': ''] @ err)
               (ChangeSummary_Validate (sub_ChangeSummary d))])"

definition BundleSummary_Validate :: "BundleSummary \<Rightarrow> message option" where
  "BundleSummary_Validate s =
     first_some
       [fail_if (\<not> bs_Compatible s \<and> bs_CompatibilityReasons s = [])
          [T ''incompatible bundle summary needs a compatibility reason''],
        fail_if (bs_Compatible s \<and> bs_CompatibilityReasons s \<noteq> [])
          [T ''compatible bundle summary cannot have compatibility reasons''],
        first_error (\<lambda>m. fail_if (message_blank m) [T ''bundle summary compatibility reasons cannot be empty''])
          (bs_CompatibilityReasons s),
        first_error (\<lambda>m. fail_if (message_blank m) [T ''bundle summary warnings cannot be empty''])
          (bs_Warnings s),
        wrap_err (\<lambda>err. T ''change summary: '' # err) (ChangeSummary_Validate (bs_ChangeSummary s)),
        fail_if (bs_Subsystems s = []) [T ''bundle summary needs at least one subsystem''],
        first_error (subsystem_problem s) subsystem_names,
        first_error (\<lambda>x. fail_if (fst x \<notin> set subsystem_names)
          [T ''bundle summary has unsupported subsystem '', Q (fst x)]) (bs_Subsystems s)]"

definition subsystemsEqual :: "string \<times> BundleSubsystemSummary \<Rightarrow> string \<times> BundleSubsystemSummary \<Rightarrow> bool" where
  "subsystemsEqual x y \<longleftrightarrow>
     fst x = fst y \<and> sub_Compatible (snd x) = sub_Compatible (snd y) \<and>
     sub_Transition (snd x) = sub_Transition (snd y) \<and>
     summariesEqual (sub_ChangeSummary (snd x)) (sub_ChangeSummary (snd y))"

text \<open>\<open>valuesEqual\<close> on two bundle summaries.\<close>

definition bundleSummariesEqual :: "BundleSummary \<Rightarrow> BundleSummary \<Rightarrow> bool" where
  "bundleSummariesEqual a b \<longleftrightarrow>
     bs_Compatible a = bs_Compatible b \<and> bs_CompatibilityReasons a = bs_CompatibilityReasons b \<and>
     summariesEqual (bs_ChangeSummary a) (bs_ChangeSummary b) \<and> bs_Warnings a = bs_Warnings b \<and>
     list_all2 subsystemsEqual (sort_key fst (bs_Subsystems a)) (sort_key fst (bs_Subsystems b))"

definition opt_problem :: "('a \<Rightarrow> message option) \<Rightarrow> 'a option \<Rightarrow> message option" where
  "opt_problem f x = (case x of None \<Rightarrow> None | Some y \<Rightarrow> f y)"

definition BundleComparison_Validate :: "BundleComparison \<Rightarrow> message option" where
  "BundleComparison_Validate r =
     first_some
       [fail_if (bn_Schema r \<noteq> bundleComparisonSchema)
          [T ''bundle comparison schema must be '', T bundleComparisonSchema, T '', got '', Q (bn_Schema r)],
        fail_if (bn_Manifest r \<noteq> [] \<and> blank (bn_Manifest r))
          [T ''bundle comparison manifest cannot be empty when present''],
        validateBundleStringList (bn_ChangeIDFilter r) ''bundle comparison change ID filter'',
        opt_problem (\<lambda>c. first_some
          [wrap_err (\<lambda>err. T ''bundle comparison ci_result: '' # err) (Comparison_Validate c),
           validateBundleAdapterEnvelope ''ci_result'' ComparisonSchema c (cm_Warnings c)]) (bn_CIResult r),
        wrap_err (\<lambda>err. T ''bundle comparison sorna_run: '' # err)
          (opt_problem SornaRunComparison_Validate (bn_SornaRun r)),
        wrap_err (\<lambda>err. T ''bundle comparison nublar_run: '' # err)
          (opt_problem NublarRunComparison_Validate (bn_NublarRun r)),
        wrap_err (\<lambda>err. T ''bundle comparison custody: '' # err)
          (opt_problem LockwoodCustodyComparison_Validate (bn_Custody r)),
        opt_problem (\<lambda>c. validateBundleAdapterEnvelope ''provenance'' amberProvenanceComparisonSchema c [])
          (bn_Provenance r),
        wrap_err (\<lambda>err. T ''bundle comparison summary: '' # err) (BundleSummary_Validate (bn_Summary r)),
        fail_if (\<not> bundleSummariesEqual (bn_Summary r) (SummarizeBundle r))
          [T ''bundle comparison summary does not match adapter reports''],
        first_error validateBundleCorrelation (bn_Correlations r),
        fail_if (bn_Correlations r \<noteq> CorrelateBundle r)
          [T ''bundle comparison correlations do not match adapter reports'']]"

record BundleSummaryReport =
  bsr_Schema :: string
  bsr_Manifest :: string
  bsr_Summary :: BundleSummary
  bsr_Correlations :: "BundleCorrelation list"
  bsr_ChangeIDFilter :: "string list"

definition NewBundleSummaryReport :: "BundleComparison \<Rightarrow> BundleSummaryReport" where
  "NewBundleSummaryReport r =
     \<lparr>bsr_Schema = bundleSummarySchema, bsr_Manifest = bn_Manifest r, bsr_Summary = SummarizeBundle r,
      bsr_Correlations = CorrelateBundle r, bsr_ChangeIDFilter = bn_ChangeIDFilter r\<rparr>"

definition BundleSummaryReport_Validate :: "BundleSummaryReport \<Rightarrow> message option" where
  "BundleSummaryReport_Validate r =
     first_some
       [fail_if (bsr_Schema r \<noteq> bundleSummarySchema)
          [T ''bundle summary schema must be '', T bundleSummarySchema, T '', got '', Q (bsr_Schema r)],
        first_error (\<lambda>i. fail_if (blank i) [T ''bundle summary change ID filter cannot contain an empty ID''])
          (bsr_ChangeIDFilter r),
        wrap_err (\<lambda>err. T ''bundle summary: '' # err) (BundleSummary_Validate (bsr_Summary r)),
        first_error validateBundleCorrelation (bsr_Correlations r)]"

text \<open>The writers: a bundle is written with its summary and correlations computed again.\<close>

definition WriteBundleJSON :: "(BundleComparison \<Rightarrow> message + string) \<Rightarrow> BundleComparison \<Rightarrow> message + string" where
  "WriteBundleJSON encode r = WriteValidated BundleComparison_Validate encode (refresh r)"

definition WriteBundleSummaryJSON ::
  "(BundleSummaryReport \<Rightarrow> message + string) \<Rightarrow> BundleComparison \<Rightarrow> message + string" where
  "WriteBundleSummaryJSON encode r =
     WriteValidated BundleSummaryReport_Validate encode (NewBundleSummaryReport r)"


section \<open>When a summary validates\<close>

definition part_wf :: "BundlePart \<Rightarrow> bool" where
  "part_wf p \<longleftrightarrow>
     pt_Name p \<in> set subsystem_names \<and> pt_Compatible p = (pt_Reasons p = []) \<and>
     (\<forall>c \<in> set (pt_Changes p). change_wf c)"

definition parts_wf :: "BundlePart list \<Rightarrow> bool" where
  "parts_wf ps \<longleftrightarrow> ps \<noteq> [] \<and> distinct (map pt_Name ps) \<and> (\<forall>p \<in> set ps. part_wf p) \<and>
     int (length (concat (map pt_Changes ps))) < 2 ^ 63"

lemma subsystem_name_plain: "n \<in> set subsystem_names \<Longrightarrow> \<not> blank (n @ '': '')"
proof -
  have "plain_byte CHR '':''" by (simp add: plain_byte_def byte_def)
  from plain_not_blank[OF this, of "n @ '': ''"] show ?thesis by simp
qed

lemma prefixed_not_blank: "n \<in> set subsystem_names \<Longrightarrow> m \<in> set (prefixed n ms) \<Longrightarrow> \<not> message_blank m"
  using subsystem_name_plain[of n] unfolding prefixed_def by auto

lemma part_counts:
  assumes "parts_wf ps" and "p \<in> set ps"
  shows "ChangeSummary_Validate (SummarizeChanges (pt_Changes p)) = None"
proof (rule SummarizeChanges_valid)
  from assms(2) obtain xs ys where "ps = xs @ p # ys" by (metis split_list)
  then have "length (pt_Changes p) \<le> length (concat (map pt_Changes ps))" by simp
  moreover have "int (length (concat (map pt_Changes ps))) < 2 ^ 63" using assms(1) by (simp add: parts_wf_def)
  ultimately show "int (length (pt_Changes p)) < 2 ^ 63" by linarith
  show "\<forall>c \<in> set (pt_Changes p). \<not> blank (ch_Category c)"
    using assms by (simp add: parts_wf_def part_wf_def change_wf_def)
qed

lemma all_counts:
  assumes "parts_wf ps"
  shows "ChangeSummary_Validate (SummarizeChanges (concat (map pt_Changes ps))) = None"
  using assms by (intro SummarizeChanges_valid) (auto simp: parts_wf_def part_wf_def change_wf_def)

definition part_entry :: "BundlePart \<Rightarrow> string \<times> BundleSubsystemSummary" where
  "part_entry p = (pt_Name p, \<lparr>sub_Compatible = pt_Compatible p, sub_Transition = pt_Transition p,
     sub_ChangeSummary = SummarizeChanges (pt_Changes p)\<rparr>)"

lemma summarize_parts_simps [simp]:
  "bs_Subsystems (summarize_parts ps) = map part_entry ps"
  "bs_Compatible (summarize_parts ps) \<longleftrightarrow> ps \<noteq> [] \<and> list_all pt_Compatible ps"
  "bs_ChangeSummary (summarize_parts ps) = SummarizeChanges (concat (map pt_Changes ps))"
  "bs_CompatibilityReasons (summarize_parts ps) = concat (map (\<lambda>p. prefixed (pt_Name p) (pt_Reasons p)) ps)"
  "bs_Warnings (summarize_parts ps) = concat (map (\<lambda>p. prefixed (pt_Name p) (pt_Warnings p)) ps)"
  by (simp_all add: summarize_parts_def part_entry_def)

lemma part_entry_simps [simp]:
  "fst (part_entry p) = pt_Name p" "sub_Transition (snd (part_entry p)) = pt_Transition p"
  "sub_ChangeSummary (snd (part_entry p)) = SummarizeChanges (pt_Changes p)"
  by (simp_all add: part_entry_def)

lemma subsystem_entry:
  assumes "distinct (map pt_Name ps)"
  shows "map_of (map part_entry ps) n = Some d \<longleftrightarrow> (\<exists>p \<in> set ps. part_entry p = (n, d))"
proof -
  have "distinct (map fst (map part_entry ps))" using assms by (simp add: comp_def)
  then have "map_of (map part_entry ps) n = Some d \<longleftrightarrow> (n, d) \<in> set (map part_entry ps)"
    by (rule map_of_eq_Some_iff)
  then show ?thesis unfolding set_map image_iff by (simp add: eq_commute)
qed

lemma subsystem_problems:
  assumes wf: "parts_wf ps"
  shows "first_error (subsystem_problem (summarize_parts ps)) subsystem_names = None \<longleftrightarrow>
    (\<forall>p \<in> set ps. StateTransition_Validate (pt_Transition p) = None)" (is "?l \<longleftrightarrow> ?r")
proof -
  have d: "distinct (map pt_Name ps)" using wf by (simp add: parts_wf_def)
  have entry: "subsystem_problem (summarize_parts ps) (pt_Name p) = None \<longleftrightarrow>
    StateTransition_Validate (pt_Transition p) = None" if p: "p \<in> set ps" for p
  proof -
    have "map_of (map part_entry ps) (pt_Name p) = Some (snd (part_entry p))"
      using p unfolding subsystem_entry[OF d] by (metis part_entry_simps(1) prod.collapse)
    then show ?thesis using part_counts[OF wf p] by (simp add: subsystem_problem_def check_simps)
  qed
  show ?thesis
  proof
    assume l: ?l
    show ?r
    proof
      fix p assume p: "p \<in> set ps"
      then have "pt_Name p \<in> set subsystem_names" using wf by (simp add: parts_wf_def part_wf_def)
      with l have "subsystem_problem (summarize_parts ps) (pt_Name p) = None" unfolding first_error_None by blast
      with entry[OF p] show "StateTransition_Validate (pt_Transition p) = None" by simp
    qed
  next
    assume r: ?r
    have "subsystem_problem (summarize_parts ps) n = None" for n
    proof (cases "map_of (map part_entry ps) n")
      case (Some x)
      then obtain p where p: "p \<in> set ps" "part_entry p = (n, x)" unfolding subsystem_entry[OF d] by blast
      then have "pt_Name p = n" by (metis fst_conv part_entry_simps(1))
      with entry[OF p(1)] r p(1) show ?thesis by simp
    qed (simp add: subsystem_problem_def)
    then show ?l unfolding first_error_None by blast
  qed
qed

lemma summarize_parts_iff:
  assumes wf: "parts_wf ps"
  shows "BundleSummary_Validate (summarize_parts ps) = None \<longleftrightarrow>
    (\<forall>p \<in> set ps. StateTransition_Validate (pt_Transition p) = None)"
proof -
  have names: "\<And>p. p \<in> set ps \<Longrightarrow> pt_Name p \<in> set subsystem_names"
    using wf by (simp add: parts_wf_def part_wf_def)
  have compat: "pt_Compatible p \<longleftrightarrow> pt_Reasons p = []" if "p \<in> set ps" for p
    using wf that by (simp add: parts_wf_def part_wf_def)
  have reasons: "concat (map (\<lambda>p. prefixed (pt_Name p) (pt_Reasons p)) ps) = [] \<longleftrightarrow> list_all pt_Compatible ps"
    using compat by (simp add: prefixed_def list_all_iff)
  have "\<not> message_blank m" if "m \<in> set (concat (map (\<lambda>p. prefixed (pt_Name p) (f p)) ps))" for m and f
    using that prefixed_not_blank[OF names] by auto
  then have nb: "first_error (\<lambda>m. fail_if (message_blank m) (e :: message))
      (concat (map (\<lambda>p. prefixed (pt_Name p) (f p)) ps)) = None" for f e
    unfolding first_error_None by simp
  have "first_error (\<lambda>x. fail_if (fst x \<notin> set subsystem_names) (e x)) (map part_entry ps) = None"
    for e :: "string \<times> BundleSubsystemSummary \<Rightarrow> message"
    unfolding first_error_None using names by auto
  moreover have "ps \<noteq> []" using wf by (simp add: parts_wf_def)
  ultimately show ?thesis
    unfolding BundleSummary_Validate_def first_some_Cons_None first_some_Nil_None
    using subsystem_problems[OF wf] all_counts[OF wf] nb reasons by simp
qed

lemma bundleSummariesEqual_refl [simp]: "bundleSummariesEqual s s"
  by (simp add: bundleSummariesEqual_def list_all2_same subsystemsEqual_def)

lemma relate_ids_cases:
  "relate_ids a b \<in> {BundleCorrelationExactMatch, BundleCorrelationMismatch, BundleCorrelationUnknown}"
  by (simp add: relate_ids_def)

lemma correlation_ok:
  assumes "bc_Side c = ''before'' \<or> bc_Side c = ''after''"
    and "bc_Kind c = BundleCorrelationKindNublarCustodySource \<or> bc_Kind c = BundleCorrelationKindNublarAmber"
    and "bc_Relation c = relate_ids x y"
  shows "validateBundleCorrelation c = None"
proof -
  have "relate_ids x y \<noteq> []" by (simp add: relate_ids_def)
  with assms relate_ids_cases[of x y] show ?thesis
    unfolding validateBundleCorrelation_def first_some_Cons_None first_some_Nil_None fail_if_None by auto
qed

lemma correlation_sides:
  assumes "side = ''before'' \<or> side = ''after''"
  shows "validateBundleCorrelation (correlateBundleSide side x y) = None"
    "validateBundleCorrelation (correlateAmberSide side z y) = None"
  using assms by (auto simp: correlateBundleSide_def correlateAmberSide_def Let_def intro!: correlation_ok)

lemma correlation_valid: "c \<in> set (CorrelateBundle r) \<Longrightarrow> validateBundleCorrelation c = None"
proof -
  assume "c \<in> set (CorrelateBundle r)"
  then show ?thesis
    using correlation_sides[of "''before''"] correlation_sides[of "''after''"]
    unfolding CorrelateBundle_def by (auto split: option.splits)
qed


section \<open>Bundles of well-formed reports\<close>

definition ci_wf :: "Comparison \<Rightarrow> bool" where
  "ci_wf c \<longleftrightarrow>
     report_wf ComparisonSchema c \<and> (\<forall>m \<in> set (cm_Warnings c). \<not> message_blank m) \<and>
     ArtifactSummary_problem ''before'' (cm_Before c) = None \<and>
     ArtifactSummary_problem ''after'' (cm_After c) = None \<and> StateTransition_Validate (rt_Transition c) = None \<and>
     pred_option (\<lambda>k. distinct (map mo_MutationID (mk_ChangedMutations k))) (cm_MutationCampaign c)"

definition provenance_wf :: "AmberProvenanceComparison \<Rightarrow> bool" where
  "provenance_wf c \<longleftrightarrow> report_wf amberProvenanceComparisonSchema c \<and> StateTransition_Validate (rt_Transition c) = None"

definition adapters_wf :: "BundleComparison \<Rightarrow> bool" where
  "adapters_wf r \<longleftrightarrow>
     pred_option ci_wf (bn_CIResult r) \<and> pred_option sorna_report_wf (bn_SornaRun r) \<and>
     pred_option (report_wf nublarRunComparisonSchema) (bn_NublarRun r) \<and>
     pred_option (report_wf lockwoodCustodyComparisonSchema) (bn_Custody r) \<and>
     pred_option provenance_wf (bn_Provenance r)"

definition bundle_wf :: "BundleComparison \<Rightarrow> bool" where
  "bundle_wf r \<longleftrightarrow>
     bn_Schema r = bundleComparisonSchema \<and> (\<forall>i \<in> set (bn_ChangeIDFilter r). \<not> blank i) \<and>
     adapters_wf r \<and> bundle_parts r \<noteq> [] \<and> int (length (concat (map pt_Changes (bundle_parts r)))) < 2 ^ 63 \<and>
     bn_Summary r = SummarizeBundle r \<and> bn_Correlations r = CorrelateBundle r"

lemma part_of_wf: "report_wf schema r \<Longrightarrow> n \<in> set subsystem_names \<Longrightarrow> part_wf (part_of n w r)"
  by (simp add: part_wf_def part_of_def report_wf_def changes_wf_def)

lemma opt_list_set [simp]: "set (opt_list f x) = f ` set_option x"
  by (cases x) (simp_all add: opt_list_def)

lemma opt_list_simps [simp]: "opt_list f None = []" "opt_list f (Some x) = [f x]"
  by (simp_all add: opt_list_def)

lemma part_of_simps [simp]:
  "pt_Name (part_of n w r) = n" "pt_Transition (part_of n w r) = rt_Transition r"
  "pt_Changes (part_of n w r) = rt_Changes r" "pt_Compatible (part_of n w r) = rt_Compatible r"
  "pt_Reasons (part_of n w r) = rt_Reasons r" "pt_Warnings (part_of n w r) = w"
  by (simp_all add: part_of_def)

lemma bundle_parts_names: "distinct (map pt_Name (bundle_parts r))"
  by (cases "bn_CIResult r"; cases "bn_SornaRun r"; cases "bn_NublarRun r"; cases "bn_Custody r";
      cases "bn_Provenance r") (simp_all add: bundle_parts_def)

lemma bundle_parts_part_wf: "adapters_wf r \<Longrightarrow> p \<in> set (bundle_parts r) \<Longrightarrow> part_wf p"
  by (auto simp: bundle_parts_def adapters_wf_def ci_wf_def sorna_report_wf_def provenance_wf_def
      option.pred_set intro: part_of_wf)

lemma bundle_parts_wf: "bundle_wf r \<Longrightarrow> parts_wf (bundle_parts r)"
  using bundle_parts_names[of r] bundle_parts_part_wf[of r] by (simp add: parts_wf_def bundle_wf_def)

lemma bundle_transitions:
  "(\<forall>p \<in> set (bundle_parts r). StateTransition_Validate (pt_Transition p) = None) \<longleftrightarrow>
   pred_option (\<lambda>c. StateTransition_Validate (rt_Transition c) = None) (bn_CIResult r) \<and>
   pred_option (\<lambda>c. StateTransition_Validate (rt_Transition c) = None) (bn_SornaRun r) \<and>
   pred_option (\<lambda>c. StateTransition_Validate (rt_Transition c) = None) (bn_NublarRun r) \<and>
   pred_option (\<lambda>c. StateTransition_Validate (rt_Transition c) = None) (bn_Custody r) \<and>
   pred_option (\<lambda>c. StateTransition_Validate (rt_Transition c) = None) (bn_Provenance r)"
  by (simp add: bundle_parts_def ball_Un option.pred_set)

lemma opt_problem_None [simp]: "opt_problem f x = None \<longleftrightarrow> pred_option (\<lambda>y. f y = None) x"
  by (cases x) (simp_all add: opt_problem_def)

lemma adapter_transition:
  "pred_option sorna_report_wf x \<Longrightarrow> pred_option (\<lambda>c. SornaRunComparison_Validate c = None) x \<Longrightarrow>
     pred_option (\<lambda>c. StateTransition_Validate (rt_Transition c) = None) x"
  "pred_option (report_wf nublarRunComparisonSchema) y \<Longrightarrow>
     pred_option (\<lambda>c. NublarRunComparison_Validate c = None) y \<Longrightarrow>
     pred_option (\<lambda>c. StateTransition_Validate (rt_Transition c) = None) y"
  "pred_option (report_wf lockwoodCustodyComparisonSchema) z \<Longrightarrow>
     pred_option (\<lambda>c. LockwoodCustodyComparison_Validate c = None) z \<Longrightarrow>
     pred_option (\<lambda>c. StateTransition_Validate (rt_Transition c) = None) z"
  using report_wf_valid[of lockwoodCustodyComparisonSchema _ "[]"]
  by (auto simp: option.pred_set sorna_comparison_iff nublar_comparison_iff
      LockwoodCustodyComparison_Validate_def check_simps)

text \<open>A bundle validates exactly when its Sorna, Nublar and custody reports do.\<close>

lemma bundle_iff:
  assumes wf: "bundle_wf r"
  shows "BundleComparison_Validate r = None \<longleftrightarrow>
    present_not_blank (bn_Manifest r) \<and>
    pred_option (\<lambda>c. SornaRunComparison_Validate c = None) (bn_SornaRun r) \<and>
    pred_option (\<lambda>c. NublarRunComparison_Validate c = None) (bn_NublarRun r) \<and>
    pred_option (\<lambda>c. LockwoodCustodyComparison_Validate c = None) (bn_Custody r)" (is "_ \<longleftrightarrow> ?m \<and> ?s \<and> ?n \<and> ?c")
proof -
  have a: "adapters_wf r" using wf by (simp add: bundle_wf_def)
  have ci: "pred_option (\<lambda>c. first_some
          [wrap_err (\<lambda>err. T ''bundle comparison ci_result: '' # err) (Comparison_Validate c),
           validateBundleAdapterEnvelope ''ci_result'' ComparisonSchema c (cm_Warnings c)] = None) (bn_CIResult r)"
  proof (cases "bn_CIResult r")
    case (Some c)
    with a have c: "ci_wf c" by (simp add: adapters_wf_def)
    then have wf: "report_wf ComparisonSchema c" by (simp add: ci_wf_def)
    with c Comparison_Validate_wf[OF wf] report_wf_valid[OF wf, of "cm_Warnings c"] Some show ?thesis
      by (simp add: ci_wf_def check_simps)
  qed simp
  have prov: "pred_option (\<lambda>c. validateBundleAdapterEnvelope ''provenance'' amberProvenanceComparisonSchema c [] = None)
      (bn_Provenance r)"
  proof (cases "bn_Provenance r")
    case (Some c)
    with a have wf: "report_wf amberProvenanceComparisonSchema c" "StateTransition_Validate (rt_Transition c) = None"
      by (simp_all add: adapters_wf_def provenance_wf_def)
    with report_wf_valid[OF wf(1), of "[]"] Some show ?thesis by (simp add: check_simps)
  qed simp
  have trans: "pred_option (\<lambda>c. StateTransition_Validate (rt_Transition c) = None) (bn_CIResult r)"
    "pred_option (\<lambda>c. StateTransition_Validate (rt_Transition c) = None) (bn_Provenance r)"
    using a by (auto simp: adapters_wf_def ci_wf_def provenance_wf_def option.pred_set)
  have summary: "BundleSummary_Validate (bn_Summary r) = None" if "?s" "?n" "?c"
  proof -
    have "\<forall>p \<in> set (bundle_parts r). StateTransition_Validate (pt_Transition p) = None"
      unfolding bundle_transitions using a that trans adapter_transition by (simp add: adapters_wf_def)
    with summarize_parts_iff[OF bundle_parts_wf[OF wf]] wf show ?thesis
      by (simp add: bundle_wf_def SummarizeBundle_def)
  qed
  have "first_error validateBundleCorrelation (bn_Correlations r) = None"
    using wf correlation_valid by (simp add: bundle_wf_def first_error_None)
  moreover have "bundleSummariesEqual (bn_Summary r) (SummarizeBundle r)" "bn_Correlations r = CorrelateBundle r"
    "bn_Schema r = bundleComparisonSchema"
    "validateBundleStringList (bn_ChangeIDFilter r) ''bundle comparison change ID filter'' = None"
    using wf by (simp_all add: bundle_wf_def validateBundleStringList_def first_error_None)
  ultimately show ?thesis
    using ci prov summary
    unfolding BundleComparison_Validate_def first_some_Cons_None first_some_Nil_None wrap_err_None opt_problem_None
    by (auto simp: present_not_blank_def simp del: first_some.simps)
qed


section \<open>Bundles compared from files\<close>

text \<open>What a map of the documents can hold at most: the bound keeps the counters from wrapping.\<close>

definition sources_fit :: "'j Sources \<Rightarrow> bool" where
  "sources_fit w \<longleftrightarrow>
     (\<forall>x d. w_ci w x = Inr d \<longrightarrow> inputs_fit d) \<and> (\<forall>x d. w_sorna w x = Inr d \<longrightarrow> sorna_fit d) \<and>
     (\<forall>x d. w_nublar w x = Inr d \<longrightarrow> nublar_fit d)"

lemma compare_pair_Inr:
  "compare_pair compare root name b a = Inr r \<Longrightarrow>
   (if hasAny b a then \<exists>bp ap x. compare bp ap = Inr x \<and> r = Some x else r = None)"
  by (auto simp: compare_pair_def split: if_splits sum.splits) blast

lemma load_document_decoded:
  "load_document what read decode check path = Inr d \<Longrightarrow> check path d = None \<and> (\<exists>x. decode x = Inr d)"
  by (auto simp: load_document_def split: sum.splits option.splits)

lemma loadCIResult_decoded:
  "loadCIResult valid_json read decode path = Inr d \<Longrightarrow> Artifact_Validate valid_json d = None \<and> (\<exists>x. decode x = Inr d)"
  by (auto simp: loadCIResult_def split: sum.splits option.splits)

lemma artifact_status: "Artifact_Validate valid_json a = None \<Longrightarrow> ci_Status a \<noteq> []"
proof
  assume a: "Artifact_Validate valid_json a = None" and "ci_Status a = []"
  with Artifact_Validate_status[OF a] show False by (auto simp: verdict_of_def)
qed

abbreviation transition_ok :: "'a SharedReport_scheme \<Rightarrow> bool" where
  "transition_ok c \<equiv> StateTransition_Validate (rt_Transition c) = None"

lemma Compare_campaign:
  "pred_option (\<lambda>k. distinct (map mo_MutationID (mk_ChangedMutations k)))
     (cm_MutationCampaign (Compare marshal reencode hex_sha decode_campaign before after))"
proof -
  have "distinct (map mo_MutationID (mutation_changes m1 m2))" for m1 m2
    by (simp add: mutation_changes_def comp_def distinct_map_filter union_keys_def)
  then show ?thesis
    by (auto simp: Compare_def CompareMutationCampaigns_def Let_def split: sum.splits option.splits prod.splits)
qed

lemma ci_files_wf:
  assumes fit: "sources_fit w" and c: "ci_files w bp ap = Inr c"
  shows "ci_wf c \<and> int (length (rt_Changes c)) < 2 ^ 61"
proof -
  let ?load = "loadCIResult (w_valid_json w) (w_read w) (w_ci w)"
  from c obtain b a where b: "?load bp = Inr b" and a: "?load ap = Inr a"
    and r: "c = (let r = Compare (w_marshal w) (w_reencode w) (w_hex_sha w) (w_campaign w) b a
      in r\<lparr>cm_Before := (cm_Before r)\<lparr>as_Path := bp\<rparr>, cm_After := (cm_After r)\<lparr>as_Path := ap\<rparr>\<rparr>)"
    by (auto simp: ci_files_def CompareFiles_def split: sum.splits)
  have f: "inputs_fit b" "inputs_fit a"
    using loadCIResult_decoded[OF b] loadCIResult_decoded[OF a] fit by (auto simp: sources_fit_def)
  have v: "Artifact_Validate (w_valid_json w) b = None" "Artifact_Validate (w_valid_json w) a = None"
    using loadCIResult_decoded[OF b] loadCIResult_decoded[OF a] by auto
  have path: "ArtifactSummary_problem side (s\<lparr>as_Path := p\<rparr>) = ArtifactSummary_problem side s" for side s p
    by (simp add: ArtifactSummary_problem_def)
  have st: "ci_Status b \<noteq> []" "ci_Status a \<noteq> []" using artifact_status[OF v(1)] artifact_status[OF v(2)] by auto
  have rt: "report_wf ComparisonSchema (x\<lparr>cm_Before := p, cm_After := q\<rparr>) = report_wf ComparisonSchema x"
    for x :: Comparison and p q by (simp add: report_wf_def)
  show ?thesis
    using Compare_report_wf[OF f, of "w_marshal w"] Compare_warnings[of _ "w_marshal w"]
      compare_length[OF f, of "w_marshal w"] summary_valid[OF v(1)] summary_valid[OF v(2)]
    unfolding r Let_def ci_wf_def rt by (simp add: path st Compare_campaign)
qed

lemma compared_sorna_transition:
  assumes "validateSornaRun bp b = None" "validateSornaRun ap a = None"
  shows "transition_ok (compareSornaRuns marshal b a)"
proof -
  have "sv_Status (srd_ContractVerdict d) \<noteq> []" if "validateSornaRun path d = None" for path d
    using that by (auto simp: validateSornaRun_def check_simps validSornaVerdictStatus_def)
  with assms show ?thesis by (simp add: compareSornaRuns_def Let_def)
qed

lemma compared_custody_transition:
  assumes "lockwood_custody_problem bp b = None" "lockwood_custody_problem ap a = None"
  shows "transition_ok (compareLockwoodCustody marshal b a)"
proof -
  have "lcd_Status d \<noteq> []" if "lockwood_custody_problem path d = None" for path d
    using that by (auto simp: lockwood_custody_problem_def check_simps)
  with assms show ?thesis by (simp add: compareLockwoodCustody_def Let_def)
qed

lemma sorna_files_wf:
  assumes fit: "sources_fit w" and c: "CompareSornaRunFiles (w_read w) (w_sorna w) (w_marshal w) bp ap = Inr c"
  shows "sorna_report_wf c \<and> transition_ok c \<and> int (length (rt_Changes c)) < 2 ^ 61"
proof -
  from c obtain b a where b: "loadSornaRun (w_read w) (w_sorna w) bp = Inr b"
    and a: "loadSornaRun (w_read w) (w_sorna w) ap = Inr a"
    and r: "c = label_sorna bp ap (compareSornaRuns (w_marshal w) b a)"
    unfolding CompareSornaRunFiles_def compare_files_Inr by blast
  note b = load_document_decoded[OF b[unfolded loadSornaRun_def]]
    and a = load_document_decoded[OF a[unfolded loadSornaRun_def]]
  then have f: "sorna_fit b" "sorna_fit a" using fit by (auto simp: sources_fit_def)
  show ?thesis
    using sorna_compared_wf[of bp b ap a "w_marshal w"] a b f sorna_length[OF f, of "w_marshal w"]
      compared_sorna_transition[of bp b ap a "w_marshal w"]
    by (simp add: r) (simp add: label_sorna_def)
qed

lemma nublar_files_wf:
  assumes fit: "sources_fit w" and c: "CompareNublarRunFiles (w_read w) (w_nublar w) (w_marshal w) bp ap = Inr c"
  shows "report_wf nublarRunComparisonSchema c \<and> int (length (rt_Changes c)) < 2 ^ 61"
proof -
  from c obtain b a where b: "loadNublarRun (w_read w) (w_nublar w) bp = Inr b"
    and a: "loadNublarRun (w_read w) (w_nublar w) ap = Inr a"
    and r: "c = label_nublar bp ap (compareNublarRuns (w_marshal w) b a)"
    unfolding CompareNublarRunFiles_def compare_files_Inr by blast
  have f: "nublar_fit b" "nublar_fit a"
    using load_document_decoded[OF b[unfolded loadNublarRun_def]] load_document_decoded[OF a[unfolded loadNublarRun_def]]
      fit by (auto simp: sources_fit_def)
  show ?thesis using nublar_report_wf[OF f, of "w_marshal w"] nublar_length[OF f, of "w_marshal w"] by (simp add: r)
qed

lemma custody_files_wf:
  assumes c: "CompareLockwoodCustodyFiles (w_read w) (w_custody w) (w_marshal w) bp ap = Inr c"
  shows "report_wf lockwoodCustodyComparisonSchema c \<and> transition_ok c \<and> length (rt_Changes c) < 100"
proof -
  from c obtain b a where b: "loadLockwoodCustody (w_read w) (w_custody w) bp = Inr b"
    and a: "loadLockwoodCustody (w_read w) (w_custody w) ap = Inr a"
    and r: "c = label_custody bp ap (compareLockwoodCustody (w_marshal w) b a)"
    unfolding CompareLockwoodCustodyFiles_def compare_files_Inr by blast
  have "transition_ok (compareLockwoodCustody (w_marshal w) b a)"
    using load_document_decoded[OF b[unfolded loadLockwoodCustody_def]]
      load_document_decoded[OF a[unfolded loadLockwoodCustody_def]] compared_custody_transition by blast
  moreover have "length (observe_all (w_marshal w) (custody_obs b a)) \<le> length (custody_obs b a)" by (rule observe_all_length)
  moreover have "length (custody_obs b a) < 100" by (simp add: custody_obs_def)
  ultimately show ?thesis
    using custody_report_wf[of "w_marshal w" b a]
    by (simp add: r label_custody_def report_wf_def compareLockwoodCustody_def Let_def)
qed

lemma provenance_files_wf:
  assumes c: "CompareAmberProvenanceFiles (w_read w) (w_provenance w) (w_marshal w) bp ap = Inr c"
  shows "provenance_wf c \<and> length (rt_Changes c) < 100"
proof -
  from c obtain b a where b: "loadAmberProvenance (w_read w) (w_provenance w) bp = Inr b"
    and a: "loadAmberProvenance (w_read w) (w_provenance w) ap = Inr a"
    and r: "c = label_provenance bp ap (compareAmberProvenance (w_marshal w) b a)"
    unfolding CompareAmberProvenanceFiles_def compare_files_Inr by blast
  have t: "StateTransition_Validate (rt_Transition (compareAmberProvenance (w_marshal w) b a)) = None"
    using load_document_decoded[OF b[unfolded loadAmberProvenance_def]]
      load_document_decoded[OF a[unfolded loadAmberProvenance_def]] loaded_provenance_transition by blast
  have "length (observe_all (w_marshal w) (provenance_obs b a)) \<le> length (provenance_obs b a)" by (rule observe_all_length)
  also have "\<dots> < 100" by (simp add: provenance_obs_def)
  finally show ?thesis
    using provenance_report_wf[of "w_marshal w" b a] t
    by (simp add: r label_provenance_def provenance_wf_def report_wf_def compareAmberProvenance_def Let_def)
qed

lemma refresh_simps [simp]:
  "bn_Schema (refresh r) = bn_Schema r" "bn_Manifest (refresh r) = bn_Manifest r"
  "bn_ChangeIDFilter (refresh r) = bn_ChangeIDFilter r" "bn_CIResult (refresh r) = bn_CIResult r"
  "bn_SornaRun (refresh r) = bn_SornaRun r" "bn_NublarRun (refresh r) = bn_NublarRun r"
  "bn_Custody (refresh r) = bn_Custody r" "bn_Provenance (refresh r) = bn_Provenance r"
  "bn_Summary (refresh r) = SummarizeBundle r" "bn_Correlations (refresh r) = CorrelateBundle r"
  by (simp_all add: refresh_def)

lemma refresh_derived [simp]:
  "bundle_parts (refresh r) = bundle_parts r" "SummarizeBundle (refresh r) = SummarizeBundle r"
  "CorrelateBundle (refresh r) = CorrelateBundle r" "adapters_wf (refresh r) = adapters_wf r"
  by (simp_all add: bundle_parts_def SummarizeBundle_def CorrelateBundle_def adapters_wf_def split: option.split)

definition changes_in :: "'a SharedReport_scheme option \<Rightarrow> nat" where
  "changes_in x = (case x of None \<Rightarrow> 0 | Some c \<Rightarrow> length (rt_Changes c))"

lemma changes_in_simps [simp]: "changes_in None = 0" "changes_in (Some c) = length (rt_Changes c)"
  by (simp_all add: changes_in_def)

lemma part_length:
  "length (concat (map pt_Changes (opt_list (\<lambda>c. part_of n (f c) c) x))) = changes_in x"
  by (cases x) simp_all

lemma parts_length:
  "length (concat (map pt_Changes (bundle_parts r))) =
     changes_in (bn_CIResult r) + changes_in (bn_SornaRun r) + changes_in (bn_NublarRun r) +
     changes_in (bn_Custody r) + changes_in (bn_Provenance r)"
  unfolding bundle_parts_def map_append concat_append length_append
  using part_length[of "''ci_result''" cm_Warnings "bn_CIResult r"]
    part_length[of "''sorna_run''" "\<lambda>_. []" "bn_SornaRun r"]
    part_length[of "''nublar_run''" "\<lambda>_. []" "bn_NublarRun r"]
    part_length[of "''custody''" "\<lambda>_. []" "bn_Custody r"]
    part_length[of "''provenance''" "\<lambda>_. []" "bn_Provenance r"] by simp

lemma parts_none:
  "bundle_parts r = [] \<longleftrightarrow> bn_CIResult r = None \<and> bn_SornaRun r = None \<and> bn_NublarRun r = None \<and>
     bn_Custody r = None \<and> bn_Provenance r = None"
  by (cases "bn_CIResult r"; cases "bn_SornaRun r"; cases "bn_NublarRun r"; cases "bn_Custody r";
      cases "bn_Provenance r") (simp_all add: bundle_parts_def)

lemma refresh_wf:
  assumes "bn_Schema r = bundleComparisonSchema" "\<forall>i \<in> set (bn_ChangeIDFilter r). \<not> blank i" "adapters_wf r"
    "bundle_parts r \<noteq> []" "int (length (concat (map pt_Changes (bundle_parts r)))) < 2 ^ 63"
  shows "bundle_wf (refresh r)"
  using assms by (simp add: bundle_wf_def)

lemma manifest_names_pair:
  "manifest_problems m = [] \<Longrightarrow>
     hasAny (cin_CIResult (cmf_Before m)) (cin_CIResult (cmf_After m)) \<or>
     hasAny (cin_SornaRun (cmf_Before m)) (cin_SornaRun (cmf_After m)) \<or>
     hasAny (cin_NublarRun (cmf_Before m)) (cin_NublarRun (cmf_After m)) \<or>
     hasAny (cin_Custody (cmf_Before m)) (cin_Custody (cmf_After m)) \<or>
     hasAny (cin_Provenance (cmf_Before m)) (cin_Provenance (cmf_After m))"
  by (simp add: manifest_problems_def manifest_pairs_def problem_def split: if_splits)

lemma manifest_accepted:
  "loadComparisonManifest w path = Inr m \<Longrightarrow> manifest_problems m = []"
  by (auto simp: loadComparisonManifest_def split: sum.splits if_splits)

text \<open>The loaders of the Sorna and custody artifacts ask for the statuses of a transition.\<close>

definition transitions_known :: "BundleComparison \<Rightarrow> bool" where
  "transitions_known r \<longleftrightarrow> pred_option transition_ok (bn_SornaRun r) \<and> pred_option transition_ok (bn_Custody r)"

lemma compared_bundle_wf:
  assumes fit: "sources_fit w" and r: "CompareBundleFile w path = Inr r"
  shows "bundle_wf r \<and> transitions_known r \<and> bn_Manifest r = path"
proof -
  from r obtain m x where m: "loadComparisonManifest w path = Inr m" and x: "r = refresh x"
    and ci: "compare_pair (ci_files w) (Dir path) ''ci_result'' (cin_CIResult (cmf_Before m))
      (cin_CIResult (cmf_After m)) = Inr (bn_CIResult x)"
    and so: "compare_pair (CompareSornaRunFiles (w_read w) (w_sorna w) (w_marshal w)) (Dir path) ''sorna_run''
      (cin_SornaRun (cmf_Before m)) (cin_SornaRun (cmf_After m)) = Inr (bn_SornaRun x)"
    and nu: "compare_pair (CompareNublarRunFiles (w_read w) (w_nublar w) (w_marshal w)) (Dir path) ''nublar_run''
      (cin_NublarRun (cmf_Before m)) (cin_NublarRun (cmf_After m)) = Inr (bn_NublarRun x)"
    and cu: "compare_pair (CompareLockwoodCustodyFiles (w_read w) (w_custody w) (w_marshal w)) (Dir path) ''custody''
      (cin_Custody (cmf_Before m)) (cin_Custody (cmf_After m)) = Inr (bn_Custody x)"
    and pr: "compare_pair (CompareAmberProvenanceFiles (w_read w) (w_provenance w) (w_marshal w)) (Dir path)
      ''provenance'' (cin_Provenance (cmf_Before m)) (cin_Provenance (cmf_After m)) = Inr (bn_Provenance x)"
    and fixed: "bn_Schema x = bundleComparisonSchema" "bn_Manifest x = path" "bn_ChangeIDFilter x = []"
    by (auto simp: CompareBundleFile_def Let_def split: sum.splits)
  note pairs = compare_pair_Inr[OF ci] compare_pair_Inr[OF so] compare_pair_Inr[OF nu]
    compare_pair_Inr[OF cu] compare_pair_Inr[OF pr]
  have "bundle_parts x \<noteq> []"
    using manifest_names_pair[OF manifest_accepted[OF m]] pairs unfolding parts_none by (auto split: if_splits)
  moreover have ci: "pred_option ci_wf (bn_CIResult x) \<and> int (changes_in (bn_CIResult x)) < 2 ^ 61"
    using pairs(1) ci_files_wf[OF fit] by (auto split: if_splits)
  moreover have so: "pred_option sorna_report_wf (bn_SornaRun x) \<and> int (changes_in (bn_SornaRun x)) < 2 ^ 61"
    using pairs(2) sorna_files_wf[OF fit] by (auto split: if_splits)
  moreover have nu: "pred_option (report_wf nublarRunComparisonSchema) (bn_NublarRun x) \<and>
      int (changes_in (bn_NublarRun x)) < 2 ^ 61"
    using pairs(3) nublar_files_wf[OF fit] by (auto split: if_splits)
  moreover have cu: "pred_option (report_wf lockwoodCustodyComparisonSchema) (bn_Custody x) \<and>
      changes_in (bn_Custody x) < 100"
    using pairs(4) custody_files_wf by (fastforce split: if_splits)
  moreover have pr: "pred_option provenance_wf (bn_Provenance x) \<and> changes_in (bn_Provenance x) < 100"
    using pairs(5) provenance_files_wf by (fastforce split: if_splits)
  ultimately have "adapters_wf x" "bundle_parts x \<noteq> []"
    "int (length (concat (map pt_Changes (bundle_parts x)))) < 2 ^ 63"
    unfolding parts_length adapters_wf_def by auto
  moreover have "transitions_known x"
    using pairs(2,4) sorna_files_wf[OF fit] custody_files_wf unfolding transitions_known_def
    by (fastforce split: if_splits)
  ultimately show ?thesis using refresh_wf[of x] fixed unfolding x by (simp add: transitions_known_def)
qed

lemma filtered_adapters:
  "pred_option P x \<Longrightarrow> (\<And>c. P c \<Longrightarrow> P (f c) \<and> length (rt_Changes (f c)) \<le> length (rt_Changes c)) \<Longrightarrow>
     pred_option P (map_option f x) \<and> changes_in (map_option f x) \<le> changes_in x"
  by (cases x) simp_all

lemma FilterBundleChanges_wf:
  assumes wf: "bundle_wf r"
  shows "bundle_wf (FilterBundleChanges r ids)"
proof -
  let ?x = "r\<lparr>bn_ChangeIDFilter := sortedChangeIDs ids,
       bn_CIResult := map_option (\<lambda>c. FilterComparisonChanges c ids) (bn_CIResult r),
       bn_SornaRun := map_option (\<lambda>c. FilterSornaRunChanges c ids) (bn_SornaRun r),
       bn_NublarRun := map_option (\<lambda>c. FilterNublarRunChanges c ids) (bn_NublarRun r),
       bn_Custody := map_option (\<lambda>c. FilterLockwoodCustodyChanges c ids) (bn_Custody r),
       bn_Provenance := map_option (\<lambda>c. FilterAmberProvenanceChanges c ids) (bn_Provenance r)\<rparr>"
  have a: "adapters_wf r" using wf by (simp add: bundle_wf_def)
  have "pred_option ci_wf (bn_CIResult ?x) \<and> changes_in (bn_CIResult ?x) \<le> changes_in (bn_CIResult r)"
    using filtered_adapters[of ci_wf "bn_CIResult r" "\<lambda>c. FilterComparisonChanges c ids"] a
    by (simp add: adapters_wf_def ci_wf_def FilterComparisonChanges_def filter_report_wf FilterChanges_length)
  moreover have "pred_option sorna_report_wf (bn_SornaRun ?x) \<and> changes_in (bn_SornaRun ?x) \<le> changes_in (bn_SornaRun r)"
    using filtered_adapters[of sorna_report_wf "bn_SornaRun r" "\<lambda>c. FilterSornaRunChanges c ids"] a
    by (simp add: adapters_wf_def filter_sorna_wf FilterChanges_length)
  moreover have "pred_option (report_wf nublarRunComparisonSchema) (bn_NublarRun ?x) \<and>
      changes_in (bn_NublarRun ?x) \<le> changes_in (bn_NublarRun r)"
    using filtered_adapters[of "report_wf nublarRunComparisonSchema" "bn_NublarRun r" "\<lambda>c. FilterNublarRunChanges c ids"] a
    by (simp add: adapters_wf_def FilterNublarRunChanges_def filter_report_wf FilterChanges_length)
  moreover have "pred_option (report_wf lockwoodCustodyComparisonSchema) (bn_Custody ?x) \<and>
      changes_in (bn_Custody ?x) \<le> changes_in (bn_Custody r)"
    using filtered_adapters[of "report_wf lockwoodCustodyComparisonSchema" "bn_Custody r" "\<lambda>c. FilterLockwoodCustodyChanges c ids"] a
    by (simp add: adapters_wf_def FilterLockwoodCustodyChanges_def filter_report_wf FilterChanges_length)
  moreover have "pred_option provenance_wf (bn_Provenance ?x) \<and>
      changes_in (bn_Provenance ?x) \<le> changes_in (bn_Provenance r)"
    using filtered_adapters[of provenance_wf "bn_Provenance r" "\<lambda>c. FilterAmberProvenanceChanges c ids"] a
    by (simp add: adapters_wf_def provenance_wf_def FilterAmberProvenanceChanges_def filter_report_wf FilterChanges_length)
  ultimately have "adapters_wf ?x" "int (length (concat (map pt_Changes (bundle_parts ?x)))) < 2 ^ 63"
    using wf unfolding bundle_wf_def parts_length adapters_wf_def by auto
  moreover have "bundle_parts ?x \<noteq> []" using wf unfolding bundle_wf_def parts_none by simp
  ultimately have "bundle_wf (refresh ?x)"
    using wf sortedChangeIDs_not_blank by (intro refresh_wf) (auto simp: bundle_wf_def)
  then show ?thesis by (simp add: FilterBundleChanges_def)
qed

end
