(* ===== verification/SattlerSeries.thy ===== *)
theory SattlerSeries
  imports SattlerBundle
begin

text \<open>
  sattler/series.go: an ordered history of bundle manifests, the loop that compares each of them
  and adds it to the summary of the history, the projections of the result and their validation.
  Warnings are counted by their rendered text, so what fmt makes of a message is the parameter
  \<open>render\<close>.  A map of counters that is nil and one that is empty are the same.
\<close>

section \<open>Data\<close>

abbreviation ComparisonSeriesManifestSchema :: string where
  "ComparisonSeriesManifestSchema \<equiv> ''ingen.sattler-comparison-series-input/v0''"
abbreviation comparisonSeriesSchema :: string where
  "comparisonSeriesSchema \<equiv> ''ingen.sattler-comparison-series/v0''"
abbreviation comparisonSeriesSummarySchema :: string where
  "comparisonSeriesSummarySchema \<equiv> ''ingen.sattler-comparison-series-summary/v0''"
abbreviation comparisonSeriesLatestSchema :: string where
  "comparisonSeriesLatestSchema \<equiv> ''ingen.sattler-comparison-series-latest/v0''"

record ComparisonSeriesEntry =
  se_ID :: string
  se_Label :: string
  se_Manifest :: string

record ComparisonSeriesManifest =
  sf_Schema :: string
  sf_Entries :: "ComparisonSeriesEntry list"

record SeriesPoint =
  sp_ID :: string
  sp_Label :: string
  sp_Latest :: bool
  sp_Manifest :: string
  sp_Summary :: BundleSummary
  sp_Correlations :: "BundleCorrelation list"
  sp_ChangeIDFilter :: "string list"
  sp_MutationChangeIDs :: "string list"
  sp_SornaRuleChangeIDs :: "string list"

record SeriesCorrelationSummary =
  sk_Observations :: int
  sk_ByKind :: "(string, int) gomap"
  sk_ByRelation :: "(string, int) gomap"

record SeriesTransitionCounts =
  st_Unchanged :: int
  st_Changed :: int
  st_Incompatible :: int

record SeriesSummary =
  su_Entries :: int
  su_Compatible :: int
  su_Incompatible :: int
  su_TotalChanges :: int
  su_ChangesByID :: "(string, int) gomap"
  su_MutationChangesByID :: "(string, int) gomap"
  su_SornaRuleChangesByID :: "(string, int) gomap"
  su_CorrelationSummary :: SeriesCorrelationSummary
  su_TransitionsBySubsystem :: "(string, SeriesTransitionCounts) gomap"
  su_WarningsByMessage :: "(string, int) gomap"

record ComparisonSeries =
  cs_Schema :: string
  cs_Manifest :: string
  cs_ChangeIDFilter :: "string list"
  cs_Summary :: SeriesSummary
  cs_Entries :: "SeriesPoint list"

record SeriesSummaryReport =
  ssr_Schema :: string
  ssr_Manifest :: string
  ssr_ChangeIDFilter :: "string list"
  ssr_Summary :: SeriesSummary

record SeriesLatestReport =
  slr_Schema :: string
  slr_Manifest :: string
  slr_ChangeIDFilter :: "string list"
  slr_Point :: SeriesPoint

section \<open>The manifest of a series\<close>

text \<open>The issues of the entries in order, with the identifiers seen before.\<close>

fun series_entry_issues :: "nat \<Rightarrow> string list \<Rightarrow> ComparisonSeriesEntry list \<Rightarrow> ErrorIssue list" where
  "series_entry_issues i seen [] = []"
| "series_entry_issues i seen (e # es) =
     (if blank (se_ID e)
      then [\<lparr>ei_Code = ''missing-entry-id'', ei_Path = ''entries['' @ dec_string (int i) @ ''].id'',
             ei_Message = [T ''comparison series entry '', D (int i), T '' needs an id'']\<rparr>]
      else problem (se_ID e \<in> set seen)
             \<lparr>ei_Code = ''duplicate-entry-id'', ei_Path = ''entries['' @ dec_string (int i) @ ''].id'',
              ei_Message = [T ''comparison series manifest duplicates entry '', Q (se_ID e)]\<rparr>) @
     problem (blank (se_Manifest e))
       \<lparr>ei_Code = ''missing-entry-manifest'', ei_Path = ''entries['' @ dec_string (int i) @ ''].manifest'',
        ei_Message = [T ''comparison series entry '', Q (se_ID e), T '' needs a manifest path'']\<rparr> @
     series_entry_issues (Suc i) (se_ID e # seen) es"

definition series_manifest_issues :: "ComparisonSeriesManifest \<Rightarrow> ErrorIssue list" where
  "series_manifest_issues m =
     problem (sf_Schema m \<noteq> ComparisonSeriesManifestSchema)
       \<lparr>ei_Code = ''invalid-schema'', ei_Path = ''schema'',
        ei_Message = [T ''comparison series manifest schema must be '', T ComparisonSeriesManifestSchema,
                      T '', got '', Q (sf_Schema m)]\<rparr> @
     problem (sf_Entries m = [])
       \<lparr>ei_Code = ''no-series-entries'', ei_Path = ''entries'',
        ei_Message = [T ''comparison series manifest declares no entries'']\<rparr> @
     series_entry_issues 0 [] (sf_Entries m)"

definition loadComparisonSeriesManifest ::
  "(string \<Rightarrow> message + string) \<Rightarrow> (string \<Rightarrow> message + ComparisonSeriesManifest) \<Rightarrow> string
   \<Rightarrow> SattlerError + ComparisonSeriesManifest" where
  "loadComparisonSeriesManifest read decode path =
     (case read path of
        Inl err \<Rightarrow> Inl (ManifestValidationError
          [\<lparr>ei_Code = ''read-series-manifest'', ei_Path = ''manifest'',
            ei_Message = [T ''read comparison series manifest '', T path, T '': ''] @ err\<rparr>])
      | Inr contents \<Rightarrow>
          (case decode contents of
             Inl err \<Rightarrow> Inl (ManifestValidationError
               [\<lparr>ei_Code = ''parse-series-manifest'', ei_Path = ''manifest'',
                 ei_Message = [T ''parse comparison series manifest '', T path, T '': ''] @ err\<rparr>])
           | Inr m \<Rightarrow>
               if series_manifest_issues m \<noteq> [] then Inl (ManifestValidationError (series_manifest_issues m))
               else Inr m))"

section \<open>Points\<close>

definition bundleBoundaryChanges :: "BundleComparison \<Rightarrow> Change list" where
  "bundleBoundaryChanges r =
     (case bn_CIResult r of None \<Rightarrow> [] | Some c \<Rightarrow> rt_Changes c) @
     (case bn_SornaRun r of None \<Rightarrow> [] | Some c \<Rightarrow> rt_Changes c) @
     (case bn_NublarRun r of None \<Rightarrow> [] | Some c \<Rightarrow> rt_Changes c) @
     (case bn_Custody r of None \<Rightarrow> [] | Some c \<Rightarrow> rt_Changes c) @
     (case bn_Provenance r of None \<Rightarrow> [] | Some c \<Rightarrow> rt_Changes c)"

definition bundleMutationChangeIDs :: "BundleComparison \<Rightarrow> string list" where
  "bundleMutationChangeIDs r =
     (case bn_CIResult r of
        None \<Rightarrow> []
      | Some c \<Rightarrow>
          (case cm_MutationCampaign c of
             None \<Rightarrow> []
           | Some k \<Rightarrow> sort (filter (\<lambda>i. \<not> blank i) (map mo_MutationID (mk_ChangedMutations k)))))"

definition bundleSornaRuleChangeIDs :: "BundleComparison \<Rightarrow> string list" where
  "bundleSornaRuleChangeIDs r =
     (case bn_SornaRun r of
        None \<Rightarrow> []
      | Some c \<Rightarrow> sort (filter (\<lambda>i. \<not> blank i) (map rsc_RuleID (sn_ChangedRules c))))"

definition newSeriesPoint :: "ComparisonSeriesEntry \<Rightarrow> BundleComparison \<Rightarrow> bool \<Rightarrow> SeriesPoint" where
  "newSeriesPoint e bundle latest =
     \<lparr>sp_ID = se_ID e, sp_Label = se_Label e, sp_Latest = latest, sp_Manifest = bn_Manifest bundle,
      sp_Summary = bn_Summary bundle, sp_Correlations = bn_Correlations bundle,
      sp_ChangeIDFilter = bn_ChangeIDFilter bundle, sp_MutationChangeIDs = bundleMutationChangeIDs bundle,
      sp_SornaRuleChangeIDs = bundleSornaRuleChangeIDs bundle\<rparr>"

section \<open>Counting over the points\<close>

definition summarizeSeriesCorrelations :: "SeriesPoint list \<Rightarrow> SeriesCorrelationSummary" where
  "summarizeSeriesCorrelations points =
     (let cs = concat (map sp_Correlations points)
      in \<lparr>sk_Observations = int (length cs), sk_ByKind = tally (map bc_Kind cs),
          sk_ByRelation = tally (map bc_Relation cs)\<rparr>)"

abbreviation no_transitions :: SeriesTransitionCounts where
  "no_transitions \<equiv> \<lparr>st_Unchanged = 0, st_Changed = 0, st_Incompatible = 0\<rparr>"

definition lookup_counts :: "(string, SeriesTransitionCounts) gomap \<Rightarrow> string \<Rightarrow> SeriesTransitionCounts" where
  "lookup_counts m k = (case map_of m k of None \<Rightarrow> no_transitions | Some c \<Rightarrow> c)"

definition count_transition ::
  "(string, SeriesTransitionCounts) gomap \<Rightarrow> string \<times> BundleSubsystemSummary \<Rightarrow> (string, SeriesTransitionCounts) gomap" where
  "count_transition m x =
     (let c = lookup_counts m (fst x); class = tr_Classification (sub_Transition (snd x))
      in if class = TransitionUnchanged then map_set (fst x) (c\<lparr>st_Unchanged := st_Unchanged c + 1\<rparr>) m
         else if class = TransitionChanged then map_set (fst x) (c\<lparr>st_Changed := st_Changed c + 1\<rparr>) m
         else if class = TransitionIncompatible
              then map_set (fst x) (c\<lparr>st_Incompatible := st_Incompatible c + 1\<rparr>) m
         else m)"

definition summarizeSeriesTransitions :: "SeriesPoint list \<Rightarrow> (string, SeriesTransitionCounts) gomap" where
  "summarizeSeriesTransitions points =
     foldl count_transition [] (concat (map (\<lambda>p. bs_Subsystems (sp_Summary p)) points))"

definition summarizeSeriesWarnings :: "(message \<Rightarrow> string) \<Rightarrow> SeriesPoint list \<Rightarrow> (string, int) gomap" where
  "summarizeSeriesWarnings render points =
     tally (filter (\<lambda>w. \<not> blank w) (map render (concat (map (\<lambda>p. bs_Warnings (sp_Summary p)) points))))"

section \<open>The series\<close>

definition bump_all :: "'k list \<Rightarrow> ('k, int) gomap \<Rightarrow> ('k, int) gomap" where
  "bump_all ks m = foldl (\<lambda>m k. bump k m) m ks"

text \<open>One turn of the loop after the bundle was compared and filtered; \<open>n\<close> is the number of entries.\<close>

definition add_point :: "nat \<Rightarrow> ComparisonSeries \<Rightarrow> ComparisonSeriesEntry \<times> BundleComparison \<Rightarrow> ComparisonSeries" where
  "add_point n s x =
     (let bundle = snd x;
          point = newSeriesPoint (fst x) bundle (Suc (length (cs_Entries s)) = n);
          su = cs_Summary s;
          compatible = bs_Compatible (sp_Summary point)
      in s\<lparr>cs_Entries := cs_Entries s @ [point],
           cs_Summary := su
             \<lparr>su_Compatible := su_Compatible su + (if compatible then 1 else 0),
              su_Incompatible := su_Incompatible su + (if compatible then 0 else 1),
              su_TotalChanges := wrap64 (su_TotalChanges su + sm_Total (bs_ChangeSummary (sp_Summary point))),
              su_ChangesByID := bump_all (map StableID (bundleBoundaryChanges bundle)) (su_ChangesByID su),
              su_MutationChangesByID := bump_all (sp_MutationChangeIDs point) (su_MutationChangesByID su),
              su_SornaRuleChangesByID := bump_all (sp_SornaRuleChangeIDs point) (su_SornaRuleChangesByID su)\<rparr>\<rparr>)"

fun series_loop ::
  "'j Sources \<Rightarrow> string list \<Rightarrow> string \<Rightarrow> nat \<Rightarrow> ComparisonSeries \<Rightarrow> ComparisonSeriesEntry list
   \<Rightarrow> SattlerError + ComparisonSeries" where
  "series_loop w ids root n s [] = Inr s"
| "series_loop w ids root n s (e # es) =
     (case CompareBundleFile w (resolveManifestPath root (se_Manifest e)) of
        Inl err \<Rightarrow> Inl (Wrapped [T ''compare series entry '', T (se_ID e), T '': ''] err)
      | Inr bundle \<Rightarrow> series_loop w ids root n (add_point n s (e, FilterBundleChanges bundle ids)) es)"

definition empty_series :: "string \<Rightarrow> string list \<Rightarrow> nat \<Rightarrow> ComparisonSeries" where
  "empty_series path ids n =
     \<lparr>cs_Schema = comparisonSeriesSchema, cs_Manifest = path, cs_ChangeIDFilter = sortedChangeIDs ids,
      cs_Summary = \<lparr>su_Entries = int n, su_Compatible = 0, su_Incompatible = 0, su_TotalChanges = 0,
        su_ChangesByID = [], su_MutationChangesByID = [], su_SornaRuleChangesByID = [],
        su_CorrelationSummary = \<lparr>sk_Observations = 0, sk_ByKind = [], sk_ByRelation = []\<rparr>,
        su_TransitionsBySubsystem = [], su_WarningsByMessage = []\<rparr>,
      cs_Entries = []\<rparr>"

definition finish_series :: "(message \<Rightarrow> string) \<Rightarrow> ComparisonSeries \<Rightarrow> ComparisonSeries" where
  "finish_series render s =
     s\<lparr>cs_Summary := (cs_Summary s)
         \<lparr>su_CorrelationSummary := summarizeSeriesCorrelations (cs_Entries s),
          su_TransitionsBySubsystem := summarizeSeriesTransitions (cs_Entries s),
          su_WarningsByMessage := summarizeSeriesWarnings render (cs_Entries s)\<rparr>\<rparr>"

definition CompareSeriesManifestFileWithChanges ::
  "'j Sources \<Rightarrow> (string \<Rightarrow> message + ComparisonSeriesManifest) \<Rightarrow> (message \<Rightarrow> string) \<Rightarrow> string \<Rightarrow> string list
   \<Rightarrow> SattlerError + ComparisonSeries" where
  "CompareSeriesManifestFileWithChanges w decode render seriesPath ids =
     (case loadComparisonSeriesManifest (w_read w) decode seriesPath of
        Inl err \<Rightarrow> Inl err
      | Inr m \<Rightarrow>
          (let n = length (sf_Entries m)
           in case series_loop w ids (Dir seriesPath) n (empty_series seriesPath ids n) (sf_Entries m) of
                Inl err \<Rightarrow> Inl err
              | Inr s \<Rightarrow> Inr (finish_series render s)))"

definition CompareSeriesManifestFile ::
  "'j Sources \<Rightarrow> (string \<Rightarrow> message + ComparisonSeriesManifest) \<Rightarrow> (message \<Rightarrow> string) \<Rightarrow> string
   \<Rightarrow> SattlerError + ComparisonSeries" where
  "CompareSeriesManifestFile w decode render seriesPath =
     CompareSeriesManifestFileWithChanges w decode render seriesPath []"

section \<open>Projections\<close>

definition NewSeriesSummaryReport :: "ComparisonSeries \<Rightarrow> SeriesSummaryReport" where
  "NewSeriesSummaryReport s =
     \<lparr>ssr_Schema = comparisonSeriesSummarySchema, ssr_Manifest = cs_Manifest s,
      ssr_ChangeIDFilter = cs_ChangeIDFilter s, ssr_Summary = cs_Summary s\<rparr>"

definition LatestSeriesPoint :: "ComparisonSeries \<Rightarrow> SeriesPoint option" where
  "LatestSeriesPoint s = (if cs_Entries s = [] then None else Some (last (cs_Entries s)))"

definition NewSeriesLatestReport :: "ComparisonSeries \<Rightarrow> message + SeriesLatestReport" where
  "NewSeriesLatestReport s =
     (case LatestSeriesPoint s of
        None \<Rightarrow> Inl [T ''comparison series has no points'']
      | Some p \<Rightarrow> Inr \<lparr>slr_Schema = comparisonSeriesLatestSchema, slr_Manifest = cs_Manifest s,
          slr_ChangeIDFilter = cs_ChangeIDFilter s, slr_Point = p\<rparr>)"

section \<open>Validation\<close>

definition series_count_problem :: "string \<Rightarrow> string \<times> int \<Rightarrow> message option" where
  "series_count_problem name x =
     first_some
       [fail_if (blank (fst x)) [T ''series summary '', T name, T '' key must not be empty''],
        fail_if (snd x < 0) [T ''series summary '', T name, T '' count for '', Q (fst x), T '' must not be negative'']]"

definition validateSeriesCountMap :: "string \<Rightarrow> (string, int) gomap \<Rightarrow> message + int" where
  "validateSeriesCountMap name counts =
     (case first_error (series_count_problem name) counts of
        Some err \<Rightarrow> Inl err | None \<Rightarrow> Inr (sum_wrap (map snd counts)))"

definition count_map_problem :: "string \<Rightarrow> (string, int) gomap \<Rightarrow> message option" where
  "count_map_problem name counts = (case validateSeriesCountMap name counts of Inl err \<Rightarrow> Some err | Inr _ \<Rightarrow> None)"

definition count_total :: "string \<Rightarrow> (string, int) gomap \<Rightarrow> int" where
  "count_total name counts = (case validateSeriesCountMap name counts of Inl _ \<Rightarrow> 0 | Inr t \<Rightarrow> t)"

definition transition_counts_problem :: "int \<Rightarrow> string \<times> SeriesTransitionCounts \<Rightarrow> message option" where
  "transition_counts_problem entries x =
     first_some
       [fail_if (fst x \<notin> set subsystem_names)
          [T ''series summary has unsupported transition subsystem '', Q (fst x)],
        fail_if (st_Unchanged (snd x) < 0 \<or> st_Changed (snd x) < 0 \<or> st_Incompatible (snd x) < 0)
          [T ''series summary transition counts for '', T (fst x), T '' must not be negative''],
        fail_if (sum_wrap [st_Unchanged (snd x), st_Changed (snd x), st_Incompatible (snd x)] > entries)
          [T ''series summary transition counts for '', T (fst x), T '' exceed entries'']]"

definition SeriesSummary_Validate :: "SeriesSummary \<Rightarrow> message option" where
  "SeriesSummary_Validate su =
     (let k = su_CorrelationSummary su in
      first_some
       [fail_if (su_Entries su < 1) [T ''series summary needs at least one entry''],
        fail_if (su_Compatible su < 0 \<or> su_Incompatible su < 0 \<or>
            sum_wrap [su_Compatible su, su_Incompatible su] \<noteq> su_Entries su)
          [T ''series summary compatible and incompatible counts must equal entries''],
        fail_if (su_TotalChanges su < 0) [T ''series summary total changes must not be negative''],
        count_map_problem ''changes_by_id'' (su_ChangesByID su),
        fail_if (count_total ''changes_by_id'' (su_ChangesByID su) \<noteq> su_TotalChanges su)
          [T ''series summary changes_by_id counts must equal total changes''],
        count_map_problem ''mutation_changes_by_id'' (su_MutationChangesByID su),
        count_map_problem ''sorna_rule_changes_by_id'' (su_SornaRuleChangesByID su),
        fail_if (sk_Observations k < 0) [T ''series summary correlation observations must not be negative''],
        count_map_problem ''correlations.by_kind'' (sk_ByKind k),
        first_error (\<lambda>x. fail_if
            (fst x \<notin> {BundleCorrelationKindNublarCustodySource, BundleCorrelationKindNublarAmber})
            [T ''series summary has unsupported correlation kind '', Q (fst x)]) (sk_ByKind k),
        count_map_problem ''correlations.by_relation'' (sk_ByRelation k),
        first_error (\<lambda>x. fail_if
            (fst x \<notin> {BundleCorrelationExactMatch, BundleCorrelationMismatch, BundleCorrelationUnknown})
            [T ''series summary has unsupported correlation relation '', Q (fst x)]) (sk_ByRelation k),
        fail_if (count_total ''correlations.by_kind'' (sk_ByKind k) \<noteq> sk_Observations k \<or>
            count_total ''correlations.by_relation'' (sk_ByRelation k) \<noteq> sk_Observations k)
          [T ''series summary correlation counts must equal observations''],
        first_error (transition_counts_problem (su_Entries su)) (su_TransitionsBySubsystem su),
        count_map_problem ''warnings_by_message'' (su_WarningsByMessage su)])"

definition validateSeriesPoint :: "SeriesPoint \<Rightarrow> bool \<Rightarrow> message option" where
  "validateSeriesPoint p requireLatest =
     first_some
       [fail_if (blank (sp_ID p) \<or> blank (sp_Manifest p)) [T ''point needs an id and manifest''],
        fail_if (requireLatest \<and> \<not> sp_Latest p) [T ''latest point must set latest=true''],
        wrap_err (\<lambda>err. T ''point summary: '' # err) (BundleSummary_Validate (sp_Summary p)),
        first_error validateBundleCorrelation (sp_Correlations p),
        first_error (\<lambda>i. fail_if (blank i) [T ''point identifiers cannot contain an empty value''])
          (sp_ChangeIDFilter p @ sp_MutationChangeIDs p @ sp_SornaRuleChangeIDs p)]"

definition SeriesSummaryReport_Validate :: "SeriesSummaryReport \<Rightarrow> message option" where
  "SeriesSummaryReport_Validate r =
     first_some
       [fail_if (ssr_Schema r \<noteq> comparisonSeriesSummarySchema)
          [T ''series summary schema must be '', T comparisonSeriesSummarySchema, T '', got '', Q (ssr_Schema r)],
        first_error (\<lambda>i. fail_if (blank i) [T ''series summary change ID filter cannot contain an empty ID''])
          (ssr_ChangeIDFilter r),
        wrap_err (\<lambda>err. T ''series summary: '' # err) (SeriesSummary_Validate (ssr_Summary r))]"

definition SeriesLatestReport_Validate :: "SeriesLatestReport \<Rightarrow> message option" where
  "SeriesLatestReport_Validate r =
     first_some
       [fail_if (slr_Schema r \<noteq> comparisonSeriesLatestSchema)
          [T ''series latest schema must be '', T comparisonSeriesLatestSchema, T '', got '', Q (slr_Schema r)],
        first_error (\<lambda>i. fail_if (blank i) [T ''series latest change ID filter cannot contain an empty ID''])
          (slr_ChangeIDFilter r),
        wrap_err (\<lambda>err. T ''series latest point: '' # err) (validateSeriesPoint (slr_Point r) True)]"

definition validateSeriesStringList :: "string list \<Rightarrow> string \<Rightarrow> message option" where
  "validateSeriesStringList values name =
     first_error (\<lambda>v. fail_if (blank v) [T name, T '' cannot contain an empty value'']) values"

definition seriesCountMapsEqual :: "(string, int) gomap \<Rightarrow> (string, int) gomap \<Rightarrow> bool" where
  "seriesCountMapsEqual got want \<longleftrightarrow>
     length got = length want \<and>
     list_all (\<lambda>x. (case map_of got (fst x) of None \<Rightarrow> 0 | Some v \<Rightarrow> v) = snd x) want"

definition seriesCorrelationSummariesEqual :: "SeriesCorrelationSummary \<Rightarrow> SeriesCorrelationSummary \<Rightarrow> bool" where
  "seriesCorrelationSummariesEqual got want \<longleftrightarrow>
     sk_Observations got = sk_Observations want \<and> seriesCountMapsEqual (sk_ByKind got) (sk_ByKind want) \<and>
     seriesCountMapsEqual (sk_ByRelation got) (sk_ByRelation want)"

definition seriesTransitionMapsEqual ::
  "(string, SeriesTransitionCounts) gomap \<Rightarrow> (string, SeriesTransitionCounts) gomap \<Rightarrow> bool" where
  "seriesTransitionMapsEqual got want \<longleftrightarrow>
     length got = length want \<and> list_all (\<lambda>x. lookup_counts got (fst x) = snd x) want"

text \<open>The loop over the points: the marker of the last one, the point itself and its identifier.\<close>

fun series_points_problem :: "nat \<Rightarrow> string list \<Rightarrow> SeriesPoint list \<Rightarrow> message option" where
  "series_points_problem i seen [] = None"
| "series_points_problem i seen (p # ps) =
     first_some
       [fail_if (sp_Latest p \<noteq> (ps = [])) [T ''comparison series point '', Q (sp_ID p), T '' has invalid latest marker''],
        wrap_err (\<lambda>err. [T ''comparison series point '', D (int i), T '': ''] @ err) (validateSeriesPoint p (ps = [])),
        fail_if (sp_ID p \<in> set seen) [T ''comparison series point ID '', Q (sp_ID p), T '' is duplicated''],
        series_points_problem (Suc i) (sp_ID p # seen) ps]"

definition ComparisonSeries_Validate :: "(message \<Rightarrow> string) \<Rightarrow> ComparisonSeries \<Rightarrow> message option" where
  "ComparisonSeries_Validate render s =
     (let su = cs_Summary s; ps = cs_Entries s in
      first_some
       [fail_if (cs_Schema s \<noteq> comparisonSeriesSchema)
          [T ''comparison series schema must be '', T comparisonSeriesSchema, T '', got '', Q (cs_Schema s)],
        fail_if (cs_Manifest s \<noteq> [] \<and> blank (cs_Manifest s))
          [T ''comparison series manifest cannot be empty when present''],
        validateSeriesStringList (cs_ChangeIDFilter s) ''comparison series change ID filter'',
        fail_if (ps = []) [T ''comparison series needs at least one point''],
        wrap_err (\<lambda>err. T ''comparison series summary: '' # err) (SeriesSummary_Validate su),
        fail_if (su_Entries su \<noteq> int (length ps)) [T ''comparison series summary entries must equal point count''],
        series_points_problem 0 [] ps,
        fail_if (su_Compatible su \<noteq> int (length (filter (\<lambda>p. bs_Compatible (sp_Summary p)) ps)) \<or>
            su_Incompatible su \<noteq> int (length (filter (\<lambda>p. \<not> bs_Compatible (sp_Summary p)) ps)))
          [T ''comparison series compatibility counts do not match point summaries''],
        fail_if (su_TotalChanges su \<noteq> sum_wrap (map (\<lambda>p. sm_Total (bs_ChangeSummary (sp_Summary p))) ps))
          [T ''comparison series total changes do not match point summaries''],
        fail_if (\<not> seriesCountMapsEqual (su_MutationChangesByID su) (tally (concat (map sp_MutationChangeIDs ps))))
          [T ''comparison series mutation change counts do not match point identifiers''],
        fail_if (\<not> seriesCountMapsEqual (su_SornaRuleChangesByID su) (tally (concat (map sp_SornaRuleChangeIDs ps))))
          [T ''comparison series Sorna rule change counts do not match point identifiers''],
        fail_if (\<not> seriesCorrelationSummariesEqual (su_CorrelationSummary su) (summarizeSeriesCorrelations ps))
          [T ''comparison series correlation counts do not match point correlations''],
        fail_if (\<not> seriesTransitionMapsEqual (su_TransitionsBySubsystem su) (summarizeSeriesTransitions ps))
          [T ''comparison series transition counts do not match point summaries''],
        fail_if (\<not> seriesCountMapsEqual (su_WarningsByMessage su) (summarizeSeriesWarnings render ps))
          [T ''comparison series warning counts do not match point summaries'']])"

text \<open>The writers.\<close>

definition WriteSeriesJSON ::
  "(message \<Rightarrow> string) \<Rightarrow> (ComparisonSeries \<Rightarrow> message + string) \<Rightarrow> ComparisonSeries \<Rightarrow> message + string" where
  "WriteSeriesJSON render = WriteValidated (ComparisonSeries_Validate render)"

definition WriteSeriesSummaryJSON ::
  "(SeriesSummaryReport \<Rightarrow> message + string) \<Rightarrow> ComparisonSeries \<Rightarrow> message + string" where
  "WriteSeriesSummaryJSON encode s =
     WriteValidated SeriesSummaryReport_Validate encode (NewSeriesSummaryReport s)"

definition WriteSeriesLatestJSON ::
  "(SeriesLatestReport \<Rightarrow> message + string) \<Rightarrow> ComparisonSeries \<Rightarrow> message + string" where
  "WriteSeriesLatestJSON encode s =
     (case NewSeriesLatestReport s of
        Inl err \<Rightarrow> Inl err
      | Inr report \<Rightarrow> WriteValidated SeriesLatestReport_Validate encode report)"


section \<open>Filtered bundles\<close>

lemma filtered_bundle_simps [simp]:
  "bn_Manifest (FilterBundleChanges r ids) = bn_Manifest r"
  "bn_ChangeIDFilter (FilterBundleChanges r ids) = sortedChangeIDs ids"
  "bn_NublarRun (FilterBundleChanges r ids) = map_option (\<lambda>c. FilterNublarRunChanges c ids) (bn_NublarRun r)"
  "bn_SornaRun (FilterBundleChanges r ids) = map_option (\<lambda>c. FilterSornaRunChanges c ids) (bn_SornaRun r)"
  "bn_Custody (FilterBundleChanges r ids) = map_option (\<lambda>c. FilterLockwoodCustodyChanges c ids) (bn_Custody r)"
  by (simp_all add: FilterBundleChanges_def)

definition nublar_settled :: "BundleComparison \<Rightarrow> bool" where
  "nublar_settled r \<longleftrightarrow> pred_option transition_ok (bn_NublarRun r)"

lemma pred_option_map: "pred_option P (map_option f x) = pred_option (\<lambda>c. P (f c)) x"
  by (cases x) simp_all

lemma filtered_transitions [simp]:
  "transitions_known (FilterBundleChanges r ids) = transitions_known r"
  "nublar_settled (FilterBundleChanges r ids) = nublar_settled r"
  by (simp_all add: transitions_known_def nublar_settled_def pred_option_map FilterNublarRunChanges_def
      FilterLockwoodCustodyChanges_def)

text \<open>The summary of a bundle validates unless a status of its Nublar runs is empty.\<close>

lemma bundle_summary_iff:
  assumes wf: "bundle_wf r" and "transitions_known r"
  shows "BundleSummary_Validate (bn_Summary r) = None \<longleftrightarrow> nublar_settled r"
proof -
  have a: "pred_option ci_wf (bn_CIResult r)" "pred_option provenance_wf (bn_Provenance r)"
    using wf by (simp_all add: bundle_wf_def adapters_wf_def)
  have "pred_option transition_ok (bn_CIResult r)"
    using a(1) by (cases "bn_CIResult r") (simp_all add: ci_wf_def)
  moreover have "pred_option transition_ok (bn_Provenance r)"
    using a(2) by (cases "bn_Provenance r") (simp_all add: provenance_wf_def)
  ultimately have "(\<forall>p \<in> set (bundle_parts r). StateTransition_Validate (pt_Transition p) = None) \<longleftrightarrow> nublar_settled r"
    using assms(2) unfolding bundle_transitions by (simp add: transitions_known_def nublar_settled_def)
  moreover have "bn_Summary r = summarize_parts (bundle_parts r)"
    using wf by (simp add: bundle_wf_def SummarizeBundle_def)
  ultimately show ?thesis using summarize_parts_iff[OF bundle_parts_wf[OF wf]] by simp
qed

section \<open>What the loop computes\<close>

lemma series_loop_Inr:
  "series_loop w ids root n s es = Inr s' \<Longrightarrow>
   \<exists>bs. list_all2 (\<lambda>e b. CompareBundleFile w (resolveManifestPath root (se_Manifest e)) = Inr b) es bs \<and>
     s' = foldl (add_point n) s (zip es (map (\<lambda>b. FilterBundleChanges b ids) bs))"
proof (induction es arbitrary: s)
  case (Cons e es)
  from Cons.prems obtain b where b: "CompareBundleFile w (resolveManifestPath root (se_Manifest e)) = Inr b"
    and rest: "series_loop w ids root n (add_point n s (e, FilterBundleChanges b ids)) es = Inr s'"
    by (auto split: sum.splits)
  from Cons.IH[OF rest] obtain bs where
    "list_all2 (\<lambda>e b. CompareBundleFile w (resolveManifestPath root (se_Manifest e)) = Inr b) es bs"
    "s' = foldl (add_point n) (add_point n s (e, FilterBundleChanges b ids)) (zip es (map (\<lambda>b. FilterBundleChanges b ids) bs))"
    by blast
  with b show ?case by (intro exI[of _ "b # bs"]) simp
qed simp

lemma bump_all_tally: "bump_all ks (tally js) = tally (js @ ks)"
  by (simp add: bump_all_def tally_def)

definition points_of :: "nat \<Rightarrow> (ComparisonSeriesEntry \<times> BundleComparison) list \<Rightarrow> SeriesPoint list" where
  "points_of n xs = map (\<lambda>x. newSeriesPoint (fst (snd x)) (snd (snd x)) (Suc (fst x) = n)) (enumerate 0 xs)"

lemma points_of_snoc:
  "points_of n (xs @ [x]) = points_of n xs @ [newSeriesPoint (fst x) (snd x) (Suc (length xs) = n)]"
  by (simp add: points_of_def enumerate_append_eq)

lemma points_of_map:
  assumes "\<And>e b l. f (newSeriesPoint e b l) = g (e, b)"
  shows "map f (points_of n xs) = map g xs"
proof -
  have "map f (points_of n xs) = map (g \<circ> snd) (enumerate 0 xs)" using assms by (simp add: points_of_def)
  then show ?thesis by (simp add: map_map[symmetric] del: map_map)
qed

lemma length_points_of [simp]: "length (points_of n xs) = length xs"
  by (simp add: points_of_def)

definition is_compatible :: "SeriesPoint \<Rightarrow> bool" where
  "is_compatible p = bs_Compatible (sp_Summary p)"

definition point_total :: "SeriesPoint \<Rightarrow> int" where
  "point_total p = sm_Total (bs_ChangeSummary (sp_Summary p))"

lemma folded_series:
  fixes xs and n m :: nat and path :: string and ids :: "string list"
  defines "s \<equiv> foldl (add_point n) (empty_series path ids m) xs"
  shows "cs_Schema s = comparisonSeriesSchema \<and> cs_Manifest s = path \<and> cs_ChangeIDFilter s = sortedChangeIDs ids \<and>
    cs_Entries s = points_of n xs \<and> su_Entries (cs_Summary s) = int m \<and>
    su_Compatible (cs_Summary s) = int (length (filter is_compatible (points_of n xs))) \<and>
    su_Incompatible (cs_Summary s) = int (length (filter (\<lambda>p. \<not> is_compatible p) (points_of n xs))) \<and>
    su_TotalChanges (cs_Summary s) = sum_wrap (map point_total (points_of n xs)) \<and>
    su_ChangesByID (cs_Summary s) = tally (concat (map (\<lambda>x. map StableID (bundleBoundaryChanges (snd x))) xs)) \<and>
    su_MutationChangesByID (cs_Summary s) = tally (concat (map sp_MutationChangeIDs (points_of n xs))) \<and>
    su_SornaRuleChangesByID (cs_Summary s) = tally (concat (map sp_SornaRuleChangeIDs (points_of n xs)))"
  unfolding s_def
proof (induction xs rule: rev_induct)
  case Nil
  show ?case by (simp add: empty_series_def points_of_def sum_wrap_def tally_def)
next
  case (snoc x xs)
  then show ?case
    by (simp add: add_point_def Let_def points_of_snoc bump_all_tally is_compatible_def point_total_def sum_wrap_def)
qed

section \<open>When a series validates\<close>

lemma map_wf_mem: "map_wf m \<Longrightarrow> x \<in> set m \<Longrightarrow> map_of m (fst x) = Some (snd x)"
  by (simp add: map_wf_def)

lemma tally_positive: "x \<in> set (tally ks) \<Longrightarrow> 0 < snd x \<and> fst x \<in> set ks"
proof -
  assume "x \<in> set (tally ks)"
  then have "map_of (tally ks) (fst x) = Some (snd x)" using tally_wf by (rule map_wf_mem[rotated])
  then have "fst x \<in> set ks" "snd x = int (count_list ks (fst x))" by (auto simp: map_of_tally split: if_splits)
  then show ?thesis using count_list_0_iff[of ks "fst x"] by simp
qed

lemma count_map_tally:
  assumes "\<forall>k \<in> set ks. \<not> blank k"
  shows "count_map_problem name (tally ks) = None"
    and "int (length ks) < 2 ^ 63 \<Longrightarrow> count_total name (tally ks) = int (length ks)"
proof -
  have "series_count_problem name x = None" if "x \<in> set (tally ks)" for x
    using tally_positive[OF that] assms by (auto simp: series_count_problem_def check_simps)
  then have "first_error (series_count_problem name) (tally ks) = None" unfolding first_error_None by blast
  then have v: "validateSeriesCountMap name (tally ks) = Inr (sum_wrap (map snd (tally ks)))"
    by (simp add: validateSeriesCountMap_def)
  then show "count_map_problem name (tally ks) = None" by (simp add: count_map_problem_def)
  show "count_total name (tally ks) = int (length ks)" if "int (length ks) < 2 ^ 63"
    using that v by (simp add: count_total_def sum_tally sum_wrap_exact)
qed

lemma seriesCountMapsEqual_refl: "map_wf m \<Longrightarrow> seriesCountMapsEqual m m"
  by (simp add: seriesCountMapsEqual_def list_all_iff map_wf_mem)

lemma seriesCountMapsEqual_tally [simp]: "seriesCountMapsEqual (tally ks) (tally ks)"
  by (rule seriesCountMapsEqual_refl) simp

definition count_of :: "SeriesTransitionCounts \<Rightarrow> int" where
  "count_of c = st_Unchanged c + st_Changed c + st_Incompatible c"

definition counts_ok :: "SeriesTransitionCounts \<Rightarrow> bool" where
  "counts_ok c \<longleftrightarrow> 0 \<le> st_Unchanged c \<and> 0 \<le> st_Changed c \<and> 0 \<le> st_Incompatible c"

lemma lookup_counts_set: "lookup_counts (map_set k c m) k' = (if k' = k then c else lookup_counts m k')"
  by (simp add: lookup_counts_def)

lemma count_transition_step:
  assumes "map_wf m" and "\<And>k. counts_ok (lookup_counts m k)"
  shows "map_wf (count_transition m x) \<and> fst ` set (count_transition m x) \<subseteq> insert (fst x) (fst ` set m) \<and>
    counts_ok (lookup_counts (count_transition m x) k) \<and>
    count_of (lookup_counts (count_transition m x) k) \<le> count_of (lookup_counts m k) + (if fst x = k then 1 else 0)"
proof -
  have "counts_ok (lookup_counts m k)" "counts_ok (lookup_counts m (fst x))" using assms by blast+
  with assms(1) show ?thesis
    by (auto simp: count_transition_def Let_def lookup_counts_set counts_ok_def count_of_def)
qed

lemma count_transitions:
  "map_wf (foldl count_transition [] xs) \<and> fst ` set (foldl count_transition [] xs) \<subseteq> fst ` set xs \<and>
   (\<forall>k. counts_ok (lookup_counts (foldl count_transition [] xs) k) \<and>
        count_of (lookup_counts (foldl count_transition [] xs) k) \<le> int (count_list (map fst xs) k))"
proof (induction xs rule: rev_induct)
  case Nil
  show ?case by (simp add: lookup_counts_def counts_ok_def count_of_def)
next
  case (snoc x xs)
  let ?m = "foldl count_transition [] xs"
  have wf: "map_wf ?m" and ok: "\<And>k. counts_ok (lookup_counts ?m k)" using snoc by blast+
  have le: "\<And>k. count_of (lookup_counts ?m k) \<le> int (count_list (map fst xs) k)"
    and sub: "fst ` set ?m \<subseteq> fst ` set xs" using snoc by blast+
  have "count_of (lookup_counts (count_transition ?m x) k) \<le> int (count_list (map fst (xs @ [x])) k)" for k
    using count_transition_step[OF wf ok, of x k] le[of k] by (auto split: if_splits)
  moreover have "fst ` set (count_transition ?m x) \<subseteq> fst ` set (xs @ [x])"
    using count_transition_step[OF wf ok, of x] sub by auto
  moreover have "map_wf (count_transition ?m x)" "\<And>k. counts_ok (lookup_counts (count_transition ?m x) k)"
    using count_transition_step[OF wf ok, of x] by blast+
  ultimately show ?case unfolding foldl_append foldl_Cons foldl_Nil by blast
qed

lemma distinct_count: "distinct xs \<Longrightarrow> count_list xs k \<le> 1"
  by (induction xs) auto

definition point_subsystems :: "SeriesPoint \<Rightarrow> string list" where
  "point_subsystems p = map fst (bs_Subsystems (sp_Summary p))"

lemma distinct_points_count:
  "\<forall>p \<in> set ps. distinct (point_subsystems p) \<Longrightarrow>
     count_list (map fst (concat (map (\<lambda>p. bs_Subsystems (sp_Summary p)) ps))) k \<le> length ps"
proof (induction ps)
  case (Cons p ps)
  then have "count_list (map fst (bs_Subsystems (sp_Summary p))) k \<le> 1"
    by (intro distinct_count) (simp add: point_subsystems_def)
  with Cons show ?case by simp
qed simp

lemma series_transition_counts:
  assumes d: "\<And>p. p \<in> set ps \<Longrightarrow> distinct (point_subsystems p) \<and> set (point_subsystems p) \<subseteq> set subsystem_names"
    and small: "int (length ps) < 2 ^ 60"
  shows "first_error (transition_counts_problem (int (length ps))) (summarizeSeriesTransitions ps) = None"
    and "seriesTransitionMapsEqual (summarizeSeriesTransitions ps) (summarizeSeriesTransitions ps)"
proof -
  let ?xs = "concat (map (\<lambda>p. bs_Subsystems (sp_Summary p)) ps)" and ?m = "summarizeSeriesTransitions ps"
  have m: "?m = foldl count_transition [] ?xs" by (simp add: summarizeSeriesTransitions_def)
  have wf: "map_wf ?m" and sub: "fst ` set ?m \<subseteq> fst ` set ?xs"
    and ok: "\<And>k. counts_ok (lookup_counts ?m k)"
    and le: "\<And>k. count_of (lookup_counts ?m k) \<le> int (count_list (map fst ?xs) k)"
    using count_transitions[of ?xs] unfolding m by blast+
  have look: "lookup_counts ?m (fst x) = snd x" if "x \<in> set ?m" for x
    using map_wf_mem[OF wf that] by (simp add: lookup_counts_def)
  have total: "count_of (lookup_counts ?m k) \<le> int (length ps)" for k
  proof -
    have "count_list (map fst ?xs) k \<le> length ps"
      using distinct_points_count[of ps k] d by blast
    with le[of k] show ?thesis by linarith
  qed
  have names: "fst x \<in> set subsystem_names" if "x \<in> set ?m" for x
  proof -
    have "fst x \<in> fst ` set ?xs" using that sub by blast
    then have "fst x \<in> (\<Union>p \<in> set ps. set (point_subsystems p))"
      by (simp add: point_subsystems_def image_UN)
    with d show ?thesis by blast
  qed
  have "transition_counts_problem (int (length ps)) x = None" if x: "x \<in> set ?m" for x
  proof -
    have c: "counts_ok (snd x)" "count_of (snd x) \<le> int (length ps)"
      using ok[of "fst x"] total[of "fst x"] look[OF x] by simp_all
    then have "sum_wrap [st_Unchanged (snd x), st_Changed (snd x), st_Incompatible (snd x)] = count_of (snd x)"
      using small by (subst sum_wrap_exact) (simp_all add: counts_ok_def count_of_def)
    with c names[OF x] show ?thesis
      unfolding transition_counts_problem_def first_some_Cons_None first_some_Nil_None fail_if_None
      by (simp add: counts_ok_def)
  qed
  then show "first_error (transition_counts_problem (int (length ps))) ?m = None" unfolding first_error_None by blast
  show "seriesTransitionMapsEqual ?m ?m" using look by (simp add: seriesTransitionMapsEqual_def list_all_iff)
qed

fun latest_marked :: "SeriesPoint list \<Rightarrow> bool" where
  "latest_marked [] = True"
| "latest_marked (p # ps) \<longleftrightarrow> sp_Latest p = (ps = []) \<and> latest_marked ps"

lemma series_points_None:
  "latest_marked ps \<Longrightarrow>
   series_points_problem i seen ps = None \<longleftrightarrow>
     (\<forall>p \<in> set ps. validateSeriesPoint p False = None) \<and> distinct (map sp_ID ps) \<and> set seen \<inter> sp_ID ` set ps = {}"
proof (induction ps arbitrary: i seen)
  case (Cons p ps)
  have v: "validateSeriesPoint p (ps = []) = None \<longleftrightarrow> validateSeriesPoint p False = None"
    using Cons.prems by (simp add: validateSeriesPoint_def first_some_Cons_None del: first_some.simps)
  have "series_points_problem (Suc i) (sp_ID p # seen) ps = None \<longleftrightarrow>
    (\<forall>q \<in> set ps. validateSeriesPoint q False = None) \<and> distinct (map sp_ID ps) \<and>
    set (sp_ID p # seen) \<inter> sp_ID ` set ps = {}"
    using Cons by simp
  then show ?case
    using Cons.prems unfolding series_points_problem.simps first_some_Cons_None first_some_Nil_None wrap_err_None v
    by auto
qed simp

lemma newSeriesPoint_simps [simp]:
  "sp_ID (newSeriesPoint e b l) = se_ID e" "sp_Manifest (newSeriesPoint e b l) = bn_Manifest b"
  "sp_Summary (newSeriesPoint e b l) = bn_Summary b" "sp_Correlations (newSeriesPoint e b l) = bn_Correlations b"
  "sp_MutationChangeIDs (newSeriesPoint e b l) = bundleMutationChangeIDs b"
  "sp_SornaRuleChangeIDs (newSeriesPoint e b l) = bundleSornaRuleChangeIDs b"
  "sp_ChangeIDFilter (newSeriesPoint e b l) = bn_ChangeIDFilter b" "sp_Latest (newSeriesPoint e b l) = l"
  "sp_Label (newSeriesPoint e b l) = se_Label e"
  by (simp_all add: newSeriesPoint_def)

lemma points_marked_aux:
  "n = i + length xs \<Longrightarrow>
   latest_marked (map (\<lambda>x. newSeriesPoint (fst (snd x)) (snd (snd x)) (Suc (fst x) = n)) (enumerate i xs))"
proof (induction xs arbitrary: i)
  case (Cons x xs)
  then have "n = Suc i + length xs" by simp
  from Cons.IH[OF this] Cons.prems show ?case by (cases xs) simp_all
qed simp

lemma points_marked: "latest_marked (points_of (length xs) xs)"
  using points_marked_aux[of "length xs" 0 xs] by (simp add: points_of_def)

lemma identifiers_not_blank:
  "i \<in> set (bundleMutationChangeIDs b) \<Longrightarrow> \<not> blank i" "i \<in> set (bundleSornaRuleChangeIDs b) \<Longrightarrow> \<not> blank i"
  by (auto simp: bundleMutationChangeIDs_def bundleSornaRuleChangeIDs_def split: option.splits)

lemma new_point_iff:
  assumes wf: "bundle_wf b" "transitions_known b" and id: "\<not> blank (se_ID e)"
  shows "validateSeriesPoint (newSeriesPoint e b l) False = None \<longleftrightarrow> \<not> blank (bn_Manifest b) \<and> nublar_settled b"
proof -
  have "first_error validateBundleCorrelation (bn_Correlations b) = None"
    using wf correlation_valid by (simp add: bundle_wf_def first_error_None)
  moreover have "first_error (\<lambda>i. fail_if (blank i) err)
      (bn_ChangeIDFilter b @ bundleMutationChangeIDs b @ bundleSornaRuleChangeIDs b) = None" for err :: message
    using wf identifiers_not_blank[of _ b] unfolding first_error_None by (auto simp: bundle_wf_def)
  ultimately show ?thesis
    using id bundle_summary_iff[OF wf]
    unfolding validateSeriesPoint_def first_some_Cons_None first_some_Nil_None wrap_err_None fail_if_None newSeriesPoint_simps
    by auto
qed

lemma boundary_changes: "bundleBoundaryChanges r = concat (map pt_Changes (bundle_parts r))"
  unfolding bundleBoundaryChanges_def bundle_parts_def map_append concat_append opt_list_def
  by (simp split: option.split)

lemma bundle_total: "bundle_wf b \<Longrightarrow> sm_Total (bs_ChangeSummary (bn_Summary b)) = int (length (bundleBoundaryChanges b))"
  by (simp add: bundle_wf_def SummarizeBundle_def boundary_changes)

lemma boundary_ids: "bundle_wf b \<Longrightarrow> c \<in> set (bundleBoundaryChanges b) \<Longrightarrow> \<not> blank (StableID c)"
proof -
  assume b: "bundle_wf b" and "c \<in> set (bundleBoundaryChanges b)"
  then obtain p where "p \<in> set (bundle_parts b)" "c \<in> set (pt_Changes p)" unfolding boundary_changes by auto
  with bundle_parts_wf[OF b] have "change_wf c" by (simp add: parts_wf_def part_wf_def)
  then show ?thesis using change_wf_StableID[of c] by (simp add: change_wf_def)
qed

lemma correlation_fields:
  assumes "validateBundleCorrelation c = None"
  shows "bc_Kind c \<in> {BundleCorrelationKindNublarCustodySource, BundleCorrelationKindNublarAmber} \<and>
    bc_Relation c \<in> {BundleCorrelationExactMatch, BundleCorrelationMismatch, BundleCorrelationUnknown} \<and>
    \<not> blank (bc_Kind c) \<and> \<not> blank (bc_Relation c)"
proof -
  have "\<not> blank BundleCorrelationKindNublarCustodySource" "\<not> blank BundleCorrelationKindNublarAmber"
    "\<not> blank BundleCorrelationExactMatch" "\<not> blank BundleCorrelationMismatch" "\<not> blank BundleCorrelationUnknown"
    by (simp_all add: plain_head_not_blank plain_byte_def byte_def)
  with assms show ?thesis
    unfolding validateBundleCorrelation_def first_some_Cons_None first_some_Nil_None fail_if_None by auto
qed

lemma correlations_few: "length (CorrelateBundle r) \<le> 4"
  by (simp add: CorrelateBundle_def split: option.split)

definition built_series ::
  "(message \<Rightarrow> string) \<Rightarrow> string \<Rightarrow> string list \<Rightarrow> (ComparisonSeriesEntry \<times> BundleComparison) list \<Rightarrow> ComparisonSeries" where
  "built_series render path ids xs =
     finish_series render (foldl (add_point (length xs)) (empty_series path ids (length xs)) xs)"

definition entries_wf :: "(ComparisonSeriesEntry \<times> BundleComparison) list \<Rightarrow> bool" where
  "entries_wf xs \<longleftrightarrow>
     xs \<noteq> [] \<and> (\<forall>x \<in> set xs. \<not> blank (se_ID (fst x)) \<and> bundle_wf (snd x) \<and> transitions_known (snd x)) \<and>
     distinct (map (\<lambda>x. se_ID (fst x)) xs)"

definition series_small :: "ComparisonSeries \<Rightarrow> bool" where
  "series_small s \<longleftrightarrow> int (length (cs_Entries s)) < 2 ^ 60 \<and> sum_list (map point_total (cs_Entries s)) < 2 ^ 63"

lemma built_series_simps [simp]:
  "cs_Schema (built_series render path ids xs) = comparisonSeriesSchema"
  "cs_Manifest (built_series render path ids xs) = path"
  "cs_ChangeIDFilter (built_series render path ids xs) = sortedChangeIDs ids"
  "cs_Entries (built_series render path ids xs) = points_of (length xs) xs"
  using folded_series[of "length xs" path ids "length xs" xs] by (simp_all add: built_series_def finish_series_def)

lemma built_summary_simps:
  fixes render path ids xs
  defines "su \<equiv> cs_Summary (built_series render path ids xs)" and "ps \<equiv> points_of (length xs) xs"
  shows "su_Entries su = int (length xs)"
    "su_Compatible su = int (length (filter is_compatible ps))"
    "su_Incompatible su = int (length (filter (\<lambda>p. \<not> is_compatible p) ps))"
    "su_TotalChanges su = sum_wrap (map point_total ps)"
    "su_ChangesByID su = tally (concat (map (\<lambda>x. map StableID (bundleBoundaryChanges (snd x))) xs))"
    "su_MutationChangesByID su = tally (concat (map sp_MutationChangeIDs ps))"
    "su_SornaRuleChangesByID su = tally (concat (map sp_SornaRuleChangeIDs ps))"
    "su_CorrelationSummary su = summarizeSeriesCorrelations ps"
    "su_TransitionsBySubsystem su = summarizeSeriesTransitions ps"
    "su_WarningsByMessage su = summarizeSeriesWarnings render ps"
  using folded_series[of "length xs" path ids "length xs" xs]
  by (simp_all add: su_def ps_def built_series_def finish_series_def)

lemma map_points:
  "map sp_ID (points_of n xs) = map (\<lambda>x. se_ID (fst x)) xs"
  "map sp_Correlations (points_of n xs) = map (\<lambda>x. bn_Correlations (snd x)) xs"
  "map sp_MutationChangeIDs (points_of n xs) = map (\<lambda>x. bundleMutationChangeIDs (snd x)) xs"
  "map sp_SornaRuleChangeIDs (points_of n xs) = map (\<lambda>x. bundleSornaRuleChangeIDs (snd x)) xs"
  "map sp_Summary (points_of n xs) = map (\<lambda>x. bn_Summary (snd x)) xs"
  by (rule points_of_map; simp)+

lemma points_members:
  "p \<in> set (points_of n xs) \<Longrightarrow> \<exists>x l. x \<in> set xs \<and> p = newSeriesPoint (fst x) (snd x) l"
proof -
  assume "p \<in> set (points_of n xs)"
  then obtain y where "y \<in> set (enumerate 0 xs)" "p = newSeriesPoint (fst (snd y)) (snd (snd y)) (Suc (fst y) = n)"
    by (auto simp: points_of_def)
  moreover from this(1) have "snd y \<in> set xs" by (metis imageI list.set_map map_snd_enumerate)
  ultimately show ?thesis by blast
qed

lemma member_points: "x \<in> set xs \<Longrightarrow> \<exists>l. newSeriesPoint (fst x) (snd x) l \<in> set (points_of n xs)"
proof -
  assume "x \<in> set xs"
  then have "x \<in> snd ` set (enumerate 0 xs)" by (metis list.set_map map_snd_enumerate)
  then obtain y where "y \<in> set (enumerate 0 xs)" "x = snd y" by blast
  then have "newSeriesPoint (fst x) (snd x) (Suc (fst y) = n) \<in> set (points_of n xs)" by (auto simp: points_of_def)
  then show ?thesis by blast
qed

lemma points_valid_iff:
  assumes "entries_wf xs"
  shows "(\<forall>p \<in> set (points_of n xs). validateSeriesPoint p False = None) \<longleftrightarrow>
    (\<forall>x \<in> set xs. \<not> blank (bn_Manifest (snd x)) \<and> nublar_settled (snd x))"
proof -
  have "validateSeriesPoint (newSeriesPoint (fst x) (snd x) l) False = None \<longleftrightarrow>
      \<not> blank (bn_Manifest (snd x)) \<and> nublar_settled (snd x)" if "x \<in> set xs" for x l
    using assms that by (intro new_point_iff) (auto simp: entries_wf_def)
  then show ?thesis using points_members[of _ n xs] member_points[of _ xs n] by metis
qed

lemma sum_list_int: "int (sum_list (map f xs)) = sum_list (map (\<lambda>x. int (f x)) xs)"
  by (induction xs) simp_all

lemma changes_total:
  assumes "entries_wf xs"
  shows "int (length (concat (map (\<lambda>x. map StableID (bundleBoundaryChanges (snd x))) xs))) =
    sum_list (map point_total (points_of n xs))"
proof -
  have "map point_total (points_of n xs) = map (\<lambda>x. sm_Total (bs_ChangeSummary (bn_Summary (snd x)))) xs"
    by (rule points_of_map) (simp add: point_total_def)
  also have "\<dots> = map (\<lambda>x. int (length (bundleBoundaryChanges (snd x)))) xs"
    using assms bundle_total by (simp add: entries_wf_def)
  finally show ?thesis by (simp add: length_concat comp_def sum_list_int)
qed

lemma series_correlations:
  fixes xs and n :: nat
  assumes wf: "entries_wf xs" and small: "int (length xs) < 2 ^ 60"
  defines "cs \<equiv> concat (map sp_Correlations (points_of n xs))"
  shows "\<forall>c \<in> set cs. validateBundleCorrelation c = None" and "int (length cs) < 2 ^ 62"
proof -
  have corr: "bn_Correlations (snd x) = CorrelateBundle (snd x)" if "x \<in> set xs" for x
    using wf that by (simp add: entries_wf_def bundle_wf_def)
  have cs: "cs = concat (map (\<lambda>x. CorrelateBundle (snd x)) xs)"
    using corr by (simp add: cs_def map_points cong: map_cong)
  then show "\<forall>c \<in> set cs. validateBundleCorrelation c = None" using correlation_valid by auto
  have "length cs \<le> 4 * length xs" unfolding cs
  proof (induction xs)
    case (Cons x xs)
    then show ?case using correlations_few[of "snd x"] by simp
  qed simp
  with small show "int (length cs) < 2 ^ 62" by simp
qed

lemma correlation_summary_valid:
  assumes c: "\<forall>c \<in> set (concat (map sp_Correlations ps)). validateBundleCorrelation c = None"
    and l: "int (length (concat (map sp_Correlations ps))) < 2 ^ 62"
  defines "k \<equiv> summarizeSeriesCorrelations ps"
  shows "0 \<le> sk_Observations k \<and> count_map_problem n (sk_ByKind k) = None \<and> count_map_problem m (sk_ByRelation k) = None \<and>
    (\<forall>x \<in> set (sk_ByKind k). fst x \<in> {BundleCorrelationKindNublarCustodySource, BundleCorrelationKindNublarAmber}) \<and>
    (\<forall>x \<in> set (sk_ByRelation k).
       fst x \<in> {BundleCorrelationExactMatch, BundleCorrelationMismatch, BundleCorrelationUnknown}) \<and>
    count_total n (sk_ByKind k) = sk_Observations k \<and> count_total m (sk_ByRelation k) = sk_Observations k \<and>
    seriesCorrelationSummariesEqual k k"
proof -
  let ?cs = "concat (map sp_Correlations ps)"
  have f: "bc_Kind c \<in> {BundleCorrelationKindNublarCustodySource, BundleCorrelationKindNublarAmber} \<and>
    bc_Relation c \<in> {BundleCorrelationExactMatch, BundleCorrelationMismatch, BundleCorrelationUnknown} \<and>
    \<not> blank (bc_Kind c) \<and> \<not> blank (bc_Relation c)" if "c \<in> set ?cs" for c
    using c that by (intro correlation_fields) blast
  have k: "sk_Observations k = int (length ?cs)" "sk_ByKind k = tally (map bc_Kind ?cs)"
    "sk_ByRelation k = tally (map bc_Relation ?cs)"
    unfolding k_def summarizeSeriesCorrelations_def Let_def by simp_all
  have kinds: "\<forall>x \<in> set (map bc_Kind ?cs). \<not> blank x" and relations: "\<forall>x \<in> set (map bc_Relation ?cs). \<not> blank x"
    using f unfolding set_map by blast+
  have l': "int (length (map g ?cs)) < 2 ^ 63" for g :: "BundleCorrelation \<Rightarrow> string" using l by simp
  have "fst x \<in> bc_Kind ` set ?cs" if "x \<in> set (tally (map bc_Kind ?cs))" for x using tally_positive[OF that] by simp
  moreover have "fst x \<in> bc_Relation ` set ?cs" if "x \<in> set (tally (map bc_Relation ?cs))" for x
    using tally_positive[OF that] by simp
  ultimately show ?thesis
    using count_map_tally[OF kinds] count_map_tally[OF relations] l'[of bc_Kind] l'[of bc_Relation] f
    unfolding k seriesCorrelationSummariesEqual_def by fastforce
qed

lemma built_points_subsystems:
  assumes "entries_wf xs" and "p \<in> set (points_of n xs)"
  shows "distinct (point_subsystems p) \<and> set (point_subsystems p) \<subseteq> set subsystem_names"
proof -
  from points_members[OF assms(2)] obtain x l where x: "x \<in> set xs" "p = newSeriesPoint (fst x) (snd x) l" by blast
  with assms(1) have b: "bundle_wf (snd x)" by (simp add: entries_wf_def)
  then have "point_subsystems p = map pt_Name (bundle_parts (snd x))"
    by (simp add: x point_subsystems_def bundle_wf_def SummarizeBundle_def)
  moreover have "set (map pt_Name (bundle_parts (snd x))) \<subseteq> set subsystem_names"
    using bundle_parts_wf[OF b] unfolding parts_wf_def part_wf_def by auto
  ultimately show ?thesis using bundle_parts_names[of "snd x"] by simp
qed

lemma compatible_sum: "length (filter P ps) + length (filter (\<lambda>p. \<not> P p) ps) = length ps"
  by (rule sum_length_filter_compl)

lemma built_summary_valid:
  fixes render path ids xs
  defines "s \<equiv> built_series render path ids xs"
  assumes wf: "entries_wf xs" and small: "series_small s"
  shows "SeriesSummary_Validate (cs_Summary s) = None"
proof -
  let ?ps = "points_of (length xs) xs"
  let ?ids = "concat (map (\<lambda>x. map StableID (bundleBoundaryChanges (snd x))) xs)"
  note su = built_summary_simps[of render path ids xs, folded s_def]
  have n: "int (length xs) < 2 ^ 60" and total: "sum_list (map point_total ?ps) < 2 ^ 63" and ne: "xs \<noteq> []"
    using small wf by (simp_all add: s_def series_small_def entries_wf_def)
  have ids: "\<forall>i \<in> set ?ids. \<not> blank i" using wf boundary_ids unfolding entries_wf_def by fastforce
  have t: "su_TotalChanges (cs_Summary s) = int (length ?ids)" "int (length ?ids) < 2 ^ 63"
    using changes_total[OF wf, of "length xs"] total su(4) by (simp_all add: sum_wrap_exact)
  have c: "sum_wrap [su_Compatible (cs_Summary s), su_Incompatible (cs_Summary s)] = su_Entries (cs_Summary s)"
    using compatible_sum[of is_compatible ?ps] n unfolding su(1-3) by (subst sum_wrap_exact) simp_all
  have mutations: "\<forall>i \<in> set (concat (map sp_MutationChangeIDs ?ps)). \<not> blank i"
    "\<forall>i \<in> set (concat (map sp_SornaRuleChangeIDs ?ps)). \<not> blank i"
    using identifiers_not_blank by (fastforce simp: map_points)+
  have warnings: "count_map_problem name (su_WarningsByMessage (cs_Summary s)) = None" for name
    unfolding su(10) summarizeSeriesWarnings_def by (rule count_map_tally(1)) auto
  note corr = correlation_summary_valid[OF series_correlations[OF wf n, of "length xs"]]
  have trans: "first_error (transition_counts_problem (su_Entries (cs_Summary s)))
      (su_TransitionsBySubsystem (cs_Summary s)) = None"
    using series_transition_counts(1)[of ?ps] built_points_subsystems[OF wf] n unfolding su(1) su(9) by simp
  have kinds: "first_error (\<lambda>x. fail_if (fst x \<notin> K) (e x)) m = None" if "\<forall>x \<in> set m. fst x \<in> K"
    for K and m :: "(string, int) gomap" and e :: "string \<times> int \<Rightarrow> message"
    using that unfolding first_error_None by simp
  let ?k = "summarizeSeriesCorrelations ?ps"
  have k: "0 \<le> sk_Observations ?k" "count_map_problem n (sk_ByKind ?k) = None"
    "count_map_problem n (sk_ByRelation ?k) = None" "count_total n (sk_ByKind ?k) = sk_Observations ?k"
    "count_total n (sk_ByRelation ?k) = sk_Observations ?k" for n using corr by blast+
  have kk: "\<forall>x \<in> set (sk_ByKind ?k). fst x \<in> {BundleCorrelationKindNublarCustodySource, BundleCorrelationKindNublarAmber}"
    "\<forall>x \<in> set (sk_ByRelation ?k).
       fst x \<in> {BundleCorrelationExactMatch, BundleCorrelationMismatch, BundleCorrelationUnknown}"
    using corr by blast+
  have entries: "\<not> su_Entries (cs_Summary s) < 1" using ne by (cases xs) (simp_all add: su(1))
  have counts: "0 \<le> su_Compatible (cs_Summary s)" "0 \<le> su_Incompatible (cs_Summary s)"
    "0 \<le> su_TotalChanges (cs_Summary s)" using t by (simp_all add: su(2,3))
  have changes: "count_map_problem n (su_ChangesByID (cs_Summary s)) = None"
    "count_total n (su_ChangesByID (cs_Summary s)) = su_TotalChanges (cs_Summary s)" for n
    using count_map_tally[OF ids] t unfolding su(5) by simp_all
  show ?thesis
    unfolding SeriesSummary_Validate_def Let_def first_some_Cons_None first_some_Nil_None fail_if_None
      su(8) k su(6,7) count_map_tally(1)[OF mutations(1)] count_map_tally(1)[OF mutations(2)] c warnings trans changes
      kinds[OF kk(1)] kinds[OF kk(2)]
    using entries counts k(1) by simp
qed

lemma built_series_iff:
  fixes render path ids xs
  defines "s \<equiv> built_series render path ids xs"
  assumes wf: "entries_wf xs" and small: "series_small s"
  shows "ComparisonSeries_Validate render s = None \<longleftrightarrow>
    present_not_blank path \<and> (\<forall>x \<in> set xs. \<not> blank (bn_Manifest (snd x)) \<and> nublar_settled (snd x))"
proof -
  let ?ps = "points_of (length xs) xs"
  note su = built_summary_simps[of render path ids xs, folded s_def]
  have s: "cs_Schema s = comparisonSeriesSchema" "cs_Manifest s = path" "cs_ChangeIDFilter s = sortedChangeIDs ids"
    "cs_Entries s = ?ps" by (simp_all add: s_def)
  have n: "int (length xs) < 2 ^ 60" using small by (simp add: series_small_def s)
  have "xs \<noteq> []" using wf by (simp add: entries_wf_def)
  then have ne: "?ps \<noteq> []" by (metis length_points_of length_0_conv)
  have "distinct (map sp_ID ?ps)" using wf by (simp add: map_points entries_wf_def)
  then have points: "series_points_problem 0 [] ?ps = None \<longleftrightarrow>
      (\<forall>x \<in> set xs. \<not> blank (bn_Manifest (snd x)) \<and> nublar_settled (snd x))"
    using series_points_None[OF points_marked] points_valid_iff[OF wf] by simp
  have filter: "validateSeriesStringList (sortedChangeIDs ids) name = None" for name
    using sortedChangeIDs_not_blank unfolding validateSeriesStringList_def first_error_None by simp
  have corr: "seriesCorrelationSummariesEqual (summarizeSeriesCorrelations ?ps) (summarizeSeriesCorrelations ?ps)"
    using correlation_summary_valid[OF series_correlations[OF wf n, of "length xs"]] by blast
  have trans: "seriesTransitionMapsEqual (summarizeSeriesTransitions ?ps) (summarizeSeriesTransitions ?ps)"
    using n built_points_subsystems[OF wf] by (intro series_transition_counts(2)[of ?ps]) simp_all
  have warn: "seriesCountMapsEqual (summarizeSeriesWarnings render ?ps) (summarizeSeriesWarnings render ?ps)"
    unfolding summarizeSeriesWarnings_def by simp
  show ?thesis
    unfolding ComparisonSeries_Validate_def Let_def first_some_Cons_None first_some_Nil_None fail_if_None wrap_err_None
      s points filter built_summary_valid[OF wf small[unfolded s_def], folded s_def] su(1-4,6-10)
    using corr trans warn ne
    unfolding is_compatible_def[abs_def, symmetric] point_total_def[abs_def, symmetric]
    by (auto simp: present_not_blank_def is_compatible_def)
qed

lemma series_entry_issues_None:
  "series_entry_issues i seen es = [] \<longleftrightarrow>
     (\<forall>e \<in> set es. \<not> blank (se_ID e) \<and> \<not> blank (se_Manifest e)) \<and> distinct (map se_ID es) \<and>
     set seen \<inter> se_ID ` set es = {}"
proof (induction es arbitrary: i seen)
  case (Cons e es)
  show ?case unfolding series_entry_issues.simps append_is_Nil_conv Cons.IH problem_Nil by auto
qed simp

lemma series_manifest_accepted:
  "loadComparisonSeriesManifest read decode path = Inr m \<Longrightarrow>
     sf_Schema m = ComparisonSeriesManifestSchema \<and> sf_Entries m \<noteq> [] \<and>
     (\<forall>e \<in> set (sf_Entries m). \<not> blank (se_ID e) \<and> \<not> blank (se_Manifest e)) \<and> distinct (map se_ID (sf_Entries m))"
proof -
  assume "loadComparisonSeriesManifest read decode path = Inr m"
  then have "series_manifest_issues m = []"
    by (auto simp: loadComparisonSeriesManifest_def split: sum.splits if_splits)
  then show ?thesis
    unfolding series_manifest_issues_def append_is_Nil_conv problem_Nil series_entry_issues_None by simp
qed

text \<open>A compared series: the entries of its manifest, each with its filtered bundle.\<close>

lemma compared_series:
  assumes fit: "sources_fit w" and s: "CompareSeriesManifestFileWithChanges w decode render path ids = Inr s"
  shows "\<exists>m bs. loadComparisonSeriesManifest (w_read w) decode path = Inr m \<and>
    list_all2 (\<lambda>e b. CompareBundleFile w (resolveManifestPath (Dir path) (se_Manifest e)) = Inr b) (sf_Entries m) bs \<and>
    entries_wf (zip (sf_Entries m) (map (\<lambda>b. FilterBundleChanges b ids) bs)) \<and>
    s = built_series render path ids (zip (sf_Entries m) (map (\<lambda>b. FilterBundleChanges b ids) bs))"
proof -
  from s obtain m s' where m: "loadComparisonSeriesManifest (w_read w) decode path = Inr m"
    and l: "series_loop w ids (Dir path) (length (sf_Entries m)) (empty_series path ids (length (sf_Entries m)))
      (sf_Entries m) = Inr s'" and s': "s = finish_series render s'"
    by (auto simp: CompareSeriesManifestFileWithChanges_def Let_def split: sum.splits)
  from series_loop_Inr[OF l] obtain bs where
    bs: "list_all2 (\<lambda>e b. CompareBundleFile w (resolveManifestPath (Dir path) (se_Manifest e)) = Inr b) (sf_Entries m) bs"
    and fold: "s' = foldl (add_point (length (sf_Entries m))) (empty_series path ids (length (sf_Entries m)))
      (zip (sf_Entries m) (map (\<lambda>b. FilterBundleChanges b ids) bs))" by blast
  have len: "length bs = length (sf_Entries m)" using bs by (simp add: list_all2_lengthD)
  note acc = series_manifest_accepted[OF m]
  let ?xs = "zip (sf_Entries m) (map (\<lambda>b. FilterBundleChanges b ids) bs)"
  have fst: "map fst ?xs = sf_Entries m" using len by simp
  have b: "bundle_wf b \<and> transitions_known b" if "b \<in> set bs" for b
  proof -
    from that obtain i where i: "i < length bs" "bs ! i = b" by (auto simp: in_set_conv_nth)
    with list_all2_nthD2[OF bs i(1)] obtain p where "CompareBundleFile w p = Inr b" by simp
    then show ?thesis using compared_bundle_wf[OF fit] by blast
  qed
  have "\<not> blank (se_ID (fst x)) \<and> bundle_wf (snd x) \<and> transitions_known (snd x)" if x: "x \<in> set ?xs" for x
  proof -
    have "fst x \<in> set (map fst ?xs)" using x by simp
    then have "fst x \<in> set (sf_Entries m)" unfolding fst .
    moreover obtain b' where "b' \<in> set bs" "snd x = FilterBundleChanges b' ids"
    proof -
      have "snd x \<in> set (map (\<lambda>b. FilterBundleChanges b ids) bs)" using x by (intro set_zip_rightD[of "fst x" "snd x"]) simp
      with that show thesis by auto
    qed
    ultimately show ?thesis using acc b FilterBundleChanges_wf by auto
  qed
  moreover have "distinct (map (\<lambda>x. se_ID (fst x)) ?xs)"
  proof -
    have "map (\<lambda>x. se_ID (fst x)) ?xs = map se_ID (map fst ?xs)" by simp
    then show ?thesis unfolding fst using acc by simp
  qed
  moreover have "?xs \<noteq> []"
  proof
    assume "?xs = []"
    then have "map fst ?xs = []" by simp
    with acc show False unfolding fst by simp
  qed
  ultimately have "entries_wf ?xs" unfolding entries_wf_def by blast
  moreover have "s = built_series render path ids ?xs" using len by (simp add: built_series_def s' fold)
  ultimately show ?thesis using m bs by blast
qed

end
