(* ===== verification/SattlerInvestigation.thy ===== *)
theory SattlerInvestigation
  imports SattlerSeries
begin

text \<open>
  sattler/investigation.go: the findings, the evidence and the open questions an investigation
  draws from a bundle, and their validation.  Values of type \<open>any\<close> are those of the changes; an
  absent one is \<open>VNil\<close>.  \<open>sort.Slice\<close> by two keys is a stable sort by the second and then the
  first; the elements of a compared bundle differ in them.
\<close>

section \<open>Data\<close>

abbreviation InvestigationSchema :: string where "InvestigationSchema \<equiv> ''ingen.sattler-investigation/v0''"
abbreviation ConfidenceDirect :: string where "ConfidenceDirect \<equiv> ''direct''"
abbreviation ConfidencePartial :: string where "ConfidencePartial \<equiv> ''partial''"
abbreviation ConfidenceUnknown :: string where "ConfidenceUnknown \<equiv> ''unknown''"
abbreviation investigationNotice :: string where
  "investigationNotice \<equiv> ''Findings and evidence are co-observed comparison context; they are not regression or causation claims.''"

record InvestigationSourceRef =
  is_Subsystem :: string
  is_Side :: string
  is_Path :: string
  is_Field :: string

record InvestigationFinding =
  if_ID :: string
  if_Kind :: string
  if_Subject :: string
  if_Before :: Value
  if_After :: Value
  if_Confidence :: string
  if_Sources :: "InvestigationSourceRef list"
  if_RelatedEvidenceIDs :: "string list"

record InvestigationEvidenceChange =
  iv_ID :: string
  iv_Subsystem :: string
  iv_Field :: string
  iv_Before :: Value
  iv_After :: Value
  iv_Identity :: string
  iv_Confidence :: string
  iv_Sources :: "InvestigationSourceRef list"

record InvestigationUnknown =
  iu_ID :: string
  iu_Subject :: string
  iu_Message :: string
  iu_Confidence :: string
  iu_Sources :: "InvestigationSourceRef list"

record InvestigationReport =
  ir_Schema :: string
  ir_Manifest :: string
  ir_Compatible :: bool
  ir_ChangeIDFilter :: "string list"
  ir_Notice :: string
  ir_Findings :: "InvestigationFinding list"
  ir_Evidence :: "InvestigationEvidenceChange list"
  ir_Unknowns :: "InvestigationUnknown list"

section \<open>The projection\<close>

definition investigationSources :: "string \<Rightarrow> string \<Rightarrow> string \<Rightarrow> string \<Rightarrow> InvestigationSourceRef list" where
  "investigationSources subsystem field beforePath afterPath =
     [\<lparr>is_Subsystem = subsystem, is_Side = ''before'', is_Path = beforePath, is_Field = field\<rparr>,
      \<lparr>is_Subsystem = subsystem, is_Side = ''after'', is_Path = afterPath, is_Field = field\<rparr>]"

text \<open>The last source of a side decides whether it has a path.\<close>

definition have_side :: "string \<Rightarrow> InvestigationSourceRef list \<Rightarrow> bool" where
  "have_side side sources =
     (case filter (\<lambda>s. is_Side s = side) (rev sources) of [] \<Rightarrow> False | s # _ \<Rightarrow> \<not> blank (is_Path s))"

definition confidenceForSources :: "InvestigationSourceRef list \<Rightarrow> string" where
  "confidenceForSources sources =
     (if length sources < 2 then ConfidenceUnknown
      else if have_side ''before'' sources \<and> have_side ''after'' sources then ConfidenceDirect
      else if have_side ''before'' sources \<or> have_side ''after'' sources then ConfidencePartial
      else ConfidenceUnknown)"

definition optionalString :: "string \<Rightarrow> Value" where
  "optionalString s = (if s = [] then VNil else VString s)"

definition mutationStateValue :: "MutationState option \<Rightarrow> Value" where
  "mutationStateValue s = (case s of None \<Rightarrow> VNil | Some x \<Rightarrow> VState (ms_Status x) (ms_Outcome x))"

definition mutationSummaryValue :: "SornaRunMutation option \<Rightarrow> Value" where
  "mutationSummaryValue m = (case m of None \<Rightarrow> VNil | Some x \<Rightarrow> VMutation (smu_ID x) (smu_Outcome x))"

definition mutationSummaryID :: "SornaRunMutation option \<Rightarrow> string" where
  "mutationSummaryID m = (case m of None \<Rightarrow> [] | Some x \<Rightarrow> smu_ID x)"

definition evidence_of :: "string \<Rightarrow> string \<Rightarrow> string \<Rightarrow> Change \<Rightarrow> InvestigationEvidenceChange" where
  "evidence_of subsystem beforePath afterPath c =
     (let sources = investigationSources subsystem (StableID c) beforePath afterPath
      in \<lparr>iv_ID = subsystem @ ''.'' @ StableID c, iv_Subsystem = subsystem, iv_Field = ch_Field c,
          iv_Before = ch_Before c, iv_After = ch_After c, iv_Identity = ch_Identity c,
          iv_Confidence = confidenceForSources sources, iv_Sources = sources\<rparr>)"

text \<open>The changes of a Sorna run that are findings and not evidence.\<close>

definition is_focused :: "Change \<Rightarrow> bool" where
  "is_focused c \<longleftrightarrow> has_prefix (ch_Category c) ''rules.'' \<or> ch_Category c = ''mutation''"

definition investigationEvidence :: "BundleComparison \<Rightarrow> InvestigationEvidenceChange list" where
  "investigationEvidence b =
     (case bn_CIResult b of None \<Rightarrow> []
      | Some c \<Rightarrow> map (evidence_of ''ci_result'' (as_Path (cm_Before c)) (as_Path (cm_After c))) (rt_Changes c)) @
     (case bn_SornaRun b of None \<Rightarrow> []
      | Some c \<Rightarrow> map (evidence_of ''sorna_run'' (srs_Path (sn_Before c)) (srs_Path (sn_After c)))
          (filter (\<lambda>x. \<not> is_focused x) (rt_Changes c))) @
     (case bn_NublarRun b of None \<Rightarrow> []
      | Some c \<Rightarrow> map (evidence_of ''nublar_run'' (ns_Path (nm_Before c)) (ns_Path (nm_After c))) (rt_Changes c)) @
     (case bn_Custody b of None \<Rightarrow> []
      | Some c \<Rightarrow> map (evidence_of ''custody'' (ls_Path (lm_Before c)) (ls_Path (lm_After c))) (rt_Changes c)) @
     (case bn_Provenance b of None \<Rightarrow> []
      | Some c \<Rightarrow> map (evidence_of ''provenance'' (ap_Path (am_Before c)) (ap_Path (am_After c))) (rt_Changes c))"

definition investigationEvidenceIDs :: "InvestigationEvidenceChange list \<Rightarrow> string \<Rightarrow> string list" where
  "investigationEvidenceIDs evidence subsystem =
     map iv_ID (filter (\<lambda>e. iv_Subsystem e = subsystem) evidence)"

definition rule_finding :: "string list \<Rightarrow> SornaRunComparison \<Rightarrow> SornaRuleStatusChange \<Rightarrow> InvestigationFinding" where
  "rule_finding related c x =
     (let sources = investigationSources ''sorna_run'' (''rules.'' @ rsc_RuleID x @ ''.status'')
            (srs_Path (sn_Before c)) (srs_Path (sn_After c))
      in \<lparr>if_ID = ''rule.'' @ rsc_RuleID x, if_Kind = ''rule-change'', if_Subject = rsc_RuleID x,
          if_Before = optionalString (rsc_Before x), if_After = optionalString (rsc_After x),
          if_Confidence = confidenceForSources sources, if_Sources = sources, if_RelatedEvidenceIDs = related\<rparr>)"

text \<open>The mutation of a Sorna run, when it is there on a side and the two sides differ.\<close>

definition sorna_mutation_finding ::
  "(Value \<Rightarrow> 'j option) \<Rightarrow> string list \<Rightarrow> SornaRunComparison \<Rightarrow> InvestigationFinding list" where
  "sorna_mutation_finding marshal related c =
     (let before = srs_Mutation (sn_Before c); after = srs_Mutation (sn_After c)
      in if before = None \<and> after = None \<or>
            valuesEqual marshal (mutationSummaryValue before) (mutationSummaryValue after) then []
         else
           (let subject = (if mutationSummaryID after = [] then mutationSummaryID before else mutationSummaryID after);
                field = ''mutation'' @ (if subject = [] then [] else CHR ''.'' # subject) @ ''.outcome'';
                sources = investigationSources ''sorna_run'' field (srs_Path (sn_Before c)) (srs_Path (sn_After c))
            in [\<lparr>if_ID = ''mutation.sorna_run.'' @ subject, if_Kind = ''mutation-change'', if_Subject = subject,
                 if_Before = mutationSummaryValue before, if_After = mutationSummaryValue after,
                 if_Confidence = confidenceForSources sources, if_Sources = sources,
                 if_RelatedEvidenceIDs = related\<rparr>]))"

definition campaign_finding :: "string list \<Rightarrow> Comparison \<Rightarrow> MutationOutcomeChange \<Rightarrow> InvestigationFinding" where
  "campaign_finding related c x =
     (let sources = investigationSources ''ci_result'' ''producer-report.report''
            (as_Path (cm_Before c)) (as_Path (cm_After c))
      in \<lparr>if_ID = ''mutation.ci_result.'' @ mo_MutationID x, if_Kind = ''mutation-change'', if_Subject = mo_MutationID x,
          if_Before = mutationStateValue (mo_Before x), if_After = mutationStateValue (mo_After x),
          if_Confidence = confidenceForSources sources, if_Sources = sources, if_RelatedEvidenceIDs = related\<rparr>)"

definition investigationFindings ::
  "(Value \<Rightarrow> 'j option) \<Rightarrow> BundleComparison \<Rightarrow> InvestigationEvidenceChange list \<Rightarrow> InvestigationFinding list" where
  "investigationFindings marshal b evidence =
     (case bn_SornaRun b of None \<Rightarrow> []
      | Some c \<Rightarrow>
          (let related = investigationEvidenceIDs evidence ''sorna_run''
           in map (rule_finding related c) (sn_ChangedRules c) @ sorna_mutation_finding marshal related c)) @
     (case bn_CIResult b of None \<Rightarrow> []
      | Some c \<Rightarrow>
          (case cm_MutationCampaign c of None \<Rightarrow> []
           | Some k \<Rightarrow> map (campaign_finding (investigationEvidenceIDs evidence ''ci_result'') c) (mk_ChangedMutations k)))"

definition isSornaMutationCampaign :: "Comparison \<Rightarrow> bool" where
  "isSornaMutationCampaign c \<longleftrightarrow>
     as_Tool (cm_Before c) = ''sorna'' \<and> as_Kind (cm_Before c) = ''mutation-campaign'' \<or>
     as_Tool (cm_After c) = ''sorna'' \<and> as_Kind (cm_After c) = ''mutation-campaign''"

definition investigationUnknowns :: "BundleComparison \<Rightarrow> InvestigationUnknown list" where
  "investigationUnknowns b =
     problem (bn_SornaRun b = None)
       \<lparr>iu_ID = ''missing-sorna-run'', iu_Subject = ''rule changes'',
        iu_Message = ''Sorna rule detail is unavailable because the bundle has no sorna_run comparison'',
        iu_Confidence = ConfidenceUnknown, iu_Sources = []\<rparr> @
     (case bn_CIResult b of
        None \<Rightarrow>
          [\<lparr>iu_ID = ''missing-ci-result'', iu_Subject = ''mutation campaign changes'',
            iu_Message = ''CI mutation campaign detail is unavailable because the bundle has no ci_result comparison'',
            iu_Confidence = ConfidenceUnknown, iu_Sources = []\<rparr>]
      | Some c \<Rightarrow>
          problem (isSornaMutationCampaign c \<and> cm_MutationCampaign c = None)
            \<lparr>iu_ID = ''missing-mutation-campaign-detail'', iu_Subject = ''mutation campaign changes'',
             iu_Message = ''Sorna mutation campaign detail is unavailable at the CI producer-report boundary'',
             iu_Confidence = ConfidenceUnknown,
             iu_Sources = investigationSources ''ci_result'' ''producer-report.report''
               (as_Path (cm_Before c)) (as_Path (cm_After c))\<rparr>)"

definition NewInvestigationReport :: "(Value \<Rightarrow> 'j option) \<Rightarrow> BundleComparison \<Rightarrow> InvestigationReport" where
  "NewInvestigationReport marshal b =
     (let evidence = investigationEvidence b
      in \<lparr>ir_Schema = InvestigationSchema, ir_Manifest = bn_Manifest b,
          ir_Compatible = bs_Compatible (SummarizeBundle b), ir_ChangeIDFilter = bn_ChangeIDFilter b,
          ir_Notice = investigationNotice,
          ir_Findings = sort_key if_Kind (sort_key if_ID (investigationFindings marshal b evidence)),
          ir_Evidence = sort_key iv_ID evidence, ir_Unknowns = sort_key iu_ID (investigationUnknowns b)\<rparr>)"

section \<open>Validation\<close>

definition isInvestigationSubsystem :: "string \<Rightarrow> bool" where
  "isInvestigationSubsystem s \<longleftrightarrow> s \<in> set subsystem_names"

definition validateInvestigationSource :: "InvestigationSourceRef \<Rightarrow> message option" where
  "validateInvestigationSource s =
     first_some
       [fail_if (\<not> isInvestigationSubsystem (is_Subsystem s))
          [T ''source subsystem '', Q (is_Subsystem s), T '' is unsupported''],
        fail_if (is_Side s \<noteq> ''before'' \<and> is_Side s \<noteq> ''after'')
          [T ''source side '', Q (is_Side s), T '' is unsupported''],
        fail_if (blank (is_Field s)) [T ''source field cannot be empty''],
        fail_if (is_Path s \<noteq> [] \<and> blank (is_Path s)) [T ''source path cannot be empty when present'']]"

definition indexed_problem :: "string \<Rightarrow> ('a \<Rightarrow> message option) \<Rightarrow> nat \<times> 'a \<Rightarrow> message option" where
  "indexed_problem what f x = wrap_err (\<lambda>err. [T what, D (int (fst x)), T '': ''] @ err) (f (snd x))"

definition validateInvestigationSources :: "InvestigationSourceRef list \<Rightarrow> bool \<Rightarrow> message option" where
  "validateInvestigationSources sources required =
     first_some
       [fail_if (required \<and> sources = []) [T ''sources are required''],
        first_error (indexed_problem ''source '' validateInvestigationSource) (enumerate 0 sources)]"

definition validateInvestigationConfidence :: "string \<Rightarrow> message option" where
  "validateInvestigationConfidence c =
     fail_if (c \<notin> {ConfidenceDirect, ConfidencePartial, ConfidenceUnknown})
       [T ''investigation confidence '', Q c, T '' is unsupported'']"

definition validateInvestigationStringList :: "string list \<Rightarrow> string \<Rightarrow> message option" where
  "validateInvestigationStringList values name =
     first_error (\<lambda>v. fail_if (blank v) [T name, T '' cannot contain an empty value'']) values"

definition InvestigationFinding_Validate :: "InvestigationFinding \<Rightarrow> message option" where
  "InvestigationFinding_Validate f =
     first_some
       [fail_if (blank (if_ID f) \<or> blank (if_Subject f)) [T ''finding needs an ID and subject''],
        fail_if (if_Kind f \<noteq> ''rule-change'' \<and> if_Kind f \<noteq> ''mutation-change'')
          [T ''finding kind '', Q (if_Kind f), T '' is unsupported''],
        validateInvestigationConfidence (if_Confidence f),
        validateInvestigationSources (if_Sources f) True,
        validateInvestigationStringList (if_RelatedEvidenceIDs f) ''finding related evidence IDs'']"

definition InvestigationEvidence_Validate :: "InvestigationEvidenceChange \<Rightarrow> message option" where
  "InvestigationEvidence_Validate e =
     first_some
       [fail_if (blank (iv_ID e) \<or> blank (iv_Field e)) [T ''evidence needs an ID and field''],
        fail_if (\<not> isInvestigationSubsystem (iv_Subsystem e))
          [T ''evidence subsystem '', Q (iv_Subsystem e), T '' is unsupported''],
        validateInvestigationConfidence (iv_Confidence e),
        fail_if (\<not> known_identity (iv_Identity e))
          [T ''evidence identity '', Q (iv_Identity e), T '' is unsupported''],
        validateInvestigationSources (iv_Sources e) True]"

definition InvestigationUnknown_Validate :: "InvestigationUnknown \<Rightarrow> message option" where
  "InvestigationUnknown_Validate u =
     first_some
       [fail_if (blank (iu_ID u) \<or> blank (iu_Subject u) \<or> blank (iu_Message u))
          [T ''unknown needs an ID, subject, and message''],
        validateInvestigationConfidence (iu_Confidence u),
        validateInvestigationSources (iu_Sources u) False]"

text \<open>The three loops that check the elements of a list and the distinctness of their identifiers.\<close>

fun items_problem :: "string \<Rightarrow> ('a \<Rightarrow> message option) \<Rightarrow> ('a \<Rightarrow> string) \<Rightarrow> nat \<Rightarrow> string list \<Rightarrow> 'a list \<Rightarrow> message option" where
  "items_problem what check ident i seen [] = None"
| "items_problem what check ident i seen (x # xs) =
     first_some
       [wrap_err (\<lambda>err. [T (''investigation '' @ what @ '' ''), D (int i), T '': ''] @ err) (check x),
        fail_if (ident x \<in> set seen) [T (''investigation '' @ what @ '' ID ''), Q (ident x), T '' is duplicated''],
        items_problem what check ident (Suc i) (ident x # seen) xs]"

definition related_problem :: "string list \<Rightarrow> nat \<times> InvestigationFinding \<Rightarrow> message option" where
  "related_problem evidenceIDs x =
     first_error (\<lambda>i. first_some
       [fail_if (i \<notin> set evidenceIDs)
          [T ''investigation finding '', Q (if_ID (snd x)), T '' related evidence ID '', Q i, T '' is missing''],
        fail_if (blank i)
          [T ''investigation finding '', D (int (fst x)), T '' related evidence ID cannot be empty'']])
       (if_RelatedEvidenceIDs (snd x))"

definition InvestigationReport_Validate :: "InvestigationReport \<Rightarrow> message option" where
  "InvestigationReport_Validate r =
     first_some
       [fail_if (ir_Schema r \<noteq> InvestigationSchema)
          [T ''investigation schema must be '', T InvestigationSchema, T '', got '', Q (ir_Schema r)],
        fail_if (ir_Manifest r \<noteq> [] \<and> blank (ir_Manifest r))
          [T ''investigation manifest cannot be empty when present''],
        fail_if (ir_Notice r \<noteq> investigationNotice)
          [T ''investigation notice must preserve the neutral interpretation notice''],
        validateInvestigationStringList (ir_ChangeIDFilter r) ''investigation change ID filter'',
        items_problem ''finding'' InvestigationFinding_Validate if_ID 0 [] (ir_Findings r),
        items_problem ''evidence'' InvestigationEvidence_Validate iv_ID 0 [] (ir_Evidence r),
        items_problem ''unknown'' InvestigationUnknown_Validate iu_ID 0 [] (ir_Unknowns r),
        first_error (related_problem (map iv_ID (ir_Evidence r))) (enumerate 0 (ir_Findings r))]"

definition WriteInvestigationJSON ::
  "(InvestigationReport \<Rightarrow> message + string) \<Rightarrow> InvestigationReport \<Rightarrow> message + string" where
  "WriteInvestigationJSON = WriteValidated InvestigationReport_Validate"

end
