(* ===== verification/SattlerQuery.thy ===== *)
theory SattlerQuery
  imports SattlerInvestigation
begin

text \<open>
  sattler/query.go: the search of a history for one rule, mutation, contract, provider or workflow,
  and the validation of its report.  A selector of another kind is refused before anything is read.
\<close>

section \<open>Data\<close>

abbreviation SeriesQuerySchema :: string where "SeriesQuerySchema \<equiv> ''ingen.sattler-series-query/v0''"

record SeriesQuerySelector =
  qs_Kind :: string
  qs_Value :: string

record SeriesQuerySummary =
  qy_Points :: int
  qy_Matches :: int

record SeriesQueryMatch =
  qm_Subsystem :: string
  qm_Side :: string
  qm_Field :: string
  qm_Value :: string
  qm_Source :: InvestigationSourceRef

record SeriesQueryPoint =
  qp_Point :: SeriesPoint
  qp_Matches :: "SeriesQueryMatch list"

record SeriesQueryReport =
  qr_Schema :: string
  qr_Manifest :: string
  qr_Query :: SeriesQuerySelector
  qr_Summary :: SeriesQuerySummary
  qr_Entries :: "SeriesQueryPoint list"

definition SeriesQuerySelector_Validate :: "SeriesQuerySelector \<Rightarrow> message option" where
  "SeriesQuerySelector_Validate q =
     first_some
       [fail_if (blank (qs_Value q)) [T ''series query value is required''],
        fail_if (qs_Kind q \<notin> {''rule'', ''mutation'', ''contract'', ''provider'', ''workflow''})
          [T ''series query kind '', Q (qs_Kind q), T '' is unsupported'']]"

section \<open>Matches\<close>

text \<open>The closures \<open>add\<close> and \<open>addFileRef\<close>.\<close>

definition add_match :: "string \<Rightarrow> string \<Rightarrow> string \<Rightarrow> string \<Rightarrow> string \<Rightarrow> SeriesQueryMatch list" where
  "add_match subsystem side field value path =
     (if blank value then []
      else [\<lparr>qm_Subsystem = subsystem, qm_Side = side, qm_Field = field, qm_Value = value,
             qm_Source = \<lparr>is_Subsystem = subsystem, is_Side = side, is_Path = path, is_Field = field\<rparr>\<rparr>])"

definition add_file_ref ::
  "SeriesQuerySelector \<Rightarrow> string \<Rightarrow> string \<Rightarrow> string \<Rightarrow> string \<Rightarrow> string \<Rightarrow> SeriesQueryMatch list" where
  "add_file_ref q subsystem side field path sha256 =
     (if qs_Value q \<noteq> path \<and> qs_Value q \<noteq> sha256 then []
      else add_match subsystem side field (if path = [] then sha256 else path) path)"

definition add_input :: "SeriesQuerySelector \<Rightarrow> string \<Rightarrow> string \<Rightarrow> (string, FileRef) gomap \<Rightarrow> SeriesQueryMatch list" where
  "add_input q side name inputs =
     (case map_of inputs name of
        None \<Rightarrow> []
      | Some ref \<Rightarrow> add_file_ref q ''ci_result'' side (''inputs.'' @ name) (fr_Path ref) (fr_SHA256 ref))"

definition mutationStateValueString :: "MutationState option \<Rightarrow> string" where
  "mutationStateValueString s =
     (case s of None \<Rightarrow> [] | Some x \<Rightarrow> if ms_Outcome x \<noteq> [] then ms_Outcome x else ms_Status x)"

definition rule_matches :: "SeriesQuerySelector \<Rightarrow> SornaRunComparison \<Rightarrow> SeriesQueryMatch list" where
  "rule_matches q c =
     concat (map (\<lambda>r. if rsc_RuleID r \<noteq> qs_Value q then []
       else add_match ''sorna_run'' ''before'' (''rules.'' @ rsc_RuleID r @ ''.status'') (rsc_Before r) (srs_Path (sn_Before c)) @
            add_match ''sorna_run'' ''after'' (''rules.'' @ rsc_RuleID r @ ''.status'') (rsc_After r) (srs_Path (sn_After c)))
       (sn_ChangedRules c))"

definition run_mutation_matches :: "SeriesQuerySelector \<Rightarrow> string \<Rightarrow> SornaRunSummary \<Rightarrow> SeriesQueryMatch list" where
  "run_mutation_matches q side s =
     (case srs_Mutation s of
        None \<Rightarrow> []
      | Some m \<Rightarrow> if smu_ID m = qs_Value q
          then add_match ''sorna_run'' side (''mutation.'' @ smu_ID m @ ''.outcome'') (smu_Outcome m) (srs_Path s) else [])"

definition state_match :: "string \<Rightarrow> MutationState option \<Rightarrow> string \<Rightarrow> SeriesQueryMatch list" where
  "state_match side s path =
     (if s = None then [] else add_match ''ci_result'' side ''producer-report.report'' (mutationStateValueString s) path)"

definition campaign_matches :: "SeriesQuerySelector \<Rightarrow> Comparison \<Rightarrow> SeriesQueryMatch list" where
  "campaign_matches q c =
     (case cm_MutationCampaign c of
        None \<Rightarrow> []
      | Some k \<Rightarrow> concat (map (\<lambda>x. if mo_MutationID x \<noteq> qs_Value q then []
          else state_match ''before'' (mo_Before x) (as_Path (cm_Before c)) @
               state_match ''after'' (mo_After x) (as_Path (cm_After c)))
          (mk_ChangedMutations k)))"

definition input_matches :: "SeriesQuerySelector \<Rightarrow> string \<Rightarrow> Comparison \<Rightarrow> SeriesQueryMatch list" where
  "input_matches q name c =
     add_input q ''before'' name (as_Inputs (cm_Before c)) @ add_input q ''after'' name (as_Inputs (cm_After c))"

definition contract_matches :: "SeriesQuerySelector \<Rightarrow> string \<Rightarrow> SornaRunSummary \<Rightarrow> SeriesQueryMatch list" where
  "contract_matches q side s =
     (let c = srs_Contract s; named = sc_ID c @ ''@'' @ dec_string (sc_Version c)
      in if qs_Value q \<noteq> sc_ID c \<and> qs_Value q \<noteq> sc_SHA256 c \<and> qs_Value q \<noteq> named then []
         else add_match ''sorna_run'' side ''contract'' named (srs_Path s))"

definition workflow_matches :: "SeriesQuerySelector \<Rightarrow> string \<Rightarrow> NublarRunSummary \<Rightarrow> SeriesQueryMatch list" where
  "workflow_matches q side s =
     (let f = ns_WorkflowFile s
      in (if qs_Value q = ns_WorkflowID s
          then add_match ''nublar_run'' side ''workflow.id'' (ns_WorkflowID s) (ns_Path s) else []) @
         (if qs_Value q = fr_Path f \<or> qs_Value q = fr_SHA256 f
          then add_match ''nublar_run'' side ''workflow.file'' (if fr_Path f = [] then fr_SHA256 f else fr_Path f) (ns_Path s)
          else []))"

definition found_matches :: "BundleComparison \<Rightarrow> SeriesQuerySelector \<Rightarrow> SeriesQueryMatch list" where
  "found_matches b q =
     (if qs_Kind q = ''rule'' then (case bn_SornaRun b of None \<Rightarrow> [] | Some c \<Rightarrow> rule_matches q c)
      else if qs_Kind q = ''mutation''
      then (case bn_SornaRun b of None \<Rightarrow> []
            | Some c \<Rightarrow> run_mutation_matches q ''before'' (sn_Before c) @ run_mutation_matches q ''after'' (sn_After c)) @
           (case bn_CIResult b of None \<Rightarrow> [] | Some c \<Rightarrow> campaign_matches q c)
      else if qs_Kind q = ''contract''
      then (case bn_CIResult b of None \<Rightarrow> [] | Some c \<Rightarrow> input_matches q ''contract'' c) @
           (case bn_SornaRun b of None \<Rightarrow> []
            | Some c \<Rightarrow> contract_matches q ''before'' (sn_Before c) @ contract_matches q ''after'' (sn_After c))
      else if qs_Kind q = ''provider'' then (case bn_CIResult b of None \<Rightarrow> [] | Some c \<Rightarrow> input_matches q ''provider'' c)
      else if qs_Kind q = ''workflow''
      then (case bn_NublarRun b of None \<Rightarrow> []
            | Some c \<Rightarrow> workflow_matches q ''before'' (nm_Before c) @ workflow_matches q ''after'' (nm_After c))
      else [])"

definition matchSeriesQuery :: "BundleComparison \<Rightarrow> SeriesQuerySelector \<Rightarrow> SeriesQueryMatch list" where
  "matchSeriesQuery b q =
     sort_key qm_Subsystem (sort_key qm_Side (sort_key qm_Field (sort_key qm_Value (found_matches b q))))"

section \<open>The query\<close>

fun query_loop ::
  "'j Sources \<Rightarrow> SeriesQuerySelector \<Rightarrow> string \<Rightarrow> nat \<Rightarrow> nat \<Rightarrow> SeriesQueryReport \<Rightarrow> ComparisonSeriesEntry list
   \<Rightarrow> SattlerError + SeriesQueryReport" where
  "query_loop w q root n index r [] = Inr r"
| "query_loop w q root n index r (e # es) =
     (case CompareBundleFile w (resolveManifestPath root (se_Manifest e)) of
        Inl err \<Rightarrow> Inl (Wrapped [T ''query series entry '', T (se_ID e), T '': ''] err)
      | Inr bundle \<Rightarrow>
          (let matches = matchSeriesQuery bundle q
           in if matches = [] then query_loop w q root n (Suc index) r es
              else query_loop w q root n (Suc index)
                (r\<lparr>qr_Entries := qr_Entries r @
                     [\<lparr>qp_Point = newSeriesPoint e bundle (Suc index = n), qp_Matches = matches\<rparr>],
                   qr_Summary := \<lparr>qy_Points = qy_Points (qr_Summary r) + 1,
                     qy_Matches = qy_Matches (qr_Summary r) + int (length matches)\<rparr>\<rparr>) es))"

definition QuerySeriesManifestFile ::
  "'j Sources \<Rightarrow> (string \<Rightarrow> message + ComparisonSeriesManifest) \<Rightarrow> string \<Rightarrow> SeriesQuerySelector
   \<Rightarrow> SattlerError + SeriesQueryReport" where
  "QuerySeriesManifestFile w decode seriesPath q =
     (case SeriesQuerySelector_Validate q of
        Some err \<Rightarrow> Inl (Failed err)
      | None \<Rightarrow>
          (case loadComparisonSeriesManifest (w_read w) decode seriesPath of
             Inl err \<Rightarrow> Inl err
           | Inr m \<Rightarrow>
               query_loop w q (Dir seriesPath) (length (sf_Entries m)) 0
                 \<lparr>qr_Schema = SeriesQuerySchema, qr_Manifest = seriesPath, qr_Query = q,
                  qr_Summary = \<lparr>qy_Points = 0, qy_Matches = 0\<rparr>, qr_Entries = []\<rparr> (sf_Entries m)))"

section \<open>Validation\<close>

definition SeriesQueryMatch_Validate :: "SeriesQueryMatch \<Rightarrow> message option" where
  "SeriesQueryMatch_Validate m =
     first_some
       [fail_if (\<not> isInvestigationSubsystem (qm_Subsystem m))
          [T ''query match subsystem '', Q (qm_Subsystem m), T '' is unsupported''],
        fail_if (qm_Side m \<noteq> ''before'' \<and> qm_Side m \<noteq> ''after'')
          [T ''query match side '', Q (qm_Side m), T '' is unsupported''],
        fail_if (blank (qm_Field m) \<or> blank (qm_Value m)) [T ''query match needs a field and value''],
        wrap_err (\<lambda>err. T ''query match source: '' # err) (validateInvestigationSource (qm_Source m)),
        fail_if (is_Subsystem (qm_Source m) \<noteq> qm_Subsystem m \<or> is_Side (qm_Source m) \<noteq> qm_Side m \<or>
            is_Field (qm_Source m) \<noteq> qm_Field m)
          [T ''query match source must identify the same subsystem, side, and field'']]"

definition SeriesQueryPoint_Validate :: "SeriesQueryPoint \<Rightarrow> message + int" where
  "SeriesQueryPoint_Validate p =
     (case first_some
        [wrap_err (\<lambda>err. T ''query point: '' # err) (validateSeriesPoint (qp_Point p) False),
         fail_if (qp_Matches p = []) [T ''query point needs at least one match''],
         first_error (indexed_problem ''query match '' SeriesQueryMatch_Validate) (enumerate 0 (qp_Matches p))] of
        Some err \<Rightarrow> Inl err
      | None \<Rightarrow> Inr (int (length (qp_Matches p))))"

definition SeriesQuerySummary_Validate :: "SeriesQuerySummary \<Rightarrow> int \<Rightarrow> int \<Rightarrow> message option" where
  "SeriesQuerySummary_Validate s entryCount matchCount =
     first_some
       [fail_if (qy_Points s < 0 \<or> qy_Matches s < 0) [T ''series query summary counts must not be negative''],
        fail_if (qy_Points s \<noteq> entryCount \<or> qy_Matches s \<noteq> matchCount)
          [T ''series query summary counts must match emitted entries and matches'']]"

text \<open>The loop over the entries: the number of latest points and of matches so far, or an error.\<close>

fun query_entries ::
  "nat \<Rightarrow> string list \<Rightarrow> int \<Rightarrow> int \<Rightarrow> SeriesQueryPoint list \<Rightarrow> message + int \<times> int" where
  "query_entries i seen latest count [] = Inr (latest, count)"
| "query_entries i seen latest count (p # ps) =
     (case SeriesQueryPoint_Validate p of
        Inl err \<Rightarrow> Inl ([T ''series query entry '', D (int i), T '': ''] @ err)
      | Inr c \<Rightarrow>
          if sp_ID (qp_Point p) \<in> set seen
          then Inl [T ''series query point ID '', Q (sp_ID (qp_Point p)), T '' is duplicated'']
          else query_entries (Suc i) (sp_ID (qp_Point p) # seen)
                 (latest + (if sp_Latest (qp_Point p) then 1 else 0)) (count + c) ps)"

definition SeriesQueryReport_Validate :: "SeriesQueryReport \<Rightarrow> message option" where
  "SeriesQueryReport_Validate r =
     first_some
       [fail_if (qr_Schema r \<noteq> SeriesQuerySchema)
          [T ''series query schema must be '', T SeriesQuerySchema, T '', got '', Q (qr_Schema r)],
        fail_if (qr_Manifest r \<noteq> [] \<and> blank (qr_Manifest r))
          [T ''series query manifest cannot be empty when present''],
        wrap_err (\<lambda>err. T ''series query: '' # err) (SeriesQuerySelector_Validate (qr_Query r)),
        (case query_entries 0 [] 0 0 (qr_Entries r) of
           Inl err \<Rightarrow> Some err
         | Inr (latest, count) \<Rightarrow>
             first_some
               [fail_if (latest > 1) [T ''series query can contain at most one latest point''],
                wrap_err (\<lambda>err. T ''series query: '' # err)
                  (SeriesQuerySummary_Validate (qr_Summary r) (int (length (qr_Entries r))) count)])]"

definition WriteSeriesQueryJSON :: "(SeriesQueryReport \<Rightarrow> message + string) \<Rightarrow> SeriesQueryReport \<Rightarrow> message + string" where
  "WriteSeriesQueryJSON = WriteValidated SeriesQueryReport_Validate"

section \<open>What a match is\<close>

definition match_built :: "SeriesQueryMatch \<Rightarrow> bool" where
  "match_built m \<longleftrightarrow>
     isInvestigationSubsystem (qm_Subsystem m) \<and> (qm_Side m = ''before'' \<or> qm_Side m = ''after'') \<and>
     \<not> blank (qm_Field m) \<and> \<not> blank (qm_Value m) \<and> is_Subsystem (qm_Source m) = qm_Subsystem m \<and>
     is_Side (qm_Source m) = qm_Side m \<and> is_Field (qm_Source m) = qm_Field m"

lemma match_built_iff:
  "match_built m \<Longrightarrow> SeriesQueryMatch_Validate m = None \<longleftrightarrow> present_not_blank (is_Path (qm_Source m))"
  unfolding SeriesQueryMatch_Validate_def validateInvestigationSource_def match_built_def
    first_some_Cons_None first_some_Nil_None fail_if_None wrap_err_None
  by (auto simp: present_not_blank_def)

lemma add_match_built:
  assumes "m \<in> set (add_match subsystem side field value path)" and "subsystem \<in> set subsystem_names"
    and "side = ''before'' \<or> side = ''after''" and "\<not> blank field"
  shows "match_built m"
  using assms by (auto simp: add_match_def match_built_def isInvestigationSubsystem_def split: if_splits)

definition all_built :: "SeriesQueryMatch list \<Rightarrow> bool" where
  "all_built ms \<longleftrightarrow> (\<forall>m \<in> set ms. match_built m)"

lemma all_built_simps [simp]:
  "all_built []" "all_built (xs @ ys) \<longleftrightarrow> all_built xs \<and> all_built ys"
  by (auto simp: all_built_def)

lemma all_built_concat_map: "(\<And>y. all_built (f y)) \<Longrightarrow> all_built (concat (map f ys))"
  by (induction ys) simp_all

lemma all_built_if: "all_built a \<Longrightarrow> all_built b \<Longrightarrow> all_built (if P then a else b)"
  by simp

lemma all_built_case: "all_built a \<Longrightarrow> (\<And>y. all_built (f y)) \<Longrightarrow> all_built (case x of None \<Rightarrow> a | Some y \<Rightarrow> f y)"
  by (cases x) simp_all

lemma all_built_append: "all_built a \<Longrightarrow> all_built b \<Longrightarrow> all_built (a @ b)"
  by simp

lemma all_built_add:
  "subsystem \<in> set subsystem_names \<Longrightarrow> side = ''before'' \<or> side = ''after'' \<Longrightarrow> \<not> blank field \<Longrightarrow>
     all_built (add_match subsystem side field value path)"
  unfolding all_built_def using add_match_built by blast

lemma field_not_blank:
  "\<not> blank (''rules.'' @ x)" "\<not> blank (''mutation.'' @ x)" "\<not> blank ''producer-report.report''"
  "\<not> blank (''inputs.'' @ x)" "\<not> blank ''contract''" "\<not> blank ''workflow.id''" "\<not> blank ''workflow.file''"
  by (simp_all add: plain_head_not_blank plain_byte_def byte_def)

lemma names_known: "''ci_result'' \<in> set subsystem_names" "''sorna_run'' \<in> set subsystem_names"
  "''nublar_run'' \<in> set subsystem_names"
  by simp_all

lemma sides: "''before'' = ''before'' \<or> ''before'' = ''after''" "''after'' = ''before'' \<or> ''after'' = ''after''"
  by simp_all

lemmas built_rules = all_built_concat_map all_built_if all_built_case all_built_append all_built_simps(1)
  all_built_add names_known field_not_blank

lemma rule_built: "all_built (rule_matches q c)"
  unfolding rule_matches_def by (intro built_rules sides)

lemma side_built:
  assumes side: "side = ''before'' \<or> side = ''after''"
  shows "all_built (run_mutation_matches q side s)" "all_built (state_match side st path)"
    "all_built (add_input q side name inputs)" "all_built (contract_matches q side s)"
    "all_built (workflow_matches q side n)"
  unfolding run_mutation_matches_def state_match_def add_input_def add_file_ref_def contract_matches_def
    workflow_matches_def Let_def
  by (intro built_rules side)+

lemma campaign_built: "all_built (campaign_matches q c)"
  unfolding campaign_matches_def by (intro built_rules side_built sides)

lemma input_built: "all_built (input_matches q name c)"
  unfolding input_matches_def by (intro built_rules side_built sides)

lemma found_built: "m \<in> set (found_matches b q) \<Longrightarrow> match_built m"
proof -
  have "all_built (found_matches b q)"
    unfolding found_matches_def by (intro built_rules rule_built campaign_built input_built side_built sides)
  then show "m \<in> set (found_matches b q) \<Longrightarrow> match_built m" by (simp add: all_built_def)
qed

lemma matches_set [simp]: "set (matchSeriesQuery b q) = set (found_matches b q)"
  by (simp add: matchSeriesQuery_def)

end
