(* ===== verification/SattlerProps.thy ===== *)
theory SattlerProps
  imports SattlerSeries
begin

text \<open>
  What the comparisons of Sattler are for: what a comparison reports, what a filter keeps, when a
  report that was computed is also written, and what the totals of a bundle and of a history of
  bundles count.
\<close>

section \<open>Comparing two CI envelopes\<close>

lemma Compare_transition_ok:
  "ci_Status b \<noteq> [] \<Longrightarrow> ci_Status a \<noteq> [] \<Longrightarrow> transition_ok (Compare marshal reencode hex_sha dec b a)"
  by simp

text \<open>The comparison of two envelopes the loader accepts passes the validation of the writer,
  before and after any filter, so a comparison is never refused on its way out.\<close>

theorem comparison_validates:
  assumes "Artifact_Validate valid_json b = None" "Artifact_Validate valid_json a = None"
    and "inputs_fit b" "inputs_fit a"
  shows "Comparison_Validate (Compare marshal reencode hex_sha dec b a) = None \<and>
    Comparison_Validate (FilterComparisonChanges (Compare marshal reencode hex_sha dec b a) ids) = None"
proof -
  let ?r = "Compare marshal reencode hex_sha dec b a"
  have wf: "report_wf ComparisonSchema ?r" by (rule Compare_report_wf[OF assms(3,4)])
  have t: "transition_ok ?r"
    by (rule Compare_transition_ok[OF artifact_status[OF assms(1)] artifact_status[OF assms(2)]])
  have v: "Comparison_Validate ?r = None"
    using Comparison_Validate_wf[OF wf] summary_valid[OF assms(1)] summary_valid[OF assms(2)] t by simp
  moreover have "Comparison_Validate (FilterComparisonChanges ?r ids) = None"
    using Comparison_Validate_wf[OF filter_report_wf[OF wf, of ids]] v Comparison_Validate_wf[OF wf]
    unfolding FilterComparisonChanges_def by simp
  ultimately show ?thesis by blast
qed

lemma fileRefValue_inj: "fileRefValue x = fileRefValue y \<longleftrightarrow> x = y"
  by (cases x; cases y) (simp_all add: fileRefValue_def)

lemma observed_id_iff:
  assumes "faithful marshal" and "distinct (map ob_id obs)" and "ob \<in> set obs"
  shows "ob_id ob \<in> ch_ID ` set (observe_all marshal obs) \<longleftrightarrow> fst (snd (snd ob)) \<noteq> fst (snd (snd (snd ob)))"
proof -
  have "ob_id ob \<in> ch_ID ` set (observe_all marshal obs) \<longleftrightarrow> observe marshal ob \<noteq> []"
  proof
    assume "ob_id ob \<in> ch_ID ` set (observe_all marshal obs)"
    then obtain ob' where ob': "ob' \<in> set obs" "observe marshal ob' \<noteq> []" "ob_id ob' = ob_id ob"
      unfolding observe_all_def using observe_id by fastforce
    then have "ob' = ob" using assms(2,3) by (auto simp: distinct_map inj_on_def)
    with ob' show "observe marshal ob \<noteq> []" by simp
  next
    assume "observe marshal ob \<noteq> []"
    with observe_ids[of marshal ob] obtain c where "observe marshal ob = [c]" "ch_ID c = ob_id ob" by blast
    with assms(3) show "ob_id ob \<in> ch_ID ` set (observe_all marshal obs)" unfolding observe_all_def by force
  qed
  also have "\<dots> \<longleftrightarrow> fst (snd (snd ob)) \<noteq> fst (snd (snd (snd ob)))"
    using assms(1) by (cases ob) (simp add: observe_def valuesEqual_faithful)
  finally show ?thesis .
qed

lemma map_of_agree:
  "(\<forall>n \<in> fst ` set xs \<union> fst ` set ys. map_of xs n = map_of ys n) \<longleftrightarrow> map_of xs = map_of ys" (is "?l \<longleftrightarrow> ?r")
proof
  assume l: ?l
  show ?r
  proof
    fix n
    show "map_of xs n = map_of ys n"
    proof (cases "n \<in> fst ` set xs \<union> fst ` set ys")
      case False
      then have "map_of xs n = None" "map_of ys n = None" by (simp_all add: map_of_eq_None_iff)
      then show ?thesis by simp
    qed (use l in blast)
  qed
qed simp

definition reported :: "Comparison \<Rightarrow> string \<Rightarrow> bool" where
  "reported r i \<longleftrightarrow> i \<in> set (map ch_ID (rt_Changes r))"

lemma input_reported:
  assumes "faithful marshal"
  shows "reported (Compare marshal reencode hex_sha dec b a) (StableChangeID (inputChangeCategory n) (''inputs.'' @ n)) \<longleftrightarrow>
    map_of (ci_Inputs b) n \<noteq> map_of (ci_Inputs a) n"
proof -
  let ?obs = "compare_obs reencode hex_sha b a" and ?ob = "input_obs (ci_Inputs b) (ci_Inputs a) n"
  let ?keys = "union_keys (ci_Inputs b) (ci_Inputs a)"
  have d: "distinct (map ob_id ?obs)" using compare_obs_wf by (simp add: obs_wf_def)
  have "reported (Compare marshal reencode hex_sha dec b a) (ob_id ?ob) \<longleftrightarrow> map_of (ci_Inputs b) n \<noteq> map_of (ci_Inputs a) n"
  proof (cases "n \<in> set ?keys")
    case True
    then have "?ob \<in> set ?obs" by (simp add: compare_obs_def)
    from observed_id_iff[OF assms d this] show ?thesis
      by (simp add: reported_def input_obs_def file_obs_def fileRefValue_inj)
  next
    case False
    have "ob_id ?ob \<notin> ob_id ` set ?obs"
      using input_id_fresh[of "ci_Inputs b" "ci_Inputs a" n b a reencode hex_sha] False
      unfolding compare_obs_def by (auto simp: input_id_inj simp del: union_keys_set)
    then have "\<not> reported (Compare marshal reencode hex_sha dec b a) (ob_id ?ob)"
      using observe_all_ids[of marshal ?obs] by (auto simp: reported_def)
    moreover have "map_of (ci_Inputs b) n = None" "map_of (ci_Inputs a) n = None"
      using False by (simp_all add: map_of_eq_None_iff)
    ultimately show ?thesis by simp
  qed
  then show ?thesis unfolding input_id .
qed

lemma nothing_reported:
  assumes "faithful marshal"
  shows "observe_all marshal (compare_obs reencode hex_sha b a) = [] \<longleftrightarrow>
       ci_Tool b = ci_Tool a \<and> ci_Kind b = ci_Kind a \<and> src_Root (ci_Source b) = src_Root (ci_Source a) \<and>
       src_ModulePath (ci_Source b) = src_ModulePath (ci_Source a) \<and> ci_Status b = ci_Status a \<and>
       ci_ExitCode b = ci_ExitCode a \<and> ci_Policy b = ci_Policy a \<and> ci_PolicyLock b = ci_PolicyLock a \<and>
       ci_Graph b = ci_Graph a \<and> ci_Baseline b = ci_Baseline a \<and> map_of (ci_Inputs b) = map_of (ci_Inputs a) \<and>
       jsonFingerprint reencode hex_sha (ci_Report b) = jsonFingerprint reencode hex_sha (ci_Report a) \<and>
       jsonFingerprint reencode hex_sha (ci_Explanation b) = jsonFingerprint reencode hex_sha (ci_Explanation a)"
    (is "_ \<longleftrightarrow> ?r")
proof -
  let ?same = "\<lambda>ob :: observation. fst (snd (snd ob)) = fst (snd (snd (snd ob)))"
  let ?keys = "union_keys (ci_Inputs b) (ci_Inputs a)"
  have inputs: "(\<forall>n \<in> set ?keys. map_of (ci_Inputs b) n = map_of (ci_Inputs a) n) \<longleftrightarrow>
      map_of (ci_Inputs b) = map_of (ci_Inputs a)"
    unfolding union_keys_set by (rule map_of_agree)
  have "observe_all marshal (compare_obs reencode hex_sha b a) = [] \<longleftrightarrow>
      (\<forall>ob \<in> set (compare_obs reencode hex_sha b a). ?same ob)"
    unfolding observe_all_Nil[OF assms] by (simp add: case_prod_beta)
  then have "observe_all marshal (compare_obs reencode hex_sha b a) = [] \<longleftrightarrow>
      (\<forall>ob \<in> set (envelope_obs b a) \<union> set (report_obs reencode hex_sha b a). ?same ob) \<and>
      map_of (ci_Inputs b) = map_of (ci_Inputs a)"
    unfolding inputs[symmetric] compare_obs_def
    by (auto simp: input_obs_def file_obs_def fileRefValue_inj ball_Un)
  then show ?thesis
    by (simp add: envelope_obs_def report_obs_def file_obs_def fileRefValue_inj ball_Un conj_ac)
qed

text \<open>With an encoder that keeps different values apart, a comparison reports each of its
  fields at most once; an input is reported exactly when its reference differs, and nothing is
  reported exactly when the two envelopes agree in everything that is compared.\<close>

theorem comparison_reports_differences:
  fixes marshal :: "Value \<Rightarrow> 'j option" and reencode hex_sha dec b a
  assumes "faithful marshal"
  defines "r \<equiv> Compare marshal reencode hex_sha dec b a"
  shows "distinct (map ch_ID (rt_Changes r)) \<and>
    (\<forall>name. reported r (StableChangeID (inputChangeCategory name) (''inputs.'' @ name)) \<longleftrightarrow>
       map_of (ci_Inputs b) name \<noteq> map_of (ci_Inputs a) name) \<and>
    (reported r ''verdict.status'' \<longleftrightarrow> ci_Status b \<noteq> ci_Status a) \<and>
    (rt_Changes r = [] \<longleftrightarrow>
       ci_Tool b = ci_Tool a \<and> ci_Kind b = ci_Kind a \<and> src_Root (ci_Source b) = src_Root (ci_Source a) \<and>
       src_ModulePath (ci_Source b) = src_ModulePath (ci_Source a) \<and> ci_Status b = ci_Status a \<and>
       ci_ExitCode b = ci_ExitCode a \<and> ci_Policy b = ci_Policy a \<and> ci_PolicyLock b = ci_PolicyLock a \<and>
       ci_Graph b = ci_Graph a \<and> ci_Baseline b = ci_Baseline a \<and> map_of (ci_Inputs b) = map_of (ci_Inputs a) \<and>
       jsonFingerprint reencode hex_sha (ci_Report b) = jsonFingerprint reencode hex_sha (ci_Report a) \<and>
       jsonFingerprint reencode hex_sha (ci_Explanation b) = jsonFingerprint reencode hex_sha (ci_Explanation a))"
proof -
  let ?obs = "compare_obs reencode hex_sha b a"
  have c: "rt_Changes r = observe_all marshal ?obs" by (simp add: r_def)
  have d: "distinct (map ob_id ?obs)" using compare_obs_wf by (simp add: obs_wf_def)
  have "(''verdict'', ''status'', VString (ci_Status b), VString (ci_Status a), []) \<in> set ?obs"
    by (simp add: compare_obs_def envelope_obs_def)
  from observed_id_iff[OF assms(1) d this]
  have status: "reported r ''verdict.status'' \<longleftrightarrow> ci_Status b \<noteq> ci_Status a"
    by (simp add: reported_def c ob_id_def StableChangeID_def)
  have "distinct (map ch_ID (rt_Changes r))" unfolding c by (rule observe_all_distinct[OF d])
  with status input_reported[OF assms(1), of reencode hex_sha dec b a, folded r_def]
    nothing_reported[OF assms(1), of reencode hex_sha b a, folded c]
  show ?thesis by blast
qed

section \<open>Filtering\<close>

text \<open>An identifier that ends in white space can not be selected by name.\<close>

lemma selected_is_trimmed: "selects ids i \<Longrightarrow> (\<forall>j \<in> set ids. blank j) \<or> trim_space i = i"
  by (auto simp: selects_def)

lemma filter_sorna_again:
  assumes "report_wf schema r"
  shows "FilterSornaRunChanges (FilterSornaRunChanges r ids) (sortedChangeIDs ids) = FilterSornaRunChanges r ids"
proof -
  define rules where "rules x = filter (\<lambda>c. ''rules.'' @ rsc_RuleID c @ ''.status'' \<in>
      set (filter (\<lambda>i. has_prefix i ''rules.'' \<and> has_suffix i ''.status'') (map StableID (rt_Changes x)))) (sn_ChangedRules x)"
    for x :: SornaRunComparison
  have f: "FilterSornaRunChanges x is = (if normalizedChangeIDs is = [] then filter_report is x
      else (filter_report is x)\<lparr>sn_ChangedRules := rules (filter_report is x)\<rparr>)" for x :: SornaRunComparison and "is"
    by (simp add: FilterSornaRunChanges_def Let_def rules_def)
  have again: "filter_report (sortedChangeIDs ids) (filter_report ids r) = filter_report ids r"
    by (rule filter_report_again[OF assms])
  have comm: "filter_report is (x\<lparr>sn_ChangedRules := l\<rparr>) = (filter_report is x)\<lparr>sn_ChangedRules := l\<rparr>"
    for x :: SornaRunComparison and l "is" by (simp add: filter_report_def)
  have nil: "normalizedChangeIDs (sortedChangeIDs ids) = [] \<longleftrightarrow> normalizedChangeIDs ids = []"
    using normalized_sorted[of ids] by (metis set_empty)
  have rr: "rules (x\<lparr>sn_ChangedRules := rules x\<rparr>) = rules x" for x
    by (simp add: rules_def conj_ac cong: filter_cong)
  show ?thesis
  proof (cases "normalizedChangeIDs ids = []")
    case True
    then show ?thesis using nil again by (simp add: f)
  next
    case False
    then show ?thesis using nil by (simp add: f comm again rr)
  qed
qed

text \<open>Filtering a comparison of accepted Sorna runs keeps, in their order, the changes whose
  identifier is one of the trimmed selected ones (all of them if every selected one is blank), keeps
  the index of changed rules in step with the changes of rule statuses, does not alter whether the
  report validates, and filtering again by the recorded filter changes nothing.\<close>

theorem filter_selects_by_id:
  fixes marshal :: "Value \<Rightarrow> 'j option" and b a ids
  assumes "validateSornaRun bp b = None" "validateSornaRun ap a = None" "sorna_fit b" "sorna_fit a"
  defines "r \<equiv> compareSornaRuns marshal b a" and "f \<equiv> FilterSornaRunChanges (compareSornaRuns marshal b a) ids"
  shows "rt_Changes f = filter (\<lambda>c. selects ids (ch_ID c)) (rt_Changes r) \<and>
    rsc_RuleID ` set (sn_ChangedRules f) = changed_ids (rt_Changes f) \<and>
    rt_Summary f = SummarizeChanges (rt_Changes f) \<and>
    (SornaRunComparison_Validate f = None \<longleftrightarrow> SornaRunComparison_Validate r = None) \<and>
    FilterSornaRunChanges f (rt_Filter f) = f"
proof -
  have wf: "sorna_report_wf r" unfolding r_def by (rule sorna_compared_wf[OF assms(1-4)])
  have base: "report_wf sornaRunComparisonSchema r" using wf by (simp add: sorna_report_wf_def)
  have fwf: "sorna_report_wf f" unfolding f_def using filter_sorna_wf[OF wf] by (simp add: r_def)
  have f: "f = FilterSornaRunChanges r ids" by (simp add: f_def r_def)
  have "rt_Changes f = filter (\<lambda>c. selects ids (ch_ID c)) (rt_Changes r)"
    using base unfolding f by (simp add: FilterChanges_wf report_wf_def changes_wf_def)
  moreover have "rt_Summary f = SummarizeChanges (rt_Changes f)" "rt_Filter f = sortedChangeIDs ids"
    unfolding f by (simp_all add: FilterSornaRunChanges_def Let_def)
  moreover have "SornaRunComparison_Validate f = None \<longleftrightarrow> SornaRunComparison_Validate r = None"
    unfolding sorna_comparison_iff[OF fwf] sorna_comparison_iff[OF wf] by (simp add: f)
  moreover have "FilterSornaRunChanges f (sortedChangeIDs ids) = f"
    unfolding f by (rule filter_sorna_again[OF base])
  ultimately show ?thesis using fwf by (simp add: sorna_report_wf_def)
qed

section \<open>Accepted documents whose comparison is refused\<close>

text \<open>C29. The comparison of two Sorna runs the loader accepted is written exactly when both also have
  what only the writer asks for: an identified baseline contract of positive version, no blank
  limitation, a lifecycle outcome and a subject for every rule.\<close>

theorem sorna_written_iff:
  assumes "loadSornaRun read decode bp = Inr b" "loadSornaRun read decode ap = Inr a" "sorna_fit b" "sorna_fit a"
  shows "\<exists>r. CompareSornaRunFiles read decode marshal bp ap = Inr r \<and>
    (SornaRunComparison_Validate r = None \<longleftrightarrow>
       sorna_writable b \<and> sorna_writable a \<and> present_not_blank bp \<and> present_not_blank ap)"
proof -
  have "validateSornaRun bp b = None" "validateSornaRun ap a = None"
    using assms(1,2) load_document_Inr unfolding loadSornaRun_def by fast+
  from loaded_sorna_iff[OF this assms(3,4)] assms(1,2) show ?thesis
    by (auto simp: CompareSornaRunFiles_def compare_files_def)
qed

text \<open>The comparison of two Nublar runs the loader accepted is written exactly when both have a
  hexadecimal workflow digest, a status, a non-negative exit code, parsable timestamps and checks
  with a tool and a status; that of two custody records exactly when neither has a blank source run.\<close>

theorem nublar_and_custody_written_iff:
  assumes "loadNublarRun read decode bp = Inr b" "loadNublarRun read decode ap = Inr a" "nublar_fit b" "nublar_fit a"
    and "loadLockwoodCustody read decode' cp = Inr c" "loadLockwoodCustody read decode' dp = Inr d"
  shows "(\<exists>r. CompareNublarRunFiles read decode marshal bp ap = Inr r \<and>
      (NublarRunComparison_Validate r = None \<longleftrightarrow>
         nublar_writable b \<and> nublar_writable a \<and> present_not_blank bp \<and> present_not_blank ap)) \<and>
    (\<exists>r. CompareLockwoodCustodyFiles read decode' marshal cp dp = Inr r \<and>
      (LockwoodCustodyComparison_Validate r = None \<longleftrightarrow>
         present_not_blank (lcd_SourceRunID c) \<and> present_not_blank (lcd_SourceRunID d) \<and>
         present_not_blank cp \<and> present_not_blank dp))"
proof -
  have n: "nublar_run_problem bp b = None" "nublar_run_problem ap a = None"
    using assms(1,2) load_document_Inr unfolding loadNublarRun_def by fast+
  have c: "lockwood_custody_problem cp c = None" "lockwood_custody_problem dp d = None"
    using assms(5,6) load_document_Inr unfolding loadLockwoodCustody_def by fast+
  from loaded_nublar_iff[OF n assms(3,4)] loaded_custody_iff[OF c] assms(1,2,5,6) show ?thesis
    by (auto simp: CompareNublarRunFiles_def CompareLockwoodCustodyFiles_def compare_files_def)
qed

section \<open>Manifests and errors\<close>

lemma pair_issues_Nil: "pair_issues (n, b, a) = [] \<longleftrightarrow> (blank b \<longleftrightarrow> blank a)"
  by (auto simp: pair_issues_def hasAny_def problem_def)

definition pair_declared :: "string \<times> string \<times> string \<Rightarrow> bool" where
  "pair_declared x \<longleftrightarrow> \<not> blank (fst (snd x)) \<and> \<not> blank (snd (snd x))"

definition pair_undeclared :: "string \<times> string \<times> string \<Rightarrow> bool" where
  "pair_undeclared x \<longleftrightarrow> blank (fst (snd x)) \<and> blank (snd (snd x))"

lemma ball_enumerate: "(\<forall>x \<in> set (enumerate i xs). P (snd x)) \<longleftrightarrow> (\<forall>y \<in> set xs. P y)"
proof -
  have "set xs = snd ` set (enumerate i xs)" by (metis list.set_map map_snd_enumerate)
  then show ?thesis by auto
qed

definition issue_ok :: "ErrorIssue \<Rightarrow> bool" where
  "issue_ok x \<longleftrightarrow> \<not> blank (ei_Code x) \<and> \<not> message_blank (ei_Message x)"

lemma issues_valid: "first_error issue_problem (enumerate i xs) = None \<longleftrightarrow> (\<forall>x \<in> set xs. issue_ok x)"
proof -
  have "issue_problem x = None \<longleftrightarrow> issue_ok (snd x)" for x
    by (simp add: issue_problem_def fail_if_None issue_ok_def)
  then show ?thesis unfolding first_error_None using ball_enumerate[of i xs issue_ok] by simp
qed

lemma manifest_issue_ok: "x \<in> set (manifest_problems m) \<Longrightarrow> issue_ok x"
proof -
  assume x: "x \<in> set (manifest_problems m)"
  have "issue_ok y" if "y \<in> set (pair_issues z)" for y z
    using that by (cases z) (auto simp: pair_issues_def incomplete_pair_def problem_def issue_ok_def
        plain_head_not_blank plain_byte_def byte_def split: if_splits)
  with x show ?thesis
    unfolding manifest_problems_def set_append set_concat set_map
    by (auto simp: problem_def issue_ok_def plain_head_not_blank plain_byte_def byte_def split: if_splits)
qed

lemma series_entry_issue_ok: "x \<in> set (series_entry_issues i seen es) \<Longrightarrow> issue_ok x"
  by (induction i seen es rule: series_entry_issues.induct)
    (auto simp: problem_def issue_ok_def plain_head_not_blank plain_byte_def byte_def split: if_splits)

lemma series_issue_ok: "x \<in> set (series_manifest_issues m) \<Longrightarrow> issue_ok x"
  unfolding series_manifest_issues_def set_append
  by (auto simp: problem_def series_entry_issue_ok)
    (auto simp: issue_ok_def plain_head_not_blank plain_byte_def byte_def split: if_splits)

lemma manifest_accepted_iff:
  "manifest_problems m = [] \<longleftrightarrow> cmf_Schema m = ComparisonManifestSchema \<and>
     (\<forall>x \<in> set (manifest_pairs m). pair_declared x \<or> pair_undeclared x) \<and> (\<exists>x \<in> set (manifest_pairs m). pair_declared x)"
proof -
  have p: "pair_issues x = [] \<longleftrightarrow> pair_declared x \<or> pair_undeclared x" for x
    by (cases x) (auto simp: pair_issues_Nil pair_declared_def pair_undeclared_def)
  have h: "(case x of (name, before, after) \<Rightarrow> hasAny before after) \<longleftrightarrow> \<not> pair_undeclared x" for x :: "string \<times> string \<times> string"
    by (cases x) (auto simp: hasAny_def pair_undeclared_def)
  have "pair_declared x \<longleftrightarrow> \<not> pair_undeclared x" if "pair_issues x = []" for x
    using that unfolding p by (auto simp: pair_declared_def pair_undeclared_def)
  then show ?thesis
    unfolding manifest_problems_def append_is_Nil_conv concat_eq_Nil_conv problem_Nil list_ex_iff h set_map p[symmetric] by blast
qed

definition reports_manifest_failure :: "string \<Rightarrow> SattlerError \<Rightarrow> bool" where
  "reports_manifest_failure operation err \<longleftrightarrow>
     ErrorDocument_Validate (ErrorDocumentFor operation err) = None \<and>
     (\<exists>issues. issues \<noteq> [] \<and> manifest_issues err = Some issues \<and> edoc_Errors (ErrorDocumentFor operation err) = issues)"

lemma issues_reported:
  assumes "\<not> blank operation" "issues \<noteq> []" "\<forall>x \<in> set issues. issue_ok x"
  shows "reports_manifest_failure operation (ManifestValidationError issues)"
    and "reports_manifest_failure operation (Wrapped pre (ManifestValidationError issues))"
  using assms
  by (simp_all add: reports_manifest_failure_def ErrorDocumentFor_def ErrorDocument_Validate_def
      first_some_Cons_None first_some_Nil_None issues_valid del: first_some.simps)

text \<open>A bundle manifest is accepted exactly when it has the schema, each pair of paths is given on
  both sides or on neither, and some pair is given; a failure to load one, or a series manifest,
  also when wrapped by a caller, becomes an error document that passes its own validation and lists
  every issue.\<close>

theorem manifest_errors_reported:
  assumes "\<not> blank operation"
  shows "(\<forall>m. loadComparisonManifest w path = Inr m \<longleftrightarrow>
      (\<exists>contents. w_read w path = Inr contents \<and> w_manifest w contents = Inr m) \<and>
      cmf_Schema m = ComparisonManifestSchema \<and>
      (\<forall>x \<in> set (manifest_pairs m). pair_declared x \<or> pair_undeclared x) \<and>
      (\<exists>x \<in> set (manifest_pairs m). pair_declared x)) \<and>
    (\<forall>err. loadComparisonManifest w path = Inl err \<or> loadComparisonSeriesManifest read decode path = Inl err \<longrightarrow>
       reports_manifest_failure operation err \<and> reports_manifest_failure operation (Wrapped pre err))"
proof -
  have ok: "\<forall>x \<in> set [\<lparr>ei_Code = ''read-manifest'', ei_Path = p, ei_Message = T ''read comparison manifest '' # e\<rparr>]. issue_ok x"
    "\<forall>x \<in> set [\<lparr>ei_Code = ''parse-manifest'', ei_Path = p, ei_Message = T ''parse comparison manifest '' # e\<rparr>]. issue_ok x"
    "\<forall>x \<in> set [\<lparr>ei_Code = ''read-series-manifest'', ei_Path = p, ei_Message = T ''read comparison series manifest '' # e\<rparr>]. issue_ok x"
    "\<forall>x \<in> set [\<lparr>ei_Code = ''parse-series-manifest'', ei_Path = p, ei_Message = T ''parse comparison series manifest '' # e\<rparr>]. issue_ok x"
    for p e by (simp_all add: issue_ok_def plain_head_not_blank plain_byte_def byte_def)
  have "\<exists>issues. err = ManifestValidationError issues \<and> issues \<noteq> [] \<and> (\<forall>x \<in> set issues. issue_ok x)"
    if "loadComparisonManifest w path = Inl err \<or> loadComparisonSeriesManifest read decode path = Inl err" for err
    using that manifest_issue_ok series_issue_ok ok
    unfolding loadComparisonManifest_def loadComparisonSeriesManifest_def
    by (fastforce split: sum.splits if_splits)
  moreover have "loadComparisonManifest w path = Inr m \<longleftrightarrow>
      (\<exists>contents. w_read w path = Inr contents \<and> w_manifest w contents = Inr m) \<and> manifest_problems m = []" for m
    by (auto simp: loadComparisonManifest_def split: sum.splits if_splits)
  ultimately show ?thesis unfolding manifest_accepted_iff using issues_reported[OF assms] by blast
qed

section \<open>Bundles\<close>

lemma bundle_summary_report_iff:
  assumes "bundle_wf r" "transitions_known r"
  shows "BundleSummaryReport_Validate (NewBundleSummaryReport r) = None \<longleftrightarrow> nublar_settled r"
proof -
  have s: "SummarizeBundle r = bn_Summary r" "CorrelateBundle r = bn_Correlations r"
    using assms(1) by (simp_all add: bundle_wf_def)
  have "first_error validateBundleCorrelation (CorrelateBundle r) = None"
    using correlation_valid by (simp add: first_error_None)
  moreover have "first_error (\<lambda>i. fail_if (blank i) e) (bn_ChangeIDFilter r) = None" for e :: message
    using assms(1) by (simp add: bundle_wf_def first_error_None)
  ultimately show ?thesis
    using bundle_summary_iff[OF assms] s
    unfolding BundleSummaryReport_Validate_def NewBundleSummaryReport_def first_some_Cons_None first_some_Nil_None
    by simp
qed

lemma summary_totals:
  "sm_Total (bs_ChangeSummary (SummarizeBundle r)) =
     sum_list (map (\<lambda>x. sm_Total (sub_ChangeSummary (snd x))) (bs_Subsystems (SummarizeBundle r)))"
  unfolding SummarizeBundle_def summarize_parts_simps
  by (simp add: length_concat sum_list_int comp_def)

definition adapters_valid :: "BundleComparison \<Rightarrow> bool" where
  "adapters_valid r \<longleftrightarrow>
     pred_option (\<lambda>c. SornaRunComparison_Validate c = None) (bn_SornaRun r) \<and>
     pred_option (\<lambda>c. NublarRunComparison_Validate c = None) (bn_NublarRun r) \<and>
     pred_option (\<lambda>c. LockwoodCustodyComparison_Validate c = None) (bn_Custody r)"

lemma custody_comparison_iff:
  assumes "report_wf lockwoodCustodyComparisonSchema r"
  shows "LockwoodCustodyComparison_Validate r = None \<longleftrightarrow>
    validateLockwoodCustodySummary ''before'' (lm_Before r) = None \<and>
    validateLockwoodCustodySummary ''after'' (lm_After r) = None \<and>
    tr_Field (rt_Transition r) = ''status'' \<and> StateTransition_Validate (rt_Transition r) = None"
  using assms report_wf_valid[OF assms, of "[]"]
  by (auto simp: LockwoodCustodyComparison_Validate_def check_simps report_wf_def)

lemma filtered_adapters_valid:
  assumes wf: "bundle_wf r"
  shows "adapters_valid (FilterBundleChanges r ids) \<longleftrightarrow> adapters_valid r"
proof -
  have a: "adapters_wf r" using wf by (simp add: bundle_wf_def)
  have "SornaRunComparison_Validate (FilterSornaRunChanges c ids) = None \<longleftrightarrow> SornaRunComparison_Validate c = None"
    if "sorna_report_wf c" for c
    unfolding sorna_comparison_iff[OF that] sorna_comparison_iff[OF filter_sorna_wf[OF that]] by simp
  moreover have "NublarRunComparison_Validate (filter_report ids c) = None \<longleftrightarrow> NublarRunComparison_Validate c = None"
    if "report_wf nublarRunComparisonSchema c" for c
    unfolding nublar_comparison_iff[OF that] nublar_comparison_iff[OF filter_report_wf[OF that]]
    by (simp add: filter_report_def)
  moreover have "LockwoodCustodyComparison_Validate (filter_report ids c) = None \<longleftrightarrow>
      LockwoodCustodyComparison_Validate c = None"
    if "report_wf lockwoodCustodyComparisonSchema c" for c
    unfolding custody_comparison_iff[OF that] custody_comparison_iff[OF filter_report_wf[OF that]]
    by (simp add: filter_report_def)
  ultimately show ?thesis
    using a unfolding adapters_valid_def adapters_wf_def
    by (cases "bn_SornaRun r"; cases "bn_NublarRun r"; cases "bn_Custody r")
      (simp_all add: FilterNublarRunChanges_def FilterLockwoodCustodyChanges_def)
qed

text \<open>C30. A bundle compared from files passes its validation, whatever filter is applied, exactly when
  its manifest path is not made of white space only and its Sorna, Nublar and custody reports pass
  theirs; its compact summary already when no compared Nublar run has an empty status.  The total
  number of changes is the sum over the subsystems.\<close>

theorem bundle_written_iff:
  fixes w :: "'j Sources" and path ids
  assumes fit: "sources_fit w" and r: "CompareBundleFile w path = Inr r"
  shows "(BundleComparison_Validate (FilterBundleChanges r ids) = None \<longleftrightarrow> present_not_blank path \<and> adapters_valid r) \<and>
    (BundleSummaryReport_Validate (NewBundleSummaryReport (FilterBundleChanges r ids)) = None \<longleftrightarrow> nublar_settled r) \<and>
    (let s = bn_Summary (FilterBundleChanges r ids)
     in sm_Total (bs_ChangeSummary s) = sum_list (map (\<lambda>x. sm_Total (sub_ChangeSummary (snd x))) (bs_Subsystems s)))"
proof -
  have wf: "bundle_wf r" and t: "transitions_known r" and p: "bn_Manifest r = path"
    using compared_bundle_wf[OF fit r] by blast+
  note fwf = FilterBundleChanges_wf[OF wf, of ids]
  have "BundleComparison_Validate (FilterBundleChanges r ids) = None \<longleftrightarrow>
      present_not_blank path \<and> adapters_valid (FilterBundleChanges r ids)"
    using bundle_iff[OF fwf] by (simp only: filtered_bundle_simps(1) p adapters_valid_def)
  moreover have "bn_Summary (FilterBundleChanges r ids) = SummarizeBundle (FilterBundleChanges r ids)"
    using fwf by (simp add: bundle_wf_def)
  ultimately show ?thesis
    using filtered_adapters_valid[OF wf] bundle_summary_report_iff[OF fwf] t summary_totals by (simp add: Let_def)
qed

section \<open>Histories of bundles\<close>

definition changes_named :: "string \<Rightarrow> BundleComparison list \<Rightarrow> nat" where
  "changes_named i bs = length (filter (\<lambda>c. StableID c = i) (concat (map bundleBoundaryChanges bs)))"

lemma count_list_filter: "count_list (map f xs) i = length (filter (\<lambda>x. f x = i) xs)"
  by (induction xs) simp_all

lemma zipped_changes:
  "list_all2 P es bs \<Longrightarrow>
   concat (map (\<lambda>x. map StableID (bundleBoundaryChanges (snd x))) (zip es (map g bs))) =
     map StableID (concat (map bundleBoundaryChanges (map g bs)))"
  by (induction rule: list_all2_induct) simp_all

lemma series_changes:
  "list_all2 P es bs \<Longrightarrow>
   count_list (concat (map (\<lambda>x. map StableID (bundleBoundaryChanges (snd x))) (zip es (map g bs)))) i =
     changes_named i (map g bs)"
  unfolding changes_named_def by (simp only: zipped_changes count_list_filter)

definition counter :: "(string, int) gomap \<Rightarrow> string \<Rightarrow> int" where
  "counter m k = (case map_of m k of None \<Rightarrow> 0 | Some n \<Rightarrow> n)"

lemma counter_tally: "counter (tally ks) k = int (count_list ks k)"
  by (simp add: counter_def map_of_tally count_list_0_iff)

text \<open>C31. A history built from its manifest has one point for each entry, in order, counts for each
  identifier the changes of all bundles with it, always passes the validation of its summary, and
  passes its own exactly when the path of the manifest is not made of white space, the path of no
  bundle is, and no compared Nublar run has an empty status.\<close>

theorem series_written_iff:
  fixes w :: "'j Sources"
  assumes fit: "sources_fit w" and s: "CompareSeriesManifestFileWithChanges w decode render path ids = Inr s"
    and small: "series_small s"
  shows "\<exists>m bs. loadComparisonSeriesManifest (w_read w) decode path = Inr m \<and>
    list_all2 (\<lambda>e b. CompareBundleFile w (resolveManifestPath (Dir path) (se_Manifest e)) = Inr b) (sf_Entries m) bs \<and>
    map sp_ID (cs_Entries s) = map se_ID (sf_Entries m) \<and>
    (\<forall>i. counter (su_ChangesByID (cs_Summary s)) i =
       int (changes_named i (map (\<lambda>b. FilterBundleChanges b ids) bs))) \<and>
    SeriesSummaryReport_Validate (NewSeriesSummaryReport s) = None \<and>
    (ComparisonSeries_Validate render s = None \<longleftrightarrow>
       present_not_blank path \<and> (\<forall>b \<in> set bs. \<not> blank (bn_Manifest b) \<and> nublar_settled b))"
proof -
  from compared_series[OF fit s] obtain m bs where
    m: "loadComparisonSeriesManifest (w_read w) decode path = Inr m"
    and bs: "list_all2 (\<lambda>e b. CompareBundleFile w (resolveManifestPath (Dir path) (se_Manifest e)) = Inr b) (sf_Entries m) bs"
    and wf: "entries_wf (zip (sf_Entries m) (map (\<lambda>b. FilterBundleChanges b ids) bs))"
    and eq: "s = built_series render path ids (zip (sf_Entries m) (map (\<lambda>b. FilterBundleChanges b ids) bs))" by blast
  let ?xs = "zip (sf_Entries m) (map (\<lambda>b. FilterBundleChanges b ids) bs)"
  have len: "length bs = length (sf_Entries m)" using bs by (simp add: list_all2_lengthD)
  have ids: "map sp_ID (cs_Entries s) = map se_ID (sf_Entries m)"
  proof -
    have "map sp_ID (cs_Entries s) = map se_ID (map fst ?xs)" by (simp add: eq map_points)
    then show ?thesis using len by simp
  qed
  have snds: "snd ` set ?xs = (\<lambda>b. FilterBundleChanges b ids) ` set bs"
  proof -
    have "snd ` set ?xs = set (map snd ?xs)" by simp
    also have "map snd ?xs = map (\<lambda>b. FilterBundleChanges b ids) bs" using len by simp
    finally show ?thesis by simp
  qed
  have ball: "(\<forall>x \<in> set ?xs. P (snd x)) \<longleftrightarrow> (\<forall>b \<in> set bs. P (FilterBundleChanges b ids))" for P
  proof -
    have "(\<forall>x \<in> set ?xs. P (snd x)) \<longleftrightarrow> (\<forall>y \<in> snd ` set ?xs. P y)" by blast
    also have "\<dots> \<longleftrightarrow> (\<forall>b \<in> set bs. P (FilterBundleChanges b ids))" unfolding snds by blast
    finally show ?thesis .
  qed
  have valid: "ComparisonSeries_Validate render s = None \<longleftrightarrow>
      present_not_blank path \<and> (\<forall>b \<in> set bs. \<not> blank (bn_Manifest b) \<and> nublar_settled b)"
    using built_series_iff[OF wf small[unfolded eq]] ball[of "\<lambda>y. \<not> blank (bn_Manifest y) \<and> nublar_settled y"]
    unfolding eq filtered_bundle_simps filtered_transitions by simp
  have summary: "SeriesSummary_Validate (cs_Summary s) = None"
    using built_summary_valid[OF wf small[unfolded eq]] by (simp add: eq)
  have "first_error (\<lambda>i. fail_if (blank i) e) (sortedChangeIDs ids) = None" for e :: message
    using sortedChangeIDs_not_blank unfolding first_error_None by simp
  then have report: "SeriesSummaryReport_Validate (NewSeriesSummaryReport s) = None"
    using summary unfolding SeriesSummaryReport_Validate_def NewSeriesSummaryReport_def first_some_Cons_None first_some_Nil_None
    by (simp add: eq)
  have "counter (su_ChangesByID (cs_Summary s)) i = int (changes_named i (map (\<lambda>b. FilterBundleChanges b ids) bs))" for i
    unfolding eq built_summary_simps(5) counter_tally series_changes[OF bs] ..
  then show ?thesis using m bs ids report valid by (intro exI[of _ m] exI[of _ bs] conjI allI)
qed

section \<open>Examples\<close>

definition ex_time :: string where "ex_time = ''2025-01-01T00:00:00Z''"

definition ex_ref :: FileRef where "ex_ref = \<lparr>fr_Path = ''workflow.json'', fr_SHA256 = replicate 64 CHR ''a''\<rparr>"

definition ex_nublar :: "string \<Rightarrow> nublarRunDocument" where
  "ex_nublar status =
     \<lparr>nrd_Schema = NublarRunSchema, nrd_RunID = ''run'', nrd_WorkflowID = ''wf'', nrd_WorkflowFile = ex_ref,
      nrd_Correlation = None, nrd_Status = status, nrd_ExitCode = 0, nrd_CreatedAt = ex_time,
      nrd_CompletedAt = [],
      nrd_Checks = [\<lparr>nrc_ID = ''c'', nrc_Check = \<lparr>nk_Tool = ''paddock'', nk_Required = True, nk_Status = ''passed'',
        nk_Reason = []\<rparr>\<rparr>]\<rparr>"

definition ex_custody :: "string \<Rightarrow> lockwoodCustodyDocument" where
  "ex_custody source =
     \<lparr>lcd_Schema = LockwoodCustodySchema, lcd_CustodyID = ''c'', lcd_Status = ''accepted'', lcd_ReceivedAt = ex_time,
      lcd_ArtifactSchema = ''lockwood.artifact/v1'', lcd_ArtifactDigest = ''sha256:'' @ replicate 64 CHR ''a'',
      lcd_ProducerTool = ''nublar'', lcd_ProducerKind = ''run'', lcd_SourceRunID = source,
      lcd_IntegrityStatus = ''verified''\<rparr>"

definition ex_sorna :: "string \<Rightarrow> sornaRunDocument" where
  "ex_sorna subject =
     \<lparr>srd_Schema = SornaRunSchema, srd_RunID = ''run'', srd_CreatedAt = ex_time,
      srd_Assurance = \<lparr>sa_Level = 1, sa_Status = ''partial'', sa_ObservationCoverage = [], sa_Limitations = []\<rparr>,
      srd_Contract = \<lparr>sc_ID = ''k'', sc_Version = 1, sc_SHA256 = replicate 64 CHR ''a''\<rparr>,
      srd_Oracle = None, srd_Baseline = None,
      srd_ContractVerdict = \<lparr>sv_Status = ''pass'', sv_Reason = []\<rparr>,
      srd_Subject = \<lparr>ss_BaseURL = ''http://x'', ss_Adapter = ''http'', ss_Variant = []\<rparr>,
      srd_Lifecycle = None,
      srd_Summary = \<lparr>sto_Passed = 1, sto_Failed = 0, sto_Errors = 0, sto_Inconclusive = 0, sto_Skipped = 0\<rparr>,
      srd_Rules = [\<lparr>sr_RuleID = ''r'', sr_CaseID = ''c'', sr_Subject = subject, sr_Status = ''pass'', sr_Reason = []\<rparr>],
      srd_Mutation = None\<rparr>"

definition ex_ci :: "string \<Rightarrow> int \<Rightarrow> CIArtifact" where
  "ex_ci status code =
     \<lparr>ci_Schema = CISchema, ci_Tool = ''paddock'', ci_ToolVersion = [], ci_Kind = ''check'', ci_Status = status,
      ci_ExitCode = code, ci_CreatedAt = ex_time,
      ci_Source = \<lparr>src_Root = ''.'', src_ModulePath = [], src_VCS = None\<rparr>, ci_Policy = Some ex_ref,
      ci_PolicyLock = None, ci_Graph = None, ci_Baseline = None, ci_Inputs = [(''plan'', ex_ref)],
      ci_Report = ''{}'', ci_Explanation = ''{}'', ci_Error = []\<rparr>"

definition ex_sources :: "string \<Rightarrow> Value Sources" where
  "ex_sources status =
     \<lparr>w_read = Inr,
      w_manifest = (\<lambda>x. Inr \<lparr>cmf_Schema = ComparisonManifestSchema,
        cmf_Before = \<lparr>cin_CIResult = [], cin_SornaRun = [], cin_NublarRun = ''b.json'', cin_Custody = [], cin_Provenance = []\<rparr>,
        cmf_After = \<lparr>cin_CIResult = [], cin_SornaRun = [], cin_NublarRun = ''a.json'', cin_Custody = [], cin_Provenance = []\<rparr>\<rparr>),
      w_ci = (\<lambda>x. Inl []), w_sorna = (\<lambda>x. Inl []), w_nublar = (\<lambda>x. Inr (ex_nublar status)),
      w_custody = (\<lambda>x. Inl []), w_provenance = (\<lambda>x. Inl []), w_valid_json = (\<lambda>x. True), w_marshal = Some,
      w_reencode = Some, w_hex_sha = (\<lambda>x. x), w_campaign = (\<lambda>x. Inl [])\<rparr>"

definition ex_series :: "string \<Rightarrow> message + ComparisonSeriesManifest" where
  "ex_series x = Inr \<lparr>sf_Schema = ComparisonSeriesManifestSchema,
     sf_Entries = [\<lparr>se_ID = ''one'', se_Label = [], se_Manifest = ''m1.json''\<rparr>, \<lparr>se_ID = ''two'', se_Label = [], se_Manifest = ''m2.json''\<rparr>]\<rparr>"

lemma ex_ci_ok: "Artifact_Validate (\<lambda>x. True) (ex_ci ''passed'' 0) = None" "Artifact_Validate (\<lambda>x. True) (ex_ci ''failed'' 1) = None"
  by code_simp+

lemma ex_runs_ok:
  "nublar_run_problem ''b'' (ex_nublar ''passed'') = None" "nublar_run_problem ''a'' (ex_nublar []) = None"
  "lockwood_custody_problem ''b'' (ex_custody ''run'') = None" "lockwood_custody_problem ''a'' (ex_custody '' '') = None"
  "validateSornaRun ''b'' (ex_sorna ''s'') = None" "validateSornaRun ''a'' (ex_sorna []) = None"
  by code_simp+

definition result_with :: "('r \<Rightarrow> bool) \<Rightarrow> 'e + 'r \<Rightarrow> bool" where
  "result_with P x = (case x of Inl _ \<Rightarrow> False | Inr r \<Rightarrow> P r)"

lemma result_with_iff: "result_with P x \<longleftrightarrow> (\<exists>r. x = Inr r \<and> P r)"
  by (simp add: result_with_def split: sum.split)

lemma pred_option_code [code]: "pred_option P None = True" "pred_option P (Some x) = P x"
  by simp_all

lemma ex_bundle:
  "result_with (\<lambda>r. \<not> nublar_settled r \<and> \<not> adapters_valid r) (CompareBundleFile (ex_sources []) ''m.json'')"
  by code_simp

lemma ex_built:
  "result_with series_small
     (CompareSeriesManifestFileWithChanges (ex_sources ''passed'') ex_series (\<lambda>x. []) ''s.json'' [])"
  by code_simp

lemma ex_fit: "sources_fit (ex_sources status)" "inputs_fit (ex_ci s c)" "nublar_fit (ex_nublar s)" "sorna_fit (ex_sorna x)"
  by (simp_all add: sources_fit_def ex_sources_def inputs_fit_def ex_ci_def nublar_fit_def ex_nublar_def sorna_fit_def ex_sorna_def)

abbreviation ex_comparison :: Comparison where
  "ex_comparison \<equiv> Compare (Some :: Value \<Rightarrow> Value option) Some (\<lambda>x. x) (\<lambda>x. Inl []) (ex_ci ''passed'' 0) (ex_ci ''failed'' 1)"

theorem comparison_validates_witness:
  "Comparison_Validate ex_comparison = None \<and>
   Comparison_Validate (FilterComparisonChanges ex_comparison [''verdict.status'']) = None"
  by (rule comparison_validates[OF ex_ci_ok ex_fit(2) ex_fit(2)])

theorem comparison_reports_differences_witness:
  "distinct (map ch_ID (rt_Changes ex_comparison)) \<and> reported ex_comparison ''verdict.status'' \<and>
   rt_Changes ex_comparison \<noteq> []"
  using comparison_reports_differences[OF faithful_Some, of Some "\<lambda>x. x" "\<lambda>x. Inl []" "ex_ci ''passed'' 0" "ex_ci ''failed'' 1"]
  by (simp add: ex_ci_def)

theorem filter_selects_by_id_witness:
  "FilterSornaRunChanges (FilterSornaRunChanges (compareSornaRuns (Some :: Value \<Rightarrow> Value option) (ex_sorna ''s'') (ex_sorna [])) [''rules.r.status ''])
     (rt_Filter (FilterSornaRunChanges (compareSornaRuns (Some :: Value \<Rightarrow> Value option) (ex_sorna ''s'') (ex_sorna [])) [''rules.r.status ''])) =
   FilterSornaRunChanges (compareSornaRuns (Some :: Value \<Rightarrow> Value option) (ex_sorna ''s'') (ex_sorna [])) [''rules.r.status '']"
  using filter_selects_by_id[OF ex_runs_ok(5,6) ex_fit(4) ex_fit(4),
      of "Some :: Value \<Rightarrow> Value option" "[''rules.r.status '']"]
  by blast

definition ex_decode :: "'d \<Rightarrow> 'd \<Rightarrow> string \<Rightarrow> message + 'd" where
  "ex_decode b a x = Inr (if x = ''b'' then b else a)"

lemma ex_loads:
  "loadSornaRun Inr (ex_decode (ex_sorna ''s'') (ex_sorna [])) ''b'' = Inr (ex_sorna ''s'')"
  "loadSornaRun Inr (ex_decode (ex_sorna ''s'') (ex_sorna [])) ''a'' = Inr (ex_sorna [])"
  "loadNublarRun Inr (ex_decode (ex_nublar ''passed'') (ex_nublar [])) ''b'' = Inr (ex_nublar ''passed'')"
  "loadNublarRun Inr (ex_decode (ex_nublar ''passed'') (ex_nublar [])) ''a'' = Inr (ex_nublar [])"
  "loadLockwoodCustody Inr (ex_decode (ex_custody ''run'') (ex_custody '' '')) ''b'' = Inr (ex_custody ''run'')"
  "loadLockwoodCustody Inr (ex_decode (ex_custody ''run'') (ex_custody '' '')) ''a'' = Inr (ex_custody '' '')"
  using ex_runs_ok by (simp_all add: loadSornaRun_def loadNublarRun_def loadLockwoodCustody_def load_document_def ex_decode_def)

lemma ex_not_writable:
  "\<not> sorna_writable (ex_sorna [])" "\<not> nublar_writable (ex_nublar [])" "\<not> present_not_blank (lcd_SourceRunID (ex_custody '' ''))"
  by (simp add: sorna_writable_def ex_sorna_def, simp add: nublar_writable_def ex_nublar_def, code_simp)

text \<open>Two accepted runs, the second with a rule without subject: the comparison is computed and refused.\<close>

theorem sorna_written_iff_witness:
  "\<exists>r. CompareSornaRunFiles Inr (ex_decode (ex_sorna ''s'') (ex_sorna [])) (Some :: Value \<Rightarrow> Value option) ''b'' ''a'' = Inr r \<and>
     SornaRunComparison_Validate r \<noteq> None"
  using sorna_written_iff[OF ex_loads(1,2) ex_fit(4) ex_fit(4), of "Some :: Value \<Rightarrow> Value option"] ex_not_writable(1)
  by blast

theorem nublar_and_custody_written_iff_witness:
  "(\<exists>r. CompareNublarRunFiles Inr (ex_decode (ex_nublar ''passed'') (ex_nublar [])) (Some :: Value \<Rightarrow> Value option) ''b'' ''a'' = Inr r \<and>
      NublarRunComparison_Validate r \<noteq> None) \<and>
   (\<exists>r. CompareLockwoodCustodyFiles Inr (ex_decode (ex_custody ''run'') (ex_custody '' '')) (Some :: Value \<Rightarrow> Value option) ''b'' ''a'' = Inr r \<and>
      LockwoodCustodyComparison_Validate r \<noteq> None)"
  using nublar_and_custody_written_iff[OF ex_loads(3,4) ex_fit(3) ex_fit(3) ex_loads(5,6), of "Some :: Value \<Rightarrow> Value option"]
    ex_not_writable(2,3)
  by blast

lemma ex_failure: "loadComparisonSeriesManifest Inr (\<lambda>x. Inl [T ''bad'']) ''s.json'' =
    Inl (ManifestValidationError [\<lparr>ei_Code = ''parse-series-manifest'', ei_Path = ''manifest'',
      ei_Message = [T ''parse comparison series manifest '', T ''s.json'', T '': '', T ''bad'']\<rparr>])"
  by (simp add: loadComparisonSeriesManifest_def)

theorem manifest_errors_reported_witness:
  "\<exists>err. loadComparisonSeriesManifest Inr (\<lambda>x. Inl [T ''bad'']) ''s.json'' = Inl err \<and>
     reports_manifest_failure ''compare'' err"
proof -
  have "\<not> blank ''compare''" by code_simp
  from manifest_errors_reported[OF this, of "ex_sources []" "''s.json''" Inr "\<lambda>x. Inl [T ''bad'']"] ex_failure
  show ?thesis by blast
qed

text \<open>A bundle whose Nublar runs have an empty status is compared, and then refused in both forms.\<close>

theorem bundle_written_iff_witness:
  "\<exists>r. CompareBundleFile (ex_sources []) ''m.json'' = Inr r \<and>
     BundleComparison_Validate (FilterBundleChanges r []) \<noteq> None \<and>
     BundleSummaryReport_Validate (NewBundleSummaryReport (FilterBundleChanges r [])) \<noteq> None"
proof -
  from ex_bundle obtain r where r: "CompareBundleFile (ex_sources []) ''m.json'' = Inr r"
    and n: "\<not> nublar_settled r" "\<not> adapters_valid r" unfolding result_with_iff by blast
  from bundle_written_iff[OF ex_fit(1) r, of "[]"] n r show ?thesis by blast
qed

theorem series_written_iff_witness:
  "\<exists>s. CompareSeriesManifestFileWithChanges (ex_sources ''passed'') ex_series (\<lambda>x. []) ''s.json'' [] = Inr s \<and>
     SeriesSummaryReport_Validate (NewSeriesSummaryReport s) = None \<and> length (cs_Entries s) = 2"
proof -
  from ex_built obtain s where s: "CompareSeriesManifestFileWithChanges (ex_sources ''passed'') ex_series (\<lambda>x. []) ''s.json'' [] = Inr s"
    and small: "series_small s" unfolding result_with_iff by blast
  from series_written_iff[OF ex_fit(1) s small] obtain m where
    m: "loadComparisonSeriesManifest (w_read (ex_sources ''passed'')) ex_series ''s.json'' = Inr m"
    and ids: "map sp_ID (cs_Entries s) = map se_ID (sf_Entries m)"
    and ok: "SeriesSummaryReport_Validate (NewSeriesSummaryReport s) = None" by blast
  have "length (sf_Entries m) = 2"
    using m by (auto simp: loadComparisonSeriesManifest_def ex_sources_def ex_series_def split: if_splits)
  with ids have "length (cs_Entries s) = 2" by (metis length_map)
  with s ok show ?thesis by blast
qed

end
