(* ===== verification/SattlerInquiry.thy ===== *)
theory SattlerInquiry
  imports SattlerQuery SattlerProps
begin

text \<open>
  What the queries of a history and the investigations of a bundle promise: a query returns the
  entries with a match, in the order of the history, and both reports pass their own validation
  unless a path or a subject that comes from the compared files is made of white space.
\<close>

section \<open>Queries\<close>

text \<open>The points the loop emits for the entries from position \<open>i\<close> on.\<close>

fun found_points ::
  "nat \<Rightarrow> SeriesQuerySelector \<Rightarrow> nat \<Rightarrow> (ComparisonSeriesEntry \<times> BundleComparison) list \<Rightarrow> SeriesQueryPoint list" where
  "found_points n q i [] = []"
| "found_points n q i (x # xs) =
     (if matchSeriesQuery (snd x) q = [] then []
      else [\<lparr>qp_Point = newSeriesPoint (fst x) (snd x) (Suc i = n), qp_Matches = matchSeriesQuery (snd x) q\<rparr>]) @
     found_points n q (Suc i) xs"

definition match_total :: "SeriesQueryPoint list \<Rightarrow> int" where
  "match_total ps = sum_list (map (\<lambda>p. int (length (qp_Matches p))) ps)"

lemma match_total_simps [simp]:
  "match_total [] = 0" "match_total (p # ps) = int (length (qp_Matches p)) + match_total ps"
  "match_total (ps @ qs) = match_total ps + match_total qs"
  by (simp_all add: match_total_def)

definition compared_entries :: "'j Sources \<Rightarrow> string \<Rightarrow> ComparisonSeriesEntry list \<Rightarrow> BundleComparison list \<Rightarrow> bool" where
  "compared_entries w path =
     list_all2 (\<lambda>e b. CompareBundleFile w (resolveManifestPath (Dir path) (se_Manifest e)) = Inr b)"

lemma query_loop_Inr:
  "query_loop w q (Dir path) n i r es = Inr r' \<Longrightarrow>
   \<exists>bs. compared_entries w path es bs \<and>
     r' = r\<lparr>qr_Entries := qr_Entries r @ found_points n q i (zip es bs),
       qr_Summary := \<lparr>qy_Points = qy_Points (qr_Summary r) + int (length (found_points n q i (zip es bs))),
         qy_Matches = qy_Matches (qr_Summary r) + match_total (found_points n q i (zip es bs))\<rparr>\<rparr>"
proof (induction es arbitrary: i r)
  case Nil
  then show ?case by (intro exI[of _ "[]"]) (simp add: compared_entries_def)
next
  case (Cons e es)
  from Cons.prems obtain b where b: "CompareBundleFile w (resolveManifestPath (Dir path) (se_Manifest e)) = Inr b"
    by (auto split: sum.splits)
  let ?p = "\<lparr>qp_Point = newSeriesPoint e b (Suc i = n), qp_Matches = matchSeriesQuery b q\<rparr>"
  let ?r = "if matchSeriesQuery b q = [] then r
    else r\<lparr>qr_Entries := qr_Entries r @ [?p], qr_Summary := \<lparr>qy_Points = qy_Points (qr_Summary r) + 1,
      qy_Matches = qy_Matches (qr_Summary r) + int (length (matchSeriesQuery b q))\<rparr>\<rparr>"
  have "query_loop w q (Dir path) n (Suc i) ?r es = Inr r'"
    using Cons.prems b by (simp add: Let_def split: if_splits)
  from Cons.IH[OF this] obtain bs where bs: "compared_entries w path es bs"
    and r': "r' = ?r\<lparr>qr_Entries := qr_Entries ?r @ found_points n q (Suc i) (zip es bs),
       qr_Summary := \<lparr>qy_Points = qy_Points (qr_Summary ?r) + int (length (found_points n q (Suc i) (zip es bs))),
         qy_Matches = qy_Matches (qr_Summary ?r) + match_total (found_points n q (Suc i) (zip es bs))\<rparr>\<rparr>" by blast
  have "compared_entries w path (e # es) (b # bs)" using b bs by (simp add: compared_entries_def)
  then show ?case using r' by (intro exI[of _ "b # bs"]) (simp add: algebra_simps)
qed

text \<open>The validation of the entries counts what it accepts.\<close>

lemma point_accepted:
  "(\<exists>c. SeriesQueryPoint_Validate p = Inr c) \<longleftrightarrow>
     validateSeriesPoint (qp_Point p) False = None \<and> qp_Matches p \<noteq> [] \<and>
     (\<forall>m \<in> set (qp_Matches p). SeriesQueryMatch_Validate m = None)"
  "SeriesQueryPoint_Validate p = Inr c \<Longrightarrow> c = int (length (qp_Matches p))"
proof -
  let ?e = "first_some
        [wrap_err (\<lambda>err. T ''query point: '' # err) (validateSeriesPoint (qp_Point p) False),
         fail_if (qp_Matches p = []) [T ''query point needs at least one match''],
         first_error (indexed_problem ''query match '' SeriesQueryMatch_Validate) (enumerate 0 (qp_Matches p))]"
  have e: "?e = None \<longleftrightarrow> validateSeriesPoint (qp_Point p) False = None \<and> qp_Matches p \<noteq> [] \<and>
     (\<forall>m \<in> set (qp_Matches p). SeriesQueryMatch_Validate m = None)"
    unfolding first_some_Cons_None first_some_Nil_None fail_if_None wrap_err_None first_error_None indexed_problem_def
    using ball_enumerate[of 0 "qp_Matches p" "\<lambda>m. SeriesQueryMatch_Validate m = None"] by blast
  have "(\<exists>c. SeriesQueryPoint_Validate p = Inr c) \<longleftrightarrow> ?e = None"
    unfolding SeriesQueryPoint_Validate_def by (cases ?e) (simp_all del: first_some.simps)
  then show "(\<exists>c. SeriesQueryPoint_Validate p = Inr c) \<longleftrightarrow>
     validateSeriesPoint (qp_Point p) False = None \<and> qp_Matches p \<noteq> [] \<and>
     (\<forall>m \<in> set (qp_Matches p). SeriesQueryMatch_Validate m = None)" using e by simp
  show "SeriesQueryPoint_Validate p = Inr c \<Longrightarrow> c = int (length (qp_Matches p))"
    unfolding SeriesQueryPoint_Validate_def by (simp split: option.splits del: first_some.simps)
qed

definition latest_points :: "SeriesQueryPoint list \<Rightarrow> int" where
  "latest_points ps = int (length (filter (\<lambda>p. sp_Latest (qp_Point p)) ps))"

lemma query_entries_result:
  "query_entries i seen l c ps = Inr x \<Longrightarrow> x = (l + latest_points ps, c + match_total ps)"
proof (induction ps arbitrary: i seen l c)
  case (Cons p ps)
  from Cons.prems obtain k where k: "SeriesQueryPoint_Validate p = Inr k"
    and rest: "query_entries (Suc i) (sp_ID (qp_Point p) # seen)
      (l + (if sp_Latest (qp_Point p) then 1 else 0)) (c + k) ps = Inr x"
    by (auto split: sum.splits if_splits)
  from Cons.IH[OF rest] point_accepted(2)[OF k] show ?case by (simp add: latest_points_def)
qed (simp add: latest_points_def)

lemma query_entries_accepted:
  "(\<exists>x. query_entries i seen l c ps = Inr x) \<longleftrightarrow>
     (\<forall>p \<in> set ps. \<exists>k. SeriesQueryPoint_Validate p = Inr k) \<and> distinct (map (\<lambda>p. sp_ID (qp_Point p)) ps) \<and>
     set seen \<inter> (\<lambda>p. sp_ID (qp_Point p)) ` set ps = {}"
proof (induction ps arbitrary: i seen l c)
  case (Cons p ps)
  show ?case
  proof (cases "SeriesQueryPoint_Validate p")
    case (Inl e)
    then show ?thesis by simp
  next
    case (Inr k)
    then show ?thesis using Cons.IH by auto
  qed
qed simp

lemma query_valid_iff:
  assumes "qr_Schema r = SeriesQuerySchema" "qr_Manifest r = path" "SeriesQuerySelector_Validate (qr_Query r) = None"
    and "qr_Summary r = \<lparr>qy_Points = int (length (qr_Entries r)), qy_Matches = match_total (qr_Entries r)\<rparr>"
    and "latest_points (qr_Entries r) \<le> 1" and "distinct (map (\<lambda>p. sp_ID (qp_Point p)) (qr_Entries r))"
  shows "SeriesQueryReport_Validate r = None \<longleftrightarrow>
    present_not_blank path \<and> (\<forall>p \<in> set (qr_Entries r). \<exists>k. SeriesQueryPoint_Validate p = Inr k)"
proof -
  have nonneg: "0 \<le> match_total ps" for ps by (induction ps) simp_all
  let ?c = "case query_entries 0 [] 0 0 (qr_Entries r) of
           Inl err \<Rightarrow> Some err
         | Inr (latest, count) \<Rightarrow>
             first_some
               [fail_if (latest > 1) [T ''series query can contain at most one latest point''],
                wrap_err (\<lambda>err. T ''series query: '' # err)
                  (SeriesQuerySummary_Validate (qr_Summary r) (int (length (qr_Entries r))) count)]"
  have "?c = None \<longleftrightarrow> (\<exists>x. query_entries 0 [] 0 0 (qr_Entries r) = Inr x)"
  proof (cases "query_entries 0 [] 0 0 (qr_Entries r)")
    case (Inr x)
    from query_entries_result[OF Inr] have x: "x = (latest_points (qr_Entries r), match_total (qr_Entries r))" by simp
    show ?thesis
      using assms(4,5) nonneg[of "qr_Entries r"]
      unfolding Inr x sum.case prod.case first_some_Cons_None first_some_Nil_None fail_if_None wrap_err_None
        SeriesQuerySummary_Validate_def by simp
  qed simp
  also have "\<dots> \<longleftrightarrow> (\<forall>p \<in> set (qr_Entries r). \<exists>k. SeriesQueryPoint_Validate p = Inr k)"
    unfolding query_entries_accepted using assms(6) by simp
  finally show ?thesis
    unfolding SeriesQueryReport_Validate_def first_some_Cons_None first_some_Nil_None fail_if_None wrap_err_None
    using assms(1-3) by (simp add: present_not_blank_def)
qed

text \<open>What the loop emits: the entries with matches, in order, of which the last alone can be the latest.\<close>

lemma found_points_entries:
  "map (\<lambda>p. (sp_ID (qp_Point p), qp_Matches p)) (found_points n q i xs) =
     filter (\<lambda>x. snd x \<noteq> []) (map (\<lambda>x. (se_ID (fst x), matchSeriesQuery (snd x) q)) xs)"
  by (induction xs arbitrary: i) simp_all

lemma found_points_ids: "distinct (map (\<lambda>x. se_ID (fst x)) xs) \<Longrightarrow> distinct (map (\<lambda>p. sp_ID (qp_Point p)) (found_points n q i xs))"
proof -
  have "(\<lambda>p. sp_ID (qp_Point p)) ` set (found_points n q i xs) \<subseteq> (\<lambda>x. se_ID (fst x)) ` set xs" for i xs
    by (induction xs arbitrary: i) auto
  then show "distinct (map (\<lambda>x. se_ID (fst x)) xs) \<Longrightarrow> ?thesis"
    by (induction xs arbitrary: i) (auto simp: image_iff subset_iff, metis image_eqI)
qed

lemma found_points_latest: "latest_points (found_points n q i xs) \<le> (if i < n then 1 else 0)"
proof (induction xs arbitrary: i)
  case (Cons x xs)
  from Cons[of "Suc i"] show ?case by (auto simp: latest_points_def split: if_splits)
qed (simp add: latest_points_def)

lemma found_points_mem:
  "(\<forall>p \<in> set (found_points n q i xs). P (qp_Point p) (qp_Matches p)) \<Longrightarrow> x \<in> set xs \<Longrightarrow>
     matchSeriesQuery (snd x) q \<noteq> [] \<Longrightarrow> \<exists>l. P (newSeriesPoint (fst x) (snd x) l) (matchSeriesQuery (snd x) q)"
  "(\<forall>x \<in> set xs. \<forall>l. matchSeriesQuery (snd x) q \<noteq> [] \<longrightarrow>
     P (newSeriesPoint (fst x) (snd x) l) (matchSeriesQuery (snd x) q)) \<Longrightarrow>
   p \<in> set (found_points n q i xs) \<Longrightarrow> P (qp_Point p) (qp_Matches p)"
  by (induction xs arbitrary: i) (auto split: if_splits)

text \<open>A match found in a bundle fails its validation only when its source has a path of white space.\<close>

definition matches_placed :: "SeriesQuerySelector \<Rightarrow> BundleComparison \<Rightarrow> bool" where
  "matches_placed q b \<longleftrightarrow> (\<forall>m \<in> set (matchSeriesQuery b q). present_not_blank (is_Path (qm_Source m)))"

lemma found_point_iff:
  assumes "bundle_wf b" "transitions_known b" "\<not> blank (se_ID e)" and "matchSeriesQuery b q \<noteq> []"
  shows "(\<exists>k. SeriesQueryPoint_Validate \<lparr>qp_Point = newSeriesPoint e b l, qp_Matches = matchSeriesQuery b q\<rparr> = Inr k) \<longleftrightarrow>
    \<not> blank (bn_Manifest b) \<and> nublar_settled b \<and> matches_placed q b"
proof -
  have "SeriesQueryMatch_Validate m = None \<longleftrightarrow> present_not_blank (is_Path (qm_Source m))"
    if "m \<in> set (matchSeriesQuery b q)" for m
    using that by (intro match_built_iff found_built[of _ b q]) simp
  then have "(\<forall>m \<in> set (matchSeriesQuery b q). SeriesQueryMatch_Validate m = None) \<longleftrightarrow> matches_placed q b"
    unfolding matches_placed_def by blast
  then show ?thesis unfolding point_accepted(1) using new_point_iff[OF assms(1-3)] assms(4) by simp
qed

definition compared_wf :: "ComparisonSeriesEntry \<times> BundleComparison \<Rightarrow> bool" where
  "compared_wf x \<longleftrightarrow> \<not> blank (se_ID (fst x)) \<and> bundle_wf (snd x) \<and> transitions_known (snd x)"

definition emitted_ok :: "SeriesQuerySelector \<Rightarrow> BundleComparison \<Rightarrow> bool" where
  "emitted_ok q b \<longleftrightarrow>
     matchSeriesQuery b q \<noteq> [] \<longrightarrow> \<not> blank (bn_Manifest b) \<and> nublar_settled b \<and> matches_placed q b"

lemma found_points_accepted:
  assumes wf: "\<forall>x \<in> set xs. compared_wf x"
  shows "(\<forall>p \<in> set (found_points n q i xs). \<exists>k. SeriesQueryPoint_Validate p = Inr k) \<longleftrightarrow>
    (\<forall>x \<in> set xs. emitted_ok q (snd x))"
proof -
  let ?P = "\<lambda>pt ms. \<exists>k. SeriesQueryPoint_Validate \<lparr>qp_Point = pt, qp_Matches = ms\<rparr> = Inr k"
  have eq: "\<lparr>qp_Point = qp_Point p, qp_Matches = qp_Matches p\<rparr> = p" for p :: SeriesQueryPoint by (cases p) simp
  have iff: "?P (newSeriesPoint (fst x) (snd x) l) (matchSeriesQuery (snd x) q) \<longleftrightarrow> emitted_ok q (snd x)"
    if "x \<in> set xs" "matchSeriesQuery (snd x) q \<noteq> []" for x l
    using found_point_iff[OF _ _ _ that(2)] wf that by (simp add: compared_wf_def emitted_ok_def)
  show ?thesis
  proof
    assume "\<forall>p \<in> set (found_points n q i xs). \<exists>k. SeriesQueryPoint_Validate p = Inr k"
    then have "\<forall>p \<in> set (found_points n q i xs). ?P (qp_Point p) (qp_Matches p)" by (simp only: eq)
    from found_points_mem(1)[OF this] iff show "\<forall>x \<in> set xs. emitted_ok q (snd x)"
      unfolding emitted_ok_def by blast
  next
    assume ok: "\<forall>x \<in> set xs. emitted_ok q (snd x)"
    have "?P (qp_Point p) (qp_Matches p)" if "p \<in> set (found_points n q i xs)" for p
      using found_points_mem(2)[of xs q ?P, OF _ that] iff ok by blast
    then show "\<forall>p \<in> set (found_points n q i xs). \<exists>k. SeriesQueryPoint_Validate p = Inr k"
      unfolding eq by blast
  qed
qed

lemma compared_entries_wf:
  assumes fit: "sources_fit w" and m: "loadComparisonSeriesManifest (w_read w) decode path = Inr m"
    and bs: "compared_entries w path (sf_Entries m) bs"
  shows "\<forall>x \<in> set (zip (sf_Entries m) bs). compared_wf x"
    and "distinct (map (\<lambda>x. se_ID (fst x)) (zip (sf_Entries m) bs))"
proof -
  note acc = series_manifest_accepted[OF m]
  show "\<forall>x \<in> set (zip (sf_Entries m) bs). compared_wf x"
  proof
    fix x assume x: "x \<in> set (zip (sf_Entries m) bs)"
    then have "CompareBundleFile w (resolveManifestPath (Dir path) (se_Manifest (fst x))) = Inr (snd x)"
      using bs unfolding compared_entries_def list_all2_iff by auto
    moreover have "fst x \<in> set (sf_Entries m)" using x set_zip_leftD[of "fst x" "snd x"] by simp
    ultimately show "compared_wf x" using compared_bundle_wf[OF fit] acc unfolding compared_wf_def by blast
  qed
  have "length bs = length (sf_Entries m)" using bs by (simp add: compared_entries_def list_all2_lengthD)
  then have fsts: "map fst (zip (sf_Entries m) bs) = sf_Entries m" by simp
  have "map (\<lambda>x. se_ID (fst x)) (zip (sf_Entries m) bs) = map se_ID (map fst (zip (sf_Entries m) bs))" by simp
  also have "\<dots> = map se_ID (sf_Entries m)" unfolding fsts ..
  finally show "distinct (map (\<lambda>x. se_ID (fst x)) (zip (sf_Entries m) bs))" using acc by simp
qed

text \<open>C32. A query of a history returns, in the order of the manifest, exactly the entries whose compared
  bundle has a match, each with all its matches; its summary counts them; and the report passes its
  own validation exactly when the path of the history is not made of white space and no returned
  bundle has such a path, an empty status of a Nublar run, or a match from a file with such a path.\<close>

theorem query_returns_matching_entries:
  fixes w :: "'j Sources"
  assumes fit: "sources_fit w" and r: "QuerySeriesManifestFile w decode path q = Inr r"
  shows "\<exists>m bs. loadComparisonSeriesManifest (w_read w) decode path = Inr m \<and>
    list_all2 (\<lambda>e b. CompareBundleFile w (resolveManifestPath (Dir path) (se_Manifest e)) = Inr b) (sf_Entries m) bs \<and>
    map (\<lambda>p. (sp_ID (qp_Point p), qp_Matches p)) (qr_Entries r) =
      filter (\<lambda>x. snd x \<noteq> []) (zip (map se_ID (sf_Entries m)) (map (\<lambda>b. matchSeriesQuery b q) bs)) \<and>
    qr_Summary r = \<lparr>qy_Points = int (length (qr_Entries r)),
      qy_Matches = sum_list (map (\<lambda>p. int (length (qp_Matches p))) (qr_Entries r))\<rparr> \<and>
    (SeriesQueryReport_Validate r = None \<longleftrightarrow> present_not_blank path \<and>
      (\<forall>b \<in> set bs. matchSeriesQuery b q \<noteq> [] \<longrightarrow>
         \<not> blank (bn_Manifest b) \<and> nublar_settled b \<and> matches_placed q b))"
proof -
  from r obtain m where q: "SeriesQuerySelector_Validate q = None"
    and m: "loadComparisonSeriesManifest (w_read w) decode path = Inr m"
    and l: "query_loop w q (Dir path) (length (sf_Entries m)) 0
      \<lparr>qr_Schema = SeriesQuerySchema, qr_Manifest = path, qr_Query = q,
       qr_Summary = \<lparr>qy_Points = 0, qy_Matches = 0\<rparr>, qr_Entries = []\<rparr> (sf_Entries m) = Inr r"
    unfolding QuerySeriesManifestFile_def by (auto split: option.splits sum.splits)
  from query_loop_Inr[OF l] obtain bs where bs: "compared_entries w path (sf_Entries m) bs"
    and eq: "r = \<lparr>qr_Schema = SeriesQuerySchema, qr_Manifest = path, qr_Query = q,
       qr_Summary = \<lparr>qy_Points = int (length (found_points (length (sf_Entries m)) q 0 (zip (sf_Entries m) bs))),
         qy_Matches = match_total (found_points (length (sf_Entries m)) q 0 (zip (sf_Entries m) bs))\<rparr>,
       qr_Entries = found_points (length (sf_Entries m)) q 0 (zip (sf_Entries m) bs)\<rparr>" by auto
  let ?xs = "zip (sf_Entries m) bs" and ?ps = "found_points (length (sf_Entries m)) q 0 (zip (sf_Entries m) bs)"
  note wf = compared_entries_wf[OF fit m bs]
  have len: "length (sf_Entries m) = length bs" using bs by (simp add: compared_entries_def list_all2_lengthD)
  have "SeriesQueryReport_Validate r = None \<longleftrightarrow>
      present_not_blank path \<and> (\<forall>p \<in> set (qr_Entries r). \<exists>k. SeriesQueryPoint_Validate p = Inr k)"
    using found_points_latest[of "length (sf_Entries m)" q 0 ?xs] found_points_ids[OF wf(2)] q
    by (intro query_valid_iff) (auto simp: eq split: if_splits)
  moreover have "(\<forall>p \<in> set (qr_Entries r). \<exists>k. SeriesQueryPoint_Validate p = Inr k) \<longleftrightarrow> (\<forall>b \<in> set bs. emitted_ok q b)"
    using found_points_accepted[OF wf(1)] len set_map[of snd ?xs] by (simp add: eq)
  moreover have "map (\<lambda>x. (se_ID (fst x), matchSeriesQuery (snd x) q)) ?xs =
      zip (map se_ID (sf_Entries m)) (map (\<lambda>b. matchSeriesQuery b q) bs)"
    by (simp add: zip_map_map case_prod_unfold)
  ultimately show ?thesis
    using m bs found_points_entries[of "length (sf_Entries m)" q 0 ?xs]
    by (intro exI[of _ m] exI[of _ bs]) (simp add: eq compared_entries_def emitted_ok_def match_total_def)
qed

section \<open>Investigations\<close>

lemma items_problem_None:
  "items_problem what check ident i seen xs = None \<longleftrightarrow>
     (\<forall>x \<in> set xs. check x = None) \<and> distinct (map ident xs) \<and> set seen \<inter> ident ` set xs = {}"
proof (induction xs arbitrary: i seen)
  case (Cons x xs)
  show ?case
    unfolding items_problem.simps first_some_Cons_None first_some_Nil_None wrap_err_None fail_if_None Cons.IH by auto
qed simp

lemma distinct_map_sort: "distinct (map f (sort_key g xs)) \<longleftrightarrow> distinct (map f xs)"
proof -
  have "distinct (map f ys) \<longleftrightarrow> card (f ` set ys) = length ys" for ys
    by (metis card_distinct distinct_card length_map list.set_map)
  then show ?thesis by (simp add: sort_key_perm)
qed

text \<open>The sources an investigation names are sound but for the path, which comes from the files.\<close>

definition source_built :: "InvestigationSourceRef \<Rightarrow> bool" where
  "source_built s \<longleftrightarrow>
     isInvestigationSubsystem (is_Subsystem s) \<and> (is_Side s = ''before'' \<or> is_Side s = ''after'') \<and> \<not> blank (is_Field s)"

definition sources_placed :: "InvestigationSourceRef list \<Rightarrow> bool" where
  "sources_placed ss \<longleftrightarrow> (\<forall>s \<in> set ss. present_not_blank (is_Path s))"

lemma sources_valid_iff:
  assumes "\<forall>s \<in> set ss. source_built s" and "required \<longrightarrow> ss \<noteq> []"
  shows "validateInvestigationSources ss required = None \<longleftrightarrow> sources_placed ss"
proof -
  have "validateInvestigationSource s = None \<longleftrightarrow> present_not_blank (is_Path s)" if "s \<in> set ss" for s
    using assms(1) that
    unfolding validateInvestigationSource_def first_some_Cons_None first_some_Nil_None fail_if_None
    by (auto simp: source_built_def present_not_blank_def)
  then have "(\<forall>s \<in> set ss. validateInvestigationSource s = None) \<longleftrightarrow> sources_placed ss"
    unfolding sources_placed_def by blast
  then show ?thesis
    using assms(2) ball_enumerate[of 0 ss "\<lambda>s. validateInvestigationSource s = None"]
    unfolding validateInvestigationSources_def first_some_Cons_None first_some_Nil_None fail_if_None first_error_None
      indexed_problem_def wrap_err_None by blast
qed

lemma sources_built:
  "n \<in> set subsystem_names \<Longrightarrow> \<not> blank field \<Longrightarrow> s \<in> set (investigationSources n field b a) \<Longrightarrow> source_built s"
  "investigationSources n field b a \<noteq> []"
  by (auto simp: investigationSources_def source_built_def isInvestigationSubsystem_def)

lemma confidence_known [simp]: "validateInvestigationConfidence (confidenceForSources ss) = None"
  by (simp add: validateInvestigationConfidence_def confidenceForSources_def)

definition evidence_built :: "InvestigationEvidenceChange \<Rightarrow> bool" where
  "evidence_built e \<longleftrightarrow>
     \<not> blank (iv_ID e) \<and> \<not> blank (iv_Field e) \<and> isInvestigationSubsystem (iv_Subsystem e) \<and>
     known_identity (iv_Identity e) \<and> validateInvestigationConfidence (iv_Confidence e) = None \<and>
     iv_Sources e \<noteq> [] \<and> (\<forall>s \<in> set (iv_Sources e). source_built s)"

lemma evidence_valid_iff:
  "evidence_built e \<Longrightarrow> InvestigationEvidence_Validate e = None \<longleftrightarrow> sources_placed (iv_Sources e)"
  unfolding InvestigationEvidence_Validate_def first_some_Cons_None first_some_Nil_None fail_if_None evidence_built_def
  using sources_valid_iff[of "iv_Sources e" True] by blast

definition named_evidence :: "string \<Rightarrow> InvestigationEvidenceChange list \<Rightarrow> bool" where
  "named_evidence n es \<longleftrightarrow>
     distinct (map iv_ID es) \<and>
     (\<forall>e \<in> set es. evidence_built e \<and> iv_Subsystem e = n \<and> (\<exists>t. iv_ID e = n @ CHR ''.'' # t))"

lemma subsystem_head: "n \<in> set subsystem_names \<Longrightarrow> \<not> blank (n @ t)"
  by (auto simp: plain_head_not_blank plain_byte_def byte_def)

lemma evidence_named:
  assumes "n \<in> set subsystem_names" "\<forall>c \<in> set cs. change_wf c" "distinct (map ch_ID cs)"
  shows "named_evidence n (map (evidence_of n b a) cs)"
proof -
  have id: "StableID c = ch_ID c" if "c \<in> set cs" for c using assms(2) that change_wf_StableID by blast
  have "evidence_built (evidence_of n b a c)" if c: "c \<in> set cs" for c
  proof -
    have "\<not> blank (StableID c)" "\<not> blank (ch_Field c)" "known_identity (ch_Identity c)"
      using assms(2) c change_wf_StableID[of c] by (auto simp: change_wf_def)
    then show ?thesis
      using assms(1) subsystem_head[OF assms(1), of "CHR ''.'' # StableID c"] sources_built(1)[OF assms(1)]
      by (simp add: evidence_built_def evidence_of_def Let_def isInvestigationSubsystem_def sources_built(2))
  qed
  moreover have "map iv_ID (map (evidence_of n b a) cs) = map (\<lambda>i. n @ CHR ''.'' # i) (map ch_ID cs)"
    using id by (simp add: evidence_of_def Let_def)
  then have "distinct (map iv_ID (map (evidence_of n b a) cs))"
    using assms(3) by (simp only: distinct_map inj_on_def append_same_eq same_append_eq list.inject) blast
  ultimately show ?thesis unfolding named_evidence_def by (auto simp: evidence_of_def Let_def)
qed

lemma named_evidence_Nil [simp]: "named_evidence n []"
  by (simp add: named_evidence_def)

lemma report_named:
  assumes "n \<in> set subsystem_names" "report_wf schema r"
  shows "named_evidence n (map (evidence_of n b a) (rt_Changes r))"
    and "named_evidence n (map (evidence_of n b a) (filter P (rt_Changes r)))"
  using assms by (auto intro!: evidence_named simp: report_wf_def changes_wf_def distinct_map_filter)

lemma different_subsystems:
  assumes "named_evidence n xs" "named_evidence m ys" "\<And>s t. n @ CHR ''.'' # s \<noteq> m @ CHR ''.'' # t"
  shows "iv_ID ` set xs \<inter> iv_ID ` set ys = {}"
  using assms unfolding named_evidence_def by fastforce

text \<open>The evidence of a compared bundle: well formed, with distinct identifiers.\<close>

lemma evidence_ok:
  assumes wf: "bundle_wf b"
  shows "distinct (map iv_ID (investigationEvidence b)) \<and> (\<forall>e \<in> set (investigationEvidence b). evidence_built e)"
proof -
  have a: "adapters_wf b" using wf by (simp add: bundle_wf_def)
  define ci where "ci = (case bn_CIResult b of None \<Rightarrow> []
      | Some c \<Rightarrow> map (evidence_of ''ci_result'' (as_Path (cm_Before c)) (as_Path (cm_After c))) (rt_Changes c))"
  define so where "so = (case bn_SornaRun b of None \<Rightarrow> []
      | Some c \<Rightarrow> map (evidence_of ''sorna_run'' (srs_Path (sn_Before c)) (srs_Path (sn_After c)))
          (filter (\<lambda>x. \<not> is_focused x) (rt_Changes c)))"
  define nu where "nu = (case bn_NublarRun b of None \<Rightarrow> []
      | Some c \<Rightarrow> map (evidence_of ''nublar_run'' (ns_Path (nm_Before c)) (ns_Path (nm_After c))) (rt_Changes c))"
  define cu where "cu = (case bn_Custody b of None \<Rightarrow> []
      | Some c \<Rightarrow> map (evidence_of ''custody'' (ls_Path (lm_Before c)) (ls_Path (lm_After c))) (rt_Changes c))"
  define pr where "pr = (case bn_Provenance b of None \<Rightarrow> []
      | Some c \<Rightarrow> map (evidence_of ''provenance'' (ap_Path (am_Before c)) (ap_Path (am_After c))) (rt_Changes c))"
  have n: "named_evidence ''ci_result'' ci" "named_evidence ''sorna_run'' so" "named_evidence ''nublar_run'' nu"
    "named_evidence ''custody'' cu" "named_evidence ''provenance'' pr"
  proof -
    note r = report_named[of "''ci_result''" ComparisonSchema] report_named[of "''sorna_run''" sornaRunComparisonSchema]
      report_named[of "''nublar_run''" nublarRunComparisonSchema] report_named[of "''custody''" lockwoodCustodyComparisonSchema]
      report_named[of "''provenance''" amberProvenanceComparisonSchema]
    show "named_evidence ''ci_result'' ci" using a unfolding ci_def
      by (cases "bn_CIResult b") (simp_all add: adapters_wf_def ci_wf_def r)
    show "named_evidence ''sorna_run'' so" using a unfolding so_def
      by (cases "bn_SornaRun b") (simp_all add: adapters_wf_def sorna_report_wf_def r)
    show "named_evidence ''nublar_run'' nu" using a unfolding nu_def
      by (cases "bn_NublarRun b") (simp_all add: adapters_wf_def r)
    show "named_evidence ''custody'' cu" using a unfolding cu_def
      by (cases "bn_Custody b") (simp_all add: adapters_wf_def r)
    show "named_evidence ''provenance'' pr" using a unfolding pr_def
      by (cases "bn_Provenance b") (simp_all add: adapters_wf_def provenance_wf_def r)
  qed
  have e: "investigationEvidence b = ci @ so @ nu @ cu @ pr"
    by (simp add: investigationEvidence_def ci_def so_def nu_def cu_def pr_def)
  have "iv_ID ` set ci \<inter> iv_ID ` set so = {}" "iv_ID ` set ci \<inter> iv_ID ` set nu = {}"
    "iv_ID ` set ci \<inter> iv_ID ` set cu = {}" "iv_ID ` set ci \<inter> iv_ID ` set pr = {}"
    "iv_ID ` set so \<inter> iv_ID ` set nu = {}" "iv_ID ` set so \<inter> iv_ID ` set cu = {}"
    "iv_ID ` set so \<inter> iv_ID ` set pr = {}" "iv_ID ` set nu \<inter> iv_ID ` set cu = {}"
    "iv_ID ` set nu \<inter> iv_ID ` set pr = {}" "iv_ID ` set cu \<inter> iv_ID ` set pr = {}"
    by (rule different_subsystems[OF n(1) n(2)] different_subsystems[OF n(1) n(3)]
          different_subsystems[OF n(1) n(4)] different_subsystems[OF n(1) n(5)]
          different_subsystems[OF n(2) n(3)] different_subsystems[OF n(2) n(4)]
          different_subsystems[OF n(2) n(5)] different_subsystems[OF n(3) n(4)]
          different_subsystems[OF n(3) n(5)] different_subsystems[OF n(4) n(5)]; simp)+
  then show ?thesis
    using n unfolding e map_append distinct_append named_evidence_def by (auto simp: image_Un Int_Un_distrib)
qed

text \<open>A finding is sound but for a blank subject and the paths; an unknown but for the paths.\<close>

definition finding_built :: "string set \<Rightarrow> InvestigationFinding \<Rightarrow> bool" where
  "finding_built ids f \<longleftrightarrow>
     \<not> blank (if_ID f) \<and> (if_Kind f = ''rule-change'' \<or> if_Kind f = ''mutation-change'') \<and>
     validateInvestigationConfidence (if_Confidence f) = None \<and> if_Sources f \<noteq> [] \<and>
     (\<forall>s \<in> set (if_Sources f). source_built s) \<and> set (if_RelatedEvidenceIDs f) \<subseteq> ids \<and>
     (\<forall>i \<in> set (if_RelatedEvidenceIDs f). \<not> blank i)"

lemma finding_valid_iff:
  "finding_built ids f \<Longrightarrow>
     InvestigationFinding_Validate f = None \<longleftrightarrow> \<not> blank (if_Subject f) \<and> sources_placed (if_Sources f)"
  unfolding InvestigationFinding_Validate_def first_some_Cons_None first_some_Nil_None fail_if_None finding_built_def
    validateInvestigationStringList_def first_error_None
  using sources_valid_iff[of "if_Sources f" True] by blast

lemma finding_related: "finding_built (set ids) f \<Longrightarrow> related_problem ids (i, f) = None"
  unfolding related_problem_def first_error_None first_some_Cons_None first_some_Nil_None fail_if_None finding_built_def
  by auto

lemma unknown_valid_iff:
  assumes "u \<in> set (investigationUnknowns b)"
  shows "InvestigationUnknown_Validate u = None \<longleftrightarrow> sources_placed (iu_Sources u)"
proof -
  have "\<not> blank (iu_ID u) \<and> \<not> blank (iu_Subject u) \<and> \<not> blank (iu_Message u) \<and>
      validateInvestigationConfidence (iu_Confidence u) = None \<and> (\<forall>s \<in> set (iu_Sources u). source_built s)"
    using assms
    by (auto simp: investigationUnknowns_def problem_def investigationSources_def source_built_def
        isInvestigationSubsystem_def plain_head_not_blank plain_byte_def byte_def
        validateInvestigationConfidence_def split: option.splits if_splits)
  then show ?thesis
    unfolding InvestigationUnknown_Validate_def first_some_Cons_None first_some_Nil_None fail_if_None
    using sources_valid_iff[of "iu_Sources u" False] by blast
qed

lemma unknowns_distinct: "distinct (map iu_ID (investigationUnknowns b))"
  by (auto simp: investigationUnknowns_def problem_def split: option.splits)

definition related_ok :: "string set \<Rightarrow> string list \<Rightarrow> bool" where
  "related_ok ids l \<longleftrightarrow> set l \<subseteq> ids \<and> (\<forall>i \<in> set l. \<not> blank i)"

lemma evidence_related:
  "\<forall>e \<in> set es. evidence_built e \<Longrightarrow> related_ok (set (map iv_ID es)) (investigationEvidenceIDs es n)"
  by (auto simp: related_ok_def investigationEvidenceIDs_def evidence_built_def)

lemma finding_heads:
  "\<not> blank (''rule.'' @ x)" "\<not> blank (''mutation.sorna_run.'' @ x)" "\<not> blank (''mutation.ci_result.'' @ x)"
  "\<not> blank (''mutation'' @ x)" "\<not> blank (''rules.'' @ x)" "\<not> blank ''producer-report.report''"
  by (simp_all add: plain_head_not_blank plain_byte_def byte_def)

lemma rule_finding_built: "related_ok ids l \<Longrightarrow> finding_built ids (rule_finding l c x)"
  using finding_heads(1) sources_built(1)[OF names_known(2) finding_heads(5)[of "rsc_RuleID x @ ''.status''"]]
  by (simp add: finding_built_def rule_finding_def Let_def related_ok_def sources_built(2))

lemma sorna_finding_built:
  "related_ok ids l \<Longrightarrow> f \<in> set (sorna_mutation_finding marshal l c) \<Longrightarrow>
     finding_built ids f \<and> if_Kind f = ''mutation-change'' \<and> (\<exists>t. if_ID f = ''mutation.sorna_run.'' @ t)"
  using finding_heads(2) sources_built(1)[OF names_known(2) finding_heads(4)]
  by (auto simp: finding_built_def sorna_mutation_finding_def Let_def related_ok_def sources_built(2) split: if_splits)

lemma campaign_finding_built: "related_ok ids l \<Longrightarrow> finding_built ids (campaign_finding l c x)"
  using finding_heads(3) sources_built(1)[OF names_known(1) finding_heads(6)]
  by (simp add: finding_built_def campaign_finding_def Let_def related_ok_def sources_built(2))

definition run_findings ::
  "(Value \<Rightarrow> 'j option) \<Rightarrow> BundleComparison \<Rightarrow> InvestigationEvidenceChange list \<Rightarrow> InvestigationFinding list" where
  "run_findings marshal b es =
     (case bn_SornaRun b of None \<Rightarrow> []
      | Some c \<Rightarrow> map (rule_finding (investigationEvidenceIDs es ''sorna_run'') c) (sn_ChangedRules c) @
          sorna_mutation_finding marshal (investigationEvidenceIDs es ''sorna_run'') c)"

definition envelope_findings :: "BundleComparison \<Rightarrow> InvestigationEvidenceChange list \<Rightarrow> InvestigationFinding list" where
  "envelope_findings b es =
     (case bn_CIResult b of None \<Rightarrow> []
      | Some c \<Rightarrow> (case cm_MutationCampaign c of None \<Rightarrow> []
         | Some k \<Rightarrow> map (campaign_finding (investigationEvidenceIDs es ''ci_result'') c) (mk_ChangedMutations k)))"

lemma findings_split: "investigationFindings marshal b es = run_findings marshal b es @ envelope_findings b es"
  unfolding investigationFindings_def run_findings_def envelope_findings_def Let_def ..

lemma run_findings_ok:
  assumes "pred_option sorna_report_wf (bn_SornaRun b)" and r: "\<forall>e \<in> set es. evidence_built e"
  shows "distinct (map if_ID (run_findings marshal b es))"
    and "f \<in> set (run_findings marshal b es) \<Longrightarrow> finding_built (set (map iv_ID es)) f \<and> (\<nexists>t. if_ID f = ''mutation.ci_result.'' @ t)"
proof -
  note rel = evidence_related[OF r, of "''sorna_run''"]
  show "distinct (map if_ID (run_findings marshal b es))"
  proof (cases "bn_SornaRun b")
    case (Some c)
    let ?l = "investigationEvidenceIDs es ''sorna_run''"
    have "distinct (map rsc_RuleID (sn_ChangedRules c))" using assms(1) Some by (simp add: sorna_report_wf_def)
    then have "distinct (map if_ID (map (rule_finding ?l c) (sn_ChangedRules c)))"
      by (simp add: rule_finding_def Let_def comp_def distinct_map inj_on_def)
    moreover have "distinct (map if_ID (sorna_mutation_finding marshal ?l c))"
      by (simp add: sorna_mutation_finding_def Let_def)
    moreover have "if_ID ` set (map (rule_finding ?l c) (sn_ChangedRules c)) \<inter>
        if_ID ` set (sorna_mutation_finding marshal ?l c) = {}"
      using sorna_finding_built[OF rel, of _ marshal c] by (fastforce simp: rule_finding_def Let_def)
    ultimately show ?thesis
      unfolding run_findings_def Some option.case map_append distinct_append set_map by blast
  qed (simp add: run_findings_def)
  show "f \<in> set (run_findings marshal b es) \<Longrightarrow> finding_built (set (map iv_ID es)) f \<and> (\<nexists>t. if_ID f = ''mutation.ci_result.'' @ t)"
  proof (cases "bn_SornaRun b")
    case (Some c)
    assume "f \<in> set (run_findings marshal b es)"
    then consider x where "f = rule_finding (investigationEvidenceIDs es ''sorna_run'') c x"
      | "f \<in> set (sorna_mutation_finding marshal (investigationEvidenceIDs es ''sorna_run'') c)"
      by (auto simp: run_findings_def Some)
    then show ?thesis
    proof cases
      case 1
      then show ?thesis using rule_finding_built[OF rel] by (simp add: rule_finding_def Let_def)
    next
      case 2
      then show ?thesis using sorna_finding_built[OF rel] by fastforce
    qed
  qed (simp add: run_findings_def)
qed

lemma envelope_findings_ok:
  assumes "pred_option ci_wf (bn_CIResult b)" and r: "\<forall>e \<in> set es. evidence_built e"
  shows "distinct (map if_ID (envelope_findings b es))"
    and "f \<in> set (envelope_findings b es) \<Longrightarrow> finding_built (set (map iv_ID es)) f \<and>
      if_Kind f = ''mutation-change'' \<and> (\<exists>t. if_ID f = ''mutation.ci_result.'' @ t)"
proof -
  have "map if_ID (map (campaign_finding l c) xs) = map ((@) ''mutation.ci_result.'') (map mo_MutationID xs)" for l c xs
    by (simp add: campaign_finding_def Let_def)
  moreover have "distinct (map ((@) ''mutation.ci_result.'') ys) \<longleftrightarrow> distinct ys" for ys
    by (simp add: distinct_map inj_on_def)
  ultimately have "distinct (map if_ID (map (campaign_finding l c) xs)) \<longleftrightarrow> distinct (map mo_MutationID xs)" for l c xs
    by (simp only:)
  then show "distinct (map if_ID (envelope_findings b es))"
    using assms(1) unfolding envelope_findings_def
    by (cases "bn_CIResult b"; cases "cm_MutationCampaign (the (bn_CIResult b))") (simp_all add: ci_wf_def del: map_map)
  show "f \<in> set (envelope_findings b es) \<Longrightarrow> finding_built (set (map iv_ID es)) f \<and>
      if_Kind f = ''mutation-change'' \<and> (\<exists>t. if_ID f = ''mutation.ci_result.'' @ t)"
    using campaign_finding_built[OF evidence_related[OF r, of "''ci_result''"]]
    by (auto simp: envelope_findings_def campaign_finding_def Let_def split: option.splits)
qed

lemma findings_ok:
  fixes marshal :: "Value \<Rightarrow> 'j option"
  assumes "bundle_wf b"
  defines "es \<equiv> investigationEvidence b"
  shows "distinct (map if_ID (investigationFindings marshal b es))"
    and "f \<in> set (investigationFindings marshal b es) \<Longrightarrow> finding_built (set (map iv_ID es)) f"
proof -
  have a: "pred_option sorna_report_wf (bn_SornaRun b)" "pred_option ci_wf (bn_CIResult b)"
    using assms(1) by (simp_all add: bundle_wf_def adapters_wf_def)
  have r: "\<forall>e \<in> set es. evidence_built e" using evidence_ok[OF assms(1)] by (simp add: es_def)
  note run = run_findings_ok[OF a(1) r, where marshal = marshal] and env = envelope_findings_ok[OF a(2) r]
  have "if_ID ` set (run_findings marshal b es) \<inter> if_ID ` set (envelope_findings b es) = {}"
  proof -
    have "if_ID f \<noteq> if_ID g" if f: "f \<in> set (run_findings marshal b es)" and g: "g \<in> set (envelope_findings b es)" for f g
      using conjunct2[OF run(2)[OF f]] conjunct2[OF conjunct2[OF env(2)[OF g]]] by (elim exE) (simp only: not_ex, blast)
    then show ?thesis by blast
  qed
  then show "distinct (map if_ID (investigationFindings marshal b es))"
    using run(1) env(1) unfolding findings_split by simp
  show "f \<in> set (investigationFindings marshal b es) \<Longrightarrow> finding_built (set (map iv_ID es)) f"
    using run(2) env(2) unfolding findings_split by auto
qed

definition changed_rules :: "BundleComparison \<Rightarrow> SornaRuleStatusChange list" where
  "changed_rules b = (case bn_SornaRun b of None \<Rightarrow> [] | Some c \<Rightarrow> sn_ChangedRules c)"

definition rule_observations :: "InvestigationFinding list \<Rightarrow> (string \<times> Value \<times> Value) list" where
  "rule_observations fs =
     map (\<lambda>f. (if_Subject f, if_Before f, if_After f)) (filter (\<lambda>f. if_Kind f = ''rule-change'') fs)"

lemma findings_rules:
  assumes "bundle_wf b"
  defines "es \<equiv> investigationEvidence b"
  shows "rule_observations (investigationFindings marshal b es) =
    map (\<lambda>x. (rsc_RuleID x, optionalString (rsc_Before x), optionalString (rsc_After x))) (changed_rules b)"
proof -
  have r: "\<forall>e \<in> set es. evidence_built e" using evidence_ok[OF assms(1)] by (simp add: es_def)
  have "filter (\<lambda>f. if_Kind f = ''rule-change'') (sorna_mutation_finding marshal l c) = []" for l c
    by (simp add: sorna_mutation_finding_def Let_def)
  moreover have "filter (\<lambda>f. if_Kind f = ''rule-change'') (map (rule_finding l c) xs) = map (rule_finding l c) xs" for l c xs
    by (simp add: filter_map comp_def rule_finding_def Let_def)
  moreover have "filter (\<lambda>f. if_Kind f = ''rule-change'') (envelope_findings b es) = []"
    by (simp add: envelope_findings_def campaign_finding_def Let_def filter_map comp_def split: option.split)
  ultimately show ?thesis
    unfolding findings_split run_findings_def rule_observations_def changed_rules_def filter_append
    by (cases "bn_SornaRun b") (simp_all add: rule_finding_def Let_def)
qed

text \<open>The report over a compared, possibly filtered bundle.\<close>

lemma investigation_iff:
  fixes marshal :: "Value \<Rightarrow> 'j option"
  assumes wf: "bundle_wf b"
  defines "rep \<equiv> NewInvestigationReport marshal b"
  shows "InvestigationReport_Validate rep = None \<longleftrightarrow> present_not_blank (bn_Manifest b) \<and>
    (\<forall>f \<in> set (ir_Findings rep). \<not> blank (if_Subject f) \<and> sources_placed (if_Sources f)) \<and>
    (\<forall>e \<in> set (ir_Evidence rep). sources_placed (iv_Sources e)) \<and>
    (\<forall>u \<in> set (ir_Unknowns rep). sources_placed (iu_Sources u))"
proof -
  let ?es = "investigationEvidence b"
  have sets: "set (ir_Findings rep) = set (investigationFindings marshal b ?es)"
    "set (ir_Evidence rep) = set ?es" "set (ir_Unknowns rep) = set (investigationUnknowns b)"
    by (simp_all add: rep_def NewInvestigationReport_def Let_def)
  have ids: "distinct (map if_ID (ir_Findings rep))" "distinct (map iv_ID (ir_Evidence rep))"
    "distinct (map iu_ID (ir_Unknowns rep))"
    using findings_ok(1)[OF wf, where marshal = marshal] evidence_ok[OF wf] unknowns_distinct[of b]
    by (simp_all add: rep_def NewInvestigationReport_def Let_def distinct_map_sort)
  have f: "finding_built (set (map iv_ID (ir_Evidence rep))) f" if "f \<in> set (ir_Findings rep)" for f
    using findings_ok(2)[OF wf] that unfolding sets set_map by simp
  have findings: "(\<forall>f \<in> set (ir_Findings rep). InvestigationFinding_Validate f = None) \<longleftrightarrow>
      (\<forall>f \<in> set (ir_Findings rep). \<not> blank (if_Subject f) \<and> sources_placed (if_Sources f))"
    using finding_valid_iff f by blast
  have evidence: "(\<forall>e \<in> set (ir_Evidence rep). InvestigationEvidence_Validate e = None) \<longleftrightarrow>
      (\<forall>e \<in> set (ir_Evidence rep). sources_placed (iv_Sources e))"
    using evidence_valid_iff evidence_ok[OF wf] unfolding sets by blast
  have unknowns: "(\<forall>u \<in> set (ir_Unknowns rep). InvestigationUnknown_Validate u = None) \<longleftrightarrow>
      (\<forall>u \<in> set (ir_Unknowns rep). sources_placed (iu_Sources u))"
    using unknown_valid_iff unfolding sets by blast
  have "related_problem (map iv_ID (ir_Evidence rep)) x = None" if "x \<in> set (enumerate 0 (ir_Findings rep))" for x
  proof -
    have "snd x \<in> set (ir_Findings rep)" using that by (metis imageI list.set_map map_snd_enumerate)
    from finding_related[OF f[OF this], of "fst x"] show ?thesis by simp
  qed
  then have related: "first_error (related_problem (map iv_ID (ir_Evidence rep))) (enumerate 0 (ir_Findings rep)) = None"
    unfolding first_error_None by blast
  have filter: "validateInvestigationStringList (ir_ChangeIDFilter rep) name = None" for name
    using wf by (simp add: rep_def NewInvestigationReport_def Let_def validateInvestigationStringList_def
        first_error_None bundle_wf_def)
  have fixed: "ir_Schema rep = InvestigationSchema" "ir_Notice rep = investigationNotice" "ir_Manifest rep = bn_Manifest b"
    by (simp_all add: rep_def NewInvestigationReport_def Let_def)
  show ?thesis
    unfolding InvestigationReport_Validate_def first_some_Cons_None first_some_Nil_None fail_if_None
      items_problem_None findings evidence unknowns fixed
    using ids related filter by (simp add: present_not_blank_def)
qed

text \<open>The investigation of a compared bundle, filtered or not, has one finding for each changed rule
  of its Sorna runs, with the statuses of the two sides, relates its findings to evidence that is there
  and names no evidence twice; and it passes its own validation exactly when the path of the bundle is
  not made of white space, no finding has a blank subject and no source has a path of white space.\<close>

theorem investigation_written_iff:
  fixes w :: "'j Sources" and path ids
  assumes fit: "sources_fit w" and r: "CompareBundleFile w path = Inr r"
  shows "let b = FilterBundleChanges r ids; rep = NewInvestigationReport (w_marshal w) b in
    set (rule_observations (ir_Findings rep)) =
      (\<lambda>x. (rsc_RuleID x, optionalString (rsc_Before x), optionalString (rsc_After x))) ` set (changed_rules b) \<and>
    distinct (map iv_ID (ir_Evidence rep)) \<and>
    (\<forall>f \<in> set (ir_Findings rep). set (if_RelatedEvidenceIDs f) \<subseteq> iv_ID ` set (ir_Evidence rep)) \<and>
    (InvestigationReport_Validate rep = None \<longleftrightarrow> present_not_blank path \<and>
      (\<forall>f \<in> set (ir_Findings rep). \<not> blank (if_Subject f) \<and> sources_placed (if_Sources f)) \<and>
      (\<forall>e \<in> set (ir_Evidence rep). sources_placed (iv_Sources e)) \<and>
      (\<forall>u \<in> set (ir_Unknowns rep). sources_placed (iu_Sources u)))"
proof -
  let ?b = "FilterBundleChanges r ids"
  let ?rep = "NewInvestigationReport (w_marshal w) ?b"
  have wf: "bundle_wf ?b" and p: "bn_Manifest ?b = path"
    using compared_bundle_wf[OF fit r] FilterBundleChanges_wf by auto
  have sets: "set (ir_Findings ?rep) = set (investigationFindings (w_marshal w) ?b (investigationEvidence ?b))"
    "set (ir_Evidence ?rep) = set (investigationEvidence ?b)"
    by (simp_all add: NewInvestigationReport_def Let_def)
  have "set (rule_observations (ir_Findings ?rep)) =
      set (rule_observations (investigationFindings (w_marshal w) ?b (investigationEvidence ?b)))"
    unfolding rule_observations_def set_map set_filter sets ..
  moreover have "set (if_RelatedEvidenceIDs f) \<subseteq> iv_ID ` set (ir_Evidence ?rep)" if "f \<in> set (ir_Findings ?rep)" for f
    using findings_ok(2)[OF wf that[unfolded sets]] unfolding sets finding_built_def set_map by blast
  moreover have "distinct (map iv_ID (ir_Evidence ?rep))"
    using evidence_ok[OF wf] by (simp add: NewInvestigationReport_def Let_def distinct_map_sort)
  ultimately show ?thesis
    using investigation_iff[OF wf, of "w_marshal w"] unfolding Let_def p findings_rules[OF wf] set_map by blast
qed

section \<open>Examples\<close>

definition ex_query :: SeriesQuerySelector where "ex_query = \<lparr>qs_Kind = ''workflow'', qs_Value = ''wf''\<rparr>"

lemma ex_found:
  "result_with (\<lambda>r. qr_Entries r \<noteq> [] \<and> SeriesQueryReport_Validate r = None)
     (QuerySeriesManifestFile (ex_sources ''passed'') ex_series ''s.json'' ex_query)"
  by code_simp

theorem query_returns_matching_entries_witness:
  "\<exists>r. QuerySeriesManifestFile (ex_sources ''passed'') ex_series ''s.json'' ex_query = Inr r \<and>
     qr_Entries r \<noteq> [] \<and> qy_Points (qr_Summary r) = int (length (qr_Entries r)) \<and> present_not_blank ''s.json''"
proof -
  from ex_found obtain r where r: "QuerySeriesManifestFile (ex_sources ''passed'') ex_series ''s.json'' ex_query = Inr r"
    and n: "qr_Entries r \<noteq> []" "SeriesQueryReport_Validate r = None" unfolding result_with_iff by blast
  from query_returns_matching_entries[OF ex_fit(1) r] n
  have "qr_Summary r = \<lparr>qy_Points = int (length (qr_Entries r)),
      qy_Matches = sum_list (map (\<lambda>p. int (length (qp_Matches p))) (qr_Entries r))\<rparr>" "present_not_blank ''s.json''" by blast+
  with r n show ?thesis by simp
qed

text \<open>Two Sorna runs whose rule goes from passed to failed.\<close>

definition ex_failed :: sornaRunDocument where
  "ex_failed = (ex_sorna ''s'')\<lparr>srd_ContractVerdict := \<lparr>sv_Status = ''fail'', sv_Reason = []\<rparr>,
     srd_Summary := \<lparr>sto_Passed = 0, sto_Failed = 1, sto_Errors = 0, sto_Inconclusive = 0, sto_Skipped = 0\<rparr>,
     srd_Rules := [\<lparr>sr_RuleID = ''r'', sr_CaseID = ''c'', sr_Subject = ''s'', sr_Status = ''fail'', sr_Reason = []\<rparr>]\<rparr>"

definition ex_runs :: "Value Sources" where
  "ex_runs = (ex_sources [])\<lparr>w_manifest := (\<lambda>x. Inr \<lparr>cmf_Schema = ComparisonManifestSchema,
        cmf_Before = \<lparr>cin_CIResult = [], cin_SornaRun = ''b'', cin_NublarRun = [], cin_Custody = [], cin_Provenance = []\<rparr>,
        cmf_After = \<lparr>cin_CIResult = [], cin_SornaRun = ''a'', cin_NublarRun = [], cin_Custody = [], cin_Provenance = []\<rparr>\<rparr>),
     w_sorna := ex_decode (ex_sorna ''s'') ex_failed\<rparr>"

lemma ex_runs_fit: "sources_fit ex_runs"
  by (simp add: sources_fit_def ex_runs_def ex_sources_def sorna_fit_def ex_sorna_def ex_failed_def ex_decode_def
      inputs_fit_def nublar_fit_def ex_nublar_def)

lemma ex_investigated:
  "result_with (\<lambda>r. changed_rules (FilterBundleChanges r []) \<noteq> [] \<and>
      InvestigationReport_Validate (NewInvestigationReport (w_marshal ex_runs) (FilterBundleChanges r [])) = None)
     (CompareBundleFile ex_runs ''m.json'')"
  by code_simp

theorem investigation_written_iff_witness:
  "\<exists>r. CompareBundleFile ex_runs ''m.json'' = Inr r \<and>
     rule_observations (ir_Findings (NewInvestigationReport (w_marshal ex_runs) (FilterBundleChanges r []))) \<noteq> [] \<and>
     present_not_blank ''m.json''"
proof -
  from ex_investigated obtain r where r: "CompareBundleFile ex_runs ''m.json'' = Inr r"
    and n: "changed_rules (FilterBundleChanges r []) \<noteq> []"
      "InvestigationReport_Validate (NewInvestigationReport (w_marshal ex_runs) (FilterBundleChanges r [])) = None"
    unfolding result_with_iff by blast
  have "set (rule_observations (ir_Findings (NewInvestigationReport (w_marshal ex_runs) (FilterBundleChanges r [])))) =
      (\<lambda>x. (rsc_RuleID x, optionalString (rsc_Before x), optionalString (rsc_After x))) `
        set (changed_rules (FilterBundleChanges r []))" "present_not_blank ''m.json''"
    using investigation_written_iff[OF ex_runs_fit r, of "[]"] n(2) unfolding Let_def by blast+
  moreover have "xs \<noteq> []" if "set xs = f ` set ys" "ys \<noteq> []" for xs :: "'x list" and f and ys :: "'y list"
    using that by (cases ys) auto
  ultimately show ?thesis using r n(1) by blast
qed

end
