(* ===== verification/SornaJson.thy ===== *)
theory SornaJson
  imports GoStrings GoTime
begin

text \<open>
  The values of type \<open>any\<close> that Sorna passes between the YAML reader, the contract, the oracle and
  the runner: \<open>nil\<close>, booleans, 64-bit integers and floats (from YAML), \<open>json.Number\<close> (from JSON),
  strings, slices and maps.  A map is an association list with distinct keys, whose order stands for
  that of an iteration.  A float is \<open>m * 2 ^ e\<close> with the least exponent, so equal floats are equal
  values; \<open>NaN\<close> differs from itself.  How a float is printed is an argument where it matters.
\<close>

datatype Float = Finite int int | Infinite bool | NaN

datatype Json =
    JNull
  | JBool bool
  | JInt int
  | JFloat Float
  | JNumber string
  | JString string
  | JArray "Json list"
  | JObject "(string \<times> Json) list"

type_synonym object = "(string, Json) gomap"

text \<open>The type assertions; \<open>None\<close> is the \<open>nil\<close> that a missing key reads as.\<close>

definition as_string :: "Json option \<Rightarrow> string option" where
  "as_string v = (case v of Some (JString s) \<Rightarrow> Some s | _ \<Rightarrow> None)"

definition as_list :: "Json option \<Rightarrow> Json list option" where
  "as_list v = (case v of Some (JArray xs) \<Rightarrow> Some xs | _ \<Rightarrow> None)"

definition as_object :: "Json option \<Rightarrow> object option" where
  "as_object v = (case v of Some (JObject m) \<Rightarrow> Some m | _ \<Rightarrow> None)"

definition as_bool :: "Json option \<Rightarrow> bool option" where
  "as_bool v = (case v of Some (JBool b) \<Rightarrow> Some b | _ \<Rightarrow> None)"

definition string_or_empty :: "Json option \<Rightarrow> string" where
  "string_or_empty v = (case as_string v of Some s \<Rightarrow> s | None \<Rightarrow> [])"

lemma as_simps [simp]:
  "as_string (Some (JString s)) = Some s" "as_string None = None"
  "as_list (Some (JArray xs)) = Some xs" "as_list None = None"
  "as_object (Some (JObject m)) = Some m" "as_object None = None"
  "as_bool (Some (JBool b)) = Some b" "as_bool None = None"
  by (simp_all add: as_string_def as_list_def as_object_def as_bool_def)

lemma as_Some:
  "as_string v = Some s \<longleftrightarrow> v = Some (JString s)" "as_list v = Some xs \<longleftrightarrow> v = Some (JArray xs)"
  "as_object v = Some m \<longleftrightarrow> v = Some (JObject m)"
  by (auto simp: as_string_def as_list_def as_object_def split: option.splits Json.splits)

section \<open>Integers\<close>

definition int64 :: "int \<Rightarrow> bool" where
  "int64 n \<longleftrightarrow> - (2 ^ 63) \<le> n \<and> n < 2 ^ 63"

text \<open>\<open>strconv.ParseInt(s, 10, 64)\<close>.\<close>

definition parse_digits :: "string \<Rightarrow> int option" where
  "parse_digits s = (if s = [] \<or> \<not> list_all is_digit s then None else Some (dec_val 0 s))"

definition in_range :: "int \<Rightarrow> int option" where
  "in_range n = (if int64 n then Some n else None)"

definition ParseInt :: "string \<Rightarrow> int option" where
  "ParseInt s =
     (case s of
        [] \<Rightarrow> None
      | c # r \<Rightarrow>
          if c = CHR ''-'' then Option.bind (parse_digits r) (\<lambda>n. in_range (- n))
          else if c = CHR ''+'' then Option.bind (parse_digits r) in_range
          else Option.bind (parse_digits s) in_range)"

text \<open>The 64-bit integer a float equals, if there is one.\<close>

definition float_int :: "Float \<Rightarrow> int option" where
  "float_int f =
     (case f of
        Finite m e \<Rightarrow>
          if 0 \<le> e then in_range (m * 2 ^ nat e)
          else if 2 ^ nat (- e) dvd m then in_range (m div 2 ^ nat (- e)) else None
      | _ \<Rightarrow> None)"

definition integer :: "Json option \<Rightarrow> int option" where
  "integer v =
     (case v of
        Some (JInt n) \<Rightarrow> Some n
      | Some (JNumber s) \<Rightarrow> ParseInt s
      | Some (JFloat f) \<Rightarrow> float_int f
      | _ \<Rightarrow> None)"

definition positive_integer :: "Json option \<Rightarrow> bool" where
  "positive_integer v \<longleftrightarrow> (case integer v of Some n \<Rightarrow> 1 \<le> n | None \<Rightarrow> False)"

lemma digit_of_hex_digit: "0 \<le> n \<Longrightarrow> n < 10 \<Longrightarrow> is_digit (hex_digit n) \<and> digit_val (hex_digit n) = n"
  by (simp add: is_digit_def digit_val_def byte_hex_digit)

lemma dec_val_append: "dec_val a (xs @ [c]) = dec_val a xs * 10 + digit_val c"
  by (induction xs arbitrary: a) simp_all

lemma dec_nat_digits: "0 \<le> n \<Longrightarrow> dec_nat n \<noteq> [] \<and> list_all is_digit (dec_nat n) \<and> dec_val 0 (dec_nat n) = n"
proof (induction n rule: dec_nat.induct)
  case (1 n)
  show ?case
  proof (cases "n < 10")
    case True
    then show ?thesis using 1(2) digit_of_hex_digit by (simp add: dec_nat.simps[of n])
  next
    case False
    have m: "0 \<le> n mod 10" "n mod 10 < 10" by simp_all
    have "dec_nat (n div 10) \<noteq> [] \<and> list_all is_digit (dec_nat (n div 10)) \<and> dec_val 0 (dec_nat (n div 10)) = n div 10"
      using 1 False by simp
    then show ?thesis using digit_of_hex_digit[OF m] False by (simp add: dec_nat.simps[of n] dec_val_append)
  qed
qed

lemma digit_not_sign: "is_digit c \<Longrightarrow> c \<noteq> CHR ''-'' \<and> c \<noteq> CHR ''+''"
  by (auto simp: is_digit_def byte_def)

lemma ParseInt_dec_string: "int64 n \<Longrightarrow> ParseInt (dec_string n) = Some n"
proof -
  assume n: "int64 n"
  show ?thesis
  proof (cases "n < 0")
    case True
    then show ?thesis
      using dec_nat_digits[of "- n"] n by (simp add: ParseInt_def dec_string_def parse_digits_def in_range_def)
  next
    case False
    with dec_nat_digits[of n] obtain c r where c: "dec_nat n = c # r" "list_all is_digit (c # r)" "dec_val 0 (c # r) = n"
      by (cases "dec_nat n") auto
    then show ?thesis
      using digit_not_sign[of c] n False by (simp add: ParseInt_def dec_string_def parse_digits_def in_range_def)
  qed
qed

lemma dec_string_inj: "0 \<le> a \<Longrightarrow> 0 \<le> b \<Longrightarrow> dec_string a = dec_string b \<Longrightarrow> a = b"
proof -
  assume a: "0 \<le> a" and b: "0 \<le> b" and e: "dec_string a = dec_string b"
  then have "dec_nat a = dec_nat b" by (simp add: dec_string_def)
  then show "a = b" using dec_nat_digits[OF a] dec_nat_digits[OF b] by metis
qed

section \<open>Equality of values\<close>

text \<open>\<open>reflect.DeepEqual\<close>: maps are equal whatever their order, and \<open>NaN\<close> equals nothing.\<close>

fun deep_equal :: "Json \<Rightarrow> Json \<Rightarrow> bool"
  and equal_items :: "Json list \<Rightarrow> Json list \<Rightarrow> bool"
  and equal_fields :: "object \<Rightarrow> object \<Rightarrow> bool" where
  "deep_equal JNull b = (b = JNull)"
| "deep_equal (JBool x) b = (b = JBool x)"
| "deep_equal (JInt n) b = (b = JInt n)"
| "deep_equal (JFloat f) b = (f \<noteq> NaN \<and> b = JFloat f)"
| "deep_equal (JNumber s) b = (b = JNumber s)"
| "deep_equal (JString s) b = (b = JString s)"
| "deep_equal (JArray xs) b = (case b of JArray ys \<Rightarrow> equal_items xs ys | _ \<Rightarrow> False)"
| "deep_equal (JObject m) b = (case b of JObject k \<Rightarrow> length m = length k \<and> equal_fields m k | _ \<Rightarrow> False)"
| "equal_items [] ys = (ys = [])"
| "equal_items (x # xs) ys = (case ys of [] \<Rightarrow> False | y # zs \<Rightarrow> deep_equal x y \<and> equal_items xs zs)"
| "equal_fields [] k = True"
| "equal_fields (p # m) k = ((case map_of k (fst p) of None \<Rightarrow> False | Some y \<Rightarrow> deep_equal (snd p) y) \<and> equal_fields m k)"

end
