(* ===== verification/SornaContract.thy ===== *)
theory SornaContract
  imports SornaJson CIResult GoPaths
begin

text \<open>
  sorna/internal/contract/contract.go: the structural validation of a contract, its sealing and the
  expansion of generated values.  The YAML reader is an argument.  A contract body is a map of
  values of type \<open>any\<close>; the problems are listed in the order the code finds them, those of a map in
  the order of its iteration.  A path is built as text.  A decoded document holds valid UTF-8, so
  copying it through JSON keeps its strings.
\<close>

section \<open>Shapes\<close>

abbreviation ContractSchema :: string where "ContractSchema \<equiv> ''ingen.contract/v1''"

definition nonEmptyString :: "Json option \<Rightarrow> bool" where
  "nonEmptyString v = (case as_string v of Some s \<Rightarrow> \<not> blank s | None \<Rightarrow> False)"

definition item_path :: "string \<Rightarrow> nat \<Rightarrow> string" where
  "item_path path i = path @ ''['' @ dec_string (int i) @ '']''"

text \<open>A loop over a slice, with the index.\<close>

fun over_items :: "(nat \<Rightarrow> 'a \<Rightarrow> message list) \<Rightarrow> nat \<Rightarrow> 'a list \<Rightarrow> message list" where
  "over_items f i [] = []"
| "over_items f i (x # xs) = f i x @ over_items f (Suc i) xs"

lemma over_items_Nil: "over_items f i xs = [] \<longleftrightarrow> (\<forall>n < length xs. f (i + n) (xs ! n) = [])"
proof (induction xs arbitrary: i)
  case (Cons x xs)
  have "over_items f i (x # xs) = [] \<longleftrightarrow> f i x = [] \<and> (\<forall>n < length xs. f (Suc (i + n)) (xs ! n) = [])"
    using Cons by simp
  also have "\<dots> \<longleftrightarrow> (\<forall>n < length (x # xs). f (i + n) ((x # xs) ! n) = [])"
    by (auto simp: nth_Cons split: nat.splits)
  finally show ?case .
qed simp

definition validateEventList :: "Json \<Rightarrow> string \<Rightarrow> message list" where
  "validateEventList value path =
     (case as_list (Some value) of
        None \<Rightarrow> [[T path, T '' must be a list'']]
      | Some events \<Rightarrow>
          problem (events = []) [T path, T '' must contain at least one event''] @
          over_items (\<lambda>i v. problem (\<not> nonEmptyString (Some v)) [T (item_path path i), T '' must be a non-empty string'']) 0 events)"

definition validateEventSpec :: "Json \<Rightarrow> string \<Rightarrow> message list" where
  "validateEventSpec value path =
     (case as_object (Some value) of
        None \<Rightarrow> [[T path, T '' must be an object'']]
      | Some spec \<Rightarrow>
          if (map_of spec ''required'' = None) = (map_of spec ''ordered'' = None)
          then [[T path, T '' must define exactly one of required or ordered'']]
          else
            (case map_of spec ''required'' of None \<Rightarrow> [] | Some r \<Rightarrow> validateEventList r (path @ ''.required'')) @
            (case map_of spec ''ordered'' of None \<Rightarrow> [] | Some r \<Rightarrow> validateEventList r (path @ ''.ordered'')))"

definition provenance_field_problem :: "string \<Rightarrow> nat \<Rightarrow> Json \<Rightarrow> message list" where
  "provenance_field_problem path i value =
     (case as_string (Some value) of
        Some field \<Rightarrow>
          if blank field then [[T (item_path (path @ ''.required'') i), T '' must be a non-empty string'']]
          else problem (field \<noteq> ''execution_id'') [T (item_path (path @ ''.required'') i), T '' must be execution_id'']
      | None \<Rightarrow> [[T (item_path (path @ ''.required'') i), T '' must be a non-empty string'']])"

definition validateProvenanceSpec :: "Json \<Rightarrow> string \<Rightarrow> message list" where
  "validateProvenanceSpec value path =
     (case as_object (Some value) of
        None \<Rightarrow> [[T path, T '' must be an object'']]
      | Some spec \<Rightarrow>
          if map_of spec ''required'' = None then [[T path, T ''.required is required'']]
          else
            (case as_list (map_of spec ''required'') of
               None \<Rightarrow> [[T path, T ''.required must be a non-empty list'']]
             | Some required \<Rightarrow>
                 if required = [] then [[T path, T ''.required must be a non-empty list'']]
                 else over_items (provenance_field_problem path) 0 required))"

fun validateShapeSpec :: "Json \<Rightarrow> string \<Rightarrow> message list"
  and shape_properties :: "object \<Rightarrow> string \<Rightarrow> message list"
  and property_shapes :: "object \<Rightarrow> string \<Rightarrow> message list" where
  "validateShapeSpec (JObject spec) path =
     problem (map_of spec ''additional_properties'' \<noteq> None \<and> as_bool (map_of spec ''additional_properties'') = None)
       [T path, T ''.additional_properties must be a boolean''] @
     shape_properties spec path"
| "validateShapeSpec _ path = []"
| "shape_properties [] path = []"
| "shape_properties (p # spec) path =
     (if fst p = ''properties''
      then (case snd p of JObject properties \<Rightarrow> property_shapes properties path | _ \<Rightarrow> [])
      else shape_properties spec path)"
| "property_shapes [] path = []"
| "property_shapes (p # properties) path =
     validateShapeSpec (snd p) (path @ ''.properties.'' @ fst p) @ property_shapes properties path"

definition validateExpectationShape :: "Json \<Rightarrow> string \<Rightarrow> message list" where
  "validateExpectationShape value path =
     (case as_object (Some value) of
        None \<Rightarrow> [[T path, T '' must be an object'']]
      | Some expect \<Rightarrow>
          (case map_of expect ''body'' of None \<Rightarrow> [] | Some b \<Rightarrow> validateShapeSpec b (path @ ''.body'')) @
          (case map_of expect ''events'' of None \<Rightarrow> [] | Some e \<Rightarrow> validateEventSpec e (path @ ''.events'')) @
          (case map_of expect ''provenance'' of None \<Rightarrow> [] | Some p \<Rightarrow> validateProvenanceSpec p (path @ ''.provenance'')))"

definition validateNegativeSetupExpectations :: "Json \<Rightarrow> string \<Rightarrow> message list" where
  "validateNegativeSetupExpectations value path =
     (case as_list (Some value) of
        None \<Rightarrow> [[T path, T '' must be a non-empty list'']]
      | Some expectations \<Rightarrow>
          if expectations = [] then [[T path, T '' must be a non-empty list'']]
          else over_items (\<lambda>i v. validateExpectationShape v (item_path path i)) 0 expectations)"

section \<open>Setup steps and isolation\<close>

text \<open>The identifier of a rule or a step, which must be new among those before it.\<close>

definition id_problems :: "string \<Rightarrow> string list \<Rightarrow> Json option \<Rightarrow> message list" where
  "id_problems path seen v =
     (case as_string v of
        None \<Rightarrow> [[T path, T ''.id must be a non-empty string'']]
      | Some i \<Rightarrow>
          if blank i then [[T path, T ''.id must be a non-empty string'']]
          else problem (i \<in> set seen) [T path, T ''.id duplicates '', Q i])"

definition add_id :: "string list \<Rightarrow> Json option \<Rightarrow> string list" where
  "add_id seen v = (case as_string v of Some i \<Rightarrow> if blank i then seen else i # seen | None \<Rightarrow> seen)"

definition capture_problem :: "string \<Rightarrow> string \<times> Json \<Rightarrow> message list" where
  "capture_problem path c =
     problem (blank (fst c)) [T path, T ''.capture names must be non-empty''] @
     problem (\<not> (case as_string (Some (snd c)) of Some s \<Rightarrow> has_prefix s ''body.'' | None \<Rightarrow> False))
       [T path, T ''.capture.'', T (fst c), T '' must select a body field'']"

definition request_problems :: "string \<Rightarrow> Json option \<Rightarrow> message list" where
  "request_problems path v =
     (case as_object v of
        None \<Rightarrow> [[T path, T ''.request must be an object'']]
      | Some request \<Rightarrow>
          problem (\<not> nonEmptyString (map_of request ''method'')) [T path, T ''.request.method must be a non-empty string''] @
          problem (\<not> (case as_string (map_of request ''path'') of Some p \<Rightarrow> has_prefix p ''/'' | None \<Rightarrow> False))
            [T path, T ''.request.path must start with /''])"

definition step_problems :: "string \<Rightarrow> object \<Rightarrow> message list" where
  "step_problems path step =
     request_problems path (map_of step ''request'') @
     problem (map_of step ''expect'' = None \<and> map_of step ''expect_not'' = None)
       [T path, T '' must define expect or expect_not''] @
     (case map_of step ''expect'' of
        None \<Rightarrow> []
      | Some e \<Rightarrow> validateExpectationShape e (path @ ''.expect'')) @
     (case map_of step ''expect_not'' of
        None \<Rightarrow> []
      | Some e \<Rightarrow> validateNegativeSetupExpectations e (path @ ''.expect_not'')) @
     (case map_of step ''capture'' of
        None \<Rightarrow> []
      | Some c \<Rightarrow>
          (case as_object (Some c) of
             None \<Rightarrow> [[T path, T ''.capture must be an object'']]
           | Some captures \<Rightarrow> concat (map (capture_problem path) captures)))"

fun steps_problems :: "string \<Rightarrow> nat \<Rightarrow> string list \<Rightarrow> Json list \<Rightarrow> message list" where
  "steps_problems path i seen [] = []"
| "steps_problems path i seen (v # vs) =
     (case as_object (Some v) of
        None \<Rightarrow> [T (item_path path i), T '' must be an object''] # steps_problems path (Suc i) seen vs
      | Some step \<Rightarrow>
          id_problems (item_path path i) seen (map_of step ''id'') @ step_problems (item_path path i) step @
          steps_problems path (Suc i) (add_id seen (map_of step ''id'')) vs)"

definition validateSetup :: "Json \<Rightarrow> string \<Rightarrow> message list" where
  "validateSetup value path =
     (case as_list (Some value) of
        None \<Rightarrow> [[T path, T '' must be a non-empty list'']]
      | Some steps \<Rightarrow>
          if steps = [] then [[T path, T '' must be a non-empty list'']] else steps_problems path 0 [] steps)"

definition validateIsolationSpec :: "Json \<Rightarrow> string \<Rightarrow> message list" where
  "validateIsolationSpec value path =
     (case as_object (Some value) of
        None \<Rightarrow> [[T path, T '' must be an object'']]
      | Some spec \<Rightarrow>
          problem (as_string (map_of spec ''scope'') \<noteq> Some ''scenario'') [T path, T ''.scope must be scenario''] @
          (case as_object (map_of spec ''reset'') of
             None \<Rightarrow> [[T path, T ''.reset must be an object'']]
           | Some reset \<Rightarrow>
               problem (as_string (map_of reset ''method'') \<noteq> Some ''POST'') [T path, T ''.reset.method must be POST''] @
               problem (\<not> (case as_string (map_of reset ''path'') of Some p \<Rightarrow> has_prefix p ''/'' | None \<Rightarrow> False))
                 [T path, T ''.reset.path must start with /'']))"

section \<open>Generated values\<close>

definition generator_problems :: "string \<Rightarrow> object \<Rightarrow> message list" where
  "generator_problems path m =
     (case map_of m ''generated'' of
        None \<Rightarrow> []
      | Some g \<Rightarrow>
          (case as_object (Some g) of
             None \<Rightarrow> [[T path, T ''.generated must be an object'']]
           | Some generator \<Rightarrow>
               problem (as_string (map_of generator ''kind'') \<noteq> Some ''repeat'') [T path, T ''.generated.kind must be repeat in the MVP''] @
               problem (map_of generator ''value'' = None) [T path, T ''.generated.value is required''] @
               problem (\<not> positive_integer (map_of generator ''count''))
                 [T path, T ''.generated.count must be a positive integer'']))"

fun validateGeneratedValues :: "Json \<Rightarrow> string \<Rightarrow> message list"
  and generated_fields :: "object \<Rightarrow> string \<Rightarrow> message list"
  and generated_items :: "Json list \<Rightarrow> string \<Rightarrow> nat \<Rightarrow> message list" where
  "validateGeneratedValues (JObject m) path = generator_problems path m @ generated_fields m path"
| "validateGeneratedValues (JArray xs) path = generated_items xs path 0"
| "validateGeneratedValues _ path = []"
| "generated_fields [] path = []"
| "generated_fields (p # m) path = validateGeneratedValues (snd p) (path @ ''.'' @ fst p) @ generated_fields m path"
| "generated_items [] path i = []"
| "generated_items (x # xs) path i = validateGeneratedValues x (item_path path i) @ generated_items xs path (Suc i)"

definition generate :: "Json \<Rightarrow> message + Json" where
  "generate g =
     (case as_object (Some g) of
        None \<Rightarrow> Inl [T ''generated value must be an object'']
      | Some generator \<Rightarrow>
          let kind = string_or_empty (map_of generator ''kind'')
          in if kind \<noteq> ''repeat'' then Inl [T ''unsupported generator kind '', Q kind]
             else
               (case as_string (map_of generator ''value'') of
                  None \<Rightarrow> Inl [T ''repeat generator value must be a string'']
                | Some text' \<Rightarrow>
                    (case integer (map_of generator ''count'') of
                       Some n \<Rightarrow>
                         if n < 1 \<or> n > 1000000 then Inl [T ''repeat generator count must be between 1 and 1000000'']
                         else Inr (JString (concat (replicate (nat n) text')))
                     | None \<Rightarrow> Inl [T ''repeat generator count must be between 1 and 1000000''])))"

fun Materialize :: "Json \<Rightarrow> message + Json"
  and materialize_fields :: "object \<Rightarrow> message + object"
  and materialize_items :: "Json list \<Rightarrow> message + Json list" where
  "Materialize (JObject m) =
     (case map_of m ''generated'' of
        Some g \<Rightarrow> generate g
      | None \<Rightarrow> (case materialize_fields m of Inl e \<Rightarrow> Inl e | Inr k \<Rightarrow> Inr (JObject k)))"
| "Materialize (JArray xs) = (case materialize_items xs of Inl e \<Rightarrow> Inl e | Inr ys \<Rightarrow> Inr (JArray ys))"
| "Materialize v = Inr v"
| "materialize_fields [] = Inr []"
| "materialize_fields (p # m) =
     (case Materialize (snd p) of
        Inl e \<Rightarrow> Inl e
      | Inr v \<Rightarrow> (case materialize_fields m of Inl e \<Rightarrow> Inl e | Inr k \<Rightarrow> Inr ((fst p, v) # k)))"
| "materialize_items [] = Inr []"
| "materialize_items (x # xs) =
     (case Materialize x of
        Inl e \<Rightarrow> Inl e
      | Inr v \<Rightarrow> (case materialize_items xs of Inl e \<Rightarrow> Inl e | Inr ys \<Rightarrow> Inr (v # ys)))"

section \<open>Validation\<close>

definition given_problems :: "string \<Rightarrow> Json \<Rightarrow> message list" where
  "given_problems path g =
     (case as_object (Some g) of
        None \<Rightarrow> [[T path, T ''.given must be an object'']]
      | Some given \<Rightarrow>
          (case map_of given ''state'' of
             None \<Rightarrow> []
           | Some state \<Rightarrow>
               problem (\<not> nonEmptyString (Some state)) [T path, T ''.given.state must be a non-empty string''] @
               problem (map_of given ''setup'' = None) [T path, T ''.given.setup is required for stateful rules'']) @
          (case map_of given ''setup'' of None \<Rightarrow> [] | Some s \<Rightarrow> validateSetup s (path @ ''.given.setup'')) @
          (case map_of given ''isolation'' of None \<Rightarrow> [] | Some s \<Rightarrow> validateIsolationSpec s (path @ ''.given.isolation'')))"

definition strengths :: "string list" where
  "strengths = [''must'', ''must_not'', ''may'', ''should'', ''unspecified'']"

definition rule_body_problems :: "string \<Rightarrow> object \<Rightarrow> message list" where
  "rule_body_problems path rule =
     problem (\<not> (case as_string (map_of rule ''strength'') of Some s \<Rightarrow> s \<in> set strengths | None \<Rightarrow> False))
       [T path, T ''.strength is invalid''] @
     problem (string_or_empty (map_of rule ''strength'') \<noteq> ''unspecified'' \<and> \<not> nonEmptyString (map_of rule ''subject''))
       [T path, T ''.subject is required for executable rules''] @
     (case map_of rule ''given'' of None \<Rightarrow> [] | Some g \<Rightarrow> given_problems path g) @
     (case map_of rule ''expect'' of None \<Rightarrow> [] | Some e \<Rightarrow> validateExpectationShape e (path @ ''.expect'')) @
     validateGeneratedValues (JObject rule) path"

fun rules_problems :: "nat \<Rightarrow> string list \<Rightarrow> Json list \<Rightarrow> message list" where
  "rules_problems i seen [] = []"
| "rules_problems i seen (v # vs) =
     (case as_object (Some v) of
        None \<Rightarrow> [T (item_path ''contract.rules'' i), T '' must be an object''] # rules_problems (Suc i) seen vs
      | Some rule \<Rightarrow>
          id_problems (item_path ''contract.rules'' i) seen (map_of rule ''id'') @
          rule_body_problems (item_path ''contract.rules'' i) rule @
          rules_problems (Suc i) (add_id seen (map_of rule ''id'')) vs)"

definition fixture_problems :: "nat \<Rightarrow> Json \<Rightarrow> message list" where
  "fixture_problems i v =
     (let path = item_path ''contract.fixtures'' i
      in case as_object (Some v) of
           None \<Rightarrow> [[T path, T '' must be an object'']]
         | Some fixture \<Rightarrow>
             problem (\<not> nonEmptyString (map_of fixture ''path'') \<and> \<not> nonEmptyString (map_of fixture ''id''))
               [T path, T '' needs a non-empty path or id''] @
             problem (\<not> nonEmptyString (map_of fixture ''purpose'')) [T path, T ''.purpose must be a non-empty string''] @
             problem (map_of fixture ''owner'' \<noteq> None \<and>
                 as_string (map_of fixture ''owner'') \<notin> {Some ''oracle'', Some ''subject''})
               [T path, T ''.owner must be oracle or subject''] @
             problem (map_of fixture ''sha256'' \<noteq> None \<and>
                 \<not> (case as_string (map_of fixture ''sha256'') of Some d \<Rightarrow> valid_sha256 d | None \<Rightarrow> False))
               [T path, T ''.sha256 must be a lowercase SHA-256 hex digest''])"

definition required_fields :: "string list" where
  "required_fields = [''schema'', ''id'', ''version'', ''status'', ''interface'', ''rules'', ''unspecified'']"

text \<open>The checks of a field that is there.\<close>

definition contract_header_problems :: "object \<Rightarrow> message list" where
  "contract_header_problems body =
     problem (map_of body ''schema'' \<noteq> None \<and> as_string (map_of body ''schema'') \<noteq> Some ContractSchema)
       [T ''contract.schema must be ingen.contract/v1''] @
     problem (map_of body ''id'' \<noteq> None \<and> \<not> nonEmptyString (map_of body ''id''))
       [T ''contract.id must be a non-empty string''] @
     problem (map_of body ''version'' \<noteq> None \<and> \<not> positive_integer (map_of body ''version''))
       [T ''contract.version must be a positive integer''] @
     problem (map_of body ''status'' \<noteq> None \<and>
         as_string (map_of body ''status'') \<notin> {Some ''draft'', Some ''sealed'', Some ''superseded''})
       [T ''contract.status must be draft, sealed, or superseded''] @
     (case map_of body ''interface'' of
        None \<Rightarrow> []
      | Some v \<Rightarrow>
          (case as_object (Some v) of
             None \<Rightarrow> [[T ''contract.interface must be an object'']]
           | Some i \<Rightarrow> problem (\<not> nonEmptyString (map_of i ''kind'')) [T ''contract.interface.kind must be a non-empty string''])) @
     (case map_of body ''unspecified'' of
        None \<Rightarrow> []
      | Some v \<Rightarrow> (case as_list (Some v) of None \<Rightarrow> [[T ''contract.unspecified must be a list'']] | Some _ \<Rightarrow> []))"

definition Contract_Validate :: "object \<Rightarrow> message list" where
  "Contract_Validate body =
     concat (map (\<lambda>f. problem (map_of body f = None) [T ''contract.'', T f, T '' is required'']) required_fields) @
     contract_header_problems body @
     (case map_of body ''rules'' of None \<Rightarrow> []
      | Some v \<Rightarrow> (case as_list (Some v) of
                None \<Rightarrow> [[T ''contract.rules must be a list'']]
              | Some rules \<Rightarrow> rules_problems 0 [] rules)) @
     (case map_of body ''fixtures'' of None \<Rightarrow> []
      | Some v \<Rightarrow> (case as_list (Some v) of
                None \<Rightarrow> [[T ''contract.fixtures must be a list'']]
              | Some fixtures \<Rightarrow> over_items fixture_problems 0 fixtures))"

datatype ContractError = ValidationError "message list" | Failed_contract message

text \<open>\<open>filepath.Ext\<close>, and the extensions a contract may have in any case of their letters.\<close>

definition Ext :: "string \<Rightarrow> string" where
  "Ext path =
     (let e = takeWhile (\<lambda>c. c \<noteq> CHR ''/'' \<and> c \<noteq> CHR ''.'') (rev path)
      in case drop (length e) (rev path) of
           [] \<Rightarrow> []
         | c # _ \<Rightarrow> if c = CHR ''.'' then CHR ''.'' # rev e else [])"

definition document_extension :: "string \<Rightarrow> bool" where
  "document_extension path \<longleftrightarrow>
     map lower_byte (Ext path) \<in> set (map (map byte) [''.yaml'', ''.yml'', ''.json''])"

text \<open>The documents that hold one object under a key, as contracts and policies do.\<close>

definition Contract_LoadBytes :: "('c \<Rightarrow> message + Json) \<Rightarrow> string \<Rightarrow> 'c \<Rightarrow> ContractError + object" where
  "Contract_LoadBytes decode path contents =
     (if \<not> document_extension path then Inl (Failed_contract [T ''contract file must use .json, .yaml, or .yml''])
      else
        (case decode contents of
           Inl err \<Rightarrow> Inl (Failed_contract ([T ''parse '', T path, T '': ''] @ err))
         | Inr value \<Rightarrow>
             (case as_object (Some value) of
                None \<Rightarrow> Inl (ValidationError [[T ''document must be an object containing a contract'']])
              | Some root \<Rightarrow>
                  (case as_object (map_of root ''contract'') of
                     None \<Rightarrow> Inl (ValidationError [[T ''document.contract must be an object'']])
                   | Some body \<Rightarrow>
                       if Contract_Validate body = [] then Inr body else Inl (ValidationError (Contract_Validate body))))))"

section \<open>Sealing\<close>

text \<open>
  \<open>clone\<close> writes the body as JSON and reads it back with \<open>UseNumber\<close>: every number becomes a
  \<open>json.Number\<close>.  \<open>float_json\<close> is the JSON text of a float, which an infinite one and \<open>NaN\<close> lack; the
  encoder refuses a \<open>json.Number\<close> that is no number and writes an empty one as 0.
\<close>

record Sealer =
  sl_float :: "Float \<Rightarrow> string option"
  sl_number :: "string \<Rightarrow> bool"
  sl_encode :: "object \<Rightarrow> message + string"
  sl_sha :: "string \<Rightarrow> string"

fun clone_value :: "Sealer \<Rightarrow> Json \<Rightarrow> Json option"
  and clone_fields :: "Sealer \<Rightarrow> object \<Rightarrow> object option"
  and clone_items :: "Sealer \<Rightarrow> Json list \<Rightarrow> Json list option" where
  "clone_value w (JInt n) = Some (JNumber (dec_string n))"
| "clone_value w (JFloat f) = map_option JNumber (sl_float w f)"
| "clone_value w (JNumber s) =
     (if s = [] then Some (JNumber ''0'') else if sl_number w s then Some (JNumber s) else None)"
| "clone_value w (JArray xs) = map_option JArray (clone_items w xs)"
| "clone_value w (JObject m) = map_option JObject (clone_fields w m)"
| "clone_value w v = Some v"
| "clone_fields w [] = Some []"
| "clone_fields w (p # m) =
     (case clone_value w (snd p) of
        None \<Rightarrow> None
      | Some v \<Rightarrow> map_option (\<lambda>k. (fst p, v) # k) (clone_fields w m))"
| "clone_items w [] = Some []"
| "clone_items w (x # xs) =
     (case clone_value w x of
        None \<Rightarrow> None
      | Some v \<Rightarrow> map_option (\<lambda>ys. v # ys) (clone_items w xs))"

text \<open>What a fixture is read with: nothing, when no directory and no reader are given.\<close>

definition fixture_reader ::
  "(string \<Rightarrow> message + string) \<Rightarrow> string \<Rightarrow> (string \<Rightarrow> message + string) option \<Rightarrow> (string \<Rightarrow> message + string) option" where
  "fixture_reader readFile baseDir readFixture =
     (case readFixture of
        Some f \<Rightarrow> Some f
      | None \<Rightarrow> if baseDir = [] then None else Some (\<lambda>p. readFile (Join baseDir p)))"

text \<open>One fixture: the problems, and the fixture after it.\<close>

definition attach_one :: "Sealer \<Rightarrow> (string \<Rightarrow> message + string) option \<Rightarrow> nat \<Rightarrow> Json \<Rightarrow> message list \<times> Json" where
  "attach_one w reader i v =
     (let name = item_path ''contract.fixtures'' i
      in case as_object (Some v) of
           None \<Rightarrow> ([], v)
         | Some fixture \<Rightarrow>
             (case as_string (map_of fixture ''sha256'') of
                None \<Rightarrow>
                  (case (reader, as_string (map_of fixture ''path'')) of
                     (Some read, Some path) \<Rightarrow>
                       if blank path then ([[T name, T ''.sha256 is required before sealing'']], v)
                       else
                         (case read path of
                            Inl err \<Rightarrow> ([[T name, T '': ''] @ err], v)
                          | Inr contents \<Rightarrow> ([], JObject (map_set ''sha256'' (JString (sl_sha w contents)) fixture)))
                   | _ \<Rightarrow> ([[T name, T ''.sha256 is required before sealing'']], v))
              | Some existing \<Rightarrow>
                  (case (reader, as_string (map_of fixture ''path'')) of
                     (Some read, Some path) \<Rightarrow>
                       (case read path of
                          Inl err \<Rightarrow> ([[T name, T '': ''] @ err], v)
                        | Inr contents \<Rightarrow>
                            (problem (sl_sha w contents \<noteq> existing) [T name, T ''.sha256 does not match '', T path], v))
                   | _ \<Rightarrow> ([], v))))"

fun attach_all :: "Sealer \<Rightarrow> (string \<Rightarrow> message + string) option \<Rightarrow> nat \<Rightarrow> Json list \<Rightarrow> message list \<times> Json list" where
  "attach_all w reader i [] = ([], [])"
| "attach_all w reader i (v # vs) =
     (case attach_one w reader i v of
        (ps, v') \<Rightarrow> (case attach_all w reader (Suc i) vs of (qs, vs') \<Rightarrow> (ps @ qs, v' # vs')))"

definition attachFixtureHashes :: "Sealer \<Rightarrow> (string \<Rightarrow> message + string) option \<Rightarrow> object \<Rightarrow> ContractError + object" where
  "attachFixtureHashes w reader body =
     (case map_of body ''fixtures'' of
        None \<Rightarrow> Inr body
      | Some value \<Rightarrow>
          (case as_list (Some value) of
             None \<Rightarrow> Inl (ValidationError [[T ''contract.fixtures must be a list'']])
           | Some fixtures \<Rightarrow>
               (case attach_all w reader 0 fixtures of
                  (ps, vs) \<Rightarrow>
                    if ps = [] then Inr (map_set ''fixtures'' (JArray vs) body) else Inl (ValidationError ps))))"

definition Contract_CanonicalJSON :: "Sealer \<Rightarrow> object \<Rightarrow> ContractError + string" where
  "Contract_CanonicalJSON w body =
     (if Contract_Validate body \<noteq> [] then Inl (ValidationError (Contract_Validate body))
      else
        (case sl_encode w body of
           Inl err \<Rightarrow> Inl (Failed_contract (T ''canonicalize contract: '' # err))
         | Inr contents \<Rightarrow> Inr contents))"

record Sealed =
  sd_Document :: object
  sd_CanonicalJSON :: string
  sd_SHA256 :: string

definition seal :: "Sealer \<Rightarrow> (string \<Rightarrow> message + string) option \<Rightarrow> object \<Rightarrow> ContractError + Sealed" where
  "seal w reader body =
     (if Contract_Validate body \<noteq> [] then Inl (ValidationError (Contract_Validate body))
      else let status = string_or_empty (map_of body ''status'')
      in if status \<noteq> ''draft'' then Inl (ValidationError [[T ''only draft contracts can be sealed, got '', Q status]])
      else
        (case clone_fields w body of
           None \<Rightarrow> Inl (Failed_contract [T ''copy contract: ''])
         | Some copy \<Rightarrow>
             (case attachFixtureHashes w reader (map_set ''status'' (JString ''sealed'') copy) of
                Inl err \<Rightarrow> Inl err
              | Inr document \<Rightarrow>
                  (case Contract_CanonicalJSON w document of
                     Inl err \<Rightarrow> Inl err
                   | Inr canonical \<Rightarrow>
                       Inr \<lparr>sd_Document = document, sd_CanonicalJSON = canonical,
                            sd_SHA256 = sl_sha w canonical\<rparr>))))"

definition Seal :: "Sealer \<Rightarrow> object \<Rightarrow> ContractError + Sealed" where
  "Seal w body = seal w None body"

definition SealAt :: "Sealer \<Rightarrow> (string \<Rightarrow> message + string) \<Rightarrow> object \<Rightarrow> string \<Rightarrow> ContractError + Sealed" where
  "SealAt w readFile body baseDir = seal w (fixture_reader readFile baseDir None) body"

definition SealWithFixtureReader ::
  "Sealer \<Rightarrow> object \<Rightarrow> (string \<Rightarrow> message + string) option \<Rightarrow> ContractError + Sealed" where
  "SealWithFixtureReader w body readFixture =
     (case readFixture of
        None \<Rightarrow> Inl (Failed_contract [T ''fixture reader is required''])
      | Some f \<Rightarrow> seal w (Some f) body)"

end
