(* ===== verification/SornaEval.thy ===== *)
theory SornaEval
  imports SornaContract "HOL-Library.Sublist"
begin

text \<open>
  sorna/internal/runner/runner.go, the evaluation of an expectation against one observed response.
  A value of type \<open>any\<close> that is \<open>nil\<close> is \<open>JNull\<close>; a value with a flag that says whether it exists
  is an option.  The shortest decimal text of a float and the JSON decoder are arguments.  An \<open>int\<close>
  and an \<open>int64\<close> are both \<open>JInt\<close>: \<open>DeepEqual\<close> tells them apart, the comparison of number texts that
  follows it does not.
\<close>

section \<open>Observations and assertions\<close>

record ProvenanceObservation =
  po_Header :: string
  po_Present :: bool
  po_ShapeValid :: bool
  po_ExecutionID :: string
  po_PayloadSHA256 :: string
  po_Reason :: string

record Observation =
  ob_Status :: int
  ob_Events :: "string list"
  ob_Body :: string
  ob_BodyText :: string
  ob_Provenance :: "ProvenanceObservation option"

record Assertion =
  at_Path :: string
  at_Expected :: Json
  at_Actual :: Json
  at_Status :: string
  at_Reason :: string

definition statusFor :: "bool \<Rightarrow> string" where
  "statusFor ok = (if ok then ''pass'' else ''fail'')"

definition existenceValue :: "bool \<Rightarrow> Json" where
  "existenceValue exists = JString (if exists then ''present'' else ''missing'')"

definition missingReason :: "bool \<Rightarrow> string \<Rightarrow> string" where
  "missingReason exists field = (if exists then [] else ''required field is missing: '' @ field)"

definition eventMissingReason :: "bool \<Rightarrow> string" where
  "eventMissingReason exists = (if exists then [] else ''event was not emitted'')"

definition orderedEventsReason :: "bool \<Rightarrow> string" where
  "orderedEventsReason matches = (if matches then [] else ''events were not emitted in the required order'')"

definition valueIfPresent :: "Json option \<Rightarrow> Json" where
  "valueIfPresent v = (case v of Some x \<Rightarrow> x | None \<Rightarrow> JNull)"

section \<open>Comparing values\<close>

definition numberString :: "(Float \<Rightarrow> string) \<Rightarrow> Json \<Rightarrow> string option" where
  "numberString fmt v =
     (case v of JInt n \<Rightarrow> Some (dec_string n) | JNumber s \<Rightarrow> Some s | JFloat f \<Rightarrow> Some (fmt f) | _ \<Rightarrow> None)"

definition equalJSON :: "(Float \<Rightarrow> string) \<Rightarrow> Json \<Rightarrow> Json \<Rightarrow> bool" where
  "equalJSON fmt expected actual =
     (if deep_equal expected actual then True
      else
        (case (numberString fmt expected, numberString fmt actual) of
           (Some x, Some y) \<Rightarrow> x = y
         | _ \<Rightarrow> False))"

definition equalityAssertion :: "(Float \<Rightarrow> string) \<Rightarrow> string \<Rightarrow> Json \<Rightarrow> Json \<Rightarrow> Assertion" where
  "equalityAssertion fmt path expected actual =
     \<lparr>at_Path = path, at_Expected = expected, at_Actual = actual,
      at_Status = statusFor (equalJSON fmt expected actual), at_Reason = []\<rparr>"

definition jsonType :: "Json \<Rightarrow> string" where
  "jsonType v =
     (case v of
        JNull \<Rightarrow> ''null''
      | JObject _ \<Rightarrow> ''object''
      | JArray _ \<Rightarrow> ''array''
      | JString _ \<Rightarrow> ''string''
      | JBool _ \<Rightarrow> ''boolean''
      | JNumber s \<Rightarrow> if list_ex (\<lambda>c. c \<in> set ''.eE'') s then ''number'' else ''integer''
      | _ \<Rightarrow> ''unknown'')"

section \<open>Shapes\<close>

text \<open>How deep a value goes: the measure of the recursion over nested shapes.\<close>

fun weight :: "Json \<Rightarrow> nat" and weight_fields :: "object \<Rightarrow> nat" where
  "weight (JObject m) = Suc (weight_fields m)"
| "weight v = 0"
| "weight_fields [] = 0"
| "weight_fields (p # m) = Suc (weight (snd p) + weight_fields m)"

lemma weight_member: "p \<in> set m \<Longrightarrow> weight (snd p) < weight_fields m"
  by (induction m) auto

lemma weight_lookup: "map_of m k = Some v \<Longrightarrow> weight v < weight_fields m"
  using weight_member[of "(k, v)" m] map_of_SomeD[of m k v] by simp

definition field_of :: "Json \<Rightarrow> string \<Rightarrow> Json option" where
  "field_of actual field = (case as_object (Some actual) of Some m \<Rightarrow> map_of m field | None \<Rightarrow> None)"

definition is_object :: "Json \<Rightarrow> bool" where
  "is_object v \<longleftrightarrow> as_object (Some v) \<noteq> None"

text \<open>The keys of a map, sorted, with their values.\<close>

definition sorted_fields :: "object \<Rightarrow> object" where
  "sorted_fields m = sort_key fst m"

lemma set_sorted_fields [simp]: "set (sorted_fields m) = set m"
  by (simp add: sorted_fields_def)

definition items_or_none :: "Json option \<Rightarrow> Json list" where
  "items_or_none v = (case as_list v of Some xs \<Rightarrow> xs | None \<Rightarrow> [])"

definition fields_or_none :: "Json option \<Rightarrow> object" where
  "fields_or_none v = (case as_object v of Some m \<Rightarrow> m | None \<Rightarrow> [])"

lemma weight_fields_or_none:
  "p \<in> set (fields_or_none (map_of spec k)) \<Longrightarrow> weight (snd p) < weight_fields spec"
  using weight_member[of p "fields_or_none (map_of spec k)"] weight_lookup[of spec k "JObject (fields_or_none (map_of spec k))"]
  by (auto simp: fields_or_none_def as_Some split: option.splits)

definition shape_type :: "(Float \<Rightarrow> string) \<Rightarrow> string \<Rightarrow> Json \<Rightarrow> object \<Rightarrow> Assertion list" where
  "shape_type fmt path actual spec =
     (case map_of spec ''type'' of
        None \<Rightarrow> []
      | Some expectedType \<Rightarrow>
          [\<lparr>at_Path = path, at_Expected = expectedType, at_Actual = JString (jsonType actual),
            at_Status = statusFor (equalJSON fmt expectedType (JString (jsonType actual))), at_Reason = []\<rparr>])"

definition shape_required :: "string \<Rightarrow> Json \<Rightarrow> object \<Rightarrow> Assertion list" where
  "shape_required path actual spec =
     map (\<lambda>rawField.
         let field = string_or_empty (Some rawField);
             exists = field_of actual field \<noteq> None
         in \<lparr>at_Path = path @ ''.'' @ field, at_Expected = JString ''present'', at_Actual = existenceValue exists,
             at_Status = statusFor exists, at_Reason = missingReason exists field\<rparr>)
       (items_or_none (map_of spec ''required''))"

definition allowed_fields :: "object \<Rightarrow> string list" where
  "allowed_fields spec =
     List.map_filter (\<lambda>v. as_string (Some v)) (items_or_none (map_of spec ''required'')) @
     map fst (fields_or_none (map_of spec ''properties''))"

definition shape_additional :: "string \<Rightarrow> Json \<Rightarrow> object \<Rightarrow> Assertion list" where
  "shape_additional path actual spec =
     (case map_of spec ''additional_properties'' of
        None \<Rightarrow> []
      | Some additional \<Rightarrow>
          (case as_bool (Some additional) of
             None \<Rightarrow>
               [\<lparr>at_Path = path @ ''.additional_properties'', at_Expected = JString ''boolean'',
                 at_Actual = JString (jsonType additional), at_Status = ''fail'',
                 at_Reason = ''additional_properties must be a boolean''\<rparr>]
           | Some allow \<Rightarrow>
               if \<not> allow \<and> is_object actual then
                 map (\<lambda>field.
                     \<lparr>at_Path = path @ ''.'' @ field, at_Expected = JString ''not present'', at_Actual = JString ''present'',
                      at_Status = ''fail'', at_Reason = ''additional property is not allowed''\<rparr>)
                   (sort (filter (\<lambda>field. field \<notin> set (allowed_fields spec)) (map fst (fields_or_none (Some actual)))))
               else []))"

text \<open>What \<open>evaluateValue\<close> asserts of a value whose specification is no shape.\<close>

definition plain_assertions :: "(Float \<Rightarrow> string) \<Rightarrow> string \<Rightarrow> Json option \<Rightarrow> object \<Rightarrow> Assertion list" where
  "plain_assertions fmt path v spec =
     (let actual = valueIfPresent v
      in (case map_of spec ''equals'' of None \<Rightarrow> [] | Some expected \<Rightarrow> [equalityAssertion fmt path expected actual]) @
         (case map_of spec ''type'' of
            None \<Rightarrow> []
          | Some expectedType \<Rightarrow>
              [\<lparr>at_Path = path, at_Expected = expectedType, at_Actual = JString (jsonType actual),
                at_Status = statusFor (v \<noteq> None \<and> equalJSON fmt expectedType (JString (jsonType actual))), at_Reason = []\<rparr>]) @
         (if map_of spec ''non_empty'' = Some (JBool True) then
            [\<lparr>at_Path = path, at_Expected = JBool True, at_Actual = JBool (nonEmptyString (Some actual)),
              at_Status = statusFor (nonEmptyString (Some actual)), at_Reason = []\<rparr>]
          else []))"

definition note_missing :: "Json option \<Rightarrow> Assertion \<Rightarrow> Assertion" where
  "note_missing v a = (if v = None \<and> at_Reason a = [] then a\<lparr>at_Reason := ''field is missing''\<rparr> else a)"

function evaluateShape :: "(Float \<Rightarrow> string) \<Rightarrow> string \<Rightarrow> Json \<Rightarrow> object \<Rightarrow> Assertion list"
  and evaluateValue :: "(Float \<Rightarrow> string) \<Rightarrow> string \<Rightarrow> Json option \<Rightarrow> object \<Rightarrow> Assertion list" where
  "evaluateShape fmt path actual spec =
     shape_type fmt path actual spec @ shape_required path actual spec @
     concat (map (\<lambda>p.
         let field = path @ ''.'' @ fst p;
             value' = field_of actual (fst p)
         in case as_object (Some (snd p)) of
              None \<Rightarrow> [equalityAssertion fmt field (snd p) (valueIfPresent value')]
            | Some propertySpec \<Rightarrow>
                if \<not> is_object actual \<and> value' \<noteq> None
                then [\<lparr>at_Path = field, at_Expected = JString ''object property'', at_Actual = JString (jsonType actual),
                       at_Status = ''fail'', at_Reason = ''actual value is not an object''\<rparr>]
                else evaluateValue fmt field value' propertySpec)
       (sorted_fields (fields_or_none (map_of spec ''properties'')))) @
     shape_additional path actual spec"
| "evaluateValue fmt path v spec =
     (if map_of spec ''required'' \<noteq> None then evaluateShape fmt path (valueIfPresent v) spec
      else if map_of spec ''properties'' \<noteq> None then evaluateShape fmt path (valueIfPresent v) spec
      else
        let assertions = plain_assertions fmt path v spec
        in map (note_missing v)
             (if assertions = [] then [equalityAssertion fmt path (JObject spec) (valueIfPresent v)] else assertions))"
  by pat_completeness auto
termination
proof (relation "measure (case_sum (\<lambda>(fmt, path, actual, spec). 2 * weight_fields spec)
      (\<lambda>(fmt, path, v, spec). Suc (2 * weight_fields spec)))", goal_cases)
  case (2 fmt path actual spec p field v propertySpec)
  then have "p \<in> set (fields_or_none (map_of spec ''properties''))" by simp
  from weight_fields_or_none[OF this] 2 show ?case by (simp add: as_Some)
qed simp_all

declare evaluateShape.simps [simp del] evaluateValue.simps [simp del]

definition evaluateExactObject :: "(Float \<Rightarrow> string) \<Rightarrow> string \<Rightarrow> Json \<Rightarrow> object \<Rightarrow> Assertion list" where
  "evaluateExactObject fmt path actual spec =
     (if \<not> is_object actual then
        [\<lparr>at_Path = path, at_Expected = JString ''object'', at_Actual = JString (jsonType actual), at_Status = ''fail'',
          at_Reason = ''actual value is not an object''\<rparr>]
      else
        concat (map (\<lambda>p.
            let field = path @ ''.'' @ fst p;
                value' = field_of actual (fst p)
            in case as_object (Some (snd p)) of
                 Some childSpec \<Rightarrow> evaluateValue fmt field value' childSpec
               | None \<Rightarrow> [equalityAssertion fmt field (snd p) (valueIfPresent value')])
          (sorted_fields spec)))"

section \<open>Events and provenance\<close>

text \<open>A loop that builds one result for each element and stops at the first error.\<close>

fun collect :: "(nat \<Rightarrow> 'a \<Rightarrow> 'e + 'b) \<Rightarrow> nat \<Rightarrow> 'a list \<Rightarrow> 'e + 'b list" where
  "collect f i [] = Inr []"
| "collect f i (x # xs) =
     (case f i x of
        Inl e \<Rightarrow> Inl e
      | Inr y \<Rightarrow> (case collect f (Suc i) xs of Inl e \<Rightarrow> Inl e | Inr ys \<Rightarrow> Inr (y # ys)))"

definition exposes_execution :: "ProvenanceObservation option \<Rightarrow> bool" where
  "exposes_execution observed \<longleftrightarrow>
     (case observed of Some p \<Rightarrow> po_ShapeValid p \<and> po_ExecutionID p \<noteq> [] | None \<Rightarrow> False)"

definition provenance_reason :: "ProvenanceObservation option \<Rightarrow> string" where
  "provenance_reason observed =
     (if exposes_execution observed then []
      else
        (case observed of
           Some p \<Rightarrow> if po_Reason p \<noteq> [] then po_Reason p
                     else ''Amber-Provenance response header did not expose a non-empty execution_id''
         | None \<Rightarrow> ''Amber-Provenance response header did not expose a non-empty execution_id''))"

definition provenance_assertion :: "ProvenanceObservation option \<Rightarrow> nat \<Rightarrow> Json \<Rightarrow> message + Assertion" where
  "provenance_assertion observed i rawField =
     (if \<not> nonEmptyString (Some rawField)
      then Inl [T ''expect.provenance.required['', D (int i), T ''] must be a non-empty string'']
      else
        let field = string_or_empty (Some rawField);
            present = exposes_execution observed
        in if field \<noteq> ''execution_id'' then Inl [T ''expect.provenance.required['', D (int i), T ''] must be execution_id'']
           else Inr \<lparr>at_Path = ''provenance.'' @ field, at_Expected = JString ''present'', at_Actual = existenceValue present,
                     at_Status = statusFor present, at_Reason = provenance_reason observed\<rparr>)"

definition evaluateProvenance :: "object \<Rightarrow> ProvenanceObservation option \<Rightarrow> message + Assertion list" where
  "evaluateProvenance spec observed =
     (case map_of spec ''required'' of
        None \<Rightarrow> Inl [T ''expect.provenance.required is required'']
      | Some rawRequired \<Rightarrow>
          (case as_list (Some rawRequired) of
             None \<Rightarrow> Inl [T ''expect.provenance.required must be a non-empty list'']
           | Some required \<Rightarrow>
               if required = [] then Inl [T ''expect.provenance.required must be a non-empty list'']
               else collect (provenance_assertion observed) 0 required))"

definition required_event :: "string list \<Rightarrow> nat \<Rightarrow> Json \<Rightarrow> message + Assertion" where
  "required_event actual i rawEvent =
     (if \<not> nonEmptyString (Some rawEvent) then Inl [T ''expect.events.required entries must be non-empty strings'']
      else
        let event = trim_space (string_or_empty (Some rawEvent));
            exists = event \<in> set actual
        in Inr \<lparr>at_Path = ''events.'' @ event, at_Expected = JString ''present'', at_Actual = existenceValue exists,
                at_Status = statusFor exists, at_Reason = eventMissingReason exists\<rparr>)"

text \<open>The loop of \<open>orderedEventsMatch\<close>, which is called with at least one expected event.\<close>

fun events_loop :: "string list \<Rightarrow> nat \<Rightarrow> string list \<Rightarrow> bool" where
  "events_loop expected next' [] = False"
| "events_loop expected next' (event # actual) =
     (if event \<noteq> expected ! next' then events_loop expected next' actual
      else if Suc next' = length expected then True
      else events_loop expected (Suc next') actual)"

definition orderedEventsMatch :: "string list \<Rightarrow> string list \<Rightarrow> bool" where
  "orderedEventsMatch expected actual = events_loop expected 0 actual"

fun ordered_names :: "nat \<Rightarrow> string list \<Rightarrow> Json list \<Rightarrow> message + string list" where
  "ordered_names i seen [] = Inr []"
| "ordered_names i seen (rawEvent # rest) =
     (if \<not> nonEmptyString (Some rawEvent)
      then Inl [T ''expect.events.ordered['', D (int i), T ''] must be a non-empty string'']
      else
        let event = trim_space (string_or_empty (Some rawEvent))
        in if event \<in> set seen then Inl [T ''expect.events.ordered contains duplicate event '', Q event]
           else (case ordered_names (Suc i) (event # seen) rest of Inl e \<Rightarrow> Inl e | Inr names \<Rightarrow> Inr (event # names)))"

definition evaluateOrderedEvents :: "Json \<Rightarrow> string list \<Rightarrow> message + Assertion list" where
  "evaluateOrderedEvents raw actual =
     (case as_list (Some raw) of
        None \<Rightarrow> Inl [T ''expect.events.ordered must be a list'']
      | Some ordered \<Rightarrow>
          if ordered = [] then Inl [T ''expect.events.ordered must contain at least one event'']
          else
            (case ordered_names 0 [] ordered of
               Inl e \<Rightarrow> Inl e
             | Inr expected \<Rightarrow>
                 let matches = orderedEventsMatch expected actual
                 in Inr [\<lparr>at_Path = ''events.order'', at_Expected = JArray (map JString expected),
                          at_Actual = JArray (map JString actual), at_Status = statusFor matches,
                          at_Reason = orderedEventsReason matches\<rparr>]))"

definition evaluateEvents :: "object \<Rightarrow> string list \<Rightarrow> message + Assertion list" where
  "evaluateEvents spec actual =
     (if (map_of spec ''required'' = None) = (map_of spec ''ordered'' = None)
      then Inl [T ''expect.events must define exactly one of required or ordered'']
      else
        (case map_of spec ''ordered'' of
           Some rawOrdered \<Rightarrow> evaluateOrderedEvents rawOrdered actual
         | None \<Rightarrow>
             (case as_list (map_of spec ''required'') of
                None \<Rightarrow> Inl [T ''expect.events.required must be a list'']
              | Some required \<Rightarrow> collect (required_event actual) 0 required)))"

section \<open>One expectation\<close>

definition decodeBody :: "(string \<Rightarrow> message + Json) \<Rightarrow> string \<Rightarrow> message + Json" where
  "decodeBody decode raw = (case decode raw of Inl err \<Rightarrow> Inl (T ''decode subject JSON: '' # err) | Inr v \<Rightarrow> Inr v)"

text \<open>A part of an expectation that must be an object when it is there.\<close>

definition expected_part ::
  "string \<Rightarrow> object \<Rightarrow> (object \<Rightarrow> message + Assertion list) \<Rightarrow> message + Assertion list" where
  "expected_part key expect f =
     (case map_of expect key of
        None \<Rightarrow> Inr []
      | Some part \<Rightarrow>
          (case as_object (Some part) of
             None \<Rightarrow> Inl [T ''expect.'', T key, T '' must be an object'']
           | Some spec \<Rightarrow> f spec))"

definition then_also :: "message + Assertion list \<Rightarrow> message + Assertion list \<Rightarrow> message + Assertion list" where
  "then_also r r' =
     (case r of Inl e \<Rightarrow> Inl e | Inr xs \<Rightarrow> (case r' of Inl e \<Rightarrow> Inl e | Inr ys \<Rightarrow> Inr (xs @ ys)))"

definition evaluate ::
  "(Float \<Rightarrow> string) \<Rightarrow> (string \<Rightarrow> message + Json) \<Rightarrow> object \<Rightarrow> Observation \<Rightarrow> message + Assertion list" where
  "evaluate fmt decode expect observation =
     (case decodeBody decode (ob_Body observation) of
        Inl e \<Rightarrow> Inl e
      | Inr actual \<Rightarrow>
          then_also
            (Inr (case map_of expect ''status'' of
                    None \<Rightarrow> []
                  | Some expectedStatus \<Rightarrow> [equalityAssertion fmt ''status'' expectedStatus (JInt (ob_Status observation))]))
          (then_also (expected_part ''events'' expect (\<lambda>spec. evaluateEvents spec (ob_Events observation)))
          (then_also (expected_part ''provenance'' expect (\<lambda>spec. evaluateProvenance spec (ob_Provenance observation)))
          (then_also (expected_part ''body'' expect (\<lambda>spec. Inr (evaluateShape fmt ''body'' actual spec)))
            (expected_part ''error'' expect
               (\<lambda>spec. Inr (evaluateExactObject fmt ''body.error'' (valueIfPresent (field_of actual ''error'')) spec)))))))"

end
