(* ===== verification/SornaRequest.thy ===== *)
theory SornaRequest
  imports SornaEval
begin

text \<open>
  sorna/internal/runner/runner.go: templates, requests and what is observed of a response.  The HTTP
  client is an argument that takes and returns a state, so it may answer differently each time; the
  JSON and base64 decoders, the encoders, the digest and the text of a URL are arguments too.  The
  header map holds canonical keys, as \<open>net/http\<close> keeps it.
\<close>

section \<open>The runtime\<close>

record URL =
  url_Scheme :: string
  url_Host :: string
  url_Path :: string
  url_RawPath :: string
  url_RawQuery :: string
  url_Fragment :: string
  url_Rest :: string

record HttpRequest =
  hq_Method :: string
  hq_URL :: string
  hq_Body :: string
  hq_JSON :: bool

record HttpResponse =
  hr_StatusCode :: int
  hr_Header :: "(string, string list) gomap"
  hr_Body :: "message + string"

text \<open>
  \<open>ev_compact\<close> is \<open>json.Compact\<close> of what \<open>json.Valid\<close> accepts, \<open>ev_payload\<close> decodes into a map,
  and \<open>ev_upper\<close> is \<open>strings.ToUpper\<close> on strings that are not ASCII.
\<close>

record 's Runtime =
  ev_float :: "Float \<Rightarrow> string"
  ev_decode :: "string \<Rightarrow> message + Json"
  ev_compact :: "string \<Rightarrow> string option"
  ev_base64 :: "string \<Rightarrow> string option"
  ev_payload :: "string \<Rightarrow> object option"
  ev_sha :: "string \<Rightarrow> string"
  ev_marshal :: "Json \<Rightarrow> message + string"
  ev_observation :: "Observation \<Rightarrow> string"
  ev_upper :: "string \<Rightarrow> string"
  ev_parse_url :: "string \<Rightarrow> URL option"
  ev_url_string :: "URL \<Rightarrow> string"
  ev_new_request :: "string \<Rightarrow> string \<Rightarrow> message option"
  ev_do :: "HttpRequest \<Rightarrow> 's \<Rightarrow> (message + HttpResponse) \<times> 's"

section \<open>Strings and URLs\<close>

definition upper_byte :: "char \<Rightarrow> char" where
  "upper_byte c = (if 97 \<le> byte c \<and> byte c \<le> 122 then char_of (nat (byte c - 32)) else c)"

definition lower_letter :: "char \<Rightarrow> char" where
  "lower_letter c = (if 65 \<le> byte c \<and> byte c \<le> 90 then char_of (nat (byte c + 32)) else c)"

definition ToUpper :: "'s Runtime \<Rightarrow> string \<Rightarrow> string" where
  "ToUpper ev s = (if list_all (\<lambda>c. byte c < 128) s then map upper_byte s else ev_upper ev s)"

text \<open>\<open>strings.Fields\<close>: the pieces between white space, in whatever encoding it comes.\<close>

function fields_from :: "string \<Rightarrow> string \<Rightarrow> string list" where
  "fields_from current s =
     (case strip_any space_seqs s of
        Some r \<Rightarrow> (if current = [] then [] else [current]) @ fields_from [] r
      | None \<Rightarrow>
          (case s of
             [] \<Rightarrow> if current = [] then [] else [current]
           | c # r \<Rightarrow> fields_from (current @ [c]) r))"
  by auto
termination
  by (relation "measure (\<lambda>(current, s). length s)") (auto dest: strip_any_shorter)

definition Fields :: "string \<Rightarrow> string list" where
  "Fields s = fields_from [] s"

definition TrimRight_slash :: "string \<Rightarrow> string" where
  "TrimRight_slash s = rev (dropWhile (\<lambda>c. c = CHR ''/'') (rev s))"

text \<open>\<open>url.PathEscape\<close>.\<close>

definition path_safe :: "char \<Rightarrow> bool" where
  "path_safe c \<longleftrightarrow>
     48 \<le> byte c \<and> byte c \<le> 57 \<or> 65 \<le> byte c \<and> byte c \<le> 90 \<or> 97 \<le> byte c \<and> byte c \<le> 122 \<or> c \<in> set ''-_.~$&+=:@''"

definition PathEscape :: "string \<Rightarrow> string" where
  "PathEscape s =
     concat (map (\<lambda>c. if path_safe c then [c]
       else [CHR ''%'', upper_byte (hex_digit (byte c div 16)), upper_byte (hex_digit (byte c mod 16))]) s)"

definition parseBaseURL :: "'s Runtime \<Rightarrow> string \<Rightarrow> message + URL" where
  "parseBaseURL ev raw =
     (case ev_parse_url ev (trim_space raw) of
        None \<Rightarrow> Inl [T ''base URL must be an absolute URL: '', Q raw]
      | Some parsed \<Rightarrow>
          if url_Scheme parsed = [] \<or> url_Host parsed = [] then Inl [T ''base URL must be an absolute URL: '', Q raw]
          else Inr parsed)"

definition parseSubject :: "'s Runtime \<Rightarrow> string \<Rightarrow> message + string \<times> string" where
  "parseSubject ev raw =
     (case Fields raw of
        [verb, path] \<Rightarrow>
          if \<not> has_prefix path ''/'' then Inl [T ''subject must have the form METHOD /path: '', Q raw]
          else
            let method = ToUpper ev verb
            in if method \<in> {''GET'', ''POST'', ''PUT'', ''PATCH'', ''DELETE''} then Inr (method, path)
               else Inl [T ''unsupported HTTP method in subject: '', Q method]
      | _ \<Rightarrow> Inl [T ''subject must have the form METHOD /path: '', Q raw])"

definition resolveURL :: "'s Runtime \<Rightarrow> URL \<Rightarrow> string \<Rightarrow> string" where
  "resolveURL ev base path =
     ev_url_string ev (base\<lparr>url_Path := TrimRight_slash (url_Path base) @ path, url_RawPath := [],
       url_RawQuery := [], url_Fragment := []\<rparr>)"

section \<open>Templates\<close>

function resolveTemplateString :: "string \<Rightarrow> object \<Rightarrow> bool \<Rightarrow> message + string" where
  "resolveTemplateString raw captures escapePath =
     (if CHR ''{'' \<notin> set raw then Inr raw
      else
        let before = takeWhile (\<lambda>c. c \<noteq> CHR ''{'') raw;
            rest = drop (Suc (length before)) raw
        in if CHR ''}'' \<notin> set rest then Inl [T ''unclosed capture placeholder'']
           else
             let inside = takeWhile (\<lambda>c. c \<noteq> CHR ''}'') rest;
                 name = trim_space inside
             in if name = [] then Inl [T ''capture placeholder must have a name'']
                else
                  (case map_of captures name of
                     None \<Rightarrow> Inl [T ''capture '', Q name, T '' is not available'']
                   | Some capture \<Rightarrow>
                       (case as_string (Some capture) of
                          None \<Rightarrow> Inl [T ''capture '', Q name, T '' is not a string'']
                        | Some found \<Rightarrow>
                            (case resolveTemplateString (drop (Suc (length inside)) rest) captures escapePath of
                               Inl err \<Rightarrow> Inl err
                             | Inr tail \<Rightarrow> Inr (before @ (if escapePath then PathEscape found else found) @ tail)))))"
  by pat_completeness auto
termination
proof (relation "measure (\<lambda>(raw, captures, escapePath). length raw)", goal_cases)
  case (2 raw captures escapePath before rest inside name capture found)
  then have "raw \<noteq> []" by auto
  with 2 show ?case by simp
qed simp

declare fields_from.simps [simp del] resolveTemplateString.simps [simp del]

definition resolveTemplates :: "string \<Rightarrow> object \<Rightarrow> message + string" where
  "resolveTemplates raw captures = resolveTemplateString raw captures True"

definition resolveBodyTemplates :: "string \<Rightarrow> object \<Rightarrow> message + string" where
  "resolveBodyTemplates raw captures = resolveTemplateString raw captures False"

fun resolveTemplatesValue :: "Json \<Rightarrow> object \<Rightarrow> message + Json"
  and resolve_fields :: "object \<Rightarrow> object \<Rightarrow> message + object"
  and resolve_items :: "Json list \<Rightarrow> object \<Rightarrow> message + Json list" where
  "resolveTemplatesValue (JString s) captures =
     (if CHR ''{'' \<notin> set s then Inr (JString s)
      else (case resolveBodyTemplates s captures of Inl err \<Rightarrow> Inl err | Inr r \<Rightarrow> Inr (JString r)))"
| "resolveTemplatesValue (JObject m) captures =
     (case resolve_fields m captures of Inl err \<Rightarrow> Inl err | Inr k \<Rightarrow> Inr (JObject k))"
| "resolveTemplatesValue (JArray xs) captures =
     (case resolve_items xs captures of Inl err \<Rightarrow> Inl err | Inr ys \<Rightarrow> Inr (JArray ys))"
| "resolveTemplatesValue v captures = Inr v"
| "resolve_fields [] captures = Inr []"
| "resolve_fields (p # m) captures =
     (case resolveTemplatesValue (snd p) captures of
        Inl err \<Rightarrow> Inl err
      | Inr v \<Rightarrow> (case resolve_fields m captures of Inl err \<Rightarrow> Inl err | Inr k \<Rightarrow> Inr ((fst p, v) # k)))"
| "resolve_items [] captures = Inr []"
| "resolve_items (x # xs) captures =
     (case resolveTemplatesValue x captures of
        Inl err \<Rightarrow> Inl err
      | Inr v \<Rightarrow> (case resolve_items xs captures of Inl err \<Rightarrow> Inl err | Inr ys \<Rightarrow> Inr (v # ys)))"

section \<open>Observing a response\<close>

abbreviation amberProvenanceHeader :: string where "amberProvenanceHeader \<equiv> ''Amber-Provenance''"
abbreviation subjectEventHeader :: string where "subjectEventHeader \<equiv> ''X-InGen-Event''"

text \<open>\<open>textproto.CanonicalMIMEHeaderKey\<close> of a token.\<close>

fun canonical_key :: "bool \<Rightarrow> string \<Rightarrow> string" where
  "canonical_key upper [] = []"
| "canonical_key upper (c # s) =
     (if upper then upper_byte c else lower_letter c) # canonical_key (c = CHR ''-'') s"

definition header_values :: "(string, string list) gomap \<Rightarrow> string \<Rightarrow> string list" where
  "header_values headers key = (case map_of headers (canonical_key True key) of Some vs \<Rightarrow> vs | None \<Rightarrow> [])"

definition header_get :: "(string, string list) gomap \<Rightarrow> string \<Rightarrow> string" where
  "header_get headers key = (case header_values headers key of v # _ \<Rightarrow> v | [] \<Rightarrow> [])"

definition inspectProvenance :: "'s Runtime \<Rightarrow> (string, string list) gomap \<Rightarrow> ProvenanceObservation option" where
  "inspectProvenance ev headers =
     (let raw = trim_space (header_get headers amberProvenanceHeader)
      in if raw = [] then None
         else
           let observation = \<lparr>po_Header = amberProvenanceHeader, po_Present = True, po_ShapeValid = False,
                 po_ExecutionID = [], po_PayloadSHA256 = [], po_Reason = []\<rparr>
           in case ev_base64 ev raw of
                None \<Rightarrow> Some (observation\<lparr>po_Reason := ''header is not valid unpadded base64url''\<rparr>)
              | Some payload \<Rightarrow>
                  let hashed = observation\<lparr>po_PayloadSHA256 := ev_sha ev payload\<rparr>
                  in case ev_payload ev payload of
                       None \<Rightarrow> Some (hashed\<lparr>po_Reason := ''header payload is not a JSON object''\<rparr>)
                     | Some m \<Rightarrow>
                         if \<not> nonEmptyString (map_of m ''execution_id'')
                         then Some (hashed\<lparr>po_Reason := ''header payload does not contain a non-empty execution_id''\<rparr>)
                         else Some (hashed\<lparr>po_ShapeValid := True,
                           po_ExecutionID := trim_space (string_or_empty (map_of m ''execution_id''))\<rparr>))"

definition add_event :: "string \<Rightarrow> string list \<Rightarrow> string list" where
  "add_event rawEvent events =
     (let event = trim_space rawEvent
      in if event = [] \<or> event \<in> set events then events else events @ [event])"

definition responseEvents :: "(string, string list) gomap \<Rightarrow> string list" where
  "responseEvents headers =
     fold add_event (concat (map (split_on CHR '','') (header_values headers subjectEventHeader))) []"

definition readObservation :: "'s Runtime \<Rightarrow> HttpResponse \<Rightarrow> message + Observation" where
  "readObservation ev response =
     (case hr_Body response of
        Inl err \<Rightarrow> Inl err
      | Inr body \<Rightarrow>
          let observation = \<lparr>ob_Status = hr_StatusCode response, ob_Events = responseEvents (hr_Header response),
                ob_Body = ''null'', ob_BodyText = [], ob_Provenance = inspectProvenance ev (hr_Header response)\<rparr>;
              trimmed = trim_space body
          in if trimmed = [] then Inr observation
             else
               (case ev_compact ev trimmed of
                  None \<Rightarrow> Inr (observation\<lparr>ob_BodyText := body\<rparr>)
                | Some compact \<Rightarrow> Inr (observation\<lparr>ob_Body := compact\<rparr>)))"

definition observationHash :: "'s Runtime \<Rightarrow> Observation \<Rightarrow> string" where
  "observationHash ev observation = ev_sha ev (ev_observation ev observation)"

fun select_from :: "string \<Rightarrow> string list \<Rightarrow> Json \<Rightarrow> message + Json" where
  "select_from selector [] actual = Inr actual"
| "select_from selector (part # parts) actual =
     (case as_object (Some actual) of
        None \<Rightarrow> Inl [Q part, T '' is not an object while selecting '', Q selector]
      | Some object' \<Rightarrow>
          (case map_of object' part of
             None \<Rightarrow> Inl [T ''field '', Q selector, T '' is missing'']
           | Some v \<Rightarrow> select_from selector parts v))"

definition selectBodyValue :: "'s Runtime \<Rightarrow> Observation \<Rightarrow> string \<Rightarrow> message + Json" where
  "selectBodyValue ev observation selector =
     (let parts = split_on CHR ''.'' selector
      in if length parts < 2 \<or> parts ! 0 \<noteq> ''body'' then Inl [T ''selector must start with body.'']
         else
           (case decodeBody (ev_decode ev) (ob_Body observation) of
              Inl err \<Rightarrow> Inl err
            | Inr actual \<Rightarrow> select_from selector (tl parts) actual))"

section \<open>One request\<close>

record Request =
  rq_Method :: string
  rq_URL :: string
  rq_Body :: Json

definition no_observation :: Observation where
  "no_observation = \<lparr>ob_Status = 0, ob_Events = [], ob_Body = [], ob_BodyText = [], ob_Provenance = None\<rparr>"

text \<open>The body of a request: what is recorded of it and its bytes, none when there is no body.\<close>

definition request_body :: "'s Runtime \<Rightarrow> Json \<Rightarrow> object \<Rightarrow> Json \<times> (message + string)" where
  "request_body ev bodyValue captures =
     (if bodyValue = JNull then (JNull, Inr [])
      else
        (case Materialize bodyValue of
           Inl err \<Rightarrow> (JNull, Inl (T ''materialize request body: '' # err))
         | Inr materialized \<Rightarrow>
             (case resolveTemplatesValue materialized captures of
                Inl err \<Rightarrow> (JNull, Inl (T ''resolve request body: '' # err))
              | Inr resolved \<Rightarrow>
                  (resolved,
                   (case ev_marshal ev resolved of
                      Inl err \<Rightarrow> Inl (T ''encode request body: '' # err)
                    | Inr body \<Rightarrow> Inr body)))))"

definition performRequest ::
  "'s Runtime \<Rightarrow> URL \<Rightarrow> string \<Rightarrow> string \<Rightarrow> Json \<Rightarrow> object \<Rightarrow> 's \<Rightarrow> (Request \<times> Observation \<times> message option) \<times> 's" where
  "performRequest ev base method path bodyValue captures s =
     (case resolveTemplates path captures of
        Inl err \<Rightarrow>
          ((\<lparr>rq_Method = method, rq_URL = [], rq_Body = JNull\<rparr>, no_observation, Some (T ''resolve request path: '' # err)), s)
      | Inr resolvedPath \<Rightarrow>
          let requestURL = resolveURL ev base resolvedPath;
              (recorded, encoded) = request_body ev bodyValue captures;
              request = \<lparr>rq_Method = method, rq_URL = requestURL, rq_Body = recorded\<rparr>
          in case encoded of
               Inl err \<Rightarrow> ((request, no_observation, Some err), s)
             | Inr body \<Rightarrow>
                 (case ev_new_request ev method requestURL of
                    Some err \<Rightarrow> ((request, no_observation, Some (T ''create request: '' # err)), s)
                  | None \<Rightarrow>
                      (case ev_do ev \<lparr>hq_Method = method, hq_URL = requestURL, hq_Body = body, hq_JSON = (body \<noteq> [])\<rparr> s of
                         (Inl err, s') \<Rightarrow> ((request, no_observation, Some (T ''request subject: '' # err)), s')
                       | (Inr response, s') \<Rightarrow>
                           (case readObservation ev response of
                              Inl err \<Rightarrow>
                                ((request, no_observation\<lparr>ob_Status := hr_StatusCode response\<rparr>,
                                  Some (T ''read subject response: '' # err)), s')
                            | Inr observation \<Rightarrow> ((request, observation, None), s')))))"

end
