(* ===== verification/SornaOracle.thy ===== *)
theory SornaOracle
  imports SornaContract
begin

text \<open>
  sorna/internal/oracle/oracle.go: the frozen oracle made from a sealed contract.  Encoding and
  decoding are arguments.  A missing \<open>given\<close> or \<open>expect\<close> is the \<open>nil\<close> map, \<open>None\<close>.
\<close>

section \<open>Data\<close>

abbreviation OracleSchema :: string where "OracleSchema \<equiv> ''ingen.oracle/v1''"

record SornaContractReference =
  ctr_ID :: string
  ctr_Version :: int
  ctr_SHA256 :: string

record Case =
  oc_CaseID :: string
  oc_RuleID :: string
  oc_Strength :: string
  oc_Subject :: string
  oc_Given :: "object option"
  oc_Expect :: "object option"

record OracleArtifact =
  oa_Schema :: string
  oa_Status :: string
  oa_Contract :: SornaContractReference
  oa_PolicySHA256 :: string
  oa_Cases :: "Case list"

text \<open>\<open>%04d\<close> of a number that is not negative.\<close>

definition pad4 :: "int \<Rightarrow> string" where
  "pad4 n = replicate (4 - length (dec_string n)) CHR ''0'' @ dec_string n"

definition case_name :: "nat \<Rightarrow> string" where
  "case_name i = ''case-'' @ pad4 (int i + 1)"

section \<open>Validation\<close>

definition new_name_problems :: "string \<Rightarrow> string \<Rightarrow> string list \<Rightarrow> string \<Rightarrow> message list" where
  "new_name_problems path field seen v =
     (if blank v then [[T path, T field, T '' must be non-empty'']]
      else problem (v \<in> set seen) [T path, T field, T '' duplicates '', Q v])"

definition add_name :: "string list \<Rightarrow> string \<Rightarrow> string list" where
  "add_name seen v = (if blank v then seen else v # seen)"

fun cases_problems :: "nat \<Rightarrow> string list \<Rightarrow> string list \<Rightarrow> Case list \<Rightarrow> message list" where
  "cases_problems i cs rs [] = []"
| "cases_problems i cs rs (c # items) =
     (let path = item_path ''oracle.cases'' i
      in new_name_problems path ''.case_id'' cs (oc_CaseID c) @
         new_name_problems path ''.rule_id'' rs (oc_RuleID c) @
         (if blank (oc_Strength c) then [[T path, T ''.strength must be non-empty'']]
          else problem (oc_Strength c \<notin> set strengths) [T path, T ''.strength is invalid'']) @
         cases_problems (Suc i) (add_name cs (oc_CaseID c)) (add_name rs (oc_RuleID c)) items)"

definition Oracle_Validate :: "OracleArtifact \<Rightarrow> message list" where
  "Oracle_Validate a =
     problem (oa_Schema a \<noteq> OracleSchema) [T ''oracle.schema must be '', T OracleSchema] @
     problem (oa_Status a \<noteq> ''frozen'') [T ''oracle.status must be frozen''] @
     problem (blank (ctr_ID (oa_Contract a))) [T ''oracle.contract.id must be non-empty''] @
     problem (ctr_Version (oa_Contract a) < 1) [T ''oracle.contract.version must be positive''] @
     problem (\<not> valid_sha256 (ctr_SHA256 (oa_Contract a))) [T ''oracle.contract.sha256 must be a lowercase SHA-256 digest''] @
     problem (\<not> valid_sha256 (oa_PolicySHA256 a)) [T ''oracle.policy_sha256 must be a lowercase SHA-256 digest''] @
     problem (oa_Cases a = []) [T ''oracle.cases must contain at least one case''] @
     cases_problems 0 [] [] (oa_Cases a)"

section \<open>Generation\<close>

definition materializeGiven :: "Json option \<Rightarrow> message + object option" where
  "materializeGiven v =
     (case v of
        None \<Rightarrow> Inr None
      | Some JNull \<Rightarrow> Inr None
      | Some g \<Rightarrow>
          (case Materialize g of
             Inl err \<Rightarrow> Inl err
           | Inr m \<Rightarrow>
               (case as_object (Some m) of None \<Rightarrow> Inl [T ''given must be an object''] | Some given \<Rightarrow> Inr (Some given))))"

fun generate_cases :: "nat \<Rightarrow> Json list \<Rightarrow> message + Case list" where
  "generate_cases i [] = Inr []"
| "generate_cases i (v # vs) =
     (case as_object (Some v) of
        None \<Rightarrow> Inl [T ''oracle contract rule '', D (int i), T '' must be an object'']
      | Some rule \<Rightarrow>
          (case materializeGiven (map_of rule ''given'') of
             Inl err \<Rightarrow> Inl ([T ''materialize rule '', Q (string_or_empty (map_of rule ''id'')), T '': ''] @ err)
           | Inr given \<Rightarrow>
               (case generate_cases (Suc i) vs of
                  Inl err \<Rightarrow> Inl err
                | Inr cases \<Rightarrow>
                    Inr (\<lparr>oc_CaseID = case_name i, oc_RuleID = string_or_empty (map_of rule ''id''),
                          oc_Strength = string_or_empty (map_of rule ''strength''),
                          oc_Subject = string_or_empty (map_of rule ''subject''), oc_Given = given,
                          oc_Expect = as_object (map_of rule ''expect'')\<rparr> # cases))))"

definition Oracle_Generate :: "Sealed \<Rightarrow> string \<Rightarrow> message + OracleArtifact" where
  "Oracle_Generate sealed policySHA256 =
     (let body = sd_Document sealed
      in if \<not> valid_sha256 (sd_SHA256 sealed) then Inl [T ''sealed contract must contain a valid SHA-256 hash'']
         else if \<not> valid_sha256 policySHA256 then Inl [T ''oracle policy hash must be a lowercase SHA-256 digest'']
         else if Contract_Validate body \<noteq> []
         then Inl (T ''oracle contract is invalid: '' # join_problems (Contract_Validate body))
         else
           (case integer (map_of body ''version'') of
              None \<Rightarrow> Inl [T ''oracle contract version must be an integer'']
            | Some version \<Rightarrow>
                (case as_list (map_of body ''rules'') of
                   None \<Rightarrow> Inl [T ''oracle contract rules must be a list'']
                 | Some rules \<Rightarrow>
                     (case generate_cases 0 rules of
                        Inl err \<Rightarrow> Inl err
                      | Inr cases \<Rightarrow>
                          let artifact =
                            \<lparr>oa_Schema = OracleSchema, oa_Status = ''frozen'',
                             oa_Contract = \<lparr>ctr_ID = string_or_empty (map_of body ''id''), ctr_Version = version,
                               ctr_SHA256 = sd_SHA256 sealed\<rparr>,
                             oa_PolicySHA256 = policySHA256, oa_Cases = cases\<rparr>
                          in if Oracle_Validate artifact \<noteq> []
                             then Inl (T ''generated oracle is invalid: '' # join_problems (Oracle_Validate artifact))
                             else Inr artifact))))"

section \<open>The canonical text\<close>

definition Oracle_CanonicalJSON :: "(OracleArtifact \<Rightarrow> message + string) \<Rightarrow> OracleArtifact \<Rightarrow> message + string" where
  "Oracle_CanonicalJSON encode a =
     (if Oracle_Validate a \<noteq> [] then Inl (T ''invalid oracle: '' # join_problems (Oracle_Validate a))
      else (case encode a of Inl err \<Rightarrow> Inl (T ''canonicalize oracle: '' # err) | Inr c \<Rightarrow> Inr c))"

definition Oracle_LoadBytes ::
  "(string \<Rightarrow> message + OracleArtifact) \<Rightarrow> (OracleArtifact \<Rightarrow> message + string) \<Rightarrow> string \<Rightarrow> string
   \<Rightarrow> message + OracleArtifact" where
  "Oracle_LoadBytes decode encode path contents =
     (case decode contents of
        Inl err \<Rightarrow> Inl ([T ''parse oracle '', T path, T '': ''] @ err)
      | Inr a \<Rightarrow>
          if Oracle_Validate a \<noteq> [] then Inl (T ''invalid oracle: '' # join_problems (Oracle_Validate a))
          else
            (case Oracle_CanonicalJSON encode a of
               Inl err \<Rightarrow> Inl err
             | Inr canonical \<Rightarrow>
                 if contents \<noteq> canonical then Inl [T ''oracle '', T path, T '' is not canonical JSON''] else Inr a))"

definition Oracle_Hash ::
  "(OracleArtifact \<Rightarrow> message + string) \<Rightarrow> (string \<Rightarrow> string) \<Rightarrow> OracleArtifact \<Rightarrow> message + string" where
  "Oracle_Hash encode sha a =
     (case Oracle_CanonicalJSON encode a of Inl err \<Rightarrow> Inl err | Inr c \<Rightarrow> Inr (sha c))"

section \<open>Expanding generators\<close>

text \<open>The values whose generator is expanded, outermost first; nothing below one is visited.\<close>

fun reached :: "Json \<Rightarrow> Json list" and reached_fields :: "object \<Rightarrow> Json list" and reached_items :: "Json list \<Rightarrow> Json list" where
  "reached (JObject m) = (case map_of m ''generated'' of Some g \<Rightarrow> [g] | None \<Rightarrow> reached_fields m)"
| "reached (JArray xs) = reached_items xs"
| "reached v = []"
| "reached_fields [] = []"
| "reached_fields (p # m) = reached (snd p) @ reached_fields m"
| "reached_items [] = []"
| "reached_items (x # xs) = reached x @ reached_items xs"

lemma Materialize_iff:
  "(\<exists>v'. Materialize v = Inr v') \<longleftrightarrow> (\<forall>g \<in> set (reached v). \<exists>s. generate g = Inr s)"
  "(\<exists>k. materialize_fields m = Inr k) \<longleftrightarrow> (\<forall>g \<in> set (reached_fields m). \<exists>s. generate g = Inr s)"
  "(\<exists>ys. materialize_items xs = Inr ys) \<longleftrightarrow> (\<forall>g \<in> set (reached_items xs). \<exists>s. generate g = Inr s)"
proof (induction v and m and xs rule: Materialize_materialize_fields_materialize_items.induct)
  case (1 m)
  then show ?case by (cases "map_of m ''generated''") (auto split: sum.splits)
next
  case (5 p m)
  then show ?case by (cases "Materialize (snd p)") (auto split: sum.splits)
next
  case (7 x xs)
  then show ?case by (cases "Materialize x") (auto split: sum.splits)
qed (auto split: sum.splits)

text \<open>What is expanded holds no generator and is its own expansion.\<close>

lemma generate_string: "generate g = Inr v \<Longrightarrow> \<exists>s. v = JString s"
  by (auto simp: generate_def Let_def split: option.splits if_splits)

lemma materialize_keys: "materialize_fields m = Inr k \<Longrightarrow> map fst k = map fst m"
  by (induction m arbitrary: k) (auto split: sum.splits)

lemma map_of_keys: "map fst k = map fst m \<Longrightarrow> map_of m f = None \<Longrightarrow> map_of k f = None"
  by (simp add: map_of_eq_None_iff flip: set_map)

lemma Materialize_again:
  "Materialize v = Inr v' \<Longrightarrow> Materialize v' = Inr v'"
  "materialize_fields m = Inr k \<Longrightarrow> materialize_fields k = Inr k"
  "materialize_items xs = Inr ys \<Longrightarrow> materialize_items ys = Inr ys"
proof (induction v and m and xs arbitrary: v' and k and ys rule: Materialize_materialize_fields_materialize_items.induct)
  case (1 m)
  show ?case
  proof (cases "map_of m ''generated''")
    case None
    with "1.prems" obtain k where k: "materialize_fields m = Inr k" "v' = JObject k" by (auto split: sum.splits)
    then show ?thesis using "1.IH"[OF None k(1)] map_of_keys[OF materialize_keys[OF k(1)] None] by simp
  next
    case (Some g)
    with "1.prems" generate_string[of g v'] show ?thesis by auto
  qed
next
  case (5 p m)
  from "5.prems" obtain v k' where k: "Materialize (snd p) = Inr v" "materialize_fields m = Inr k'" "k = (fst p, v) # k'"
    by (auto split: sum.splits)
  then show ?case using "5.IH" by simp
next
  case (7 x xs)
  from "7.prems" obtain v k' where k: "Materialize x = Inr v" "materialize_items xs = Inr k'" "ys = v # k'"
    by (auto split: sum.splits)
  then show ?case using "7.IH" by simp
qed (auto split: sum.splits)

text \<open>The generators of a value that passed the validation fail only on what the validation leaves open.\<close>

definition expandable :: "Json \<Rightarrow> bool" where
  "expandable g \<longleftrightarrow>
     (case as_object (Some g) of
        None \<Rightarrow> False
      | Some generator \<Rightarrow> as_string (map_of generator ''value'') \<noteq> None \<and>
          (case integer (map_of generator ''count'') of Some n \<Rightarrow> n \<le> 1000000 | None \<Rightarrow> False))"

lemma validated_generator:
  "generator_problems path m = [] \<Longrightarrow> map_of m ''generated'' = Some g \<Longrightarrow> (\<exists>s. generate g = Inr s) \<longleftrightarrow> expandable g"
  by (auto simp: generator_problems_def generate_def expandable_def Let_def string_or_empty_def positive_integer_def
      split: option.splits)

lemma validated_reached:
  "validateGeneratedValues v path = [] \<Longrightarrow> g \<in> set (reached v) \<Longrightarrow> (\<exists>s. generate g = Inr s) \<longleftrightarrow> expandable g"
  "generated_fields m path = [] \<Longrightarrow> g \<in> set (reached_fields m) \<Longrightarrow> (\<exists>s. generate g = Inr s) \<longleftrightarrow> expandable g"
  "generated_items xs path i = [] \<Longrightarrow> g \<in> set (reached_items xs) \<Longrightarrow> (\<exists>s. generate g = Inr s) \<longleftrightarrow> expandable g"
proof (induction v path and m path and xs path i rule: validateGeneratedValues_generated_fields_generated_items.induct)
  case (1 m path)
  then show ?case
    using validated_generator[of path m] by (cases "map_of m ''generated''") auto
qed auto


section \<open>The cases of a contract\<close>

definition document_rules :: "object \<Rightarrow> Json list" where
  "document_rules body = (case as_list (map_of body ''rules'') of Some vs \<Rightarrow> vs | None \<Rightarrow> [])"

text \<open>A rule whose \<open>given\<close>, if there is one, is an object that can be expanded.\<close>

definition given_expands :: "Json \<Rightarrow> bool" where
  "given_expands v \<longleftrightarrow>
     (case as_object (Some v) of
        None \<Rightarrow> False
      | Some rule \<Rightarrow>
          (case map_of rule ''given'' of
             None \<Rightarrow> True
           | Some g \<Rightarrow>
               (case as_object (Some g) of
                  None \<Rightarrow> False
                | Some given \<Rightarrow> map_of given ''generated'' = None \<and> (\<forall>h \<in> set (reached_fields given). expandable h))))"

lemma given_object:
  "given_problems path g = [] \<Longrightarrow> \<exists>given. g = JObject given"
  by (cases "as_object (Some g)") (auto simp: given_problems_def as_Some)

lemma generated_field:
  "generated_fields m path = [] \<Longrightarrow> map_of m f = Some v \<Longrightarrow> \<exists>q. validateGeneratedValues v q = []"
  by (induction m) (auto split: if_splits)

lemma materialize_given:
  assumes "rule_body_problems path rule = []"
  shows "(\<exists>x. materializeGiven (map_of rule ''given'') = Inr x) \<longleftrightarrow> given_expands (JObject rule)"
proof (cases "map_of rule ''given''")
  case None
  then show ?thesis by (simp add: materializeGiven_def given_expands_def)
next
  case (Some g)
  with assms obtain given where g: "g = JObject given" using given_object by (auto simp: rule_body_problems_def)
  from assms have "generated_fields rule path = []" by (simp add: rule_body_problems_def)
  from generated_field[OF this Some] g obtain q where q: "generated_fields given q = []" by auto
  show ?thesis
  proof (cases "map_of given ''generated''")
    case None
    have "(\<exists>x. materializeGiven (map_of rule ''given'') = Inr x) \<longleftrightarrow> (\<exists>k. materialize_fields given = Inr k)"
      using Some g None by (auto simp: materializeGiven_def split: sum.splits)
    then show ?thesis
      using Materialize_iff(2)[of given] validated_reached(2)[OF q] Some g None by (simp add: given_expands_def)
  next
    case (Some h)
    then show ?thesis
      using \<open>map_of rule ''given'' = Some g\<close> g generate_string[of h]
      by (auto simp: materializeGiven_def given_expands_def as_object_def split: sum.splits)
  qed
qed

lemma rules_Cons:
  assumes "rules_problems i seen (v # vs) = []"
  obtains rule where "v = JObject rule" "id_problems (item_path ''contract.rules'' i) seen (map_of rule ''id'') = []"
    "rule_body_problems (item_path ''contract.rules'' i) rule = []"
    "rules_problems (Suc i) (add_id seen (map_of rule ''id'')) vs = []"
  using assms by (cases "as_object (Some v)") (auto simp: as_Some)

lemma generate_cases_iff:
  "rules_problems i seen vs = [] \<Longrightarrow> (\<exists>cs. generate_cases i vs = Inr cs) \<longleftrightarrow> (\<forall>v \<in> set vs. given_expands v)"
proof (induction vs arbitrary: i seen)
  case (Cons v vs)
  from rules_Cons[OF Cons.prems] obtain rule where r: "v = JObject rule"
    "rule_body_problems (item_path ''contract.rules'' i) rule = []"
    "rules_problems (Suc i) (add_id seen (map_of rule ''id'')) vs = []" by blast
  have "(\<exists>cs. generate_cases i (v # vs) = Inr cs) \<longleftrightarrow>
      (\<exists>x. materializeGiven (map_of rule ''given'') = Inr x) \<and> (\<exists>cs. generate_cases (Suc i) vs = Inr cs)"
    using r(1) by (auto split: sum.splits)
  then show ?case using materialize_given[OF r(2)] Cons.IH[OF r(3)] r(1) by simp
qed simp

text \<open>The case made from a rule.\<close>

definition case_of_rule :: "nat \<Rightarrow> Json \<Rightarrow> Case \<Rightarrow> bool" where
  "case_of_rule i v c \<longleftrightarrow>
     (\<exists>rule. v = JObject rule \<and> oc_CaseID c = case_name i \<and> oc_RuleID c = string_or_empty (map_of rule ''id'') \<and>
        oc_Strength c = string_or_empty (map_of rule ''strength'') \<and>
        oc_Subject c = string_or_empty (map_of rule ''subject'') \<and>
        materializeGiven (map_of rule ''given'') = Inr (oc_Given c) \<and>
        oc_Expect c = as_object (map_of rule ''expect''))"

lemma generate_cases_nth:
  "generate_cases i vs = Inr cs \<Longrightarrow>
     length cs = length vs \<and> (\<forall>n < length vs. case_of_rule (i + n) (vs ! n) (cs ! n))"
proof (induction vs arbitrary: i cs)
  case (Cons v vs)
  from Cons.prems obtain rule given ds where r: "v = JObject rule" "materializeGiven (map_of rule ''given'') = Inr given"
    "generate_cases (Suc i) vs = Inr ds"
    "cs = \<lparr>oc_CaseID = case_name i, oc_RuleID = string_or_empty (map_of rule ''id''),
       oc_Strength = string_or_empty (map_of rule ''strength''), oc_Subject = string_or_empty (map_of rule ''subject''),
       oc_Given = given, oc_Expect = as_object (map_of rule ''expect'')\<rparr> # ds"
    by (auto simp: as_Some split: option.splits sum.splits)
  then have "case_of_rule i v (hd cs)" by (simp add: case_of_rule_def)
  then show ?case using Cons.IH[OF r(3)] r(4) by (auto simp: nth_Cons split: nat.splits)
qed simp

subsection \<open>Their names\<close>

lemma dec_val_pad: "dec_val 0 (replicate k CHR ''0'' @ s) = dec_val 0 s"
  by (induction k) (simp_all add: digit_val_def byte_def)

lemma pad4_val: "0 \<le> n \<Longrightarrow> dec_val 0 (pad4 n) = n"
  using dec_nat_digits[of n] by (simp add: pad4_def dec_string_def dec_val_pad)

lemma case_name_inj: "case_name i = case_name j \<Longrightarrow> i = j"
proof -
  assume "case_name i = case_name j"
  then have "pad4 (int i + 1) = pad4 (int j + 1)" by (simp add: case_name_def)
  then have "dec_val 0 (pad4 (int i + 1)) = dec_val 0 (pad4 (int j + 1))" by (rule arg_cong)
  then show "i = j" by (simp add: pad4_val)
qed

lemma case_name_text: "\<not> blank (case_name i)"
  unfolding case_name_def by (rule plain_not_blank [of "CHR ''s''"]) (simp_all add: plain_byte_def byte_def)

lemma strength_text: "s \<in> set strengths \<Longrightarrow> \<not> blank s"
  using plain_not_blank [of "CHR ''m''"] plain_not_blank [of "CHR ''s''"]
  by (auto simp: strengths_def plain_byte_def byte_def)

lemma rule_strength:
  "rule_body_problems path rule = [] \<Longrightarrow> string_or_empty (map_of rule ''strength'') \<in> set strengths"
  by (auto simp: rule_body_problems_def string_or_empty_def split: option.splits)

lemma rule_name:
  "id_problems path seen v = [] \<Longrightarrow>
     new_name_problems q f seen (string_or_empty v) = [] \<and> add_id seen v = add_name seen (string_or_empty v)"
  by (auto simp: id_problems_def new_name_problems_def add_id_def add_name_def string_or_empty_def
      split: option.splits if_splits)

lemma cases_problems_Nil:
  "rules_problems i seen vs = [] \<Longrightarrow> generate_cases i vs = Inr cs \<Longrightarrow> (\<forall>c \<in> set names. \<exists>j < i. c = case_name j) \<Longrightarrow>
     cases_problems i names seen cs = []"
proof (induction vs arbitrary: i seen cs names)
  case (Cons v vs)
  from rules_Cons[OF Cons.prems(1)] obtain rule where r: "v = JObject rule"
    "id_problems (item_path ''contract.rules'' i) seen (map_of rule ''id'') = []"
    "rule_body_problems (item_path ''contract.rules'' i) rule = []"
    "rules_problems (Suc i) (add_id seen (map_of rule ''id'')) vs = []" by blast
  from Cons.prems(2) r(1) obtain given ds where d: "generate_cases (Suc i) vs = Inr ds"
    "cs = \<lparr>oc_CaseID = case_name i, oc_RuleID = string_or_empty (map_of rule ''id''),
       oc_Strength = string_or_empty (map_of rule ''strength''), oc_Subject = string_or_empty (map_of rule ''subject''),
       oc_Given = given, oc_Expect = as_object (map_of rule ''expect'')\<rparr> # ds"
    by (auto split: sum.splits)
  have new: "case_name i \<notin> set names" using Cons.prems(3) case_name_inj by fastforce
  have "\<forall>c \<in> set (case_name i # names). \<exists>j < Suc i. c = case_name j" using Cons.prems(3) less_Suc_eq by auto
  from Cons.IH[OF r(4) d(1) this] show ?case
    using rule_name[OF r(2)] rule_strength[OF r(3)] strength_text[OF rule_strength[OF r(3)]] case_name_text new d(2)
    by (simp add: new_name_problems_def add_name_def Let_def)
qed simp


section \<open>Generation is exact\<close>

lemma validated_contract:
  assumes "Contract_Validate body = []"
  obtains version rules where "integer (map_of body ''version'') = Some version" "1 \<le> version"
    "as_list (map_of body ''rules'') = Some rules" "document_rules body = rules" "rules_problems 0 [] rules = []"
    "\<not> blank (string_or_empty (map_of body ''id''))"
proof -
  have req: "map_of body ''id'' \<noteq> None" "map_of body ''version'' \<noteq> None" "map_of body ''rules'' \<noteq> None"
    and h: "contract_header_problems body = []"
    and r: "(case map_of body ''rules'' of None \<Rightarrow> []
      | Some v \<Rightarrow> (case as_list (Some v) of
                None \<Rightarrow> [[T ''contract.rules must be a list'']]
              | Some rules \<Rightarrow> rules_problems 0 [] rules)) = []"
    using assms by (simp_all add: Contract_Validate_def required_fields_def)
  from req(3) obtain v where v: "map_of body ''rules'' = Some v" by auto
  with r obtain rules where rules: "as_list (Some v) = Some rules" "rules_problems 0 [] rules = []"
    by (auto split: option.splits)
  from h req have "nonEmptyString (map_of body ''id'')" "positive_integer (map_of body ''version'')"
    by (simp_all add: contract_header_problems_def)
  then show thesis
    using that rules v
    by (auto simp: nonEmptyString_def positive_integer_def string_or_empty_def document_rules_def split: option.splits)
qed

lemma oracle_valid:
  assumes "valid_sha256 d" "valid_sha256 p" "1 \<le> version" "\<not> blank i"
    "rules_problems 0 [] rules = []" "generate_cases 0 rules = Inr cs"
  shows "Oracle_Validate \<lparr>oa_Schema = OracleSchema, oa_Status = ''frozen'',
      oa_Contract = \<lparr>ctr_ID = i, ctr_Version = version, ctr_SHA256 = d\<rparr>, oa_PolicySHA256 = p, oa_Cases = cs\<rparr> = [] \<longleftrightarrow>
    rules \<noteq> []"
  using assms cases_problems_Nil[OF assms(5,6), of "[]"] generate_cases_nth[OF assms(6)]
  by (auto simp: Oracle_Validate_def)

lemma generate_steps:
  "Oracle_Generate sealed p = Inr a \<longleftrightarrow>
     valid_sha256 (sd_SHA256 sealed) \<and> valid_sha256 p \<and> Contract_Validate (sd_Document sealed) = [] \<and>
     document_rules (sd_Document sealed) \<noteq> [] \<and>
     (\<exists>version cs. integer (map_of (sd_Document sealed) ''version'') = Some version \<and>
        generate_cases 0 (document_rules (sd_Document sealed)) = Inr cs \<and>
        a = \<lparr>oa_Schema = OracleSchema, oa_Status = ''frozen'',
             oa_Contract = \<lparr>ctr_ID = string_or_empty (map_of (sd_Document sealed) ''id''), ctr_Version = version,
               ctr_SHA256 = sd_SHA256 sealed\<rparr>, oa_PolicySHA256 = p, oa_Cases = cs\<rparr>)" (is "?l = ?r")
proof (cases "valid_sha256 (sd_SHA256 sealed) \<and> valid_sha256 p \<and> Contract_Validate (sd_Document sealed) = []")
  case True
  then have valid: "Contract_Validate (sd_Document sealed) = []" by simp
  obtain version rules where v: "integer (map_of (sd_Document sealed) ''version'') = Some version" "1 \<le> version"
    "as_list (map_of (sd_Document sealed) ''rules'') = Some rules" "document_rules (sd_Document sealed) = rules"
    "rules_problems 0 [] rules = []" "\<not> blank (string_or_empty (map_of (sd_Document sealed) ''id''))"
    by (rule validated_contract[OF valid])
  show ?thesis
  proof (cases "generate_cases 0 rules")
    case (Inl err)
    then show ?thesis using True v by (simp add: Oracle_Generate_def Let_def)
  next
    case (Inr cs)
    then show ?thesis
      using True v oracle_valid[of "sd_SHA256 sealed" p, OF _ _ v(2,6,5) Inr]
      by (auto simp: Oracle_Generate_def Let_def)
  qed
next
  case False
  then show ?thesis by (auto simp: Oracle_Generate_def Let_def)
qed

text \<open>C34. An oracle is frozen from a sealed contract exactly when both digests are valid, the contract is
  valid and has a rule, and every generator that expanding a rule's \<open>given\<close> reaches repeats a string at most a
  million times.  It then has one case for each rule, in order, with the rule's identifier, strength,
  subject, expanded \<open>given\<close> and expectation, and it always passes its own validation.\<close>

theorem oracle_exact:
  "((\<exists>a. Oracle_Generate sealed p = Inr a) \<longleftrightarrow>
      valid_sha256 (sd_SHA256 sealed) \<and> valid_sha256 p \<and> Contract_Validate (sd_Document sealed) = [] \<and>
      document_rules (sd_Document sealed) \<noteq> [] \<and> (\<forall>v \<in> set (document_rules (sd_Document sealed)). given_expands v)) \<and>
    (\<forall>a. Oracle_Generate sealed p = Inr a \<longrightarrow>
      Oracle_Validate a = [] \<and> ctr_SHA256 (oa_Contract a) = sd_SHA256 sealed \<and> oa_PolicySHA256 a = p \<and>
      Some (ctr_Version (oa_Contract a)) = integer (map_of (sd_Document sealed) ''version'') \<and>
      length (oa_Cases a) = length (document_rules (sd_Document sealed)) \<and>
      (\<forall>n < length (oa_Cases a). case_of_rule n (document_rules (sd_Document sealed) ! n) (oa_Cases a ! n)))"
proof (cases "Contract_Validate (sd_Document sealed) = []")
  case True
  obtain version where v: "integer (map_of (sd_Document sealed) ''version'') = Some version" "1 \<le> version"
    "rules_problems 0 [] (document_rules (sd_Document sealed)) = []"
    "\<not> blank (string_or_empty (map_of (sd_Document sealed) ''id''))"
    by (rule validated_contract[OF True]) blast
  show ?thesis
  proof (intro conjI allI impI)
    show "(\<exists>a. Oracle_Generate sealed p = Inr a) \<longleftrightarrow>
      valid_sha256 (sd_SHA256 sealed) \<and> valid_sha256 p \<and> Contract_Validate (sd_Document sealed) = [] \<and>
      document_rules (sd_Document sealed) \<noteq> [] \<and> (\<forall>v \<in> set (document_rules (sd_Document sealed)). given_expands v)"
      unfolding generate_steps using v(1) generate_cases_iff[OF v(3)] by auto
  next
    fix a assume "Oracle_Generate sealed p = Inr a"
    then obtain cs where c: "valid_sha256 (sd_SHA256 sealed)" "valid_sha256 p" "document_rules (sd_Document sealed) \<noteq> []"
      "generate_cases 0 (document_rules (sd_Document sealed)) = Inr cs"
      and a: "a = \<lparr>oa_Schema = OracleSchema, oa_Status = ''frozen'',
             oa_Contract = \<lparr>ctr_ID = string_or_empty (map_of (sd_Document sealed) ''id''), ctr_Version = version,
               ctr_SHA256 = sd_SHA256 sealed\<rparr>, oa_PolicySHA256 = p, oa_Cases = cs\<rparr>"
      unfolding generate_steps v(1) by blast
    show "Oracle_Validate a = []" unfolding a using oracle_valid[OF c(1,2) v(2,4,3) c(4)] c(3) by blast
    note n = generate_cases_nth[OF c(4)]
    show "ctr_SHA256 (oa_Contract a) = sd_SHA256 sealed" "oa_PolicySHA256 a = p"
      "Some (ctr_Version (oa_Contract a)) = integer (map_of (sd_Document sealed) ''version'')"
      "length (oa_Cases a) = length (document_rules (sd_Document sealed))"
      using a v(1) n by simp_all
    show "case_of_rule i (document_rules (sd_Document sealed) ! i) (oa_Cases a ! i)" if "i < length (oa_Cases a)" for i
      using a n that by simp
  qed
qed (simp add: generate_steps)

definition sample_case_rule :: Json where
  "sample_case_rule =
     JObject [(''id'', JString ''long-name''), (''strength'', JString ''must''), (''subject'', JString ''POST /users''),
       (''given'', JObject [(''body'', JObject [(''name'', JObject [(''generated'',
          JObject [(''kind'', JString ''repeat''), (''value'', JString ''ab''), (''count'', JNumber ''2'')])])])]),
       (''expect'', JObject [(''status'', JNumber ''201'')])]"

definition sample_body :: "string \<Rightarrow> object" where
  "sample_body status =
     [(''schema'', JString ContractSchema), (''id'', JString ''users''), (''version'', JNumber ''3''),
      (''status'', JString status), (''interface'', JObject [(''kind'', JString ''http'')]),
      (''rules'', JArray [sample_case_rule]), (''unspecified'', JArray []),
      (''fixtures'', JArray [JObject [(''path'', JString ''users.json''), (''purpose'', JString ''seed'')]])]"

definition sample_digest :: string where
  "sample_digest = replicate 64 CHR ''a''"

lemma oracle_exact_witness:
  "\<exists>a. Oracle_Generate
      \<lparr>sd_Document = sample_body ''sealed'', sd_CanonicalJSON = ''x'', sd_SHA256 = sample_digest\<rparr> sample_digest = Inr a \<and>
    map oc_CaseID (oa_Cases a) = [''case-0001''] \<and> Oracle_Validate a = []"
proof -
  let ?s = "\<lparr>sd_Document = sample_body ''sealed'', sd_CanonicalJSON = ''x'', sd_SHA256 = sample_digest\<rparr>"
  have h1: "valid_sha256 (sd_SHA256 ?s)" by code_simp
  have h2: "Contract_Validate (sd_Document ?s) = []" by code_simp
  have h3: "document_rules (sd_Document ?s) \<noteq> []" by code_simp
  have h4: "\<forall>v \<in> set (document_rules (sd_Document ?s)). given_expands v" by code_simp
  have h5: "valid_sha256 sample_digest" by code_simp
  note t = oracle_exact[of ?s sample_digest]
  from t[THEN conjunct1] h1 h2 h3 h4 h5 obtain a where a: "Oracle_Generate ?s sample_digest = Inr a" by blast
  have names: "case_name 0 = ''case-0001''" by code_simp
  have one: "length (document_rules (sd_Document ?s)) = 1" by code_simp
  from t[THEN conjunct2, rule_format, OF a] one have l: "length (oa_Cases a) = 1" "Oracle_Validate a = []"
    "case_of_rule 0 (document_rules (sd_Document ?s) ! 0) (oa_Cases a ! 0)" by simp_all
  from l(1) obtain c where c: "oa_Cases a = [c]" by (auto simp: length_Suc_conv)
  from l(3) have "oc_CaseID c = case_name 0" unfolding c case_of_rule_def by auto
  then have "map oc_CaseID (oa_Cases a) = [''case-0001'']" by (simp add: c names)
  then show ?thesis by (intro exI[of _ a] conjI a l(2))
qed

end
