(* ===== verification/SornaMutation.thy ===== *)
theory SornaMutation
  imports SornaContract
begin

text \<open>
  sorna/internal/mutation/mutation.go and catalogue.go: the classification of a mutation by the rules
  of a run, and the validation of a catalogue alone and against its contract.  Reading the file is the
  YAML reader's.
\<close>

section \<open>Classification\<close>

record Spec =
  sp_ID :: string
  sp_Plane :: string
  sp_Operator :: string
  sp_Target :: string
  sp_Description :: string
  sp_Change :: object
  sp_ExpectedRuleIDs :: "string list"
  sp_Status :: string

record RuleObservation =
  ru_RuleID :: string
  ru_Status :: string

record ExpectedRuleObservation =
  eo_RuleID :: string
  eo_Status :: string

record MutationResult =
  mr_Spec :: Spec
  mr_Outcome :: string
  mr_ExpectedObservations :: "ExpectedRuleObservation list"
  mr_DirectlyFailedRules :: "string list"
  mr_CascadingInconclusive :: "string list"
  mr_UnaffectedRules :: "string list"
  mr_UnobservedExpected :: "string list"
  mr_Reason :: string

text \<open>The first loop, over the observations: the statuses by rule and the three lists.\<close>

definition observe_rule ::
  "RuleObservation \<Rightarrow> (string, string) gomap \<times> MutationResult \<Rightarrow> (string, string) gomap \<times> MutationResult" where
  "observe_rule observation st =
     (case st of (byRule, result) \<Rightarrow>
        let i = ru_RuleID observation
        in (map_set i (ru_Status observation) byRule,
            if ru_Status observation = ''fail''
            then result\<lparr>mr_DirectlyFailedRules := mr_DirectlyFailedRules result @ [i]\<rparr>
            else if ru_Status observation = ''inconclusive''
            then result\<lparr>mr_CascadingInconclusive := mr_CascadingInconclusive result @ [i]\<rparr>
            else if ru_Status observation = ''pass''
            then result\<lparr>mr_UnaffectedRules := mr_UnaffectedRules result @ [i]\<rparr>
            else result))"

text \<open>The second, over the expected rules: whether one of them failed, and the result.\<close>

definition observe_expected :: "(string, string) gomap \<Rightarrow> string \<Rightarrow> bool \<times> MutationResult \<Rightarrow> bool \<times> MutationResult" where
  "observe_expected byRule ruleID st =
     (case st of (targetFailed, result) \<Rightarrow>
        let (status, r) =
          (case map_of byRule ruleID of
             Some s \<Rightarrow> (s, result)
           | None \<Rightarrow> (''unobserved'', result\<lparr>mr_UnobservedExpected := mr_UnobservedExpected result @ [ruleID]\<rparr>))
        in (targetFailed \<or> status = ''fail'',
            r\<lparr>mr_ExpectedObservations := mr_ExpectedObservations r @ [\<lparr>eo_RuleID = ruleID, eo_Status = status\<rparr>]\<rparr>))"

definition hasExpectedInconclusive :: "string list \<Rightarrow> (string, string) gomap \<Rightarrow> bool" where
  "hasExpectedInconclusive expected statuses \<longleftrightarrow>
     list_ex (\<lambda>ruleID.
       let status = (case map_of statuses ruleID of Some s \<Rightarrow> s | None \<Rightarrow> [])
       in if status \<in> {''inconclusive'', ''skipped'', ''error''} then True
          else if status \<in> {''pass'', ''fail''} then False else True) expected"

definition Classify_mutation :: "Spec \<Rightarrow> RuleObservation list \<Rightarrow> MutationResult" where
  "Classify_mutation spec observations =
     (let empty = \<lparr>mr_Spec = spec, mr_Outcome = ''inconclusive'', mr_ExpectedObservations = [], mr_DirectlyFailedRules = [],
            mr_CascadingInconclusive = [], mr_UnaffectedRules = [], mr_UnobservedExpected = [], mr_Reason = []\<rparr>;
          (byRule, observed) = fold observe_rule observations ([], empty)
      in if sp_ExpectedRuleIDs spec = [] then observed\<lparr>mr_Reason := ''mutation has no expected rule IDs''\<rparr>
         else
           let (targetFailed, result) = fold (observe_expected byRule) (sp_ExpectedRuleIDs spec) (False, observed)
           in if targetFailed
              then result\<lparr>mr_Outcome := ''killed'', mr_Reason := ''at least one expected rule failed''\<rparr>
              else if mr_UnobservedExpected result \<noteq> [] \<or> hasExpectedInconclusive (sp_ExpectedRuleIDs spec) byRule
              then result\<lparr>mr_Reason := ''an expected rule was not directly observed as failed''\<rparr>
              else result\<lparr>mr_Outcome := ''survived'', mr_Reason := ''all expected rules passed''\<rparr>)"

section \<open>Catalogues\<close>

abbreviation CatalogueSchema :: string where "CatalogueSchema \<equiv> ''ingen.mutation-catalogue/v1''"

record Catalogue =
  cat_Schema :: string
  cat_ID :: string
  cat_Version :: int
  cat_ContractID :: string
  cat_ContractVersion :: int
  cat_Mutations :: "Spec list"

definition allowedPlanes :: "string list" where
  "allowedPlanes = [''implementation'', ''contract'']"

definition allowedStatuses :: "string list" where
  "allowedStatuses = [''candidate'', ''validated'', ''executed'', ''classified'', ''reported'']"

fun expected_problems :: "string \<Rightarrow> nat \<Rightarrow> string list \<Rightarrow> string list \<Rightarrow> message list" where
  "expected_problems path i seen [] = []"
| "expected_problems path i seen (ruleID # rest) =
     (let rulePath = item_path (path @ ''.expected_rule_ids'') i
      in if blank ruleID then [T rulePath, T '' must be non-empty''] # expected_problems path (Suc i) seen rest
         else if ruleID \<in> set seen then [T rulePath, T '' duplicates '', Q ruleID] # expected_problems path (Suc i) seen rest
         else expected_problems path (Suc i) (ruleID # seen) rest)"

definition mutation_problems :: "string \<Rightarrow> Spec \<Rightarrow> message list" where
  "mutation_problems path spec =
     problem (sp_Plane spec \<notin> set allowedPlanes) [T path, T ''.plane must be implementation or contract''] @
     problem (blank (sp_Operator spec)) [T path, T ''.operator must be non-empty''] @
     problem (blank (sp_Target spec)) [T path, T ''.target must be non-empty''] @
     problem (blank (sp_Description spec)) [T path, T ''.description must be non-empty''] @
     problem (sp_Change spec = []) [T path, T ''.change must contain a reproducible change''] @
     problem (sp_ExpectedRuleIDs spec = []) [T path, T ''.expected_rule_ids must contain at least one rule ID''] @
     expected_problems path 0 [] (sp_ExpectedRuleIDs spec) @
     problem (sp_Status spec \<notin> set allowedStatuses) [T path, T ''.status is invalid'']"

fun mutations_problems :: "nat \<Rightarrow> string list \<Rightarrow> Spec list \<Rightarrow> message list" where
  "mutations_problems i seen [] = []"
| "mutations_problems i seen (spec # rest) =
     (let path = item_path ''mutation_catalogue.mutations'' i
      in (if blank (sp_ID spec) then [[T path, T ''.id must be non-empty'']]
          else problem (sp_ID spec \<in> set seen) [T path, T ''.id duplicates '', Q (sp_ID spec)]) @
         mutation_problems path spec @
         mutations_problems (Suc i) (if blank (sp_ID spec) \<or> sp_ID spec \<in> set seen then seen else sp_ID spec # seen) rest)"

definition Catalogue_Validate :: "Catalogue \<Rightarrow> message list" where
  "Catalogue_Validate catalogue =
     problem (cat_Schema catalogue \<noteq> CatalogueSchema) [T ''mutation_catalogue.schema must be '', T CatalogueSchema] @
     problem (blank (cat_ID catalogue)) [T ''mutation_catalogue.id must be non-empty''] @
     problem (cat_Version catalogue < 1) [T ''mutation_catalogue.version must be positive''] @
     problem (blank (cat_ContractID catalogue)) [T ''mutation_catalogue.contract_id must be non-empty''] @
     problem (cat_ContractVersion catalogue < 1) [T ''mutation_catalogue.contract_version must be positive''] @
     problem (cat_Mutations catalogue = []) [T ''mutation_catalogue.mutations must contain at least one mutation''] @
     mutations_problems 0 [] (cat_Mutations catalogue)"

text \<open>No \<open>json.Number\<close> here, and the number shown for a version that is none is that of the conversion.\<close>

definition contractInteger :: "(Float \<Rightarrow> int) \<Rightarrow> Json option \<Rightarrow> int \<times> bool" where
  "contractInteger trunc v =
     (case v of
        Some (JInt n) \<Rightarrow> (n, True)
      | Some (JFloat f) \<Rightarrow> (case float_int f of Some n \<Rightarrow> (n, True) | None \<Rightarrow> (trunc f, False))
      | _ \<Rightarrow> (0, False))"

definition contract_rule_ids :: "object \<Rightarrow> string list" where
  "contract_rule_ids body =
     List.map_filter (\<lambda>v. case as_object (Some v) of Some rule \<Rightarrow> as_string (map_of rule ''id'') | None \<Rightarrow> None)
       (case as_list (map_of body ''rules'') of Some rules \<Rightarrow> rules | None \<Rightarrow> [])"

definition rule_reference_problems :: "string list \<Rightarrow> nat \<Rightarrow> Spec \<Rightarrow> message list" where
  "rule_reference_problems ids index spec =
     over_items (\<lambda>ruleIndex ruleID. problem (ruleID \<notin> set ids)
         [T ''mutation_catalogue.mutations['', D (int index), T ''].expected_rule_ids['', D (int ruleIndex), T ''] '',
          Q ruleID, T '' is not in contract.rules'']) 0 (sp_ExpectedRuleIDs spec)"

definition ValidateAgainstContract :: "(Float \<Rightarrow> int) \<Rightarrow> Catalogue \<Rightarrow> object \<Rightarrow> message list" where
  "ValidateAgainstContract trunc catalogue body =
     (let contractID = string_or_empty (map_of body ''id'');
          (contractVersion, ok) = contractInteger trunc (map_of body ''version'')
      in Catalogue_Validate catalogue @
         problem (cat_ContractID catalogue \<noteq> contractID)
           [T ''mutation_catalogue.contract_id '', Q (cat_ContractID catalogue), T '' does not match contract.id '', Q contractID] @
         problem (\<not> ok \<or> cat_ContractVersion catalogue \<noteq> contractVersion)
           [T ''mutation_catalogue.contract_version '', D (cat_ContractVersion catalogue),
            T '' does not match contract.version '', D contractVersion] @
         over_items (rule_reference_problems (contract_rule_ids body)) 0 (cat_Mutations catalogue))"

fun find_spec :: "string \<Rightarrow> Spec list \<Rightarrow> Spec option" where
  "find_spec i [] = None"
| "find_spec i (spec # rest) = (if sp_ID spec = i then Some spec else find_spec i rest)"

definition Find_mutation :: "Catalogue \<Rightarrow> string \<Rightarrow> Spec option" where
  "Find_mutation catalogue i = find_spec i (cat_Mutations catalogue)"

section \<open>What a classification says\<close>

text \<open>The status a rule was last observed with.\<close>

definition last_status :: "RuleObservation list \<Rightarrow> string \<Rightarrow> string option" where
  "last_status observations i = map_of (rev (map (\<lambda>o'. (ru_RuleID o', ru_Status o')) observations)) i"

definition with_status :: "string \<Rightarrow> RuleObservation list \<Rightarrow> string list" where
  "with_status s observations = map ru_RuleID (filter (\<lambda>o'. ru_Status o' = s) observations)"

lemma last_status_snoc:
  "last_status (os @ [x]) i = (if i = ru_RuleID x then Some (ru_Status x) else last_status os i)"
  by (simp add: last_status_def)

lemma observe_rules:
  "fold observe_rule observations ([], r) = (byRule, r') \<Longrightarrow>
     mr_DirectlyFailedRules r = [] \<Longrightarrow> mr_CascadingInconclusive r = [] \<Longrightarrow> mr_UnaffectedRules r = [] \<Longrightarrow>
     (\<forall>i. map_of byRule i = last_status observations i) \<and>
     r' = r\<lparr>mr_DirectlyFailedRules := with_status ''fail'' observations,
            mr_CascadingInconclusive := with_status ''inconclusive'' observations,
            mr_UnaffectedRules := with_status ''pass'' observations\<rparr>"
proof (induction observations arbitrary: byRule r' rule: rev_induct)
  case (snoc x observations)
  obtain b q where b: "fold observe_rule observations ([], r) = (b, q)" by fastforce
  from snoc.IH[OF b snoc.prems(2-)] have i: "\<forall>i. map_of b i = last_status observations i"
    "q = r\<lparr>mr_DirectlyFailedRules := with_status ''fail'' observations,
           mr_CascadingInconclusive := with_status ''inconclusive'' observations,
           mr_UnaffectedRules := with_status ''pass'' observations\<rparr>" by simp_all
  from snoc.prems(1) b have o': "observe_rule x (b, q) = (byRule, r')" by simp
  show ?case
    using o' i by (auto simp: observe_rule_def Let_def with_status_def last_status_snoc split: if_splits)
qed (simp add: last_status_def with_status_def)

definition shown_status :: "(string \<Rightarrow> string option) \<Rightarrow> string \<Rightarrow> string" where
  "shown_status st i = (case st i of Some s \<Rightarrow> s | None \<Rightarrow> ''unobserved'')"

lemma observe_all_expected:
  "fold (observe_expected byRule) is (False, r) = (targetFailed, r') \<Longrightarrow>
     mr_ExpectedObservations r = [] \<Longrightarrow> mr_UnobservedExpected r = [] \<Longrightarrow>
     (targetFailed \<longleftrightarrow> (\<exists>i \<in> set is. map_of byRule i = Some ''fail'')) \<and>
     r' = r\<lparr>mr_ExpectedObservations := map (\<lambda>i. \<lparr>eo_RuleID = i, eo_Status = shown_status (map_of byRule) i\<rparr>) is,
            mr_UnobservedExpected := filter (\<lambda>i. map_of byRule i = None) is\<rparr>"
proof (induction "is" arbitrary: targetFailed r' rule: rev_induct)
  case (snoc x "is")
  obtain t q where t: "fold (observe_expected byRule) is (False, r) = (t, q)" by fastforce
  note i = snoc.IH[OF t snoc.prems(2-)]
  from snoc.prems(1) t have o': "observe_expected byRule x (t, q) = (targetFailed, r')" by simp
  show ?case
  proof (cases "map_of byRule x")
    case None
    then show ?thesis using o' i by (auto simp: observe_expected_def shown_status_def)
  next
    case (Some s)
    then show ?thesis using o' i by (auto simp: observe_expected_def shown_status_def)
  qed
qed simp

lemma expected_passed:
  "\<forall>i \<in> set is. map_of byRule i \<noteq> Some ''fail'' \<Longrightarrow>
     (\<not> ((\<exists>i \<in> set is. map_of byRule i = None) \<or> hasExpectedInconclusive is byRule)) \<longleftrightarrow>
     (\<forall>i \<in> set is. map_of byRule i = Some ''pass'')"
  by (auto simp: hasExpectedInconclusive_def list_ex_iff Let_def split: option.splits)

lemma classification_record:
  "mr_Outcome (Classify_mutation spec os) =
      (if \<exists>i \<in> set (sp_ExpectedRuleIDs spec). last_status os i = Some ''fail'' then ''killed''
       else if sp_ExpectedRuleIDs spec \<noteq> [] \<and> (\<forall>i \<in> set (sp_ExpectedRuleIDs spec). last_status os i = Some ''pass'')
       then ''survived'' else ''inconclusive'') \<and>
    mr_ExpectedObservations (Classify_mutation spec os) =
      map (\<lambda>i. \<lparr>eo_RuleID = i, eo_Status = shown_status (last_status os) i\<rparr>) (sp_ExpectedRuleIDs spec) \<and>
    mr_UnobservedExpected (Classify_mutation spec os) =
      filter (\<lambda>i. last_status os i = None) (sp_ExpectedRuleIDs spec) \<and>
    mr_DirectlyFailedRules (Classify_mutation spec os) = with_status ''fail'' os \<and>
    mr_CascadingInconclusive (Classify_mutation spec os) = with_status ''inconclusive'' os \<and>
    mr_UnaffectedRules (Classify_mutation spec os) = with_status ''pass'' os"
proof -
  let ?e = "\<lparr>mr_Spec = spec, mr_Outcome = ''inconclusive'', mr_ExpectedObservations = [], mr_DirectlyFailedRules = [],
    mr_CascadingInconclusive = [], mr_UnaffectedRules = [], mr_UnobservedExpected = [], mr_Reason = []\<rparr>"
  obtain byRule r where b: "fold observe_rule os ([], ?e) = (byRule, r)" by fastforce
  from observe_rules[OF b] have s: "map_of byRule = last_status os"
    "r = ?e\<lparr>mr_DirectlyFailedRules := with_status ''fail'' os, mr_CascadingInconclusive := with_status ''inconclusive'' os,
            mr_UnaffectedRules := with_status ''pass'' os\<rparr>" by auto
  obtain t q where t: "fold (observe_expected byRule) (sp_ExpectedRuleIDs spec) (False, r) = (t, q)" by fastforce
  from observe_all_expected[OF t] s have x: "t \<longleftrightarrow> (\<exists>i \<in> set (sp_ExpectedRuleIDs spec). last_status os i = Some ''fail'')"
    "q = r\<lparr>mr_ExpectedObservations := map (\<lambda>i. \<lparr>eo_RuleID = i, eo_Status = shown_status (last_status os) i\<rparr>) (sp_ExpectedRuleIDs spec),
           mr_UnobservedExpected := filter (\<lambda>i. last_status os i = None) (sp_ExpectedRuleIDs spec)\<rparr>" by simp_all
  note passed = expected_passed[of "sp_ExpectedRuleIDs spec" byRule, unfolded s(1)]
  have c: "Classify_mutation spec os =
      (if sp_ExpectedRuleIDs spec = [] then r\<lparr>mr_Reason := ''mutation has no expected rule IDs''\<rparr>
       else if t then q\<lparr>mr_Outcome := ''killed'', mr_Reason := ''at least one expected rule failed''\<rparr>
       else if mr_UnobservedExpected q \<noteq> [] \<or> hasExpectedInconclusive (sp_ExpectedRuleIDs spec) byRule
       then q\<lparr>mr_Reason := ''an expected rule was not directly observed as failed''\<rparr>
       else q\<lparr>mr_Outcome := ''survived'', mr_Reason := ''all expected rules passed''\<rparr>)"
    by (simp add: Classify_mutation_def Let_def b t)
  have u: "mr_UnobservedExpected q \<noteq> [] \<longleftrightarrow> (\<exists>i \<in> set (sp_ExpectedRuleIDs spec). last_status os i = None)"
    using x(2) by (auto simp: filter_empty_conv)
  show ?thesis
  proof (cases t)
    case True
    with x(1) have f: "\<exists>i \<in> set (sp_ExpectedRuleIDs spec). last_status os i = Some ''fail''" by simp
    then have n: "sp_ExpectedRuleIDs spec \<noteq> []" "\<not> (\<forall>i \<in> set (sp_ExpectedRuleIDs spec). last_status os i = Some ''pass'')"
      by (auto intro!: bexI)
    have "Classify_mutation spec os = q\<lparr>mr_Outcome := ''killed'', mr_Reason := ''at least one expected rule failed''\<rparr>"
      using c True n(1) by simp
    then show ?thesis using f n(2) x(2) s(2) by simp
  next
    case False
    with x(1) have nf: "\<not> (\<exists>i \<in> set (sp_ExpectedRuleIDs spec). last_status os i = Some ''fail'')" by simp
    then have p: "(mr_UnobservedExpected q \<noteq> [] \<or> hasExpectedInconclusive (sp_ExpectedRuleIDs spec) byRule) \<longleftrightarrow>
        \<not> (\<forall>i \<in> set (sp_ExpectedRuleIDs spec). last_status os i = Some ''pass'')"
      using u passed by blast
    show ?thesis
    proof (cases "sp_ExpectedRuleIDs spec = []")
      case True
      then show ?thesis using c s(2) by simp
    next
      case False
      then have "Classify_mutation spec os =
        (if \<not> (\<forall>i \<in> set (sp_ExpectedRuleIDs spec). last_status os i = Some ''pass'')
         then q\<lparr>mr_Reason := ''an expected rule was not directly observed as failed''\<rparr>
         else q\<lparr>mr_Outcome := ''survived'', mr_Reason := ''all expected rules passed''\<rparr>)"
        using c \<open>\<not> t\<close> p by simp
      then show ?thesis using False nf x(2) s(2)
        by (cases "\<forall>i \<in> set (sp_ExpectedRuleIDs spec). last_status os i = Some ''pass''") simp_all
    qed
  qed
qed

text \<open>C35. A mutation is killed exactly when one of the rules it names was last observed to fail, survives exactly
  when it names rules and each was last observed to pass, and is inconclusive otherwise.  Each named rule is
  reported once with what was observed of it, those not observed are listed, and the rules that failed, were
  inconclusive or passed are listed in the order of the run, named or not.\<close>

theorem classification_exact:
  "(mr_Outcome (Classify_mutation spec os) = ''killed'' \<longleftrightarrow>
      (\<exists>i \<in> set (sp_ExpectedRuleIDs spec). last_status os i = Some ''fail'')) \<and>
    (mr_Outcome (Classify_mutation spec os) = ''survived'' \<longleftrightarrow>
      sp_ExpectedRuleIDs spec \<noteq> [] \<and> (\<forall>i \<in> set (sp_ExpectedRuleIDs spec). last_status os i = Some ''pass'')) \<and>
    mr_Outcome (Classify_mutation spec os) \<in> {''killed'', ''survived'', ''inconclusive''} \<and>
    mr_ExpectedObservations (Classify_mutation spec os) =
      map (\<lambda>i. \<lparr>eo_RuleID = i, eo_Status = shown_status (last_status os) i\<rparr>) (sp_ExpectedRuleIDs spec) \<and>
    mr_UnobservedExpected (Classify_mutation spec os) =
      filter (\<lambda>i. last_status os i = None) (sp_ExpectedRuleIDs spec) \<and>
    mr_DirectlyFailedRules (Classify_mutation spec os) = with_status ''fail'' os \<and>
    mr_CascadingInconclusive (Classify_mutation spec os) = with_status ''inconclusive'' os \<and>
    mr_UnaffectedRules (Classify_mutation spec os) = with_status ''pass'' os"
proof -
  have "\<not> ((\<exists>i \<in> set (sp_ExpectedRuleIDs spec). last_status os i = Some ''fail'') \<and>
      (\<forall>i \<in> set (sp_ExpectedRuleIDs spec). last_status os i = Some ''pass''))" by force
  then show ?thesis using classification_record[of spec os] by (auto split: if_splits)
qed

definition sample_mutation :: Spec where
  "sample_mutation = \<lparr>sp_ID = ''drop-check'', sp_Plane = ''implementation'', sp_Operator = ''remove'', sp_Target = ''handler'',
     sp_Description = ''skips the check'', sp_Change = [], sp_ExpectedRuleIDs = [''a'', ''b''], sp_Status = ''validated''\<rparr>"

lemma classification_exact_witness:
  "mr_Outcome (Classify_mutation sample_mutation
     [\<lparr>ru_RuleID = ''a'', ru_Status = ''fail''\<rparr>, \<lparr>ru_RuleID = ''b'', ru_Status = ''inconclusive''\<rparr>]) = ''killed'' \<and>
   mr_Outcome (Classify_mutation sample_mutation [\<lparr>ru_RuleID = ''a'', ru_Status = ''pass''\<rparr>]) \<noteq> ''survived''"
  using classification_exact[of sample_mutation
      "[\<lparr>ru_RuleID = ''a'', ru_Status = ''fail''\<rparr>, \<lparr>ru_RuleID = ''b'', ru_Status = ''inconclusive''\<rparr>]"]
    classification_exact[of sample_mutation "[\<lparr>ru_RuleID = ''a'', ru_Status = ''pass''\<rparr>]"]
  by (simp add: sample_mutation_def last_status_def)

end
