(* ===== verification/SornaConform.thy ===== *)
theory SornaConform
  imports SornaEval
begin

text \<open>
  What the evaluation of an expectation decides: conformance of an observation, stated without
  paths, order or assertions, and the errors a validated expectation can still end in.
\<close>

section \<open>Conformance\<close>

definition all_pass :: "Assertion list \<Rightarrow> bool" where
  "all_pass assertions \<longleftrightarrow> list_all (\<lambda>a. at_Status a = ''pass'') assertions"

lemma all_pass_simps [simp]:
  "all_pass []" "all_pass (a # as) \<longleftrightarrow> at_Status a = ''pass'' \<and> all_pass as"
  "all_pass (as @ bs) \<longleftrightarrow> all_pass as \<and> all_pass bs"
  "all_pass (concat (map f xs)) \<longleftrightarrow> (\<forall>x \<in> set xs. all_pass (f x))"
  "all_pass (map g ys) \<longleftrightarrow> (\<forall>y \<in> set ys. at_Status (g y) = ''pass'')"
  by (auto simp: all_pass_def list_all_iff)

lemma statusFor_pass [simp]: "statusFor ok = ''pass'' \<longleftrightarrow> ok"
  by (simp add: statusFor_def)

lemma equality_pass [simp]: "at_Status (equalityAssertion fmt path e x) = ''pass'' \<longleftrightarrow> equalJSON fmt e x"
  by (simp add: equalityAssertion_def)

lemma note_missing_status [simp]: "at_Status (note_missing v a) = at_Status a"
  by (simp add: note_missing_def)

lemma deep_equal_string: "deep_equal t (JString s) \<longleftrightarrow> t = JString s"
  by (cases t) auto

lemma equalJSON_string [simp]: "equalJSON fmt t (JString s) \<longleftrightarrow> t = JString s"
  by (simp add: equalJSON_def deep_equal_string numberString_def split: option.split)

definition required_names :: "object \<Rightarrow> string list" where
  "required_names spec = map (\<lambda>v. string_or_empty (Some v)) (items_or_none (map_of spec ''required''))"

definition closed_to :: "Json \<Rightarrow> object \<Rightarrow> bool" where
  "closed_to actual spec \<longleftrightarrow>
     (\<forall>x. map_of spec ''additional_properties'' = Some x \<longrightarrow>
        (\<exists>allow. x = JBool allow \<and> (allow \<or> (\<forall>f. field_of actual f \<noteq> None \<longrightarrow> f \<in> set (allowed_fields spec)))))"

definition is_plain :: "object \<Rightarrow> bool" where
  "is_plain spec \<longleftrightarrow>
     map_of spec ''equals'' = None \<and> map_of spec ''type'' = None \<and> map_of spec ''non_empty'' \<noteq> Some (JBool True)"

definition plain_holds :: "(Float \<Rightarrow> string) \<Rightarrow> Json option \<Rightarrow> object \<Rightarrow> bool" where
  "plain_holds fmt v spec \<longleftrightarrow>
     (\<forall>e. map_of spec ''equals'' = Some e \<longrightarrow> equalJSON fmt e (valueIfPresent v)) \<and>
     (\<forall>t. map_of spec ''type'' = Some t \<longrightarrow> (\<exists>x. v = Some x \<and> t = JString (jsonType x))) \<and>
     (map_of spec ''non_empty'' = Some (JBool True) \<longrightarrow> (\<exists>s. v = Some (JString s) \<and> \<not> blank s))"

function shape_holds :: "(Float \<Rightarrow> string) \<Rightarrow> Json \<Rightarrow> object \<Rightarrow> bool"
  and value_holds :: "(Float \<Rightarrow> string) \<Rightarrow> Json option \<Rightarrow> object \<Rightarrow> bool" where
  "shape_holds fmt actual spec \<longleftrightarrow>
     (\<forall>t. map_of spec ''type'' = Some t \<longrightarrow> t = JString (jsonType actual)) \<and>
     (\<forall>f \<in> set (required_names spec). field_of actual f \<noteq> None) \<and>
     (\<forall>p \<in> set (fields_or_none (map_of spec ''properties'')).
        (case as_object (Some (snd p)) of
           None \<Rightarrow> equalJSON fmt (snd p) (valueIfPresent (field_of actual (fst p)))
         | Some propertySpec \<Rightarrow> value_holds fmt (field_of actual (fst p)) propertySpec)) \<and>
     closed_to actual spec"
| "value_holds fmt v spec \<longleftrightarrow>
     (if map_of spec ''required'' \<noteq> None \<or> map_of spec ''properties'' \<noteq> None then shape_holds fmt (valueIfPresent v) spec
      else if is_plain spec then equalJSON fmt (JObject spec) (valueIfPresent v)
      else plain_holds fmt v spec)"
  by pat_completeness auto
termination
proof (relation "measure (case_sum (\<lambda>(fmt, actual, spec). 2 * weight_fields spec)
      (\<lambda>(fmt, v, spec). Suc (2 * weight_fields spec)))", goal_cases)
  case (2 fmt actual spec p propertySpec)
  from weight_fields_or_none[OF this(1)] 2 show ?case by (simp add: as_Some)
qed simp_all

declare shape_holds.simps [simp del] value_holds.simps [simp del]

lemma type_pass:
  "all_pass (shape_type fmt path actual spec) \<longleftrightarrow> (\<forall>t. map_of spec ''type'' = Some t \<longrightarrow> t = JString (jsonType actual))"
  by (simp add: shape_type_def split: option.split)

lemma required_pass:
  "all_pass (shape_required path actual spec) \<longleftrightarrow> (\<forall>f \<in> set (required_names spec). field_of actual f \<noteq> None)"
  by (simp add: shape_required_def required_names_def Let_def)

lemma field_of_keys: "field_of actual f \<noteq> None \<longleftrightarrow> f \<in> set (map fst (fields_or_none (Some actual)))"
  by (cases "as_object (Some actual)") (simp_all add: field_of_def fields_or_none_def map_of_eq_None_iff)

lemma field_of_object: "field_of actual f \<noteq> None \<Longrightarrow> is_object actual"
  by (auto simp: field_of_def is_object_def split: option.splits)

lemma additional_pass: "all_pass (shape_additional path actual spec) \<longleftrightarrow> closed_to actual spec"
proof (cases "map_of spec ''additional_properties''")
  case (Some x)
  show ?thesis
  proof (cases "as_bool (Some x)")
    case None
    then have "x \<noteq> JBool b" for b by auto
    with Some None show ?thesis by (simp add: shape_additional_def closed_to_def)
  next
    case (Some b)
    then have x: "x = JBool b" by (cases x) (simp_all add: as_bool_def)
    have "(is_object actual \<longrightarrow> (\<forall>f \<in> set (map fst (fields_or_none (Some actual))). f \<in> set (allowed_fields spec))) \<longleftrightarrow>
        (\<forall>f. field_of actual f \<noteq> None \<longrightarrow> f \<in> set (allowed_fields spec))"
      using field_of_object by (metis field_of_keys)
    then show ?thesis
      using \<open>map_of spec ''additional_properties'' = Some x\<close> x
      by (auto simp: shape_additional_def closed_to_def)
  qed
qed (simp add: shape_additional_def closed_to_def)

lemma plain_pass: "all_pass (plain_assertions fmt path v spec) \<longleftrightarrow> plain_holds fmt v spec"
proof -
  have t: "v \<noteq> None \<and> t = JString (jsonType (valueIfPresent v)) \<longleftrightarrow> (\<exists>x. v = Some x \<and> t = JString (jsonType x))" for t
    by (cases v) (simp_all add: valueIfPresent_def)
  have n: "nonEmptyString (Some (valueIfPresent v)) \<longleftrightarrow> (\<exists>s. v = Some (JString s) \<and> \<not> blank s)"
    by (cases v) (auto simp: valueIfPresent_def nonEmptyString_def as_string_def split: Json.splits)
  show ?thesis
    unfolding plain_assertions_def plain_holds_def Let_def all_pass_simps
    using t n by (simp split: option.split)
qed

lemma plain_Nil: "plain_assertions fmt path v spec = [] \<longleftrightarrow> is_plain spec"
  by (simp add: plain_assertions_def is_plain_def Let_def split: option.split)

lemma evaluation_decides:
  "all_pass (evaluateShape fmt path actual spec) \<longleftrightarrow> shape_holds fmt actual spec"
  "all_pass (evaluateValue fmt path v spec) \<longleftrightarrow> value_holds fmt v spec"
proof (induction fmt path actual spec and fmt path v spec rule: evaluateShape_evaluateValue.induct)
  case (1 fmt path actual spec)
  let ?item = "\<lambda>p. case as_object (Some (snd p)) of
      None \<Rightarrow> [equalityAssertion fmt (path @ ''.'' @ fst p) (snd p) (valueIfPresent (field_of actual (fst p)))]
    | Some propertySpec \<Rightarrow>
        if \<not> is_object actual \<and> field_of actual (fst p) \<noteq> None
        then [\<lparr>at_Path = path @ ''.'' @ fst p, at_Expected = JString ''object property'', at_Actual = JString (jsonType actual),
               at_Status = ''fail'', at_Reason = ''actual value is not an object''\<rparr>]
        else evaluateValue fmt (path @ ''.'' @ fst p) (field_of actual (fst p)) propertySpec"
  have "all_pass (?item p) \<longleftrightarrow>
      (case as_object (Some (snd p)) of
         None \<Rightarrow> equalJSON fmt (snd p) (valueIfPresent (field_of actual (fst p)))
       | Some propertySpec \<Rightarrow> value_holds fmt (field_of actual (fst p)) propertySpec)"
    if p: "p \<in> set (fields_or_none (map_of spec ''properties''))" for p
  proof (cases "as_object (Some (snd p))")
    case (Some s)
    have "\<not> (\<not> is_object actual \<and> field_of actual (fst p) \<noteq> None)" using field_of_object by blast
    with "1"[OF _ refl refl Some] p Some show ?thesis by auto
  qed simp
  then show ?case
    unfolding evaluateShape.simps shape_holds.simps[of fmt actual] Let_def all_pass_simps type_pass required_pass
      additional_pass set_sorted_fields by blast
next
  case (2 fmt path v spec)
  show ?case
  proof (cases "map_of spec ''required'' \<noteq> None \<or> map_of spec ''properties'' \<noteq> None")
    case True
    with 2 show ?thesis by (auto simp: evaluateValue.simps[of fmt path v] value_holds.simps[of fmt v])
  next
    case False
    have "all_pass (map (note_missing v) as) \<longleftrightarrow> all_pass as" for as by (simp add: all_pass_def list_all_iff)
    with False plain_pass plain_Nil show ?thesis
      by (simp add: evaluateValue.simps[of fmt path v] value_holds.simps[of fmt v] Let_def)
  qed
qed

definition exact_holds :: "(Float \<Rightarrow> string) \<Rightarrow> Json \<Rightarrow> object \<Rightarrow> bool" where
  "exact_holds fmt actual spec \<longleftrightarrow>
     is_object actual \<and>
     (\<forall>p \<in> set spec.
        (case as_object (Some (snd p)) of
           None \<Rightarrow> equalJSON fmt (snd p) (valueIfPresent (field_of actual (fst p)))
         | Some childSpec \<Rightarrow> value_holds fmt (field_of actual (fst p)) childSpec))"

lemma exact_decides: "all_pass (evaluateExactObject fmt path actual spec) \<longleftrightarrow> exact_holds fmt actual spec"
proof (cases "is_object actual")
  case True
  have "all_pass (case as_object (Some (snd p)) of
      Some childSpec \<Rightarrow> evaluateValue fmt (path @ ''.'' @ fst p) (field_of actual (fst p)) childSpec
    | None \<Rightarrow> [equalityAssertion fmt (path @ ''.'' @ fst p) (snd p) (valueIfPresent (field_of actual (fst p)))]) \<longleftrightarrow>
    (case as_object (Some (snd p)) of
       None \<Rightarrow> equalJSON fmt (snd p) (valueIfPresent (field_of actual (fst p)))
     | Some childSpec \<Rightarrow> value_holds fmt (field_of actual (fst p)) childSpec)" for p
    by (cases "as_object (Some (snd p))") (simp_all add: evaluation_decides(2))
  then show ?thesis
    using True unfolding evaluateExactObject_def exact_holds_def Let_def
    by (simp only: all_pass_simps set_sorted_fields simp_thms if_False)
qed (simp add: evaluateExactObject_def exact_holds_def)

section \<open>Events\<close>

lemma events_loop_subseq:
  "next' < length expected \<Longrightarrow> events_loop expected next' actual \<longleftrightarrow> subseq (drop next' expected) actual"
proof (induction expected next' actual rule: events_loop.induct)
  case (1 expected next')
  then show ?case by (cases "drop next' expected") auto
next
  case (2 expected next' event actual)
  have d: "drop next' expected = expected ! next' # drop (Suc next') expected"
    using 2(3) by (simp add: Cons_nth_drop_Suc)
  show ?case
  proof (cases "event = expected ! next'")
    case True
    show ?thesis
    proof (cases "Suc next' = length expected")
      case False
      then show ?thesis using 2 True d by simp
    qed (use True d in simp)
  next
    case False
    then show ?thesis using 2 d by simp
  qed
qed

lemma ordered_match: "expected \<noteq> [] \<Longrightarrow> orderedEventsMatch expected actual \<longleftrightarrow> subseq expected actual"
  using events_loop_subseq[of 0 expected actual] by (simp add: orderedEventsMatch_def)

lemma collect_Inr:
  "collect f i xs = Inr ys \<longleftrightarrow> length ys = length xs \<and> (\<forall>n < length xs. f (i + n) (xs ! n) = Inr (ys ! n))"
proof (induction xs arbitrary: i ys)
  case (Cons x xs)
  have "collect f i (x # xs) = Inr ys \<longleftrightarrow> (\<exists>z zs. ys = z # zs \<and> f i x = Inr z \<and> collect f (Suc i) xs = Inr zs)"
    by (auto split: sum.splits)
  also have "\<dots> \<longleftrightarrow> length ys = length (x # xs) \<and> (\<forall>n < length (x # xs). f (i + n) ((x # xs) ! n) = Inr (ys ! n))"
    by (cases ys) (auto simp: Cons nth_Cons split: nat.splits)
  finally show ?case .
qed auto

text \<open>A loop that cannot fail is a map.\<close>

lemma collect_map: "(\<And>n. n < length xs \<Longrightarrow> f (i + n) (xs ! n) = Inr (g (xs ! n))) \<Longrightarrow> collect f i xs = Inr (map g xs)"
  by (simp add: collect_Inr)

definition event_names :: "Json list \<Rightarrow> string list" where
  "event_names xs = map (\<lambda>v. trim_space (string_or_empty (Some v))) xs"

lemma ordered_names_Inr:
  "\<forall>v \<in> set xs. nonEmptyString (Some v) \<Longrightarrow>
     (ordered_names i seen xs = Inr (event_names xs) \<and> distinct (event_names xs) \<and> set (event_names xs) \<inter> set seen = {}) \<or>
     ((\<exists>e. ordered_names i seen xs = Inl e) \<and> (\<not> distinct (event_names xs) \<or> set (event_names xs) \<inter> set seen \<noteq> {}))"
proof (induction xs arbitrary: i seen)
  case (Cons x xs)
  let ?e = "trim_space (string_or_empty (Some x))"
  show ?case
  proof (cases "?e \<in> set seen")
    case True
    then show ?thesis using Cons.prems by (auto simp: event_names_def Let_def)
  next
    case False
    then show ?thesis using Cons.IH[of "Suc i" "?e # seen"] Cons.prems by (auto simp: event_names_def Let_def)
  qed
qed (simp add: event_names_def)


section \<open>What an evaluation decides\<close>

lemma event_list_valid:
  "validateEventList v path = [] \<longleftrightarrow> (\<exists>xs. v = JArray xs \<and> xs \<noteq> [] \<and> (\<forall>x \<in> set xs. nonEmptyString (Some x)))"
proof -
  have "over_items (\<lambda>i v. problem (\<not> nonEmptyString (Some v)) [T (item_path path i), T '' must be a non-empty string'']) i xs = [] \<longleftrightarrow>
      (\<forall>x \<in> set xs. nonEmptyString (Some x))" for i xs
    by (induction xs arbitrary: i) auto
  then show ?thesis by (cases "as_list (Some v)") (auto simp: validateEventList_def as_Some)
qed

text \<open>The parts of an expectation, as the observation must have them.\<close>

definition events_hold :: "object \<Rightarrow> string list \<Rightarrow> bool" where
  "events_hold spec emitted \<longleftrightarrow>
     (\<forall>xs. map_of spec ''required'' = Some (JArray xs) \<longrightarrow> set (event_names xs) \<subseteq> set emitted) \<and>
     (\<forall>xs. map_of spec ''ordered'' = Some (JArray xs) \<longrightarrow> subseq (event_names xs) emitted)"

lemma evaluate_events:
  assumes "validateEventSpec (JObject spec) path = []"
  shows "if \<exists>xs. map_of spec ''ordered'' = Some (JArray xs) \<and> \<not> distinct (event_names xs)
    then \<exists>e. evaluateEvents spec emitted = Inl e
    else \<exists>as. evaluateEvents spec emitted = Inr as \<and> as \<noteq> [] \<and> (all_pass as \<longleftrightarrow> events_hold spec emitted)"
proof (cases "map_of spec ''ordered''")
  case None
  with assms obtain xs where xs: "map_of spec ''required'' = Some (JArray xs)" "xs \<noteq> []"
    "\<forall>x \<in> set xs. nonEmptyString (Some x)"
    by (auto simp: validateEventSpec_def event_list_valid split: if_splits option.splits)
  let ?g = "\<lambda>v. \<lparr>at_Path = ''events.'' @ trim_space (string_or_empty (Some v)), at_Expected = JString ''present'',
      at_Actual = existenceValue (trim_space (string_or_empty (Some v)) \<in> set emitted),
      at_Status = statusFor (trim_space (string_or_empty (Some v)) \<in> set emitted),
      at_Reason = eventMissingReason (trim_space (string_or_empty (Some v)) \<in> set emitted)\<rparr>"
  have "collect (required_event emitted) 0 xs = Inr (map ?g xs)"
    by (rule collect_map) (use xs(3) in \<open>simp add: required_event_def Let_def\<close>)
  then have "evaluateEvents spec emitted = Inr (map ?g xs)" using None xs(1) by (simp add: evaluateEvents_def)
  moreover have "all_pass (map ?g xs) \<longleftrightarrow> events_hold spec emitted"
    using None xs(1) by (auto simp: events_hold_def event_names_def)
  ultimately show ?thesis using None xs(2) by simp
next
  case (Some v)
  with assms obtain xs where xs: "v = JArray xs" "xs \<noteq> []" "\<forall>x \<in> set xs. nonEmptyString (Some x)"
    "map_of spec ''required'' = None"
    by (auto simp: validateEventSpec_def event_list_valid split: if_splits option.splits)
  have ne: "event_names xs \<noteq> []" using xs(2) by (simp add: event_names_def)
  have "evaluateEvents spec emitted = evaluateOrderedEvents (JArray xs) emitted"
    using Some xs by (simp add: evaluateEvents_def)
  with ordered_names_Inr[OF xs(3), of 0 "[]"] Some xs ordered_match[OF ne, of emitted] show ?thesis
    by (auto simp: evaluateOrderedEvents_def events_hold_def Let_def)
qed

lemma evaluate_provenance:
  assumes "validateProvenanceSpec (JObject spec) path = []"
  shows "\<exists>as. evaluateProvenance spec observed = Inr as \<and> as \<noteq> [] \<and> (all_pass as \<longleftrightarrow> exposes_execution observed)"
proof -
  from assms obtain xs where xs: "map_of spec ''required'' = Some (JArray xs)" "xs \<noteq> []"
    "over_items (provenance_field_problem path) 0 xs = []"
    by (auto simp: validateProvenanceSpec_def as_Some split: if_splits option.splits)
  have id: "xs ! n = JString ''execution_id''" if "n < length xs" for n
    using xs(3) that unfolding over_items_Nil
    by (fastforce simp: provenance_field_problem_def as_Some split: option.splits if_splits)
  have t: "\<not> blank ''execution_id''" by (rule plain_not_blank[of "CHR ''e''"]) (simp_all add: plain_byte_def byte_def)
  let ?a = "\<lparr>at_Path = ''provenance.execution_id'', at_Expected = JString ''present'',
      at_Actual = existenceValue (exposes_execution observed), at_Status = statusFor (exposes_execution observed),
      at_Reason = provenance_reason observed\<rparr>"
  have "collect (provenance_assertion observed) 0 xs = Inr (map (\<lambda>_. ?a) xs)"
    by (rule collect_map) (use id t in \<open>simp add: provenance_assertion_def nonEmptyString_def string_or_empty_def Let_def\<close>)
  then have "evaluateProvenance spec observed = Inr (map (\<lambda>_. ?a) xs)" using xs by (simp add: evaluateProvenance_def)
  moreover have "all_pass (map (\<lambda>_. ?a) xs) \<longleftrightarrow> exposes_execution observed" using xs(2) by (cases xs) auto
  ultimately show ?thesis using xs(2) by blast
qed


text \<open>A result that is there under one condition and, when it is, has only passed assertions under another.\<close>

definition decides :: "message + Assertion list \<Rightarrow> bool \<Rightarrow> bool \<Rightarrow> bool" where
  "decides r defined' holds \<longleftrightarrow>
     ((\<exists>as. r = Inr as) \<longleftrightarrow> defined') \<and> (\<forall>as. r = Inr as \<longrightarrow> (all_pass as \<longleftrightarrow> holds))"

lemma decides_then: "decides r d h \<Longrightarrow> decides r' d' h' \<Longrightarrow> decides (then_also r r') (d \<and> d') (h \<and> h')"
  by (cases r; cases r') (auto simp: decides_def then_also_def)

lemma decides_Inr: "decides (Inr as) True h \<longleftrightarrow> (all_pass as \<longleftrightarrow> h)"
  by (simp add: decides_def)

lemma decides_part:
  assumes "\<And>m. map_of expect key = Some (JObject m) \<Longrightarrow> decides (f m) (d m) (h m)"
  shows "decides (expected_part key expect f)
    (\<forall>p. map_of expect key = Some p \<longrightarrow> (\<exists>m. p = JObject m \<and> d m)) (\<forall>m. map_of expect key = Some (JObject m) \<longrightarrow> h m)"
proof (cases "map_of expect key")
  case (Some p)
  then show ?thesis
    using assms by (cases "as_object (Some p)") (auto simp: decides_def expected_part_def as_Some)
qed (simp add: expected_part_def decides_Inr)

definition evaluable :: "(string \<Rightarrow> message + Json) \<Rightarrow> object \<Rightarrow> Observation \<Rightarrow> bool" where
  "evaluable decode expect observation \<longleftrightarrow>
     (\<exists>v. decode (ob_Body observation) = Inr v) \<and>
     (\<forall>m xs. map_of expect ''events'' = Some (JObject m) \<longrightarrow> map_of m ''ordered'' = Some (JArray xs) \<longrightarrow>
        distinct (event_names xs)) \<and>
     (\<forall>p. map_of expect ''body'' = Some p \<longrightarrow> is_object p) \<and>
     (\<forall>p. map_of expect ''error'' = Some p \<longrightarrow> is_object p)"

definition conforms :: "(Float \<Rightarrow> string) \<Rightarrow> Json \<Rightarrow> object \<Rightarrow> Observation \<Rightarrow> bool" where
  "conforms fmt actual expect observation \<longleftrightarrow>
     (\<forall>s. map_of expect ''status'' = Some s \<longrightarrow> equalJSON fmt s (JInt (ob_Status observation))) \<and>
     (\<forall>m. map_of expect ''events'' = Some (JObject m) \<longrightarrow> events_hold m (ob_Events observation)) \<and>
     (\<forall>m. map_of expect ''provenance'' = Some (JObject m) \<longrightarrow> exposes_execution (ob_Provenance observation)) \<and>
     (\<forall>m. map_of expect ''body'' = Some (JObject m) \<longrightarrow> shape_holds fmt actual m) \<and>
     (\<forall>m. map_of expect ''error'' = Some (JObject m) \<longrightarrow>
        exact_holds fmt (valueIfPresent (field_of actual ''error'')) m)"

lemma expectation_parts:
  assumes "validateExpectationShape (JObject expect) path = []"
  shows "map_of expect ''events'' = Some v \<Longrightarrow> \<exists>m. v = JObject m \<and> validateEventSpec (JObject m) (path @ ''.events'') = []"
    "map_of expect ''provenance'' = Some v \<Longrightarrow>
       \<exists>m. v = JObject m \<and> validateProvenanceSpec (JObject m) (path @ ''.provenance'') = []"
  using assms
  by (cases "as_object (Some v)";
      auto simp: validateExpectationShape_def validateEventSpec_def validateProvenanceSpec_def as_Some)+

lemma is_object_iff: "is_object v \<longleftrightarrow> (\<exists>m. v = JObject m)"
  by (auto simp: is_object_def as_Some)

lemma evaluate_decides:
  assumes valid: "validateExpectationShape (JObject expect) path = []"
    and v: "decode (ob_Body observation) = Inr actual"
  shows "decides (evaluate fmt decode expect observation) (evaluable decode expect observation)
    (conforms fmt actual expect observation)"
proof -
  note parts = expectation_parts[OF valid]
  have status: "decides (Inr (case map_of expect ''status'' of None \<Rightarrow> []
      | Some s \<Rightarrow> [equalityAssertion fmt ''status'' s (JInt (ob_Status observation))])) True
      (\<forall>s. map_of expect ''status'' = Some s \<longrightarrow> equalJSON fmt s (JInt (ob_Status observation)))"
    unfolding decides_Inr by (simp split: option.split)
  have e: "decides (evaluateEvents m emitted)
      (\<forall>xs. map_of m ''ordered'' = Some (JArray xs) \<longrightarrow> distinct (event_names xs)) (events_hold m emitted)"
    if "map_of expect ''events'' = Some (JObject m)" for m emitted
  proof -
    from parts(1)[OF that] have "validateEventSpec (JObject m) (path @ ''.events'') = []" by simp
    from evaluate_events[OF this, of emitted] show ?thesis
      by (auto simp: decides_def split: if_splits)
  qed
  have p: "decides (evaluateProvenance m o') True (exposes_execution o')"
    if "map_of expect ''provenance'' = Some (JObject m)" for m o'
  proof -
    from parts(2)[OF that] have "validateProvenanceSpec (JObject m) (path @ ''.provenance'') = []" by simp
    from evaluate_provenance[OF this, of o'] show ?thesis by (auto simp: decides_def)
  qed
  have b: "decides (Inr (evaluateShape fmt q actual m)) True (shape_holds fmt actual m)" for q m
    by (simp add: decides_Inr evaluation_decides(1))
  have x: "decides (Inr (evaluateExactObject fmt q w m)) True (exact_holds fmt w m)" for q w m
    by (simp add: decides_Inr exact_decides)
  have shape: "evaluate fmt decode expect observation =
      then_also (Inr (case map_of expect ''status'' of None \<Rightarrow> []
        | Some s \<Rightarrow> [equalityAssertion fmt ''status'' s (JInt (ob_Status observation))]))
      (then_also (expected_part ''events'' expect (\<lambda>spec. evaluateEvents spec (ob_Events observation)))
      (then_also (expected_part ''provenance'' expect (\<lambda>spec. evaluateProvenance spec (ob_Provenance observation)))
      (then_also (expected_part ''body'' expect (\<lambda>spec. Inr (evaluateShape fmt ''body'' actual spec)))
        (expected_part ''error'' expect
          (\<lambda>spec. Inr (evaluateExactObject fmt ''body.error'' (valueIfPresent (field_of actual ''error'')) spec))))))"
    using v by (simp add: evaluate_def decodeBody_def)
  have d: "evaluable decode expect observation \<longleftrightarrow> True \<and>
      (\<forall>q. map_of expect ''events'' = Some q \<longrightarrow> (\<exists>m. q = JObject m \<and>
        (\<forall>xs. map_of m ''ordered'' = Some (JArray xs) \<longrightarrow> distinct (event_names xs)))) \<and>
      (\<forall>q. map_of expect ''provenance'' = Some q \<longrightarrow> (\<exists>m. q = JObject m \<and> True)) \<and>
      (\<forall>q. map_of expect ''body'' = Some q \<longrightarrow> (\<exists>m. q = JObject m \<and> True)) \<and>
      (\<forall>q. map_of expect ''error'' = Some q \<longrightarrow> (\<exists>m. q = JObject m \<and> True))"
  proof -
    have "(\<forall>m xs. map_of expect ''events'' = Some (JObject m) \<longrightarrow> map_of m ''ordered'' = Some (JArray xs) \<longrightarrow>
        distinct (event_names xs)) \<longleftrightarrow>
      (\<forall>q. map_of expect ''events'' = Some q \<longrightarrow> (\<exists>m. q = JObject m \<and>
        (\<forall>xs. map_of m ''ordered'' = Some (JArray xs) \<longrightarrow> distinct (event_names xs))))"
      using parts(1) by (cases "map_of expect ''events''") auto
    moreover have "\<forall>q. map_of expect ''provenance'' = Some q \<longrightarrow> (\<exists>m. q = JObject m \<and> True)" using parts(2) by auto
    ultimately show ?thesis unfolding evaluable_def is_object_iff using v by simp
  qed
  show ?thesis
    unfolding shape d conforms_def
    by (intro decides_then decides_part status e p b x)
qed

end
