(* ===== verification/SornaRunner.thy ===== *)
theory SornaRunner
  imports SornaRequest SornaOracle SornaMutation SornaConform
begin

text \<open>
  sorna/internal/runner/runner.go, the execution of the cases of a contract or an oracle, and
  record.go.  The state of the HTTP client is threaded through the requests in the order they are
  made.  Of the lifecycle record only what the runner and its program read is kept.
\<close>

section \<open>Results\<close>

record IsolationResult =
  ir_Scope :: string
  ir_Reset :: Request
  ir_Observation :: Observation
  ir_ObservationSHA256 :: string
  ir_Status :: string
  ir_Reason :: message

record StepResult =
  st_ID :: string
  st_Status :: string
  st_Request :: Request
  st_Observation :: Observation
  st_ObservationSHA256 :: string
  st_Assertions :: "Assertion list"
  st_Reason :: message

record RuleResult =
  rl_RuleID :: string
  rl_CaseID :: string
  rl_Subject :: string
  rl_Status :: string
  rl_Isolation :: "IsolationResult option"
  rl_Setup :: "StepResult list"
  rl_Request :: Request
  rl_Observation :: Observation
  rl_ObservationSHA256 :: string
  rl_Assertions :: "Assertion list"
  rl_Reason :: message

definition no_request :: Request where
  "no_request = \<lparr>rq_Method = [], rq_URL = [], rq_Body = JNull\<rparr>"

section \<open>Isolation\<close>

definition no_isolation :: IsolationResult where
  "no_isolation = \<lparr>ir_Scope = [], ir_Reset = no_request, ir_Observation = no_observation, ir_ObservationSHA256 = [],
     ir_Status = [], ir_Reason = []\<rparr>"

text \<open>The scope, method and path of a reset.\<close>

definition reset_request :: "Json \<Rightarrow> message + string \<times> string \<times> string" where
  "reset_request v =
     (case as_object (Some v) of
        None \<Rightarrow> Inl [T ''isolation must be an object'']
      | Some spec \<Rightarrow>
          if \<not> nonEmptyString (map_of spec ''scope'') then Inl [T ''isolation.scope must be a non-empty string'']
          else
            (case as_object (map_of spec ''reset'') of
               None \<Rightarrow> Inl [T ''isolation.reset must be an object'']
             | Some reset \<Rightarrow>
                 if \<not> nonEmptyString (map_of reset ''method'') then Inl [T ''isolation.reset.method must be a non-empty string'']
                 else if \<not> nonEmptyString (map_of reset ''path'') then Inl [T ''isolation.reset.path must be a non-empty string'']
                 else Inr (string_or_empty (map_of spec ''scope''), string_or_empty (map_of reset ''method''),
                   string_or_empty (map_of reset ''path''))))"

definition executeIsolationReset ::
  "'s Runtime \<Rightarrow> URL \<Rightarrow> Json \<Rightarrow> 's \<Rightarrow> (IsolationResult \<times> message option) \<times> 's" where
  "executeIsolationReset ev base v s =
     (case reset_request v of
        Inl err \<Rightarrow> ((no_isolation, Some err), s)
      | Inr (scope, method, path) \<Rightarrow>
          (case performRequest ev base (ToUpper ev method) path JNull [] s of
             ((request, observation, failed), s') \<Rightarrow>
               let result = \<lparr>ir_Scope = scope, ir_Reset = request, ir_Observation = observation, ir_ObservationSHA256 = [],
                     ir_Status = ''error'', ir_Reason = []\<rparr>
               in case failed of
                    Some err \<Rightarrow> ((result\<lparr>ir_Reason := err\<rparr>, None), s')
                  | None \<Rightarrow>
                      let hashed = result\<lparr>ir_ObservationSHA256 := observationHash ev observation\<rparr>
                      in if ob_Status observation < 200 \<or> 300 \<le> ob_Status observation
                         then ((hashed\<lparr>ir_Status := ''inconclusive'',
                           ir_Reason := [T ''isolation reset returned HTTP '', D (ob_Status observation)]\<rparr>, None), s')
                         else ((hashed\<lparr>ir_Status := ''pass'',
                           ir_Reason := [T ''subject-owned reset returned a successful response'']\<rparr>, None), s')))"

section \<open>Setup\<close>

text \<open>The checks of a step; \<open>Inl\<close> is a return.\<close>

definition step_expect :: "'s Runtime \<Rightarrow> object \<Rightarrow> Observation \<Rightarrow> StepResult \<Rightarrow> StepResult + StepResult" where
  "step_expect ev step observation result =
     (case map_of step ''expect'' of
        None \<Rightarrow> Inr result
      | Some rawExpect \<Rightarrow>
          (case as_object (Some rawExpect) of
             None \<Rightarrow> Inl (result\<lparr>st_Status := ''error'', st_Reason := [T ''setup expect is not an object'']\<rparr>)
           | Some expect \<Rightarrow>
               (case evaluate (ev_float ev) (ev_decode ev) expect observation of
                  Inl err \<Rightarrow> Inl (result\<lparr>st_Status := ''error'', st_Reason := err\<rparr>)
                | Inr assertions \<Rightarrow>
                    let r = result\<lparr>st_Assertions := st_Assertions result @ assertions\<rparr>
                    in Inr (if all_pass assertions then r else r\<lparr>st_Status := ''fail''\<rparr>))))"

fun prohibited_loop :: "'s Runtime \<Rightarrow> Observation \<Rightarrow> nat \<Rightarrow> Json list \<Rightarrow> StepResult \<Rightarrow> StepResult + StepResult" where
  "prohibited_loop ev observation i [] result = Inr result"
| "prohibited_loop ev observation i (rawExpectation # rest) result =
     (case as_object (Some rawExpectation) of
        None \<Rightarrow>
          Inl (result\<lparr>st_Status := ''error'', st_Reason := [T ''setup expect_not['', D (int i), T ''] is not an object'']\<rparr>)
      | Some expectNot \<Rightarrow>
          (case evaluate (ev_float ev) (ev_decode ev) expectNot observation of
             Inl err \<Rightarrow> Inl (result\<lparr>st_Status := ''error'', st_Reason := err\<rparr>)
           | Inr assertions \<Rightarrow>
               if assertions = []
               then Inl (result\<lparr>st_Status := ''error'',
                 st_Reason := [T ''setup expect_not['', D (int i), T ''] has no executable expectation'']\<rparr>)
               else
                 let r = result\<lparr>st_Assertions := st_Assertions result @ assertions\<rparr>
                 in prohibited_loop ev observation (Suc i) rest
                      (if all_pass assertions
                       then r\<lparr>st_Status := ''fail'', st_Reason := [T ''setup prohibited expectation matched the observation'']\<rparr>
                       else r)))"

definition step_expect_not :: "'s Runtime \<Rightarrow> object \<Rightarrow> Observation \<Rightarrow> StepResult \<Rightarrow> StepResult + StepResult" where
  "step_expect_not ev step observation result =
     (case map_of step ''expect_not'' of
        None \<Rightarrow> Inr result
      | Some rawExpectNot \<Rightarrow>
          (case as_list (Some rawExpectNot) of
             None \<Rightarrow> Inl (result\<lparr>st_Status := ''error'', st_Reason := [T ''setup expect_not must be a non-empty list'']\<rparr>)
           | Some expectations \<Rightarrow>
               if expectations = []
               then Inl (result\<lparr>st_Status := ''error'', st_Reason := [T ''setup expect_not must be a non-empty list'']\<rparr>)
               else prohibited_loop ev observation 0 expectations result))"

fun capture_loop :: "'s Runtime \<Rightarrow> Observation \<Rightarrow> object \<Rightarrow> object \<Rightarrow> StepResult \<Rightarrow> StepResult \<times> object" where
  "capture_loop ev observation captures [] result = (result, captures)"
| "capture_loop ev observation captures (p # rest) result =
     (case as_string (Some (snd p)) of
        None \<Rightarrow>
          (result\<lparr>st_Status := ''fail'', st_Reason := [T ''setup capture selector is not a string: '', T (fst p)]\<rparr>, captures)
      | Some selector \<Rightarrow>
          (case selectBodyValue ev observation selector of
             Inl err \<Rightarrow> (result\<lparr>st_Status := ''fail'', st_Reason := [T ''capture '', T (fst p), T '': ''] @ err\<rparr>, captures)
           | Inr captured \<Rightarrow> capture_loop ev observation (map_set (fst p) captured captures) rest result))"

definition step_capture :: "'s Runtime \<Rightarrow> object \<Rightarrow> Observation \<Rightarrow> object \<Rightarrow> StepResult \<Rightarrow> StepResult \<times> object" where
  "step_capture ev step observation captures result =
     (case map_of step ''capture'' of
        None \<Rightarrow> (result, captures)
      | Some rawCapture \<Rightarrow>
          (case as_object (Some rawCapture) of
             None \<Rightarrow> (result\<lparr>st_Status := ''fail'', st_Reason := [T ''setup capture is not an object'']\<rparr>, captures)
           | Some capture \<Rightarrow> capture_loop ev observation captures capture result))"

definition no_step :: "string \<Rightarrow> StepResult" where
  "no_step i = \<lparr>st_ID = i, st_Status = ''error'', st_Request = no_request, st_Observation = no_observation,
     st_ObservationSHA256 = [], st_Assertions = [], st_Reason = []\<rparr>"

definition executeSetupStep ::
  "'s Runtime \<Rightarrow> URL \<Rightarrow> nat \<Rightarrow> Json \<Rightarrow> object \<Rightarrow> 's \<Rightarrow> (StepResult \<times> object) \<times> 's" where
  "executeSetupStep ev base index v captures s =
     (case as_object (Some v) of
        None \<Rightarrow> (((no_step (''step-'' @ pad4 (int index + 1)))\<lparr>st_Reason := [T ''setup step is not an object'']\<rparr>, captures), s)
      | Some step \<Rightarrow>
          let result = no_step (string_or_empty (map_of step ''id''))
          in case as_object (map_of step ''request'') of
               None \<Rightarrow> ((result\<lparr>st_Reason := [T ''setup request is not an object'']\<rparr>, captures), s)
             | Some requestSpec \<Rightarrow>
                 (case performRequest ev base (ToUpper ev (string_or_empty (map_of requestSpec ''method'')))
                     (string_or_empty (map_of requestSpec ''path'')) (valueIfPresent (map_of requestSpec ''body'')) captures s of
                    ((request, observation, Some err), s') \<Rightarrow>
                      ((result\<lparr>st_Request := request, st_Reason := err\<rparr>, captures), s')
                  | ((request, observation, None), s') \<Rightarrow>
                      let observed = result\<lparr>st_Request := request, st_Observation := observation,
                            st_ObservationSHA256 := observationHash ev observation, st_Status := ''pass''\<rparr>
                      in case step_expect ev step observation observed of
                           Inl r \<Rightarrow> ((r, captures), s')
                         | Inr r \<Rightarrow>
                             (case step_expect_not ev step observation r of
                                Inl r' \<Rightarrow> ((r', captures), s')
                              | Inr r' \<Rightarrow>
                                  (step_capture ev step observation captures
                                     (if st_Status r' = ''fail'' \<and> st_Reason r' = []
                                      then r'\<lparr>st_Reason := [T ''setup expectation did not match the observation'']\<rparr> else r'),
                                   s'))))"

section \<open>One case\<close>

fun setup_loop ::
  "'s Runtime \<Rightarrow> URL \<Rightarrow> nat \<Rightarrow> Json list \<Rightarrow> object \<Rightarrow> RuleResult \<Rightarrow> 's \<Rightarrow> (RuleResult + RuleResult \<times> object) \<times> 's" where
  "setup_loop ev base i [] captures result s = (Inr (result, captures), s)"
| "setup_loop ev base i (rawStep # rest) captures result s =
     (case executeSetupStep ev base i rawStep captures s of
        ((step, captures'), s') \<Rightarrow>
          let r = result\<lparr>rl_Setup := rl_Setup result @ [step]\<rparr>
          in if st_Status step = ''error''
             then (Inl (r\<lparr>rl_Reason := [T ''setup step '', Q (st_ID step), T '' errored: ''] @ st_Reason step\<rparr>), s')
             else if st_Status step \<noteq> ''pass''
             then (Inl (r\<lparr>rl_Status := ''inconclusive'',
               rl_Reason := [T ''setup step '', Q (st_ID step), T '' did not establish its precondition'']\<rparr>), s')
             else setup_loop ev base (Suc i) rest captures' r s')"

definition case_isolation :: "'s Runtime \<Rightarrow> URL \<Rightarrow> object \<Rightarrow> RuleResult \<Rightarrow> 's \<Rightarrow> (RuleResult + RuleResult) \<times> 's" where
  "case_isolation ev base given result s =
     (case map_of given ''isolation'' of
        None \<Rightarrow> (Inr result, s)
      | Some rawIsolation \<Rightarrow>
          (case executeIsolationReset ev base rawIsolation s of
             ((isolation, failed), s') \<Rightarrow>
               let r = result\<lparr>rl_Isolation := Some isolation\<rparr>
               in case failed of
                    Some err \<Rightarrow> (Inl (r\<lparr>rl_Status := ''error'', rl_Reason := err\<rparr>), s')
                  | None \<Rightarrow>
                      if ir_Status isolation \<noteq> ''pass''
                      then (Inl (r\<lparr>rl_Status := ''inconclusive'', rl_Reason := ir_Reason isolation\<rparr>), s')
                      else (Inr r, s')))"

definition case_setup ::
  "'s Runtime \<Rightarrow> URL \<Rightarrow> object \<Rightarrow> RuleResult \<Rightarrow> 's \<Rightarrow> (RuleResult + RuleResult \<times> object) \<times> 's" where
  "case_setup ev base given result s =
     (case map_of given ''setup'' of
        None \<Rightarrow> (Inr (result, []), s)
      | Some rawSetup \<Rightarrow>
          (case as_list (Some rawSetup) of
             None \<Rightarrow> (Inl (result\<lparr>rl_Reason := [T ''given.setup must be a non-empty list'']\<rparr>), s)
           | Some setup \<Rightarrow>
               if setup = [] then (Inl (result\<lparr>rl_Reason := [T ''given.setup must be a non-empty list'']\<rparr>), s)
               else setup_loop ev base 0 setup [] result s))"

definition case_verdict :: "string \<Rightarrow> Assertion list \<Rightarrow> RuleResult \<Rightarrow> RuleResult" where
  "case_verdict strength assertions result =
     (let r = result\<lparr>rl_Assertions := assertions\<rparr>
      in if strength = ''must_not'' then
           if assertions = [] then r\<lparr>rl_Reason := [T ''must_not rule has no executable expectation'']\<rparr>
           else if all_pass assertions
           then r\<lparr>rl_Status := ''fail'', rl_Reason := [T ''prohibited expectation matched the observation'']\<rparr>
           else r\<lparr>rl_Status := ''pass'', rl_Reason := [T ''prohibited expectation did not match the observation'']\<rparr>
         else if all_pass assertions then r\<lparr>rl_Status := ''pass''\<rparr> else r\<lparr>rl_Status := ''fail''\<rparr>)"

definition case_request ::
  "'s Runtime \<Rightarrow> URL \<Rightarrow> Case \<Rightarrow> object \<Rightarrow> RuleResult \<Rightarrow> object \<Rightarrow> 's \<Rightarrow> RuleResult \<times> 's" where
  "case_request ev base testCase given result captures s =
     (case parseSubject ev (oc_Subject testCase) of
        Inl err \<Rightarrow> (result\<lparr>rl_Reason := err\<rparr>, s)
      | Inr (method, path) \<Rightarrow>
          (case performRequest ev base method path (valueIfPresent (map_of given ''body'')) captures s of
             ((request, observation, Some err), s') \<Rightarrow> (result\<lparr>rl_Request := request, rl_Reason := err\<rparr>, s')
           | ((request, observation, None), s') \<Rightarrow>
               let observed = result\<lparr>rl_Request := request, rl_Observation := observation,
                     rl_ObservationSHA256 := observationHash ev observation\<rparr>
               in case evaluate (ev_float ev) (ev_decode ev) ((case oc_Expect testCase of Some m \<Rightarrow> m | None \<Rightarrow> [])) observation of
                    Inl err \<Rightarrow> (observed\<lparr>rl_Reason := err\<rparr>, s')
                  | Inr assertions \<Rightarrow> (case_verdict (oc_Strength testCase) assertions observed, s')))"

definition executeCase :: "'s Runtime \<Rightarrow> URL \<Rightarrow> Case \<Rightarrow> 's \<Rightarrow> RuleResult \<times> 's" where
  "executeCase ev base testCase s =
     (let result = \<lparr>rl_RuleID = oc_RuleID testCase, rl_CaseID = oc_CaseID testCase, rl_Subject = oc_Subject testCase,
            rl_Status = ''error'', rl_Isolation = None, rl_Setup = [], rl_Request = no_request,
            rl_Observation = no_observation, rl_ObservationSHA256 = [], rl_Assertions = [], rl_Reason = []\<rparr>;
          given = (case oc_Given testCase of Some m \<Rightarrow> m | None \<Rightarrow> [])
      in case case_isolation ev base given result s of
           (Inl r, s') \<Rightarrow> (r, s')
         | (Inr r, s') \<Rightarrow>
             (case case_setup ev base given r s' of
                (Inl r', s'') \<Rightarrow> (r', s'')
              | (Inr (r', captures), s'') \<Rightarrow> case_request ev base testCase given r' captures s''))"

end
