(* ===== verification/SornaRun.thy ===== *)
theory SornaRun
  imports SornaRunner
begin

text \<open>
  sorna/internal/runner/runner.go, the run of all cases and its record, and record.go.  An execution
  case has the fields of an oracle case.  The time is that of \<open>config.Now\<close>, read once.
\<close>

section \<open>The record of a run\<close>

abbreviation SornaRunSchema :: string where "SornaRunSchema \<equiv> ''ingen.run/v1''"

record OracleReference =
  or_Schema :: string
  or_SHA256 :: string

record BaselineReference =
  bl_EvidencePath :: string
  bl_RunID :: string
  bl_Contract :: SornaContractReference
  bl_Oracle :: "OracleReference option"

record ContractVerdict =
  vd_Status :: string
  vd_Reason :: string

record Assurance =
  ass_Level :: int
  ass_Status :: string
  ass_ObservationCoverage :: string
  ass_Limitations :: "string list"

record SubjectReference =
  sj_BaseURL :: string
  sj_Adapter :: string
  sj_Variant :: string

record RunSummary =
  su_Passed :: nat
  su_Failed :: nat
  su_Errors :: nat
  su_Inconclusive :: nat
  su_Skipped :: nat

record SandboxRecord =
  sb_Enforcement :: string

record AccessTelemetry =
  tel_Status :: string
  tel_Source :: string
  tel_ProcessID :: int
  tel_ProcessIDs :: "int list"
  tel_EventCount :: int
  tel_ParseErrors :: int
  tel_ProcessTreeErrors :: int
  tel_SampleCount :: int
  tel_SamplingIntervalMS :: int
  tel_SamplingStartedAt :: instant
  tel_SamplingStoppedAt :: instant
  tel_ObservationCount :: int
  tel_ObservationErrors :: int
  tel_Reason :: string

record LifecycleRecord =
  lc_Mode :: string
  lc_Sandbox :: "SandboxRecord option"
  lc_Access :: "AccessTelemetry option"

record RunRecord =
  rn_Schema :: string
  rn_RunID :: string
  rn_CreatedAt :: instant
  rn_Assurance :: Assurance
  rn_Contract :: SornaContractReference
  rn_Oracle :: "OracleReference option"
  rn_Baseline :: "BaselineReference option"
  rn_Verdict :: ContractVerdict
  rn_Subject :: SubjectReference
  rn_Lifecycle :: "LifecycleRecord option"
  rn_Summary :: RunSummary
  rn_Rules :: "RuleResult list"
  rn_Mutation :: "MutationResult option"

record Config =
  cf_BaseURL :: string
  cf_Now :: instant
  cf_Variant :: string
  cf_Mutation :: "Spec option"
  cf_Lifecycle :: "LifecycleRecord option"

section \<open>Running the cases\<close>

definition verdictFor :: "RunSummary \<Rightarrow> ContractVerdict" where
  "verdictFor summary =
     (if 0 < su_Errors summary then \<lparr>vd_Status = ''error'', vd_Reason = ''one or more rules could not be evaluated''\<rparr>
      else if 0 < su_Failed summary then \<lparr>vd_Status = ''fail'', vd_Reason = ''one or more rules violated the contract''\<rparr>
      else if 0 < su_Inconclusive summary \<or> 0 < su_Skipped summary
      then \<lparr>vd_Status = ''inconclusive'', vd_Reason = ''one or more rules were not fully evaluated''\<rparr>
      else \<lparr>vd_Status = ''pass'', vd_Reason = ''all evaluated rules satisfied the contract''\<rparr>)"

definition run_assurance :: "LifecycleRecord option \<Rightarrow> Assurance" where
  "run_assurance lifecycle =
     (let boundary = ''the runner does not attest to a capability boundary'';
          (status, limitations) =
            (case lifecycle of
               None \<Rightarrow> (''self-reported'', [''the subject was supplied as an already-running URL'', boundary])
             | Some l \<Rightarrow>
                 if lc_Mode l \<noteq> ''managed-process''
                 then (''self-reported'', [''the subject was supplied as an already-running URL'', boundary])
                 else
                   (case lc_Sandbox l of
                      None \<Rightarrow>
                        (''self-reported'',
                         [''Sorna managed process startup and teardown, but the process was not capability-isolated'', boundary])
                    | Some sandbox \<Rightarrow>
                        if sb_Enforcement sandbox \<noteq> ''host-enforced''
                        then (''self-reported'', [''the managed subject policy was recorded but not host-enforced'', boundary])
                        else (''host-enforced-subject'',
                          [''subject policy was host-enforced, but access completeness and process-tree/subject-identity enforcement are not independently attested''])))
      in \<lparr>ass_Level = 0, ass_Status = status, ass_ObservationCoverage = ''not-observed'', ass_Limitations = limitations\<rparr>)"

definition count_result :: "string \<Rightarrow> RunSummary \<Rightarrow> RunSummary" where
  "count_result status summary =
     (if status = ''pass'' then summary\<lparr>su_Passed := Suc (su_Passed summary)\<rparr>
      else if status = ''fail'' then summary\<lparr>su_Failed := Suc (su_Failed summary)\<rparr>
      else if status = ''error'' then summary\<lparr>su_Errors := Suc (su_Errors summary)\<rparr>
      else if status = ''inconclusive'' then summary\<lparr>su_Inconclusive := Suc (su_Inconclusive summary)\<rparr>
      else if status = ''skipped'' then summary\<lparr>su_Skipped := Suc (su_Skipped summary)\<rparr>
      else summary)"

fun cases_loop :: "'s Runtime \<Rightarrow> URL \<Rightarrow> Case list \<Rightarrow> RuleResult list \<times> RunSummary \<Rightarrow> 's \<Rightarrow> (RuleResult list \<times> RunSummary) \<times> 's" where
  "cases_loop ev base [] acc s = (acc, s)"
| "cases_loop ev base (testCase # rest) acc s =
     (case executeCase ev base testCase s of
        (result, s') \<Rightarrow>
          cases_loop ev base rest (fst acc @ [result], count_result (rl_Status result) (snd acc)) s')"

definition unix_epoch :: instant where
  "unix_epoch = instant_of 1970 1 1 0 0 0 0"

definition executeCases ::
  "'s Runtime \<Rightarrow> SornaContractReference \<Rightarrow> Case list \<Rightarrow> Config \<Rightarrow> OracleReference option \<Rightarrow> 's \<Rightarrow> (message + RunRecord) \<times> 's" where
  "executeCases ev contractReference cases config oracleReference s =
     (case parseBaseURL ev (cf_BaseURL config) of
        Inl err \<Rightarrow> (Inl err, s)
      | Inr base \<Rightarrow>
          (case cases_loop ev base cases
              ([], \<lparr>su_Passed = 0, su_Failed = 0, su_Errors = 0, su_Inconclusive = 0, su_Skipped = 0\<rparr>) s of
             ((rules, summary), s') \<Rightarrow>
               (Inr \<lparr>rn_Schema = SornaRunSchema, rn_RunID = ''run-'' @ dec_string (cf_Now config - unix_epoch),
                     rn_CreatedAt = cf_Now config, rn_Assurance = run_assurance (cf_Lifecycle config),
                     rn_Contract = contractReference, rn_Oracle = oracleReference, rn_Baseline = None,
                     rn_Verdict = verdictFor summary,
                     rn_Subject = \<lparr>sj_BaseURL = TrimRight_slash (ev_url_string ev base), sj_Adapter = ''http-json-v1'',
                       sj_Variant = cf_Variant config\<rparr>,
                     rn_Lifecycle = cf_Lifecycle config, rn_Summary = summary, rn_Rules = rules,
                     rn_Mutation = map_option (\<lambda>m. Classify_mutation m
                       (map (\<lambda>r. \<lparr>ru_RuleID = rl_RuleID r, ru_Status = rl_Status r\<rparr>) rules)) (cf_Mutation config)\<rparr>,
                s')))"

definition executionCaseFromRule :: "nat \<Rightarrow> object \<Rightarrow> Case" where
  "executionCaseFromRule index rule =
     \<lparr>oc_CaseID = case_name index, oc_RuleID = string_or_empty (map_of rule ''id''),
      oc_Strength = string_or_empty (map_of rule ''strength''), oc_Subject = string_or_empty (map_of rule ''subject''),
      oc_Given = as_object (map_of rule ''given''), oc_Expect = as_object (map_of rule ''expect'')\<rparr>"

definition casesFromContract :: "Sealed \<Rightarrow> message + Case list" where
  "casesFromContract sealed =
     (case as_list (map_of (sd_Document sealed) ''rules'') of
        None \<Rightarrow> Inl [T ''sealed contract rules must be a list'']
      | Some rules \<Rightarrow>
          collect (\<lambda>index v. case as_object (Some v) of
              None \<Rightarrow> Inl [T ''contract rule '', D (int index), T '' is not an object'']
            | Some rule \<Rightarrow> Inr (executionCaseFromRule index rule)) 0 rules)"

definition Execute :: "'s Runtime \<Rightarrow> Sealed \<Rightarrow> Config \<Rightarrow> 's \<Rightarrow> (message + RunRecord) \<times> 's" where
  "Execute ev sealed config s =
     (case casesFromContract sealed of
        Inl err \<Rightarrow> (Inl err, s)
      | Inr cases \<Rightarrow>
          executeCases ev
            \<lparr>ctr_ID = string_or_empty (map_of (sd_Document sealed) ''id''),
             ctr_Version = (case integer (map_of (sd_Document sealed) ''version'') of Some n \<Rightarrow> n | None \<Rightarrow> 0),
             ctr_SHA256 = sd_SHA256 sealed\<rparr> cases config None s)"

definition ExecuteOracle ::
  "'s Runtime \<Rightarrow> (OracleArtifact \<Rightarrow> message + string) \<Rightarrow> OracleArtifact \<Rightarrow> Config \<Rightarrow> 's \<Rightarrow> (message + RunRecord) \<times> 's" where
  "ExecuteOracle ev encode artifact config s =
     (if Oracle_Validate artifact \<noteq> [] then (Inl (T ''invalid oracle: '' # join_problems (Oracle_Validate artifact)), s)
      else
        (case Oracle_Hash encode (ev_sha ev) artifact of
           Inl err \<Rightarrow> (Inl err, s)
         | Inr oracleHash \<Rightarrow>
             executeCases ev (oa_Contract artifact) (oa_Cases artifact) config
               (Some \<lparr>or_Schema = oa_Schema artifact, or_SHA256 = oracleHash\<rparr>) s))"

section \<open>Validating a record\<close>

definition validateSHA256 :: "string \<Rightarrow> message option" where
  "validateSHA256 v =
     (if length v \<noteq> 64 then Some [T ''sha256 must be a 64-character hexadecimal digest'']
      else if \<not> valid_hex v then Some [T ''sha256 must be hexadecimal: ''] else None)"

definition validateContractReference_run :: "SornaContractReference \<Rightarrow> message option" where
  "validateContractReference_run reference =
     (if blank (ctr_ID reference) then Some [T ''id must be non-empty'']
      else if ctr_Version reference < 1 then Some [T ''version must be positive'']
      else validateSHA256 (ctr_SHA256 reference))"

definition validateOracleReference :: "OracleReference \<Rightarrow> message option" where
  "validateOracleReference reference =
     (if or_Schema reference \<noteq> OracleSchema then Some [T ''schema must be '', T OracleSchema]
      else validateSHA256 (or_SHA256 reference))"

definition prefixed_problem :: "string \<Rightarrow> message option \<Rightarrow> message list" where
  "prefixed_problem name err = (case err of None \<Rightarrow> [] | Some e \<Rightarrow> [T name # e])"

definition RunRecord_Validate :: "'s Runtime \<Rightarrow> RunRecord \<Rightarrow> message list" where
  "RunRecord_Validate ev r =
     problem (rn_Schema r \<noteq> SornaRunSchema) [T ''schema must be '', T SornaRunSchema] @
     problem (blank (rn_RunID r)) [T ''run_id must be non-empty''] @
     problem (is_zero (rn_CreatedAt r)) [T ''created_at must be present''] @
     prefixed_problem ''contract: '' (validateContractReference_run (rn_Contract r)) @
     (if blank (sj_BaseURL (rn_Subject r)) then [[T ''subject.base_url must be non-empty'']]
      else prefixed_problem ''subject.base_url: ''
        (case parseBaseURL ev (sj_BaseURL (rn_Subject r)) of Inl e \<Rightarrow> Some e | Inr _ \<Rightarrow> None)) @
     problem (blank (sj_Adapter (rn_Subject r))) [T ''subject.adapter must be non-empty''] @
     (case rn_Oracle r of None \<Rightarrow> [] | Some o' \<Rightarrow> prefixed_problem ''oracle: '' (validateOracleReference o')) @
     (case rn_Baseline r of
        None \<Rightarrow> []
      | Some b \<Rightarrow>
          problem (blank (bl_EvidencePath b)) [T ''baseline.evidence_path must be non-empty''] @
          problem (blank (bl_RunID b)) [T ''baseline.run_id must be non-empty''] @
          prefixed_problem ''baseline.contract: '' (validateContractReference_run (bl_Contract b)) @
          (case bl_Oracle b of None \<Rightarrow> [] | Some o' \<Rightarrow> prefixed_problem ''baseline.oracle: '' (validateOracleReference o')))"

section \<open>What a passed step and a passed rule have behind them\<close>

definition step_backed :: "'s Runtime \<Rightarrow> Json \<Rightarrow> StepResult \<Rightarrow> bool" where
  "step_backed ev v r \<longleftrightarrow>
     (\<exists>step. v = JObject step \<and>
        (\<forall>e. map_of step ''expect'' = Some e \<longrightarrow>
           (\<exists>expect as. e = JObject expect \<and> evaluate (ev_float ev) (ev_decode ev) expect (st_Observation r) = Inr as \<and>
              all_pass as)) \<and>
        (\<forall>e. map_of step ''expect_not'' = Some e \<longrightarrow>
           (\<exists>xs. e = JArray xs \<and> xs \<noteq> [] \<and>
              (\<forall>x \<in> set xs. \<exists>expect as. x = JObject expect \<and>
                 evaluate (ev_float ev) (ev_decode ev) expect (st_Observation r) = Inr as \<and> as \<noteq> [] \<and> \<not> all_pass as))))"

lemma prohibited_loop_passed:
  "prohibited_loop ev observation i xs result = Inr r \<Longrightarrow> st_Status r = ''pass'' \<Longrightarrow>
     st_Status result = ''pass'' \<and> st_Observation r = st_Observation result \<and>
     (\<forall>x \<in> set xs. \<exists>expect as. x = JObject expect \<and>
        evaluate (ev_float ev) (ev_decode ev) expect observation = Inr as \<and> as \<noteq> [] \<and> \<not> all_pass as)"
proof (induction ev observation i xs result rule: prohibited_loop.induct)
  case (2 ev observation i x rest result)
  from "2.prems"(1) obtain expect as where e: "x = JObject expect"
    "evaluate (ev_float ev) (ev_decode ev) expect observation = Inr as" "as \<noteq> []"
    by (auto simp: as_Some split: option.splits sum.splits if_splits)
  let ?r = "result\<lparr>st_Assertions := st_Assertions result @ as\<rparr>"
  have l: "prohibited_loop ev observation (Suc i) rest
      (if all_pass as
       then ?r\<lparr>st_Status := ''fail'', st_Reason := [T ''setup prohibited expectation matched the observation'']\<rparr> else ?r) = Inr r"
    using "2.prems"(1) e by (simp add: Let_def)
  from "2.IH"[of expect as ?r] e l "2.prems"(2)
  have ih: "st_Status (if all_pass as
       then ?r\<lparr>st_Status := ''fail'', st_Reason := [T ''setup prohibited expectation matched the observation'']\<rparr> else ?r) = ''pass''"
    "st_Observation r = st_Observation result"
    "\<forall>x \<in> set rest. \<exists>expect as. x = JObject expect \<and>
        evaluate (ev_float ev) (ev_decode ev) expect observation = Inr as \<and> as \<noteq> [] \<and> \<not> all_pass as"
    by (auto split: if_splits)
  then show ?case using e by (auto split: if_splits)
qed simp


lemma capture_loop_keeps:
  "st_Status (fst (capture_loop ev observation captures xs result)) = ''pass'' \<Longrightarrow>
     st_Status result = ''pass'' \<and> st_Observation (fst (capture_loop ev observation captures xs result)) = st_Observation result"
  by (induction ev observation captures xs result rule: capture_loop.induct) (auto split: option.splits sum.splits)

lemma step_capture_keeps:
  "st_Status (fst (step_capture ev step observation captures result)) = ''pass'' \<Longrightarrow>
     st_Status result = ''pass'' \<and> st_Observation (fst (step_capture ev step observation captures result)) = st_Observation result"
  by (auto simp: step_capture_def split: option.splits
      intro: capture_loop_keeps[THEN conjunct1] capture_loop_keeps[THEN conjunct2])

lemma step_expect_stops: "step_expect ev step observation result = Inl r \<Longrightarrow> st_Status r = ''error''"
  by (auto simp: step_expect_def Let_def split: option.splits sum.splits if_splits)

lemma prohibited_loop_stops: "prohibited_loop ev observation i xs result = Inl r \<Longrightarrow> st_Status r = ''error''"
  by (induction ev observation i xs result rule: prohibited_loop.induct)
    (auto simp: Let_def split: option.splits sum.splits if_splits)

lemma step_expect_not_stops: "step_expect_not ev step observation result = Inl r \<Longrightarrow> st_Status r = ''error''"
  by (auto simp: step_expect_not_def prohibited_loop_stops split: option.splits if_splits)

lemma step_expect_passed:
  "step_expect ev step observation result = Inr r \<Longrightarrow> st_Status r = ''pass'' \<Longrightarrow>
     st_Observation r = st_Observation result \<and>
     (\<forall>e. map_of step ''expect'' = Some e \<longrightarrow>
        (\<exists>expect as. e = JObject expect \<and> evaluate (ev_float ev) (ev_decode ev) expect observation = Inr as \<and> all_pass as))"
  by (auto simp: step_expect_def Let_def as_Some split: option.splits sum.splits if_splits)

lemma step_expect_not_passed:
  "step_expect_not ev step observation result = Inr r \<Longrightarrow> st_Status r = ''pass'' \<Longrightarrow>
     st_Status result = ''pass'' \<and> st_Observation r = st_Observation result \<and>
     (\<forall>e. map_of step ''expect_not'' = Some e \<longrightarrow>
        (\<exists>xs. e = JArray xs \<and> xs \<noteq> [] \<and>
           (\<forall>x \<in> set xs. \<exists>expect as. x = JObject expect \<and>
              evaluate (ev_float ev) (ev_decode ev) expect observation = Inr as \<and> as \<noteq> [] \<and> \<not> all_pass as)))"
  using prohibited_loop_passed[of ev observation 0]
  by (auto simp: step_expect_not_def as_Some split: option.splits if_splits)

lemma passed_step:
  assumes e: "executeSetupStep ev base i v captures s = ((r, captures'), s')" and p: "st_Status r = ''pass''"
  shows "step_backed ev v r"
proof -
  from e p obtain step requestSpec where step: "v = JObject step" "as_object (map_of step ''request'') = Some requestSpec"
    by (auto simp: executeSetupStep_def no_step_def Let_def as_Some split: option.splits)
  obtain request observation failed t where q:
    "performRequest ev base (ToUpper ev (string_or_empty (map_of requestSpec ''method'')))
       (string_or_empty (map_of requestSpec ''path'')) (valueIfPresent (map_of requestSpec ''body'')) captures s =
     ((request, observation, failed), t)" by (metis prod.exhaust)
  let ?o = "(no_step (string_or_empty (map_of step ''id'')))\<lparr>st_Request := request, st_Observation := observation,
      st_ObservationSHA256 := observationHash ev observation, st_Status := ''pass''\<rparr>"
  from e p step q have none: "failed = None"
    by (cases failed) (auto simp: executeSetupStep_def no_step_def)
  from e p step q none obtain a b where a: "step_expect ev step observation ?o = Inr a"
    "step_expect_not ev step observation a = Inr b"
    by (auto simp: executeSetupStep_def Let_def split: sum.splits dest: step_expect_stops step_expect_not_stops)
  let ?b = "if st_Status b = ''fail'' \<and> st_Reason b = []
    then b\<lparr>st_Reason := [T ''setup expectation did not match the observation'']\<rparr> else b"
  from e step q none a have r: "r = fst (step_capture ev step observation captures ?b)"
    by (simp add: executeSetupStep_def Let_def)
  from step_capture_keeps[of ev step observation captures ?b] p r
  have b: "st_Status b = ''pass''" "st_Observation r = st_Observation b" by (auto split: if_splits)
  from step_expect_not_passed[OF a(2) b(1)] have n: "st_Status a = ''pass''" "st_Observation b = st_Observation a" by simp_all
  from step_expect_passed[OF a(1) n(1)] b(2) n(2) have o': "st_Observation r = observation" by simp
  show ?thesis
    unfolding step_backed_def o' using step(1) step_expect_passed[OF a(1) n(1)] step_expect_not_passed[OF a(2) b(1)]
    by blast
qed

lemma setup_loop_passed:
  "setup_loop ev base i xs captures result s = (Inr (r, captures'), s') \<Longrightarrow>
     r = result\<lparr>rl_Setup := rl_Setup r\<rparr> \<and>
     (\<exists>steps. rl_Setup r = rl_Setup result @ steps \<and>
        list_all2 (\<lambda>v step. st_Status step = ''pass'' \<and> step_backed ev v step) xs steps)"
proof (induction ev base i xs captures result s rule: setup_loop.induct)
  case (2 ev base i x rest captures result s)
  obtain step c t where e: "executeSetupStep ev base i x captures s = ((step, c), t)" by (metis prod.exhaust)
  with "2.prems" have p: "st_Status step = ''pass''" by (auto simp: Let_def split: if_splits)
  with "2.prems" e have l: "setup_loop ev base (Suc i) rest c (result\<lparr>rl_Setup := rl_Setup result @ [step]\<rparr>) t = (Inr (r, captures'), s')"
    by (simp add: Let_def)
  have ih: "r = result\<lparr>rl_Setup := rl_Setup r\<rparr>"
    "\<exists>steps. rl_Setup r = (rl_Setup result @ [step]) @ steps \<and>
       list_all2 (\<lambda>v step. st_Status step = ''pass'' \<and> step_backed ev v step) rest steps"
    using "2.IH"[OF e[symmetric] refl refl _ _ l] p by auto
  from ih(2) obtain steps where "rl_Setup r = rl_Setup result @ step # steps"
    "list_all2 (\<lambda>v step. st_Status step = ''pass'' \<and> step_backed ev v step) rest steps" by auto
  with passed_step[OF e p] p ih(1) show ?case by (intro conjI exI[of _ "step # steps"]) auto
qed auto

text \<open>What a rule with the status \<open>pass\<close> rests on.\<close>

definition rule_backed :: "'s Runtime \<Rightarrow> Case \<Rightarrow> RuleResult \<Rightarrow> bool" where
  "rule_backed ev testCase r \<longleftrightarrow>
     (let given = (case oc_Given testCase of Some m \<Rightarrow> m | None \<Rightarrow> []);
          expect = (case oc_Expect testCase of Some m \<Rightarrow> m | None \<Rightarrow> [])
      in (map_of given ''isolation'' \<noteq> None \<longrightarrow>
            (\<exists>i. rl_Isolation r = Some i \<and> 200 \<le> ob_Status (ir_Observation i) \<and> ob_Status (ir_Observation i) < 300)) \<and>
         (\<forall>v. map_of given ''setup'' = Some v \<longrightarrow>
            (\<exists>xs. v = JArray xs \<and> xs \<noteq> [] \<and>
               list_all2 (\<lambda>x step. st_Status step = ''pass'' \<and> step_backed ev x step) xs (rl_Setup r))) \<and>
         (\<exists>method path. parseSubject ev (oc_Subject testCase) = Inr (method, path)) \<and>
         evaluate (ev_float ev) (ev_decode ev) expect (rl_Observation r) = Inr (rl_Assertions r) \<and>
         (if oc_Strength testCase = ''must_not'' then \<not> all_pass (rl_Assertions r) else all_pass (rl_Assertions r)))"


definition same_rule :: "RuleResult \<Rightarrow> RuleResult \<Rightarrow> bool" where
  "same_rule r r' \<longleftrightarrow> rl_RuleID r = rl_RuleID r' \<and> rl_CaseID r = rl_CaseID r' \<and> rl_Subject r = rl_Subject r'"

lemma setup_loop_stopped:
  "setup_loop ev base i xs captures result s = (Inl r, s') \<Longrightarrow>
     same_rule r result \<and> (rl_Status r = rl_Status result \<or> rl_Status r = ''inconclusive'')"
proof (induction ev base i xs captures result s rule: setup_loop.induct)
  case (2 ev base i x rest captures result s)
  obtain step c t where e: "executeSetupStep ev base i x captures s = ((step, c), t)" by (metis prod.exhaust)
  show ?case
  proof (cases "st_Status step = ''pass''")
    case False
    with "2.prems" e show ?thesis by (auto simp: Let_def same_rule_def split: if_splits)
  next
    case True
    with "2.prems" e have l: "setup_loop ev base (Suc i) rest c (result\<lparr>rl_Setup := rl_Setup result @ [step]\<rparr>) t = (Inl r, s')"
      by (simp add: Let_def)
    from "2.IH"[OF e[symmetric] refl refl _ _ l] True show ?thesis by (simp add: same_rule_def)
  qed
qed simp

lemma isolation_passed:
  "executeIsolationReset ev base v s = ((i, None), s') \<Longrightarrow> ir_Status i = ''pass'' \<Longrightarrow>
     200 \<le> ob_Status (ir_Observation i) \<and> ob_Status (ir_Observation i) < 300"
  by (auto simp: executeIsolationReset_def Let_def split: sum.splits prod.splits option.splits if_splits)

lemma case_isolation_stopped:
  "case_isolation ev base given result s = (Inl r, s') \<Longrightarrow>
     same_rule r result \<and> rl_Status r \<in> {''error'', ''inconclusive''}"
  by (auto simp: case_isolation_def Let_def same_rule_def split: option.splits prod.splits if_splits)

lemma case_isolation_passed:
  "case_isolation ev base given result s = (Inr r, s') \<Longrightarrow>
     r = result\<lparr>rl_Isolation := rl_Isolation r\<rparr> \<and>
     (map_of given ''isolation'' \<noteq> None \<longrightarrow>
        (\<exists>i. rl_Isolation r = Some i \<and> 200 \<le> ob_Status (ir_Observation i) \<and> ob_Status (ir_Observation i) < 300))"
  by (auto simp: case_isolation_def Let_def dest: isolation_passed split: option.splits prod.splits if_splits)

lemma case_setup_stopped:
  "case_setup ev base given result s = (Inl r, s') \<Longrightarrow>
     same_rule r result \<and> (rl_Status r = rl_Status result \<or> rl_Status r = ''inconclusive'')"
  by (auto simp: case_setup_def same_rule_def split: option.splits if_splits dest: setup_loop_stopped)

lemma case_setup_passed:
  "case_setup ev base given result s = (Inr (r, captures), s') \<Longrightarrow>
     r = result\<lparr>rl_Setup := rl_Setup r\<rparr> \<and>
     (\<forall>v. map_of given ''setup'' = Some v \<longrightarrow>
        (\<exists>xs steps. v = JArray xs \<and> xs \<noteq> [] \<and> rl_Setup r = rl_Setup result @ steps \<and>
           list_all2 (\<lambda>x step. st_Status step = ''pass'' \<and> step_backed ev x step) xs steps))"
  by (cases "map_of given ''setup''")
    (auto simp: case_setup_def as_Some split: option.splits if_splits dest!: setup_loop_passed)

lemma case_verdict_status:
  "rl_Status result = ''error'' \<Longrightarrow>
     same_rule (case_verdict strength as result) result \<and> rl_Status (case_verdict strength as result) \<in> {''pass'', ''fail'', ''error''} \<and>
     rl_Assertions (case_verdict strength as result) = as \<and>
     rl_Observation (case_verdict strength as result) = rl_Observation result \<and>
     rl_Isolation (case_verdict strength as result) = rl_Isolation result \<and>
     rl_Setup (case_verdict strength as result) = rl_Setup result \<and>
     (rl_Status (case_verdict strength as result) = ''pass'' \<longleftrightarrow>
        (if strength = ''must_not'' then as \<noteq> [] \<and> \<not> all_pass as else all_pass as))"
  by (auto simp: case_verdict_def Let_def same_rule_def)

lemma case_request_result:
  assumes e: "case_request ev base testCase given result captures s = (r, s')" and i: "rl_Status result = ''error''"
  shows "same_rule r result \<and> rl_Status r \<in> {''pass'', ''fail'', ''error''} \<and>
    rl_Isolation r = rl_Isolation result \<and> rl_Setup r = rl_Setup result \<and>
    (rl_Status r = ''pass'' \<longrightarrow>
       (\<exists>method path. parseSubject ev (oc_Subject testCase) = Inr (method, path)) \<and>
       evaluate (ev_float ev) (ev_decode ev) (case oc_Expect testCase of Some m \<Rightarrow> m | None \<Rightarrow> []) (rl_Observation r) =
         Inr (rl_Assertions r) \<and>
       (if oc_Strength testCase = ''must_not'' then \<not> all_pass (rl_Assertions r) else all_pass (rl_Assertions r)))"
proof (cases "parseSubject ev (oc_Subject testCase)")
  case (Inl err)
  then show ?thesis using e i by (auto simp: case_request_def same_rule_def)
next
  case (Inr mp)
  obtain verb path where mp: "mp = (verb, path)" by fastforce
  obtain request observation failed t where q:
    "performRequest ev base verb path (valueIfPresent (map_of given ''body'')) captures s = ((request, observation, failed), t)"
    by (metis prod.exhaust)
  let ?e = "evaluate (ev_float ev) (ev_decode ev) (case oc_Expect testCase of Some m \<Rightarrow> m | None \<Rightarrow> []) observation"
  show ?thesis
  proof (cases failed)
    case (Some err)
    then show ?thesis using e i q Inr mp by (auto simp: case_request_def same_rule_def)
  next
    case None
    show ?thesis
    proof (cases ?e)
      case (Inl err)
      then show ?thesis using e i q \<open>parseSubject ev (oc_Subject testCase) = Inr mp\<close> mp None
        by (auto simp: case_request_def same_rule_def Let_def)
    next
      case (Inr as)
      let ?r = "result\<lparr>rl_Request := request, rl_Observation := observation, rl_ObservationSHA256 := observationHash ev observation\<rparr>"
      have r: "r = case_verdict (oc_Strength testCase) as ?r"
        using e q \<open>parseSubject ev (oc_Subject testCase) = Inr mp\<close> mp None Inr by (simp add: case_request_def Let_def)
      have "rl_Status ?r = ''error''" using i by simp
      from case_verdict_status[OF this, of "oc_Strength testCase" as] show ?thesis
        unfolding r using Inr \<open>parseSubject ev (oc_Subject testCase) = Inr mp\<close> mp
        by (auto simp: same_rule_def split: if_splits)
    qed
  qed
qed

lemma executed_case:
  assumes e: "executeCase ev base testCase s = (r, s')"
  shows "rl_RuleID r = oc_RuleID testCase \<and> rl_CaseID r = oc_CaseID testCase \<and> rl_Subject r = oc_Subject testCase \<and>
    rl_Status r \<in> {''pass'', ''fail'', ''error'', ''inconclusive''} \<and> (rl_Status r = ''pass'' \<longrightarrow> rule_backed ev testCase r)"
proof -
  let ?r = "\<lparr>rl_RuleID = oc_RuleID testCase, rl_CaseID = oc_CaseID testCase, rl_Subject = oc_Subject testCase,
            rl_Status = ''error'', rl_Isolation = None, rl_Setup = [], rl_Request = no_request,
            rl_Observation = no_observation, rl_ObservationSHA256 = [], rl_Assertions = [], rl_Reason = []\<rparr>"
  let ?g = "case oc_Given testCase of Some m \<Rightarrow> m | None \<Rightarrow> []"
  obtain x t where x: "case_isolation ev base ?g ?r s = (x, t)" by fastforce
  show ?thesis
  proof (cases x)
    case (Inl q)
    with e x have "r = q" by (simp add: executeCase_def Let_def)
    with case_isolation_stopped[OF x[unfolded Inl]] show ?thesis by (auto simp: same_rule_def)
  next
    case (Inr q)
    note p = case_isolation_passed[OF x[unfolded Inr]]
    obtain y u where y: "case_setup ev base ?g q t = (y, u)" by fastforce
    from p obtain iso where "q = ?r\<lparr>rl_Isolation := iso\<rparr>" by blast
    then have q: "same_rule q ?r" "rl_Status q = ''error''" "rl_Setup q = []" by (simp_all add: same_rule_def)
    show ?thesis
    proof (cases y)
      case (Inl z)
      with e x y Inr have "r = z" by (simp add: executeCase_def Let_def)
      with case_setup_stopped[OF y[unfolded Inl]] q show ?thesis by (auto simp: same_rule_def)
    next
      case (Inr zc)
      obtain z c where z: "zc = (z, c)" by fastforce
      note p' = case_setup_passed[OF y[unfolded Inr z]]
      with e x y \<open>x = Inr q\<close> Inr z have r: "case_request ev base testCase ?g z c u = (r, s')"
        by (simp add: executeCase_def Let_def)
      from p' obtain steps where "z = q\<lparr>rl_Setup := steps\<rparr>" by blast
      then have z': "same_rule z q" "rl_Status z = ''error''" "rl_Isolation z = rl_Isolation q"
        using q by (simp_all add: same_rule_def)
      note res = case_request_result[OF r z'(2)]
      have "rule_backed ev testCase r" if "rl_Status r = ''pass''"
        unfolding rule_backed_def Let_def
        using res that p[THEN conjunct2] p'[THEN conjunct2] q(3) z'(3) by simp
      then show ?thesis using res q(1) z'(1) by (auto simp: same_rule_def)
    qed
  qed
qed

end
