(* ===== verification/SornaCampaign.thy ===== *)
theory SornaCampaign
  imports SornaRun
begin

text \<open>
  sorna/internal/campaign/plan.go and result.go, with the part of cmd/sorna/main.go that turns the run of
  a mutation into an entry and the entries into a result.  Files, the JSON codec, the digest and the
  verification of evidence are arguments.  The four lists of a diagnosis are checked in one order, where the
  code ranges over a map.
\<close>

section \<open>Plans\<close>

abbreviation PlanSchema :: string where "PlanSchema \<equiv> ''ingen.mutation-plan/v1''"

record CatalogueReference =
  cr_Path :: string
  cr_ID :: string
  cr_Version :: int
  cr_SHA256 :: string

record MutationEntry =
  me_Sequence :: int
  me_Spec :: Spec

record Plan =
  pl_Schema :: string
  pl_Status :: string
  pl_Catalogue :: CatalogueReference
  pl_Contract :: SornaContractReference
  pl_Oracle :: OracleReference
  pl_Baseline :: BaselineReference
  pl_OraclePolicySHA256 :: string
  pl_SubjectPolicySHA256 :: string
  pl_Mutations :: "MutationEntry list"

record BuildRequest =
  br_CataloguePath :: string
  br_CatalogueSHA256 :: string
  br_Catalogue :: Catalogue
  br_Contract :: object
  br_ContractSHA256 :: string
  br_Oracle :: OracleArtifact
  br_Baseline :: BaselineReference
  br_SubjectPolicySHA256 :: string

definition plan_integer :: "Json option \<Rightarrow> int option" where
  "plan_integer v =
     (case v of Some (JInt n) \<Rightarrow> Some n | Some (JFloat f) \<Rightarrow> float_int f | _ \<Rightarrow> None)"

text \<open>\<open>strings.TrimPrefix\<close> of a problem, whose first fragment is text.\<close>

definition plan_problem :: "message \<Rightarrow> message" where
  "plan_problem p =
     T ''plan.'' #
     (case p of
        T s # r \<Rightarrow> (case strip_prefix ''mutation_catalogue.'' s of Some t \<Rightarrow> T t # r | None \<Rightarrow> p)
      | _ \<Rightarrow> p)"

definition entry_problems :: "nat \<Rightarrow> MutationEntry \<Rightarrow> message list" where
  "entry_problems index entry =
     problem (me_Sequence entry \<noteq> int index + 1)
       [T ''plan.mutations['', D (int index), T ''].sequence must be '', D (int index + 1)] @
     problem (sp_Plane (me_Spec entry) \<noteq> ''implementation'')
       [T ''plan.mutations['', D (int index),
        T ''].spec.plane must be implementation; contract mutations use sorna mutation contract inspect'']"

definition subject_policy_problem :: "string \<Rightarrow> bool" where
  "subject_policy_problem d \<longleftrightarrow> \<not> blank d \<and> \<not> valid_sha256 d"

definition Plan_Validate :: "Plan \<Rightarrow> message list" where
  "Plan_Validate plan =
     problem (pl_Schema plan \<noteq> PlanSchema) [T ''plan.schema must be '', T PlanSchema] @
     problem (pl_Status plan \<noteq> ''ready'') [T ''plan.status must be ready''] @
     problem (blank (cr_Path (pl_Catalogue plan))) [T ''plan.catalogue.path must be non-empty''] @
     problem (blank (cr_ID (pl_Catalogue plan))) [T ''plan.catalogue.id must be non-empty''] @
     problem (cr_Version (pl_Catalogue plan) < 1) [T ''plan.catalogue.version must be positive''] @
     problem (\<not> valid_sha256 (cr_SHA256 (pl_Catalogue plan))) [T ''plan.catalogue.sha256 must be a lowercase SHA-256 digest''] @
     problem (blank (ctr_ID (pl_Contract plan))) [T ''plan.contract.id must be non-empty''] @
     problem (ctr_Version (pl_Contract plan) < 1) [T ''plan.contract.version must be positive''] @
     problem (\<not> valid_sha256 (ctr_SHA256 (pl_Contract plan))) [T ''plan.contract.sha256 must be a lowercase SHA-256 digest''] @
     problem (or_Schema (pl_Oracle plan) \<noteq> OracleSchema) [T ''plan.oracle.schema must be '', T OracleSchema] @
     problem (\<not> valid_sha256 (or_SHA256 (pl_Oracle plan))) [T ''plan.oracle.sha256 must be a lowercase SHA-256 digest''] @
     problem (bl_Contract (pl_Baseline plan) \<noteq> pl_Contract plan) [T ''plan.baseline.contract must match plan.contract''] @
     problem (bl_Oracle (pl_Baseline plan) \<noteq> Some (pl_Oracle plan)) [T ''plan.baseline.oracle must match plan.oracle''] @
     problem (blank (bl_EvidencePath (pl_Baseline plan))) [T ''plan.baseline.evidence_path must be non-empty''] @
     problem (blank (bl_RunID (pl_Baseline plan))) [T ''plan.baseline.run_id must be non-empty''] @
     problem (\<not> valid_sha256 (pl_OraclePolicySHA256 plan)) [T ''plan.oracle_policy_sha256 must be a lowercase SHA-256 digest''] @
     problem (subject_policy_problem (pl_SubjectPolicySHA256 plan))
       [T ''plan.subject_policy_sha256 must be a lowercase SHA-256 digest''] @
     problem (pl_Mutations plan = []) [T ''plan.mutations must contain at least one mutation''] @
     over_items entry_problems 0 (pl_Mutations plan) @
     map plan_problem (Catalogue_Validate
       \<lparr>cat_Schema = CatalogueSchema, cat_ID = cr_ID (pl_Catalogue plan), cat_Version = cr_Version (pl_Catalogue plan),
        cat_ContractID = ctr_ID (pl_Contract plan), cat_ContractVersion = ctr_Version (pl_Contract plan),
        cat_Mutations = map me_Spec (pl_Mutations plan)\<rparr>)"

definition plan_entry :: "nat \<Rightarrow> Spec \<Rightarrow> message + MutationEntry" where
  "plan_entry index spec =
     (if sp_Plane spec \<noteq> ''implementation''
      then Inl [T ''campaign plan cannot execute '', T (sp_Plane spec), T ''-plane mutation '', Q (sp_ID spec),
        T ''; use sorna mutation contract inspect for contract mutations'']
      else Inr \<lparr>me_Sequence = int index + 1, me_Spec = spec\<rparr>)"

text \<open>The checks before the entries are made; the contract and oracle references they yield.\<close>

definition plan_references ::
  "(Float \<Rightarrow> int) \<Rightarrow> (OracleArtifact \<Rightarrow> message + string) \<Rightarrow> (string \<Rightarrow> string) \<Rightarrow> BuildRequest
   \<Rightarrow> message + SornaContractReference \<times> OracleReference" where
  "plan_references trunc encode sha request =
     (let against = ValidateAgainstContract trunc (br_Catalogue request) (br_Contract request);
          oracle = br_Oracle request
      in if blank (br_CataloguePath request) then Inl [T ''campaign catalogue path must not be empty'']
         else if \<not> valid_sha256 (br_CatalogueSHA256 request)
         then Inl [T ''campaign catalogue hash must be a lowercase SHA-256 digest'']
         else if \<not> valid_sha256 (br_ContractSHA256 request)
         then Inl [T ''campaign contract hash must be a lowercase SHA-256 digest'']
         else if against \<noteq> [] then Inl (T ''invalid campaign catalogue binding: '' # join_problems against)
         else if Oracle_Validate oracle \<noteq> [] then Inl (T ''invalid campaign oracle: '' # join_problems (Oracle_Validate oracle))
         else
           (case Oracle_Hash encode sha oracle of
              Inl err \<Rightarrow> Inl (T ''hash campaign oracle: '' # err)
            | Inr oracleHash \<Rightarrow>
                let contractID = string_or_empty (map_of (br_Contract request) ''id'')
                in case plan_integer (map_of (br_Contract request) ''version'') of
                     None \<Rightarrow> Inl [T ''campaign contract version must be an integer'']
                   | Some contractVersion \<Rightarrow>
                       let reference = \<lparr>ctr_ID = contractID, ctr_Version = contractVersion, ctr_SHA256 = br_ContractSHA256 request\<rparr>;
                           oracleReference = \<lparr>or_Schema = oa_Schema oracle, or_SHA256 = oracleHash\<rparr>;
                           baseline = br_Baseline request
                       in if ctr_ID (oa_Contract oracle) \<noteq> contractID \<or> ctr_Version (oa_Contract oracle) \<noteq> contractVersion
                          then Inl [T ''campaign oracle contract '', T (ctr_ID (oa_Contract oracle)), T ''@'',
                            D (ctr_Version (oa_Contract oracle)), T '' does not match contract '', T contractID, T ''@'', D contractVersion]
                          else if ctr_SHA256 (oa_Contract oracle) \<noteq> br_ContractSHA256 request
                          then Inl [T ''campaign contract hash '', Q (br_ContractSHA256 request),
                            T '' does not match frozen oracle contract hash '', Q (ctr_SHA256 (oa_Contract oracle))]
                          else if blank (bl_EvidencePath baseline) \<or> blank (bl_RunID baseline)
                          then Inl [T ''campaign baseline must contain an evidence path and run ID'']
                          else if bl_Contract baseline \<noteq> reference
                          then Inl [T ''campaign baseline contract does not match campaign contract'']
                          else if bl_Oracle baseline \<noteq> Some oracleReference
                          then Inl [T ''campaign baseline oracle does not match campaign oracle'']
                          else if subject_policy_problem (br_SubjectPolicySHA256 request)
                          then Inl [T ''campaign subject policy hash must be a lowercase SHA-256 digest'']
                          else Inr (reference, oracleReference)))"

definition Plan_Build ::
  "(Float \<Rightarrow> int) \<Rightarrow> (OracleArtifact \<Rightarrow> message + string) \<Rightarrow> (string \<Rightarrow> string) \<Rightarrow> BuildRequest \<Rightarrow> message + Plan" where
  "Plan_Build trunc encode sha request =
     (case plan_references trunc encode sha request of
        Inl err \<Rightarrow> Inl err
      | Inr (reference, oracleReference) \<Rightarrow>
          (case collect plan_entry 0 (cat_Mutations (br_Catalogue request)) of
             Inl err \<Rightarrow> Inl err
           | Inr entries \<Rightarrow>
               let plan =
                 \<lparr>pl_Schema = PlanSchema, pl_Status = ''ready'',
                  pl_Catalogue = \<lparr>cr_Path = br_CataloguePath request, cr_ID = cat_ID (br_Catalogue request),
                    cr_Version = cat_Version (br_Catalogue request), cr_SHA256 = br_CatalogueSHA256 request\<rparr>,
                  pl_Contract = reference, pl_Oracle = oracleReference, pl_Baseline = br_Baseline request,
                  pl_OraclePolicySHA256 = oa_PolicySHA256 (br_Oracle request),
                  pl_SubjectPolicySHA256 = br_SubjectPolicySHA256 request, pl_Mutations = entries\<rparr>
               in if Plan_Validate plan \<noteq> [] then Inl (T ''invalid campaign plan: '' # join_problems (Plan_Validate plan))
                  else Inr plan))"

definition Plan_CanonicalJSON :: "(Plan \<Rightarrow> message + string) \<Rightarrow> Plan \<Rightarrow> message + string" where
  "Plan_CanonicalJSON encode plan =
     (if Plan_Validate plan \<noteq> [] then Inl (T ''invalid campaign plan: '' # join_problems (Plan_Validate plan))
      else (case encode plan of Inl err \<Rightarrow> Inl (T ''canonicalize campaign plan: '' # err) | Inr c \<Rightarrow> Inr c))"

definition SemanticHash :: "(Plan \<Rightarrow> message + string) \<Rightarrow> (string \<Rightarrow> string) \<Rightarrow> Plan \<Rightarrow> message + string" where
  "SemanticHash encode sha plan =
     (if Plan_Validate plan \<noteq> [] then Inl (T ''invalid campaign plan: '' # join_problems (Plan_Validate plan))
      else
        (case encode (plan\<lparr>pl_Baseline := (pl_Baseline plan)\<lparr>bl_RunID := []\<rparr>\<rparr>) of
           Inl err \<Rightarrow> Inl (T ''canonicalize campaign plan: '' # err)
         | Inr contents \<Rightarrow> Inr (sha contents)))"

definition Plan_LoadBytes ::
  "(string \<Rightarrow> message + Plan) \<Rightarrow> (Plan \<Rightarrow> message + string) \<Rightarrow> string \<Rightarrow> string \<Rightarrow> message + Plan" where
  "Plan_LoadBytes decode encode path contents =
     (case decode contents of
        Inl err \<Rightarrow> Inl ([T ''parse campaign plan '', T path, T '': ''] @ err)
      | Inr plan \<Rightarrow>
          if Plan_Validate plan \<noteq> [] then Inl (T ''invalid campaign plan: '' # join_problems (Plan_Validate plan))
          else
            (case Plan_CanonicalJSON encode plan of
               Inl err \<Rightarrow> Inl err
             | Inr canonical \<Rightarrow>
                 if contents \<noteq> canonical then Inl [T ''campaign plan '', T path, T '' is not canonical JSON''] else Inr plan))"

end
