(* ===== verification/SornaSealing.thy ===== *)
theory SornaSealing
  imports SornaContract
begin

text \<open>
  Sealing a contract: copying keeps the findings of the validation, attaching digests keeps a valid
  contract valid, and what is sealed is the draft with its digests.
\<close>

section \<open>Copies\<close>

text \<open>The text of a float that is a positive integer is one, and no other is.\<close>

definition float_agrees :: "Sealer \<Rightarrow> bool" where
  "float_agrees w \<longleftrightarrow>
     (\<forall>f t. sl_float w f = Some t \<longrightarrow>
        (case ParseInt t of Some n \<Rightarrow> 1 \<le> n | None \<Rightarrow> False) = (case float_int f of Some n \<Rightarrow> 1 \<le> n | None \<Rightarrow> False))"

fun ints_fit :: "Json \<Rightarrow> bool" and fields_fit :: "object \<Rightarrow> bool" and items_fit :: "Json list \<Rightarrow> bool" where
  "ints_fit (JInt n) = int64 n"
| "ints_fit (JArray xs) = items_fit xs"
| "ints_fit (JObject m) = fields_fit m"
| "ints_fit v = True"
| "fields_fit [] = True"
| "fields_fit (p # m) = (ints_fit (snd p) \<and> fields_fit m)"
| "items_fit [] = True"
| "items_fit (x # xs) = (ints_fit x \<and> items_fit xs)"

definition copies :: "Sealer \<Rightarrow> Json option \<Rightarrow> Json option \<Rightarrow> bool" where
  "copies w o' o'' \<longleftrightarrow>
     (case o' of None \<Rightarrow> o'' = None | Some v \<Rightarrow> ints_fit v \<and> (\<exists>v'. o'' = Some v' \<and> clone_value w v = Some v'))"

lemma copies_simps [simp]:
  "copies w None x \<longleftrightarrow> x = None"
  "copies w (Some v) (Some v') \<longleftrightarrow> ints_fit v \<and> clone_value w v = Some v'"
  "copies w (Some v) None \<longleftrightarrow> False"
  by (simp_all add: copies_def)

lemma clone_fields_lookup:
  "clone_fields w m = Some k \<Longrightarrow> fields_fit m \<Longrightarrow> copies w (map_of m f) (map_of k f)"
  by (induction m arbitrary: k) (auto split: option.splits)

lemma clone_fields_keys: "clone_fields w m = Some k \<Longrightarrow> map fst k = map fst m"
  by (induction m arbitrary: k) (auto split: option.splits)

lemma clone_items_all2:
  "clone_items w xs = Some ys \<Longrightarrow> items_fit xs \<Longrightarrow> list_all2 (\<lambda>x y. copies w (Some x) (Some y)) xs ys"
  by (induction xs arbitrary: ys) (auto split: option.splits)

lemma copies_cases:
  assumes "copies w v v'"
  shows "as_string v' = as_string v" "as_bool v' = as_bool v" "nonEmptyString v' = nonEmptyString v" "v' = None \<longleftrightarrow> v = None"
    "string_or_empty v' = string_or_empty v"
    "(case as_object v of None \<Rightarrow> as_object v' = None
      | Some m \<Rightarrow> fields_fit m \<and> (\<exists>k. as_object v' = Some k \<and> clone_fields w m = Some k))"
    "(case as_list v of None \<Rightarrow> as_list v' = None
      | Some xs \<Rightarrow> items_fit xs \<and> (\<exists>ys. as_list v' = Some ys \<and> clone_items w xs = Some ys))"
proof -
  show s: "as_string v' = as_string v"
    using assms by (cases v; cases "the v") (auto simp: copies_def as_string_def split: if_splits)
  then show "nonEmptyString v' = nonEmptyString v" "string_or_empty v' = string_or_empty v"
    by (simp_all add: nonEmptyString_def string_or_empty_def)
  show "as_bool v' = as_bool v"
    using assms by (cases v; cases "the v") (auto simp: copies_def as_bool_def split: if_splits)
  show "v' = None \<longleftrightarrow> v = None" using assms by (auto simp: copies_def split: option.splits)
  show "case as_object v of None \<Rightarrow> as_object v' = None
      | Some m \<Rightarrow> fields_fit m \<and> (\<exists>k. as_object v' = Some k \<and> clone_fields w m = Some k)"
    using assms by (cases v; cases "the v") (auto simp: copies_def as_object_def split: if_splits)
  show "case as_list v of None \<Rightarrow> as_list v' = None
      | Some xs \<Rightarrow> items_fit xs \<and> (\<exists>ys. as_list v' = Some ys \<and> clone_items w xs = Some ys)"
    using assms by (cases v; cases "the v") (auto simp: copies_def as_list_def split: if_splits)
qed

lemma ParseInt_zero [simp]: "ParseInt [] = None" "ParseInt ''0'' = Some 0"
  by (simp add: ParseInt_def, code_simp)

lemma copies_positive:
  assumes "copies w v v'" "float_agrees w"
  shows "positive_integer v = positive_integer v'"
  using assms unfolding float_agrees_def
  by (cases v; cases "the v") (auto simp: copies_def positive_integer_def integer_def ParseInt_dec_string split: if_splits)

section \<open>The validation of a copy\<close>

text \<open>How a finding carries over to a copy, one construct of the checks at a time.\<close>

lemma over_items_cong:
  "list_all2 R xs ys \<Longrightarrow> (\<And>i x y. R x y \<Longrightarrow> f i x = g i y) \<Longrightarrow> over_items f i xs = over_items g i ys"
  by (induction arbitrary: i rule: list_all2_induct) simp_all

lemma copy_object_case:
  assumes "copies w v v'"
    and "\<And>m k. clone_fields w m = Some k \<Longrightarrow> fields_fit m \<Longrightarrow> g m = h k"
  shows "(case as_object v of None \<Rightarrow> e | Some m \<Rightarrow> g m) = (case as_object v' of None \<Rightarrow> e | Some m \<Rightarrow> h m)"
  using copies_cases(6)[OF assms(1)] assms(2) by (cases "as_object v") auto

lemma copy_list_case:
  assumes "copies w v v'"
    and "\<And>xs ys. list_all2 (\<lambda>x y. copies w (Some x) (Some y)) xs ys \<Longrightarrow> g xs = h ys"
  shows "(case as_list v of None \<Rightarrow> e | Some xs \<Rightarrow> g xs) = (case as_list v' of None \<Rightarrow> e | Some xs \<Rightarrow> h xs)"
  using copies_cases(7)[OF assms(1)] assms(2) clone_items_all2 by (cases "as_list v") auto

lemma copy_option_case:
  assumes "copies w v v'" and "\<And>x y. copies w (Some x) (Some y) \<Longrightarrow> g x = h y"
  shows "(case v of None \<Rightarrow> e | Some x \<Rightarrow> g x) = (case v' of None \<Rightarrow> e | Some x \<Rightarrow> h x)"
  using assms by (cases v; cases v') simp_all

lemma copy_string: "copies w v v' \<Longrightarrow> f (as_string v) = f (as_string v')"
  by (simp add: copies_cases(1))

lemma copy_text: "copies w v v' \<Longrightarrow> nonEmptyString v = nonEmptyString v'"
  by (simp add: copies_cases(3))

lemma copy_missing: "copies w v v' \<Longrightarrow> (v = None) = (v' = None)"
  by (simp add: copies_cases(4))

lemma copy_empty: "list_all2 R xs ys \<Longrightarrow> (xs = []) = (ys = [])"
  by (cases xs; cases ys) simp_all

lemma append_same: "a = b \<Longrightarrow> c = d \<Longrightarrow> a @ c = b @ d"
  by simp

lemma problem_same: "(c = d) \<Longrightarrow> problem c p = problem d p"
  by simp

lemma if_same: "(c = d) \<Longrightarrow> x = y \<Longrightarrow> u = v \<Longrightarrow> (if c then x else u) = (if d then y else v)"
  by simp

lemma eq_same: "(a = b) \<Longrightarrow> (c = d) \<Longrightarrow> (a = c) = (b = d)" for a b c d :: bool
  by simp

lemma not_same: "(a = b) \<Longrightarrow> (\<not> a) = (\<not> b)"
  by simp

lemma and_same: "(a = b) \<Longrightarrow> (c = d) \<Longrightarrow> (a \<and> c) = (b \<and> d)"
  by simp

lemmas copy_rules = copy_object_case copy_list_case copy_option_case copy_text copy_missing copy_empty
  append_same problem_same if_same not_same eq_same and_same clone_fields_lookup over_items_cong refl

lemma same_event_list: "copies w (Some v) (Some v') \<Longrightarrow> validateEventList v path = validateEventList v' path"
  unfolding validateEventList_def by (intro copy_rules)

lemma same_event_spec: "copies w (Some v) (Some v') \<Longrightarrow> validateEventSpec v path = validateEventSpec v' path"
  unfolding validateEventSpec_def by (intro copy_rules same_event_list)

lemma same_provenance_field:
  "copies w (Some v) (Some v') \<Longrightarrow> provenance_field_problem path i v = provenance_field_problem path i v'"
  unfolding provenance_field_problem_def by (rule copy_string)

lemma same_provenance_spec: "copies w (Some v) (Some v') \<Longrightarrow> validateProvenanceSpec v path = validateProvenanceSpec v' path"
  unfolding validateProvenanceSpec_def by (intro copy_rules same_provenance_field)

lemma copy_flag: "copies w v v' \<Longrightarrow> (as_bool v = None) = (as_bool v' = None)"
  by (simp add: copies_cases(2))

lemma same_shapes:
  "copies w (Some v) (Some v') \<Longrightarrow> validateShapeSpec v path = validateShapeSpec v' path"
  "clone_fields w m = Some k \<Longrightarrow> fields_fit m \<Longrightarrow> shape_properties m path = shape_properties k path"
  "clone_fields w q = Some r \<Longrightarrow> fields_fit q \<Longrightarrow> property_shapes q path = property_shapes r path"
proof (induction v path and m path and q path arbitrary: v' and k and r
    rule: validateShapeSpec_shape_properties_property_shapes.induct)
  case (1 spec path)
  from "1.prems" obtain k where k: "v' = JObject k" "clone_fields w spec = Some k" "fields_fit spec" by auto
  show ?case
    unfolding k(1) validateShapeSpec.simps
    using k(2,3) "1.IH"[OF k(2,3)]
    by (intro copy_rules copy_flag)
next
  case (4 p spec path)
  from "4.prems" obtain v k' where k: "clone_value w (snd p) = Some v" "clone_fields w spec = Some k'"
    "k = (fst p, v) # k'" by (auto split: option.splits)
  show ?case
  proof (cases "fst p = ''properties''")
    case True
    have "(case snd p of JObject properties \<Rightarrow> property_shapes properties path | _ \<Rightarrow> []) =
        (case v of JObject properties \<Rightarrow> property_shapes properties path | _ \<Rightarrow> [])"
      using "4.IH"(1)[OF True] k(1) "4.prems"(2) by (cases "snd p") (auto split: if_splits Json.split)
    then show ?thesis using True k(3) by simp
  next
    case False
    then show ?thesis using "4.IH"(2)[OF False k(2)] "4.prems"(2) k(3) by simp
  qed
next
  case (6 p properties path)
  from "6.prems" obtain v k' where k: "clone_value w (snd p) = Some v" "clone_fields w properties = Some k'"
    "r = (fst p, v) # k'" by (auto split: option.splits)
  then show ?case using "6.IH"(1)[of v] "6.IH"(2)[OF k(2)] "6.prems"(2) by simp
qed (auto split: if_splits)

lemma same_expectation: "copies w (Some v) (Some v') \<Longrightarrow> validateExpectationShape v path = validateExpectationShape v' path"
  unfolding validateExpectationShape_def by (intro copy_rules same_shapes(1) same_event_spec same_provenance_spec)

lemma same_negative:
  "copies w (Some v) (Some v') \<Longrightarrow> validateNegativeSetupExpectations v path = validateNegativeSetupExpectations v' path"
  unfolding validateNegativeSetupExpectations_def by (intro copy_rules same_expectation)

lemma same_request: "copies w v v' \<Longrightarrow> request_problems path v = request_problems path v'"
  unfolding request_problems_def by (intro copy_rules copy_string)

lemma same_captures:
  "clone_fields w m = Some k \<Longrightarrow> fields_fit m \<Longrightarrow>
     concat (map (capture_problem path) m) = concat (map (capture_problem path) k)"
proof (induction m arbitrary: k)
  case (Cons p m)
  from Cons.prems obtain v k' where k: "clone_value w (snd p) = Some v" "clone_fields w m = Some k'" "k = (fst p, v) # k'"
    by (auto split: option.splits)
  then have c: "copies w (Some (snd p)) (Some v)" using Cons.prems by simp
  have "capture_problem path p = capture_problem path (fst p, v)"
    unfolding capture_problem_def by (simp add: copies_cases(1)[OF c])
  then show ?case using Cons.IH[OF k(2)] Cons.prems k(3) by simp
qed simp

lemma same_step:
  "clone_fields w m = Some k \<Longrightarrow> fields_fit m \<Longrightarrow> step_problems path m = step_problems path k"
  unfolding step_problems_def by (intro copy_rules same_request same_expectation same_negative same_captures)

lemma same_ids:
  "copies w v v' \<Longrightarrow> id_problems path seen v = id_problems path seen v'" "copies w v v' \<Longrightarrow> add_id seen v = add_id seen v'"
  by (simp_all add: id_problems_def add_id_def copies_cases(1))

lemma same_steps:
  "list_all2 (\<lambda>x y. copies w (Some x) (Some y)) xs ys \<Longrightarrow> steps_problems path i seen xs = steps_problems path i seen ys"
proof (induction arbitrary: i seen rule: list_all2_induct)
  case (Cons x xs y ys)
  note c = Cons.hyps(1)
  show ?case
  proof (cases "as_object (Some x)")
    case None
    then show ?thesis using copies_cases(6)[OF c] Cons.IH by simp
  next
    case (Some m)
    with copies_cases(6)[OF c] obtain k where k: "as_object (Some y) = Some k" "clone_fields w m = Some k" "fields_fit m" by auto
    note l = clone_fields_lookup[OF k(2,3), of "''id''"]
    show ?thesis
      using Some k(1) same_ids[OF l] same_step[OF k(2,3)] Cons.IH by simp
  qed
qed simp

lemma same_setup: "copies w (Some v) (Some v') \<Longrightarrow> validateSetup v path = validateSetup v' path"
  unfolding validateSetup_def by (intro copy_rules same_steps)

lemma copy_constant: "copies w v v' \<Longrightarrow> (as_string v \<noteq> Some c) = (as_string v' \<noteq> Some c)"
  by (simp add: copies_cases(1))

lemma same_isolation: "copies w (Some v) (Some v') \<Longrightarrow> validateIsolationSpec v path = validateIsolationSpec v' path"
  unfolding validateIsolationSpec_def by (intro copy_rules copy_constant copy_string)

lemma same_generator:
  assumes "float_agrees w" "clone_fields w m = Some k" "fields_fit m"
  shows "generator_problems path m = generator_problems path k"
  unfolding generator_problems_def using assms by (intro copy_rules copy_constant copies_positive)

lemma same_generated:
  assumes "float_agrees w"
  shows "copies w (Some v) (Some v') \<Longrightarrow> validateGeneratedValues v path = validateGeneratedValues v' path"
    "clone_fields w m = Some k \<Longrightarrow> fields_fit m \<Longrightarrow> generated_fields m path = generated_fields k path"
    "clone_items w xs = Some ys \<Longrightarrow> items_fit xs \<Longrightarrow> generated_items xs path i = generated_items ys path i"
proof (induction v path and m path and xs path i arbitrary: v' and k and ys
    rule: validateGeneratedValues_generated_fields_generated_items.induct)
  case (1 m path)
  from "1.prems" obtain k where k: "v' = JObject k" "clone_fields w m = Some k" "fields_fit m" by auto
  then show ?case using same_generator[OF assms k(2,3)] "1.IH"[OF k(2,3)] by simp
next
  case (5 p m path)
  from "5.prems" obtain v k' where k: "clone_value w (snd p) = Some v" "clone_fields w m = Some k'" "k = (fst p, v) # k'"
    by (auto split: option.splits)
  then show ?case using "5.IH"(1)[of v] "5.IH"(2)[OF k(2)] "5.prems"(2) by simp
next
  case (7 x xs path i)
  from "7.prems" obtain v k' where k: "clone_value w x = Some v" "clone_items w xs = Some k'" "ys = v # k'"
    by (auto split: option.splits)
  then show ?case using "7.IH"(1)[of v] "7.IH"(2)[OF k(2)] "7.prems"(2) by simp
qed (auto split: if_splits)

lemma same_given: "copies w (Some v) (Some v') \<Longrightarrow> given_problems path v = given_problems path v'"
  unfolding given_problems_def by (intro copy_rules same_setup same_isolation)

lemma same_rule_body:
  assumes "float_agrees w" "clone_fields w m = Some k" "fields_fit m"
  shows "rule_body_problems path m = rule_body_problems path k"
proof -
  have "copies w (Some (JObject m)) (Some (JObject k))" using assms(2,3) by simp
  then show ?thesis
    unfolding rule_body_problems_def string_or_empty_def
    using assms by (intro copy_rules same_given same_expectation same_generated(1) copy_string)
qed

lemma same_rules:
  assumes "float_agrees w"
  shows "list_all2 (\<lambda>x y. copies w (Some x) (Some y)) xs ys \<Longrightarrow> rules_problems i seen xs = rules_problems i seen ys"
proof (induction arbitrary: i seen rule: list_all2_induct)
  case (Cons x xs y ys)
  note c = Cons.hyps(1)
  show ?case
  proof (cases "as_object (Some x)")
    case None
    then show ?thesis using copies_cases(6)[OF c] Cons.IH by simp
  next
    case (Some m)
    with copies_cases(6)[OF c] obtain k where k: "as_object (Some y) = Some k" "clone_fields w m = Some k" "fields_fit m" by auto
    note l = clone_fields_lookup[OF k(2,3), of "''id''"]
    show ?thesis
      using Some k(1) same_ids[OF l] same_rule_body[OF assms k(2,3)] Cons.IH by simp
  qed
qed simp

lemma same_fixture: "copies w (Some v) (Some v') \<Longrightarrow> fixture_problems i v = fixture_problems i v'"
  unfolding fixture_problems_def Let_def
  by (intro copy_rules copy_string)

lemma same_header:
  assumes "float_agrees w" "clone_fields w m = Some k" "fields_fit m"
  shows "contract_header_problems m = contract_header_problems k"
  unfolding contract_header_problems_def
  using assms by (intro copy_rules copy_constant copies_positive copy_string)

lemma same_fixtures:
  "list_all2 (\<lambda>x y. copies w (Some x) (Some y)) xs ys \<Longrightarrow> over_items fixture_problems i xs = over_items fixture_problems i ys"
  by (erule over_items_cong) (rule same_fixture)

lemma same_validation:
  assumes "float_agrees w" "clone_fields w body = Some copy" "fields_fit body"
  shows "Contract_Validate body = Contract_Validate copy"
proof -
  have "(map_of body f = None) = (map_of copy f = None)" for f
    using copy_missing[OF clone_fields_lookup[OF assms(2,3)]] .
  then have "concat (map (\<lambda>f. problem (map_of body f = None) [T ''contract.'', T f, T '' is required'']) required_fields) =
      concat (map (\<lambda>f. problem (map_of copy f = None) [T ''contract.'', T f, T '' is required'']) required_fields)"
    by simp
  then show ?thesis
    unfolding Contract_Validate_def using assms
    by (intro append_same same_header copy_option_case copy_list_case same_rules same_fixtures clone_fields_lookup)
qed

section \<open>Attaching digests\<close>

lemma attach_all_ok:
  "attach_all w reader i vs = ([], vs') \<Longrightarrow> list_all2 (\<lambda>v v'. \<exists>j. attach_one w reader j v = ([], v')) vs vs'"
proof (induction vs arbitrary: i vs')
  case (Cons v vs)
  obtain ps v' where v: "attach_one w reader i v = (ps, v')" by fastforce
  obtain qs us where us: "attach_all w reader (Suc i) vs = (qs, us)" by fastforce
  from Cons.prems v us have "ps = []" "qs = []" "vs' = v' # us" by auto
  with v Cons.IH[of "Suc i" us] us show ?case by auto
qed simp

definition fixture_sealed :: "Sealer \<Rightarrow> (string \<Rightarrow> message + string) option \<Rightarrow> Json \<Rightarrow> bool" where
  "fixture_sealed w reader v \<longleftrightarrow>
     (\<exists>fixture d. v = JObject fixture \<and> as_string (map_of fixture ''sha256'') = Some d \<and>
        (\<forall>read p. reader = Some read \<longrightarrow> as_string (map_of fixture ''path'') = Some p \<longrightarrow>
           (\<exists>c. read p = Inr c \<and> sl_sha w c = d)))"

lemma attach_one_ok:
  assumes a: "attach_one w reader j v = ([], v')" and p: "fixture_problems i v = []"
    and sha: "\<And>x. valid_sha256 (sl_sha w x)"
  shows "fixture_problems i v' = [] \<and> fixture_sealed w reader v'"
proof -
  from p obtain fixture where f: "v = JObject fixture"
    by (cases "as_object (Some v)") (auto simp: fixture_problems_def Let_def as_Some)
  show ?thesis
  proof (cases "as_string (map_of fixture ''sha256'')")
    case None
    with a f obtain read path contents where r: "reader = Some read" "as_string (map_of fixture ''path'') = Some path"
      "read path = Inr contents" "v' = JObject (map_set ''sha256'' (JString (sl_sha w contents)) fixture)"
      by (auto simp: attach_one_def Let_def split: option.splits sum.splits if_splits)
    then show ?thesis
      using p f sha[of contents] by (simp add: fixture_sealed_def fixture_problems_def Let_def)
  next
    case (Some d)
    with a f have "v' = v"
      "\<forall>read path. reader = Some read \<longrightarrow> as_string (map_of fixture ''path'') = Some path \<longrightarrow>
         (\<exists>c. read path = Inr c \<and> sl_sha w c = d)"
      by (auto simp: attach_one_def Let_def split: option.splits sum.splits)
    then show ?thesis using p f Some by (auto simp: fixture_sealed_def)
  qed
qed

lemma attach_fixtures_ok:
  assumes a: "attach_all w reader 0 vs = ([], vs')" and p: "over_items fixture_problems 0 vs = []"
    and sha: "\<And>x. valid_sha256 (sl_sha w x)"
  shows "over_items fixture_problems 0 vs' = [] \<and> (\<forall>v \<in> set vs'. fixture_sealed w reader v)"
proof -
  note l = attach_all_ok[OF a]
  have len: "length vs' = length vs" using l by (simp add: list_all2_lengthD)
  have "fixture_problems n (vs' ! n) = [] \<and> fixture_sealed w reader (vs' ! n)" if n: "n < length vs'" for n
  proof -
    obtain j where "attach_one w reader j (vs ! n) = ([], vs' ! n)" using list_all2_nthD2[OF l n] by blast
    moreover have "fixture_problems n (vs ! n) = []" using p n len by (simp add: over_items_Nil)
    ultimately show ?thesis using attach_one_ok sha by blast
  qed
  then show ?thesis by (auto simp: over_items_Nil in_set_conv_nth)
qed

definition fixtures_of :: "object \<Rightarrow> Json list" where
  "fixtures_of body = (case as_list (map_of body ''fixtures'') of Some vs \<Rightarrow> vs | None \<Rightarrow> [])"

lemma validate_seal:
  "Contract_Validate body = [] \<Longrightarrow> Contract_Validate (map_set ''status'' (JString ''sealed'') body) = []"
  by (auto simp: Contract_Validate_def contract_header_problems_def required_fields_def)

lemma attach_hashes_ok:
  assumes a: "attachFixtureHashes w reader body = Inr doc" and p: "Contract_Validate body = []"
    and sha: "\<And>x. valid_sha256 (sl_sha w x)"
  shows "Contract_Validate doc = [] \<and> (\<forall>v \<in> set (fixtures_of doc). fixture_sealed w reader v) \<and>
    (\<forall>f. f \<noteq> ''fixtures'' \<longrightarrow> map_of doc f = map_of body f)"
proof (cases "map_of body ''fixtures''")
  case None
  then show ?thesis using a p by (simp add: attachFixtureHashes_def fixtures_of_def)
next
  case (Some x)
  with a obtain vs vs' where v: "as_list (Some x) = Some vs" "attach_all w reader 0 vs = ([], vs')"
    "doc = map_set ''fixtures'' (JArray vs') body"
    by (auto simp: attachFixtureHashes_def split: option.splits prod.splits if_splits)
  have "over_items fixture_problems 0 vs = []" using p Some v(1) by (simp add: Contract_Validate_def)
  from attach_fixtures_ok[OF v(2) this sha] show ?thesis
    using p unfolding v(3) by (auto simp: Contract_Validate_def contract_header_problems_def required_fields_def fixtures_of_def)
qed

lemma draft_not_sealed: "string_or_empty (Some (JString ''sealed'')) \<noteq> ''draft''"
  by (simp add: string_or_empty_def)

lemma draft_iff: "string_or_empty v = ''draft'' \<longleftrightarrow> as_string v = Some ''draft''"
  by (auto simp: string_or_empty_def split: option.split)

section \<open>Sealing\<close>

lemma seal_steps:
  "seal w reader body = Inr s \<longleftrightarrow>
     Contract_Validate body = [] \<and> as_string (map_of body ''status'') = Some ''draft'' \<and>
     (\<exists>copy doc c. clone_fields w body = Some copy \<and>
        attachFixtureHashes w reader (map_set ''status'' (JString ''sealed'') copy) = Inr doc \<and>
        Contract_Validate doc = [] \<and> sl_encode w doc = Inr c \<and>
        s = \<lparr>sd_Document = doc, sd_CanonicalJSON = c, sd_SHA256 = sl_sha w c\<rparr>)"
  by (auto simp: seal_def Let_def draft_iff Contract_CanonicalJSON_def split: option.splits sum.splits if_splits)

lemma sealed_document:
  assumes sha: "\<And>x. valid_sha256 (sl_sha w x)" and agrees: "float_agrees w" and fit: "fields_fit body"
    and valid: "Contract_Validate body = []" and copy: "clone_fields w body = Some copy"
    and doc: "attachFixtureHashes w reader (map_set ''status'' (JString ''sealed'') copy) = Inr doc"
  shows "Contract_Validate doc = [] \<and> (\<forall>v \<in> set (fixtures_of doc). fixture_sealed w reader v) \<and>
    as_string (map_of doc ''status'') = Some ''sealed'' \<and>
    (\<forall>f. f \<noteq> ''status'' \<and> f \<noteq> ''fixtures'' \<longrightarrow> copies w (map_of body f) (map_of doc f))"
proof -
  have "Contract_Validate (map_set ''status'' (JString ''sealed'') copy) = []"
    using validate_seal valid same_validation[OF agrees copy fit] by simp
  from attach_hashes_ok[OF doc this sha] show ?thesis using clone_fields_lookup[OF copy fit] by simp
qed

lemma sealed_again: "as_string (map_of d ''status'') = Some ''sealed'' \<Longrightarrow> \<exists>e. seal w reader d = Inl e"
  using seal_steps[of w reader d] by (cases "seal w reader d") auto

text \<open>C33. A contract is sealed exactly when it is a valid draft whose values have a JSON text, whose fixtures
  can be read with the digests they declare, and which can be encoded: the validation after the digests
  are attached never fails.  What is sealed is the draft with its status, its fixtures and nothing else
  changed; every fixture has a digest, that of its contents where it was read; and it is not sealed again.\<close>

theorem seal_exact:
  assumes sha: "\<And>x. valid_sha256 (sl_sha w x)" and agrees: "float_agrees w" and fit: "fields_fit body"
  shows "((\<exists>s. seal w reader body = Inr s) \<longleftrightarrow>
      Contract_Validate body = [] \<and> as_string (map_of body ''status'') = Some ''draft'' \<and>
      (\<exists>copy doc c. clone_fields w body = Some copy \<and>
         attachFixtureHashes w reader (map_set ''status'' (JString ''sealed'') copy) = Inr doc \<and>
         sl_encode w doc = Inr c)) \<and>
    (\<forall>s. seal w reader body = Inr s \<longrightarrow>
      Contract_Validate (sd_Document s) = [] \<and>
      as_string (map_of (sd_Document s) ''status'') = Some ''sealed'' \<and>
      sl_encode w (sd_Document s) = Inr (sd_CanonicalJSON s) \<and> sd_SHA256 s = sl_sha w (sd_CanonicalJSON s) \<and>
      (\<forall>v \<in> set (fixtures_of (sd_Document s)). fixture_sealed w reader v) \<and>
      (\<forall>f. f \<noteq> ''status'' \<and> f \<noteq> ''fixtures'' \<longrightarrow> copies w (map_of body f) (map_of (sd_Document s) f)) \<and>
      (\<forall>reader'. \<exists>e. seal w reader' (sd_Document s) = Inl e))"
proof -
  note attached = sealed_document[OF sha agrees fit] and again = sealed_again
  show ?thesis
  proof (intro conjI allI impI)
    show "(\<exists>s. seal w reader body = Inr s) \<longleftrightarrow>
      Contract_Validate body = [] \<and> as_string (map_of body ''status'') = Some ''draft'' \<and>
      (\<exists>copy doc c. clone_fields w body = Some copy \<and>
         attachFixtureHashes w reader (map_set ''status'' (JString ''sealed'') copy) = Inr doc \<and>
         sl_encode w doc = Inr c)"
      unfolding seal_steps using attached by blast
  next
    fix s assume "seal w reader body = Inr s"
    then obtain copy doc c where valid: "Contract_Validate body = []" and copy: "clone_fields w body = Some copy"
      and doc: "attachFixtureHashes w reader (map_set ''status'' (JString ''sealed'') copy) = Inr doc"
      and c: "sl_encode w doc = Inr c" and s: "s = \<lparr>sd_Document = doc, sd_CanonicalJSON = c, sd_SHA256 = sl_sha w c\<rparr>"
      unfolding seal_steps by blast
    note a = attached[OF valid copy doc]
    show "Contract_Validate (sd_Document s) = []" "as_string (map_of (sd_Document s) ''status'') = Some ''sealed''"
      "sl_encode w (sd_Document s) = Inr (sd_CanonicalJSON s)" "sd_SHA256 s = sl_sha w (sd_CanonicalJSON s)"
      "\<forall>v \<in> set (fixtures_of (sd_Document s)). fixture_sealed w reader v"
      using a c s by simp_all
    show "copies w (map_of body f) (map_of (sd_Document s) f)" if "f \<noteq> ''status'' \<and> f \<noteq> ''fixtures''" for f
      using a that s by simp
    show "\<exists>e. seal w reader' (sd_Document s) = Inl e" for reader' using again a s by simp
  qed
qed


definition draft_contract :: "string \<Rightarrow> object" where
  "draft_contract status =
     [(''schema'', JString ContractSchema), (''id'', JString ''users''), (''version'', JInt 3),
      (''status'', JString status), (''interface'', JObject [(''kind'', JString ''http'')]),
      (''rules'', JArray []), (''unspecified'', JArray []),
      (''fixtures'', JArray [JObject [(''path'', JString ''users.json''), (''purpose'', JString ''seed'')]])]"

definition sample_sealer :: Sealer where
  "sample_sealer =
     \<lparr>sl_float = (\<lambda>f. None), sl_number = (\<lambda>s. s = ''3''), sl_encode = (\<lambda>m. Inr ''{}''), sl_sha = (\<lambda>s. replicate 64 CHR ''a'')\<rparr>"

lemma seal_exact_witness:
  "\<exists>s. seal sample_sealer (Some (\<lambda>p. Inr ''[]'')) (draft_contract ''draft'') = Inr s \<and>
    Contract_Validate (sd_Document s) = [] \<and> fixtures_of (sd_Document s) \<noteq> [] \<and>
    (\<exists>e. seal sample_sealer None (sd_Document s) = Inl e)"
proof -
  have "valid_sha256 (replicate 64 CHR ''a'')" by code_simp
  then have sha: "valid_sha256 (sl_sha sample_sealer x)" for x by (simp add: sample_sealer_def)
  have agrees: "float_agrees sample_sealer" by (simp add: sample_sealer_def float_agrees_def)
  have fit: "fields_fit (draft_contract ''draft'')" by code_simp
  note t = seal_exact[OF sha agrees fit, of "Some (\<lambda>p. Inr ''[]'')", THEN conjunct2, rule_format]
  have "case seal sample_sealer (Some (\<lambda>p. Inr ''[]'')) (draft_contract ''draft'') of
      Inl e \<Rightarrow> False | Inr s \<Rightarrow> fixtures_of (sd_Document s) \<noteq> []" by code_simp
  then obtain s where s: "seal sample_sealer (Some (\<lambda>p. Inr ''[]'')) (draft_contract ''draft'') = Inr s"
    "fixtures_of (sd_Document s) \<noteq> []" by (auto split: sum.splits)
  note r = t[OF s(1)]
  show ?thesis
    by (intro exI[of _ s] conjI s r[THEN conjunct1]
        r[THEN conjunct2, THEN conjunct2, THEN conjunct2, THEN conjunct2, THEN conjunct2, THEN conjunct2, THEN spec])
qed

end
