(* ===== verification/SornaProps.thy ===== *)
theory SornaProps
  imports SornaRun SornaSealing
begin

text \<open>
  What a Sorna run establishes: each rule that passed rests on an observation that conforms to its
  expectation, and the verdict, the counts and the classification of a mutation follow from the rules.
\<close>

section \<open>The evaluation\<close>

text \<open>C36. An expectation that passed the validation of a contract can be evaluated exactly when the observed body
  is JSON, the ordered events name no event twice, and the body and error expectations are objects.  The
  assertions then all pass exactly when the observation conforms: equal status, the required events emitted or
  the ordered ones a subsequence of those emitted, an execution identifier exposed, and the body and error of
  the shapes asked for, nested ones included.\<close>

theorem evaluation_is_conformance:
  assumes "validateExpectationShape (JObject expect) path = []"
  shows "((\<exists>as. evaluate fmt decode expect observation = Inr as) \<longleftrightarrow> evaluable decode expect observation) \<and>
    (\<forall>as actual. evaluate fmt decode expect observation = Inr as \<longrightarrow> decode (ob_Body observation) = Inr actual \<longrightarrow>
       (all_pass as \<longleftrightarrow> conforms fmt actual expect observation))"
proof (cases "decode (ob_Body observation)")
  case (Inl e)
  then show ?thesis by (simp add: evaluate_def decodeBody_def evaluable_def)
next
  case (Inr actual)
  from evaluate_decides[of expect path decode observation actual fmt, OF assms Inr] Inr show ?thesis
    by (simp add: decides_def)
qed

definition sample_expectation :: object where
  "sample_expectation =
     [(''status'', JNumber ''201''),
      (''events'', JObject [(''ordered'', JArray [JString ''created'', JString ''indexed''])]),
      (''body'', JObject [(''required'', JArray [JString ''id'']),
         (''properties'', JObject [(''id'', JObject [(''type'', JString ''integer'')])])])]"

definition sample_observation :: "string list \<Rightarrow> Observation" where
  "sample_observation events =
     \<lparr>ob_Status = 201, ob_Events = events, ob_Body = ''{}'', ob_BodyText = [], ob_Provenance = None\<rparr>"

definition sample_json :: "string \<Rightarrow> message + Json" where
  "sample_json raw = Inr (JObject [(''id'', JNumber ''7''), (''extra'', JNull)])"

lemma evaluation_is_conformance_witness:
  "(\<exists>as. evaluate (\<lambda>f. []) sample_json sample_expectation (sample_observation [''created'', ''audited'', ''indexed'']) = Inr as \<and>
      all_pass as) \<and>
   subseq [''created'', ''indexed''] [''created'', ''audited'', ''indexed'']"
proof -
  let ?o = "sample_observation [''created'', ''audited'', ''indexed'']"
  have v: "validateExpectationShape (JObject sample_expectation) ''expect'' = []" by code_simp
  note t = evaluation_is_conformance[OF v, of "\<lambda>f. []" sample_json ?o]
  have e: "evaluable sample_json sample_expectation ?o"
    by (simp add: evaluable_def sample_expectation_def sample_json_def is_object_iff event_names_def string_or_empty_def)
      code_simp
  then obtain as where as: "evaluate (\<lambda>f. []) sample_json sample_expectation ?o = Inr as" using t by blast
  have d: "sample_json (ob_Body ?o) = Inr (JObject [(''id'', JNumber ''7''), (''extra'', JNull)])"
    by (simp add: sample_json_def)
  have "case evaluate (\<lambda>f. []) sample_json sample_expectation ?o of Inl e \<Rightarrow> False | Inr as \<Rightarrow> all_pass as" by code_simp
  then have p: "all_pass as" unfolding as by simp
  with t as d have "conforms (\<lambda>f. []) (JObject [(''id'', JNumber ''7''), (''extra'', JNull)]) sample_expectation ?o" by blast
  show ?thesis by (intro conjI exI[of _ as] as p) simp
qed

section \<open>Runs\<close>

definition rule_done :: "'s Runtime \<Rightarrow> Case \<Rightarrow> RuleResult \<Rightarrow> bool" where
  "rule_done ev testCase r \<longleftrightarrow>
     rl_RuleID r = oc_RuleID testCase \<and> rl_CaseID r = oc_CaseID testCase \<and> rl_Subject r = oc_Subject testCase \<and>
     rl_Status r \<in> {''pass'', ''fail'', ''error'', ''inconclusive''} \<and> (rl_Status r = ''pass'' \<longrightarrow> rule_backed ev testCase r)"

lemma cases_done:
  "cases_loop ev base cs acc s = ((rules, summary), s') \<Longrightarrow>
     \<exists>rs. rules = fst acc @ rs \<and> list_all2 (rule_done ev) cs rs \<and> summary = fold count_result (map rl_Status rs) (snd acc)"
proof (induction ev base cs acc s rule: cases_loop.induct)
  case (2 ev base testCase rest acc s)
  obtain r t where r: "executeCase ev base testCase s = (r, t)" by fastforce
  with "2.prems" "2.IH"[OF r[symmetric]] obtain rs where rs: "rules = (fst acc @ [r]) @ rs" "list_all2 (rule_done ev) rest rs"
    "summary = fold count_result (map rl_Status rs) (count_result (rl_Status r) (snd acc))" by auto
  have "rule_done ev testCase r" using executed_case[OF r] by (simp add: rule_done_def)
  with rs show ?case by (intro exI[of _ "r # rs"]) simp
qed simp

definition results_with :: "string \<Rightarrow> RuleResult list \<Rightarrow> nat" where
  "results_with status rules = length (filter (\<lambda>r. rl_Status r = status) rules)"

lemma counts_add_up:
  "fold count_result (map rl_Status rs) summary =
     \<lparr>su_Passed = su_Passed summary + results_with ''pass'' rs, su_Failed = su_Failed summary + results_with ''fail'' rs,
      su_Errors = su_Errors summary + results_with ''error'' rs, su_Inconclusive = su_Inconclusive summary + results_with ''inconclusive'' rs,
      su_Skipped = su_Skipped summary + results_with ''skipped'' rs\<rparr>"
proof (induction rs arbitrary: summary)
  case (Cons r rs)
  then show ?case by (simp add: count_result_def results_with_def)
qed (simp add: results_with_def)

lemma results_with_pos: "0 < results_with status rules \<longleftrightarrow> (\<exists>r \<in> set rules. rl_Status r = status)"
  by (induction rules) (simp_all add: results_with_def)

definition worst_status :: "RuleResult list \<Rightarrow> string" where
  "worst_status rules =
     (if \<exists>r \<in> set rules. rl_Status r = ''error'' then ''error''
      else if \<exists>r \<in> set rules. rl_Status r = ''fail'' then ''fail''
      else if \<exists>r \<in> set rules. rl_Status r = ''inconclusive'' then ''inconclusive'' else ''pass'')"

lemma done_status: "list_all2 (rule_done ev) cs rs \<Longrightarrow> r \<in> set rs \<Longrightarrow> rl_Status r \<in> {''pass'', ''fail'', ''error'', ''inconclusive''}"
proof -
  assume d: "list_all2 (rule_done ev) cs rs" and "r \<in> set rs"
  then obtain i where "i < length rs" "r = rs ! i" by (auto simp: in_set_conv_nth)
  with list_all2_nthD2[OF d] show ?thesis by (auto simp: rule_done_def)
qed

lemma executed_run:
  assumes "executeCases ev reference cases config oracle s = (Inr r, s')"
  shows "rn_Contract r = reference \<and> rn_Oracle r = oracle \<and> rn_Baseline r = None \<and> rn_Schema r = SornaRunSchema \<and>
    rn_CreatedAt r = cf_Now config \<and> list_all2 (rule_done ev) cases (rn_Rules r) \<and>
    rn_Summary r = \<lparr>su_Passed = results_with ''pass'' (rn_Rules r), su_Failed = results_with ''fail'' (rn_Rules r),
      su_Errors = results_with ''error'' (rn_Rules r), su_Inconclusive = results_with ''inconclusive'' (rn_Rules r), su_Skipped = 0\<rparr> \<and>
    vd_Status (rn_Verdict r) = worst_status (rn_Rules r) \<and>
    rn_Mutation r = map_option (\<lambda>m. Classify_mutation m
      (map (\<lambda>x. \<lparr>ru_RuleID = rl_RuleID x, ru_Status = rl_Status x\<rparr>) (rn_Rules r))) (cf_Mutation config)"
proof -
  let ?z = "\<lparr>su_Passed = 0, su_Failed = 0, su_Errors = 0, su_Inconclusive = 0, su_Skipped = 0\<rparr>"
  from assms obtain base where base: "parseBaseURL ev (cf_BaseURL config) = Inr base"
    by (auto simp: executeCases_def split: sum.splits)
  obtain rules summary t where l: "cases_loop ev base cases ([], ?z) s = ((rules, summary), t)" by (metis prod.exhaust)
  from cases_done[OF l] have d: "list_all2 (rule_done ev) cases rules" "summary = fold count_result (map rl_Status rules) ?z"
    by auto
  have "results_with ''skipped'' rules = 0"
    using done_status[OF d(1)] results_with_pos[of "''skipped''" rules] by fastforce
  with d(2) have s: "summary = \<lparr>su_Passed = results_with ''pass'' rules, su_Failed = results_with ''fail'' rules,
      su_Errors = results_with ''error'' rules, su_Inconclusive = results_with ''inconclusive'' rules, su_Skipped = 0\<rparr>"
    by (simp add: counts_add_up)
  have v: "vd_Status (verdictFor summary) = worst_status rules"
    unfolding s verdictFor_def worst_status_def results_with_pos[symmetric] by simp
  from assms base l have r: "rn_Contract r = reference" "rn_Oracle r = oracle" "rn_Baseline r = None" "rn_Schema r = SornaRunSchema"
    "rn_CreatedAt r = cf_Now config" "rn_Rules r = rules" "rn_Summary r = summary" "rn_Verdict r = verdictFor summary"
    "rn_Mutation r = map_option (\<lambda>m. Classify_mutation m
      (map (\<lambda>x. \<lparr>ru_RuleID = rl_RuleID x, ru_Status = rl_Status x\<rparr>) rules)) (cf_Mutation config)"
    by (auto simp: executeCases_def)
  show ?thesis using r d(1) s v by simp
qed

lemma oracle_run:
  "ExecuteOracle ev encode artifact config s = (Inr r, s') \<Longrightarrow>
     Oracle_Validate artifact = [] \<and>
     (\<exists>h. Oracle_Hash encode (ev_sha ev) artifact = Inr h \<and>
        executeCases ev (oa_Contract artifact) (oa_Cases artifact) config
          (Some \<lparr>or_Schema = oa_Schema artifact, or_SHA256 = h\<rparr>) s = (Inr r, s'))"
  by (auto simp: ExecuteOracle_def split: if_splits sum.splits)

lemma worst_pass:
  "list_all2 (rule_done ev) cs rs \<Longrightarrow> worst_status rs = ''pass'' \<longleftrightarrow> (\<forall>r \<in> set rs. rl_Status r = ''pass'')"
proof -
  assume d: "list_all2 (rule_done ev) cs rs"
  show ?thesis
  proof (cases "\<forall>r \<in> set rs. rl_Status r = ''pass''")
    case True
    then show ?thesis by (auto simp: worst_status_def)
  next
    case False
    then obtain r where r: "r \<in> set rs" "rl_Status r \<noteq> ''pass''" by blast
    with done_status[OF d r(1)] have "rl_Status r \<in> {''fail'', ''error'', ''inconclusive''}" by simp
    with r(1) have "worst_status rs \<noteq> ''pass''" unfolding worst_status_def by (simp only: insert_iff empty_iff) (elim disjE; simp; blast?)
    with False show ?thesis by blast
  qed
qed

lemma killed_failed:
  "mr_Outcome (Classify_mutation m (map (\<lambda>x. \<lparr>ru_RuleID = rl_RuleID x, ru_Status = rl_Status x\<rparr>) rules)) = ''killed'' \<Longrightarrow>
     \<exists>r \<in> set rules. rl_RuleID r \<in> set (sp_ExpectedRuleIDs m) \<and> rl_Status r = ''fail''"
proof -
  assume "mr_Outcome (Classify_mutation m (map (\<lambda>x. \<lparr>ru_RuleID = rl_RuleID x, ru_Status = rl_Status x\<rparr>) rules)) = ''killed''"
  with classification_record[of m "map (\<lambda>x. \<lparr>ru_RuleID = rl_RuleID x, ru_Status = rl_Status x\<rparr>) rules"]
  obtain i where i: "i \<in> set (sp_ExpectedRuleIDs m)"
    "last_status (map (\<lambda>x. \<lparr>ru_RuleID = rl_RuleID x, ru_Status = rl_Status x\<rparr>) rules) i = Some ''fail''"
    by (auto split: if_splits)
  from map_of_SomeD[OF i(2)[unfolded last_status_def]] i(1) show ?thesis by auto
qed

text \<open>C37. A run of an oracle has one result for each case, in order, and its counts are those of the results.
  Its verdict is the worst of them: \<open>pass\<close> exactly when every rule passed.  A rule that passed was reset
  successfully when it asks for it, had every setup step pass on a response that met its expectations and
  matched none it must not, and its own response was evaluated without an assertion that failed, or, for a
  prohibition, with one.  A mutation that the run kills made a rule it names fail.\<close>

theorem run_verdict_exact:
  assumes "ExecuteOracle ev encode artifact config s = (Inr r, s')"
  shows "list_all2 (\<lambda>c x. rl_RuleID x = oc_RuleID c \<and> rl_CaseID x = oc_CaseID c \<and>
        (rl_Status x = ''pass'' \<longrightarrow> rule_backed ev c x)) (oa_Cases artifact) (rn_Rules r) \<and>
    rn_Summary r = \<lparr>su_Passed = results_with ''pass'' (rn_Rules r), su_Failed = results_with ''fail'' (rn_Rules r),
      su_Errors = results_with ''error'' (rn_Rules r), su_Inconclusive = results_with ''inconclusive'' (rn_Rules r), su_Skipped = 0\<rparr> \<and>
    vd_Status (rn_Verdict r) = worst_status (rn_Rules r) \<and>
    (vd_Status (rn_Verdict r) = ''pass'' \<longleftrightarrow> (\<forall>x \<in> set (rn_Rules r). rl_Status x = ''pass'')) \<and>
    (\<forall>m x. cf_Mutation config = Some m \<longrightarrow> rn_Mutation r = Some x \<longrightarrow> mr_Outcome x = ''killed'' \<longrightarrow>
       (\<exists>q \<in> set (rn_Rules r). rl_RuleID q \<in> set (sp_ExpectedRuleIDs m) \<and> rl_Status q = ''fail''))"
proof -
  from oracle_run[OF assms] obtain h where x: "executeCases ev (oa_Contract artifact) (oa_Cases artifact) config
      (Some \<lparr>or_Schema = oa_Schema artifact, or_SHA256 = h\<rparr>) s = (Inr r, s')" by blast
  note e = executed_run[OF x]
  then have d: "list_all2 (rule_done ev) (oa_Cases artifact) (rn_Rules r)" by blast
  have "list_all2 (\<lambda>c x. rl_RuleID x = oc_RuleID c \<and> rl_CaseID x = oc_CaseID c \<and>
      (rl_Status x = ''pass'' \<longrightarrow> rule_backed ev c x)) (oa_Cases artifact) (rn_Rules r)"
    by (rule list_all2_mono[OF d]) (simp add: rule_done_def)
  then show ?thesis using e worst_pass[OF d] killed_failed by fastforce
qed

definition sample_runtime :: "unit Runtime" where
  "sample_runtime =
     \<lparr>ev_float = (\<lambda>f. []), ev_decode = (\<lambda>b. Inr (JObject [(''id'', JNumber ''7'')])), ev_compact = (\<lambda>b. Some b),
      ev_base64 = (\<lambda>b. None), ev_payload = (\<lambda>b. None), ev_sha = (\<lambda>b. sample_digest), ev_marshal = (\<lambda>v. Inr ''{}''),
      ev_observation = (\<lambda>x. []), ev_upper = (\<lambda>t. t),
      ev_parse_url = (\<lambda>t. Some \<lparr>url_Scheme = ''http'', url_Host = ''localhost'', url_Path = [], url_RawPath = [],
        url_RawQuery = [], url_Fragment = [], url_Rest = []\<rparr>),
      ev_url_string = (\<lambda>u. ''http://localhost'' @ url_Path u), ev_new_request = (\<lambda>x u. None),
      ev_do = (\<lambda>q s. (Inr \<lparr>hr_StatusCode = 201, hr_Header = [], hr_Body = Inr ''{}''\<rparr>, s))\<rparr>"

definition sample_oracle :: OracleArtifact where
  "sample_oracle =
     \<lparr>oa_Schema = OracleSchema, oa_Status = ''frozen'',
      oa_Contract = \<lparr>ctr_ID = ''users'', ctr_Version = 3, ctr_SHA256 = sample_digest\<rparr>, oa_PolicySHA256 = sample_digest,
      oa_Cases = [\<lparr>oc_CaseID = ''case-0001'', oc_RuleID = ''create'', oc_Strength = ''must'', oc_Subject = ''POST /users'',
        oc_Given = None, oc_Expect = Some [(''status'', JNumber ''201'')]\<rparr>]\<rparr>"

definition sample_config :: Config where
  "sample_config = \<lparr>cf_BaseURL = ''http://localhost'', cf_Now = unix_epoch, cf_Variant = [], cf_Mutation = None, cf_Lifecycle = None\<rparr>"

lemma run_verdict_exact_witness:
  "\<exists>r. ExecuteOracle sample_runtime (\<lambda>a. Inr ''{}'') sample_oracle sample_config () = (Inr r, ()) \<and>
     rn_Rules r \<noteq> [] \<and> (\<forall>x \<in> set (rn_Rules r). rl_Status x = ''pass'')"
proof -
  have "case ExecuteOracle sample_runtime (\<lambda>a. Inr ''{}'') sample_oracle sample_config () of
      (Inl e, t) \<Rightarrow> False | (Inr r, t) \<Rightarrow> rn_Rules r \<noteq> [] \<and> vd_Status (rn_Verdict r) = ''pass''" by code_simp
  then obtain r where r: "ExecuteOracle sample_runtime (\<lambda>a. Inr ''{}'') sample_oracle sample_config () = (Inr r, ())"
    "rn_Rules r \<noteq> []" "vd_Status (rn_Verdict r) = ''pass''" by (auto split: prod.splits sum.splits)
  note v = run_verdict_exact[OF r(1), THEN conjunct2, THEN conjunct2, THEN conjunct2, THEN conjunct1]
  from v r(3) have "\<forall>x \<in> set (rn_Rules r). rl_Status x = ''pass''" by (rule iffD1)
  with r(1,2) show ?thesis by (intro exI[of _ r] conjI)
qed

text \<open>C38. A contract with a rule that names no subject, which its validation allows for an unspecified rule,
  gets a case for it all the same, and no run of its oracle can pass.\<close>

theorem subjectless_rule_never_passes:
  assumes g: "Oracle_Generate sealed p = Inr artifact"
    and v: "JObject rule \<in> set (document_rules (sd_Document sealed))" "map_of rule ''subject'' = None"
    and x: "ExecuteOracle ev encode artifact config s = (Inr r, s')"
  shows "vd_Status (rn_Verdict r) \<noteq> ''pass''"
proof
  assume pass: "vd_Status (rn_Verdict r) = ''pass''"
  from g obtain cs where cs: "generate_cases 0 (document_rules (sd_Document sealed)) = Inr cs" "oa_Cases artifact = cs"
    unfolding generate_steps by auto
  from v(1) obtain n where n: "n < length (document_rules (sd_Document sealed))" "document_rules (sd_Document sealed) ! n = JObject rule"
    by (auto simp: in_set_conv_nth)
  from generate_cases_nth[OF cs(1)] n v(2) have c: "n < length cs" "oc_Subject (cs ! n) = []"
    by (auto simp: case_of_rule_def string_or_empty_def)
  from oracle_run[OF x] obtain o' where "executeCases ev (oa_Contract artifact) cs config o' s = (Inr r, s')"
    using cs(2) by auto
  from executed_run[OF this] have d: "list_all2 (rule_done ev) cs (rn_Rules r)" "worst_status (rn_Rules r) = ''pass''"
    using pass by auto
  from d(1) c(1) have "rule_done ev (cs ! n) (rn_Rules r ! n)" "rn_Rules r ! n \<in> set (rn_Rules r)"
    by (auto simp: list_all2_conv_all_nth)
  with worst_pass[OF d(1)] d(2) obtain mp where "parseSubject ev (oc_Subject (cs ! n)) = Inr mp"
    by (auto simp: rule_done_def rule_backed_def Let_def)
  moreover have "Fields [] = []" by code_simp
  ultimately show False using c(2) by (simp add: parseSubject_def)
qed


definition unspecified_contract :: object where
  "unspecified_contract =
     [(''schema'', JString ContractSchema), (''id'', JString ''users''), (''version'', JNumber ''3''),
      (''status'', JString ''sealed''), (''interface'', JObject [(''kind'', JString ''http'')]),
      (''rules'', JArray [JObject [(''id'', JString ''ordering''), (''strength'', JString ''unspecified'')]]),
      (''unspecified'', JArray [])]"

lemma subjectless_rule_never_passes_witness:
  "\<exists>a r. Oracle_Generate \<lparr>sd_Document = unspecified_contract, sd_CanonicalJSON = ''x'', sd_SHA256 = sample_digest\<rparr> sample_digest = Inr a \<and>
     ExecuteOracle sample_runtime (\<lambda>a. Inr ''{}'') a sample_config () = (Inr r, ()) \<and> vd_Status (rn_Verdict r) \<noteq> ''pass''"
proof -
  let ?s = "\<lparr>sd_Document = unspecified_contract, sd_CanonicalJSON = ''x'', sd_SHA256 = sample_digest\<rparr>"
  have "case Oracle_Generate ?s sample_digest of
      Inl e \<Rightarrow> False | Inr a \<Rightarrow>
        (case ExecuteOracle sample_runtime (\<lambda>a. Inr ''{}'') a sample_config () of (Inl e, t) \<Rightarrow> False | (Inr r, t) \<Rightarrow> True)"
    by code_simp
  then obtain a where g: "Oracle_Generate ?s sample_digest = Inr a"
    "case ExecuteOracle sample_runtime (\<lambda>a. Inr ''{}'') a sample_config () of (Inl e, t) \<Rightarrow> False | (Inr r, t) \<Rightarrow> True"
    by (cases "Oracle_Generate ?s sample_digest") simp_all
  obtain x where x: "ExecuteOracle sample_runtime (\<lambda>a. Inr ''{}'') a sample_config () = (x, ())"
    by (cases "ExecuteOracle sample_runtime (\<lambda>a. Inr ''{}'') a sample_config ()") auto
  with g(2) obtain r where "x = Inr r" by (cases x) simp_all
  with g(1) x have a: "Oracle_Generate ?s sample_digest = Inr a"
    "ExecuteOracle sample_runtime (\<lambda>a. Inr ''{}'') a sample_config () = (Inr r, ())" by simp_all
  have v: "JObject [(''id'', JString ''ordering''), (''strength'', JString ''unspecified'')] \<in> set (document_rules (sd_Document ?s))"
    by code_simp
  have n: "map_of [(''id'', JString ''ordering''), (''strength'', JString ''unspecified'')] ''subject'' = None" by simp
  from subjectless_rule_never_passes[OF a(1) v n a(2)] a show ?thesis by (intro exI[of _ a] exI[of _ r] conjI)
qed

end
