(* ===== verification/SornaResult.thy ===== *)
theory SornaResult
  imports SornaCampaign SornaProps GoPaths
begin

text \<open>
  sorna/internal/campaign/result.go and the parts of cmd/sorna/main.go that decide whether a planned mutation
  is launched, make the run's mutation of it and complete the run's record, turn the run into an entry and the
  entries into a result.  What the provider, the evidence functions and the process answer are arguments of an
  entry; errors are their texts.
\<close>

section \<open>Results\<close>

abbreviation ResultSchema :: string where "ResultSchema \<equiv> ''ingen.mutation-campaign-result/v1''"

record PlanReference =
  pr_Path :: string
  pr_SHA256 :: string
  pr_SemanticSHA256 :: string

record EvidenceReference =
  er_ManifestSHA256 :: string
  er_ChecksumsSHA256 :: string

record Diagnosis =
  dg_ExpectedRuleStatus :: "(string, string) gomap"
  dg_DirectlyFailedRules :: "string list"
  dg_CascadingInconclusive :: "string list"
  dg_UnaffectedRules :: "string list"
  dg_UnobservedExpected :: "string list"

record EntryResult =
  en_Sequence :: int
  en_MutationID :: string
  en_EvidencePath :: string
  en_Evidence :: "EvidenceReference option"
  en_RunID :: string
  en_Status :: string
  en_Outcome :: string
  en_ExitCode :: int
  en_Reason :: string
  en_Diagnosis :: "Diagnosis option"

record CampaignSummary =
  cs_Total :: int
  cs_Killed :: int
  cs_Survived :: int
  cs_Inconclusive :: int
  cs_Other :: int
  cs_Errors :: int

record CampaignResult =
  cm_Schema :: string
  cm_Status :: string
  cm_Plan :: PlanReference
  cm_StartedAt :: instant
  cm_FinishedAt :: instant
  cm_Summary :: CampaignSummary
  cm_Entries :: "EntryResult list"

section \<open>Diagnoses\<close>

definition status_problems :: "string \<Rightarrow> string \<times> string \<Rightarrow> message list" where
  "status_problems path p =
     problem (blank (fst p)) [T path, T ''.expected_rule_status contains an empty rule ID''] @
     problem (snd p \<notin> {''pass'', ''fail'', ''inconclusive'', ''error'', ''skipped'', ''unobserved''})
       [T path, T ''.expected_rule_status['', Q (fst p), T ''] has unsupported status '', Q (snd p)]"

fun rule_list_problems :: "string \<Rightarrow> nat \<Rightarrow> string list \<Rightarrow> string list \<Rightarrow> message list" where
  "rule_list_problems path index seen [] = []"
| "rule_list_problems path index seen (ruleID # rest) =
     problem (blank ruleID) [T (item_path path index), T '' must be non-empty''] @
     problem (ruleID \<in> set seen) [T path, T '' duplicates '', Q ruleID] @
     rule_list_problems path (Suc index) (ruleID # seen) rest"

definition outcome_problems :: "string \<Rightarrow> string \<Rightarrow> string list \<Rightarrow> message list" where
  "outcome_problems path outcome statuses =
     (let hasFailedTarget = list_ex (\<lambda>s. s = ''fail'') statuses;
          hasUnresolvedTarget = list_ex (\<lambda>s. s \<in> {''inconclusive'', ''error'', ''skipped'', ''unobserved''}) statuses;
          allTargetsPassed = \<not> hasFailedTarget \<and> \<not> hasUnresolvedTarget
      in if outcome = ''killed'' then
           problem (\<not> hasFailedTarget) [T path, T '' must identify a failed expected rule for a killed outcome'']
         else if outcome = ''survived'' then
           problem (\<not> allTargetsPassed) [T path, T '' must show every expected rule passing for a survived outcome'']
         else if outcome = ''inconclusive'' then
           problem hasFailedTarget [T path, T '' must not identify a failed expected rule for an inconclusive outcome''] @
           problem (\<not> hasUnresolvedTarget) [T path, T '' must identify an unresolved expected rule for an inconclusive outcome'']
         else [])"

definition validateDiagnosis :: "string \<Rightarrow> string \<Rightarrow> Diagnosis \<Rightarrow> message list" where
  "validateDiagnosis path outcome diagnosis =
     (let problems =
        problem (dg_ExpectedRuleStatus diagnosis = []) [T path, T ''.expected_rule_status must contain at least one rule''] @
        concat (map (status_problems path) (dg_ExpectedRuleStatus diagnosis)) @
        rule_list_problems (path @ ''.directly_failed_rules'') 0 [] (dg_DirectlyFailedRules diagnosis) @
        rule_list_problems (path @ ''.cascading_inconclusive'') 0 [] (dg_CascadingInconclusive diagnosis) @
        rule_list_problems (path @ ''.unaffected_rules'') 0 [] (dg_UnaffectedRules diagnosis) @
        rule_list_problems (path @ ''.unobserved_expected'') 0 [] (dg_UnobservedExpected diagnosis)
      in if problems \<noteq> [] \<or> outcome = [] then problems
         else problems @ outcome_problems path outcome (map snd (dg_ExpectedRuleStatus diagnosis)))"

section \<open>Validating a result\<close>

definition entry_result_problems :: "nat \<Rightarrow> string list \<Rightarrow> EntryResult \<Rightarrow> message list" where
  "entry_result_problems index seen entry =
     (let path = item_path ''campaign_result.entries'' index
      in problem (en_Sequence entry \<noteq> int index + 1) [T path, T ''.sequence must be '', D (int index + 1)] @
         (if blank (en_MutationID entry) then [[T path, T ''.mutation_id must be non-empty'']]
          else problem (en_MutationID entry \<in> set seen) [T path, T ''.mutation_id duplicates '', Q (en_MutationID entry)]) @
         problem (blank (en_EvidencePath entry)) [T path, T ''.evidence_path must be non-empty''] @
         (case en_Evidence entry of
            None \<Rightarrow> []
          | Some e \<Rightarrow>
              problem (\<not> valid_sha256 (er_ManifestSHA256 e)) [T path, T ''.evidence.manifest_sha256 must be a lowercase SHA-256 digest''] @
              problem (\<not> valid_sha256 (er_ChecksumsSHA256 e)) [T path, T ''.evidence.checksums_sha256 must be a lowercase SHA-256 digest'']) @
         problem (en_Status entry \<notin> {''passed'', ''failed'', ''error''}) [T path, T ''.status must be passed, failed, or error''] @
         problem (en_Status entry \<noteq> ''error'' \<and> en_Evidence entry = None) [T path, T ''.evidence is required for a completed entry''] @
         problem (en_Status entry = ''error'' \<and> blank (en_Reason entry)) [T path, T ''.reason is required for an error''] @
         problem (en_Status entry \<noteq> ''error'' \<and> en_ExitCode entry < 0)
           [T path, T ''.exit_code must not be negative for a completed entry''] @
         problem (en_Status entry = ''passed'' \<and> en_Outcome entry \<noteq> ''killed'')
           [T path, T ''.outcome must be killed for a passed entry''] @
         problem (en_Status entry = ''failed'' \<and> blank (en_Outcome entry)) [T path, T ''.outcome is required for a failed entry''] @
         (case en_Diagnosis entry of
            Some diagnosis \<Rightarrow> validateDiagnosis (path @ ''.diagnosis'') (en_Outcome entry) diagnosis
          | None \<Rightarrow>
              problem (en_Outcome entry \<in> {''killed'', ''survived'', ''inconclusive''})
                [T path, T ''.diagnosis is required for a classified outcome'']))"

definition next_seen :: "string list \<Rightarrow> string \<Rightarrow> string list" where
  "next_seen seen i = (if blank i \<or> i \<in> set seen then seen else i # seen)"

fun entries_problems :: "nat \<Rightarrow> string list \<Rightarrow> EntryResult list \<Rightarrow> message list" where
  "entries_problems index seen [] = []"
| "entries_problems index seen (entry # rest) =
     entry_result_problems index seen entry @ entries_problems (Suc index) (next_seen seen (en_MutationID entry)) rest"

definition count_entry :: "EntryResult \<Rightarrow> CampaignSummary \<times> string \<Rightarrow> CampaignSummary \<times> string" where
  "count_entry entry acc =
     (case acc of (summary, status) \<Rightarrow>
        let (s, st) =
          (if en_Status entry = ''error'' then (summary\<lparr>cs_Errors := cs_Errors summary + 1\<rparr>, ''error'')
           else if en_Status entry = ''failed'' then (summary, if status = ''passed'' then ''failed'' else status)
           else (summary, status))
        in (if en_Outcome entry = ''killed'' then s\<lparr>cs_Killed := cs_Killed s + 1\<rparr>
            else if en_Outcome entry = ''survived'' then s\<lparr>cs_Survived := cs_Survived s + 1\<rparr>
            else if en_Outcome entry = ''inconclusive'' then s\<lparr>cs_Inconclusive := cs_Inconclusive s + 1\<rparr>
            else if en_Outcome entry = [] then s
            else s\<lparr>cs_Other := cs_Other s + 1\<rparr>, st))"

definition count_entries :: "EntryResult list \<Rightarrow> CampaignSummary \<times> string" where
  "count_entries entries =
     fold count_entry entries
       (\<lparr>cs_Total = int (length entries), cs_Killed = 0, cs_Survived = 0, cs_Inconclusive = 0, cs_Other = 0, cs_Errors = 0\<rparr>,
        ''passed'')"

definition ValidateResult :: "CampaignResult \<Rightarrow> message list" where
  "ValidateResult result =
     (let (expectedSummary, expectedStatus) = count_entries (cm_Entries result)
      in problem (cm_Schema result \<noteq> ResultSchema) [T ''campaign_result.schema must be '', T ResultSchema] @
         problem (cm_Status result \<notin> {''passed'', ''failed'', ''error''}) [T ''campaign_result.status must be passed, failed, or error''] @
         problem (blank (pr_Path (cm_Plan result))) [T ''campaign_result.plan.path must be non-empty''] @
         problem (\<not> valid_sha256 (pr_SHA256 (cm_Plan result))) [T ''campaign_result.plan.sha256 must be a lowercase SHA-256 digest''] @
         problem (subject_policy_problem (pr_SemanticSHA256 (cm_Plan result)))
           [T ''campaign_result.plan.semantic_sha256 must be a lowercase SHA-256 digest when present''] @
         problem (is_zero (cm_StartedAt result) \<or> is_zero (cm_FinishedAt result) \<or> cm_FinishedAt result < cm_StartedAt result)
           [T ''campaign_result timestamps must be ordered and non-zero''] @
         problem (cm_Entries result = []) [T ''campaign_result.entries must contain at least one entry''] @
         problem (cs_Total (cm_Summary result) \<noteq> int (length (cm_Entries result)))
           [T ''campaign_result.summary.total must equal the entry count''] @
         entries_problems 0 [] (cm_Entries result) @
         problem (cm_Summary result \<noteq> expectedSummary) [T ''campaign_result.summary counters must match entry outcomes''] @
         problem (cm_Status result \<noteq> expectedStatus) [T ''campaign_result.status must match entry statuses''])"

definition CanonicalResultJSON :: "(CampaignResult \<Rightarrow> message + string) \<Rightarrow> CampaignResult \<Rightarrow> message + string" where
  "CanonicalResultJSON encode result =
     (if ValidateResult result \<noteq> [] then Inl (T ''invalid campaign result: '' # join_problems (ValidateResult result))
      else (case encode result of Inl err \<Rightarrow> Inl (T ''canonicalize campaign result: '' # err) | Inr c \<Rightarrow> Inr c))"

definition LoadResult ::
  "(string \<Rightarrow> message + string) \<Rightarrow> (string \<Rightarrow> message + CampaignResult) \<Rightarrow> (CampaignResult \<Rightarrow> message + string) \<Rightarrow> string
   \<Rightarrow> message + CampaignResult" where
  "LoadResult readFile decode encode path =
     (case readFile path of
        Inl err \<Rightarrow> Inl err
      | Inr contents \<Rightarrow>
          (case decode contents of
             Inl err \<Rightarrow> Inl ([T ''parse campaign result '', T path, T '': ''] @ err)
           | Inr result \<Rightarrow>
               if ValidateResult result \<noteq> [] then Inl (T ''invalid campaign result: '' # join_problems (ValidateResult result))
               else
                 (case CanonicalResultJSON encode result of
                    Inl err \<Rightarrow> Inl err
                  | Inr canonical \<Rightarrow>
                      if contents \<noteq> canonical then Inl [T ''campaign result '', T path, T '' is not canonical JSON'']
                      else Inr result)))"

section \<open>Running a campaign\<close>

definition campaignDiagnosis :: "MutationResult \<Rightarrow> Diagnosis" where
  "campaignDiagnosis result =
     \<lparr>dg_ExpectedRuleStatus = fold (\<lambda>o'. map_set (eo_RuleID o') (eo_Status o')) (mr_ExpectedObservations result) [],
      dg_DirectlyFailedRules = mr_DirectlyFailedRules result, dg_CascadingInconclusive = mr_CascadingInconclusive result,
      dg_UnaffectedRules = mr_UnaffectedRules result, dg_UnobservedExpected = mr_UnobservedExpected result\<rparr>"

text \<open>\<open>%03d\<close> of a number.  The identifier is read rune by rune; what is not a letter, digit, hyphen, underscore
  or point becomes a hyphen, and hyphens and points at the ends are trimmed.\<close>

definition pad3 :: "int \<Rightarrow> string" where
  "pad3 n = (if 0 \<le> n then replicate (3 - length (dec_string n)) CHR ''0'' @ dec_string n
             else CHR ''-'' # replicate (2 - length (dec_string (- n))) CHR ''0'' @ dec_string (- n))"

definition safe_byte :: "char \<Rightarrow> bool" where
  "safe_byte c \<longleftrightarrow> (97 \<le> byte c \<and> byte c \<le> 122) \<or> is_upper c \<or> is_digit c \<or> c \<in> set ''-_.''"

function safe_runes :: "string \<Rightarrow> string" where
  "safe_runes s =
     (case s of
        [] \<Rightarrow> []
      | c # r \<Rightarrow> (if safe_byte c then c else CHR ''-'') # safe_runes (drop (rune_width (c # r) - 1) r))"
  by auto
termination by (relation "measure length") auto

declare safe_runes.simps [simp del]

definition trim_ends :: "char set \<Rightarrow> string \<Rightarrow> string" where
  "trim_ends cs s = rev (dropWhile (\<lambda>c. c \<in> cs) (rev (dropWhile (\<lambda>c. c \<in> cs) s)))"

definition safeCampaignID :: "string \<Rightarrow> string" where
  "safeCampaignID i =
     (let v = trim_ends {CHR ''-'', CHR ''.''} (safe_runes i) in if v = [] then ''mutation'' else v)"

definition campaignEntryPath :: "string \<Rightarrow> MutationEntry \<Rightarrow> string" where
  "campaignEntryPath outputDir planned =
     Join outputDir (pad3 (me_Sequence planned) @ ''-'' @ safeCampaignID (sp_ID (me_Spec planned)))"

text \<open>Before a run: what the provider resolves to, whether the prepared subject verifies, and what \<open>os.Stat\<close>
  says of the entry's directory.  \<open>Some\<close> is the reason of an entry that is not launched.\<close>

datatype stat_result = Found | Missing | StatFailed string

record LaunchCheck =
  la_Resolve :: "string + string list"
  la_Verify :: "string option"
  la_Stat :: stat_result

definition launch_refused :: "LaunchCheck \<Rightarrow> string option" where
  "launch_refused check =
     (case la_Resolve check of
        Inl err \<Rightarrow> Some err
      | Inr command \<Rightarrow>
          if command = [] then Some ''provider resolved an empty subject command''
          else
            (case la_Verify check of
               Some err \<Rightarrow> Some (''verify prepared subject: '' @ err)
             | None \<Rightarrow>
                 (case la_Stat check of
                    Found \<Rightarrow> Some ''mutation evidence directory already exists''
                  | StatFailed err \<Rightarrow> Some err
                  | Missing \<Rightarrow> None)))"

text \<open>The flags the campaign passes to a run, and the mutation the run makes of them: the operator, target,
  change and status of the planned mutation do not reach it.\<close>

definition mutation_flags :: "Spec \<Rightarrow> string \<times> string \<times> string \<times> string list" where
  "mutation_flags spec = (sp_ID spec, sp_Plane spec, sp_Description spec, sp_ExpectedRuleIDs spec)"

definition run_mutation :: "string \<times> string \<times> string \<times> string list \<Rightarrow> Spec" where
  "run_mutation flags =
     (case flags of (mutationID, mutationPlane, mutationDescription, expectedRules) \<Rightarrow>
        \<lparr>sp_ID = mutationID, sp_Plane = mutationPlane, sp_Operator = [], sp_Target = [], sp_Description = mutationDescription,
         sp_Change = [], sp_ExpectedRuleIDs = expectedRules, sp_Status = []\<rparr>)"

definition lifecycleObservationCoverage :: "AccessTelemetry \<Rightarrow> string" where
  "lifecycleObservationCoverage access =
     (if tel_Status access \<noteq> ''captured'' then ''unavailable''
      else if tel_SampleCount access = 0 \<or> tel_ObservationCount access = 0 \<or> 0 < tel_ProcessTreeErrors access \<or>
              0 < tel_ObservationErrors access
      then ''periodic-best-effort-with-gaps''
      else ''periodic-best-effort'')"

definition lifecycleObservationLimitation :: "AccessTelemetry \<Rightarrow> string" where
  "lifecycleObservationLimitation access =
     (if 0 < tel_SamplingIntervalMS access
      then ''executable identity was sampled every '' @ dec_string (tel_SamplingIntervalMS access) @
        '' ms; transitions between samples may be unobserved''
      else ''executable identity coverage is periodic; transitions between samples may be unobserved'')"

text \<open>What the run command sets in the record of the runner before it is written.\<close>

definition finish_record :: "BaselineReference option \<Rightarrow> LifecycleRecord \<Rightarrow> RunRecord \<Rightarrow> RunRecord" where
  "finish_record baselineReference lifecycle r =
     (let r' = r\<lparr>rn_Baseline := baselineReference, rn_Lifecycle := Some lifecycle\<rparr>
      in case lc_Access lifecycle of
           None \<Rightarrow> r'
         | Some access \<Rightarrow>
             r'\<lparr>rn_Assurance := (rn_Assurance r')
               \<lparr>ass_ObservationCoverage := lifecycleObservationCoverage access,
                ass_Limitations := ass_Limitations (rn_Assurance r') @
                  [if tel_Status access = ''captured'' then lifecycleObservationLimitation access
                   else ''subject executable identity observation was unavailable'']\<rparr>\<rparr>)"

text \<open>What came of one run: the errors of the three evidence steps, what \<open>runner.LoadFile\<close> reads back, and the
  process.\<close>

record EntryRun =
  ru_Provenance :: "string option"
  ru_Verify :: "string option"
  ru_Evidence :: "string + EvidenceReference"
  ru_Load :: "string + RunRecord"
  ru_Err :: "string option"
  ru_ExitCode :: int

definition readRunRecord :: "string + RunRecord \<Rightarrow> string + RunRecord" where
  "readRunRecord loaded = (case loaded of Inl err \<Rightarrow> Inl (''load mutation run record: '' @ err) | Inr r \<Rightarrow> Inr r)"

definition new_entry :: "MutationEntry \<Rightarrow> string \<Rightarrow> int \<Rightarrow> EntryResult" where
  "new_entry planned entryDir exitCode =
     \<lparr>en_Sequence = me_Sequence planned, en_MutationID = sp_ID (me_Spec planned), en_EvidencePath = entryDir,
      en_Evidence = None, en_RunID = [], en_Status = [], en_Outcome = [], en_ExitCode = exitCode, en_Reason = [],
      en_Diagnosis = None\<rparr>"

definition run_entry :: "MutationEntry \<Rightarrow> string \<Rightarrow> EntryRun \<Rightarrow> EntryResult" where
  "run_entry planned entryDir run =
     (let entryResult = new_entry planned entryDir (ru_ExitCode run);
          checked =
            (case ru_Provenance run of
               Some err \<Rightarrow> entryResult\<lparr>en_Status := ''error'', en_Reason := ''attach campaign provenance: '' @ err\<rparr>
             | None \<Rightarrow>
                 (case ru_Verify run of
                    Some err \<Rightarrow> entryResult\<lparr>en_Status := ''error'', en_Reason := ''verify mutation evidence: '' @ err\<rparr>
                  | None \<Rightarrow>
                      (case ru_Evidence run of
                         Inl err \<Rightarrow> entryResult\<lparr>en_Status := ''error'', en_Reason := ''hash mutation evidence: '' @ err\<rparr>
                       | Inr hashes \<Rightarrow>
                           let found = entryResult\<lparr>en_Evidence := Some hashes\<rparr>
                           in case readRunRecord (ru_Load run) of
                                Inl err \<Rightarrow> found\<lparr>en_Status := ''error'', en_Reason := err\<rparr>
                              | Inr record' \<Rightarrow>
                                  (case rn_Mutation record' of
                                     None \<Rightarrow> found\<lparr>en_Status := ''error'',
                                       en_Reason := ''mutation evidence does not contain a mutation result''\<rparr>
                                   | Some m \<Rightarrow> found\<lparr>en_RunID := rn_RunID record', en_Outcome := mr_Outcome m, en_Reason := mr_Reason m,
                                       en_Diagnosis := Some (campaignDiagnosis m),
                                       en_Status := (if mr_Outcome m = ''killed'' then ''passed'' else ''failed'')\<rparr>))))
      in case ru_Err run of
           Some err \<Rightarrow> if en_Status checked = [] then checked\<lparr>en_Status := ''error'', en_Reason := err\<rparr> else checked
         | None \<Rightarrow> checked)"

text \<open>One round of the loop over the plan.\<close>

definition campaign_entry :: "string \<Rightarrow> MutationEntry \<Rightarrow> LaunchCheck \<Rightarrow> EntryRun \<Rightarrow> EntryResult" where
  "campaign_entry outputDir planned check run =
     (case launch_refused check of
        Some reason \<Rightarrow>
          (new_entry planned (campaignEntryPath outputDir planned) (- 1))\<lparr>en_Status := ''error'', en_Reason := reason\<rparr>
      | None \<Rightarrow> run_entry planned (campaignEntryPath outputDir planned) run)"

definition buildCampaignResult :: "string \<Rightarrow> string \<Rightarrow> string \<Rightarrow> instant \<Rightarrow> instant \<Rightarrow> EntryResult list \<Rightarrow> CampaignResult" where
  "buildCampaignResult planPath planHash planSemanticHash startedAt now entries =
     (case count_entries entries of
        (summary, status) \<Rightarrow>
          \<lparr>cm_Schema = ResultSchema, cm_Status = status,
           cm_Plan = \<lparr>pr_Path = planPath, pr_SHA256 = planHash, pr_SemanticSHA256 = planSemanticHash\<rparr>,
           cm_StartedAt = startedAt, cm_FinishedAt = now, cm_Summary = summary, cm_Entries = entries\<rparr>)"

definition campaignExitCode :: "string \<Rightarrow> int" where
  "campaignExitCode status = (if status = ''passed'' then 0 else if status = ''failed'' then 1 else 2)"

end
