(* ===== verification/SornaCampaignProps.thy ===== *)
theory SornaCampaignProps
  imports SornaResult
begin

text \<open>
  Plans always pass their own validation, and the result of a campaign over runs of valid oracles does
  exactly when the files, times and exit codes are in order: its diagnoses always agree with the outcomes.
\<close>

section \<open>Plans\<close>

lemma plan_entries: "(\<exists>es. collect plan_entry i specs = Inr es) \<longleftrightarrow> (\<forall>spec \<in> set specs. sp_Plane spec = ''implementation'')"
proof (induction specs arbitrary: i)
  case (Cons spec specs)
  have "(\<exists>es. collect plan_entry i (spec # specs) = Inr es) \<longleftrightarrow>
      (\<exists>e. plan_entry i spec = Inr e) \<and> (\<exists>es. collect plan_entry (Suc i) specs = Inr es)"
    by (auto split: sum.splits)
  moreover have "(\<exists>e. plan_entry i spec = Inr e) \<longleftrightarrow> sp_Plane spec = ''implementation''" by (simp add: plan_entry_def)
  ultimately have "(\<exists>es. collect plan_entry i (spec # specs) = Inr es) \<longleftrightarrow>
      sp_Plane spec = ''implementation'' \<and> (\<exists>es. collect plan_entry (Suc i) specs = Inr es)" by simp
  then show ?case using Cons by simp
qed simp

lemma plan_entries_made:
  "collect plan_entry i specs = Inr es \<Longrightarrow> map me_Spec es = specs \<and> over_items entry_problems i es = []"
proof (induction specs arbitrary: i es)
  case (Cons spec specs)
  then obtain e fs where e: "plan_entry i spec = Inr e" and fs: "collect plan_entry (Suc i) specs = Inr fs" "es = e # fs"
    by (auto split: sum.splits)
  from e have "sp_Plane spec = ''implementation''" "e = \<lparr>me_Sequence = int i + 1, me_Spec = spec\<rparr>"
    by (auto simp: plan_entry_def split: if_splits)
  with Cons.IH fs show ?case by (simp add: entry_problems_def)
qed simp

lemma references_checked:
  assumes "plan_references trunc encode sha request = Inr (reference, oracleReference)"
  shows "\<not> blank (br_CataloguePath request) \<and> valid_sha256 (br_CatalogueSHA256 request) \<and>
    valid_sha256 (br_ContractSHA256 request) \<and> ValidateAgainstContract trunc (br_Catalogue request) (br_Contract request) = [] \<and>
    Oracle_Validate (br_Oracle request) = [] \<and> oa_Contract (br_Oracle request) = reference \<and>
    ctr_ID reference = string_or_empty (map_of (br_Contract request) ''id'') \<and>
    plan_integer (map_of (br_Contract request) ''version'') = Some (ctr_Version reference) \<and>
    ctr_SHA256 reference = br_ContractSHA256 request \<and>
    Oracle_Hash encode sha (br_Oracle request) = Inr (or_SHA256 oracleReference) \<and>
    or_Schema oracleReference = oa_Schema (br_Oracle request) \<and> bl_Contract (br_Baseline request) = reference \<and>
    bl_Oracle (br_Baseline request) = Some oracleReference \<and> \<not> blank (bl_EvidencePath (br_Baseline request)) \<and>
    \<not> blank (bl_RunID (br_Baseline request)) \<and> \<not> subject_policy_problem (br_SubjectPolicySHA256 request)"
proof -
  from assms obtain h v where h: "\<not> blank (br_CataloguePath request)" "valid_sha256 (br_CatalogueSHA256 request)"
    "valid_sha256 (br_ContractSHA256 request)" "ValidateAgainstContract trunc (br_Catalogue request) (br_Contract request) = []"
    "Oracle_Validate (br_Oracle request) = []" "Oracle_Hash encode sha (br_Oracle request) = Inr h"
    "plan_integer (map_of (br_Contract request) ''version'') = Some v"
    "ctr_ID (oa_Contract (br_Oracle request)) = string_or_empty (map_of (br_Contract request) ''id'')"
    "ctr_Version (oa_Contract (br_Oracle request)) = v" "ctr_SHA256 (oa_Contract (br_Oracle request)) = br_ContractSHA256 request"
    "\<not> blank (bl_EvidencePath (br_Baseline request))" "\<not> blank (bl_RunID (br_Baseline request))"
    "bl_Contract (br_Baseline request) = reference" "bl_Oracle (br_Baseline request) = Some oracleReference"
    "\<not> subject_policy_problem (br_SubjectPolicySHA256 request)"
    and r: "reference = \<lparr>ctr_ID = string_or_empty (map_of (br_Contract request) ''id''), ctr_Version = v,
      ctr_SHA256 = br_ContractSHA256 request\<rparr>"
    and o': "oracleReference = \<lparr>or_Schema = oa_Schema (br_Oracle request), or_SHA256 = h\<rparr>"
    unfolding plan_references_def Let_def by (auto split: if_splits sum.splits option.splits)
  have "oa_Contract (br_Oracle request) = reference"
    unfolding r using h(8-10) by (cases "oa_Contract (br_Oracle request)") simp
  with h show ?thesis by (simp add: r o')
qed

lemma bound_catalogue:
  assumes "ValidateAgainstContract trunc c body = []"
  shows "Catalogue_Validate c = []" "cat_ContractID c = string_or_empty (map_of body ''id'')"
    "contractInteger trunc (map_of body ''version'') = (cat_ContractVersion c, True)"
    "\<forall>spec \<in> set (cat_Mutations c). set (sp_ExpectedRuleIDs spec) \<subseteq> set (contract_rule_ids body)"
proof -
  obtain n ok where n: "contractInteger trunc (map_of body ''version'') = (n, ok)" by fastforce
  from assms n have a: "Catalogue_Validate c = []" "cat_ContractID c = string_or_empty (map_of body ''id'')" "ok"
    "cat_ContractVersion c = n" "over_items (rule_reference_problems (contract_rule_ids body)) 0 (cat_Mutations c) = []"
    by (simp_all add: ValidateAgainstContract_def Let_def)
  then show "Catalogue_Validate c = []" "cat_ContractID c = string_or_empty (map_of body ''id'')"
    "contractInteger trunc (map_of body ''version'') = (cat_ContractVersion c, True)" using n by simp_all
  have "set (sp_ExpectedRuleIDs spec) \<subseteq> set (contract_rule_ids body)" if "spec \<in> set (cat_Mutations c)" for spec
  proof -
    from that obtain i where "i < length (cat_Mutations c)" "spec = cat_Mutations c ! i" by (auto simp: in_set_conv_nth)
    with a(5) have "rule_reference_problems (contract_rule_ids body) i spec = []" by (simp add: over_items_Nil)
    then show ?thesis by (auto simp: rule_reference_problems_def over_items_Nil in_set_conv_nth)
  qed
  then show "\<forall>spec \<in> set (cat_Mutations c). set (sp_ExpectedRuleIDs spec) \<subseteq> set (contract_rule_ids body)" by blast
qed

lemma plan_valid:
  assumes r: "plan_references trunc encode sha request = Inr (reference, oracleReference)"
    and e: "collect plan_entry 0 (cat_Mutations (br_Catalogue request)) = Inr entries"
    and sha: "\<And>x. valid_sha256 (sha x)"
  shows "Plan_Validate
    \<lparr>pl_Schema = PlanSchema, pl_Status = ''ready'',
     pl_Catalogue = \<lparr>cr_Path = br_CataloguePath request, cr_ID = cat_ID (br_Catalogue request),
       cr_Version = cat_Version (br_Catalogue request), cr_SHA256 = br_CatalogueSHA256 request\<rparr>,
     pl_Contract = reference, pl_Oracle = oracleReference, pl_Baseline = br_Baseline request,
     pl_OraclePolicySHA256 = oa_PolicySHA256 (br_Oracle request),
     pl_SubjectPolicySHA256 = br_SubjectPolicySHA256 request, pl_Mutations = entries\<rparr> = []"
proof -
  note c = references_checked[OF r]
  then have against: "ValidateAgainstContract trunc (br_Catalogue request) (br_Contract request) = []" by simp
  note b = bound_catalogue[OF against]
  from c have v: "cat_ContractVersion (br_Catalogue request) = ctr_Version reference"
    using b(3) by (auto simp: plan_integer_def contractInteger_def split: option.splits Json.splits)
  have h: "valid_sha256 (or_SHA256 oracleReference)"
  proof -
    from c have "Oracle_Hash encode sha (br_Oracle request) = Inr (or_SHA256 oracleReference)" by simp
    then obtain x where "sha x = or_SHA256 oracleReference" by (auto simp: Oracle_Hash_def split: sum.splits)
    with sha[of x] show ?thesis by simp
  qed
  from b(1) have cat: "Catalogue_Validate
      \<lparr>cat_Schema = CatalogueSchema, cat_ID = cat_ID (br_Catalogue request), cat_Version = cat_Version (br_Catalogue request),
       cat_ContractID = ctr_ID reference, cat_ContractVersion = ctr_Version reference,
       cat_Mutations = cat_Mutations (br_Catalogue request)\<rparr> = []"
    using b(2) c v by (simp add: Catalogue_Validate_def)
  from b(1) have n: "cat_Mutations (br_Catalogue request) \<noteq> []" "\<not> blank (cat_ID (br_Catalogue request))"
    "1 \<le> cat_Version (br_Catalogue request)" by (simp_all add: Catalogue_Validate_def)
  note made = plan_entries_made[OF e]
  with n(1) have ne: "entries \<noteq> []" by auto
  from c have o': "or_Schema oracleReference = OracleSchema" "valid_sha256 (oa_PolicySHA256 (br_Oracle request))"
    "\<not> blank (ctr_ID reference)" "1 \<le> ctr_Version reference" by (auto simp: Oracle_Validate_def)
  show ?thesis
    unfolding Plan_Validate_def using c made ne n h o' cat by simp
qed

text \<open>C39. A campaign plan is built exactly when the references of its catalogue, contract, oracle and baseline agree
  and every mutation is one of the implementation; it then always passes its own validation, lists the mutations
  of the catalogue in order, and each of them names rules of the contract.  Its semantic digest does not depend
  on which run was the baseline.\<close>

theorem plan_exact:
  assumes sha: "\<And>x. valid_sha256 (sha x)"
  shows "((\<exists>plan. Plan_Build trunc encode sha request = Inr plan) \<longleftrightarrow>
      (\<exists>refs. plan_references trunc encode sha request = Inr refs) \<and>
      (\<forall>spec \<in> set (cat_Mutations (br_Catalogue request)). sp_Plane spec = ''implementation'')) \<and>
    (\<forall>plan. Plan_Build trunc encode sha request = Inr plan \<longrightarrow>
      Plan_Validate plan = [] \<and> map me_Spec (pl_Mutations plan) = cat_Mutations (br_Catalogue request) \<and>
      pl_Contract plan = oa_Contract (br_Oracle request) \<and> bl_Contract (pl_Baseline plan) = pl_Contract plan \<and>
      (\<forall>e \<in> set (pl_Mutations plan). set (sp_ExpectedRuleIDs (me_Spec e)) \<subseteq> set (contract_rule_ids (br_Contract request))) \<and>
      (\<forall>enc i. \<not> blank i \<longrightarrow>
        SemanticHash enc sha (plan\<lparr>pl_Baseline := (pl_Baseline plan)\<lparr>bl_RunID := i\<rparr>\<rparr>) = SemanticHash enc sha plan))"
proof (cases "plan_references trunc encode sha request")
  case (Inl err)
  then show ?thesis by (simp add: Plan_Build_def)
next
  case (Inr refs)
  obtain reference oracleReference where refs: "refs = (reference, oracleReference)" by fastforce
  note r = Inr[unfolded refs]
  show ?thesis
  proof (cases "collect plan_entry 0 (cat_Mutations (br_Catalogue request))")
    case (Inl err)
    then have "\<not> (\<forall>spec \<in> set (cat_Mutations (br_Catalogue request)). sp_Plane spec = ''implementation'')"
      using plan_entries[of 0 "cat_Mutations (br_Catalogue request)"] by simp
    then show ?thesis using Inl r by (simp add: Plan_Build_def)
  next
    case (Inr entries)
    note valid = plan_valid[OF r Inr sha] and made = plan_entries_made[OF Inr] and c = references_checked[OF r]
    from c have against: "ValidateAgainstContract trunc (br_Catalogue request) (br_Contract request) = []" by simp
    have rules: "\<forall>e \<in> set entries. set (sp_ExpectedRuleIDs (me_Spec e)) \<subseteq> set (contract_rule_ids (br_Contract request))"
      using bound_catalogue(4)[OF against] made by (metis imageI list.set_map)
    have sem: "SemanticHash enc sha (plan\<lparr>pl_Baseline := (pl_Baseline plan)\<lparr>bl_RunID := i\<rparr>\<rparr>) = SemanticHash enc sha plan"
      if "Plan_Validate plan = []" "\<not> blank i" for enc plan i
    proof -
      have "Plan_Validate (plan\<lparr>pl_Baseline := (pl_Baseline plan)\<lparr>bl_RunID := i\<rparr>\<rparr>) = []"
        using that by (simp add: Plan_Validate_def)
      with that(1) show ?thesis by (simp add: SemanticHash_def)
    qed
    have "\<forall>spec \<in> set (cat_Mutations (br_Catalogue request)). sp_Plane spec = ''implementation''"
      using plan_entries Inr by blast
    then show ?thesis using r Inr valid made rules c sem[OF valid] by (simp add: Plan_Build_def Let_def)
  qed
qed

definition sample_named_mutation :: Spec where
  "sample_named_mutation = \<lparr>sp_ID = ''skip-check'', sp_Plane = ''implementation'', sp_Operator = ''remove'', sp_Target = ''handler'',
     sp_Description = ''skips the check'', sp_Change = [(''file'', JString ''main.go'')], sp_ExpectedRuleIDs = [''create''],
     sp_Status = ''validated''\<rparr>"

definition sample_baseline :: BaselineReference where
  "sample_baseline = \<lparr>bl_EvidencePath = ''evidence'', bl_RunID = ''run-1'', bl_Contract = oa_Contract sample_oracle,
     bl_Oracle = Some \<lparr>or_Schema = OracleSchema, or_SHA256 = sample_digest\<rparr>\<rparr>"

definition sample_request :: BuildRequest where
  "sample_request =
     \<lparr>br_CataloguePath = ''mutations.yaml'', br_CatalogueSHA256 = sample_digest,
      br_Catalogue = \<lparr>cat_Schema = CatalogueSchema, cat_ID = ''users-mutations'', cat_Version = 1, cat_ContractID = ''users'',
        cat_ContractVersion = 3, cat_Mutations = [sample_named_mutation]\<rparr>,
      br_Contract = [(''id'', JString ''users''), (''version'', JInt 3),
        (''rules'', JArray [JObject [(''id'', JString ''create'')]])],
      br_ContractSHA256 = sample_digest, br_Oracle = sample_oracle, br_Baseline = sample_baseline,
      br_SubjectPolicySHA256 = []\<rparr>"

lemma plan_exact_witness:
  "\<exists>plan. Plan_Build (\<lambda>f. 0) (\<lambda>a. Inr ''{}'') (\<lambda>x. sample_digest) sample_request = Inr plan \<and> Plan_Validate plan = []"
proof -
  have d: "valid_sha256 sample_digest" by code_simp
  have "case Plan_Build (\<lambda>f. 0) (\<lambda>a. Inr ''{}'') (\<lambda>x. sample_digest) sample_request of Inl e \<Rightarrow> False | Inr plan \<Rightarrow> True"
    by code_simp
  then obtain plan where p: "Plan_Build (\<lambda>f. 0) (\<lambda>a. Inr ''{}'') (\<lambda>x. sample_digest) sample_request = Inr plan"
    by (auto split: sum.splits)
  note t = plan_exact[of "\<lambda>x. sample_digest" "\<lambda>f. 0" "\<lambda>a. Inr ''{}''" sample_request, OF d, THEN conjunct2, THEN spec, THEN mp, OF p]
  show ?thesis by (intro exI[of _ plan] conjI p t[THEN conjunct1])
qed

section \<open>Diagnoses\<close>

lemma rule_list_Nil:
  "rule_list_problems path i seen ids = [] \<longleftrightarrow> distinct ids \<and> (\<forall>r \<in> set ids. \<not> blank r) \<and> set ids \<inter> set seen = {}"
  by (induction path i seen ids rule: rule_list_problems.induct) auto

lemma expected_Nil:
  "expected_problems path i seen ids = [] \<longleftrightarrow> distinct ids \<and> (\<forall>r \<in> set ids. \<not> blank r) \<and> set ids \<inter> set seen = {}"
  by (induction path i seen ids rule: expected_problems.induct) (auto simp: Let_def)

lemma cases_named:
  "cases_problems i cs rs items = [] \<Longrightarrow>
     distinct (map oc_RuleID items) \<and> (\<forall>c \<in> set items. \<not> blank (oc_RuleID c)) \<and> set (map oc_RuleID items) \<inter> set rs = {}"
proof (induction i cs rs items rule: cases_problems.induct)
  case (2 i cs rs c items)
  from "2.prems" have "\<not> blank (oc_RuleID c)" "oc_RuleID c \<notin> set rs"
    "cases_problems (Suc i) (add_name cs (oc_CaseID c)) (add_name rs (oc_RuleID c)) items = []"
    by (auto simp: Let_def new_name_problems_def split: if_splits)
  with "2.IH" show ?case by (auto simp: add_name_def)
qed simp

lemma map_set_functional:
  "\<forall>p \<in> set m. snd p = f (fst p) \<Longrightarrow> set (map_set k (f k) m) = insert (k, f k) (set m)"
  by (induction k "f k" m rule: map_set.induct) auto

lemma fold_expected:
  "set (fold (\<lambda>o'. map_set (eo_RuleID o') (eo_Status o')) (map (\<lambda>i. \<lparr>eo_RuleID = i, eo_Status = f i\<rparr>) is) []) = (\<lambda>i. (i, f i)) ` set is"
proof (induction "is" rule: rev_induct)
  case (snoc x "is")
  let ?m = "fold (\<lambda>o'. map_set (eo_RuleID o') (eo_Status o')) (map (\<lambda>i. \<lparr>eo_RuleID = i, eo_Status = f i\<rparr>) is) []"
  have "\<forall>p \<in> set ?m. snd p = f (fst p)" unfolding snoc by auto
  from map_set_functional[OF this, of x] show ?case using snoc by simp
qed simp

lemma outcome_agrees:
  assumes "is \<noteq> []" "\<forall>i \<in> set is. f i \<in> {''pass'', ''fail'', ''error'', ''inconclusive'', ''unobserved''}"
    and s: "set statuses = f ` set is"
    and o': "outcome = (if \<exists>i \<in> set is. f i = ''fail'' then ''killed''
       else if \<forall>i \<in> set is. f i = ''pass'' then ''survived'' else ''inconclusive'')"
  shows "outcome_problems path outcome statuses = []"
proof -
  have f: "list_ex (\<lambda>x. x = ''fail'') statuses \<longleftrightarrow> (\<exists>i \<in> set is. f i = ''fail'')"
    unfolding list_ex_iff s by blast
  have u: "list_ex (\<lambda>x. x \<in> {''inconclusive'', ''error'', ''skipped'', ''unobserved''}) statuses \<longleftrightarrow>
      (\<exists>i \<in> set is. f i \<noteq> ''fail'' \<and> f i \<noteq> ''pass'')"
  proof -
    have "(f i \<in> {''inconclusive'', ''error'', ''skipped'', ''unobserved''}) = (f i \<noteq> ''fail'' \<and> f i \<noteq> ''pass'')"
      if "i \<in> set is" for i using bspec[OF assms(2) that] by auto
    then show ?thesis unfolding list_ex_iff s by blast
  qed
  show ?thesis unfolding outcome_problems_def Let_def f u o' by auto
qed

lemma diagnosis_valid:
  assumes spec: "sp_ExpectedRuleIDs spec \<noteq> []" "distinct (sp_ExpectedRuleIDs spec)" "\<forall>i \<in> set (sp_ExpectedRuleIDs spec). \<not> blank i"
    and obs: "distinct (map ru_RuleID os)" "\<forall>x \<in> set os. \<not> blank (ru_RuleID x)"
      "\<forall>x \<in> set os. ru_Status x \<in> {''pass'', ''fail'', ''error'', ''inconclusive''}"
  shows "validateDiagnosis path (mr_Outcome (Classify_mutation spec os)) (campaignDiagnosis (Classify_mutation spec os)) = []"
proof -
  note c = classification_record[of spec os]
  let ?m = "dg_ExpectedRuleStatus (campaignDiagnosis (Classify_mutation spec os))"
  let ?f = "shown_status (last_status os)"
  have m: "set ?m = (\<lambda>i. (i, ?f i)) ` set (sp_ExpectedRuleIDs spec)"
    using c fold_expected[of ?f "sp_ExpectedRuleIDs spec"] by (simp add: campaignDiagnosis_def)
  have f: "?f i \<in> {''pass'', ''fail'', ''error'', ''inconclusive'', ''unobserved''}" for i
  proof (cases "last_status os i")
    case (Some s)
    from map_of_SomeD[OF this[unfolded last_status_def]] obs(3) Some show ?thesis by (auto simp: shown_status_def)
  qed (simp add: shown_status_def)
  have lists: "distinct (with_status s os)" "\<forall>r \<in> set (with_status s os). \<not> blank r" for s
    using obs(1,2) by (auto simp: with_status_def distinct_map intro: inj_on_subset)
  have out: "outcome_problems path (mr_Outcome (Classify_mutation spec os)) (map snd ?m) = []"
  proof (rule outcome_agrees[OF spec(1)])
    show "\<forall>i \<in> set (sp_ExpectedRuleIDs spec). ?f i \<in> {''pass'', ''fail'', ''error'', ''inconclusive'', ''unobserved''}"
      using f by blast
    show "set (map snd ?m) = ?f ` set (sp_ExpectedRuleIDs spec)" using m by (simp add: image_image)
    have k: "?f i = s \<longleftrightarrow> last_status os i = Some s" if "s \<in> {''pass'', ''fail''}" for i s
      using that by (auto simp: shown_status_def split: option.splits)
    show "mr_Outcome (Classify_mutation spec os) =
        (if \<exists>i \<in> set (sp_ExpectedRuleIDs spec). ?f i = ''fail'' then ''killed''
         else if \<forall>i \<in> set (sp_ExpectedRuleIDs spec). ?f i = ''pass'' then ''survived'' else ''inconclusive'')"
      using c spec(1) k[of "''fail''"] k[of "''pass''"] by simp
  qed
  have st: "status_problems path p = []" if "p \<in> set ?m" for p
    using that f spec(3) unfolding m by (fastforce simp: status_problems_def)
  have ne: "?m \<noteq> []" using m spec(1) by (metis empty_is_image list.set(1) set_empty)
  show ?thesis
    unfolding validateDiagnosis_def Let_def using ne st out c lists spec
    by (simp add: rule_list_Nil campaignDiagnosis_def)
qed


section \<open>Campaigns\<close>

text \<open>What is known of one planned mutation: the errors met before the launch have texts; digests are digests; and
  a record read back is one that \<open>sorna run\<close> wrote for the mutation it was given by the flags: the record of a
  run of an oracle, completed with some baseline and lifecycle.\<close>

definition entry_run :: "'s itself \<Rightarrow> MutationEntry \<times> LaunchCheck \<times> EntryRun \<Rightarrow> bool" where
  "entry_run TYPE('s) x \<longleftrightarrow>
     (case x of (planned, check, run) \<Rightarrow>
        (\<forall>e. la_Resolve check = Inl e \<longrightarrow> \<not> blank e) \<and> (\<forall>e. la_Stat check = StatFailed e \<longrightarrow> \<not> blank e) \<and>
        (\<forall>h. ru_Evidence run = Inr h \<longrightarrow> valid_sha256 (er_ManifestSHA256 h) \<and> valid_sha256 (er_ChecksumsSHA256 h)) \<and>
        (\<forall>r. launch_refused check = None \<and> ru_Load run = Inr r \<longrightarrow>
           (\<exists>(ev :: 's Runtime) encode artifact config s s' written baseline lifecycle.
              ExecuteOracle ev encode artifact config s = (Inr written, s') \<and>
              cf_Mutation config = Some (run_mutation (mutation_flags (me_Spec planned))) \<and>
              r = finish_record baseline lifecycle written)))"

lemma run_observations:
  assumes "ExecuteOracle ev encode artifact config s = (Inr r, s')"
  shows "distinct (map rl_RuleID (rn_Rules r))" "\<forall>x \<in> set (rn_Rules r). \<not> blank (rl_RuleID x)"
    "\<forall>x \<in> set (rn_Rules r). rl_Status x \<in> {''pass'', ''fail'', ''error'', ''inconclusive''}"
    "rn_Mutation r = map_option (\<lambda>m. Classify_mutation m
      (map (\<lambda>x. \<lparr>ru_RuleID = rl_RuleID x, ru_Status = rl_Status x\<rparr>) (rn_Rules r))) (cf_Mutation config)"
proof -
  from oracle_run[OF assms] obtain o' where valid: "Oracle_Validate artifact = []"
    and x: "executeCases ev (oa_Contract artifact) (oa_Cases artifact) config o' s = (Inr r, s')" by blast
  note e = executed_run[OF x]
  then have d: "list_all2 (rule_done ev) (oa_Cases artifact) (rn_Rules r)" by blast
  have ids: "map rl_RuleID (rn_Rules r) = map oc_RuleID (oa_Cases artifact)"
    using d by (induction rule: list_all2_induct) (simp_all add: rule_done_def)
  from valid have c: "cases_problems 0 [] [] (oa_Cases artifact) = []" by (simp add: Oracle_Validate_def)
  note n = cases_named[OF c]
  show "distinct (map rl_RuleID (rn_Rules r))" using n unfolding ids by simp
  have "\<forall>i \<in> set (map rl_RuleID (rn_Rules r)). \<not> blank i" unfolding ids using n by simp
  then show "\<forall>x \<in> set (rn_Rules r). \<not> blank (rl_RuleID x)" by simp
  show "\<forall>x \<in> set (rn_Rules r). rl_Status x \<in> {''pass'', ''fail'', ''error'', ''inconclusive''}"
    using done_status[OF d] by blast
  show "rn_Mutation r = map_option (\<lambda>m. Classify_mutation m
      (map (\<lambda>x. \<lparr>ru_RuleID = rl_RuleID x, ru_Status = rl_Status x\<rparr>) (rn_Rules r))) (cf_Mutation config)"
    using e by blast
qed

definition good_spec :: "Spec \<Rightarrow> bool" where
  "good_spec spec \<longleftrightarrow> \<not> blank (sp_ID spec) \<and> sp_ExpectedRuleIDs spec \<noteq> [] \<and> distinct (sp_ExpectedRuleIDs spec) \<and>
     (\<forall>i \<in> set (sp_ExpectedRuleIDs spec). \<not> blank i)"

lemma specs_good:
  "mutations_problems i seen specs = [] \<Longrightarrow>
     (\<forall>spec \<in> set specs. good_spec spec) \<and> distinct (map sp_ID specs) \<and> set (map sp_ID specs) \<inter> set seen = {}"
proof (induction i seen specs rule: mutations_problems.induct)
  case (2 i seen spec rest)
  from "2.prems" have p: "\<not> blank (sp_ID spec)" "sp_ID spec \<notin> set seen"
    "mutation_problems (item_path ''mutation_catalogue.mutations'' i) spec = []"
    "mutations_problems (Suc i) (sp_ID spec # seen) rest = []"
    by (auto simp: Let_def split: if_splits)
  then have "good_spec spec" by (simp add: good_spec_def mutation_problems_def expected_Nil)
  with "2.IH" p show ?case by auto
qed simp

definition entry_sound :: "EntryResult \<Rightarrow> bool" where
  "entry_sound e \<longleftrightarrow>
     (\<forall>h. en_Evidence e = Some h \<longrightarrow> valid_sha256 (er_ManifestSHA256 h) \<and> valid_sha256 (er_ChecksumsSHA256 h)) \<and>
     \<not> blank (en_EvidencePath e) \<and>
     (if en_Status e = ''error'' then \<not> blank (en_Reason e) \<and> en_Outcome e = [] \<and> en_Diagnosis e = None
      else en_Evidence e \<noteq> None \<and> en_Status e = (if en_Outcome e = ''killed'' then ''passed'' else ''failed'') \<and>
        en_Outcome e \<in> {''killed'', ''survived'', ''inconclusive''} \<and>
        (\<exists>d. en_Diagnosis e = Some d \<and> (\<forall>path. validateDiagnosis path (en_Outcome e) d = [])))"

lemma not_blank_colon: "CHR '':'' \<in> set s \<Longrightarrow> \<not> blank s"
  by (rule plain_not_blank) (simp_all add: plain_byte_def byte_def)

lemma join_with_elements: "e \<in> set es \<Longrightarrow> set e \<subseteq> set (join_with d es)"
  by (induction d es rule: join_with.induct) auto

lemma safe_runes_bytes: "\<forall>c \<in> set (safe_runes s). safe_byte c"
proof (induction s rule: safe_runes.induct)
  case (1 s)
  have "safe_byte CHR ''-''" by (simp add: safe_byte_def)
  show ?case
  proof (cases s)
    case Nil
    then show ?thesis by (subst safe_runes.simps) simp
  next
    case (Cons c r)
    then have e: "safe_runes s = (if safe_byte c then c else CHR ''-'') # safe_runes (drop (rune_width (c # r) - 1) r)"
      by (subst safe_runes.simps) simp
    from 1[OF Cons] \<open>safe_byte CHR ''-''\<close> show ?thesis unfolding e by simp
  qed
qed

lemma safeCampaignID_bytes: "c \<in> set (safeCampaignID i) \<Longrightarrow> c \<noteq> CHR ''/''"
proof -
  have "set (trim_ends cs s) \<subseteq> set s" for cs s
    by (auto simp: trim_ends_def dest!: set_dropWhileD)
  moreover have "\<not> safe_byte CHR ''/''" by (simp add: safe_byte_def is_upper_def is_digit_def byte_def)
  ultimately show "c \<in> set (safeCampaignID i) \<Longrightarrow> c \<noteq> CHR ''/''"
    using safe_runes_bytes[of i] by (auto simp: safeCampaignID_def Let_def split: if_splits)
qed

lemma split_on_single: "d \<notin> set s \<Longrightarrow> split_on d s = [s]"
  by (induction s) auto

lemma Join_keeps_last:
  assumes e: "CHR ''/'' \<notin> set e" "e \<noteq> []" "e \<noteq> ''.''" "e \<noteq> dotdot"
  shows "set e \<subseteq> set (Join root e)"
proof -
  have k: "e \<in> set (clean_elements p)" if "elements p = es @ [e]" for p es
    using e that by (simp add: clean_elements_def push_def)
  have s: "elements e = [] @ [e]" using split_on_single[OF e(1)] by simp
  show ?thesis
  proof (cases "root = []")
    case True
    with k[OF s] e(2) show ?thesis
      by (auto simp: Join_def Clean_def dest: join_with_elements[of _ _ "''/''", THEN subsetD])
  next
    case False
    have "elements (root @ ''/'' @ e) = elements root @ [e]"
      using split_on_append[of "CHR ''/''" root e] s by simp
    from k[OF this] False show ?thesis
      by (auto simp: Join_def Clean_def dest: join_with_elements[of _ _ "''/''", THEN subsetD])
  qed
qed

lemma dec_nat_no_slash: "0 \<le> n \<Longrightarrow> \<forall>c \<in> set (dec_nat n). c \<noteq> CHR ''/''"
  using dec_nat_digits[of n] by (auto simp: list_all_iff is_digit_def byte_def)

lemma pad3_bytes: "CHR ''/'' \<notin> set (pad3 n)"
  using dec_nat_no_slash[of n] dec_nat_no_slash[of "- n"] by (auto simp: pad3_def dec_string_def)

lemma entry_path_not_blank: "\<not> blank (campaignEntryPath outputDir planned)"
proof -
  let ?e = "pad3 (me_Sequence planned) @ ''-'' @ safeCampaignID (sp_ID (me_Spec planned))"
  have h: "CHR ''-'' \<in> set ?e" by simp
  have "CHR ''/'' \<notin> set ?e"
    using pad3_bytes safeCampaignID_bytes[of "CHR ''/''"] by auto
  moreover have "?e \<noteq> []" "?e \<noteq> ''.''" "?e \<noteq> dotdot" using h by (fastforce simp del: append.simps)+
  ultimately have "set ?e \<subseteq> set (Join outputDir ?e)" by (rule Join_keeps_last)
  with h have "CHR ''-'' \<in> set (campaignEntryPath outputDir planned)" unfolding campaignEntryPath_def by blast
  then show ?thesis by (intro plain_not_blank[of "CHR ''-''"]) (simp_all add: plain_byte_def byte_def)
qed

lemma refused_reason:
  assumes "launch_refused check = Some reason" "\<forall>e. la_Resolve check = Inl e \<longrightarrow> \<not> blank e"
    "\<forall>e. la_Stat check = StatFailed e \<longrightarrow> \<not> blank e"
  shows "\<not> blank reason"
proof -
  have "\<not> blank ''provider resolved an empty subject command''" "\<not> blank ''mutation evidence directory already exists''"
    by (rule plain_not_blank[of "CHR ''e''"]; simp add: plain_byte_def byte_def)+
  moreover have "\<not> blank (''verify prepared subject: '' @ e)" for e by (rule not_blank_colon) simp
  ultimately show ?thesis
    using assms by (auto simp: launch_refused_def split: sum.splits if_splits option.splits stat_result.splits)
qed

lemma finish_record_mutation: "rn_Mutation (finish_record b l r) = rn_Mutation r"
  by (simp add: finish_record_def Let_def split: option.split)

lemma entry_of_run:
  assumes x: "entry_run TYPE('s) (planned, check, run)" and l: "launch_refused check = None"
    and g: "good_spec (me_Spec planned)" and d: "\<not> blank entryDir"
  shows "entry_sound (run_entry planned entryDir run)"
proof -
  note defs = entry_sound_def run_entry_def new_entry_def readRunRecord_def Let_def
  have t: "\<not> blank (''attach campaign provenance: '' @ e)" "\<not> blank (''verify mutation evidence: '' @ e)"
    "\<not> blank (''hash mutation evidence: '' @ e)" "\<not> blank (''load mutation run record: '' @ e)" for e
    by (rule not_blank_colon, simp)+
  consider (a) e where "ru_Provenance run = Some e" | (v) e where "ru_Provenance run = None" "ru_Verify run = Some e"
    | (h) e where "ru_Provenance run = None" "ru_Verify run = None" "ru_Evidence run = Inl e"
    | (l) h e where "ru_Provenance run = None" "ru_Verify run = None" "ru_Evidence run = Inr h" "ru_Load run = Inl e"
    | (r) h r where "ru_Provenance run = None" "ru_Verify run = None" "ru_Evidence run = Inr h" "ru_Load run = Inr r"
    by (cases "ru_Provenance run"; cases "ru_Verify run"; cases "ru_Evidence run"; cases "ru_Load run") auto
  then show ?thesis
  proof cases
    case a
    with d t(1)[of e] show ?thesis by (cases "ru_Err run") (simp_all add: defs)
  next
    case v
    with d t(2)[of e] show ?thesis by (cases "ru_Err run") (simp_all add: defs)
  next
    case h
    with d t(3)[of e] show ?thesis by (cases "ru_Err run") (simp_all add: defs)
  next
    case l
    with d x t(4)[of e] show ?thesis by (cases "ru_Err run") (simp_all add: defs entry_run_def)
  next
    case r
    let ?spec = "run_mutation (mutation_flags (me_Spec planned))"
    from r x l obtain ev :: "'s Runtime" and encode artifact config s s' written b lc where
      e: "ExecuteOracle ev encode artifact config s = (Inr written, s')" "cf_Mutation config = Some ?spec"
      "r = finish_record b lc written"
      by (auto simp: entry_run_def)
    note o' = run_observations[OF e(1)]
    let ?os = "map (\<lambda>x. \<lparr>ru_RuleID = rl_RuleID x, ru_Status = rl_Status x\<rparr>) (rn_Rules written)"
    have m: "rn_Mutation r = Some (Classify_mutation ?spec ?os)" using o'(4) e by (simp add: finish_record_mutation)
    have ids: "sp_ExpectedRuleIDs ?spec = sp_ExpectedRuleIDs (me_Spec planned)" by (simp add: run_mutation_def mutation_flags_def)
    have "validateDiagnosis path (mr_Outcome (Classify_mutation ?spec ?os)) (campaignDiagnosis (Classify_mutation ?spec ?os)) = []" for path
      by (rule diagnosis_valid) (use g o'(1-3) in \<open>simp_all add: ids good_spec_def comp_def\<close>)
    moreover have "mr_Outcome (Classify_mutation ?spec ?os) \<in> {''killed'', ''survived'', ''inconclusive''}"
      using classification_record[of ?spec ?os] by (simp split: if_splits)
    ultimately show ?thesis using r m d x by (cases "ru_Err run") (simp_all add: defs entry_run_def)
  qed
qed

lemma entry_of_step:
  assumes x: "entry_run TYPE('s) (planned, check, run)" and g: "good_spec (me_Spec planned)"
  shows "entry_sound (campaign_entry outputDir planned check run)"
proof (cases "launch_refused check")
  case (Some reason)
  with x refused_reason[OF Some] entry_path_not_blank[of outputDir planned] show ?thesis
    by (auto simp: campaign_entry_def entry_run_def entry_sound_def new_entry_def)
next
  case None
  with entry_of_run[OF x None g entry_path_not_blank] show ?thesis by (simp add: campaign_entry_def)
qed

lemma campaign_entry_id:
  "en_Sequence (campaign_entry outputDir planned check run) = me_Sequence planned"
  "en_MutationID (campaign_entry outputDir planned check run) = sp_ID (me_Spec planned)"
  by (simp_all add: campaign_entry_def run_entry_def new_entry_def Let_def split: option.splits sum.splits)

lemma sound_entry_problems:
  assumes "entry_sound e" "en_Sequence e = int i + 1" "\<not> blank (en_MutationID e)" "en_MutationID e \<notin> set seen"
  shows "entry_result_problems i seen e = [] \<longleftrightarrow> (en_Status e \<noteq> ''error'' \<longrightarrow> 0 \<le> en_ExitCode e)"
proof (cases "en_Status e = ''error''")
  case True
  with assms show ?thesis
    by (auto simp: entry_sound_def entry_result_problems_def Let_def split: option.splits)
next
  case False
  from False assms(1) obtain d h where s: "en_Evidence e = Some h" "en_Diagnosis e = Some d" "\<And>path. validateDiagnosis path (en_Outcome e) d = []"
    "en_Status e = (if en_Outcome e = ''killed'' then ''passed'' else ''failed'')"
    "en_Outcome e \<in> {''killed'', ''survived'', ''inconclusive''}" "valid_sha256 (er_ManifestSHA256 h)"
    "valid_sha256 (er_ChecksumsSHA256 h)" "\<not> blank (en_EvidencePath e)"
    by (auto simp: entry_sound_def)
  have "\<not> blank (en_Outcome e)"
    using s(5) plain_not_blank[of "CHR ''i''"] by (auto simp: plain_byte_def byte_def)
  with s assms show ?thesis by (simp add: entry_result_problems_def Let_def not_less)
qed

lemma sound_entries_problems:
  "\<forall>e \<in> set es. entry_sound e \<Longrightarrow> \<forall>n < length es. en_Sequence (es ! n) = int (i + n) + 1 \<Longrightarrow>
     \<forall>e \<in> set es. \<not> blank (en_MutationID e) \<Longrightarrow> distinct (map en_MutationID es) \<Longrightarrow>
     set (map en_MutationID es) \<inter> set seen = {} \<Longrightarrow>
     entries_problems i seen es = [] \<longleftrightarrow> (\<forall>e \<in> set es. en_Status e \<noteq> ''error'' \<longrightarrow> 0 \<le> en_ExitCode e)"
proof (induction es arbitrary: i seen)
  case (Cons e es)
  have "en_Sequence e = int i + 1" using Cons.prems(2) by force
  moreover have "\<forall>n < length es. en_Sequence (es ! n) = int (Suc i + n) + 1" using Cons.prems(2) by force
  ultimately show ?case
    using Cons.prems Cons.IH[of "Suc i" "next_seen seen (en_MutationID e)"] sound_entry_problems[of e i seen]
    by (auto simp: next_seen_def)
qed simp

definition with_entry_status :: "string \<Rightarrow> EntryResult list \<Rightarrow> EntryResult list" where
  "with_entry_status s es = filter (\<lambda>e. en_Status e = s) es"

lemma counted_entries:
  "fold count_entry es (s, st) = (s', st') \<Longrightarrow> \<forall>e \<in> set es. entry_sound e \<Longrightarrow> st \<in> {''passed'', ''failed'', ''error''} \<Longrightarrow>
     cs_Total s' = cs_Total s \<and> cs_Other s' = cs_Other s \<and>
     cs_Killed s' + cs_Survived s' + cs_Inconclusive s' + cs_Errors s' =
       cs_Killed s + cs_Survived s + cs_Inconclusive s + cs_Errors s + int (length es) \<and>
     cs_Killed s' = cs_Killed s + int (length (with_entry_status ''passed'' es)) \<and>
     cs_Errors s' = cs_Errors s + int (length (with_entry_status ''error'' es)) \<and>
     st' \<in> {''passed'', ''failed'', ''error''} \<and>
     (st' = ''passed'' \<longleftrightarrow> st = ''passed'' \<and> (\<forall>e \<in> set es. en_Status e = ''passed'')) \<and>
     (st' = ''error'' \<longleftrightarrow> st = ''error'' \<or> (\<exists>e \<in> set es. en_Status e = ''error''))"
proof (induction es arbitrary: s st)
  case (Cons e es)
  obtain t u where t: "count_entry e (s, st) = (t, u)" by fastforce
  with Cons.prems(1) have f: "fold count_entry es (t, u) = (s', st')" by simp
  from Cons.prems(2) have e: "entry_sound e" by simp
  have u: "u \<in> {''passed'', ''failed'', ''error''}" "u = ''passed'' \<longleftrightarrow> st = ''passed'' \<and> en_Status e = ''passed''"
    "u = ''error'' \<longleftrightarrow> st = ''error'' \<or> en_Status e = ''error''"
    "cs_Total t = cs_Total s" "cs_Other t = cs_Other s"
    "cs_Killed t + cs_Survived t + cs_Inconclusive t + cs_Errors t =
       cs_Killed s + cs_Survived s + cs_Inconclusive s + cs_Errors s + 1"
    "cs_Killed t = cs_Killed s + (if en_Status e = ''passed'' then 1 else 0)"
    "cs_Errors t = cs_Errors s + (if en_Status e = ''error'' then 1 else 0)"
  proof -
    consider "en_Status e = ''error''" "en_Outcome e = []" | "en_Status e = ''passed''" "en_Outcome e = ''killed''"
      | "en_Status e = ''failed''" "en_Outcome e = ''survived''" | "en_Status e = ''failed''" "en_Outcome e = ''inconclusive''"
      using e by (auto simp: entry_sound_def split: if_splits)
    then show "u \<in> {''passed'', ''failed'', ''error''}" "u = ''passed'' \<longleftrightarrow> st = ''passed'' \<and> en_Status e = ''passed''"
      "u = ''error'' \<longleftrightarrow> st = ''error'' \<or> en_Status e = ''error''"
      "cs_Total t = cs_Total s" "cs_Other t = cs_Other s"
      "cs_Killed t + cs_Survived t + cs_Inconclusive t + cs_Errors t =
         cs_Killed s + cs_Survived s + cs_Inconclusive s + cs_Errors s + 1"
      "cs_Killed t = cs_Killed s + (if en_Status e = ''passed'' then 1 else 0)"
      "cs_Errors t = cs_Errors s + (if en_Status e = ''error'' then 1 else 0)"
      using t Cons.prems(3) by (cases; auto simp: count_entry_def)+
  qed
  have "\<forall>e \<in> set es. entry_sound e" using Cons.prems(2) by simp
  note ih = Cons.IH[OF f this u(1)]
  have l: "int (length (with_entry_status x (e # es))) = int (length (with_entry_status x es)) + (if en_Status e = x then 1 else 0)" for x
    by (simp add: with_entry_status_def)
  have p: "st' = ''passed'' \<longleftrightarrow> st = ''passed'' \<and> (\<forall>x \<in> set (e # es). en_Status x = ''passed'')" using ih u(2) by auto
  have q: "st' = ''error'' \<longleftrightarrow> st = ''error'' \<or> (\<exists>x \<in> set (e # es). en_Status x = ''error'')" using ih u(3) by auto
  have m: "st' \<in> {''passed'', ''failed'', ''error''}" using ih by blast
  show ?case by (intro conjI; (fact p | fact q | fact m | (use ih u(4-) l in simp)))
qed (simp add: with_entry_status_def)

lemma campaign_entries:
  assumes plan: "Plan_Validate plan = []" and xs: "map fst xs = pl_Mutations plan"
    and runs: "\<forall>x \<in> set xs. entry_run TYPE('s) x"
    and es: "entries = map (\<lambda>(planned, check, run). campaign_entry outputDir planned check run) xs"
  shows "map en_MutationID entries = map (\<lambda>m. sp_ID (me_Spec m)) (pl_Mutations plan)"
    "entries \<noteq> []" "length entries = length (pl_Mutations plan)" "\<forall>e \<in> set entries. entry_sound e"
    "entries_problems 0 [] entries = [] \<longleftrightarrow> (\<forall>e \<in> set entries. en_Status e \<noteq> ''error'' \<longrightarrow> 0 \<le> en_ExitCode e)"
proof -
  from plan have p: "pl_Mutations plan \<noteq> []" "over_items entry_problems 0 (pl_Mutations plan) = []"
    "mutations_problems 0 [] (map me_Spec (pl_Mutations plan)) = []"
    by (simp_all add: Plan_Validate_def Catalogue_Validate_def)
  note g = specs_good[OF p(3)]
  have ids: "map en_MutationID entries = map (\<lambda>m. sp_ID (me_Spec m)) (pl_Mutations plan)"
    "map en_Sequence entries = map me_Sequence (pl_Mutations plan)"
    unfolding es xs[symmetric] by (auto simp: campaign_entry_id)
  have len: "length entries = length (pl_Mutations plan)" using ids(1) by (metis length_map)
  have sound: "\<forall>e \<in> set entries. entry_sound e"
  proof
    fix e assume "e \<in> set entries"
    then obtain m c r where x: "(m, c, r) \<in> set xs" "e = campaign_entry outputDir m c r" unfolding es by auto
    from x(1) have "m \<in> set (pl_Mutations plan)" unfolding xs[symmetric] by force
    with g have "good_spec (me_Spec m)" by simp
    with x runs show "entry_sound e" using entry_of_step by blast
  qed
  have seq: "\<forall>n < length entries. en_Sequence (entries ! n) = int (0 + n) + 1"
  proof (intro allI impI)
    fix n assume n: "n < length entries"
    have "en_Sequence (entries ! n) = me_Sequence (pl_Mutations plan ! n)"
      using ids(2) n len by (metis nth_map)
    then show "en_Sequence (entries ! n) = int (0 + n) + 1"
      using p(2) n len by (simp add: over_items_Nil entry_problems_def)
  qed
  have named: "distinct (map en_MutationID entries)" "\<forall>i \<in> set (map en_MutationID entries). \<not> blank i"
    unfolding ids(1) using g by (auto simp: good_spec_def comp_def)
  from named(2) have nb: "\<forall>e \<in> set entries. \<not> blank (en_MutationID e)" by simp
  have e: "entries_problems 0 [] entries = [] \<longleftrightarrow> (\<forall>e \<in> set entries. en_Status e \<noteq> ''error'' \<longrightarrow> 0 \<le> en_ExitCode e)"
    by (rule sound_entries_problems[OF sound seq nb named(1)]) simp
  have "entries \<noteq> []" using len p(1) by auto
  with ids(1) len sound e show "map en_MutationID entries = map (\<lambda>m. sp_ID (me_Spec m)) (pl_Mutations plan)"
    "entries \<noteq> []" "length entries = length (pl_Mutations plan)" "\<forall>e \<in> set entries. entry_sound e"
    "entries_problems 0 [] entries = [] \<longleftrightarrow> (\<forall>e \<in> set entries. en_Status e \<noteq> ''error'' \<longrightarrow> 0 \<le> en_ExitCode e)"
    by blast+
qed

text \<open>C40. The result of a campaign over a valid plan has one entry for each planned mutation, whether it was
  launched or refused before.  It passes its own validation exactly when the plan's path and digests and the
  times are in order and no completed run ended without an exit code: the diagnosis of an entry always agrees
  with its outcome.  The campaign passes exactly when every planned mutation was killed, a mutation that was not
  launched makes it an error, and the four counts add up to the plan.\<close>

theorem campaign_result_exact:
  assumes plan: "Plan_Validate plan = []" and xs: "map fst xs = pl_Mutations plan"
    and runs: "\<forall>x \<in> set xs. entry_run TYPE('s) x"
    and es: "entries = map (\<lambda>(planned, check, run). campaign_entry outputDir planned check run) xs"
  shows "(ValidateResult (buildCampaignResult path hash semantic startedAt now entries) = [] \<longleftrightarrow>
      \<not> blank path \<and> valid_sha256 hash \<and> \<not> subject_policy_problem semantic \<and>
      \<not> is_zero startedAt \<and> \<not> is_zero now \<and> startedAt \<le> now \<and>
      (\<forall>e \<in> set entries. en_Status e \<noteq> ''error'' \<longrightarrow> 0 \<le> en_ExitCode e)) \<and>
    map en_MutationID entries = map (\<lambda>m. sp_ID (me_Spec m)) (pl_Mutations plan) \<and>
    (cm_Status (buildCampaignResult path hash semantic startedAt now entries) = ''passed'' \<longleftrightarrow>
      (\<forall>e \<in> set entries. en_Outcome e = ''killed'')) \<and>
    (cm_Status (buildCampaignResult path hash semantic startedAt now entries) = ''error'' \<longleftrightarrow>
      (\<exists>e \<in> set entries. en_Status e = ''error'')) \<and>
    (\<forall>(planned, check, run) \<in> set xs. launch_refused check \<noteq> None \<longrightarrow>
      cm_Status (buildCampaignResult path hash semantic startedAt now entries) = ''error'') \<and>
    (let n = cm_Summary (buildCampaignResult path hash semantic startedAt now entries)
     in cs_Killed n + cs_Survived n + cs_Inconclusive n + cs_Errors n = int (length (pl_Mutations plan)) \<and> cs_Other n = 0)"
proof -
  note f = campaign_entries[OF plan xs runs es]
  obtain n st where c: "count_entries entries = (n, st)" by fastforce
  note k = counted_entries[OF c[unfolded count_entries_def] f(4)]
  have b: "buildCampaignResult path hash semantic startedAt now entries =
      \<lparr>cm_Schema = ResultSchema, cm_Status = st, cm_Plan = \<lparr>pr_Path = path, pr_SHA256 = hash, pr_SemanticSHA256 = semantic\<rparr>,
       cm_StartedAt = startedAt, cm_FinishedAt = now, cm_Summary = n, cm_Entries = entries\<rparr>"
    by (simp add: buildCampaignResult_def c)
  have o': "en_Status x = ''passed'' \<longleftrightarrow> en_Outcome x = ''killed''" if "x \<in> set entries" for x
    using bspec[OF f(4) that] by (auto simp: entry_sound_def split: if_splits)
  have v: "ValidateResult (buildCampaignResult path hash semantic startedAt now entries) = [] \<longleftrightarrow>
      \<not> blank path \<and> valid_sha256 hash \<and> \<not> subject_policy_problem semantic \<and>
      \<not> is_zero startedAt \<and> \<not> is_zero now \<and> startedAt \<le> now \<and>
      (\<forall>e \<in> set entries. en_Status e \<noteq> ''error'' \<longrightarrow> 0 \<le> en_ExitCode e)"
    unfolding b ValidateResult_def f(5)[symmetric] using c k f(2) by (auto simp: not_less)
  have "\<exists>e \<in> set entries. en_Status e = ''error''" if "(planned, check, run) \<in> set xs" "launch_refused check \<noteq> None"
    for planned check run
  proof -
    have "en_Status (campaign_entry outputDir planned check run) = ''error''" using that(2) by (auto simp: campaign_entry_def)
    with that(1) show ?thesis unfolding es by force
  qed
  then have refused: "\<forall>(planned, check, run) \<in> set xs. launch_refused check \<noteq> None \<longrightarrow>
      cm_Status (buildCampaignResult path hash semantic startedAt now entries) = ''error''"
    using k b by auto
  have status: "cm_Status (buildCampaignResult path hash semantic startedAt now entries) = ''passed'' \<longleftrightarrow>
      (\<forall>e \<in> set entries. en_Outcome e = ''killed'')"
    "cm_Status (buildCampaignResult path hash semantic startedAt now entries) = ''error'' \<longleftrightarrow>
      (\<exists>e \<in> set entries. en_Status e = ''error'')"
    using k b o' by simp_all
  have counts: "cs_Killed n + cs_Survived n + cs_Inconclusive n + cs_Errors n = int (length (pl_Mutations plan)) \<and> cs_Other n = 0"
    using k f(3) by simp
  show ?thesis
    by (intro conjI; (rule v | rule f(1) | rule status | rule refused | (use counts b in \<open>simp add: Let_def\<close>)))
qed

definition sample_launch :: LaunchCheck where
  "sample_launch = \<lparr>la_Resolve = Inr [''./subject''], la_Verify = None, la_Stat = Missing\<rparr>"

definition sample_refusal :: LaunchCheck where
  "sample_refusal = \<lparr>la_Resolve = Inr [''./subject''], la_Verify = Some ''executable changed'', la_Stat = Missing\<rparr>"

definition sample_plan :: Plan where
  "sample_plan =
     \<lparr>pl_Schema = PlanSchema, pl_Status = ''ready'',
      pl_Catalogue = \<lparr>cr_Path = ''mutations.yaml'', cr_ID = ''users-mutations'', cr_Version = 1, cr_SHA256 = sample_digest\<rparr>,
      pl_Contract = oa_Contract sample_oracle, pl_Oracle = \<lparr>or_Schema = OracleSchema, or_SHA256 = sample_digest\<rparr>,
      pl_Baseline = sample_baseline, pl_OraclePolicySHA256 = sample_digest, pl_SubjectPolicySHA256 = [],
      pl_Mutations = [\<lparr>me_Sequence = 1, me_Spec = sample_named_mutation\<rparr>,
        \<lparr>me_Sequence = 2, me_Spec = sample_named_mutation\<lparr>sp_ID := ''skip-audit''\<rparr>\<rparr>]\<rparr>"

definition sample_entry_run :: "RunRecord \<Rightarrow> EntryRun" where
  "sample_entry_run r =
     \<lparr>ru_Provenance = None, ru_Verify = None,
      ru_Evidence = Inr \<lparr>er_ManifestSHA256 = sample_digest, er_ChecksumsSHA256 = sample_digest\<rparr>,
      ru_Load = Inr r, ru_Err = None, ru_ExitCode = 0\<rparr>"

definition sample_access :: AccessTelemetry where
  "sample_access = \<lparr>tel_Status = ''captured'', tel_Source = ''sampler'', tel_ProcessID = 7, tel_ProcessIDs = [7],
     tel_EventCount = 2, tel_ParseErrors = 0, tel_ProcessTreeErrors = 0, tel_SampleCount = 4, tel_SamplingIntervalMS = 50,
     tel_SamplingStartedAt = 1, tel_SamplingStoppedAt = 9, tel_ObservationCount = 2, tel_ObservationErrors = 0,
     tel_Reason = []\<rparr>"

definition sample_lifecycle :: LifecycleRecord where
  "sample_lifecycle = \<lparr>lc_Mode = ''managed-process'', lc_Sandbox = None, lc_Access = Some sample_access\<rparr>"

text \<open>A plan of two mutations, the first run with what its flags carry and completed with the baseline and a
  captured lifecycle, the second refused since its prepared subject does not verify.\<close>

lemma campaign_result_exact_witness:
  "\<exists>written. ExecuteOracle sample_runtime (\<lambda>a. Inr ''{}'') sample_oracle
       (sample_config\<lparr>cf_Mutation := Some (run_mutation (mutation_flags sample_named_mutation))\<rparr>) () = (Inr written, ()) \<and>
     (let run = sample_entry_run (finish_record (Some sample_baseline) sample_lifecycle written);
          entries = [campaign_entry ''out'' (pl_Mutations sample_plan ! 0) sample_launch run,
            campaign_entry ''out'' (pl_Mutations sample_plan ! 1) sample_refusal run];
          result = buildCampaignResult ''plan.json'' sample_digest [] 1 2 entries
      in ValidateResult result = [] \<and> cm_Status result = ''error'')"
proof -
  let ?c = "sample_config\<lparr>cf_Mutation := Some (run_mutation (mutation_flags sample_named_mutation))\<rparr>"
  let ?m = "pl_Mutations sample_plan ! 0" and ?n = "pl_Mutations sample_plan ! 1"
  have "case ExecuteOracle sample_runtime (\<lambda>a. Inr ''{}'') sample_oracle ?c () of (Inl e, t) \<Rightarrow> False | (Inr r, t) \<Rightarrow> True"
    by code_simp
  then obtain w where w: "ExecuteOracle sample_runtime (\<lambda>a. Inr ''{}'') sample_oracle ?c () = (Inr w, ())"
    by (auto split: prod.splits sum.splits)
  let ?r = "sample_entry_run (finish_record (Some sample_baseline) sample_lifecycle w)"
  let ?xs = "[(?m, sample_launch, ?r), (?n, sample_refusal, ?r)]"
  have plan: "Plan_Validate sample_plan = []" by code_simp
  have d: "valid_sha256 sample_digest" "\<not> blank ''plan.json''" "\<not> subject_policy_problem []" by (code_simp+)
  have m: "me_Spec ?m = sample_named_mutation" by (simp add: sample_plan_def)
  let ?f = "finish_record (Some sample_baseline) sample_lifecycle w"
  have readback: "\<exists>(ev :: unit Runtime) encode artifact config s s' written baseline lifecycle.
      ExecuteOracle ev encode artifact config s = (Inr written, s') \<and>
      cf_Mutation config = Some (run_mutation (mutation_flags sample_named_mutation)) \<and>
      ?f = finish_record baseline lifecycle written"
    by (intro exI conjI, rule w) (simp, rule refl)
  have load: "ru_Load ?r = Inr ?f" "ru_Evidence ?r = Inr \<lparr>er_ManifestSHA256 = sample_digest, er_ChecksumsSHA256 = sample_digest\<rparr>"
    by (simp_all add: sample_entry_run_def)
  have x: "entry_run TYPE(unit) (?m, sample_launch, ?r)"
    unfolding entry_run_def prod.case m load using readback d(1) by (simp add: sample_launch_def)
  have y: "entry_run TYPE(unit) (?n, sample_refusal, ?r)"
    using d by (simp add: entry_run_def sample_entry_run_def sample_refusal_def launch_refused_def)
  have xs: "map fst ?xs = pl_Mutations sample_plan" by (simp add: sample_plan_def)
  have xr: "\<forall>x \<in> set ?xs. entry_run TYPE(unit) x" using x y by simp
  let ?es = "[campaign_entry ''out'' ?m sample_launch ?r, campaign_entry ''out'' ?n sample_refusal ?r]"
  have es: "?es = map (\<lambda>(planned, check, run). campaign_entry ''out'' planned check run) ?xs" by simp
  note t = campaign_result_exact[OF plan xs xr es, of "''plan.json''" sample_digest "[]" 1 2]
  have exit: "en_ExitCode (campaign_entry ''out'' ?m sample_launch ?r) = 0" "en_Status (campaign_entry ''out'' ?n sample_refusal ?r) = ''error''"
    by (simp_all add: campaign_entry_def run_entry_def new_entry_def launch_refused_def sample_launch_def sample_refusal_def
        sample_entry_run_def Let_def split: option.splits sum.splits)
  have "ValidateResult (buildCampaignResult ''plan.json'' sample_digest [] 1 2 ?es) = []"
    using t d exit by (simp add: is_zero_def)
  moreover have "cm_Status (buildCampaignResult ''plan.json'' sample_digest [] 1 2 ?es) = ''error''"
    using t exit(2) by simp
  ultimately show ?thesis using w by (intro exI[of _ w] conjI) (simp_all add: Let_def)
qed

end
