(* ===== verification/Spec2Isabelle.thy ===== *)
theory Spec2Isabelle
  imports AmberIncoming AmberSharing HammondRotation HammondCodec LockwoodLineage LockwoodRedaction NublarProps
    PaddockProps SattlerInquiry SornaCampaignProps
begin

text \<open>
  A verification development for the Go implementations of InGen, an ecosystem for contract
  verification whose parts exchange files: Sorna seals contracts, freezes oracles and runs them against
  a subject, Hammond governs the approval of contracts, Paddock checks the architecture of a source
  tree, Amber carries the provenance of work, Lockwood keeps artifacts and their custody, Nublar
  collects the results of the tools into a run and delivers a decision, Sattler compares two states of
  all of these and keeps their history.  The tools do not call one another; what they share is the
  result envelope of core/ciresult, the files that Nublar and Sattler read, and the digests by which
  they name each other's artifacts.  All paths below are under src/.

  \<^bold>\<open>Theories.\<close>
  \<^item> \<open>Prelude\<close> (guards, first errors, Go maps as association lists, runs of operations), \<open>GoStrings\<close>
    (what is used of \<open>strings\<close>, \<open>unicode/utf8\<close> and the digest checks), \<open>GoTime\<close>
    (\<open>time.Parse\<close> of RFC 3339 on bytes), \<open>GoPaths\<close> (\<open>filepath.Clean\<close> and \<open>Join\<close>),
    \<open>GraphSearch\<close> (settled sets of a depth-first search) and \<open>Components\<close> (Tarjan's search).
  \<^item> Amber, amber/go: \<open>AmberTypes\<close> (the provenance value and \<open>Validate\<close>), \<open>AmberTransitions\<close>
    (\<open>Start\<close>, \<open>Child\<close>, \<open>Retry\<close>, \<open>Replay\<close> and the wire format), \<open>AmberFlow\<close> (runs of transitions),
    \<open>AmberIncoming\<close> (contexts and incoming bytes), \<open>AmberSharing\<close> (the pointers in an attribution).
  \<^item> Hammond, hammond/internal/governance: \<open>HammondTypes\<close>, \<open>HammondPolicy\<close> (policy.go),
    \<open>HammondRecord\<close> (validate.go, lifecycle.go), \<open>HammondLife\<close> (the abstract lifecycle and the proof
    that validation implements it), \<open>HammondProps\<close>; \<open>HammondLineage\<close> (lineage.go, amendment.go);
    \<open>HammondAuthority\<close>, \<open>HammondTrust\<close>, \<open>HammondRotation\<close> (grants, memberships, trust and root
    stores, signatures, replacement); \<open>HammondCodec\<close> (codec.go, rooted.go).
  \<^item> Lockwood, lockwood/internal: \<open>LockwoodTypes\<close>, \<open>LockwoodStore\<close> and \<open>LockwoodHandling\<close> (custody records,
    handling events, redactions), \<open>LockwoodProps\<close>; \<open>LockwoodBlobs\<close> (integrity and the artifact store),
    \<open>LockwoodIntake\<close> (ingest.go over both stores), \<open>LockwoodLineage\<close> (verification of records and of
    their lineage graph, and the reports), \<open>LockwoodRedaction\<close> (promotion of a redaction and its status).
  \<^item> Nublar, nublar/internal, with core/ciresult: \<open>CIResult\<close>, \<open>NublarWorkflow\<close> (workflow documents,
    loading, aggregation), \<open>NublarRun\<close> (run.go, collect.go), \<open>NublarDelivery\<close> (projection.go),
    \<open>NublarProps\<close>.
  \<^item> Paddock, paddock/internal: \<open>PaddockMatch\<close> (the model and the path patterns), \<open>PaddockChecker\<close>
    (the rules), \<open>PaddockSearch\<close> (the breadth-first search), \<open>PaddockVerdict\<close> (classification, cycles,
    waivers, \<open>CheckGraph\<close>), \<open>PaddockReport\<close> (what is reported, in terms of the graph),
    \<open>PaddockProps\<close>.

  \<^item> Sorna, sorna/internal: \<open>SornaJson\<close> (values of type \<open>any\<close>), \<open>SornaContract\<close> and \<open>SornaSealing\<close>
    (contract/contract.go), \<open>SornaOracle\<close> (oracle/oracle.go), \<open>SornaMutation\<close> (mutation/mutation.go,
    catalogue.go), \<open>SornaEval\<close> and \<open>SornaConform\<close> (runner/runner.go, the evaluation of an expectation and
    what it decides), \<open>SornaRequest\<close> (requests, templates, observations), \<open>SornaRunner\<close> (isolation, setup,
    one case), \<open>SornaRun\<close> (the run, its record and record.go), \<open>SornaProps\<close>, \<open>SornaCampaign\<close> and
    \<open>SornaResult\<close> (campaign/plan.go, result.go, and of cmd/sorna/main.go the launch checks, flags and
    entries of a campaign and what the run command adds to the record of a run),
    \<open>SornaCampaignProps\<close>.
  \<^item> Sattler, sattler: \<open>SattlerChange\<close> (changes, identifiers, filters), \<open>SattlerCI\<close> (result envelopes),
    \<open>SattlerAdapters\<close> (Nublar runs, custody, provenance), \<open>SattlerSorna\<close> (Sorna runs and campaigns),
    \<open>SattlerBundle\<close> (manifests, bundles, correlations, error documents), \<open>SattlerSeries\<close> (histories),
    \<open>SattlerProps\<close>, \<open>SattlerInvestigation\<close>, \<open>SattlerQuery\<close> and \<open>SattlerInquiry\<close> (their properties).

  \<^bold>\<open>How the code is read.\<close>  Structures are records with the fields of the code, functions keep its
  names, a function that returns an error has type \<open>'e option\<close> or \<open>'e + 'a\<close>, and error texts are
  kept.  Strings are byte strings.  A map is an association list; where the code ranges over a map,
  the list, or an argument, stands for the order of the iteration, and the theorems hold for
  every order.  A mutex makes a method one step on the state of its store; the interface a function
  takes is an argument of its definition.  The JSON and YAML codecs, the file system,
  the clock, random bytes, SHA-256, Ed25519, base64, \<open>net/url\<close>, \<open>path.Match\<close> and \<open>fmt\<close> of a value are
  arguments; a theorem that needs something of them says so in a hypothesis.  Integers keep their
  width where the code can overflow (depth and attempt of Amber, durations, layer numbers of
  Paddock) and are \<open>int\<close> or \<open>nat\<close> where they are only compared or counted.

  \<^bold>\<open>What the lemmas show.\<close>  For each operation, when it succeeds and what it then returns (the lemmas
  \<open>..._Inr\<close>, \<open>..._None\<close>, \<open>..._Nil\<close>, \<open>..._cases\<close>); invariants of the stores under every operation, then
  under every sequence of operations; the abstract contracts: the lifecycle of a governance record,
  the locales of append-only stores and content-addressed stores and of replaced snapshots, each
  interpreted on the model, the reading of a path pattern as an inductive relation, and the
  requirement of an architecture rule with reachability and acyclicity in place of the searches.
  The properties, numbered C1, C2 and so on in the text before each, are stated in the theories
  whose names end in \<open>Props\<close> and at the end of \<open>AmberFlow\<close>, \<open>AmberIncoming\<close>, \<open>AmberSharing\<close>,
  \<open>HammondRotation\<close>, \<open>HammondCodec\<close>, \<open>LockwoodIntake\<close>, \<open>LockwoodLineage\<close>, \<open>LockwoodRedaction\<close>,
  \<open>SattlerInquiry\<close>, \<open>SornaSealing\<close>, \<open>SornaOracle\<close> and \<open>SornaMutation\<close>.  For Sorna they lead from a
  draft to a verdict: a sealed document is the draft with its digests, an oracle has its rules as cases,
  the assertions of a case pass exactly when the observation conforms, the verdict of a run follows
  from the cases, and the result of a campaign from the verdicts on its mutations.  For Sattler they say what a comparison, a history, a query and an investigation
  report, and when what is reported passes the validation that guards the output.

  \<^bold>\<open>Fuel.\<close>  Three searches run on fuel.  Hammond's cycle search gets the number of records and edge
  targets plus one, and a node is expanded once.  Paddock's breadth-first search gets the number of
  indexed packages plus one, and a package is queued once; its search for components gets the
  number of packages in scope, and each level of the recursion enters a node that was not seen.  The
  properties on these searches prove that they end within it.  Lockwood's walk over the lineage graph
  is total by the set of digests not on the path; all other recursion is structural or has its
  measure in place.

  \<^bold>\<open>Not modelled.\<close>  The command line programs (what runs and campaigns record apart), the HTTP, GitHub, OpenTelemetry and PostgreSQL adapters, the
  stores on the file system with their locks and crash recovery, and the sandboxed processes of Sorna
  are effects of processes, files and networks, of which little would remain once the system calls are
  arguments; the same holds of most of Herdr Sentinel, whose sessions are sockets and processes.  The
  graph loaders of Paddock are parsers of other languages.  Malcolm is written in Rust and the second
  Amber library in TypeScript.  Text writers that print a modelled report are left out.  Pure parts that
  remain are Sorna's evidence bundles and their replay, Lockwood's cleanup plans and
  attestations, Paddock's reports around the checker, and the evidence and gate checks of Herdr Sentinel;
  they are left out for their size, not for their nature.
\<close>

end
